(* ===== verification/KaroxPrelude.thy ===== *)
theory KaroxPrelude imports Complex_Main "HOL-Library.AList" "HOL-Library.List_Lexorder" "HOL-Library.Sublist" begin

text \<open>
  Shared vocabulary of the development: the types and helper operations that stand for the
  Python data the KaroX sources use.

  A Python \<^verbatim>\<open>str\<close> is a sequence of Unicode code points, so \<open>pystr\<close> is a list of natural
  numbers; \<open>lit\<close> turns an ASCII literal into one. A \<^verbatim>\<open>dict\<close> keeps insertion order, so it is an
  association list with distinct keys, updated by \<open>AList.update\<close> (in place for an old key, at the
  end for a new one) and \<open>AList.delete\<close>. A raised exception is the \<open>Inl\<close> side of a sum. A
  \<^verbatim>\<open>float\<close> is an exact real number; rounding of floating-point arithmetic is not modelled.
\<close>

named_theorems pystr_simps "evaluation of string operations on literals"

type_synonym pystr = "nat list"
type_synonym ('k, 'v) dict = "('k \<times> 'v) list"

section \<open>Strings\<close>

definition lit :: "string \<Rightarrow> pystr" where
  "lit s = map of_char s"

lemma lit_Nil [simp]: "lit [] = []"
  by (simp add: lit_def)

lemma lit_inject [simp]: "lit a = lit b \<longleftrightarrow> a = b"
  by (simp add: lit_def inj_map_eq_map inj_of_char)

lemma inj_lit [simp]: "inj lit"
  by (rule injI) simp

lemma lit_eq_Nil [simp]: "lit a = [] \<longleftrightarrow> a = []" "[] = lit a \<longleftrightarrow> a = []"
  by (auto simp: lit_def)

lemma lit_mem_image [simp]: "lit a \<in> lit ` S \<longleftrightarrow> a \<in> S"
  by (simp add: inj_image_mem_iff)

lemma lit_mem_map [simp]: "lit a \<in> set (map lit xs) \<longleftrightarrow> a \<in> set xs"
  by auto

text \<open>\<^verbatim>\<open>str.isspace\<close> for one code point, the characters \<^verbatim>\<open>str.strip()\<close> removes.\<close>

definition py_space :: "nat \<Rightarrow> bool" where
  "py_space c \<longleftrightarrow> 9 \<le> c \<and> c \<le> 13 \<or> 28 \<le> c \<and> c \<le> 32 \<or> c = 133 \<or> c = 160 \<or> c = 5760
     \<or> 8192 \<le> c \<and> c \<le> 8202 \<or> c = 8232 \<or> c = 8233 \<or> c = 8239 \<or> c = 8287 \<or> c = 12288"

text \<open>Large code points are compared as integers when the definition is evaluated.\<close>

lemma py_space_code [code]:
  "py_space c = (let i = int c in 9 \<le> i \<and> i \<le> 13 \<or> 28 \<le> i \<and> i \<le> 32 \<or> i = 133 \<or> i = 160
     \<or> i = 5760 \<or> 8192 \<le> i \<and> i \<le> 8202 \<or> i = 8232 \<or> i = 8233 \<or> i = 8239 \<or> i = 8287 \<or> i = 12288)"
  by (auto simp: py_space_def Let_def)

definition strip_by :: "('a \<Rightarrow> bool) \<Rightarrow> 'a list \<Rightarrow> 'a list" where
  "strip_by P s = rev (dropWhile P (rev (dropWhile P s)))"

definition py_strip :: "pystr \<Rightarrow> pystr" where
  "py_strip s = strip_by py_space s"

definition replace_char :: "'a \<Rightarrow> 'a \<Rightarrow> 'a list \<Rightarrow> 'a list" where
  "replace_char a b s = map (\<lambda>c. if c = a then b else c) s"

lemma length_replace_char [simp]: "length (replace_char a b s) = length s"
  by (simp add: replace_char_def)

lemma length_strip_by: "length (strip_by P s) \<le> length s"
proof -
  have "length (dropWhile P (rev (dropWhile P s))) \<le> length (dropWhile P s)"
    by (metis length_dropWhile_le length_rev)
  also have "\<dots> \<le> length s" by (rule length_dropWhile_le)
  finally show ?thesis by (simp add: strip_by_def)
qed

text \<open>\<^verbatim>\<open>s.rstrip()\<close>\<close>

definition py_rstrip :: "pystr \<Rightarrow> pystr" where
  "py_rstrip s = rev (dropWhile py_space (rev s))"

lemma dropWhile_idem [simp]: "dropWhile P (dropWhile P s) = dropWhile P s"
  by (induction s) auto

lemma strip_by_append_keep:
  assumes "\<not> P c"
  shows "strip_by P (dropWhile P s @ [c]) = dropWhile P s @ [c]"
proof -
  have "dropWhile P (dropWhile P s @ [c]) = dropWhile P s @ [c]"
    using assms by (induction s) auto
  with assms show ?thesis by (simp add: strip_by_def)
qed

lemma strip_by_fixpoint:
  "(s = [] \<or> \<not> P (hd s) \<and> \<not> P (last s)) \<Longrightarrow> strip_by P s = s"
proof -
  assume a: "s = [] \<or> \<not> P (hd s) \<and> \<not> P (last s)"
  show ?thesis
  proof (cases "s = []")
    case False
    with a have "dropWhile P s = s" by (cases s) auto
    moreover from a False have "dropWhile P (rev s) = rev s" by (cases s rule: rev_cases) auto
    ultimately show ?thesis by (simp add: strip_by_def)
  qed (simp add: strip_by_def)
qed

lemma dropWhile_hd: "dropWhile P s \<noteq> [] \<Longrightarrow> \<not> P (hd (dropWhile P s))"
  by (rule hd_dropWhile)

lemma hd_strip_by: "strip_by P s \<noteq> [] \<Longrightarrow> \<not> P (hd (strip_by P s)) \<and> \<not> P (last (strip_by P s))"
proof -
  assume ne: "strip_by P s \<noteq> []"
  let ?a = "dropWhile P s" and ?b = "dropWhile P (rev (dropWhile P s))"
  from ne have b: "?b \<noteq> []" by (simp add: strip_by_def)
  then have l: "\<not> P (last (strip_by P s))" using dropWhile_hd [OF b] by (simp add: strip_by_def last_rev)
  have "suffix ?b (rev ?a)" by (rule suffix_dropWhile)
  then obtain zs where "rev ?a = zs @ ?b" by (auto simp: suffix_def)
  then have "?a = rev ?b @ rev zs" by (metis rev_append rev_rev_ident)
  then have "hd ?a = hd (rev ?b)" using b by (metis hd_append2 rev_is_Nil_conv)
  then have "hd (strip_by P s) = hd ?a" by (simp only: strip_by_def)
  moreover have "?a \<noteq> []" using b by (cases "?a") simp_all
  ultimately show ?thesis using l dropWhile_hd by metis
qed

lemma strip_by_idem [simp]: "strip_by P (strip_by P s) = strip_by P s"
  by (rule strip_by_fixpoint) (use hd_strip_by in blast)

text \<open>\<^verbatim>\<open>s.split(sep)\<close> for a one-character separator, and \<^verbatim>\<open>sep.join(parts)\<close>.\<close>

fun split_char :: "'a \<Rightarrow> 'a list \<Rightarrow> 'a list list" where
  "split_char d [] = [[]]"
| "split_char d (c # s) =
     (if c = d then [] # split_char d s
      else (case split_char d s of [] \<Rightarrow> [[c]] | p # ps \<Rightarrow> (c # p) # ps))"

fun join_with :: "'a list \<Rightarrow> 'a list list \<Rightarrow> 'a list" where
  "join_with d [] = []"
| "join_with d [p] = p"
| "join_with d (p # q # ps) = p @ d @ join_with d (q # ps)"

lemma split_char_not_Nil [simp]: "split_char d s \<noteq> []"
  by (induction s) (auto split: list.splits)

lemma join_with_Cons_head:
  "join_with d ((c # p) # ps) = c # join_with d (p # ps)"
  by (cases ps) auto

lemma join_split_char: "join_with [d] (split_char d s) = s"
proof (induction s)
  case (Cons c s)
  obtain p ps where sp: "split_char d s = p # ps"
    by (cases "split_char d s") auto
  with Cons.IH have "join_with [d] (p # ps) = s" by simp
  then show ?case by (simp add: sp join_with_Cons_head)
qed simp

definition startswith :: "'a list \<Rightarrow> 'a list \<Rightarrow> bool" where
  "startswith s p \<longleftrightarrow> take (length p) s = p"

definition endswith :: "'a list \<Rightarrow> 'a list \<Rightarrow> bool" where
  "endswith s p \<longleftrightarrow> length p \<le> length s \<and> drop (length s - length p) s = p"

text \<open>\<^verbatim>\<open>needle in haystack\<close> for strings.\<close>

fun contains :: "'a list \<Rightarrow> 'a list \<Rightarrow> bool" where
  "contains [] p \<longleftrightarrow> p = []"
| "contains (c # s) p \<longleftrightarrow> startswith (c # s) p \<or> contains s p"

lemma startswith_prefix: "startswith s p \<longleftrightarrow> prefix p s"
  by (metis append_eq_conv_conj append_take_drop_id prefix_def startswith_def)

lemma contains_sublist: "contains s p \<longleftrightarrow> sublist p s"
proof (induction s)
  case (Cons c s)
  then show ?case by (auto simp: startswith_prefix sublist_Cons_right)
qed simp

section \<open>Dictionaries\<close>

definition dict_ok :: "('k, 'v) dict \<Rightarrow> bool" where
  "dict_ok d \<longleftrightarrow> distinct (map fst d)"

lemma dict_ok_Nil [simp]: "dict_ok []"
  by (simp add: dict_ok_def)

lemma dict_ok_update [simp]: "dict_ok d \<Longrightarrow> dict_ok (AList.update k v d)"
  by (simp add: dict_ok_def distinct_update)

lemma dict_ok_delete [simp]: "dict_ok d \<Longrightarrow> dict_ok (AList.delete k d)"
  by (simp add: dict_ok_def distinct_delete)

lemma dict_ok_filter [simp]: "dict_ok d \<Longrightarrow> dict_ok (filter P d)"
  by (simp add: dict_ok_def distinct_map_filter)

lemma map_of_filter_kv:
  "dict_ok d \<Longrightarrow> map_of (filter (\<lambda>(k, v). P k v) d) k =
     (case map_of d k of None \<Rightarrow> None | Some v \<Rightarrow> if P k v then Some v else None)"
proof (induction d)
  case (Cons kv d)
  obtain k' v' where kv: "kv = (k', v')" by (cases kv)
  from Cons.prems kv have ok: "dict_ok d" and new: "k' \<notin> fst ` set d"
    by (auto simp: dict_ok_def)
  from new have none: "map_of d k' = None" by (simp add: map_of_eq_None_iff)
  show ?case using Cons.IH [OF ok] kv none by (auto split: option.splits)
qed simp

lemma map_of_filter_key:
  "map_of (filter (\<lambda>(k, v). Q k) d) k = (if Q k then map_of d k else None)"
  by (induction d) auto

lemma case_snd: "(\<lambda>(k, y). P y) = (\<lambda>x. P (snd x))"
  by auto

lemma dict_ok_unique: "dict_ok d \<Longrightarrow> (k, v) \<in> set d \<Longrightarrow> (k, w) \<in> set d \<Longrightarrow> v = w"
  by (metis dict_ok_def map_of_is_SomeI option.inject)

lemma filter_not_keys:
  assumes "dict_ok d"
  shows "filter (\<lambda>(k, v). k \<notin> fst ` {x \<in> set d. P x}) d = filter (\<lambda>x. \<not> P x) d"
proof (rule filter_cong)
  fix x assume x: "x \<in> set d"
  obtain k v where kv: "x = (k, v)" by (cases x)
  have "k \<in> fst ` {x \<in> set d. P x} \<longleftrightarrow> P (k, v)"
    using x dict_ok_unique [OF assms] by (auto simp: kv image_iff)
  then show "(case x of (k, v) \<Rightarrow> k \<notin> fst ` {x \<in> set d. P x}) = (\<not> P x)"
    by (simp add: kv)
qed simp

lemma map_of_AList_delete:
  "map_of (AList.delete k d) k' = (if k' = k then None else map_of d k')"
  by (simp add: delete_conv')

lemma map_of_AList_update:
  "map_of (AList.update k v d) k' = (if k' = k then Some v else map_of d k')"
  by (simp add: update_conv')

lemma fold_delete: "fold AList.delete ks d = filter (\<lambda>(k, v). k \<notin> set ks) d"
proof (induction ks arbitrary: d)
  case (Cons k ks)
  then show ?case by (auto simp: AList.delete_eq intro!: filter_cong)
qed (simp add: case_prod_beta)

text \<open>\<^verbatim>\<open>dict.fromkeys(xs)\<close> as a list: first occurrences, in order.\<close>

fun dedup :: "'a list \<Rightarrow> 'a list" where
  "dedup [] = []"
| "dedup (x # xs) = x # filter (\<lambda>y. y \<noteq> x) (dedup xs)"

lemma set_dedup [simp]: "set (dedup xs) = set xs"
  by (induction xs) auto

lemma distinct_dedup [simp]: "distinct (dedup xs)"
  by (induction xs) auto

text \<open>\<^verbatim>\<open>xs[-n:]\<close> for a positive \<open>n\<close>.\<close>

definition last_n :: "nat \<Rightarrow> 'a list \<Rightarrow> 'a list" where
  "last_n n xs = drop (length xs - n) xs"

section \<open>Dynamic values\<close>

text \<open>
  Values of \<^verbatim>\<open>Mapping[str, Any]\<close> payloads. \<open>PSeq\<close> is a list or a tuple, \<open>PObj s\<close> any other object
  whose \<^verbatim>\<open>str()\<close> is \<open>s\<close> (such an object is truthy).
\<close>

datatype pyval =
    PNone
  | PBool bool
  | PInt int
  | PFloat real
  | PStr pystr
  | PSeq "pyval list"
  | PMap "(pystr \<times> pyval) list"
  | PObj pystr

lemma size_PSeq: "x \<in> set xs \<Longrightarrow> size x < size (PSeq xs)"
  by (induction xs) auto

lemma size_PMap: "e \<in> set m \<Longrightarrow> size (snd e) < size (PMap m)"
  by (induction m) (auto simp: less_Suc_eq)

fun truthy :: "pyval \<Rightarrow> bool" where
  "truthy PNone = False"
| "truthy (PBool b) = b"
| "truthy (PInt i) = (i \<noteq> 0)"
| "truthy (PFloat r) = (r \<noteq> 0)"
| "truthy (PStr s) = (s \<noteq> [])"
| "truthy (PSeq xs) = (xs \<noteq> [])"
| "truthy (PMap m) = (m \<noteq> [])"
| "truthy (PObj s) = True"

fun pv_opt_int :: "int option \<Rightarrow> pyval" where
  "pv_opt_int None = PNone"
| "pv_opt_int (Some i) = PInt i"

fun pv_opt_float :: "real option \<Rightarrow> pyval" where
  "pv_opt_float None = PNone"
| "pv_opt_float (Some r) = PFloat r"

text \<open>\<^verbatim>\<open>round(x, n)\<close>: to the nearest multiple of \<open>10 ^ - n\<close>, ties to the even one.\<close>

definition round_even :: "real \<Rightarrow> int" where
  "round_even x =
     (let f = \<lfloor>x\<rfloor>; d = x - of_int f
      in if d < 1 / 2 then f else if d > 1 / 2 then f + 1 else if even f then f else f + 1)"

definition py_round :: "nat \<Rightarrow> real \<Rightarrow> real" where
  "py_round n x = of_int (round_even (x * 10 ^ n)) / 10 ^ n"

section \<open>Errors\<close>

text \<open>Sequencing of fallible steps: the first raised exception ends the computation.\<close>

fun bindr :: "'e + 'a \<Rightarrow> ('a \<Rightarrow> 'e + 'b) \<Rightarrow> 'e + 'b" where
  "bindr (Inl e) f = Inl e"
| "bindr (Inr x) f = f x"

lemma bindr_Inr_iff: "bindr m f = Inr y \<longleftrightarrow> (\<exists>x. m = Inr x \<and> f x = Inr y)"
  by (cases m) auto

lemma bindr_Inl_iff: "bindr m f = Inl e \<longleftrightarrow> m = Inl e \<or> (\<exists>x. m = Inr x \<and> f x = Inl e)"
  by (cases m) auto

end
