(* ===== verification/PyRegex.thy ===== *)
theory PyRegex imports KaroxPrelude begin

text \<open>
  The part of Python's \<^verbatim>\<open>re\<close> module that the modelled sources use: boolean search with
  literals, character classes, bounded and unbounded repetition of a class, alternation, optional
  groups, \<open>\b\<close>, \<open>^\<close> and \<open>$\<close>, with or without \<^verbatim>\<open>re.IGNORECASE\<close>.
  A pattern denotes, for a text and a start position, the list of positions where a match can end.
  The Unicode predicate behind \<open>\w\<close> and \<open>\b\<close> is a parameter \<open>isw\<close> of the matcher; case folding is
  the one of the \<^verbatim>\<open>sre\<close> engine for the letters patterns are written with (ASCII and Cyrillic).
\<close>

datatype cc = CEq nat | CRange nat nat | CAny | CWord | CSpace | COr cc cc | CNot cc

text \<open>The Unicode database as far as the sources depend on it: the word characters of regular
  expressions, \<^verbatim>\<open>str.casefold\<close> of a code point, \<^verbatim>\<open>str.lower\<close> and \<^verbatim>\<open>str.upper\<close>.\<close>

record unidata =
  ud_word :: "nat \<Rightarrow> bool"
  ud_casefold :: "nat \<Rightarrow> nat list"
  ud_lower :: "pystr \<Rightarrow> pystr"
  ud_upper :: "pystr \<Rightarrow> pystr"

definition casefold :: "unidata \<Rightarrow> pystr \<Rightarrow> pystr" where
  "casefold ud s = concat (map (ud_casefold ud) s)"

datatype re =
    REps
  | RC cc
  | RSeq re re
  | RAlt re re
  | ROpt re
  | RMany cc nat "nat option"
  | RBoundary
  | RBegin
  | REnd

text \<open>\<^verbatim>\<open>sre\<close>'s simple lower and upper case maps, on the letters that can meet a pattern letter.\<close>

definition sre_lower :: "nat \<Rightarrow> nat" where
  "sre_lower x =
     (if 65 \<le> x \<and> x \<le> 90 \<or> 1040 \<le> x \<and> x \<le> 1071 then x + 32
      else if 1024 \<le> x \<and> x \<le> 1039 then x + 80
      else if x = 304 then 105
      else if x = 8490 then 107
      else x)"

definition sre_upper :: "nat \<Rightarrow> nat" where
  "sre_upper x =
     (if 97 \<le> x \<and> x \<le> 122 \<or> 1072 \<le> x \<and> x \<le> 1103 then x - 32
      else if 1104 \<le> x \<and> x \<le> 1119 then x - 80
      else if x = 305 then 73
      else if x = 383 then 83
      else x)"

text \<open>Letters that match a lower-case literal besides itself (\<^verbatim>\<open>_ignorecase_fixes\<close>).\<close>

definition sre_fixes :: "nat \<Rightarrow> nat list" where
  "sre_fixes c =
     (if c = 105 then [105, 305] else if c = 115 then [115, 383]
      else if c = 1074 then [1074, 7296] else if c = 1076 then [1076, 7297]
      else if c = 1086 then [1086, 7298] else if c = 1089 then [1089, 7299]
      else if c = 1090 then [1090, 7300, 7301] else if c = 1098 then [1098, 7302]
      else [c])"

lemma sre_code [code]:
  "sre_lower x =
     (let i = int x in if 65 \<le> i \<and> i \<le> 90 \<or> 1040 \<le> i \<and> i \<le> 1071 then x + 32
      else if 1024 \<le> i \<and> i \<le> 1039 then x + 80
      else if i = 304 then 105 else if i = 8490 then 107 else x)"
  "sre_upper x =
     (let i = int x in if 97 \<le> i \<and> i \<le> 122 \<or> 1072 \<le> i \<and> i \<le> 1103 then x - 32
      else if 1104 \<le> i \<and> i \<le> 1119 then x - 80
      else if i = 305 then 73 else if i = 383 then 83 else x)"
  "sre_fixes x =
     (let i = int x in if i = 105 then [105, 305] else if i = 115 then [115, 383]
      else if i = 1074 then [1074, 7296] else if i = 1076 then [1076, 7297]
      else if i = 1086 then [1086, 7298] else if i = 1089 then [1089, 7299]
      else if i = 1090 then [1090, 7300, 7301] else if i = 1098 then [1098, 7302]
      else [x])"
  by (simp_all add: sre_lower_def sre_upper_def sre_fixes_def Let_def)

fun cc_match :: "(nat \<Rightarrow> bool) \<Rightarrow> bool \<Rightarrow> cc \<Rightarrow> nat \<Rightarrow> bool" where
  "cc_match isw ic (CEq c) x \<longleftrightarrow>
     (if ic then sre_lower x \<in> set (sre_fixes (sre_lower c)) else x = c)"
| "cc_match isw ic (CRange a b) x \<longleftrightarrow>
     (if ic then (let y = sre_lower x; z = sre_upper y in a \<le> y \<and> y \<le> b \<or> a \<le> z \<and> z \<le> b)
      else a \<le> x \<and> x \<le> b)"
| "cc_match isw ic CAny x \<longleftrightarrow> x \<noteq> 10"
| "cc_match isw ic CWord x \<longleftrightarrow> isw x"
| "cc_match isw ic CSpace x \<longleftrightarrow> py_space x"
| "cc_match isw ic (COr a b) x \<longleftrightarrow> cc_match isw ic a x \<or> cc_match isw ic b x"
| "cc_match isw ic (CNot a) x \<longleftrightarrow> \<not> cc_match isw ic a x"

definition word_at :: "(nat \<Rightarrow> bool) \<Rightarrow> nat list \<Rightarrow> nat \<Rightarrow> bool" where
  "word_at isw s i \<longleftrightarrow> i < length s \<and> isw (s ! i)"

fun ends :: "(nat \<Rightarrow> bool) \<Rightarrow> bool \<Rightarrow> nat list \<Rightarrow> re \<Rightarrow> nat \<Rightarrow> nat list" where
  "ends isw ic s REps i = [i]"
| "ends isw ic s (RC c) i = (if i < length s \<and> cc_match isw ic c (s ! i) then [Suc i] else [])"
| "ends isw ic s (RSeq a b) i = concat (map (ends isw ic s b) (ends isw ic s a i))"
| "ends isw ic s (RAlt a b) i = ends isw ic s a i @ ends isw ic s b i"
| "ends isw ic s (ROpt a) i = ends isw ic s a i @ [i]"
| "ends isw ic s (RMany c lo hi) i =
     (let run = length (takeWhile (cc_match isw ic c) (drop i s));
          top = (case hi of None \<Rightarrow> run | Some h \<Rightarrow> min h run)
      in map (\<lambda>k. i + k) (rev [lo..<Suc top]))"
| "ends isw ic s RBoundary i =
     (if word_at isw s i \<noteq> (0 < i \<and> word_at isw s (i - 1)) then [i] else [])"
| "ends isw ic s RBegin i = (if i = 0 then [i] else [])"
| "ends isw ic s REnd i =
     (if i = length s \<or> Suc i = length s \<and> s ! i = 10 then [i] else [])"

definition re_search :: "(nat \<Rightarrow> bool) \<Rightarrow> bool \<Rightarrow> re \<Rightarrow> nat list \<Rightarrow> bool" where
  "re_search isw ic r s \<longleftrightarrow> (\<exists>i \<in> set [0..<Suc (length s)]. ends isw ic s r i \<noteq> [])"

text \<open>Pattern builders.\<close>

definition rstr :: "nat list \<Rightarrow> re" where
  "rstr cs = foldr (\<lambda>c r. RSeq (RC (CEq c)) r) cs REps"

fun ralts :: "re list \<Rightarrow> re" where
  "ralts [] = REps"
| "ralts [r] = r"
| "ralts (r # r' # rs) = RAlt r (ralts (r' # rs))"

fun rseqs :: "re list \<Rightarrow> re" where
  "rseqs [] = REps"
| "rseqs [r] = r"
| "rseqs (r # r' # rs) = RSeq r (rseqs (r' # rs))"

section \<open>Facts\<close>

lemma ends_bounds: "i \<le> length s \<Longrightarrow> j \<in> set (ends isw ic s r i) \<Longrightarrow> i \<le> j \<and> j \<le> length s"
proof (induction r arbitrary: i j)
  case (RC c)
  then show ?case by (simp split: if_splits)
next
  case (RSeq a b)
  from RSeq.prems obtain k where k: "k \<in> set (ends isw ic s a i)" "j \<in> set (ends isw ic s b k)"
    by auto
  from RSeq.IH(1) [OF RSeq.prems(1) k(1)] have "i \<le> k \<and> k \<le> length s" .
  with RSeq.IH(2) [of k j] k(2) show ?case by simp
next
  case (RMany c lo hi)
  have "length (takeWhile (cc_match isw ic c) (drop i s)) \<le> length s - i"
    by (metis length_drop length_takeWhile_le)
  with RMany.prems show ?case by (auto simp: Let_def split: option.splits)
next
  case (RAlt a b)
  from RAlt.prems(2) have "j \<in> set (ends isw ic s a i) \<or> j \<in> set (ends isw ic s b i)"
    by simp
  then show ?case using RAlt.IH RAlt.prems(1) by blast
next
  case (ROpt a)
  from ROpt.prems(2) have "j \<in> set (ends isw ic s a i) \<or> j = i" by auto
  then show ?case using ROpt.IH ROpt.prems(1) by blast
qed (simp_all split: if_splits)

lemma startswith_Nil [simp]: "startswith s []"
  by (simp add: startswith_def)

lemma startswith_Cons [simp]: "startswith (d # s) (c # cs) \<longleftrightarrow> d = c \<and> startswith s cs"
  by (auto simp: startswith_def)

lemma startswith_Nil_Cons [simp]: "\<not> startswith [] (c # cs)"
  by (simp add: startswith_def)

lemma ends_rstr:
  "ends isw False s (rstr cs) i = (if startswith (drop i s) cs then [i + length cs] else [])"
proof (induction cs arbitrary: i)
  case Nil
  then show ?case by (simp add: rstr_def)
next
  case (Cons c cs)
  have step: "ends isw False s (rstr (c # cs)) i =
      (if i < length s \<and> s ! i = c then ends isw False s (rstr cs) (Suc i) else [])"
    by (auto simp: rstr_def)
  show ?case
  proof (cases "i < length s")
    case True
    then have "drop i s = s ! i # drop (Suc i) s" by (simp add: Cons_nth_drop_Suc)
    with True show ?thesis unfolding step Cons.IH by simp
  qed (simp add: step)
qed

text \<open>A pattern that starts with \<open>^\<close> is tried at position 0 only.\<close>

lemma re_search_RBegin: "re_search isw ic (RSeq RBegin r) s \<longleftrightarrow> ends isw ic s r 0 \<noteq> []"
  by (auto simp: re_search_def)

text \<open>Searching for a literal word is the substring test.\<close>

lemma re_search_rstr: "re_search isw False (rstr cs) s \<longleftrightarrow> sublist cs s"
proof
  assume "re_search isw False (rstr cs) s"
  then obtain i where "prefix cs (drop i s)"
    by (auto simp: re_search_def ends_rstr startswith_prefix split: if_splits)
  then obtain zs where "drop i s = cs @ zs" by (auto simp: prefix_def)
  then have "s = take i s @ cs @ zs" by (metis append_take_drop_id)
  then show "sublist cs s" by (auto simp: sublist_def)
next
  assume "sublist cs s"
  then obtain a b where s: "s = a @ cs @ b" by (auto simp: sublist_def)
  then have "startswith (drop (length a) s) cs" by (simp add: startswith_prefix)
  with s show "re_search isw False (rstr cs) s"
    by (auto simp: re_search_def ends_rstr intro!: bexI [of _ "length a"])
qed

section \<open>Substitution\<close>

text \<open>\<^verbatim>\<open>pattern.sub(rep, s)\<close> for a pattern that matches no empty string: from left to right, the
  preferred match at each position is replaced.\<close>

function re_sub_at :: "(nat \<Rightarrow> bool) \<Rightarrow> bool \<Rightarrow> re \<Rightarrow> pystr \<Rightarrow> pystr \<Rightarrow> nat \<Rightarrow> pystr" where
  "re_sub_at isw ic r rep s i =
     (if length s \<le> i then []
      else case ends isw ic s r i of
        [] \<Rightarrow> s ! i # re_sub_at isw ic r rep s (Suc i)
      | j # _ \<Rightarrow>
          if j \<le> i then s ! i # re_sub_at isw ic r rep s (Suc i)
          else rep @ re_sub_at isw ic r rep s j)"
  by pat_completeness auto
termination
  by (relation "measure (\<lambda>(isw, ic, r, rep, s, i). length s - i)") auto

declare re_sub_at.simps [simp del]

definition re_sub :: "(nat \<Rightarrow> bool) \<Rightarrow> bool \<Rightarrow> re \<Rightarrow> pystr \<Rightarrow> pystr \<Rightarrow> pystr" where
  "re_sub isw ic r rep s = re_sub_at isw ic r rep s 0"

end
