(* ===== verification/LedgerInterface.thy ===== *)
theory LedgerInterface imports KaroxPrelude begin

text \<open>
  The interface between the policy engines and the store of human confirmations: what
  \<^verbatim>\<open>RiskEngine.authorize\<close> and \<^verbatim>\<open>ActionDecisionEngine.authorize\<close> rely on when they call
  \<^verbatim>\<open>redeem\<close>. A client run is a list of operations on one shared ledger, whatever their order.
\<close>

datatype 'a ledger_op =
    LIssue pystr real 'a "real option"
  | LRedeem real "pystr option" 'a
  | LPurge real

fun ledger_step ::
  "(pystr \<Rightarrow> real \<Rightarrow> 'a \<Rightarrow> real option \<Rightarrow> 'l \<Rightarrow> ('e + 'g) \<times> 'l) \<Rightarrow>
   (real \<Rightarrow> pystr option \<Rightarrow> 'a \<Rightarrow> 'l \<Rightarrow> ('r + unit) \<times> 'l) \<Rightarrow>
   (real \<Rightarrow> 'l \<Rightarrow> nat \<times> 'l) \<Rightarrow> 'a ledger_op \<Rightarrow> 'l \<Rightarrow> 'l" where
  "ledger_step iss red pur (LIssue t now a ttl) L = snd (iss t now a ttl L)"
| "ledger_step iss red pur (LRedeem now t a) L = snd (red now t a L)"
| "ledger_step iss red pur (LPurge now) L = snd (pur now L)"

text \<open>
  How often the presented token \<open>t\<close> was accepted during a run, and how often the run issued a
  token the ledger cannot tell from \<open>t\<close>.
\<close>

definition accepts ::
  "(real \<Rightarrow> pystr option \<Rightarrow> 'a \<Rightarrow> 'l \<Rightarrow> ('r + unit) \<times> 'l) \<Rightarrow> pystr \<Rightarrow> 'a ledger_op \<Rightarrow> 'l \<Rightarrow> nat" where
  "accepts red t x L =
     (case x of
        LRedeem now t' a \<Rightarrow> (if t' = Some t \<and> fst (red now t' a L) = Inr () then 1 else 0)
      | _ \<Rightarrow> 0)"

definition issues :: "(pystr \<Rightarrow> 'h) \<Rightarrow> pystr \<Rightarrow> 'a ledger_op \<Rightarrow> nat" where
  "issues TH t x =
     (case x of LIssue t' now a ttl \<Rightarrow> (if TH t' = TH t then 1 else 0) | _ \<Rightarrow> 0)"

fun accepted ::
  "(pystr \<Rightarrow> real \<Rightarrow> 'a \<Rightarrow> real option \<Rightarrow> 'l \<Rightarrow> ('e + 'g) \<times> 'l) \<Rightarrow>
   (real \<Rightarrow> pystr option \<Rightarrow> 'a \<Rightarrow> 'l \<Rightarrow> ('r + unit) \<times> 'l) \<Rightarrow>
   (real \<Rightarrow> 'l \<Rightarrow> nat \<times> 'l) \<Rightarrow> pystr \<Rightarrow> 'a ledger_op list \<Rightarrow> 'l \<Rightarrow> nat" where
  "accepted iss red pur t [] L = 0"
| "accepted iss red pur t (x # xs) L =
     accepts red t x L + accepted iss red pur t xs (ledger_step iss red pur x L)"

fun issued :: "(pystr \<Rightarrow> 'h) \<Rightarrow> pystr \<Rightarrow> 'a ledger_op list \<Rightarrow> nat" where
  "issued TH t [] = 0"
| "issued TH t (x # xs) = issues TH t x + issued TH t xs"

locale one_shot_ledger =
  fixes redeem :: "real \<Rightarrow> pystr option \<Rightarrow> 'a \<Rightarrow> 'l \<Rightarrow> ('r + unit) \<times> 'l"
    and live :: "'l \<Rightarrow> pystr \<Rightarrow> bool"
    and bound :: "'l \<Rightarrow> pystr \<Rightarrow> 'a \<Rightarrow> real \<Rightarrow> bool"
  assumes redeem_bound: "redeem now (Some t) a L = (Inr (), L') \<Longrightarrow> bound L t a now"
    and redeem_spends: "redeem now (Some t) a L = (Inr (), L') \<Longrightarrow> live L t \<and> \<not> live L' t"
    and redeem_needs_token: "fst (redeem now None a L) \<noteq> Inr ()"
    and redeem_frame: "redeem now x a L = (r, L') \<Longrightarrow> live L' t \<Longrightarrow> live L t"
begin

lemma spent_stays_spent: "\<not> live L t \<Longrightarrow> fst (redeem now (Some t) a L) \<noteq> Inr ()"
  by (metis prod.collapse redeem_spends)

lemma accept_has_token: "fst (redeem now x a L) = Inr () \<Longrightarrow> \<exists>t. x = Some t \<and> bound L t a now"
  by (cases x) (auto simp: redeem_needs_token intro: redeem_bound [of _ _ _ _ "snd (redeem now x a L)"]
    simp: prod_eq_iff)

end

locale issuing_ledger = one_shot_ledger redeem live bound
  for redeem :: "real \<Rightarrow> pystr option \<Rightarrow> 'a \<Rightarrow> 'l \<Rightarrow> ('r + unit) \<times> 'l"
    and live :: "'l \<Rightarrow> pystr \<Rightarrow> bool"
    and bound :: "'l \<Rightarrow> pystr \<Rightarrow> 'a \<Rightarrow> real \<Rightarrow> bool" +
  fixes issue :: "pystr \<Rightarrow> real \<Rightarrow> 'a \<Rightarrow> real option \<Rightarrow> 'l \<Rightarrow> ('e + 'g) \<times> 'l"
    and purge :: "real \<Rightarrow> 'l \<Rightarrow> nat \<times> 'l"
    and TH :: "pystr \<Rightarrow> 'h"
  assumes issue_frame:
      "issue t' now a ttl L = (r, L') \<Longrightarrow> live L' t \<Longrightarrow> live L t \<or> TH t' = TH t"
    and purge_frame: "purge now L = (n, L') \<Longrightarrow> live L' t \<Longrightarrow> live L t"
begin

lemma step_budget:
  "accepts redeem t x L + of_bool (live (ledger_step issue redeem purge x L) t)
     \<le> of_bool (live L t) + issues TH t x"
proof (cases x)
  case (LIssue t' now a ttl)
  then show ?thesis using issue_frame [of t' now a ttl L _ _ t]
    by (auto simp: prod_eq_iff accepts_def issues_def)
next
  case (LRedeem now t' a)
  have spends: "fst (redeem now (Some t) a L) = Inr () \<Longrightarrow>
      live L t \<and> \<not> live (snd (redeem now (Some t) a L)) t"
    by (rule redeem_spends) (simp add: prod_eq_iff)
  from LRedeem show ?thesis
    using spends redeem_frame [of now t' a L _ _ t]
    by (auto simp: prod_eq_iff accepts_def issues_def)
next
  case (LPurge now)
  then show ?thesis using purge_frame [of now L _ _ t]
    by (auto simp: prod_eq_iff accepts_def issues_def)
qed

lemma accepted_le_issued:
  "accepted issue redeem purge t ops L \<le> of_bool (live L t) + issued TH t ops"
proof (induction ops arbitrary: L)
  case (Cons x xs)
  let ?L' = "ledger_step issue redeem purge x L"
  from Cons [of ?L'] step_budget [of t x L] show ?case by simp
qed simp

end

end
