(* ===== verification/RiskEngine.thy ===== *)
theory RiskEngine imports PyRegex LedgerInterface "HOL-Library.Multiset" begin

text \<open>
  The risk classifier and the confirmation ledger of \<^verbatim>\<open>src/karox/risk_engine.py\<close>.

  Actions and assessments are records with the fields of the dataclasses. The ledger is a
  dictionary from token hashes to entries. Three things come from outside the module and are
  arguments: \<open>H\<close>, the composition of \<^verbatim>\<open>json.dumps(sort_keys=True)\<close> and SHA-256 on an action's
  payload; \<open>TH\<close>, SHA-256 of a token; and, per call, the clock reading and the fresh random token
  of \<^verbatim>\<open>secrets.token_urlsafe\<close>. The lock makes each ledger operation one atomic step.
\<close>

section \<open>Risk levels and action kinds\<close>

datatype RiskLevel = LOW | MEDIUM | HIGH | CRITICAL

fun rank :: "RiskLevel \<Rightarrow> nat" where
  "rank LOW = 0" | "rank MEDIUM = 1" | "rank HIGH = 2" | "rank CRITICAL = 3"

lemma rank_inject [simp]: "rank a = rank b \<longleftrightarrow> a = b"
  by (cases a; cases b) auto

instantiation RiskLevel :: linorder
begin

definition less_eq_RiskLevel :: "RiskLevel \<Rightarrow> RiskLevel \<Rightarrow> bool" where
  "a \<le> b \<longleftrightarrow> rank a \<le> rank b"

definition less_RiskLevel :: "RiskLevel \<Rightarrow> RiskLevel \<Rightarrow> bool" where
  "a < b \<longleftrightarrow> rank a < rank b"

instance
  by standard (auto simp: less_eq_RiskLevel_def less_RiskLevel_def)

end

definition CRITICAL_KINDS :: "pystr set" where
  "CRITICAL_KINDS = lit ` {''git.push'', ''git.force_push'', ''git.reset_hard'', ''git.clean'',
     ''git.rebase'', ''git.branch_delete'', ''git.tag_delete'', ''git.history_rewrite'',
     ''release.publish'', ''package.publish'', ''deploy'', ''account.delete'',
     ''account.security_change'', ''credential.export'', ''payment'', ''billing.change'',
     ''subscription.change'', ''system.path_write'', ''repository.escape''}"

definition HIGH_KINDS :: "pystr set" where
  "HIGH_KINDS = lit ` {''repo.delete'', ''repo.bulk_write'', ''repo.wide_replace'',
     ''credential.rotate'', ''permission.change'', ''deploy.prepare'', ''network.request'',
     ''browser.final_submit'', ''browser.send_message'', ''browser.grant_permission'',
     ''browser.upload'', ''process.run_unknown'', ''package.install'', ''migration.run''}"

definition MEDIUM_KINDS :: "pystr set" where
  "MEDIUM_KINDS = lit ` {''repo.write'', ''repo.create'', ''repo.move'', ''checks.run'',
     ''tests.run'', ''process.run_dev'', ''devserver.start'', ''browser.input'', ''git.commit'',
     ''mcp.call''}"

definition LOW_KINDS :: "pystr set" where
  "LOW_KINDS = lit ` {''repo.read'', ''repo.search'', ''repo.list'', ''disk.read'', ''git.read'',
     ''status.read'', ''diagnostics.read'', ''browser.read'', ''browser.snapshot'',
     ''browser.screenshot''}"

definition FILE_MUTATION_KINDS :: "pystr set" where
  "FILE_MUTATION_KINDS = lit ` {''repo.write'', ''repo.create'', ''repo.move'', ''repo.delete'',
     ''repo.bulk_write'', ''repo.wide_replace'', ''git.commit''}"

definition BULK_FILE_THRESHOLD :: int where "BULK_FILE_THRESHOLD = 10"
definition REPO_FRACTION_THRESHOLD :: real where "REPO_FRACTION_THRESHOLD = 1 / 4"
definition BULK_DELETE_THRESHOLD :: int where "BULK_DELETE_THRESHOLD = 5"
definition DEFAULT_CONFIRMATION_TTL_SECONDS :: real where
  "DEFAULT_CONFIRMATION_TTL_SECONDS = 300"
definition MAX_PREVIEW_PATHS :: nat where "MAX_PREVIEW_PATHS = 20"
definition MAX_TEXT :: nat where "MAX_TEXT = 500"

section \<open>Text helpers\<close>

definition clip :: "nat \<Rightarrow> pystr \<Rightarrow> pystr" where
  "clip limit s =
     (let text = py_strip (replace_char 10 32 (replace_char 13 32 s))
      in if limit < length text then take (limit - 1) text @ [0x2026] else text)"

text \<open>The three patterns of \<^verbatim>\<open>_SYSTEM_PATH_HINTS\<close>, each with its ignore-case flag.\<close>

definition slash_or_end :: re where
  "slash_or_end = RAlt (RC (CEq 47)) REnd"

definition SYSTEM_PATH_HINTS :: "(bool \<times> re) list" where
  "SYSTEM_PATH_HINTS =
    [(True, rseqs [RBegin, RC (COr (CRange 65 90) (CRange 97 122)), RC (CEq 58),
        RC (COr (CEq 92) (CEq 47)), RAlt (rstr (lit ''windows'')) (rstr (lit ''program files''))]),
     (False, rseqs [RBegin, RC (CEq 47),
        ralts (map (\<lambda>w. rstr (lit w))
          [''etc'', ''bin'', ''sbin'', ''usr'', ''boot'', ''sys'', ''proc'']), slash_or_end]),
     (False, rseqs [RBegin, RC (CEq 47), rstr (lit ''System''), slash_or_end])]"

definition looks_like_system_path :: "pystr \<Rightarrow> bool" where
  "looks_like_system_path path =
     (let candidate = py_strip path; normalized = replace_char 92 47 candidate
      in candidate \<noteq> [] \<and>
         (\<exists>(ic, r) \<in> set SYSTEM_PATH_HINTS.
            re_search (\<lambda>_. False) ic r candidate \<or> re_search (\<lambda>_. False) ic r normalized))"

text \<open>Only a text that starts with a slash or a drive letter and colon can look like a system path.\<close>

lemma system_path_shape:
  assumes "looks_like_system_path p"
  shows "\<exists>s \<in> {py_strip p, replace_char 92 47 (py_strip p)}.
    s \<noteq> [] \<and> (s ! 0 = 47 \<or> 1 < length s \<and> s ! 1 = 58)"
proof -
  have low: "sre_lower x \<in> set (sre_fixes (sre_lower 58)) \<longleftrightarrow> x = 58" for x
    by (auto simp: sre_lower_def sre_fixes_def split: if_splits)
  have drive: "1 < length s \<and> s ! 1 = 58"
    if "re_search w True (snd (SYSTEM_PATH_HINTS ! 0)) s" for w s
    using that unfolding SYSTEM_PATH_HINTS_def
    by (auto simp: re_search_RBegin low split: if_splits)
  have slash: "s \<noteq> [] \<and> s ! 0 = 47"
    if "re_search w False (RSeq RBegin (RSeq (RC (CEq 47)) r)) s" for w r s
    using that by (auto simp: re_search_RBegin split: if_splits)
  have "\<exists>s \<in> {py_strip p, replace_char 92 47 (py_strip p)}.
      \<exists>(ic, r) \<in> set SYSTEM_PATH_HINTS. re_search (\<lambda>_. False) ic r s"
    using assms unfolding looks_like_system_path_def Let_def by blast
  then obtain s ic r where s: "s \<in> {py_strip p, replace_char 92 47 (py_strip p)}"
    and r: "(ic, r) \<in> set SYSTEM_PATH_HINTS" "re_search (\<lambda>_. False) ic r s"
    by blast
  from r have "s \<noteq> [] \<and> (s ! 0 = 47 \<or> 1 < length s \<and> s ! 1 = 58)"
    using drive slash unfolding SYSTEM_PATH_HINTS_def by fastforce
  with s show ?thesis by blast
qed

section \<open>Actions\<close>

record RiskAction =
  ra_kind :: pystr
  ra_session_id :: pystr
  ra_summary :: pystr
  ra_source :: pystr
  ra_target :: pystr
  ra_paths :: "pystr list"
  ra_file_count :: "int option"
  ra_delete_count :: int
  ra_create_count :: int
  ra_modify_count :: int
  ra_total_bytes :: "int option"
  ra_repository_file_count :: "int option"
  ra_recursive :: bool
  ra_irreversible :: bool
  ra_outside_repository :: bool
  ra_beyond_user_request :: bool
  ra_reversible_by_checkpoint :: bool
  ra_details :: "(pystr, pyval) dict"

text \<open>The dataclass defaults: only the kind and the session are required.\<close>

definition new_action :: "pystr \<Rightarrow> pystr \<Rightarrow> RiskAction" where
  "new_action k s =
     \<lparr>ra_kind = k, ra_session_id = s, ra_summary = [], ra_source = lit ''unknown'', ra_target = [],
      ra_paths = [], ra_file_count = None, ra_delete_count = 0, ra_create_count = 0,
      ra_modify_count = 0, ra_total_bytes = None, ra_repository_file_count = None,
      ra_recursive = False, ra_irreversible = False, ra_outside_repository = False,
      ra_beyond_user_request = False, ra_reversible_by_checkpoint = False, ra_details = []\<rparr>"

lemma new_action_fields [simp]:
  "ra_kind (new_action k s) = k" "ra_session_id (new_action k s) = s"
  "ra_paths (new_action k s) = []" "ra_target (new_action k s) = []"
  "ra_delete_count (new_action k s) = 0" "ra_details (new_action k s) = []"
  "ra_beyond_user_request (new_action k s) = False"
  "ra_outside_repository (new_action k s) = False"
  by (simp_all add: new_action_def)

definition effective_file_count :: "RiskAction \<Rightarrow> int" where
  "effective_file_count a =
     (case ra_file_count a of
        Some n \<Rightarrow> max n 0
      | None \<Rightarrow>
          (let counted = ra_delete_count a + ra_create_count a + ra_modify_count a
           in if counted \<noteq> 0 then counted else int (length (ra_paths a))))"

definition repository_fraction :: "RiskAction \<Rightarrow> real option" where
  "repository_fraction a =
     (case ra_repository_file_count a of
        None \<Rightarrow> None
      | Some n \<Rightarrow>
          if n = 0 \<or> n \<le> 0 then None
          else Some (min (of_int (effective_file_count a) / of_int n) 1))"

primrec canonical :: "pyval \<Rightarrow> pyval" where
  "canonical PNone = PNone"
| "canonical (PBool b) = PBool b"
| "canonical (PInt i) = PInt i"
| "canonical (PFloat r) = PFloat r"
| "canonical (PStr s) = PStr s"
| "canonical (PSeq xs) = PSeq (map canonical xs)"
| "canonical (PMap m) = PMap (sort_key fst (map (map_prod id canonical) m))"
| "canonical (PObj s) = PStr s"

definition digest_payload :: "RiskAction \<Rightarrow> pyval" where
  "digest_payload a = PMap
     [(lit ''kind'', PStr (ra_kind a)),
      (lit ''session_id'', PStr (ra_session_id a)),
      (lit ''target'', PStr (ra_target a)),
      (lit ''paths'', PSeq (map PStr (sort (ra_paths a)))),
      (lit ''file_count'', PInt (effective_file_count a)),
      (lit ''delete_count'', PInt (ra_delete_count a)),
      (lit ''create_count'', PInt (ra_create_count a)),
      (lit ''modify_count'', PInt (ra_modify_count a)),
      (lit ''total_bytes'', pv_opt_int (ra_total_bytes a)),
      (lit ''recursive'', PBool (ra_recursive a)),
      (lit ''irreversible'', PBool (ra_irreversible a)),
      (lit ''outside_repository'', PBool (ra_outside_repository a)),
      (lit ''details'', canonical (PMap (ra_details a)))]"

definition action_digest :: "(pyval \<Rightarrow> 'd) \<Rightarrow> RiskAction \<Rightarrow> 'd" where
  "action_digest H a = H (digest_payload a)"

record 'd RiskAssessment =
  as_action_digest :: 'd
  as_kind :: pystr
  as_session_id :: pystr
  as_level :: RiskLevel
  as_requires_confirmation :: bool
  as_reasons :: "pystr list"
  as_headline :: pystr
  as_target :: pystr
  as_preview :: "(pystr, pyval) dict"

section \<open>The confirmation ledger\<close>

datatype reject_reason =
  REJECT_MISSING | REJECT_UNKNOWN | REJECT_EXPIRED | REJECT_ALREADY_USED | REJECT_WRONG_ACTION
  | REJECT_WRONG_SESSION

datatype 'd risk_error =
    SmartStopRequired "'d RiskAssessment"
  | ConfirmationRejected reject_reason
  | ValueError string

record 'd ConfirmationGrant =
  gr_token :: pystr
  gr_action_digest :: 'd
  gr_session_id :: pystr
  gr_issued_at :: real
  gr_expires_at :: real

record 'd ledger_entry =
  le_action_digest :: 'd
  le_session_id :: pystr
  le_expires_at :: real
  le_used :: bool

record ('h, 'd) ConfirmationLedger =
  lg_ttl :: real
  lg_entries :: "('h, 'd ledger_entry) dict"

definition new_ledger :: "real \<Rightarrow> 'd risk_error + ('h, 'd) ConfirmationLedger" where
  "new_ledger ttl_seconds =
     (if ttl_seconds \<le> 0 then Inl (ValueError ''confirmation TTL must be positive'')
      else Inr \<lparr>lg_ttl = ttl_seconds, lg_entries = []\<rparr>)"

text \<open>\<open>token\<close> and \<open>now\<close> are the values drawn by this call.\<close>

definition issue :: "(pystr \<Rightarrow> 'h) \<Rightarrow> pystr \<Rightarrow> real \<Rightarrow> 'd RiskAssessment \<Rightarrow> real option \<Rightarrow>
    ('h, 'd) ConfirmationLedger \<Rightarrow>
    ('d risk_error + 'd ConfirmationGrant) \<times> ('h, 'd) ConfirmationLedger" where
  "issue TH token now assessment ttl_seconds L =
     (let ttl = (case ttl_seconds of Some t \<Rightarrow> t | None \<Rightarrow> lg_ttl L)
      in if ttl \<le> 0 then (Inl (ValueError ''confirmation TTL must be positive''), L)
         else
           let grant = \<lparr>gr_token = token, gr_action_digest = as_action_digest assessment,
                        gr_session_id = as_session_id assessment, gr_issued_at = now,
                        gr_expires_at = now + ttl\<rparr>
           in (Inr grant,
               L\<lparr>lg_entries := AList.update (TH token)
                   \<lparr>le_action_digest = gr_action_digest grant,
                    le_session_id = gr_session_id grant,
                    le_expires_at = gr_expires_at grant, le_used = False\<rparr> (lg_entries L)\<rparr>))"

definition redeem :: "(pystr \<Rightarrow> 'h) \<Rightarrow> real \<Rightarrow> pystr option \<Rightarrow> 'd RiskAssessment \<Rightarrow>
    ('h, 'd) ConfirmationLedger \<Rightarrow>
    (reject_reason + unit) \<times> ('h, 'd) ConfirmationLedger" where
  "redeem TH now token assessment L =
     (case token of
        None \<Rightarrow> (Inl REJECT_MISSING, L)
      | Some t \<Rightarrow>
          if t = [] then (Inl REJECT_MISSING, L)
          else
            let digest = TH t
            in case map_of (lg_entries L) digest of
                 None \<Rightarrow> (Inl REJECT_UNKNOWN, L)
               | Some entry \<Rightarrow>
                   if le_used entry then (Inl REJECT_ALREADY_USED, L)
                   else if now > le_expires_at entry then
                     (Inl REJECT_EXPIRED, L\<lparr>lg_entries := AList.delete digest (lg_entries L)\<rparr>)
                   else if le_action_digest entry \<noteq> as_action_digest assessment then
                     (Inl REJECT_WRONG_ACTION, L)
                   else if le_session_id entry \<noteq> as_session_id assessment then
                     (Inl REJECT_WRONG_SESSION, L)
                   else
                     (Inr (),
                      L\<lparr>lg_entries := AList.update digest (entry\<lparr>le_used := True\<rparr>) (lg_entries L)\<rparr>))"

definition is_stale :: "real \<Rightarrow> 'd ledger_entry \<Rightarrow> bool" where
  "is_stale now entry \<longleftrightarrow> le_used entry \<or> le_expires_at entry < now"

definition purge_expired :: "real \<Rightarrow> ('h, 'd) ConfirmationLedger \<Rightarrow>
    nat \<times> ('h, 'd) ConfirmationLedger" where
  "purge_expired now L =
     (let stale = map fst (filter (\<lambda>(key, entry). is_stale now entry) (lg_entries L))
      in (length stale, L\<lparr>lg_entries := fold AList.delete stale (lg_entries L)\<rparr>))"

section \<open>The preview\<close>

definition before_last :: "'a \<Rightarrow> 'a list \<Rightarrow> 'a list" where
  "before_last c s = rev (tl (dropWhile (\<lambda>x. x \<noteq> c) (rev s)))"

definition preview_directories :: "pystr list \<Rightarrow> pystr list" where
  "preview_directories paths =
     take MAX_PREVIEW_PATHS (sort (remdups
       (map (before_last 47) (filter (\<lambda>p. 47 \<in> set p) (map (replace_char 92 47) paths)))))"

definition build_bulk_preview :: "RiskAction \<Rightarrow> (pystr, pyval) dict" where
  "build_bulk_preview a =
     (let paths = take MAX_PREVIEW_PATHS (ra_paths a)
      in [(lit ''file_count'', PInt (effective_file_count a)),
          (lit ''sample_paths'', PSeq (map PStr paths)),
          (lit ''sample_truncated'', PBool (length (ra_paths a) > length paths)),
          (lit ''directories'', PSeq (map PStr (preview_directories (ra_paths a)))),
          (lit ''deletions'', PInt (ra_delete_count a)),
          (lit ''creations'', PInt (ra_create_count a)),
          (lit ''modifications'', PInt (ra_modify_count a)),
          (lit ''total_bytes'', pv_opt_int (ra_total_bytes a)),
          (lit ''repository_fraction'',
             pv_opt_float (map_option (py_round 4) (repository_fraction a))),
          (lit ''recursive'', PBool (ra_recursive a)),
          (lit ''rollback_available'', PBool (ra_reversible_by_checkpoint a))])"

section \<open>The engine\<close>

record RiskEngine =
  re_auto_approve_up_to :: RiskLevel
  re_bulk_files :: int
  re_bulk_deletes :: int
  re_repo_fraction :: real

definition new_engine :: "RiskLevel \<Rightarrow> int \<Rightarrow> int \<Rightarrow> real \<Rightarrow> 'd risk_error + RiskEngine" where
  "new_engine auto bulk_files bulk_deletes fraction =
     (if rank auto \<ge> rank HIGH then Inl (ValueError ''high and critical actions always need a human'')
      else Inr \<lparr>re_auto_approve_up_to = auto, re_bulk_files = bulk_files,
                re_bulk_deletes = bulk_deletes, re_repo_fraction = fraction\<rparr>)"

definition default_engine :: RiskEngine where
  "default_engine = \<lparr>re_auto_approve_up_to = MEDIUM, re_bulk_files = BULK_FILE_THRESHOLD,
     re_bulk_deletes = BULK_DELETE_THRESHOLD, re_repo_fraction = REPO_FRACTION_THRESHOLD\<rparr>"

definition base_level :: "pystr \<Rightarrow> RiskLevel \<times> pystr list" where
  "base_level kind =
     (if kind \<in> CRITICAL_KINDS then (CRITICAL, [lit ''kind:'' @ kind])
      else if kind \<in> HIGH_KINDS then (HIGH, [lit ''kind:'' @ kind])
      else if kind \<in> MEDIUM_KINDS then (MEDIUM, [lit ''kind:'' @ kind])
      else if kind \<in> LOW_KINDS then (LOW, [])
      else (HIGH, [lit ''kind:unknown'']))"

fun raise_to :: "RiskLevel \<Rightarrow> pystr \<Rightarrow> RiskLevel \<times> pystr list \<Rightarrow> RiskLevel \<times> pystr list" where
  "raise_to candidate reason (level, reasons) =
     (if rank candidate > rank level then candidate else level,
      if reason \<notin> set reasons then reasons @ [reason] else reasons)"

definition raise_if :: "bool \<Rightarrow> RiskLevel \<Rightarrow> string \<Rightarrow> RiskLevel \<times> pystr list \<Rightarrow>
    RiskLevel \<times> pystr list" where
  "raise_if c candidate reason lr = (if c then raise_to candidate (lit reason) lr else lr)"

definition risk_verdict :: "RiskEngine \<Rightarrow> RiskAction \<Rightarrow> RiskLevel \<times> pystr list" where
  "risk_verdict E a =
     (let v0 = base_level (ra_kind a);
          v1 = raise_if (ra_irreversible a) CRITICAL ''irreversible'' v0;
          v2 = raise_if (ra_outside_repository a) CRITICAL ''outside_repository'' v1;
          v3 = raise_if (\<exists>item \<in> set (ra_paths a). looks_like_system_path item)
                 CRITICAL ''system_path'' v2;
          v4 = raise_if (looks_like_system_path (ra_target a)) CRITICAL ''system_path'' v3;
          v5 = raise_if (ra_recursive a \<and> ra_delete_count a \<noteq> 0) HIGH ''recursive_delete'' v4;
          v6 = raise_if (ra_delete_count a \<ge> re_bulk_deletes E) HIGH ''bulk_delete'' v5;
          v7 = raise_if (ra_kind a \<in> FILE_MUTATION_KINDS \<and>
                         effective_file_count a \<ge> re_bulk_files E) HIGH ''bulk_mutation'' v6;
          v8 = raise_if (ra_kind a \<in> FILE_MUTATION_KINDS \<and>
                         (case repository_fraction a of
                            None \<Rightarrow> False | Some f \<Rightarrow> f \<ge> re_repo_fraction E))
                 HIGH ''large_repository_share'' v7
      in raise_if (ra_beyond_user_request a) HIGH ''beyond_user_request'' v8)"

definition assess :: "(pyval \<Rightarrow> 'd) \<Rightarrow> RiskEngine \<Rightarrow> RiskAction \<Rightarrow> 'd RiskAssessment" where
  "assess H E a =
     (let (level, reasons) = risk_verdict E a;
          requires = rank level > rank (re_auto_approve_up_to E);
          preview = (if effective_file_count a \<noteq> 0 \<or> ra_paths a \<noteq> [] then build_bulk_preview a
                     else []);
          head = clip MAX_TEXT (ra_summary a)
      in \<lparr>as_action_digest = action_digest H a, as_kind = ra_kind a,
          as_session_id = ra_session_id a, as_level = level,
          as_requires_confirmation = requires, as_reasons = reasons,
          as_headline = (if head \<noteq> [] then head else ra_kind a),
          as_target = clip 200 (ra_target a), as_preview = preview\<rparr>)"

definition authorize :: "(pyval \<Rightarrow> 'd) \<Rightarrow> (pystr \<Rightarrow> 'h) \<Rightarrow> RiskEngine \<Rightarrow> real \<Rightarrow> RiskAction \<Rightarrow>
    pystr option \<Rightarrow> ('h, 'd) ConfirmationLedger \<Rightarrow>
    ('d risk_error + 'd RiskAssessment) \<times> ('h, 'd) ConfirmationLedger" where
  "authorize H TH E now a token L =
     (let assessment = assess H E a
      in if \<not> as_requires_confirmation assessment then (Inr assessment, L)
         else if token = None then (Inl (SmartStopRequired assessment), L)
         else (case redeem TH now token assessment L of
                 (Inl r, L') \<Rightarrow> (Inl (ConfirmationRejected r), L')
               | (Inr _, L') \<Rightarrow> (Inr assessment, L')))"

definition public_record :: "'d ConfirmationGrant \<Rightarrow> 'd \<times> pystr \<times> real \<times> real" where
  "public_record g = (gr_action_digest g, gr_session_id g, gr_issued_at g, gr_expires_at g)"

section \<open>Facts about the ledger\<close>

definition token_live :: "(pystr \<Rightarrow> 'h) \<Rightarrow> ('h, 'd) ConfirmationLedger \<Rightarrow> pystr \<Rightarrow> bool" where
  "token_live TH L t \<longleftrightarrow>
     t \<noteq> [] \<and> (\<exists>e. map_of (lg_entries L) (TH t) = Some e \<and> \<not> le_used e)"

definition token_bound :: "(pystr \<Rightarrow> 'h) \<Rightarrow> ('h, 'd) ConfirmationLedger \<Rightarrow> pystr \<Rightarrow>
    'd RiskAssessment \<Rightarrow> real \<Rightarrow> bool" where
  "token_bound TH L t a now \<longleftrightarrow>
     t \<noteq> [] \<and> (\<exists>e. map_of (lg_entries L) (TH t) = Some e \<and> \<not> le_used e \<and> now \<le> le_expires_at e \<and>
       le_action_digest e = as_action_digest a \<and> le_session_id e = as_session_id a)"

lemmas redeem_cases = redeem_def Let_def

lemma redeem_Inr_iff:
  "redeem TH now tok a L = (Inr (), L') \<longleftrightarrow>
     (\<exists>t e. tok = Some t \<and> token_bound TH L t a now \<and> map_of (lg_entries L) (TH t) = Some e \<and>
        L' = L\<lparr>lg_entries := AList.update (TH t) (e\<lparr>le_used := True\<rparr>) (lg_entries L)\<rparr>)"
  by (auto simp: redeem_cases token_bound_def split: option.splits if_splits)

lemma redeem_fst_iff:
  "fst (redeem TH now tok a L) = Inr () \<longleftrightarrow> (\<exists>t. tok = Some t \<and> token_bound TH L t a now)"
  by (auto simp: redeem_cases token_bound_def split: option.splits if_splits)

lemma redeem_other:
  "redeem TH now tok a L = (r, L') \<Longrightarrow>
     map_of (lg_entries L') h = map_of (lg_entries L) h \<or> map_of (lg_entries L') h = None \<or>
     (\<exists>e. map_of (lg_entries L') h = Some e \<and> le_used e)"
  by (auto simp: redeem_cases map_of_AList_delete map_of_AList_update
      split: option.splits if_splits)

lemma purge_entries:
  "dict_ok (lg_entries L) \<Longrightarrow>
     lg_entries (snd (purge_expired now L)) = filter (\<lambda>x. \<not> is_stale now (snd x)) (lg_entries L)"
  using filter_not_keys [of "lg_entries L" "\<lambda>(k, e). is_stale now e"]
  by (simp add: purge_expired_def Let_def fold_delete case_prod_beta)

lemma purge_live: "token_live TH (snd (purge_expired now L)) t \<Longrightarrow> token_live TH L t"
  by (auto simp: purge_expired_def Let_def fold_delete token_live_def map_of_filter_key
      split: if_splits)

lemma issue_live:
  "token_live TH (snd (issue TH t' now a ttl L)) t \<Longrightarrow> token_live TH L t \<or> TH t' = TH t"
  by (auto simp: issue_def Let_def token_live_def map_of_AList_update split: if_splits)

lemma redeem_live: "token_live TH (snd (redeem TH now x a L)) t \<Longrightarrow> token_live TH L t"
  by (auto simp: redeem_cases token_live_def map_of_AList_update map_of_AList_delete
      split: option.splits if_splits)

lemma redeem_accept_spends:
  "redeem TH now (Some t) a L = (Inr (), L') \<Longrightarrow>
     token_bound TH L t a now \<and> token_live TH L t \<and> \<not> token_live TH L' t"
  by (auto simp: redeem_Inr_iff token_live_def token_bound_def map_of_AList_update)

interpretation risk_ledger: issuing_ledger "redeem TH" "token_live TH" "token_bound TH"
    "issue TH" purge_expired TH
  for TH :: "pystr \<Rightarrow> 'h"
proof
  fix now t a L r L' and t' :: pystr
  show "redeem TH now (Some t) a L = (Inr (), L') \<Longrightarrow> token_bound TH L t a now"
    by (simp add: redeem_accept_spends)
  show "redeem TH now (Some t) a L = (Inr (), L') \<Longrightarrow> token_live TH L t \<and> \<not> token_live TH L' t"
    by (simp add: redeem_accept_spends)
  show "fst (redeem TH now None a L) \<noteq> Inr ()"
    by (simp add: redeem_def)
qed (metis issue_live redeem_live purge_live snd_conv)+

lemma ledger_ops_ok:
  "dict_ok (lg_entries L) \<Longrightarrow> dict_ok (lg_entries (snd (issue TH t now a ttl L)))"
  "dict_ok (lg_entries L) \<Longrightarrow> dict_ok (lg_entries (snd (redeem TH now x a L)))"
  "dict_ok (lg_entries L) \<Longrightarrow> dict_ok (lg_entries (snd (purge_expired now L)))"
  by (auto simp: issue_def redeem_cases purge_entries split: option.splits)

section \<open>Facts about the verdict\<close>

lemma raise_to_eq: "raise_to c r (l, rs) = (max c l, if r \<in> set rs then rs else rs @ [r])"
  by (auto simp: max_def less_eq_RiskLevel_def)

lemma LOW_le [simp]: "LOW \<le> l" and le_CRITICAL [simp]: "l \<le> CRITICAL"
  by (cases l; simp add: less_eq_RiskLevel_def)+

lemma fst_raise_if: "fst (raise_if c lv r v) = max (if c then lv else LOW) (fst v)"
  by (cases v) (auto simp del: raise_to.simps simp add: raise_if_def raise_to_eq max_def)

lemma max_if_merge:
  "max (if p then l else LOW) (max (if q then l else LOW) x) = max (if p \<or> q then l else LOW) x"
  by (auto simp: max_def)

lemma set_snd_raise_if: "set (snd (raise_if c lv r v)) = (if c then insert (lit r) (set (snd v)) else set (snd v))"
  by (cases v) (auto simp: raise_if_def)

definition critical_fact :: "RiskAction \<Rightarrow> bool" where
  "critical_fact a \<longleftrightarrow> ra_irreversible a \<or> ra_outside_repository a
     \<or> (\<exists>p \<in> set (ra_paths a). looks_like_system_path p) \<or> looks_like_system_path (ra_target a)"

definition high_fact :: "RiskEngine \<Rightarrow> RiskAction \<Rightarrow> bool" where
  "high_fact E a \<longleftrightarrow>
     ra_recursive a \<and> ra_delete_count a \<noteq> 0 \<or> ra_delete_count a \<ge> re_bulk_deletes E
     \<or> ra_beyond_user_request a
     \<or> ra_kind a \<in> FILE_MUTATION_KINDS \<and>
        (effective_file_count a \<ge> re_bulk_files E \<or>
         (\<exists>f. repository_fraction a = Some f \<and> f \<ge> re_repo_fraction E))"

lemma assess_fields [simp]:
  "as_level (assess H E a) = fst (risk_verdict E a)"
  "as_reasons (assess H E a) = snd (risk_verdict E a)"
  "as_action_digest (assess H E a) = action_digest H a"
  "as_session_id (assess H E a) = ra_session_id a"
  "as_requires_confirmation (assess H E a) = (re_auto_approve_up_to E < fst (risk_verdict E a))"
  by (simp_all add: assess_def Let_def less_RiskLevel_def split: prod.splits)

lemma risk_verdict_level:
  "fst (risk_verdict E a) =
     (if critical_fact a then CRITICAL
      else if high_fact E a then max HIGH (fst (base_level (ra_kind a)))
      else fst (base_level (ra_kind a)))"
proof -
  have eq: "fst (risk_verdict E a) =
      max (if high_fact E a then HIGH else LOW)
        (max (if critical_fact a then CRITICAL else LOW) (fst (base_level (ra_kind a))))"
    unfolding risk_verdict_def Let_def fst_raise_if max_if_merge
    by (rule arg_cong2 [where f = max], rule if_cong)
       (auto simp: high_fact_def critical_fact_def split: option.splits intro!: arg_cong2 [where f = max] if_cong)
  show ?thesis unfolding eq by (simp add: max_absorb1 max_absorb2)
qed

lemma base_level_cases:
  "fst (base_level k) =
     (if k \<in> CRITICAL_KINDS then CRITICAL else if k \<in> HIGH_KINDS then HIGH
      else if k \<in> MEDIUM_KINDS then MEDIUM else if k \<in> LOW_KINDS then LOW else HIGH)"
  by (simp add: base_level_def)

lemma new_engine_auto: "new_engine auto bf bd fr = Inr E \<Longrightarrow> re_auto_approve_up_to E < HIGH"
  by (auto simp: new_engine_def less_RiskLevel_def split: if_splits)

lemma authorize_Inr_iff:
  "authorize H TH E now a tok L = (Inr r, L') \<longleftrightarrow>
     r = assess H E a \<and>
     (if as_requires_confirmation (assess H E a) then redeem TH now tok (assess H E a) L = (Inr (), L')
      else L' = L)"
proof (cases "as_requires_confirmation (assess H E a)")
  case True
  then show ?thesis
    by (cases "redeem TH now tok (assess H E a) L")
       (auto simp: authorize_def Let_def redeem_def split: sum.splits)
qed (auto simp: authorize_def Let_def)

lemma digest_payload_inject:
  assumes "digest_payload a = digest_payload b"
  shows "ra_kind a = ra_kind b \<and> ra_session_id a = ra_session_id b \<and> ra_target a = ra_target b \<and>
    mset (ra_paths a) = mset (ra_paths b) \<and> effective_file_count a = effective_file_count b \<and>
    ra_delete_count a = ra_delete_count b \<and> ra_create_count a = ra_create_count b \<and>
    ra_modify_count a = ra_modify_count b \<and> ra_total_bytes a = ra_total_bytes b \<and>
    ra_recursive a = ra_recursive b \<and> ra_irreversible a = ra_irreversible b \<and>
    ra_outside_repository a = ra_outside_repository b"
proof -
  have paths: "sort (ra_paths a) = sort (ra_paths b)"
    using assms by (simp add: digest_payload_def inj_map_eq_map inj_def)
  then have "mset (ra_paths a) = mset (ra_paths b)" by (metis mset_sort)
  moreover have "pv_opt_int x = pv_opt_int y \<longleftrightarrow> x = y" for x y
    by (cases x; cases y) auto
  ultimately show ?thesis using assms by (simp add: digest_payload_def)
qed

text \<open>What an action's source and summary do not reach.\<close>

lemma origin_file_count [simp]:
  "effective_file_count (a\<lparr>ra_source := s\<rparr>) = effective_file_count a"
  "effective_file_count (a\<lparr>ra_summary := m\<rparr>) = effective_file_count a"
  by (simp_all add: effective_file_count_def Let_def cong: option.case_cong)

lemma origin_fraction [simp]:
  "repository_fraction (a\<lparr>ra_source := s\<rparr>) = repository_fraction a"
  "repository_fraction (a\<lparr>ra_summary := m\<rparr>) = repository_fraction a"
  by (cases "ra_repository_file_count a"; simp add: repository_fraction_def)+

lemma origin_frame [simp]:
  "digest_payload (a\<lparr>ra_source := s\<rparr>) = digest_payload a"
  "digest_payload (a\<lparr>ra_summary := m\<rparr>) = digest_payload a"
  "risk_verdict E (a\<lparr>ra_source := s\<rparr>) = risk_verdict E a"
  "risk_verdict E (a\<lparr>ra_summary := m\<rparr>) = risk_verdict E a"
  "build_bulk_preview (a\<lparr>ra_source := s\<rparr>) = build_bulk_preview a"
  "build_bulk_preview (a\<lparr>ra_summary := m\<rparr>) = build_bulk_preview a"
  by (simp_all add: digest_payload_def risk_verdict_def build_bulk_preview_def)

section \<open>Properties\<close>

text \<open>
  The ledger accepts a presented token exactly when it names an entry that is unused, not past
  its expiry, and bound to the digest and the session of this assessment; an accepted token's entry
  becomes used and nothing else changes, an expired one is dropped, and every other rejection
  leaves the ledger as it was.
\<close>
theorem redeem_exact:
  "(fst (redeem TH now tok a L) = Inr () \<longleftrightarrow>
      (\<exists>t e. tok = Some t \<and> t \<noteq> [] \<and> map_of (lg_entries L) (TH t) = Some e \<and> \<not> le_used e \<and>
         now \<le> le_expires_at e \<and> le_action_digest e = as_action_digest a \<and>
         le_session_id e = as_session_id a)) \<and>
   map_of (lg_entries (snd (redeem TH now tok a L))) =
     (case (fst (redeem TH now tok a L), tok) of
        (Inr _, Some t) \<Rightarrow>
          (map_of (lg_entries L))
            (TH t := map_option (\<lambda>e. e\<lparr>le_used := True\<rparr>) (map_of (lg_entries L) (TH t)))
      | (Inl REJECT_EXPIRED, Some t) \<Rightarrow> (map_of (lg_entries L))(TH t := None)
      | _ \<Rightarrow> map_of (lg_entries L))"
  by (auto simp: redeem_cases update_conv' delete_conv' split: option.splits if_splits)

text \<open>C2. 
  One human decision approves at most one action: in any sequence of issue, redeem and purge
  operations on one ledger, a token is accepted at most as often as a token with its hash was
  issued, plus one if it was still live at the start.
\<close>
theorem confirmations_single_use:
  "accepted (issue TH) (redeem TH) purge_expired t ops L
     \<le> of_bool (token_live TH L t) + issued TH t ops"
  by (rule risk_ledger.accepted_le_issued)

text \<open>The source of an agent and its prose never change the verdict: an action that differs only in
  \<^verbatim>\<open>source\<close> is authorized, refused and charged to the ledger identically, and one that differs in
  its summary too gets the same digest, level, reasons and confirmation requirement.
\<close>
theorem source_never_changes_verdict:
  "authorize H TH E now (a\<lparr>ra_source := s\<rparr>) tok L = authorize H TH E now a tok L \<and>
   assess H E (a\<lparr>ra_source := s, ra_summary := m\<rparr>) =
     (assess H E a)\<lparr>as_headline := as_headline (assess H E (a\<lparr>ra_summary := m\<rparr>))\<rparr>"
proof -
  have "assess H E (a\<lparr>ra_source := s\<rparr>) = assess H E a" for a
    by (cases "risk_verdict E a") (simp add: assess_def action_digest_def Let_def)
  moreover have "assess H E (a\<lparr>ra_summary := m\<rparr>) =
     (assess H E a)\<lparr>as_headline := as_headline (assess H E (a\<lparr>ra_summary := m\<rparr>))\<rparr>"
    by (cases "risk_verdict E a") (simp add: assess_def action_digest_def Let_def)
  moreover have "assess H E (a\<lparr>ra_source := s, ra_summary := m\<rparr>) = assess H E (a\<lparr>ra_summary := m\<rparr>)"
    by (cases "risk_verdict E a") (simp add: assess_def action_digest_def Let_def)
  ultimately show ?thesis by (simp add: authorize_def)
qed

text \<open>
  The level of an action is CRITICAL when any irreversible, outside-repository or system-path
  fact holds, otherwise at least HIGH when a bulk, recursive-delete, repository-share or
  beyond-request fact holds, and otherwise the level of its kind, an unknown kind being HIGH.
\<close>
theorem assess_level_exact:
  "as_level (assess H E a) =
     (let k = ra_kind a;
          base = (if k \<in> CRITICAL_KINDS then CRITICAL else if k \<in> HIGH_KINDS then HIGH
            else if k \<in> MEDIUM_KINDS then MEDIUM else if k \<in> LOW_KINDS then LOW else HIGH)
      in if critical_fact a then CRITICAL else if high_fact E a then max HIGH base else base)"
  by (simp add: risk_verdict_level base_level_cases Let_def)

text \<open>C1. 
  No engine that can be constructed lets a dangerous action through by itself: when the kind is
  critical, high or unknown, or any escalating fact holds, authorization succeeds only by redeeming
  a token for exactly this assessment.
\<close>
theorem dangerous_actions_need_a_human:
  assumes "new_engine auto bf bd fr = Inr E"
    and "ra_kind a \<notin> MEDIUM_KINDS \<union> LOW_KINDS \<or> critical_fact a \<or> high_fact E a"
    and "authorize H TH E now a tok L = (Inr r, L')"
  shows "redeem TH now tok (assess H E a) L = (Inr (), L')"
proof -
  have "HIGH \<le> fst (risk_verdict E a)"
    using assms(2) by (auto simp: risk_verdict_level base_level_cases)
  with new_engine_auto [OF assms(1)] have "as_requires_confirmation (assess H E a)"
    by simp
  with assms(3) show ?thesis by (simp add: authorize_Inr_iff)
qed

text \<open>The sample ledger of the witnesses: one decision for pushing from session \<open>s1\<close>, token \<open>tok\<close>.\<close>

abbreviation sample_push :: RiskAction where
  "sample_push \<equiv> new_action (lit ''git.push'') (lit ''s1'')"

abbreviation sample_ledger :: "(pystr, pyval) ConfirmationLedger" where
  "sample_ledger \<equiv> snd (issue id (lit ''tok'') 0 (assess id default_engine sample_push) None
     \<lparr>lg_ttl = 300, lg_entries = []\<rparr>)"

lemma sample_push_level: "fst (risk_verdict default_engine sample_push) = CRITICAL"
  by (simp add: risk_verdict_level base_level_cases new_action_def CRITICAL_KINDS_def)

lemma sample_redeem:
  "now \<le> 300 \<Longrightarrow> fst (redeem id now (Some (lit ''tok'')) (assess id default_engine sample_push) sample_ledger) = Inr ()"
  by (simp add: redeem_def issue_def Let_def)

theorem dangerous_actions_need_a_human_witness:
  "\<exists>L'. redeem id 7 (Some (lit ''tok'')) (assess id default_engine sample_push) sample_ledger = (Inr (), L')"
proof -
  have E: "new_engine MEDIUM 10 5 (1 / 4) = Inr default_engine"
    by (simp add: new_engine_def default_engine_def BULK_FILE_THRESHOLD_def BULK_DELETE_THRESHOLD_def
        REPO_FRACTION_THRESHOLD_def)
  have k: "ra_kind sample_push \<notin> MEDIUM_KINDS \<union> LOW_KINDS"
    by (simp add: new_action_def MEDIUM_KINDS_def LOW_KINDS_def)
  have "as_requires_confirmation (assess id default_engine sample_push)"
    by (simp add: sample_push_level) (simp add: default_engine_def less_RiskLevel_def)
  moreover have "redeem id 7 (Some (lit ''tok'')) (assess id default_engine sample_push) sample_ledger =
      (Inr (), snd (redeem id 7 (Some (lit ''tok'')) (assess id default_engine sample_push) sample_ledger))"
    using sample_redeem [of 7] by (simp add: prod_eq_iff)
  ultimately obtain L' where "authorize id id default_engine 7 sample_push (Some (lit ''tok'')) sample_ledger
      = (Inr (assess id default_engine sample_push), L')"
    by (auto simp: authorize_Inr_iff)
  from dangerous_actions_need_a_human [OF E disjI1 [OF k] this] show ?thesis by blast
qed

text \<open>
  A human decision is for one exact action: if two distinct payloads never share a digest, a
  token issued for one action and accepted for another proves that the two agree in kind, session,
  target, set of paths, every count, the byte total and every danger flag.
\<close>
theorem confirmation_binds_the_action:
  assumes "inj H"
    and "issue TH t now0 (assess H E a) ttl L0 = (Inr g, L)"
    and "redeem TH now (Some t) (assess H E' b) L = (Inr (), L')"
  shows "ra_kind a = ra_kind b \<and> ra_session_id a = ra_session_id b \<and> ra_target a = ra_target b \<and>
    mset (ra_paths a) = mset (ra_paths b) \<and> effective_file_count a = effective_file_count b \<and>
    ra_delete_count a = ra_delete_count b \<and> ra_create_count a = ra_create_count b \<and>
    ra_modify_count a = ra_modify_count b \<and> ra_total_bytes a = ra_total_bytes b \<and>
    ra_recursive a = ra_recursive b \<and> ra_irreversible a = ra_irreversible b \<and>
    ra_outside_repository a = ra_outside_repository b \<and> now \<le> gr_expires_at g"
proof -
  from assms(2,3) have "action_digest H a = action_digest H b" "now \<le> gr_expires_at g"
    by (auto simp: issue_def redeem_Inr_iff token_bound_def map_of_AList_update Let_def split: if_splits)
  with assms(1) have "digest_payload a = digest_payload b" and "now \<le> gr_expires_at g"
    by (auto simp: action_digest_def inj_eq)
  then show ?thesis using digest_payload_inject by blast
qed

theorem confirmation_binds_the_action_witness:
  "ra_kind sample_push = lit ''git.push'' \<and>
   (\<exists>g L L'. issue id (lit ''tok'') 0 (assess id default_engine sample_push) None
       \<lparr>lg_ttl = 300, lg_entries = []\<rparr> = (Inr g, L) \<and>
     redeem id 300 (Some (lit ''tok'')) (assess id default_engine sample_push) L = (Inr (), L') \<and>
     300 \<le> gr_expires_at g)"
proof -
  obtain g L where i: "issue id (lit ''tok'') 0 (assess id default_engine sample_push) None
       \<lparr>lg_ttl = 300, lg_entries = []\<rparr> = (Inr g, L)"
    by (simp add: issue_def Let_def)
  obtain L' where r: "redeem id 300 (Some (lit ''tok'')) (assess id default_engine sample_push) L = (Inr (), L')"
    using sample_redeem [of 300] i by (metis order_refl prod.collapse snd_conv)
  from confirmation_binds_the_action [OF inj_on_id i r] i r show ?thesis
    by (auto simp: new_action_def)
qed

text \<open>
  Purging a ledger removes exactly the entries that are used or past their expiry and returns
  their number, so no token that could still be accepted now or later is lost.
\<close>
theorem purge_keeps_redeemable:
  assumes "dict_ok (lg_entries L)" and "purge_expired now L = (n, L')" and "now \<le> later"
  shows "n = length (filter (\<lambda>x. is_stale now (snd x)) (lg_entries L)) \<and>
    n + length (lg_entries L') = length (lg_entries L) \<and>
    (fst (redeem TH later tok a L') = Inr () \<longleftrightarrow> fst (redeem TH later tok a L) = Inr ())"
proof -
  have entries: "lg_entries L' = filter (\<lambda>x. \<not> is_stale now (snd x)) (lg_entries L)"
    using purge_entries [OF assms(1), of now] assms(2) by simp
  have n: "n = length (filter (\<lambda>x. is_stale now (snd x)) (lg_entries L))"
    using assms(2) by (auto simp: purge_expired_def Let_def case_snd)
  have look: "map_of (lg_entries L') h = (case map_of (lg_entries L) h of None \<Rightarrow> None
      | Some e \<Rightarrow> if \<not> is_stale now e then Some e else None)" for h
    using map_of_filter_kv [OF assms(1), of "\<lambda>k e. \<not> is_stale now e" h]
    by (simp add: entries case_snd)
  have "token_bound TH L' t a later = token_bound TH L t a later" for t
    using assms(3) by (auto simp: token_bound_def look is_stale_def split: option.splits)
  then show ?thesis
    by (simp add: n entries sum_length_filter_compl redeem_fst_iff)
qed

theorem purge_keeps_redeemable_witness:
  "\<exists>L'. purge_expired 200 sample_ledger = (0, L') \<and>
     fst (redeem id 250 (Some (lit ''tok'')) (assess id default_engine sample_push) L') = Inr ()"
proof -
  have ok: "dict_ok (lg_entries sample_ledger)" by (simp add: issue_def Let_def dict_ok_def)
  have p: "purge_expired 200 sample_ledger = (0, snd (purge_expired 200 sample_ledger))"
    by (simp add: purge_expired_def issue_def Let_def is_stale_def)
  from purge_keeps_redeemable [OF ok p, of 250 id "Some (lit ''tok'')" "assess id default_engine sample_push"]
    sample_redeem [of 250] p show ?thesis by auto
qed

end
