(* ===== verification/ActionPolicy.thy ===== *)
theory ActionPolicy imports RiskEngine begin

text \<open>
  The action decisions of \<^verbatim>\<open>src/karox/action_policy.py\<close>: the consequence class of an action, the
  lexical reading of the user's task, and the disposition that follows from both. The Unicode
  character database behind \<open>\w\<close> and \<^verbatim>\<open>str.casefold\<close> is the argument \<open>ud\<close>; the patterns themselves
  are translated (Cyrillic words as lists of code points).
\<close>

datatype ActionDisposition = AUTO | GUARDED_AUTO | CONFIRM | HARD_BLOCK

datatype ConsequenceClass =
  OBSERVATION | REBUILDABLE | WORKSPACE | USER_DATA | SYSTEM | EXTERNAL | UNKNOWN

fun disposition_value :: "ActionDisposition \<Rightarrow> pystr" where
  "disposition_value AUTO = lit ''auto''"
| "disposition_value GUARDED_AUTO = lit ''guarded_auto''"
| "disposition_value CONFIRM = lit ''confirm''"
| "disposition_value HARD_BLOCK = lit ''hard_block''"

fun consequence_value :: "ConsequenceClass \<Rightarrow> pystr" where
  "consequence_value OBSERVATION = lit ''observation''"
| "consequence_value REBUILDABLE = lit ''rebuildable''"
| "consequence_value WORKSPACE = lit ''workspace''"
| "consequence_value USER_DATA = lit ''user_data''"
| "consequence_value SYSTEM = lit ''system''"
| "consequence_value EXTERNAL = lit ''external''"
| "consequence_value UNKNOWN = lit ''unknown''"

section \<open>Kind tables\<close>

definition REBUILDABLE_PARTS :: "pystr set" where
  "REBUILDABLE_PARTS = lit ` {''.cache'', ''.gradle'', ''.mypy_cache'', ''.next'', ''.nox'',
     ''.nuxt'', ''.output'', ''.pytest_cache'', ''.ruff_cache'', ''.svelte-kit'', ''.tox'',
     ''.turbo'', ''.venv'', ''.vite'', ''__pycache__'', ''build'', ''cache'', ''cacheddata'',
     ''code cache'', ''coverage'', ''dist'', ''gpucache'', ''logs'', ''node_modules'', ''out'',
     ''target'', ''temp'', ''tmp'', ''venv''}"

definition EXTERNAL_CONFIRM_KINDS :: "pystr set" where
  "EXTERNAL_CONFIRM_KINDS = lit ` {''account.delete'', ''account.security_change'',
     ''billing.change'', ''browser.final_submit'', ''browser.grant_permission'',
     ''browser.send_message'', ''browser.upload'', ''deploy'', ''git.force_push'',
     ''git.history_rewrite'', ''git.push'', ''package.publish'', ''payment'',
     ''permission.change'', ''release.publish'', ''subscription.change''}"

definition HARD_BLOCK_KINDS :: "pystr set" where
  "HARD_BLOCK_KINDS = lit ` {''credential.export'', ''repository.escape'', ''system.path_write''}"

definition EXTERNAL_ALWAYS_CONFIRM :: "pystr set" where
  "EXTERNAL_ALWAYS_CONFIRM = lit ` {''git.push'', ''git.force_push'', ''package.publish'',
     ''release.publish'', ''deploy'', ''browser.final_submit'', ''browser.send_message'',
     ''browser.upload'', ''account.delete'', ''account.security_change'', ''billing.change'',
     ''payment'', ''permission.change'', ''subscription.change''}"

definition DESTRUCTIVE_KINDS :: "pystr set" where
  "DESTRUCTIVE_KINDS = lit ` {''repo.delete'', ''git.clean'', ''git.reset_hard'',
     ''git.branch_delete'', ''git.tag_delete''}"

definition OBSERVATION_KINDS :: "pystr set" where
  "OBSERVATION_KINDS = lit ` {''repo.read'', ''repo.search'', ''repo.list'', ''disk.read'',
     ''git.read'', ''status.read'', ''diagnostics.read'', ''browser.read'', ''browser.snapshot'',
     ''browser.screenshot''}"

definition REBUILDABLE_SUFFIXES :: "pystr list" where
  "REBUILDABLE_SUFFIXES = map lit [''.cache'', ''.log'', ''.pyc'', ''.tmp'']"

definition WORKSPACE_KINDS :: "pystr set" where
  "WORKSPACE_KINDS = lit ` {''repo.write'', ''repo.create'', ''repo.move'', ''repo.bulk_write'',
     ''repo.wide_replace'', ''git.commit'', ''package.install'', ''migration.run'',
     ''process.run_dev'', ''process.run_unknown'', ''checks.run'', ''tests.run'',
     ''devserver.start'', ''browser.input'', ''mcp.call'', ''network.request''}"

definition DESTRUCTIVE_GIT_KINDS :: "pystr set" where
  "DESTRUCTIVE_GIT_KINDS = lit ` {''git.reset_hard'', ''git.clean'', ''git.history_rewrite''}"

definition AUTO_KINDS :: "pystr set" where
  "AUTO_KINDS = lit ` {''repo.write'', ''repo.create'', ''repo.move'', ''repo.bulk_write'',
     ''repo.wide_replace'', ''checks.run'', ''tests.run'', ''package.install'',
     ''process.run_dev'', ''devserver.start'', ''browser.input'', ''network.request''}"

definition OPAQUE_KINDS :: "pystr set" where
  "OPAQUE_KINDS = lit ` {''process.run_unknown'', ''mcp.call'', ''migration.run''}"

section \<open>The task patterns\<close>

definition CLEANUP_RE :: re where
  "CLEANUP_RE = ralts [
     rseqs [RBoundary, rstr (lit ''clean''), ROpt (rstr (lit ''up'')), RBoundary],
     rseqs [RBoundary, rstr (lit ''clear''), RMany CSpace 1 None, ROpt (rseqs [rstr (lit ''the''),
     RMany CSpace 1 None]), rstr (lit ''cache''), RBoundary],
     rseqs [RBoundary, rstr (lit ''remove''), RMany CSpace 1 None, rstr (lit ''junk''),
     RBoundary],
     rseqs [rstr [1086, 1095, 1080, 1089, 1090], RMany CWord 0 None],
     rseqs [rstr [1087, 1086, 1095, 1080, 1089, 1090], RMany CWord 0 None],
     rseqs [RBoundary, rstr [1084, 1091, 1089, 1086, 1088], RMany CWord 0 None, RBoundary],
     rseqs [RBoundary, rstr [1082, 1101, 1096], RMany CWord 0 None, RBoundary]]"

definition DELETE_RE :: re where
  "DELETE_RE = ralts [
     rseqs [RBoundary, rstr (lit ''delete''), RBoundary],
     rseqs [RBoundary, rstr (lit ''remove''), RBoundary],
     rseqs [RBoundary, rstr (lit ''erase''), RBoundary],
     rseqs [RBoundary, rstr (lit ''purge''), RBoundary],
     rseqs [RBoundary, rstr (lit ''uninstall''), RBoundary],
     rseqs [rstr [1091, 1076, 1072, 1083], RMany CWord 0 None],
     rseqs [rstr [1089, 1085, 1077, 1089], RMany CWord 0 None],
     rseqs [rstr [1091, 1073, 1077, 1088], RMany CWord 0 None]]"

definition PUSH_RE :: re where
  "PUSH_RE = ralts [
     rseqs [RBoundary, rstr (lit ''push''), RBoundary],
     rseqs [RBoundary, rstr [1087, 1091, 1096], RMany CWord 0 None, RBoundary]]"

definition FORCE_PUSH_RE :: re where
  "FORCE_PUSH_RE = ralts [
     rseqs [RBoundary, rstr (lit ''force''), ROpt (RC (COr (CEq 45) (CEq 32))), rstr (lit
     ''push''), RBoundary],
     rseqs [RBoundary, rstr (lit ''push''), RBoundary, RMany CAny 0 (Some 24), RBoundary, rstr
     (lit ''force''), RBoundary],
     rseqs [RBoundary, rstr (lit ''force''), RBoundary, RMany CAny 0 (Some 24), RBoundary, rstr
     (lit ''push''), RBoundary],
     rseqs [rstr [1092, 1086, 1088, 1089], RMany CWord 0 None, RMany CAny 0 (Some 24), rstr [1087,
     1091, 1096], RMany CWord 0 None],
     rseqs [rstr [1087, 1091, 1096], RMany CWord 0 None, RMany CAny 0 (Some 24), rstr [1092, 1086,
     1088, 1089], RMany CWord 0 None]]"

definition PUBLISH_RE :: re where
  "PUBLISH_RE = ralts [
     rseqs [RBoundary, rstr (lit ''publish''), RBoundary],
     rseqs [RBoundary, rstr (lit ''release''), RBoundary],
     rseqs [rstr [1086, 1087, 1091, 1073, 1083, 1080, 1082, 1086, 1074], RMany CWord 0 None],
     rseqs [rstr [1088, 1077, 1083, 1080, 1079, 1085], RMany CWord 0 None]]"

definition DEPLOY_RE :: re where
  "DEPLOY_RE = ralts [
     rseqs [RBoundary, rstr (lit ''deploy''), RBoundary],
     rseqs [rstr [1079, 1072, 1076, 1077, 1087, 1083, 1086], RMany CWord 0 None],
     rseqs [rstr [1076, 1077, 1087, 1083, 1086], RMany CWord 0 None]]"

definition SEND_RE :: re where
  "SEND_RE = ralts [
     rseqs [RBoundary, rstr (lit ''send''), RBoundary],
     rseqs [rstr [1086, 1090, 1087, 1088, 1072, 1074], RMany CWord 0 None]]"

definition UPLOAD_RE :: re where
  "UPLOAD_RE = ralts [
     rseqs [RBoundary, rstr (lit ''upload''), RBoundary],
     rseqs [rstr [1079, 1072, 1075, 1088, 1091, 1079], RMany CWord 0 None],
     rseqs [rstr [1072, 1087, 1083, 1086, 1072, 1076], RMany CWord 0 None]]"

definition EXTERNAL_RE :: re where
  "EXTERNAL_RE = ralts [
     rseqs [RBoundary, rstr (lit ''push''), RBoundary],
     rseqs [RBoundary, rstr (lit ''publish''), RBoundary],
     rseqs [RBoundary, rstr (lit ''release''), RBoundary],
     rseqs [RBoundary, rstr (lit ''deploy''), RBoundary],
     rseqs [RBoundary, rstr (lit ''send''), RBoundary],
     rseqs [RBoundary, rstr (lit ''upload''), RBoundary],
     rseqs [rstr [1087, 1091, 1096], RMany CWord 0 None],
     rseqs [rstr [1086, 1090, 1087, 1088, 1072, 1074], RMany CWord 0 None],
     rseqs [rstr [1086, 1087, 1091, 1073, 1083, 1080, 1082, 1086, 1074], RMany CWord 0 None],
     rseqs [rstr [1088, 1077, 1083, 1080, 1079, 1085], RMany CWord 0 None],
     rseqs [rstr [1079, 1072, 1076, 1077, 1087, 1083, 1086], RMany CWord 0 None],
     rseqs [rstr [1076, 1077, 1087, 1083, 1086], RMany CWord 0 None],
     rseqs [rstr [1072, 1087, 1083, 1086, 1072, 1076], RMany CWord 0 None]]"

section \<open>Reading the task\<close>

definition norm_text :: "unidata \<Rightarrow> pystr \<Rightarrow> pystr" where
  "norm_text ud value = casefold ud (replace_char 92 47 value)"

definition path_parts :: "pystr \<Rightarrow> pystr list" where
  "path_parts s = filter (\<lambda>part. part \<noteq> []) (split_char 47 s)"

definition path_is_rebuildable :: "unidata \<Rightarrow> pystr \<Rightarrow> bool" where
  "path_is_rebuildable ud value =
     (let normalized = strip_by (\<lambda>c. c = 47) (norm_text ud value)
      in normalized \<noteq> [] \<and>
         (let parts = path_parts normalized
          in (\<exists>part \<in> set parts. part \<in> REBUILDABLE_PARTS) \<or>
             (let leaf = (if parts \<noteq> [] then last parts else normalized)
              in \<exists>suf \<in> set REBUILDABLE_SUFFIXES. endswith leaf suf)))"

definition path_is_system :: "pystr \<Rightarrow> bool" where
  "path_is_system value \<longleftrightarrow> value \<noteq> [] \<and> looks_like_system_path value"

record IntentScope =
  is_raw :: pystr
  is_cleanup_requested :: bool
  is_deletion_requested :: bool
  is_external_requested :: bool
  is_push_requested :: bool
  is_force_push_requested :: bool
  is_publish_requested :: bool
  is_deploy_requested :: bool
  is_send_requested :: bool
  is_upload_requested :: bool

definition compile_intent :: "unidata \<Rightarrow> pystr \<Rightarrow> IntentScope" where
  "compile_intent ud raw =
     (let search = (\<lambda>r. re_search (ud_word ud) True r raw);
          cleanup = search CLEANUP_RE;
          deletion = cleanup \<or> search DELETE_RE
      in \<lparr>is_raw = raw, is_cleanup_requested = cleanup, is_deletion_requested = deletion,
          is_external_requested = search EXTERNAL_RE, is_push_requested = search PUSH_RE,
          is_force_push_requested = search FORCE_PUSH_RE,
          is_publish_requested = search PUBLISH_RE, is_deploy_requested = search DEPLOY_RE,
          is_send_requested = search SEND_RE, is_upload_requested = search UPLOAD_RE\<rparr>)"

definition mentions :: "unidata \<Rightarrow> IntentScope \<Rightarrow> pystr \<Rightarrow> bool" where
  "mentions ud i path =
     (let task = norm_text ud (is_raw i);
          candidate = strip_by (\<lambda>c. c = 47) (norm_text ud path)
      in if task = [] \<or> candidate = [] then False
         else if contains task candidate then True
         else
           let parts = path_parts candidate;
               probes = (if parts \<noteq> [] then [last parts] else [])
                 @ (if length parts \<ge> 2
                    then [join_with [47] (drop (length parts - 2) parts)] else [])
           in \<exists>probe \<in> set probes. length probe \<ge> 3 \<and> contains task probe)"

definition authorizes_delete :: "unidata \<Rightarrow> IntentScope \<Rightarrow> RiskAction \<Rightarrow> ConsequenceClass \<Rightarrow> bool" where
  "authorizes_delete ud i a consequence =
     (if consequence = REBUILDABLE then is_cleanup_requested i \<or> is_deletion_requested i
      else if consequence = WORKSPACE then is_deletion_requested i
      else if consequence = USER_DATA then
        is_deletion_requested i \<and> ra_paths a \<noteq> [] \<and> (\<forall>path \<in> set (ra_paths a). mentions ud i path)
      else False)"

definition authorizes_external :: "IntentScope \<Rightarrow> pystr \<Rightarrow> bool" where
  "authorizes_external i kind =
     (if kind = lit ''git.push'' then is_push_requested i
      else if kind = lit ''git.force_push'' then is_force_push_requested i
      else if kind = lit ''release.publish'' \<or> kind = lit ''package.publish'' then is_publish_requested i
      else if kind = lit ''deploy'' then is_deploy_requested i
      else if kind = lit ''browser.send_message'' then is_send_requested i
      else if kind = lit ''browser.upload'' then is_upload_requested i
      else if kind = lit ''browser.final_submit'' then is_send_requested i \<or> is_upload_requested i
      else False)"

section \<open>Consequences\<close>

text \<open>\<^verbatim>\<open>details.get("deletion_requested")\<close> as a truth value.\<close>

definition details_truthy :: "RiskAction \<Rightarrow> string \<Rightarrow> bool" where
  "details_truthy a key =
     (case map_of (ra_details a) (lit key) of None \<Rightarrow> False | Some v \<Rightarrow> truthy v)"

fun nonempty_strs :: "pyval list \<Rightarrow> pystr list" where
  "nonempty_strs [] = []"
| "nonempty_strs (PStr s # xs) = (if s \<noteq> [] then s # nonempty_strs xs else nonempty_strs xs)"
| "nonempty_strs (x # xs) = nonempty_strs xs"

definition declared_delete_paths :: "RiskAction \<Rightarrow> pystr list" where
  "declared_delete_paths a =
     (case map_of (ra_details a) (lit ''deletion_paths'') of
        Some (PSeq xs) \<Rightarrow> nonempty_strs xs
      | _ \<Rightarrow> [])"

definition delete_candidates :: "RiskAction \<Rightarrow> pystr list" where
  "delete_candidates a =
     (if declared_delete_paths a \<noteq> [] then declared_delete_paths a
      else if ra_paths a \<noteq> [] then ra_paths a
      else if ra_target a \<noteq> [] then [ra_target a] else [])"

definition is_destructive :: "RiskAction \<Rightarrow> bool" where
  "is_destructive a \<longleftrightarrow> ra_kind a \<in> DESTRUCTIVE_KINDS \<or> ra_delete_count a > 0
     \<or> details_truthy a ''deletion_requested''"

definition consequence_for :: "unidata \<Rightarrow> RiskAction \<Rightarrow> ConsequenceClass" where
  "consequence_for ud a =
     (if ra_kind a \<in> OBSERVATION_KINDS then OBSERVATION
      else if ra_kind a \<in> HARD_BLOCK_KINDS then SYSTEM
      else if ra_kind a \<in> EXTERNAL_CONFIRM_KINDS then EXTERNAL
      else if (\<exists>path \<in> set (ra_paths a). path_is_system path) \<or> path_is_system (ra_target a) then SYSTEM
      else if is_destructive a then
        (let candidates = delete_candidates a
         in if candidates = [] then UNKNOWN
            else if ra_outside_repository a then USER_DATA
            else if (\<forall>path \<in> set candidates. path_is_rebuildable ud path) then REBUILDABLE
            else WORKSPACE)
      else if ra_kind a \<in> WORKSPACE_KINDS then WORKSPACE
      else if ra_outside_repository a then USER_DATA
      else UNKNOWN)"

section \<open>Decisions\<close>

record 'd ActionDecision =
  ad_action_digest :: 'd
  ad_disposition :: ActionDisposition
  ad_consequence :: ConsequenceClass
  ad_assessment :: "'d RiskAssessment"
  ad_reasons :: "pystr list"
  ad_intent_authorized :: bool
  ad_impact :: "(pystr, pyval) dict"

definition ad_requires_confirmation :: "'d ActionDecision \<Rightarrow> bool" where
  "ad_requires_confirmation d \<longleftrightarrow> ad_disposition d = CONFIRM"

definition ad_hard_blocked :: "'d ActionDecision \<Rightarrow> bool" where
  "ad_hard_blocked d \<longleftrightarrow> ad_disposition d = HARD_BLOCK"

text \<open>\<^verbatim>\<open>repo.delete\<close>, a deletion count, or the declared flag.\<close>

definition delete_requested :: "RiskAction \<Rightarrow> bool" where
  "delete_requested a \<longleftrightarrow> ra_kind a = lit ''repo.delete'' \<or> ra_delete_count a \<noteq> 0
     \<or> details_truthy a ''deletion_requested''"

text \<open>
  The decision chain of \<^verbatim>\<open>decide\<close>: the disposition, the reasons appended to the assessment's, and
  whether the task's wording authorized the effect.
\<close>

definition dispose :: "unidata \<Rightarrow> RiskLevel \<Rightarrow> RiskAction \<Rightarrow> IntentScope \<Rightarrow> bool \<Rightarrow>
    ActionDisposition \<times> pystr list \<times> bool" where
  "dispose ud level a intent bypass_mode =
     (let consequence = consequence_for ud a; k = ra_kind a;
          by_delete = authorizes_delete ud intent a consequence;
          by_external = authorizes_external intent k
      in if ra_beyond_user_request a then (CONFIRM, [lit ''outside_intent_scope''], False)
         else if consequence = SYSTEM \<or> k \<in> HARD_BLOCK_KINDS then
           (HARD_BLOCK, [lit ''hard_boundary''], False)
         else if consequence = EXTERNAL then
           (if k \<in> EXTERNAL_ALWAYS_CONFIRM then
              (CONFIRM,
               (if by_external then [lit ''explicit_external_intent_context''] else [])
                 @ [lit ''external_side_effect''], by_external)
            else if by_external then (GUARDED_AUTO, [lit ''explicit_external_intent''], by_external)
            else (CONFIRM, [lit ''external_side_effect''], by_external))
         else if consequence = OBSERVATION then (AUTO, [], False)
         else if k \<in> DESTRUCTIVE_GIT_KINDS then (CONFIRM, [lit ''destructive_git''], False)
         else if consequence = REBUILDABLE then
           (GUARDED_AUTO, [lit ''rebuildable_effect''], by_delete)
         else if delete_requested a then
           (if bypass_mode \<and> consequence = WORKSPACE then
              (GUARDED_AUTO, [lit ''bypass_workspace_delete''], by_delete)
            else (CONFIRM, [lit ''destructive_delete_requires_user''], by_delete))
         else if k = lit ''git.commit'' then (GUARDED_AUTO, [lit ''local_reversible_commit''], False)
         else if k \<in> AUTO_KINDS then (AUTO, [], False)
         else if k \<in> OPAQUE_KINDS then
           (GUARDED_AUTO, [lit ''opaque_but_capability_granted''], False)
         else if rank level \<le> rank MEDIUM then (AUTO, [], False)
         else (CONFIRM, [lit ''unknown_consequence''], False))"

definition decide :: "(pyval \<Rightarrow> 'd) \<Rightarrow> unidata \<Rightarrow> RiskEngine \<Rightarrow> RiskAction \<Rightarrow> pystr \<Rightarrow> bool \<Rightarrow>
    'd ActionDecision" where
  "decide H ud E a user_intent bypass_mode =
     (let assessment = assess H E a;
          intent = compile_intent ud user_intent;
          consequence = consequence_for ud a;
          (disposition, added, intent_authorized) =
             dispose ud (as_level assessment) a intent bypass_mode;
          preview = (if ra_paths a \<noteq> [] \<or> effective_file_count a \<noteq> 0 then build_bulk_preview a else []);
          impact = AList.update (lit ''intent_authorized'') (PBool intent_authorized)
            (AList.update (lit ''consequence'') (PStr (consequence_value consequence))
              (AList.update (lit ''disposition'') (PStr (disposition_value disposition)) preview));
          compatible = assessment\<lparr>as_requires_confirmation := (disposition = CONFIRM),
            as_preview := (if impact \<noteq> [] then impact else as_preview assessment)\<rparr>
      in \<lparr>ad_action_digest = action_digest H a, ad_disposition = disposition,
          ad_consequence = consequence, ad_assessment = compatible,
          ad_reasons = dedup (as_reasons assessment @ added),
          ad_intent_authorized = intent_authorized, ad_impact = impact\<rparr>)"

datatype 'd action_error =
    ActionHardBlocked "'d ActionDecision"
  | ActionConfirmationRequired "'d ActionDecision"
  | ActionConfirmationRejected reject_reason

definition authorize_action :: "(pyval \<Rightarrow> 'd) \<Rightarrow> (pystr \<Rightarrow> 'h) \<Rightarrow> unidata \<Rightarrow> RiskEngine \<Rightarrow> real \<Rightarrow>
    RiskAction \<Rightarrow> pystr \<Rightarrow> pystr option \<Rightarrow> bool \<Rightarrow> ('h, 'd) ConfirmationLedger \<Rightarrow>
    ('d action_error + 'd ActionDecision) \<times> ('h, 'd) ConfirmationLedger" where
  "authorize_action H TH ud E now a user_intent token bypass_mode L =
     (let decision = decide H ud E a user_intent bypass_mode
      in if ad_hard_blocked decision then (Inl (ActionHardBlocked decision), L)
         else if \<not> ad_requires_confirmation decision then (Inr decision, L)
         else if token = None then (Inl (ActionConfirmationRequired decision), L)
         else (case redeem TH now token (ad_assessment decision) L of
                 (Inl r, L') \<Rightarrow> (Inl (ActionConfirmationRejected r), L')
               | (Inr _, L') \<Rightarrow> (Inr decision, L')))"

section \<open>Facts\<close>

lemmas kind_tables = EXTERNAL_CONFIRM_KINDS_def HARD_BLOCK_KINDS_def EXTERNAL_ALWAYS_CONFIRM_def
  DESTRUCTIVE_KINDS_def OBSERVATION_KINDS_def WORKSPACE_KINDS_def DESTRUCTIVE_GIT_KINDS_def
  AUTO_KINDS_def OPAQUE_KINDS_def

lemma decide_fields:
  "ad_disposition (decide H ud E a u b) =
     fst (dispose ud (fst (risk_verdict E a)) a (compile_intent ud u) b)"
  "ad_consequence (decide H ud E a u b) = consequence_for ud a"
  "as_action_digest (ad_assessment (decide H ud E a u b)) = action_digest H a"
  "as_session_id (ad_assessment (decide H ud E a u b)) = ra_session_id a"
  "as_requires_confirmation (ad_assessment (decide H ud E a u b)) \<longleftrightarrow>
     ad_requires_confirmation (decide H ud E a u b)"
  by (simp_all add: decide_def ad_requires_confirmation_def Let_def split: prod.splits)

lemma consequence_EXTERNAL: "consequence_for ud a = EXTERNAL \<Longrightarrow> ra_kind a \<in> EXTERNAL_CONFIRM_KINDS"
  by (simp add: consequence_for_def Let_def split: if_splits)

lemma consequence_of_external_kind:
  "ra_kind a \<in> EXTERNAL_CONFIRM_KINDS \<Longrightarrow> consequence_for ud a = EXTERNAL"
  by (auto simp: consequence_for_def kind_tables)

lemma always_confirm_external: "EXTERNAL_ALWAYS_CONFIRM \<subseteq> EXTERNAL_CONFIRM_KINDS"
  unfolding EXTERNAL_ALWAYS_CONFIRM_def EXTERNAL_CONFIRM_KINDS_def by (intro image_mono) auto

lemma external_not_hard: "k \<in> EXTERNAL_CONFIRM_KINDS \<Longrightarrow> k \<notin> HARD_BLOCK_KINDS"
  by (auto simp: kind_tables)

lemma hard_block_kind_SYSTEM: "ra_kind a \<in> HARD_BLOCK_KINDS \<Longrightarrow> consequence_for ud a = SYSTEM"
  by (auto simp: consequence_for_def kind_tables)

text \<open>The two external kinds outside the always-confirm table are never matched by task wording.\<close>

lemma unmatched_externals:
  "k \<in> EXTERNAL_CONFIRM_KINDS \<Longrightarrow> k \<notin> EXTERNAL_ALWAYS_CONFIRM \<Longrightarrow> \<not> authorizes_external i k"
  by (auto simp: kind_tables authorizes_external_def)

lemma dispose_cases:
  "fst (dispose ud level a i b) =
     (let consequence = consequence_for ud a; k = ra_kind a
      in if ra_beyond_user_request a then CONFIRM
         else if consequence = SYSTEM then HARD_BLOCK
         else if consequence = EXTERNAL then CONFIRM
         else if consequence = OBSERVATION then AUTO
         else if k \<in> DESTRUCTIVE_GIT_KINDS then CONFIRM
         else if consequence = REBUILDABLE then GUARDED_AUTO
         else if delete_requested a then
           (if b \<and> consequence = WORKSPACE then GUARDED_AUTO else CONFIRM)
         else if k = lit ''git.commit'' then GUARDED_AUTO
         else if k \<in> AUTO_KINDS then AUTO
         else if k \<in> OPAQUE_KINDS then GUARDED_AUTO
         else if rank level \<le> rank MEDIUM then AUTO
         else CONFIRM)"
proof -
  have ext: "\<not> authorizes_external i (ra_kind a)"
    if "consequence_for ud a = EXTERNAL" "ra_kind a \<notin> EXTERNAL_ALWAYS_CONFIRM"
    using that consequence_EXTERNAL unmatched_externals by blast
  have hard: "ra_kind a \<in> HARD_BLOCK_KINDS \<Longrightarrow> consequence_for ud a = SYSTEM"
    by (rule hard_block_kind_SYSTEM)
  show ?thesis
    by (cases "consequence_for ud a") (simp_all add: dispose_def Let_def ext hard, use hard in auto)
qed

lemma authorize_action_Inr_iff:
  "authorize_action H TH ud E now a u tok b L = (Inr d, L') \<longleftrightarrow>
     d = decide H ud E a u b \<and> \<not> ad_hard_blocked d \<and>
     (if ad_requires_confirmation d then redeem TH now tok (ad_assessment d) L = (Inr (), L')
      else L' = L)"
proof (cases "ad_requires_confirmation (decide H ud E a u b)")
  case True
  then show ?thesis
    by (cases "redeem TH now tok (ad_assessment (decide H ud E a u b)) L")
       (auto simp: authorize_action_def Let_def redeem_def split: sum.splits)
qed (auto simp: authorize_action_def Let_def)

section \<open>Properties\<close>

text \<open>
  What the task says never widens what an agent may do: the disposition of an action is the
  same for every user text, so no wording turns a confirmation into automatic execution or lifts a
  block (the flag \<open>intent_authorized\<close> is recorded, not obeyed).
\<close>
theorem wording_never_changes_disposition:
  "ad_disposition (decide H ud E a u b) = ad_disposition (decide H ud E a u' b)"
  by (simp add: decide_fields dispose_cases)

text \<open>
  Every kind whose effect is an external commit point (push, publish, deploy, send, upload,
  payment, account and permission changes) is authorized only by redeeming a confirmation for this
  exact digest and session, in ordinary and in bypass mode, whatever the task says.
\<close>
theorem external_commit_points_need_confirmation:
  assumes "ra_kind a \<in> EXTERNAL_ALWAYS_CONFIRM"
    and "authorize_action H TH ud E now a u tok b L = (Inr d, L')"
  shows "\<exists>t e. tok = Some t \<and> map_of (lg_entries L) (TH t) = Some e \<and> \<not> le_used e \<and>
    now \<le> le_expires_at e \<and> le_action_digest e = action_digest H a \<and>
    le_session_id e = ra_session_id a \<and> \<not> token_live TH L' t"
proof -
  from assms(1) have ext: "ra_kind a \<in> EXTERNAL_CONFIRM_KINDS"
    using always_confirm_external by blast
  then have "ad_requires_confirmation (decide H ud E a u b)"
    by (simp add: ad_requires_confirmation_def decide_fields dispose_cases Let_def
        consequence_of_external_kind)
  with assms(2) have d: "d = decide H ud E a u b"
    and r: "redeem TH now tok (ad_assessment d) L = (Inr (), L')"
    by (auto simp: authorize_action_Inr_iff)
  from r obtain t where "tok = Some t" "token_bound TH L t (ad_assessment d) now" "\<not> token_live TH L' t"
    using redeem_accept_spends by (fastforce simp: redeem_Inr_iff)
  then show ?thesis by (auto simp: token_bound_def d decide_fields)
qed

theorem external_commit_points_need_confirmation_witness:
  "\<exists>d L'. authorize_action id id \<lparr>ud_word = (\<lambda>c. 97 \<le> c), ud_casefold = (\<lambda>c. [c]),
       ud_lower = id, ud_upper = id\<rparr> default_engine 9
      sample_push (lit ''push it'') (Some (lit ''tok'')) True sample_ledger = (Inr d, L') \<and>
    \<not> token_live id L' (lit ''tok'')"
proof -
  let ?ud = "\<lparr>ud_word = (\<lambda>c. 97 \<le> c), ud_casefold = (\<lambda>c. [c]),
       ud_lower = id, ud_upper = id\<rparr>"
  let ?d = "decide id ?ud default_engine sample_push (lit ''push it'') True"
  have k: "ra_kind sample_push \<in> EXTERNAL_ALWAYS_CONFIRM"
    by (simp add: EXTERNAL_ALWAYS_CONFIRM_def)
  then have ext: "ra_kind sample_push \<in> EXTERNAL_CONFIRM_KINDS" using always_confirm_external by blast
  have req: "ad_requires_confirmation ?d" "\<not> ad_hard_blocked ?d"
    by (simp_all add: ad_requires_confirmation_def ad_hard_blocked_def decide_fields dispose_cases
        Let_def consequence_of_external_kind [OF ext])
  have "fst (redeem id 9 (Some (lit ''tok'')) (ad_assessment ?d) sample_ledger) = Inr ()"
    by (simp add: redeem_def issue_def Let_def decide_fields)
  with req obtain L' where "authorize_action id id ?ud default_engine 9 sample_push (lit ''push it'')
      (Some (lit ''tok'')) True sample_ledger = (Inr ?d, L')"
    by (cases "redeem id 9 (Some (lit ''tok'')) (ad_assessment ?d) sample_ledger")
       (auto simp: authorize_action_Inr_iff)
  with external_commit_points_need_confirmation [OF k this] show ?thesis by fastforce
qed

text \<open>
  Bypass mode changes one thing only: a requested deletion whose consequence stays inside the
  workspace runs guarded instead of asking. Every other action gets the disposition it has without
  bypass.
\<close>
theorem bypass_only_unlocks_workspace_deletes:
  "ad_disposition (decide H ud E a u True) =
     (if consequence_for ud a = WORKSPACE \<and> \<not> ra_beyond_user_request a \<and>
         ra_kind a \<notin> DESTRUCTIVE_GIT_KINDS \<and>
         delete_requested a
      then GUARDED_AUTO else ad_disposition (decide H ud E a u False))"
  by (auto simp: decide_fields dispose_cases Let_def)

text \<open>
  A hard-blocked action cannot be authorized by anything: an action that is not marked as
  beyond the request and whose consequence is SYSTEM (a hard-block kind, or a system path in its
  paths or target) is refused with every token and mode, and the ledger is left as it was.
\<close>
theorem hard_boundary_is_closed:
  assumes "\<not> ra_beyond_user_request a"
    and "ra_kind a \<in> HARD_BLOCK_KINDS \<or>
      ra_kind a \<notin> OBSERVATION_KINDS \<union> EXTERNAL_CONFIRM_KINDS \<and>
      ((\<exists>p \<in> set (ra_paths a). path_is_system p) \<or> path_is_system (ra_target a))"
  shows "authorize_action H TH ud E now a u tok b L =
    (Inl (ActionHardBlocked (decide H ud E a u b)), L)"
proof -
  have "consequence_for ud a = SYSTEM"
  proof (cases "ra_kind a \<in> HARD_BLOCK_KINDS")
    case False
    with assms(2) show ?thesis by (simp add: consequence_for_def)
  qed (rule hard_block_kind_SYSTEM)
  with assms(1) have "ad_hard_blocked (decide H ud E a u b)"
    by (simp add: ad_hard_blocked_def decide_fields dispose_cases)
  then show ?thesis by (simp add: authorize_action_def)
qed

theorem hard_boundary_is_closed_witness:
  "authorize_action id id \<lparr>ud_word = (\<lambda>c. 97 \<le> c), ud_casefold = (\<lambda>c. [c]),
       ud_lower = id, ud_upper = id\<rparr> default_engine 0 (new_action (lit ''credential.export'') (lit ''s1''))
     (lit ''export the key'') (Some (lit ''tok'')) True sample_ledger =
   (Inl (ActionHardBlocked (decide id \<lparr>ud_word = (\<lambda>c. 97 \<le> c), ud_casefold = (\<lambda>c. [c]),
       ud_lower = id, ud_upper = id\<rparr> default_engine
      (new_action (lit ''credential.export'') (lit ''s1'')) (lit ''export the key'') True)), sample_ledger)"
  by (rule hard_boundary_is_closed) (simp_all add: HARD_BLOCK_KINDS_def)

text \<open>
  The order of the checks reopens the hard boundary: a credential export that is also marked
  as going beyond the user's request is only asked about, and one confirmed token lets it through,
  while the same action without that mark is refused outright.
\<close>
theorem beyond_request_reopens_hard_boundary:
  "let ud = \<lparr>ud_word = (\<lambda>c. 97 \<le> c), ud_casefold = (\<lambda>c. [c]),
       ud_lower = id, ud_upper = id\<rparr>;
       a = new_action (lit ''credential.export'') (lit ''s1'');
       a' = a\<lparr>ra_beyond_user_request := True\<rparr>;
       L = snd (issue id (lit ''tok'') 0 (assess id default_engine a') None
             \<lparr>lg_ttl = 300, lg_entries = []\<rparr>)
   in ad_disposition (decide id ud default_engine a [] False) = HARD_BLOCK \<and>
      (\<exists>L'. authorize_action id id ud default_engine 9 a' [] (Some (lit ''tok'')) False L =
         (Inr (decide id ud default_engine a' [] False), L'))"
proof -
  let ?ud = "\<lparr>ud_word = (\<lambda>c. 97 \<le> c), ud_casefold = (\<lambda>c. [c]),
       ud_lower = id, ud_upper = id\<rparr>"
  let ?a = "new_action (lit ''credential.export'') (lit ''s1'')"
  let ?a' = "?a\<lparr>ra_beyond_user_request := True\<rparr>"
  let ?L = "snd (issue id (lit ''tok'') 0 (assess id default_engine ?a') None
     \<lparr>lg_ttl = 300, lg_entries = []\<rparr>)"
  have sys: "consequence_for ?ud ?a = SYSTEM"
    by (rule hard_block_kind_SYSTEM) (simp add: HARD_BLOCK_KINDS_def)
  have "fst (redeem id 9 (Some (lit ''tok'')) (ad_assessment (decide id ?ud default_engine ?a' [] False)) ?L) = Inr ()"
    by (simp add: redeem_def issue_def Let_def decide_fields)
  then have "\<exists>L'. authorize_action id id ?ud default_engine 9 ?a' [] (Some (lit ''tok'')) False ?L =
      (Inr (decide id ?ud default_engine ?a' [] False), L')"
    by (cases "redeem id 9 (Some (lit ''tok'')) (ad_assessment (decide id ?ud default_engine ?a' [] False)) ?L")
       (auto simp: authorize_action_Inr_iff ad_requires_confirmation_def ad_hard_blocked_def
          decide_fields dispose_cases)
  with sys show ?thesis by (simp add: decide_fields dispose_cases)
qed

lemma feature_cache_is_no_system_path: "\<not> looks_like_system_path (lit ''feature/cache'')"
proof -
  have strip: "py_strip (lit ''feature/cache'') = lit ''feature/cache''"
    by (simp add: py_strip_def strip_by_def py_space_def lit_def)
  have nth: "lit ''feature/cache'' ! 0 = 102" "lit ''feature/cache'' ! 1 = 101"
    "replace_char 92 47 (lit ''feature/cache'') ! 0 = 102"
    "replace_char 92 47 (lit ''feature/cache'') ! 1 = 101"
    by (simp_all add: lit_def replace_char_def)
  show ?thesis using system_path_shape [of "lit ''feature/cache''"] nth by (auto simp: strip)
qed

lemma feature_cache_is_rebuildable:
  "path_is_rebuildable \<lparr>ud_word = (\<lambda>c. 97 \<le> c), ud_casefold = (\<lambda>c. [c]),
       ud_lower = id, ud_upper = id\<rparr> (lit ''feature/cache'')"
    (is "path_is_rebuildable ?ud _")
proof -
  have n: "strip_by (\<lambda>c. c = 47) (norm_text ?ud (lit ''feature/cache'')) = lit ''feature/cache''"
    by (simp add: norm_text_def casefold_def replace_char_def strip_by_def lit_def)
  have p: "path_parts (lit ''feature/cache'') = [lit ''feature'', lit ''cache'']"
    by (simp add: path_parts_def lit_def)
  have c: "lit ''cache'' \<in> REBUILDABLE_PARTS"
    unfolding REBUILDABLE_PARTS_def lit_mem_image by simp
  show ?thesis unfolding path_is_rebuildable_def n p Let_def using c by simp
qed

text \<open>
  The cache-name heuristic applies to branch names: deleting the branch \<open>feature/cache\<close>, a
  critical kind the risk engine never approves by itself, is decided as guarded automatic
  execution, so it is authorized with no token at all.
\<close>
theorem branch_named_cache_is_deleted_unasked:
  "let ud = \<lparr>ud_word = (\<lambda>c. 97 \<le> c), ud_casefold = (\<lambda>c. [c]),
       ud_lower = id, ud_upper = id\<rparr>;
       a = (new_action (lit ''git.branch_delete'') (lit ''s1''))\<lparr>ra_target := lit ''feature/cache''\<rparr>;
       d = decide id ud default_engine a [] False
   in as_level (assess id default_engine a) = CRITICAL \<and>
      ad_disposition d = GUARDED_AUTO \<and>
      authorize_action id id ud default_engine now a [] None False L = (Inr d, L)"
proof -
  let ?ud = "\<lparr>ud_word = (\<lambda>c. 97 \<le> c), ud_casefold = (\<lambda>c. [c]),
       ud_lower = id, ud_upper = id\<rparr>"
  let ?a = "(new_action (lit ''git.branch_delete'') (lit ''s1''))\<lparr>ra_target := lit ''feature/cache''\<rparr>"
  have cons: "consequence_for ?ud ?a = REBUILDABLE"
    by (simp add: consequence_for_def is_destructive_def delete_candidates_def kind_tables
        path_is_system_def feature_cache_is_no_system_path feature_cache_is_rebuildable
        declared_delete_paths_def)
  have crit: "as_level (assess id default_engine ?a) = CRITICAL"
    by (simp add: risk_verdict_level base_level_cases CRITICAL_KINDS_def)
  have disp: "ad_disposition (decide id ?ud default_engine ?a [] False) = GUARDED_AUTO"
    by (simp add: decide_fields dispose_cases cons DESTRUCTIVE_GIT_KINDS_def)
  then have "authorize_action id id ?ud default_engine now ?a [] None False L =
      (Inr (decide id ?ud default_engine ?a [] False), L)"
    by (simp add: authorize_action_Inr_iff ad_requires_confirmation_def ad_hard_blocked_def)
  with crit disp show ?thesis by simp
qed

end
