(* ===== verification/StateError.thy ===== *)
theory StateError imports KaroxPrelude begin

text \<open>
  Steps that change a state and may raise: a step returns an error or a value together with the state it
  leaves, a raised error keeps the changes made before it.
\<close>

definition bindS :: "('s \<Rightarrow> ('e + 'a) \<times> 's) \<Rightarrow> ('a \<Rightarrow> 's \<Rightarrow> ('e + 'b) \<times> 's) \<Rightarrow> 's \<Rightarrow> ('e + 'b) \<times> 's" where
  "bindS m k s = (case m s of (Inl e, s') \<Rightarrow> (Inl e, s') | (Inr x, s') \<Rightarrow> k x s')"

definition retS :: "'a \<Rightarrow> 's \<Rightarrow> ('e + 'a) \<times> 's" where
  "retS x s = (Inr x, s)"

definition raiseS :: "'e \<Rightarrow> 's \<Rightarrow> ('e + 'a) \<times> 's" where
  "raiseS e s = (Inl e, s)"

definition getS :: "('s \<Rightarrow> 'a) \<Rightarrow> 's \<Rightarrow> ('e + 'a) \<times> 's" where
  "getS f s = (Inr (f s), s)"

definition putS :: "('s \<Rightarrow> 's) \<Rightarrow> 's \<Rightarrow> ('e + unit) \<times> 's" where
  "putS f s = (Inr (), f s)"

text \<open>A step on a component of the state, with its errors injected.\<close>

definition zoomS ::
  "('e \<Rightarrow> 'f) \<Rightarrow> ('s \<Rightarrow> 'c) \<Rightarrow> ('c \<Rightarrow> 's \<Rightarrow> 's) \<Rightarrow> ('c \<Rightarrow> ('e + 'a) \<times> 'c) \<Rightarrow> 's \<Rightarrow> ('f + 'a) \<times> 's" where
  "zoomS wrap get put m s =
     (case m (get s) of (Inl e, c) \<Rightarrow> (Inl (wrap e), put c s) | (Inr x, c) \<Rightarrow> (Inr x, put c s))"

text \<open>A pure fallible computation.\<close>

definition pureS :: "('e \<Rightarrow> 'f) \<Rightarrow> 'e + 'a \<Rightarrow> 's \<Rightarrow> ('f + 'a) \<times> 's" where
  "pureS wrap r s = (case r of Inl e \<Rightarrow> (Inl (wrap e), s) | Inr x \<Rightarrow> (Inr x, s))"

fun forS :: "('a \<Rightarrow> 's \<Rightarrow> ('e + unit) \<times> 's) \<Rightarrow> 'a list \<Rightarrow> 's \<Rightarrow> ('e + unit) \<times> 's" where
  "forS f [] = retS ()"
| "forS f (x # xs) = bindS (f x) (\<lambda>_. forS f xs)"

fun mapS :: "('a \<Rightarrow> 's \<Rightarrow> ('e + 'b) \<times> 's) \<Rightarrow> 'a list \<Rightarrow> 's \<Rightarrow> ('e + 'b list) \<times> 's" where
  "mapS f [] = retS []"
| "mapS f (x # xs) = bindS (f x) (\<lambda>y. bindS (mapS f xs) (\<lambda>ys. retS (y # ys)))"

lemma bindS_Inr:
  "bindS m k s = (Inr y, s') \<longleftrightarrow> (\<exists>x s1. m s = (Inr x, s1) \<and> k x s1 = (Inr y, s'))"
  by (auto simp: bindS_def split: prod.splits sum.splits)

lemma bindS_Inl:
  "bindS m k s = (Inl e, s') \<longleftrightarrow>
     m s = (Inl e, s') \<or> (\<exists>x s1. m s = (Inr x, s1) \<and> k x s1 = (Inl e, s'))"
  by (auto simp: bindS_def split: prod.splits sum.splits)

lemma bindS_ok: "m s = (Inr x, s1) \<Longrightarrow> bindS m k s = k x s1"
  by (simp add: bindS_def)

lemma bindS_err: "m s = (Inl e, s1) \<Longrightarrow> bindS m k s = (Inl e, s1)"
  by (simp add: bindS_def)

text \<open>A step that keeps a predicate of the state, whether or not it raises.\<close>

definition keeps :: "('s \<Rightarrow> bool) \<Rightarrow> ('s \<Rightarrow> ('e + 'a) \<times> 's) \<Rightarrow> bool" where
  "keeps P m \<longleftrightarrow> (\<forall>s. P s \<longrightarrow> P (snd (m s)))"

lemma keepsD: "keeps P m \<Longrightarrow> P s \<Longrightarrow> m s = (r, s') \<Longrightarrow> P s'"
  by (metis keeps_def snd_conv)

lemma keeps_bindS: "keeps P m \<Longrightarrow> (\<And>x. keeps P (k x)) \<Longrightarrow> keeps P (bindS m k)"
  by (fastforce simp: keeps_def bindS_def split: prod.splits sum.splits)

lemma keeps_ret: "keeps P (retS x)" "keeps P (\<lambda>s. (r, s))"
  by (simp_all add: keeps_def retS_def)

text \<open>
  A triple: from a state with \<open>P\<close> the step ends with a value and a state related by \<open>Q\<close>, or raises an error
  in a state related to it by \<open>E\<close>.
\<close>

definition triple ::
  "('s \<Rightarrow> bool) \<Rightarrow> ('s \<Rightarrow> ('e + 'a) \<times> 's) \<Rightarrow> ('a \<Rightarrow> 's \<Rightarrow> bool) \<Rightarrow> ('e \<Rightarrow> 's \<Rightarrow> bool) \<Rightarrow> bool" where
  "triple P m Q E \<longleftrightarrow> (\<forall>s. P s \<longrightarrow> (case m s of (Inl e, s') \<Rightarrow> E e s' | (Inr x, s') \<Rightarrow> Q x s'))"

named_theorems triples

lemma tripleI:
  "(\<And>s x s'. P s \<Longrightarrow> m s = (Inr x, s') \<Longrightarrow> Q x s') \<Longrightarrow> (\<And>s e s'. P s \<Longrightarrow> m s = (Inl e, s') \<Longrightarrow> E e s') \<Longrightarrow>
     triple P m Q E"
  by (auto simp: triple_def split: sum.split)

lemma triple_Inr: "triple P m Q E \<Longrightarrow> P s \<Longrightarrow> m s = (Inr x, s') \<Longrightarrow> Q x s'"
  by (auto simp: triple_def split: prod.splits sum.splits)

lemma triple_Inl: "triple P m Q E \<Longrightarrow> P s \<Longrightarrow> m s = (Inl e, s') \<Longrightarrow> E e s'"
  by (auto simp: triple_def split: prod.splits sum.splits)

lemma triple_bindS [triples]:
  assumes "triple P m R E" "\<And>x. triple (R x) (k x) Q E"
  shows "triple P (bindS m k) Q E"
proof (rule tripleI)
  fix s x s' assume P: "P s" and "bindS m k s = (Inr x, s')"
  then obtain y s1 where "m s = (Inr y, s1)" "k y s1 = (Inr x, s')" by (auto simp: bindS_Inr)
  with triple_Inr [OF assms(1) P] triple_Inr [OF assms(2)] show "Q x s'" by blast
next
  fix s e s' assume P: "P s" and "bindS m k s = (Inl e, s')"
  with triple_Inl [OF assms(1) P] triple_Inr [OF assms(1) P] triple_Inl [OF assms(2)] show "E e s'"
    by (auto simp: bindS_Inl)
qed

lemma triple_pre: "triple P m Q E \<Longrightarrow> (\<And>s. P' s \<Longrightarrow> P s) \<Longrightarrow> triple P' m Q E"
  by (auto simp: triple_def)

lemma triple_post: "triple P m Q E \<Longrightarrow> (\<And>x s. Q x s \<Longrightarrow> Q' x s) \<Longrightarrow> triple P m Q' E"
  by (auto simp: triple_def split: prod.splits sum.splits)

lemma triple_retS [triples]: "triple (Q x) (retS x) Q E"
  by (simp add: triple_def retS_def)

lemma triple_putS [triples]: "triple (\<lambda>s. Q () (f s)) (putS f) Q E"
  by (simp add: triple_def putS_def)

lemma triple_raiseS [triples]: "triple (E e) (raiseS e) Q E"
  by (simp add: triple_def raiseS_def)

lemma triple_fact: "(\<And>s. P s \<Longrightarrow> triple (\<lambda>t. t = s) m Q E) \<Longrightarrow> triple P m Q E"
  by (auto simp: triple_def)

lemma triple_at: "triple (\<lambda>t. t = s) m Q E \<longleftrightarrow> (case m s of (Inl e, s') \<Rightarrow> E e s' | (Inr x, s') \<Rightarrow> Q x s')"
  by (simp add: triple_def)

end
