(* ===== verification/PyText.thy ===== *)
theory PyText imports KaroxPrelude begin

text \<open>
  Text primitives of Python used by the patch and transaction code: \<^verbatim>\<open>str.splitlines\<close>, UTF-8
  encoding and strict decoding, and decimal numbers.
\<close>

section \<open>Lines\<close>

text \<open>The line boundaries of \<^verbatim>\<open>str.splitlines\<close> (a CR LF pair counts as one).\<close>

definition line_break :: "nat \<Rightarrow> bool" where
  "line_break c \<longleftrightarrow> 10 \<le> c \<and> c \<le> 13 \<or> 28 \<le> c \<and> c \<le> 30 \<or> c = 133 \<or> c = 8232 \<or> c = 8233"

lemma line_break_code [code]:
  "line_break c = (let i = int c in 10 \<le> i \<and> i \<le> 13 \<or> 28 \<le> i \<and> i \<le> 30 \<or> i = 133 \<or> i = 8232 \<or> i = 8233)"
  by (auto simp: line_break_def Let_def)

function splitl :: "pystr \<Rightarrow> pystr \<Rightarrow> pystr list" where
  "splitl cur [] = (if cur = [] then [] else [rev cur])"
| "splitl cur (c # s) =
     (if c = 13 \<and> s \<noteq> [] \<and> hd s = 10 then rev cur # splitl [] (tl s)
      else if line_break c then rev cur # splitl [] s
      else splitl (c # cur) s)"
  by pat_completeness auto
termination
  by (relation "measure (\<lambda>(cur, s). length s)") auto

definition splitlines :: "pystr \<Rightarrow> pystr list" where
  "splitlines s = splitl [] s"

lemma splitl_plain:
  "\<forall>c \<in> set l. \<not> line_break c \<Longrightarrow> splitl cur (l @ 10 # s) = (rev cur @ l) # splitl [] s"
proof (induction l arbitrary: cur)
  case (Cons c l)
  then have "c \<noteq> 13" by (auto simp: line_break_def)
  with Cons show ?case by simp
qed (simp add: line_break_def)

lemma splitl_last: "\<forall>c \<in> set l. \<not> line_break c \<Longrightarrow> splitl cur l = (if rev cur @ l = [] then [] else [rev cur @ l])"
proof (induction l arbitrary: cur)
  case (Cons c l)
  then have "c \<noteq> 13" by (auto simp: line_break_def)
  with Cons show ?case by simp
qed simp

text \<open>Joining lines that contain no boundary and splitting again gives them back.\<close>

lemma splitlines_join:
  assumes "\<forall>l \<in> set ls. \<forall>c \<in> set l. \<not> line_break c" and "ls \<noteq> []"
  shows "splitlines (join_with [10] ls @ [10]) = ls"
  using assms
proof (induction ls rule: induct_list012)
  case (2 l)
  then show ?case using splitl_plain [of l "[]" "[]"] by (simp add: splitlines_def)
next
  case (3 l l' ls)
  then show ?case
    using splitl_plain [of l "[]" "join_with [10] (l' # ls) @ [10]"] by (simp add: splitlines_def)
qed simp

text \<open>\<^verbatim>\<open>s.split()\<close>: the words between white space.\<close>

fun split_ws :: "pystr \<Rightarrow> pystr \<Rightarrow> pystr list" where
  "split_ws cur [] = (if cur = [] then [] else [rev cur])"
| "split_ws cur (c # s) =
     (if py_space c then (if cur = [] then split_ws [] s else rev cur # split_ws [] s)
      else split_ws (c # cur) s)"

section \<open>UTF-8\<close>

text \<open>\<^verbatim>\<open>str.encode("utf-8")\<close> of one code point; a surrogate cannot be encoded.\<close>

definition utf8_char :: "nat \<Rightarrow> nat list option" where
  "utf8_char c =
     (if c < 128 then Some [c]
      else if c < 2048 then Some [192 + c div 64, 128 + c mod 64]
      else if 55296 \<le> c \<and> c < 57344 then None
      else if c < 65536 then Some [224 + c div 4096, 128 + c div 64 mod 64, 128 + c mod 64]
      else if c < 1114112 then
        Some [240 + c div 262144, 128 + c div 4096 mod 64, 128 + c div 64 mod 64, 128 + c mod 64]
      else None)"

fun utf8_encode :: "pystr \<Rightarrow> nat list option" where
  "utf8_encode [] = Some []"
| "utf8_encode (c # s) =
     (case (utf8_char c, utf8_encode s) of (Some b, Some bs) \<Rightarrow> Some (b @ bs) | _ \<Rightarrow> None)"

definition cont_byte :: "nat \<Rightarrow> bool" where
  "cont_byte b \<longleftrightarrow> 128 \<le> b \<and> b < 192"

text \<open>Strict decoding: overlong forms, surrogates and values above 0x10FFFF are errors.\<close>

fun utf8_decode :: "nat list \<Rightarrow> pystr option" where
  "utf8_decode [] = Some []"
| "utf8_decode (a # s) =
     (if a < 128 then map_option (Cons a) (utf8_decode s)
      else if 194 \<le> a \<and> a < 224 then
        (case s of
           b # s' \<Rightarrow>
             (if cont_byte b then map_option (Cons ((a - 192) * 64 + (b - 128))) (utf8_decode s')
              else None)
         | _ \<Rightarrow> None)
      else if 224 \<le> a \<and> a < 240 then
        (case s of
           b # c # s' \<Rightarrow>
             (let v = (a - 224) * 4096 + (b - 128) * 64 + (c - 128)
              in if cont_byte b \<and> cont_byte c \<and> 2048 \<le> v \<and> \<not> (55296 \<le> v \<and> v < 57344)
                 then map_option (Cons v) (utf8_decode s') else None)
         | _ \<Rightarrow> None)
      else if 240 \<le> a \<and> a < 245 then
        (case s of
           b # c # d # s' \<Rightarrow>
             (let v = (a - 240) * 262144 + (b - 128) * 4096 + (c - 128) * 64 + (d - 128)
              in if cont_byte b \<and> cont_byte c \<and> cont_byte d \<and> 65536 \<le> v \<and> v < 1114112
                 then map_option (Cons v) (utf8_decode s') else None)
         | _ \<Rightarrow> None)
      else None)"

lemma utf8_decode_char:
  assumes "utf8_char c = Some b"
  shows "utf8_decode (b @ s) = map_option (Cons c) (utf8_decode s)"
proof -
  define q where "q = c div 64"
  define r where "r = q div 64"
  have q: "c = q * 64 + c mod 64" by (simp add: q_def)
  have r: "q = r * 64 + q mod 64" by (simp add: r_def)
  have d1: "c div 4096 = r" using div_mult2_eq [of c 64 64] by (simp add: q_def r_def)
  have d2: "c div 262144 = r div 64" using div_mult2_eq [of c 4096 64] by (simp add: d1)
  have r': "r = r div 64 * 64 + r mod 64" by simp
  have split2: "c div 64 * 64 + c mod 64 = c" by simp
  have split3: "c div 4096 * 4096 + c div 64 mod 64 * 64 + c mod 64 = c"
    unfolding d1 q_def [symmetric] using q r by linarith
  have split4: "c div 262144 * 262144 + c div 4096 mod 64 * 4096 + c div 64 mod 64 * 64 + c mod 64 = c"
    unfolding d1 d2 q_def [symmetric] using q r r' by linarith
  have m: "x mod 64 < 64" for x :: nat by simp
  show ?thesis
  proof (cases "c < 128")
    case False
    show ?thesis
    proof (cases "c < 2048")
      case True
      with False assms show ?thesis by (auto simp: utf8_char_def cont_byte_def split2)
    next
      case f2: False
      show ?thesis
      proof (cases "c < 65536")
        case True
        with False f2 assms show ?thesis
          by (auto simp: utf8_char_def cont_byte_def Let_def split3 split: if_splits)
      next
        case f3: False
        with False f2 assms show ?thesis
          by (auto simp: utf8_char_def cont_byte_def Let_def split4 split: if_splits)
      qed
    qed
  qed (use assms in \<open>auto simp: utf8_char_def\<close>)
qed

lemma utf8_roundtrip: "utf8_encode s = Some bs \<Longrightarrow> utf8_decode bs = Some s"
proof (induction s arbitrary: bs)
  case (Cons c s)
  then obtain b bs' where "utf8_char c = Some b" "utf8_encode s = Some bs'" "bs = b @ bs'"
    by (auto split: option.splits)
  with Cons.IH show ?case by (simp add: utf8_decode_char)
qed simp

section \<open>Numbers\<close>

definition ascii_digit :: "nat \<Rightarrow> bool" where
  "ascii_digit c \<longleftrightarrow> 48 \<le> c \<and> c \<le> 57"

definition digits_value :: "pystr \<Rightarrow> nat" where
  "digits_value s = foldl (\<lambda>n c. n * 10 + (c - 48)) 0 s"

section \<open>Printing numbers\<close>

fun decimal :: "nat \<Rightarrow> pystr" where
  "decimal n = (if n < 10 then [48 + n] else decimal (n div 10) @ [48 + n mod 10])"

declare decimal.simps [simp del]

lemma decimal_value: "digits_value (decimal n) = n"
proof (induction n rule: decimal.induct)
  case (1 n)
  then show ?case
    by (subst decimal.simps) (auto simp: digits_value_def)
qed

lemma decimal_digits: "c \<in> set (decimal n) \<Longrightarrow> ascii_digit c"
proof (induction n rule: decimal.induct)
  case (1 n)
  have "n mod 10 < 10" by simp
  with 1 show ?case
    by (subst (asm) (2) decimal.simps) (auto simp: ascii_digit_def split: if_splits)
qed

lemma decimal_ne [simp]: "decimal n \<noteq> []"
  by (subst decimal.simps) simp

end
