(* ===== verification/WorkspaceTransaction.thy ===== *)
theory WorkspaceTransaction imports StateError PyText begin

text \<open>
  The atomic repository transaction of \<^verbatim>\<open>src/karox/workspace_transaction.py\<close>: staging
  (write, delete, move, mkdir) against captured snapshots, the commit loop and the rollback.

  A path is the list of its components below the repository (the repository itself is \<open>[]\<close>). The
  file system is a dictionary from paths to nodes. Every operation that changes it is one primitive
  step that either happens or raises: it raises when its own precondition fails, and whenever the
  next element of the fault sequence says so, which is how disk errors at any point are modelled.
  What the transaction gets from \<^verbatim>\<open>DeveloperRuntime\<close> and the standard library is the record
  \<open>runtime\<close>: \<open>safe_path\<close> (path confinement and symlink resolution), the file size limit, the
  credential scanner and SHA-256.
\<close>

section \<open>The file system\<close>

type_synonym path = "pystr list"
type_synonym bytes = "nat list"

datatype node = NFile bytes nat | NDir | NSpecial

type_synonym fs = "(path, node) dict"

definition fs_get :: "fs \<Rightarrow> path \<Rightarrow> node option" where
  "fs_get F p = (if p = [] then Some NDir else map_of F p)"

definition fs_exists :: "fs \<Rightarrow> path \<Rightarrow> bool" where
  "fs_exists F p \<longleftrightarrow> fs_get F p \<noteq> None"

definition fs_is_file :: "fs \<Rightarrow> path \<Rightarrow> bool" where
  "fs_is_file F p \<longleftrightarrow> (\<exists>c m. fs_get F p = Some (NFile c m))"

definition fs_is_dir :: "fs \<Rightarrow> path \<Rightarrow> bool" where
  "fs_is_dir F p \<longleftrightarrow> fs_get F p = Some NDir"

lemma fs_is_file_code [code]:
  "fs_is_file F p = (case fs_get F p of Some (NFile c m) \<Rightarrow> True | _ \<Rightarrow> False)"
  by (auto simp: fs_is_file_def split: option.splits node.splits)

text \<open>The effects of \<^verbatim>\<open>mkdir\<close>, the atomic replacing write, \<^verbatim>\<open>unlink\<close>, \<^verbatim>\<open>os.replace\<close> and \<^verbatim>\<open>rmdir\<close>.\<close>

definition do_mkdir :: "path \<Rightarrow> fs \<Rightarrow> fs option" where
  "do_mkdir d F =
     (if fs_get F d = None \<and> fs_is_dir F (butlast d) then Some (AList.update d NDir F) else None)"

function mkdirp :: "path \<Rightarrow> fs \<Rightarrow> fs option" where
  "mkdirp d F =
     (if d = [] then Some F
      else case map_of F d of
        Some NDir \<Rightarrow> Some F
      | Some _ \<Rightarrow> None
      | None \<Rightarrow> map_option (AList.update d NDir) (mkdirp (butlast d) F))"
  by pat_completeness auto
termination
  by (relation "measure (\<lambda>(d, F). length d)") auto

declare mkdirp.simps [simp del]

text \<open>
  \<^verbatim>\<open>mkstemp\<close> creates the temporary file with mode 0600, kept when no mode is given. Writing the temporary file
  and putting it in place is one step here: the temporary file a failed write leaves behind when its removal
  fails as well is not part of the disk.
\<close>

definition do_write :: "path \<Rightarrow> bytes \<Rightarrow> nat option \<Rightarrow> fs \<Rightarrow> fs option" where
  "do_write p content mode F =
     (case mkdirp (butlast p) F of
        None \<Rightarrow> None
      | Some F' \<Rightarrow>
          if fs_is_dir F' p then None
          else Some (AList.update p
                 (NFile content (case mode of Some m \<Rightarrow> m | None \<Rightarrow> 384)) F'))"

definition do_unlink :: "path \<Rightarrow> fs \<Rightarrow> fs option" where
  "do_unlink p F =
     (case fs_get F p of
        None \<Rightarrow> None | Some NDir \<Rightarrow> None | Some _ \<Rightarrow> Some (AList.delete p F))"

definition do_replace :: "path \<Rightarrow> path \<Rightarrow> fs \<Rightarrow> fs option" where
  "do_replace s d F =
     (case fs_get F s of
        Some (NFile c m) \<Rightarrow>
          (if fs_is_dir F (butlast d) \<and> \<not> fs_is_dir F d
           then Some (AList.update d (NFile c m) (AList.delete s F)) else None)
      | _ \<Rightarrow> None)"

definition do_rmdir :: "path \<Rightarrow> fs \<Rightarrow> fs option" where
  "do_rmdir d F =
     (if d \<noteq> [] \<and> fs_is_dir F d \<and> (\<forall>q \<in> set (map fst F). q = [] \<or> butlast q \<noteq> d)
      then Some (AList.delete d F) else None)"

section \<open>Transactions\<close>

record FileState =
  st_exists :: bool
  st_content :: bytes
  st_mode :: "nat option"

definition absent :: FileState where
  "absent = \<lparr>st_exists = False, st_content = [], st_mode = None\<rparr>"

record runtime =
  rt_safe_path :: "fs \<Rightarrow> pystr \<Rightarrow> path option"
  rt_max_file_bytes :: nat
  rt_credential :: "pystr \<Rightarrow> bool"
  rt_sha :: "bytes \<Rightarrow> pystr"
  rt_hex_ok :: "pystr \<Rightarrow> bool"
  rt_lower :: "pystr \<Rightarrow> pystr"

datatype action =
    AWrite path bytes
  | ADelete path
  | AMove path path
  | AMkdir path

datatype tx_error =
    UnsafePath pystr
  | NotRegularFile path
  | FileTooLarge path
  | NotUtf8 path
  | BadExpectedDigest
  | FileChanged path
  | CredentialBlocked pystr
  | ContentTooLarge pystr
  | NotEncodable
  | FileNotFound path
  | SamePath
  | DestinationExists pystr
  | NotADirectory path
  | RepositoryChanged path
  | OsError
  | RollbackIncomplete "path list"

record tx =
  tx_states :: "(path, FileState) dict"
  tx_virtual :: "(path, FileState) dict"
  tx_dirs :: "(path, bool) dict"
  tx_actions :: "action list"

definition new_tx :: tx where
  "new_tx = \<lparr>tx_states = [], tx_virtual = [], tx_dirs = [], tx_actions = []\<rparr>"

definition posix :: "path \<Rightarrow> pystr" where
  "posix p = (if p = [] then lit ''.'' else join_with [47] p)"

definition safe_path :: "runtime \<Rightarrow> fs \<Rightarrow> pystr \<Rightarrow> tx_error + path" where
  "safe_path rt F rel = (case rt_safe_path rt F rel of None \<Rightarrow> Inl (UnsafePath rel) | Some p \<Rightarrow> Inr p)"

text \<open>
  A staging step that raises returns the error alone: the callers abandon the transaction object
  then. Reading the current state of a path, shared by \<^verbatim>\<open>_capture\<close> and \<^verbatim>\<open>_live_state\<close>.\<close>

definition read_state :: "runtime \<Rightarrow> fs \<Rightarrow> path \<Rightarrow> tx_error + FileState" where
  "read_state rt F p =
     (case fs_get F p of
        None \<Rightarrow> Inr absent
      | Some (NFile c m) \<Rightarrow>
          if length c > rt_max_file_bytes rt then Inl (FileTooLarge p)
          else Inr \<lparr>st_exists = True, st_content = c, st_mode = Some m\<rparr>
      | Some _ \<Rightarrow> Inl (NotRegularFile p))"

definition capture :: "runtime \<Rightarrow> fs \<Rightarrow> path \<Rightarrow> tx \<Rightarrow> tx_error + (FileState \<times> tx)" where
  "capture rt F p T =
     (case map_of (tx_states T) p of
        Some st \<Rightarrow> Inr (st, T)
      | None \<Rightarrow>
          bindr (read_state rt F p) (\<lambda>st.
            Inr (st, T\<lparr>tx_states := AList.update p st (tx_states T),
                      tx_virtual := AList.update p st (tx_virtual T)\<rparr>)))"

definition current :: "runtime \<Rightarrow> fs \<Rightarrow> path \<Rightarrow> tx \<Rightarrow> tx_error + (FileState \<times> tx)" where
  "current rt F p T =
     (case map_of (tx_virtual T) p of
        Some st \<Rightarrow> Inr (st, T)
      | None \<Rightarrow>
          bindr (capture rt F p T) (\<lambda>(_, T').
            case map_of (tx_virtual T') p of
              Some st \<Rightarrow> Inr (st, T') | None \<Rightarrow> Inl OsError))"

definition read_text :: "runtime \<Rightarrow> fs \<Rightarrow> pystr \<Rightarrow> tx \<Rightarrow> tx_error + (pystr \<times> tx)" where
  "read_text rt F rel T =
     bindr (safe_path rt F rel) (\<lambda>p.
     bindr (current rt F p T) (\<lambda>(st, T').
       if \<not> st_exists st then Inl (FileNotFound p)
       else case utf8_decode (st_content st) of
              Some text \<Rightarrow> Inr (text, T') | None \<Rightarrow> Inl (NotUtf8 p)))"

definition tx_exists :: "runtime \<Rightarrow> fs \<Rightarrow> pystr \<Rightarrow> tx \<Rightarrow> tx_error + (bool \<times> tx)" where
  "tx_exists rt F rel T =
     bindr (safe_path rt F rel) (\<lambda>p.
     bindr (current rt F p T) (\<lambda>(st, T'). Inr (st_exists st, T')))"

definition capture_directory :: "fs \<Rightarrow> path \<Rightarrow> tx \<Rightarrow> tx_error + (bool \<times> tx)" where
  "capture_directory F p T =
     (case map_of (tx_dirs T) p of
        Some b \<Rightarrow> Inr (b, T)
      | None \<Rightarrow>
          if fs_exists F p \<and> \<not> fs_is_dir F p then Inl (NotADirectory p)
          else Inr (fs_exists F p, T\<lparr>tx_dirs := AList.update p (fs_exists F p) (tx_dirs T)\<rparr>))"

definition verify_expected :: "runtime \<Rightarrow> path \<Rightarrow> FileState \<Rightarrow> pystr option \<Rightarrow> tx_error + unit" where
  "verify_expected rt p st expected =
     (case expected of
        None \<Rightarrow> Inr ()
      | Some e \<Rightarrow>
          if length e \<noteq> 64 \<or> \<not> rt_hex_ok rt e then Inl BadExpectedDigest
          else if (if st_exists st then Some (rt_sha rt (st_content st)) else None)
                    \<noteq> Some (rt_lower rt e)
          then Inl (FileChanged p) else Inr ())"

definition stage_write :: "runtime \<Rightarrow> fs \<Rightarrow> pystr \<Rightarrow> pystr \<Rightarrow> pystr option \<Rightarrow> bool \<Rightarrow> tx \<Rightarrow>
    tx_error + tx" where
  "stage_write rt F rel content expected allow_secret T =
     (case utf8_encode content of
        None \<Rightarrow> Inl NotEncodable
      | Some encoded \<Rightarrow>
          if length encoded > rt_max_file_bytes rt then Inl (ContentTooLarge rel)
          else if rt_credential rt content \<and> \<not> allow_secret then Inl (CredentialBlocked rel)
          else
            bindr (safe_path rt F rel) (\<lambda>p.
            bindr (capture rt F p T) (\<lambda>(_, T1).
            bindr (current rt F p T1) (\<lambda>(st, T2).
            bindr (verify_expected rt p st expected) (\<lambda>_.
              Inr (T2\<lparr>tx_actions := tx_actions T2 @ [AWrite p encoded],
                      tx_virtual := AList.update p
                        \<lparr>st_exists = True, st_content = encoded, st_mode = st_mode st\<rparr>
                        (tx_virtual T2)\<rparr>))))))"

definition stage_delete :: "runtime \<Rightarrow> fs \<Rightarrow> pystr \<Rightarrow> pystr option \<Rightarrow> bool \<Rightarrow> tx \<Rightarrow> tx_error + tx" where
  "stage_delete rt F rel expected missing_ok T =
     bindr (safe_path rt F rel) (\<lambda>p.
     bindr (capture rt F p T) (\<lambda>(_, T1).
     bindr (current rt F p T1) (\<lambda>(st, T2).
       if \<not> st_exists st \<and> \<not> missing_ok then Inl (FileNotFound p)
       else
         bindr (verify_expected rt p st expected) (\<lambda>_.
           Inr (T2\<lparr>tx_actions := tx_actions T2 @ [ADelete p],
                   tx_virtual := AList.update p absent (tx_virtual T2)\<rparr>)))))"

definition stage_move :: "runtime \<Rightarrow> fs \<Rightarrow> pystr \<Rightarrow> pystr \<Rightarrow> pystr option \<Rightarrow> bool \<Rightarrow> tx \<Rightarrow>
    tx_error + tx" where
  "stage_move rt F source destination expected overwrite T =
     bindr (safe_path rt F source) (\<lambda>s.
     bindr (safe_path rt F destination) (\<lambda>d.
       if s = d then Inl SamePath
       else
         bindr (capture rt F s T) (\<lambda>(_, T1).
         bindr (capture rt F d T1) (\<lambda>(_, T2).
         bindr (current rt F s T2) (\<lambda>(st_s, T3).
         bindr (current rt F d T3) (\<lambda>(st_d, T4).
           if \<not> st_exists st_s then Inl (FileNotFound s)
           else if st_exists st_d \<and> \<not> overwrite then Inl (DestinationExists destination)
           else
             bindr (verify_expected rt s st_s expected) (\<lambda>_.
               Inr (T4\<lparr>tx_actions := tx_actions T4 @ [AMove s d],
                       tx_virtual := AList.update d st_s
                         (AList.update s absent (tx_virtual T4))\<rparr>))))))))"

definition stage_mkdir :: "runtime \<Rightarrow> fs \<Rightarrow> pystr \<Rightarrow> tx \<Rightarrow> tx_error + tx" where
  "stage_mkdir rt F rel T =
     bindr (safe_path rt F rel) (\<lambda>p.
     bindr (capture_directory F p T) (\<lambda>(_, T1).
       Inr (T1\<lparr>tx_actions := tx_actions T1 @ [AMkdir p]\<rparr>)))"

section \<open>Preview\<close>

record change =
  ch_op :: pystr
  ch_path :: "pystr option"
  ch_source :: "pystr option"
  ch_destination :: "pystr option"
  ch_bytes :: "nat option"
  ch_sha :: "pystr option"

fun preview_action :: "runtime \<Rightarrow> action \<Rightarrow> change" where
  "preview_action rt (AWrite p c) =
     \<lparr>ch_op = lit ''write'', ch_path = Some (posix p), ch_source = None, ch_destination = None,
      ch_bytes = Some (length c), ch_sha = Some (rt_sha rt c)\<rparr>"
| "preview_action rt (ADelete p) =
     \<lparr>ch_op = lit ''delete'', ch_path = Some (posix p), ch_source = None, ch_destination = None,
      ch_bytes = None, ch_sha = None\<rparr>"
| "preview_action rt (AMove s d) =
     \<lparr>ch_op = lit ''move'', ch_path = None, ch_source = Some (posix s),
      ch_destination = Some (posix d), ch_bytes = None, ch_sha = None\<rparr>"
| "preview_action rt (AMkdir p) =
     \<lparr>ch_op = lit ''mkdir'', ch_path = Some (posix p), ch_source = None, ch_destination = None,
      ch_bytes = None, ch_sha = None\<rparr>"

definition preview :: "runtime \<Rightarrow> tx \<Rightarrow> nat \<times> change list" where
  "preview rt T = (length (tx_actions T), map (preview_action rt) (tx_actions T))"

section \<open>Commit and rollback\<close>

datatype op_result =
    OpMkdir pystr bool
  | OpWrite pystr bool nat "pystr option" pystr
  | OpDelete pystr bool "pystr option"
  | OpMove pystr pystr pystr

text \<open>The state of a running commit: the disk, the faults still to come, and the bookkeeping.\<close>

record cstate =
  cs_fs :: fs
  cs_faults :: "bool list"
  cs_created :: "path list"
  cs_changed :: "pystr list"
  cs_ops :: "op_result list"

definition liftS :: "(fs \<Rightarrow> tx_error + 'a) \<Rightarrow> cstate \<Rightarrow> (tx_error + 'a) \<times> cstate" where
  "liftS f s = (f (cs_fs s), s)"

text \<open>One access to the disk may raise \<^verbatim>\<open>OSError\<close>.\<close>

definition tick :: "cstate \<Rightarrow> (tx_error + unit) \<times> cstate" where
  "tick s =
     (case cs_faults s of
        [] \<Rightarrow> (Inr (), s)
      | b # bs \<Rightarrow> (if b then Inl OsError else Inr (), s\<lparr>cs_faults := bs\<rparr>))"

definition prim :: "(fs \<Rightarrow> fs option) \<Rightarrow> cstate \<Rightarrow> (tx_error + unit) \<times> cstate" where
  "prim f =
     bindS tick (\<lambda>_ s. case f (cs_fs s) of
       None \<Rightarrow> (Inl OsError, s) | Some F \<Rightarrow> (Inr (), s\<lparr>cs_fs := F\<rparr>))"

definition revalidate :: "runtime \<Rightarrow> path \<Rightarrow> fs \<Rightarrow> tx_error + unit" where
  "revalidate rt p F =
     bindr (safe_path rt F (posix p)) (\<lambda>q. if q \<noteq> p then Inl (RepositoryChanged p) else Inr ())"

definition live_state :: "runtime \<Rightarrow> path \<Rightarrow> cstate \<Rightarrow> (tx_error + FileState) \<times> cstate" where
  "live_state rt p =
     bindS (liftS (revalidate rt p)) (\<lambda>_. bindS tick (\<lambda>_. liftS (\<lambda>F. read_state rt F p)))"

function missing_dirs :: "fs \<Rightarrow> path \<Rightarrow> path list" where
  "missing_dirs F d =
     (if d = [] \<or> fs_exists F d then [] else missing_dirs F (butlast d) @ [d])"
  by pat_completeness auto
termination
  by (relation "measure (\<lambda>(F, d). length d)") auto

declare missing_dirs.simps [simp del]

fun make_dirs :: "path list \<Rightarrow> cstate \<Rightarrow> (tx_error + unit) \<times> cstate" where
  "make_dirs [] s = (Inr (), s)"
| "make_dirs (d # ds) s =
     bindS (prim (do_mkdir d))
       (\<lambda>_ s'. make_dirs ds (s'\<lparr>cs_created := cs_created s' @ [d]\<rparr>)) s"

definition remember_created_parents :: "path \<Rightarrow> cstate \<Rightarrow> (tx_error + unit) \<times> cstate" where
  "remember_created_parents p s = make_dirs (missing_dirs (cs_fs s) (butlast p)) s"

definition ensure_directory :: "path \<Rightarrow> cstate \<Rightarrow> (tx_error + bool) \<times> cstate" where
  "ensure_directory p s =
     (if fs_exists (cs_fs s) p then
        (if \<not> fs_is_dir (cs_fs s) p then (Inl (NotADirectory p), s) else (Inr False, s))
      else bindS (make_dirs (missing_dirs (cs_fs s) p)) (\<lambda>_. retS True) s)"

definition log_op :: "op_result \<Rightarrow> pystr list \<Rightarrow> cstate \<Rightarrow> (tx_error + unit) \<times> cstate" where
  "log_op r changed s =
     (Inr (), s\<lparr>cs_changed := cs_changed s @ changed, cs_ops := cs_ops s @ [r]\<rparr>)"

fun exec_action :: "runtime \<Rightarrow> action \<Rightarrow> cstate \<Rightarrow> (tx_error + unit) \<times> cstate" where
  "exec_action rt (AMkdir p) =
     bindS (liftS (revalidate rt p)) (\<lambda>_.
     bindS (ensure_directory p) (\<lambda>changed. log_op (OpMkdir (posix p) changed) []))"
| "exec_action rt (AWrite p content) =
     bindS (live_state rt p) (\<lambda>state.
       let digest = rt_sha rt content;
           previous = (if st_exists state then Some (rt_sha rt (st_content state)) else None);
           changed = (previous \<noteq> Some digest)
       in bindS
            (if changed then
               bindS (remember_created_parents p) (\<lambda>_. prim (do_write p content (st_mode state)))
             else retS ())
            (\<lambda>_. log_op (OpWrite (posix p) changed (length content) previous digest)
                   (if changed then [posix p] else [])))"
| "exec_action rt (ADelete p) =
     bindS (live_state rt p) (\<lambda>state.
     bindS (if st_exists state then prim (do_unlink p) else retS ())
       (\<lambda>_. log_op
          (OpDelete (posix p) (st_exists state)
            (if st_exists state then Some (rt_sha rt (st_content state)) else None))
          (if st_exists state then [posix p] else [])))"
| "exec_action rt (AMove source destination) =
     bindS (live_state rt source) (\<lambda>state.
     bindS (liftS (revalidate rt destination)) (\<lambda>_.
       if \<not> st_exists state then (\<lambda>s. (Inl (FileNotFound source), s))
       else
         bindS (remember_created_parents destination) (\<lambda>_.
         bindS (\<lambda>s. if fs_exists (cs_fs s) destination then prim (do_unlink destination) s
                    else (Inr (), s)) (\<lambda>_.
         bindS (prim (do_replace source destination)) (\<lambda>_.
           log_op (OpMove (posix source) (posix destination) (rt_sha rt (st_content state)))
             [posix source, posix destination])))))"

fun exec_actions :: "runtime \<Rightarrow> action list \<Rightarrow> cstate \<Rightarrow> (tx_error + unit) \<times> cstate" where
  "exec_actions rt [] s = (Inr (), s)"
| "exec_actions rt (a # as) s = bindS (exec_action rt a) (\<lambda>_. exec_actions rt as) s"

fun verify_files :: "runtime \<Rightarrow> (path, FileState) dict \<Rightarrow> cstate \<Rightarrow> (tx_error + unit) \<times> cstate" where
  "verify_files rt [] s = (Inr (), s)"
| "verify_files rt ((p, expected) # rest) s =
     bindS (live_state rt p)
       (\<lambda>cur. if cur \<noteq> expected then (\<lambda>s. (Inl (RepositoryChanged p), s)) else verify_files rt rest) s"

fun verify_dirs :: "fs \<Rightarrow> (path, bool) dict \<Rightarrow> tx_error + unit" where
  "verify_dirs F [] = Inr ()"
| "verify_dirs F ((p, expected) # rest) =
     (if fs_exists F p \<and> \<not> fs_is_dir F p then Inl (RepositoryChanged p)
      else if fs_exists F p \<noteq> expected then Inl (RepositoryChanged p)
      else verify_dirs F rest)"

definition verify_live_snapshots :: "runtime \<Rightarrow> tx \<Rightarrow> cstate \<Rightarrow> (tx_error + unit) \<times> cstate" where
  "verify_live_snapshots rt T =
     bindS (verify_files rt (tx_states T)) (\<lambda>_. liftS (\<lambda>F. verify_dirs F (tx_dirs T)))"

definition restore_file :: "runtime \<Rightarrow> path \<Rightarrow> FileState \<Rightarrow> cstate \<Rightarrow> (tx_error + unit) \<times> cstate" where
  "restore_file rt p st =
     bindS (liftS (revalidate rt p)) (\<lambda>_ s.
       if st_exists st then prim (do_write p (st_content st) (st_mode st)) s
       else if fs_is_file (cs_fs s) p then prim (do_unlink p) s
       else (Inr (), s))"

fun rollback_files :: "runtime \<Rightarrow> (path, FileState) dict \<Rightarrow> cstate \<Rightarrow> path list \<times> cstate" where
  "rollback_files rt [] s = ([], s)"
| "rollback_files rt ((p, st) # rest) s =
     (let (r, s1) = restore_file rt p st s; (fails, s2) = rollback_files rt rest s1
      in (case r of Inl _ \<Rightarrow> p # fails | Inr _ \<Rightarrow> fails, s2))"

definition remove_dir :: "runtime \<Rightarrow> path \<Rightarrow> cstate \<Rightarrow> (tx_error + unit) \<times> cstate" where
  "remove_dir rt d = bindS (liftS (revalidate rt d)) (\<lambda>_. prim (do_rmdir d))"

fun rollback_dirs :: "runtime \<Rightarrow> path list \<Rightarrow> cstate \<Rightarrow> path list \<times> cstate" where
  "rollback_dirs rt [] s = ([], s)"
| "rollback_dirs rt (d # ds) s =
     (let (r, s1) = remove_dir rt d s; (fails, s2) = rollback_dirs rt ds s1
      in (case r of Inl _ \<Rightarrow> (if fs_exists (cs_fs s1) d then d # fails else fails)
          | Inr _ \<Rightarrow> fails, s2))"

definition rollback :: "runtime \<Rightarrow> tx \<Rightarrow> cstate \<Rightarrow> path list \<times> cstate" where
  "rollback rt T s =
     (let (f1, s1) = rollback_files rt (rev (tx_states T)) s;
          (f2, s2) = rollback_dirs rt (rev (cs_created s1)) s1
      in (f1 @ f2, s2))"

record commit_result =
  cr_operations :: "op_result list"
  cr_changed_files :: "pystr list"
  cr_post_state :: "(pystr \<times> pystr option) list"
  cr_post_directories :: "(pystr \<times> bool) list"

definition file_sha :: "runtime \<Rightarrow> fs \<Rightarrow> path \<Rightarrow> pystr option" where
  "file_sha rt F p = (case fs_get F p of Some (NFile c m) \<Rightarrow> Some (rt_sha rt c) | _ \<Rightarrow> None)"

text \<open>
  The report reads every captured file again, outside the error handler of the loop: a fault there raises
  although everything has been applied.
\<close>

definition post_entry :: "runtime \<Rightarrow> path \<Rightarrow> cstate \<Rightarrow> (tx_error + pystr \<times> pystr option) \<times> cstate" where
  "post_entry rt p s =
     (if fs_is_file (cs_fs s) p then bindS tick (\<lambda>_. getS (\<lambda>s. (posix p, file_sha rt (cs_fs s) p))) s
      else (Inr (posix p, None), s))"

definition commit_summary :: "tx \<Rightarrow> (pystr \<times> pystr option) list \<Rightarrow> cstate \<Rightarrow> commit_result" where
  "commit_summary T post_state s =
     \<lparr>cr_operations = cs_ops s,
      cr_changed_files = sort (remdups (cs_changed s)),
      cr_post_state = post_state,
      cr_post_directories = map (\<lambda>p. (posix p, fs_is_dir (cs_fs s) p))
        (sort (remdups (map fst (tx_dirs T) @ cs_created s)))\<rparr>"

definition commit_report :: "runtime \<Rightarrow> tx \<Rightarrow> cstate \<Rightarrow> (tx_error + commit_result) \<times> cstate" where
  "commit_report rt T =
     bindS (mapS (post_entry rt) (map fst (tx_states T))) (\<lambda>post_state. getS (commit_summary T post_state))"

definition commit_start :: "fs \<Rightarrow> bool list \<Rightarrow> cstate" where
  "commit_start F faults =
     \<lparr>cs_fs = F, cs_faults = faults, cs_created = [], cs_changed = [], cs_ops = []\<rparr>"

definition commit :: "runtime \<Rightarrow> tx \<Rightarrow> fs \<Rightarrow> bool list \<Rightarrow> (tx_error + commit_result) \<times> cstate" where
  "commit rt T F faults =
     (case verify_live_snapshots rt T (commit_start F faults) of
        (Inl e, s) \<Rightarrow> (Inl e, s)
      | (Inr _, s) \<Rightarrow>
          (case exec_actions rt (tx_actions T) s of
             (Inr _, s1) \<Rightarrow> commit_report rt T s1
           | (Inl e, s1) \<Rightarrow>
               (let (failures, s2) = rollback rt T s1
                in (Inl (if failures \<noteq> [] then RollbackIncomplete failures else e), s2))))"

end
