(* ===== verification/UnifiedPatch.thy ===== *)
theory UnifiedPatch imports WorkspaceTransaction begin

text \<open>
  The strict unified-diff parser and applier of \<^verbatim>\<open>src/karox/unified_patch.py\<close>, over the repository
  transaction. The parser works on the lines of the patch; the one regular expression, for hunk
  headers, is a deterministic scanner here (each of its parts ends where the next literal begins).
\<close>

section \<open>Patches\<close>

definition MAX_PATCH_BYTES :: nat where
  "MAX_PATCH_BYTES = 4000000"

record PatchHunk =
  ph_old_start :: nat
  ph_old_count :: nat
  ph_new_start :: nat
  ph_new_count :: nat
  ph_lines :: "pystr list"
  ph_old_no_newline :: bool
  ph_new_no_newline :: bool

record FilePatch =
  fp_old_path :: "pystr option"
  fp_new_path :: "pystr option"
  fp_hunks :: "PatchHunk list"

datatype patch_error =
    EmptyPatch
  | PatchTooLarge
  | PatchNotEncodable
  | EmptyPath
  | MissingPlusLine
  | MarkerWithoutLine
  | InvalidHunkLine pystr
  | IntegerTooLong
  | CountMismatch nat nat nat nat
  | NoHunks
  | BothDevNull
  | NoFileHeaders
  | HunkOutOfRange pystr nat
  | PatchConflict pystr nat
  | BadPayload
  | BadExpectedMap
  | CreatesExisting pystr
  | RenameExists pystr
  | ExpectedNamesNew pystr
  | ExpectedUntouched "pystr list"
  | AssertFailed
  | TxFailed tx_error

section \<open>Parsing\<close>

text \<open>\<^verbatim>\<open>int\<close> of a string of decimal digits; CPython refuses more than 4300 of them.\<close>

definition py_int_digits :: "pystr \<Rightarrow> patch_error + nat" where
  "py_int_digits ds = (if length ds > 4300 then Inl IntegerTooLong else Inr (digits_value ds))"

lemma py_int_digits_code [code]:
  "py_int_digits ds = (if int (length ds) > 4300 then Inl IntegerTooLong else Inr (digits_value ds))"
  by (simp add: py_int_digits_def)

definition strip_lit :: "pystr \<Rightarrow> pystr \<Rightarrow> pystr option" where
  "strip_lit p s = (if startswith s p then Some (drop (length p) s) else None)"

text \<open>\<^verbatim>\<open>[0-9]+(?:,[0-9]+)?\<close>\<close>

definition scan_range :: "pystr \<Rightarrow> (pystr \<times> pystr option \<times> pystr) option" where
  "scan_range s =
     (let ds = takeWhile ascii_digit s; r = dropWhile ascii_digit s
      in if ds = [] then None
         else case r of
           [] \<Rightarrow> Some (ds, None, r)
         | c # r' \<Rightarrow>
             if c = 44 \<and> takeWhile ascii_digit r' \<noteq> []
             then Some (ds, Some (takeWhile ascii_digit r'), dropWhile ascii_digit r')
             else Some (ds, None, r))"

definition HUNK :: "pystr \<Rightarrow> (pystr \<times> pystr option \<times> pystr \<times> pystr option) option" where
  "HUNK l =
     (case strip_lit (lit ''@@ -'') l of None \<Rightarrow> None | Some s \<Rightarrow>
      case scan_range s of None \<Rightarrow> None | Some (os, oc, s1) \<Rightarrow>
      case strip_lit (lit '' +'') s1 of None \<Rightarrow> None | Some s2 \<Rightarrow>
      case scan_range s2 of None \<Rightarrow> None | Some (ns, nc, s3) \<Rightarrow>
      case strip_lit (lit '' @@'') s3 of None \<Rightarrow> None | Some s4 \<Rightarrow>
        if s4 = [] \<or> hd s4 = 32 then Some (os, oc, ns, nc) else None)"

definition path_from_header :: "pystr \<Rightarrow> patch_error + pystr option" where
  "path_from_header value =
     (let v = py_strip (takeWhile (\<lambda>c. c \<noteq> 9) value)
      in if v = lit ''/dev/null'' then Inr None
         else
           let w = (if startswith v (lit ''a/'') \<or> startswith v (lit ''b/'') then drop 2 v else v)
           in if w = [] then Inl EmptyPath else Inr (Some w))"

definition no_newline_marker :: pystr where
  "no_newline_marker = 92 # lit '' No newline at end of file''"

definition body_ends :: "pystr \<Rightarrow> bool" where
  "body_ends l \<longleftrightarrow> startswith l (lit ''@@ '') \<or> startswith l (lit ''--- '') \<or>
     startswith l (lit ''diff --git '')"

text \<open>The lines of one hunk: the accumulators are \<^verbatim>\<open>body\<close>, \<^verbatim>\<open>old_seen\<close>, \<^verbatim>\<open>new_seen\<close> and the two
  no-newline flags; the result adds the lines left over.\<close>

record hunk_body =
  hb_lines :: "pystr list"
  hb_old :: nat
  hb_new :: nat
  hb_old_nn :: bool
  hb_new_nn :: bool

fun parse_body :: "hunk_body \<Rightarrow> pystr list \<Rightarrow> patch_error + hunk_body \<times> pystr list" where
  "parse_body b [] = Inr (b, [])"
| "parse_body b (l # ls) =
     (if body_ends l then Inr (b, l # ls)
      else if l = no_newline_marker then
        (if hb_lines b = [] then Inl MarkerWithoutLine
         else
           let c = hd (last (hb_lines b))
           in parse_body (b\<lparr>hb_old_nn := hb_old_nn b \<or> c \<in> {45, 32},
                            hb_new_nn := hb_new_nn b \<or> c \<in> {43, 32}\<rparr>) ls)
      else if l = [] \<or> hd l \<notin> {32, 43, 45} then Inl (InvalidHunkLine l)
      else parse_body
             (b\<lparr>hb_lines := hb_lines b @ [l],
                hb_old := (if hd l \<in> {32, 45} then hb_old b + 1 else hb_old b),
                hb_new := (if hd l \<in> {32, 43} then hb_new b + 1 else hb_new b)\<rparr>) ls)"

definition empty_body :: hunk_body where
  "empty_body = \<lparr>hb_lines = [], hb_old = 0, hb_new = 0, hb_old_nn = False, hb_new_nn = False\<rparr>"

definition count_digits :: "pystr option \<Rightarrow> pystr" where
  "count_digits oc = (case oc of Some ds \<Rightarrow> ds | None \<Rightarrow> lit ''1'')"

definition make_hunk :: "pystr \<times> pystr option \<times> pystr \<times> pystr option \<Rightarrow> hunk_body \<Rightarrow>
    patch_error + PatchHunk" where
  "make_hunk m b =
     (case m of (os, oc, ns, nc) \<Rightarrow>
      bindr (py_int_digits (count_digits oc)) (\<lambda>old_count.
      bindr (py_int_digits (count_digits nc)) (\<lambda>new_count.
        if hb_old b \<noteq> old_count \<or> hb_new b \<noteq> new_count
        then Inl (CountMismatch old_count new_count (hb_old b) (hb_new b))
        else
          bindr (py_int_digits os) (\<lambda>old_start.
          bindr (py_int_digits ns) (\<lambda>new_start.
            Inr \<lparr>ph_old_start = old_start, ph_old_count = old_count, ph_new_start = new_start,
                 ph_new_count = new_count, ph_lines = hb_lines b,
                 ph_old_no_newline = hb_old_nn b, ph_new_no_newline = hb_new_nn b\<rparr>)))))"

lemma parse_body_length: "parse_body b ls = Inr (b', r) \<Longrightarrow> length r \<le> length ls"
  by (induction b ls rule: parse_body.induct) (force simp: Let_def split: if_splits)+

function parse_hunks :: "pystr list \<Rightarrow> patch_error + PatchHunk list \<times> pystr list" where
  "parse_hunks [] = Inr ([], [])"
| "parse_hunks (l # ls) =
     (if startswith l (lit ''--- '') \<or> startswith l (lit ''diff --git '') then Inr ([], l # ls)
      else case HUNK l of
        None \<Rightarrow> parse_hunks ls
      | Some m \<Rightarrow>
          (case parse_body empty_body ls of
             Inl e \<Rightarrow> Inl e
           | Inr (b, rest) \<Rightarrow>
               bindr (make_hunk m b) (\<lambda>h.
               bindr (parse_hunks rest) (\<lambda>(hs, r). Inr (h # hs, r)))))"
  by pat_completeness auto
termination
  by (relation "measure length") (auto dest: parse_body_length)

lemma parse_hunks_length: "parse_hunks ls = Inr (hs, r) \<Longrightarrow> length r \<le> length ls"
proof (induction ls arbitrary: hs r rule: parse_hunks.induct)
  case (2 l ls)
  then show ?case
    by (fastforce simp: bindr_Inr_iff dest: parse_body_length split: if_splits option.splits sum.splits)
qed simp

definition parse_file :: "pystr list \<Rightarrow> patch_error + FilePatch \<times> pystr list" where
  "parse_file ls =
     (case ls of [] \<Rightarrow> Inl MissingPlusLine | l # ls1 \<Rightarrow>
      bindr (path_from_header (drop 4 l)) (\<lambda>old_path.
        (case ls1 of [] \<Rightarrow> Inl MissingPlusLine | l2 # ls2 \<Rightarrow>
         if \<not> startswith l2 (lit ''+++ '') then Inl MissingPlusLine
         else
           bindr (path_from_header (drop 4 l2)) (\<lambda>new_path.
           bindr (parse_hunks ls2) (\<lambda>(hunks, rest).
             if hunks = [] then Inl NoHunks
             else if old_path = None \<and> new_path = None then Inl BothDevNull
             else Inr (\<lparr>fp_old_path = old_path, fp_new_path = new_path, fp_hunks = hunks\<rparr>, rest))))))"

lemma parse_file_length: "parse_file ls = Inr (f, r) \<Longrightarrow> length r < length ls"
proof -
  assume "parse_file ls = Inr (f, r)"
  then obtain l l2 ls2 hs where "ls = l # l2 # ls2" "parse_hunks ls2 = Inr (hs, r)"
    by (cases ls rule: remdups_adj.cases)
      (auto simp: parse_file_def bindr_Inr_iff split: if_split_asm)
  then show ?thesis by (auto dest: parse_hunks_length)
qed

function parse_files :: "pystr list \<Rightarrow> patch_error + FilePatch list" where
  "parse_files [] = Inr []"
| "parse_files (l # ls) =
     (if startswith l (lit ''diff --git '') then parse_files ls
      else if \<not> startswith l (lit ''--- '') then parse_files ls
      else case parse_file (l # ls) of
        Inl e \<Rightarrow> Inl e
      | Inr (f, rest) \<Rightarrow> bindr (parse_files rest) (\<lambda>fs. Inr (f # fs)))"
  by pat_completeness auto
termination
  by (relation "measure length") (auto dest: parse_file_length)

definition parse_unified_patch :: "pystr \<Rightarrow> patch_error + FilePatch list" where
  "parse_unified_patch text =
     (if py_strip text = [] then Inl EmptyPatch
      else case utf8_encode text of
        None \<Rightarrow> Inl PatchNotEncodable
      | Some bs \<Rightarrow>
          if length bs > MAX_PATCH_BYTES then Inl PatchTooLarge
          else
            bindr (parse_files (splitlines text)) (\<lambda>files.
              if files = [] then Inl NoFileHeaders else Inr files))"

lemma parse_unified_patch_code [code]:
  "parse_unified_patch text =
     (if py_strip text = [] then Inl EmptyPatch
      else case utf8_encode text of
        None \<Rightarrow> Inl PatchNotEncodable
      | Some bs \<Rightarrow>
          if int (length bs) > 4000000 then Inl PatchTooLarge
          else
            bindr (parse_files (splitlines text)) (\<lambda>files.
              if files = [] then Inl NoFileHeaders else Inr files))"
  by (simp add: parse_unified_patch_def MAX_PATCH_BYTES_def cong: option.case_cong)

section \<open>Application\<close>

text \<open>\<^verbatim>\<open>original.replace("\\r\\n", "\\n")\<close>\<close>

fun replace_crlf :: "pystr \<Rightarrow> pystr" where
  "replace_crlf (c # d # s) =
     (if c = 13 \<and> d = 10 then 10 # replace_crlf s else c # replace_crlf (d # s))"
| "replace_crlf s = s"

text \<open>One hunk body against the source lines from the cursor on: the new cursor and the lines it
  contributes to the result.\<close>

fun apply_body :: "pystr \<Rightarrow> pystr list \<Rightarrow> nat \<Rightarrow> pystr list \<Rightarrow> patch_error + nat \<times> pystr list" where
  "apply_body path source cursor [] = Inr (cursor, [])"
| "apply_body path source cursor (l # ls) =
     (if hd l = 43 then
        bindr (apply_body path source cursor ls) (\<lambda>(c, out). Inr (c, tl l # out))
      else if length source \<le> cursor \<or> source ! cursor \<noteq> tl l
      then Inl (PatchConflict path (cursor + 1))
      else
        bindr (apply_body path source (cursor + 1) ls) (\<lambda>(c, out).
          Inr (c, if hd l = 32 then tl l # out else out)))"

fun apply_lines :: "pystr \<Rightarrow> pystr list \<Rightarrow> nat \<Rightarrow> PatchHunk list \<Rightarrow> patch_error + pystr list" where
  "apply_lines path source cursor [] = Inr (drop cursor source)"
| "apply_lines path source cursor (h # hs) =
     (let target = ph_old_start h - 1
      in if target < cursor \<or> length source < target
         then Inl (HunkOutOfRange path (ph_old_start h))
         else
           bindr (apply_body path source target (ph_lines h)) (\<lambda>(c, out).
           bindr (apply_lines path source c hs) (\<lambda>rest.
             Inr (take (target - cursor) (drop cursor source) @ out @ rest))))"

definition newline_after :: "PatchHunk \<Rightarrow> bool \<Rightarrow> bool" where
  "newline_after h b =
     (if ph_old_no_newline h then \<not> ph_new_no_newline h
      else if ph_new_no_newline h then False else b)"

definition apply_hunks :: "pystr \<Rightarrow> PatchHunk list \<Rightarrow> pystr \<Rightarrow> patch_error + pystr" where
  "apply_hunks original hunks path =
     (let newline = (if contains original [13, 10] then [13, 10] else [10]);
          had_final_newline = endswith original [10] \<or> endswith original [13];
          source = splitlines (replace_crlf original)
      in bindr (apply_lines path source 0 hunks) (\<lambda>result.
           let updated = join_with newline result;
               final_newline = fold newline_after hunks
                 (if original = [] \<and> result \<noteq> [] then True else had_final_newline)
           in Inr (if updated \<noteq> [] \<and> final_newline then updated @ newline else updated)))"

section \<open>The apply-patch operation\<close>

definition expected_entry :: "runtime \<Rightarrow> pystr \<times> pyval \<Rightarrow> patch_error + (pystr \<times> pystr)" where
  "expected_entry rt e =
     (case e of
        (path, PStr digest) \<Rightarrow>
          (if length digest \<noteq> 64 \<or> \<not> rt_hex_ok rt digest then Inl BadExpectedMap
           else Inr (path, rt_lower rt digest))
      | _ \<Rightarrow> Inl BadExpectedMap)"

fun map_err :: "('a \<Rightarrow> 'e + 'b) \<Rightarrow> 'a list \<Rightarrow> 'e + 'b list" where
  "map_err f [] = Inr []"
| "map_err f (x # xs) = bindr (f x) (\<lambda>y. bindr (map_err f xs) (\<lambda>ys. Inr (y # ys)))"

definition expected_map :: "runtime \<Rightarrow> (pystr, pyval) dict \<Rightarrow> patch_error + (pystr, pystr) dict" where
  "expected_map rt arguments =
     (case map_of arguments (lit ''expected_sha256'') of
        None \<Rightarrow> Inr []
      | Some PNone \<Rightarrow> Inr []
      | Some (PMap m) \<Rightarrow> map_err (expected_entry rt) m
      | Some _ \<Rightarrow> Inl BadExpectedMap)"

text \<open>The state of the file loop: the transaction and the paths whose expectation was used.\<close>

record patch_state =
  ps_tx :: tx
  ps_checked :: "pystr list"

definition first_expected :: "(pystr, pystr) dict \<Rightarrow> pystr \<Rightarrow> patch_state \<Rightarrow> pystr option \<times> patch_state" where
  "first_expected expected path s =
     (if path \<in> set (ps_checked s) then (None, s)
      else (map_of expected path, s\<lparr>ps_checked := ps_checked s @ [path]\<rparr>))"

definition tx_step :: "(tx \<Rightarrow> tx_error + tx) \<Rightarrow> patch_state \<Rightarrow> patch_error + patch_state" where
  "tx_step f s = (case f (ps_tx s) of Inl e \<Rightarrow> Inl (TxFailed e) | Inr T \<Rightarrow> Inr (s\<lparr>ps_tx := T\<rparr>))"

definition tx_query :: "(tx \<Rightarrow> tx_error + ('a \<times> tx)) \<Rightarrow> patch_state \<Rightarrow> patch_error + ('a \<times> patch_state)" where
  "tx_query f s =
     (case f (ps_tx s) of Inl e \<Rightarrow> Inl (TxFailed e) | Inr (x, T) \<Rightarrow> Inr (x, s\<lparr>ps_tx := T\<rparr>))"

definition original_text :: "runtime \<Rightarrow> fs \<Rightarrow> FilePatch \<Rightarrow> patch_state \<Rightarrow>
    patch_error + (pystr \<times> patch_state)" where
  "original_text rt F fp s =
     (case fp_old_path fp of
        None \<Rightarrow>
          (case fp_new_path fp of
             None \<Rightarrow> Inl AssertFailed
           | Some d \<Rightarrow>
               bindr (tx_query (tx_exists rt F d) s) (\<lambda>(b, s1).
                 if b then Inl (CreatesExisting d) else Inr ([], s1)))
      | Some p \<Rightarrow> tx_query (read_text rt F p) s)"

definition stage_patch :: "runtime \<Rightarrow> fs \<Rightarrow> bool \<Rightarrow> (pystr, pystr) dict \<Rightarrow> FilePatch \<Rightarrow> patch_state \<Rightarrow>
    patch_error + patch_state" where
  "stage_patch rt F allow_secret expected fp s =
     (case (if fp_old_path fp \<noteq> None \<and> fp_old_path fp \<noteq> Some [] then fp_old_path fp
            else fp_new_path fp) of
        None \<Rightarrow> Inl AssertFailed
      | Some source_relative \<Rightarrow>
          bindr (original_text rt F fp s) (\<lambda>(original, s1).
          bindr (apply_hunks original (fp_hunks fp) source_relative) (\<lambda>updated.
            case fp_new_path fp of
              None \<Rightarrow>
                (case first_expected expected source_relative s1 of (e, s2) \<Rightarrow>
                   tx_step (stage_delete rt F source_relative e False) s2)
            | Some destination \<Rightarrow>
                if fp_old_path fp \<noteq> None \<and> destination \<noteq> source_relative then
                  bindr (tx_query (tx_exists rt F destination) s1) (\<lambda>(b, s2).
                    if b then Inl (RenameExists destination)
                    else case first_expected expected destination s2 of (de, s3) \<Rightarrow>
                      if de \<noteq> None then Inl (ExpectedNamesNew destination)
                      else case first_expected expected source_relative s3 of (e, s4) \<Rightarrow>
                        bindr (tx_step (stage_move rt F source_relative destination e False) s4)
                          (\<lambda>s5. if updated \<noteq> original
                                then tx_step (stage_write rt F destination updated None allow_secret) s5
                                else Inr s5))
                else
                  (case first_expected expected destination s1 of (e, s2) \<Rightarrow>
                     tx_step (stage_write rt F destination updated e allow_secret) s2))))"

fun stage_patches :: "runtime \<Rightarrow> fs \<Rightarrow> bool \<Rightarrow> (pystr, pystr) dict \<Rightarrow> FilePatch list \<Rightarrow> patch_state \<Rightarrow>
    patch_error + patch_state" where
  "stage_patches rt F allow ex [] s = Inr s"
| "stage_patches rt F allow ex (fp # fps) s =
     bindr (stage_patch rt F allow ex fp s) (stage_patches rt F allow ex fps)"

definition bool_field :: "(pystr, pyval) dict \<Rightarrow> string \<Rightarrow> bool option" where
  "bool_field payload k =
     (case map_of payload (lit k) of None \<Rightarrow> Some False | Some (PBool b) \<Rightarrow> Some b | Some _ \<Rightarrow> None)"

datatype patch_outcome = Previewed nat "change list" | Applied commit_result

text \<open>The staging half of \<^verbatim>\<open>execute_apply_patch\<close>: it reads the disk and builds the transaction.\<close>

definition prepare_patch :: "runtime \<Rightarrow> fs \<Rightarrow> (pystr, pyval) dict \<Rightarrow> patch_error + (bool \<times> tx)" where
  "prepare_patch rt F payload =
     (case map_of payload (lit ''patch'') of
        Some (PStr patch) \<Rightarrow>
          (case (bool_field payload ''dry_run'', bool_field payload ''allow_secret_literal'') of
             (Some dry_run, Some allow_secret) \<Rightarrow>
               bindr (expected_map rt payload) (\<lambda>expected.
               bindr (parse_unified_patch patch) (\<lambda>files.
               bindr (stage_patches rt F allow_secret expected files
                   \<lparr>ps_tx = new_tx, ps_checked = []\<rparr>) (\<lambda>s.
                 let unknown = filter (\<lambda>p. p \<notin> set (ps_checked s)) (map fst expected)
                 in if unknown \<noteq> [] then Inl (ExpectedUntouched (sort unknown))
                    else Inr (dry_run, ps_tx s))))
           | _ \<Rightarrow> Inl BadPayload)
      | _ \<Rightarrow> Inl BadPayload)"

definition execute_apply_patch :: "runtime \<Rightarrow> (pystr, pyval) dict \<Rightarrow> fs \<Rightarrow> bool list \<Rightarrow>
    (patch_error + patch_outcome) \<times> fs" where
  "execute_apply_patch rt payload F faults =
     (case prepare_patch rt F payload of
        Inl e \<Rightarrow> (Inl e, F)
      | Inr (dry_run, T) \<Rightarrow>
          if dry_run then (case preview rt T of (n, cs) \<Rightarrow> (Inr (Previewed n cs), F))
          else case commit rt T F faults of
            (Inl e, s) \<Rightarrow> (Inl (TxFailed e), cs_fs s)
          | (Inr r, s) \<Rightarrow> (Inr (Applied r), cs_fs s))"

end
