(* ===== verification/TransactionProofs.thy ===== *)
theory TransactionProofs imports WorkspaceTransaction begin

text \<open>
  What the repository transaction guarantees: an interrupted commit leaves the disk as it was or
  names the paths it could not restore, a successful one realises exactly the staged state, and a
  commit over stale snapshots changes nothing.
\<close>

section \<open>Facts about the file system\<close>

lemma fs_get_update: "p \<noteq> [] \<Longrightarrow> fs_get (AList.update p n F) q = (if q = p then Some n else fs_get F q)"
  by (simp add: fs_get_def map_of_AList_update)

lemma fs_get_delete: "p \<noteq> [] \<Longrightarrow> fs_get (AList.delete p F) q = (if q = p then None else fs_get F q)"
  by (simp add: fs_get_def map_of_AList_delete)

lemma fs_get_root [simp]: "fs_get F [] = Some NDir"
  by (simp add: fs_get_def)

text \<open>Two file systems agree when every path has the same node.\<close>

definition same_fs :: "fs \<Rightarrow> fs \<Rightarrow> bool" where
  "same_fs F G \<longleftrightarrow> fs_get F = fs_get G"

lemma mkdirp_existing: "fs_get F d \<noteq> None \<Longrightarrow> mkdirp d F = Some G \<Longrightarrow> G = F \<and> fs_is_dir F d"
  by (subst (asm) mkdirp.simps) (auto simp: fs_get_def fs_is_dir_def split: if_splits option.splits node.splits)

lemma mkdirp_dir: "fs_is_dir F d \<Longrightarrow> mkdirp d F = Some F"
  by (subst mkdirp.simps) (auto simp: fs_get_def fs_is_dir_def)

lemma do_mkdir_Some:
  "do_mkdir d F = Some G \<Longrightarrow> d \<noteq> [] \<and> fs_get F d = None \<and> fs_is_dir F (butlast d) \<and>
     fs_get G = (fs_get F)(d := Some NDir)"
  by (cases "d = []") (auto simp: do_mkdir_def fs_get_update fun_eq_iff split: if_splits)

lemma do_write_Some:
  assumes "do_write p c m F = Some G" and "fs_get F (butlast p) \<noteq> None"
  shows "p \<noteq> [] \<and> \<not> fs_is_dir F p \<and> fs_is_dir F (butlast p) \<and>
    fs_get G = (fs_get F)(p := Some (NFile c (case m of Some m \<Rightarrow> m | None \<Rightarrow> 384)))"
proof -
  from assms(1) obtain F' where F': "mkdirp (butlast p) F = Some F'" "\<not> fs_is_dir F' p"
    and G: "G = AList.update p (NFile c (case m of Some m \<Rightarrow> m | None \<Rightarrow> 384)) F'"
    by (auto simp: do_write_def split: option.splits if_splits)
  from mkdirp_existing [OF assms(2) F'(1)] have eq: "F' = F" "fs_is_dir F (butlast p)" by auto
  have ne: "p \<noteq> []" using F'(2) by (auto simp: fs_is_dir_def)
  then show ?thesis using F'(2) G eq by (auto simp: fs_get_update fun_eq_iff)
qed

lemma do_unlink_Some:
  "do_unlink p F = Some G \<Longrightarrow> p \<noteq> [] \<and> fs_get F p \<noteq> None \<and> \<not> fs_is_dir F p \<and>
     fs_get G = (fs_get F)(p := None)"
  by (cases "p = []")
     (auto simp: do_unlink_def fs_get_delete fs_is_dir_def fun_eq_iff split: option.splits node.splits)

lemma do_replace_Some:
  "do_replace s d F = Some G \<Longrightarrow> s \<noteq> d \<Longrightarrow>
     \<exists>c m. fs_get F s = Some (NFile c m) \<and> s \<noteq> [] \<and> d \<noteq> [] \<and> \<not> fs_is_dir F d \<and>
       fs_get G = (fs_get F)(s := None, d := Some (NFile c m))"
  by (cases "s = []"; cases "d = []")
     (auto simp: do_replace_def fs_get_delete fs_get_update fs_is_dir_def fun_eq_iff
       split: option.splits node.splits if_splits)

lemma do_rmdir_Some:
  "do_rmdir d F = Some G \<Longrightarrow> d \<noteq> [] \<and> fs_is_dir F d \<and> fs_get G = (fs_get F)(d := None)"
  by (auto simp: do_rmdir_def fs_get_delete fun_eq_iff split: if_splits)

section \<open>Steps\<close>

lemma keeps_liftS: "keeps P (liftS f)"
  by (simp add: keeps_def liftS_def)

lemma tick_fs [simp]:
  "tick s = (r, s') \<Longrightarrow> cs_fs s' = cs_fs s \<and> cs_created s' = cs_created s"
  by (auto simp: tick_def split: list.splits)

lemma prim_cases:
  assumes "prim f s = (r, s')"
  shows "cs_created s' = cs_created s \<and>
    (r = Inl OsError \<and> cs_fs s' = cs_fs s \<or> r = Inr () \<and> f (cs_fs s) = Some (cs_fs s'))"
  using assms unfolding prim_def bindS_def tick_def
  by (auto split: list.splits option.splits if_splits)

lemma live_state_cases:
  assumes "live_state rt p s = (r, s')"
  shows "cs_fs s' = cs_fs s \<and> cs_created s' = cs_created s \<and>
    (\<forall>st. r = Inr st \<longrightarrow> read_state rt (cs_fs s) p = Inr st)"
  using assms unfolding live_state_def bindS_def liftS_def tick_def
  by (auto split: list.splits sum.splits if_splits)

lemma read_state_Inr:
  "read_state rt F p = Inr st \<longleftrightarrow>
     (fs_get F p = None \<and> st = absent) \<or>
     (\<exists>c m. fs_get F p = Some (NFile c m) \<and> length c \<le> rt_max_file_bytes rt \<and>
        st = \<lparr>st_exists = True, st_content = c, st_mode = Some m\<rparr>)"
  by (auto simp: read_state_def split: option.splits node.splits)

section \<open>Frame invariant\<close>

text \<open>
  While a commit runs, the disk differs from the disk at its start only on captured paths and on
  directories recorded as created, and a captured path holds a directory only if it was so created.
\<close>

definition framed :: "fs \<Rightarrow> path set \<Rightarrow> cstate \<Rightarrow> bool" where
  "framed F0 S s \<longleftrightarrow>
     (\<forall>p. p \<notin> S \<longrightarrow> p \<notin> set (cs_created s) \<longrightarrow> fs_get (cs_fs s) p = fs_get F0 p) \<and>
     (\<forall>d \<in> set (cs_created s). d \<noteq> [] \<and> (d \<in> S \<or> fs_get F0 d = None)) \<and>
     (\<forall>p \<in> S. fs_get (cs_fs s) p = None \<or> fs_is_file (cs_fs s) p \<or> p \<in> set (cs_created s))"

definition snapshot_of :: "fs \<Rightarrow> (path, FileState) dict \<Rightarrow> bool" where
  "snapshot_of F sts \<longleftrightarrow>
     (\<forall>(p, st) \<in> set sts. p \<noteq> [] \<and>
        (if st_exists st then \<exists>m. st_mode st = Some m \<and> fs_get F p = Some (NFile (st_content st) m)
         else fs_get F p = None))"

lemma framed_start:
  "snapshot_of F sts \<Longrightarrow> cs_created s = [] \<Longrightarrow> cs_fs s = F \<Longrightarrow> framed F (fst ` set sts) s"
  by (fastforce simp: framed_def snapshot_of_def fs_is_file_def split: if_splits)

lemma framed_file_update:
  assumes "framed F0 S s" "p \<in> S" "cs_created s' = cs_created s"
    and "fs_get (cs_fs s') = (fs_get (cs_fs s))(p := n)" "n = None \<or> (\<exists>c m. n = Some (NFile c m))"
  shows "framed F0 S s'"
  using assms by (auto simp: framed_def fs_is_file_def)

lemma missing_dirs_covers: "fs_get F d \<noteq> None \<or> d \<in> set (missing_dirs F d)"
  by (subst missing_dirs.simps) (auto simp: fs_exists_def)

lemma make_dirs_post:
  assumes "make_dirs ds s = (Inr (), s')"
  shows "fs_get (cs_fs s) d \<noteq> None \<or> d \<in> set ds \<Longrightarrow> fs_get (cs_fs s') d \<noteq> None"
    and "fs_get (cs_fs s) d \<noteq> None \<Longrightarrow> fs_get (cs_fs s') d = fs_get (cs_fs s) d"
    and "fs_get (cs_fs s) d = None \<Longrightarrow> fs_get (cs_fs s') d = None \<or> fs_get (cs_fs s') d = Some NDir"
  using assms
proof (induction ds arbitrary: s)
  case (Cons e es)
  {
    case 1
    from 1(2) obtain s1 where p: "prim (do_mkdir e) s = (Inr (), s1)"
      and m: "make_dirs es (s1\<lparr>cs_created := cs_created s1 @ [e]\<rparr>) = (Inr (), s')"
      by (auto simp: bindS_Inr)
    from do_mkdir_Some [of e "cs_fs s" "cs_fs s1"] prim_cases [OF p]
    have "fs_get (cs_fs s1) = (fs_get (cs_fs s))(e := Some NDir)" by auto
    then show ?case using 1(1) Cons.IH(1) [OF _ m] by auto
  next
    case 2
    from 2(2) obtain s1 where p: "prim (do_mkdir e) s = (Inr (), s1)"
      and m: "make_dirs es (s1\<lparr>cs_created := cs_created s1 @ [e]\<rparr>) = (Inr (), s')"
      by (auto simp: bindS_Inr)
    from do_mkdir_Some [of e "cs_fs s" "cs_fs s1"] prim_cases [OF p]
    have "fs_get (cs_fs s1) = (fs_get (cs_fs s))(e := Some NDir)" "fs_get (cs_fs s) e = None" by auto
    then show ?case using 2(1) Cons.IH(2) [OF _ m] by auto
  next
    case 3
    from 3(2) obtain s1 where p: "prim (do_mkdir e) s = (Inr (), s1)"
      and m: "make_dirs es (s1\<lparr>cs_created := cs_created s1 @ [e]\<rparr>) = (Inr (), s')"
      by (auto simp: bindS_Inr)
    from do_mkdir_Some [of e "cs_fs s" "cs_fs s1"] prim_cases [OF p]
    have "fs_get (cs_fs s1) = (fs_get (cs_fs s))(e := Some NDir)" by auto
    then show ?case using 3(1) Cons.IH(2) [OF _ m] Cons.IH(3) [OF _ m] by (cases "d = e") auto
  }
qed auto

lemma make_dirs_framed:
  "framed F0 S s \<Longrightarrow> make_dirs ds s = (r, s') \<Longrightarrow> framed F0 S s'"
proof (induction ds arbitrary: s)
  case (Cons d ds)
  obtain r1 s1 where p: "prim (do_mkdir d) s = (r1, s1)" by (cases "prim (do_mkdir d) s")
  note pc = prim_cases [OF p]
  show ?case
  proof (cases r1)
    case (Inl e)
    with Cons.prems p have "s' = s1" by (simp add: bindS_def)
    with pc Inl Cons.prems(1) show ?thesis by (simp add: framed_def)
  next
    case (Inr u)
    with pc have "do_mkdir d (cs_fs s) = Some (cs_fs s1)" by auto
    note mk = do_mkdir_Some [OF this]
    let ?s2 = "s1\<lparr>cs_created := cs_created s1 @ [d]\<rparr>"
    have "d \<in> S \<or> fs_get F0 d = None"
      using Cons.prems(1) mk by (cases "d \<in> set (cs_created s)") (auto simp: framed_def)
    with Cons.prems(1) mk pc have "framed F0 S ?s2"
      by (auto simp: framed_def fs_is_file_def)
    moreover from Cons.prems(2) p Inr have "make_dirs ds ?s2 = (r, s')" by (simp add: bindS_def)
    ultimately show ?thesis by (rule Cons.IH)
  qed
qed simp

lemma remember_framed:
  "framed F0 S s \<Longrightarrow> remember_created_parents p s = (r, s') \<Longrightarrow> framed F0 S s'"
  by (simp add: remember_created_parents_def make_dirs_framed)

lemma remember_parent:
  "remember_created_parents p s = (Inr (), s') \<Longrightarrow> fs_get (cs_fs s') (butlast p) \<noteq> None"
  unfolding remember_created_parents_def
  by (erule make_dirs_post(1)) (rule missing_dirs_covers)

lemma prim_write_framed:
  assumes "framed F0 S s" "p \<in> S" "fs_get (cs_fs s) (butlast p) \<noteq> None"
    and "prim (do_write p c m) s = (r, s')"
  shows "framed F0 S s'"
  using prim_cases [OF assms(4)]
proof (elim conjE disjE)
  assume "cs_created s' = cs_created s" "cs_fs s' = cs_fs s"
  with assms(1) show ?thesis by (simp add: framed_def)
next
  assume c: "cs_created s' = cs_created s" and w: "do_write p c m (cs_fs s) = Some (cs_fs s')"
  show ?thesis
    by (rule framed_file_update [OF assms(1,2) c conjunct2 [OF conjunct2 [OF conjunct2 [OF do_write_Some [OF w assms(3)]]]]]) auto
qed

lemma prim_unlink_framed:
  assumes "framed F0 S s" "p \<in> S" "prim (do_unlink p) s = (r, s')"
  shows "framed F0 S s'"
  using prim_cases [OF assms(3)]
proof (elim conjE disjE)
  assume "cs_created s' = cs_created s" "cs_fs s' = cs_fs s"
  with assms(1) show ?thesis by (simp add: framed_def)
next
  assume c: "cs_created s' = cs_created s" and w: "do_unlink p (cs_fs s) = Some (cs_fs s')"
  show ?thesis
    by (rule framed_file_update [OF assms(1,2) c]) (use do_unlink_Some [OF w] in auto)
qed

lemma prim_replace_framed:
  assumes "framed F0 S s" "p \<in> S" "q \<in> S" "p \<noteq> q" "prim (do_replace p q) s = (r, s')"
  shows "framed F0 S s'"
  using prim_cases [OF assms(5)]
proof (elim conjE disjE)
  assume "cs_created s' = cs_created s" "cs_fs s' = cs_fs s"
  with assms(1) show ?thesis by (simp add: framed_def)
next
  assume c: "cs_created s' = cs_created s" and w: "do_replace p q (cs_fs s) = Some (cs_fs s')"
  from do_replace_Some [OF w assms(4)] obtain cc m where
    "fs_get (cs_fs s') = (fs_get (cs_fs s))(p := None, q := Some (NFile cc m))" by auto
  with assms(1-3) c show ?thesis by (auto simp: framed_def fs_is_file_def)
qed

lemma framed_same: "framed F0 S s \<Longrightarrow> cs_fs s' = cs_fs s \<Longrightarrow> cs_created s' = cs_created s \<Longrightarrow> framed F0 S s'"
  by (simp add: framed_def)

fun action_paths :: "action \<Rightarrow> path set" where
  "action_paths (AWrite p c) = {p}"
| "action_paths (ADelete p) = {p}"
| "action_paths (AMove s d) = {s, d}"
| "action_paths (AMkdir p) = {}"

definition wf_action :: "path set \<Rightarrow> action \<Rightarrow> bool" where
  "wf_action S a \<longleftrightarrow> action_paths a \<subseteq> S \<and> (\<forall>s d. a = AMove s d \<longrightarrow> s \<noteq> d)"

lemma keeps_if: "(c \<Longrightarrow> keeps P m) \<Longrightarrow> (\<not> c \<Longrightarrow> keeps P n) \<Longrightarrow> keeps P (if c then m else n)"
  by simp

lemma framed_keeps:
  "keeps (framed F0 S) (live_state rt p)"
  "keeps (framed F0 S) (remember_created_parents p)"
  "keeps (framed F0 S) (ensure_directory p)"
  "keeps (framed F0 S) (log_op r ch)"
  "p \<in> S \<Longrightarrow> keeps (framed F0 S) (prim (do_unlink p))"
  "p \<in> S \<Longrightarrow> q \<in> S \<Longrightarrow> p \<noteq> q \<Longrightarrow> keeps (framed F0 S) (prim (do_replace p q))"
  "p \<in> S \<Longrightarrow> keeps (framed F0 S)
     (\<lambda>s. if fs_exists (cs_fs s) p then prim (do_unlink p) s else (Inr (), s))"
proof -
  show "keeps (framed F0 S) (live_state rt p)"
    unfolding keeps_def using live_state_cases framed_same by (metis prod.collapse)
  show "keeps (framed F0 S) (remember_created_parents p)"
    unfolding keeps_def using remember_framed by (metis prod.collapse)
  show "keeps (framed F0 S) (ensure_directory p)"
    unfolding keeps_def ensure_directory_def
    by (auto simp: bindS_def retS_def split: prod.splits sum.splits intro: make_dirs_framed)
  show "keeps (framed F0 S) (log_op r ch)"
    by (simp add: keeps_def log_op_def framed_def)
  show u: "p \<in> S \<Longrightarrow> keeps (framed F0 S) (prim (do_unlink p))"
    unfolding keeps_def using prim_unlink_framed by (metis prod.collapse)
  show "p \<in> S \<Longrightarrow> q \<in> S \<Longrightarrow> p \<noteq> q \<Longrightarrow> keeps (framed F0 S) (prim (do_replace p q))"
    unfolding keeps_def using prim_replace_framed by (metis prod.collapse)
  show "p \<in> S \<Longrightarrow> keeps (framed F0 S)
     (\<lambda>s. if fs_exists (cs_fs s) p then prim (do_unlink p) s else (Inr (), s))"
    using u by (auto simp: keeps_def)
qed

lemma keeps_remember_write:
  assumes "p \<in> S"
  shows "keeps (framed F0 S)
    (bindS (remember_created_parents p) (\<lambda>_. prim (do_write p c m)))"
  unfolding keeps_def
proof (intro allI impI)
  fix s assume f: "framed F0 S s"
  obtain r1 s1 where r: "remember_created_parents p s = (r1, s1)"
    by (cases "remember_created_parents p s")
  from remember_framed [OF f r] have f1: "framed F0 S s1" .
  show "framed F0 S (snd (bindS (remember_created_parents p) (\<lambda>_. prim (do_write p c m)) s))"
  proof (cases r1)
    case (Inr u)
    with remember_parent r have "fs_get (cs_fs s1) (butlast p) \<noteq> None" by simp
    from prim_write_framed [OF f1 assms this] Inr r show ?thesis
      by (simp add: bindS_def) (metis prod.collapse)
  qed (use f1 r in \<open>simp add: bindS_def\<close>)
qed

lemma exec_action_framed:
  "wf_action S a \<Longrightarrow> keeps (framed F0 S) (exec_action rt a)"
  by (cases a)
     (auto simp: wf_action_def Let_def
       intro!: keeps_bindS framed_keeps keeps_if keeps_ret keeps_liftS keeps_remember_write)

lemma exec_actions_framed:
  "\<forall>a \<in> set as. wf_action S a \<Longrightarrow> keeps (framed F0 S) (exec_actions rt as)"
proof (induction as)
  case (Cons a as)
  then have "keeps (framed F0 S) (bindS (exec_action rt a) (\<lambda>_. exec_actions rt as))"
    by (intro keeps_bindS exec_action_framed) auto
  then show ?case by (simp add: keeps_def)
qed (simp add: keeps_def)

section \<open>Rollback\<close>

definition fs_wf :: "fs \<Rightarrow> bool" where
  "fs_wf F \<longleftrightarrow> (\<forall>p \<in> set (map fst F). fs_is_dir F (butlast p))"

lemma fs_wf_parent: "fs_wf F \<Longrightarrow> fs_get F p \<noteq> None \<Longrightarrow> fs_is_dir F (butlast p)"
  by (cases "p = []") (auto simp: fs_wf_def fs_get_def fs_is_dir_def map_of_eq_None_iff)

text \<open>A captured path is back to its snapshot, or a created directory still stands where it was absent.\<close>

definition restored :: "fs \<Rightarrow> cstate \<Rightarrow> path \<Rightarrow> bool" where
  "restored F0 s p \<longleftrightarrow> fs_get (cs_fs s) p = fs_get F0 p \<or>
     fs_get F0 p = None \<and> p \<in> set (cs_created s)"

lemma restore_file_cases:
  assumes "restore_file rt p st s = (r, s')"
  obtains "s' = s" "r \<noteq> Inr ()"
    | "st_exists st" "prim (do_write p (st_content st) (st_mode st)) s = (r, s')"
    | "\<not> st_exists st" "fs_is_file (cs_fs s) p" "prim (do_unlink p) s = (r, s')"
    | "\<not> st_exists st" "\<not> fs_is_file (cs_fs s) p" "s' = s" "r = Inr ()"
proof (cases "revalidate rt p (cs_fs s)")
  case (Inl e)
  with assms have "s' = s" "r \<noteq> Inr ()" by (auto simp: restore_file_def bindS_def liftS_def)
  then show thesis by (rule that(1))
next
  case (Inr u)
  with assms have "(if st_exists st then prim (do_write p (st_content st) (st_mode st)) s
       else if fs_is_file (cs_fs s) p then prim (do_unlink p) s else (Inr (), s)) = (r, s')"
    by (simp add: restore_file_def bindS_def liftS_def)
  note run = this
  show thesis
  proof (cases "st_exists st")
    case True
    with run show thesis by (intro that(2)) simp_all
  next
    case False
    with run show thesis
      by (cases "fs_is_file (cs_fs s) p") (force intro: that(3), force intro: that(4))
  qed
qed

lemma restore_file_effect:
  assumes snap: "snapshot_of F0 sts" and wf: "fs_wf F0" and "(p, st) \<in> set sts"
    and fr: "framed F0 (fst ` set sts) s" and run: "restore_file rt p st s = (r, s')"
  shows "framed F0 (fst ` set sts) s' \<and> cs_created s' = cs_created s \<and>
    (\<forall>q. q \<noteq> p \<longrightarrow> fs_get (cs_fs s') q = fs_get (cs_fs s) q) \<and>
    (r = Inr () \<longrightarrow> restored F0 s' p)"
proof -
  let ?S = "fst ` set sts"
  have pS: "p \<in> ?S" using assms(3) by force
  from snap assms(3) have sn: "p \<noteq> []"
    "if st_exists st then \<exists>m. st_mode st = Some m \<and> fs_get F0 p = Some (NFile (st_content st) m)
     else fs_get F0 p = None"
    by (auto simp: snapshot_of_def)
  consider (bad) "s' = s" "r \<noteq> Inr ()"
    | (wr) "st_exists st" "prim (do_write p (st_content st) (st_mode st)) s = (r, s')"
    | (rm) "\<not> st_exists st" "fs_is_file (cs_fs s) p" "prim (do_unlink p) s = (r, s')"
    | (keep) "\<not> st_exists st" "\<not> fs_is_file (cs_fs s) p" "s' = s" "r = Inr ()"
    using run by (rule restore_file_cases)
  then show ?thesis
  proof cases
    case bad
    with fr show ?thesis by simp
  next
    case wr
    with sn obtain m where m: "st_mode st = Some m" "fs_get F0 p = Some (NFile (st_content st) m)"
      by auto
    then have "fs_is_dir F0 (butlast p)" using fs_wf_parent [OF wf] by simp
    then have par0: "fs_get F0 (butlast p) = Some NDir" by (simp add: fs_is_dir_def)
    have "butlast p \<notin> ?S" using snap par0 by (fastforce simp: snapshot_of_def split: if_splits)
    with fr par0 have par: "fs_get (cs_fs s) (butlast p) \<noteq> None"
      by (auto simp: framed_def)
    note pc = prim_cases [OF wr(2)]
    have fr': "framed F0 ?S s'" by (rule prim_write_framed [OF fr pS par wr(2)])
    from pc show ?thesis
    proof (elim conjE disjE)
      assume "do_write p (st_content st) (st_mode st) (cs_fs s) = Some (cs_fs s')"
      from do_write_Some [OF this par] m pc fr' show ?thesis by (simp add: restored_def)
    qed (use fr' pc in auto)
  next
    case rm
    note pc = prim_cases [OF rm(3)]
    have fr': "framed F0 ?S s'" by (rule prim_unlink_framed [OF fr pS rm(3)])
    from pc show ?thesis
    proof (elim conjE disjE)
      assume "do_unlink p (cs_fs s) = Some (cs_fs s')"
      from do_unlink_Some [OF this] sn rm(1) pc fr' show ?thesis by (simp add: restored_def)
    qed (use fr' pc in auto)
  next
    case keep
    with fr pS sn have "fs_get (cs_fs s) p = None \<or> p \<in> set (cs_created s)"
      by (auto simp: framed_def)
    with keep sn fr show ?thesis by (auto simp: restored_def)
  qed
qed

lemma rollback_files_effect:
  assumes snap: "snapshot_of F0 sts" and wf: "fs_wf F0"
  shows "set rest \<subseteq> set sts \<Longrightarrow> distinct (map fst rest) \<Longrightarrow> framed F0 (fst ` set sts) s \<Longrightarrow>
    rollback_files rt rest s = (fails, s') \<Longrightarrow>
    framed F0 (fst ` set sts) s' \<and> cs_created s' = cs_created s \<and>
    (\<forall>q. q \<notin> fst ` set rest \<longrightarrow> fs_get (cs_fs s') q = fs_get (cs_fs s) q) \<and>
    (fails = [] \<longrightarrow> (\<forall>q \<in> fst ` set rest. restored F0 s' q))"
proof (induction rest arbitrary: s fails s')
  case (Cons x rest)
  obtain p st where x: "x = (p, st)" by (cases x)
  obtain r s1 where one: "restore_file rt p st s = (r, s1)" by (cases "restore_file rt p st s")
  obtain fs2 s2 where two: "rollback_files rt rest s1 = (fs2, s2)"
    by (cases "rollback_files rt rest s1")
  from Cons.prems(4) one two x have res: "s' = s2" "fails = (case r of Inl _ \<Rightarrow> p # fs2 | Inr _ \<Rightarrow> fs2)"
    by (auto split: sum.splits)
  have e1: "framed F0 (fst ` set sts) s1 \<and> cs_created s1 = cs_created s \<and>
    (\<forall>q. q \<noteq> p \<longrightarrow> fs_get (cs_fs s1) q = fs_get (cs_fs s) q) \<and> (r = Inr () \<longrightarrow> restored F0 s1 p)"
    by (rule restore_file_effect [OF snap wf _ Cons.prems(3) one]) (use Cons.prems(1) x in auto)
  have e2: "framed F0 (fst ` set sts) s2 \<and> cs_created s2 = cs_created s1 \<and>
    (\<forall>q. q \<notin> fst ` set rest \<longrightarrow> fs_get (cs_fs s2) q = fs_get (cs_fs s1) q) \<and>
    (fs2 = [] \<longrightarrow> (\<forall>q \<in> fst ` set rest. restored F0 s2 q))"
    by (rule Cons.IH [OF _ _ _ two]) (use Cons.prems e1 in auto)
  have new: "p \<notin> fst ` set rest" using Cons.prems(2) x by simp
  have "restored F0 s1 p \<Longrightarrow> restored F0 s2 p" using e2 new by (simp add: restored_def)
  then show ?case using e1 e2 res x by (auto split: sum.splits)
qed simp

lemma rollback_dirs_effect:
  "rollback_dirs rt ds s = (fails, s') \<Longrightarrow>
    (\<forall>q. q \<notin> set ds \<longrightarrow> fs_get (cs_fs s') q = fs_get (cs_fs s) q) \<and>
    (\<forall>q. fs_get (cs_fs s') q = fs_get (cs_fs s) q \<or> fs_is_dir (cs_fs s) q \<and> fs_get (cs_fs s') q = None) \<and>
    (fails = [] \<longrightarrow> (\<forall>q \<in> set ds. fs_get (cs_fs s') q = None))"
proof (induction ds arbitrary: s fails s')
  case (Cons d ds)
  obtain r s1 where one: "remove_dir rt d s = (r, s1)" by (cases "remove_dir rt d s")
  obtain fs2 s2 where two: "rollback_dirs rt ds s1 = (fs2, s2)" by (cases "rollback_dirs rt ds s1")
  from Cons.prems one two have res: "s' = s2"
    "fails = (case r of Inl _ \<Rightarrow> (if fs_exists (cs_fs s1) d then d # fs2 else fs2) | Inr _ \<Rightarrow> fs2)"
    by (auto split: sum.splits)
  have e1: "(r \<noteq> Inr () \<and> fs_get (cs_fs s1) = fs_get (cs_fs s)) \<or>
      (r = Inr () \<and> fs_is_dir (cs_fs s) d \<and> fs_get (cs_fs s1) = (fs_get (cs_fs s))(d := None))"
    using one unfolding remove_dir_def bindS_def liftS_def
    by (auto split: sum.splits prod.splits dest!: prim_cases do_rmdir_Some)
  note e2 = Cons.IH [OF two]
  from e1 show ?case
  proof (elim disjE conjE)
    assume "r \<noteq> Inr ()" and same: "fs_get (cs_fs s1) = fs_get (cs_fs s)"
    then obtain e where "r = Inl e" by (cases r) auto
    with e2 res same show ?case
      by (auto simp: fs_exists_def fs_is_dir_def split: if_splits)
  next
    assume "r = Inr ()" "fs_is_dir (cs_fs s) d" "fs_get (cs_fs s1) = (fs_get (cs_fs s))(d := None)"
    with e2 res show ?case
      by (auto simp: fs_is_dir_def) (metis option.distinct(1))+
  qed
qed simp

lemma rollback_restores:
  assumes snap: "snapshot_of F0 (tx_states T)" and wf: "fs_wf F0" and ok: "dict_ok (tx_states T)"
    and fr: "framed F0 (fst ` set (tx_states T)) s" and run: "rollback rt T s = ([], s')"
  shows "fs_get (cs_fs s') = fs_get F0"
proof -
  let ?S = "fst ` set (tx_states T)"
  obtain s1 where f: "rollback_files rt (rev (tx_states T)) s = ([], s1)"
    and d: "rollback_dirs rt (rev (cs_created s1)) s1 = ([], s')"
    using run by (auto simp: rollback_def split: prod.splits)
  have ef: "framed F0 ?S s1 \<and> cs_created s1 = cs_created s \<and> (\<forall>q \<in> ?S. restored F0 s1 q)"
    using rollback_files_effect [OF snap wf _ _ fr f] ok by (simp add: dict_ok_def rev_map [symmetric])
  note ed = rollback_dirs_effect [OF d]
  have "fs_get (cs_fs s') p = fs_get F0 p" for p
  proof (cases "p \<in> set (cs_created s1)")
    case True
    then have gone: "fs_get (cs_fs s') p = None" using ed by simp
    show ?thesis
    proof (cases "fs_get F0 p")
      case (Some n)
      with True ef have "p \<in> ?S" by (auto simp: framed_def)
      with ef Some have "fs_get (cs_fs s1) p = Some n" by (auto simp: restored_def)
      moreover from snap \<open>p \<in> ?S\<close> Some have "n \<noteq> NDir"
        by (auto simp: snapshot_of_def split: if_splits)
      ultimately have "fs_get (cs_fs s') p = Some n"
        using conjunct1 [OF conjunct2 [OF ed], THEN spec [of _ p]] by (simp add: fs_is_dir_def)
      with gone show ?thesis by simp
    qed (simp add: gone)
  next
    case False
    with ed have "fs_get (cs_fs s') p = fs_get (cs_fs s1) p" by simp
    with ef False show ?thesis by (cases "p \<in> ?S") (auto simp: framed_def restored_def)
  qed
  then show ?thesis by blast
qed

section \<open>Reachable transactions\<close>

text \<open>
  The transactions a caller can hold: a new one, then any number of staging or reading calls, each
  seeing the disk as it is at that moment.\<close>

inductive staged :: "runtime \<Rightarrow> tx \<Rightarrow> bool" for rt where
  staged_new: "staged rt new_tx"
| staged_write: "staged rt T \<Longrightarrow> stage_write rt F rel c e a T = Inr T' \<Longrightarrow> staged rt T'"
| staged_delete: "staged rt T \<Longrightarrow> stage_delete rt F rel e m T = Inr T' \<Longrightarrow> staged rt T'"
| staged_move: "staged rt T \<Longrightarrow> stage_move rt F src dst e w T = Inr T' \<Longrightarrow> staged rt T'"
| staged_mkdir: "staged rt T \<Longrightarrow> stage_mkdir rt F rel T = Inr T' \<Longrightarrow> staged rt T'"
| staged_read: "staged rt T \<Longrightarrow> read_text rt F rel T = Inr (content, T') \<Longrightarrow> staged rt T'"
| staged_probe: "staged rt T \<Longrightarrow> tx_exists rt F rel T = Inr (b, T') \<Longrightarrow> staged rt T'"

text \<open>The staged effect of one action on the captured states, and of all of them in order.\<close>

fun apply_act :: "action \<Rightarrow> (path \<Rightarrow> FileState) \<Rightarrow> path \<Rightarrow> FileState" where
  "apply_act (AWrite p c) V = V(p := \<lparr>st_exists = True, st_content = c, st_mode = st_mode (V p)\<rparr>)"
| "apply_act (ADelete p) V = V(p := absent)"
| "apply_act (AMove s d) V = V(s := absent, d := V s)"
| "apply_act (AMkdir p) V = V"

definition captured :: "(path, FileState) dict \<Rightarrow> path \<Rightarrow> FileState" where
  "captured sts p = (case map_of sts p of Some st \<Rightarrow> st | None \<Rightarrow> absent)"

definition tx_inv :: "tx \<Rightarrow> bool" where
  "tx_inv T \<longleftrightarrow> dict_ok (tx_states T) \<and>
     (\<forall>a \<in> set (tx_actions T). wf_action (fst ` set (tx_states T)) a) \<and>
     (\<forall>p. map_of (tx_virtual T) p =
        (if p \<in> fst ` set (tx_states T)
         then Some (fold apply_act (tx_actions T) (captured (tx_states T)) p) else None))"

lemma apply_act_frame: "p \<notin> action_paths a \<Longrightarrow>
    apply_act a (V(p := st)) = (apply_act a V)(p := st) \<and> apply_act a V p = V p"
  by (cases a) (auto simp: fun_eq_iff)

lemma fold_apply_frame: "\<forall>a \<in> set as. p \<notin> action_paths a \<Longrightarrow>
    fold apply_act as (V(p := st)) = (fold apply_act as V)(p := st)"
  by (induction as arbitrary: V) (simp_all add: apply_act_frame)

lemma captured_update: "captured (AList.update p st sts) = (captured sts)(p := st)"
  by (auto simp: captured_def fun_eq_iff map_of_AList_update)

lemma keys_update: "fst ` set (AList.update p st sts) = insert p (fst ` set sts)"
  by (simp add: dom_update)

lemma wf_action_mono: "wf_action S a \<Longrightarrow> S \<subseteq> S' \<Longrightarrow> wf_action S' a"
  by (auto simp: wf_action_def)

lemma capture_inv:
  assumes "tx_inv T" and "capture rt F p T = Inr (st, T')"
  shows "tx_inv T' \<and> p \<in> fst ` set (tx_states T') \<and> tx_actions T' = tx_actions T \<and>
    fst ` set (tx_states T) \<subseteq> fst ` set (tx_states T')"
proof (cases "map_of (tx_states T) p")
  case (Some x)
  then have "p \<in> fst ` set (tx_states T)" by (auto dest: map_of_SomeD intro: rev_image_eqI)
  with Some assms show ?thesis by (simp add: capture_def)
next
  case None
  then have new: "p \<notin> fst ` set (tx_states T)" by (simp add: map_of_eq_None_iff)
  let ?S = "AList.update p st (tx_states T)"
  from None assms(2) have T': "T' = T\<lparr>tx_states := ?S, tx_virtual := AList.update p st (tx_virtual T)\<rparr>"
    by (auto simp: capture_def bindr_Inr_iff)
  have wf: "\<forall>a \<in> set (tx_actions T). p \<notin> action_paths a"
    using assms(1) new by (auto simp: tx_inv_def wf_action_def)
  have "fold apply_act (tx_actions T) (captured ?S) =
      (fold apply_act (tx_actions T) (captured (tx_states T)))(p := st)"
    by (simp add: captured_update fold_apply_frame [OF wf])
  with assms(1) new show ?thesis
    unfolding T' by (auto simp: tx_inv_def keys_update map_of_AList_update intro: wf_action_mono
      distinct_update)
qed


lemma current_inv:
  assumes "tx_inv T" and "current rt F p T = Inr (st, T')"
  shows "tx_inv T' \<and> p \<in> fst ` set (tx_states T') \<and> tx_actions T' = tx_actions T \<and>
    fst ` set (tx_states T) \<subseteq> fst ` set (tx_states T') \<and>
    st = fold apply_act (tx_actions T') (captured (tx_states T')) p"
proof (cases "map_of (tx_virtual T) p")
  case (Some x)
  with assms show ?thesis by (auto simp: current_def tx_inv_def split: if_splits)
next
  case None
  with assms(2) obtain x where c: "capture rt F p T = Inr (x, T')"
    and v: "map_of (tx_virtual T') p = Some st"
    by (auto simp: current_def bindr_Inr_iff split: option.splits)
  from capture_inv [OF assms(1) c] v show ?thesis by (auto simp: tx_inv_def split: if_splits)
qed

lemma stage_inv:
  assumes inv: "tx_inv T" and wf: "wf_action (fst ` set (tx_states T)) a"
    and v: "\<And>p. map_of virt p = (if p \<in> fst ` set (tx_states T)
        then Some (apply_act a (fold apply_act (tx_actions T) (captured (tx_states T))) p) else None)"
  shows "tx_inv (T\<lparr>tx_actions := tx_actions T @ [a], tx_virtual := virt\<rparr>)"
  using assms by (simp add: tx_inv_def)

lemma stage_write_inv:
  assumes "tx_inv T" and "stage_write rt F rel c e allow T = Inr T'"
  shows "tx_inv T'"
proof -
  from assms(2) obtain p enc T1 T2 st x where
    c: "capture rt F p T = Inr (x, T1)" and cur: "current rt F p T1 = Inr (st, T2)"
    and T': "T' = T2\<lparr>tx_actions := tx_actions T2 @ [AWrite p enc], tx_virtual := AList.update p
        \<lparr>st_exists = True, st_content = enc, st_mode = st_mode st\<rparr> (tx_virtual T2)\<rparr>"
    by (auto simp: stage_write_def bindr_Inr_iff split: option.splits if_splits)
  from current_inv [OF _ cur] capture_inv [OF assms(1) c]
  have i: "tx_inv T2" "p \<in> fst ` set (tx_states T2)"
    "st = fold apply_act (tx_actions T2) (captured (tx_states T2)) p" by auto
  show ?thesis unfolding T'
    by (rule stage_inv [OF i(1)]) (use i in \<open>auto simp: wf_action_def map_of_AList_update tx_inv_def\<close>)
qed

lemma stage_delete_inv:
  assumes "tx_inv T" and "stage_delete rt F rel e missing T = Inr T'"
  shows "tx_inv T'"
proof -
  from assms(2) obtain p T1 T2 st x where
    c: "capture rt F p T = Inr (x, T1)" and cur: "current rt F p T1 = Inr (st, T2)"
    and T': "T' = T2\<lparr>tx_actions := tx_actions T2 @ [ADelete p],
        tx_virtual := AList.update p absent (tx_virtual T2)\<rparr>"
    by (auto simp: stage_delete_def bindr_Inr_iff split: if_splits)
  from current_inv [OF _ cur] capture_inv [OF assms(1) c]
  have i: "tx_inv T2" "p \<in> fst ` set (tx_states T2)" by auto
  show ?thesis unfolding T'
    by (rule stage_inv [OF i(1)]) (use i in \<open>auto simp: wf_action_def map_of_AList_update tx_inv_def\<close>)
qed

lemma stage_move_inv:
  assumes "tx_inv T" and "stage_move rt F src dst e ow T = Inr T'"
  shows "tx_inv T'"
proof -
  from assms(2) obtain s d T1 T2 T3 T4 ss sd x y where
    c1: "capture rt F s T = Inr (x, T1)" and c2: "capture rt F d T1 = Inr (y, T2)"
    and q1: "current rt F s T2 = Inr (ss, T3)" and q2: "current rt F d T3 = Inr (sd, T4)"
    and ne: "s \<noteq> d"
    and T': "T' = T4\<lparr>tx_actions := tx_actions T4 @ [AMove s d],
        tx_virtual := AList.update d ss (AList.update s absent (tx_virtual T4))\<rparr>"
    by (auto simp: stage_move_def bindr_Inr_iff split: if_splits)
  note i1 = capture_inv [OF assms(1) c1]
  note i2 = capture_inv [OF conjunct1 [OF i1] c2]
  note i3 = current_inv [OF conjunct1 [OF i2] q1]
  note i4 = current_inv [OF conjunct1 [OF i3] q2]
  have "map_of (tx_virtual T3) s = Some ss" using i3 by (simp add: tx_inv_def)
  moreover have "map_of (tx_virtual T3) d \<noteq> None" using i3 i2 by (auto simp: tx_inv_def)
  then have "T4 = T3" using q2 by (auto simp: current_def split: option.splits)
  ultimately have ss: "ss = fold apply_act (tx_actions T4) (captured (tx_states T4)) s"
    using i3 by simp
  have i: "tx_inv T4" "s \<in> fst ` set (tx_states T4)" "d \<in> fst ` set (tx_states T4)"
    using i3 i4 by auto
  show ?thesis unfolding T'
    by (rule stage_inv [OF i(1)])
      (use i ne ss in \<open>auto simp: wf_action_def map_of_AList_update tx_inv_def\<close>)
qed

lemma tx_inv_dirs: "tx_inv (T\<lparr>tx_dirs := ds\<rparr>) = tx_inv T"
  by (simp add: tx_inv_def)

lemma stage_mkdir_inv:
  assumes "tx_inv T" and "stage_mkdir rt F rel T = Inr T'"
  shows "tx_inv T'"
proof -
  from assms(2) obtain p T1 x where c: "capture_directory F p T = Inr (x, T1)"
    and T': "T' = T1\<lparr>tx_actions := tx_actions T1 @ [AMkdir p]\<rparr>"
    by (auto simp: stage_mkdir_def bindr_Inr_iff)
  from c assms(1) have "tx_inv T1"
    by (auto simp: capture_directory_def tx_inv_dirs split: option.splits if_splits)
  then show ?thesis unfolding T' by (simp add: tx_inv_def wf_action_def)
qed

lemma new_tx_inv: "tx_inv new_tx"
  by (simp add: tx_inv_def new_tx_def)

lemma staged_inv: "staged rt T \<Longrightarrow> tx_inv T"
proof (induction rule: staged.induct)
  case (staged_read T F rel content T')
  then obtain p st where "current rt F p T = Inr (st, T')"
    by (auto simp: read_text_def bindr_Inr_iff split: option.splits if_splits)
  with staged_read.IH show ?case using current_inv by blast
next
  case (staged_probe T F rel b T')
  then obtain p st where "current rt F p T = Inr (st, T')"
    by (auto simp: tx_exists_def bindr_Inr_iff)
  with staged_probe.IH show ?case using current_inv by blast
qed (auto intro: new_tx_inv stage_write_inv stage_delete_inv stage_move_inv stage_mkdir_inv)

section \<open>The snapshots at commit time\<close>

lemma verify_files_Inr:
  "verify_files rt sts s = (Inr (), s') \<Longrightarrow> cs_fs s' = cs_fs s \<and> cs_created s' = cs_created s \<and>
     (\<forall>(p, st) \<in> set sts. read_state rt (cs_fs s) p = Inr st)"
proof (induction sts arbitrary: s)
  case (Cons x sts)
  obtain p st where x: "x = (p, st)" by (cases x)
  from Cons.prems obtain s1 where l: "live_state rt p s = (Inr st, s1)"
    and v: "verify_files rt sts s1 = (Inr (), s')"
    by (auto simp: x bindS_Inr split: if_splits)
  from live_state_cases [OF l] Cons.IH [OF v] show ?case by (auto simp: x)
qed simp

lemma verify_files_fs: "verify_files rt sts s = (r, s') \<Longrightarrow> cs_fs s' = cs_fs s"
proof (induction sts arbitrary: s)
  case (Cons x sts)
  obtain p st where x: "x = (p, st)" by (cases x)
  obtain r1 s1 where l: "live_state rt p s = (r1, s1)" by (cases "live_state rt p s")
  from Cons.prems live_state_cases [OF l] Cons.IH [of s1] l show ?case
    by (auto simp: x bindS_def split: sum.splits if_splits)
qed simp

lemma verify_live_fs: "verify_live_snapshots rt T s = (r, s') \<Longrightarrow> cs_fs s' = cs_fs s"
  by (auto simp: verify_live_snapshots_def bindS_def liftS_def dest: verify_files_fs
      split: prod.splits sum.splits)

lemma verify_live_Inr:
  "verify_live_snapshots rt T (commit_start F fl) = (Inr (), s) \<Longrightarrow>
     cs_fs s = F \<and> cs_created s = [] \<and> (\<forall>(p, st) \<in> set (tx_states T). read_state rt F p = Inr st)"
  by (auto simp: verify_live_snapshots_def bindS_Inr liftS_def commit_start_def
      dest!: verify_files_Inr)

lemma read_snapshot: "\<forall>(p, st) \<in> set sts. read_state rt F p = Inr st \<Longrightarrow> snapshot_of F sts"
  unfolding snapshot_of_def
proof (clarify, intro conjI)
  fix p st assume "\<forall>(p, st) \<in> set sts. read_state rt F p = Inr st" "(p, st) \<in> set sts"
  then have r: "read_state rt F p = Inr st" by auto
  then show "p \<noteq> []" by (auto simp: read_state_Inr)
  from r show "if st_exists st
      then \<exists>m. st_mode st = Some m \<and> fs_get F p = Some (NFile (st_content st) m)
      else fs_get F p = None"
    by (auto simp: read_state_Inr absent_def)
qed

section \<open>Commit\<close>

text \<open>The report changes nothing and fails only on a disk fault.\<close>

lemma post_entry_cases:
  "post_entry rt p s = (r, s') \<Longrightarrow> cs_fs s' = cs_fs s \<and> (case r of Inl e \<Rightarrow> e = OsError | Inr _ \<Rightarrow> True)"
  by (cases "fs_is_file (cs_fs s) p"; cases "cs_faults s"; cases "hd (cs_faults s)")
    (simp_all add: post_entry_def bindS_def getS_def tick_def, auto)

lemma post_entries_cases:
  "mapS (post_entry rt) ps s = (r, s') \<Longrightarrow> cs_fs s' = cs_fs s \<and> (case r of Inl e \<Rightarrow> e = OsError | Inr _ \<Rightarrow> True)"
proof (induction ps arbitrary: s r s')
  case (Cons p ps)
  obtain x s1 where e: "post_entry rt p s = (x, s1)" by (cases "post_entry rt p s")
  obtain y s2 where m: "mapS (post_entry rt) ps s1 = (y, s2)" by (cases "mapS (post_entry rt) ps s1")
  from post_entry_cases [OF e] Cons.IH [OF m] Cons.prems e m show ?case
    by (cases x; cases y) (auto simp: bindS_def retS_def)
qed (auto simp: retS_def)

lemma commit_report_cases:
  assumes "commit_report rt T s = (r, s')"
  shows "cs_fs s' = cs_fs s \<and> (case r of Inl e \<Rightarrow> e = OsError | Inr _ \<Rightarrow> True)"
proof -
  obtain x s1 where m: "mapS (post_entry rt) (map fst (tx_states T)) s = (x, s1)" by fastforce
  from post_entries_cases [OF m] assms m show ?thesis by (cases x) (auto simp: commit_report_def bindS_def getS_def)
qed

text \<open>A commit applies every action, or an error of its loop is rolled back.\<close>

definition all_applied :: "runtime \<Rightarrow> tx \<Rightarrow> fs \<Rightarrow> bool list \<Rightarrow> cstate \<Rightarrow> bool" where
  "all_applied rt T F faults s \<longleftrightarrow> (\<exists>s0 s1. verify_live_snapshots rt T (commit_start F faults) = (Inr (), s0) \<and>
     exec_actions rt (tx_actions T) s0 = (Inr (), s1) \<and> cs_fs s = cs_fs s1)"

lemma commit_error:
  assumes st: "staged rt T" and wf: "fs_wf F" and run: "commit rt T F faults = (Inl e, s)"
  shows "fs_get (cs_fs s) = fs_get F \<or> (\<exists>ps. ps \<noteq> [] \<and> e = RollbackIncomplete ps) \<or>
    e = OsError \<and> all_applied rt T F faults s"
proof -
  have inv: "tx_inv T" using st by (rule staged_inv)
  obtain r0 s0 where v: "verify_live_snapshots rt T (commit_start F faults) = (r0, s0)"
    by (cases "verify_live_snapshots rt T (commit_start F faults)")
  show ?thesis
  proof (cases r0)
    case (Inl x)
    with run v verify_live_fs [OF v] show ?thesis by (simp add: commit_def commit_start_def)
  next
    case (Inr u)
    with v have v0: "verify_live_snapshots rt T (commit_start F faults) = (Inr (), s0)" by simp
    note vl = verify_live_Inr [OF v0]
    have snap: "snapshot_of F (tx_states T)" using vl by (intro read_snapshot [of _ rt]) simp
    from framed_start [OF snap] vl have fr: "framed F (fst ` set (tx_states T)) s0" by simp
    obtain r1 s1 where x: "exec_actions rt (tx_actions T) s0 = (r1, s1)"
      by (cases "exec_actions rt (tx_actions T) s0")
    have fr1: "framed F (fst ` set (tx_states T)) s1"
      by (rule keepsD [OF exec_actions_framed fr x]) (use inv in \<open>simp add: tx_inv_def\<close>)
    show ?thesis
    proof (cases r1)
      case applied: (Inr u1)
      with run v Inr x have "commit_report rt T s1 = (Inl e, s)" by (simp add: commit_def)
      from commit_report_cases [OF this] have "e = OsError" "cs_fs s = cs_fs s1" by simp_all
      moreover have "exec_actions rt (tx_actions T) s0 = (Inr (), s1)" using x applied by simp
      ultimately show ?thesis using v0 unfolding all_applied_def by blast
    next
      case r1: (Inl x1)
      obtain fl s2 where rb: "rollback rt T s1 = (fl, s2)" by (cases "rollback rt T s1")
      from run v Inr x r1 rb have res: "s = s2" "e = (if fl \<noteq> [] then RollbackIncomplete fl else x1)"
        by (auto simp: commit_def)
      show ?thesis
      proof (cases "fl = []")
        case True
        with rollback_restores [OF snap wf _ fr1] inv rb res show ?thesis by (simp add: tx_inv_def)
      qed (use res in auto)
    qed
  qed
qed

text \<open>What a path looks like when a staged state has been carried out.\<close>

definition realises :: "FileState \<Rightarrow> node option \<Rightarrow> bool" where
  "realises st n \<longleftrightarrow>
     (if st_exists st
      then n = Some (NFile (st_content st) (case st_mode st of Some m \<Rightarrow> m | None \<Rightarrow> 384))
      else case n of Some (NFile c m) \<Rightarrow> False | _ \<Rightarrow> True)"

definition mode_ok :: "FileState \<Rightarrow> bool" where
  "mode_ok v \<longleftrightarrow> st_exists v \<or> st_mode v = None"

definition progress :: "(path \<Rightarrow> FileState) \<Rightarrow> fs \<Rightarrow> path set \<Rightarrow> bytes set \<Rightarrow> cstate \<Rightarrow> bool" where
  "progress V F0 S C s \<longleftrightarrow>
     (\<forall>p \<in> S. realises (V p) (fs_get (cs_fs s) p) \<and> (st_exists (V p) \<longrightarrow> st_content (V p) \<in> C) \<and>
       mode_ok (V p)) \<and>
     (\<forall>p. p \<notin> S \<longrightarrow> fs_get (cs_fs s) p = fs_get F0 p \<or>
        fs_get F0 p = None \<and> fs_get (cs_fs s) p = Some NDir)"

lemma progress_same: "progress V F0 S C s \<Longrightarrow> fs_get (cs_fs s') = fs_get (cs_fs s) \<Longrightarrow> progress V F0 S C s'"
  by (simp add: progress_def)

lemma progress_make_dirs:
  assumes "progress V F0 S C s" "make_dirs ds s = (Inr (), s')"
  shows "progress V F0 S C s'"
proof -
  have step: "fs_get (cs_fs s') p = fs_get (cs_fs s) p \<or>
      fs_get (cs_fs s) p = None \<and> fs_get (cs_fs s') p = Some NDir" for p
    using make_dirs_post(2,3) [OF assms(2), of p] make_dirs_post(3) [OF assms(2), of p]
    by (cases "fs_get (cs_fs s) p") auto
  have "realises (V p) (fs_get (cs_fs s') p)" if "realises (V p) (fs_get (cs_fs s) p)" for p
    using step [of p] that by (auto simp: realises_def split: if_splits)
  with assms(1) show ?thesis
    unfolding progress_def by (metis step)
qed

lemma progress_update:
  assumes "progress V F0 S C s" "p \<in> S" "fs_get (cs_fs s') = (fs_get (cs_fs s))(p := n)"
    and "realises st n" "st_exists st \<Longrightarrow> st_content st \<in> C" "mode_ok st"
  shows "progress (V(p := st)) F0 S C s'"
  using assms by (auto simp: progress_def)

lemma read_realises:
  assumes "read_state rt F p = Inr st" and "realises v (fs_get F p)"
  shows "st_exists st = st_exists v \<and> (st_exists v \<longrightarrow> st_content st = st_content v \<and>
    st_mode st = Some (case st_mode v of Some m \<Rightarrow> m | None \<Rightarrow> 384))"
  using assms by (auto simp: read_state_Inr realises_def absent_def split: if_splits)

definition act_content :: "action \<Rightarrow> bytes set" where
  "act_content a = (case a of AWrite p c \<Rightarrow> {c} | _ \<Rightarrow> {})"

lemma exec_write_progress:
  assumes pr: "progress V F0 S C s" and pS: "p \<in> S" and cC: "c \<in> C" and inj: "inj_on (rt_sha rt) C"
    and run: "exec_action rt (AWrite p c) s = (Inr (), s')"
  shows "progress (apply_act (AWrite p c) V) F0 S C s'"
proof -
  let ?prev = "\<lambda>st. if st_exists st then Some (rt_sha rt (st_content st)) else None"
  from run obtain st s1 s2 where l: "live_state rt p s = (Inr st, s1)"
    and b: "(if ?prev st \<noteq> Some (rt_sha rt c)
        then bindS (remember_created_parents p) (\<lambda>_. prim (do_write p c (st_mode st)))
        else retS ()) s1 = (Inr (), s2)"
    and s': "cs_fs s' = cs_fs s2"
    by (auto simp: Let_def bindS_Inr log_op_def)
  note lc = live_state_cases [OF l]
  then have rd: "read_state rt (cs_fs s) p = Inr st" by simp
  have re: "realises (V p) (fs_get (cs_fs s) p)" "st_exists (V p) \<longrightarrow> st_content (V p) \<in> C"
    and mode: "mode_ok (V p)"
    using pr pS by (auto simp: progress_def)
  note rr = read_realises [OF rd re(1)]
  have pr1: "progress V F0 S C s1" using pr lc by (auto intro: progress_same)
  let ?new = "\<lparr>st_exists = True, st_content = c, st_mode = st_mode (V p)\<rparr>"
  show ?thesis
  proof (cases "?prev st = Some (rt_sha rt c)")
    case True
    then have "st_exists st" "rt_sha rt (st_content st) = rt_sha rt c" by (auto split: if_splits)
    with rr re(2) cC inj have "st_exists (V p)" "st_content (V p) = c" by (auto dest: inj_onD)
    then have "V p = ?new" by (cases "V p") simp
    then have "apply_act (AWrite p c) V = V" by auto
    moreover from b True s' lc have "cs_fs s' = cs_fs s" by (simp add: retS_def)
    ultimately show ?thesis using progress_same [OF pr, of s'] by simp
  next
    case False
    with b obtain s3 where r: "remember_created_parents p s1 = (Inr (), s3)"
      and w: "prim (do_write p c (st_mode st)) s3 = (Inr (), s2)" by (auto simp: bindS_Inr)
    have pr3: "progress V F0 S C s3"
      using progress_make_dirs [OF pr1 r [unfolded remember_created_parents_def]] .
    from prim_cases [OF w] have "do_write p c (st_mode st) (cs_fs s3) = Some (cs_fs s2)" by auto
    from do_write_Some [OF this remember_parent [OF r]] s'
    have up: "fs_get (cs_fs s') = (fs_get (cs_fs s3))
        (p := Some (NFile c (case st_mode st of Some m \<Rightarrow> m | None \<Rightarrow> 384)))" by simp
    have "st_mode st = None \<and> st_mode (V p) = None \<or>
        st_mode st = Some (case st_mode (V p) of Some m \<Rightarrow> m | None \<Rightarrow> 384)"
      using rr mode rd by (auto simp: mode_ok_def read_state_Inr absent_def)
    then have "realises ?new (Some (NFile c (case st_mode st of Some m \<Rightarrow> m | None \<Rightarrow> 384)))"
      by (auto simp: realises_def)
    from progress_update [OF pr3 pS up this] cC show ?thesis by (simp add: mode_ok_def)
  qed
qed


lemma absent_simps [simp]: "mode_ok absent" "\<not> st_exists absent" "realises absent None"
  by (simp_all add: mode_ok_def absent_def realises_def)

lemma exec_delete_progress:
  assumes pr: "progress V F0 S C s" and pS: "p \<in> S"
    and run: "exec_action rt (ADelete p) s = (Inr (), s')"
  shows "progress (apply_act (ADelete p) V) F0 S C s'"
proof -
  from run obtain st s1 s2 where l: "live_state rt p s = (Inr st, s1)"
    and b: "(if st_exists st then prim (do_unlink p) else retS ()) s1 = (Inr (), s2)"
    and s': "cs_fs s' = cs_fs s2"
    by (auto simp: bindS_Inr log_op_def)
  note lc = live_state_cases [OF l]
  then have rd: "read_state rt (cs_fs s) p = Inr st" by simp
  have re: "realises (V p) (fs_get (cs_fs s) p)" using pr pS by (simp add: progress_def)
  note rr = read_realises [OF rd re]
  show ?thesis
  proof (cases "st_exists st")
    case True
    with b have "prim (do_unlink p) s1 = (Inr (), s2)" by simp
    from prim_cases [OF this] have "do_unlink p (cs_fs s1) = Some (cs_fs s2)" by auto
    from do_unlink_Some [OF this] s' lc
    have "fs_get (cs_fs s') = (fs_get (cs_fs s))(p := None)" by simp
    from progress_update [OF pr pS this, of absent] show ?thesis by simp
  next
    case False
    with b s' lc have "fs_get (cs_fs s') = (fs_get (cs_fs s))(p := fs_get (cs_fs s) p)"
      by (simp add: retS_def)
    moreover from False rd have "realises absent (fs_get (cs_fs s) p)"
      by (auto simp: read_state_Inr)
    ultimately show ?thesis 
      using progress_update [OF pr pS, of s' "fs_get (cs_fs s) p" absent] by simp
  qed
qed

lemma exec_mkdir_progress:
  assumes pr: "progress V F0 S C s" and run: "exec_action rt (AMkdir p) s = (Inr (), s')"
  shows "progress (apply_act (AMkdir p) V) F0 S C s'"
proof -
  from run obtain s1 b where "ensure_directory p s = (Inr b, s1)" and s': "cs_fs s' = cs_fs s1"
    by (auto simp: bindS_Inr liftS_def log_op_def)
  then have "cs_fs s1 = cs_fs s \<or> make_dirs (missing_dirs (cs_fs s) p) s = (Inr (), s1)"
    by (auto simp: ensure_directory_def bindS_Inr retS_def split: if_splits)
  then have "progress V F0 S C s1"
    using pr by (auto intro: progress_same progress_make_dirs)
  then show ?thesis using s' by (auto intro: progress_same)
qed

lemma exec_move_progress:
  assumes pr: "progress V F0 S C s" and S: "p \<in> S" "q \<in> S" "p \<noteq> q"
    and run: "exec_action rt (AMove p q) s = (Inr (), s')"
  shows "progress (apply_act (AMove p q) V) F0 S C s'"
proof -
  from run obtain st s1 where l: "live_state rt p s = (Inr st, s1)"
    and k: "(if \<not> st_exists st then (\<lambda>s. (Inl (FileNotFound p), s)) else
         bindS (remember_created_parents q) (\<lambda>_.
         bindS (\<lambda>s. if fs_exists (cs_fs s) q then prim (do_unlink q) s else (Inr (), s)) (\<lambda>_.
         bindS (prim (do_replace p q)) (\<lambda>_.
           log_op (OpMove (posix p) (posix q) (rt_sha rt (st_content st))) [posix p, posix q]))))
       s1 = (Inr (), s')"
    by (auto simp: bindS_Inr liftS_def)
  then have "st_exists st" by (auto intro: ccontr)
  with k obtain s2 s3 s4 where r: "remember_created_parents q s1 = (Inr (), s2)"
    and u: "(if fs_exists (cs_fs s2) q then prim (do_unlink q) s2 else (Inr (), s2)) = (Inr (), s3)"
    and m: "prim (do_replace p q) s3 = (Inr (), s4)" and s': "cs_fs s' = cs_fs s4"
    by (auto simp: bindS_Inr log_op_def)
  note lc = live_state_cases [OF l]
  have "progress V F0 S C s1" using pr lc by (auto intro: progress_same)
  then have pr2: "progress V F0 S C s2"
    using r unfolding remember_created_parents_def by (rule progress_make_dirs)
  have gone: "fs_get (cs_fs s3) = (fs_get (cs_fs s2))(q := None)"
  proof (cases "fs_exists (cs_fs s2) q")
    case True
    with u have "prim (do_unlink q) s2 = (Inr (), s3)" by simp
    from prim_cases [OF this] do_unlink_Some [of q "cs_fs s2" "cs_fs s3"] show ?thesis by auto
  qed (use u in \<open>auto simp: fs_exists_def fun_eq_iff\<close>)
  from prim_cases [OF m] have "do_replace p q (cs_fs s3) = Some (cs_fs s4)" by auto
  from do_replace_Some [OF this S(3)] obtain c md where
    n: "fs_get (cs_fs s3) p = Some (NFile c md)"
    and up: "fs_get (cs_fs s4) = (fs_get (cs_fs s3))(p := None, q := Some (NFile c md))" by auto
  from n gone S(3) have n2: "fs_get (cs_fs s2) p = Some (NFile c md)" by simp
  have up': "fs_get (cs_fs s') = (fs_get (cs_fs s2))(p := None, q := Some (NFile c md))"
    using up gone s' by (auto simp: fun_eq_iff)
  have Vp: "realises (V p) (Some (NFile c md))" "st_exists (V p) \<longrightarrow> st_content (V p) \<in> C"
    "mode_ok (V p)" using pr2 S(1) n2 by (auto simp: progress_def)
  have "progress (V(p := absent, q := V p)) F0 S C s'"
    using pr2 S Vp up' by (auto simp: progress_def)
  then show ?thesis by simp
qed

lemma exec_action_progress:
  assumes "progress V F0 S C s" "wf_action S a" "act_content a \<subseteq> C" "inj_on (rt_sha rt) C"
    and "exec_action rt a s = (Inr (), s')"
  shows "progress (apply_act a V) F0 S C s'"
  using assms
  by (cases a)
    (simp_all add: wf_action_def act_content_def exec_write_progress exec_delete_progress
      exec_move_progress exec_mkdir_progress del: exec_action.simps apply_act.simps)

lemma exec_actions_progress:
  "progress V F0 S C s \<Longrightarrow> \<forall>a \<in> set as. wf_action S a \<and> act_content a \<subseteq> C \<Longrightarrow>
    inj_on (rt_sha rt) C \<Longrightarrow> exec_actions rt as s = (Inr (), s') \<Longrightarrow>
    progress (fold apply_act as V) F0 S C s'"
proof (induction as arbitrary: V s)
  case (Cons a as)
  then obtain s1 where one: "exec_action rt a s = (Inr (), s1)"
    and rest: "exec_actions rt as s1 = (Inr (), s')" by (auto simp: bindS_Inr)
  have "progress (apply_act a V) F0 S C s1"
    by (rule exec_action_progress [OF Cons.prems(1) _ _ Cons.prems(3) one]) (use Cons.prems(2) in auto)
  from Cons.IH [OF this _ Cons.prems(3) rest] Cons.prems(2) show ?case by simp
qed simp

text \<open>The contents a transaction handles: those it captured and those it writes.\<close>

definition tx_contents :: "tx \<Rightarrow> bytes set" where
  "tx_contents T = st_content ` snd ` set (tx_states T) \<union> \<Union> (act_content ` set (tx_actions T))"

lemma progress_start:
  assumes "\<forall>(p, st) \<in> set sts. read_state rt F p = Inr st" "dict_ok sts" "cs_fs s = F"
    and "st_content ` snd ` set sts \<subseteq> C"
  shows "progress (captured sts) F (fst ` set sts) C s"
proof -
  have "realises (captured sts p) (fs_get F p) \<and>
      (st_exists (captured sts p) \<longrightarrow> st_content (captured sts p) \<in> C) \<and> mode_ok (captured sts p)"
    if "p \<in> fst ` set sts" for p
  proof -
    from that obtain st where x: "(p, st) \<in> set sts" by auto
    with assms(2) have "captured sts p = st" by (simp add: captured_def dict_ok_def)
    moreover from x assms(1) have "read_state rt F p = Inr st" by auto
    moreover from x assms(4) have "st_content st \<in> C" by force
    ultimately show ?thesis by (auto simp: read_state_Inr realises_def mode_ok_def absent_def)
  qed
  then show ?thesis using assms(3) by (simp add: progress_def)
qed

lemma applied_realises:
  assumes st: "staged rt T" and inj: "inj_on (rt_sha rt) (tx_contents T)" and run: "all_applied rt T F faults s"
  shows "(\<forall>p st. map_of (tx_virtual T) p = Some st \<longrightarrow> realises st (fs_get (cs_fs s) p)) \<and>
    (\<forall>p. map_of (tx_virtual T) p = None \<longrightarrow> fs_get (cs_fs s) p = fs_get F p \<or>
       fs_get F p = None \<and> fs_get (cs_fs s) p = Some NDir)"
proof -
  have inv: "tx_inv T" using st by (rule staged_inv)
  from run obtain s0 s1 where v: "verify_live_snapshots rt T (commit_start F faults) = (Inr (), s0)"
    and x: "exec_actions rt (tx_actions T) s0 = (Inr (), s1)" and fs: "cs_fs s = cs_fs s1"
    by (auto simp: all_applied_def)
  note vl = verify_live_Inr [OF v]
  let ?V = "captured (tx_states T)"
  have "progress ?V F (fst ` set (tx_states T)) (tx_contents T) s0"
    by (rule progress_start [of _ rt]) (use vl inv in \<open>auto simp: tx_inv_def tx_contents_def\<close>)
  from exec_actions_progress [OF this _ inj x] inv
  have "progress (fold apply_act (tx_actions T) ?V) F (fst ` set (tx_states T)) (tx_contents T) s1"
    by (auto simp: tx_inv_def tx_contents_def)
  with inv fs show ?thesis by (auto simp: progress_def tx_inv_def split: if_splits)
qed

lemma commit_applies:
  assumes "commit rt T F faults = (Inr r, s)"
  shows "all_applied rt T F faults s"
proof -
  from assms obtain s0 s1 where v: "verify_live_snapshots rt T (commit_start F faults) = (Inr (), s0)"
    and x: "exec_actions rt (tx_actions T) s0 = (Inr (), s1)" and c: "commit_report rt T s1 = (Inr r, s)"
    by (auto simp: commit_def Let_def split: prod.splits sum.splits if_splits)
  from commit_report_cases [OF c] v x show ?thesis by (auto simp: all_applied_def)
qed

section \<open>Properties\<close>

text \<open>A concrete runtime for evaluation: no confinement, no credentials, the identity as digest.\<close>

definition demo_runtime :: runtime where
  "demo_runtime = \<lparr>rt_safe_path = (\<lambda>F rel. Some (split_char 47 rel)), rt_max_file_bytes = 1000,
     rt_credential = (\<lambda>_. False), rt_sha = id, rt_hex_ok = (\<lambda>_. True), rt_lower = id\<rparr>"

definition demo_disk :: fs where
  "demo_disk = [([lit ''a''], NFile (lit ''old'') 420)]"

definition demo_delete :: tx where
  "demo_delete =
     (case stage_delete demo_runtime demo_disk (lit ''a'') None False new_tx of
        Inr T \<Rightarrow> T | Inl _ \<Rightarrow> new_tx)"

definition demo_below :: tx where
  "demo_below =
     (case stage_write demo_runtime demo_disk (lit ''a/b'') (lit ''new'') None False demo_delete of
        Inr T \<Rightarrow> T | Inl _ \<Rightarrow> new_tx)"

definition demo_tx :: tx where
  "demo_tx =
     (case stage_write demo_runtime demo_disk (lit ''c'') (lit ''x'') None False demo_below of
        Inr T \<Rightarrow> T | Inl _ \<Rightarrow> new_tx)"

lemma demo_staged: "staged demo_runtime demo_tx" "staged demo_runtime demo_below"
proof -
  have "stage_delete demo_runtime demo_disk (lit ''a'') None False new_tx = Inr demo_delete"
    by code_simp
  then have d: "staged demo_runtime demo_delete" by (rule staged_delete [OF staged_new])
  have "stage_write demo_runtime demo_disk (lit ''a/b'') (lit ''new'') None False demo_delete
      = Inr demo_below" by code_simp
  then show b: "staged demo_runtime demo_below" by (rule staged_write [OF d])
  have "stage_write demo_runtime demo_disk (lit ''c'') (lit ''x'') None False demo_below
      = Inr demo_tx" by code_simp
  then show "staged demo_runtime demo_tx" by (rule staged_write [OF b])
qed

lemma demo_disk_wf: "fs_wf demo_disk"
  by (simp add: fs_wf_def demo_disk_def fs_is_dir_def)

text \<open>C10. A commit that raises leaves one of three disks, whatever disk faults hit it: every path of the
  repository is what it was before; or the error is the report of an incomplete rollback with the paths
  that could not be restored; or the error is the fault of the disk while the applied files were read
  back for the report, and then the disk is exactly the staged state. SHA-256 must not collide on the
  contents of the transaction.\<close>

theorem raised_commits_are_accounted_for:
  assumes "staged rt T" and "fs_wf F" and "inj_on (rt_sha rt) (tx_contents T)"
    and "commit rt T F faults = (Inl e, s)"
  shows "fs_get (cs_fs s) = fs_get F \<or> (\<exists>ps. ps \<noteq> [] \<and> e = RollbackIncomplete ps) \<or>
    e = OsError \<and> (\<forall>p st. map_of (tx_virtual T) p = Some st \<longrightarrow> realises st (fs_get (cs_fs s) p)) \<and>
    (\<forall>p. map_of (tx_virtual T) p = None \<longrightarrow> fs_get (cs_fs s) p = fs_get F p \<or>
       fs_get F p = None \<and> fs_get (cs_fs s) p = Some NDir)"
  using commit_error [OF assms(1,2,4)] applied_realises [OF assms(1,3)] by blast

theorem raised_commits_are_accounted_for_witness:
  "let (r, s) = commit demo_runtime demo_tx demo_disk (replicate 4 False @ [True])
   in r = Inl OsError \<and> fs_get (cs_fs s) = fs_get demo_disk"
proof -
  obtain s where s: "commit demo_runtime demo_tx demo_disk (replicate 4 False @ [True]) = (Inl OsError, s)"
  proof -
    have "fst (commit demo_runtime demo_tx demo_disk (replicate 4 False @ [True])) = Inl OsError"
      by code_simp
    then show thesis using that by (metis prod.collapse)
  qed
  have "inj_on (rt_sha demo_runtime) (tx_contents demo_tx)" by (simp add: demo_runtime_def)
  from raised_commits_are_accounted_for [OF demo_staged(1) demo_disk_wf this s]
  have "fs_get (cs_fs s) = fs_get demo_disk \<or> realises \<lparr>st_exists = True, st_content = lit ''x'', st_mode = None\<rparr> (fs_get (cs_fs s) [lit ''c''])"
  proof -
    have "map_of (tx_virtual demo_tx) [lit ''c''] = Some \<lparr>st_exists = True, st_content = lit ''x'', st_mode = None\<rparr>"
      by code_simp
    then show ?thesis
      using raised_commits_are_accounted_for [OF demo_staged(1) demo_disk_wf \<open>inj_on _ _\<close> s] by blast
  qed
  moreover have "fs_get (cs_fs (snd (commit demo_runtime demo_tx demo_disk (replicate 4 False @ [True])))) [lit ''c''] = None"
    by code_simp
  ultimately show ?thesis using s by (simp add: realises_def)
qed

text \<open>
  The third case happens: when the disk fails only while the applied files are read back, the caller gets
  the same error as for a commit that was rolled back, but every operation has been applied.
\<close>

lemma raised_commit_can_be_applied:
  "let (r, s) = commit demo_runtime demo_tx demo_disk (replicate 10 False @ [True])
   in r = Inl OsError \<and> fs_get (cs_fs s) [lit ''a'', lit ''b''] = Some (NFile (lit ''new'') 384)"
  by code_simp

text \<open>C12. A commit that returns has carried out exactly the staged state: every path the transaction
  touched holds the content and mode last staged for it, or no file when it was staged as gone, and
  every other path is unchanged or a new directory on the way to a written file. SHA-256 is used
  only to skip a write of unchanged content, so it must not collide on the transaction's contents.\<close>

theorem commit_realises_staged_state:
  assumes "staged rt T" and "inj_on (rt_sha rt) (tx_contents T)"
    and "commit rt T F faults = (Inr r, s)"
  shows "(\<forall>p st. map_of (tx_virtual T) p = Some st \<longrightarrow> realises st (fs_get (cs_fs s) p)) \<and>
    (\<forall>p. map_of (tx_virtual T) p = None \<longrightarrow> fs_get (cs_fs s) p = fs_get F p \<or>
       fs_get F p = None \<and> fs_get (cs_fs s) p = Some NDir)"
  using applied_realises [OF assms(1,2) commit_applies [OF assms(3)]] .

theorem commit_realises_staged_state_witness:
  "let s = snd (commit demo_runtime demo_tx demo_disk [])
   in fs_get (cs_fs s) [lit ''a'', lit ''b''] = Some (NFile (lit ''new'') 384) \<and>
      (fs_get (cs_fs s) [lit ''d''] = None)"
proof -
  obtain r s where s: "commit demo_runtime demo_tx demo_disk [] = (Inr r, s)"
  proof -
    have "(case fst (commit demo_runtime demo_tx demo_disk []) of Inr _ \<Rightarrow> True | Inl _ \<Rightarrow> False)"
      by code_simp
    then obtain r where "fst (commit demo_runtime demo_tx demo_disk []) = Inr r"
      by (auto split: sum.splits)
    then show thesis using that by (metis prod.collapse)
  qed
  have "inj_on (rt_sha demo_runtime) (tx_contents demo_tx)" by (simp add: demo_runtime_def)
  note p = commit_realises_staged_state [OF demo_staged(1) this s]
  have v: "map_of (tx_virtual demo_tx) [lit ''a'', lit ''b''] =
      Some \<lparr>st_exists = True, st_content = lit ''new'', st_mode = None\<rparr>" by code_simp
  have "map_of (tx_virtual demo_tx) [lit ''d''] = None" "fs_get demo_disk [lit ''d''] = None"
    by code_simp+
  moreover have "fs_get (cs_fs s) [lit ''d''] \<noteq> Some NDir"
  proof -
    have "fs_get (cs_fs (snd (commit demo_runtime demo_tx demo_disk []))) [lit ''d''] = None"
      by code_simp
    with s show ?thesis by simp
  qed
  ultimately have "fs_get (cs_fs s) [lit ''d''] = None"
    using conjunct2 [OF p, THEN spec [of _ "[lit ''d'']"]] by simp
  moreover have "fs_get (cs_fs s) [lit ''a'', lit ''b''] = Some (NFile (lit ''new'') 384)"
    using conjunct1 [OF p, THEN spec [of _ "[lit ''a'', lit ''b'']"]] v
    by (simp add: realises_def)
  ultimately show ?thesis using s by (simp add: Let_def)
qed

text \<open>If any captured path no longer reads as it did when it was captured, the commit is refused
  and nothing is touched.\<close>

theorem stale_commit_is_refused:
  assumes "(p, st) \<in> set (tx_states T)" and "read_state rt F p \<noteq> Inr st"
  shows "\<exists>e s. commit rt T F faults = (Inl e, s) \<and> cs_fs s = F"
proof -
  obtain r s where v: "verify_live_snapshots rt T (commit_start F faults) = (r, s)"
    by (cases "verify_live_snapshots rt T (commit_start F faults)")
  have "r \<noteq> Inr ()"
    using v verify_live_Inr [of rt T F faults s] assms by auto
  then obtain e where "r = Inl e" by (cases r) auto
  with v verify_live_fs [OF v] show ?thesis by (simp add: commit_def commit_start_def)
qed

theorem stale_commit_is_refused_witness:
  "\<exists>e s. commit demo_runtime demo_tx [([lit ''a''], NFile (lit ''edited'') 420)] [] = (Inl e, s) \<and>
     cs_fs s = [([lit ''a''], NFile (lit ''edited'') 420)]"
proof (rule stale_commit_is_refused)
  show "([lit ''a''], \<lparr>st_exists = True, st_content = lit ''old'', st_mode = Some 420\<rparr>)
      \<in> set (tx_states demo_tx)" by code_simp
  show "read_state demo_runtime [([lit ''a''], NFile (lit ''edited'') 420)] [lit ''a''] \<noteq>
      Inr \<lparr>st_exists = True, st_content = lit ''old'', st_mode = Some 420\<rparr>" by code_simp
qed

text \<open>A transaction reads its own writes: after a staged write the same path reads as exactly
  the text written, however the file on disk looks.\<close>

theorem staged_write_is_readable:
  assumes "stage_write rt F rel content expected allow T = Inr T'"
    and "rt_safe_path rt F' rel = rt_safe_path rt F rel"
  shows "read_text rt F' rel T' = Inr (content, T')"
proof -
  from assms(1) obtain p enc m where "utf8_encode content = Some enc"
    "safe_path rt F rel = Inr p" "map_of (tx_virtual T') p =
        Some \<lparr>st_exists = True, st_content = enc, st_mode = m\<rparr>"
    by (auto simp: stage_write_def bindr_Inr_iff map_of_AList_update split: option.splits if_splits)
  moreover from this assms(2) have "safe_path rt F' rel = Inr p" by (simp add: safe_path_def)
  ultimately show ?thesis
    by (simp add: read_text_def current_def utf8_roundtrip)
qed

theorem staged_write_is_readable_witness:
  "read_text demo_runtime [] (lit ''c'') demo_tx = Inr (lit ''x'', demo_tx)"
proof (rule staged_write_is_readable)
  show "stage_write demo_runtime demo_disk (lit ''c'') (lit ''x'') None False demo_below = Inr demo_tx"
    by code_simp
qed (simp add: demo_runtime_def)

text \<open>The rollback restores files before it removes the directories the commit created. When the
  transaction deletes the file \<^verbatim>\<open>a\<close> and writes \<^verbatim>\<open>a/b\<close>, and a later operation fails, restoring
  \<^verbatim>\<open>a\<close> fails on the directory \<^verbatim>\<open>a\<close>, which is then removed: the file is lost for good.\<close>

theorem rollback_can_lose_a_file:
  "let (r, s) = commit demo_runtime demo_tx demo_disk (replicate 9 False @ [True])
   in r = Inl (RollbackIncomplete [[lit ''a'']]) \<and>
      fs_get demo_disk [lit ''a''] = Some (NFile (lit ''old'') 420) \<and>
      fs_get (cs_fs s) [lit ''a''] = None"
  by code_simp

end
