(* ===== verification/PatchProofs.thy ===== *)
theory PatchProofs imports UnifiedPatch TransactionProofs begin

text \<open>
  What patch application computes, that a patch can be taken back, what the parser accepts, that it
  reads back every patch printed in the usual form, and that a failed \<^verbatim>\<open>repo.apply_patch\<close> inherits
  the guarantee of the repository transaction.
\<close>

section \<open>Application\<close>

text \<open>The lines a hunk expects and the lines it puts in their place.\<close>

definition old_side :: "pystr list \<Rightarrow> pystr list" where
  "old_side ls = map tl (filter (\<lambda>l. hd l \<noteq> 43) ls)"

definition new_side :: "pystr list \<Rightarrow> pystr list" where
  "new_side ls = map tl (filter (\<lambda>l. hd l = 43 \<or> hd l = 32) ls)"

lemma side_simps [simp]:
  "old_side [] = []" "new_side [] = []"
  "old_side (l # ls) = (if hd l = 43 then old_side ls else tl l # old_side ls)"
  "new_side (l # ls) = (if hd l = 43 \<or> hd l = 32 then tl l # new_side ls else new_side ls)"
  by (auto simp: old_side_def new_side_def)

lemma apply_body_iff:
  "c \<le> length src \<Longrightarrow> apply_body path src c ls = Inr (c', out) \<longleftrightarrow>
     c' = c + length (old_side ls) \<and> c' \<le> length src \<and>
     take (length (old_side ls)) (drop c src) = old_side ls \<and> out = new_side ls"
proof (induction ls arbitrary: c c' out)
  case (Cons l ls)
  show ?case
  proof (cases "hd l = 43")
    case True
    then show ?thesis using Cons.IH [OF Cons.prems] by (fastforce simp: bindr_Inr_iff)
  next
    case False
    show ?thesis
    proof (cases "c < length src \<and> src ! c = tl l")
      case True
      then have "drop c src = tl l # drop (Suc c) src" by (metis Cons_nth_drop_Suc)
      then show ?thesis using Cons.IH [of "Suc c"] True False by (fastforce simp: bindr_Inr_iff)
    next
      case no: False
      have "\<not> (c + Suc (length (old_side ls)) \<le> length src \<and>
          take (Suc (length (old_side ls))) (drop c src) = tl l # old_side ls)"
      proof
        assume a: "c + Suc (length (old_side ls)) \<le> length src \<and>
          take (Suc (length (old_side ls))) (drop c src) = tl l # old_side ls"
        then have "drop c src = src ! c # drop (Suc c) src" by (simp add: Cons_nth_drop_Suc)
        with a no show False by auto
      qed
      with no False show ?thesis by auto
    qed
  qed
qed auto

text \<open>Hunks fit when, in order and without overlap, each finds its old side at its position; the
  result is the source with each old side replaced by the new one.\<close>

fun fits :: "pystr list \<Rightarrow> nat \<Rightarrow> PatchHunk list \<Rightarrow> bool" where
  "fits src c [] \<longleftrightarrow> True"
| "fits src c (h # hs) \<longleftrightarrow>
     (let t = ph_old_start h - 1; old = old_side (ph_lines h)
      in c \<le> t \<and> t + length old \<le> length src \<and> take (length old) (drop t src) = old \<and>
         fits src (t + length old) hs)"

fun weave :: "pystr list \<Rightarrow> nat \<Rightarrow> PatchHunk list \<Rightarrow> pystr list" where
  "weave src c [] = drop c src"
| "weave src c (h # hs) =
     (let t = ph_old_start h - 1
      in take (t - c) (drop c src) @ new_side (ph_lines h) @
         weave src (t + length (old_side (ph_lines h))) hs)"

lemma apply_lines_iff:
  "c \<le> length src \<Longrightarrow> apply_lines path src c hs = Inr out \<longleftrightarrow> fits src c hs \<and> out = weave src c hs"
proof (induction hs arbitrary: c out)
  case (Cons h hs)
  let ?t = "ph_old_start h - 1"
  show ?case
  proof (cases "?t < c \<or> length src < ?t")
    case False
    then have t: "?t \<le> length src" by simp
    let ?n = "?t + length (old_side (ph_lines h))"
    let ?gap = "take (?t - c) (drop c src)"
    have "apply_lines path src c (h # hs) = Inr out \<longleftrightarrow>
        (\<exists>c' body r. apply_body path src ?t (ph_lines h) = Inr (c', body) \<and>
           apply_lines path src c' hs = Inr r \<and> out = ?gap @ body @ r)"
      using False by (auto simp: Let_def bindr_Inr_iff)
    also have "\<dots> \<longleftrightarrow> ?n \<le> length src \<and>
        take (length (old_side (ph_lines h))) (drop ?t src) = old_side (ph_lines h) \<and>
        (\<exists>r. apply_lines path src ?n hs = Inr r \<and> out = ?gap @ new_side (ph_lines h) @ r)"
      unfolding apply_body_iff [OF t] by blast
    finally show ?thesis
      using False Cons.IH [of ?n] by (auto simp: Let_def)
  qed (auto simp: Let_def)
qed auto

text \<open>The patch that takes a patch back: added and deleted lines swapped, and each hunk at the place
  its new side has in the result.\<close>

definition flip_line :: "pystr \<Rightarrow> pystr" where
  "flip_line l = (if hd l = 43 then 45 # tl l else if hd l = 45 then 43 # tl l else l)"

fun invert_hunks :: "nat \<Rightarrow> nat \<Rightarrow> PatchHunk list \<Rightarrow> PatchHunk list" where
  "invert_hunks c d [] = []"
| "invert_hunks c d (h # hs) =
     (let t = ph_old_start h - 1; u = d + (t - c)
      in \<lparr>ph_old_start = u + 1, ph_old_count = ph_new_count h, ph_new_start = t + 1,
          ph_new_count = ph_old_count h, ph_lines = map flip_line (ph_lines h),
          ph_old_no_newline = ph_new_no_newline h, ph_new_no_newline = ph_old_no_newline h\<rparr>
         # invert_hunks (t + length (old_side (ph_lines h))) (u + length (new_side (ph_lines h))) hs)"

definition line_ok :: "pystr \<Rightarrow> bool" where
  "line_ok l \<longleftrightarrow> l \<noteq> [] \<and> hd l \<in> {32, 43, 45}"

definition hunk_ok :: "PatchHunk \<Rightarrow> bool" where
  "hunk_ok h \<longleftrightarrow> (\<forall>l \<in> set (ph_lines h). line_ok l) \<and>
     ph_old_count h = length (old_side (ph_lines h)) \<and>
     ph_new_count h = length (new_side (ph_lines h))"

lemma flip_sides:
  "\<forall>l \<in> set ls. line_ok l \<Longrightarrow>
    old_side (map flip_line ls) = new_side ls \<and> new_side (map flip_line ls) = old_side ls"
  by (induction ls) (auto simp: flip_line_def line_ok_def)

lemma invert_applies:
  assumes "c \<le> length src" "fits src c hs" "\<forall>h \<in> set hs. hunk_ok h" "length pre = d"
  shows "fits (pre @ weave src c hs) d (invert_hunks c d hs) \<and>
    weave (pre @ weave src c hs) d (invert_hunks c d hs) = drop c src"
  using assms
proof (induction hs arbitrary: c d pre)
  case (Cons h hs)
  define t where "t = ph_old_start h - 1"
  define old where "old = old_side (ph_lines h)"
  define new where "new = new_side (ph_lines h)"
  define gap where "gap = take (t - c) (drop c src)"
  define rest where "rest = weave src (t + length old) hs"
  have f: "c \<le> t" "t + length old \<le> length src" "take (length old) (drop t src) = old"
    "fits src (t + length old) hs"
    using Cons.prems(2) by (auto simp: t_def old_def Let_def)
  have lg: "length gap = t - c" using f by (simp add: gap_def)
  have w: "weave src c (h # hs) = gap @ new @ rest"
    by (simp add: t_def old_def new_def gap_def rest_def Let_def)
  have IH: "fits ((pre @ gap @ new) @ rest) (d + (t - c) + length new)
        (invert_hunks (t + length old) (d + (t - c) + length new) hs) \<and>
      weave ((pre @ gap @ new) @ rest) (d + (t - c) + length new)
        (invert_hunks (t + length old) (d + (t - c) + length new) hs) = drop (t + length old) src"
    unfolding rest_def
    by (rule Cons.IH) (use f Cons.prems lg in auto)
  have sides: "old_side (map flip_line (ph_lines h)) = new" "new_side (map flip_line (ph_lines h)) = old"
    using flip_sides [of "ph_lines h"] Cons.prems(3) by (auto simp: hunk_ok_def old_def new_def)
  have inv: "invert_hunks c d (h # hs) =
      \<lparr>ph_old_start = d + (t - c) + 1, ph_old_count = ph_new_count h, ph_new_start = t + 1,
       ph_new_count = ph_old_count h, ph_lines = map flip_line (ph_lines h),
       ph_old_no_newline = ph_new_no_newline h, ph_new_no_newline = ph_old_no_newline h\<rparr>
      # invert_hunks (t + length old) (d + (t - c) + length new) hs"
    by (simp add: t_def old_def new_def Let_def)
  have dt: "drop t src = old @ drop (t + length old) src"
    by (metis f(3) append_take_drop_id drop_drop add.commute)
  have dc: "drop c src = gap @ old @ drop (t + length old) src"
    using f(1) dt unfolding gap_def by (metis append_take_drop_id drop_drop le_add_diff_inverse2)
  show ?case
    unfolding w inv using IH sides lg Cons.prems(4) dc by (simp add: Let_def)
qed simp

section \<open>Whole texts\<close>

text \<open>Plain text: lines ended by a line feed.\<close>

definition text_of :: "pystr list \<Rightarrow> pystr" where
  "text_of ls = (if ls = [] then [] else join_with [10] ls @ [10])"

definition plain_line :: "pystr \<Rightarrow> bool" where
  "plain_line l \<longleftrightarrow> (\<forall>c \<in> set l. \<not> line_break c)"

lemma replace_crlf_id: "13 \<notin> set s \<Longrightarrow> replace_crlf s = s"
  by (induction s rule: replace_crlf.induct) auto

lemma join_with_mem: "x \<in> set (join_with d ls) \<Longrightarrow> x \<in> set d \<or> (\<exists>l \<in> set ls. x \<in> set l)"
  by (induction d ls rule: join_with.induct) auto

lemma text_of_no_cr: "\<forall>l \<in> set ls. plain_line l \<Longrightarrow> 13 \<notin> set (text_of ls)"
proof -
  assume a: "\<forall>l \<in> set ls. plain_line l"
  have "line_break 13" by (simp add: line_break_def)
  with a show ?thesis by (auto simp: text_of_def plain_line_def dest!: join_with_mem)
qed

lemma contains_mem: "contains s p \<Longrightarrow> set p \<subseteq> set s"
  by (auto simp: contains_sublist sublist_def)

lemma splitlines_text_of: "\<forall>l \<in> set ls. plain_line l \<Longrightarrow> splitlines (text_of ls) = ls"
  using splitlines_join [of ls] by (auto simp: text_of_def plain_line_def splitlines_def)

lemma join_with_Nil_iff: "join_with [c] ls = [] \<longleftrightarrow> ls = [] \<or> ls = [[]]"
  by (cases "([c], ls)" rule: join_with.cases) auto

lemma newline_after_plain:
  "\<forall>h \<in> set hs. \<not> ph_old_no_newline h \<and> \<not> ph_new_no_newline h \<Longrightarrow> fold newline_after hs b = b"
  by (induction hs) (auto simp: newline_after_def)

lemma apply_hunks_plain:
  assumes "\<forall>l \<in> set src. plain_line l"
    and "\<forall>h \<in> set hs. \<not> ph_old_no_newline h \<and> \<not> ph_new_no_newline h"
  shows "apply_hunks (text_of src) hs path =
    bindr (apply_lines path src 0 hs) (\<lambda>out. Inr (if out = [[]] then [] else text_of out))"
proof -
  have cr: "13 \<notin> set (text_of src)" using assms(1) by (rule text_of_no_cr)
  then have nl: "\<not> contains (text_of src) [13, 10]" by (auto dest: contains_mem)
  have fin: "(endswith (text_of src) [10] \<or> endswith (text_of src) [13]) = (src \<noteq> [])"
    using cr by (auto simp: text_of_def endswith_def split: if_splits)
  have e: "(text_of src = []) = (src = [])" by (simp add: text_of_def)
  have "apply_hunks (text_of src) hs path = bindr (apply_lines path src 0 hs) (\<lambda>result.
      Inr (if join_with [10] result \<noteq> [] \<and> (src = [] \<and> result \<noteq> [] \<or> src \<noteq> [])
           then join_with [10] result @ [10] else join_with [10] result))"
    unfolding apply_hunks_def Let_def replace_crlf_id [OF cr] splitlines_text_of [OF assms(1)]
      newline_after_plain [OF assms(2)] fin e
    by (rule arg_cong [of _ _ "bindr _"]) (simp add: fun_eq_iff nl)
  also have "\<dots> = bindr (apply_lines path src 0 hs)
      (\<lambda>out. Inr (if out = [[]] then [] else text_of out))"
    by (rule arg_cong [of _ _ "bindr _"])
      (auto simp: fun_eq_iff join_with_Nil_iff text_of_def apply_lines.simps)
  finally show ?thesis .
qed


section \<open>What the parser accepts\<close>

definition body_inv :: "hunk_body \<Rightarrow> bool" where
  "body_inv b \<longleftrightarrow> (\<forall>l \<in> set (hb_lines b). line_ok l) \<and>
     hb_old b = length (old_side (hb_lines b)) \<and> hb_new b = length (new_side (hb_lines b))"

lemma side_append [simp]:
  "old_side (a @ b) = old_side a @ old_side b" "new_side (a @ b) = new_side a @ new_side b"
  by (simp_all add: old_side_def new_side_def)

lemma parse_body_inv: "body_inv b \<Longrightarrow> parse_body b ls = Inr (b', r) \<Longrightarrow> body_inv b'"
proof (induction b ls rule: parse_body.induct)
  case (2 b l ls)
  show ?case
  proof (cases "body_ends l \<or> l = no_newline_marker")
    case True
    with 2 show ?thesis by (auto simp: Let_def body_inv_def split: if_splits)
  next
    case False
    with 2(4) have ok: "line_ok l" by (auto simp: line_ok_def split: if_splits)
    then have nn: "\<not> (l = [] \<or> hd l \<notin> {32, 43, 45})" by (auto simp: line_ok_def)
    show ?thesis
      by (rule 2(2)) (use False nn ok 2(3,4) in \<open>auto simp: body_inv_def line_ok_def\<close>)
  qed
qed simp

lemma make_hunk_ok:
  "body_inv b \<Longrightarrow> make_hunk m b = Inr h \<Longrightarrow> hunk_ok h"
  by (auto simp: make_hunk_def bindr_Inr_iff hunk_ok_def body_inv_def split: prod.splits if_splits)

lemma empty_body_inv: "body_inv empty_body"
  by (simp add: body_inv_def empty_body_def)

lemma parse_hunks_ok: "parse_hunks ls = Inr (hs, r) \<Longrightarrow> \<forall>h \<in> set hs. hunk_ok h"
proof (induction ls arbitrary: hs r rule: parse_hunks.induct)
  case (2 l ls)
  show ?case
  proof (cases "startswith l (lit ''--- '') \<or> startswith l (lit ''diff --git '')")
    case True
    with 2(3) show ?thesis by auto
  next
    case no: False
    show ?thesis
    proof (cases "HUNK l")
      case None
      with 2(1) [OF no None] 2(3) no show ?thesis by auto
    next
      case (Some m)
      with 2(3) no obtain b rest h hs' where p: "parse_body empty_body ls = Inr (b, rest)"
        and h: "make_hunk m b = Inr h" and hs: "parse_hunks rest = Inr (hs', r)" "hs = h # hs'"
        by (auto simp: bindr_Inr_iff split: sum.splits)
      from 2(2) [OF no Some p refl hs(1)] make_hunk_ok [OF parse_body_inv [OF empty_body_inv p] h]
      show ?thesis by (simp add: hs(2))
    qed
  qed
qed simp

definition file_ok :: "FilePatch \<Rightarrow> bool" where
  "file_ok f \<longleftrightarrow> fp_hunks f \<noteq> [] \<and> (\<forall>h \<in> set (fp_hunks f). hunk_ok h) \<and>
     (fp_old_path f \<noteq> None \<or> fp_new_path f \<noteq> None) \<and>
     fp_old_path f \<noteq> Some [] \<and> fp_new_path f \<noteq> Some []"

lemma path_from_header_ne: "path_from_header v \<noteq> Inr (Some [])"
  by (auto simp: path_from_header_def Let_def split: if_splits)

lemma parse_file_ok: "parse_file ls = Inr (f, r) \<Longrightarrow> file_ok f"
  unfolding parse_file_def
  by (cases ls rule: remdups_adj.cases)
    (auto simp: bindr_Inr_iff file_ok_def path_from_header_ne dest: parse_hunks_ok split: if_split_asm)

lemma parse_files_ok: "parse_files ls = Inr fs \<Longrightarrow> \<forall>f \<in> set fs. file_ok f"
proof (induction ls arbitrary: fs rule: parse_files.induct)
  case (2 l ls)
  show ?case
  proof (cases "startswith l (lit ''diff --git '') \<or> \<not> startswith l (lit ''--- '')")
    case True
    with 2 show ?thesis by (auto split: if_splits)
  next
    case False
    with 2(4) obtain f rest fs' where p: "parse_file (l # ls) = Inr (f, rest)"
      and r: "parse_files rest = Inr fs'" "fs = f # fs'"
      by (auto simp: bindr_Inr_iff split: sum.splits)
    from False p r(1) 2(3) have "\<forall>f \<in> set fs'. file_ok f" by blast
    with parse_file_ok [OF p] r(2) show ?thesis by simp
  qed
qed simp

lemma parse_patch_ok: "parse_unified_patch text = Inr fs \<Longrightarrow> fs \<noteq> [] \<and> (\<forall>f \<in> set fs. file_ok f)"
  by (auto simp: parse_unified_patch_def bindr_Inr_iff dest: parse_files_ok split: if_splits option.splits)

section \<open>Printing and reading back\<close>

lemma scan_decimal:
  "s \<noteq> [] \<Longrightarrow> \<not> ascii_digit (hd s) \<Longrightarrow>
    takeWhile ascii_digit (decimal n @ s) = decimal n \<and> dropWhile ascii_digit (decimal n @ s) = s"
  using decimal_digits [of _ n]
  by (cases s) (auto simp: takeWhile_append dropWhile_append)

definition render_range :: "nat \<Rightarrow> nat \<Rightarrow> pystr" where
  "render_range a n = decimal a @ 44 # decimal n"

lemma scan_render_range:
  "s \<noteq> [] \<Longrightarrow> \<not> ascii_digit (hd s) \<Longrightarrow>
    scan_range (render_range a n @ s) = Some (decimal a, Some (decimal n), s)"
  using scan_decimal [of "44 # decimal n @ s" a] scan_decimal [of s n]
  by (simp add: scan_range_def render_range_def Let_def ascii_digit_def)

definition render_header :: "PatchHunk \<Rightarrow> pystr" where
  "render_header h = lit ''@@ -'' @ render_range (ph_old_start h) (ph_old_count h) @ lit '' +'' @
     render_range (ph_new_start h) (ph_new_count h) @ lit '' @@''"

lemma strip_lit_append [simp]: "strip_lit p (p @ s) = Some s"
  by (simp add: strip_lit_def startswith_def)

lemma startswith_append [simp]: "startswith (p @ s) p"
  by (simp add: startswith_def)

lemma HUNK_render_header:
  "HUNK (render_header h) = Some (decimal (ph_old_start h), Some (decimal (ph_old_count h)),
     decimal (ph_new_start h), Some (decimal (ph_new_count h)))"
proof -
  have l: "lit '' +'' = 32 # [43]" "lit '' @@'' = 32 # [64, 64]" by (simp_all add: lit_def)
  have d: "\<not> ascii_digit 32" by (simp add: ascii_digit_def)
  have s1: "scan_range (render_range (ph_old_start h) (ph_old_count h) @ lit '' +'' @
      render_range (ph_new_start h) (ph_new_count h) @ lit '' @@'') =
    Some (decimal (ph_old_start h), Some (decimal (ph_old_count h)), lit '' +'' @
      render_range (ph_new_start h) (ph_new_count h) @ lit '' @@'')"
    by (rule scan_render_range) (simp_all add: l d)
  have s2: "scan_range (render_range (ph_new_start h) (ph_new_count h) @ lit '' @@'') =
    Some (decimal (ph_new_start h), Some (decimal (ph_new_count h)), lit '' @@'')"
    by (rule scan_render_range) (simp_all add: l d)
  have s3: "strip_lit (lit '' @@'') (lit '' @@'') = Some []"
    using strip_lit_append [of "lit '' @@''" "[]"] by simp
  show ?thesis unfolding HUNK_def render_header_def by (simp add: s1 s2 s3)
qed

definition render_hunk :: "PatchHunk \<Rightarrow> pystr list" where
  "render_hunk h = render_header h # ph_lines h"

definition render_path :: "string \<Rightarrow> string \<Rightarrow> pystr option \<Rightarrow> pystr" where
  "render_path mark side p =
     lit mark @ (case p of None \<Rightarrow> lit ''/dev/null'' | Some p \<Rightarrow> lit side @ p)"

definition render_file :: "FilePatch \<Rightarrow> pystr list" where
  "render_file f = render_path ''--- '' ''a/'' (fp_old_path f) #
     render_path ''+++ '' ''b/'' (fp_new_path f) # concat (map render_hunk (fp_hunks f))"

definition render_patch :: "FilePatch list \<Rightarrow> pystr" where
  "render_patch fs = text_of (concat (map render_file fs))"

text \<open>Patches of the printable kind: well formed, no marker of a missing final newline, no body
  line that reads as a file header, paths without tabs or trailing blanks.\<close>

definition printable_hunk :: "PatchHunk \<Rightarrow> bool" where
  "printable_hunk h \<longleftrightarrow> hunk_ok h \<and> \<not> ph_old_no_newline h \<and> \<not> ph_new_no_newline h \<and>
     (\<forall>l \<in> set (ph_lines h). plain_line l \<and> \<not> body_ends l) \<and>
     (\<forall>n \<in> {ph_old_start h, ph_old_count h, ph_new_start h, ph_new_count h}.
        length (decimal n) \<le> 4300)"

definition printable_path :: "pystr option \<Rightarrow> bool" where
  "printable_path p \<longleftrightarrow>
     (case p of None \<Rightarrow> True
      | Some p \<Rightarrow> p \<noteq> [] \<and> plain_line p \<and> 9 \<notin> set p \<and> \<not> py_space (last p))"

definition printable_file :: "FilePatch \<Rightarrow> bool" where
  "printable_file f \<longleftrightarrow> file_ok f \<and> (\<forall>h \<in> set (fp_hunks f). printable_hunk h) \<and>
     printable_path (fp_old_path f) \<and> printable_path (fp_new_path f)"

lemma path_render:
  assumes "printable_path p" "length mark = 4" "side = ''a/'' \<or> side = ''b/''"
  shows "path_from_header (drop 4 (render_path mark side p)) = Inr p"
proof (cases p)
  case None
  have "drop 4 (lit mark @ lit ''/dev/null'') = lit ''/dev/null''"
    using assms(2) by (simp add: lit_def)
  moreover have "py_strip (takeWhile (\<lambda>c. c \<noteq> 9) (lit ''/dev/null'')) = lit ''/dev/null''"
    by code_simp
  ultimately show ?thesis by (simp add: None render_path_def path_from_header_def)
next
  case (Some q)
  have q: "q \<noteq> []" "9 \<notin> set q" "\<not> py_space (last q)" using assms(1) Some by (auto simp: printable_path_def)
  have d: "drop 4 (render_path mark side p) = lit side @ q"
    using assms(2) by (simp add: Some render_path_def lit_def)
  have tw: "takeWhile (\<lambda>c. c \<noteq> 9) (lit side @ q) = lit side @ q"
    using q(2) assms(3) by (subst takeWhile_eq_all_conv) (auto simp: lit_def)
  obtain x where x: "lit side = [x, 47]" "x = 97 \<or> x = 98" using assms(3) by (auto simp: lit_def)
  have "\<not> py_space x" using x by (auto simp: py_space_def)
  then have st: "py_strip (lit side @ q) = lit side @ q"
    using q x by (cases q rule: rev_cases) (auto simp: py_strip_def strip_by_def)
  have "lit side @ q \<noteq> lit ''/dev/null''" using x by (auto simp: lit_def)
  moreover have "startswith (lit side @ q) (lit ''a/'') \<or> startswith (lit side @ q) (lit ''b/'')"
    using assms(3) by auto
  ultimately show ?thesis unfolding d path_from_header_def tw st
    using q(1) x by (simp add: Some)
qed

lemma parse_body_plain:
  "\<forall>l \<in> set ls. line_ok l \<and> \<not> body_ends l \<Longrightarrow> rest = [] \<or> body_ends (hd rest) \<Longrightarrow>
    parse_body b (ls @ rest) =
      Inr (b\<lparr>hb_lines := hb_lines b @ ls, hb_old := hb_old b + length (old_side ls),
            hb_new := hb_new b + length (new_side ls)\<rparr>, rest)"
proof (induction ls arbitrary: b)
  case Nil
  then show ?case by (cases rest) auto
next
  case (Cons l ls)
  then have l: "line_ok l" "\<not> body_ends l" "l \<noteq> no_newline_marker"
    by (auto simp: line_ok_def no_newline_marker_def)
  from Cons.IH Cons.prems l show ?case by (auto simp: line_ok_def)
qed

lemma make_hunk_render:
  assumes "printable_hunk h"
  shows "make_hunk (decimal (ph_old_start h), Some (decimal (ph_old_count h)),
      decimal (ph_new_start h), Some (decimal (ph_new_count h)))
    (empty_body\<lparr>hb_lines := ph_lines h, hb_old := length (old_side (ph_lines h)),
       hb_new := length (new_side (ph_lines h))\<rparr>) = Inr h"
  using assms
  by (cases h) (simp add: make_hunk_def count_digits_def py_int_digits_def printable_hunk_def hunk_ok_def
      decimal_value empty_body_def)

lemma render_header_starts:
  "startswith (render_header h) (lit ''@@ '')" "\<not> startswith (render_header h) (lit ''--- '')"
  "\<not> startswith (render_header h) (lit ''diff --git '')"
  by (simp_all add: render_header_def startswith_def lit_def)

lemma parse_hunks_render:
  "\<forall>h \<in> set hs. printable_hunk h \<Longrightarrow> rest = [] \<or> startswith (hd rest) (lit ''--- '') \<Longrightarrow>
    parse_hunks (concat (map render_hunk hs) @ rest) = Inr (hs, rest)"
proof (induction hs)
  case Nil
  then show ?case by (cases rest) auto
next
  case (Cons h hs)
  let ?more = "concat (map render_hunk hs) @ rest"
  have m: "?more = [] \<or> body_ends (hd ?more)"
    using Cons.prems(2) by (cases hs) (auto simp: render_hunk_def body_ends_def render_header_starts)
  have b: "parse_body empty_body (ph_lines h @ ?more) =
      Inr (empty_body\<lparr>hb_lines := ph_lines h, hb_old := length (old_side (ph_lines h)),
        hb_new := length (new_side (ph_lines h))\<rparr>, ?more)"
    using parse_body_plain [OF _ m, of "ph_lines h" empty_body] Cons.prems(1)
    by (auto simp: printable_hunk_def hunk_ok_def empty_body_def)
  have "make_hunk (decimal (ph_old_start h), Some (decimal (ph_old_count h)),
      decimal (ph_new_start h), Some (decimal (ph_new_count h)))
    (empty_body\<lparr>hb_lines := ph_lines h, hb_old := length (old_side (ph_lines h)),
       hb_new := length (new_side (ph_lines h))\<rparr>) = Inr h"
    using Cons.prems(1) by (intro make_hunk_render) simp
  with b Cons show ?case
    by (simp add: render_hunk_def [of h] render_header_starts HUNK_render_header)
qed


lemma render_path_starts:
  "startswith (render_path ''--- '' s p) (lit ''--- '')" "startswith (render_path ''+++ '' s p) (lit ''+++ '')"
  "\<not> startswith (render_path ''--- '' s p) (lit ''diff --git '')"
  by (simp_all add: render_path_def) (simp add: startswith_def lit_def)

lemma parse_file_render:
  assumes "printable_file f" "rest = [] \<or> startswith (hd rest) (lit ''--- '')"
  shows "parse_file (render_file f @ rest) = Inr (f, rest)"
proof -
  have o: "path_from_header (drop 4 (render_path ''--- '' ''a/'' (fp_old_path f))) = Inr (fp_old_path f)"
    and n: "path_from_header (drop 4 (render_path ''+++ '' ''b/'' (fp_new_path f))) = Inr (fp_new_path f)"
    using assms(1) by (auto simp: printable_file_def intro!: path_render)
  have h: "parse_hunks (concat (map render_hunk (fp_hunks f)) @ rest) = Inr (fp_hunks f, rest)"
    using assms by (intro parse_hunks_render) (auto simp: printable_file_def)
  show ?thesis
    using assms(1) by (simp add: parse_file_def render_file_def o n h render_path_starts
        printable_file_def file_ok_def)
qed

lemma parse_files_render:
  "\<forall>f \<in> set fs. printable_file f \<Longrightarrow> parse_files (concat (map render_file fs)) = Inr fs"
proof (induction fs)
  case (Cons f fs)
  let ?rest = "concat (map render_file fs)"
  have r: "?rest = [] \<or> startswith (hd ?rest) (lit ''--- '')"
    by (cases fs) (auto simp: render_file_def render_path_starts)
  have p: "parse_file (render_file f @ ?rest) = Inr (f, ?rest)"
    using Cons.prems r by (intro parse_file_render) auto
  obtain l ls where l: "render_file f @ ?rest = l # ls" "startswith l (lit ''--- '')"
    "\<not> startswith l (lit ''diff --git '')"
    by (auto simp: render_file_def [of f] render_path_starts)
  from p Cons l show ?case by simp
qed simp

lemma decimal_plain: "plain_line (decimal n)"
  using decimal_digits by (force simp: plain_line_def line_break_def ascii_digit_def)

lemma plain_append: "plain_line (a @ b) \<longleftrightarrow> plain_line a \<and> plain_line b"
  by (auto simp: plain_line_def)

lemma render_header_plain: "plain_line (render_header h)"
proof -
  have "plain_line (44 # s) = plain_line s" for s by (simp add: plain_line_def line_break_def)
  moreover have "plain_line (lit ''@@ -'')" "plain_line (lit '' +'')" "plain_line (lit '' @@'')"
    by (simp_all add: plain_line_def line_break_def lit_def)
  ultimately show ?thesis by (simp add: render_header_def render_range_def plain_append decimal_plain)
qed

lemma render_path_plain:
  assumes "printable_path p" "mark = ''--- '' \<or> mark = ''+++ ''" "side = ''a/'' \<or> side = ''b/''"
  shows "plain_line (render_path mark side p)"
proof -
  have "plain_line (lit ''--- '')" "plain_line (lit ''+++ '')" "plain_line (lit ''a/'')"
    "plain_line (lit ''b/'')" "plain_line (lit ''/dev/null'')"
    by (simp_all add: plain_line_def line_break_def lit_def)
  with assms show ?thesis
    by (auto simp: render_path_def plain_append printable_path_def split: option.splits)
qed

lemma render_file_plain: "printable_file f \<Longrightarrow> l \<in> set (render_file f) \<Longrightarrow> plain_line l"
  by (auto simp: render_file_def render_hunk_def printable_file_def printable_hunk_def
      render_header_plain render_path_plain)

lemma parse_render_patch:
  assumes "fs \<noteq> []" "\<forall>f \<in> set fs. printable_file f"
    and "utf8_encode (render_patch fs) = Some bs" "length bs \<le> MAX_PATCH_BYTES"
  shows "parse_unified_patch (render_patch fs) = Inr fs"
proof -
  let ?ls = "concat (map render_file fs)"
  have plain: "\<forall>l \<in> set ?ls. plain_line l"
    using assms(2) by (auto intro: render_file_plain)
  obtain f fs' where fs: "fs = f # fs'" using assms(1) by (cases fs) auto
  obtain s where "render_patch fs = 45 # s"
    by (auto simp: fs render_patch_def text_of_def render_file_def [of f] render_path_def lit_def
        join_with_Cons_head)
  then have ne: "py_strip (render_patch fs) \<noteq> []"
    by (auto simp: py_strip_def strip_by_def py_space_def dropWhile_eq_Nil_conv)
  have "splitlines (render_patch fs) = ?ls"
    using splitlines_text_of [OF plain] by (simp add: render_patch_def)
  with ne assms show ?thesis
    by (simp add: parse_unified_patch_def parse_files_render)
qed

end
