(* ===== verification/PatchProperties.thy ===== *)
theory PatchProperties imports PatchProofs begin

text \<open>
  The properties of \<^verbatim>\<open>repo.apply_patch\<close>: what application computes, taking a patch back, what the
  parser guarantees, reading back printed patches, atomicity of the whole operation, and concrete
  inputs where patch files in common use are applied wrongly or refused.
\<close>

section \<open>Application\<close>

definition demo_hunk :: PatchHunk where
  "demo_hunk = \<lparr>ph_old_start = 1, ph_old_count = 2, ph_new_start = 1, ph_new_count = 2,
     ph_lines = [lit '' a'', lit ''-b'', lit ''+c''],
     ph_old_no_newline = False, ph_new_no_newline = False\<rparr>"

text \<open>C30. On plain text and hunks without a no-newline marker, \<^verbatim>\<open>apply_hunks\<close> succeeds exactly when the
  hunks fit in order and without overlap, and returns the text with every old side replaced by the
  new side and nothing else changed; only a result that is one empty line loses its line feed.\<close>

theorem apply_hunks_exact:
  assumes "\<forall>l \<in> set src. plain_line l"
    and "\<forall>h \<in> set hs. \<not> ph_old_no_newline h \<and> \<not> ph_new_no_newline h"
  shows "apply_hunks (text_of src) hs path = Inr t \<longleftrightarrow>
    fits src 0 hs \<and> t = (if weave src 0 hs = [[]] then [] else text_of (weave src 0 hs))"
  unfolding apply_hunks_plain [OF assms] by (auto simp: bindr_Inr_iff apply_lines_iff)

theorem apply_hunks_exact_witness:
  "apply_hunks (text_of [lit ''a'', lit ''b'', lit ''z'']) [demo_hunk] [] =
     Inr (text_of [lit ''a'', lit ''c'', lit ''z''])"
proof -
  have "\<forall>l \<in> set [lit ''a'', lit ''b'', lit ''z'']. plain_line l"
    by (simp add: plain_line_def line_break_def lit_def)
  moreover have "\<forall>h \<in> set [demo_hunk]. \<not> ph_old_no_newline h \<and> \<not> ph_new_no_newline h"
    by (simp add: demo_hunk_def)
  moreover have "fits [lit ''a'', lit ''b'', lit ''z''] 0 [demo_hunk]" by code_simp
  moreover have "weave [lit ''a'', lit ''b'', lit ''z''] 0 [demo_hunk] =
      [lit ''a'', lit ''c'', lit ''z'']" by code_simp
  ultimately show ?thesis by (subst apply_hunks_exact) simp_all
qed

lemma weave_plain:
  "\<forall>l \<in> set src. plain_line l \<Longrightarrow> \<forall>h \<in> set hs. \<forall>l \<in> set (ph_lines h). plain_line l \<and> l \<noteq> [] \<Longrightarrow>
    \<forall>l \<in> set (weave src c hs). plain_line l"
proof (induction hs arbitrary: c)
  case Nil
  then show ?case by (auto dest: in_set_dropD)
next
  case (Cons h hs)
  have "plain_line (tl l)" if "plain_line l" for l
    using that by (cases l) (auto simp: plain_line_def)
  with Cons show ?case
    by (auto simp: Let_def new_side_def dest!: in_set_takeD in_set_dropD)
qed

lemma invert_no_marker:
  "\<forall>h \<in> set hs. \<not> ph_old_no_newline h \<and> \<not> ph_new_no_newline h \<Longrightarrow>
    \<forall>h \<in> set (invert_hunks c d hs). \<not> ph_old_no_newline h \<and> \<not> ph_new_no_newline h"
  by (induction hs arbitrary: c d) (auto simp: Let_def)

text \<open>C31. 
  A patch can be taken back. For a text of plain lines (no separator inside a line, each ended by a line
  feed) other than a single empty line, and well-formed hunks of plain lines without markers of a missing
  final newline: when they apply and their result is not a single empty line either, then applying their
  inverse (sides swapped, positions in the result) to the result gives the first text again.
\<close>

theorem patch_can_be_taken_back:
  assumes "\<forall>l \<in> set src. plain_line l" and "src \<noteq> [[]]"
    and "\<forall>h \<in> set hs. hunk_ok h \<and> (\<forall>l \<in> set (ph_lines h). plain_line l)"
    and "\<forall>h \<in> set hs. \<not> ph_old_no_newline h \<and> \<not> ph_new_no_newline h"
    and "apply_hunks (text_of src) hs path = Inr t" and "weave src 0 hs \<noteq> [[]]"
  shows "apply_hunks t (invert_hunks 0 0 hs) path = Inr (text_of src)"
proof -
  have fit: "fits src 0 hs" and t: "t = text_of (weave src 0 hs)"
    using assms(5,6) unfolding apply_hunks_plain [OF assms(1,4)]
    by (auto simp: bindr_Inr_iff apply_lines_iff)
  have "\<forall>h \<in> set hs. \<forall>l \<in> set (ph_lines h). plain_line l \<and> l \<noteq> []"
    using assms(3) by (auto simp: hunk_ok_def line_ok_def)
  note pl = weave_plain [OF assms(1) this, of 0]
  have "fits (weave src 0 hs) 0 (invert_hunks 0 0 hs) \<and>
      weave (weave src 0 hs) 0 (invert_hunks 0 0 hs) = src"
    using invert_applies [of 0 src hs "[]" 0] fit assms(3) by simp
  then show ?thesis
    unfolding t apply_hunks_plain [OF pl invert_no_marker [OF assms(4)]]
    using assms(2) by (simp add: bindr_Inr_iff apply_lines_iff)
qed

theorem patch_can_be_taken_back_witness:
  "apply_hunks (text_of [lit ''a'', lit ''c'', lit ''z'']) (invert_hunks 0 0 [demo_hunk]) [] =
     Inr (text_of [lit ''a'', lit ''b'', lit ''z''])"
proof (rule patch_can_be_taken_back)
  show "apply_hunks (text_of [lit ''a'', lit ''b'', lit ''z'']) [demo_hunk] [] =
      Inr (text_of [lit ''a'', lit ''c'', lit ''z''])" by code_simp
  show "\<forall>h \<in> set [demo_hunk]. hunk_ok h \<and> (\<forall>l \<in> set (ph_lines h). plain_line l)"
    by (simp add: demo_hunk_def hunk_ok_def line_ok_def plain_line_def line_break_def lit_def)
  show "weave [lit ''a'', lit ''b'', lit ''z''] 0 [demo_hunk] \<noteq> [[]]" by code_simp
qed (simp_all add: demo_hunk_def plain_line_def line_break_def lit_def)

section \<open>Parsing\<close>

text \<open>C34. Whatever the text, a patch the parser accepts has at least one file; every file has hunks
  and a path on at least one side, no path is empty, and every hunk has as many lines on each side
  as its header declares, each line a context, an added or a deleted one.\<close>

theorem parsed_patches_are_well_formed:
  assumes "parse_unified_patch text = Inr fs"
  shows "fs \<noteq> [] \<and> (\<forall>f \<in> set fs. file_ok f)"
  using assms by (rule parse_patch_ok)

definition demo_patch :: pystr where
  "demo_patch = text_of [lit ''--- a/f'', lit ''+++ b/f'', lit ''@@ -1,2 +1,2 @@'', lit '' a'', lit ''-b'', lit ''+c'']"

theorem parsed_patches_are_well_formed_witness:
  "file_ok \<lparr>fp_old_path = Some (lit ''f''), fp_new_path = Some (lit ''f''), fp_hunks = [demo_hunk]\<rparr>"
proof -
  have "parse_unified_patch demo_patch =
      Inr [\<lparr>fp_old_path = Some (lit ''f''), fp_new_path = Some (lit ''f''), fp_hunks = [demo_hunk]\<rparr>]"
    by code_simp
  from parsed_patches_are_well_formed [OF this] show ?thesis by simp
qed

text \<open>C35. 
  Reading back what is printed: the parser returns exactly the files of a printable patch written out in the
  usual form, up to the size limit. Printable means well formed, with paths the parser accepts, no marker of a
  missing final newline and no line of a hunk that itself reads as the start of a hunk or of a file.
\<close>

theorem printed_patch_parses_back:
  assumes "fs \<noteq> []" and "\<forall>f \<in> set fs. printable_file f"
    and "utf8_encode (render_patch fs) = Some bs" and "length bs \<le> MAX_PATCH_BYTES"
  shows "parse_unified_patch (render_patch fs) = Inr fs"
  using assms by (rule parse_render_patch)

theorem printed_patch_parses_back_witness:
  "\<exists>fs. fs \<noteq> [] \<and> parse_unified_patch (render_patch fs) = Inr fs"
proof -
  let ?fs = "[\<lparr>fp_old_path = Some (lit ''f''), fp_new_path = None, fp_hunks = [demo_hunk]\<rparr>]"
  have "\<forall>f \<in> set ?fs. printable_file f"
    by (simp add: printable_file_def file_ok_def printable_hunk_def demo_hunk_def hunk_ok_def
        line_ok_def plain_line_def line_break_def lit_def body_ends_def startswith_def
        decimal.simps printable_path_def py_space_def)
  moreover have "utf8_encode (render_patch ?fs) = Some (render_patch ?fs)" by code_simp
  moreover have "length (render_patch ?fs) < 100" by code_simp
  then have "length (render_patch ?fs) \<le> MAX_PATCH_BYTES" by (simp add: MAX_PATCH_BYTES_def)
  ultimately have "parse_unified_patch (render_patch ?fs) = Inr ?fs"
    by (intro printed_patch_parses_back) simp_all
  then show ?thesis by blast
qed

section \<open>The whole operation\<close>

lemma tx_step_Inr: "tx_step f s = Inr s' \<Longrightarrow> f (ps_tx s) = Inr (ps_tx s')"
  by (auto simp: tx_step_def split: sum.splits)

lemma tx_query_Inr: "tx_query f s = Inr (x, s') \<Longrightarrow> f (ps_tx s) = Inr (x, ps_tx s')"
  by (auto simp: tx_query_def split: sum.splits)

lemma first_expected_tx: "first_expected ex p s = (e, s') \<Longrightarrow> ps_tx s' = ps_tx s"
  by (auto simp: first_expected_def split: if_splits)

lemma original_text_staged:
  "staged rt (ps_tx s) \<Longrightarrow> original_text rt F fp s = Inr (x, s') \<Longrightarrow> staged rt (ps_tx s')"
  by (auto simp: original_text_def bindr_Inr_iff dest!: tx_query_Inr
      intro: staged_read staged_probe split: option.splits if_splits)

lemma stage_patch_staged:
  assumes "staged rt (ps_tx s)" "stage_patch rt F allow ex fp s = Inr s'"
  shows "staged rt (ps_tx s')"
proof -
  from assms(2) obtain src original s1 updated where o: "original_text rt F fp s = Inr (original, s1)"
    and k: "(case fp_new_path fp of
              None \<Rightarrow>
                (case first_expected ex src s1 of (e, s2) \<Rightarrow>
                   tx_step (stage_delete rt F src e False) s2)
            | Some d \<Rightarrow>
                if fp_old_path fp \<noteq> None \<and> d \<noteq> src then
                  bindr (tx_query (tx_exists rt F d) s1) (\<lambda>(b, s2).
                    if b then Inl (RenameExists d)
                    else case first_expected ex d s2 of (de, s3) \<Rightarrow>
                      if de \<noteq> None then Inl (ExpectedNamesNew d)
                      else case first_expected ex src s3 of (e, s4) \<Rightarrow>
                        bindr (tx_step (stage_move rt F src d e False) s4)
                          (\<lambda>s5. if updated \<noteq> original
                                then tx_step (stage_write rt F d updated None allow) s5
                                else Inr s5))
                else
                  (case first_expected ex d s1 of (e, s2) \<Rightarrow>
                     tx_step (stage_write rt F d updated e allow) s2)) = Inr s'"
    unfolding stage_patch_def
    by (simp only: bindr_Inr_iff split: option.split_asm [where option = "if A then B else C" for A B C])
      (auto simp: bindr_Inr_iff)
  have s1: "staged rt (ps_tx s1)" by (rule original_text_staged [OF assms(1) o])
  show ?thesis
  proof (cases "fp_new_path fp")
    case None
    obtain e s2 where fe: "first_expected ex src s1 = (e, s2)" by (cases "first_expected ex src s1")
    with k None have "stage_delete rt F src e False (ps_tx s1) = Inr (ps_tx s')"
      by (auto dest!: tx_step_Inr simp: first_expected_tx [OF fe])
    with s1 show ?thesis by (rule staged_delete)
  next
    case (Some d)
    show ?thesis
    proof (cases "fp_old_path fp \<noteq> None \<and> d \<noteq> src")
      case False
      obtain e s2 where fe: "first_expected ex d s1 = (e, s2)" by (cases "first_expected ex d s1")
      with k Some False have "stage_write rt F d updated e allow (ps_tx s1) = Inr (ps_tx s')"
        by (auto dest!: tx_step_Inr simp: first_expected_tx [OF fe])
      with s1 show ?thesis by (rule staged_write)
    next
      case True
      with k Some obtain b s2 where q: "tx_query (tx_exists rt F d) s1 = Inr (b, s2)"
        and k2: "(if b then Inl (RenameExists d)
                    else case first_expected ex d s2 of (de, s3) \<Rightarrow>
                      if de \<noteq> None then Inl (ExpectedNamesNew d)
                      else case first_expected ex src s3 of (e, s4) \<Rightarrow>
                        bindr (tx_step (stage_move rt F src d e False) s4)
                          (\<lambda>s5. if updated \<noteq> original
                                then tx_step (stage_write rt F d updated None allow) s5
                                else Inr s5)) = Inr s'"
        by (auto simp: bindr_Inr_iff)
      obtain de s3 where f1: "first_expected ex d s2 = (de, s3)" by (cases "first_expected ex d s2")
      obtain e s4 where f2: "first_expected ex src s3 = (e, s4)" by (cases "first_expected ex src s3")
      from k2 f1 f2 obtain s5 where m: "tx_step (stage_move rt F src d e False) s4 = Inr s5"
        and w: "(if updated \<noteq> original then tx_step (stage_write rt F d updated None allow) s5
                 else Inr s5) = Inr s'"
        by (auto simp: bindr_Inr_iff split: if_split_asm)
      have s4: "staged rt (ps_tx s4)"
        using staged_probe [OF s1 tx_query_Inr [OF q]]
        by (simp add: first_expected_tx [OF f1] first_expected_tx [OF f2])
      have "staged rt (ps_tx s5)" by (rule staged_move [OF s4 tx_step_Inr [OF m]])
      with w show ?thesis by (auto dest!: tx_step_Inr intro: staged_write split: if_splits)
    qed
  qed
qed

lemma stage_patches_staged:
  "staged rt (ps_tx s) \<Longrightarrow> stage_patches rt F allow ex fps s = Inr s' \<Longrightarrow> staged rt (ps_tx s')"
  by (induction fps arbitrary: s) (auto simp: bindr_Inr_iff dest: stage_patch_staged)

lemma prepare_staged: "prepare_patch rt F payload = Inr (dry, T) \<Longrightarrow> staged rt T"
proof -
  assume "prepare_patch rt F payload = Inr (dry, T)"
  then obtain allow ex fs s where
    "stage_patches rt F allow ex fs \<lparr>ps_tx = new_tx, ps_checked = []\<rparr> = Inr s" "T = ps_tx s"
    by (auto simp: prepare_patch_def bindr_Inr_iff Let_def
        split: option.split_asm pyval.split_asm if_split_asm)
  then show ?thesis
    using stage_patches_staged [of rt "\<lparr>ps_tx = new_tx, ps_checked = []\<rparr>"] by (simp add: staged_new)
qed

text \<open>An \<^verbatim>\<open>apply_patch\<close> that fails, at any file, hunk or disk access, has left every path as it
  was, or reports an incomplete rollback, or met a disk fault when it read the fully applied patch back; a
  dry run never changes the disk.\<close>

theorem failed_apply_patch_leaves_disk:
  assumes "fs_wf F" and "execute_apply_patch rt payload F faults = (r, F')"
    and "case r of Inl e \<Rightarrow> \<forall>ps. e \<noteq> TxFailed (RollbackIncomplete ps) | Inr (Previewed n cs) \<Rightarrow> True
         | Inr (Applied c) \<Rightarrow> False"
  shows "fs_get F' = fs_get F \<or> r = Inl (TxFailed OsError) \<and>
    (\<exists>T s. prepare_patch rt F payload = Inr (False, T) \<and> all_applied rt T F faults s \<and> F' = cs_fs s)"
proof (cases "prepare_patch rt F payload")
  case (Inl e)
  with assms(2) show ?thesis by (auto simp: execute_apply_patch_def)
next
  case (Inr x)
  obtain dry T where x: "x = (dry, T)" by (cases x)
  have st: "staged rt T" using Inr x prepare_staged by simp
  obtain cr s where c: "commit rt T F faults = (cr, s)" by (cases "commit rt T F faults")
  from assms(2) Inr x c show ?thesis
    using commit_error [OF st assms(1), of faults _ s] assms(3)
    by (cases cr) (auto simp: execute_apply_patch_def split: if_splits prod.splits)
qed

definition demo_payload :: "(pystr, pyval) dict" where
  "demo_payload = [(lit ''patch'', PStr demo_patch)]"

theorem failed_apply_patch_leaves_disk_witness:
  "fs_get (snd (execute_apply_patch demo_runtime demo_payload
      [([lit ''f''], NFile (lit ''other'') 420)] [])) = fs_get [([lit ''f''], NFile (lit ''other'') 420)]"
proof -
  let ?F = "[([lit ''f''], NFile (lit ''other'') 420)]"
  have "fs_wf ?F" by (simp add: fs_wf_def fs_is_dir_def)
  moreover have "execute_apply_patch demo_runtime demo_payload ?F [] =
      (Inl (PatchConflict (lit ''f'') 1), snd (execute_apply_patch demo_runtime demo_payload ?F []))"
    by code_simp
  ultimately show ?thesis using failed_apply_patch_leaves_disk by fastforce
qed

section \<open>Inputs that are handled wrongly\<close>

text \<open>A hunk with no context inserts after its source line in the unified format; here it lands one
  line too early.\<close>

lemma zero_context_insertion_lands_too_early:
  "bindr (parse_unified_patch (text_of
      [lit ''--- a/f'', lit ''+++ b/f'', lit ''@@ -1,0 +2 @@'', lit ''+new'']))
     (\<lambda>fs. apply_hunks (text_of [lit ''one'', lit ''two'']) (fp_hunks (hd fs)) (lit ''f''))
   = Inr (text_of [lit ''new'', lit ''one'', lit ''two''])"
  by code_simp

text \<open>A deleted line that starts with two dashes and a blank (an SQL or Lua comment) reads as a file
  header, so a correct patch is refused.\<close>

lemma deleting_a_dash_comment_is_refused:
  "parse_unified_patch (text_of
      [lit ''--- a/f'', lit ''+++ b/f'', lit ''@@ -1,2 +1 @@'', lit ''--- note'', lit '' two''])
   = Inl (CountMismatch 2 1 0 0)"
  by code_simp

text \<open>Creating a file whose only line is empty creates an empty file.\<close>

lemma blank_line_file_becomes_empty:
  "bindr (parse_unified_patch (text_of
      [lit ''--- /dev/null'', lit ''+++ b/f'', lit ''@@ -0,0 +1 @@'', lit ''+'']))
     (\<lambda>fs. apply_hunks [] (fp_hunks (hd fs)) (lit ''f'')) = Inr []"
  by code_simp

text \<open>A form feed inside a line that the patch does not touch is turned into a line feed.\<close>

lemma form_feed_is_rewritten:
  "bindr (parse_unified_patch (text_of
      [lit ''--- a/f'', lit ''+++ b/f'', lit ''@@ -1 +1 @@'', lit ''-x'', lit ''+y'']))
     (\<lambda>fs. apply_hunks (text_of [lit ''x'', 97 # 12 # [98]]) (fp_hunks (hd fs)) (lit ''f''))
   = Inr (text_of [lit ''y'', lit ''a'', lit ''b''])"
  by code_simp

end
