(* ===== verification/PyConvert.thy ===== *)
theory PyConvert imports KaroxPrelude begin

text \<open>
  The conversions \<^verbatim>\<open>str()\<close>, \<^verbatim>\<open>int()\<close> and \<^verbatim>\<open>float()\<close> on dynamic values. They are written out for the
  values of the wanted type (and the numeric ones); what they do on other values (the text of a
  container, a number parsed from a string) is taken from the argument \<open>conv\<close>, \<open>None\<close> being a raised
  \<^verbatim>\<open>TypeError\<close> or \<^verbatim>\<open>ValueError\<close>.
\<close>

record pyconv =
  cv_str :: "pyval \<Rightarrow> pystr"
  cv_int :: "pyval \<Rightarrow> int option"
  cv_float :: "pyval \<Rightarrow> real option"

definition to_str :: "pyconv \<Rightarrow> pyval \<Rightarrow> pystr" where
  "to_str cv v = (case v of PStr s \<Rightarrow> s | PNone \<Rightarrow> lit ''None'' | PObj s \<Rightarrow> s | _ \<Rightarrow> cv_str cv v)"

definition to_int :: "pyconv \<Rightarrow> pyval \<Rightarrow> int option" where
  "to_int cv v =
     (case v of PInt i \<Rightarrow> Some i | PBool b \<Rightarrow> Some (of_bool b)
      | PFloat r \<Rightarrow> Some (if r < 0 then \<lceil>r\<rceil> else \<lfloor>r\<rfloor>) | PNone \<Rightarrow> None | _ \<Rightarrow> cv_int cv v)"

definition to_float :: "pyconv \<Rightarrow> pyval \<Rightarrow> real option" where
  "to_float cv v =
     (case v of PInt i \<Rightarrow> Some (of_int i) | PBool b \<Rightarrow> Some (of_bool b) | PFloat r \<Rightarrow> Some r
      | PNone \<Rightarrow> None | _ \<Rightarrow> cv_float cv v)"

lemma conv_simps [simp]:
  "to_str cv (PStr s) = s" "to_int cv (PInt i) = Some i" "to_float cv (PFloat r) = Some r"
  "to_float cv (PInt i) = Some (of_int i)"
  by (simp_all add: to_str_def to_int_def to_float_def)

text \<open>\<^verbatim>\<open>payload.get(key)\<close>: a missing key reads as \<^verbatim>\<open>None\<close>.\<close>

definition pget :: "(pystr, pyval) dict \<Rightarrow> string \<Rightarrow> pyval" where
  "pget d k = (case map_of d (lit k) of Some v \<Rightarrow> v | None \<Rightarrow> PNone)"

text \<open>\<^verbatim>\<open>payload.get(key, default)\<close>\<close>

definition pget_or :: "(pystr, pyval) dict \<Rightarrow> string \<Rightarrow> pyval \<Rightarrow> pyval" where
  "pget_or d k v = (case map_of d (lit k) of Some w \<Rightarrow> w | None \<Rightarrow> v)"

text \<open>A conversion that may raise, with the error the caller sees.\<close>

definition need :: "'e \<Rightarrow> 'a option \<Rightarrow> 'e + 'a" where
  "need e x = (case x of None \<Rightarrow> Inl e | Some v \<Rightarrow> Inr v)"

lemma need_Inr [simp]: "need e x = Inr v \<longleftrightarrow> x = Some v"
  by (auto simp: need_def split: option.splits)

lemma need_Some [simp]: "need e (Some v) = Inr v"
  by (simp add: need_def)

section \<open>Checked accessors\<close>

definition opt_text :: "pystr option \<Rightarrow> pyval" where
  "opt_text s = (case s of None \<Rightarrow> PNone | Some t \<Rightarrow> PStr t)"

text \<open>\<^verbatim>\<open>tuple(value or ())\<close>: a text iterates over its characters, a mapping over its keys.\<close>

definition tuple_of :: "pyval \<Rightarrow> pyval list option" where
  "tuple_of v =
     (if \<not> truthy v then Some []
      else case v of
        PSeq xs \<Rightarrow> Some xs
      | PStr s \<Rightarrow> Some (map (\<lambda>c. PStr [c]) s)
      | PMap m \<Rightarrow> Some (map (PStr \<circ> fst) m)
      | _ \<Rightarrow> None)"

text \<open>Iterating over a value, \<^verbatim>\<open>None\<close> when that raises \<^verbatim>\<open>TypeError\<close>.\<close>

fun iter_of :: "pyval \<Rightarrow> pyval list option" where
  "iter_of (PSeq xs) = Some xs"
| "iter_of (PStr s) = Some (map (\<lambda>c. PStr [c]) s)"
| "iter_of (PMap m) = Some (map (PStr \<circ> fst) m)"
| "iter_of _ = None"

fun as_mapping :: "pyval \<Rightarrow> (pystr, pyval) dict option" where
  "as_mapping (PMap m) = Some m"
| "as_mapping _ = None"

text \<open>\<^verbatim>\<open>[item for item in value if isinstance(item, Mapping)]\<close>\<close>

definition mappings_in :: "pyval \<Rightarrow> (pystr, pyval) dict list option" where
  "mappings_in v = map_option (\<lambda>xs. map the (filter (\<lambda>x. x \<noteq> None) (map as_mapping xs))) (iter_of v)"

fun as_str :: "pyval \<Rightarrow> pystr option" where
  "as_str (PStr s) = Some s"
| "as_str _ = None"

fun as_bool :: "pyval \<Rightarrow> bool option" where
  "as_bool (PBool b) = Some b"
| "as_bool _ = None"

text \<open>An integer that is no \<^verbatim>\<open>bool\<close>.\<close>

fun as_int :: "pyval \<Rightarrow> int option" where
  "as_int (PInt i) = Some i"
| "as_int _ = None"

fun as_opt_str :: "pyval \<Rightarrow> pystr option option" where
  "as_opt_str PNone = Some None"
| "as_opt_str (PStr s) = Some (Some s)"
| "as_opt_str _ = None"

fun all_some :: "'a option list \<Rightarrow> 'a list option" where
  "all_some [] = Some []"
| "all_some (None # xs) = None"
| "all_some (Some x # xs) = map_option (\<lambda>ys. x # ys) (all_some xs)"

definition as_strings :: "pyval \<Rightarrow> pystr list option" where
  "as_strings v = Option.bind (tuple_of v) (\<lambda>vs. all_some (map as_str vs))"

text \<open>A number that is no \<^verbatim>\<open>bool\<close>; numbers are written back as floats.\<close>

fun as_number :: "pyval \<Rightarrow> real option" where
  "as_number (PInt i) = Some (of_int i)"
| "as_number (PFloat r) = Some r"
| "as_number _ = None"

fun as_opt_number :: "pyval \<Rightarrow> real option option" where
  "as_opt_number PNone = Some None"
| "as_opt_number v = map_option Some (as_number v)"

lemma as_opt_number_pv [simp]: "as_opt_number (pv_opt_float x) = Some x"
  by (cases x) simp_all

lemma all_some_strings [simp]: "all_some (map as_str (map PStr xs)) = Some xs"
  by (induction xs) simp_all

lemma as_strings_tags [simp]: "as_strings (PSeq (map PStr xs)) = Some xs"
  using all_some_strings [of xs] by (cases xs) (simp_all add: as_strings_def tuple_of_def)

lemma as_opt_text [simp]: "as_opt_str (opt_text s) = Some s"
  by (cases s) (simp_all add: opt_text_def)

lemma mappings_in_maps [simp]: "mappings_in (PSeq (map (\<lambda>x. PMap (g x)) xs)) = Some (map g xs)"
  by (induction xs) (simp_all add: mappings_in_def)

lemma all_some_map: "\<forall>x \<in> set xs. g x = Some (h x) \<Longrightarrow> all_some (map g xs) = Some (map h xs)"
  by (induction xs) simp_all

lemma all_some_length: "all_some xs = Some ys \<Longrightarrow> length ys = length xs"
  by (induction xs arbitrary: ys rule: all_some.induct) auto

lemma all_some_set: "all_some xs = Some ys \<Longrightarrow> set xs = Some ` set ys"
  by (induction xs arbitrary: ys rule: all_some.induct) auto

text \<open>A conversion that raises on every value it is asked about, for examples.\<close>

definition plain_conv :: pyconv where
  "plain_conv = \<lparr>cv_str = (\<lambda>v. []), cv_int = (\<lambda>v. None), cv_float = (\<lambda>v. None)\<rparr>"

end
