(* ===== verification/LeaseInterface.thy ===== *)
theory LeaseInterface imports KaroxPrelude begin

text \<open>
  The contract of exclusive leases: at any time at most one holder, who keeps the resource through
  every operation that is not one of those entitled to end the holding, and whom nobody else can
  displace meanwhile. \<open>step\<close> is one operation with its result state, \<open>holder\<close> reads the holder off
  the state, \<open>ends\<close> says which operations may end a given holding.
\<close>

locale exclusive_lease =
  fixes step :: "'op \<Rightarrow> 's \<Rightarrow> 's"
    and holder :: "'s \<Rightarrow> 'h option"
    and ends :: "'op \<Rightarrow> 's \<Rightarrow> 'h \<Rightarrow> bool"
  assumes keeps: "holder s = Some h \<Longrightarrow> \<not> ends op s h \<Longrightarrow> holder (step op s) = Some h"
begin

fun run :: "'op list \<Rightarrow> 's \<Rightarrow> 's" where
  "run [] s = s"
| "run (op # ops) s = run ops (step op s)"

fun never_ends :: "'op list \<Rightarrow> 's \<Rightarrow> 'h \<Rightarrow> bool" where
  "never_ends [] s h \<longleftrightarrow> True"
| "never_ends (op # ops) s h \<longleftrightarrow> \<not> ends op s h \<and> never_ends ops (step op s) h"

lemma run_append: "run (a @ b) s = run b (run a s)"
  by (induction a arbitrary: s) auto

lemma run_fold: "run ops s = fold step ops s"
  by (induction ops arbitrary: s) auto

lemma never_ends_append: "never_ends (a @ b) s h \<longleftrightarrow> never_ends a s h \<and> never_ends b (run a s) h"
  by (induction a arbitrary: s) auto

lemma holder_kept: "holder s = Some h \<Longrightarrow> never_ends ops s h \<Longrightarrow> holder (run ops s) = Some h"
  by (induction ops arbitrary: s) (auto intro: keeps)

lemma no_second_holder:
  "holder s = Some h \<Longrightarrow> never_ends ops s h \<Longrightarrow> holder (run ops s) = Some h' \<Longrightarrow> h' = h"
  by (simp add: holder_kept)

text \<open>A change of holder is always preceded by an operation entitled to end the old holding.\<close>

lemma change_has_a_cause:
  assumes "holder s = Some h" "holder (run ops s) \<noteq> Some h"
  shows "\<exists>pre op post. ops = pre @ op # post \<and> holder (run pre s) = Some h \<and> ends op (run pre s) h"
  using assms
proof (induction ops arbitrary: s)
  case (Cons op ops)
  show ?case
  proof (cases "ends op s h")
    case True
    with Cons.prems(1) show ?thesis by (intro exI [of _ "[]"]) simp
  next
    case False
    from keeps [OF Cons.prems(1) False] Cons.prems(2) Cons.IH [of "step op s"]
    obtain pre op' post where "ops = pre @ op' # post" "holder (run pre (step op s)) = Some h"
      "ends op' (run pre (step op s)) h" by auto
    then show ?thesis by (intro exI [of _ "op # pre"]) simp
  qed
qed simp

end

end
