(* ===== verification/RepositoryLease.thy ===== *)
theory RepositoryLease imports PyConvert PyText LeaseInterface begin

text \<open>
  The repository mutation leases of \<^verbatim>\<open>src/karox/repository_lease.py\<close>: process identity, the lease
  record and its JSON form, and the store with its operations. Each operation runs under the
  exclusive file lock of its repository, so it is one step here. What the operating system answers
  (process probes, the clock, path resolution, the UUID) is the record \<open>os_env\<close>, which may be
  different at every step.
\<close>

section \<open>Process identity\<close>

datatype kill_result = Delivered | NoSuchProcess | NotPermitted | OtherOsError

text \<open>A Windows process query: no handle, with the error code, or a handle whose exit code may not
  be readable.\<close>

datatype win_process = NoHandle nat | Handle "nat option"

record os_env =
  oe_windows :: bool
  oe_kill :: "int \<Rightarrow> kill_result"
  oe_win_process :: "int \<Rightarrow> win_process"
  oe_win_creation :: "int \<Rightarrow> pystr option"
  oe_proc_stat :: "int \<Rightarrow> pystr option"
  oe_getpid :: int
  oe_time :: real
  oe_uuid :: pystr
  oe_resolve :: "pystr \<Rightarrow> pystr option"
  oe_normcase :: "pystr \<Rightarrow> pystr"
  oe_sha :: "pystr \<Rightarrow> pystr"
  oe_denied :: "pystr \<Rightarrow> bool list"
  oe_conv :: pyconv

definition windows_process_alive :: "os_env \<Rightarrow> int \<Rightarrow> bool" where
  "windows_process_alive env pid =
     (if \<not> oe_windows env \<or> pid \<le> 0 then False
      else case oe_win_process env pid of
        NoHandle e \<Rightarrow> e = 5
      | Handle None \<Rightarrow> True
      | Handle (Some c) \<Rightarrow> c = 259)"

definition process_alive :: "os_env \<Rightarrow> int \<Rightarrow> bool" where
  "process_alive env pid =
     (if pid \<le> 0 then False
      else if oe_windows env then windows_process_alive env pid
      else case oe_kill env pid of
        NoSuchProcess \<Rightarrow> False | NotPermitted \<Rightarrow> True | OtherOsError \<Rightarrow> False | Delivered \<Rightarrow> True)"

definition posix_creation_marker :: "os_env \<Rightarrow> int \<Rightarrow> pystr option" where
  "posix_creation_marker env pid =
     (case oe_proc_stat env pid of
        None \<Rightarrow> None
      | Some raw \<Rightarrow>
          if 41 \<notin> set raw then None
          else
            let after_paren = rev (takeWhile (\<lambda>c. c \<noteq> 41) (rev raw));
                fields = split_ws [] (drop 1 after_paren)
            in if length fields > 19 then Some (fields ! 19) else None)"

definition process_creation_marker :: "os_env \<Rightarrow> int \<Rightarrow> pystr option" where
  "process_creation_marker env pid =
     (if oe_windows env then oe_win_creation env pid else posix_creation_marker env pid)"

section \<open>The lease\<close>

definition LEASE_SCHEMA_VERSION :: int where
  "LEASE_SCHEMA_VERSION = 1"

definition DEFAULT_REPOSITORY_LEASE_TTL_SECONDS :: real where
  "DEFAULT_REPOSITORY_LEASE_TTL_SECONDS = 90"

record RepositoryLease =
  rl_lease_id :: pystr
  rl_repository_identity :: pystr
  rl_repository :: pystr
  rl_session_id :: pystr
  rl_task_id :: pystr
  rl_connection_id :: pystr
  rl_owner_pid :: int
  rl_owner_creation_marker :: "pystr option"
  rl_created_at :: real
  rl_heartbeat_at :: real
  rl_expires_at :: real
  rl_current_operation :: pystr
  rl_schema_version :: int

datatype lease_error =
    LeaseUnreadable
  | LeaseMalformed
  | LeaseSchema
  | OwnershipLost
  | BoundElsewhere
  | OwnerDead
  | ForeignRelease
  | LeaseConflict "(pystr, pyval) dict"
  | TtlOutOfRange
  | PathUnresolved
  | PyKeyError pystr
  | PyConversion
  | PyUnicodeError

definition opt_str :: "pystr option \<Rightarrow> pyval" where
  "opt_str m = (case m of None \<Rightarrow> PNone | Some s \<Rightarrow> PStr s)"

definition lease_to_dict :: "RepositoryLease \<Rightarrow> (pystr, pyval) dict" where
  "lease_to_dict l =
     [(lit ''lease_id'', PStr (rl_lease_id l)),
      (lit ''repository_identity'', PStr (rl_repository_identity l)),
      (lit ''repository'', PStr (rl_repository l)),
      (lit ''session_id'', PStr (rl_session_id l)),
      (lit ''task_id'', PStr (rl_task_id l)),
      (lit ''connection_id'', PStr (rl_connection_id l)),
      (lit ''owner_pid'', PInt (rl_owner_pid l)),
      (lit ''owner_creation_marker'', opt_str (rl_owner_creation_marker l)),
      (lit ''created_at'', PFloat (rl_created_at l)),
      (lit ''heartbeat_at'', PFloat (rl_heartbeat_at l)),
      (lit ''expires_at'', PFloat (rl_expires_at l)),
      (lit ''current_operation'', PStr (rl_current_operation l)),
      (lit ''schema_version'', PInt (rl_schema_version l))]"

text \<open>\<^verbatim>\<open>payload[key]\<close> raises \<^verbatim>\<open>KeyError\<close>; a failed conversion raises \<^verbatim>\<open>TypeError\<close> or \<^verbatim>\<open>ValueError\<close>.
  Neither is a \<^verbatim>\<open>RepositoryLeaseError\<close>.\<close>

definition item :: "(pystr, pyval) dict \<Rightarrow> string \<Rightarrow> lease_error + pyval" where
  "item d k = (case map_of d (lit k) of None \<Rightarrow> Inl (PyKeyError (lit k)) | Some v \<Rightarrow> Inr v)"

definition item_str :: "pyconv \<Rightarrow> (pystr, pyval) dict \<Rightarrow> string \<Rightarrow> lease_error + pystr" where
  "item_str cv d k = bindr (item d k) (\<lambda>v. Inr (to_str cv v))"

definition item_int :: "pyconv \<Rightarrow> (pystr, pyval) dict \<Rightarrow> string \<Rightarrow> lease_error + int" where
  "item_int cv d k = bindr (item d k) (\<lambda>v. need PyConversion (to_int cv v))"

definition item_float :: "pyconv \<Rightarrow> (pystr, pyval) dict \<Rightarrow> string \<Rightarrow> lease_error + real" where
  "item_float cv d k = bindr (item d k) (\<lambda>v. need PyConversion (to_float cv v))"

definition lease_from_dict :: "pyconv \<Rightarrow> (pystr, pyval) dict \<Rightarrow> lease_error + RepositoryLease" where
  "lease_from_dict cv d =
     bindr (case map_of d (lit ''schema_version'') of
              None \<Rightarrow> Inr 0 | Some v \<Rightarrow> need PyConversion (to_int cv v)) (\<lambda>version.
     if version \<noteq> LEASE_SCHEMA_VERSION then Inl LeaseSchema
     else
       bindr (item_str cv d ''lease_id'') (\<lambda>lease_id.
       bindr (item_str cv d ''repository_identity'') (\<lambda>identity.
       bindr (item_str cv d ''repository'') (\<lambda>repository.
       bindr (item_str cv d ''session_id'') (\<lambda>session_id.
       bindr (item_str cv d ''task_id'') (\<lambda>task_id.
       bindr (item_str cv d ''connection_id'') (\<lambda>connection_id.
       bindr (item_int cv d ''owner_pid'') (\<lambda>pid.
       bindr (if pget d ''owner_creation_marker'' \<noteq> PNone
              then Inr (Some (to_str cv (pget d ''owner_creation_marker''))) else Inr None) (\<lambda>marker.
       bindr (item_float cv d ''created_at'') (\<lambda>created.
       bindr (item_float cv d ''heartbeat_at'') (\<lambda>heartbeat.
       bindr (item_float cv d ''expires_at'') (\<lambda>expires.
         Inr \<lparr>rl_lease_id = lease_id, rl_repository_identity = identity,
              rl_repository = repository, rl_session_id = session_id, rl_task_id = task_id,
              rl_connection_id = connection_id, rl_owner_pid = pid,
              rl_owner_creation_marker = marker, rl_created_at = created,
              rl_heartbeat_at = heartbeat, rl_expires_at = expires,
              rl_current_operation =
                (if truthy (pget d ''current_operation'')
                 then to_str cv (pget d ''current_operation'') else lit ''unknown''),
              rl_schema_version = version\<rparr>))))))))))))"

section \<open>The store\<close>

text \<open>A lease file: decoded JSON, or bytes that do not decode.\<close>

datatype lease_file = LeaseJson pyval | NotJson | NotUtf8Text | IoFailure

text \<open>The files by repository identity, and the context variable of each process.\<close>

record lease_store =
  ls_files :: "(pystr, lease_file) dict"
  ls_current :: "int \<Rightarrow> RepositoryLease option"

definition repository_identity :: "os_env \<Rightarrow> pystr \<Rightarrow> lease_error + pystr" where
  "repository_identity env repository =
     (case oe_resolve env repository of
        None \<Rightarrow> Inl PathUnresolved | Some r \<Rightarrow> Inr (oe_sha env (oe_normcase env r)))"

text \<open>
  Reading a lease file. Each denied read is retried while the deadline has not passed: the list says
  for each denial whether it had.\<close>

fun decode_file :: "pyconv \<Rightarrow> lease_file option \<Rightarrow> lease_error + RepositoryLease option" where
  "decode_file cv None = Inr None"
| "decode_file cv (Some IoFailure) = Inl LeaseUnreadable"
| "decode_file cv (Some NotJson) = Inl LeaseUnreadable"
| "decode_file cv (Some NotUtf8Text) = Inl PyUnicodeError"
| "decode_file cv (Some (LeaseJson (PMap d))) = bindr (lease_from_dict cv d) (\<lambda>l. Inr (Some l))"
| "decode_file cv (Some (LeaseJson v)) = Inl LeaseMalformed"

fun load_polls :: "pyconv \<Rightarrow> bool list \<Rightarrow> lease_file option \<Rightarrow> lease_error + RepositoryLease option" where
  "load_polls cv [] f = decode_file cv f"
| "load_polls cv (past # ps) f = (if past then Inl LeaseUnreadable else load_polls cv ps f)"

definition load_path :: "os_env \<Rightarrow> lease_store \<Rightarrow> pystr \<Rightarrow> lease_error + RepositoryLease option" where
  "load_path env st ident =
     load_polls (oe_conv env) (oe_denied env ident) (map_of (ls_files st) ident)"

definition load :: "os_env \<Rightarrow> lease_store \<Rightarrow> pystr \<Rightarrow> lease_error + RepositoryLease option" where
  "load env st repository = bindr (repository_identity env repository) (load_path env st)"

definition same_process :: "os_env \<Rightarrow> RepositoryLease \<Rightarrow> bool" where
  "same_process env l =
     (if \<not> process_alive env (rl_owner_pid l) then False
      else case (rl_owner_creation_marker l, process_creation_marker env (rl_owner_pid l)) of
        (Some m, Some c) \<Rightarrow> c = m
      | _ \<Rightarrow> True)"

definition current_repository_lease :: "os_env \<Rightarrow> lease_store \<Rightarrow> pystr option \<Rightarrow> RepositoryLease option" where
  "current_repository_lease env st repository =
     (case (ls_current st (oe_getpid env), repository) of
        (Some l, Some r) \<Rightarrow>
          (case repository_identity env r of
             Inl _ \<Rightarrow> None
           | Inr i \<Rightarrow> if rl_repository_identity l = i then Some l else None)
      | (l, _) \<Rightarrow> l)"

definition validate :: "os_env \<Rightarrow> lease_store \<Rightarrow> pystr \<Rightarrow> RepositoryLease \<Rightarrow> lease_error + RepositoryLease" where
  "validate env st repository l =
     bindr (repository_identity env repository) (\<lambda>ident.
     bindr (load_path env st ident) (\<lambda>cur.
       case cur of
         None \<Rightarrow> Inl OwnershipLost
       | Some c \<Rightarrow>
           if rl_lease_id c \<noteq> rl_lease_id l then Inl OwnershipLost
           else if rl_repository_identity c \<noteq> ident then Inl BoundElsewhere
           else if \<not> same_process env c then Inl OwnerDead
           else Inr c))"

definition conflict_details :: "RepositoryLease \<Rightarrow> real \<Rightarrow> (pystr, pyval) dict" where
  "conflict_details l instant =
     [(lit ''lease_owner'', PMap
        [(lit ''session_id'', PStr (rl_session_id l)),
         (lit ''task_id'', PStr (rl_task_id l)),
         (lit ''connection_id'', PStr (rl_connection_id l))]),
      (lit ''lease_age_seconds'', PFloat (max 0 (instant - rl_created_at l))),
      (lit ''heartbeat_age_seconds'', PFloat (max 0 (instant - rl_heartbeat_at l))),
      (lit ''expires_at'', PFloat (rl_expires_at l)),
      (lit ''current_operation'', PStr (rl_current_operation l)),
      (lit ''read_only_operations_allowed'', PBool True),
      (lit ''safe_options'', PSeq
        [PStr (lit ''wait''), PStr (lit ''continue_read_only''),
         PStr (lit ''request_user_takeover''),
         PStr (lit ''recover_stale_after_strict_process_check'')]),
      (lit ''automatic_takeover_allowed'', PBool False)]"

definition put_lease :: "os_env \<Rightarrow> pystr \<Rightarrow> RepositoryLease \<Rightarrow> lease_store \<Rightarrow> lease_store" where
  "put_lease env ident l st =
     st\<lparr>ls_files := AList.update ident (LeaseJson (PMap (lease_to_dict l))) (ls_files st)\<rparr>"

definition set_current :: "os_env \<Rightarrow> RepositoryLease option \<Rightarrow> lease_store \<Rightarrow> lease_store" where
  "set_current env l st = st\<lparr>ls_current := (ls_current st)(oe_getpid env := l)\<rparr>"

record owner_ids =
  ow_session :: pystr
  ow_task :: pystr
  ow_connection :: pystr

definition same_owner :: "owner_ids \<Rightarrow> RepositoryLease \<Rightarrow> bool" where
  "same_owner o' l \<longleftrightarrow> rl_session_id l = ow_session o' \<and> rl_task_id l = ow_task o' \<and>
     rl_connection_id l = ow_connection o'"

definition new_lease :: "os_env \<Rightarrow> pystr \<Rightarrow> pystr \<Rightarrow> owner_ids \<Rightarrow> pystr \<Rightarrow> real \<Rightarrow> RepositoryLease" where
  "new_lease env ident resolved o' operation ttl =
     \<lparr>rl_lease_id = lit ''repo-lease-'' @ oe_uuid env, rl_repository_identity = ident,
      rl_repository = resolved, rl_session_id = ow_session o', rl_task_id = ow_task o',
      rl_connection_id = ow_connection o', rl_owner_pid = oe_getpid env,
      rl_owner_creation_marker = process_creation_marker env (oe_getpid env),
      rl_created_at = oe_time env, rl_heartbeat_at = oe_time env,
      rl_expires_at = oe_time env + ttl, rl_current_operation = operation,
      rl_schema_version = LEASE_SCHEMA_VERSION\<rparr>"

definition refreshed :: "os_env \<Rightarrow> RepositoryLease \<Rightarrow> pystr \<Rightarrow> real \<Rightarrow> RepositoryLease" where
  "refreshed env l operation ttl =
     l\<lparr>rl_heartbeat_at := oe_time env, rl_expires_at := oe_time env + ttl,
       rl_current_operation := operation, rl_schema_version := LEASE_SCHEMA_VERSION\<rparr>"

definition acquire :: "os_env \<Rightarrow> pystr \<Rightarrow> owner_ids \<Rightarrow> pystr \<Rightarrow> real \<Rightarrow> lease_store \<Rightarrow>
    (lease_error + RepositoryLease \<times> bool) \<times> lease_store" where
  "acquire env repository o' operation ttl st =
     (if \<not> (10 \<le> ttl \<and> ttl \<le> 3600) then (Inl TtlOutOfRange, st)
      else case oe_resolve env repository of
        None \<Rightarrow> (Inl PathUnresolved, st)
      | Some resolved \<Rightarrow>
          let ident = oe_sha env (oe_normcase env resolved) in
          case load_path env st ident of
            Inl e \<Rightarrow> (Inl e, st)
          | Inr existing \<Rightarrow>
              (case existing of
                 Some l \<Rightarrow>
                   if same_owner o' l \<and> same_process env l then
                     let l' = refreshed env l operation ttl
                     in (Inr (l', False), set_current env (Some l') (put_lease env ident l' st))
                   else if same_process env l
                   then (Inl (LeaseConflict (conflict_details l (oe_time env))), st)
                   else
                     let l' = new_lease env ident resolved o' operation ttl
                     in (Inr (l', True), set_current env (Some l') (put_lease env ident l' st))
               | None \<Rightarrow>
                   let l' = new_lease env ident resolved o' operation ttl
                   in (Inr (l', False), set_current env (Some l') (put_lease env ident l' st))))"

definition heartbeat :: "os_env \<Rightarrow> pystr \<Rightarrow> RepositoryLease \<Rightarrow> pystr \<Rightarrow> real \<Rightarrow> lease_store \<Rightarrow>
    (lease_error + RepositoryLease) \<times> lease_store" where
  "heartbeat env repository l operation ttl st =
     (case bindr (repository_identity env repository) (\<lambda>ident.
             bindr (load_path env st ident) (\<lambda>cur. Inr (ident, cur))) of
        Inl e \<Rightarrow> (Inl e, st)
      | Inr (ident, None) \<Rightarrow> (Inl OwnershipLost, st)
      | Inr (ident, Some c) \<Rightarrow>
          if rl_lease_id c \<noteq> rl_lease_id l then (Inl OwnershipLost, st)
          else
            let c' = refreshed env c operation ttl;
                st' = put_lease env ident c' st
            in (Inr c',
                case ls_current st' (oe_getpid env) of
                  Some i \<Rightarrow> (if rl_lease_id i = rl_lease_id c' then set_current env (Some c') st' else st')
                | None \<Rightarrow> st'))"

text \<open>\<^verbatim>\<open>release\<close>: the \<^verbatim>\<open>finally\<close> clause clears the context variable on every path but an unresolved
  repository.\<close>

definition drop_current :: "os_env \<Rightarrow> RepositoryLease \<Rightarrow> lease_store \<Rightarrow> lease_store" where
  "drop_current env l st =
     (case ls_current st (oe_getpid env) of
        Some i \<Rightarrow> (if rl_lease_id i = rl_lease_id l then set_current env None st else st)
      | None \<Rightarrow> st)"

definition release :: "os_env \<Rightarrow> pystr \<Rightarrow> RepositoryLease \<Rightarrow> lease_store \<Rightarrow>
    (lease_error + unit) \<times> lease_store" where
  "release env repository l st =
     (case repository_identity env repository of
        Inl e \<Rightarrow> (Inl e, st)
      | Inr ident \<Rightarrow>
          (case load_path env st ident of
             Inl e \<Rightarrow> (Inl e, drop_current env l st)
           | Inr None \<Rightarrow> (Inr (), drop_current env l st)
           | Inr (Some c) \<Rightarrow>
               if rl_lease_id c \<noteq> rl_lease_id l then (Inl ForeignRelease, drop_current env l st)
               else (Inr (), drop_current env l
                       (st\<lparr>ls_files := AList.delete ident (ls_files st)\<rparr>))))"

section \<open>The health report\<close>

record lease_row =
  lr_lease :: RepositoryLease
  lr_owner_alive :: bool
  lr_heartbeat_age :: real
  lr_lease_age :: real

record doctor_report =
  dr_degraded :: bool
  dr_active :: nat
  dr_stale :: nat
  dr_unreadable :: nat
  dr_count :: nat
  dr_leases :: "lease_row list"
  dr_truncated :: bool

definition is_lease_error :: "lease_error \<Rightarrow> bool" where
  "is_lease_error e \<longleftrightarrow> e \<in> {LeaseUnreadable, LeaseMalformed, LeaseSchema}"

record doctor_acc =
  da_active :: nat
  da_stale :: nat
  da_unreadable :: nat
  da_rows :: "lease_row list"

definition doctor_row :: "os_env \<Rightarrow> RepositoryLease \<Rightarrow> lease_row" where
  "doctor_row env l =
     \<lparr>lr_lease = l, lr_owner_alive = same_process env l,
      lr_heartbeat_age = py_round 3 (max 0 (oe_time env - rl_heartbeat_at l)),
      lr_lease_age = py_round 3 (max 0 (oe_time env - rl_created_at l))\<rparr>"

fun doctor_scan :: "os_env \<Rightarrow> lease_store \<Rightarrow> pystr list \<Rightarrow> doctor_acc \<Rightarrow> lease_error + doctor_acc" where
  "doctor_scan env st [] acc = Inr acc"
| "doctor_scan env st (ident # ids) acc =
     (case load_path env st ident of
        Inl e \<Rightarrow>
          if is_lease_error e
          then doctor_scan env st ids (acc\<lparr>da_unreadable := da_unreadable acc + 1\<rparr>)
          else Inl e
      | Inr None \<Rightarrow> doctor_scan env st ids acc
      | Inr (Some l) \<Rightarrow>
          doctor_scan env st ids
            ((if same_process env l then acc\<lparr>da_active := da_active acc + 1\<rparr>
              else acc\<lparr>da_stale := da_stale acc + 1\<rparr>)
             \<lparr>da_rows := da_rows acc @ [doctor_row env l]\<rparr>))"

definition doctor :: "os_env \<Rightarrow> lease_store \<Rightarrow> lease_error + doctor_report" where
  "doctor env st =
     bindr (doctor_scan env st (sort (map fst (ls_files st)))
        \<lparr>da_active = 0, da_stale = 0, da_unreadable = 0, da_rows = []\<rparr>) (\<lambda>acc.
       Inr \<lparr>dr_degraded = (da_stale acc \<noteq> 0 \<or> da_unreadable acc \<noteq> 0),
            dr_active = da_active acc, dr_stale = da_stale acc, dr_unreadable = da_unreadable acc,
            dr_count = length (da_rows acc), dr_leases = take 32 (da_rows acc),
            dr_truncated = (length (da_rows acc) > 32)\<rparr>)"

end
