(* ===== verification/LeaseProofs.thy ===== *)
theory LeaseProofs imports RepositoryLease begin

text \<open>
  What the repository leases guarantee: a lease survives every operation of every process until its
  holder releases it or its owner process is seen dead, a displaced lease is fenced out, an acquired
  one validates, and the JSON form reads back.
\<close>

section \<open>The JSON form\<close>

lemma lit_distinct_keys [simp]: "distinct (map fst (lease_to_dict l))"
  by (simp add: lease_to_dict_def)

definition normal :: "RepositoryLease \<Rightarrow> RepositoryLease" where
  "normal l = (if rl_current_operation l = [] then l\<lparr>rl_current_operation := lit ''unknown''\<rparr> else l)"

lemma to_dict_lookup:
  "map_of (lease_to_dict l) (lit ''schema_version'') = Some (PInt (rl_schema_version l))"
  "item_str cv (lease_to_dict l) ''lease_id'' = Inr (rl_lease_id l)"
  "item_str cv (lease_to_dict l) ''repository_identity'' = Inr (rl_repository_identity l)"
  "item_str cv (lease_to_dict l) ''repository'' = Inr (rl_repository l)"
  "item_str cv (lease_to_dict l) ''session_id'' = Inr (rl_session_id l)"
  "item_str cv (lease_to_dict l) ''task_id'' = Inr (rl_task_id l)"
  "item_str cv (lease_to_dict l) ''connection_id'' = Inr (rl_connection_id l)"
  "item_int cv (lease_to_dict l) ''owner_pid'' = Inr (rl_owner_pid l)"
  "item_float cv (lease_to_dict l) ''created_at'' = Inr (rl_created_at l)"
  "item_float cv (lease_to_dict l) ''heartbeat_at'' = Inr (rl_heartbeat_at l)"
  "item_float cv (lease_to_dict l) ''expires_at'' = Inr (rl_expires_at l)"
  "pget (lease_to_dict l) ''owner_creation_marker'' = opt_str (rl_owner_creation_marker l)"
  "pget (lease_to_dict l) ''current_operation'' = PStr (rl_current_operation l)"
  by (simp_all add: lease_to_dict_def item_str_def item_int_def item_float_def item_def pget_def)

lemma from_to_dict:
  assumes "rl_schema_version l = LEASE_SCHEMA_VERSION"
  shows "lease_from_dict cv (lease_to_dict l) = Inr (normal l)"
  using assms
  by (cases l; cases "rl_owner_creation_marker l")
    (simp_all add: lease_from_dict_def to_dict_lookup opt_str_def normal_def)

section \<open>Stored leases\<close>

definition plain_conv :: pyconv where
  "plain_conv = \<lparr>cv_str = (\<lambda>_. []), cv_int = (\<lambda>_. None), cv_float = (\<lambda>_. None)\<rparr>"

text \<open>The lease in a file, when the file is one the store writes.\<close>

definition stored_lease :: "lease_store \<Rightarrow> pystr \<Rightarrow> RepositoryLease option" where
  "stored_lease st I =
     (case map_of (ls_files st) I of
        Some (LeaseJson (PMap d)) \<Rightarrow>
          (case lease_from_dict plain_conv d of
             Inr l \<Rightarrow>
               if d = lease_to_dict l \<or> d = lease_to_dict (l\<lparr>rl_current_operation := []\<rparr>)
               then Some l else None
           | Inl e \<Rightarrow> None)
      | _ \<Rightarrow> None)"

lemma from_dict_schema: "lease_from_dict cv d = Inr l \<Longrightarrow> rl_schema_version l = LEASE_SCHEMA_VERSION"
  by (auto simp: lease_from_dict_def bindr_Inr_iff split: if_splits)

lemma stored_decodes:
  assumes "stored_lease st I = Some l"
  shows "decode_file cv (map_of (ls_files st) I) = Inr (Some l) \<and>
    rl_schema_version l = LEASE_SCHEMA_VERSION"
proof -
  from assms obtain d where f: "map_of (ls_files st) I = Some (LeaseJson (PMap d))"
    and l: "lease_from_dict plain_conv d = Inr l"
    and d: "d = lease_to_dict l \<or> d = lease_to_dict (l\<lparr>rl_current_operation := []\<rparr>)"
    by (auto simp: stored_lease_def
        split: option.split_asm lease_file.split_asm pyval.split_asm sum.split_asm if_split_asm)
  have v: "rl_schema_version l = LEASE_SCHEMA_VERSION" by (rule from_dict_schema [OF l])
  have "lease_from_dict cv d = Inr l"
  proof -
    from d obtain m where "d = lease_to_dict m" "rl_schema_version m = LEASE_SCHEMA_VERSION"
    proof
      assume "d = lease_to_dict l"
      with v show thesis by (intro that)
    next
      assume "d = lease_to_dict (l\<lparr>rl_current_operation := []\<rparr>)"
      with v show thesis by (intro that [of "l\<lparr>rl_current_operation := []\<rparr>"]) simp_all
    qed
    with from_to_dict [of m] l show ?thesis by simp
  qed
  with f v show ?thesis by simp
qed

lemma stored_put:
  assumes "rl_schema_version l = LEASE_SCHEMA_VERSION"
  shows "stored_lease (put_lease env I l st) J = (if J = I then Some (normal l) else stored_lease st J)"
proof (cases "J = I")
  case True
  have "lease_from_dict plain_conv (lease_to_dict l) = Inr (normal l)"
    by (rule from_to_dict [OF assms])
  moreover have "lease_to_dict l = lease_to_dict (normal l) \<or>
      lease_to_dict l = lease_to_dict ((normal l)\<lparr>rl_current_operation := []\<rparr>)"
    by (cases l) (simp add: normal_def)
  ultimately show ?thesis
    using True by (simp add: stored_lease_def put_lease_def map_of_AList_update)
qed (simp add: stored_lease_def put_lease_def map_of_AList_update)

lemma stored_current [simp]:
  "stored_lease (set_current env x st) J = stored_lease st J"
  "stored_lease (drop_current env l st) J = stored_lease st J"
  "stored_lease (st\<lparr>ls_current := c\<rparr>) J = stored_lease st J"
  by (simp_all add: stored_lease_def set_current_def drop_current_def split: option.splits)

lemma load_stored:
  "stored_lease st I = Some l \<Longrightarrow> load_path env st I = Inr x \<Longrightarrow> x = Some l"
proof -
  assume s: "stored_lease st I = Some l" and "load_path env st I = Inr x"
  then have "load_polls (oe_conv env) ps (map_of (ls_files st) I) = Inr x \<Longrightarrow>
      decode_file (oe_conv env) (map_of (ls_files st) I) = Inr x" for ps
    by (induction ps) (auto split: if_splits)
  with \<open>load_path env st I = Inr x\<close> have "decode_file (oe_conv env) (map_of (ls_files st) I) = Inr x"
    by (simp add: load_path_def)
  with stored_decodes [OF s] show ?thesis by simp
qed

section \<open>Tenure\<close>

text \<open>What stays fixed while a lease is held: everything but the heartbeat, the expiry and the
  operation it is used for.\<close>

definition tenure :: "RepositoryLease \<Rightarrow> RepositoryLease" where
  "tenure l = l\<lparr>rl_heartbeat_at := 0, rl_expires_at := 0, rl_current_operation := [],
     rl_schema_version := 0\<rparr>"

definition holder :: "pystr \<Rightarrow> lease_store \<Rightarrow> RepositoryLease option" where
  "holder I st = map_option tenure (stored_lease st I)"

lemma tenure_simps [simp]:
  "tenure (normal l) = tenure l" "tenure (refreshed env l op ttl) = tenure l"
  "rl_lease_id (tenure l) = rl_lease_id l" "same_process env (tenure l) = same_process env l"
  "same_owner ids (tenure l) = same_owner ids l"
  by (simp_all add: tenure_def normal_def refreshed_def same_process_def same_owner_def)

datatype lease_op =
    Acquire os_env pystr owner_ids pystr real
  | Heartbeat os_env pystr RepositoryLease pystr real
  | Release os_env pystr RepositoryLease

fun lease_step :: "lease_op \<Rightarrow> lease_store \<Rightarrow> lease_store" where
  "lease_step (Acquire env repo ids op ttl) st = snd (acquire env repo ids op ttl st)"
| "lease_step (Heartbeat env repo l op ttl) st = snd (heartbeat env repo l op ttl st)"
| "lease_step (Release env repo l) st = snd (release env repo l st)"

text \<open>What can end a holding: an acquisition by anyone who finds the owner process dead, or a release
  that names the lease.\<close>

fun ends_tenure :: "lease_op \<Rightarrow> RepositoryLease \<Rightarrow> bool" where
  "ends_tenure (Acquire env repo ids op ttl) t \<longleftrightarrow> \<not> same_process env t"
| "ends_tenure (Heartbeat env repo l op ttl) t \<longleftrightarrow> False"
| "ends_tenure (Release env repo l) t \<longleftrightarrow> rl_lease_id l = rl_lease_id t"

lemma schema_refreshed [simp]: "rl_schema_version (refreshed env l op ttl) = LEASE_SCHEMA_VERSION"
  "rl_schema_version (new_lease env i r ids op ttl) = LEASE_SCHEMA_VERSION"
  by (simp_all add: refreshed_def new_lease_def)

lemma acquire_holder:
  assumes h: "holder I st = Some t" and p: "same_process env t"
  shows "holder I (snd (acquire env repo ids op ttl st)) = Some t"
proof (cases "oe_resolve env repo")
  case (Some res)
  let ?J = "oe_sha env (oe_normcase env res)"
  obtain l where l: "stored_lease st I = Some l" "tenure l = t" using h by (auto simp: holder_def)
  show ?thesis
  proof (cases "load_path env st ?J")
    case (Inr x)
    show ?thesis
    proof (cases "?J = I")
      case True
      with load_stored [OF l(1)] Inr have "x = Some l" by simp
      moreover have "same_process env l" using p l(2) by auto
      ultimately show ?thesis
        using Some Inr l True
        by (auto simp: acquire_def Let_def holder_def stored_put)
    next
      case False
      then show ?thesis
        using Some Inr l by (auto simp: acquire_def Let_def holder_def stored_put split: option.split)
    qed
  qed (use Some h in \<open>auto simp: acquire_def Let_def\<close>)
qed (use h in \<open>auto simp: acquire_def\<close>)

lemma heartbeat_holder:
  assumes h: "holder I st = Some t"
  shows "holder I (snd (heartbeat env repo l op ttl st)) = Some t"
proof (cases "repository_identity env repo")
  case (Inr J)
  obtain c where c: "stored_lease st I = Some c" "tenure c = t" using h by (auto simp: holder_def)
  show ?thesis
  proof (cases "load_path env st J")
    case load: (Inr x)
    show ?thesis
    proof (cases x)
      case (Some d)
      show ?thesis
      proof (cases "J = I")
        case True
        with load_stored [OF c(1), of env x] load Some have "d = c" by simp
        with Inr load Some True c show ?thesis
          by (auto simp: heartbeat_def Let_def holder_def stored_put split: option.split)
      next
        case False
        with Inr load Some c show ?thesis
          by (auto simp: heartbeat_def Let_def holder_def stored_put split: option.split)
      qed
    qed (use Inr load h in \<open>simp add: heartbeat_def\<close>)
  qed (use Inr h in \<open>simp add: heartbeat_def\<close>)
qed (use h in \<open>simp add: heartbeat_def\<close>)

lemma release_holder:
  assumes h: "holder I st = Some t" and ne: "rl_lease_id l \<noteq> rl_lease_id t"
  shows "holder I (snd (release env repo l st)) = Some t"
proof (cases "repository_identity env repo")
  case (Inr J)
  obtain c where c: "stored_lease st I = Some c" "tenure c = t" using h by (auto simp: holder_def)
  show ?thesis
  proof (cases "load_path env st J")
    case load: (Inr x)
    show ?thesis
    proof (cases x)
      case (Some d)
      show ?thesis
      proof (cases "J = I")
        case True
        with load_stored [OF c(1), of env x] load Some have "d = c" by simp
        moreover have "rl_lease_id c \<noteq> rl_lease_id l" using ne c(2) by auto
        ultimately show ?thesis using Inr load Some c by (simp add: release_def holder_def)
      next
        case False
        then have "stored_lease (st\<lparr>ls_files := AList.delete J (ls_files st)\<rparr>) I = stored_lease st I"
          by (simp add: stored_lease_def map_of_AList_delete)
        with Inr load Some c show ?thesis by (simp add: release_def holder_def)
      qed
    qed (use Inr load h in \<open>simp add: release_def holder_def\<close>)
  qed (use Inr h in \<open>simp add: release_def holder_def\<close>)
qed (use h in \<open>simp add: release_def\<close>)

interpretation repo_lease: exclusive_lease lease_step "holder I" "\<lambda>op s t. ends_tenure op t" for I
proof
  fix s h op
  assume "holder I s = Some h" "\<not> ends_tenure op h"
  then show "holder I (lease_step op s) = Some h"
    by (cases op) (simp_all add: acquire_holder heartbeat_holder release_holder)
qed


section \<open>Properties\<close>

text \<open>A concrete system for evaluation: process 7 is alive and runs the operations.\<close>

definition demo_env :: os_env where
  "demo_env = \<lparr>oe_windows = False, oe_kill = (\<lambda>pid. if pid = 7 then Delivered else NoSuchProcess),
     oe_win_process = (\<lambda>_. NoHandle 0), oe_win_creation = (\<lambda>_. None),
     oe_proc_stat = (\<lambda>_. None), oe_getpid = 7, oe_time = 1000, oe_uuid = lit ''u1'',
     oe_resolve = Some, oe_normcase = id, oe_sha = id, oe_denied = (\<lambda>_. []),
     oe_conv = plain_conv\<rparr>"

definition demo_ids :: owner_ids where
  "demo_ids = \<lparr>ow_session = lit ''s1'', ow_task = lit ''t1'', ow_connection = lit ''c1''\<rparr>"

definition empty_store :: lease_store where
  "empty_store = \<lparr>ls_files = [], ls_current = (\<lambda>_. None)\<rparr>"

definition demo_store :: lease_store where
  "demo_store = snd (acquire demo_env (lit ''repo'') demo_ids (lit ''edit'') 90 empty_store)"

definition demo_lease :: RepositoryLease where
  "demo_lease = new_lease demo_env (lit ''repo'') (lit ''repo'') demo_ids (lit ''edit'') 90"

lemma demo_acquire: "acquire demo_env (lit ''repo'') demo_ids (lit ''edit'') 90 empty_store =
    (Inr (demo_lease, False), set_current demo_env (Some demo_lease)
       (put_lease demo_env (lit ''repo'') demo_lease empty_store))"
proof -
  have "oe_resolve demo_env (lit ''repo'') = Some (lit ''repo'')"
    and "oe_sha demo_env (oe_normcase demo_env (lit ''repo'')) = lit ''repo''"
    and "load_path demo_env empty_store (lit ''repo'') = Inr None"
    by (simp_all add: demo_env_def load_path_def empty_store_def)
  then show ?thesis by (simp add: acquire_def Let_def demo_lease_def)
qed

lemma demo_store_eq: "demo_store = set_current demo_env (Some demo_lease)
    (put_lease demo_env (lit ''repo'') demo_lease empty_store)"
  by (simp add: demo_store_def demo_acquire)

lemma demo_normal: "normal demo_lease = demo_lease"
  by (simp add: demo_lease_def normal_def new_lease_def)

lemma demo_schema: "rl_schema_version demo_lease = LEASE_SCHEMA_VERSION"
  by (simp add: demo_lease_def)

lemma demo_load: "load_path demo_env demo_store (lit ''repo'') = Inr (Some demo_lease)"
  by (simp add: demo_store_eq load_path_def demo_env_def set_current_def put_lease_def empty_store_def
      from_to_dict demo_schema demo_normal)

lemma demo_store_holder: "holder (lit ''repo'') demo_store = Some (tenure demo_lease)"
  by (simp add: demo_store_eq holder_def stored_put demo_schema demo_normal)

lemma demo_alive: "same_process demo_env demo_lease"
  by (simp add: same_process_def process_alive_def demo_lease_def new_lease_def demo_env_def
      process_creation_marker_def posix_creation_marker_def)

text \<open>C32. A repository lease is lost only for a cause: if after any sequence of acquisitions,
  heartbeats and releases by any processes the lease of a repository is not the one held at the
  start, then some operation of the sequence, at a moment the lease was still held, was an
  acquisition by a caller for whom the owner process was dead, or a release naming the lease.\<close>

theorem lease_lost_only_for_a_cause:
  assumes "holder I st = Some t" and "holder I (fold lease_step ops st) \<noteq> Some t"
  shows "\<exists>pre op post. ops = pre @ op # post \<and> holder I (fold lease_step pre st) = Some t \<and>
    ends_tenure op t"
  using repo_lease.change_has_a_cause [of I st t ops] assms by (simp add: repo_lease.run_fold)

theorem lease_lost_only_for_a_cause_witness:
  "\<exists>pre op post. [Release demo_env (lit ''repo'') demo_lease] = pre @ op # post \<and>
     holder (lit ''repo'') (fold lease_step pre demo_store) = Some (tenure demo_lease) \<and>
     ends_tenure op (tenure demo_lease)"
proof (rule lease_lost_only_for_a_cause [OF demo_store_holder])
  have "repository_identity demo_env (lit ''repo'') = Inr (lit ''repo'')"
    by (simp add: repository_identity_def demo_env_def)
  then have "snd (release demo_env (lit ''repo'') demo_lease demo_store) =
      drop_current demo_env demo_lease
        (demo_store\<lparr>ls_files := AList.delete (lit ''repo'') (ls_files demo_store)\<rparr>)"
    by (simp add: release_def demo_load)
  then show "holder (lit ''repo'') (fold lease_step [Release demo_env (lit ''repo'') demo_lease] demo_store)
      \<noteq> Some (tenure demo_lease)"
    by (simp add: holder_def) (simp add: stored_lease_def map_of_AList_delete)
qed

text \<open>While the owner process of a lease is alive, an acquisition either refreshes that very lease,
  for the same session, task and connection, or is refused with the conflict details and changes
  nothing. It is never taken over, however long its heartbeat or expiry is past.\<close>

theorem live_lease_is_never_taken_over:
  assumes "oe_resolve env repo = Some res" and "I = oe_sha env (oe_normcase env res)"
    and "load_path env st I = Inr (Some l)" and "same_process env l" and "10 \<le> ttl" "ttl \<le> 3600"
  shows "acquire env repo ids op ttl st =
    (if same_owner ids l
     then (Inr (refreshed env l op ttl, False),
           set_current env (Some (refreshed env l op ttl)) (put_lease env I (refreshed env l op ttl) st))
     else (Inl (LeaseConflict (conflict_details l (oe_time env))), st))"
  using assms by (simp add: acquire_def Let_def)

theorem live_lease_is_never_taken_over_witness:
  "\<exists>d. acquire demo_env (lit ''repo'') (demo_ids\<lparr>ow_session := lit ''s2''\<rparr>) (lit ''edit'') 90 demo_store
     = (Inl (LeaseConflict d), demo_store)"
proof -
  have a: "oe_resolve demo_env (lit ''repo'') = Some (lit ''repo'')"
    and b: "lit ''repo'' = oe_sha demo_env (oe_normcase demo_env (lit ''repo''))"
    by (simp_all add: demo_env_def)
  show ?thesis
    by (subst live_lease_is_never_taken_over [OF a b demo_load demo_alive])
      (simp_all add: same_owner_def demo_lease_def new_lease_def demo_ids_def)
qed

text \<open>A displaced lease is fenced out: once the repository's file names another lease, validating,
  heartbeating and releasing with the old one all fail and leave the file as it is.\<close>

theorem displaced_lease_is_fenced_out:
  assumes "repository_identity env repo = Inr I" and "load_path env st I = Inr (Some c)"
    and "rl_lease_id c \<noteq> rl_lease_id l"
  shows "validate env st repo l = Inl OwnershipLost \<and>
    heartbeat env repo l op ttl st = (Inl OwnershipLost, st) \<and>
    fst (release env repo l st) = Inl ForeignRelease \<and>
    ls_files (snd (release env repo l st)) = ls_files st"
  using assms
  by (simp add: validate_def heartbeat_def release_def drop_current_def set_current_def split: option.split)

theorem displaced_lease_is_fenced_out_witness:
  "validate demo_env demo_store (lit ''repo'') (demo_lease\<lparr>rl_lease_id := lit ''old''\<rparr>) =
     Inl OwnershipLost"
proof -
  have a: "repository_identity demo_env (lit ''repo'') = Inr (lit ''repo'')"
    by (simp add: repository_identity_def demo_env_def)
  have "rl_lease_id demo_lease \<noteq> rl_lease_id (demo_lease\<lparr>rl_lease_id := lit ''old''\<rparr>)"
    by (simp add: demo_lease_def new_lease_def lit_def)
  from displaced_lease_is_fenced_out [OF a demo_load this] show ?thesis by simp
qed

text \<open>A lease just acquired by a live process validates, and the context variable of that process
  names it.\<close>

theorem acquired_lease_validates:
  assumes "acquire env repo ids op ttl st = (Inr (l, recovered), st')" and "op \<noteq> []"
    and "process_alive env (oe_getpid env)" and "oe_denied env (rl_repository_identity l) = []"
    and "\<forall>I c. load_path env st I = Inr (Some c) \<longrightarrow> rl_repository_identity c = I"
  shows "validate env st' repo l = Inr l \<and> ls_current st' (oe_getpid env) = Some l"
proof -
  from assms(1) obtain res where res: "oe_resolve env repo = Some res"
    by (auto simp: acquire_def split: option.split_asm if_split_asm)
  let ?I = "oe_sha env (oe_normcase env res)"
  from assms(1) res obtain x where ld: "load_path env st ?I = Inr x"
    by (cases "load_path env st ?I") (auto simp: acquire_def Let_def split: if_split_asm)
  have st': "st' = set_current env (Some l) (put_lease env ?I l st)" and alive: "same_process env l"
    and id: "rl_repository_identity l = ?I" and nz: "rl_current_operation l = op"
    and v: "rl_schema_version l = LEASE_SCHEMA_VERSION"
    using assms(1,3,5) res ld
    by (auto simp: acquire_def Let_def new_lease_def refreshed_def same_process_def
        split: option.split_asm if_split_asm option.split)
  have "load_path env st' ?I = Inr (Some l)"
    using assms(2,4) id nz v
    by (simp add: load_path_def st' set_current_def put_lease_def map_of_AList_update from_to_dict normal_def)
  with res id alive show ?thesis
    by (simp add: validate_def repository_identity_def st' set_current_def)
qed

theorem acquired_lease_validates_witness:
  "validate demo_env demo_store (lit ''repo'') demo_lease = Inr demo_lease"
proof -
  have "process_alive demo_env (oe_getpid demo_env)" by (simp add: demo_env_def process_alive_def)
  moreover have "oe_denied demo_env (rl_repository_identity demo_lease) = []"
    by (simp add: demo_env_def)
  moreover have "\<forall>I c. load_path demo_env empty_store I = Inr (Some c) \<longrightarrow> rl_repository_identity c = I"
    by (simp add: load_path_def demo_env_def empty_store_def)
  ultimately show ?thesis
    using acquired_lease_validates [OF demo_acquire] unfolding demo_store_eq by simp
qed

text \<open>The JSON form of a lease reads back as that lease; only an empty operation name becomes
  \<^verbatim>\<open>unknown\<close>.\<close>

theorem lease_json_roundtrip:
  assumes "rl_schema_version l = LEASE_SCHEMA_VERSION"
  shows "lease_from_dict cv (lease_to_dict l) =
    Inr (if rl_current_operation l = [] then l\<lparr>rl_current_operation := lit ''unknown''\<rparr> else l)"
  using from_to_dict [OF assms] by (simp add: normal_def)

theorem lease_json_roundtrip_witness:
  "lease_from_dict plain_conv
     (lease_to_dict (new_lease demo_env (lit ''r'') (lit ''r'') demo_ids (lit ''edit'') 90)) =
   Inr (new_lease demo_env (lit ''r'') (lit ''r'') demo_ids (lit ''edit'') 90)"
  by (subst lease_json_roundtrip) (simp_all add: new_lease_def)

section \<open>The health report\<close>

lemma doctor_scan_counts:
  "doctor_scan env st ids acc = Inr acc' \<Longrightarrow>
     da_active acc = length (filter lr_owner_alive (da_rows acc)) \<Longrightarrow>
     da_active acc + da_stale acc = length (da_rows acc) \<Longrightarrow>
     da_active acc' = length (filter lr_owner_alive (da_rows acc')) \<and>
     da_active acc' + da_stale acc' = length (da_rows acc')"
proof (induction ids arbitrary: acc)
  case (Cons i ids)
  show ?case
  proof (cases "load_path env st i")
    case (Inl e)
    with Cons.prems Cons.IH [of "acc\<lparr>da_unreadable := da_unreadable acc + 1\<rparr>"]
    show ?thesis by (simp split: if_splits)
  next
    case (Inr x)
    show ?thesis
    proof (cases x)
      case None
      with Inr Cons.prems have "doctor_scan env st ids acc = Inr acc'" by simp
      then show ?thesis using Cons.prems(2,3) by (rule Cons.IH)
    next
      case (Some l)
      with Inr Cons.prems(1) have "doctor_scan env st ids
          ((if same_process env l then acc\<lparr>da_active := da_active acc + 1\<rparr>
            else acc\<lparr>da_stale := da_stale acc + 1\<rparr>)
           \<lparr>da_rows := da_rows acc @ [doctor_row env l]\<rparr>) = Inr acc'" by simp
      then show ?thesis by (rule Cons.IH) (use Cons.prems(2,3) in \<open>simp_all add: doctor_row_def\<close>)
    qed
  qed
qed simp

lemma doctor_counts:
  "doctor env st = Inr r \<Longrightarrow> dr_active r + dr_stale r = dr_count r \<and>
     (dr_degraded r \<longleftrightarrow> dr_stale r \<noteq> 0 \<or> dr_unreadable r \<noteq> 0) \<and> length (dr_leases r) \<le> 32"
  by (auto simp: doctor_def bindr_Inr_iff dest!: doctor_scan_counts)

text \<open>A lease file with the right schema version and no owner makes the health report raise
  \<^verbatim>\<open>KeyError\<close>, and so does every acquisition of that repository.\<close>

lemma malformed_lease_breaks_doctor_and_acquire:
  "let st = \<lparr>ls_files = [(lit ''r'', LeaseJson (PMap [(lit ''schema_version'', PInt 1)]))],
             ls_current = (\<lambda>_. None)\<rparr>
   in doctor demo_env st = Inl (PyKeyError (lit ''lease_id'')) \<and>
      acquire demo_env (lit ''r'') demo_ids (lit ''edit'') 90 st = (Inl (PyKeyError (lit ''lease_id'')), st)"
  by (simp add: doctor_def load_path_def demo_env_def lease_from_dict_def LEASE_SCHEMA_VERSION_def
      item_str_def item_def is_lease_error_def acquire_def Let_def)

end
