(* ===== verification/Security.thy ===== *)
theory Security imports PyRegex begin

text \<open>
  Credential redaction and child-process environments, \<^verbatim>\<open>src/karox/security.py\<close>, and what redaction
  guarantees for the secrets it is told about.
\<close>

section \<open>Patterns\<close>

definition alnum_us :: cc where
  "alnum_us = COr (CRange 65 90) (COr (CRange 97 122) (COr (CRange 48 57) (CEq 95)))"

definition SECRET_NAME :: re where
  "SECRET_NAME = ralts
     [rstr (lit ''authorization''),
      rseqs [rstr (lit ''api''), ROpt (RC (COr (CEq 95) (CEq 45))), rstr (lit ''key'')],
      rstr (lit ''token''), rstr (lit ''secret''), rstr (lit ''password''),
      rstr (lit ''credential''), rstr (lit ''cookie'')]"

text \<open>The patterns of secret values, each with its ignore-case flag.\<close>

definition SECRET_VALUE_PATTERNS :: "(bool \<times> re) list" where
  "SECRET_VALUE_PATTERNS =
     [(False, rseqs [RBoundary, rstr (lit ''gh''),
        RC (COr (CEq 112) (COr (CEq 111) (COr (CEq 117) (COr (CEq 115) (CEq 114))))),
        rstr (lit ''_''), RMany alnum_us 20 None, RBoundary]),
      (False, rseqs [RBoundary, rstr (lit ''github_pat_''), RMany alnum_us 20 None, RBoundary]),
      (False, rseqs [RBoundary, rstr (lit ''sk-''), RMany (COr alnum_us (CEq 45)) 20 None, RBoundary]),
      (True, rseqs [RBoundary, rstr (lit ''Bearer''), RMany CSpace 1 None,
        RMany (COr (CRange 65 90) (COr (CRange 97 122) (COr (CRange 48 57)
          (COr (CEq 46) (COr (CEq 95) (COr (CEq 126) (COr (CEq 43) (COr (CEq 47) (CEq 45)))))))))
          12 None,
        RMany (CEq 61) 0 None])]"

definition contains_credential :: "unidata \<Rightarrow> pystr \<Rightarrow> bool" where
  "contains_credential ud value =
     (\<exists>(ic, r) \<in> set SECRET_VALUE_PATTERNS. re_search (ud_word ud) ic r value)"

section \<open>Redaction\<close>

definition REDACTED :: pystr where
  "REDACTED = 91 # lit ''REDACTED'' @ [93]"

text \<open>\<^verbatim>\<open>s.replace(old, new)\<close> for a non-empty \<^verbatim>\<open>old\<close>.\<close>

function replace_all :: "pystr \<Rightarrow> pystr \<Rightarrow> pystr \<Rightarrow> pystr" where
  "replace_all old new s =
     (if s = [] \<or> old = [] then s
      else if startswith s old then new @ replace_all old new (drop (length old) s)
      else hd s # replace_all old new (tl s))"
  by pat_completeness auto
termination
  by (relation "measure (\<lambda>(old, new, s). length s)") auto

declare replace_all.simps [simp del]

definition exact_secrets :: "pystr list \<Rightarrow> pystr list" where
  "exact_secrets secrets = filter (\<lambda>s. s \<noteq> []) secrets"

definition redact_text :: "unidata \<Rightarrow> pystr list \<Rightarrow> bool \<Rightarrow> pystr \<Rightarrow> pystr" where
  "redact_text ud secrets patterns value =
     (let result = fold (\<lambda>secret r. replace_all secret REDACTED r) (exact_secrets secrets) value
      in if \<not> patterns then result
         else take 1000000
           (fold (\<lambda>(ic, p) r. re_sub (ud_word ud) ic p REDACTED r) SECRET_VALUE_PATTERNS result))"

definition token_counter :: "unidata \<Rightarrow> pystr \<Rightarrow> pyval \<Rightarrow> bool" where
  "token_counter ud key v \<longleftrightarrow> endswith (ud_lower ud key) (lit ''_tokens'') \<and>
     (case v of PInt i \<Rightarrow> 0 \<le> i | _ \<Rightarrow> False)"

definition secret_key :: "unidata \<Rightarrow> pystr \<Rightarrow> pyval \<Rightarrow> bool" where
  "secret_key ud key v \<longleftrightarrow> key \<noteq> [] \<and> re_search (ud_word ud) True SECRET_NAME key \<and>
     \<not> token_counter ud key v"

function redact :: "unidata \<Rightarrow> pystr list \<Rightarrow> bool \<Rightarrow> pystr \<Rightarrow> pyval \<Rightarrow> pyval" where
  "redact ud secrets patterns key v =
     (if secret_key ud key v then PStr REDACTED
      else case v of
        PMap m \<Rightarrow> PMap (map (\<lambda>e. (fst e, redact ud secrets patterns (fst e) (snd e))) m)
      | PSeq xs \<Rightarrow> PSeq (map (\<lambda>x. redact ud secrets patterns [] x) (take 500 xs))
      | PStr s \<Rightarrow> PStr (redact_text ud secrets patterns s)
      | _ \<Rightarrow> v)"
  by pat_completeness auto
termination
  by (relation "measure (\<lambda>(ud, secrets, patterns, key, v). size v)")
    (auto dest!: in_set_takeD dest: size_PSeq size_PMap)

declare redact.simps [simp del]

definition redact_content :: "unidata \<Rightarrow> pystr list \<Rightarrow> pyval \<Rightarrow> pyval" where
  "redact_content ud secrets v = redact ud secrets False [] v"

text \<open>\<^verbatim>\<open>redact_content(text)\<close> as other modules call it on a text, without naming any secret.\<close>

definition redacted_str :: "unidata \<Rightarrow> pystr \<Rightarrow> pystr" where
  "redacted_str ud s = (case redact_content ud [] (PStr s) of PStr t \<Rightarrow> t | _ \<Rightarrow> [])"

text \<open>Without a named secret it returns the text as it is.\<close>

lemma redacted_str_id [simp]: "redacted_str ud s = s"
  by (simp add: redacted_str_def redact_content_def redact.simps secret_key_def redact_text_def exact_secrets_def)

section \<open>Child environments\<close>

definition SAFE_CHILD_ENVIRONMENT :: "pystr set" where
  "SAFE_CHILD_ENVIRONMENT = lit ` {''APPDATA'', ''CI'', ''COLORTERM'', ''COMSPEC'', ''HOME'', ''LANG'',
     ''LANGUAGE'', ''LOCALAPPDATA'', ''NO_COLOR'', ''NUMBER_OF_PROCESSORS'', ''OS'', ''PATH'',
     ''PATHEXT'', ''SYSTEMDRIVE'', ''SYSTEMROOT'', ''TEMP'', ''TERM'', ''TMP'', ''TMPDIR'',
     ''USERPROFILE'', ''WINDIR'', ''PLAYWRIGHT_BROWSERS_PATH''}"

definition FORCED_CHILD_ENCODING :: "(pystr, pystr) dict" where
  "FORCED_CHILD_ENCODING = [(lit ''PYTHONIOENCODING'', lit ''utf-8''), (lit ''PYTHONUTF8'', lit ''1'')]"

definition child_process_environment :: "unidata \<Rightarrow> (pystr, pystr) dict \<Rightarrow> (pystr, pystr) dict" where
  "child_process_environment ud values =
     fold (\<lambda>(k, v) env. AList.update k v env) FORCED_CHILD_ENCODING
       (filter (\<lambda>(key, value). ud_upper ud key \<in> SAFE_CHILD_ENVIRONMENT \<or>
          startswith (ud_upper ud key) (lit ''LC_'')) values)"

section \<open>What replacement leaves\<close>

text \<open>A text in which some segments are replaced by \<open>R\<close>.\<close>

inductive patched :: "pystr \<Rightarrow> pystr \<Rightarrow> pystr \<Rightarrow> bool" for R where
  patched_Nil: "patched R [] []"
| patched_keep: "patched R s t \<Longrightarrow> patched R (c # s) (c # t)"
| patched_cut: "patched R s t \<Longrightarrow> patched R (u @ s) (R @ t)"

inductive_cases patched_NilE: "patched R [] t"

lemma patched_refl: "patched R s s"
  by (induction s) (auto intro: patched.intros)

lemma replace_all_patched: "patched new s (replace_all old new s)"
proof (induction old new s rule: replace_all.induct)
  case (1 old new s)
  show ?case
  proof (cases "s = [] \<or> old = []")
    case True
    then show ?thesis by (subst replace_all.simps) (auto intro: patched_refl)
  next
    case no: False
    show ?thesis
    proof (cases "startswith s old")
      case True
      then have "s = old @ drop (length old) s"
        by (metis append_take_drop_id startswith_def)
      moreover from 1(1) [OF no True]
      have "patched new (old @ drop (length old) s) (new @ replace_all old new (drop (length old) s))"
        by (rule patched_cut)
      ultimately show ?thesis using no True by (subst replace_all.simps) simp
    next
      case False
      from 1(2) [OF no False]
      have "patched new (hd s # tl s) (hd s # replace_all old new (tl s))" by (rule patched_keep)
      with no False show ?thesis by (subst replace_all.simps) simp
    qed
  qed
qed

lemma re_sub_at_patched: "patched rep (drop i s) (re_sub_at isw ic r rep s i)"
proof (induction isw ic r rep s i rule: re_sub_at.induct)
  case (1 isw ic r rep s i)
  show ?case
  proof (cases "length s \<le> i")
    case True
    then show ?thesis by (subst re_sub_at.simps) (simp add: patched_Nil)
  next
    case no: False
    then have d: "drop i s = s ! i # drop (Suc i) s" by (simp add: Cons_nth_drop_Suc)
    show ?thesis
    proof (cases "ends isw ic s r i")
      case Nil
      from patched_keep [OF 1(1) [OF no Nil], of "s ! i"] no Nil d show ?thesis
        by (subst re_sub_at.simps) simp
    next
      case (Cons j js)
      show ?thesis
      proof (cases "j \<le> i")
        case True
        from patched_keep [OF 1(2) [OF no Cons True], of "s ! i"] no Cons True d show ?thesis
          by (subst re_sub_at.simps) simp
      next
        case False
        have "drop i s = take (j - i) (drop i s) @ drop j s"
          using False by (metis append_take_drop_id drop_drop le_add_diff_inverse2 nat_le_linear)
        with patched_cut [OF 1(3) [OF no Cons False], of "take (j - i) (drop i s)"] no Cons False
        show ?thesis by (subst re_sub_at.simps) simp
      qed
    qed
  qed
qed

lemma re_sub_patched: "patched rep s (re_sub isw ic r rep s)"
  using re_sub_at_patched [of rep 0 s] by (simp add: re_sub_def)

text \<open>A secret that replacement can neither create nor hide in: no bracket in it, and not part of the
  word between the brackets.\<close>

definition clean_secret :: "pystr \<Rightarrow> bool" where
  "clean_secret p \<longleftrightarrow> p \<noteq> [] \<and> 91 \<notin> set p \<and> 93 \<notin> set p \<and> \<not> contains (lit ''REDACTED'') p"

lemma patched_prefix:
  "patched R s t \<Longrightarrow> R = c # R' \<Longrightarrow> c \<notin> set p \<Longrightarrow> prefix p t \<Longrightarrow> prefix p s"
proof (induction arbitrary: p rule: patched.induct)
  case (patched_keep s t x)
  then show ?case by (cases p) auto
next
  case (patched_cut s t u)
  then show ?case by (cases p) auto
qed simp

lemma not_in_REDACTED: "clean_secret p \<Longrightarrow> \<not> sublist p REDACTED"
proof
  assume c: "clean_secret p" and s: "sublist p REDACTED"
  then have "sublist p (lit ''REDACTED'' @ [93])"
    by (cases p) (auto simp: REDACTED_def clean_secret_def sublist_Cons_right)
  then show False
    using c by (auto simp: sublist_append clean_secret_def contains_sublist suffix_def prefix_Cons
        sublist_Cons_right)
qed

lemma cut_no_secret:
  assumes c: "clean_secret p" and t: "\<not> sublist p t"
  shows "\<not> sublist p (REDACTED @ t)"
proof
  assume "sublist p (REDACTED @ t)"
  then obtain x y where "p = x @ y" "suffix x REDACTED" "prefix y t"
    using not_in_REDACTED [OF c] t by (auto simp: sublist_append)
  moreover from this(2) have "x = [] \<or> 93 \<in> set x"
    by (cases x rule: rev_cases) (auto simp: REDACTED_def suffix_def)
  moreover have "x \<noteq> []" using t \<open>p = x @ y\<close> \<open>prefix y t\<close> prefix_imp_sublist by auto
  ultimately show False using c by (auto simp: clean_secret_def)
qed

lemma patched_no_secret:
  "patched R s t \<Longrightarrow> R = REDACTED \<Longrightarrow> clean_secret p \<Longrightarrow> \<not> sublist p s \<Longrightarrow> \<not> sublist p t"
proof (induction rule: patched.induct)
  case (patched_keep s t c)
  have "\<not> prefix p (c # t)"
  proof
    assume "prefix p (c # t)"
    then have "prefix p (c # s)"
      using patched_prefix [OF patched.patched_keep [OF patched_keep.hyps], of 91 "lit ''REDACTED'' @ [93]"]
        patched_keep.prems by (simp add: REDACTED_def clean_secret_def)
    with patched_keep.prems show False by (auto dest: prefix_imp_sublist)
  qed
  with patched_keep show ?case by (auto simp: sublist_Cons_right)
next
  case (patched_cut s t u)
  then have "\<not> sublist p s" by (auto simp: sublist_append)
  with patched_cut show ?case by (auto dest: cut_no_secret)
qed simp

lemma replace_all_removes: "clean_secret p \<Longrightarrow> \<not> sublist p (replace_all p REDACTED s)"
proof (induction p REDACTED s rule: replace_all.induct)
  case (1 p s)
  show ?case
  proof (cases "s = [] \<or> p = []")
    case True
    with 1(3) show ?thesis by (subst replace_all.simps) (auto simp: clean_secret_def)
  next
    case no: False
    show ?thesis
    proof (cases "startswith s p")
      case True
      from cut_no_secret [OF 1(3) 1(1) [OF no True 1(3)]] no True show ?thesis
        by (subst replace_all.simps) simp
    next
      case False
      have eq: "replace_all p REDACTED s = hd s # replace_all p REDACTED (tl s)"
        using no False by (subst replace_all.simps) simp
      have "\<not> prefix p (replace_all p REDACTED s)"
      proof
        assume pre: "prefix p (replace_all p REDACTED s)"
        have "91 \<notin> set p" using 1(3) by (simp add: clean_secret_def)
        from patched_prefix [OF replace_all_patched REDACTED_def this pre] False
        show False by (simp add: startswith_prefix)
      qed
      with 1(2) [OF no False 1(3)] show ?thesis unfolding eq by (simp only: sublist_Cons_right) blast
    qed
  qed
qed

lemma fold_patched:
  "\<forall>f \<in> set fs. \<forall>r. patched REDACTED r (g f r) \<Longrightarrow> clean_secret p \<Longrightarrow> \<not> sublist p s \<Longrightarrow>
    \<not> sublist p (fold g fs s)"
  by (induction fs arbitrary: s) (auto dest: patched_no_secret)

lemma redact_text_no_secret:
  assumes "p \<in> set secrets" "clean_secret p"
  shows "\<not> sublist p (redact_text ud secrets patterns s)"
proof -
  let ?f = "\<lambda>secret r. replace_all secret REDACTED r"
  have "p \<in> set (exact_secrets secrets)" using assms by (simp add: exact_secrets_def clean_secret_def)
  then obtain xs ys where xs: "exact_secrets secrets = xs @ p # ys" by (metis split_list)
  have a: "\<not> sublist p (fold ?f (exact_secrets secrets) s)"
    unfolding xs fold_append o_apply fold_simps
    by (rule fold_patched [OF _ assms(2) replace_all_removes [OF assms(2)]])
      (simp add: replace_all_patched)
  have "\<not> sublist p (fold (\<lambda>(ic, q) r. re_sub (ud_word ud) ic q REDACTED r) SECRET_VALUE_PATTERNS
      (fold ?f (exact_secrets secrets) s))"
    by (rule fold_patched [OF _ assms(2) a]) (auto simp: re_sub_patched)
  then have "\<not> sublist p (take 1000000 (fold (\<lambda>(ic, q) r. re_sub (ud_word ud) ic q REDACTED r)
      SECRET_VALUE_PATTERNS (fold ?f (exact_secrets secrets) s)))"
    using sublist_order.order.trans sublist_take by blast
  with a show ?thesis by (simp add: redact_text_def Let_def)
qed

text \<open>The string values inside a value; dictionary keys are not among them.\<close>

function strings_in :: "pyval \<Rightarrow> pystr set" where
  "strings_in v =
     (case v of PStr s \<Rightarrow> {s} | PSeq xs \<Rightarrow> (\<Union>x \<in> set xs. strings_in x)
      | PMap m \<Rightarrow> (\<Union>e \<in> set m. strings_in (snd e)) | _ \<Rightarrow> {})"
  by pat_completeness auto
termination
  by (relation "measure size") (auto dest: size_PSeq size_PMap)

declare strings_in.simps [simp del]

lemma redact_no_secret:
  "p \<in> set secrets \<Longrightarrow> clean_secret p \<Longrightarrow> t \<in> strings_in (redact ud secrets patterns key v) \<Longrightarrow>
    \<not> contains t p"
proof (induction ud secrets patterns key v arbitrary: t rule: redact.induct)
  case (1 ud secrets patterns key v)
  show ?case
  proof (cases "secret_key ud key v")
    case True
    with 1(5) have "t = REDACTED" by (subst (asm) redact.simps) (simp add: strings_in.simps)
    with not_in_REDACTED [OF 1(4)] show ?thesis by (simp add: contains_sublist)
  next
    case False
    show ?thesis
    proof (cases v)
      case (PStr s)
      with False 1(5) have "t = redact_text ud secrets patterns s"
        by (subst (asm) redact.simps) (simp add: strings_in.simps)
      with redact_text_no_secret [OF 1(3,4)] show ?thesis by (simp add: contains_sublist)
    next
      case (PMap m)
      with False 1(5) obtain e where "e \<in> set m" "t \<in> strings_in (redact ud secrets patterns (fst e) (snd e))"
        by (subst (asm) redact.simps) (auto simp: strings_in.simps [of "PMap _"])
      with 1(2) [OF False PMap] 1(3,4) show ?thesis by blast
    next
      case (PSeq xs)
      with False 1(5) obtain x where "x \<in> set (take 500 xs)" "t \<in> strings_in (redact ud secrets patterns [] x)"
        by (subst (asm) redact.simps) (auto simp: strings_in.simps [of "PSeq _"])
      with 1(1) [OF False PSeq] 1(3,4) show ?thesis by blast
    qed (use False 1(5) in \<open>subst (asm) redact.simps, simp add: strings_in.simps\<close>)+
  qed
qed

end
