(* ===== verification/LogInterface.thy ===== *)
theory LogInterface imports KaroxPrelude begin

text \<open>
  The contract of a bounded, numbered log that readers poll: appending numbers the new entry one
  above the last number and may evict old entries from the front, never from the middle. The client
  is a reader that asks for everything after the last number it has seen.
\<close>

locale numbered_log =
  fixes nums :: "'s \<Rightarrow> nat list"
    and top :: "'s \<Rightarrow> nat"
    and append :: "'a \<Rightarrow> 's \<Rightarrow> 's"
    and capacity :: "'s \<Rightarrow> nat"
    and ok :: "'s \<Rightarrow> bool"
  assumes contiguous: "ok s \<Longrightarrow> nums s = [Suc (top s) - length (nums s)..<Suc (top s)]"
    and ok_append: "ok s \<Longrightarrow> ok (append x s)"
    and top_append: "ok s \<Longrightarrow> top (append x s) = Suc (top s)"
    and capacity_append: "capacity (append x s) = capacity s"
    and length_append: "ok s \<Longrightarrow> length (nums (append x s)) = min (capacity s) (Suc (length (nums s)))"
    and capacity_pos: "ok s \<Longrightarrow> 0 < capacity s"
    and length_le: "ok s \<Longrightarrow> length (nums s) \<le> top s"
begin

lemma fold_append:
  "ok s \<Longrightarrow> ok (fold append xs s) \<and> top (fold append xs s) = top s + length xs \<and>
     capacity (fold append xs s) = capacity s"
  by (induction xs arbitrary: s) (auto simp: ok_append top_append capacity_append)

lemma fold_length:
  "ok s \<Longrightarrow> length (nums s) \<le> capacity s \<Longrightarrow>
     length (nums (fold append xs s)) = min (capacity s) (length (nums s) + length xs)"
proof (induction xs arbitrary: s)
  case (Cons x xs)
  then show ?case
    using length_append [OF Cons.prems(1), of x]
    by (simp add: ok_append capacity_append)
qed simp

text \<open>After any number of appends a reader that had seen everything gets exactly the new numbers that
  are still held: all of them, in order, unless more than the capacity arrived.\<close>

lemma poll_gets_the_new:
  assumes "ok s" "length (nums s) \<le> capacity s"
  shows "filter (\<lambda>n. top s < n) (nums (fold append xs s)) =
    [Suc (top s + length xs) - min (capacity s) (length xs)..<Suc (top s + length xs)]"
proof -
  let ?t = "fold append xs s"
  let ?n = "min (capacity s) (length (nums s) + length xs)"
  have t: "ok ?t" "top ?t = top s + length xs" using fold_append [OF assms(1)] by auto
  have "nums ?t = [Suc (top s + length xs) - ?n..<Suc (top s + length xs)]"
    using contiguous [OF t(1)] t(2) fold_length [OF assms, of xs] by (simp del: upt_Suc)
  moreover have "filter (\<lambda>n. k < n) [a..<b] = [max a (Suc k)..<b]" for a b k :: nat
    by (induction b) (auto simp: max_def upt_Suc)
  moreover have "max (Suc (top s + length xs) - ?n) (Suc (top s)) =
      Suc (top s + length xs) - min (capacity s) (length xs)"
    by (auto simp: max_def min_def)
  ultimately show ?thesis by (simp del: upt_Suc)
qed

lemma poll_misses_nothing:
  assumes "ok s" "length (nums s) \<le> capacity s" "length xs \<le> capacity s"
  shows "filter (\<lambda>n. top s < n) (nums (fold append xs s)) = [Suc (top s)..<Suc (top s + length xs)]"
  using poll_gets_the_new [OF assms(1,2), of xs] assms(3) by (simp add: min_absorb2 del: upt_Suc)

end

end
