(* ===== verification/EventBus.thy ===== *)
theory EventBus imports Security LogInterface begin

text \<open>
  The event bus of \<^verbatim>\<open>src/karox/event_bus.py\<close>: a bounded ring of typed, redacted, numbered events
  with subscribers. The part of \<^verbatim>\<open>publish\<close> under the lock and the delivery after it are one step: a
  subscriber that publishes in turn does so after the lock is released, which is another step.
  A subscriber is the predicate that says for which events it raises.
\<close>

section \<open>Events\<close>

datatype EventKind =
    AGENT_ACTION | TOOL_CALL | BROWSER_ACTION | SESSION_STATE | CONNECTION_STATE | RISK_DECISION
  | CONFIRMATION_EVENT | PERFORMANCE_SPAN | HEALTH_CHANGE | EVIDENCE | ERROR_EVENT

fun kind_value :: "EventKind \<Rightarrow> pystr" where
  "kind_value AGENT_ACTION = lit ''agent_action''"
| "kind_value TOOL_CALL = lit ''tool_call''"
| "kind_value BROWSER_ACTION = lit ''browser_action''"
| "kind_value SESSION_STATE = lit ''session_state''"
| "kind_value CONNECTION_STATE = lit ''connection_state''"
| "kind_value RISK_DECISION = lit ''risk_decision''"
| "kind_value CONFIRMATION_EVENT = lit ''confirmation''"
| "kind_value PERFORMANCE_SPAN = lit ''performance_span''"
| "kind_value HEALTH_CHANGE = lit ''health_change''"
| "kind_value EVIDENCE = lit ''evidence''"
| "kind_value ERROR_EVENT = lit ''error''"

datatype EventLevel = INFO | WARNING | LEVEL_ERROR

fun level_value :: "EventLevel \<Rightarrow> pystr" where
  "level_value INFO = lit ''info''"
| "level_value WARNING = lit ''warning''"
| "level_value LEVEL_ERROR = lit ''error''"

definition DEFAULT_CAPACITY :: nat where
  "DEFAULT_CAPACITY = 2000"

definition MAX_SUMMARY :: nat where
  "MAX_SUMMARY = 300"

definition clip_summary :: "pystr \<Rightarrow> pystr" where
  "clip_summary value =
     (let text = py_strip (replace_char 10 32 (replace_char 13 32 value))
      in if length text > MAX_SUMMARY then take (MAX_SUMMARY - 1) text @ [8230] else text)"

record Event =
  ev_seq :: nat
  ev_kind :: EventKind
  ev_session_id :: pystr
  ev_source :: pystr
  ev_timestamp :: real
  ev_summary :: pystr
  ev_level :: EventLevel
  ev_data :: "(pystr, pyval) dict"

definition event_to_dict :: "Event \<Rightarrow> (pystr, pyval) dict" where
  "event_to_dict e =
     [(lit ''seq'', PInt (int (ev_seq e))), (lit ''kind'', PStr (kind_value (ev_kind e))),
      (lit ''session_id'', PStr (ev_session_id e)), (lit ''source'', PStr (ev_source e)),
      (lit ''timestamp'', PFloat (ev_timestamp e)), (lit ''summary'', PStr (ev_summary e)),
      (lit ''level'', PStr (level_value (ev_level e))), (lit ''data'', PMap (ev_data e))]"

section \<open>The bus\<close>

type_synonym subscriber = "Event \<Rightarrow> bool"

record bus =
  eb_events :: "Event list"
  eb_capacity :: nat
  eb_seq :: nat
  eb_dropped :: nat
  eb_subscriber_errors :: nat
  eb_subscribers :: "(nat, subscriber) dict"
  eb_next_subscriber_id :: nat

definition new_bus :: "int \<Rightarrow> bus option" where
  "new_bus capacity =
     (if capacity \<le> 0 then None
      else Some \<lparr>eb_events = [], eb_capacity = nat capacity, eb_seq = 0, eb_dropped = 0,
        eb_subscriber_errors = 0, eb_subscribers = [], eb_next_subscriber_id = 0\<rparr>)"

record publication =
  pb_kind :: EventKind
  pb_session_id :: pystr
  pb_summary :: pystr
  pb_source :: pystr
  pb_level :: EventLevel
  pb_data :: "(pystr, pyval) dict"
  pb_secrets :: "pystr list"

definition safe_data :: "unidata \<Rightarrow> publication \<Rightarrow> (pystr, pyval) dict" where
  "safe_data ud p =
     (case redact ud (pb_secrets p) True [] (PMap (pb_data p)) of PMap m \<Rightarrow> m | _ \<Rightarrow> [])"

definition safe_summary :: "unidata \<Rightarrow> publication \<Rightarrow> pystr" where
  "safe_summary ud p =
     clip_summary (case redact ud (pb_secrets p) True [] (PStr (pb_summary p)) of PStr s \<Rightarrow> s | _ \<Rightarrow> [])"

definition make_event :: "unidata \<Rightarrow> real \<Rightarrow> publication \<Rightarrow> nat \<Rightarrow> Event" where
  "make_event ud now p n =
     \<lparr>ev_seq = n, ev_kind = pb_kind p, ev_session_id = pb_session_id p,
      ev_source = (if pb_source p = [] then lit ''karox'' else pb_source p), ev_timestamp = now,
      ev_summary = safe_summary ud p, ev_level = pb_level p, ev_data = safe_data ud p\<rparr>"

text \<open>\<^verbatim>\<open>deque.append\<close> on a full ring drops the oldest element.\<close>

definition ring_append :: "nat \<Rightarrow> 'a list \<Rightarrow> 'a \<Rightarrow> 'a list" where
  "ring_append cap xs x = (let ys = xs @ [x] in drop (length ys - cap) ys)"

definition deliver :: "Event \<Rightarrow> bus \<Rightarrow> bus" where
  "deliver e b = fold (\<lambda>(k, raises) b'.
      if raises e then b'\<lparr>eb_subscriber_errors := eb_subscriber_errors b' + 1\<rparr> else b')
    (eb_subscribers b) b"

definition publish :: "unidata \<Rightarrow> real \<Rightarrow> publication \<Rightarrow> bus \<Rightarrow> Event \<times> bus" where
  "publish ud now p b =
     (let e = make_event ud now p (eb_seq b + 1);
          b1 = b\<lparr>eb_seq := eb_seq b + 1,
                 eb_dropped := (if length (eb_events b) = eb_capacity b
                                then eb_dropped b + 1 else eb_dropped b),
                 eb_events := ring_append (eb_capacity b) (eb_events b) e\<rparr>
      in (e, deliver e b1))"

definition subscribe :: "subscriber \<Rightarrow> bus \<Rightarrow> nat \<times> bus" where
  "subscribe callback b =
     (let key = eb_next_subscriber_id b + 1
      in (key, b\<lparr>eb_next_subscriber_id := key,
                 eb_subscribers := AList.update key callback (eb_subscribers b)\<rparr>))"

definition unsubscribe :: "nat \<Rightarrow> bus \<Rightarrow> bus" where
  "unsubscribe key b = b\<lparr>eb_subscribers := AList.delete key (eb_subscribers b)\<rparr>"

text \<open>\<^verbatim>\<open>xs[-n:]\<close>: for \<open>n = 0\<close> this is \<^verbatim>\<open>xs[0:]\<close>, the whole list.\<close>

definition last_slice :: "nat \<Rightarrow> 'a list \<Rightarrow> 'a list" where
  "last_slice n xs = (if n = 0 then xs else drop (length xs - n) xs)"

definition snapshot :: "int \<Rightarrow> int option \<Rightarrow> EventKind list option \<Rightarrow> pystr option \<Rightarrow> bus \<Rightarrow> Event list" where
  "snapshot since limit kinds session b =
     (let items = filter (\<lambda>e. int (ev_seq e) > since) (eb_events b);
          items = (case kinds of Some (k # ks) \<Rightarrow> filter (\<lambda>e. ev_kind e \<in> set (k # ks)) items | _ \<Rightarrow> items);
          items = (case session of Some s \<Rightarrow> filter (\<lambda>e. ev_session_id e = s) items | None \<Rightarrow> items)
      in case limit of
           None \<Rightarrow> items
         | Some n \<Rightarrow> if n \<ge> 0 then (if n \<noteq> 0 then last_slice (nat n) items else []) else items)"

definition latest_seq :: "bus \<Rightarrow> nat" where
  "latest_seq b = eb_seq b"

definition clear_events :: "bus \<Rightarrow> bus" where
  "clear_events b = b\<lparr>eb_events := []\<rparr>"

record support_record =
  sr_capacity :: nat
  sr_buffered :: nat
  sr_dropped :: nat
  sr_subscriber_errors :: nat
  sr_latest_seq :: nat
  sr_events :: "(pystr, pyval) dict list"

definition export_support_record :: "int \<Rightarrow> bus \<Rightarrow> support_record" where
  "export_support_record limit b =
     \<lparr>sr_capacity = eb_capacity b, sr_buffered = length (eb_events b), sr_dropped = eb_dropped b,
      sr_subscriber_errors = eb_subscriber_errors b, sr_latest_seq = eb_seq b,
      sr_events = map event_to_dict (last_slice (nat (max limit 0)) (eb_events b))\<rparr>"

text \<open>\<^verbatim>\<open>span\<close>: the body returns the dictionary it was given, changed, and the name of the exception it
  ended with, if any. \<open>fmt\<close> is Python's formatting of a float in an f-string.\<close>

definition dict_update :: "(pystr, pyval) dict \<Rightarrow> (pystr, pyval) dict \<Rightarrow> (pystr, pyval) dict" where
  "dict_update new d = fold (\<lambda>(k, v). AList.update k v) new d"

definition span :: "unidata \<Rightarrow> (real \<Rightarrow> pystr) \<Rightarrow> real \<Rightarrow> pystr \<Rightarrow> pystr \<Rightarrow> pystr \<Rightarrow> pystr \<Rightarrow> real \<Rightarrow> real \<Rightarrow>
    (pystr, pyval) dict \<Rightarrow> pystr option \<Rightarrow> bus \<Rightarrow> Event \<times> bus" where
  "span ud fmt now name session source component started ended extra failed b =
     (let duration = py_round 3 ((ended - started) * 1000);
          payload = dict_update [(lit ''span'', PStr name), (lit ''component'', PStr component),
            (lit ''duration_ms'', PFloat duration)] extra;
          payload = (case failed of
             Some f \<Rightarrow> AList.update (lit ''failed'') (PStr f) payload | None \<Rightarrow> payload)
      in publish ud now
           \<lparr>pb_kind = PERFORMANCE_SPAN, pb_session_id = session,
            pb_summary = name @ [32] @ fmt duration @ lit '' ms'', pb_source = source,
            pb_level = (if failed \<noteq> None then WARNING else INFO), pb_data = payload,
            pb_secrets = []\<rparr> b)"

section \<open>The invariant\<close>

text \<open>The buffer holds the events with the highest numbers, without gaps, within the capacity.\<close>

definition bus_ok :: "bus \<Rightarrow> bool" where
  "bus_ok b \<longleftrightarrow> 0 < eb_capacity b \<and> length (eb_events b) \<le> eb_capacity b \<and>
     length (eb_events b) \<le> eb_seq b \<and>
     map ev_seq (eb_events b) = [Suc (eb_seq b) - length (eb_events b)..<Suc (eb_seq b)]"

lemma deliver_keeps:
  "eb_events (deliver e b) = eb_events b" "eb_seq (deliver e b) = eb_seq b"
  "eb_capacity (deliver e b) = eb_capacity b" "eb_dropped (deliver e b) = eb_dropped b"
  "eb_subscribers (deliver e b) = eb_subscribers b"
proof -
  have "eb_events (fold (\<lambda>(k, raises) b'. if raises e
        then b'\<lparr>eb_subscriber_errors := eb_subscriber_errors b' + 1\<rparr> else b') xs b) = eb_events b \<and>
      eb_seq (fold (\<lambda>(k, raises) b'. if raises e
        then b'\<lparr>eb_subscriber_errors := eb_subscriber_errors b' + 1\<rparr> else b') xs b) = eb_seq b \<and>
      eb_capacity (fold (\<lambda>(k, raises) b'. if raises e
        then b'\<lparr>eb_subscriber_errors := eb_subscriber_errors b' + 1\<rparr> else b') xs b) = eb_capacity b \<and>
      eb_dropped (fold (\<lambda>(k, raises) b'. if raises e
        then b'\<lparr>eb_subscriber_errors := eb_subscriber_errors b' + 1\<rparr> else b') xs b) = eb_dropped b \<and>
      eb_subscribers (fold (\<lambda>(k, raises) b'. if raises e
        then b'\<lparr>eb_subscriber_errors := eb_subscriber_errors b' + 1\<rparr> else b') xs b) = eb_subscribers b"
    for xs by (induction xs arbitrary: b) auto
  then show "eb_events (deliver e b) = eb_events b" "eb_seq (deliver e b) = eb_seq b"
    "eb_capacity (deliver e b) = eb_capacity b" "eb_dropped (deliver e b) = eb_dropped b"
    "eb_subscribers (deliver e b) = eb_subscribers b"
    by (auto simp: deliver_def)
qed

lemma publish_state:
  "eb_seq (snd (publish ud now p b)) = Suc (eb_seq b)"
  "eb_capacity (snd (publish ud now p b)) = eb_capacity b"
  "eb_events (snd (publish ud now p b)) =
     ring_append (eb_capacity b) (eb_events b) (make_event ud now p (Suc (eb_seq b)))"
  "eb_dropped (snd (publish ud now p b)) =
     (if length (eb_events b) = eb_capacity b then Suc (eb_dropped b) else eb_dropped b)"
  "fst (publish ud now p b) = make_event ud now p (Suc (eb_seq b))"
  by (simp_all add: publish_def Let_def deliver_keeps)

lemma make_event_seq [simp]: "ev_seq (make_event ud now p n) = n"
  by (simp add: make_event_def)

lemma ring_append_length: "0 < cap \<Longrightarrow> length xs \<le> cap \<Longrightarrow> length (ring_append cap xs x) = min cap (Suc (length xs))"
  by (auto simp: ring_append_def Let_def min_def)

lemma publish_ok: "bus_ok b \<Longrightarrow> bus_ok (snd (publish ud now p b))"
proof -
  assume ok: "bus_ok b"
  let ?e = "make_event ud now p (Suc (eb_seq b))"
  have l: "length (eb_events b) \<le> eb_capacity b" "0 < eb_capacity b"
    "length (eb_events b) \<le> eb_seq b" using ok by (auto simp: bus_ok_def)
  have "map ev_seq (eb_events b @ [?e]) = [Suc (eb_seq b) - length (eb_events b)..<Suc (Suc (eb_seq b))]"
    using ok by (simp add: bus_ok_def)
  then have "map ev_seq (ring_append (eb_capacity b) (eb_events b) ?e) =
      drop (Suc (length (eb_events b)) - eb_capacity b)
        [Suc (eb_seq b) - length (eb_events b)..<Suc (Suc (eb_seq b))]"
    by (simp add: ring_append_def Let_def drop_map [symmetric] del: map_append upt_Suc drop_append drop_upt)
  also have "\<dots> = [Suc (Suc (eb_seq b)) - min (eb_capacity b) (Suc (length (eb_events b)))..<Suc (Suc (eb_seq b))]"
  proof -
    have "Suc (eb_seq b) - length (eb_events b) + (Suc (length (eb_events b)) - eb_capacity b) =
        Suc (Suc (eb_seq b)) - min (eb_capacity b) (Suc (length (eb_events b)))"
      using l by (auto simp: min_def)
    then show ?thesis by (simp del: upt_Suc)
  qed
  finally show ?thesis
    using l by (simp add: bus_ok_def publish_state ring_append_length min.coboundedI1 min.coboundedI2
        del: upt_Suc)
qed

interpretation bus_log: numbered_log "\<lambda>b. map ev_seq (eb_events b)" eb_seq
  "\<lambda>(now, p) b. snd (publish ud now p b)" eb_capacity bus_ok for ud
proof
  fix s :: bus and x :: "real \<times> publication"
  show "bus_ok s \<Longrightarrow> map ev_seq (eb_events s) =
      [Suc (eb_seq s) - length (map ev_seq (eb_events s))..<Suc (eb_seq s)]"
    by (simp add: bus_ok_def)
  show "bus_ok s \<Longrightarrow> bus_ok ((\<lambda>(now, p) b. snd (publish ud now p b)) x s)"
    by (simp add: publish_ok case_prod_beta)
  show "bus_ok s \<Longrightarrow> eb_seq ((\<lambda>(now, p) b. snd (publish ud now p b)) x s) = Suc (eb_seq s)"
    "eb_capacity ((\<lambda>(now, p) b. snd (publish ud now p b)) x s) = eb_capacity s"
    by (simp_all add: publish_state case_prod_beta)
  show "bus_ok s \<Longrightarrow> length (map ev_seq (eb_events ((\<lambda>(now, p) b. snd (publish ud now p b)) x s))) =
      min (eb_capacity s) (Suc (length (map ev_seq (eb_events s))))"
    by (simp add: publish_state case_prod_beta ring_append_length bus_ok_def del: upt_Suc)
  show "bus_ok s \<Longrightarrow> 0 < eb_capacity s" "bus_ok s \<Longrightarrow> length (map ev_seq (eb_events s)) \<le> eb_seq s"
    by (simp_all add: bus_ok_def del: upt_Suc)
qed

section \<open>Runs\<close>

text \<open>Everything that changes a bus.\<close>

datatype bus_op =
    Publish real publication
  | Subscribe subscriber
  | Unsubscribe nat
  | Clear

fun bus_step :: "unidata \<Rightarrow> bus_op \<Rightarrow> bus \<Rightarrow> bus" where
  "bus_step ud (Publish now p) b = snd (publish ud now p b)"
| "bus_step ud (Subscribe f) b = snd (subscribe f b)"
| "bus_step ud (Unsubscribe k) b = unsubscribe k b"
| "bus_step ud Clear b = clear_events b"

inductive reachable_bus :: "unidata \<Rightarrow> bus \<Rightarrow> bool" for ud where
  start: "new_bus capacity = Some b \<Longrightarrow> reachable_bus ud b"
| step: "reachable_bus ud b \<Longrightarrow> reachable_bus ud (bus_step ud op b)"

inductive_cases reachable_busE: "reachable_bus ud b"

lemma step_ok: "bus_ok b \<Longrightarrow> bus_ok (bus_step ud op b)"
proof (cases op)
  case (Publish now p)
  then show "bus_ok b \<Longrightarrow> ?thesis" by (simp add: publish_ok)
qed (simp_all add: subscribe_def unsubscribe_def clear_events_def Let_def bus_ok_def del: upt_Suc)

lemma new_bus_ok: "new_bus capacity = Some b \<Longrightarrow> bus_ok b"
  by (auto simp: new_bus_def bus_ok_def split: if_splits)

lemma reachable_ok: "reachable_bus ud b \<Longrightarrow> bus_ok b"
  by (induction rule: reachable_bus.induct) (auto intro: new_bus_ok step_ok)

text \<open>How many published events a run of operations throws away by clearing.\<close>

fun cleared :: "unidata \<Rightarrow> bus_op list \<Rightarrow> bus \<Rightarrow> nat" where
  "cleared ud [] b = 0"
| "cleared ud (op # ops) b =
     (case op of Clear \<Rightarrow> length (eb_events b) | _ \<Rightarrow> 0) + cleared ud ops (bus_step ud op b)"

lemma step_account:
  "bus_ok b \<Longrightarrow> eb_seq (bus_step ud op b) + length (eb_events b) + eb_dropped b =
     eb_seq b + length (eb_events (bus_step ud op b)) + eb_dropped (bus_step ud op b) +
     (case op of Clear \<Rightarrow> length (eb_events b) | _ \<Rightarrow> 0)"
  by (cases op)
    (auto simp: publish_state ring_append_length bus_ok_def subscribe_def unsubscribe_def
      clear_events_def Let_def min_def simp del: upt_Suc)

lemma run_account:
  "bus_ok b \<Longrightarrow> eb_seq (fold (bus_step ud) ops b) + length (eb_events b) + eb_dropped b =
     eb_seq b + length (eb_events (fold (bus_step ud) ops b)) +
     eb_dropped (fold (bus_step ud) ops b) + cleared ud ops b"
proof (induction ops arbitrary: b)
  case (Cons op ops)
  from Cons.IH [OF step_ok [OF Cons.prems, of ud op]] step_account [OF Cons.prems, of ud op]
  show ?case by simp
qed simp

section \<open>Properties\<close>

definition plain_ud :: unidata where
  "plain_ud = \<lparr>ud_word = (\<lambda>c. 97 \<le> c), ud_casefold = (\<lambda>c. [c]), ud_lower = id, ud_upper = id\<rparr>"

definition demo_bus :: bus where
  "demo_bus = \<lparr>eb_events = [], eb_capacity = 2, eb_seq = 0, eb_dropped = 0,
     eb_subscriber_errors = 0, eb_subscribers = [], eb_next_subscriber_id = 0\<rparr>"

definition note_event :: "pystr \<Rightarrow> publication" where
  "note_event s = \<lparr>pb_kind = TOOL_CALL, pb_session_id = lit ''s'', pb_summary = s,
     pb_source = [], pb_level = INFO, pb_data = [(lit ''note'', PStr s)],
     pb_secrets = [lit ''hunter2'']\<rparr>"

lemma demo_bus_reachable: "reachable_bus plain_ud demo_bus"
  by (rule start [of 2]) (simp add: new_bus_def demo_bus_def)

lemma demo_bus_ok: "bus_ok demo_bus"
  by (rule reachable_ok [OF demo_bus_reachable])

lemma clip_summary_no_secret:
  assumes "32 \<notin> set p" "8230 \<notin> set p" "p \<noteq> []" "\<not> sublist p s"
  shows "\<not> sublist p (clip_summary s)"
proof -
  have map_back: "sublist p u" if "sublist p (replace_char a 32 u)" for a u
  proof -
    from that obtain x y where e: "replace_char a 32 u = x @ p @ y" by (auto simp: sublist_def)
    define q where "q = take (length p) (drop (length x) u)"
    have "p = replace_char a 32 q"
      using e by (simp add: q_def replace_char_def take_map [symmetric] drop_map [symmetric])
    moreover have "a \<notin> set q"
      using assms(1) calculation by (auto simp: replace_char_def image_iff)
    ultimately have "p = q" by (auto simp: replace_char_def intro: map_idI)
    moreover have "sublist q u" unfolding q_def
      by (meson sublist_drop sublist_order.order.trans sublist_take)
    ultimately show ?thesis by simp
  qed
  let ?u = "replace_char 10 32 (replace_char 13 32 s)"
  have u: "\<not> sublist p ?u" using map_back assms(4) by blast
  have "sublist (py_strip v) v" for v
  proof -
    have "suffix (dropWhile py_space v) v" by (rule suffix_dropWhile)
    moreover have "prefix (rev (dropWhile py_space (rev (dropWhile py_space v)))) (dropWhile py_space v)"
      by (metis rev_rev_ident suffix_dropWhile suffix_to_prefix)
    ultimately show ?thesis
      unfolding py_strip_def strip_by_def
      by (meson prefix_imp_sublist sublist_order.order.trans suffix_imp_sublist)
  qed
  then have t: "\<not> sublist p (py_strip ?u)" using u sublist_order.order.trans by blast
  have "\<not> sublist p (take n (py_strip ?u) @ [8230])" for n
  proof
    assume "sublist p (take n (py_strip ?u) @ [8230])"
    then have "sublist p (take n (py_strip ?u)) \<or> (\<exists>x y. p = x @ y \<and> prefix y [8230] \<and> y \<noteq> []) \<or> p = [8230]"
      using assms(3) by (auto simp: sublist_append sublist_Cons_right prefix_Cons suffix_imp_sublist)
    moreover have "\<not> sublist p (take n (py_strip ?u))"
      using t sublist_take sublist_order.order.trans by blast
    ultimately show False using assms(2) by (auto simp: prefix_Cons)
  qed
  with t show ?thesis by (simp add: clip_summary_def Let_def)
qed



text \<open>
  The restriction to secrets without a blank is needed: the text is searched before its white space is
  collapsed, so a line break in the place of the blank hides the secret from the search and the summary
  restores it.
\<close>

lemma secret_with_a_blank_gets_through:
  "redact_text plain_ud [[112, 32, 113]] False [112, 10, 113] = [112, 10, 113] \<and>
    contains (clip_summary [112, 10, 113]) [112, 32, 113]"
  by code_simp

text \<open>A reader that polls with the last number it has seen misses nothing and sees nothing twice:
  after any publications, no more than the capacity, the snapshot since that number holds exactly the
  events published since, each once and in order.\<close>

theorem polling_misses_nothing:
  assumes "reachable_bus ud b" and "length pubs \<le> eb_capacity b"
  shows "map ev_seq (snapshot (int (latest_seq b)) None None None
      (fold (\<lambda>(now, p) b. snd (publish ud now p b)) pubs b)) =
    [Suc (latest_seq b)..<Suc (latest_seq b + length pubs)]"
proof -
  have ok: "bus_ok b" by (rule reachable_ok [OF assms(1)])
  then have l: "length (map ev_seq (eb_events b)) \<le> eb_capacity b" by (simp add: bus_ok_def del: upt_Suc)
  have f: "map ev_seq (filter (\<lambda>e. int (eb_seq b) < int (ev_seq e)) xs) =
      filter (\<lambda>n. eb_seq b < n) (map ev_seq xs)" for xs
    by (induction xs) auto
  show ?thesis
    unfolding snapshot_def Let_def latest_seq_def option.case f
    by (rule bus_log.poll_misses_nothing [OF ok l assms(2)])
qed

theorem polling_misses_nothing_witness:
  "map ev_seq (snapshot (int (latest_seq demo_bus)) None None None
      (fold (\<lambda>(now, p) b. snd (publish plain_ud now p b))
        [(0, note_event (lit ''x'')), (1, note_event (lit ''y''))] demo_bus)) = [1, 2]"
  using polling_misses_nothing [OF demo_bus_reachable,
      of "[(0, note_event (lit ''x'')), (1, note_event (lit ''y''))]"]
  by (simp add: demo_bus_def latest_seq_def upt_rec)

text \<open>The loss is accounted for: after any run on a new bus, the events ever published are those
  buffered, those reported as dropped and those explicitly cleared; never more than the capacity is
  buffered.\<close>

theorem published_events_are_accounted_for:
  assumes "new_bus capacity = Some b"
  shows "eb_seq (fold (bus_step ud) ops b) =
      length (eb_events (fold (bus_step ud) ops b)) + eb_dropped (fold (bus_step ud) ops b) +
      cleared ud ops b \<and>
    length (eb_events (fold (bus_step ud) ops b)) \<le> nat capacity"
proof -
  have r: "reachable_bus ud b" using assms by (rule start)
  have "reachable_bus ud (fold (bus_step ud) ops b) \<and>
      eb_capacity (fold (bus_step ud) ops b) = eb_capacity b" if "reachable_bus ud b" for b
    using that
  proof (induction ops arbitrary: b)
    case (Cons op ops)
    have "eb_capacity (bus_step ud op b) = eb_capacity b"
      by (cases op) (simp_all add: publish_state subscribe_def unsubscribe_def clear_events_def Let_def)
    with Cons.IH [OF step [OF Cons.prems, of op]] show ?case by simp
  qed simp
  from this [OF r] reachable_ok have "length (eb_events (fold (bus_step ud) ops b)) \<le> eb_capacity b"
    by (metis bus_ok_def)
  moreover have "eb_seq b = 0" "eb_events b = []" "eb_dropped b = 0" "eb_capacity b = nat capacity"
    using assms by (auto simp: new_bus_def split: if_splits)
  ultimately show ?thesis using run_account [OF reachable_ok [OF r], of ud ops] by simp
qed

theorem published_events_are_accounted_for_witness:
  "eb_seq (fold (bus_step plain_ud) [Publish 0 (note_event (lit ''x'')), Clear] demo_bus) =
     length (eb_events (fold (bus_step plain_ud) [Publish 0 (note_event (lit ''x'')), Clear] demo_bus)) +
     eb_dropped (fold (bus_step plain_ud) [Publish 0 (note_event (lit ''x'')), Clear] demo_bus) +
     cleared plain_ud [Publish 0 (note_event (lit ''x'')), Clear] demo_bus"
proof -
  have "new_bus 2 = Some demo_bus" by (simp add: new_bus_def demo_bus_def)
  then show ?thesis by (rule conjunct1 [OF published_events_are_accounted_for])
qed

section \<open>Inputs that are handled wrongly\<close>

text \<open>A support export limited to no events exports all of them.\<close>

lemma zero_limit_exports_everything:
  "sr_events (export_support_record 0 b) = map event_to_dict (eb_events b)"
  by (simp add: export_support_record_def last_slice_def)

text \<open>A secret used as a dictionary key enters the buffer.\<close>

lemma secret_as_key_is_kept:
  "safe_data plain_ud ((note_event [])\<lparr>pb_data := [(lit ''hunter2'', PInt 1)]\<rparr>) =
     [(lit ''hunter2'', PInt 1)]"
  by code_simp

end
