(* ===== verification/CapabilityPolicy.thy ===== *)
theory CapabilityPolicy imports KaroxPrelude begin

text \<open>
  The least-capability policy of \<^verbatim>\<open>src/karox/policy.py\<close> over the origins, profiles and
  capabilities of \<^verbatim>\<open>src/karox/models.py\<close>: profile tables, grants, denials, one-shot approval tokens
  and the decision. The clock is the argument \<open>now\<close>.
\<close>

section \<open>Origins, profiles and capabilities\<close>

datatype OriginKind =
    USER | NATIVE_AGENT | HOSTED_CLIENT | SKILL | PROXIED_MCP | SUBAGENT | PACK

fun origin_kind_value :: "OriginKind \<Rightarrow> pystr" where
  "origin_kind_value USER = lit ''user''"
| "origin_kind_value NATIVE_AGENT = lit ''native_agent''"
| "origin_kind_value HOSTED_CLIENT = lit ''hosted_client''"
| "origin_kind_value SKILL = lit ''skill''"
| "origin_kind_value PROXIED_MCP = lit ''proxied_mcp''"
| "origin_kind_value SUBAGENT = lit ''subagent''"
| "origin_kind_value PACK = lit ''pack''"

datatype AccessProfile = READ_ONLY | BROWSER_CONTROL | WORKSPACE_WRITE | ELEVATED

datatype Capability =
    REPO_READ | REPO_WRITE | DISK_READ | PROCESS_RUN | DEV_COMMAND | CHECKS_RUN | GIT_READ
  | GIT_COMMIT | GIT_PUSH | BROWSER_READ | BROWSER_INPUT | DESKTOP_INPUT | NETWORK | MCP_CALL
  | DIAGNOSTICS_READ | PACKAGE_PUBLISH | AUTH_COMMAND

record Origin =
  og_kind :: OriginKind
  og_identity :: pystr
  og_parent :: "pystr option"

definition origin_valid :: "Origin \<Rightarrow> bool" where
  "origin_valid o' \<longleftrightarrow> py_strip (og_identity o') \<noteq> [] \<and> length (og_identity o') \<le> 200 \<and>
     (case og_parent o' of None \<Rightarrow> True | Some p \<Rightarrow> py_strip p \<noteq> [] \<and> length p \<le> 200)"

definition origin_key :: "Origin \<Rightarrow> pystr" where
  "origin_key o' = origin_kind_value (og_kind o') @ [58] @ og_identity o'"

fun PROFILE_CAPABILITIES :: "AccessProfile \<Rightarrow> Capability list" where
  "PROFILE_CAPABILITIES READ_ONLY = [REPO_READ, GIT_READ, DIAGNOSTICS_READ, BROWSER_READ]"
| "PROFILE_CAPABILITIES BROWSER_CONTROL =
     [REPO_READ, GIT_READ, DIAGNOSTICS_READ, BROWSER_READ, BROWSER_INPUT, NETWORK]"
| "PROFILE_CAPABILITIES WORKSPACE_WRITE =
     [REPO_READ, REPO_WRITE, DISK_READ, PROCESS_RUN, CHECKS_RUN, GIT_READ, DIAGNOSTICS_READ,
      MCP_CALL, BROWSER_READ, BROWSER_INPUT]"
| "PROFILE_CAPABILITIES ELEVATED =
     [REPO_READ, REPO_WRITE, DISK_READ, PROCESS_RUN, DEV_COMMAND, CHECKS_RUN, GIT_READ,
      DIAGNOSTICS_READ, GIT_COMMIT, BROWSER_READ, BROWSER_INPUT, DESKTOP_INPUT, NETWORK, MCP_CALL]"

definition ALWAYS_EXPLICIT :: "Capability list" where
  "ALWAYS_EXPLICIT = [GIT_PUSH, PACKAGE_PUBLISH, AUTH_COMMAND]"

definition capability_requires_explicit_approval :: "Capability \<Rightarrow> bool" where
  "capability_requires_explicit_approval c \<longleftrightarrow> c \<in> set ALWAYS_EXPLICIT"

section \<open>The policy\<close>

datatype policy_reason =
    OriginDeny | InputImpliesRead | ApprovalRequired | ApprovalExpired | OriginMismatch
  | ScopeMismatch | NotGranted | Allowed

record PolicyDecision =
  pd_allowed :: bool
  pd_capability :: Capability
  pd_origin :: pystr
  pd_reason :: policy_reason

record CapabilityToken =
  ct_origin :: pystr
  ct_capabilities :: "Capability list"
  ct_expires_at :: real

record CapabilityPolicy =
  cp_profile :: AccessProfile
  cp_grants :: "(pystr, Capability list) dict"
  cp_denies :: "(pystr, Capability list) dict"
  cp_tokens :: "(pystr, CapabilityToken) dict"

definition new_policy :: "AccessProfile \<Rightarrow> CapabilityPolicy" where
  "new_policy profile = \<lparr>cp_profile = profile, cp_grants = [], cp_denies = [], cp_tokens = []\<rparr>"

definition set_grants :: "Origin \<Rightarrow> Capability list \<Rightarrow> CapabilityPolicy \<Rightarrow> CapabilityPolicy" where
  "set_grants o' cs P = P\<lparr>cp_grants := AList.update (origin_key o') cs (cp_grants P)\<rparr>"

definition set_denies :: "Origin \<Rightarrow> Capability list \<Rightarrow> CapabilityPolicy \<Rightarrow> CapabilityPolicy" where
  "set_denies o' cs P = P\<lparr>cp_denies := AList.update (origin_key o') cs (cp_denies P)\<rparr>"

datatype token_error = TokenGuessable | TokenTtlRange

definition add_token :: "real \<Rightarrow> pystr \<Rightarrow> Origin \<Rightarrow> Capability list \<Rightarrow> real \<Rightarrow> CapabilityPolicy \<Rightarrow>
    token_error + CapabilityPolicy" where
  "add_token now token o' cs ttl P =
     (if token = [] \<or> length token < 16 then Inl TokenGuessable
      else if ttl \<le> 0 \<or> ttl > 3600 then Inl TokenTtlRange
      else Inr (P\<lparr>cp_tokens := AList.update token
        \<lparr>ct_origin = origin_key o', ct_capabilities = cs, ct_expires_at = now + ttl\<rparr> (cp_tokens P)\<rparr>))"

definition token_name :: "pystr option \<Rightarrow> pystr" where
  "token_name token = (case token of Some t \<Rightarrow> t | None \<Rightarrow> [])"

definition pop_token :: "pystr option \<Rightarrow> CapabilityPolicy \<Rightarrow> CapabilityPolicy" where
  "pop_token token P = P\<lparr>cp_tokens := AList.delete (token_name token) (cp_tokens P)\<rparr>"

text \<open>What the profile and the grants of an origin give together; a user without grants has the whole
  profile, anyone else nothing.\<close>

definition effective :: "CapabilityPolicy \<Rightarrow> Origin \<Rightarrow> Capability list" where
  "effective P o' =
     (let profile_caps = PROFILE_CAPABILITIES (cp_profile P);
          grants = (case map_of (cp_grants P) (origin_key o') of
            Some gs \<Rightarrow> gs
          | None \<Rightarrow> if og_kind o' = USER then profile_caps else [])
      in filter (\<lambda>c. c \<in> set grants) profile_caps)"

definition decision :: "bool \<Rightarrow> Capability \<Rightarrow> Origin \<Rightarrow> policy_reason \<Rightarrow> PolicyDecision" where
  "decision b c o' r = \<lparr>pd_allowed = b, pd_capability = c, pd_origin = origin_key o', pd_reason = r\<rparr>"

definition policy_decide :: "real \<Rightarrow> Origin \<Rightarrow> Capability \<Rightarrow> pystr option \<Rightarrow> bool \<Rightarrow> CapabilityPolicy \<Rightarrow>
    PolicyDecision \<times> CapabilityPolicy" where
  "policy_decide now o' c token consume P =
     (if (case map_of (cp_denies P) (origin_key o') of Some ds \<Rightarrow> c \<in> set ds | None \<Rightarrow> False)
      then (decision False c o' OriginDeny, P)
      else
        let eff = effective P o'
        in if c = BROWSER_READ \<and> BROWSER_INPUT \<in> set eff then (decision True c o' InputImpliesRead, P)
           else if c \<in> set ALWAYS_EXPLICIT then
             (case map_of (cp_tokens P) (token_name token) of
                None \<Rightarrow> (decision False c o' ApprovalRequired, P)
              | Some approval \<Rightarrow>
                  if ct_expires_at approval < now
                  then (decision False c o' ApprovalExpired, pop_token token P)
                  else if ct_origin approval \<noteq> origin_key o'
                  then (decision False c o' OriginMismatch, P)
                  else if c \<notin> set (ct_capabilities approval)
                  then (decision False c o' ScopeMismatch, P)
                  else (decision True c o' Allowed, if consume then pop_token token P else P))
           else if c \<notin> set eff then (decision False c o' NotGranted, P)
           else (decision True c o' Allowed, P))"

definition require_capability :: "real \<Rightarrow> Origin \<Rightarrow> Capability \<Rightarrow> pystr option \<Rightarrow> CapabilityPolicy \<Rightarrow>
    (PolicyDecision + PolicyDecision) \<times> CapabilityPolicy" where
  "require_capability now o' c token P =
     (case policy_decide now o' c token True P of
        (d, P') \<Rightarrow> (if pd_allowed d then Inr d else Inl d, P'))"

section \<open>Facts\<close>

lemma origin_kind_inj: "origin_kind_value k = origin_kind_value k' \<longleftrightarrow> k = k'"
  by (cases k; cases k') simp_all

lemma origin_kind_no_colon: "58 \<notin> set (origin_kind_value k)"
  by (cases k) (simp_all add: lit_def)

text \<open>The key determines the kind and the identity: no identity can imitate another kind.\<close>

lemma origin_key_inj:
  "origin_key a = origin_key b \<longleftrightarrow> og_kind a = og_kind b \<and> og_identity a = og_identity b"
proof
  assume "origin_key a = origin_key b"
  then have e: "origin_kind_value (og_kind a) @ 58 # og_identity a =
      origin_kind_value (og_kind b) @ 58 # og_identity b" by (simp add: origin_key_def)
  then have "takeWhile (\<lambda>c. c \<noteq> 58) (origin_kind_value (og_kind a) @ 58 # og_identity a) =
      takeWhile (\<lambda>c. c \<noteq> 58) (origin_kind_value (og_kind b) @ 58 # og_identity b)" by simp
  moreover have "takeWhile (\<lambda>c. c \<noteq> 58) (origin_kind_value k @ 58 # s) = origin_kind_value k" for k s
    using origin_kind_no_colon [of k] by (subst takeWhile_append2) auto
  ultimately have "origin_kind_value (og_kind a) = origin_kind_value (og_kind b)" by simp
  with e show "og_kind a = og_kind b \<and> og_identity a = og_identity b"
    by (simp add: origin_kind_inj)
qed (simp add: origin_key_def)

definition token_usable :: "CapabilityPolicy \<Rightarrow> pystr \<Rightarrow> Origin \<Rightarrow> Capability \<Rightarrow> real \<Rightarrow> bool" where
  "token_usable P t o' c now \<longleftrightarrow>
     (\<exists>a. map_of (cp_tokens P) t = Some a \<and> now \<le> ct_expires_at a \<and> ct_origin a = origin_key o' \<and>
        c \<in> set (ct_capabilities a))"

lemma explicit_allowed:
  assumes "require_capability now o' c token P = (Inr d, P')" "c \<in> set ALWAYS_EXPLICIT"
  shows "token_usable P (token_name token) o' c now \<and>
    cp_tokens P' = AList.delete (token_name token) (cp_tokens P)"
  using assms
  by (auto simp: require_capability_def policy_decide_def decision_def pop_token_def Let_def
      token_usable_def ALWAYS_EXPLICIT_def split: option.split_asm if_split_asm)

text \<open>Everything that changes a policy.\<close>

datatype policy_op =
    SetGrants Origin "Capability list"
  | SetDenies Origin "Capability list"
  | AddToken real pystr Origin "Capability list" real
  | Decide real Origin Capability "pystr option" bool

fun policy_step :: "policy_op \<Rightarrow> CapabilityPolicy \<Rightarrow> CapabilityPolicy" where
  "policy_step (SetGrants o' cs) P = set_grants o' cs P"
| "policy_step (SetDenies o' cs) P = set_denies o' cs P"
| "policy_step (AddToken now t o' cs ttl) P =
     (case add_token now t o' cs ttl P of Inl e \<Rightarrow> P | Inr P' \<Rightarrow> P')"
| "policy_step (Decide now o' c token consume) P = snd (policy_decide now o' c token consume P)"

fun adds_token :: "pystr \<Rightarrow> policy_op \<Rightarrow> bool" where
  "adds_token t (AddToken now t' o' cs ttl) \<longleftrightarrow> t' = t"
| "adds_token t op \<longleftrightarrow> False"

lemma step_no_token:
  "map_of (cp_tokens P) t = None \<Longrightarrow> \<not> adds_token t op \<Longrightarrow>
    map_of (cp_tokens (policy_step op P)) t = None"
  by (cases op)
    (auto simp: set_grants_def set_denies_def add_token_def map_of_AList_update map_of_AList_delete
      policy_decide_def Let_def pop_token_def split: option.split)

lemma run_no_token:
  "map_of (cp_tokens P) t = None \<Longrightarrow> \<forall>op \<in> set ops. \<not> adds_token t op \<Longrightarrow>
    map_of (cp_tokens (fold policy_step ops P)) t = None"
  by (induction ops arbitrary: P) (auto simp: step_no_token)

section \<open>Properties\<close>

definition agent :: Origin where
  "agent = \<lparr>og_kind = HOSTED_CLIENT, og_identity = lit ''a'', og_parent = None\<rparr>"

definition demo_policy :: CapabilityPolicy where
  "demo_policy = (new_policy ELEVATED)\<lparr>cp_tokens := [(lit ''0123456789abcdef'',
     \<lparr>ct_origin = origin_key agent, ct_capabilities = [GIT_PUSH], ct_expires_at = 10\<rparr>)]\<rparr>"

text \<open>Push, publish and authentication need a one-shot approval in every profile and with any
  grants: if such a capability is granted, the presented token was live, bound to this origin and
  scoped to this capability, and from then on that token grants none of them to anybody, through any
  later calls, until a token of that name is issued again.\<close>

theorem explicit_approval_is_single_use:
  assumes "c \<in> set ALWAYS_EXPLICIT" and "require_capability now o' c token P = (Inr d, P')"
  shows "token_usable P (token_name token) o' c now \<and>
    (\<forall>ops now' o'' c'. (\<forall>op \<in> set ops. \<not> adds_token (token_name token) op) \<and>
       c' \<in> set ALWAYS_EXPLICIT \<longrightarrow>
       (\<exists>d'. fst (require_capability now' o'' c' token (fold policy_step ops P')) = Inl d'))"
proof (intro conjI allI impI)
  note ea = explicit_allowed [OF assms(2,1)]
  show "token_usable P (token_name token) o' c now" using ea by simp
  fix ops now' o'' c'
  assume a: "(\<forall>op \<in> set ops. \<not> adds_token (token_name token) op) \<and> c' \<in> set ALWAYS_EXPLICIT"
  let ?Q = "fold policy_step ops P'"
  have "map_of (cp_tokens ?Q) (token_name token) = None"
    by (rule run_no_token) (use a ea in \<open>auto simp: map_of_AList_delete\<close>)
  then have "\<not> token_usable ?Q (token_name token) o'' c' now'" by (simp add: token_usable_def)
  then show "\<exists>d'. fst (require_capability now' o'' c' token ?Q) = Inl d'"
    using explicit_allowed [of now' o'' c' token ?Q] a
    by (cases "require_capability now' o'' c' token ?Q"; cases "fst (require_capability now' o'' c' token ?Q)") auto
qed

theorem explicit_approval_is_single_use_witness:
  "\<exists>d'. fst (require_capability 6 agent GIT_PUSH (Some (lit ''0123456789abcdef''))
     (snd (require_capability 5 agent GIT_PUSH (Some (lit ''0123456789abcdef'')) demo_policy))) = Inl d'"
proof -
  let ?t = "Some (lit ''0123456789abcdef'')"
  have "\<exists>d P'. require_capability 5 agent GIT_PUSH ?t demo_policy = (Inr d, P')"
    by (simp add: require_capability_def policy_decide_def demo_policy_def new_policy_def
        token_name_def ALWAYS_EXPLICIT_def decision_def Let_def)
  then obtain d P' where r: "require_capability 5 agent GIT_PUSH ?t demo_policy = (Inr d, P')" by blast
  have "GIT_PUSH \<in> set ALWAYS_EXPLICIT" by (simp add: ALWAYS_EXPLICIT_def)
  from explicit_approval_is_single_use [OF this r] this r show ?thesis
    by (auto dest!: spec [of _ "[]"] spec [of _ "6::real"] spec [of _ agent] spec [of _ GIT_PUSH])
qed

text \<open>Every other capability is allowed exactly when the origin is not denied it and both the
  profile and the grants of the origin hold it, or hold browser input when browser reading is asked
  for; a token makes no difference, the policy is not changed, and no set of grants reaches beyond
  the profile.\<close>

theorem ordinary_decision_exact:
  assumes "c \<notin> set ALWAYS_EXPLICIT"
  shows "(pd_allowed (fst (policy_decide now o' c token consume P)) \<longleftrightarrow>
      (\<forall>ds. map_of (cp_denies P) (origin_key o') = Some ds \<longrightarrow> c \<notin> set ds) \<and>
      (\<exists>c' \<in> {c} \<union> (if c = BROWSER_READ then {BROWSER_INPUT} else {}).
         c' \<in> set (PROFILE_CAPABILITIES (cp_profile P)) \<and>
         (case map_of (cp_grants P) (origin_key o') of Some gs \<Rightarrow> c' \<in> set gs
          | None \<Rightarrow> og_kind o' = USER))) \<and>
    snd (policy_decide now o' c token consume P) = P"
proof -
  have e: "c' \<in> set (effective P o') \<longleftrightarrow> c' \<in> set (PROFILE_CAPABILITIES (cp_profile P)) \<and>
      (case map_of (cp_grants P) (origin_key o') of Some gs \<Rightarrow> c' \<in> set gs
       | None \<Rightarrow> og_kind o' = USER)" for c'
    by (auto simp: effective_def Let_def split: option.split)
  show ?thesis
    using assms unfolding e [symmetric]
    by (cases "map_of (cp_denies P) (origin_key o')")
      (auto simp: policy_decide_def Let_def decision_def)
qed

theorem ordinary_decision_exact_witness:
  "pd_allowed (fst (policy_decide 0 (agent\<lparr>og_kind := USER\<rparr>) REPO_WRITE None False demo_policy)) \<and>
   \<not> pd_allowed (fst (policy_decide 0 agent REPO_WRITE None False demo_policy))"
proof -
  have "REPO_WRITE \<notin> set ALWAYS_EXPLICIT" by (simp add: ALWAYS_EXPLICIT_def)
  note e = conjunct1 [OF ordinary_decision_exact [OF this]]
  show ?thesis unfolding e by (simp add: demo_policy_def new_policy_def agent_def)
qed

section \<open>An input that is handled oddly\<close>

text \<open>An origin that is granted only browser input and denied it still reads the browser.\<close>

lemma denied_input_still_implies_read:
  "pd_allowed (fst (policy_decide 0 agent BROWSER_READ None False
     (set_denies agent [BROWSER_INPUT] (set_grants agent [BROWSER_INPUT] (new_policy WORKSPACE_WRITE)))))"
  by code_simp

end
