(* ===== verification/CommandGuard.thy ===== *)
theory CommandGuard imports PyRegex begin

text \<open>
  The developer command guard of \<^verbatim>\<open>src/karox/command_guard.py\<close>: which argument vectors a hosted agent
  may run locally. \<^verbatim>\<open>str.casefold\<close> and the word characters of regular expressions come from the
  Unicode database \<open>ud\<close>.
\<close>

section \<open>Words\<close>

definition SHELL_EXECUTABLES :: "pystr set" where
  "SHELL_EXECUTABLES = lit ` {''bash'', ''cmd'', ''dash'', ''fish'', ''nu'', ''powershell'', ''pwsh'',
     ''sh'', ''wsl'', ''zsh''}"

definition REMOTE_TRANSPORT_EXECUTABLES :: "pystr set" where
  "REMOTE_TRANSPORT_EXECUTABLES = lit ` {''scp'', ''sftp'', ''ssh''}"

definition SAFE_GIT_READ_SUBCOMMANDS :: "pystr set" where
  "SAFE_GIT_READ_SUBCOMMANDS = lit ` {''blame'', ''branch'', ''cat-file'', ''describe'', ''diff'',
     ''for-each-ref'', ''grep'', ''log'', ''ls-files'', ''ls-tree'', ''merge-base'', ''name-rev'',
     ''rev-list'', ''rev-parse'', ''shortlog'', ''show'', ''show-ref'', ''status''}"

text \<open>\<^verbatim>\<open>s.rsplit("/", 1)[-1]\<close>\<close>

definition after_last_slash :: "pystr \<Rightarrow> pystr" where
  "after_last_slash s = rev (takeWhile (\<lambda>c. c \<noteq> 47) (rev s))"

definition EXE_SUFFIXES :: "pystr list" where
  "EXE_SUFFIXES = map lit [''.exe'', ''.cmd'', ''.bat'', ''.com'']"

fun strip_first_suffix :: "pystr list \<Rightarrow> pystr \<Rightarrow> pystr" where
  "strip_first_suffix [] s = s"
| "strip_first_suffix (x # xs) s =
     (if endswith s x then take (length s - length x) s else strip_first_suffix xs s)"

definition basename :: "unidata \<Rightarrow> pystr \<Rightarrow> pystr" where
  "basename ud value =
     strip_first_suffix EXE_SUFFIXES
       (casefold ud (after_last_slash (replace_char 92 47 (py_strip value))))"

definition words_of :: "unidata \<Rightarrow> pystr list \<Rightarrow> pystr list" where
  "words_of ud values = map (\<lambda>i. casefold ud (py_strip i)) (filter (\<lambda>i. py_strip i \<noteq> []) values)"

section \<open>Git\<close>

definition GIT_OPTIONS_WITH_VALUE :: "pystr list" where
  "GIT_OPTIONS_WITH_VALUE = map lit [''-c'', ''-C'', ''--config-env'', ''--exec-path'', ''--git-dir'',
     ''--namespace'', ''--super-prefix'', ''--work-tree'']"

definition GIT_OPTION_PREFIXES :: "pystr list" where
  "GIT_OPTION_PREFIXES = map lit [''--config-env='', ''--exec-path='', ''--git-dir='', ''--namespace='',
     ''--super-prefix='', ''--work-tree='']"

text \<open>\<^verbatim>\<open>_git_subcommand\<close>: the loop from index 1 on, over the arguments that are left.\<close>

fun git_scan :: "unidata \<Rightarrow> pystr list \<Rightarrow> pystr option" where
  "git_scan ud [] = None"
| "git_scan ud (x # xs) =
     (let raw = py_strip x; lowered = casefold ud raw
      in if raw \<in> set GIT_OPTIONS_WITH_VALUE \<or> lowered \<in> set (map (casefold ud) GIT_OPTIONS_WITH_VALUE)
         then git_scan ud (drop 1 xs)
         else if \<exists>p \<in> set GIT_OPTION_PREFIXES. startswith lowered p then git_scan ud xs
         else if startswith lowered [45] then git_scan ud xs
         else Some lowered)"

definition git_subcommand :: "unidata \<Rightarrow> pystr list \<Rightarrow> pystr option" where
  "git_subcommand ud argv = git_scan ud (drop 1 argv)"

section \<open>Inline code\<close>

definition any_char :: cc where
  "any_char = CRange 0 1114111"

definition word_alts :: "string list \<Rightarrow> re" where
  "word_alts ws = ralts (map (\<lambda>w. rstr (lit w)) ws)"

definition near :: "string list \<Rightarrow> string list \<Rightarrow> re" where
  "near as bs = rseqs [RBoundary, word_alts as, RBoundary, RMany any_char 0 (Some 80), RBoundary,
     word_alts bs, RBoundary]"

definition INLINE_PATTERNS :: "re list" where
  "INLINE_PATTERNS =
     [rseqs [RBoundary, rstr (lit ''git''), RMany CSpace 1 None, rstr (lit ''push''), RBoundary],
      near [''npm'', ''pnpm'', ''yarn'', ''bun'', ''cargo'', ''poetry'', ''twine'', ''uv'', ''hatch'', ''flit'']
        [''publish''],
      near [''vercel'', ''netlify'', ''fly'', ''railway'', ''firebase'', ''wrangler'', ''gcloud''] [''deploy''],
      near [''gh'', ''docker'', ''npm'', ''gcloud'', ''az'', ''vercel'', ''netlify'', ''hf'', ''huggingface-cli'']
        [''auth'', ''login'', ''logout'']]"

fun inline_scan :: "unidata \<Rightarrow> pystr set \<Rightarrow> pystr list \<Rightarrow> bool" where
  "inline_scan ud flags (x # y # rest) =
     (if casefold ud x \<notin> flags then inline_scan ud flags (y # rest)
      else \<exists>p \<in> set INLINE_PATTERNS. re_search (ud_word ud) False p (casefold ud y))"
| "inline_scan ud flags _ = False"

definition contains_inline_remote_action :: "unidata \<Rightarrow> pystr list \<Rightarrow> bool" where
  "contains_inline_remote_action ud argv =
     (if length argv < 3 then False
      else
        let executable = basename ud (hd argv);
            python = startswith executable (lit ''python'')
        in if executable \<notin> {lit ''node'', lit ''nodejs''} \<and> \<not> python then False
           else inline_scan ud (if python then {lit ''-c''} else {lit ''-e'', lit ''--eval''}) (tl argv))"

section \<open>The verdict\<close>

datatype block_reason =
    ShellWrapper | RemoteTransport | GitNotReadOnly | PackagePublish | RegistryAccount | NugetPublish
  | Deployment | CloudDeployment | ClusterMutation | InfrastructureMutation | GithubAuth | GithubApi
  | GithubMutation | ContainerRegistry | ModelHub | InlineAction

definition meets :: "pystr list \<Rightarrow> string list \<Rightarrow> bool" where
  "meets ws bad \<longleftrightarrow> (\<exists>b \<in> set bad. lit b \<in> set (take 12 ws))"

definition is_exe :: "pystr \<Rightarrow> string list \<Rightarrow> bool" where
  "is_exe e names \<longleftrightarrow> e \<in> set (map lit names)"

definition first_in :: "pystr list \<Rightarrow> string list \<Rightarrow> bool" where
  "first_in ws names \<longleftrightarrow> ws \<noteq> [] \<and> hd ws \<in> set (map lit names)"

definition package_reason :: "pystr \<Rightarrow> pystr list \<Rightarrow> block_reason option" where
  "package_reason e ws =
     (if is_exe e [''npm'', ''npm-cli'', ''pnpm'', ''bun''] \<and>
         meets ws [''publish'', ''unpublish'', ''login'', ''logout'', ''adduser''] then Some PackagePublish
      else if is_exe e [''npm'', ''npm-cli'', ''pnpm'', ''bun''] \<and> meets ws [''token'', ''owner'']
      then Some RegistryAccount
      else if is_exe e [''yarn''] \<and>
         (meets ws [''publish'', ''login'', ''logout''] \<or>
          length ws \<ge> 2 \<and> ws ! 0 = lit ''npm'' \<and> ws ! 1 \<in> set (map lit [''publish'', ''login'', ''logout'']))
      then Some PackagePublish
      else if is_exe e [''twine'', ''uv'', ''poetry'', ''hatch'', ''flit'', ''cargo''] \<and>
         meets ws [''publish'', ''upload'', ''login'', ''logout'', ''owner'', ''yank''] then Some PackagePublish
      else if is_exe e [''dotnet'', ''nuget''] \<and> meets ws [''push'', ''delete''] then Some NugetPublish
      else None)"

definition deploy_reason :: "pystr \<Rightarrow> pystr list \<Rightarrow> block_reason option" where
  "deploy_reason e ws =
     (if is_exe e [''vercel'', ''netlify'', ''fly'', ''flyctl'', ''railway'', ''firebase'', ''wrangler''] \<and>
         meets ws [''deploy'', ''publish'', ''release'', ''login'', ''logout'', ''link'', ''init'']
      then Some Deployment
      else if is_exe e [''gcloud''] \<and> meets ws [''auth'', ''deploy'', ''login'', ''revoke''] then Some CloudDeployment
      else if is_exe e [''az'', ''azure''] \<and> meets ws [''login'', ''logout'', ''deployment'', ''deploy'']
      then Some CloudDeployment
      else if is_exe e [''aws''] \<and> meets ws [''configure'', ''deploy'', ''publish''] then Some CloudDeployment
      else if is_exe e [''kubectl'', ''helm''] \<and>
         meets ws [''apply'', ''create'', ''delete'', ''patch'', ''replace'', ''rollout'', ''upgrade'', ''install'',
           ''uninstall''] then Some ClusterMutation
      else if is_exe e [''terraform'', ''tofu'', ''pulumi''] \<and>
         meets ws [''apply'', ''destroy'', ''import'', ''up'', ''refresh''] then Some InfrastructureMutation
      else None)"

text \<open>The GitHub branch; \<^verbatim>\<open>gh\<close> without words returns early, before the inline-code check.\<close>

definition service_reason :: "pystr \<Rightarrow> pystr list \<Rightarrow> block_reason option" where
  "service_reason e ws =
     (if is_exe e [''gh''] \<and> first_in ws [''auth'', ''release''] then Some GithubAuth
      else if is_exe e [''gh''] \<and> first_in ws [''api''] then Some GithubApi
      else if is_exe e [''gh''] \<and> first_in ws [''pr'', ''issue'', ''repo''] \<and>
         meets ws [''create'', ''merge'', ''close'', ''reopen'', ''edit'', ''delete'', ''fork'', ''archive'', ''rename'',
           ''review''] then Some GithubMutation
      else if is_exe e [''docker''] \<and> meets ws [''login'', ''logout'', ''push''] then Some ContainerRegistry
      else if is_exe e [''hf'', ''huggingface-cli''] \<and>
         meets ws [''login'', ''logout'', ''upload'', ''repo'', ''delete-cache''] then Some ModelHub
      else None)"

fun first_reason :: "'a option list \<Rightarrow> 'a option" where
  "first_reason [] = None"
| "first_reason (r # rs) = (case r of Some x \<Rightarrow> Some x | None \<Rightarrow> first_reason rs)"

definition blocked_reason :: "unidata \<Rightarrow> pystr list \<Rightarrow> block_reason option" where
  "blocked_reason ud argv =
     (let e = basename ud (hd argv); ws = words_of ud (tl argv)
      in if e \<in> SHELL_EXECUTABLES then Some ShellWrapper
         else if e \<in> REMOTE_TRANSPORT_EXECUTABLES then Some RemoteTransport
         else if e = lit ''git'' \<and>
           (case git_subcommand ud argv of Some s \<Rightarrow> s \<notin> SAFE_GIT_READ_SUBCOMMANDS | None \<Rightarrow> True)
         then Some GitNotReadOnly
         else case first_reason [package_reason e ws, deploy_reason e ws] of
           Some r \<Rightarrow> Some r
         | None \<Rightarrow>
             if e = lit ''gh'' \<and> ws = [] then None
             else case service_reason e ws of
               Some r \<Rightarrow> Some r
             | None \<Rightarrow> if contains_inline_remote_action ud argv then Some InlineAction else None)"

datatype guard_error = ArgvShape | ArgvValue | Blocked block_reason

definition validate_developer_command_argv :: "unidata \<Rightarrow> pystr list \<Rightarrow> guard_error + pystr list" where
  "validate_developer_command_argv ud argv =
     (if argv = [] \<or> length argv > 100 then Inl ArgvShape
      else if \<exists>i \<in> set argv. i = [] \<or> 0 \<in> set i \<or> length i > 10000 then Inl ArgvValue
      else case blocked_reason ud argv of Some r \<Rightarrow> Inl (Blocked r) | None \<Rightarrow> Inr argv)"

section \<open>Facts\<close>

lemma first_reason_None: "first_reason rs = None \<longleftrightarrow> (\<forall>r \<in> set rs. r = None)"
  by (induction rs) (auto split: option.splits)

lemma after_last_slash_append: "47 \<notin> set x \<Longrightarrow> after_last_slash (d @ 47 # x) = x"
  by (simp add: after_last_slash_def takeWhile_append)

lemma after_last_slash_none: "47 \<notin> set x \<Longrightarrow> after_last_slash x = x"
proof -
  assume "47 \<notin> set x"
  then have "takeWhile (\<lambda>c. c \<noteq> 47) (rev x) = rev x"
    by (intro takeWhile_eq_all_conv [THEN iffD2]) auto
  then show ?thesis by (simp only: after_last_slash_def rev_rev_ident)
qed

lemma casefold_append: "casefold ud (a @ b) = casefold ud a @ casefold ud b"
  by (simp add: casefold_def)

lemma strip_by_id: "x = [] \<or> \<not> P (hd x) \<and> \<not> P (last x) \<Longrightarrow> strip_by P x = x"
proof -
  assume a: "x = [] \<or> \<not> P (hd x) \<and> \<not> P (last x)"
  then have "dropWhile P x = x" by (cases x) auto
  moreover from a have "dropWhile P (rev x) = rev x" by (cases x rule: rev_cases) auto
  ultimately show ?thesis by (simp add: strip_by_def)
qed

text \<open>A program name: no separators and no white space at its ends.\<close>

definition bare_name :: "pystr \<Rightarrow> bool" where
  "bare_name x \<longleftrightarrow> x \<noteq> [] \<and> 47 \<notin> set x \<and> 92 \<notin> set x \<and> \<not> py_space (hd x) \<and> \<not> py_space (last x)"

lemma replace_char_id: "a \<notin> set s \<Longrightarrow> replace_char a b s = s"
  by (auto simp: replace_char_def intro: map_idI)

lemma replace_char_append: "replace_char a b (s @ t) = replace_char a b s @ replace_char a b t"
  by (simp add: replace_char_def)

lemma replace_char_mem: "c \<in> set (replace_char a b s) \<Longrightarrow> c \<in> set s \<or> c = b"
  by (auto simp: replace_char_def)

lemma basename_bare:
  "bare_name x \<Longrightarrow> basename ud x = strip_first_suffix EXE_SUFFIXES (casefold ud x)"
  by (simp add: basename_def py_strip_def strip_by_id bare_name_def replace_char_id after_last_slash_none)

lemma basename_path:
  assumes "bare_name x" "sep = 47 \<or> sep = 92" "d = [] \<or> \<not> py_space (hd d)"
  shows "basename ud (d @ sep # x) = basename ud x"
proof -
  have "\<not> py_space 47" "\<not> py_space 92" by (simp_all add: py_space_def)
  then have "py_strip (d @ sep # x) = d @ sep # x"
    unfolding py_strip_def
    by (intro strip_by_id) (use assms in \<open>auto simp: bare_name_def hd_append\<close>)
  moreover have "replace_char 92 47 (d @ sep # x) = replace_char 92 47 d @ 47 # x"
  proof -
    have "replace_char 92 47 (sep # x) = 47 # replace_char 92 47 x"
      using assms(2) by (auto simp: replace_char_def)
    moreover have "92 \<notin> set x" using assms(1) by (simp add: bare_name_def)
    ultimately show ?thesis by (simp add: replace_char_append replace_char_id)
  qed
  ultimately have "basename ud (d @ sep # x) = strip_first_suffix EXE_SUFFIXES (casefold ud x)"
    using assms(1) by (simp add: basename_def after_last_slash_append bare_name_def)
  then show ?thesis using basename_bare [OF assms(1)] by simp
qed

text \<open>The verdict depends on the first argument only through its base name.\<close>

lemma blocked_reason_basename:
  "basename ud a = basename ud b \<Longrightarrow> blocked_reason ud (a # argv) = blocked_reason ud (b # argv)"
  by (simp only: blocked_reason_def git_subcommand_def contains_inline_remote_action_def list.sel
      length_Cons drop_Suc_Cons drop_0 One_nat_def)


lemma strip_suffix_id: "\<forall>x \<in> set xs. \<not> endswith s x \<Longrightarrow> strip_first_suffix xs s = s"
  by (induction xs) auto

lemma endswith_append_same: "length x = length y \<Longrightarrow> endswith (s @ x) y \<longleftrightarrow> x = y"
  by (auto simp: endswith_def)

lemma exe_length: "x \<in> set EXE_SUFFIXES \<Longrightarrow> length x = 4"
  by (auto simp: EXE_SUFFIXES_def lit_def)

lemma strip_suffix_found:
  "suf \<in> set xs \<Longrightarrow> \<forall>x \<in> set xs. length x = 4 \<Longrightarrow> length suf = 4 \<Longrightarrow> strip_first_suffix xs (s @ suf) = s"
proof (induction xs)
  case (Cons x xs)
  then have "endswith (s @ suf) x \<longleftrightarrow> suf = x" by (intro endswith_append_same) simp
  with Cons show ?case by (cases "suf = x") simp_all
qed simp

lemma strip_suffix_exe:
  assumes "\<forall>x \<in> set EXE_SUFFIXES. \<not> endswith s x" "suf = [] \<or> suf \<in> set EXE_SUFFIXES"
  shows "strip_first_suffix EXE_SUFFIXES (s @ suf) = s"
proof (cases "suf = []")
  case True
  with assms(1) show ?thesis by (simp add: strip_suffix_id)
next
  case False
  then have "suf \<in> set EXE_SUFFIXES" using assms(2) by simp
  then show ?thesis by (intro strip_suffix_found) (simp_all add: exe_length)
qed

text \<open>Global options before the subcommand: a value option with its value, or any other flag.\<close>

definition git_unit :: "unidata \<Rightarrow> pystr list \<Rightarrow> bool" where
  "git_unit ud u \<longleftrightarrow>
     (case u of
        [f] \<Rightarrow> startswith (casefold ud (py_strip f)) [45] \<and>
          py_strip f \<notin> set GIT_OPTIONS_WITH_VALUE \<and>
          casefold ud (py_strip f) \<notin> set (map (casefold ud) GIT_OPTIONS_WITH_VALUE)
      | [f, v] \<Rightarrow> py_strip f \<in> set GIT_OPTIONS_WITH_VALUE
      | _ \<Rightarrow> False)"

lemma git_scan_unit: "git_unit ud u \<Longrightarrow> git_scan ud (u @ rest) = git_scan ud rest"
  by (auto simp: git_unit_def Let_def split: list.split_asm)

lemma git_scan_units: "\<forall>u \<in> set us. git_unit ud u \<Longrightarrow> git_scan ud (concat us @ rest) = git_scan ud rest"
  by (induction us) (simp_all add: git_scan_unit)

lemma options_start: "o' \<in> set GIT_OPTIONS_WITH_VALUE \<Longrightarrow> \<exists>r. o' = 45 # r"
  by (auto simp: GIT_OPTIONS_WITH_VALUE_def lit_def)

lemma prefixes_start: "p \<in> set GIT_OPTION_PREFIXES \<Longrightarrow> \<exists>r. p = 45 # r"
  by (auto simp: GIT_OPTION_PREFIXES_def lit_def)

lemma git_scan_sub:
  assumes "ud_casefold ud 45 = [45]" "\<not> startswith (casefold ud (py_strip sub)) [45]"
  shows "git_scan ud (sub # rest) = Some (casefold ud (py_strip sub))"
proof -
  have c: "startswith (casefold ud o') [45]" if "o' \<in> set GIT_OPTIONS_WITH_VALUE" for o'
    using options_start [OF that] assms(1) by (auto simp: casefold_def startswith_def)
  have "py_strip sub \<notin> set GIT_OPTIONS_WITH_VALUE" using c assms(2) by blast
  moreover have "casefold ud (py_strip sub) \<notin> set (map (casefold ud) GIT_OPTIONS_WITH_VALUE)"
    using c assms(2) by auto
  moreover have "\<not> (\<exists>p \<in> set GIT_OPTION_PREFIXES. startswith (casefold ud (py_strip sub)) p)"
  proof
    assume "\<exists>p \<in> set GIT_OPTION_PREFIXES. startswith (casefold ud (py_strip sub)) p"
    then obtain r where "startswith (casefold ud (py_strip sub)) (45 # r)"
      using prefixes_start by blast
    then have "startswith (casefold ud (py_strip sub)) [45]"
      by (cases "casefold ud (py_strip sub)") (auto simp: startswith_def)
    with assms(2) show False ..
  qed
  ultimately show ?thesis using assms(2) by (simp add: Let_def)
qed

lemma git_other_reasons:
  "package_reason (lit ''git'') ws = None" "deploy_reason (lit ''git'') ws = None"
  "service_reason (lit ''git'') ws = None"
  by (simp_all add: package_reason_def deploy_reason_def service_reason_def is_exe_def)

section \<open>Properties\<close>

definition ascii_ud :: unidata where
  "ascii_ud = \<lparr>ud_word = (\<lambda>c. 97 \<le> c), ud_casefold = (\<lambda>c. if 65 \<le> c \<and> c \<le> 90 then [c + 32] else [c]),
     ud_lower = id, ud_upper = id\<rparr>"

text \<open>The guard cannot be evaded by how the program is spelled: a path in front of it, another letter
  case or a Windows executable suffix never changes the verdict on a command.\<close>

theorem verdict_ignores_program_spelling:
  assumes "bare_name x" and "bare_name y" and "sep = 47 \<or> sep = 92" and "d = [] \<or> \<not> py_space (hd d)"
    and "casefold ud y = casefold ud x @ suf" and "suf = [] \<or> suf \<in> set EXE_SUFFIXES"
    and "\<forall>s \<in> set EXE_SUFFIXES. \<not> endswith (casefold ud x) s"
  shows "blocked_reason ud ((d @ sep # y) # argv) = blocked_reason ud (x # argv)"
proof (rule blocked_reason_basename)
  have "basename ud (d @ sep # y) = strip_first_suffix EXE_SUFFIXES (casefold ud x @ suf)"
    using basename_path [OF assms(2-4)] basename_bare [OF assms(2)] assms(5) by simp
  also have "\<dots> = casefold ud x" using strip_suffix_exe [OF assms(7,6)] by simp
  also have "\<dots> = basename ud x"
    using basename_bare [OF assms(1)] strip_suffix_id [OF assms(7)] by simp
  finally show "basename ud (d @ sep # y) = basename ud x" .
qed

theorem verdict_ignores_program_spelling_witness:
  "blocked_reason ascii_ud (((67 # 58 # 92 # lit ''tools'') @ 92 # lit ''NPM.Cmd'') # [lit ''publish'']) =
     blocked_reason ascii_ud (lit ''npm'' # [lit ''publish''])"
proof (rule verdict_ignores_program_spelling)
  show "bare_name (lit ''npm'')" "bare_name (lit ''NPM.Cmd'')"
    by (simp_all add: bare_name_def lit_def py_space_def)
  show "casefold ascii_ud (lit ''NPM.Cmd'') = casefold ascii_ud (lit ''npm'') @ lit ''.cmd''"
    by (simp add: casefold_def ascii_ud_def lit_def)
  show "\<forall>s \<in> set EXE_SUFFIXES. \<not> endswith (casefold ascii_ud (lit ''npm'')) s"
    by (simp add: EXE_SUFFIXES_def endswith_def casefold_def ascii_ud_def lit_def)
qed (simp_all add: EXE_SUFFIXES_def py_space_def)

text \<open>The guard finds the subcommand of a Git command behind any global options, and the command
  passes exactly when it is one of the listed reading subcommands.\<close>

theorem git_guard_sees_through_options:
  assumes "basename ud exe = lit ''git''" and "\<forall>u \<in> set us. git_unit ud u"
    and "ud_casefold ud 45 = [45]" and "\<not> startswith (casefold ud (py_strip sub)) [45]"
  shows "blocked_reason ud (exe # concat us @ sub # rest) =
    (if casefold ud (py_strip sub) \<in> SAFE_GIT_READ_SUBCOMMANDS then None else Some GitNotReadOnly)"
proof -
  have "git_subcommand ud (exe # concat us @ sub # rest) = Some (casefold ud (py_strip sub))"
    using git_scan_units [OF assms(2)] git_scan_sub [OF assms(3,4)] by (simp add: git_subcommand_def)
  moreover have "lit ''git'' \<notin> SHELL_EXECUTABLES" "lit ''git'' \<notin> REMOTE_TRANSPORT_EXECUTABLES"
    by (simp_all add: SHELL_EXECUTABLES_def REMOTE_TRANSPORT_EXECUTABLES_def)
  moreover have "\<not> contains_inline_remote_action ud (exe # concat us @ sub # rest)"
    by (simp add: contains_inline_remote_action_def assms(1) Let_def) (simp add: startswith_def lit_def)
  ultimately show ?thesis
    by (simp add: blocked_reason_def assms(1) git_other_reasons Let_def)
qed

theorem git_guard_sees_through_options_witness:
  "blocked_reason ascii_ud (lit ''git'' # concat [[lit ''-C'', lit ''/tmp''], [lit ''--no-pager'']] @ lit ''Push'' # [])
     = Some GitNotReadOnly"
proof -
  have "basename ascii_ud (lit ''git'') = lit ''git''"
    by (subst basename_bare)
      (simp_all add: bare_name_def lit_def py_space_def EXE_SUFFIXES_def endswith_def casefold_def ascii_ud_def)
  moreover have s: "py_strip (lit ''-C'') = lit ''-C''" "py_strip (lit ''--no-pager'') = lit ''--no-pager''"
    "py_strip (lit ''Push'') = lit ''Push''" by code_simp+
  have "\<forall>u \<in> set [[lit ''-C'', lit ''/tmp''], [lit ''--no-pager'']]. git_unit ascii_ud u"
    by (simp add: git_unit_def s GIT_OPTIONS_WITH_VALUE_def)
      (simp add: lit_def casefold_def ascii_ud_def startswith_def)
  moreover have "ud_casefold ascii_ud 45 = [45]" by (simp add: ascii_ud_def)
  moreover have "\<not> startswith (casefold ascii_ud (py_strip (lit ''Push''))) [45]"
    unfolding s by (simp add: lit_def casefold_def ascii_ud_def startswith_def)
  ultimately have "blocked_reason ascii_ud (lit ''git'' # concat [[lit ''-C'', lit ''/tmp''], [lit ''--no-pager'']] @ lit ''Push'' # [])
      = (if casefold ascii_ud (py_strip (lit ''Push'')) \<in> SAFE_GIT_READ_SUBCOMMANDS then None
         else Some GitNotReadOnly)"
    by (rule git_guard_sees_through_options)
  moreover have "casefold ascii_ud (lit ''Push'') = lit ''push''"
    by (simp add: lit_def casefold_def ascii_ud_def)
  ultimately show ?thesis by (simp add: s SAFE_GIT_READ_SUBCOMMANDS_def)
qed

section \<open>Commands that pass\<close>

text \<open>Deleting a branch, a configured helper command, and publishing through a module runner are not
  blocked, and neither is a publish word after the twelfth argument.\<close>

lemma unblocked_commands:
  "blocked_reason ascii_ud [lit ''git'', lit ''branch'', lit ''-D'', lit ''main''] = None"
  "blocked_reason ascii_ud [lit ''git'', lit ''-c'', lit ''core.fsmonitor=x.sh'', lit ''status''] = None"
  "blocked_reason ascii_ud [lit ''python'', lit ''-m'', lit ''twine'', lit ''upload'', lit ''d''] = None"
  "blocked_reason ascii_ud (lit ''npm'' # replicate 12 (lit ''-q'') @ [lit ''publish'']) = None"
  by code_simp+

end
