(* ===== verification/SmartStop.thy ===== *)
theory SmartStop imports KaroxPrelude begin

text \<open>
  The no-progress machine of \<^verbatim>\<open>src/karox/smart_stop.py\<close>. Times are left out of the state: the machine
  stores the moment of the last workspace change and never reads it. The reason of a decision keeps
  the numbers the source formats into its text.
\<close>

datatype StopSignal =
    USER_CANCEL | REPEATED_TOOL_CALLS | NO_PROGRESS_LOOP | UNCHANGED_WORKSPACE
  | VERIFICATION_FAILURE_LOOP | BUDGET_EXCEEDED | PROVIDER_STALL | BROWSER_STALL
  | CONFIRMATION_WAITING | DEPENDENCY_WAITING | COMPLETION | ACCEPTED_VERIFICATION

datatype StopAction = CONTINUE | WARN | PAUSE | REQUEST_CONFIRMATION | STOP | CHECKPOINT

datatype stop_reason =
    UserCancelled | WaitingConfirmation | WaitingDependency | TaskCompleted | VerificationAccepted
  | SameCallRepeated int "pystr list" | ConsecutiveFailures nat | BudgetSpent real real
  | WorkspaceUnchanged nat | NoStopSignal

record StopDecision =
  sd_signal :: StopSignal
  sd_action :: StopAction
  sd_reason :: stop_reason

definition should_stop :: "StopDecision \<Rightarrow> bool" where
  "should_stop d \<longleftrightarrow> sd_action d = STOP \<or> sd_action d = PAUSE"

record SmartStopMachine =
  sm_max_identical :: int
  sm_max_verify_failures :: int
  sm_budget :: "real option"
  sm_tool_call_history :: "pystr list"
  sm_verification_failures :: nat
  sm_last_workspace_hash :: "pystr option"
  sm_unchanged_count :: nat

definition new_machine :: "int \<Rightarrow> int \<Rightarrow> real option \<Rightarrow> SmartStopMachine" where
  "new_machine max_identical max_failures budget =
     \<lparr>sm_max_identical = max_identical, sm_max_verify_failures = max_failures, sm_budget = budget,
      sm_tool_call_history = [], sm_verification_failures = 0, sm_last_workspace_hash = None,
      sm_unchanged_count = 0\<rparr>"

definition observe_tool_call :: "pystr \<Rightarrow> pystr \<Rightarrow> SmartStopMachine \<Rightarrow> SmartStopMachine" where
  "observe_tool_call name args m =
     m\<lparr>sm_tool_call_history := sm_tool_call_history m @ [name @ [58] @ args]\<rparr>"

definition observe_verification :: "bool \<Rightarrow> SmartStopMachine \<Rightarrow> SmartStopMachine" where
  "observe_verification accepted m =
     m\<lparr>sm_verification_failures := (if accepted then 0 else sm_verification_failures m + 1)\<rparr>"

definition observe_workspace :: "pystr \<Rightarrow> SmartStopMachine \<Rightarrow> SmartStopMachine" where
  "observe_workspace h m =
     (if Some h = sm_last_workspace_hash m then m\<lparr>sm_unchanged_count := sm_unchanged_count m + 1\<rparr>
      else m\<lparr>sm_unchanged_count := 0, sm_last_workspace_hash := Some h\<rparr>)"

record stop_inputs =
  si_user_cancelled :: bool
  si_cost_usd :: real
  si_in_confirmation :: bool
  si_in_dependency_wait :: bool
  si_task_complete :: bool
  si_verification_accepted :: bool

text \<open>\<^verbatim>\<open>xs[-n:]\<close> for any integer.\<close>

definition slice_last :: "int \<Rightarrow> 'a list \<Rightarrow> 'a list" where
  "slice_last n xs = (if n > 0 then drop (length xs - nat n) xs else drop (nat (- n)) xs)"

definition repeated_calls :: "SmartStopMachine \<Rightarrow> bool" where
  "repeated_calls m \<longleftrightarrow> int (length (sm_tool_call_history m)) \<ge> sm_max_identical m \<and>
     length (remdups (slice_last (sm_max_identical m) (sm_tool_call_history m))) = 1"

definition evaluate :: "stop_inputs \<Rightarrow> SmartStopMachine \<Rightarrow> StopDecision" where
  "evaluate i m =
     (if si_user_cancelled i
      then \<lparr>sd_signal = USER_CANCEL, sd_action = STOP, sd_reason = UserCancelled\<rparr>
      else if si_in_confirmation i
      then \<lparr>sd_signal = CONFIRMATION_WAITING, sd_action = CONTINUE, sd_reason = WaitingConfirmation\<rparr>
      else if si_in_dependency_wait i
      then \<lparr>sd_signal = DEPENDENCY_WAITING, sd_action = CONTINUE, sd_reason = WaitingDependency\<rparr>
      else if si_task_complete i
      then \<lparr>sd_signal = COMPLETION, sd_action = STOP, sd_reason = TaskCompleted\<rparr>
      else if si_verification_accepted i
      then \<lparr>sd_signal = ACCEPTED_VERIFICATION, sd_action = STOP, sd_reason = VerificationAccepted\<rparr>
      else if repeated_calls m
      then \<lparr>sd_signal = REPEATED_TOOL_CALLS, sd_action = WARN,
            sd_reason = SameCallRepeated (sm_max_identical m)
              (slice_last (sm_max_identical m) (sm_tool_call_history m))\<rparr>
      else if int (sm_verification_failures m) \<ge> sm_max_verify_failures m
      then \<lparr>sd_signal = VERIFICATION_FAILURE_LOOP, sd_action = PAUSE,
            sd_reason = ConsecutiveFailures (sm_verification_failures m)\<rparr>
      else if (case sm_budget m of Some b \<Rightarrow> si_cost_usd i \<ge> b | None \<Rightarrow> False)
      then \<lparr>sd_signal = BUDGET_EXCEEDED, sd_action = STOP,
            sd_reason = BudgetSpent (the (sm_budget m)) (si_cost_usd i)\<rparr>
      else if sm_unchanged_count m \<ge> 5
      then \<lparr>sd_signal = UNCHANGED_WORKSPACE, sd_action = WARN,
            sd_reason = WorkspaceUnchanged (sm_unchanged_count m)\<rparr>
      else \<lparr>sd_signal = ACCEPTED_VERIFICATION, sd_action = CONTINUE, sd_reason = NoStopSignal\<rparr>)"

section \<open>What the state remembers\<close>

datatype observation = ToolCall pystr pystr | Verification bool | Workspace pystr

fun observe_step :: "observation \<Rightarrow> SmartStopMachine \<Rightarrow> SmartStopMachine" where
  "observe_step (ToolCall n a) m = observe_tool_call n a m"
| "observe_step (Verification b) m = observe_verification b m"
| "observe_step (Workspace h) m = observe_workspace h m"

text \<open>The observations of each sort, in order.\<close>

definition calls_of :: "observation list \<Rightarrow> pystr list" where
  "calls_of os = concat (map (\<lambda>x. case x of ToolCall n a \<Rightarrow> [n @ [58] @ a] | _ \<Rightarrow> []) os)"

definition verdicts_of :: "observation list \<Rightarrow> bool list" where
  "verdicts_of os = concat (map (\<lambda>x. case x of Verification b \<Rightarrow> [b] | _ \<Rightarrow> []) os)"

definition hashes_of :: "observation list \<Rightarrow> pystr list" where
  "hashes_of os = concat (map (\<lambda>x. case x of Workspace h \<Rightarrow> [h] | _ \<Rightarrow> []) os)"

definition final_run :: "('a \<Rightarrow> bool) \<Rightarrow> 'a list \<Rightarrow> nat" where
  "final_run P xs = length (takeWhile P (rev xs))"

definition last_hash :: "pystr list \<Rightarrow> pystr option" where
  "last_hash hs = (if hs = [] then None else Some (last hs))"

lemma state_of_history:
  assumes "m = fold observe_step os (new_machine a b c)"
  shows "sm_tool_call_history m = calls_of os \<and>
    sm_verification_failures m = final_run Not (verdicts_of os) \<and>
    sm_last_workspace_hash m = last_hash (hashes_of os) \<and>
    sm_unchanged_count m = final_run (\<lambda>h. Some h = last_hash (hashes_of os)) (hashes_of os) - 1 \<and>
    sm_max_identical m = a \<and> sm_max_verify_failures m = b \<and> sm_budget m = c"
  using assms
proof (induction os arbitrary: m rule: rev_induct)
  case Nil
  then show ?case
    by (simp add: new_machine_def calls_of_def verdicts_of_def hashes_of_def final_run_def last_hash_def)
next
  case (snoc x os)
  define m0 where "m0 = fold observe_step os (new_machine a b c)"
  note IH = snoc.IH [OF m0_def]
  have m: "m = observe_step x m0" using snoc.prems by (simp add: m0_def)
  have run1: "final_run (\<lambda>h. h = last hs) hs \<ge> 1" if "hs \<noteq> []" for hs :: "pystr list"
    using that by (cases hs rule: rev_cases) (auto simp: final_run_def)
  show ?case
  proof (cases x)
    case (ToolCall n a)
    with m IH show ?thesis
      by (simp add: observe_tool_call_def calls_of_def verdicts_of_def hashes_of_def)
  next
    case (Verification v)
    with m IH show ?thesis
      by (simp add: observe_verification_def calls_of_def verdicts_of_def hashes_of_def final_run_def)
  next
    case (Workspace h)
    have hs: "hashes_of (os @ [x]) = hashes_of os @ [h]" by (simp add: hashes_of_def Workspace)
    show ?thesis
    proof (cases "Some h = last_hash (hashes_of os)")
      case True
      then have ne: "hashes_of os \<noteq> []" and l: "last (hashes_of os) = h"
        by (auto simp: last_hash_def split: if_splits)
      have u: "sm_unchanged_count m0 = final_run (\<lambda>y. y = h) (hashes_of os) - 1"
        using IH ne l by (simp add: last_hash_def)
      have "final_run (\<lambda>y. y = h) (hashes_of os) \<ge> 1" using run1 [OF ne] l by simp
      then have cnt: "sm_unchanged_count m = final_run (\<lambda>y. y = h) (hashes_of os)"
        using m True IH u Workspace by (auto simp: observe_workspace_def)
      have run: "final_run (\<lambda>y. Some y = last_hash (hashes_of (os @ [x]))) (hashes_of (os @ [x])) - 1 =
          final_run (\<lambda>y. y = h) (hashes_of os)"
        by (simp add: hs last_hash_def final_run_def)
      have "calls_of (os @ [x]) = calls_of os" "verdicts_of (os @ [x]) = verdicts_of os"
        by (simp_all add: calls_of_def verdicts_of_def Workspace)
      moreover have "last_hash (hashes_of (os @ [x])) = Some h" by (simp add: hs last_hash_def)
      moreover have "sm_last_workspace_hash m = Some h"
        using m True IH Workspace by (auto simp: observe_workspace_def)
      moreover have "sm_tool_call_history m = sm_tool_call_history m0"
        "sm_verification_failures m = sm_verification_failures m0"
        "sm_max_identical m = sm_max_identical m0" "sm_budget m = sm_budget m0"
        "sm_max_verify_failures m = sm_max_verify_failures m0"
        using m Workspace by (simp_all add: observe_workspace_def)
      ultimately show ?thesis using IH cnt run by metis
    next
      case False
      have "final_run (\<lambda>y. y = h) (hashes_of os @ [h]) - 1 = 0"
      proof (cases "hashes_of os" rule: rev_cases)
        case (snoc ys y)
        with False have "y \<noteq> h" by (auto simp: last_hash_def)
        with snoc show ?thesis by (simp add: final_run_def)
      qed (simp add: final_run_def)
      with False m IH hs Workspace show ?thesis
        by (simp add: observe_workspace_def calls_of_def verdicts_of_def last_hash_def)
    qed
  qed
qed

section \<open>Properties\<close>

text \<open>After any observations the run is halted exactly when the user cancelled it or, outside a wait
  for a confirmation or a dependency, the task is complete, a verification was accepted, or, unless
  the last calls were all the same, the last verifications failed as often in a row as allowed or the
  budget is spent.\<close>

theorem halts_exactly_when:
  assumes "m = fold observe_step os (new_machine a b budget)"
  shows "should_stop (evaluate i m) \<longleftrightarrow>
    si_user_cancelled i \<or>
    \<not> si_in_confirmation i \<and> \<not> si_in_dependency_wait i \<and>
      (si_task_complete i \<or> si_verification_accepted i \<or>
       \<not> (int (length (calls_of os)) \<ge> a \<and> length (remdups (slice_last a (calls_of os))) = 1) \<and>
       (int (final_run Not (verdicts_of os)) \<ge> b \<or>
        (\<exists>limit. budget = Some limit \<and> si_cost_usd i \<ge> limit)))"
  using state_of_history [OF assms]
  by (auto simp: evaluate_def should_stop_def repeated_calls_def split: option.split)

definition calm :: stop_inputs where
  "calm = \<lparr>si_user_cancelled = False, si_cost_usd = 0, si_in_confirmation = False,
     si_in_dependency_wait = False, si_task_complete = False, si_verification_accepted = False\<rparr>"

theorem halts_exactly_when_witness:
  "should_stop (evaluate calm (fold observe_step
     [Verification False, Verification True, Verification False, Verification False] (new_machine 3 2 None)))"
  by (subst halts_exactly_when [OF refl])
    (simp add: calm_def verdicts_of_def calls_of_def final_run_def)

section \<open>Signals that are masked or never raised\<close>

text \<open>Three identical calls turn a spent budget and a verification loop into a mere warning.\<close>

lemma repeated_calls_mask_budget_and_failures:
  "sd_action (evaluate (calm\<lparr>si_cost_usd := 100\<rparr>) (fold observe_step
     [ToolCall (lit ''t'') [], ToolCall (lit ''t'') [], ToolCall (lit ''t'') [],
      Verification False, Verification False, Verification False] (new_machine 3 3 (Some 1)))) = WARN"
  by (simp add: evaluate_def calm_def new_machine_def observe_tool_call_def observe_verification_def
      repeated_calls_def slice_last_def)

lemma stalls_are_never_signalled:
  "sd_signal (evaluate i m) \<notin> {NO_PROGRESS_LOOP, PROVIDER_STALL, BROWSER_STALL}"
  by (simp add: evaluate_def)

end
