(* ===== verification/RouteHealth.thy ===== *)
theory RouteHealth imports KaroxPrelude begin

text \<open>
  The public-route health tracker of \<^verbatim>\<open>src/karox/route_health.py\<close>: the probe outcome (an HTTP status,
  or the class name of the exception raised) is an argument.
\<close>

section \<open>Probes\<close>

datatype probe = Response int | Raised pystr

definition public_mcp_route_healthy :: "probe \<Rightarrow> bool" where
  "public_mcp_route_healthy p = (case p of Response code \<Rightarrow> code = 401 | Raised e \<Rightarrow> False)"

definition PROBE_FAILURE_EXCEPTION_CLASSES :: "(pystr, pystr) dict" where
  "PROBE_FAILURE_EXCEPTION_CLASSES = map (\<lambda>(a, b). (lit a, lit b))
     [(''TimeoutException'', ''timeout''), (''ConnectTimeout'', ''timeout''), (''ReadTimeout'', ''timeout''),
      (''WriteTimeout'', ''timeout''), (''PoolTimeout'', ''timeout''), (''TimeoutError'', ''timeout''),
      (''ConnectError'', ''connection_error''), (''ConnectionError'', ''connection_error''),
      (''TLSException'', ''tls_error''), (''SSLError'', ''tls_error''),
      (''RemoteProtocolError'', ''protocol_error''), (''InvalidURL'', ''probe_error''),
      (''UnsupportedProtocol'', ''probe_error'')]"

datatype failure_class = RouteOk | HttpStatus int | Mapped pystr | ProbeException pystr

definition public_mcp_route_failure_class :: "probe \<Rightarrow> failure_class" where
  "public_mcp_route_failure_class p =
     (case p of
        Raised name \<Rightarrow>
          (case map_of PROBE_FAILURE_EXCEPTION_CLASSES name of
             Some c \<Rightarrow> Mapped c | None \<Rightarrow> ProbeException (take 40 name))
      | Response code \<Rightarrow> if code = 401 then RouteOk else HttpStatus code)"

section \<open>The tracker\<close>

record RouteHealthTracker =
  rh_interval :: real
  rh_failure_interval :: real
  rh_threshold :: int
  rh_failures :: int
  rh_next_probe_at :: real
  rh_recovery_count :: nat

text \<open>Construction: non-positive settings raise, a failure cadence slower than the steady one is
  clamped to it.\<close>

definition post_init :: "RouteHealthTracker \<Rightarrow> RouteHealthTracker option" where
  "post_init t =
     (if rh_interval t \<le> 0 \<or> rh_failure_interval t \<le> 0 then None
      else
        let t' = (if rh_failure_interval t > rh_interval t
                  then t\<lparr>rh_failure_interval := rh_interval t\<rparr> else t)
        in if rh_threshold t' < 1 then None else Some t')"

definition due :: "real \<Rightarrow> RouteHealthTracker \<Rightarrow> bool" where
  "due now t \<longleftrightarrow> now \<ge> rh_next_probe_at t"

definition observe_route :: "real \<Rightarrow> bool \<Rightarrow> RouteHealthTracker \<Rightarrow> bool \<times> RouteHealthTracker" where
  "observe_route now healthy t =
     (if healthy then (False, t\<lparr>rh_failures := 0, rh_next_probe_at := now + rh_interval t\<rparr>)
      else
        let t' = t\<lparr>rh_failures := rh_failures t + 1, rh_next_probe_at := now + rh_failure_interval t\<rparr>
        in (rh_failures t' \<ge> rh_threshold t', t'))"

definition recovered :: "real \<Rightarrow> RouteHealthTracker \<Rightarrow> RouteHealthTracker" where
  "recovered now t = t\<lparr>rh_failures := 0, rh_recovery_count := rh_recovery_count t + 1,
     rh_next_probe_at := now + rh_interval t\<rparr>"

section \<open>Properties\<close>

datatype route_op = Observe real bool | Recovered real

fun route_step :: "route_op \<Rightarrow> RouteHealthTracker \<Rightarrow> RouteHealthTracker" where
  "route_step (Observe now h) t = snd (observe_route now h t)"
| "route_step (Recovered now) t = recovered now t"

definition failing :: "route_op \<Rightarrow> bool" where
  "failing op \<longleftrightarrow> (case op of Observe now h \<Rightarrow> \<not> h | Recovered now \<Rightarrow> False)"

lemma run_failures:
  assumes "rh_failures t = 0"
  shows "rh_failures (fold route_step ops t) = int (length (takeWhile failing (rev ops))) \<and>
    rh_threshold (fold route_step ops t) = rh_threshold t \<and>
    rh_interval (fold route_step ops t) = rh_interval t \<and>
    rh_failure_interval (fold route_step ops t) = rh_failure_interval t"
proof (induction ops rule: rev_induct)
  case (snoc op ops)
  then show ?case
    by (cases op) (auto simp: failing_def observe_route_def recovered_def Let_def)
qed (simp add: assms)

text \<open>Recovery is requested exactly when this probe failed and it ends a run of at least threshold
  failed probes without a healthy one or a recovery in between, so a single transient failure never
  triggers it under the default threshold; a failed probe is repeated no later than the steady
  cadence.\<close>

theorem recovery_is_debounced:
  assumes "post_init t0 = Some t" and "rh_failures t0 = 0"
  shows "(fst (observe_route now healthy (fold route_step ops t)) \<longleftrightarrow>
      \<not> healthy \<and> int (length (takeWhile failing (rev ops))) + 1 \<ge> rh_threshold t) \<and>
    now < rh_next_probe_at (snd (observe_route now healthy (fold route_step ops t))) \<and>
    rh_next_probe_at (snd (observe_route now healthy (fold route_step ops t))) \<le> now + rh_interval t"
proof -
  have "rh_failures t = 0" "0 < rh_interval t" "0 < rh_failure_interval t"
    "rh_failure_interval t \<le> rh_interval t"
    using assms by (auto simp: post_init_def Let_def split: if_splits)
  with run_failures [of t ops] show ?thesis by (auto simp: observe_route_def Let_def)
qed

theorem recovery_is_debounced_witness:
  "let t = \<lparr>rh_interval = 2, rh_failure_interval = 1, rh_threshold = 2, rh_failures = 0,
            rh_next_probe_at = 0, rh_recovery_count = 0\<rparr>
   in \<not> fst (observe_route 0 False t) \<and> fst (observe_route 1 False (fold route_step [Observe 0 False] t))"
proof -
  let ?t = "\<lparr>rh_interval = 2, rh_failure_interval = 1, rh_threshold = 2, rh_failures = 0,
            rh_next_probe_at = 0, rh_recovery_count = 0\<rparr>"
  have "post_init ?t = Some ?t" by (simp add: post_init_def)
  from recovery_is_debounced [OF this, of 0 False "[]"]
    recovery_is_debounced [OF this, of 1 False "[Observe 0 False]"]
  show ?thesis by (simp add: failing_def)
qed

end
