(* ===== verification/JsonStore.thy ===== *)
theory JsonStore imports PyConvert begin

text \<open>
  The JSON files in which the orchestration modules keep their state. All of them are written the
  same way: an object with \<^verbatim>\<open>schema_version\<close> 1 and one array of rows, replaced atomically by
  \<^verbatim>\<open>tempfile\<close> and \<^verbatim>\<open>os.replace\<close>. A file is missing, unreadable, not UTF-8 or a decoded JSON value;
  a row decoder returns \<open>None\<close> where the code raises \<^verbatim>\<open>KeyError\<close>, \<^verbatim>\<open>TypeError\<close> or \<^verbatim>\<open>ValueError\<close>.
  Writing is one step and succeeds.
\<close>

datatype json_file = Missing | Unreadable | NotUtf8File | Json pyval

text \<open>\<open>UndecodableText\<close> is a \<^verbatim>\<open>UnicodeDecodeError\<close>, which the stores do not catch.\<close>

datatype load_error = FileUnreadable | UndecodableText | BadSchema | NotAnArray | BadRow

fun equals_one :: "pyval \<Rightarrow> bool" where
  "equals_one (PInt i) = (i = 1)"
| "equals_one (PBool b) = b"
| "equals_one (PFloat r) = (r = 1)"
| "equals_one _ = False"

definition schema_one :: "(pystr, pyval) dict \<Rightarrow> bool" where
  "schema_one d = equals_one (pget d ''schema_version'')"

text \<open>\<^verbatim>\<open>[decode(item) for item in raw if isinstance(item, Mapping)]\<close>\<close>

fun decode_rows :: "((pystr, pyval) dict \<Rightarrow> 'a option) \<Rightarrow> pyval list \<Rightarrow> load_error + 'a list" where
  "decode_rows dec [] = Inr []"
| "decode_rows dec (PMap d # vs) =
     (case dec d of None \<Rightarrow> Inl BadRow | Some x \<Rightarrow> bindr (decode_rows dec vs) (\<lambda>xs. Inr (x # xs)))"
| "decode_rows dec (_ # vs) = decode_rows dec vs"

definition load_rows ::
  "string \<Rightarrow> ((pystr, pyval) dict \<Rightarrow> 'a option) \<Rightarrow> json_file \<Rightarrow> load_error + 'a list" where
  "load_rows field dec f =
     (case f of
        Missing \<Rightarrow> Inr []
      | Unreadable \<Rightarrow> Inl FileUnreadable
      | NotUtf8File \<Rightarrow> Inl UndecodableText
      | Json v \<Rightarrow>
          (case v of
             PMap d \<Rightarrow>
               if \<not> schema_one d then Inl BadSchema
               else (case pget d field of PSeq vs \<Rightarrow> decode_rows dec vs | _ \<Rightarrow> Inl NotAnArray)
           | _ \<Rightarrow> Inl BadSchema))"

text \<open>\<^verbatim>\<open>{key(item): item for item in items}\<close>: the last row of a key counts.\<close>

definition dict_of :: "('a \<Rightarrow> 'k) \<Rightarrow> 'a list \<Rightarrow> ('k, 'a) dict" where
  "dict_of key xs = fold (\<lambda>x. AList.update (key x) x) xs []"

definition load_dict ::
  "string \<Rightarrow> ((pystr, pyval) dict \<Rightarrow> 'a option) \<Rightarrow> ('a \<Rightarrow> pystr) \<Rightarrow> json_file \<Rightarrow>
     load_error + (pystr, 'a) dict" where
  "load_dict field dec key f = bindr (load_rows field dec f) (\<lambda>xs. Inr (dict_of key xs))"

definition save_rows ::
  "(pystr, pyval) dict \<Rightarrow> string \<Rightarrow> ('a \<Rightarrow> (pystr, pyval) dict) \<Rightarrow> 'a list \<Rightarrow> json_file" where
  "save_rows extra field enc xs =
     Json (PMap ((lit ''schema_version'', PInt 1) # extra @
       [(lit field, PSeq (map (\<lambda>x. PMap (enc x)) xs))]))"

text \<open>\<^verbatim>\<open>[d[key] for key in sorted(d)]\<close>\<close>

definition sorted_values :: "(pystr, 'a) dict \<Rightarrow> 'a list" where
  "sorted_values d = map (\<lambda>k. the (map_of d k)) (sort (map fst d))"

definition save_dict ::
  "(pystr, pyval) dict \<Rightarrow> string \<Rightarrow> ('a \<Rightarrow> (pystr, pyval) dict) \<Rightarrow> (pystr, 'a) dict \<Rightarrow> json_file" where
  "save_dict extra field enc d = save_rows extra field enc (sorted_values d)"

section \<open>Dictionaries keyed by a component of their values\<close>

definition keyed :: "('a \<Rightarrow> 'k) \<Rightarrow> ('a \<Rightarrow> bool) \<Rightarrow> ('k, 'a) dict \<Rightarrow> bool" where
  "keyed key ok d \<longleftrightarrow> dict_ok d \<and> (\<forall>(k, x) \<in> set d. key x = k \<and> ok x)"

lemma keyed_Nil [simp]: "keyed key ok []"
  by (simp add: keyed_def)

lemma keyed_update [intro]:
  assumes "keyed key ok d" "key x = k" "ok x"
  shows "keyed key ok (AList.update k x d)"
proof -
  have "set (AList.update k x d) \<subseteq> insert (k, x) (set d)"
    by (induction d) auto
  with assms show ?thesis by (fastforce simp: keyed_def)
qed

lemma keyed_delete [intro]: "keyed key ok d \<Longrightarrow> keyed key ok (AList.delete k d)"
  by (auto simp: keyed_def AList.delete_eq dict_ok_def intro: distinct_map_filter)

lemma keyed_lookup: "keyed key ok d \<Longrightarrow> map_of d k = Some x \<Longrightarrow> key x = k \<and> ok x"
  by (auto simp: keyed_def dest!: map_of_SomeD)

lemma keyed_fold:
  "keyed key ok d \<Longrightarrow> \<forall>x \<in> set xs. ok x \<Longrightarrow> keyed key ok (fold (\<lambda>x. AList.update (key x) x) xs d)"
  by (induction xs arbitrary: d) auto

lemma keyed_dict_of: "\<forall>x \<in> set xs. ok x \<Longrightarrow> keyed key ok (dict_of key xs)"
  unfolding dict_of_def by (rule keyed_fold) auto

lemma update_new: "k \<notin> fst ` set d \<Longrightarrow> AList.update k x d = d @ [(k, x)]"
  by (induction d) auto

lemma dict_of_append_new:
  assumes "distinct (map key xs)"
  shows "dict_of key xs = map (\<lambda>x. (key x, x)) xs"
proof -
  have "distinct (map key xs) \<Longrightarrow> fst ` set d \<inter> key ` set xs = {} \<Longrightarrow>
      fold (\<lambda>x. AList.update (key x) x) xs d = d @ map (\<lambda>x. (key x, x)) xs" for d
  proof (induction xs arbitrary: d)
    case (Cons x xs)
    then have "fold (\<lambda>x. AList.update (key x) x) xs (d @ [(key x, x)]) =
        (d @ [(key x, x)]) @ map (\<lambda>x. (key x, x)) xs"
      by (intro Cons.IH) auto
    with Cons.prems show ?case by (simp add: update_new)
  qed simp
  from this [of "[]"] assms show ?thesis by (simp add: dict_of_def)
qed

definition sorted_dict :: "(pystr, 'a) dict \<Rightarrow> (pystr, 'a) dict" where
  "sorted_dict d = map (\<lambda>k. (k, the (map_of d k))) (sort (map fst d))"

lemma map_of_sorted_dict [simp]: "map_of (sorted_dict d) = map_of d"
proof
  fix k
  have "map_of (map (\<lambda>k. (k, f k)) ks) k = (if k \<in> set ks then Some (f k) else None)"
    for f :: "pystr \<Rightarrow> 'a" and ks
    by (induction ks) auto
  moreover have "k \<in> fst ` set d \<longleftrightarrow> (\<exists>x. map_of d k = Some x)"
    by (metis map_of_eq_None_iff not_None_eq)
  ultimately show "map_of (sorted_dict d) k = map_of d k"
    by (cases "map_of d k") (auto simp: sorted_dict_def)
qed

lemma keyed_sorted: "keyed key ok d \<Longrightarrow> keyed key ok (sorted_dict d)"
  by (auto simp: keyed_def sorted_dict_def dict_ok_def comp_def)

lemma map_key_sorted_values:
  assumes "keyed key ok d"
  shows "map key (sorted_values d) = sort (map fst d)"
proof -
  have k: "key (the (map_of d k)) = k" if "k \<in> set (sort (map fst d))" for k
    using that assms by (auto simp: keyed_def dict_ok_def)
  show ?thesis unfolding sorted_values_def map_map comp_def by (intro map_idI k) simp
qed

lemma sorted_values_distinct: "keyed key ok d \<Longrightarrow> distinct (map key (sorted_values d))"
  by (simp add: map_key_sorted_values) (simp add: keyed_def dict_ok_def)

lemma sorted_values_dict:
  assumes "keyed key ok d"
  shows "dict_of key (sorted_values d) = sorted_dict d"
proof -
  have "dict_of key (sorted_values d) = map (\<lambda>x. (key x, x)) (sorted_values d)"
    by (rule dict_of_append_new [OF sorted_values_distinct [OF assms]])
  also have "\<dots> = zip (map key (sorted_values d)) (sorted_values d)"
    by (rule nth_equalityI) simp_all
  also have "\<dots> = sorted_dict d"
    unfolding map_key_sorted_values [OF assms]
    by (rule nth_equalityI) (simp_all add: sorted_values_def sorted_dict_def)
  finally show ?thesis .
qed

lemma set_sorted_values: "dict_ok d \<Longrightarrow> x \<in> set (sorted_values d) \<longleftrightarrow> (\<exists>k. map_of d k = Some x)"
  by (force simp: sorted_values_def dict_ok_def image_iff)

section \<open>The contract of a row format\<close>

text \<open>What a store relies on: the rows it holds are valid, and a valid row is read back as written.\<close>

locale json_rows =
  fixes key :: "'a \<Rightarrow> pystr"
    and enc :: "'a \<Rightarrow> (pystr, pyval) dict"
    and dec :: "(pystr, pyval) dict \<Rightarrow> 'a option"
    and ok :: "'a \<Rightarrow> bool"
    and field :: string
    and extra :: "(pystr, pyval) dict"
  assumes dec_enc: "ok x \<Longrightarrow> dec (enc x) = Some x"
    and dec_ok: "dec d = Some x \<Longrightarrow> ok x"
    and fields: "field \<noteq> ''schema_version''" "lit field \<notin> fst ` set extra"
begin

lemma decode_encoded: "\<forall>x \<in> set xs. ok x \<Longrightarrow> decode_rows dec (map (\<lambda>x. PMap (enc x)) xs) = Inr xs"
  by (induction xs) (simp_all add: dec_enc)

lemma decoded_ok: "decode_rows dec vs = Inr xs \<Longrightarrow> \<forall>x \<in> set xs. ok x"
proof (induction vs arbitrary: xs)
  case (Cons v vs)
  then show ?case
    by (cases v) (auto simp: bindr_Inr_iff dec_ok split: option.split_asm)
qed simp

lemma load_rows_save: "\<forall>x \<in> set xs. ok x \<Longrightarrow> load_rows field dec (save_rows extra field enc xs) = Inr xs"
proof -
  have "map_of (extra @ [(lit field, v)]) (lit field) = Some v" for v
    using fields(2) by (simp add: map_of_append [symmetric] map_add_def map_of_eq_None_iff [THEN iffD2])
  then show "\<forall>x \<in> set xs. ok x \<Longrightarrow> ?thesis"
    using fields(1) by (simp add: load_rows_def save_rows_def schema_one_def pget_def decode_encoded)
qed

lemma loaded_rows_ok: "load_rows field dec f = Inr xs \<Longrightarrow> \<forall>x \<in> set xs. ok x"
  by (auto simp: load_rows_def dest: decoded_ok split: json_file.split_asm pyval.split_asm if_split_asm)

lemma loaded_keyed: "load_dict field dec key f = Inr d \<Longrightarrow> keyed key ok d"
  by (auto simp: load_dict_def bindr_Inr_iff intro: keyed_dict_of dest: loaded_rows_ok)

lemma load_save:
  assumes "keyed key ok d"
  shows "load_dict field dec key (save_dict extra field enc d) = Inr (sorted_dict d)"
proof -
  have "\<forall>x \<in> set (sorted_values d). ok x"
    using assms keyed_lookup [OF assms] by (auto simp: keyed_def set_sorted_values)
  then show ?thesis
    by (simp add: load_dict_def save_dict_def load_rows_save sorted_values_dict [OF assms])
qed

end

end
