(* ===== verification/RunJournal.thy ===== *)
theory RunJournal imports JsonStore PyText begin

text \<open>
  The crash-safe journal of an orchestration run, \<^verbatim>\<open>src/karox/orchestration_recovery.py\<close>: one row
  per step with its status, attempt and idempotency key. The state is the JSON file; every operation
  reads it, decides and writes it back.
\<close>

section \<open>Rows\<close>

datatype step_status = SPending | SRunning | SPassed | SFailed | SSkipped | SReconcile

definition status_name :: "step_status \<Rightarrow> pystr" where
  "status_name s =
     (case s of SPending \<Rightarrow> lit ''pending'' | SRunning \<Rightarrow> lit ''running'' | SPassed \<Rightarrow> lit ''passed''
      | SFailed \<Rightarrow> lit ''failed'' | SSkipped \<Rightarrow> lit ''skipped'' | SReconcile \<Rightarrow> lit ''reconcile_required'')"

definition STEP_STATUSES :: "step_status list" where
  "STEP_STATUSES = [SPending, SRunning, SPassed, SFailed, SSkipped, SReconcile]"

definition parse_status :: "pystr \<Rightarrow> step_status option" where
  "parse_status s = find (\<lambda>x. status_name x = s) STEP_STATUSES"

text \<open>The two times are whatever the row held: they are written as numbers but not checked when read.\<close>

record StepJournal =
  sj_step_id :: pystr
  sj_endpoint_id :: pystr
  sj_status :: step_status
  sj_attempt :: int
  sj_idempotency_key :: pystr
  sj_request_digest :: pystr
  sj_started_at :: pyval
  sj_finished_at :: pyval
  sj_result_summary :: pystr

definition journal_row_ok :: "StepJournal \<Rightarrow> bool" where
  "journal_row_ok s \<longleftrightarrow> 0 \<le> sj_attempt s \<and> sj_idempotency_key s \<noteq> [] \<and> sj_request_digest s \<noteq> []"

definition journal_row_to_dict :: "StepJournal \<Rightarrow> (pystr, pyval) dict" where
  "journal_row_to_dict s =
     [(lit ''step_id'', PStr (sj_step_id s)),
      (lit ''endpoint_id'', PStr (sj_endpoint_id s)),
      (lit ''status'', PStr (status_name (sj_status s))),
      (lit ''attempt'', PInt (sj_attempt s)),
      (lit ''idempotency_key'', PStr (sj_idempotency_key s)),
      (lit ''request_digest'', PStr (sj_request_digest s)),
      (lit ''started_at'', sj_started_at s),
      (lit ''finished_at'', sj_finished_at s),
      (lit ''result_summary'', PStr (sj_result_summary s))]"

definition journal_row_from_dict :: "pyconv \<Rightarrow> (pystr, pyval) dict \<Rightarrow> StepJournal option" where
  "journal_row_from_dict cv d =
     (case (map_of d (lit ''step_id''), map_of d (lit ''endpoint_id''), map_of d (lit ''status''),
            map_of d (lit ''idempotency_key''), map_of d (lit ''request_digest'')) of
        (Some step, Some endpoint, Some status, Some key, Some digest) \<Rightarrow>
          (case (parse_status (to_str cv status),
                 to_int cv (pget_or d ''attempt'' (PInt 0))) of
             (Some st, Some att) \<Rightarrow>
               let row = \<lparr>sj_step_id = to_str cv step, sj_endpoint_id = to_str cv endpoint,
                     sj_status = st, sj_attempt = att, sj_idempotency_key = to_str cv key,
                     sj_request_digest = to_str cv digest,
                     sj_started_at = pget d ''started_at'', sj_finished_at = pget d ''finished_at'',
                     sj_result_summary = to_str cv (pget_or d ''result_summary'' (PStr []))\<rparr>
               in if journal_row_ok row then Some row else None
           | _ \<Rightarrow> None)
      | _ \<Rightarrow> None)"

lemma parse_status_name [simp]: "parse_status (status_name s) = Some s"
  by (cases s) (simp_all add: parse_status_def STEP_STATUSES_def status_name_def)

interpretation journal_rows: json_rows sj_step_id journal_row_to_dict "journal_row_from_dict cv"
  journal_row_ok "''steps''" "[(lit ''run_id'', PStr run)]" for cv run
proof
  fix x :: StepJournal and d y
  show "journal_row_ok x \<Longrightarrow> journal_row_from_dict cv (journal_row_to_dict x) = Some x"
    by (simp add: journal_row_from_dict_def journal_row_to_dict_def pget_def pget_or_def Let_def
        journal_row_ok_def)
  show "journal_row_from_dict cv d = Some y \<Longrightarrow> journal_row_ok y"
    by (auto simp: journal_row_from_dict_def Let_def split: option.split_asm if_split_asm)
qed simp_all

section \<open>The journal\<close>

datatype journal_error =
    JournalLoad load_error
  | InvalidRunId
  | IdentityChanged pystr
  | InvalidRow pystr
  | UnknownStep pystr
  | CannotStart pystr step_status
  | CannotFinish pystr step_status
  | NotAwaiting pystr

record journal_env =
  je_conv :: pyconv
  je_digest :: "(pystr, pyval) dict \<Rightarrow> pystr"
  je_run :: pystr

definition open_journal :: "pyconv \<Rightarrow> ((pystr, pyval) dict \<Rightarrow> pystr) \<Rightarrow> pystr \<Rightarrow> journal_error + journal_env" where
  "open_journal cv dg run =
     (if run = [] \<or> length run > 256 then Inl InvalidRunId
      else Inr \<lparr>je_conv = cv, je_digest = dg, je_run = run\<rparr>)"

definition journal_load :: "journal_env \<Rightarrow> json_file \<Rightarrow> load_error + (pystr, StepJournal) dict" where
  "journal_load env f = load_dict ''steps'' (journal_row_from_dict (je_conv env)) sj_step_id f"

definition journal_save :: "journal_env \<Rightarrow> (pystr, StepJournal) dict \<Rightarrow> json_file" where
  "journal_save env d = save_dict [(lit ''run_id'', PStr (je_run env))] ''steps'' journal_row_to_dict d"

text \<open>\<^verbatim>\<open>f"{self.run_id}:{step_id}:{attempt}"\<close>\<close>

definition attempt_key :: "journal_env \<Rightarrow> pystr \<Rightarrow> int \<Rightarrow> pystr" where
  "attempt_key env step n = je_run env @ 58 # step @ 58 # decimal (nat n)"

fun initialize_rows ::
  "journal_env \<Rightarrow> (pystr \<times> pystr \<times> (pystr, pyval) dict) list \<Rightarrow> (pystr, StepJournal) dict \<Rightarrow> bool \<Rightarrow>
     journal_error + (pystr, StepJournal) dict \<times> bool" where
  "initialize_rows env [] d changed = Inr (d, changed)"
| "initialize_rows env ((step, endpoint, payload) # rs) d changed =
     (case map_of d step of
        Some cur \<Rightarrow>
          if sj_endpoint_id cur \<noteq> endpoint \<or> sj_request_digest cur \<noteq> je_digest env payload
          then Inl (IdentityChanged step)
          else initialize_rows env rs d changed
      | None \<Rightarrow>
          let row = \<lparr>sj_step_id = step, sj_endpoint_id = endpoint, sj_status = SPending,
                sj_attempt = 0, sj_idempotency_key = attempt_key env step 1,
                sj_request_digest = je_digest env payload, sj_started_at = PNone,
                sj_finished_at = PNone, sj_result_summary = []\<rparr>
          in if \<not> journal_row_ok row then Inl (InvalidRow step)
             else initialize_rows env rs (AList.update step row d) True)"

definition journal_initialize ::
  "journal_env \<Rightarrow> (pystr \<times> pystr \<times> (pystr, pyval) dict) list \<Rightarrow> json_file \<Rightarrow>
     (journal_error + unit) \<times> json_file" where
  "journal_initialize env requests f =
     (case journal_load env f of
        Inl e \<Rightarrow> (Inl (JournalLoad e), f)
      | Inr d \<Rightarrow>
          (case initialize_rows env requests d False of
             Inl e \<Rightarrow> (Inl e, f)
           | Inr (d', changed) \<Rightarrow> (Inr (), if changed then journal_save env d' else f)))"

definition started_row :: "journal_env \<Rightarrow> real \<Rightarrow> pystr \<Rightarrow> StepJournal \<Rightarrow> StepJournal" where
  "started_row env now step cur = cur\<lparr>sj_status := SRunning, sj_attempt := sj_attempt cur + 1,
     sj_idempotency_key := attempt_key env step (sj_attempt cur + 1),
     sj_started_at := PFloat now, sj_finished_at := PNone, sj_result_summary := []\<rparr>"

definition mark_started ::
  "journal_env \<Rightarrow> real \<Rightarrow> pystr \<Rightarrow> json_file \<Rightarrow> (journal_error + StepJournal) \<times> json_file" where
  "mark_started env now step f =
     (case journal_load env f of
        Inl e \<Rightarrow> (Inl (JournalLoad e), f)
      | Inr d \<Rightarrow>
          (case map_of d step of
             None \<Rightarrow> (Inl (UnknownStep step), f)
           | Some cur \<Rightarrow>
               if sj_status cur = SPassed then (Inr cur, f)
               else if sj_status cur \<noteq> SPending \<and> sj_status cur \<noteq> SReconcile
               then (Inl (CannotStart step (sj_status cur)), f)
               else (Inr (started_row env now step cur),
                     journal_save env (AList.update step (started_row env now step cur) d))))"

definition finished_row :: "real \<Rightarrow> bool \<Rightarrow> pystr \<Rightarrow> StepJournal \<Rightarrow> StepJournal" where
  "finished_row now passed summary cur = cur\<lparr>sj_status := if passed then SPassed else SFailed,
     sj_finished_at := PFloat now, sj_result_summary := take 2000 summary\<rparr>"

definition mark_finished ::
  "journal_env \<Rightarrow> real \<Rightarrow> pystr \<Rightarrow> bool \<Rightarrow> pystr \<Rightarrow> json_file \<Rightarrow>
     (journal_error + StepJournal) \<times> json_file" where
  "mark_finished env now step passed summary f =
     (case journal_load env f of
        Inl e \<Rightarrow> (Inl (JournalLoad e), f)
      | Inr d \<Rightarrow>
          (case map_of d step of
             None \<Rightarrow> (Inl (UnknownStep step), f)
           | Some cur \<Rightarrow>
               if sj_status cur \<noteq> SRunning then (Inl (CannotFinish step (sj_status cur)), f)
               else (Inr (finished_row now passed summary cur),
                     journal_save env (AList.update step (finished_row now passed summary cur) d))))"

record RecoverySnapshot =
  rs_run_id :: pystr
  rs_steps :: "StepJournal list"
  rs_reconcile_required :: "pystr list"
  rs_completed :: "pystr list"
  rs_failed :: "pystr list"

definition safe_to_resume :: "RecoverySnapshot \<Rightarrow> bool" where
  "safe_to_resume s \<longleftrightarrow> rs_reconcile_required s = [] \<and> rs_failed s = []"

definition steps_in :: "step_status \<Rightarrow> StepJournal list \<Rightarrow> pystr list" where
  "steps_in st rows = map sj_step_id (filter (\<lambda>r. sj_status r = st) rows)"

definition snapshot_of :: "pystr \<Rightarrow> (pystr, StepJournal) dict \<Rightarrow> RecoverySnapshot" where
  "snapshot_of run d =
     (let rows = sorted_values d
      in \<lparr>rs_run_id = run, rs_steps = rows, rs_reconcile_required = steps_in SReconcile rows,
          rs_completed = steps_in SPassed rows, rs_failed = steps_in SFailed rows\<rparr>)"

definition journal_snapshot :: "journal_env \<Rightarrow> json_file \<Rightarrow> journal_error + RecoverySnapshot" where
  "journal_snapshot env f =
     (case journal_load env f of
        Inl e \<Rightarrow> Inl (JournalLoad e)
      | Inr d \<Rightarrow> Inr (snapshot_of (je_run env) d))"

definition reconcile_row :: "StepJournal \<Rightarrow> StepJournal" where
  "reconcile_row r = (if sj_status r = SRunning then r\<lparr>sj_status := SReconcile\<rparr> else r)"

definition reconcile_after_restart ::
  "journal_env \<Rightarrow> json_file \<Rightarrow> (journal_error + RecoverySnapshot) \<times> json_file" where
  "reconcile_after_restart env f =
     (case journal_load env f of
        Inl e \<Rightarrow> (Inl (JournalLoad e), f)
      | Inr d \<Rightarrow>
          let f' = (if list_ex (\<lambda>(k, r). sj_status r = SRunning) d
                    then journal_save env (map (\<lambda>(k, r). (k, reconcile_row r)) d) else f)
          in (journal_snapshot env f', f'))"

definition resolved_row :: "real \<Rightarrow> bool \<Rightarrow> bool \<Rightarrow> pystr \<Rightarrow> StepJournal \<Rightarrow> StepJournal" where
  "resolved_row now completed passed summary cur =
     (if completed then finished_row now passed summary cur
      else cur\<lparr>sj_status := SPending, sj_started_at := PNone, sj_finished_at := PNone,
             sj_result_summary := take 2000 summary\<rparr>)"

definition resolve_reconciliation ::
  "journal_env \<Rightarrow> real \<Rightarrow> pystr \<Rightarrow> bool \<Rightarrow> bool \<Rightarrow> pystr \<Rightarrow> json_file \<Rightarrow>
     (journal_error + StepJournal) \<times> json_file" where
  "resolve_reconciliation env now step completed passed summary f =
     (case journal_load env f of
        Inl e \<Rightarrow> (Inl (JournalLoad e), f)
      | Inr d \<Rightarrow>
          (case map_of d step of
             None \<Rightarrow> (Inl (NotAwaiting step), f)
           | Some cur \<Rightarrow>
               if sj_status cur \<noteq> SReconcile then (Inl (NotAwaiting step), f)
               else (Inr (resolved_row now completed passed summary cur),
                     journal_save env
                       (AList.update step (resolved_row now completed passed summary cur) d))))"

section \<open>What every operation does to a row\<close>

text \<open>The statuses a row can have next, by one operation.\<close>

fun status_edges :: "step_status \<Rightarrow> step_status set" where
  "status_edges SPending = {SRunning}"
| "status_edges SRunning = {SPassed, SFailed, SReconcile}"
| "status_edges SReconcile = {SRunning, SPassed, SFailed, SPending}"
| "status_edges SPassed = {}"
| "status_edges SFailed = {}"
| "status_edges SSkipped = {}"

definition row_move :: "StepJournal \<Rightarrow> StepJournal \<Rightarrow> bool" where
  "row_move r r' \<longleftrightarrow> r' = r \<or>
     sj_status r' \<in> status_edges (sj_status r) \<and>
     sj_attempt r' = sj_attempt r + of_bool (sj_status r' = SRunning) \<and>
     sj_endpoint_id r' = sj_endpoint_id r \<and> sj_request_digest r' = sj_request_digest r"

datatype journal_op =
    JInitialize "(pystr \<times> pystr \<times> (pystr, pyval) dict) list"
  | JStart real pystr
  | JFinish real pystr bool pystr
  | JRestart
  | JResolve real pystr bool bool pystr

fun journal_step :: "journal_env \<Rightarrow> journal_op \<Rightarrow> json_file \<Rightarrow> json_file" where
  "journal_step env (JInitialize rs) f = snd (journal_initialize env rs f)"
| "journal_step env (JStart now k) f = snd (mark_started env now k f)"
| "journal_step env (JFinish now k p s) f = snd (mark_finished env now k p s f)"
| "journal_step env JRestart f = snd (reconcile_after_restart env f)"
| "journal_step env (JResolve now k c p s) f = snd (resolve_reconciliation env now k c p s f)"

named_theorems row_updates

lemma row_updates_ok [row_updates]:
  assumes "journal_row_ok r"
  shows "journal_row_ok (started_row env now k r)" "journal_row_ok (finished_row now p s r)"
    "journal_row_ok (resolved_row now c p s r)" "journal_row_ok (reconcile_row r)"
  using assms
  by (auto simp: journal_row_ok_def started_row_def finished_row_def resolved_row_def reconcile_row_def
      attempt_key_def)

lemma row_updates_id [row_updates]:
  "sj_step_id (started_row env now k r) = sj_step_id r"
  "sj_step_id (finished_row now p s r) = sj_step_id r"
  "sj_step_id (resolved_row now c p s r) = sj_step_id r"
  "sj_step_id (reconcile_row r) = sj_step_id r"
  by (simp_all add: started_row_def finished_row_def resolved_row_def reconcile_row_def)

lemma row_updates_move:
  "sj_status r = SPending \<or> sj_status r = SReconcile \<Longrightarrow> row_move r (started_row env now k r)"
  "sj_status r = SRunning \<Longrightarrow> row_move r (finished_row now p s r)"
  "sj_status r = SReconcile \<Longrightarrow> row_move r (resolved_row now c p s r)"
  "row_move r (reconcile_row r)"
  by (auto simp: row_move_def started_row_def finished_row_def resolved_row_def reconcile_row_def)

lemma row_move_refl [simp]: "row_move r r"
  by (simp add: row_move_def)

abbreviation journal_ok :: "(pystr, StepJournal) dict \<Rightarrow> bool" where
  "journal_ok \<equiv> keyed sj_step_id journal_row_ok"

lemma journal_loaded_ok: "journal_load env f = Inr d \<Longrightarrow> journal_ok d"
  unfolding journal_load_def by (rule journal_rows.loaded_keyed)

lemma journal_load_saved: "journal_ok d \<Longrightarrow> journal_load env (journal_save env d) = Inr (sorted_dict d)"
  unfolding journal_load_def journal_save_def by (rule journal_rows.load_save)

lemma journal_put:
  assumes "journal_load env f = Inr d" "map_of d k = Some r" "journal_row_ok r'" "sj_step_id r' = sj_step_id r"
  obtains d' where "journal_load env (journal_save env (AList.update k r' d)) = Inr d'"
    "map_of d' = (map_of d)(k \<mapsto> r')"
proof -
  from journal_loaded_ok [OF assms(1)] assms(2,3,4) have "journal_ok (AList.update k r' d)"
    by (auto dest: keyed_lookup)
  from journal_load_saved [OF this, of env] show ?thesis
    by (intro that [of "sorted_dict (AList.update k r' d)"]) (simp_all add: update_conv')
qed

text \<open>Every row of a journal survives every operation, unchanged or moved along one edge.\<close>

definition moves_to :: "(pystr, StepJournal) dict \<Rightarrow> (pystr, StepJournal) dict \<Rightarrow> bool" where
  "moves_to d d' \<longleftrightarrow>
     (\<forall>k r. map_of d k = Some r \<longrightarrow> (\<exists>r'. map_of d' k = Some r' \<and> row_move r r'))"

lemma moves_to_refl [simp]: "moves_to d d"
  by (simp add: moves_to_def)

lemma put_moves:
  assumes "journal_load env f = Inr d" "map_of d k = Some r" "journal_row_ok r'"
    "sj_step_id r' = sj_step_id r" "row_move r r'"
  shows "\<exists>d'. journal_load env (journal_save env (AList.update k r' d)) = Inr d' \<and> moves_to d d'"
proof -
  from journal_put [OF assms(1-4)] obtain d' where
    "journal_load env (journal_save env (AList.update k r' d)) = Inr d'" "map_of d' = (map_of d)(k \<mapsto> r')"
    by blast
  with assms(2,5) show ?thesis by (intro exI [of _ d']) (auto simp: moves_to_def)
qed

lemma initialize_rows_grow:
  "initialize_rows env rs d ch = Inr (d', ch') \<Longrightarrow> journal_ok d \<Longrightarrow> journal_ok d' \<and>
     (\<forall>k r. map_of d k = Some r \<longrightarrow> map_of d' k = Some r) \<and> (\<not> ch' \<longrightarrow> d' = d) \<and> (ch \<longrightarrow> ch')"
proof (induction env rs d ch rule: initialize_rows.induct)
  case (2 env step endpoint payload rs d ch)
  show ?case
  proof (cases "map_of d step")
    case None
    let ?row = "\<lparr>sj_step_id = step, sj_endpoint_id = endpoint, sj_status = SPending,
          sj_attempt = 0, sj_idempotency_key = attempt_key env step 1,
          sj_request_digest = je_digest env payload, sj_started_at = PNone,
          sj_finished_at = PNone, sj_result_summary = []\<rparr>"
    from 2(3) None have ok: "journal_row_ok ?row"
      and rest: "initialize_rows env rs (AList.update step ?row d) True = Inr (d', ch')"
      by (auto simp: Let_def split: if_split_asm)
    from ok 2(4) have "journal_ok (AList.update step ?row d)" by auto
    from "2.IH"(1) [OF None refl _ rest this] ok
    have *: "journal_ok d'" "ch'"
      and keep: "\<And>k r. map_of (AList.update step ?row d) k = Some r \<Longrightarrow> map_of d' k = Some r"
      by auto
    have "map_of d' k = Some r" if "map_of d k = Some r" for k r
      using keep [of k r] that None by (cases "k = step") (simp_all add: map_of_AList_update)
    with * show ?thesis by auto
  next
    case (Some cur)
    with 2 show ?thesis by (auto split: if_split_asm)
  qed
qed auto

lemma map_of_map_value: "map_of (map (\<lambda>(k, r). (k, g r)) d) k = map_option g (map_of d k)"
  by (induction d) auto

lemma reconciled_ok: "journal_ok d \<Longrightarrow> journal_ok (map (\<lambda>(k, r). (k, reconcile_row r)) d)"
proof -
  have "map fst (map (\<lambda>(k, r). (k, reconcile_row r)) d) = map fst d" by auto
  moreover assume "journal_ok d"
  ultimately show ?thesis by (auto simp: keyed_def dict_ok_def row_updates simp del: map_map)
qed

lemma journal_step_moves:
  assumes "journal_load env f = Inr d"
  shows "\<exists>d'. journal_load env (journal_step env op f) = Inr d' \<and> moves_to d d'"
proof -
  note ok = journal_loaded_ok [OF assms]
  have lk: "map_of d k = Some r \<Longrightarrow> journal_row_ok r \<and> sj_step_id r = k" for k r
    using keyed_lookup [OF ok] by auto
  show ?thesis
  proof (cases op)
    case (JInitialize rs)
    then show ?thesis
      using assms journal_load_saved [of _ env] initialize_rows_grow [OF _ ok]
      by (auto simp: journal_initialize_def moves_to_def split: sum.split prod.split)
  next
    case (JStart now k)
    then show ?thesis
      using assms by (auto simp: mark_started_def row_updates row_updates_move lk split: option.split
          intro!: put_moves [OF assms])
  next
    case (JFinish now k p s)
    then show ?thesis
      using assms by (auto simp: mark_finished_def row_updates row_updates_move lk split: option.split
          intro!: put_moves [OF assms])
  next
    case JRestart
    have "moves_to d (sorted_dict (map (\<lambda>(k, r). (k, reconcile_row r)) d))"
      by (auto simp: moves_to_def map_of_map_value row_updates_move)
    then show ?thesis
      using assms JRestart journal_load_saved [OF reconciled_ok [OF ok], of env]
      by (auto simp: reconcile_after_restart_def Let_def)
  next
    case (JResolve now k c p s)
    then show ?thesis
      using assms by (auto simp: resolve_reconciliation_def row_updates row_updates_move lk split: option.split
          intro!: put_moves [OF assms])
  qed
qed

section \<open>Idempotency keys\<close>

text \<open>The key a start hands out, when it starts the step (a passed step is only reported).\<close>

definition granted :: "journal_env \<Rightarrow> journal_op \<Rightarrow> json_file \<Rightarrow> pystr list" where
  "granted env op f =
     (case op of
        JStart now k \<Rightarrow>
          (case fst (mark_started env now k f) of
             Inr r \<Rightarrow> if sj_status r = SRunning then [sj_idempotency_key r] else []
           | Inl _ \<Rightarrow> [])
      | _ \<Rightarrow> [])"

fun grants :: "journal_env \<Rightarrow> journal_op list \<Rightarrow> json_file \<Rightarrow> pystr list" where
  "grants env [] f = []"
| "grants env (op # ops) f = granted env op f @ grants env ops (journal_step env op f)"

definition attempts :: "(pystr, StepJournal) dict \<Rightarrow> pystr \<Rightarrow> int" where
  "attempts d k = (case map_of d k of None \<Rightarrow> 0 | Some r \<Rightarrow> sj_attempt r)"

lemma moves_to_attempts: "moves_to d d' \<Longrightarrow> journal_ok d \<Longrightarrow> journal_ok d' \<Longrightarrow> attempts d k \<le> attempts d' k"
proof (cases "map_of d k")
  case None
  assume "journal_ok d'"
  with None show ?thesis
    using keyed_lookup [of sj_step_id journal_row_ok d' k]
    by (auto simp: attempts_def journal_row_ok_def split: option.split)
next
  case (Some r)
  assume "moves_to d d'"
  with Some obtain r' where "map_of d' k = Some r'" "row_move r r'" by (auto simp: moves_to_def)
  with Some show ?thesis by (auto simp: attempts_def row_move_def)
qed

lemma granted_counts:
  assumes "journal_load env f = Inr d" "key \<in> set (granted env op f)"
  obtains k d' where "granted env op f = [key]" "key = attempt_key env k (attempts d k + 1)"
    "journal_load env (journal_step env op f) = Inr d'" "attempts d' k = attempts d k + 1" "0 \<le> attempts d k"
proof -
  from assms obtain now k cur where op: "op = JStart now k" and cur: "map_of d k = Some cur"
    and st: "sj_status cur = SPending \<or> sj_status cur = SReconcile"
    and key: "key = attempt_key env k (sj_attempt cur + 1)" and g: "granted env op f = [key]"
    by (auto simp: granted_def mark_started_def started_row_def split: journal_op.split_asm option.split_asm
        if_split_asm)
  from keyed_lookup [OF journal_loaded_ok [OF assms(1)] cur] have ok: "journal_row_ok cur" by simp
  obtain d' where "journal_load env (journal_save env (AList.update k (started_row env now k cur) d)) = Inr d'"
    "map_of d' = (map_of d)(k \<mapsto> started_row env now k cur)"
    using journal_put [OF assms(1) cur] ok by (metis row_updates_id(1) row_updates_ok(1))
  then show ?thesis
    using that [of k d'] g key op cur st assms(1) ok
    by (auto simp: mark_started_def attempts_def started_row_def journal_row_ok_def)
qed

lemma unloadable_stays: "journal_load env f = Inl e \<Longrightarrow> journal_step env op f = f \<and> granted env op f = []"
  by (cases op) (simp_all add: granted_def mark_started_def mark_finished_def journal_initialize_def
      reconcile_after_restart_def resolve_reconciliation_def)

lemma grants_above:
  "journal_load env f = Inr d \<Longrightarrow> key \<in> set (grants env ops f) \<Longrightarrow>
     \<exists>k m. key = attempt_key env k m \<and> attempts d k < m"
proof (induction ops arbitrary: f d)
  case (Cons op ops)
  from journal_step_moves [OF Cons.prems(1)] obtain d' where
    d': "journal_load env (journal_step env op f) = Inr d'" "moves_to d d'" by blast
  note le = moves_to_attempts [OF d'(2) journal_loaded_ok [OF Cons.prems(1)] journal_loaded_ok [OF d'(1)]]
  from Cons.prems(2) consider "key \<in> set (granted env op f)" | "key \<in> set (grants env ops (journal_step env op f))"
    by auto
  then show ?case
  proof cases
    case 1
    from granted_counts [OF Cons.prems(1) this] show ?thesis by (metis zless_add1_eq)
  next
    case 2
    from Cons.IH [OF d'(1) this] obtain k m where "key = attempt_key env k m" "attempts d' k < m" by blast
    with le [of k] show ?thesis by (intro exI [of _ k] exI [of _ m]) simp
  qed
qed simp

lemma decimal_no_colon: "58 \<notin> set (decimal n)"
  using decimal_digits [of 58 n] by (auto simp: ascii_digit_def)

lemma decimal_inj: "decimal a = decimal b \<longleftrightarrow> a = b"
  by (metis decimal_value)

lemma last_colon_unique:
  assumes "a @ 58 # b = c @ 58 # d" "58 \<notin> set b" "58 \<notin> set d"
  shows "a = c \<and> b = d"
  using assms by (auto simp: append_eq_append_conv2 Cons_eq_append_conv append_eq_Cons_conv)

lemma attempt_key_inj:
  assumes "attempt_key env k m = attempt_key env k' m'" "0 \<le> m" "0 \<le> m'"
  shows "k = k' \<and> m = m'"
proof -
  from assms(1) have "k @ 58 # decimal (nat m) = k' @ 58 # decimal (nat m')"
    by (simp add: attempt_key_def)
  from last_colon_unique [OF this decimal_no_colon decimal_no_colon] assms(2,3)
  show ?thesis by (simp add: decimal_inj nat_eq_iff2)
qed

lemma grants_distinct: "distinct (grants env ops f)"
proof (induction ops arbitrary: f)
  case (Cons op ops)
  show ?case
  proof (cases "journal_load env f")
    case (Inl e)
    with Cons show ?thesis by (simp add: unloadable_stays)
  next
    case (Inr d)
    show ?thesis
    proof (cases "granted env op f")
      case Nil
      with Cons show ?thesis by simp
    next
      case (Cons key rest)
      then have "key \<in> set (granted env op f)" by simp
      from granted_counts [OF Inr this] obtain k d' where g: "granted env op f = [key]"
        and key: "key = attempt_key env k (attempts d k + 1)"
        and d': "journal_load env (journal_step env op f) = Inr d'"
        and at: "attempts d' k = attempts d k + 1" "0 \<le> attempts d k" .
      have "key \<notin> set (grants env ops (journal_step env op f))"
      proof
        assume "key \<in> set (grants env ops (journal_step env op f))"
        from grants_above [OF d' this] obtain k' m where
          m: "key = attempt_key env k' m" "attempts d' k' < m" by blast
        have "0 \<le> attempts d' k'"
          using keyed_lookup [OF journal_loaded_ok [OF d'], of k']
          by (auto simp: attempts_def journal_row_ok_def split: option.split)
        with m key at have "k' = k \<and> m = attempts d k + 1" by (intro attempt_key_inj [of env]) auto
        with m at show False by simp
      qed
      with g Cons.IH show ?thesis by simp
    qed
  qed
qed simp

section \<open>Properties\<close>

text \<open>C27. An idempotency key is handed out at most once: whatever operations are run on a journal file,
  in whatever order and with any number of restarts, no two starts get the same key.\<close>

theorem idempotency_keys_are_never_reused: "distinct (grants env ops f)"
  by (rule grants_distinct)

lemma journal_run_moves:
  "journal_load env f = Inr d \<Longrightarrow> map_of d k = Some r \<Longrightarrow> status_edges (sj_status r) = {} \<Longrightarrow>
     \<exists>d'. journal_load env (fold (journal_step env) ops f) = Inr d' \<and> map_of d' k = Some r"
proof (induction ops arbitrary: f d)
  case (Cons op ops)
  from journal_step_moves [OF Cons.prems(1)] obtain d' where
    d': "journal_load env (journal_step env op f) = Inr d'" "moves_to d d'" by blast
  with Cons.prems(2,3) have "map_of d' k = Some r" by (auto simp: moves_to_def row_move_def)
  from Cons.IH [OF d'(1) this Cons.prems(3)] show ?case by simp
qed simp

text \<open>C28. A finished step stays finished: once its row says passed or failed, no operation changes the
  row any more, and starting it reports the passed row or fails. A failed step is never run again.\<close>

theorem finished_steps_are_final:
  assumes "journal_load env f = Inr d" and "map_of d k = Some r"
    and "sj_status r = (if p then SPassed else SFailed)"
  shows "\<exists>d'. journal_load env (fold (journal_step env) ops f) = Inr d' \<and> map_of d' k = Some r \<and>
    mark_started env now k (fold (journal_step env) ops f) =
      (if p then Inr r else Inl (CannotStart k SFailed), fold (journal_step env) ops f)"
proof -
  have "status_edges (sj_status r) = {}" using assms(3) by (cases p) simp_all
  from journal_run_moves [OF assms(1,2) this, of ops] assms(3) show ?thesis
    by (fastforce simp: mark_started_def)
qed

definition demo_journal_env :: journal_env where
  "demo_journal_env = \<lparr>je_conv = plain_conv, je_digest = (\<lambda>d. lit ''d''), je_run = lit ''run''\<rparr>"

definition demo_failed_row :: StepJournal where
  "demo_failed_row = \<lparr>sj_step_id = lit ''s'', sj_endpoint_id = lit ''e'', sj_status = SFailed,
     sj_attempt = 1, sj_idempotency_key = lit ''run:s:1'', sj_request_digest = lit ''d'',
     sj_started_at = PFloat 1, sj_finished_at = PFloat 2, sj_result_summary = []\<rparr>"

lemma demo_journal_load:
  "journal_load demo_journal_env (journal_save demo_journal_env [(lit ''s'', demo_failed_row)]) =
     Inr [(lit ''s'', demo_failed_row)]"
  by (subst journal_load_saved)
    (simp_all add: keyed_def dict_ok_def journal_row_ok_def demo_failed_row_def sorted_dict_def)

theorem finished_steps_are_final_witness:
  "fst (mark_started demo_journal_env 3 (lit ''s'')
     (journal_step demo_journal_env JRestart
       (journal_save demo_journal_env [(lit ''s'', demo_failed_row)]))) =
     Inl (CannotStart (lit ''s'') SFailed)"
proof -
  have "map_of [(lit ''s'', demo_failed_row)] (lit ''s'') = Some demo_failed_row"
    "sj_status demo_failed_row = (if False then SPassed else SFailed)"
    by (simp_all add: demo_failed_row_def)
  from finished_steps_are_final [OF demo_journal_load this, of "[JRestart]" 3] show ?thesis by auto
qed

end
