(* ===== verification/Identifiers.thy ===== *)
theory Identifiers imports PyText begin

text \<open>
  The identifier patterns several modules share. Each pattern is one leading class and one repeated
  class and is used with \<^verbatim>\<open>fullmatch\<close>, so it is written as the predicate it decides:
  \<^verbatim>\<open>[A-Za-z0-9][A-Za-z0-9._:@/+-]{0,255}\<close> is \<open>safe_id\<close> and
  \<^verbatim>\<open>[A-Za-z0-9][A-Za-z0-9._-]{0,63}\<close> is \<open>safe_name\<close>.
\<close>

definition ascii_alnum :: "nat \<Rightarrow> bool" where
  "ascii_alnum c \<longleftrightarrow> 65 \<le> c \<and> c \<le> 90 \<or> 97 \<le> c \<and> c \<le> 122 \<or> 48 \<le> c \<and> c \<le> 57"

definition id_char :: "nat \<Rightarrow> bool" where
  "id_char c \<longleftrightarrow> ascii_alnum c \<or> c \<in> set (lit ''._:@/+-'')"

definition name_char :: "nat \<Rightarrow> bool" where
  "name_char c \<longleftrightarrow> ascii_alnum c \<or> c \<in> set (lit ''._-'')"

definition safe_id :: "pystr \<Rightarrow> bool" where
  "safe_id s \<longleftrightarrow> s \<noteq> [] \<and> ascii_alnum (hd s) \<and> list_all id_char (tl s) \<and> length s \<le> 256"

definition safe_name :: "pystr \<Rightarrow> bool" where
  "safe_name s \<longleftrightarrow> s \<noteq> [] \<and> ascii_alnum (hd s) \<and> list_all name_char (tl s) \<and> length s \<le> 64"

text \<open>The run and command identifiers: letters, digits, hyphen and underscore, up to a length.\<close>

definition plain_id :: "nat \<Rightarrow> pystr \<Rightarrow> bool" where
  "plain_id n s \<longleftrightarrow> s \<noteq> [] \<and> length s \<le> n \<and> list_all (\<lambda>c. ascii_alnum c \<or> c = 45 \<or> c = 95) s"

lemma ascii_alnum_code [code]:
  "ascii_alnum c = (let i = int c in 65 \<le> i \<and> i \<le> 90 \<or> 97 \<le> i \<and> i \<le> 122 \<or> 48 \<le> i \<and> i \<le> 57)"
  by (auto simp: ascii_alnum_def Let_def)

lemma safe_name_id: "safe_name s \<Longrightarrow> safe_id s"
proof -
  have "name_char c \<Longrightarrow> id_char c" for c by (auto simp: name_char_def id_char_def lit_def)
  then show "safe_name s \<Longrightarrow> safe_id s"
    by (auto simp: safe_name_def safe_id_def list_all_iff)
qed

text \<open>No safe character is white space, a line break or a colon beyond those listed.\<close>

lemma safe_name_no_colon: "safe_name s \<Longrightarrow> 58 \<notin> set s"
  by (cases s) (auto simp: safe_name_def list_all_iff name_char_def ascii_alnum_def lit_def)

end
