(* ===== verification/ContextBus.thy ===== *)
theory ContextBus imports JsonStore Identifiers Security "HOL-Library.Multiset" "HOL-Library.Product_Lexorder" begin

text \<open>
  The shared context of an orchestration run, \<^verbatim>\<open>src/karox/context_bus.py\<close>: content-addressed items in
  one JSON file, projections of them for a role under a character budget, and deltas against what a
  worker already holds. SHA-256 is the argument \<open>cb_hash\<close>.
\<close>

section \<open>Items\<close>

definition KINDS :: "pystr set" where
  "KINDS = lit ` {''constitution'', ''environment'', ''architecture'', ''project_map'', ''file'', ''symbol'',
     ''test'', ''diff'', ''evidence'', ''verification'', ''decision'', ''task'', ''browser'',
     ''log_summary'', ''handoff'', ''diagnostic''}"

text \<open>\<^verbatim>\<open>(?i)\b(?:token|secret|password|api[_-]?key|authorization)\b\s*[:=]\s*\S+\<close>\<close>

definition SECRET_ASSIGNMENT :: re where
  "SECRET_ASSIGNMENT = rseqs [RBoundary,
     ralts [rstr (lit ''token''), rstr (lit ''secret''), rstr (lit ''password''),
       rseqs [rstr (lit ''api''), ROpt (RC (COr (CEq 95) (CEq 45))), rstr (lit ''key'')],
       rstr (lit ''authorization'')],
     RBoundary, RMany CSpace 0 None, RC (COr (CEq 58) (CEq 61)), RMany CSpace 0 None,
     RMany (CNot CSpace) 1 None]"

record bus_env =
  cb_ud :: unidata
  cb_hash :: "pystr \<Rightarrow> pystr"
  cb_conv :: pyconv
  cb_namespace :: pystr

definition redacted_text :: "bus_env \<Rightarrow> pystr \<Rightarrow> pystr" where
  "redacted_text env value =
     re_sub (ud_word (cb_ud env)) True SECRET_ASSIGNMENT REDACTED (redacted_str (cb_ud env) value)"

record ContextItem =
  ci_item_id :: pystr
  ci_kind :: pystr
  ci_content :: pystr
  ci_content_hash :: pystr
  ci_tags :: "pystr list"
  ci_priority :: int
  ci_stable :: bool
  ci_source_ref :: "pystr option"
  ci_updated_at :: real

definition source_ref_ok :: "pystr \<Rightarrow> bool" where
  "source_ref_ok s \<longleftrightarrow> length s \<le> 1000 \<and> list_all (\<lambda>c. c \<noteq> 13 \<and> c \<noteq> 10 \<and> c \<noteq> 0) s"

definition item_ok :: "bus_env \<Rightarrow> ContextItem \<Rightarrow> bool" where
  "item_ok env it \<longleftrightarrow> safe_id (ci_item_id it) \<and> ci_kind it \<in> KINDS \<and>
     cb_hash env (ci_content it) = ci_content_hash it \<and> list_all safe_id (ci_tags it) \<and>
     0 \<le> ci_priority it \<and> ci_priority it \<le> 100 \<and>
     (case ci_source_ref it of None \<Rightarrow> True | Some s \<Rightarrow> source_ref_ok s) \<and> 0 \<le> ci_updated_at it"

text \<open>\<^verbatim>\<open>ContextItem.build\<close>: the content is filtered and hashed; an invalid item raises \<^verbatim>\<open>ValueError\<close>.\<close>

definition build_item ::
  "bus_env \<Rightarrow> real \<Rightarrow> pystr \<Rightarrow> pystr \<Rightarrow> pystr \<Rightarrow> pystr list \<Rightarrow> int \<Rightarrow> bool \<Rightarrow> pystr option \<Rightarrow>
     ContextItem option" where
  "build_item env now iid kind content tags priority stb ref =
     (let safe = redacted_text env content;
          it = \<lparr>ci_item_id = iid, ci_kind = kind, ci_content = safe, ci_content_hash = cb_hash env safe,
                ci_tags = dedup tags, ci_priority = priority, ci_stable = stb,
                ci_source_ref = ref, ci_updated_at = now\<rparr>
      in if item_ok env it then Some it else None)"

definition item_to_dict :: "ContextItem \<Rightarrow> (pystr, pyval) dict" where
  "item_to_dict it =
     [(lit ''item_id'', PStr (ci_item_id it)), (lit ''kind'', PStr (ci_kind it)),
      (lit ''content'', PStr (ci_content it)), (lit ''content_hash'', PStr (ci_content_hash it)),
      (lit ''tags'', PSeq (map PStr (ci_tags it))), (lit ''priority'', PInt (ci_priority it)),
      (lit ''stable'', PBool (ci_stable it)), (lit ''source_ref'', opt_text (ci_source_ref it)),
      (lit ''updated_at'', PFloat (ci_updated_at it))]"

definition item_from_dict :: "bus_env \<Rightarrow> (pystr, pyval) dict \<Rightarrow> ContextItem option" where
  "item_from_dict env d =
     (case (map_of d (lit ''item_id''), map_of d (lit ''kind''), map_of d (lit ''content''),
            map_of d (lit ''content_hash'')) of
        (Some i, Some k, Some c, Some h) \<Rightarrow>
          (case (as_strings (pget d ''tags''), as_int (pget_or d ''priority'' (PInt 50)),
                 as_bool (pget_or d ''stable'' (PBool False)), as_opt_str (pget d ''source_ref''),
                 to_float (cb_conv env) (pget_or d ''updated_at'' (PFloat 0))) of
             (Some tags, Some pr, Some st, Some ref, Some t) \<Rightarrow>
               let it = \<lparr>ci_item_id = to_str (cb_conv env) i, ci_kind = to_str (cb_conv env) k,
                     ci_content = to_str (cb_conv env) c, ci_content_hash = to_str (cb_conv env) h,
                     ci_tags = tags, ci_priority = pr, ci_stable = st, ci_source_ref = ref,
                     ci_updated_at = t\<rparr>
               in if item_ok env it then Some it else None
           | _ \<Rightarrow> None)
      | _ \<Rightarrow> None)"

interpretation bus_rows: json_rows ci_item_id item_to_dict "item_from_dict env" "item_ok env"
  "''items''" "[(lit ''namespace'', PStr (cb_namespace env))]" for env
proof
  fix x :: ContextItem and d y
  show "item_ok env x \<Longrightarrow> item_from_dict env (item_to_dict x) = Some x"
    by (cases x) (simp add: item_from_dict_def item_to_dict_def pget_def pget_or_def Let_def)
  show "item_from_dict env d = Some y \<Longrightarrow> item_ok env y"
    by (auto simp: item_from_dict_def Let_def split: option.split_asm if_split_asm)
qed simp_all

section \<open>The store\<close>

definition open_bus :: "unidata \<Rightarrow> (pystr \<Rightarrow> pystr) \<Rightarrow> pyconv \<Rightarrow> pystr \<Rightarrow> bus_env option" where
  "open_bus ud H cv namespace =
     (if safe_id namespace
      then Some \<lparr>cb_ud = ud, cb_hash = H, cb_conv = cv, cb_namespace = namespace\<rparr> else None)"

datatype bus_error = BusLoad load_error | BusValue

definition bus_load :: "bus_env \<Rightarrow> json_file \<Rightarrow> load_error + (pystr, ContextItem) dict" where
  "bus_load env f = load_dict ''items'' (item_from_dict env) ci_item_id f"

definition bus_save :: "bus_env \<Rightarrow> (pystr, ContextItem) dict \<Rightarrow> json_file" where
  "bus_save env d = save_dict [(lit ''namespace'', PStr (cb_namespace env))] ''items'' item_to_dict d"

record ContextUpdate =
  cu_item_id :: pystr
  cu_changed :: bool
  cu_previous_hash :: "pystr option"
  cu_content_hash :: pystr
  cu_chars_avoided :: nat

definition upsert :: "bus_env \<Rightarrow> ContextItem \<Rightarrow> json_file \<Rightarrow> (bus_error + ContextUpdate) \<times> json_file" where
  "upsert env it f =
     (case bus_load env f of
        Inl e \<Rightarrow> (Inl (BusLoad e), f)
      | Inr d \<Rightarrow>
          let old = map_of d (ci_item_id it);
              same = (case old of None \<Rightarrow> False | Some o' \<Rightarrow> ci_content_hash o' = ci_content_hash it)
          in (Inr \<lparr>cu_item_id = ci_item_id it, cu_changed = (\<not> same),
                   cu_previous_hash = map_option ci_content_hash old,
                   cu_content_hash = ci_content_hash it,
                   cu_chars_avoided = (if same then length (ci_content it) else 0)\<rparr>,
              if same then f else bus_save env (AList.update (ci_item_id it) it d)))"

definition put_text ::
  "bus_env \<Rightarrow> real \<Rightarrow> pystr \<Rightarrow> pystr \<Rightarrow> pystr \<Rightarrow> pystr list \<Rightarrow> int \<Rightarrow> bool \<Rightarrow> pystr option \<Rightarrow>
     json_file \<Rightarrow> (bus_error + ContextUpdate) \<times> json_file" where
  "put_text env now iid kind content tags priority stb ref f =
     (case build_item env now iid kind content tags priority stb ref of
        None \<Rightarrow> (Inl BusValue, f)
      | Some it \<Rightarrow> upsert env it f)"

definition bus_remove :: "bus_env \<Rightarrow> pystr \<Rightarrow> json_file \<Rightarrow> (bus_error + bool) \<times> json_file" where
  "bus_remove env iid f =
     (case bus_load env f of
        Inl e \<Rightarrow> (Inl (BusLoad e), f)
      | Inr d \<Rightarrow>
          if map_of d iid = None then (Inr False, f)
          else (Inr True, bus_save env (AList.delete iid d)))"

definition bus_items :: "bus_env \<Rightarrow> json_file \<Rightarrow> bus_error + ContextItem list" where
  "bus_items env f = (case bus_load env f of Inl e \<Rightarrow> Inl (BusLoad e) | Inr d \<Rightarrow> Inr (sorted_values d))"

definition manifest :: "bus_env \<Rightarrow> json_file \<Rightarrow> bus_error + (pystr, pystr) dict" where
  "manifest env f =
     (case bus_load env f of
        Inl e \<Rightarrow> Inl (BusLoad e)
      | Inr d \<Rightarrow> Inr (map (\<lambda>(k, it). (ci_item_id it, ci_content_hash it)) d))"

record bus_stats =
  bs_items :: nat
  bs_chars :: nat
  bs_stable_items :: nat
  bs_kinds :: "(pystr \<times> nat) list"

definition stats :: "bus_env \<Rightarrow> json_file \<Rightarrow> bus_error + bus_stats" where
  "stats env f =
     (case bus_load env f of
        Inl e \<Rightarrow> Inl (BusLoad e)
      | Inr d \<Rightarrow>
          let items = map snd d
          in Inr \<lparr>bs_items = length items,
                  bs_chars = sum_list (map (\<lambda>it. length (ci_content it)) items),
                  bs_stable_items = length (filter ci_stable items),
                  bs_kinds = map (\<lambda>k. (k, length (filter (\<lambda>it. ci_kind it = k) items)))
                    (sort (dedup (map ci_kind items)))\<rparr>)"

section \<open>Projections\<close>

definition ROLE_KIND_WEIGHT :: "(string \<times> (string \<times> int) list) list" where
  "ROLE_KIND_WEIGHT =
    [(''orchestrator'', [(''task'', 50), (''architecture'', 45), (''decision'', 45), (''project_map'', 40), (''evidence'', 25)]),
     (''planner'', [(''task'', 50), (''architecture'', 50), (''project_map'', 45), (''decision'', 35), (''file'', 15)]),
     (''implementer'', [(''task'', 45), (''file'', 50), (''symbol'', 50), (''diagnostic'', 45), (''test'', 35), (''architecture'', 30)]),
     (''reviewer'', [(''task'', 45), (''diff'', 55), (''evidence'', 50), (''test'', 45), (''decision'', 30), (''architecture'', 25)]),
     (''tester'', [(''task'', 40), (''test'', 55), (''diagnostic'', 50), (''diff'', 30), (''file'', 20)]),
     (''ui'', [(''task'', 35), (''browser'', 55), (''evidence'', 45), (''diff'', 25), (''diagnostic'', 30)]),
     (''security'', [(''task'', 40), (''diff'', 55), (''evidence'', 50), (''architecture'', 35), (''diagnostic'', 35)]),
     (''scout'', [(''task'', 45), (''project_map'', 55), (''symbol'', 45), (''file'', 35), (''architecture'', 30)]),
     (''summarizer'', [(''handoff'', 55), (''decision'', 50), (''task'', 45), (''evidence'', 40), (''diff'', 25)])]"

definition role_weight :: "pystr \<Rightarrow> pystr \<Rightarrow> int" where
  "role_weight role kind =
     (case map_of (map (\<lambda>(r, ks). (lit r, ks)) ROLE_KIND_WEIGHT) role of
        None \<Rightarrow> 0
      | Some ks \<Rightarrow> (case map_of (map (\<lambda>(k, w). (lit k, w)) ks) kind of None \<Rightarrow> 0 | Some w \<Rightarrow> w))"

definition score :: "pystr \<Rightarrow> pystr list \<Rightarrow> ContextItem \<Rightarrow> int \<times> real \<times> pystr" where
  "score role required it =
     ((if ci_item_id it \<in> set required then 10000 else 0) + ci_priority it
        + role_weight role (ci_kind it) + (if ci_stable it then 25 else 0),
      ci_updated_at it, ci_item_id it)"

text \<open>The greedy choice, with the characters used so far.\<close>

fun pick :: "int \<Rightarrow> pystr list \<Rightarrow> int \<Rightarrow> ContextItem list \<Rightarrow> ContextItem list" where
  "pick budget required chars [] = []"
| "pick budget required chars (it # its) =
     (if chars + int (length (ci_content it)) > budget \<and> ci_item_id it \<notin> set required
      then pick budget required chars its
      else it # pick budget required (chars + int (length (ci_content it))) its)"

definition candidates :: "pystr list \<Rightarrow> pystr list \<Rightarrow> (pystr, ContextItem) dict \<Rightarrow> ContextItem list" where
  "candidates required tags d =
     filter (\<lambda>it. tags = [] \<or> list_ex (\<lambda>t. t \<in> set (ci_tags it)) tags \<or> ci_item_id it \<in> set required) (map snd d)"

text \<open>\<^verbatim>\<open>candidates.sort(key=..., reverse=True)\<close>; the keys are distinct, so it is the reversed sort.\<close>

definition ranked :: "pystr \<Rightarrow> pystr list \<Rightarrow> ContextItem list \<Rightarrow> ContextItem list" where
  "ranked role required its = rev (sort_key (score role required) its)"

definition stable_hash :: "bus_env \<Rightarrow> ContextItem list \<Rightarrow> pystr" where
  "stable_hash env its = cb_hash env (join_with [10]
     (sort (map (\<lambda>it. ci_item_id it @ 58 # ci_content_hash it) (filter ci_stable its))))"

record ContextProjection =
  pj_role :: pystr
  pj_items :: "ContextItem list"
  pj_total_chars :: int
  pj_omitted_items :: nat
  pj_stable_prefix_hash :: pystr

definition total_chars :: "ContextItem list \<Rightarrow> int" where
  "total_chars its = sum_list (map (\<lambda>it. int (length (ci_content it))) its)"

definition project ::
  "bus_env \<Rightarrow> pystr \<Rightarrow> int \<Rightarrow> pystr list \<Rightarrow> pystr list \<Rightarrow> (pystr, ContextItem) dict \<Rightarrow> ContextProjection" where
  "project env role budget required tags d =
     (let cands = candidates required tags d;
          selected = pick budget required 0 (ranked role required cands);
          its = sort_key (\<lambda>it. (\<not> ci_stable it, ci_kind it, ci_item_id it)) selected
      in \<lparr>pj_role = role, pj_items = its, pj_total_chars = total_chars selected,
          pj_omitted_items = length cands - length selected,
          pj_stable_prefix_hash = stable_hash env its\<rparr>)"

definition projection ::
  "bus_env \<Rightarrow> pystr \<Rightarrow> int \<Rightarrow> pystr list \<Rightarrow> pystr list \<Rightarrow> json_file \<Rightarrow> bus_error + ContextProjection" where
  "projection env role budget required tags f =
     (if budget \<le> 0 then Inl BusValue
      else case bus_load env f of
        Inl e \<Rightarrow> Inl (BusLoad e)
      | Inr d \<Rightarrow> Inr (project env role budget required tags d))"

section \<open>Deltas\<close>

record ContextDelta =
  cd_role :: pystr
  cd_changed :: "ContextItem list"
  cd_unchanged_ids :: "pystr list"
  cd_removed_ids :: "pystr list"
  cd_sent_chars :: int
  cd_reused_chars :: int

definition holds :: "(pystr, pystr) dict \<Rightarrow> ContextItem \<Rightarrow> bool" where
  "holds known it \<longleftrightarrow> map_of known (ci_item_id it) = Some (ci_content_hash it)"

definition delta_of :: "(pystr, pystr) dict \<Rightarrow> ContextProjection \<Rightarrow> ContextDelta" where
  "delta_of known p =
     (let its = pj_items p; ids = map ci_item_id its
      in \<lparr>cd_role = pj_role p,
          cd_changed = filter (\<lambda>it. \<not> holds known it) its,
          cd_unchanged_ids = sort (map ci_item_id (filter (holds known) its)),
          cd_removed_ids = sort (dedup (filter (\<lambda>k. k \<notin> set ids) (map fst known))),
          cd_sent_chars = total_chars (filter (\<lambda>it. \<not> holds known it) its),
          cd_reused_chars = total_chars (filter (holds known) its)\<rparr>)"

definition delta ::
  "bus_env \<Rightarrow> pystr \<Rightarrow> (pystr, pystr) dict \<Rightarrow> int \<Rightarrow> pystr list \<Rightarrow> pystr list \<Rightarrow> json_file \<Rightarrow>
     bus_error + ContextDelta" where
  "delta env role known budget required tags f =
     bindr (projection env role budget required tags f) (\<lambda>p. Inr (delta_of known p))"

text \<open>What the runtime then notes as known to the worker
  (\<^verbatim>\<open>OrchestrationRuntime._remember_delivered_context\<close>).\<close>

definition remember :: "ContextDelta \<Rightarrow> (pystr, pystr) dict \<Rightarrow> (pystr, pystr) dict" where
  "remember dl known =
     fold (\<lambda>it. AList.update (ci_item_id it) (ci_content_hash it)) (cd_changed dl)
       (fold AList.delete (cd_removed_ids dl) known)"

section \<open>What a projection holds\<close>

lemma total_chars_simps [simp]:
  "total_chars [] = 0" "total_chars (it # its) = int (length (ci_content it)) + total_chars its"
  "total_chars (xs @ ys) = total_chars xs + total_chars ys"
  by (simp_all add: total_chars_def)

lemma total_chars_nonneg: "0 \<le> total_chars its"
  by (induction its) simp_all

lemma total_chars_mset: "mset xs = mset ys \<Longrightarrow> total_chars xs = total_chars ys"
  unfolding total_chars_def by (metis mset_map sum_mset_sum_list)

lemma total_chars_split: "total_chars (filter P xs) + total_chars (filter (\<lambda>x. \<not> P x) xs) = total_chars xs"
  by (induction xs) simp_all

lemma pick_all_required:
  "\<forall>it \<in> set xs. ci_item_id it \<in> set req \<Longrightarrow>
     pick b req n (xs @ ys) = xs @ pick b req (n + total_chars xs) ys"
  by (induction xs arbitrary: n) (simp_all add: add.assoc)

lemma pick_optional_fits:
  "\<forall>it \<in> set ys. ci_item_id it \<notin> set req \<Longrightarrow> n + total_chars (pick b req n ys) \<le> max b n"
proof (induction ys arbitrary: n)
  case (Cons y ys)
  then have "m + total_chars (pick b req m ys) \<le> max b m" for m by simp
  from this [of n] this [of "n + int (length (ci_content y))"] Cons.prems show ?case
    by (auto simp: add.assoc)
qed simp

lemma pick_subset: "set (pick b req n its) \<subseteq> set its"
  by (induction its arbitrary: n) auto

lemma pick_keeps_required: "it \<in> set its \<Longrightarrow> ci_item_id it \<in> set req \<Longrightarrow> it \<in> set (pick b req n its)"
  by (induction its arbitrary: n) auto

lemma pick_ids_distinct:
  "distinct (map ci_item_id its) \<Longrightarrow> distinct (map ci_item_id (pick b req n its))"
proof (induction its arbitrary: n)
  case (Cons it its)
  then show ?case using pick_subset [of b req _ its] by fastforce
qed simp

lemma role_weight_bounds: "0 \<le> role_weight role kind \<and> role_weight role kind \<le> 55"
proof -
  have *: "\<forall>(r, ks) \<in> set ROLE_KIND_WEIGHT. \<forall>(k, w) \<in> set ks. 0 \<le> w \<and> w \<le> 55"
    by (simp add: ROLE_KIND_WEIGHT_def)
  have "0 \<le> w \<and> w \<le> 55" if "map_of (map (\<lambda>(r, ks). (lit r, ks)) ROLE_KIND_WEIGHT) role = Some ks"
    "map_of (map (\<lambda>(k, w). (lit k, w)) ks) kind = Some w" for ks w
    using map_of_SomeD [OF that(1)] map_of_SomeD [OF that(2)] * by fastforce
  then show ?thesis by (auto simp: role_weight_def split: option.split)
qed

text \<open>A required item always ranks before one that is not required.\<close>

lemma required_scores_higher:
  assumes "item_ok env a" "item_ok env b" "ci_item_id a \<in> set req" "ci_item_id b \<notin> set req"
  shows "score role req b < score role req a"
  using assms role_weight_bounds [of role "ci_kind a"] role_weight_bounds [of role "ci_kind b"]
  by (auto simp: score_def item_ok_def)

lemma sorted_partition:
  assumes "sorted (map g xs)" "\<forall>x \<in> set xs. \<forall>y \<in> set xs. P x \<longrightarrow> \<not> P y \<longrightarrow> g x > g y"
  shows "rev xs = rev (filter P xs) @ rev (filter (\<lambda>x. \<not> P x) xs)"
  using assms
proof (induction xs)
  case (Cons x xs)
  show ?case
  proof (cases "P x")
    case True
    have "filter (\<lambda>x. \<not> P x) xs = []"
    proof (rule ccontr)
      assume "filter (\<lambda>x. \<not> P x) xs \<noteq> []"
      then obtain y where "y \<in> set xs" "\<not> P y" by (auto simp: filter_empty_conv)
      with True Cons.prems show False by fastforce
    qed
    with True Cons show ?thesis by simp
  qed (use Cons in simp)
qed simp

lemma ranked_partition:
  assumes "\<forall>it \<in> set its. item_ok env it"
  shows "\<exists>xs ys. ranked role req its = xs @ ys \<and> (\<forall>it \<in> set xs. ci_item_id it \<in> set req) \<and>
    (\<forall>it \<in> set ys. ci_item_id it \<notin> set req)"
proof -
  let ?s = "sort_key (score role req) its"
  have "\<forall>x \<in> set ?s. \<forall>y \<in> set ?s. ci_item_id x \<in> set req \<longrightarrow> ci_item_id y \<notin> set req \<longrightarrow>
      score role req x > score role req y"
    using assms required_scores_higher by fastforce
  from sorted_partition [OF sorted_sort_key this] show ?thesis
    unfolding ranked_def by (intro exI conjI) (auto simp: rev_filter)
qed

lemma bus_loaded_ok: "bus_load env f = Inr d \<Longrightarrow> keyed ci_item_id (item_ok env) d"
  unfolding bus_load_def by (rule bus_rows.loaded_keyed)

lemma bus_load_saved:
  "keyed ci_item_id (item_ok env) d \<Longrightarrow> bus_load env (bus_save env d) = Inr (sorted_dict d)"
  unfolding bus_load_def bus_save_def by (rule bus_rows.load_save)

lemma keyed_values:
  assumes "keyed key ok d"
  shows "distinct (map key (map snd d))" "\<forall>x \<in> set (map snd d). ok x"
proof -
  have "map key (map snd d) = map fst d" using assms by (auto simp: keyed_def)
  then show "distinct (map key (map snd d))" using assms by (simp add: keyed_def dict_ok_def del: map_map)
  show "\<forall>x \<in> set (map snd d). ok x" using assms by (auto simp: keyed_def)
qed

lemma projected:
  assumes "keyed ci_item_id (item_ok env) d"
  shows "distinct (map ci_item_id (pj_items (project env role b req tags d)))"
    and "set (pj_items (project env role b req tags d)) \<subseteq> snd ` set d"
    and "pj_total_chars (project env role b req tags d) = total_chars (pj_items (project env role b req tags d))"
proof -
  let ?c = "ranked role req (candidates req tags d)"
  have m: "mset ?c = mset (candidates req tags d)" by (simp add: ranked_def)
  then have "distinct (map ci_item_id ?c)"
    using keyed_values(1) [OF assms] distinct_filter
    by (metis (no_types, lifting) candidates_def distinct_map_filter mset_eq_imp_distinct_iff mset_map)
  note d = pick_ids_distinct [OF this, of b req 0]
  let ?p = "pick b req 0 ?c"
  have ms: "mset (pj_items (project env role b req tags d)) = mset ?p" by (simp add: project_def Let_def)
  from d ms show "distinct (map ci_item_id (pj_items (project env role b req tags d)))"
    by (metis mset_eq_imp_distinct_iff mset_map)
  from mset_eq_setD [OF ms] mset_eq_setD [OF m] pick_subset [of b req 0 ?c]
  show "set (pj_items (project env role b req tags d)) \<subseteq> snd ` set d"
    by (auto simp: candidates_def)
  from total_chars_mset [OF ms]
  show "pj_total_chars (project env role b req tags d) = total_chars (pj_items (project env role b req tags d))"
    by (simp add: project_def Let_def)
qed

lemma projected_required:
  assumes "keyed ci_item_id (item_ok env) d"
  shows "total_chars (pj_items (project env role b req tags d)) \<le>
      max b (total_chars (filter (\<lambda>it. ci_item_id it \<in> set req) (pj_items (project env role b req tags d))))"
    and "it \<in> snd ` set d \<Longrightarrow> ci_item_id it \<in> set req \<Longrightarrow> it \<in> set (pj_items (project env role b req tags d))"
proof -
  let ?R = "\<lambda>it. ci_item_id it \<in> set req"
  let ?p = "pick b req 0 (ranked role req (candidates req tags d))"
  have ms: "mset (pj_items (project env role b req tags d)) = mset ?p" by (simp add: project_def Let_def)
  have "\<forall>it \<in> set (candidates req tags d). item_ok env it"
    using keyed_values(2) [OF assms] by (auto simp: candidates_def)
  from ranked_partition [OF this] obtain xs ys where
    r: "ranked role req (candidates req tags d) = xs @ ys" "\<forall>it \<in> set xs. ?R it" "\<forall>it \<in> set ys. \<not> ?R it"
    by blast
  have p: "?p = xs @ pick b req (total_chars xs) ys"
    using pick_all_required [OF r(2), of b 0 ys] r(1) by simp
  have none: "filter ?R (pick b req (total_chars xs) ys) = []"
    using r(3) pick_subset [of b req "total_chars xs" ys] by (auto simp: filter_empty_conv)
  have "filter ?R ?p = xs" unfolding p using r(2) none by simp
  moreover have "total_chars ?p \<le> max b (total_chars xs)"
    unfolding p using pick_optional_fits [OF r(3), of "total_chars xs" b] by simp
  moreover have "mset (filter ?R (pj_items (project env role b req tags d))) = mset (filter ?R ?p)"
    using ms by simp
  ultimately show "total_chars (pj_items (project env role b req tags d)) \<le>
      max b (total_chars (filter ?R (pj_items (project env role b req tags d))))"
    using total_chars_mset [OF ms] total_chars_mset by metis
  assume "it \<in> snd ` set d" "?R it"
  then have "it \<in> set (ranked role req (candidates req tags d))"
    by (auto simp: ranked_def candidates_def)
  from pick_keeps_required [OF this \<open>?R it\<close>] mset_eq_setD [OF ms]
  show "it \<in> set (pj_items (project env role b req tags d))" by auto
qed

section \<open>What a delta does\<close>

abbreviation item_hashes :: "ContextItem list \<Rightarrow> (pystr, pystr) dict" where
  "item_hashes its \<equiv> map (\<lambda>it. (ci_item_id it, ci_content_hash it)) its"

lemma map_of_fold_items:
  "distinct (map ci_item_id its) \<Longrightarrow>
     map_of (fold (\<lambda>it. AList.update (ci_item_id it) (ci_content_hash it)) its d) k =
       (case map_of (item_hashes its) k of None \<Rightarrow> map_of d k | Some h \<Rightarrow> Some h)"
proof (induction its arbitrary: d)
  case (Cons it its)
  then have "map_of (item_hashes its) (ci_item_id it) = None"
    by (auto simp: map_of_eq_None_iff comp_def)
  with Cons show ?case by (auto simp: map_of_AList_update split: option.split)
qed simp

lemma map_of_item_hashes:
  "distinct (map ci_item_id its) \<Longrightarrow> it \<in> set its \<Longrightarrow>
     map_of (item_hashes its) (ci_item_id it) = Some (ci_content_hash it)"
  by (induction its) (auto simp: rev_image_eqI)

lemma remember_delta:
  assumes "distinct (map ci_item_id (pj_items p))"
  shows "map_of (remember (delta_of known p) known) = map_of (item_hashes (pj_items p))"
proof
  fix k
  let ?its = "pj_items p"
  let ?ch = "filter (\<lambda>it. \<not> holds known it) ?its"
  have dch: "distinct (map ci_item_id ?ch)" using assms by (rule distinct_map_filter)
  have rm: "map_of (fold AList.delete (cd_removed_ids (delta_of known p)) known) k =
      (if k \<in> ci_item_id ` set ?its then map_of known k else None)"
    by (auto simp: fold_delete map_of_filter_key delta_of_def Let_def map_of_eq_None_iff)
  have e: "map_of (remember (delta_of known p) known) k =
      (case map_of (item_hashes ?ch) k of
         None \<Rightarrow> if k \<in> ci_item_id ` set ?its then map_of known k else None | Some h \<Rightarrow> Some h)"
    unfolding remember_def rm [symmetric]
    by (subst map_of_fold_items) (simp_all add: delta_of_def Let_def dch)
  show "map_of (remember (delta_of known p) known) k = map_of (item_hashes ?its) k"
  proof (cases "k \<in> ci_item_id ` set ?its")
    case True
    then obtain it where it: "it \<in> set ?its" "k = ci_item_id it" by auto
    note h = map_of_item_hashes [OF assms it(1)]
    show ?thesis
    proof (cases "holds known it")
      case True
      have "k \<notin> ci_item_id ` set ?ch"
        using True it assms by (auto simp: distinct_map inj_on_def)
      then have "map_of (item_hashes ?ch) k = None"
        by (auto simp: map_of_eq_None_iff)
      with True h it e show ?thesis by (auto simp: holds_def)
    next
      case False
      with it have "it \<in> set ?ch" by simp
      from map_of_item_hashes [OF dch this] h it e show ?thesis by simp
    qed
  next
    case False
    then have "map_of (item_hashes ?its) k = None" "map_of (item_hashes ?ch) k = None"
      by (auto simp: map_of_eq_None_iff)
    with False e show ?thesis by simp
  qed
qed

lemma delta_when_known:
  assumes "distinct (map ci_item_id (pj_items p))" "map_of known = map_of (item_hashes (pj_items p))"
  shows "cd_changed (delta_of known p) = []" "cd_removed_ids (delta_of known p) = []"
    "cd_sent_chars (delta_of known p) = 0"
proof -
  have h: "\<forall>it \<in> set (pj_items p). holds known it"
    using map_of_item_hashes [OF assms(1)] assms(2) by (simp add: holds_def)
  then have e: "filter (\<lambda>it. \<not> holds known it) (pj_items p) = []" by (simp add: filter_empty_conv)
  have "fst ` set known = ci_item_id ` set (pj_items p)"
    using arg_cong [OF assms(2), of dom] by (simp add: dom_map_of_conv_image_fst image_image)
  then have "filter (\<lambda>k. k \<notin> ci_item_id ` set (pj_items p)) (map fst known) = []"
    by (auto simp: filter_empty_conv)
  with e show "cd_changed (delta_of known p) = []" "cd_removed_ids (delta_of known p) = []"
    "cd_sent_chars (delta_of known p) = 0" by (simp_all add: delta_of_def Let_def)
qed

section \<open>Properties\<close>

text \<open>C33. A projection keeps its budget: it counts exactly the characters of its items, no more than the
  budget unless the required items alone are more; and no stored required item is left out.\<close>

theorem projection_stays_in_budget:
  assumes "projection env role budget required tags f = Inr p" and "bus_load env f = Inr d"
  shows "pj_total_chars p = total_chars (pj_items p) \<and>
    pj_total_chars p \<le>
      max budget (total_chars (filter (\<lambda>it. ci_item_id it \<in> set required) (pj_items p))) \<and>
    {it \<in> snd ` set d. ci_item_id it \<in> set required} \<subseteq> set (pj_items p)"
proof -
  note ok = bus_loaded_ok [OF assms(2)]
  from assms have "p = project env role budget required tags d"
    by (simp add: projection_def split: if_split_asm)
  moreover have "{it \<in> snd ` set d. ci_item_id it \<in> set required} \<subseteq>
      set (pj_items (project env role budget required tags d))"
    using projected_required(2) [OF ok] by blast
  ultimately show ?thesis using projected(3) [OF ok] projected_required(1) [OF ok] by simp
qed

definition demo_bus_env :: bus_env where
  "demo_bus_env = \<lparr>cb_ud = \<lparr>ud_word = ascii_alnum, ud_casefold = (\<lambda>c. [c]), ud_lower = (\<lambda>s. s),
     ud_upper = (\<lambda>s. s)\<rparr>, cb_hash = (\<lambda>s. s), cb_conv = plain_conv, cb_namespace = lit ''n''\<rparr>"

definition demo_item :: ContextItem where
  "demo_item = \<lparr>ci_item_id = lit ''t'', ci_kind = lit ''task'', ci_content = lit ''abc'',
     ci_content_hash = lit ''abc'', ci_tags = [], ci_priority = 50, ci_stable = True,
     ci_source_ref = None, ci_updated_at = 1\<rparr>"

lemma demo_bus_load:
  "bus_load demo_bus_env (bus_save demo_bus_env [(lit ''t'', demo_item)]) = Inr [(lit ''t'', demo_item)]"
proof -
  have "item_ok demo_bus_env demo_item"
    by (simp add: item_ok_def demo_item_def demo_bus_env_def KINDS_def safe_id_def) code_simp
  then have "keyed ci_item_id (item_ok demo_bus_env) [(lit ''t'', demo_item)]"
    by (simp add: keyed_def dict_ok_def demo_item_def)
  from bus_load_saved [OF this] show ?thesis by (simp add: sorted_dict_def)
qed

lemma demo_projection:
  "projection demo_bus_env (lit ''planner'') 10 [] [] (bus_save demo_bus_env [(lit ''t'', demo_item)]) =
     Inr (project demo_bus_env (lit ''planner'') 10 [] [] [(lit ''t'', demo_item)])"
  by (simp add: projection_def demo_bus_load)

lemma demo_projected:
  "pj_items (project demo_bus_env (lit ''planner'') 10 [] [] [(lit ''t'', demo_item)]) = [demo_item]"
  by (simp add: project_def Let_def candidates_def ranked_def demo_item_def lit_def)

theorem projection_stays_in_budget_witness:
  "pj_total_chars (project demo_bus_env (lit ''planner'') 10 [] [] [(lit ''t'', demo_item)]) = 3"
  using projection_stays_in_budget [OF demo_projection demo_bus_load]
  by (simp add: demo_projected) (simp add: demo_item_def lit_def)

text \<open>A delta brings a worker up to date: when the worker has taken it in, what it is noted to hold
  is exactly the projection; asking again sends nothing and removes nothing; and every projected
  character was either sent or reused.\<close>

theorem delta_brings_worker_up_to_date:
  assumes "delta env role known budget required tags f = Inr dl"
    and "projection env role budget required tags f = Inr p"
  shows "map_of (remember dl known) = map_of (item_hashes (pj_items p)) \<and>
    (\<exists>again. delta env role (remember dl known) budget required tags f = Inr again \<and>
       cd_changed again = [] \<and> cd_removed_ids again = [] \<and> cd_sent_chars again = 0) \<and>
    cd_sent_chars dl + cd_reused_chars dl = pj_total_chars p"
proof -
  from assms(2) obtain d where d: "bus_load env f = Inr d" and p: "p = project env role budget required tags d"
    by (auto simp: projection_def split: if_split_asm sum.split_asm)
  note pj = projected [OF bus_loaded_ok [OF d], of role budget required tags, folded p]
  from assms have dl: "dl = delta_of known p" by (simp add: delta_def)
  note r = remember_delta [OF pj(1), of known, folded dl]
  have "cd_sent_chars dl + cd_reused_chars dl = pj_total_chars p"
    using total_chars_split [of "holds known" "pj_items p"] pj(3) by (simp add: dl delta_of_def Let_def)
  with r delta_when_known [OF pj(1) r] assms(2) show ?thesis by (simp add: delta_def)
qed

theorem delta_brings_worker_up_to_date_witness:
  "\<exists>dl. delta demo_bus_env (lit ''planner'') [(lit ''old'', [])] 10 [] []
       (bus_save demo_bus_env [(lit ''t'', demo_item)]) = Inr dl \<and>
     map_of (remember dl [(lit ''old'', [])]) = [lit ''t'' \<mapsto> lit ''abc'']"
proof -
  have "\<exists>dl. delta demo_bus_env (lit ''planner'') [(lit ''old'', [])] 10 [] []
      (bus_save demo_bus_env [(lit ''t'', demo_item)]) = Inr dl"
    by (simp add: delta_def demo_projection)
  then obtain dl where dl: "delta demo_bus_env (lit ''planner'') [(lit ''old'', [])] 10 [] []
      (bus_save demo_bus_env [(lit ''t'', demo_item)]) = Inr dl" by blast
  from delta_brings_worker_up_to_date [OF this demo_projection] dl show ?thesis
    by (simp add: demo_projected) (simp add: demo_item_def)
qed

section \<open>What the filters let through\<close>

text \<open>A key with a provider prefix is stored as it is: \<^verbatim>\<open>redact_content\<close> only removes secrets it is
  given, and none is; the assignment filter wants a name and a sign in front.\<close>

lemma provider_key_is_stored:
  "redacted_text demo_bus_env (lit ''use sk-aaaaaaaaaaaaaaaaaaaaaaaa'') = lit ''use sk-aaaaaaaaaaaaaaaaaaaaaaaa'' \<and>
   contains_credential (cb_ud demo_bus_env) (lit ''use sk-aaaaaaaaaaaaaaaaaaaaaaaa'')"
  unfolding redacted_text_def redacted_str_id by code_simp

text \<open>An item whose text is unchanged is not written again, so a new priority, tag, kind or stable flag
  is lost.\<close>

lemma same_text_keeps_old_metadata:
  assumes "bus_load env f = Inr d" and "map_of d (ci_item_id it) = Some old"
    and "ci_content_hash old = ci_content_hash it"
  shows "snd (upsert env it f) = f"
  using assms by (simp add: upsert_def)

end
