(* ===== verification/IntelligencePool.thy ===== *)
theory IntelligencePool imports JsonStore Identifiers Security begin

text \<open>
  The inventory of intelligence endpoints, \<^verbatim>\<open>src/karox/intelligence_pool.py\<close>, with the parts of the
  provider registry (\<^verbatim>\<open>registry.py\<close>) and of the quota store (\<^verbatim>\<open>quota_brain.py\<close>) it is used with. API
  endpoints are derived from the registry, all others are rows of one JSON file. SHA-256 and the
  conversions of dynamic values are arguments.
\<close>

section \<open>Vocabulary\<close>

definition SOURCE_API :: pystr where "SOURCE_API = lit ''api''"
definition SOURCE_SUBSCRIPTION :: pystr where "SOURCE_SUBSCRIPTION = lit ''subscription''"
definition SOURCE_LOCAL :: pystr where "SOURCE_LOCAL = lit ''local''"

definition SOURCE_KINDS :: "pystr set" where
  "SOURCE_KINDS = {SOURCE_API, SOURCE_SUBSCRIPTION, SOURCE_LOCAL, lit ''external''}"

definition ROLE_KINDS :: "pystr set" where
  "ROLE_KINDS = lit ` {''planner'', ''implementer'', ''reviewer'', ''scout'', ''tester'', ''summarizer'',
     ''orchestrator'', ''ui'', ''security''}"

definition CAPABILITIES :: "pystr set" where
  "CAPABILITIES = lit ` {''code'', ''reasoning'', ''tools'', ''vision'', ''browser'', ''mcp'', ''local'',
     ''structured_output'', ''streaming''}"

definition no_line_chars :: "pystr \<Rightarrow> bool" where
  "no_line_chars s \<longleftrightarrow> list_all (\<lambda>c. c \<noteq> 13 \<and> c \<noteq> 10 \<and> c \<noteq> 0) s"

definition safe_model_id :: "pystr \<Rightarrow> bool" where
  "safe_model_id s \<longleftrightarrow> py_strip s \<noteq> [] \<and> length s \<le> 500 \<and> no_line_chars s"

definition safe_text :: "unidata \<Rightarrow> pystr \<Rightarrow> bool" where
  "safe_text ud s \<longleftrightarrow> py_strip s \<noteq> [] \<and> length s \<le> 500 \<and> no_line_chars s \<and> \<not> contains_credential ud s"

text \<open>The key of an API endpoint: readable when it is a safe id, otherwise sanitised with a digest.\<close>

definition sanitize :: "pystr \<Rightarrow> pystr" where
  "sanitize s = map (\<lambda>c. if id_char c then c else 95) s"

definition api_endpoint_id :: "(pystr \<Rightarrow> pystr) \<Rightarrow> pystr \<Rightarrow> pystr \<Rightarrow> pystr option" where
  "api_endpoint_id H provider model =
     (if \<not> safe_id provider \<or> \<not> safe_model_id model then None
      else
        let prefix = lit ''api:'' @ provider @ [58];
            raw = prefix @ model
        in if length raw \<le> 256 \<and> safe_id raw then Some raw
           else
             let digest = take 16 (H model);
                 room = 256 - int (length prefix) - int (length digest) - 1;
                 candidate = prefix @ take (nat room) (sanitize model) @ 45 # digest
             in if room < 1 then None else if safe_id candidate then Some candidate else None)"

section \<open>Quota and endpoints\<close>

record QuotaSnapshot =
  q_remaining_fraction :: "real option"
  q_remaining_units :: "real option"
  q_unit :: "pystr option"
  q_resets_at :: "real option"
  q_observed_at :: real
  q_source :: pystr

definition quota_ok :: "unidata \<Rightarrow> QuotaSnapshot \<Rightarrow> bool" where
  "quota_ok ud q \<longleftrightarrow>
     (case q_remaining_fraction q of None \<Rightarrow> True | Some r \<Rightarrow> 0 \<le> r \<and> r \<le> 1) \<and>
     (case q_remaining_units q of None \<Rightarrow> True | Some r \<Rightarrow> 0 \<le> r) \<and>
     (case q_unit q of None \<Rightarrow> True | Some u \<Rightarrow> safe_text ud u) \<and>
     0 \<le> q_observed_at q \<and> safe_text ud (q_source q)"

definition default_quota :: QuotaSnapshot where
  "default_quota = \<lparr>q_remaining_fraction = None, q_remaining_units = None, q_unit = None,
     q_resets_at = None, q_observed_at = 0, q_source = lit ''unknown''\<rparr>"

definition quota_known :: "QuotaSnapshot \<Rightarrow> bool" where
  "quota_known q \<longleftrightarrow> q_remaining_fraction q \<noteq> None \<or> q_remaining_units q \<noteq> None"

definition quota_to_dict :: "QuotaSnapshot \<Rightarrow> (pystr, pyval) dict" where
  "quota_to_dict q =
     [(lit ''remaining_fraction'', pv_opt_float (q_remaining_fraction q)),
      (lit ''remaining_units'', pv_opt_float (q_remaining_units q)),
      (lit ''unit'', opt_text (q_unit q)), (lit ''resets_at'', pv_opt_float (q_resets_at q)),
      (lit ''observed_at'', PFloat (q_observed_at q)), (lit ''source'', PStr (q_source q))]"

definition quota_from_dict :: "unidata \<Rightarrow> (pystr, pyval) dict \<Rightarrow> QuotaSnapshot option" where
  "quota_from_dict ud d =
     (case (as_opt_number (pget d ''remaining_fraction''), as_opt_number (pget d ''remaining_units''),
            as_opt_str (pget d ''unit''), as_opt_number (pget d ''resets_at''),
            as_number (pget_or d ''observed_at'' (PFloat 0)), as_str (pget_or d ''source'' (PStr (lit ''unknown'')))) of
        (Some f, Some u, Some n, Some r, Some t, Some s) \<Rightarrow>
          let q = \<lparr>q_remaining_fraction = f, q_remaining_units = u, q_unit = n, q_resets_at = r,
                q_observed_at = t, q_source = s\<rparr>
          in if quota_ok ud q then Some q else None
      | _ \<Rightarrow> None)"

record IntelligenceEndpoint =
  ie_endpoint_id :: pystr
  ie_display_name :: pystr
  ie_source_kind :: pystr
  ie_capabilities :: "pystr list"
  ie_roles :: "pystr list"
  ie_provider_id :: "pystr option"
  ie_model_id :: "pystr option"
  ie_target_id :: "pystr option"
  ie_enabled :: bool
  ie_already_paid :: bool
  ie_quota :: QuotaSnapshot
  ie_provenance :: pystr

definition opt_all :: "('a \<Rightarrow> bool) \<Rightarrow> 'a option \<Rightarrow> bool" where
  "opt_all P x \<longleftrightarrow> (case x of None \<Rightarrow> True | Some y \<Rightarrow> P y)"

definition endpoint_ok :: "unidata \<Rightarrow> IntelligenceEndpoint \<Rightarrow> bool" where
  "endpoint_ok ud e \<longleftrightarrow> safe_id (ie_endpoint_id e) \<and> safe_text ud (ie_display_name e) \<and>
     ie_source_kind e \<in> SOURCE_KINDS \<and> list_all (\<lambda>c. c \<in> CAPABILITIES) (ie_capabilities e) \<and>
     list_all (\<lambda>r. r \<in> ROLE_KINDS) (ie_roles e) \<and> opt_all safe_id (ie_provider_id e) \<and>
     opt_all safe_model_id (ie_model_id e) \<and> opt_all safe_id (ie_target_id e) \<and>
     (ie_source_kind e = SOURCE_API \<longrightarrow> ie_provider_id e \<noteq> None \<and> ie_model_id e \<noteq> None) \<and>
     (ie_source_kind e \<noteq> SOURCE_API \<longrightarrow> ie_target_id e \<noteq> None) \<and>
     safe_text ud (ie_provenance e) \<and> quota_ok ud (ie_quota e)"

definition supports :: "IntelligenceEndpoint \<Rightarrow> pystr list \<Rightarrow> bool" where
  "supports e required \<longleftrightarrow> list_all (\<lambda>c. c \<in> set (ie_capabilities e)) required"

definition metered_api :: "IntelligenceEndpoint \<Rightarrow> bool" where
  "metered_api e \<longleftrightarrow> ie_source_kind e = SOURCE_API \<and> \<not> ie_already_paid e"

definition endpoint_to_dict :: "IntelligenceEndpoint \<Rightarrow> (pystr, pyval) dict" where
  "endpoint_to_dict e =
     [(lit ''endpoint_id'', PStr (ie_endpoint_id e)), (lit ''display_name'', PStr (ie_display_name e)),
      (lit ''source_kind'', PStr (ie_source_kind e)), (lit ''capabilities'', PSeq (map PStr (ie_capabilities e))),
      (lit ''roles'', PSeq (map PStr (ie_roles e))), (lit ''provider_id'', opt_text (ie_provider_id e)),
      (lit ''model_id'', opt_text (ie_model_id e)), (lit ''target_id'', opt_text (ie_target_id e)),
      (lit ''enabled'', PBool (ie_enabled e)), (lit ''already_paid'', PBool (ie_already_paid e)),
      (lit ''quota'', PMap (quota_to_dict (ie_quota e))), (lit ''provenance'', PStr (ie_provenance e))]"

definition quota_field :: "unidata \<Rightarrow> pyval \<Rightarrow> QuotaSnapshot option" where
  "quota_field ud v = (case v of PMap d \<Rightarrow> quota_from_dict ud d | _ \<Rightarrow> Some default_quota)"

definition endpoint_from_dict :: "unidata \<Rightarrow> (pystr, pyval) dict \<Rightarrow> IntelligenceEndpoint option" where
  "endpoint_from_dict ud d =
     (case (as_str (pget d ''endpoint_id''), as_str (pget d ''display_name''), as_str (pget d ''source_kind''),
            as_strings (pget d ''capabilities''), as_strings (pget d ''roles''),
            as_opt_str (pget d ''provider_id''), as_opt_str (pget d ''model_id''), as_opt_str (pget d ''target_id''),
            as_bool (pget_or d ''enabled'' (PBool True)), as_bool (pget_or d ''already_paid'' (PBool False)),
            quota_field ud (pget d ''quota''), as_str (pget_or d ''provenance'' (PStr (lit ''manual'')))) of
        (Some i, Some n, Some s, Some cs, Some rs, Some p, Some m, Some t, Some en, Some paid, Some q, Some pr) \<Rightarrow>
          let e = \<lparr>ie_endpoint_id = i, ie_display_name = n, ie_source_kind = s, ie_capabilities = cs,
                ie_roles = rs, ie_provider_id = p, ie_model_id = m, ie_target_id = t, ie_enabled = en,
                ie_already_paid = paid, ie_quota = q, ie_provenance = pr\<rparr>
          in if endpoint_ok ud e then Some e else None
      | _ \<Rightarrow> None)"

lemma quota_roundtrip: "quota_ok ud q \<Longrightarrow> quota_from_dict ud (quota_to_dict q) = Some q"
  by (cases q) (simp add: quota_from_dict_def quota_to_dict_def pget_def pget_or_def Let_def)

lemma endpoint_roundtrip: "endpoint_ok ud e \<Longrightarrow> endpoint_from_dict ud (endpoint_to_dict e) = Some e"
proof -
  assume ok: "endpoint_ok ud e"
  then have "quota_ok ud (ie_quota e)" by (simp add: endpoint_ok_def)
  from quota_roundtrip [OF this] ok show ?thesis
    by (cases e) (simp add: endpoint_from_dict_def endpoint_to_dict_def pget_def pget_or_def Let_def quota_field_def)
qed

lemma endpoint_from_dict_ok: "endpoint_from_dict ud d = Some e \<Longrightarrow> endpoint_ok ud e"
  by (auto simp: endpoint_from_dict_def Let_def split: option.split_asm if_split_asm)

section \<open>The provider registry\<close>

record ModelPricing =
  mp_version :: pystr
  mp_currency :: pystr
  mp_source :: pystr
  mp_input_per_million :: real
  mp_output_per_million :: real
  mp_cache_read_per_million :: "real option"
  mp_cache_write_per_million :: "real option"

definition cache_read_rate :: "ModelPricing \<Rightarrow> real" where
  "cache_read_rate p =
     (case mp_cache_read_per_million p of Some r \<Rightarrow> r | None \<Rightarrow> mp_input_per_million p * (1 / 10))"

definition cache_write_rate :: "ModelPricing \<Rightarrow> real" where
  "cache_write_rate p =
     (case mp_cache_write_per_million p of Some r \<Rightarrow> r | None \<Rightarrow> mp_input_per_million p * (5 / 4))"

definition usage_count :: "(pystr, pyval) dict \<Rightarrow> string list \<Rightarrow> int" where
  "usage_count usage names =
     (case List.find (\<lambda>n. case pget usage n of PInt i \<Rightarrow> 0 \<le> i | _ \<Rightarrow> False) names of
        None \<Rightarrow> 0 | Some n \<Rightarrow> (case pget usage n of PInt i \<Rightarrow> i | _ \<Rightarrow> 0))"

definition estimate :: "ModelPricing \<Rightarrow> (pystr, pyval) dict \<Rightarrow> real" where
  "estimate p usage =
     (let prompt = usage_count usage [''prompt_tokens'', ''input_tokens''];
          output = usage_count usage [''completion_tokens'', ''output_tokens''];
          cache_read = usage_count usage [''cache_read_tokens''];
          cache_write = usage_count usage [''cache_write_tokens''];
          full = max 0 (prompt - cache_read - cache_write)
      in py_round 12 (of_int full * mp_input_per_million p / 1000000
           + of_int cache_read * cache_read_rate p / 1000000
           + of_int cache_write * cache_write_rate p / 1000000
           + of_int output * mp_output_per_million p / 1000000))"

record ProviderRecord =
  pr_provider_id :: pystr
  pr_adapter_kind :: pystr
  pr_base_url :: pystr
  pr_credential_ref :: "pystr option"
  pr_headers :: "(pystr, pystr) dict"
  pr_query :: "(pystr, pystr) dict"
  pr_privacy_class :: pystr
  pr_timeout_seconds :: real
  pr_max_transport_retries :: int
  pr_enabled :: bool
  pr_bypass :: bool

record ModelRecord =
  mr_provider_id :: pystr
  mr_model_id :: pystr
  mr_aliases :: "pystr list"
  mr_context_window :: "int option"
  mr_max_output_tokens :: "int option"
  mr_tools :: pystr
  mr_vision :: pystr
  mr_structured_output :: pystr
  mr_streaming :: pystr
  mr_pricing :: "ModelPricing option"
  mr_provenance :: pystr
  mr_display_name :: "pystr option"

text \<open>What a registry answers: its providers, and its models in the order \<^verbatim>\<open>models()\<close> returns them.\<close>

record registry =
  rg_providers :: "ProviderRecord list"
  rg_models :: "ModelRecord list"

definition registry_model :: "registry \<Rightarrow> pystr \<Rightarrow> pystr \<Rightarrow> ModelRecord option" where
  "registry_model rg provider name =
     (case filter (\<lambda>m. mr_provider_id m = provider \<and> (mr_model_id m = name \<or> name \<in> set (mr_aliases m)))
            (rg_models rg) of
        [m] \<Rightarrow> Some m | _ \<Rightarrow> None)"

definition model_capabilities :: "ModelRecord \<Rightarrow> pystr list" where
  "model_capabilities m =
     [lit ''code'', lit ''reasoning'']
     @ (if mr_tools m = lit ''true'' then [lit ''tools'', lit ''mcp''] else [])
     @ (if mr_vision m = lit ''true'' then [lit ''vision''] else [])
     @ (if mr_structured_output m = lit ''true'' then [lit ''structured_output''] else [])
     @ (if mr_streaming m = lit ''true'' then [lit ''streaming''] else [])"

text \<open>\<^verbatim>\<open>f"{model_name} \u00b7 {provider_id}"\<close>; a name that is missing or empty is the model id.\<close>

definition provider_endpoint ::
  "unidata \<Rightarrow> (pystr \<Rightarrow> pystr) \<Rightarrow> ProviderRecord \<Rightarrow> ModelRecord \<Rightarrow> IntelligenceEndpoint option" where
  "provider_endpoint ud H p m =
     Option.bind (api_endpoint_id H (pr_provider_id p) (mr_model_id m)) (\<lambda>i.
       let name = (case mr_display_name m of Some n \<Rightarrow> if n = [] then mr_model_id m else n | None \<Rightarrow> mr_model_id m);
           e = \<lparr>ie_endpoint_id = i, ie_display_name = name @ [32, 183, 32] @ pr_provider_id p,
                ie_source_kind = SOURCE_API, ie_capabilities = dedup (model_capabilities m), ie_roles = [],
                ie_provider_id = Some (pr_provider_id p), ie_model_id = Some (mr_model_id m),
                ie_target_id = None, ie_enabled = pr_enabled p, ie_already_paid = False,
                ie_quota = default_quota\<lparr>q_source := lit ''provider-registry''\<rparr>,
                ie_provenance = lit ''provider-registry:'' @ mr_provenance m\<rparr>
       in if endpoint_ok ud e then Some e else None)"

section \<open>The pool\<close>

datatype pool_error =
    PoolUnreadable load_error
  | PoolInvalid
  | PoolValueError
  | ApiManaged
  | NoSuchEndpoint pystr

record pool_env =
  pe_ud :: unidata
  pe_hash :: "pystr \<Rightarrow> pystr"
  pe_registry :: registry

fun decode_endpoints ::
  "unidata \<Rightarrow> pyval list \<Rightarrow> (pystr, IntelligenceEndpoint) dict \<Rightarrow>
     pool_error + (pystr, IntelligenceEndpoint) dict" where
  "decode_endpoints ud [] d = Inr d"
| "decode_endpoints ud (PMap m # vs) d =
     (case endpoint_from_dict ud m of
        None \<Rightarrow> Inl PoolInvalid
      | Some e \<Rightarrow>
          if ie_source_kind e = SOURCE_API \<or> map_of d (ie_endpoint_id e) \<noteq> None then Inl PoolInvalid
          else decode_endpoints ud vs (d @ [(ie_endpoint_id e, e)]))"
| "decode_endpoints ud (_ # vs) d = Inl PoolInvalid"

definition load_custom :: "pool_env \<Rightarrow> json_file \<Rightarrow> pool_error + (pystr, IntelligenceEndpoint) dict" where
  "load_custom env f =
     (case f of
        Missing \<Rightarrow> Inr []
      | Unreadable \<Rightarrow> Inl (PoolUnreadable FileUnreadable)
      | NotUtf8File \<Rightarrow> Inl (PoolUnreadable UndecodableText)
      | Json v \<Rightarrow>
          (case v of
             PMap d \<Rightarrow>
               if \<not> schema_one d then Inl (PoolUnreadable BadSchema)
               else (case pget d ''endpoints'' of
                       PSeq vs \<Rightarrow> decode_endpoints (pe_ud env) vs []
                     | _ \<Rightarrow> Inl (PoolUnreadable NotAnArray))
           | _ \<Rightarrow> Inl (PoolUnreadable BadSchema)))"

definition save_custom :: "(pystr, IntelligenceEndpoint) dict \<Rightarrow> json_file" where
  "save_custom d = save_dict [] ''endpoints'' endpoint_to_dict d"

definition api_endpoints :: "pool_env \<Rightarrow> pool_error + IntelligenceEndpoint list" where
  "api_endpoints env =
     (let provider_of = (\<lambda>m. List.find (\<lambda>p. pr_provider_id p = mr_provider_id m) (rev (rg_providers (pe_registry env))));
          made = map (\<lambda>m. case provider_of m of None \<Rightarrow> Some None
             | Some p \<Rightarrow> map_option Some (provider_endpoint (pe_ud env) (pe_hash env) p m)) (rg_models (pe_registry env))
      in case all_some made of
           None \<Rightarrow> Inl PoolValueError
         | Some xs \<Rightarrow> Inr (sort_key ie_endpoint_id (map the (filter (\<lambda>x. x \<noteq> None) xs))))"

definition pool_list :: "pool_env \<Rightarrow> bool \<Rightarrow> json_file \<Rightarrow> pool_error + IntelligenceEndpoint list" where
  "pool_list env include_disabled f =
     bindr (api_endpoints env) (\<lambda>apis.
     bindr (load_custom env f) (\<lambda>custom.
       let merged = fold (\<lambda>(k, e). AList.update k e) custom (dict_of ie_endpoint_id apis);
           result = sorted_values merged
       in Inr (if include_disabled then result else filter ie_enabled result)))"

definition pool_get :: "pool_env \<Rightarrow> pystr \<Rightarrow> json_file \<Rightarrow> pool_error + IntelligenceEndpoint" where
  "pool_get env i f =
     (if \<not> safe_id i then Inl PoolValueError
      else bindr (pool_list env True f) (\<lambda>es.
        case List.find (\<lambda>e. ie_endpoint_id e = i) es of
          None \<Rightarrow> Inl (NoSuchEndpoint i) | Some e \<Rightarrow> Inr e))"

definition pool_put ::
  "pool_env \<Rightarrow> IntelligenceEndpoint \<Rightarrow> json_file \<Rightarrow> (pool_error + IntelligenceEndpoint) \<times> json_file" where
  "pool_put env e f =
     (if ie_source_kind e = SOURCE_API then (Inl ApiManaged, f)
      else case load_custom env f of
        Inl x \<Rightarrow> (Inl x, f)
      | Inr d \<Rightarrow> (Inr e, save_custom (AList.update (ie_endpoint_id e) e d)))"

definition pool_remove ::
  "pool_env \<Rightarrow> pystr \<Rightarrow> json_file \<Rightarrow> (pool_error + IntelligenceEndpoint) \<times> json_file" where
  "pool_remove env i f =
     (case load_custom env f of
        Inl x \<Rightarrow> (Inl x, f)
      | Inr d \<Rightarrow>
          (case map_of d i of
             None \<Rightarrow> (Inl (NoSuchEndpoint i), f)
           | Some e \<Rightarrow> (Inr e, save_custom (AList.delete i d))))"

definition update_quota ::
  "pool_env \<Rightarrow> pystr \<Rightarrow> QuotaSnapshot \<Rightarrow> json_file \<Rightarrow> (pool_error + IntelligenceEndpoint) \<times> json_file" where
  "update_quota env i q f =
     (case pool_get env i f of
        Inl x \<Rightarrow> (Inl x, f)
      | Inr e \<Rightarrow>
          if ie_source_kind e = SOURCE_API then (Inl ApiManaged, f)
          else if \<not> quota_ok (pe_ud env) q then (Inl PoolValueError, f)
          else pool_put env (e\<lparr>ie_quota := q\<rparr>) f)"

definition set_enabled ::
  "pool_env \<Rightarrow> pystr \<Rightarrow> bool \<Rightarrow> json_file \<Rightarrow> (pool_error + IntelligenceEndpoint) \<times> json_file" where
  "set_enabled env i on f =
     (case pool_get env i f of
        Inl x \<Rightarrow> (Inl x, f)
      | Inr e \<Rightarrow>
          if ie_source_kind e = SOURCE_API then (Inl ApiManaged, f)
          else pool_put env (e\<lparr>ie_enabled := on\<rparr>) f)"

section \<open>What a listing holds\<close>

abbreviation pool_keyed :: "(pystr, IntelligenceEndpoint) dict \<Rightarrow> bool" where
  "pool_keyed \<equiv> keyed ie_endpoint_id (\<lambda>e. True)"

lemma decode_keyed: "decode_endpoints ud vs d = Inr d' \<Longrightarrow> pool_keyed d \<Longrightarrow> pool_keyed d'"
proof (induction ud vs d rule: decode_endpoints.induct)
  case (2 ud m vs d)
  from 2(2) obtain e where e: "endpoint_from_dict ud m = Some e" "map_of d (ie_endpoint_id e) = None"
    "ie_source_kind e \<noteq> SOURCE_API"
    and rest: "decode_endpoints ud vs (d @ [(ie_endpoint_id e, e)]) = Inr d'"
    by (auto split: option.split_asm if_split_asm)
  have "pool_keyed (d @ [(ie_endpoint_id e, e)])"
    using 2(3) e(2) by (auto simp: keyed_def dict_ok_def map_of_eq_None_iff)
  with "2.IH" [OF e(1) _ rest] e show ?case by simp
qed auto

lemma load_custom_keyed: "load_custom env f = Inr d \<Longrightarrow> pool_keyed d"
  by (auto simp: load_custom_def intro: decode_keyed split: json_file.split_asm pyval.split_asm if_split_asm)

lemma fold_update_keyed:
  "pool_keyed d \<Longrightarrow> \<forall>(k, e) \<in> set es. ie_endpoint_id e = k \<Longrightarrow>
     pool_keyed (fold (\<lambda>(k, e). AList.update k e) es d)"
  by (induction es arbitrary: d) auto

lemma pool_list_distinct:
  assumes "pool_list env inc f = Inr es"
  shows "distinct (map ie_endpoint_id es)"
proof -
  from assms obtain apis d where d: "load_custom env f = Inr d"
    and es: "es = (let r = sorted_values (fold (\<lambda>(k, e). AList.update k e) d (dict_of ie_endpoint_id apis))
      in if inc then r else filter ie_enabled r)"
    by (auto simp: pool_list_def bindr_Inr_iff Let_def)
  have "pool_keyed (fold (\<lambda>(k, e). AList.update k e) d (dict_of ie_endpoint_id apis))"
    using load_custom_keyed [OF d] by (intro fold_update_keyed keyed_dict_of) (auto simp: keyed_def)
  from sorted_values_distinct [OF this] es show ?thesis
    by (auto simp: Let_def intro: distinct_map_filter)
qed

text \<open>What the pool writes it reads back.\<close>

abbreviation custom_ok :: "unidata \<Rightarrow> (pystr, IntelligenceEndpoint) dict \<Rightarrow> bool" where
  "custom_ok ud \<equiv> keyed ie_endpoint_id (\<lambda>e. endpoint_ok ud e \<and> ie_source_kind e \<noteq> SOURCE_API)"

lemma decode_written:
  "\<forall>e \<in> set es. endpoint_ok ud e \<and> ie_source_kind e \<noteq> SOURCE_API \<Longrightarrow> distinct (map ie_endpoint_id es) \<Longrightarrow>
     fst ` set d \<inter> ie_endpoint_id ` set es = {} \<Longrightarrow>
     decode_endpoints ud (map (\<lambda>e. PMap (endpoint_to_dict e)) es) d = Inr (d @ map (\<lambda>e. (ie_endpoint_id e, e)) es)"
proof (induction es arbitrary: d)
  case (Cons e es)
  then have "map_of d (ie_endpoint_id e) = None" by (auto simp: map_of_eq_None_iff)
  with Cons show ?case by (auto simp: endpoint_roundtrip)
qed simp

lemma load_saved_custom:
  assumes "custom_ok (pe_ud env) d"
  shows "load_custom env (save_custom d) = Inr (sorted_dict d)"
proof -
  have "\<forall>e \<in> set (sorted_values d). endpoint_ok (pe_ud env) e \<and> ie_source_kind e \<noteq> SOURCE_API"
    using assms keyed_lookup [OF assms] by (auto simp: keyed_def set_sorted_values)
  moreover have "map (\<lambda>e. (ie_endpoint_id e, e)) (sorted_values d) = sorted_dict d"
    using sorted_values_dict [OF assms] dict_of_append_new [OF sorted_values_distinct [OF assms]] by simp
  ultimately show ?thesis
    using decode_written [of "sorted_values d" "pe_ud env" "[]"] sorted_values_distinct [OF assms]
    by (simp add: load_custom_def save_custom_def save_dict_def save_rows_def schema_one_def pget_def)
qed

lemma decode_custom_ok:
  "decode_endpoints ud vs d = Inr d' \<Longrightarrow> custom_ok ud d \<Longrightarrow> custom_ok ud d'"
proof (induction ud vs d rule: decode_endpoints.induct)
  case (2 ud m vs d)
  from 2(2) obtain e where e: "endpoint_from_dict ud m = Some e" "map_of d (ie_endpoint_id e) = None"
    "ie_source_kind e \<noteq> SOURCE_API"
    and rest: "decode_endpoints ud vs (d @ [(ie_endpoint_id e, e)]) = Inr d'"
    by (auto split: option.split_asm if_split_asm)
  have "custom_ok ud (d @ [(ie_endpoint_id e, e)])"
    using 2(3) e endpoint_from_dict_ok [OF e(1)] by (auto simp: keyed_def dict_ok_def map_of_eq_None_iff)
  with "2.IH" [OF e(1) _ rest] e show ?case by simp
qed auto

lemma load_custom_ok: "load_custom env f = Inr d \<Longrightarrow> custom_ok (pe_ud env) d"
  by (auto simp: load_custom_def intro: decode_custom_ok split: json_file.split_asm pyval.split_asm if_split_asm)

text \<open>A stored endpoint is listed as stored, the others stay as they were.\<close>

lemma put_then_load:
  assumes "pool_put env e f = (Inr e', f')" and "endpoint_ok (pe_ud env) e" and "load_custom env f = Inr d"
  shows "\<exists>d'. load_custom env f' = Inr d' \<and> map_of d' = (map_of d)(ie_endpoint_id e \<mapsto> e)"
proof -
  from assms have f': "f' = save_custom (AList.update (ie_endpoint_id e) e d)" and s: "ie_source_kind e \<noteq> SOURCE_API"
    by (auto simp: pool_put_def split: if_split_asm)
  have "custom_ok (pe_ud env) (AList.update (ie_endpoint_id e) e d)"
    using load_custom_ok [OF assms(3)] assms(2) s by auto
  from load_saved_custom [OF this] show ?thesis by (simp add: f' update_conv')
qed

section \<open>Observed quota\<close>

record QuotaObservation =
  qo_endpoint_id :: pystr
  qo_quota :: QuotaSnapshot

definition observation_to_dict :: "QuotaObservation \<Rightarrow> (pystr, pyval) dict" where
  "observation_to_dict o' =
     [(lit ''endpoint_id'', PStr (qo_endpoint_id o')), (lit ''quota'', PMap (quota_to_dict (qo_quota o')))]"

definition observation_from_dict :: "unidata \<Rightarrow> pyconv \<Rightarrow> (pystr, pyval) dict \<Rightarrow> QuotaObservation option" where
  "observation_from_dict ud cv d =
     (case (pget d ''quota'', map_of d (lit ''endpoint_id'')) of
        (PMap q, Some i) \<Rightarrow>
          map_option (\<lambda>s. \<lparr>qo_endpoint_id = to_str cv i, qo_quota = s\<rparr>) (quota_from_dict ud q)
      | _ \<Rightarrow> None)"

interpretation quota_rows: json_rows qo_endpoint_id observation_to_dict "observation_from_dict ud cv"
  "\<lambda>o'. quota_ok ud (qo_quota o')" "''observations''" "[]" for ud cv
proof
  fix x :: QuotaObservation and d y
  show "quota_ok ud (qo_quota x) \<Longrightarrow> observation_from_dict ud cv (observation_to_dict x) = Some x"
    by (cases x) (simp add: observation_from_dict_def observation_to_dict_def pget_def quota_roundtrip)
  show "observation_from_dict ud cv d = Some y \<Longrightarrow> quota_ok ud (qo_quota y)"
    by (auto simp: observation_from_dict_def quota_from_dict_def Let_def
        split: pyval.split_asm option.split_asm if_split_asm)
qed simp_all

definition quota_load ::
  "unidata \<Rightarrow> pyconv \<Rightarrow> json_file \<Rightarrow> load_error + (pystr, QuotaObservation) dict" where
  "quota_load ud cv f = load_dict ''observations'' (observation_from_dict ud cv) qo_endpoint_id f"

datatype quota_error = QuotaLoad load_error | QuotaValue

definition quota_observe ::
  "unidata \<Rightarrow> pyconv \<Rightarrow> pystr \<Rightarrow> QuotaSnapshot \<Rightarrow> json_file \<Rightarrow> (quota_error + QuotaSnapshot) \<times> json_file" where
  "quota_observe ud cv i q f =
     (if \<not> quota_ok ud q then (Inl QuotaValue, f)
      else case quota_load ud cv f of
        Inl e \<Rightarrow> (Inl (QuotaLoad e), f)
      | Inr d \<Rightarrow> (Inr q, save_dict [] ''observations'' observation_to_dict
                    (AList.update i \<lparr>qo_endpoint_id = i, qo_quota = q\<rparr> d)))"

definition effective_quota ::
  "unidata \<Rightarrow> pyconv \<Rightarrow> real \<Rightarrow> IntelligenceEndpoint \<Rightarrow> json_file \<Rightarrow> load_error + QuotaSnapshot" where
  "effective_quota ud cv now e f =
     bindr (quota_load ud cv f) (\<lambda>d.
       case map_of d (ie_endpoint_id e) of
         Some o' \<Rightarrow>
           if q_observed_at (qo_quota o') > 0 \<and> now - q_observed_at (qo_quota o') \<le> 86400
           then Inr (qo_quota o') else Inr (ie_quota e)
       | None \<Rightarrow> Inr (ie_quota e))"

end
