(* ===== verification/SmartRouter.thy ===== *)
theory SmartRouter imports IntelligencePool RiskEngine "HOL-Library.Product_Lexorder" begin

text \<open>
  Evidence-driven routing, \<^verbatim>\<open>src/karox/orchestration_routing.py\<close>: the bounded telemetry of verified
  outcomes, the score and eligibility of a candidate and the decision. Reasons keep the numbers their
  texts print.
\<close>

section \<open>Telemetry\<close>

definition TASK_CLASSES :: "pystr set" where
  "TASK_CLASSES = lit ` {''repo_discovery'', ''architecture'', ''implementation'', ''review'',
     ''ui_verification'', ''security'', ''summarization'', ''testing'', ''general''}"

record RoutingObservation =
  ro_endpoint_id :: pystr
  ro_task_class :: pystr
  ro_accepted :: bool
  ro_verified :: bool
  ro_latency_ms :: real
  ro_cost_usd :: "real option"
  ro_total_tokens :: int
  ro_timestamp :: real

definition routing_row_ok :: "RoutingObservation \<Rightarrow> bool" where
  "routing_row_ok r \<longleftrightarrow> ro_task_class r \<in> TASK_CLASSES \<and> 0 \<le> ro_latency_ms r \<and>
     (case ro_cost_usd r of None \<Rightarrow> True | Some c \<Rightarrow> 0 \<le> c) \<and> 0 \<le> ro_total_tokens r \<and> 0 \<le> ro_timestamp r"

definition row_success :: "RoutingObservation \<Rightarrow> bool" where
  "row_success r \<longleftrightarrow> ro_accepted r \<and> ro_verified r"

definition routing_row_to_dict :: "RoutingObservation \<Rightarrow> (pystr, pyval) dict" where
  "routing_row_to_dict r =
     [(lit ''endpoint_id'', PStr (ro_endpoint_id r)), (lit ''task_class'', PStr (ro_task_class r)),
      (lit ''accepted'', PBool (ro_accepted r)), (lit ''verified'', PBool (ro_verified r)),
      (lit ''latency_ms'', PFloat (ro_latency_ms r)), (lit ''cost_usd'', pv_opt_float (ro_cost_usd r)),
      (lit ''total_tokens'', PInt (ro_total_tokens r)), (lit ''timestamp'', PFloat (ro_timestamp r))]"

definition routing_row_from_dict :: "pyconv \<Rightarrow> (pystr, pyval) dict \<Rightarrow> RoutingObservation option" where
  "routing_row_from_dict cv d =
     (case (map_of d (lit ''endpoint_id''), map_of d (lit ''task_class''), as_bool (pget d ''accepted''),
            as_bool (pget d ''verified''), as_number (pget_or d ''latency_ms'' (PFloat 0)),
            as_opt_number (pget d ''cost_usd''), as_int (pget_or d ''total_tokens'' (PInt 0)),
            as_number (pget_or d ''timestamp'' (PFloat 0))) of
        (Some i, Some t, Some a, Some v, Some l, Some c, Some n, Some ts) \<Rightarrow>
          let r = \<lparr>ro_endpoint_id = to_str cv i, ro_task_class = to_str cv t, ro_accepted = a, ro_verified = v,
                ro_latency_ms = l, ro_cost_usd = c, ro_total_tokens = n, ro_timestamp = ts\<rparr>
          in if routing_row_ok r then Some r else None
      | _ \<Rightarrow> None)"

interpretation routing_rows: json_rows ro_endpoint_id routing_row_to_dict "routing_row_from_dict cv"
  routing_row_ok "''observations''" "[]" for cv
proof
  fix x :: RoutingObservation and d y
  show "routing_row_ok x \<Longrightarrow> routing_row_from_dict cv (routing_row_to_dict x) = Some x"
    by (cases x) (simp add: routing_row_from_dict_def routing_row_to_dict_def pget_def pget_or_def Let_def)
  show "routing_row_from_dict cv d = Some y \<Longrightarrow> routing_row_ok y"
    by (auto simp: routing_row_from_dict_def Let_def split: option.split_asm if_split_asm)
qed simp_all

definition telemetry_load :: "pyconv \<Rightarrow> json_file \<Rightarrow> load_error + RoutingObservation list" where
  "telemetry_load cv f = load_rows ''observations'' (routing_row_from_dict cv) f"

datatype telemetry_error = TelemetryLoad load_error | TelemetryValue

definition telemetry_observe ::
  "pyconv \<Rightarrow> nat \<Rightarrow> RoutingObservation \<Rightarrow> json_file \<Rightarrow> (telemetry_error + RoutingObservation) \<times> json_file" where
  "telemetry_observe cv limit r f =
     (if \<not> routing_row_ok r then (Inl TelemetryValue, f)
      else case telemetry_load cv f of
        Inl e \<Rightarrow> (Inl (TelemetryLoad e), f)
      | Inr rs \<Rightarrow> (Inr r, save_rows [] ''observations'' routing_row_to_dict (last_n limit (rs @ [r]))))"

record EndpointPerformance =
  ep_endpoint_id :: pystr
  ep_task_class :: pystr
  ep_samples :: nat
  ep_successes :: nat
  ep_success_rate :: "real option"
  ep_average_cost_usd :: "real option"
  ep_average_latency_ms :: "real option"

definition mean :: "real list \<Rightarrow> real option" where
  "mean xs = (if xs = [] then None else Some (sum_list xs / of_nat (length xs)))"

definition performance_of :: "RoutingObservation list \<Rightarrow> pystr \<Rightarrow> pystr \<Rightarrow> EndpointPerformance" where
  "performance_of rows i t =
     (let selected = filter (\<lambda>r. ro_endpoint_id r = i \<and> ro_task_class r = t) rows;
          samples = length selected;
          successes = length (filter row_success selected)
      in \<lparr>ep_endpoint_id = i, ep_task_class = t, ep_samples = samples, ep_successes = successes,
          ep_success_rate = (if samples = 0 then None else Some (of_nat successes / of_nat samples)),
          ep_average_cost_usd = mean (map the (filter (\<lambda>c. c \<noteq> None) (map ro_cost_usd selected))),
          ep_average_latency_ms = mean (filter (\<lambda>l. l > 0) (map ro_latency_ms selected))\<rparr>)"

definition performance :: "pyconv \<Rightarrow> pystr \<Rightarrow> pystr \<Rightarrow> json_file \<Rightarrow> load_error + EndpointPerformance" where
  "performance cv i t f = bindr (telemetry_load cv f) (\<lambda>rows. Inr (performance_of rows i t))"

section \<open>Candidates\<close>

record RouteRequest =
  rq_task_class :: pystr
  rq_role :: pystr
  rq_required_capabilities :: "pystr list"
  rq_risk_level :: RiskLevel
  rq_estimated_input_tokens :: int
  rq_estimated_output_tokens :: int
  rq_preferred_endpoint_id :: "pystr option"
  rq_preferred_is_advisory :: bool
  rq_exclude_endpoint_ids :: "pystr list"
  rq_minimum_verified_samples :: int
  rq_minimum_verified_success_rate :: real
  rq_reserve_quota_fraction :: real
  rq_prefer_already_paid :: bool

definition request_ok :: "RouteRequest \<Rightarrow> bool" where
  "request_ok rq \<longleftrightarrow> rq_task_class rq \<in> TASK_CLASSES \<and> 0 \<le> rq_estimated_input_tokens rq \<and>
     0 \<le> rq_estimated_output_tokens rq \<and> 0 \<le> rq_minimum_verified_samples rq \<and>
     0 \<le> rq_minimum_verified_success_rate rq \<and> rq_minimum_verified_success_rate rq \<le> 1 \<and>
     0 \<le> rq_reserve_quota_fraction rq \<and> rq_reserve_quota_fraction rq \<le> 1"

datatype route_reason =
    EndpointDisabled | ExplicitlyExcluded | MissingRequiredCapability | RoleNotAssigned
  | QuotaExhausted | QuotaBelowReserve | QuotaAvailable
  | VerifiedSuccessRate real nat | VerifiedQualityBelowFloor
  | HighRiskRequiresVerifiedOrExplicit | HighRiskExplicitFirstUse | VerifiedQualityUnavailable
  | AlreadyPaidCapacity | LocalZeroMarginalCost | EstimatedMarginalCost real | MarginalCostUnknown
  | MeasuredLatency real | AdvisoryPreference | ExplicitPreference

record RouteCandidate =
  rc_endpoint :: IntelligenceEndpoint
  rc_performance :: EndpointPerformance
  rc_marginal_cost :: "real option"
  rc_score :: real
  rc_eligible :: bool
  rc_reasons :: "route_reason list"

record RouteDecision =
  rd_endpoint :: IntelligenceEndpoint
  rd_reasons :: "route_reason list"
  rd_candidates :: "RouteCandidate list"
  rd_verified_quality_used :: bool

definition marginal_cost :: "registry \<Rightarrow> IntelligenceEndpoint \<Rightarrow> RouteRequest \<Rightarrow> real option" where
  "marginal_cost rg e rq =
     (if ie_already_paid e \<or> ie_source_kind e = SOURCE_SUBSCRIPTION \<or> ie_source_kind e = SOURCE_LOCAL then Some 0
      else case (ie_provider_id e, ie_model_id e) of
        (Some p, Some m) \<Rightarrow>
          Option.bind (registry_model rg p m) (\<lambda>model.
          Option.bind (mr_pricing model) (\<lambda>pricing.
            Some (estimate pricing [(lit ''prompt_tokens'', PInt (rq_estimated_input_tokens rq)),
                   (lit ''completion_tokens'', PInt (rq_estimated_output_tokens rq))])))
      | _ \<Rightarrow> None)"

definition risk_requires_proven_quality :: "RiskLevel \<Rightarrow> bool" where
  "risk_requires_proven_quality r \<longleftrightarrow> rank r \<ge> rank HIGH"

text \<open>A verdict being built: eligible, score, reasons.\<close>

type_synonym verdict = "bool \<times> real \<times> route_reason list"

definition veto :: "bool \<Rightarrow> route_reason \<Rightarrow> verdict \<Rightarrow> verdict" where
  "veto c r v = (if c then (False, fst (snd v), snd (snd v) @ [r]) else v)"

definition credit :: "real \<Rightarrow> route_reason \<Rightarrow> verdict \<Rightarrow> verdict" where
  "credit x r v = (fst v, fst (snd v) + x, snd (snd v) @ [r])"

definition judge_quota :: "QuotaSnapshot \<Rightarrow> RouteRequest \<Rightarrow> verdict \<Rightarrow> verdict" where
  "judge_quota q rq v =
     (case q_remaining_fraction q of
        None \<Rightarrow> v
      | Some fr \<Rightarrow>
          if fr \<le> 0 then veto True QuotaExhausted v
          else if fr < rq_reserve_quota_fraction rq then credit (- 35) QuotaBelowReserve v
          else credit (min 10 (fr * 10)) QuotaAvailable v)"

definition explicitly_preferred :: "IntelligenceEndpoint \<Rightarrow> RouteRequest \<Rightarrow> bool" where
  "explicitly_preferred e rq \<longleftrightarrow>
     Some (ie_endpoint_id e) = rq_preferred_endpoint_id rq \<and> \<not> rq_preferred_is_advisory rq"

definition judge_quality :: "IntelligenceEndpoint \<Rightarrow> EndpointPerformance \<Rightarrow> RouteRequest \<Rightarrow> verdict \<Rightarrow> verdict" where
  "judge_quality e p rq v =
     (case (int (ep_samples p) \<ge> rq_minimum_verified_samples rq, ep_success_rate p) of
        (True, Some rate) \<Rightarrow>
          let v' = credit (rate * 100) (VerifiedSuccessRate rate (ep_samples p)) v
          in if rate < rq_minimum_verified_success_rate rq
             then (let w = credit (- 50) VerifiedQualityBelowFloor v'
                   in if risk_requires_proven_quality (rq_risk_level rq) then (False, snd w) else w)
             else v'
      | _ \<Rightarrow>
          if risk_requires_proven_quality (rq_risk_level rq)
          then (if \<not> explicitly_preferred e rq then veto True HighRiskRequiresVerifiedOrExplicit v
                else credit 0 HighRiskExplicitFirstUse v)
          else credit 0 VerifiedQualityUnavailable v)"

definition judge_payment :: "IntelligenceEndpoint \<Rightarrow> RouteRequest \<Rightarrow> verdict \<Rightarrow> verdict" where
  "judge_payment e rq v =
     (if ie_already_paid e \<or> ie_source_kind e = SOURCE_SUBSCRIPTION
      then credit (if rq_prefer_already_paid rq then 22 else 3) AlreadyPaidCapacity v
      else if ie_source_kind e = SOURCE_LOCAL
      then credit (if rq_prefer_already_paid rq then 18 else 3) LocalZeroMarginalCost v
      else v)"

definition judge_cost :: "real option \<Rightarrow> verdict \<Rightarrow> verdict" where
  "judge_cost cost v =
     (case cost of
        Some c \<Rightarrow> credit (max (- 20) (12 - min 32 (c * 8))) (EstimatedMarginalCost c) v
      | None \<Rightarrow> credit 0 MarginalCostUnknown v)"

definition judge_latency :: "EndpointPerformance \<Rightarrow> verdict \<Rightarrow> verdict" where
  "judge_latency p v =
     (case ep_average_latency_ms p of
        Some l \<Rightarrow> credit (max (- 8) (5 - l / 10000)) (MeasuredLatency l) v
      | None \<Rightarrow> v)"

definition judge_preference :: "IntelligenceEndpoint \<Rightarrow> RouteRequest \<Rightarrow> verdict \<Rightarrow> verdict" where
  "judge_preference e rq v =
     (if Some (ie_endpoint_id e) = rq_preferred_endpoint_id rq
      then (if rq_preferred_is_advisory rq then credit 8 AdvisoryPreference v
            else credit 1000 ExplicitPreference v)
      else v)"

definition judge_boundaries :: "IntelligenceEndpoint \<Rightarrow> RouteRequest \<Rightarrow> verdict \<Rightarrow> verdict" where
  "judge_boundaries e rq v =
     veto (ie_roles e \<noteq> [] \<and> rq_role rq \<notin> set (ie_roles e)) RoleNotAssigned
    (veto (\<not> supports e (rq_required_capabilities rq)) MissingRequiredCapability
    (veto (ie_endpoint_id e \<in> set (rq_exclude_endpoint_ids rq)) ExplicitlyExcluded
    (veto (\<not> ie_enabled e) EndpointDisabled v)))"

definition candidate_of ::
  "EndpointPerformance \<Rightarrow> real option \<Rightarrow> QuotaSnapshot \<Rightarrow> IntelligenceEndpoint \<Rightarrow> RouteRequest \<Rightarrow> RouteCandidate" where
  "candidate_of p cost q e rq =
     (let v = judge_preference e rq (judge_latency p (judge_cost cost (judge_payment e rq
            (judge_quality e p rq (judge_quota q rq (judge_boundaries e rq (True, 0, [])))))))
      in \<lparr>rc_endpoint = e, rc_performance = p, rc_marginal_cost = cost, rc_score = fst (snd v),
          rc_eligible = fst v, rc_reasons = snd (snd v)\<rparr>)"

section \<open>The decision\<close>

text \<open>What a decision reads: the pool, the telemetry file, the quota file and the clock.\<close>

record router_env =
  rt_pool :: pool_env
  rt_conv :: pyconv
  rt_pool_file :: json_file
  rt_telemetry :: json_file
  rt_quota :: json_file
  rt_now :: real

datatype route_error =
    RoutePool pool_error
  | RouteTelemetry load_error
  | RouteQuota load_error
  | RouteValue
  | NoEligibleEndpoint

fun lift_left :: "('e \<Rightarrow> 'f) \<Rightarrow> 'e + 'a \<Rightarrow> 'f + 'a" where
  "lift_left g (Inl e) = Inl (g e)"
| "lift_left g (Inr x) = Inr x"

definition candidate :: "router_env \<Rightarrow> RouteRequest \<Rightarrow> IntelligenceEndpoint \<Rightarrow> route_error + RouteCandidate" where
  "candidate env rq e =
     bindr (lift_left RouteTelemetry (performance (rt_conv env) (ie_endpoint_id e) (rq_task_class rq) (rt_telemetry env))) (\<lambda>p.
     bindr (lift_left RouteQuota (effective_quota (pe_ud (rt_pool env)) (rt_conv env) (rt_now env) e (rt_quota env))) (\<lambda>q.
       Inr (candidate_of p (marginal_cost (pe_registry (rt_pool env)) e rq) q e rq)))"

fun map_result :: "('a \<Rightarrow> 'e + 'b) \<Rightarrow> 'a list \<Rightarrow> 'e + 'b list" where
  "map_result f [] = Inr []"
| "map_result f (x # xs) = bindr (f x) (\<lambda>y. bindr (map_result f xs) (\<lambda>ys. Inr (y # ys)))"

definition route_key :: "RouteCandidate \<Rightarrow> real \<times> pystr" where
  "route_key c = (- rc_score c, ie_endpoint_id (rc_endpoint c))"

definition decide_route :: "router_env \<Rightarrow> RouteRequest \<Rightarrow> route_error + RouteDecision" where
  "decide_route env rq =
     (if \<not> request_ok rq then Inl RouteValue
      else
        bindr (lift_left RoutePool (pool_list (rt_pool env) True (rt_pool_file env))) (\<lambda>es.
        bindr (map_result (candidate env rq) es) (\<lambda>cands.
          case sort_key route_key (filter rc_eligible cands) of
            [] \<Rightarrow> Inl NoEligibleEndpoint
          | w # _ \<Rightarrow>
              Inr \<lparr>rd_endpoint = rc_endpoint w, rd_reasons = rc_reasons w,
                   rd_candidates = sort_key route_key cands,
                   rd_verified_quality_used =
                     (int (ep_samples (rc_performance w)) \<ge> rq_minimum_verified_samples rq)\<rparr>)))"

section \<open>Eligibility\<close>

text \<open>The boundary the router promises, written out: configured limits, quota, and above medium risk
  either evidence at the floor or, without evidence, a choice that is not a model's advice.\<close>

definition proven :: "EndpointPerformance \<Rightarrow> RouteRequest \<Rightarrow> bool" where
  "proven p rq \<longleftrightarrow> int (ep_samples p) \<ge> rq_minimum_verified_samples rq \<and> ep_success_rate p \<noteq> None"

definition at_floor :: "EndpointPerformance \<Rightarrow> RouteRequest \<Rightarrow> bool" where
  "at_floor p rq \<longleftrightarrow> (case ep_success_rate p of None \<Rightarrow> False | Some r \<Rightarrow> rq_minimum_verified_success_rate rq \<le> r)"

definition may_serve :: "EndpointPerformance \<Rightarrow> QuotaSnapshot \<Rightarrow> IntelligenceEndpoint \<Rightarrow> RouteRequest \<Rightarrow> bool" where
  "may_serve p q e rq \<longleftrightarrow>
     ie_enabled e \<and> ie_endpoint_id e \<notin> set (rq_exclude_endpoint_ids rq) \<and>
     set (rq_required_capabilities rq) \<subseteq> set (ie_capabilities e) \<and>
     (ie_roles e = [] \<or> rq_role rq \<in> set (ie_roles e)) \<and>
     (case q_remaining_fraction q of None \<Rightarrow> True | Some r \<Rightarrow> 0 < r) \<and>
     (rank (rq_risk_level rq) < rank HIGH \<or>
      (if proven p rq then at_floor p rq else explicitly_preferred e rq))"

named_theorems verdict_simps

lemma verdict_eligible [verdict_simps]:
  "fst (veto c r v) \<longleftrightarrow> fst v \<and> \<not> c"
  "fst (credit x r v) = fst v"
  "fst (judge_payment e rq v) = fst v" "fst (judge_cost cost v) = fst v"
  "fst (judge_latency p v) = fst v" "fst (judge_preference e rq v) = fst v"
  by (auto simp: veto_def credit_def judge_payment_def judge_cost_def judge_latency_def judge_preference_def
      split: option.split)

lemma quota_eligible [verdict_simps]:
  "fst (judge_quota q rq v) \<longleftrightarrow> fst v \<and> (case q_remaining_fraction q of None \<Rightarrow> True | Some r \<Rightarrow> 0 < r)"
  by (auto simp: judge_quota_def verdict_eligible split: option.split)

lemma quality_eligible [verdict_simps]:
  "fst (judge_quality e p rq v) \<longleftrightarrow> fst v \<and>
     (rank (rq_risk_level rq) < rank HIGH \<or>
      (if proven p rq then at_floor p rq else explicitly_preferred e rq))"
  by (auto simp: judge_quality_def proven_def at_floor_def risk_requires_proven_quality_def Let_def
      verdict_eligible split: option.split bool.split)

lemma candidate_eligible: "rc_eligible (candidate_of p cost q e rq) \<longleftrightarrow> may_serve p q e rq"
  by (auto simp: candidate_of_def Let_def verdict_simps judge_boundaries_def may_serve_def supports_def
      list_all_iff)

section \<open>Scores\<close>

lemma verdict_score [verdict_simps]:
  "fst (snd (veto c r v)) = fst (snd v)"
  "fst (snd (credit x r v)) = fst (snd v) + x"
  by (simp_all add: veto_def credit_def)

lemma boundaries_score: "fst (snd (judge_boundaries e rq (True, 0, []))) = 0"
  by (simp add: judge_boundaries_def verdict_score)

lemma quota_score:
  "fst (snd v) - 35 \<le> fst (snd (judge_quota q rq v)) \<and> fst (snd (judge_quota q rq v)) \<le> fst (snd v) + 10"
  by (auto simp: judge_quota_def verdict_score split: option.split)

lemma quality_score:
  assumes "case ep_success_rate p of None \<Rightarrow> True | Some r \<Rightarrow> 0 \<le> r \<and> r \<le> 1"
  shows "fst (snd v) - 50 \<le> fst (snd (judge_quality e p rq v)) \<and>
    fst (snd (judge_quality e p rq v)) \<le> fst (snd v) + 100"
  using assms by (auto simp: judge_quality_def Let_def verdict_score split: option.split_asm option.split bool.split)

lemma payment_score:
  "fst (snd v) \<le> fst (snd (judge_payment e rq v)) \<and> fst (snd (judge_payment e rq v)) \<le> fst (snd v) + 22"
  by (simp add: judge_payment_def verdict_score)

lemma cost_score:
  assumes "case cost of None \<Rightarrow> True | Some c \<Rightarrow> 0 \<le> c"
  shows "fst (snd v) - 20 \<le> fst (snd (judge_cost cost v)) \<and> fst (snd (judge_cost cost v)) \<le> fst (snd v) + 12"
  using assms by (auto simp: judge_cost_def verdict_score split: option.split)

lemma latency_score:
  assumes "case ep_average_latency_ms p of None \<Rightarrow> True | Some l \<Rightarrow> 0 \<le> l"
  shows "fst (snd v) - 8 \<le> fst (snd (judge_latency p v)) \<and> fst (snd (judge_latency p v)) \<le> fst (snd v) + 5"
  using assms by (auto simp: judge_latency_def verdict_score split: option.split)

definition measured :: "EndpointPerformance \<Rightarrow> real option \<Rightarrow> bool" where
  "measured p cost \<longleftrightarrow> (case ep_success_rate p of None \<Rightarrow> True | Some r \<Rightarrow> 0 \<le> r \<and> r \<le> 1) \<and>
     (case ep_average_latency_ms p of None \<Rightarrow> True | Some l \<Rightarrow> 0 \<le> l) \<and>
     (case cost of None \<Rightarrow> True | Some c \<Rightarrow> 0 \<le> c)"

text \<open>Without a preference a score lies between -113 and 149.\<close>

lemma score_bounds:
  assumes "measured p cost"
  shows "\<exists>x. rc_score (candidate_of p cost q e rq) =
      x + (if Some (ie_endpoint_id e) = rq_preferred_endpoint_id rq
           then (if rq_preferred_is_advisory rq then 8 else 1000) else 0) \<and> - 113 \<le> x \<and> x \<le> 149"
proof -
  define a where "a = judge_quota q rq (judge_boundaries e rq (True, 0, []))"
  define b where "b = judge_quality e p rq a"
  define c where "c = judge_payment e rq b"
  define d where "d = judge_cost cost c"
  define x where "x = judge_latency p d"
  have "- 35 \<le> fst (snd a)" "fst (snd a) \<le> 10"
    using quota_score [of "judge_boundaries e rq (True, 0, [])" q rq] by (simp_all add: a_def boundaries_score)
  moreover have "fst (snd a) - 50 \<le> fst (snd b)" "fst (snd b) \<le> fst (snd a) + 100"
    using assms quality_score [of p a e rq] by (simp_all add: b_def measured_def)
  moreover have "fst (snd b) \<le> fst (snd c)" "fst (snd c) \<le> fst (snd b) + 22"
    using payment_score [of b e rq] by (simp_all add: c_def)
  moreover have "fst (snd c) - 20 \<le> fst (snd d)" "fst (snd d) \<le> fst (snd c) + 12"
    using assms cost_score [of cost c] by (simp_all add: d_def measured_def)
  moreover have "fst (snd d) - 8 \<le> fst (snd x)" "fst (snd x) \<le> fst (snd d) + 5"
    using assms latency_score [of p d] by (simp_all add: x_def measured_def)
  ultimately have "- 113 \<le> fst (snd x)" "fst (snd x) \<le> 149" by linarith+
  moreover have "rc_score (candidate_of p cost q e rq) = fst (snd (judge_preference e rq x))"
    by (simp add: candidate_of_def Let_def a_def b_def c_def d_def x_def)
  ultimately show ?thesis
    by (intro exI [of _ "fst (snd x)"]) (auto simp: judge_preference_def verdict_score)
qed

lemma mean_nonneg: "\<forall>x \<in> set xs. 0 \<le> x \<Longrightarrow> mean xs = Some m \<Longrightarrow> 0 \<le> m"
  by (auto simp: mean_def sum_list_nonneg split: if_split_asm)

lemma performance_measured:
  "case ep_success_rate (performance_of rows i t) of None \<Rightarrow> True | Some r \<Rightarrow> 0 \<le> r \<and> r \<le> 1"
  "case ep_average_latency_ms (performance_of rows i t) of None \<Rightarrow> True | Some l \<Rightarrow> 0 \<le> l"
proof -
  show "case ep_success_rate (performance_of rows i t) of None \<Rightarrow> True | Some r \<Rightarrow> 0 \<le> r \<and> r \<le> 1"
    by (auto simp: performance_of_def Let_def divide_le_eq_1 simp del: filter_filter)
  show "case ep_average_latency_ms (performance_of rows i t) of None \<Rightarrow> True | Some l \<Rightarrow> 0 \<le> l"
    by (auto simp: performance_of_def Let_def split: option.split dest!: mean_nonneg [rotated])
qed

definition pricing_ok :: "ModelPricing \<Rightarrow> bool" where
  "pricing_ok p \<longleftrightarrow> 0 \<le> mp_input_per_million p \<and> 0 \<le> mp_output_per_million p \<and>
     opt_all (\<lambda>r. 0 \<le> r) (mp_cache_read_per_million p) \<and> opt_all (\<lambda>r. 0 \<le> r) (mp_cache_write_per_million p)"

definition registry_ok :: "registry \<Rightarrow> bool" where
  "registry_ok rg \<longleftrightarrow> (\<forall>m \<in> set (rg_models rg). opt_all pricing_ok (mr_pricing m))"

lemma find_SomeD: "List.find P xs = Some x \<Longrightarrow> P x"
  by (auto simp: find_Some_iff)

lemma usage_count_nonneg: "0 \<le> usage_count usage names"
  unfolding usage_count_def by (auto split: option.split pyval.split dest!: find_SomeD)

lemma py_round_nonneg: "0 \<le> x \<Longrightarrow> 0 \<le> py_round n x"
proof -
  assume "0 \<le> x"
  then have "0 \<le> \<lfloor>x * 10 ^ n\<rfloor>" by simp
  then have "0 \<le> round_even (x * 10 ^ n)" by (auto simp: round_even_def Let_def)
  then show "0 \<le> py_round n x" by (simp add: py_round_def)
qed

lemma estimate_nonneg: "pricing_ok p \<Longrightarrow> 0 \<le> estimate p usage"
  unfolding estimate_def Let_def
  by (intro py_round_nonneg add_nonneg_nonneg divide_nonneg_nonneg mult_nonneg_nonneg)
    (auto simp: pricing_ok_def opt_all_def cache_read_rate_def cache_write_rate_def usage_count_nonneg
      split: option.split)

lemma registry_model_in: "registry_model rg p m = Some x \<Longrightarrow> x \<in> set (rg_models rg)"
proof -
  assume "registry_model rg p m = Some x"
  then have "filter (\<lambda>y. mr_provider_id y = p \<and> (mr_model_id y = m \<or> m \<in> set (mr_aliases y))) (rg_models rg) = [x]"
    by (auto simp: registry_model_def split: list.split_asm)
  from arg_cong [OF this, of set] show ?thesis by auto
qed

lemma marginal_cost_nonneg:
  "registry_ok rg \<Longrightarrow> case marginal_cost rg e rq of None \<Rightarrow> True | Some c \<Rightarrow> 0 \<le> c"
proof -
  assume rg: "registry_ok rg"
  have "0 \<le> c" if "marginal_cost rg e rq = Some c" for c
  proof (cases "ie_already_paid e \<or> ie_source_kind e = SOURCE_SUBSCRIPTION \<or> ie_source_kind e = SOURCE_LOCAL")
    case False
    with that obtain p m x pr where "registry_model rg p m = Some x" "mr_pricing x = Some pr"
      and c: "c = estimate pr [(lit ''prompt_tokens'', PInt (rq_estimated_input_tokens rq)),
         (lit ''completion_tokens'', PInt (rq_estimated_output_tokens rq))]"
      by (auto simp: marginal_cost_def bind_eq_Some_conv split: option.split_asm)
    with rg registry_model_in have "pricing_ok pr" by (fastforce simp: registry_ok_def opt_all_def)
    with c show ?thesis by (simp add: estimate_nonneg)
  qed (use that in \<open>auto simp: marginal_cost_def\<close>)
  then show ?thesis by (auto split: option.split)
qed

section \<open>What a decision is\<close>

lemma map_result_all2: "map_result g xs = Inr ys \<Longrightarrow> list_all2 (\<lambda>x y. g x = Inr y) xs ys"
  by (induction xs arbitrary: ys) (auto simp: bindr_Inr_iff)

lemma lift_left_Inr [simp]: "lift_left g r = Inr x \<longleftrightarrow> r = Inr x"
  by (cases r) auto

lemma candidate_Inr:
  "candidate env rq e = Inr c \<longleftrightarrow>
     (\<exists>p q. performance (rt_conv env) (ie_endpoint_id e) (rq_task_class rq) (rt_telemetry env) = Inr p \<and>
        effective_quota (pe_ud (rt_pool env)) (rt_conv env) (rt_now env) e (rt_quota env) = Inr q \<and>
        c = candidate_of p (marginal_cost (pe_registry (rt_pool env)) e rq) q e rq)"
  by (auto simp: candidate_def bindr_Inr_iff)

lemma rc_endpoint_candidate [simp]: "rc_endpoint (candidate_of p cost q e rq) = e"
  by (simp add: candidate_of_def Let_def)

lemma decided:
  assumes "decide_route env rq = Inr d"
  obtains es cands w where "pool_list (rt_pool env) True (rt_pool_file env) = Inr es"
    "list_all2 (\<lambda>e c. candidate env rq e = Inr c) es cands" "w \<in> set cands" "rc_eligible w"
    "rd_endpoint d = rc_endpoint w" "\<forall>c \<in> set cands. rc_eligible c \<longrightarrow> route_key w \<le> route_key c"
proof -
  from assms obtain es cands where
    es: "pool_list (rt_pool env) True (rt_pool_file env) = Inr es"
    and c: "map_result (candidate env rq) es = Inr cands"
    and rest: "(case sort_key route_key (filter rc_eligible cands) of
            [] \<Rightarrow> Inl NoEligibleEndpoint
          | w # _ \<Rightarrow>
              Inr \<lparr>rd_endpoint = rc_endpoint w, rd_reasons = rc_reasons w,
                   rd_candidates = sort_key route_key cands,
                   rd_verified_quality_used =
                     (int (ep_samples (rc_performance w)) \<ge> rq_minimum_verified_samples rq)\<rparr>) = Inr d"
    by (auto simp: decide_route_def bindr_Inr_iff split: if_split_asm)
  then obtain w ws where w: "sort_key route_key (filter rc_eligible cands) = w # ws" and d: "rd_endpoint d = rc_endpoint w"
    by (cases "sort_key route_key (filter rc_eligible cands)") auto
  have set: "set (w # ws) = {c \<in> set cands. rc_eligible c}"
    using arg_cong [OF w, of set] by simp
  have "sorted (map route_key (w # ws))" unfolding w [symmetric] by simp
  then have "\<forall>c \<in> set (w # ws). route_key w \<le> route_key c" by auto
  with set have "\<forall>c \<in> set cands. rc_eligible c \<longrightarrow> route_key w \<le> route_key c" by blast
  moreover from set have "w \<in> set cands" "rc_eligible w" by auto
  ultimately show ?thesis using that es map_result_all2 [OF c] d by blast
qed

lemma list_all2_in_right: "list_all2 P xs ys \<Longrightarrow> y \<in> set ys \<Longrightarrow> \<exists>x \<in> set xs. P x y"
  by (induction rule: list_all2_induct) auto

lemma list_all2_in_left: "list_all2 P xs ys \<Longrightarrow> x \<in> set xs \<Longrightarrow> \<exists>y \<in> set ys. P x y"
  by (induction rule: list_all2_induct) auto

text \<open>A route is found as soon as one endpoint may serve.\<close>

lemma map_result_total: "\<forall>x \<in> set xs. \<exists>y. g x = Inr y \<Longrightarrow> \<exists>ys. map_result g xs = Inr ys"
proof (induction xs)
  case (Cons x xs)
  then obtain y ys where "g x = Inr y" "map_result g xs = Inr ys" by auto
  then show ?case by simp
qed simp

lemma route_found:
  assumes "request_ok rq" "pool_list (rt_pool env) True (rt_pool_file env) = Inr es"
    "telemetry_load (rt_conv env) (rt_telemetry env) = Inr rows"
    "quota_load (pe_ud (rt_pool env)) (rt_conv env) (rt_quota env) = Inr qd"
    "e \<in> set es" "candidate env rq e = Inr c" "rc_eligible c"
  shows "\<exists>d. decide_route env rq = Inr d"
proof -
  have "\<exists>q. effective_quota (pe_ud (rt_pool env)) (rt_conv env) (rt_now env) e' (rt_quota env) = Inr q" for e'
    using assms(4) by (simp add: effective_quota_def split: option.split)
  then have "\<forall>e' \<in> set es. \<exists>c. candidate env rq e' = Inr c"
    using assms(3) by (auto simp: candidate_Inr performance_def)
  from map_result_total [OF this] obtain cands where cs: "map_result (candidate env rq) es = Inr cands" ..
  from list_all2_in_left [OF map_result_all2 [OF cs] assms(5)] assms(6) have "c \<in> set cands" by auto
  with assms(7) have "filter rc_eligible cands \<noteq> []" by (auto simp: filter_empty_conv)
  then obtain w ws where "sort_key route_key (filter rc_eligible cands) = w # ws"
    by (metis list.exhaust set_empty set_sort)
  with assms(1,2) cs show ?thesis by (simp add: decide_route_def)
qed

section \<open>An example\<close>

definition demo_endpoint :: "pystr \<Rightarrow> IntelligenceEndpoint" where
  "demo_endpoint i = \<lparr>ie_endpoint_id = i, ie_display_name = i, ie_source_kind = SOURCE_LOCAL,
     ie_capabilities = [lit ''code'', lit ''reasoning'', lit ''tools''], ie_roles = [], ie_provider_id = None,
     ie_model_id = None, ie_target_id = Some i, ie_enabled = True, ie_already_paid = False,
     ie_quota = default_quota, ie_provenance = lit ''manual''\<rparr>"

definition demo_pool :: pool_env where
  "demo_pool = \<lparr>pe_ud = \<lparr>ud_word = ascii_alnum, ud_casefold = (\<lambda>c. [c]), ud_lower = (\<lambda>s. s), ud_upper = (\<lambda>s. s)\<rparr>,
     pe_hash = (\<lambda>s. s), pe_registry = \<lparr>rg_providers = [], rg_models = []\<rparr>\<rparr>"

definition demo_router :: router_env where
  "demo_router = \<lparr>rt_pool = demo_pool, rt_conv = plain_conv,
     rt_pool_file = save_custom [(lit ''a'', demo_endpoint (lit ''a'')), (lit ''b'', demo_endpoint (lit ''b''))],
     rt_telemetry = Missing, rt_quota = Missing, rt_now = 0\<rparr>"

definition demo_request :: RouteRequest where
  "demo_request = \<lparr>rq_task_class = lit ''general'', rq_role = lit ''planner'', rq_required_capabilities = [lit ''reasoning''],
     rq_risk_level = HIGH, rq_estimated_input_tokens = 0, rq_estimated_output_tokens = 0,
     rq_preferred_endpoint_id = Some (lit ''b''), rq_preferred_is_advisory = False, rq_exclude_endpoint_ids = [],
     rq_minimum_verified_samples = 3, rq_minimum_verified_success_rate = 4 / 5, rq_reserve_quota_fraction = 3 / 20,
     rq_prefer_already_paid = True\<rparr>"

lemma demo_endpoint_ok: "endpoint_ok (pe_ud demo_pool) (demo_endpoint (lit ''a''))"
  "endpoint_ok (pe_ud demo_pool) (demo_endpoint (lit ''b''))"
proof -
  have "safe_text (pe_ud demo_pool) (lit ''a'')" "safe_text (pe_ud demo_pool) (lit ''b'')"
    "safe_text (pe_ud demo_pool) (lit ''manual'')" "safe_text (pe_ud demo_pool) (lit ''unknown'')"
    by code_simp+
  moreover have "safe_id (lit ''a'')" "safe_id (lit ''b'')" by code_simp+
  ultimately show "endpoint_ok (pe_ud demo_pool) (demo_endpoint (lit ''a''))"
    "endpoint_ok (pe_ud demo_pool) (demo_endpoint (lit ''b''))"
    by (simp_all add: endpoint_ok_def demo_endpoint_def quota_ok_def default_quota_def opt_all_def
        SOURCE_KINDS_def SOURCE_API_def SOURCE_LOCAL_def CAPABILITIES_def)
qed

lemma demo_pool_list:
  "pool_list demo_pool True (rt_pool_file demo_router) =
     Inr [demo_endpoint (lit ''a''), demo_endpoint (lit ''b'')]"
proof -
  let ?d = "[(lit ''a'', demo_endpoint (lit ''a'')), (lit ''b'', demo_endpoint (lit ''b''))]"
  have s: "sort [lit ''a'', lit ''b''] = [lit ''a'', lit ''b'']" by code_simp
  have "custom_ok (pe_ud demo_pool) ?d"
    using demo_endpoint_ok by (simp add: keyed_def dict_ok_def demo_endpoint_def SOURCE_API_def SOURCE_LOCAL_def)
  from load_saved_custom [OF this] have "load_custom demo_pool (rt_pool_file demo_router) = Inr ?d"
    by (simp add: demo_router_def sorted_dict_def s del: sort_key_simps)
  moreover have "api_endpoints demo_pool = Inr []" by (simp add: api_endpoints_def demo_pool_def)
  ultimately show ?thesis
    by (simp add: pool_list_def dict_of_def sorted_values_def s Let_def del: sort_key_simps)
qed

lemma demo_candidate:
  "candidate demo_router rq (demo_endpoint i) =
     Inr (candidate_of (performance_of [] i (rq_task_class rq)) (Some 0) default_quota (demo_endpoint i) rq)"
  by (simp add: candidate_def performance_def telemetry_load_def load_rows_def demo_router_def
      effective_quota_def quota_load_def load_dict_def dict_of_def demo_endpoint_def marginal_cost_def)

text \<open>Either example endpoint may serve a request that is explicit about it or not too risky.\<close>

lemma demo_may_serve_any:
  assumes "ie_endpoint_id (demo_endpoint i) \<notin> set (rq_exclude_endpoint_ids rq)"
    "set (rq_required_capabilities rq) \<subseteq> {lit ''code'', lit ''reasoning'', lit ''tools''}"
    "rank (rq_risk_level rq) < rank HIGH \<or>
     rq_minimum_verified_samples rq > 0 \<and> explicitly_preferred (demo_endpoint i) rq"
  shows "may_serve (performance_of [] i (rq_task_class rq)) default_quota (demo_endpoint i) rq"
  using assms by (auto simp: may_serve_def demo_endpoint_def default_quota_def proven_def performance_of_def)

lemma demo_route_found:
  assumes "request_ok rq" "i \<in> {lit ''a'', lit ''b''}"
    "may_serve (performance_of [] i (rq_task_class rq)) default_quota (demo_endpoint i) rq"
  shows "\<exists>d. decide_route demo_router rq = Inr d"
proof (rule route_found)
  show "candidate demo_router rq (demo_endpoint i) =
      Inr (candidate_of (performance_of [] i (rq_task_class rq)) (Some 0) default_quota (demo_endpoint i) rq)"
    by (rule demo_candidate)
  show "rc_eligible (candidate_of (performance_of [] i (rq_task_class rq)) (Some 0) default_quota (demo_endpoint i) rq)"
    unfolding candidate_eligible by (rule assms(3))
  show "pool_list (rt_pool demo_router) True (rt_pool_file demo_router) =
      Inr [demo_endpoint (lit ''a''), demo_endpoint (lit ''b'')]"
    using demo_pool_list by (simp add: demo_router_def)
  show "demo_endpoint i \<in> set [demo_endpoint (lit ''a''), demo_endpoint (lit ''b'')]" using assms(2) by auto
qed (use assms(1) in \<open>simp_all add: demo_router_def telemetry_load_def quota_load_def load_dict_def load_rows_def\<close>)

lemma demo_may_serve:
  "may_serve (performance_of [] (lit ''b'') (lit ''general'')) default_quota (demo_endpoint (lit ''b'')) demo_request"
  by (simp add: may_serve_def demo_endpoint_def demo_request_def default_quota_def proven_def performance_of_def
      explicitly_preferred_def)

lemma demo_route: "\<exists>d. decide_route demo_router demo_request = Inr d"
proof (rule demo_route_found)
  show "request_ok demo_request" by (simp add: request_ok_def demo_request_def TASK_CLASSES_def)
  show "may_serve (performance_of [] (lit ''b'') (rq_task_class demo_request)) default_quota
      (demo_endpoint (lit ''b'')) demo_request"
    using demo_may_serve by (simp add: demo_request_def)
qed simp

section \<open>Properties\<close>

lemma route_within:
  assumes "decide_route env rq = Inr d"
  shows "\<exists>es p q. pool_list (rt_pool env) True (rt_pool_file env) = Inr es \<and> rd_endpoint d \<in> set es \<and>
    performance (rt_conv env) (ie_endpoint_id (rd_endpoint d)) (rq_task_class rq) (rt_telemetry env) = Inr p \<and>
    effective_quota (pe_ud (rt_pool env)) (rt_conv env) (rt_now env) (rd_endpoint d) (rt_quota env) = Inr q \<and>
    may_serve p q (rd_endpoint d) rq"
proof -
  obtain es cands w where
    es: "pool_list (rt_pool env) True (rt_pool_file env) = Inr es"
    and all: "list_all2 (\<lambda>e c. candidate env rq e = Inr c) es cands" and w: "w \<in> set cands" "rc_eligible w"
    and d: "rd_endpoint d = rc_endpoint w" by (rule decided [OF assms])
  from list_all2_in_right [OF all w(1)] obtain e where e: "e \<in> set es" "candidate env rq e = Inr w"
    by blast
  from candidate_Inr [THEN iffD1, OF e(2)] obtain p q where pq:
    "performance (rt_conv env) (ie_endpoint_id e) (rq_task_class rq) (rt_telemetry env) = Inr p"
    "effective_quota (pe_ud (rt_pool env)) (rt_conv env) (rt_now env) e (rt_quota env) = Inr q"
    and we: "w = candidate_of p (marginal_cost (pe_registry (rt_pool env)) e rq) q e rq"
    by (elim exE conjE) (rule that)
  have ms: "may_serve p q e rq" using w(2) unfolding we candidate_eligible .
  have rd: "rd_endpoint d = e" unfolding d we by (rule rc_endpoint_candidate)
  show ?thesis unfolding rd
    by (rule exI [of _ es], rule exI [of _ p], rule exI [of _ q]) (intro conjI es e(1) pq ms)
qed

text \<open>C29. No route leaves the configured boundaries: the chosen endpoint is in the pool, enabled, not
  excluded, has every required capability, an assigned role and quota left; and for a high or critical
  risk it has enough verified outcomes at the quality floor, or, with too few outcomes, it is the
  endpoint asked for by a preference that is not advisory.\<close>

theorem routes_stay_within_boundaries:
  assumes "decide_route env rq = Inr d"
  shows "\<exists>es p q. pool_list (rt_pool env) True (rt_pool_file env) = Inr es \<and> rd_endpoint d \<in> set es \<and>
    performance (rt_conv env) (ie_endpoint_id (rd_endpoint d)) (rq_task_class rq) (rt_telemetry env) = Inr p \<and>
    effective_quota (pe_ud (rt_pool env)) (rt_conv env) (rt_now env) (rd_endpoint d) (rt_quota env) = Inr q \<and>
    may_serve p q (rd_endpoint d) rq"
  by (rule route_within [OF assms])

text \<open>A user's explicit choice wins whenever it may serve at all: no evidence, price or quota of
  another endpoint outweighs it.\<close>

theorem explicit_choice_wins:
  assumes "decide_route env rq = Inr d" and "registry_ok (pe_registry (rt_pool env))"
    and "pool_list (rt_pool env) True (rt_pool_file env) = Inr es" and "e \<in> set es"
    and "explicitly_preferred e rq"
    and "performance (rt_conv env) (ie_endpoint_id e) (rq_task_class rq) (rt_telemetry env) = Inr p"
    and "effective_quota (pe_ud (rt_pool env)) (rt_conv env) (rt_now env) e (rt_quota env) = Inr q"
    and "may_serve p q e rq"
  shows "rd_endpoint d = e"
proof -
  from decided [OF assms(1)] obtain es' cands w where
    "pool_list (rt_pool env) True (rt_pool_file env) = Inr es'"
    and "list_all2 (\<lambda>e c. candidate env rq e = Inr c) es' cands" and w: "w \<in> set cands" "rc_eligible w"
    and d: "rd_endpoint d = rc_endpoint w"
    and best: "\<forall>c \<in> set cands. rc_eligible c \<longrightarrow> route_key w \<le> route_key c" by blast
  with assms(3) have all: "list_all2 (\<lambda>e c. candidate env rq e = Inr c) es cands" by simp
  have meas: "measured p' (marginal_cost (pe_registry (rt_pool env)) e' rq)"
    if "performance (rt_conv env) i t (rt_telemetry env) = Inr p'" for p' e' i t
    using that performance_measured marginal_cost_nonneg [OF assms(2)]
    by (auto simp: performance_def bindr_Inr_iff measured_def)
  from list_all2_in_left [OF all assms(4)] obtain c where c: "c \<in> set cands" "candidate env rq e = Inr c" by blast
  then have ce: "c = candidate_of p (marginal_cost (pe_registry (rt_pool env)) e rq) q e rq"
    using assms(6,7) by (auto simp: candidate_Inr)
  with assms(8) have "rc_eligible c" by (simp add: candidate_eligible)
  with best c(1) have le: "rc_score c \<le> rc_score w" by (auto simp: route_key_def less_eq_prod_def)
  have high: "887 \<le> rc_score c"
    using score_bounds [OF meas [OF assms(6), of e], where q = q and e = e and rq = rq] assms(5) ce by (auto simp: explicitly_preferred_def)
  from list_all2_in_right [OF all w(1)] obtain e' where e': "e' \<in> set es" "candidate env rq e' = Inr w" by blast
  then obtain p' q' where p': "performance (rt_conv env) (ie_endpoint_id e') (rq_task_class rq) (rt_telemetry env) = Inr p'"
    and we: "w = candidate_of p' (marginal_cost (pe_registry (rt_pool env)) e' rq) q' e' rq"
    by (auto simp: candidate_Inr)
  have "Some (ie_endpoint_id e') = rq_preferred_endpoint_id rq"
    using score_bounds [OF meas [OF p', of e'], where q = q' and e = e' and rq = rq] le high we by (auto split: if_split_asm)
  with assms(5) have "ie_endpoint_id e' = ie_endpoint_id e"
    by (metis explicitly_preferred_def option.inject)
  with pool_list_distinct [OF assms(3)] e'(1) assms(4) have "e' = e" by (auto simp: distinct_map inj_on_def)
  with we d show ?thesis by simp
qed

theorem explicit_choice_wins_witness:
  "\<exists>d. decide_route demo_router demo_request = Inr d \<and> rd_endpoint d = demo_endpoint (lit ''b'')"
proof -
  from demo_route obtain d where d: "decide_route demo_router demo_request = Inr d" ..
  have "pool_list (rt_pool demo_router) True (rt_pool_file demo_router) =
      Inr [demo_endpoint (lit ''a''), demo_endpoint (lit ''b'')]"
    using demo_pool_list by (simp add: demo_router_def)
  moreover have "registry_ok (pe_registry (rt_pool demo_router))"
    by (simp add: registry_ok_def demo_router_def demo_pool_def)
  moreover have "explicitly_preferred (demo_endpoint (lit ''b'')) demo_request"
    by (simp add: explicitly_preferred_def demo_endpoint_def demo_request_def)
  moreover have "performance (rt_conv demo_router) (ie_endpoint_id (demo_endpoint (lit ''b'')))
      (rq_task_class demo_request) (rt_telemetry demo_router) = Inr (performance_of [] (lit ''b'') (lit ''general''))"
    by (simp add: performance_def telemetry_load_def load_rows_def demo_router_def demo_request_def demo_endpoint_def)
  moreover have "effective_quota (pe_ud (rt_pool demo_router)) (rt_conv demo_router) (rt_now demo_router)
      (demo_endpoint (lit ''b'')) (rt_quota demo_router) = Inr default_quota"
    by (simp add: effective_quota_def quota_load_def load_dict_def load_rows_def dict_of_def demo_router_def
        demo_endpoint_def)
  ultimately have "rd_endpoint d = demo_endpoint (lit ''b'')"
    using explicit_choice_wins [OF d _ _ _ _ _ _ demo_may_serve] by simp
  with d show ?thesis by blast
qed

theorem routes_stay_within_boundaries_witness:
  "\<exists>d. decide_route demo_router demo_request = Inr d \<and> ie_enabled (rd_endpoint d) \<and>
     lit ''reasoning'' \<in> set (ie_capabilities (rd_endpoint d))"
proof -
  from demo_route obtain d where d: "decide_route demo_router demo_request = Inr d" ..
  have "rq_required_capabilities demo_request = [lit ''reasoning'']" by (simp add: demo_request_def)
  with routes_stay_within_boundaries [OF d]
  have "ie_enabled (rd_endpoint d) \<and> lit ''reasoning'' \<in> set (ie_capabilities (rd_endpoint d))"
    by (auto simp: may_serve_def)
  with d show ?thesis by blast
qed

section \<open>A failed floor that still wins\<close>

text \<open>A subscription below the quality floor outscores a metered endpoint at the floor: paid capacity and
  cost together weigh more than the penalty, at a medium risk.\<close>

lemma cheap_beats_the_quality_floor:
  fixes rq :: RouteRequest
  defines "rq \<equiv> demo_request\<lparr>rq_risk_level := MEDIUM, rq_preferred_endpoint_id := None\<rparr>"
  defines "cheap \<equiv> candidate_of \<lparr>ep_endpoint_id = lit ''a'', ep_task_class = lit ''general'', ep_samples = 100,
      ep_successes = 79, ep_success_rate = Some (79 / 100), ep_average_cost_usd = None, ep_average_latency_ms = None\<rparr>
      (Some 0) default_quota ((demo_endpoint (lit ''a''))\<lparr>ie_source_kind := SOURCE_SUBSCRIPTION\<rparr>) rq"
  defines "good \<equiv> candidate_of \<lparr>ep_endpoint_id = lit ''b'', ep_task_class = lit ''general'', ep_samples = 100,
      ep_successes = 80, ep_success_rate = Some (80 / 100), ep_average_cost_usd = None, ep_average_latency_ms = None\<rparr>
      (Some 4) default_quota ((demo_endpoint (lit ''b''))\<lparr>ie_source_kind := SOURCE_API\<rparr>) rq"
  shows "rc_eligible cheap \<and> rc_eligible good \<and> rc_score good < rc_score cheap"
  unfolding assms
  by (simp add: candidate_of_def Let_def judge_boundaries_def judge_quota_def judge_quality_def judge_payment_def
      judge_cost_def judge_latency_def judge_preference_def veto_def credit_def demo_request_def demo_endpoint_def
      default_quota_def risk_requires_proven_quality_def supports_def SOURCE_API_def SOURCE_LOCAL_def
      SOURCE_SUBSCRIPTION_def)

end
