(* ===== verification/Recipes.thy ===== *)
theory Recipes imports IntelligencePool SmartRouter begin

text \<open>
  Orchestration recipes: the records and built-in recipes of \<^verbatim>\<open>src/karox/orchestration_recipes.py\<close> and
  the registry of custom ones, \<^verbatim>\<open>src/karox/recipe_registry.py\<close>.
\<close>

section \<open>Recipes\<close>

record RecipeStep =
  rp_step_id :: pystr
  rp_role :: pystr
  rp_task_class :: pystr
  rp_required_capabilities :: "pystr list"
  rp_depends_on :: "pystr list"
  rp_independent_from :: "pystr list"
  rp_optional :: bool

record OrchestrationRecipe =
  oc_name :: pystr
  oc_description :: pystr
  oc_steps :: "RecipeStep list"

definition recipe_ok :: "OrchestrationRecipe \<Rightarrow> bool" where
  "recipe_ok r \<longleftrightarrow> distinct (map rp_step_id (oc_steps r)) \<and>
     list_all (\<lambda>s. list_all (\<lambda>d. d \<in> set (map rp_step_id (oc_steps r))) (rp_depends_on s)) (oc_steps r)"

definition step_to_dict :: "RecipeStep \<Rightarrow> (pystr, pyval) dict" where
  "step_to_dict s =
     [(lit ''step_id'', PStr (rp_step_id s)), (lit ''role'', PStr (rp_role s)),
      (lit ''task_class'', PStr (rp_task_class s)),
      (lit ''required_capabilities'', PSeq (map PStr (rp_required_capabilities s))),
      (lit ''depends_on'', PSeq (map PStr (rp_depends_on s))),
      (lit ''independent_from'', PSeq (map PStr (rp_independent_from s))),
      (lit ''optional'', PBool (rp_optional s))]"

definition recipe_to_dict :: "OrchestrationRecipe \<Rightarrow> (pystr, pyval) dict" where
  "recipe_to_dict r = [(lit ''name'', PStr (oc_name r)), (lit ''description'', PStr (oc_description r)),
     (lit ''steps'', PSeq (map (\<lambda>s. PMap (step_to_dict s)) (oc_steps r)))]"

definition mk_step :: "string \<Rightarrow> string \<Rightarrow> string \<Rightarrow> string list \<Rightarrow> string list \<Rightarrow> string list \<Rightarrow> bool \<Rightarrow> RecipeStep" where
  "mk_step i r t cs ds fs opt = \<lparr>rp_step_id = lit i, rp_role = lit r, rp_task_class = lit t,
     rp_required_capabilities = map lit cs, rp_depends_on = map lit ds, rp_independent_from = map lit fs,
     rp_optional = opt\<rparr>"

definition FEATURE :: OrchestrationRecipe where
  "FEATURE = \<lparr>oc_name = lit ''feature'',
     oc_description = lit ''Plan, implement, verify and independently review a feature.'',
     oc_steps =
      [mk_step ''scout'' ''scout'' ''repo_discovery'' [''reasoning'', ''tools''] [] [] False,
       mk_step ''plan'' ''planner'' ''architecture'' [''reasoning''] [''scout''] [] False,
       mk_step ''implement'' ''implementer'' ''implementation'' [''code'', ''tools''] [''plan''] [] False,
       mk_step ''test'' ''tester'' ''testing'' [''tools''] [''implement''] [] False,
       mk_step ''review'' ''reviewer'' ''review'' [''reasoning'', ''code''] [''implement'', ''test''] [''implement''] False,
       mk_step ''ui'' ''ui'' ''ui_verification'' [''vision'', ''browser''] [''implement''] [] True]\<rparr>"

definition BUG_FIX :: OrchestrationRecipe where
  "BUG_FIX = \<lparr>oc_name = lit ''bug-fix'',
     oc_description = lit ''Investigate, fix, regress and independently review a bug.'',
     oc_steps =
      [mk_step ''investigate'' ''scout'' ''repo_discovery'' [''reasoning'', ''tools''] [] [] False,
       mk_step ''implement'' ''implementer'' ''implementation'' [''code'', ''tools''] [''investigate''] [] False,
       mk_step ''regression'' ''tester'' ''testing'' [''tools''] [''implement''] [] False,
       mk_step ''review'' ''reviewer'' ''review'' [''reasoning'', ''code''] [''implement'', ''regression''] [''implement''] False]\<rparr>"

definition SECURITY :: OrchestrationRecipe where
  "SECURITY = \<lparr>oc_name = lit ''security'',
     oc_description = lit ''Security-oriented discovery, implementation and independent security review.'',
     oc_steps =
      [mk_step ''scout'' ''scout'' ''repo_discovery'' [''reasoning'', ''tools''] [] [] False,
       mk_step ''security-plan'' ''security'' ''security'' [''reasoning''] [''scout''] [] False,
       mk_step ''implement'' ''implementer'' ''implementation'' [''code'', ''tools''] [''security-plan''] [] False,
       mk_step ''test'' ''tester'' ''testing'' [''tools''] [''implement''] [] False,
       mk_step ''security-review'' ''security'' ''security'' [''reasoning'', ''code''] [''implement'', ''test''] [''implement''] False]\<rparr>"

definition LARGE_REFACTOR :: OrchestrationRecipe where
  "LARGE_REFACTOR = \<lparr>oc_name = lit ''large-refactor'',
     oc_description = lit ''Architecture first, parallel bounded implementation slices, integration and review.'',
     oc_steps =
      [mk_step ''map'' ''scout'' ''repo_discovery'' [''reasoning'', ''tools''] [] [] False,
       mk_step ''architecture'' ''planner'' ''architecture'' [''reasoning''] [''map''] [] False,
       mk_step ''impl-a'' ''implementer'' ''implementation'' [''code'', ''tools''] [''architecture''] [] False,
       mk_step ''impl-b'' ''implementer'' ''implementation'' [''code'', ''tools''] [''architecture''] [] False,
       mk_step ''impl-c'' ''implementer'' ''implementation'' [''code'', ''tools''] [''architecture''] [] False,
       mk_step ''integration'' ''tester'' ''testing'' [''tools''] [''impl-a'', ''impl-b'', ''impl-c''] [] False,
       mk_step ''review'' ''reviewer'' ''review'' [''reasoning'', ''code''] [''integration'']
         [''impl-a'', ''impl-b'', ''impl-c''] False]\<rparr>"

definition RECIPES :: "(pystr, OrchestrationRecipe) dict" where
  "RECIPES = map (\<lambda>r. (oc_name r, r)) [FEATURE, BUG_FIX, SECURITY, LARGE_REFACTOR]"

definition builtin_recipe :: "pystr \<Rightarrow> OrchestrationRecipe option" where
  "builtin_recipe name = map_of RECIPES name"

section \<open>Custom recipes\<close>

definition STEP_FIELDS :: "pystr set" where
  "STEP_FIELDS = lit ` {''step_id'', ''role'', ''task_class'', ''required_capabilities'', ''depends_on'',
     ''independent_from'', ''optional''}"

text \<open>A JSON array of texts that all satisfy a test, without its later duplicates.\<close>

definition text_array :: "(pystr \<Rightarrow> bool) \<Rightarrow> pyval \<Rightarrow> pystr list option" where
  "text_array P v =
     (case v of
        PSeq xs \<Rightarrow>
          (case all_some (map as_str xs) of
             Some ss \<Rightarrow> if list_all P ss then Some (dedup ss) else None
           | None \<Rightarrow> None)
      | _ \<Rightarrow> None)"

definition recipe_step_from_dict :: "(pystr, pyval) dict \<Rightarrow> RecipeStep option" where
  "recipe_step_from_dict d =
     (if \<not> list_all (\<lambda>k. k \<in> STEP_FIELDS) (map fst d) then None
      else case (as_str (pget d ''step_id''), as_str (pget d ''role''), as_str (pget d ''task_class''),
            text_array (\<lambda>c. c \<in> CAPABILITIES) (pget_or d ''required_capabilities'' (PSeq [])),
            text_array safe_name (pget_or d ''depends_on'' (PSeq [])),
            text_array safe_name (pget_or d ''independent_from'' (PSeq [])),
            as_bool (pget_or d ''optional'' (PBool False))) of
        (Some i, Some r, Some t, Some cs, Some ds, Some fs, Some opt) \<Rightarrow>
          if safe_name i \<and> r \<in> ROLE_KINDS \<and> t \<in> TASK_CLASSES
          then Some \<lparr>rp_step_id = i, rp_role = r, rp_task_class = t, rp_required_capabilities = cs,
                 rp_depends_on = ds, rp_independent_from = fs, rp_optional = opt\<rparr>
          else None
      | _ \<Rightarrow> None)"

definition step_dicts :: "pyval list \<Rightarrow> (pystr, pyval) dict list option" where
  "step_dicts vs = all_some (map as_mapping vs)"

definition recipe_from_dict :: "(pystr, pyval) dict \<Rightarrow> OrchestrationRecipe option" where
  "recipe_from_dict d =
     (case (as_str (pget d ''name''), as_str (pget d ''description''), pget d ''steps'') of
        (Some n, Some desc, PSeq vs) \<Rightarrow>
          if safe_name n \<and> map_of RECIPES n = None \<and> py_strip desc \<noteq> [] \<and> length desc \<le> 1000
             \<and> vs \<noteq> [] \<and> length vs \<le> 50
          then Option.bind (step_dicts vs) (\<lambda>ds.
               Option.bind (all_some (map recipe_step_from_dict ds)) (\<lambda>steps.
                 let r = \<lparr>oc_name = n, oc_description = py_strip desc, oc_steps = steps\<rparr>
                 in if recipe_ok r then Some r else None))
          else None
      | _ \<Rightarrow> None)"

definition recipe_step_ok :: "RecipeStep \<Rightarrow> bool" where
  "recipe_step_ok s \<longleftrightarrow> safe_name (rp_step_id s) \<and> rp_role s \<in> ROLE_KINDS \<and> rp_task_class s \<in> TASK_CLASSES \<and>
     list_all (\<lambda>c. c \<in> CAPABILITIES) (rp_required_capabilities s) \<and> distinct (rp_required_capabilities s) \<and>
     list_all safe_name (rp_depends_on s) \<and> distinct (rp_depends_on s) \<and>
     list_all safe_name (rp_independent_from s) \<and> distinct (rp_independent_from s)"

definition custom_recipe_ok :: "OrchestrationRecipe \<Rightarrow> bool" where
  "custom_recipe_ok r \<longleftrightarrow> safe_name (oc_name r) \<and> map_of RECIPES (oc_name r) = None \<and>
     oc_description r \<noteq> [] \<and> py_strip (oc_description r) = oc_description r \<and> length (oc_description r) \<le> 1000 \<and>
     oc_steps r \<noteq> [] \<and> length (oc_steps r) \<le> 50 \<and> list_all recipe_step_ok (oc_steps r) \<and> recipe_ok r"

section \<open>The registry\<close>

datatype recipe_error = RecipeLoad load_error | RecipeValue | BuiltinRecipe | NoSuchRecipe pystr

definition load_recipes :: "json_file \<Rightarrow> load_error + (pystr, OrchestrationRecipe) dict" where
  "load_recipes f = load_dict ''recipes'' recipe_from_dict oc_name f"

definition save_recipes :: "(pystr, OrchestrationRecipe) dict \<Rightarrow> json_file" where
  "save_recipes d = save_dict [] ''recipes'' recipe_to_dict d"

definition recipe_list :: "json_file \<Rightarrow> recipe_error + OrchestrationRecipe list" where
  "recipe_list f =
     (case load_recipes f of
        Inl e \<Rightarrow> Inl (RecipeLoad e)
      | Inr d \<Rightarrow> Inr (sorted_values (fold (\<lambda>(k, r). AList.update k r) d RECIPES)))"

definition recipe_get :: "pystr \<Rightarrow> json_file \<Rightarrow> recipe_error + OrchestrationRecipe" where
  "recipe_get name f =
     (case map_of RECIPES name of
        Some r \<Rightarrow> Inr r
      | None \<Rightarrow>
          (case load_recipes f of
             Inl e \<Rightarrow> Inl (RecipeLoad e)
           | Inr d \<Rightarrow> (case map_of d name of None \<Rightarrow> Inl (NoSuchRecipe name) | Some r \<Rightarrow> Inr r)))"

definition recipe_put ::
  "(pystr, pyval) dict \<Rightarrow> json_file \<Rightarrow> (recipe_error + OrchestrationRecipe) \<times> json_file" where
  "recipe_put v f =
     (case recipe_from_dict v of
        None \<Rightarrow> (Inl RecipeValue, f)
      | Some r \<Rightarrow>
          (case load_recipes f of
             Inl e \<Rightarrow> (Inl (RecipeLoad e), f)
           | Inr d \<Rightarrow> (Inr r, save_recipes (AList.update (oc_name r) r d))))"

text \<open>\<^verbatim>\<open>put_file\<close>, on what the file decodes to (\<open>None\<close>: unreadable or no JSON).\<close>

definition recipe_put_file ::
  "pyval option \<Rightarrow> json_file \<Rightarrow> (recipe_error + OrchestrationRecipe) \<times> json_file" where
  "recipe_put_file v f =
     (case v of Some (PMap d) \<Rightarrow> recipe_put d f | _ \<Rightarrow> (Inl RecipeValue, f))"

definition recipe_remove :: "pystr \<Rightarrow> json_file \<Rightarrow> (recipe_error + OrchestrationRecipe) \<times> json_file" where
  "recipe_remove name f =
     (if map_of RECIPES name \<noteq> None then (Inl BuiltinRecipe, f)
      else case load_recipes f of
        Inl e \<Rightarrow> (Inl (RecipeLoad e), f)
      | Inr d \<Rightarrow>
          (case map_of d name of
             None \<Rightarrow> (Inl (NoSuchRecipe name), f)
           | Some r \<Rightarrow> (Inr r, save_recipes (AList.delete name d))))"

section \<open>Recipes are read back as stored\<close>

lemma dedup_distinct: "distinct xs \<Longrightarrow> dedup xs = xs"
  by (induction xs) (auto simp: filter_id_conv)

lemma text_array_written:
  "list_all P ss \<Longrightarrow> distinct ss \<Longrightarrow> text_array P (PSeq (map PStr ss)) = Some ss"
  using all_some_strings [of ss] by (simp add: text_array_def dedup_distinct)

lemma text_array_ok: "text_array P v = Some ss \<Longrightarrow> list_all P ss \<and> distinct ss"
  by (auto simp: text_array_def list_all_iff split: pyval.split_asm option.split_asm if_split_asm)

lemma step_roundtrip: "recipe_step_ok s \<Longrightarrow> recipe_step_from_dict (step_to_dict s) = Some s"
  by (cases s) (simp add: recipe_step_from_dict_def step_to_dict_def recipe_step_ok_def pget_def pget_or_def
      text_array_written STEP_FIELDS_def)

lemma step_from_dict_ok: "recipe_step_from_dict d = Some s \<Longrightarrow> recipe_step_ok s"
  by (auto simp: recipe_step_from_dict_def recipe_step_ok_def dest!: text_array_ok
      split: if_split_asm option.split_asm)

lemma recipe_roundtrip: "custom_recipe_ok r \<Longrightarrow> recipe_from_dict (recipe_to_dict r) = Some r"
proof -
  assume ok: "custom_recipe_ok r"
  have "step_dicts (map (\<lambda>s. PMap (step_to_dict s)) (oc_steps r)) = Some (map step_to_dict (oc_steps r))"
    using all_some_map [of "oc_steps r" "\<lambda>s. as_mapping (PMap (step_to_dict s))" step_to_dict]
    by (simp add: step_dicts_def comp_def)
  moreover have "all_some (map recipe_step_from_dict (map step_to_dict (oc_steps r))) = Some (oc_steps r)"
    using all_some_map [of "oc_steps r" "\<lambda>s. recipe_step_from_dict (step_to_dict s)" "\<lambda>s. s"] ok
    by (simp add: custom_recipe_ok_def list_all_iff step_roundtrip comp_def)
  ultimately show ?thesis
    using ok by (cases r) (simp add: recipe_from_dict_def recipe_to_dict_def pget_def custom_recipe_ok_def Let_def)
qed

lemma recipe_from_dict_ok: "recipe_from_dict d = Some r \<Longrightarrow> custom_recipe_ok r"
proof -
  assume "recipe_from_dict d = Some r"
  then obtain n desc vs ds where f: "safe_name n" "map_of RECIPES n = None" "py_strip desc \<noteq> []" "length desc \<le> 1000"
    "vs \<noteq> []" "length vs \<le> 50" "step_dicts vs = Some ds" "all_some (map recipe_step_from_dict ds) = Some (oc_steps r)"
    "recipe_ok r" "oc_name r = n" "oc_description r = py_strip desc"
    by (auto simp: recipe_from_dict_def bind_eq_Some_conv Let_def
        split: option.split_asm pyval.split_asm if_split_asm)
  have "length (oc_steps r) = length vs"
    using all_some_length [OF f(8)] f(7) by (auto simp: step_dicts_def dest!: all_some_length)
  moreover have "list_all recipe_step_ok (oc_steps r)"
    using all_some_set [OF f(8)] by (force simp: list_all_iff intro: step_from_dict_ok)
  moreover have "length (py_strip desc) \<le> 1000"
    using f(4) length_strip_by [of py_space desc] by (simp add: py_strip_def)
  ultimately show ?thesis using f by (auto simp: custom_recipe_ok_def py_strip_def)
qed

interpretation recipe_rows: json_rows oc_name recipe_to_dict recipe_from_dict custom_recipe_ok "''recipes''" "[]"
  by unfold_locales (auto simp: recipe_roundtrip recipe_from_dict_ok)

text \<open>No custom recipe shadows a built-in one, whatever the file holds.\<close>

lemma builtin_recipes_win: "map_of RECIPES name = Some r \<Longrightarrow> recipe_get name f = Inr r"
  by (simp add: recipe_get_def)

lemma put_recipe_is_found:
  assumes "recipe_put v f = (Inr r, f')"
  shows "recipe_get (oc_name r) f' = Inr r"
proof -
  from assms obtain d where r: "recipe_from_dict v = Some r" and d: "load_recipes f = Inr d"
    and f': "f' = save_recipes (AList.update (oc_name r) r d)"
    by (auto simp: recipe_put_def split: option.split_asm sum.split_asm)
  note ok = recipe_from_dict_ok [OF r]
  have "keyed oc_name custom_recipe_ok (AList.update (oc_name r) r d)"
    using ok recipe_rows.loaded_keyed [of f d] d by (auto simp: load_recipes_def)
  from recipe_rows.load_save [OF this] have
    "load_recipes f' = Inr (sorted_dict (AList.update (oc_name r) r d))"
    by (simp add: f' load_recipes_def save_recipes_def)
  with ok show ?thesis by (simp add: recipe_get_def custom_recipe_ok_def update_conv')
qed

lemma builtin_recipes_ok: "map_of RECIPES name = Some r \<Longrightarrow> recipe_ok r"
  by (auto simp: RECIPES_def FEATURE_def BUG_FIX_def SECURITY_def LARGE_REFACTOR_def recipe_ok_def mk_step_def
      split: if_split_asm)

lemma recipe_get_ok: "recipe_get name f = Inr r \<Longrightarrow> recipe_ok r"
proof (cases "map_of RECIPES name")
  case None
  assume "recipe_get name f = Inr r"
  with None obtain d where "load_recipes f = Inr d" "map_of d name = Some r"
    by (auto simp: recipe_get_def split: sum.split_asm option.split_asm)
  with recipe_rows.loaded_keyed [of f d] show ?thesis
    by (auto simp: load_recipes_def custom_recipe_ok_def dest: keyed_lookup)
qed (auto simp: recipe_get_def builtin_recipes_ok)

end
