(* ===== verification/AgentProtocol.thy ===== *)
theory AgentProtocol imports IntelligencePool begin

text \<open>
  The messages orchestration workers exchange, \<^verbatim>\<open>src/karox/agent_protocol.py\<close>: validated records, the
  bounded handoff ledger, and the rule that keeps a reviewer independent of the implementer.
\<close>

section \<open>Texts\<close>

definition SUMMARY_LIMIT :: nat where "SUMMARY_LIMIT = 3000"
definition QUESTION_LIMIT :: nat where "QUESTION_LIMIT = 1000"

definition plain_text :: "pystr \<Rightarrow> pystr" where
  "plain_text s = py_strip (filter (\<lambda>c. c \<noteq> 0) s)"

definition protocol_text :: "unidata \<Rightarrow> nat \<Rightarrow> pystr \<Rightarrow> pystr option" where
  "protocol_text ud limit s =
     (if length (plain_text s) > limit then None else Some (redacted_str ud (plain_text s)))"

definition bounded_summary :: "unidata \<Rightarrow> nat \<Rightarrow> pystr \<Rightarrow> pystr" where
  "bounded_summary ud limit s =
     (let normalised = redacted_str ud (plain_text s)
      in if length normalised \<le> limit then normalised
         else py_rstrip (take (limit - 1) normalised) @ [8230])"

section \<open>Records\<close>

definition SEVERITIES :: "pystr set" where
  "SEVERITIES = lit ` {''info'', ''low'', ''medium'', ''high'', ''critical''}"

definition MESSAGE_TYPES :: "pystr set" where
  "MESSAGE_TYPES = lit ` {''request'', ''result'', ''review_pass'', ''review_fail'', ''escalate''}"

record EvidenceReference =
  er_artifact_id :: pystr
  er_kind :: pystr
  er_summary :: pystr

definition evidence_ok :: "unidata \<Rightarrow> EvidenceReference \<Rightarrow> bool" where
  "evidence_ok ud e \<longleftrightarrow> safe_id (er_artifact_id e) \<and> safe_id (er_kind e) \<and>
     protocol_text ud 500 (er_summary e) \<noteq> None"

record ReviewFinding =
  rf_severity :: pystr
  rf_reason :: pystr
  rf_path :: "pystr option"
  rf_line :: "int option"
  rf_code :: "pystr option"

definition review_finding_ok :: "unidata \<Rightarrow> ReviewFinding \<Rightarrow> bool" where
  "review_finding_ok ud r \<longleftrightarrow> rf_severity r \<in> SEVERITIES \<and> protocol_text ud 2000 (rf_reason r) \<noteq> None \<and>
     opt_all (\<lambda>p. protocol_text ud 1000 p \<noteq> None) (rf_path r) \<and> opt_all (\<lambda>l. 0 < l) (rf_line r) \<and>
     opt_all safe_id (rf_code r)"

record AgentMessage =
  am_message_id :: pystr
  am_message_type :: pystr
  am_task_id :: pystr
  am_source_endpoint_id :: pystr
  am_target_endpoint_id :: "pystr option"
  am_source_role :: pystr
  am_target_role :: "pystr option"
  am_summary :: pystr
  am_baseline_ref :: "pystr option"
  am_changeset_ref :: "pystr option"
  am_evidence :: "EvidenceReference list"
  am_questions :: "pystr list"
  am_findings :: "ReviewFinding list"
  am_created_at :: real

text \<open>Evidence and findings are checked when they are made, so the check of a message does not repeat it;
  the model states it once more to speak of whole messages.\<close>

definition message_ok :: "unidata \<Rightarrow> AgentMessage \<Rightarrow> bool" where
  "message_ok ud m \<longleftrightarrow> safe_id (am_message_id m) \<and> am_message_type m \<in> MESSAGE_TYPES \<and>
     safe_id (am_task_id m) \<and> safe_id (am_source_endpoint_id m) \<and> opt_all safe_id (am_target_endpoint_id m) \<and>
     safe_id (am_source_role m) \<and> opt_all safe_id (am_target_role m) \<and>
     protocol_text ud SUMMARY_LIMIT (am_summary m) \<noteq> None \<and>
     opt_all safe_id (am_baseline_ref m) \<and> opt_all safe_id (am_changeset_ref m) \<and>
     length (am_evidence m) \<le> 100 \<and> length (am_questions m) \<le> 50 \<and> length (am_findings m) \<le> 100 \<and>
     list_all (\<lambda>q. protocol_text ud QUESTION_LIMIT q \<noteq> None) (am_questions m) \<and> 0 \<le> am_created_at m \<and>
     list_all (evidence_ok ud) (am_evidence m) \<and> list_all (review_finding_ok ud) (am_findings m)"

text \<open>\<^verbatim>\<open>AgentMessage.create\<close>, with the identifier and the time it draws.\<close>

definition create_message :: "unidata \<Rightarrow> AgentMessage \<Rightarrow> AgentMessage option" where
  "create_message ud m =
     (case (protocol_text ud SUMMARY_LIMIT (am_summary m), all_some (map (protocol_text ud QUESTION_LIMIT) (am_questions m))) of
        (Some s, Some qs) \<Rightarrow>
          let m' = m\<lparr>am_summary := s, am_questions := qs\<rparr> in if message_ok ud m' then Some m' else None
      | _ \<Rightarrow> None)"

section \<open>Their JSON form\<close>

definition evidence_to_dict :: "EvidenceReference \<Rightarrow> (pystr, pyval) dict" where
  "evidence_to_dict e = [(lit ''artifact_id'', PStr (er_artifact_id e)), (lit ''kind'', PStr (er_kind e)),
     (lit ''summary'', PStr (er_summary e))]"

definition evidence_from_dict :: "unidata \<Rightarrow> pyconv \<Rightarrow> (pystr, pyval) dict \<Rightarrow> EvidenceReference option" where
  "evidence_from_dict ud cv d =
     (case (map_of d (lit ''artifact_id''), map_of d (lit ''kind'')) of
        (Some a, Some k) \<Rightarrow>
          let e = \<lparr>er_artifact_id = to_str cv a, er_kind = to_str cv k,
                er_summary = to_str cv (pget_or d ''summary'' (PStr []))\<rparr>
          in if evidence_ok ud e then Some e else None
      | _ \<Rightarrow> None)"

fun as_opt_int :: "pyval \<Rightarrow> int option option" where
  "as_opt_int PNone = Some None"
| "as_opt_int (PInt i) = Some (Some i)"
| "as_opt_int _ = None"

definition finding_to_dict :: "ReviewFinding \<Rightarrow> (pystr, pyval) dict" where
  "finding_to_dict r = [(lit ''severity'', PStr (rf_severity r)), (lit ''reason'', PStr (rf_reason r)),
     (lit ''path'', opt_text (rf_path r)), (lit ''line'', pv_opt_int (rf_line r)), (lit ''code'', opt_text (rf_code r))]"

definition finding_from_dict :: "unidata \<Rightarrow> pyconv \<Rightarrow> (pystr, pyval) dict \<Rightarrow> ReviewFinding option" where
  "finding_from_dict ud cv d =
     (case (map_of d (lit ''severity''), map_of d (lit ''reason''), as_opt_str (pget d ''path''),
            as_opt_int (pget d ''line''), as_opt_str (pget d ''code'')) of
        (Some s, Some r, Some p, Some l, Some c) \<Rightarrow>
          let x = \<lparr>rf_severity = to_str cv s, rf_reason = to_str cv r, rf_path = p, rf_line = l, rf_code = c\<rparr>
          in if review_finding_ok ud x then Some x else None
      | _ \<Rightarrow> None)"

definition message_to_dict :: "AgentMessage \<Rightarrow> (pystr, pyval) dict" where
  "message_to_dict m =
     [(lit ''message_id'', PStr (am_message_id m)), (lit ''message_type'', PStr (am_message_type m)),
      (lit ''task_id'', PStr (am_task_id m)), (lit ''source_endpoint_id'', PStr (am_source_endpoint_id m)),
      (lit ''target_endpoint_id'', opt_text (am_target_endpoint_id m)), (lit ''source_role'', PStr (am_source_role m)),
      (lit ''target_role'', opt_text (am_target_role m)), (lit ''summary'', PStr (am_summary m)),
      (lit ''baseline_ref'', opt_text (am_baseline_ref m)), (lit ''changeset_ref'', opt_text (am_changeset_ref m)),
      (lit ''evidence'', PSeq (map (\<lambda>e. PMap (evidence_to_dict e)) (am_evidence m))),
      (lit ''questions'', PSeq (map PStr (am_questions m))),
      (lit ''findings'', PSeq (map (\<lambda>r. PMap (finding_to_dict r)) (am_findings m))),
      (lit ''created_at'', PFloat (am_created_at m))]"

definition rows_of :: "((pystr, pyval) dict \<Rightarrow> 'a option) \<Rightarrow> pyval \<Rightarrow> 'a list option" where
  "rows_of dec v = Option.bind (mappings_in v) (\<lambda>ms. all_some (map dec ms))"

definition message_from_dict :: "unidata \<Rightarrow> pyconv \<Rightarrow> (pystr, pyval) dict \<Rightarrow> AgentMessage option" where
  "message_from_dict ud cv d =
     (case (map_of d (lit ''message_id''), map_of d (lit ''message_type''), map_of d (lit ''task_id''),
            map_of d (lit ''source_endpoint_id''), as_opt_str (pget d ''target_endpoint_id''),
            map_of d (lit ''source_role''), as_opt_str (pget d ''target_role''),
            as_opt_str (pget d ''baseline_ref''), as_opt_str (pget d ''changeset_ref''),
            rows_of (evidence_from_dict ud cv) (pget_or d ''evidence'' (PSeq [])),
            iter_of (pget_or d ''questions'' (PSeq [])),
            rows_of (finding_from_dict ud cv) (pget_or d ''findings'' (PSeq [])),
            to_float cv (pget_or d ''created_at'' (PFloat 0))) of
        (Some i, Some t, Some k, Some s, Some te, Some sr, Some tr, Some b, Some c, Some ev, Some qs, Some fs, Some created) \<Rightarrow>
          let m = \<lparr>am_message_id = to_str cv i, am_message_type = to_str cv t, am_task_id = to_str cv k,
                am_source_endpoint_id = to_str cv s, am_target_endpoint_id = te, am_source_role = to_str cv sr,
                am_target_role = tr, am_summary = to_str cv (pget_or d ''summary'' (PStr [])),
                am_baseline_ref = b, am_changeset_ref = c, am_evidence = ev,
                am_questions = map (to_str cv) qs, am_findings = fs, am_created_at = created\<rparr>
          in if message_ok ud m then Some m else None
      | _ \<Rightarrow> None)"

lemma evidence_roundtrip: "evidence_ok ud e \<Longrightarrow> evidence_from_dict ud cv (evidence_to_dict e) = Some e"
  by (cases e) (simp add: evidence_from_dict_def evidence_to_dict_def pget_or_def Let_def)

lemma as_opt_int_pv [simp]: "as_opt_int (pv_opt_int l) = Some l"
  by (cases l) simp_all

lemma finding_roundtrip: "review_finding_ok ud r \<Longrightarrow> finding_from_dict ud cv (finding_to_dict r) = Some r"
  by (cases r) (simp add: finding_from_dict_def finding_to_dict_def pget_def Let_def)

lemma rows_of_written:
  "\<forall>x \<in> set xs. dec (enc x) = Some x \<Longrightarrow> rows_of dec (PSeq (map (\<lambda>x. PMap (enc x)) xs)) = Some xs"
  using all_some_map [of xs "\<lambda>x. dec (enc x)" "\<lambda>x. x"] by (simp add: rows_of_def comp_def)

interpretation message_rows: json_rows am_message_id message_to_dict "message_from_dict ud cv" "message_ok ud"
  "''messages''" "[(lit ''session_id'', PStr session)]" for ud cv session
proof
  fix x :: AgentMessage and d y
  show "message_ok ud x \<Longrightarrow> message_from_dict ud cv (message_to_dict x) = Some x"
  proof -
    assume ok: "message_ok ud x"
    have e: "rows_of (evidence_from_dict ud cv) (PSeq (map (\<lambda>e. PMap (evidence_to_dict e)) (am_evidence x))) = Some (am_evidence x)"
      using ok by (intro rows_of_written) (auto simp: message_ok_def list_all_iff evidence_roundtrip)
    have f: "rows_of (finding_from_dict ud cv) (PSeq (map (\<lambda>r. PMap (finding_to_dict r)) (am_findings x))) = Some (am_findings x)"
      using ok by (intro rows_of_written) (auto simp: message_ok_def list_all_iff finding_roundtrip)
    have q: "map (to_str cv) (map PStr qs) = qs" for qs by (induction qs) simp_all
    from ok show ?thesis
      by (cases x) (use e f q in \<open>simp add: message_from_dict_def message_to_dict_def pget_def pget_or_def Let_def comp_def\<close>)
  qed
  show "message_from_dict ud cv d = Some y \<Longrightarrow> message_ok ud y"
    by (auto simp: message_from_dict_def Let_def split: option.split_asm if_split_asm)
qed simp_all

section \<open>The handoff ledger\<close>

record handoff_env =
  ho_ud :: unidata
  ho_conv :: pyconv
  ho_session :: pystr
  ho_limit :: nat

definition open_handoffs :: "unidata \<Rightarrow> pyconv \<Rightarrow> pystr \<Rightarrow> int \<Rightarrow> handoff_env option" where
  "open_handoffs ud cv session limit =
     (if safe_id session \<and> 0 < limit
      then Some \<lparr>ho_ud = ud, ho_conv = cv, ho_session = session, ho_limit = nat limit\<rparr> else None)"

definition handoff_load :: "handoff_env \<Rightarrow> json_file \<Rightarrow> load_error + AgentMessage list" where
  "handoff_load env f = load_rows ''messages'' (message_from_dict (ho_ud env) (ho_conv env)) f"

definition handoff_save :: "handoff_env \<Rightarrow> AgentMessage list \<Rightarrow> json_file" where
  "handoff_save env ms = save_rows [(lit ''session_id'', PStr (ho_session env))] ''messages'' message_to_dict
     (drop (length ms - ho_limit env) ms)"

definition handoff_append :: "handoff_env \<Rightarrow> AgentMessage \<Rightarrow> json_file \<Rightarrow> (load_error + AgentMessage) \<times> json_file" where
  "handoff_append env m f =
     (case handoff_load env f of
        Inl e \<Rightarrow> (Inl e, f)
      | Inr ms \<Rightarrow> (Inr m, handoff_save env (ms @ [m])))"

definition handoff_list ::
  "handoff_env \<Rightarrow> pystr option \<Rightarrow> pystr option \<Rightarrow> json_file \<Rightarrow> load_error + AgentMessage list" where
  "handoff_list env task mtype f =
     bindr (handoff_load env f) (\<lambda>ms.
       Inr (filter (\<lambda>m. opt_all (\<lambda>t. am_message_type m = t) mtype)
             (filter (\<lambda>m. opt_all (\<lambda>t. am_task_id m = t) task) ms)))"

definition handoff_latest :: "handoff_env \<Rightarrow> pystr \<Rightarrow> json_file \<Rightarrow> load_error + AgentMessage option" where
  "handoff_latest env task f =
     bindr (handoff_list env (Some task) None f) (\<lambda>ms. Inr (if ms = [] then None else Some (last ms)))"

section \<open>Independent review\<close>

definition same_provider :: "pystr option \<Rightarrow> IntelligenceEndpoint \<Rightarrow> bool" where
  "same_provider provider e \<longleftrightarrow> provider \<noteq> None \<and> ie_provider_id e = provider"

definition independent_review_exclusions ::
  "pystr \<Rightarrow> pystr option \<Rightarrow> IntelligenceEndpoint list \<Rightarrow> pystr list" where
  "independent_review_exclusions implementer provider candidates =
     (let others = filter (\<lambda>e. ie_enabled e \<and> ie_endpoint_id e \<noteq> implementer) candidates;
          different = map ie_endpoint_id (filter (\<lambda>e. \<not> same_provider provider e) others);
          same = map ie_endpoint_id (filter (same_provider provider) others)
      in if different \<noteq> [] then sort (dedup (implementer # same)) else [implementer])"

lemma set_exclusions:
  "set (independent_review_exclusions i p cs) = insert i
     (if \<exists>e \<in> set cs. ie_enabled e \<and> ie_endpoint_id e \<noteq> i \<and> \<not> same_provider p e
      then {ie_endpoint_id e |e. e \<in> set cs \<and> ie_enabled e \<and> ie_endpoint_id e \<noteq> i \<and> same_provider p e} else {})"
  by (auto simp: independent_review_exclusions_def Let_def filter_empty_conv simp del: sort_key_simps dedup.simps)

text \<open>An endpoint that is not excluded is another one, and of another provider if one is enabled.\<close>

lemma exclusions_are_independent:
  assumes "ie_endpoint_id e \<notin> set (independent_review_exclusions i p cs)" "e \<in> set cs" "ie_enabled e"
  shows "ie_endpoint_id e \<noteq> i \<and>
    ((\<exists>c \<in> set cs. ie_enabled c \<and> ie_endpoint_id c \<noteq> i \<and> \<not> same_provider p c) \<longrightarrow> \<not> same_provider p e)"
  using assms by (auto simp: set_exclusions split: if_split_asm)

text \<open>For one implementer somebody else stays available as soon as there is somebody else.\<close>

lemma review_stays_possible:
  assumes "c \<in> set cs" "ie_enabled c" "ie_endpoint_id c \<noteq> i" "distinct (map ie_endpoint_id cs)"
  shows "\<exists>e \<in> set cs. ie_enabled e \<and> ie_endpoint_id e \<notin> set (independent_review_exclusions i p cs)"
proof (cases "\<exists>e \<in> set cs. ie_enabled e \<and> ie_endpoint_id e \<noteq> i \<and> \<not> same_provider p e")
  case True
  then obtain e where e: "e \<in> set cs" "ie_enabled e" "ie_endpoint_id e \<noteq> i" "\<not> same_provider p e" by blast
  then have "ie_endpoint_id e \<notin> set (independent_review_exclusions i p cs)"
    using assms(4) by (auto simp: set_exclusions distinct_map inj_on_def)
  with e show ?thesis by blast
next
  case False
  then have "set (independent_review_exclusions i p cs) = {i}" unfolding set_exclusions by (simp only: if_False)
  with assms show ?thesis by (intro bexI [of _ c]) simp_all
qed

section \<open>Bounded summaries\<close>

lemma plain_text_length: "length (plain_text s) \<le> length s"
  unfolding plain_text_def py_strip_def
  by (rule le_trans [OF length_strip_by length_filter_le])

lemma bounded_length: "0 < n \<Longrightarrow> length (bounded_summary ud n s) \<le> n"
proof -
  assume "0 < n"
  moreover have "length (py_rstrip t) \<le> length t" for t
    by (metis length_dropWhile_le length_rev py_rstrip_def)
  then have "length (py_rstrip (take (n - 1) t)) \<le> n - 1" for t
    by (metis length_take min.cobounded2 min.coboundedI2 order_trans)
  ultimately show ?thesis by (auto simp: bounded_summary_def Let_def) (metis Suc_pred Suc_le_mono)
qed

text \<open>A clipped summary always fits: whatever a worker wrote, its bounded summary is no longer than
  the limit and passes the check every message makes, so a handoff is never lost to its length.\<close>

theorem bounded_summaries_pass:
  "length (bounded_summary ud SUMMARY_LIMIT s) \<le> SUMMARY_LIMIT \<and>
   protocol_text ud SUMMARY_LIMIT (bounded_summary ud SUMMARY_LIMIT s) \<noteq> None"
proof -
  have "length (bounded_summary ud SUMMARY_LIMIT s) \<le> SUMMARY_LIMIT"
    by (rule bounded_length) (simp add: SUMMARY_LIMIT_def)
  with plain_text_length [of "bounded_summary ud SUMMARY_LIMIT s"] show ?thesis
    by (simp add: protocol_text_def)
qed

section \<open>What the checks let through\<close>

text \<open>The summary check calls the redaction without any secret, so a summary is stored as written, with
  whatever credential it holds; the texts of findings and evidence are checked and the result dropped.\<close>

lemma summaries_are_not_redacted: "protocol_text ud limit s = Some t \<Longrightarrow> t = plain_text s"
  by (simp add: protocol_text_def split: if_split_asm)

text \<open>Two implementers on the only two providers exclude every endpoint between them.\<close>

lemma two_implementers_leave_nobody:
  fixes e :: "string \<Rightarrow> string \<Rightarrow> IntelligenceEndpoint"
  defines "e \<equiv> \<lambda>i p. \<lparr>ie_endpoint_id = lit i, ie_display_name = lit i, ie_source_kind = SOURCE_API,
     ie_capabilities = [], ie_roles = [], ie_provider_id = Some (lit p), ie_model_id = Some (lit i),
     ie_target_id = None, ie_enabled = True, ie_already_paid = False, ie_quota = default_quota,
     ie_provenance = lit ''m''\<rparr>"
  shows "{ie_endpoint_id x |x. x \<in> set [e ''a1'' ''A'', e ''a2'' ''A'', e ''b1'' ''B'', e ''b2'' ''B'']} \<subseteq>
    set (independent_review_exclusions (lit ''a1'') (Some (lit ''A''))
           [e ''a1'' ''A'', e ''a2'' ''A'', e ''b1'' ''B'', e ''b2'' ''B'']) \<union>
    set (independent_review_exclusions (lit ''b1'') (Some (lit ''B''))
           [e ''a1'' ''A'', e ''a2'' ''A'', e ''b1'' ''B'', e ''b2'' ''B''])"
  unfolding assms by (auto simp: set_exclusions same_provider_def)

end
