(* ===== verification/OrchestratorPlan.thy ===== *)
theory OrchestratorPlan imports Recipes AgentProtocol begin

text \<open>
  Planning an orchestration run: policies, effort levels and \<^verbatim>\<open>Orchestrator.plan\<close> of
  \<^verbatim>\<open>src/karox/orchestrator.py\<close>, with \<^verbatim>\<open>normalize_effort\<close> of \<^verbatim>\<open>src/karox/effort.py\<close>. The plan is built from a
  recipe, one routing decision per step; fresh identifiers and the clock are arguments.
\<close>

section \<open>Policies\<close>

definition PRESETS :: "pystr set" where
  "PRESETS = lit ` {''maximum_quality'', ''balanced'', ''maximum_economy'', ''custom''}"

record OrchestrationPolicy =
  op_preset :: pystr
  op_max_parallel_workers :: int
  op_soft_budget_usd :: real
  op_hard_budget_usd :: real
  op_context_budget_chars :: int
  op_minimum_verified_samples :: int
  op_minimum_verified_success_rate :: real
  op_reserve_quota_fraction :: real
  op_require_independent_review :: bool
  op_shadow_routing :: bool

definition policy_ok :: "OrchestrationPolicy \<Rightarrow> bool" where
  "policy_ok p \<longleftrightarrow> op_preset p \<in> PRESETS \<and> 1 \<le> op_max_parallel_workers p \<and> op_max_parallel_workers p \<le> 16 \<and>
     0 \<le> op_soft_budget_usd p \<and> op_soft_budget_usd p \<le> op_hard_budget_usd p \<and>
     1000 \<le> op_context_budget_chars p \<and> op_context_budget_chars p \<le> 2000000 \<and>
     0 \<le> op_minimum_verified_samples p \<and> 0 \<le> op_minimum_verified_success_rate p \<and>
     op_minimum_verified_success_rate p \<le> 1 \<and> 0 \<le> op_reserve_quota_fraction p \<and> op_reserve_quota_fraction p \<le> 1"

definition default_policy :: "pystr \<Rightarrow> OrchestrationPolicy" where
  "default_policy preset = \<lparr>op_preset = preset, op_max_parallel_workers = 4, op_soft_budget_usd = 5,
     op_hard_budget_usd = 10, op_context_budget_chars = 60000, op_minimum_verified_samples = 3,
     op_minimum_verified_success_rate = 4 / 5, op_reserve_quota_fraction = 3 / 20,
     op_require_independent_review = True, op_shadow_routing = False\<rparr>"

definition policy_from_preset :: "pystr \<Rightarrow> OrchestrationPolicy option" where
  "policy_from_preset name =
     (if name = lit ''maximum_quality'' then
        Some ((default_policy name)\<lparr>op_soft_budget_usd := 20, op_hard_budget_usd := 50,
          op_context_budget_chars := 100000, op_minimum_verified_success_rate := 9 / 10,
          op_reserve_quota_fraction := 1 / 20\<rparr>)
      else if name = lit ''maximum_economy'' then
        Some ((default_policy name)\<lparr>op_soft_budget_usd := 2, op_hard_budget_usd := 5,
          op_context_budget_chars := 40000, op_minimum_verified_success_rate := 3 / 4,
          op_reserve_quota_fraction := 1 / 4\<rparr>)
      else if name = lit ''balanced'' \<or> name = lit ''custom'' then Some (default_policy name)
      else None)"

definition prefer_already_paid :: "OrchestrationPolicy \<Rightarrow> bool" where
  "prefer_already_paid p \<longleftrightarrow> op_preset p \<noteq> lit ''maximum_quality''"

lemma presets_are_valid: "policy_from_preset name = Some p \<Longrightarrow> policy_ok p \<and> op_preset p = name"
  by (auto simp: policy_from_preset_def policy_ok_def default_policy_def PRESETS_def split: if_split_asm)

section \<open>Effort\<close>

definition EFFORT_ALIASES :: "(pystr, pystr) dict" where
  "EFFORT_ALIASES = map (\<lambda>(a, b). (lit a, lit b))
     [(''auto'', ''auto''), (''low'', ''low''), (''medium'', ''medium''), (''normal'', ''medium''),
      (''default'', ''medium''), (''high'', ''high''), (''extra-high'', ''extra-high''), (''extra_high'', ''extra-high''),
      (''extrahigh'', ''extra-high''), (''x-high'', ''extra-high''), (''xhigh'', ''extra-high''), (''ultra'', ''ultra''),
      (''max'', ''ultra'')]"

definition EFFORT_LEVELS :: "pystr set" where
  "EFFORT_LEVELS = lit ` {''auto'', ''low'', ''medium'', ''high'', ''extra-high'', ''ultra''}"

definition normalize_effort :: "unidata \<Rightarrow> pystr \<Rightarrow> pystr option" where
  "normalize_effort ud value = map_of EFFORT_ALIASES (filter (\<lambda>c. c \<noteq> 32) (casefold ud (py_strip value)))"

lemma normalized_effort: "normalize_effort ud v = Some e \<Longrightarrow> e \<in> EFFORT_LEVELS"
  by (auto simp: normalize_effort_def EFFORT_ALIASES_def EFFORT_LEVELS_def split: if_split_asm)

definition PRESET_ROLE_EFFORT :: "(string \<times> (string \<times> string) list) list" where
  "PRESET_ROLE_EFFORT =
    [(''maximum_quality'', [(''orchestrator'', ''extra-high''), (''planner'', ''extra-high''), (''scout'', ''high''),
       (''implementer'', ''extra-high''), (''tester'', ''high''), (''reviewer'', ''extra-high''), (''security'', ''ultra''),
       (''summarizer'', ''medium''), (''ui'', ''extra-high'')]),
     (''balanced'', [(''orchestrator'', ''high''), (''planner'', ''high''), (''scout'', ''medium''), (''implementer'', ''high''),
       (''tester'', ''medium''), (''reviewer'', ''high''), (''security'', ''extra-high''), (''summarizer'', ''low''), (''ui'', ''high'')]),
     (''maximum_economy'', [(''orchestrator'', ''high''), (''planner'', ''medium''), (''scout'', ''low''), (''implementer'', ''medium''),
       (''tester'', ''low''), (''reviewer'', ''high''), (''security'', ''high''), (''summarizer'', ''low''), (''ui'', ''medium'')]),
     (''custom'', [])]"

definition preset_effort :: "pystr \<Rightarrow> pystr \<Rightarrow> pystr option" where
  "preset_effort preset role =
     (case map_of (map (\<lambda>(p, rs). (lit p, rs)) PRESET_ROLE_EFFORT) preset of
        None \<Rightarrow> None
      | Some rs \<Rightarrow> map_of (map (\<lambda>(r, e). (lit r, lit e)) rs) role)"

text \<open>\<^verbatim>\<open>a or b\<close> on optional texts: a missing or empty one is skipped.\<close>

definition or_text :: "pystr option \<Rightarrow> pystr option \<Rightarrow> pystr option" where
  "or_text a b = (case a of Some s \<Rightarrow> if s = [] then b else a | None \<Rightarrow> b)"

definition effort_for :: "unidata \<Rightarrow> OrchestrationPolicy \<Rightarrow> (pystr, pystr) dict \<Rightarrow> RecipeStep \<Rightarrow> pystr option" where
  "effort_for ud policy overrides step =
     Option.bind (or_text (map_of overrides (rp_step_id step))
        (or_text (map_of overrides (rp_role step))
        (or_text (preset_effort (op_preset policy) (rp_role step)) (Some (lit ''medium'')))))
       (normalize_effort ud)"

section \<open>The steps of a plan\<close>

definition has_security_review :: "RecipeStep list \<Rightarrow> bool" where
  "has_security_review steps \<longleftrightarrow>
     list_ex (\<lambda>s. rp_role s = lit ''security'' \<and> rp_independent_from s \<noteq> []) steps"

definition required_ids :: "RecipeStep list \<Rightarrow> pystr list" where
  "required_ids steps = map rp_step_id (filter (\<lambda>s. \<not> rp_optional s) steps)"

definition security_review :: "RecipeStep list \<Rightarrow> RecipeStep" where
  "security_review steps =
     (let worked = map rp_step_id (filter (\<lambda>s. \<not> rp_optional s \<and>
            rp_role s \<in> lit ` {''implementer'', ''tester'', ''reviewer''}) steps)
      in \<lparr>rp_step_id = lit ''security-review'', rp_role = lit ''security'', rp_task_class = lit ''security'',
          rp_required_capabilities = [lit ''reasoning'', lit ''code''],
          rp_depends_on = (if worked = [] then required_ids steps else worked),
          rp_independent_from = map rp_step_id (filter (\<lambda>s. rp_role s = lit ''implementer'') steps),
          rp_optional = False\<rparr>)"

definition with_security_review :: "RiskLevel \<Rightarrow> RecipeStep list \<Rightarrow> RecipeStep list" where
  "with_security_review risk steps =
     (if rank risk \<ge> rank HIGH \<and> \<not> has_security_review steps then steps @ [security_review steps] else steps)"

definition with_judge :: "RecipeStep list \<Rightarrow> RecipeStep list" where
  "with_judge steps =
     (if list_ex (\<lambda>s. rp_role s = lit ''orchestrator'') steps then steps
      else steps @ [\<lparr>rp_step_id = lit ''orchestrator-judge'', rp_role = lit ''orchestrator'',
             rp_task_class = lit ''general'', rp_required_capabilities = [lit ''reasoning''],
             rp_depends_on = required_ids steps, rp_independent_from = [], rp_optional = False\<rparr>])"

definition orchestrator_step :: RecipeStep where
  "orchestrator_step = \<lparr>rp_step_id = lit ''__orchestrator__'', rp_role = lit ''orchestrator'',
     rp_task_class = lit ''general'', rp_required_capabilities = [lit ''reasoning''], rp_depends_on = [],
     rp_independent_from = [], rp_optional = False\<rparr>"

section \<open>Planning\<close>

record PlannedStep =
  pl_step :: RecipeStep
  pl_endpoint :: IntelligenceEndpoint
  pl_route :: RouteDecision
  pl_effort_level :: pystr

record OrchestrationPlan =
  pn_run_id :: pystr
  pn_task_id :: pystr
  pn_objective :: pystr
  pn_recipe_name :: pystr
  pn_orchestrator :: IntelligenceEndpoint
  pn_risk_level :: RiskLevel
  pn_policy :: OrchestrationPolicy
  pn_steps :: "PlannedStep list"
  pn_created_at :: real

record plan_request =
  pq_objective :: pystr
  pq_recipe_name :: pystr
  pq_risk_level :: RiskLevel
  pq_policy :: "OrchestrationPolicy option"
  pq_orchestrator_endpoint_id :: "pystr option"
  pq_role_assignments :: "(pystr, pystr) dict"
  pq_advisory_targets :: "pystr list"
  pq_effort_assignments :: "(pystr, pystr) dict"
  pq_task_id :: "pystr option"
  pq_run_id :: "pystr option"

record planner_env =
  ln_router :: router_env
  ln_recipes :: json_file
  ln_fresh_run :: pystr
  ln_fresh_task :: pystr
  ln_time :: real

datatype plan_error =
    EmptyObjective | BadRunId | PlanRecipe recipe_error | UnknownAdvisoryTargets "pystr list"
  | BadEffort | PlanRoute route_error | UnknownEffortTargets "pystr list" | PlanPool pool_error

definition route_request ::
  "RiskLevel \<Rightarrow> OrchestrationPolicy \<Rightarrow> RecipeStep \<Rightarrow> pystr option \<Rightarrow> bool \<Rightarrow> pystr list \<Rightarrow> RouteRequest" where
  "route_request risk policy step preferred advisory excluded =
     \<lparr>rq_task_class = rp_task_class step, rq_role = rp_role step,
      rq_required_capabilities = rp_required_capabilities step, rq_risk_level = risk,
      rq_estimated_input_tokens = 0, rq_estimated_output_tokens = 0,
      rq_preferred_endpoint_id = preferred, rq_preferred_is_advisory = advisory,
      rq_exclude_endpoint_ids = excluded,
      rq_minimum_verified_samples = op_minimum_verified_samples policy,
      rq_minimum_verified_success_rate = op_minimum_verified_success_rate policy,
      rq_reserve_quota_fraction = op_reserve_quota_fraction policy,
      rq_prefer_already_paid = prefer_already_paid policy\<rparr>"

text \<open>Which endpoint a step prefers, and whether only as advice.\<close>

definition preference ::
  "(pystr, pystr) dict \<Rightarrow> pystr list \<Rightarrow> pystr \<Rightarrow> RecipeStep \<Rightarrow> pystr option \<times> bool" where
  "preference assignments advisory orchestrator step =
     (case map_of assignments (rp_step_id step) of
        Some e \<Rightarrow> (Some e, rp_step_id step \<in> set advisory)
      | None \<Rightarrow>
          (case map_of assignments (rp_role step) of
             Some e \<Rightarrow> (Some e, rp_role step \<in> set advisory)
           | None \<Rightarrow>
               if rp_role step \<in> {lit ''planner'', lit ''orchestrator''} then (Some orchestrator, False)
               else (None, False)))"

text \<open>\<^verbatim>\<open>by_step.get(dependency)\<close>: the latest planned step of that id.\<close>

definition planned_step :: "PlannedStep list \<Rightarrow> pystr \<Rightarrow> PlannedStep option" where
  "planned_step planned i = List.find (\<lambda>p. rp_step_id (pl_step p) = i) (rev planned)"

definition exclusions ::
  "OrchestrationPolicy \<Rightarrow> IntelligenceEndpoint list \<Rightarrow> PlannedStep list \<Rightarrow> RecipeStep \<Rightarrow> pystr list" where
  "exclusions policy endpoints planned step =
     (if op_require_independent_review policy \<and> rp_independent_from step \<noteq> []
      then concat (map (\<lambda>dep. case planned_step planned dep of
             None \<Rightarrow> []
           | Some prior \<Rightarrow> independent_review_exclusions (ie_endpoint_id (pl_endpoint prior))
               (ie_provider_id (pl_endpoint prior)) endpoints) (rp_independent_from step))
      else [])"

record step_context =
  sx_risk :: RiskLevel
  sx_policy :: OrchestrationPolicy
  sx_assignments :: "(pystr, pystr) dict"
  sx_advisory :: "pystr list"
  sx_efforts :: "(pystr, pystr) dict"
  sx_orchestrator :: pystr
  sx_endpoints :: "IntelligenceEndpoint list"

definition step_request :: "step_context \<Rightarrow> PlannedStep list \<Rightarrow> RecipeStep \<Rightarrow> RouteRequest" where
  "step_request cx planned step =
     (let (preferred, advisory) = preference (sx_assignments cx) (sx_advisory cx) (sx_orchestrator cx) step
      in route_request (sx_risk cx) (sx_policy cx) step preferred advisory
           (exclusions (sx_policy cx) (sx_endpoints cx) planned step))"

fun plan_steps ::
  "router_env \<Rightarrow> step_context \<Rightarrow> RecipeStep list \<Rightarrow> PlannedStep list \<Rightarrow> plan_error + PlannedStep list" where
  "plan_steps env cx [] planned = Inr planned"
| "plan_steps env cx (step # steps) planned =
     (case decide_route env (step_request cx planned step) of
        Inl e \<Rightarrow> if rp_optional step then plan_steps env cx steps planned else Inl (PlanRoute e)
      | Inr route \<Rightarrow>
          (case effort_for (pe_ud (rt_pool env)) (sx_policy cx) (sx_efforts cx) step of
             None \<Rightarrow> Inl BadEffort
           | Some effort \<Rightarrow>
               plan_steps env cx steps (planned @
                 [\<lparr>pl_step = step, pl_endpoint = rd_endpoint route, pl_route = route, pl_effort_level = effort\<rparr>])))"

definition recipe_steps_for :: "RiskLevel \<Rightarrow> OrchestrationRecipe \<Rightarrow> RecipeStep list" where
  "recipe_steps_for risk r = with_judge (with_security_review risk (oc_steps r))"

definition unknown_efforts :: "RecipeStep list \<Rightarrow> (pystr, pystr) dict \<Rightarrow> pystr list" where
  "unknown_efforts steps efforts = sort (dedup (filter (\<lambda>k. k \<noteq> lit ''orchestrator'' \<and>
     k \<notin> set (map rp_role steps) \<and> k \<notin> set (map rp_step_id steps)) (map fst efforts)))"

definition make_plan :: "planner_env \<Rightarrow> plan_request \<Rightarrow> plan_error + OrchestrationPlan" where
  "make_plan env rq =
     (if py_strip (pq_objective rq) = [] then Inl EmptyObjective
      else if \<not> opt_all (plain_id 100) (pq_run_id rq) then Inl BadRunId
      else
        bindr (lift_left PlanRecipe (recipe_get (pq_recipe_name rq) (ln_recipes env))) (\<lambda>recipe.
        let policy = (case pq_policy rq of Some p \<Rightarrow> p | None \<Rightarrow> default_policy (lit ''balanced''));
            unknown = sort (dedup (filter (\<lambda>t. t \<notin> fst ` set (pq_role_assignments rq)) (pq_advisory_targets rq)));
            ud = pe_ud (rt_pool (ln_router env))
        in if unknown \<noteq> [] then Inl (UnknownAdvisoryTargets unknown)
           else if \<not> list_all (\<lambda>(k, v). py_strip k \<noteq> [] \<and> normalize_effort ud v \<noteq> None) (pq_effort_assignments rq)
           then Inl BadEffort
           else
             bindr (lift_left PlanRoute (decide_route (ln_router env)
               (route_request (pq_risk_level rq) policy orchestrator_step
                 (or_text (pq_orchestrator_endpoint_id rq) (map_of (pq_role_assignments rq) (lit ''orchestrator'')))
                 False []))) (\<lambda>oroute.
             let steps = recipe_steps_for (pq_risk_level rq) recipe;
                 bad = unknown_efforts steps (pq_effort_assignments rq)
             in if bad \<noteq> [] then Inl (UnknownEffortTargets bad)
                else
                  bindr (lift_left PlanPool (pool_list (rt_pool (ln_router env)) False (rt_pool_file (ln_router env)))) (\<lambda>endpoints.
                  bindr (plan_steps (ln_router env)
                      \<lparr>sx_risk = pq_risk_level rq, sx_policy = policy, sx_assignments = pq_role_assignments rq,
                       sx_advisory = pq_advisory_targets rq, sx_efforts = pq_effort_assignments rq,
                       sx_orchestrator = ie_endpoint_id (rd_endpoint oroute), sx_endpoints = endpoints\<rparr> steps []) (\<lambda>planned.
                    Inr \<lparr>pn_run_id = (case or_text (pq_run_id rq) None of Some i \<Rightarrow> i | None \<Rightarrow> lit ''run-'' @ ln_fresh_run env),
                      pn_task_id = (case or_text (pq_task_id rq) None of Some i \<Rightarrow> i | None \<Rightarrow> lit ''task-'' @ ln_fresh_task env),
                      pn_objective = py_strip (pq_objective rq), pn_recipe_name = oc_name recipe,
                      pn_orchestrator = rd_endpoint oroute, pn_risk_level = pq_risk_level rq,
                      pn_policy = policy, pn_steps = planned, pn_created_at = ln_time env\<rparr>)))))"

section \<open>What a plan holds\<close>

text \<open>Each planned step was routed with the request made from the steps planned before it.\<close>

definition planned_after :: "router_env \<Rightarrow> step_context \<Rightarrow> PlannedStep list \<Rightarrow> PlannedStep \<Rightarrow> bool" where
  "planned_after env cx before s \<longleftrightarrow>
     decide_route env (step_request cx before (pl_step s)) = Inr (pl_route s) \<and>
     pl_endpoint s = rd_endpoint (pl_route s) \<and> pl_effort_level s \<in> EFFORT_LEVELS"

lemma effort_for_level: "effort_for ud policy efforts step = Some e \<Longrightarrow> e \<in> EFFORT_LEVELS"
  by (auto simp: effort_for_def bind_eq_Some_conv normalized_effort)

lemma planned_all:
  "plan_steps env cx steps planned = Inr res \<Longrightarrow>
     \<exists>new. res = planned @ new \<and>
       (\<forall>xs s ys. new = xs @ s # ys \<longrightarrow> planned_after env cx (planned @ xs) s) \<and>
       subseq (map pl_step new) steps \<and>
       filter (\<lambda>s. \<not> rp_optional s) (map pl_step new) = filter (\<lambda>s. \<not> rp_optional s) steps"
proof (induction steps arbitrary: planned)
  case (Cons step steps)
  show ?case
  proof (cases "decide_route env (step_request cx planned step)")
    case (Inl e)
    with Cons.prems have opt: "rp_optional step" and "plan_steps env cx steps planned = Inr res"
      by (auto split: if_split_asm)
    from Cons.IH [OF this(2)] opt show ?thesis by (auto intro: subseq_Cons')
  next
    case (Inr route)
    with Cons.prems obtain effort where eff: "effort_for (pe_ud (rt_pool env)) (sx_policy cx) (sx_efforts cx) step = Some effort"
      by (auto split: option.split_asm)
    let ?s = "\<lparr>pl_step = step, pl_endpoint = rd_endpoint route, pl_route = route, pl_effort_level = effort\<rparr>"
    from Cons.prems Inr eff have "plan_steps env cx steps (planned @ [?s]) = Inr res" by simp
    from Cons.IH [OF this] obtain new where new: "res = (planned @ [?s]) @ new"
      "\<forall>xs s ys. new = xs @ s # ys \<longrightarrow> planned_after env cx ((planned @ [?s]) @ xs) s"
      "subseq (map pl_step new) steps"
      "filter (\<lambda>s. \<not> rp_optional s) (map pl_step new) = filter (\<lambda>s. \<not> rp_optional s) steps" by blast
    have "planned_after env cx planned ?s"
      using Inr effort_for_level [OF eff] by (simp add: planned_after_def)
    then have "\<forall>xs s ys. ?s # new = xs @ s # ys \<longrightarrow> planned_after env cx (planned @ xs) s"
      using new(2) by (auto simp: Cons_eq_append_conv)
    with new show ?thesis by (intro exI [of _ "?s # new"]) simp
  qed
qed simp

lemma make_plan_Inr:
  assumes "make_plan env rq = Inr p"
  obtains recipe cx oroute where "recipe_get (pq_recipe_name rq) (ln_recipes env) = Inr recipe"
    "plan_steps (ln_router env) cx (recipe_steps_for (pq_risk_level rq) recipe) [] = Inr (pn_steps p)"
    "sx_risk cx = pq_risk_level rq" "sx_policy cx = pn_policy p" "sx_assignments cx = pq_role_assignments rq"
    "sx_advisory cx = pq_advisory_targets rq" "sx_orchestrator cx = ie_endpoint_id (pn_orchestrator p)"
    "pool_list (rt_pool (ln_router env)) False (rt_pool_file (ln_router env)) = Inr (sx_endpoints cx)"
    "decide_route (ln_router env) (route_request (pq_risk_level rq) (pn_policy p) orchestrator_step
       (or_text (pq_orchestrator_endpoint_id rq) (map_of (pq_role_assignments rq) (lit ''orchestrator''))) False [])
       = Inr oroute" "pn_orchestrator p = rd_endpoint oroute" "pn_risk_level p = pq_risk_level rq"
  using assms
  by (auto simp: make_plan_def bindr_Inr_iff Let_def split: if_split_asm)

lemma listed_enabled:
  assumes "pool_list env True f = Inr es" "pool_list env False f = Inr es'" "e \<in> set es" "ie_enabled e"
  shows "e \<in> set es'"
  using assms by (auto simp: pool_list_def bindr_Inr_iff Let_def)

lemma route_request_simps [simp]:
  "rq_task_class (step_request cx before s) = rp_task_class s"
  "rq_role (step_request cx before s) = rp_role s"
  "rq_risk_level (step_request cx before s) = sx_risk cx"
  "rq_exclude_endpoint_ids (step_request cx before s) = exclusions (sx_policy cx) (sx_endpoints cx) before s"
  "Some e = rq_preferred_endpoint_id (step_request cx before s) \<longleftrightarrow>
     fst (preference (sx_assignments cx) (sx_advisory cx) (sx_orchestrator cx) s) = Some e"
  "rq_preferred_is_advisory (step_request cx before s) =
     snd (preference (sx_assignments cx) (sx_advisory cx) (sx_orchestrator cx) s)"
  "rq_minimum_verified_samples (step_request cx before s) = op_minimum_verified_samples (sx_policy cx)"
  "rq_minimum_verified_success_rate (step_request cx before s) = op_minimum_verified_success_rate (sx_policy cx)"
  by (auto simp: step_request_def route_request_def split: prod.split)

section \<open>High risk\<close>

text \<open>What a plan says of the quality of a step: enough verified outcomes at the policy's floor.\<close>

definition evidence_at_floor :: "OrchestrationPolicy \<Rightarrow> EndpointPerformance \<Rightarrow> bool" where
  "evidence_at_floor policy perf \<longleftrightarrow> op_minimum_verified_samples policy \<le> int (ep_samples perf) \<and>
     (case ep_success_rate perf of None \<Rightarrow> False | Some r \<Rightarrow> op_minimum_verified_success_rate policy \<le> r)"

lemma planned_step_evidence:
  assumes "make_plan env rq = Inr p" and "rank (pn_risk_level p) \<ge> rank HIGH" and "s \<in> set (pn_steps p)"
  shows "\<exists>perf. performance (rt_conv (ln_router env)) (ie_endpoint_id (pl_endpoint s))
       (rp_task_class (pl_step s)) (rt_telemetry (ln_router env)) = Inr perf \<and>
     (evidence_at_floor (pn_policy p) perf \<or>
      preference (pq_role_assignments rq) (pq_advisory_targets rq) (ie_endpoint_id (pn_orchestrator p)) (pl_step s)
        = (Some (ie_endpoint_id (pl_endpoint s)), False))"
proof -
  from make_plan_Inr [OF assms(1)] obtain recipe cx where
    pl: "plan_steps (ln_router env) cx (recipe_steps_for (pq_risk_level rq) recipe) [] = Inr (pn_steps p)"
    and cx: "sx_risk cx = pq_risk_level rq" "sx_policy cx = pn_policy p" "sx_assignments cx = pq_role_assignments rq"
    "sx_advisory cx = pq_advisory_targets rq" "sx_orchestrator cx = ie_endpoint_id (pn_orchestrator p)"
    and risk: "pn_risk_level p = pq_risk_level rq" by metis
  from assms(3) obtain xs ys where "pn_steps p = xs @ s # ys" by (auto simp: in_set_conv_decomp)
  with planned_all [OF pl] have "planned_after (ln_router env) cx xs s" by auto
  then have d: "decide_route (ln_router env) (step_request cx xs (pl_step s)) = Inr (pl_route s)"
    and ep: "pl_endpoint s = rd_endpoint (pl_route s)" by (simp_all add: planned_after_def)
  from route_within [OF d] obtain perf q where
    perf: "performance (rt_conv (ln_router env)) (ie_endpoint_id (pl_endpoint s))
       (rq_task_class (step_request cx xs (pl_step s))) (rt_telemetry (ln_router env)) = Inr perf"
    and ms: "may_serve perf q (pl_endpoint s) (step_request cx xs (pl_step s))" unfolding ep by blast
  show ?thesis
  proof (intro exI conjI)
    show "performance (rt_conv (ln_router env)) (ie_endpoint_id (pl_endpoint s))
       (rp_task_class (pl_step s)) (rt_telemetry (ln_router env)) = Inr perf" using perf by simp
    have "if proven perf (step_request cx xs (pl_step s)) then at_floor perf (step_request cx xs (pl_step s))
      else explicitly_preferred (pl_endpoint s) (step_request cx xs (pl_step s))"
      using ms assms(2) by (simp add: may_serve_def cx risk)
    then show "evidence_at_floor (pn_policy p) perf \<or>
      preference (pq_role_assignments rq) (pq_advisory_targets rq) (ie_endpoint_id (pn_orchestrator p)) (pl_step s)
        = (Some (ie_endpoint_id (pl_endpoint s)), False)"
      by (auto simp: proven_def at_floor_def explicitly_preferred_def evidence_at_floor_def cx prod_eq_iff
          split: if_split_asm option.split_asm)
  qed
qed

text \<open>A required step is always planned, so a high-risk plan has its security review, unless the recipe
  declares one of its own and makes it optional.\<close>

lemma required_step_planned:
  assumes "make_plan env rq = Inr p" "recipe_get (pq_recipe_name rq) (ln_recipes env) = Inr recipe"
    "st \<in> set (recipe_steps_for (pq_risk_level rq) recipe)" "\<not> rp_optional st"
  shows "st \<in> pl_step ` set (pn_steps p)"
proof -
  from make_plan_Inr [OF assms(1)] assms(2) obtain cx where
    "plan_steps (ln_router env) cx (recipe_steps_for (pq_risk_level rq) recipe) [] = Inr (pn_steps p)"
    by (metis sum.inject(2))
  from planned_all [OF this]
  have "filter (\<lambda>s. \<not> rp_optional s) (map pl_step (pn_steps p)) =
      filter (\<lambda>s. \<not> rp_optional s) (recipe_steps_for (pq_risk_level rq) recipe)" by auto
  then have "st \<in> set (filter (\<lambda>s. \<not> rp_optional s) (map pl_step (pn_steps p)))" using assms(3,4) by simp
  then show ?thesis by auto
qed

lemma high_risk_is_reviewed:
  assumes "make_plan env rq = Inr p" "recipe_get (pq_recipe_name rq) (ln_recipes env) = Inr recipe"
    "rank (pn_risk_level p) \<ge> rank HIGH"
    "list_all (\<lambda>s. rp_role s = lit ''security'' \<and> rp_independent_from s \<noteq> [] \<longrightarrow> \<not> rp_optional s) (oc_steps recipe)"
  shows "\<exists>s \<in> set (pn_steps p). rp_role (pl_step s) = lit ''security'' \<and> \<not> rp_optional (pl_step s)"
proof -
  have risk: "rank HIGH \<le> rank (pq_risk_level rq)" using assms(3) make_plan_Inr [OF assms(1)] by metis
  have "\<exists>st \<in> set (recipe_steps_for (pq_risk_level rq) recipe). rp_role st = lit ''security'' \<and> \<not> rp_optional st"
  proof (cases "has_security_review (oc_steps recipe)")
    case True
    then obtain st where "st \<in> set (oc_steps recipe)" "rp_role st = lit ''security''" "rp_independent_from st \<noteq> []"
      by (auto simp: has_security_review_def list_ex_iff)
    with assms(4) show ?thesis
      by (intro bexI [of _ st]) (auto simp: recipe_steps_for_def with_judge_def with_security_review_def list_all_iff)
  next
    case False
    with risk show ?thesis
      by (intro bexI [of _ "security_review (oc_steps recipe)"])
         (auto simp: recipe_steps_for_def with_judge_def with_security_review_def security_review_def Let_def)
  qed
  with required_step_planned [OF assms(1,2)] show ?thesis by fastforce
qed

section \<open>An example\<close>

lemma plan_steps_total:
  assumes "\<forall>st \<in> set steps. effort_for (pe_ud (rt_pool env)) (sx_policy cx) (sx_efforts cx) st \<noteq> None"
    and "\<forall>st \<in> set steps. \<forall>before. \<exists>d. decide_route env (step_request cx before st) = Inr d"
  shows "\<exists>res. plan_steps env cx steps planned = Inr res"
  using assms
proof (induction steps arbitrary: planned)
  case (Cons st steps)
  then obtain d e where "decide_route env (step_request cx planned st) = Inr d"
    "effort_for (pe_ud (rt_pool env)) (sx_policy cx) (sx_efforts cx) st = Some e" by fastforce
  with Cons show ?case by simp
qed simp

lemma all_planned:
  assumes "plan_steps env cx steps [] = Inr res" "\<forall>st \<in> set steps. \<not> rp_optional st"
  shows "map pl_step res = steps"
proof -
  from planned_all [OF assms(1)] have flt: "filter (\<lambda>s. \<not> rp_optional s) (map pl_step res) =
      filter (\<lambda>s. \<not> rp_optional s) steps" and sub: "subseq (map pl_step res) steps" by auto
  have "\<forall>st \<in> set (map pl_step res). \<not> rp_optional st" using assms(2) by (metis list_emb_set [OF sub])
  with flt assms(2) show ?thesis by (metis filter_True)
qed

definition demo_planner :: planner_env where
  "demo_planner = \<lparr>ln_router = demo_router, ln_recipes = Missing, ln_fresh_run = lit ''1'', ln_fresh_task = lit ''1'',
     ln_time = 0\<rparr>"

definition demo_plan_request :: plan_request where
  "demo_plan_request = \<lparr>pq_objective = lit ''fix'', pq_recipe_name = lit ''bug-fix'', pq_risk_level = MEDIUM,
     pq_policy = None, pq_orchestrator_endpoint_id = Some (lit ''a''), pq_role_assignments = [],
     pq_advisory_targets = [], pq_effort_assignments = [], pq_task_id = None, pq_run_id = None\<rparr>"

abbreviation demo_context :: "pystr \<Rightarrow> IntelligenceEndpoint list \<Rightarrow> step_context" where
  "demo_context orch es \<equiv> \<lparr>sx_risk = MEDIUM, sx_policy = default_policy (lit ''balanced''), sx_assignments = [],
     sx_advisory = [], sx_efforts = [], sx_orchestrator = orch, sx_endpoints = es\<rparr>"

lemma balanced_ok:
  "op_minimum_verified_samples (default_policy n) = 3" "op_minimum_verified_success_rate (default_policy n) = 4 / 5"
  "op_reserve_quota_fraction (default_policy n) = 3 / 20" "op_require_independent_review (default_policy n)"
  by (simp_all add: default_policy_def)

lemma bug_fix_steps:
  "recipe_steps_for MEDIUM BUG_FIX =
     [mk_step ''investigate'' ''scout'' ''repo_discovery'' [''reasoning'', ''tools''] [] [] False,
      mk_step ''implement'' ''implementer'' ''implementation'' [''code'', ''tools''] [''investigate''] [] False,
      mk_step ''regression'' ''tester'' ''testing'' [''tools''] [''implement''] [] False,
      mk_step ''review'' ''reviewer'' ''review'' [''reasoning'', ''code''] [''implement'', ''regression''] [''implement''] False,
      mk_step ''orchestrator-judge'' ''orchestrator'' ''general'' [''reasoning'']
        [''investigate'', ''implement'', ''regression'', ''review''] [] False]"
  by (simp add: recipe_steps_for_def with_judge_def with_security_review_def BUG_FIX_def mk_step_def required_ids_def
      lit_def)

lemma bug_fix_efforts:
  "\<forall>st \<in> set (recipe_steps_for MEDIUM BUG_FIX).
     effort_for (pe_ud demo_pool) (default_policy (lit ''balanced'')) [] st \<noteq> None"
proof -
  have "normalize_effort (pe_ud demo_pool) (lit ''medium'') \<noteq> None" "normalize_effort (pe_ud demo_pool) (lit ''high'') \<noteq> None"
    by code_simp+
  moreover have "preset_effort (lit ''balanced'') (lit ''scout'') = Some (lit ''medium'')"
    "preset_effort (lit ''balanced'') (lit ''implementer'') = Some (lit ''high'')"
    "preset_effort (lit ''balanced'') (lit ''tester'') = Some (lit ''medium'')"
    "preset_effort (lit ''balanced'') (lit ''reviewer'') = Some (lit ''high'')"
    "preset_effort (lit ''balanced'') (lit ''orchestrator'') = Some (lit ''high'')" by code_simp+
  moreover have "lit ''medium'' \<noteq> []" "lit ''high'' \<noteq> []" by (simp_all add: lit_def)
  ultimately show ?thesis
    by (simp add: bug_fix_steps mk_step_def effort_for_def or_text_def default_policy_def)
qed

lemma single_exclusion:
  "\<exists>i \<in> {lit ''a'', lit ''b''}. i \<notin> set (exclusions policy [demo_endpoint (lit ''a''), demo_endpoint (lit ''b'')] before
     (mk_step n r t cs ds [dep] opt))"
proof -
  have ab: "lit ''a'' \<noteq> lit ''b''" by code_simp
  have "set (independent_review_exclusions i p [demo_endpoint (lit ''a''), demo_endpoint (lit ''b'')]) = {i}" for i p
    unfolding set_exclusions by (auto simp: same_provider_def demo_endpoint_def)
  then have "\<exists>j. set (exclusions policy [demo_endpoint (lit ''a''), demo_endpoint (lit ''b'')] before
     (mk_step n r t cs ds [dep] opt)) \<subseteq> {j}"
    by (cases "planned_step before (lit dep)") (auto simp: exclusions_def mk_step_def intro: exI)
  with ab show ?thesis by blast
qed

lemma no_exclusion: "exclusions policy es before (mk_step n r t cs ds [] opt) = []"
  by (simp add: exclusions_def mk_step_def)

lemma bug_fix_routes:
  assumes "st \<in> set (recipe_steps_for MEDIUM BUG_FIX)"
  shows "\<exists>d. decide_route demo_router
    (step_request (demo_context orch [demo_endpoint (lit ''a''), demo_endpoint (lit ''b'')]) before st) = Inr d"
proof -
  let ?cx = "demo_context orch [demo_endpoint (lit ''a''), demo_endpoint (lit ''b'')]"
  let ?rq = "step_request ?cx before st"
  have ok: "rp_task_class st \<in> TASK_CLASSES \<and>
      set (rp_required_capabilities st) \<subseteq> {lit ''code'', lit ''reasoning'', lit ''tools''}"
    using assms by (auto simp: bug_fix_steps mk_step_def TASK_CLASSES_def)
  have "\<exists>i \<in> {lit ''a'', lit ''b''}. i \<notin> set (exclusions (sx_policy ?cx) (sx_endpoints ?cx) before st)"
    using assms single_exclusion no_exclusion by (auto simp: bug_fix_steps)
  then obtain i where i: "i \<in> {lit ''a'', lit ''b''}"
    "i \<notin> set (exclusions (sx_policy ?cx) (sx_endpoints ?cx) before st)" by blast
  show ?thesis
  proof (rule demo_route_found [OF _ i(1) demo_may_serve_any])
    show "request_ok ?rq" using ok
      by (auto simp: request_ok_def step_request_def route_request_def balanced_ok split: prod.split)
    show "ie_endpoint_id (demo_endpoint i) \<notin> set (rq_exclude_endpoint_ids ?rq)"
      using i(2) by (simp add: demo_endpoint_def)
    show "set (rq_required_capabilities ?rq) \<subseteq> {lit ''code'', lit ''reasoning'', lit ''tools''}"
      using ok by (simp add: step_request_def route_request_def split: prod.split)
  qed simp
qed

lemma demo_plan:
  "\<exists>p. make_plan demo_planner demo_plan_request = Inr p \<and>
     map pl_step (pn_steps p) = recipe_steps_for MEDIUM BUG_FIX \<and> op_require_independent_review (pn_policy p)"
proof -
  let ?es = "[demo_endpoint (lit ''a''), demo_endpoint (lit ''b'')]"
  let ?orq = "route_request MEDIUM (default_policy (lit ''balanced'')) orchestrator_step (Some (lit ''a'')) False []"
  have "\<exists>d. decide_route demo_router ?orq = Inr d"
    by (rule demo_route_found [OF _ _ demo_may_serve_any [where i = "lit ''a''"]])
       (auto simp: request_ok_def route_request_def orchestrator_step_def TASK_CLASSES_def balanced_ok)
  then obtain d where d: "decide_route demo_router ?orq = Inr d" ..
  have "\<exists>res. plan_steps demo_router (demo_context (ie_endpoint_id (rd_endpoint d)) ?es)
      (recipe_steps_for MEDIUM BUG_FIX) [] = Inr res"
  proof (rule plan_steps_total)
    show "\<forall>st \<in> set (recipe_steps_for MEDIUM BUG_FIX). effort_for (pe_ud (rt_pool demo_router))
        (sx_policy (demo_context (ie_endpoint_id (rd_endpoint d)) ?es))
        (sx_efforts (demo_context (ie_endpoint_id (rd_endpoint d)) ?es)) st \<noteq> None"
      using bug_fix_efforts by (simp add: demo_router_def)
  qed (use bug_fix_routes in blast)
  then obtain res where res: "plan_steps demo_router (demo_context (ie_endpoint_id (rd_endpoint d)) ?es)
      (recipe_steps_for MEDIUM BUG_FIX) [] = Inr res" ..
  have "\<forall>st \<in> set (recipe_steps_for MEDIUM BUG_FIX). \<not> rp_optional st"
    by (simp add: bug_fix_steps mk_step_def)
  from all_planned [OF res this] have steps: "map pl_step res = recipe_steps_for MEDIUM BUG_FIX" .
  have "map_of RECIPES (lit ''bug-fix'') = Some BUG_FIX" by (simp add: RECIPES_def lit_def FEATURE_def BUG_FIX_def)
  then have rc: "recipe_get (lit ''bug-fix'') Missing = Inr BUG_FIX" by (rule builtin_recipes_win)
  have "pool_list (rt_pool demo_router) False (rt_pool_file demo_router) = Inr ?es"
    using demo_pool_list by (auto simp: demo_router_def pool_list_def bindr_Inr_iff Let_def demo_endpoint_def)
  moreover have "py_strip (lit ''fix'') \<noteq> []" by code_simp
  ultimately show ?thesis using d res rc steps
    by (simp add: make_plan_def demo_planner_def demo_plan_request_def or_text_def unknown_efforts_def
        balanced_ok opt_all_def)
qed

section \<open>Properties\<close>

text \<open>C26. Reviews are independent: when the policy asks for it, a planned step that must be independent of
  an earlier one never runs on the same endpoint, and runs on another provider whenever an enabled
  endpoint of another provider exists.\<close>

theorem reviews_are_independent:
  assumes "make_plan env rq = Inr p" and "op_require_independent_review (pn_policy p)"
    and "pn_steps p = xs @ s # ys" and "dep \<in> set (rp_independent_from (pl_step s))"
    and "planned_step xs dep = Some prior"
    and "pool_list (rt_pool (ln_router env)) False (rt_pool_file (ln_router env)) = Inr es"
  shows "ie_endpoint_id (pl_endpoint s) \<noteq> ie_endpoint_id (pl_endpoint prior) \<and>
    ((\<exists>e \<in> set es. ie_enabled e \<and> ie_endpoint_id e \<noteq> ie_endpoint_id (pl_endpoint prior) \<and>
        \<not> same_provider (ie_provider_id (pl_endpoint prior)) e) \<longrightarrow>
     \<not> same_provider (ie_provider_id (pl_endpoint prior)) (pl_endpoint s))"
proof -
  from make_plan_Inr [OF assms(1)] obtain cx steps where
    pl: "plan_steps (ln_router env) cx steps [] = Inr (pn_steps p)" and pol: "sx_policy cx = pn_policy p"
    and es: "sx_endpoints cx = es" using assms(6) by (metis sum.inject(2))
  from planned_all [OF pl] assms(3) have after: "planned_after (ln_router env) cx xs s" by auto
  then have "decide_route (ln_router env) (step_request cx xs (pl_step s)) = Inr (pl_route s)"
    and ep: "pl_endpoint s = rd_endpoint (pl_route s)" by (simp_all add: planned_after_def)
  from route_within [OF this(1)] obtain all q pf where
    "pool_list (rt_pool (ln_router env)) True (rt_pool_file (ln_router env)) = Inr all"
    "pl_endpoint s \<in> set all" and ms: "may_serve pf q (pl_endpoint s) (step_request cx xs (pl_step s))"
    unfolding ep by blast
  then have in_es: "pl_endpoint s \<in> set es" "ie_enabled (pl_endpoint s)"
    using listed_enabled assms(6) by (auto simp: may_serve_def)
  from ms have "ie_endpoint_id (pl_endpoint s) \<notin> set (exclusions (sx_policy cx) es xs (pl_step s))"
    by (simp add: may_serve_def es)
  then have "ie_endpoint_id (pl_endpoint s) \<notin> set (independent_review_exclusions
      (ie_endpoint_id (pl_endpoint prior)) (ie_provider_id (pl_endpoint prior)) es)"
    using assms(2,4,5) by (force simp: exclusions_def pol)
  from exclusions_are_independent [OF this in_es] show ?thesis .
qed

theorem reviews_are_independent_witness:
  "\<exists>p s prior. make_plan demo_planner demo_plan_request = Inr p \<and> s \<in> set (pn_steps p) \<and>
     rp_step_id (pl_step s) = lit ''review'' \<and> planned_step (take 3 (pn_steps p)) (lit ''implement'') = Some prior \<and>
     ie_endpoint_id (pl_endpoint s) \<noteq> ie_endpoint_id (pl_endpoint prior)"
proof -
  from demo_plan obtain p where p: "make_plan demo_planner demo_plan_request = Inr p"
    "map pl_step (pn_steps p) = recipe_steps_for MEDIUM BUG_FIX" "op_require_independent_review (pn_policy p)" by blast
  then obtain s1 s2 s3 s4 s5 where st: "pn_steps p = [s1, s2, s3] @ s4 # [s5]"
    and ids: "rp_step_id (pl_step s1) = lit ''investigate''" "rp_step_id (pl_step s2) = lit ''implement''"
    "rp_step_id (pl_step s3) = lit ''regression''" "rp_step_id (pl_step s4) = lit ''review''"
    "rp_independent_from (pl_step s4) = [lit ''implement'']"
    by (auto simp: bug_fix_steps mk_step_def)
  have "lit ''regression'' \<noteq> lit ''implement''" by code_simp
  then have prior: "planned_step [s1, s2, s3] (lit ''implement'') = Some s2"
    using ids by (simp add: planned_step_def)
  have "pool_list (rt_pool (ln_router demo_planner)) False (rt_pool_file (ln_router demo_planner)) =
      Inr [demo_endpoint (lit ''a''), demo_endpoint (lit ''b'')]"
    using demo_pool_list
    by (auto simp: demo_planner_def demo_router_def pool_list_def bindr_Inr_iff Let_def demo_endpoint_def)
  from reviews_are_independent [OF p(1,3) st _ prior this] ids
  have "ie_endpoint_id (pl_endpoint s4) \<noteq> ie_endpoint_id (pl_endpoint s2)" by simp
  with p(1) st ids prior show ?thesis
    by (intro exI [of _ p] exI [of _ s4] exI [of _ s2]) simp
qed

end
