(* ===== verification/Delegation.thy ===== *)
theory Delegation imports OrchestratorPlan begin

text \<open>
  Guarded delegation, \<^verbatim>\<open>src/karox/orchestrator_delegation.py\<close>: a proposal authored by the orchestrating
  model is parsed, checked against the recipe and the pool and handed to the planner, where all but the
  trusted targets are advice. \<^verbatim>\<open>json.loads\<close> and the digest of a JSON value are arguments.
\<close>

section \<open>Proposals\<close>

definition ALLOWED_FIELDS :: "pystr set" where
  "ALLOWED_FIELDS = lit ` {''assignments'', ''effort_assignments'', ''rationale''}"

text \<open>\<^verbatim>\<open>(?i)\b(?:authorization|api[_-]?key|token|secret|password|credential|cookie)\s*[:=]\s*\S+\<close>\<close>

definition RATIONALE_SECRET :: re where
  "RATIONALE_SECRET = rseqs [RBoundary,
     ralts [rstr (lit ''authorization''),
       rseqs [rstr (lit ''api''), ROpt (RC (COr (CEq 95) (CEq 45))), rstr (lit ''key'')],
       rstr (lit ''token''), rstr (lit ''secret''), rstr (lit ''password''), rstr (lit ''credential''),
       rstr (lit ''cookie'')],
     RMany CSpace 0 None, RC (COr (CEq 58) (CEq 61)), RMany CSpace 0 None, RMany (CNot CSpace) 1 None]"

record DelegationProposal =
  dp_assignments :: "(pystr, pystr) dict"
  dp_effort_assignments :: "(pystr, pystr) dict"
  dp_rationale :: pystr

text \<open>The post-initialisation: the rationale is stripped, bounded and free of what looks like a credential.\<close>

definition build_proposal ::
  "unidata \<Rightarrow> (pystr, pystr) dict \<Rightarrow> (pystr, pystr) dict \<Rightarrow> pystr \<Rightarrow> DelegationProposal option" where
  "build_proposal ud assignments efforts rationale =
     (let r = py_strip rationale
      in if length r > 2000 then None
         else if r \<noteq> [] \<and> (contains_credential ud r \<or> re_search (ud_word ud) True RATIONALE_SECRET r) then None
         else Some \<lparr>dp_assignments = assignments, dp_effort_assignments = efforts, dp_rationale = r\<rparr>)"

text \<open>A JSON object of texts.\<close>

definition text_object :: "pyval \<Rightarrow> (pystr, pystr) dict option" where
  "text_object v =
     (case v of
        PMap m \<Rightarrow> all_some (map (\<lambda>(k, x). map_option (\<lambda>s. (k, s)) (as_str x)) m)
      | _ \<Rightarrow> None)"

datatype proposal_input = Parsed DelegationProposal | ProposalText pystr | ProposalMapping "(pystr, pyval) dict"

definition parse_object :: "unidata \<Rightarrow> (pystr, pyval) dict \<Rightarrow> DelegationProposal option" where
  "parse_object ud d =
     (if \<not> list_all (\<lambda>k. k \<in> ALLOWED_FIELDS) (map fst d) then None
      else case (text_object (pget_or d ''assignments'' (PMap [])),
                 text_object (pget_or d ''effort_assignments'' (PMap [])),
                 as_str (pget_or d ''rationale'' (PStr []))) of
        (Some a, Some e, Some r) \<Rightarrow> build_proposal ud a e r
      | _ \<Rightarrow> None)"

definition parse_proposal :: "unidata \<Rightarrow> (pystr \<Rightarrow> pyval option) \<Rightarrow> proposal_input \<Rightarrow> DelegationProposal option" where
  "parse_proposal ud loads v =
     (case v of
        Parsed p \<Rightarrow> Some p
      | ProposalText s \<Rightarrow> (case loads s of Some (PMap d) \<Rightarrow> parse_object ud d | _ \<Rightarrow> None)
      | ProposalMapping d \<Rightarrow> parse_object ud d)"

definition proposal_to_dict :: "DelegationProposal \<Rightarrow> (pystr, pyval) dict" where
  "proposal_to_dict p =
     [(lit ''assignments'', PMap (map (\<lambda>(k, v). (k, PStr v)) (sorted_dict (dp_assignments p)))),
      (lit ''effort_assignments'', PMap (map (\<lambda>(k, v). (k, PStr v)) (sorted_dict (dp_effort_assignments p)))),
      (lit ''rationale'', PStr (dp_rationale p))]"

section \<open>The catalog\<close>

definition public_endpoint :: "IntelligenceEndpoint \<Rightarrow> (pystr, pyval) dict" where
  "public_endpoint e =
     [(lit ''endpoint_id'', PStr (ie_endpoint_id e)), (lit ''display_name'', PStr (ie_display_name e)),
      (lit ''source_kind'', PStr (ie_source_kind e)),
      (lit ''capabilities'', PSeq (map PStr (ie_capabilities e))), (lit ''roles'', PSeq (map PStr (ie_roles e))),
      (lit ''already_paid'', PBool (ie_already_paid e)), (lit ''quota_known'', PBool (quota_known (ie_quota e))),
      (lit ''remaining_fraction'', pv_opt_float (q_remaining_fraction (ie_quota e)))]"

definition public_catalog :: "pool_env \<Rightarrow> json_file \<Rightarrow> pool_error + (pystr, pyval) dict list" where
  "public_catalog env f =
     bindr (pool_list env False f) (\<lambda>es. Inr (map public_endpoint (sort_key ie_endpoint_id es)))"

section \<open>Applying a proposal\<close>

record broker_env =
  br_planner :: planner_env
  br_loads :: "pystr \<Rightarrow> pyval option"
  br_hash :: "pyval \<Rightarrow> pystr"

record delegation_request =
  dr_objective :: pystr
  dr_recipe_name :: pystr
  dr_risk_level :: RiskLevel
  dr_policy :: OrchestrationPolicy
  dr_orchestrator_endpoint_id :: pystr
  dr_trusted_targets :: "pystr list"
  dr_task_id :: "pystr option"
  dr_run_id :: "pystr option"

record GuidedPlanResult =
  gp_plan :: OrchestrationPlan
  gp_proposal :: DelegationProposal
  gp_catalog_sha256 :: pystr
  gp_proposal_sha256 :: pystr

datatype delegation_error =
    InvalidProposal | ProposalRecipe recipe_error
  | UnknownAssignmentTargets "pystr list" | UnknownProposalEfforts "pystr list"
  | UnknownEndpoint pystr | DisabledEndpoint pystr | ReplacesOrchestrator
  | MissingTrustedTargets "pystr list" | InvalidProposalEffort | ProposalPlan plan_error | ProposalCatalog pool_error

definition allowed_targets :: "OrchestrationRecipe \<Rightarrow> pystr set" where
  "allowed_targets r = insert (lit ''orchestrator'') (set (map rp_role (oc_steps r)) \<union> set (map rp_step_id (oc_steps r)))"

definition outside :: "pystr set \<Rightarrow> (pystr, pystr) dict \<Rightarrow> pystr list" where
  "outside allowed d = sort (dedup (filter (\<lambda>k. k \<notin> allowed) (map fst d)))"

definition broker_endpoint :: "pool_env \<Rightarrow> json_file \<Rightarrow> pystr \<Rightarrow> delegation_error + IntelligenceEndpoint" where
  "broker_endpoint env f i =
     (case pool_get env i f of
        Inl x \<Rightarrow> Inl (UnknownEndpoint i)
      | Inr e \<Rightarrow> if ie_enabled e then Inr e else Inl (DisabledEndpoint i))"

definition normal_efforts :: "unidata \<Rightarrow> (pystr, pystr) dict \<Rightarrow> (pystr, pystr) dict option" where
  "normal_efforts ud d = all_some (map (\<lambda>(k, v). map_option (\<lambda>e. (k, e)) (normalize_effort ud v)) d)"

text \<open>The request handed to the planner: whatever is not trusted is advice.\<close>

definition guided_request ::
  "delegation_request \<Rightarrow> pystr \<Rightarrow> (pystr, pystr) dict \<Rightarrow> (pystr, pystr) dict \<Rightarrow> plan_request" where
  "guided_request rq fixed assignments efforts =
     \<lparr>pq_objective = dr_objective rq, pq_recipe_name = dr_recipe_name rq, pq_risk_level = dr_risk_level rq,
      pq_policy = Some (dr_policy rq), pq_orchestrator_endpoint_id = Some fixed, pq_role_assignments = assignments,
      pq_advisory_targets = filter (\<lambda>t. t \<notin> set (lit ''orchestrator'' # dr_trusted_targets rq)) (map fst assignments),
      pq_effort_assignments = efforts, pq_task_id = dr_task_id rq, pq_run_id = dr_run_id rq\<rparr>"

definition apply_proposal ::
  "broker_env \<Rightarrow> proposal_input \<Rightarrow> delegation_request \<Rightarrow> delegation_error + GuidedPlanResult" where
  "apply_proposal env v rq =
     (let planner = br_planner env; pool = rt_pool (ln_router planner); file = rt_pool_file (ln_router planner);
          ud = pe_ud pool
      in bindr (need InvalidProposal (parse_proposal ud (br_loads env) v)) (\<lambda>p.
         bindr (lift_left ProposalRecipe (recipe_get (dr_recipe_name rq) (ln_recipes planner))) (\<lambda>recipe.
         let bad = outside (allowed_targets recipe) (dp_assignments p);
             bad_efforts = outside (allowed_targets recipe) (dp_effort_assignments p)
         in if bad \<noteq> [] then Inl (UnknownAssignmentTargets bad)
            else if bad_efforts \<noteq> [] then Inl (UnknownProposalEfforts bad_efforts)
            else bindr (broker_endpoint pool file (dr_orchestrator_endpoint_id rq)) (\<lambda>fixed.
              if map_of (dp_assignments p) (lit ''orchestrator'') \<notin> {None, Some (ie_endpoint_id fixed)}
              then Inl ReplacesOrchestrator
              else
                let assignments = AList.update (lit ''orchestrator'') (ie_endpoint_id fixed) (dp_assignments p)
                in bindr (map_result (broker_endpoint pool file) (map snd assignments)) (\<lambda>_.
                   let missing = sort (dedup (filter (\<lambda>t. t \<notin> fst ` set assignments)
                         (lit ''orchestrator'' # dr_trusted_targets rq)))
                   in if missing \<noteq> [] then Inl (MissingTrustedTargets missing)
                      else bindr (need InvalidProposalEffort (normal_efforts ud (dp_effort_assignments p))) (\<lambda>efforts.
                        bindr (lift_left ProposalPlan (make_plan planner
                            (guided_request rq (ie_endpoint_id fixed) assignments efforts))) (\<lambda>plan.
                        bindr (lift_left ProposalCatalog (public_catalog pool file)) (\<lambda>catalog.
                          Inr \<lparr>gp_plan = plan, gp_proposal = p,
                            gp_catalog_sha256 = br_hash env (PSeq (map PMap catalog)),
                            gp_proposal_sha256 = br_hash env (PMap (proposal_to_dict p))\<rparr>))))))))"

section \<open>What an applied proposal guarantees\<close>

lemma found_endpoint: "broker_endpoint env f i = Inr e \<Longrightarrow> ie_endpoint_id e = i \<and> ie_enabled e"
  by (auto simp: broker_endpoint_def pool_get_def bindr_Inr_iff find_Some_iff split: sum.split_asm if_split_asm option.split_asm)

lemma applied:
  assumes "apply_proposal env v rq = Inr g"
  obtains p efforts where
    "parse_proposal (pe_ud (rt_pool (ln_router (br_planner env)))) (br_loads env) v = Some p" "gp_proposal g = p"
    "make_plan (br_planner env) (guided_request rq (dr_orchestrator_endpoint_id rq)
       (AList.update (lit ''orchestrator'') (dr_orchestrator_endpoint_id rq) (dp_assignments p)) efforts) = Inr (gp_plan g)"
  using assms by (auto simp: apply_proposal_def Let_def bindr_Inr_iff dest!: found_endpoint split: if_split_asm)

section \<open>An example\<close>

definition demo_broker :: broker_env where
  "demo_broker = \<lparr>br_planner = demo_planner, br_loads = (\<lambda>s. None), br_hash = (\<lambda>v. [])\<rparr>"

definition demo_roles :: "pystr list" where
  "demo_roles = map lit [''scout'', ''security'', ''implementer'', ''tester'']"

definition demo_proposal :: DelegationProposal where
  "demo_proposal = \<lparr>dp_assignments = map (\<lambda>r. (r, lit ''a'')) demo_roles, dp_effort_assignments = [], dp_rationale = []\<rparr>"

definition demo_delegation :: delegation_request where
  "demo_delegation = \<lparr>dr_objective = lit ''fix'', dr_recipe_name = lit ''security'', dr_risk_level = HIGH,
     dr_policy = (default_policy (lit ''balanced''))\<lparr>op_require_independent_review := False\<rparr>,
     dr_orchestrator_endpoint_id = lit ''a'', dr_trusted_targets = demo_roles, dr_task_id = None, dr_run_id = None\<rparr>"

definition demo_assignments :: "(pystr, pystr) dict" where
  "demo_assignments = map (\<lambda>r. (r, lit ''a'')) (demo_roles @ [lit ''orchestrator''])"

lemma security_steps:
  "recipe_steps_for HIGH SECURITY = oc_steps SECURITY @
     [mk_step ''orchestrator-judge'' ''orchestrator'' ''general'' [''reasoning'']
        [''scout'', ''security-plan'', ''implement'', ''test'', ''security-review''] [] False]"
  by (simp add: recipe_steps_for_def with_judge_def with_security_review_def SECURITY_def mk_step_def required_ids_def
      has_security_review_def lit_def)

lemma demo_preference:
  assumes "st \<in> set (recipe_steps_for HIGH SECURITY)"
  shows "preference demo_assignments [] orch st = (Some (lit ''a''), False)"
  using assms unfolding security_steps
  by (auto simp: SECURITY_def mk_step_def preference_def demo_assignments_def demo_roles_def lit_def)

lemma security_efforts:
  "\<forall>st \<in> set (recipe_steps_for HIGH SECURITY).
     effort_for (pe_ud demo_pool) (dr_policy demo_delegation) [] st \<noteq> None"
proof -
  have "normalize_effort (pe_ud demo_pool) (lit ''medium'') \<noteq> None" "normalize_effort (pe_ud demo_pool) (lit ''high'') \<noteq> None"
    "normalize_effort (pe_ud demo_pool) (lit ''extra-high'') \<noteq> None" by code_simp+
  moreover have "preset_effort (lit ''balanced'') (lit ''scout'') = Some (lit ''medium'')"
    "preset_effort (lit ''balanced'') (lit ''implementer'') = Some (lit ''high'')"
    "preset_effort (lit ''balanced'') (lit ''tester'') = Some (lit ''medium'')"
    "preset_effort (lit ''balanced'') (lit ''security'') = Some (lit ''extra-high'')"
    "preset_effort (lit ''balanced'') (lit ''orchestrator'') = Some (lit ''high'')" by code_simp+
  moreover have "lit ''medium'' \<noteq> []" "lit ''high'' \<noteq> []" "lit ''extra-high'' \<noteq> []" by (simp_all add: lit_def)
  ultimately show ?thesis unfolding security_steps
    by (simp add: SECURITY_def mk_step_def effort_for_def or_text_def default_policy_def demo_delegation_def)
qed

lemma demo_explicit_route:
  assumes "rq_preferred_endpoint_id rq = Some (lit ''a'')" "\<not> rq_preferred_is_advisory rq"
    "rq_exclude_endpoint_ids rq = []" "set (rq_required_capabilities rq) \<subseteq> {lit ''code'', lit ''reasoning'', lit ''tools''}"
    "rq_minimum_verified_samples rq > 0" "request_ok rq"
  shows "\<exists>d. decide_route demo_router rq = Inr d"
  by (rule demo_route_found [OF assms(6) _ demo_may_serve_any [where i = "lit ''a''"]])
     (use assms(1-5) in \<open>auto simp: explicitly_preferred_def demo_endpoint_def\<close>)

lemma demo_guided_plan:
  "\<exists>p. make_plan demo_planner (guided_request demo_delegation (lit ''a'') demo_assignments []) = Inr p \<and>
     map pl_step (pn_steps p) = recipe_steps_for HIGH SECURITY \<and> pn_risk_level p = HIGH"
proof -
  let ?es = "[demo_endpoint (lit ''a''), demo_endpoint (lit ''b'')]" and ?pol = "dr_policy demo_delegation"
  let ?orq = "route_request HIGH ?pol orchestrator_step (Some (lit ''a'')) False []"
  have pol: "op_minimum_verified_samples ?pol = 3" "op_minimum_verified_success_rate ?pol = 4 / 5"
    "op_reserve_quota_fraction ?pol = 3 / 20" "\<not> op_require_independent_review ?pol"
    by (simp_all add: demo_delegation_def balanced_ok)
  have "\<exists>d. decide_route demo_router ?orq = Inr d"
    by (rule demo_explicit_route)
       (auto simp: request_ok_def route_request_def orchestrator_step_def TASK_CLASSES_def pol)
  then obtain d where d: "decide_route demo_router ?orq = Inr d" ..
  let ?cx = "\<lparr>sx_risk = HIGH, sx_policy = ?pol, sx_assignments = demo_assignments, sx_advisory = [], sx_efforts = [],
     sx_orchestrator = ie_endpoint_id (rd_endpoint d), sx_endpoints = ?es\<rparr>"
  have "\<exists>res. plan_steps demo_router ?cx (recipe_steps_for HIGH SECURITY) [] = Inr res"
  proof (rule plan_steps_total)
    show "\<forall>st \<in> set (recipe_steps_for HIGH SECURITY). effort_for (pe_ud (rt_pool demo_router))
        (sx_policy ?cx) (sx_efforts ?cx) st \<noteq> None"
      using security_efforts by (simp add: demo_router_def)
    show "\<forall>st \<in> set (recipe_steps_for HIGH SECURITY). \<forall>before. \<exists>d. decide_route demo_router (step_request ?cx before st) = Inr d"
    proof (intro ballI allI)
      fix st before assume st: "st \<in> set (recipe_steps_for HIGH SECURITY)"
      then have "rp_task_class st \<in> TASK_CLASSES \<and>
          set (rp_required_capabilities st) \<subseteq> {lit ''code'', lit ''reasoning'', lit ''tools''}"
        unfolding security_steps by (auto simp: SECURITY_def mk_step_def TASK_CLASSES_def)
      then show "\<exists>d. decide_route demo_router (step_request ?cx before st) = Inr d"
        by (intro demo_explicit_route)
           (auto simp: step_request_def demo_preference [OF st] route_request_def request_ok_def exclusions_def pol)
    qed
  qed
  then obtain res where res: "plan_steps demo_router ?cx (recipe_steps_for HIGH SECURITY) [] = Inr res" ..
  have "\<forall>st \<in> set (recipe_steps_for HIGH SECURITY). \<not> rp_optional st"
    unfolding security_steps by (simp add: SECURITY_def mk_step_def)
  from all_planned [OF res this] have steps: "map pl_step res = recipe_steps_for HIGH SECURITY" .
  have "map_of RECIPES (lit ''security'') = Some SECURITY"
    by (simp add: RECIPES_def lit_def FEATURE_def BUG_FIX_def SECURITY_def)
  then have rc: "recipe_get (lit ''security'') Missing = Inr SECURITY" by (rule builtin_recipes_win)
  have "pool_list (rt_pool demo_router) False (rt_pool_file demo_router) = Inr ?es"
    using demo_pool_list by (auto simp: demo_router_def pool_list_def bindr_Inr_iff Let_def demo_endpoint_def)
  moreover have "py_strip (lit ''fix'') \<noteq> []" by code_simp
  moreover have "filter (\<lambda>t. t \<notin> set (lit ''orchestrator'' # demo_roles)) (map fst demo_assignments) = []"
    by (auto simp: demo_assignments_def filter_empty_conv)
  moreover have "dr_objective demo_delegation = lit ''fix''" "dr_recipe_name demo_delegation = lit ''security''"
    "dr_risk_level demo_delegation = HIGH" "dr_trusted_targets demo_delegation = demo_roles"
    "dr_run_id demo_delegation = None" by (simp_all add: demo_delegation_def)
  ultimately show ?thesis using d res rc steps
    by (simp add: make_plan_def guided_request_def demo_planner_def or_text_def unknown_efforts_def opt_all_def)
qed

lemma demo_apply:
  "\<exists>g. apply_proposal demo_broker (Parsed demo_proposal) demo_delegation = Inr g \<and> pn_risk_level (gp_plan g) = HIGH \<and>
     map pl_step (pn_steps (gp_plan g)) = recipe_steps_for HIGH SECURITY"
proof -
  from demo_guided_plan obtain p where
    p: "make_plan demo_planner (guided_request demo_delegation (lit ''a'') demo_assignments []) = Inr p"
      "map pl_step (pn_steps p) = recipe_steps_for HIGH SECURITY" "pn_risk_level p = HIGH" by blast
  have rc: "recipe_get (lit ''security'') Missing = Inr SECURITY"
    by (rule builtin_recipes_win) (simp add: RECIPES_def lit_def FEATURE_def BUG_FIX_def SECURITY_def)
  have "safe_id (lit ''a'')" by code_simp
  then have ep: "broker_endpoint demo_pool (rt_pool_file demo_router) (lit ''a'') = Inr (demo_endpoint (lit ''a''))"
    using demo_pool_list by (simp add: broker_endpoint_def pool_get_def demo_endpoint_def)
  have up: "AList.update (lit ''orchestrator'') (lit ''a'') (dp_assignments demo_proposal) = demo_assignments"
    by (simp add: demo_proposal_def demo_assignments_def demo_roles_def lit_def)
  have out: "outside (allowed_targets SECURITY) (dp_assignments demo_proposal) = []"
    by (auto simp: outside_def demo_proposal_def demo_roles_def allowed_targets_def SECURITY_def mk_step_def filter_empty_conv)
  have out0: "outside A [] = []" for A by (simp add: outside_def)
  have none: "map_of (dp_assignments demo_proposal) (lit ''orchestrator'') = None"
    by (simp add: demo_proposal_def demo_roles_def lit_def)
  have "pool_list demo_pool False (rt_pool_file demo_router) = Inr [demo_endpoint (lit ''a''), demo_endpoint (lit ''b'')]"
    using demo_pool_list by (auto simp: pool_list_def bindr_Inr_iff Let_def demo_endpoint_def)
  then obtain cat where cat: "public_catalog demo_pool (rt_pool_file demo_router) = Inr cat"
    by (simp add: public_catalog_def)
  have eps: "map_result (broker_endpoint demo_pool (rt_pool_file demo_router)) (map snd demo_assignments) =
      Inr (replicate 5 (demo_endpoint (lit ''a'')))"
    by (simp add: demo_assignments_def demo_roles_def ep eval_nat_numeral)
  have tr: "filter (\<lambda>t. t \<notin> fst ` set demo_assignments) (lit ''orchestrator'' # demo_roles) = []"
    by (auto simp: demo_assignments_def filter_empty_conv image_iff)
  have sel: "br_planner demo_broker = demo_planner" "rt_pool (ln_router demo_planner) = demo_pool"
    "rt_pool_file (ln_router demo_planner) = rt_pool_file demo_router" "ln_recipes demo_planner = Missing"
    "dr_recipe_name demo_delegation = lit ''security''" "dr_orchestrator_endpoint_id demo_delegation = lit ''a''"
    "dr_trusted_targets demo_delegation = demo_roles" "dp_effort_assignments demo_proposal = []"
    "ie_endpoint_id (demo_endpoint (lit ''a'')) = lit ''a''"
    by (simp_all add: demo_broker_def demo_planner_def demo_router_def demo_delegation_def demo_proposal_def demo_endpoint_def)
  have "\<exists>g. apply_proposal demo_broker (Parsed demo_proposal) demo_delegation = Inr g \<and> gp_plan g = p"
    by (simp add: apply_proposal_def Let_def sel parse_proposal_def rc out ep none up eps tr cat p(1) normal_efforts_def out0
        del: filter.simps)
  with p show ?thesis by blast
qed

section \<open>Properties\<close>

text \<open>C25. A model never authorizes a risky first use: in a guided plan of high or critical risk every step
  runs on an endpoint with verified outcomes at the quality floor, or on the orchestrator the user selected
  or the plan routed to, or on the endpoint a trusted target of the proposal assigns to it.\<close>

theorem models_never_authorize_first_use:
  assumes "apply_proposal env v rq = Inr g" and "rank (pn_risk_level (gp_plan g)) \<ge> rank HIGH"
    and "s \<in> set (pn_steps (gp_plan g))"
  shows "\<exists>perf. performance (rt_conv (ln_router (br_planner env))) (ie_endpoint_id (pl_endpoint s))
       (rp_task_class (pl_step s)) (rt_telemetry (ln_router (br_planner env))) = Inr perf \<and>
     (evidence_at_floor (pn_policy (gp_plan g)) perf \<or>
      ie_endpoint_id (pl_endpoint s) \<in> {dr_orchestrator_endpoint_id rq, ie_endpoint_id (pn_orchestrator (gp_plan g))} \<or>
      (\<exists>t. t \<in> set (dr_trusted_targets rq) \<and> t \<in> {rp_step_id (pl_step s), rp_role (pl_step s)} \<and>
         map_of (dp_assignments (gp_proposal g)) t = Some (ie_endpoint_id (pl_endpoint s))))"
proof -
  from applied [OF assms(1)] obtain p efforts where p: "gp_proposal g = p" and
    plan: "make_plan (br_planner env) (guided_request rq (dr_orchestrator_endpoint_id rq)
       (AList.update (lit ''orchestrator'') (dr_orchestrator_endpoint_id rq) (dp_assignments p)) efforts) = Inr (gp_plan g)"
    by metis
  let ?as = "AList.update (lit ''orchestrator'') (dr_orchestrator_endpoint_id rq) (dp_assignments p)"
  let ?adv = "filter (\<lambda>t. t \<notin> set (lit ''orchestrator'' # dr_trusted_targets rq)) (map fst ?as)"
  have assigned: "t = lit ''orchestrator'' \<and> e = dr_orchestrator_endpoint_id rq \<or>
      t \<in> set (dr_trusted_targets rq) \<and> map_of (dp_assignments p) t = Some e"
    if "map_of ?as t = Some e" "t \<notin> set ?adv" for t e
    using that map_of_SomeD [OF that(1)] by (force simp: update_conv' split: if_split_asm)
  let ?rq = "guided_request rq (dr_orchestrator_endpoint_id rq) ?as efforts"
  have given: "pq_role_assignments ?rq = ?as" "pq_advisory_targets ?rq = ?adv"
    by (simp_all add: guided_request_def)
  obtain perf where
    perf: "performance (rt_conv (ln_router (br_planner env))) (ie_endpoint_id (pl_endpoint s))
       (rp_task_class (pl_step s)) (rt_telemetry (ln_router (br_planner env))) = Inr perf"
    and how: "evidence_at_floor (pn_policy (gp_plan g)) perf \<or>
      preference ?as ?adv (ie_endpoint_id (pn_orchestrator (gp_plan g))) (pl_step s) =
        (Some (ie_endpoint_id (pl_endpoint s)), False)"
    using planned_step_evidence [OF plan assms(2,3)] unfolding given by (elim exE conjE) (rule that)
  have "preference ?as ?adv (ie_endpoint_id (pn_orchestrator (gp_plan g))) (pl_step s) =
        (Some (ie_endpoint_id (pl_endpoint s)), False) \<Longrightarrow>
      ie_endpoint_id (pl_endpoint s) \<in> {dr_orchestrator_endpoint_id rq, ie_endpoint_id (pn_orchestrator (gp_plan g))} \<or>
      (\<exists>t. t \<in> set (dr_trusted_targets rq) \<and> t \<in> {rp_step_id (pl_step s), rp_role (pl_step s)} \<and>
         map_of (dp_assignments p) t = Some (ie_endpoint_id (pl_endpoint s)))"
    using assigned [of "rp_step_id (pl_step s)"] assigned [of "rp_role (pl_step s)"]
    unfolding preference_def by (auto split: option.split_asm if_split_asm)
  with perf how show ?thesis unfolding p by blast
qed

theorem models_never_authorize_first_use_witness:
  "\<exists>g s. apply_proposal demo_broker (Parsed demo_proposal) demo_delegation = Inr g \<and> s \<in> set (pn_steps (gp_plan g)) \<and>
     rp_role (pl_step s) = lit ''implementer'' \<and>
     ie_endpoint_id (pl_endpoint s) \<in> {lit ''a'', ie_endpoint_id (pn_orchestrator (gp_plan g))}"
proof -
  from demo_apply obtain g where g: "apply_proposal demo_broker (Parsed demo_proposal) demo_delegation = Inr g"
    "pn_risk_level (gp_plan g) = HIGH" "map pl_step (pn_steps (gp_plan g)) = recipe_steps_for HIGH SECURITY" by blast
  have "\<exists>st \<in> set (recipe_steps_for HIGH SECURITY). rp_role st = lit ''implementer''"
    unfolding security_steps by (simp add: SECURITY_def mk_step_def)
  then obtain s where s: "s \<in> set (pn_steps (gp_plan g))" "rp_role (pl_step s) = lit ''implementer''"
    unfolding g(3) [symmetric] by auto
  have risk: "rank HIGH \<le> rank (pn_risk_level (gp_plan g))" by (simp add: g(2))
  have "performance (rt_conv demo_router) i t (rt_telemetry demo_router) = Inr (performance_of [] i t)" for i t
    by (simp add: performance_def telemetry_load_def load_rows_def demo_router_def)
  moreover have "\<not> evidence_at_floor pol (performance_of [] i t)" for pol i t
    by (simp add: evidence_at_floor_def performance_of_def)
  moreover have "gp_proposal g = demo_proposal"
    by (rule applied [OF g(1)]) (simp add: parse_proposal_def)
  moreover have "map_of (dp_assignments demo_proposal) t = Some e \<Longrightarrow> e = lit ''a''" for t e
    by (auto simp: demo_proposal_def dest!: map_of_SomeD)
  ultimately have "ie_endpoint_id (pl_endpoint s) \<in> {lit ''a'', ie_endpoint_id (pn_orchestrator (gp_plan g))}"
    using models_never_authorize_first_use [OF g(1) risk s(1)]
    by (auto simp: demo_broker_def demo_planner_def demo_delegation_def)
  with g(1) s show ?thesis by blast
qed

end
