(* ===== verification/MissionControl.thy ===== *)
theory MissionControl imports JsonStore Identifiers Security begin

text \<open>
  The persistent state behind the local and mobile views of a run, \<^verbatim>\<open>src/karox/mission_control.py\<close>: one JSON
  payload with the owner of the run, its last snapshot and the queue of control commands. Every operation
  holds the file lock from its read to its write, so an operation is one step on the file.
\<close>

section \<open>Records\<close>

definition COMMAND_TYPES :: "pystr set" where
  "COMMAND_TYPES = lit ` {''steer'', ''pause'', ''resume'', ''stop'', ''approve_request''}"

record AgentStatus =
  as_step_id :: pystr
  as_role :: pystr
  as_endpoint_id :: pystr
  as_status :: pystr
  as_activity :: pystr
  as_started_at :: pyval
  as_updated_at :: real
  as_cost_usd :: real
  as_total_tokens :: int
  as_evidence_count :: int

definition agent_to_dict :: "AgentStatus \<Rightarrow> (pystr, pyval) dict" where
  "agent_to_dict a =
     [(lit ''step_id'', PStr (as_step_id a)), (lit ''role'', PStr (as_role a)),
      (lit ''endpoint_id'', PStr (as_endpoint_id a)), (lit ''status'', PStr (as_status a)),
      (lit ''activity'', PStr (as_activity a)), (lit ''started_at'', as_started_at a),
      (lit ''updated_at'', PFloat (as_updated_at a)), (lit ''cost_usd'', PFloat (as_cost_usd a)),
      (lit ''total_tokens'', PInt (as_total_tokens a)), (lit ''evidence_count'', PInt (as_evidence_count a))]"

definition agent_from_dict :: "pyconv \<Rightarrow> (pystr, pyval) dict \<Rightarrow> AgentStatus option" where
  "agent_from_dict cv d =
     (case (map_of d (lit ''step_id''), map_of d (lit ''role''), map_of d (lit ''endpoint_id''), map_of d (lit ''status''),
            to_float cv (pget_or d ''updated_at'' (PFloat 0)), to_float cv (pget_or d ''cost_usd'' (PFloat 0)),
            to_int cv (pget_or d ''total_tokens'' (PInt 0)), to_int cv (pget_or d ''evidence_count'' (PInt 0))) of
        (Some i, Some r, Some e, Some s, Some u, Some c, Some t, Some n) \<Rightarrow>
          Some \<lparr>as_step_id = to_str cv i, as_role = to_str cv r, as_endpoint_id = to_str cv e, as_status = to_str cv s,
            as_activity = to_str cv (pget_or d ''activity'' (PStr [])), as_started_at = pget d ''started_at'',
            as_updated_at = u, as_cost_usd = c, as_total_tokens = t, as_evidence_count = n\<rparr>
      | _ \<Rightarrow> None)"

record MobileCommand =
  mc_command_id :: pystr
  mc_command_type :: pystr
  mc_target :: pystr
  mc_text :: pystr
  mc_created_at :: real
  mc_consumed_at :: pyval

definition command_ok :: "MobileCommand \<Rightarrow> bool" where
  "command_ok c \<longleftrightarrow> plain_id 128 (mc_command_id c) \<and> mc_command_type c \<in> COMMAND_TYPES \<and>
     length (mc_target c) \<le> 256 \<and> length (mc_text c) \<le> 4000"

definition command_pending :: "MobileCommand \<Rightarrow> bool" where
  "command_pending c \<longleftrightarrow> mc_consumed_at c = PNone"

definition command_to_dict :: "MobileCommand \<Rightarrow> (pystr, pyval) dict" where
  "command_to_dict c =
     [(lit ''command_id'', PStr (mc_command_id c)), (lit ''command_type'', PStr (mc_command_type c)),
      (lit ''target'', PStr (mc_target c)), (lit ''text'', PStr (mc_text c)),
      (lit ''created_at'', PFloat (mc_created_at c)), (lit ''consumed_at'', mc_consumed_at c)]"

definition command_from_dict :: "pyconv \<Rightarrow> (pystr, pyval) dict \<Rightarrow> MobileCommand option" where
  "command_from_dict cv d =
     (case (map_of d (lit ''command_id''), map_of d (lit ''command_type''),
            to_float cv (pget_or d ''created_at'' (PFloat 0))) of
        (Some i, Some t, Some at') \<Rightarrow>
          let c = \<lparr>mc_command_id = to_str cv i, mc_command_type = to_str cv t,
                mc_target = to_str cv (pget_or d ''target'' (PStr (lit ''orchestrator''))),
                mc_text = to_str cv (pget_or d ''text'' (PStr [])), mc_created_at = at',
                mc_consumed_at = pget d ''consumed_at''\<rparr>
          in if command_ok c then Some c else None
      | _ \<Rightarrow> None)"

lemma command_roundtrip: "command_ok c \<Longrightarrow> command_from_dict cv (command_to_dict c) = Some c"
  by (cases c) (simp add: command_from_dict_def command_to_dict_def pget_def pget_or_def Let_def)

lemma command_from_dict_ok: "command_from_dict cv d = Some c \<Longrightarrow> command_ok c"
  by (auto simp: command_from_dict_def Let_def split: option.split_asm if_split_asm)

record MissionSnapshot =
  ms_run_id :: pystr
  ms_task_id :: pystr
  ms_objective :: pystr
  ms_recipe :: pystr
  ms_orchestrator_endpoint_id :: pystr
  ms_status :: pystr
  ms_agents :: "AgentStatus list"
  ms_actual_cost_usd :: real
  ms_total_tokens :: int
  ms_context_reused_chars :: int
  ms_cache_hit_rate :: pyval
  ms_latest_screenshot :: pyval
  ms_updated_at :: real

definition total_agents :: "MissionSnapshot \<Rightarrow> nat" where
  "total_agents s = length (ms_agents s)"

definition completed_agents :: "MissionSnapshot \<Rightarrow> nat" where
  "completed_agents s = length (filter
     (\<lambda>a. as_status a \<in> lit ` {''passed'', ''failed'', ''skipped'', ''blocked''}) (ms_agents s))"

definition running_agents :: "MissionSnapshot \<Rightarrow> nat" where
  "running_agents s = length (filter (\<lambda>a. as_status a = lit ''running'') (ms_agents s))"

definition progress_percent :: "MissionSnapshot \<Rightarrow> real" where
  "progress_percent s =
     (if total_agents s = 0 then (if ms_status s = lit ''passed'' then 100 else 0)
      else py_round 1 (of_nat (completed_agents s) / of_nat (total_agents s) * 100))"

definition snapshot_to_dict :: "MissionSnapshot \<Rightarrow> (pystr, pyval) dict" where
  "snapshot_to_dict s =
     [(lit ''run_id'', PStr (ms_run_id s)), (lit ''task_id'', PStr (ms_task_id s)),
      (lit ''objective'', PStr (ms_objective s)), (lit ''recipe'', PStr (ms_recipe s)),
      (lit ''orchestrator_endpoint_id'', PStr (ms_orchestrator_endpoint_id s)), (lit ''status'', PStr (ms_status s)),
      (lit ''agents'', PSeq (map (\<lambda>a. PMap (agent_to_dict a)) (ms_agents s))),
      (lit ''completed_agents'', PInt (int (completed_agents s))), (lit ''running_agents'', PInt (int (running_agents s))),
      (lit ''total_agents'', PInt (int (total_agents s))), (lit ''progress_percent'', PFloat (progress_percent s)),
      (lit ''actual_cost_usd'', PFloat (ms_actual_cost_usd s)), (lit ''total_tokens'', PInt (ms_total_tokens s)),
      (lit ''context_reused_chars'', PInt (ms_context_reused_chars s)), (lit ''cache_hit_rate'', ms_cache_hit_rate s),
      (lit ''latest_screenshot_artifact_id'', ms_latest_screenshot s), (lit ''updated_at'', PFloat (ms_updated_at s))]"

definition snapshot_from_dict :: "pyconv \<Rightarrow> (pystr, pyval) dict \<Rightarrow> MissionSnapshot option" where
  "snapshot_from_dict cv d =
     (case (map_of d (lit ''run_id''), map_of d (lit ''task_id''),
            Option.bind (mappings_in (pget_or d ''agents'' (PSeq []))) (\<lambda>ds. all_some (map (agent_from_dict cv) ds)),
            to_float cv (pget_or d ''actual_cost_usd'' (PFloat 0)), to_int cv (pget_or d ''total_tokens'' (PInt 0)),
            to_int cv (pget_or d ''context_reused_chars'' (PInt 0)), to_float cv (pget_or d ''updated_at'' (PFloat 0))) of
        (Some r, Some t, Some agents, Some c, Some n, Some u, Some at') \<Rightarrow>
          Some \<lparr>ms_run_id = to_str cv r, ms_task_id = to_str cv t,
            ms_objective = to_str cv (pget_or d ''objective'' (PStr [])),
            ms_recipe = to_str cv (pget_or d ''recipe'' (PStr [])),
            ms_orchestrator_endpoint_id = to_str cv (pget_or d ''orchestrator_endpoint_id'' (PStr [])),
            ms_status = to_str cv (pget_or d ''status'' (PStr (lit ''unknown''))), ms_agents = agents,
            ms_actual_cost_usd = c, ms_total_tokens = n, ms_context_reused_chars = u,
            ms_cache_hit_rate = pget d ''cache_hit_rate'', ms_latest_screenshot = pget d ''latest_screenshot_artifact_id'',
            ms_updated_at = at'\<rparr>
      | _ \<Rightarrow> None)"

lemma agent_roundtrip: "agent_from_dict cv (agent_to_dict a) = Some a"
  by (cases a) (simp add: agent_from_dict_def agent_to_dict_def pget_def pget_or_def)

lemma snapshot_roundtrip: "snapshot_from_dict cv (snapshot_to_dict s) = Some s"
proof -
  have "all_some (map (agent_from_dict cv) (map agent_to_dict (ms_agents s))) = Some (map id (ms_agents s))"
    unfolding map_map by (rule all_some_map) (simp add: agent_roundtrip)
  then show ?thesis
    by (cases s) (simp add: snapshot_from_dict_def snapshot_to_dict_def pget_def pget_or_def)
qed

record MissionOwnerBinding =
  mo_session_id :: pystr
  mo_repo_fingerprint :: pystr
  mo_bound_at :: real

definition hex_digit :: "nat \<Rightarrow> bool" where
  "hex_digit c \<longleftrightarrow> 48 \<le> c \<and> c \<le> 57 \<or> 97 \<le> c \<and> c \<le> 102 \<or> 65 \<le> c \<and> c \<le> 70"

definition owner_ok :: "MissionOwnerBinding \<Rightarrow> bool" where
  "owner_ok b \<longleftrightarrow> plain_id 100 (mo_session_id b) \<and> length (mo_repo_fingerprint b) = 64 \<and>
     list_all hex_digit (mo_repo_fingerprint b)"

definition owner_to_dict :: "MissionOwnerBinding \<Rightarrow> (pystr, pyval) dict" where
  "owner_to_dict b = [(lit ''session_id'', PStr (mo_session_id b)),
     (lit ''repo_fingerprint'', PStr (mo_repo_fingerprint b)), (lit ''bound_at'', PFloat (mo_bound_at b))]"

definition owner_from_dict :: "pyconv \<Rightarrow> (pystr, pyval) dict \<Rightarrow> MissionOwnerBinding option" where
  "owner_from_dict cv d =
     (case to_float cv (pget_or d ''bound_at'' (PFloat 0)) of
        Some t \<Rightarrow>
          let b = \<lparr>mo_session_id = to_str cv (pget_or d ''session_id'' (PStr [])),
                mo_repo_fingerprint = to_str cv (pget_or d ''repo_fingerprint'' (PStr [])), mo_bound_at = t\<rparr>
          in if owner_ok b then Some b else None
      | None \<Rightarrow> None)"

lemma owner_roundtrip: "owner_ok b \<Longrightarrow> owner_from_dict cv (owner_to_dict b) = Some b"
  by (cases b) (simp add: owner_from_dict_def owner_to_dict_def pget_or_def Let_def)

section \<open>The store\<close>

datatype mission_error =
    MissionLoad load_error | MissionValue | BoundToAnother | NotBound | ForeignOwner
  | CommandReused | NoSuchCommand | CommandConsumed | OtherRun

record mission_env =
  mi_ud :: unidata
  mi_conv :: pyconv
  mi_run :: pystr

definition open_mission :: "unidata \<Rightarrow> pyconv \<Rightarrow> pystr \<Rightarrow> mission_env option" where
  "open_mission ud cv run = (if plain_id 256 run then Some \<lparr>mi_ud = ud, mi_conv = cv, mi_run = run\<rparr> else None)"

type_synonym payload = "(pystr, pyval) dict"

definition empty_payload :: payload where
  "empty_payload = [(lit ''schema_version'', PInt 1), (lit ''owner'', PNone), (lit ''snapshot'', PNone),
     (lit ''commands'', PSeq [])]"

definition read_payload :: "json_file \<Rightarrow> mission_error + payload" where
  "read_payload f =
     (case f of
        Missing \<Rightarrow> Inr empty_payload
      | Unreadable \<Rightarrow> Inl (MissionLoad FileUnreadable)
      | NotUtf8File \<Rightarrow> Inl (MissionLoad UndecodableText)
      | Json v \<Rightarrow> (case v of PMap d \<Rightarrow> if schema_one d then Inr d else Inl (MissionLoad BadSchema)
                    | _ \<Rightarrow> Inl (MissionLoad BadSchema)))"

definition set_default :: "string \<Rightarrow> pyval \<Rightarrow> payload \<Rightarrow> payload" where
  "set_default k v p = (case map_of p (lit k) of None \<Rightarrow> AList.update (lit k) v p | Some _ \<Rightarrow> p)"

definition stored_owner :: "mission_env \<Rightarrow> payload \<Rightarrow> mission_error + MissionOwnerBinding option" where
  "stored_owner env p =
     (case pget p ''owner'' of
        PMap d \<Rightarrow> (case owner_from_dict (mi_conv env) d of None \<Rightarrow> Inl MissionValue | Some b \<Rightarrow> Inr (Some b))
      | _ \<Rightarrow> Inr None)"

definition owner_binding :: "mission_env \<Rightarrow> json_file \<Rightarrow> mission_error + MissionOwnerBinding option" where
  "owner_binding env f = bindr (read_payload f) (stored_owner env)"

definition owner_matches :: "mission_env \<Rightarrow> MissionOwnerBinding \<Rightarrow> pystr \<Rightarrow> pystr \<Rightarrow> bool" where
  "owner_matches env b session fingerprint \<longleftrightarrow> mo_session_id b = session \<and>
     ud_lower (mi_ud env) (mo_repo_fingerprint b) = ud_lower (mi_ud env) fingerprint"

definition bind_owner ::
  "mission_env \<Rightarrow> real \<Rightarrow> pystr \<Rightarrow> pystr \<Rightarrow> json_file \<Rightarrow> (mission_error + MissionOwnerBinding) \<times> json_file" where
  "bind_owner env now session fingerprint f =
     (let b = \<lparr>mo_session_id = session, mo_repo_fingerprint = fingerprint, mo_bound_at = now\<rparr>
      in if \<not> owner_ok b then (Inl MissionValue, f)
         else case read_payload f of
           Inl e \<Rightarrow> (Inl e, f)
         | Inr p \<Rightarrow>
             (case stored_owner env p of
                Inl e \<Rightarrow> (Inl e, f)
              | Inr (Some cur) \<Rightarrow> if owner_matches env cur session fingerprint then (Inr cur, f) else (Inl BoundToAnother, f)
              | Inr None \<Rightarrow>
                  (Inr b, Json (PMap (set_default ''commands'' (PSeq []) (set_default ''snapshot'' PNone
                    (AList.update (lit ''owner'') (PMap (owner_to_dict b)) p)))))))"

definition require_owner ::
  "mission_env \<Rightarrow> pystr \<Rightarrow> pystr \<Rightarrow> json_file \<Rightarrow> mission_error + MissionOwnerBinding" where
  "require_owner env session fingerprint f =
     bindr (owner_binding env f) (\<lambda>ob.
       case ob of
         None \<Rightarrow> Inl NotBound
       | Some b \<Rightarrow> if owner_matches env b session fingerprint then Inr b else Inl ForeignOwner)"

definition mission_snapshot :: "mission_env \<Rightarrow> json_file \<Rightarrow> mission_error + MissionSnapshot option" where
  "mission_snapshot env f =
     bindr (read_payload f) (\<lambda>p.
       case pget p ''snapshot'' of
         PMap d \<Rightarrow> (case snapshot_from_dict (mi_conv env) d of None \<Rightarrow> Inl MissionValue | Some s \<Rightarrow> Inr (Some s))
       | _ \<Rightarrow> Inr None)"

definition update_snapshot ::
  "mission_env \<Rightarrow> MissionSnapshot \<Rightarrow> json_file \<Rightarrow> (mission_error + MissionSnapshot) \<times> json_file" where
  "update_snapshot env s f =
     (if ms_run_id s \<noteq> mi_run env then (Inl OtherRun, f)
      else case read_payload f of
        Inl e \<Rightarrow> (Inl e, f)
      | Inr p \<Rightarrow> (Inr s, Json (PMap (set_default ''commands'' (PSeq [])
           (AList.update (lit ''snapshot'') (PMap (snapshot_to_dict s)) p)))))"

text \<open>The stored rows that are mappings.\<close>

definition command_rows :: "payload \<Rightarrow> payload list" where
  "command_rows p = (case pget p ''commands'' of PSeq vs \<Rightarrow> map the (filter (\<lambda>x. x \<noteq> None) (map as_mapping vs)) | _ \<Rightarrow> [])"

text \<open>The first row of an identifier, decoding the rows before it.\<close>

fun find_command :: "pyconv \<Rightarrow> pystr \<Rightarrow> payload list \<Rightarrow> mission_error + MobileCommand option" where
  "find_command cv i [] = Inr None"
| "find_command cv i (d # ds) =
     (case command_from_dict cv d of
        None \<Rightarrow> Inl MissionValue
      | Some c \<Rightarrow> if mc_command_id c = i then Inr (Some c) else find_command cv i ds)"

definition enqueue ::
  "mission_env \<Rightarrow> real \<Rightarrow> pystr \<Rightarrow> pystr \<Rightarrow> pystr \<Rightarrow> pystr \<Rightarrow> pystr option \<Rightarrow> json_file \<Rightarrow>
     (mission_error + MobileCommand) \<times> json_file" where
  "enqueue env now fresh ctype target txt given f =
     (let c = \<lparr>mc_command_id = (case given of Some i \<Rightarrow> if i = [] then fresh else i | None \<Rightarrow> fresh),
            mc_command_type = ctype, mc_target = target, mc_text = redacted_str (mi_ud env) txt, mc_created_at = now,
            mc_consumed_at = PNone\<rparr>
      in if \<not> command_ok c then (Inl MissionValue, f)
         else case read_payload f of
           Inl e \<Rightarrow> (Inl e, f)
         | Inr p \<Rightarrow>
             (case find_command (mi_conv env) (mc_command_id c) (command_rows p) of
                Inl e \<Rightarrow> (Inl e, f)
              | Inr (Some cur) \<Rightarrow>
                  if mc_command_type cur = ctype \<and> mc_target cur = target \<and> mc_text cur = mc_text c
                  then (Inr cur, f) else (Inl CommandReused, f)
              | Inr None \<Rightarrow>
                  let rows = command_rows p @ [command_to_dict c]
                  in (Inr c, Json (PMap (AList.update (lit ''commands'')
                        (PSeq (map PMap (drop (length rows - 500) rows))) p)))))"

definition pending_commands :: "mission_env \<Rightarrow> json_file \<Rightarrow> mission_error + MobileCommand list" where
  "pending_commands env f =
     bindr (read_payload f) (\<lambda>p.
       case all_some (map (command_from_dict (mi_conv env))
              (filter (\<lambda>d. pget d ''consumed_at'' = PNone) (command_rows p))) of
         None \<Rightarrow> Inl MissionValue | Some cs \<Rightarrow> Inr cs)"

fun consume_rows ::
  "pyconv \<Rightarrow> real \<Rightarrow> pystr \<Rightarrow> payload list \<Rightarrow> mission_error + (MobileCommand list \<times> MobileCommand option)" where
  "consume_rows cv now i [] = Inr ([], None)"
| "consume_rows cv now i (d # ds) =
     (case command_from_dict cv d of
        None \<Rightarrow> Inl MissionValue
      | Some c \<Rightarrow>
          if mc_command_id c = i \<and> \<not> command_pending c then Inl CommandConsumed
          else
            let c' = (if mc_command_id c = i then c\<lparr>mc_consumed_at := PFloat now\<rparr> else c)
            in bindr (consume_rows cv now i ds) (\<lambda>(cs, found).
                 Inr (c' # cs, if found \<noteq> None then found else if mc_command_id c = i then Some c' else None)))"

definition consume :: "mission_env \<Rightarrow> real \<Rightarrow> pystr \<Rightarrow> json_file \<Rightarrow> (mission_error + MobileCommand) \<times> json_file" where
  "consume env now i f =
     (case read_payload f of
        Inl e \<Rightarrow> (Inl e, f)
      | Inr p \<Rightarrow>
          (case pget p ''commands'' of
             PSeq vs \<Rightarrow>
               (case consume_rows (mi_conv env) now i (command_rows p) of
                  Inl e \<Rightarrow> (Inl e, f)
                | Inr (cs, None) \<Rightarrow> (Inl NoSuchCommand, f)
                | Inr (cs, Some c) \<Rightarrow>
                    (Inr c, Json (PMap (AList.update (lit ''commands'') (PSeq (map (\<lambda>x. PMap (command_to_dict x)) cs)) p))))
           | _ \<Rightarrow> (Inl NoSuchCommand, f)))"

section \<open>Runs of operations\<close>

datatype mission_op =
    BindOwner real pystr pystr
  | UpdateSnapshot MissionSnapshot
  | Enqueue real pystr pystr pystr pystr "pystr option"
  | Consume real pystr

fun mission_step :: "mission_env \<Rightarrow> mission_op \<Rightarrow> json_file \<Rightarrow> json_file" where
  "mission_step env (BindOwner now s r) f = snd (bind_owner env now s r f)"
| "mission_step env (UpdateSnapshot s) f = snd (update_snapshot env s f)"
| "mission_step env (Enqueue now fresh c t x g) f = snd (enqueue env now fresh c t x g f)"
| "mission_step env (Consume now i) f = snd (consume env now i f)"

lemma pget_update:
  "pget (AList.update (lit k) v p) k' = (if k = k' then v else pget p k')"
  by (simp add: pget_def update_conv')

lemma set_default_pget: "pget (set_default k v p) k' = (if k' = k \<and> map_of p (lit k) = None then v else pget p k')"
  by (auto simp: set_default_def pget_def update_conv' split: option.split)

lemma schema_update [simp]: "k \<noteq> ''schema_version'' \<Longrightarrow> schema_one (AList.update (lit k) v p) = schema_one p"
  by (simp add: schema_one_def pget_update)

lemma schema_default [simp]: "k \<noteq> ''schema_version'' \<Longrightarrow> schema_one (set_default k v p) = schema_one p"
  by (simp add: schema_one_def set_default_pget)

lemma read_payload_Inr:
  "read_payload f = Inr p \<longleftrightarrow> (f = Missing \<and> p = empty_payload) \<or> (f = Json (PMap p) \<and> schema_one p)"
  by (auto simp: read_payload_def split: json_file.splits pyval.splits)

lemma read_json [simp]: "schema_one p \<Longrightarrow> read_payload (Json (PMap p)) = Inr p"
  by (simp add: read_payload_def)

lemma read_schema: "read_payload f = Inr p \<Longrightarrow> schema_one p"
  by (auto simp: read_payload_Inr empty_payload_def schema_one_def pget_def)

text \<open>The payload an operation leaves, when it can read the file at all.\<close>

lemma step_payload:
  assumes "read_payload f = Inr p"
  shows "\<exists>p'. read_payload (mission_step env op f) = Inr p' \<and>
    (pget p' ''owner'' = pget p ''owner'' \<or> stored_owner env p = Inr None)"
proof -
  have sc: "schema_one p" using assms by (rule read_schema)
  show ?thesis
  proof (cases op)
    case (BindOwner now s r)
    with assms sc show ?thesis
      by (auto simp: bind_owner_def Let_def split: sum.split option.split)
  next
    case (UpdateSnapshot s)
    with assms sc show ?thesis by (simp add: update_snapshot_def set_default_pget pget_update)
  next
    case (Enqueue now fresh c t x g)
    with assms sc show ?thesis
      by (auto simp: enqueue_def Let_def pget_update split: sum.split option.split)
  next
    case (Consume now i)
    with assms sc show ?thesis
      by (auto simp: consume_def pget_update split: sum.split option.split pyval.split)
  qed
qed

lemma step_keeps_owner:
  assumes "owner_binding env f = Inr (Some b)"
  shows "owner_binding env (mission_step env op f) = Inr (Some b)"
proof -
  from assms obtain p where p: "read_payload f = Inr p" "stored_owner env p = Inr (Some b)"
    by (auto simp: owner_binding_def bindr_Inr_iff)
  from step_payload [OF p(1), of env op] p(2) obtain p' where
    "read_payload (mission_step env op f) = Inr p'" "pget p' ''owner'' = pget p ''owner''" by auto
  with p(2) show ?thesis by (simp add: owner_binding_def stored_owner_def)
qed

section \<open>Consumption\<close>

definition row_is :: "pyconv \<Rightarrow> pystr \<Rightarrow> payload \<Rightarrow> bool" where
  "row_is cv i d \<longleftrightarrow> map_option (to_str cv) (map_of d (lit ''command_id'')) = Some i \<and> pget d ''consumed_at'' = PNone"

definition waiting :: "mission_env \<Rightarrow> pystr \<Rightarrow> json_file \<Rightarrow> nat" where
  "waiting env i f = (case read_payload f of Inl e \<Rightarrow> 0
     | Inr p \<Rightarrow> length (filter (row_is (mi_conv env) i) (command_rows p)))"

text \<open>The identifier a successful consumption takes, and the one a successful enqueue newly stores.\<close>

fun taken :: "mission_env \<Rightarrow> mission_op \<Rightarrow> json_file \<Rightarrow> pystr list" where
  "taken env (Consume now i) f = (case fst (consume env now i f) of Inl e \<Rightarrow> [] | Inr c \<Rightarrow> [i])"
| "taken env op f = []"

fun added :: "mission_env \<Rightarrow> mission_op \<Rightarrow> json_file \<Rightarrow> pystr list" where
  "added env (Enqueue now fresh c t x g) f =
     (case enqueue env now fresh c t x g f of (Inl e, f') \<Rightarrow> [] | (Inr m, f') \<Rightarrow> if f' = f then [] else [mc_command_id m])"
| "added env op f = []"

fun ids_over :: "(mission_env \<Rightarrow> mission_op \<Rightarrow> json_file \<Rightarrow> pystr list) \<Rightarrow> mission_env \<Rightarrow> mission_op list \<Rightarrow> json_file \<Rightarrow> pystr list" where
  "ids_over g env [] f = []"
| "ids_over g env (op # ops) f = g env op f @ ids_over g env ops (mission_step env op f)"

lemma rows_of_command: "row_is cv i (command_to_dict c) \<longleftrightarrow> mc_command_id c = i \<and> command_pending c"
  by (auto simp: row_is_def command_to_dict_def command_pending_def pget_def)

lemma decoded_row: "command_from_dict cv d = Some c \<Longrightarrow> row_is cv i d \<longleftrightarrow> mc_command_id c = i \<and> command_pending c"
  by (auto simp: command_from_dict_def row_is_def command_pending_def Let_def split: option.split_asm if_split_asm)

lemma command_rows_maps [simp]: "command_rows (AList.update (lit ''commands'') (PSeq (map PMap ds)) p) = ds"
  by (simp add: command_rows_def pget_update comp_def)

lemma command_rows_default [simp]:
  "command_rows (set_default ''commands'' (PSeq []) p) = command_rows p"
  by (cases "map_of p (lit ''commands'')") (simp_all add: set_default_def command_rows_def pget_def update_conv')

lemma command_rows_other [simp]:
  "k \<noteq> ''commands'' \<Longrightarrow> command_rows (AList.update (lit k) v p) = command_rows p"
  "k \<noteq> ''commands'' \<Longrightarrow> command_rows (set_default k v p) = command_rows p"
  by (simp_all add: command_rows_def pget_update set_default_pget)

lemma consumed_rows:
  assumes "consume_rows cv now i ds = Inr (cs, found)"
  shows "length (filter (row_is cv j) (map command_to_dict cs)) + (if found \<noteq> None \<and> j = i then 1 else 0)
    \<le> length (filter (row_is cv j) ds)"
  using assms
proof (induction ds arbitrary: cs found)
  case (Cons d ds)
  then obtain c where c: "command_from_dict cv d = Some c" by (auto split: option.split_asm)
  let ?c = "if mc_command_id c = i then c\<lparr>mc_consumed_at := PFloat now\<rparr> else c"
  from Cons.prems c obtain cs' found' where r: "consume_rows cv now i ds = Inr (cs', found')"
    and np: "mc_command_id c = i \<longrightarrow> command_pending c" and cs: "cs = ?c # cs'"
    and f: "found \<noteq> None \<Longrightarrow> found' \<noteq> None \<or> mc_command_id c = i"
    by (auto simp: Let_def bindr_Inr_iff split: if_split_asm prod.split_asm)
  from Cons.IH [OF r] f np show ?case unfolding cs
    by (auto simp: rows_of_command decoded_row [OF c] command_pending_def split: if_splits)
qed simp

lemma filter_dropped: "length (filter P (drop n (xs @ [d]))) \<le> length (filter P xs) + (if P d then 1 else 0)"
proof -
  have "filter P (xs @ [d]) = filter P (take n (xs @ [d])) @ filter P (drop n (xs @ [d]))"
    by (metis append_take_drop_id filter_append)
  then have "length (filter P (drop n (xs @ [d]))) \<le> length (filter P (xs @ [d]))" by simp
  then show ?thesis by (simp del: drop_append split: if_split_asm)
qed

lemma waiting_step:
  "count_list (taken env op f) i + waiting env i (mission_step env op f) \<le> waiting env i f + count_list (added env op f) i"
proof (cases "read_payload f")
  case (Inl e)
  then show ?thesis
    by (cases op) (auto simp: bind_owner_def update_snapshot_def enqueue_def consume_def waiting_def Let_def)
next
  case (Inr p)
  then have sc: "schema_one p" by (rule read_schema)
  show ?thesis
  proof (cases op)
    case (BindOwner now s r)
    with Inr sc show ?thesis
      by (auto simp: bind_owner_def Let_def waiting_def split: sum.split option.split)
  next
    case (UpdateSnapshot s)
    with Inr sc show ?thesis by (simp add: update_snapshot_def waiting_def)
  next
    case (Enqueue now fresh c t x g)
    obtain r f' where e: "enqueue env now fresh c t x g f = (r, f')" by force
    show ?thesis
    proof (cases "f' = f")
      case True
      with Enqueue e show ?thesis by simp
    next
      case False
      with e Inr obtain m where r: "r = Inr m" and
        f': "f' = Json (PMap (AList.update (lit ''commands'')
          (PSeq (map PMap (drop (length (command_rows p @ [command_to_dict m]) - 500) (command_rows p @ [command_to_dict m])))) p))"
        by (auto simp: enqueue_def Let_def split: if_split_asm sum.split_asm option.split_asm)
      let ?rows = "command_rows p @ [command_to_dict m]"
      have "waiting env i f' = length (filter (row_is (mi_conv env) i) (drop (length ?rows - 500) ?rows))"
        by (simp add: f' waiting_def sc del: drop_append map_append)
      also have "\<dots> \<le> waiting env i f + (if mc_command_id m = i then 1 else 0)"
        using filter_dropped [of "row_is (mi_conv env) i" "length ?rows - 500" "command_rows p" "command_to_dict m"]
        by (auto simp: waiting_def Inr rows_of_command simp del: drop_append split: if_splits)
      finally show ?thesis using Enqueue e r False by (simp split: if_split_asm)
    qed
  next
    case (Consume now j)
    show ?thesis
    proof (cases "\<exists>c. fst (consume env now j f) = Inr c")
      case True
      with Inr obtain cs c where cr: "consume_rows (mi_conv env) now j (command_rows p) = Inr (cs, Some c)"
        and st: "consume env now j f = (Inr c, Json (PMap (AList.update (lit ''commands'')
          (PSeq (map PMap (map command_to_dict cs))) p)))"
        by (auto simp: consume_def comp_def split: sum.split_asm option.split_asm pyval.split_asm prod.split_asm)
      from consumed_rows [OF cr, of i] Inr sc st Consume show ?thesis
        by (auto simp: waiting_def simp del: map_map)
    next
      case False
      with Inr Consume show ?thesis
        by (auto simp: consume_def split: sum.splits option.splits pyval.splits prod.splits)
    qed
  qed
qed

lemma taken_bound:
  "count_list (ids_over taken env ops f) i \<le> waiting env i f + count_list (ids_over added env ops f) i"
proof (induction ops arbitrary: f)
  case (Cons op ops)
  from Cons.IH [of "mission_step env op f"] waiting_step [of env op f i] show ?case
    by (simp add: count_list_append)
qed simp

section \<open>A stop that is lost\<close>

text \<open>The queue keeps its last 500 rows whether or not they were consumed: a stop command nobody has polled
  yet is dropped by the five hundredth command after it.\<close>

lemma unpolled_command_is_dropped:
  assumes "read_payload f = Inr p" "command_rows p = d # ds" "length ds = 499"
    and "enqueue env now fresh ctype target txt None f = (Inr c, f')" "f' \<noteq> f"
  shows "\<exists>p'. read_payload f' = Inr p' \<and> command_rows p' = ds @ [command_to_dict c]"
proof -
  have sc: "schema_one p" using assms(1) by (rule read_schema)
  have "f' = Json (PMap (AList.update (lit ''commands'')
      (PSeq (map PMap (drop (length ((d # ds) @ [command_to_dict c]) - 500) ((d # ds) @ [command_to_dict c])))) p))"
    using assms(1,2,4,5) by (auto simp: enqueue_def Let_def split: if_split_asm sum.split_asm option.split_asm)
  also have "drop (length ((d # ds) @ [command_to_dict c]) - 500) ((d # ds) @ [command_to_dict c]) = ds @ [command_to_dict c]"
    using assms(3) by simp
  finally show ?thesis using sc
    by (intro exI [of _ "AList.update (lit ''commands'') (PSeq (map PMap (ds @ [command_to_dict c]))) p"])
       (simp del: map_append)
qed

section \<open>Properties\<close>

text \<open>A run never changes hands: once an owner is bound, no sequence of operations by anyone binds
  another one or takes the binding away.\<close>

theorem a_run_never_changes_hands:
  assumes "owner_binding env f = Inr (Some b)"
  shows "owner_binding env (fold (mission_step env) ops f) = Inr (Some b)"
  using assms by (induction ops arbitrary: f) (simp_all add: step_keeps_owner)

definition demo_mission :: mission_env where
  "demo_mission = \<lparr>mi_ud = \<lparr>ud_word = ascii_alnum, ud_casefold = (\<lambda>c. [c]), ud_lower = (\<lambda>s. s), ud_upper = (\<lambda>s. s)\<rparr>,
     mi_conv = plain_conv, mi_run = lit ''run-1''\<rparr>"

definition demo_owner :: MissionOwnerBinding where
  "demo_owner = \<lparr>mo_session_id = lit ''s1'', mo_repo_fingerprint = replicate 64 97, mo_bound_at = 1\<rparr>"

definition demo_mission_file :: json_file where
  "demo_mission_file = snd (bind_owner demo_mission 1 (lit ''s1'') (replicate 64 97) Missing)"

lemma demo_owner_bound: "owner_binding demo_mission demo_mission_file = Inr (Some demo_owner)"
proof -
  have "plain_id 100 (lit ''s1'')" by code_simp
  then have ok: "owner_ok demo_owner" by (simp add: owner_ok_def demo_owner_def hex_digit_def list_all_iff)
  have eq: "demo_mission_file = Json (PMap (set_default ''commands'' (PSeq []) (set_default ''snapshot'' PNone
      (AList.update (lit ''owner'') (PMap (owner_to_dict demo_owner)) empty_payload))))"
    using ok by (simp add: demo_mission_file_def bind_owner_def Let_def read_payload_def stored_owner_def
        empty_payload_def pget_def demo_owner_def)
  have "schema_one empty_payload" by (simp add: schema_one_def empty_payload_def pget_def)
  then show ?thesis using ok
    by (simp add: eq owner_binding_def stored_owner_def set_default_pget pget_update owner_roundtrip)
qed

theorem a_run_never_changes_hands_witness:
  "owner_binding demo_mission (fold (mission_step demo_mission) [BindOwner 2 (lit ''s2'') (replicate 64 98)]
     demo_mission_file) = Inr (Some demo_owner)"
  by (rule a_run_never_changes_hands [OF demo_owner_bound])

text \<open>A control command is consumed at most once for each time it was queued, whatever operations run: a pause
  or an approval request is never applied twice.\<close>

theorem commands_are_consumed_once:
  "count_list (ids_over taken env ops f) i \<le> waiting env i f + count_list (ids_over added env ops f) i"
  by (rule taken_bound)

end
