(* ===== verification/EconomyEngine.thy ===== *)
theory EconomyEngine imports ContextBus SmartRouter begin

text \<open>
  Measured economy reporting, \<^verbatim>\<open>src/karox/economy_engine.py\<close>: savings receipts, shadow routing and the
  replay lab. Of \<^verbatim>\<open>UsageSummary\<close> the fields a receipt reads are kept.
\<close>

section \<open>Receipts\<close>

definition MEASURED :: pystr where "MEASURED = lit ''measured''"
definition ESTIMATED :: pystr where "ESTIMATED = lit ''estimated''"
definition UNAVAILABLE :: pystr where "UNAVAILABLE = lit ''unavailable''"

record EconomyCounters =
  ec_context_chars_reused :: int
  ec_context_chars_sent :: int
  ec_tool_schema_bytes_avoided :: int
  ec_round_trips_avoided :: int
  ec_cache_read_tokens :: int
  ec_premium_calls_avoided :: int

definition no_counters :: EconomyCounters where
  "no_counters = \<lparr>ec_context_chars_reused = 0, ec_context_chars_sent = 0, ec_tool_schema_bytes_avoided = 0,
     ec_round_trips_avoided = 0, ec_cache_read_tokens = 0, ec_premium_calls_avoided = 0\<rparr>"

definition counters_plus :: "EconomyCounters \<Rightarrow> EconomyCounters \<Rightarrow> EconomyCounters" where
  "counters_plus a b =
     \<lparr>ec_context_chars_reused = ec_context_chars_reused a + ec_context_chars_reused b,
      ec_context_chars_sent = ec_context_chars_sent a + ec_context_chars_sent b,
      ec_tool_schema_bytes_avoided = ec_tool_schema_bytes_avoided a + ec_tool_schema_bytes_avoided b,
      ec_round_trips_avoided = ec_round_trips_avoided a + ec_round_trips_avoided b,
      ec_cache_read_tokens = ec_cache_read_tokens a + ec_cache_read_tokens b,
      ec_premium_calls_avoided = ec_premium_calls_avoided a + ec_premium_calls_avoided b\<rparr>"

definition counters_from_delta :: "ContextDelta \<Rightarrow> EconomyCounters" where
  "counters_from_delta d = no_counters\<lparr>ec_context_chars_reused := cd_reused_chars d,
     ec_context_chars_sent := cd_sent_chars d\<rparr>"

record MoneyMetric =
  mm_amount :: "real option"
  mm_currency :: pystr
  mm_evidence :: pystr

definition money_ok :: "MoneyMetric \<Rightarrow> bool" where
  "money_ok m \<longleftrightarrow> mm_evidence m \<in> {MEASURED, ESTIMATED, UNAVAILABLE} \<and>
     (case mm_amount m of None \<Rightarrow> mm_evidence m = UNAVAILABLE | Some a \<Rightarrow> 0 \<le> a)"

definition money :: "real option \<Rightarrow> pystr \<Rightarrow> pystr \<Rightarrow> MoneyMetric option" where
  "money a c e = (let m = \<lparr>mm_amount = a, mm_currency = c, mm_evidence = e\<rparr> in if money_ok m then Some m else None)"

definition no_money :: MoneyMetric where
  "no_money = \<lparr>mm_amount = None, mm_currency = lit ''USD'', mm_evidence = UNAVAILABLE\<rparr>"

record SavingsReceipt =
  sr_actual_cost :: MoneyMetric
  sr_baseline_cost :: MoneyMetric
  sr_savings :: MoneyMetric
  sr_savings_percent :: "real option"
  sr_cache_savings :: MoneyMetric
  sr_counters :: EconomyCounters
  sr_quality_gates :: "pystr list"
  sr_accepted :: bool
  sr_verified :: bool

record UsageSummary =
  us_requests :: int
  us_prompt_tokens :: int
  us_total_tokens :: int
  us_cache_read_tokens :: int
  us_cache_write_tokens :: int
  us_costs :: "(pystr, real) dict"
  us_cache_savings :: "(pystr, real) dict"

definition single_currency :: "(pystr, real) dict \<Rightarrow> real option \<times> pystr" where
  "single_currency d = (case d of [(name, amount)] \<Rightarrow> (Some amount, name) | _ \<Rightarrow> (None, lit ''USD''))"

text \<open>The metric of a usage total; \<open>None\<close> is the \<^verbatim>\<open>ValueError\<close> of an invalid metric.\<close>

definition usage_metric :: "(pystr, real) dict \<Rightarrow> pystr \<Rightarrow> MoneyMetric option" where
  "usage_metric d evidence =
     (let (amount, currency) = single_currency d
      in money amount currency (if amount = None then UNAVAILABLE else evidence))"

text \<open>Baseline, savings and percentage against the actual cost.\<close>

definition compare_baseline ::
  "MoneyMetric \<Rightarrow> real option \<Rightarrow> pystr \<Rightarrow> (MoneyMetric \<times> MoneyMetric \<times> real option) option" where
  "compare_baseline actual basis currency =
     (case basis of
        None \<Rightarrow> Some (no_money, no_money, None)
      | Some b \<Rightarrow>
          if b < 0 then None
          else
            let baseline = \<lparr>mm_amount = Some b, mm_currency = currency, mm_evidence = MEASURED\<rparr>
            in case mm_amount actual of
                 Some a \<Rightarrow>
                   if mm_currency actual = currency
                   then let saved = max 0 (b - a)
                        in Some (baseline,
                             \<lparr>mm_amount = Some saved, mm_currency = currency,
                              mm_evidence = (if mm_evidence actual = MEASURED then MEASURED else ESTIMATED)\<rparr>,
                             if b > 0 then Some (py_round 3 (saved / b * 100)) else None)
                   else Some (baseline, no_money, None)
               | None \<Rightarrow> Some (baseline, no_money, None))"

definition build_savings_receipt ::
  "UsageSummary \<Rightarrow> EconomyCounters \<Rightarrow> real option \<Rightarrow> pystr \<Rightarrow> pystr \<Rightarrow> pystr \<Rightarrow> bool \<Rightarrow> bool \<Rightarrow> pystr list \<Rightarrow>
     SavingsReceipt option" where
  "build_savings_receipt usage counters basis currency actual_evidence cache_evidence acc ver gates =
     Option.bind (usage_metric (us_costs usage) actual_evidence) (\<lambda>actual.
     Option.bind (usage_metric (us_cache_savings usage) cache_evidence) (\<lambda>cache.
     Option.bind (compare_baseline actual basis currency) (\<lambda>(baseline, savings, percent).
       Some \<lparr>sr_actual_cost = actual, sr_baseline_cost = baseline, sr_savings = savings, sr_savings_percent = percent,
         sr_cache_savings = cache, sr_counters = counters\<lparr>ec_cache_read_tokens := us_cache_read_tokens usage\<rparr>,
         sr_quality_gates = gates, sr_accepted = acc, sr_verified = ver\<rparr>)))"

section \<open>Shadow routing and replay\<close>

record ShadowRouteReport =
  sh_actual_endpoint_id :: pystr
  sh_recommended_endpoint_id :: pystr
  sh_changed :: bool
  sh_actual_cost :: "real option"
  sh_recommended_cost :: "real option"
  sh_projected_delta :: "real option"
  sh_uses_verified_quality :: bool
  sh_reasons :: "route_reason list"

definition candidate_cost :: "RouteCandidate list \<Rightarrow> pystr \<Rightarrow> real option" where
  "candidate_cost cs i = Option.bind (List.find (\<lambda>c. ie_endpoint_id (rc_endpoint c) = i) cs) rc_marginal_cost"

definition shadow_route :: "router_env \<Rightarrow> RouteRequest \<Rightarrow> pystr \<Rightarrow> route_error + ShadowRouteReport" where
  "shadow_route env rq actual =
     bindr (decide_route env rq) (\<lambda>d.
       let recommended = ie_endpoint_id (rd_endpoint d);
           ac = candidate_cost (rd_candidates d) actual; rc = candidate_cost (rd_candidates d) recommended
       in Inr \<lparr>sh_actual_endpoint_id = actual, sh_recommended_endpoint_id = recommended,
            sh_changed = (actual \<noteq> recommended), sh_actual_cost = ac, sh_recommended_cost = rc,
            sh_projected_delta = Option.bind ac (\<lambda>a. map_option (\<lambda>r. py_round 12 (a - r)) rc),
            sh_uses_verified_quality = rd_verified_quality_used d, sh_reasons = rd_reasons d\<rparr>)"

record ReplayCase =
  rv_name :: pystr
  rv_request :: RouteRequest
  rv_actual_endpoint_id :: pystr

record ReplayResult =
  rr_cases :: nat
  rr_route_changes :: nat
  rr_comparable_cost_cases :: nat
  rr_projected_delta :: real
  rr_reports :: "ShadowRouteReport list"

definition replay :: "router_env \<Rightarrow> ReplayCase list \<Rightarrow> route_error + ReplayResult" where
  "replay env cases =
     bindr (map_result (\<lambda>c. shadow_route env (rv_request c) (rv_actual_endpoint_id c)) cases) (\<lambda>reports.
       let deltas = map the (filter (\<lambda>x. x \<noteq> None) (map sh_projected_delta reports))
       in Inr \<lparr>rr_cases = length reports, rr_route_changes = length (filter sh_changed reports),
            rr_comparable_cost_cases = length deltas, rr_projected_delta = py_round 12 (sum_list deltas),
            rr_reports = reports\<rparr>)"

section \<open>Bounds\<close>

lemma round_even_le: "x \<le> of_int n \<Longrightarrow> round_even x \<le> n"
proof -
  assume le: "x \<le> of_int n"
  then have f: "\<lfloor>x\<rfloor> \<le> n" using floor_mono [OF le] by simp
  show ?thesis
  proof (cases "\<lfloor>x\<rfloor> = n")
    case True
    with le have "x - of_int \<lfloor>x\<rfloor> \<le> 0" by simp
    with True show ?thesis by (simp add: round_even_def Let_def)
  next
    case False
    with f show ?thesis by (auto simp: round_even_def Let_def)
  qed
qed

lemma py_round_le: "x \<le> of_int n \<Longrightarrow> py_round k x \<le> of_int n"
proof -
  assume "x \<le> of_int n"
  then have "x * 10 ^ k \<le> of_int (n * 10 ^ k)" by simp
  from round_even_le [OF this] have "of_int (round_even (x * 10 ^ k)) \<le> (of_int (n * 10 ^ k) :: real)"
    by (rule of_int_le_iff [THEN iffD2])
  then show ?thesis by (simp add: py_round_def divide_le_eq)
qed

lemma money_nonneg: "usage_metric d e = Some m \<Longrightarrow> mm_amount m = Some a \<Longrightarrow> 0 \<le> a"
  by (auto simp: usage_metric_def money_def money_ok_def Let_def split: prod.split_asm if_split_asm)

text \<open>A receipt never flatters: savings are claimed only against a measured baseline in the currency of
  the actual cost, they are the non-negative difference and at most the baseline, the percentage lies
  between 0 and 100, and they are called measured only when the actual cost is.\<close>

theorem receipts_never_flatter:
  assumes "build_savings_receipt usage counters basis currency aev cev acc ver gates = Some r"
    and "mm_amount (sr_savings r) = Some saved"
  shows "\<exists>b a. basis = Some b \<and> mm_amount (sr_actual_cost r) = Some a \<and>
    mm_currency (sr_actual_cost r) = currency \<and> saved = max 0 (b - a) \<and> saved \<le> b \<and>
    (mm_evidence (sr_savings r) = MEASURED \<longrightarrow> mm_evidence (sr_actual_cost r) = MEASURED) \<and>
    (case sr_savings_percent r of None \<Rightarrow> True | Some q \<Rightarrow> 0 \<le> q \<and> q \<le> 100)"
proof -
  from assms(1) obtain actual baseline savings percent where
    actual: "usage_metric (us_costs usage) aev = Some actual"
    and cmp: "compare_baseline actual basis currency = Some (baseline, savings, percent)"
    and r: "sr_actual_cost r = actual" "sr_savings r = savings" "sr_savings_percent r = percent"
    by (auto simp: build_savings_receipt_def bind_eq_Some_conv)
  from cmp assms(2) obtain b a where ba: "basis = Some b" "0 \<le> b" "mm_amount actual = Some a"
    "mm_currency actual = currency" "saved = max 0 (b - a)"
    "mm_evidence savings = (if mm_evidence actual = MEASURED then MEASURED else ESTIMATED)"
    "percent = (if b > 0 then Some (py_round 3 (max 0 (b - a) / b * 100)) else None)"
    by (auto simp: compare_baseline_def Let_def r no_money_def split: option.split_asm if_split_asm)
  have "0 \<le> a" using money_nonneg [OF actual ba(3)] .
  with ba(2) have le: "saved \<le> b" by (simp add: ba(5))
  have "0 < b \<Longrightarrow> 0 \<le> py_round 3 (saved / b * 100) \<and> py_round 3 (saved / b * 100) \<le> 100"
    using le py_round_le [of "saved / b * 100" 100 3] by (auto intro: py_round_nonneg simp: ba(5) divide_le_eq)
  moreover have "MEASURED \<noteq> ESTIMATED" by (simp add: MEASURED_def ESTIMATED_def lit_def)
  ultimately show ?thesis using ba le by (auto simp: r)
qed

definition demo_usage :: UsageSummary where
  "demo_usage = \<lparr>us_requests = 1, us_prompt_tokens = 0, us_total_tokens = 0, us_cache_read_tokens = 0,
     us_cache_write_tokens = 0, us_costs = [(lit ''USD'', 1)], us_cache_savings = []\<rparr>"

theorem receipts_never_flatter_witness:
  "\<exists>r q. build_savings_receipt demo_usage no_counters (Some 4) (lit ''USD'') ESTIMATED ESTIMATED True True [] = Some r \<and>
     mm_amount (sr_savings r) = Some 3 \<and> sr_savings_percent r = Some q \<and> 0 \<le> q \<and> q \<le> 100"
proof -
  have "\<exists>r. build_savings_receipt demo_usage no_counters (Some 4) (lit ''USD'') ESTIMATED ESTIMATED True True [] = Some r \<and>
     mm_amount (sr_savings r) = Some 3 \<and> sr_savings_percent r \<noteq> None"
    by (simp add: build_savings_receipt_def usage_metric_def single_currency_def demo_usage_def money_def money_ok_def
        compare_baseline_def Let_def)
  then obtain r q where r: "build_savings_receipt demo_usage no_counters (Some 4) (lit ''USD'') ESTIMATED ESTIMATED True True [] = Some r"
    "mm_amount (sr_savings r) = Some 3" "sr_savings_percent r = Some q" by auto
  from receipts_never_flatter [OF r(1,2)] r show ?thesis by auto
qed

end
