(* ===== verification/TopologicalOrder.thy ===== *)
theory TopologicalOrder imports KaroxPrelude "HOL-Library.Multiset" begin

text \<open>
  The dependency order of a plan, \<^verbatim>\<open>OrchestrationRuntime._topological_order\<close> of \<^verbatim>\<open>src/karox/orchestrator.py\<close>:
  Kahn's algorithm with a queue. A node is an identifier with the identifiers it depends on; dependencies
  on identifiers outside the plan are ignored.
\<close>

type_synonym node = "pystr \<times> pystr list"

section \<open>The algorithm\<close>

definition node_ids :: "node list \<Rightarrow> pystr list" where
  "node_ids nodes = map fst nodes"

definition planned_deps :: "node list \<Rightarrow> pystr list \<Rightarrow> pystr list" where
  "planned_deps nodes ds = filter (\<lambda>d. d \<in> set (node_ids nodes)) ds"

definition indegrees :: "node list \<Rightarrow> (pystr, int) dict" where
  "indegrees nodes = map (\<lambda>(k, ds). (k, int (length (planned_deps nodes ds)))) nodes"

text \<open>Each dependency on \<open>d\<close> appends the depending node to the list of \<open>d\<close>.\<close>

definition outgoing :: "node list \<Rightarrow> pystr \<Rightarrow> pystr list" where
  "outgoing nodes d = concat (map (\<lambda>(k, ds). replicate (count_list ds d) k) nodes)"

fun release_children :: "pystr list \<Rightarrow> (pystr, int) dict \<Rightarrow> (pystr, int) dict \<times> pystr list" where
  "release_children [] ind = (ind, [])"
| "release_children (c # cs) ind =
     (let n = (case map_of ind c of Some m \<Rightarrow> m | None \<Rightarrow> 0) - 1;
          (ind', new) = release_children cs (AList.update c n ind)
      in (ind', if n = 0 then c # new else new))"

definition weight :: "(pystr, int) dict \<Rightarrow> nat" where
  "weight ind = sum_list (map (nat \<circ> snd) ind)"

lemma weight_update:
  "weight (AList.update c ((case map_of ind c of Some m \<Rightarrow> m | None \<Rightarrow> 0) - 1) ind) +
     (if (case map_of ind c of Some m \<Rightarrow> m | None \<Rightarrow> 0) = 1 then 1 else 0) \<le> weight ind"
  by (induction ind) (auto simp: weight_def split: option.split_asm if_splits)

lemma release_weight: "release_children cs ind = (ind', new) \<Longrightarrow> weight ind' + length new \<le> weight ind"
proof (induction cs arbitrary: ind ind' new)
  case (Cons c cs)
  let ?n = "(case map_of ind c of Some m \<Rightarrow> m | None \<Rightarrow> 0) - 1"
  obtain ind1 new1 where r: "release_children cs (AList.update c ?n ind) = (ind1, new1)" by force
  from Cons.IH [OF r] weight_update [of c ind] Cons.prems r show ?case
    by (auto simp: Let_def split: if_split_asm)
qed simp

function kahn :: "(pystr \<Rightarrow> pystr list) \<Rightarrow> (pystr, int) dict \<Rightarrow> pystr list \<Rightarrow> pystr list \<Rightarrow> pystr list" where
  "kahn out ind [] order = order"
| "kahn out ind (k # ready) order =
     (let (ind', new) = release_children (sort (out k)) ind in kahn out ind' (ready @ new) (order @ [k]))"
  by pat_completeness auto
termination
proof (relation "measure (\<lambda>(out, ind, ready, order). weight ind + length ready)")
  fix out :: "pystr \<Rightarrow> pystr list" and ind k ready order x ind' new
  assume "x = release_children (sort (out k)) ind" "(ind', new) = x"
  then have "weight ind' + length new \<le> weight ind" using release_weight by metis
  then show "((out, ind', ready @ new, order @ [k]), (out, ind, k # ready, order))
      \<in> measure (\<lambda>(out, ind, ready, order). weight ind + length ready)" by simp
qed simp

definition initial_ready :: "node list \<Rightarrow> pystr list" where
  "initial_ready nodes = sort (map fst (filter (\<lambda>(k, n). n = 0) (indegrees nodes)))"

definition topological_order :: "node list \<Rightarrow> pystr list option" where
  "topological_order nodes =
     (let order = kahn (outgoing nodes) (indegrees nodes) (initial_ready nodes) []
      in if length order \<noteq> length nodes then None else Some order)"

section \<open>Correctness\<close>

lemma count_outgoing:
  assumes "distinct (node_ids nodes)" "(c, ds) \<in> set nodes"
  shows "count_list (outgoing nodes d) c = count_list ds d"
  using assms
proof (induction nodes)
  case (Cons x nodes)
  obtain k es where x: "x = (k, es)" by force
  have rep: "count_list (replicate n k) c = (if k = c then n else 0)" for n
    by (induction n) auto
  have none: "c \<notin> set (node_ids nodes) \<Longrightarrow> count_list (outgoing nodes d) c = 0"
    by (force simp: outgoing_def node_ids_def count_list_0_iff)
  show ?case
  proof (cases "k = c")
    case True
    with Cons.prems(1) x have nc: "c \<notin> set (node_ids nodes)" by (simp add: node_ids_def)
    then have "(c, ds) \<notin> set nodes" by (force simp: node_ids_def)
    with Cons.prems(2) True x have "es = ds" by simp
    with nc none True x rep show ?thesis by (simp add: outgoing_def count_list_append)
  next
    case False
    with Cons x rep show ?thesis by (auto simp: outgoing_def count_list_append node_ids_def)
  qed
qed simp

lemma set_outgoing: "set (outgoing nodes d) \<subseteq> set (node_ids nodes)"
  by (force simp: outgoing_def node_ids_def)

text \<open>Releasing children: each loses one per occurrence, those that reach zero come out once.\<close>

lemma release_children_spec:
  assumes "release_children cs ind = (ind', new)"
    and "\<forall>c \<in> set cs. \<exists>n. map_of ind c = Some n \<and> int (count_list cs c) \<le> n"
  shows "(\<forall>c. map_of ind' c = map_option (\<lambda>n. n - int (count_list cs c)) (map_of ind c)) \<and>
    set new = {c \<in> set cs. map_of ind c = Some (int (count_list cs c))} \<and> distinct new"
  using assms
proof (induction cs arbitrary: ind ind' new)
  case Nil
  then show ?case by (auto simp: option.map_ident)
next
  case (Cons c cs)
  from Cons.prems(2) obtain n where n: "map_of ind c = Some n" "1 + int (count_list cs c) \<le> n" by auto
  let ?ind = "AList.update c (n - 1) ind"
  obtain new1 where r: "release_children cs ?ind = (ind', new1)" and new: "new = (if n - 1 = 0 then c # new1 else new1)"
    using Cons.prems(1) n by (auto simp: Let_def split: prod.split_asm)
  have "\<forall>b \<in> set cs. \<exists>m. map_of ?ind b = Some m \<and> int (count_list cs b) \<le> m"
    using Cons.prems(2) n by (force simp: update_conv')
  from Cons.IH [OF r this] have IH:
    "\<forall>b. map_of ind' b = map_option (\<lambda>n. n - int (count_list cs b)) (map_of ?ind b)"
    "set new1 = {b \<in> set cs. map_of ?ind b = Some (int (count_list cs b))}" "distinct new1" by blast+
  have zero: "n - 1 = 0 \<Longrightarrow> count_list cs c = 0" using n(2) by simp
  then have "n - 1 = 0 \<Longrightarrow> c \<notin> set cs" by (auto simp: count_list_0_iff)
  then have fresh: "n - 1 = 0 \<Longrightarrow> c \<notin> set new1" using IH(2) by blast
  show ?case
  proof (intro conjI allI)
    show "map_of ind' b = map_option (\<lambda>n. n - int (count_list (c # cs) b)) (map_of ind b)" for b
      using IH(1) n(1) by (cases "b = c") (simp_all add: update_conv')
    have "b \<in> set new \<longleftrightarrow> b \<in> set (c # cs) \<and> map_of ind b = Some (int (count_list (c # cs) b))" for b
    proof (cases "b = c")
      case True
      with n IH(2) zero show ?thesis unfolding new
        by (cases "c \<in> set cs") (auto simp: update_conv' count_list_0_iff)
    next
      case False
      with IH(2) show ?thesis unfolding new by (simp add: update_conv')
    qed
    then show "set new = {b \<in> set (c # cs). map_of ind b = Some (int (count_list (c # cs) b))}" by blast
    show "distinct new" using IH(3) fresh unfolding new by simp
  qed
qed

text \<open>The loop invariant.\<close>

definition deps_of :: "node list \<Rightarrow> pystr \<Rightarrow> pystr list" where
  "deps_of nodes k = (case map_of nodes k of Some ds \<Rightarrow> planned_deps nodes ds | None \<Rightarrow> [])"

definition deps_first :: "node list \<Rightarrow> pystr list \<Rightarrow> bool" where
  "deps_first nodes order \<longleftrightarrow> (\<forall>xs k ys. order = xs @ k # ys \<longrightarrow> set (deps_of nodes k) \<subseteq> set xs)"

lemma deps_first_snoc:
  assumes "deps_first nodes order" "set (deps_of nodes k) \<subseteq> set order"
  shows "deps_first nodes (order @ [k])"
  unfolding deps_first_def
proof (intro allI impI)
  fix xs j ys assume eq: "order @ [k] = xs @ j # ys"
  show "set (deps_of nodes j) \<subseteq> set xs"
  proof (cases ys rule: rev_cases)
    case Nil
    with eq assms(2) show ?thesis by simp
  next
    case (snoc zs z)
    with eq have "order = xs @ j # zs" by simp
    with assms(1) show ?thesis by (auto simp: deps_first_def)
  qed
qed

definition left_of :: "node list \<Rightarrow> pystr list \<Rightarrow> pystr \<Rightarrow> nat" where
  "left_of nodes order k = length (filter (\<lambda>d. d \<notin> set order) (deps_of nodes k))"

definition kahn_inv :: "node list \<Rightarrow> (pystr, int) dict \<Rightarrow> pystr list \<Rightarrow> pystr list \<Rightarrow> bool" where
  "kahn_inv nodes ind ready order \<longleftrightarrow>
     (\<forall>k \<in> set (node_ids nodes). map_of ind k = Some (int (left_of nodes order k))) \<and>
     distinct (order @ ready) \<and>
     set (order @ ready) = {k \<in> set (node_ids nodes). left_of nodes order k = 0} \<and> deps_first nodes order"

lemma left_snoc:
  assumes "k \<notin> set order"
  shows "left_of nodes (order @ [k]) c + count_list (deps_of nodes c) k = left_of nodes order c"
proof -
  have "length (filter (\<lambda>d. d \<notin> set order \<and> d \<noteq> k) ds) + count_list ds k = length (filter (\<lambda>d. d \<notin> set order) ds)" for ds
    using assms by (induction ds) auto
  from this [of "deps_of nodes c"] show ?thesis by (simp add: left_of_def conj_commute)
qed

lemma kahn_inv_step:
  assumes d: "distinct (node_ids nodes)" and inv: "kahn_inv nodes ind (k # ready) order"
    and r: "release_children (sort (outgoing nodes k)) ind = (ind', new)"
  shows "kahn_inv nodes ind' (ready @ new) (order @ [k])"
proof -
  let ?K = "set (node_ids nodes)"
  have ind: "map_of ind c = Some (int (left_of nodes order c))" if "c \<in> ?K" for c
    using inv that by (auto simp: kahn_inv_def)
  have dist: "distinct (order @ k # ready)" and all: "set (order @ k # ready) = {c \<in> ?K. left_of nodes order c = 0}"
    and first: "deps_first nodes order" using inv by (auto simp: kahn_inv_def)
  have k: "k \<in> ?K" "left_of nodes order k = 0" "k \<notin> set order" using dist all by auto
  have cnt: "count_list (sort (outgoing nodes k)) c = count_list (deps_of nodes c) k" if "c \<in> ?K" for c
  proof -
    from that obtain ds where ds: "(c, ds) \<in> set nodes" by (auto simp: node_ids_def)
    have "count_list (planned_deps nodes ds) k = count_list ds k"
      using k(1) by (induction ds) (auto simp: planned_deps_def)
    moreover have "map_of nodes c = Some ds" using ds d by (simp add: node_ids_def)
    moreover have "count_list (sort xs) x = count_list xs x" for xs and x :: pystr
      by (metis count_mset mset_sort)
    ultimately show ?thesis using count_outgoing [OF d ds] by (simp add: deps_of_def)
  qed
  have left: "left_of nodes (order @ [k]) c + count_list (deps_of nodes c) k = left_of nodes order c" for c
    by (rule left_snoc [OF k(3)])
  have sub: "set (sort (outgoing nodes k)) \<subseteq> ?K" using set_outgoing [of nodes k] by simp
  have "\<forall>c \<in> set (sort (outgoing nodes k)). \<exists>n. map_of ind c = Some n \<and> int (count_list (sort (outgoing nodes k)) c) \<le> n"
    using sub ind cnt left by (metis le_add2 of_nat_mono subsetD)
  from release_children_spec [OF r this] have rel:
    "\<forall>c. map_of ind' c = map_option (\<lambda>n. n - int (count_list (sort (outgoing nodes k)) c)) (map_of ind c)"
    "set new = {c \<in> set (sort (outgoing nodes k)). map_of ind c = Some (int (count_list (sort (outgoing nodes k)) c))}"
    "distinct new" by blast+
  have ind': "\<forall>c \<in> ?K. map_of ind' c = Some (int (left_of nodes (order @ [k]) c))"
  proof
    fix c assume c: "c \<in> ?K"
    have "int (left_of nodes order c) = int (left_of nodes (order @ [k]) c) + int (count_list (deps_of nodes c) k)"
      using left [of c] by (simp flip: of_nat_add)
    with rel(1) ind [OF c] cnt [OF c] show "map_of ind' c = Some (int (left_of nodes (order @ [k]) c))" by simp
  qed
  have new: "set new = {c \<in> ?K. left_of nodes (order @ [k]) c = 0 \<and> left_of nodes order c \<noteq> 0}"
  proof (intro equalityI subsetI)
    fix c assume "c \<in> set new"
    with rel(2) have c: "c \<in> set (sort (outgoing nodes k))" "map_of ind c = Some (int (count_list (sort (outgoing nodes k)) c))"
      by auto
    then have cK: "c \<in> ?K" using sub by auto
    have "count_list (sort (outgoing nodes k)) c \<noteq> 0" using c(1) by (simp only: count_list_0_iff not_not)
    with c(2) ind [OF cK] cnt [OF cK] left [of c] cK
    show "c \<in> {c \<in> ?K. left_of nodes (order @ [k]) c = 0 \<and> left_of nodes order c \<noteq> 0}" by simp
  next
    fix c assume "c \<in> {c \<in> ?K. left_of nodes (order @ [k]) c = 0 \<and> left_of nodes order c \<noteq> 0}"
    then have cK: "c \<in> ?K" and z: "left_of nodes (order @ [k]) c = 0" "left_of nodes order c \<noteq> 0" by auto
    with left [of c] cnt [OF cK] have "count_list (sort (outgoing nodes k)) c = left_of nodes order c" by simp
    moreover with z have "c \<in> set (sort (outgoing nodes k))" by (metis count_list_0_iff)
    ultimately show "c \<in> set new" using rel(2) ind [OF cK] by simp
  qed
  have mono: "left_of nodes order c = 0 \<Longrightarrow> left_of nodes (order @ [k]) c = 0" for c using left [of c] by simp
  have "set (deps_of nodes k) \<subseteq> set order" using k(2) by (auto simp: left_of_def filter_empty_conv)
  with first have "deps_first nodes (order @ [k])" by (rule deps_first_snoc)
  moreover have "distinct ((order @ [k]) @ ready @ new)" using dist rel(3) new all by auto
  moreover have "set ((order @ [k]) @ ready @ new) = {c \<in> ?K. left_of nodes (order @ [k]) c = 0}"
    using all new mono by auto
  ultimately show ?thesis using ind' unfolding kahn_inv_def by blast
qed

lemma kahn_result:
  assumes "distinct (node_ids nodes)" "kahn_inv nodes ind ready order"
  shows "\<exists>ind'. kahn_inv nodes ind' [] (kahn (outgoing nodes) ind ready order)"
  using assms(2)
proof (induction "outgoing nodes" ind ready order rule: kahn.induct)
  case (2 ind k ready order)
  obtain ind' new where r: "release_children (sort (outgoing nodes k)) ind = (ind', new)" by force
  from 2(1) [OF r [symmetric] refl kahn_inv_step [OF assms(1) 2(2) r]] r show ?case by simp
qed auto

lemma initial_inv:
  assumes "distinct (node_ids nodes)"
  shows "kahn_inv nodes (indegrees nodes) (initial_ready nodes) []"
proof -
  have keys: "map fst (indegrees nodes) = node_ids nodes" by (simp add: indegrees_def node_ids_def case_prod_beta comp_def)
  have ind: "map_of (indegrees nodes) k = Some (int (left_of nodes [] k))" if "k \<in> set (node_ids nodes)" for k
  proof -
    from that obtain ds where "(k, ds) \<in> set nodes" by (auto simp: node_ids_def)
    moreover from this have "map_of nodes k = Some ds" using assms by (simp add: node_ids_def)
    moreover from calculation have "(k, int (length (planned_deps nodes ds))) \<in> set (indegrees nodes)"
      by (auto simp: indegrees_def)
    ultimately show ?thesis using assms keys by (simp add: left_of_def deps_of_def)
  qed
  have dk: "distinct (map fst (indegrees nodes))" using assms by (simp only: keys)
  have "k \<in> set (initial_ready nodes) \<longleftrightarrow> k \<in> set (node_ids nodes) \<and> left_of nodes [] k = 0" for k
  proof
    assume "k \<in> set (initial_ready nodes)"
    then have z: "(k, 0) \<in> set (indegrees nodes)" by (auto simp: initial_ready_def)
    then have "k \<in> set (node_ids nodes)" unfolding keys [symmetric] by force
    moreover have "map_of (indegrees nodes) k = Some 0" by (rule map_of_is_SomeI [OF dk z])
    ultimately show "k \<in> set (node_ids nodes) \<and> left_of nodes [] k = 0" using ind [of k] by simp
  next
    assume k: "k \<in> set (node_ids nodes) \<and> left_of nodes [] k = 0"
    with ind [of k] have "map_of (indegrees nodes) k = Some 0" by simp
    then have "(k, 0) \<in> set (indegrees nodes)" by (rule map_of_SomeD)
    then show "k \<in> set (initial_ready nodes)" by (force simp: initial_ready_def)
  qed
  then have "set (initial_ready nodes) = {k \<in> set (node_ids nodes). left_of nodes [] k = 0}" by blast
  moreover have "distinct (initial_ready nodes)" using dk by (simp add: initial_ready_def distinct_map_filter)
  ultimately show ?thesis using ind by (simp add: kahn_inv_def deps_first_def)
qed

text \<open>A result holds every node once, each after what it depends on.\<close>

lemma topological_order_sound:
  assumes "distinct (node_ids nodes)" "topological_order nodes = Some order"
  shows "distinct order \<and> set order = set (node_ids nodes) \<and> deps_first nodes order"
proof -
  let ?o = "kahn (outgoing nodes) (indegrees nodes) (initial_ready nodes) []"
  from kahn_result [OF assms(1) initial_inv [OF assms(1)]] obtain ind' where inv: "kahn_inv nodes ind' [] ?o" ..
  have o: "order = ?o" "length ?o = length nodes" using assms(2) by (auto simp: topological_order_def Let_def split: if_split_asm)
  from inv have "distinct ?o" "set ?o \<subseteq> set (node_ids nodes)" "deps_first nodes ?o" by (auto simp: kahn_inv_def)
  moreover have "card (set (node_ids nodes)) = length nodes" using assms(1) distinct_card by (fastforce simp: node_ids_def)
  ultimately show ?thesis using o by (metis List.finite_set card_subset_eq distinct_card)
qed

definition dependency :: "node list \<Rightarrow> (pystr \<times> pystr) set" where
  "dependency nodes = {(d, k). k \<in> set (node_ids nodes) \<and> d \<in> set (deps_of nodes k)}"

lemma deps_planned: "d \<in> set (deps_of nodes k) \<Longrightarrow> d \<in> set (node_ids nodes)"
  by (auto simp: deps_of_def planned_deps_def split: option.split_asm)

text \<open>Without a result the dependencies have a cycle.\<close>

lemma stuck_is_cyclic:
  assumes d: "distinct (node_ids nodes)" and none: "topological_order nodes = None"
  shows "\<not> acyclic (dependency nodes)"
proof
  assume ac: "acyclic (dependency nodes)"
  let ?o = "kahn (outgoing nodes) (indegrees nodes) (initial_ready nodes) []" and ?K = "set (node_ids nodes)"
  from kahn_result [OF d initial_inv [OF d]] obtain ind' where inv: "kahn_inv nodes ind' [] ?o" ..
  have "finite (dependency nodes)"
    by (rule finite_subset [of _ "?K \<times> ?K"]) (auto simp: dependency_def deps_planned)
  then have wf: "wf (dependency nodes)" using ac by (rule finite_acyclic_wf)
  have "set ?o \<noteq> ?K"
  proof
    assume "set ?o = ?K"
    moreover have "distinct ?o" using inv by (simp add: kahn_inv_def)
    ultimately have "length ?o = length nodes" using d distinct_card by (metis length_map node_ids_def)
    with none show False by (simp add: topological_order_def Let_def)
  qed
  moreover have "set ?o \<subseteq> ?K" using inv by (auto simp: kahn_inv_def)
  ultimately obtain j where "j \<in> ?K - set ?o" by blast
  with wf obtain k where k: "k \<in> ?K - set ?o" "\<And>y. (y, k) \<in> dependency nodes \<Longrightarrow> y \<notin> ?K - set ?o"
    by (metis wfE_min)
  have "left_of nodes ?o k = 0"
    unfolding left_of_def using k deps_planned by (fastforce simp: dependency_def filter_empty_conv)
  with k(1) inv show False by (auto simp: kahn_inv_def)
qed

lemma ordered_is_acyclic:
  assumes "distinct order" "set order = set (node_ids nodes)" "deps_first nodes order"
  shows "acyclic (dependency nodes)"
proof -
  define pos where "pos k = length (takeWhile (\<lambda>x. x \<noteq> k) order)" for k
  have "pos d < pos k" if "(d, k) \<in> dependency nodes" for d k
  proof -
    from that assms(2) have "k \<in> set order" by (simp add: dependency_def)
    then obtain xs ys where o: "order = xs @ k # ys" by (meson split_list)
    with assms(3) that have "d \<in> set xs" by (auto simp: deps_first_def dependency_def)
    then obtain as bs where xs: "xs = as @ d # bs" "d \<notin> set as" by (meson split_list_first)
    have "k \<notin> set xs" using assms(1) o by simp
    then have "pos k = length xs" unfolding pos_def o by (subst takeWhile_append2) auto
    moreover have "pos d = length as" using xs unfolding pos_def o by (simp, subst takeWhile_append2) auto
    ultimately show ?thesis using xs by simp
  qed
  then have "dependency nodes \<subseteq> measure pos" by auto
  then show ?thesis by (meson acyclic_subset wf_acyclic wf_measure)
qed

section \<open>Property\<close>

text \<open>C38. Exactly the acyclic plans are ordered: an order lists every step once, each after everything it
  depends on, and it is refused only when the dependencies have a cycle.\<close>

theorem exactly_acyclic_plans_are_ordered:
  assumes "distinct (node_ids nodes)"
  shows "case topological_order nodes of
      None \<Rightarrow> \<not> acyclic (dependency nodes)
    | Some order \<Rightarrow> acyclic (dependency nodes) \<and> distinct order \<and> set order = set (node_ids nodes) \<and>
        deps_first nodes order"
  using stuck_is_cyclic [OF assms] topological_order_sound [OF assms] ordered_is_acyclic [of _ nodes]
  by (auto split: option.split)

theorem exactly_acyclic_plans_are_ordered_witness:
  "acyclic (dependency [(lit ''b'', [lit ''a'']), (lit ''a'', [])])"
proof -
  let ?nodes = "[(lit ''b'', [lit ''a'']), (lit ''a'', [])]"
  have "topological_order ?nodes = Some [lit ''a'', lit ''b'']" by code_simp
  moreover have "distinct (node_ids ?nodes)" by code_simp
  ultimately show ?thesis using exactly_acyclic_plans_are_ordered [of ?nodes] by simp
qed

end
