(* ===== verification/OrchestrationRuntime.thy ===== *)
theory OrchestrationRuntime
  imports OrchestratorPlan RunJournal MissionControl EconomyEngine TopologicalOrder StateError
begin

text \<open>
  Execution of a plan, \<^verbatim>\<open>OrchestrationRuntime\<close> of \<^verbatim>\<open>src/karox/orchestrator.py\<close>, serial and in parallel waves, with the
  budget check of \<^verbatim>\<open>CostGovernor\<close> (\<^verbatim>\<open>src/karox/cost_intelligence.py\<close>). A worker is a function of the request
  it is handed; the clock, fresh identifiers, digests and the worktree pool are arguments. Threads of a wave
  only run their workers, so a wave calls its workers in plan order and applies the outcomes in plan order.
\<close>

section \<open>Workers\<close>

record WorkerExecutionRequest =
  wq_run_id :: pystr
  wq_task_id :: pystr
  wq_step_id :: pystr
  wq_idempotency_key :: pystr
  wq_role :: pystr
  wq_task_class :: pystr
  wq_objective :: pystr
  wq_endpoint :: IntelligenceEndpoint
  wq_context_delta :: ContextDelta
  wq_upstream_messages :: "AgentMessage list"
  wq_max_cost_usd :: real
  wq_effort_level :: pystr
  wq_workspace_path :: "pystr option"

record WorkerExecutionResult =
  wr_ok :: bool
  wr_summary :: pystr
  wr_accepted :: bool
  wr_verified :: bool
  wr_cost_usd :: real
  wr_total_tokens :: int
  wr_prompt_tokens :: int
  wr_completion_tokens :: int
  wr_cache_read_tokens :: int
  wr_cache_write_tokens :: int
  wr_cache_metrics_reported :: bool
  wr_cache_savings_usd :: "real option"
  wr_latency_ms :: real
  wr_changeset_ref :: "pystr option"
  wr_evidence :: "EvidenceReference list"
  wr_findings :: "ReviewFinding list"
  wr_context_updates :: "pyval list"

definition failed_result :: "pystr \<Rightarrow> WorkerExecutionResult" where
  "failed_result summary = \<lparr>wr_ok = False, wr_summary = summary, wr_accepted = False, wr_verified = False,
     wr_cost_usd = 0, wr_total_tokens = 0, wr_prompt_tokens = 0, wr_completion_tokens = 0, wr_cache_read_tokens = 0,
     wr_cache_write_tokens = 0, wr_cache_metrics_reported = False, wr_cache_savings_usd = None, wr_latency_ms = 0,
     wr_changeset_ref = None, wr_evidence = [], wr_findings = [], wr_context_updates = []\<rparr>"

text \<open>A worker raises an exception of some class or returns its result.\<close>

datatype worker_outcome = Raised pystr | Answered WorkerExecutionResult

record executor =
  ex_call :: "WorkerExecutionRequest \<Rightarrow> worker_outcome"
  ex_reuses_context :: bool

definition succeeded :: "WorkerExecutionResult \<Rightarrow> bool" where
  "succeeded r \<longleftrightarrow> wr_ok r \<and> wr_accepted r \<and> wr_verified r"

record CacheUsage =
  cg_prompt_tokens :: int
  cg_cache_read_tokens :: int
  cg_cache_write_tokens :: int
  cg_metrics_reported :: bool
  cg_estimated_savings_usd :: real
  cg_savings_reported :: bool

definition no_cache_usage :: CacheUsage where
  "no_cache_usage = \<lparr>cg_prompt_tokens = 0, cg_cache_read_tokens = 0, cg_cache_write_tokens = 0,
     cg_metrics_reported = False, cg_estimated_savings_usd = 0, cg_savings_reported = False\<rparr>"

definition cache_add :: "WorkerExecutionResult \<Rightarrow> CacheUsage \<Rightarrow> CacheUsage" where
  "cache_add r u =
     (let v = (if wr_cache_metrics_reported r
               then u\<lparr>cg_metrics_reported := True,
                      cg_prompt_tokens := cg_prompt_tokens u + max 0 (wr_prompt_tokens r),
                      cg_cache_read_tokens := cg_cache_read_tokens u + max 0 (wr_cache_read_tokens r),
                      cg_cache_write_tokens := cg_cache_write_tokens u + max 0 (wr_cache_write_tokens r)\<rparr>
               else u)
      in case wr_cache_savings_usd r of
           None \<Rightarrow> v
         | Some x \<Rightarrow> v\<lparr>cg_savings_reported := True, cg_estimated_savings_usd := cg_estimated_savings_usd v + max 0 x\<rparr>)"

definition hit_rate :: "CacheUsage \<Rightarrow> real option" where
  "hit_rate u = (if \<not> cg_metrics_reported u \<or> cg_prompt_tokens u \<le> 0 then None
     else Some (min 1 (max 0 (of_int (cg_cache_read_tokens u) / of_int (cg_prompt_tokens u)))))"

definition savings_usd :: "CacheUsage \<Rightarrow> real option" where
  "savings_usd u = (if cg_savings_reported u then Some (py_round 12 (cg_estimated_savings_usd u)) else None)"

section \<open>Budgets\<close>

record CostGovernor =
  gv_soft :: real
  gv_hard :: real
  gv_shadow :: bool
  gv_override :: bool
  gv_warnings :: nat

datatype budget_reason = WithinBudget | OverrideActive | ShadowWouldBlock real | HardBudgetExceeded real

record BudgetDecision =
  bd_allowed :: bool
  bd_reason :: budget_reason
  bd_warning :: bool

definition governor_evaluate :: "real \<Rightarrow> CostGovernor \<Rightarrow> BudgetDecision \<times> CostGovernor" where
  "governor_evaluate current g =
     (let warn = (current \<ge> gv_soft g);
          g' = (if warn then g\<lparr>gv_warnings := Suc (gv_warnings g)\<rparr> else g);
          (ok, why) =
            (if current \<ge> gv_hard g
             then if gv_override g then (True, OverrideActive)
                  else if gv_shadow g then (True, ShadowWouldBlock (gv_hard g))
                  else (False, HardBudgetExceeded (gv_hard g))
             else (True, WithinBudget))
      in (\<lparr>bd_allowed = ok, bd_reason = why, bd_warning = warn\<rparr>, g'))"

text \<open>An amount that is not negative, printed with two decimals.\<close>

definition dollars :: "real \<Rightarrow> pystr" where
  "dollars x = (let n = nat (round_even (x * 100))
     in 36 # decimal (n div 100) @ 46 # decimal (n mod 100 div 10) @ decimal (n mod 10))"

definition reason_text :: "budget_reason \<Rightarrow> pystr" where
  "reason_text r = (case r of WithinBudget \<Rightarrow> lit ''within budget''
     | OverrideActive \<Rightarrow> lit ''hard budget exceeded but override is active''
     | ShadowWouldBlock b \<Rightarrow> lit ''shadow: would block at hard budget '' @ dollars b
     | HardBudgetExceeded b \<Rightarrow> lit ''hard budget '' @ dollars b @ lit '' exceeded'')"

section \<open>Results and state\<close>

datatype run_status = Pending | Running | Paused | Stopped | Passed | Failed | Skipped | Blocked

definition status_text :: "run_status \<Rightarrow> pystr" where
  "status_text s = lit (case s of Pending \<Rightarrow> ''pending'' | Running \<Rightarrow> ''running'' | Paused \<Rightarrow> ''paused''
     | Stopped \<Rightarrow> ''stopped'' | Passed \<Rightarrow> ''passed'' | Failed \<Rightarrow> ''failed'' | Skipped \<Rightarrow> ''skipped''
     | Blocked \<Rightarrow> ''blocked'')"

record StepResult =
  sres_step_id :: pystr
  sres_endpoint_id :: pystr
  sres_status :: run_status
  sres_summary :: pystr
  sres_cost_usd :: real
  sres_total_tokens :: int
  sres_latency_ms :: real
  sres_accepted :: bool
  sres_verified :: bool
  sres_findings :: "ReviewFinding list"

datatype run_stop =
    StoppedByUser | StepFailed pystr | BudgetSpent budget_reason | WorkspaceProblem pystr | NothingRunnable
  | ReconcileRequired "pystr list"

record OrchestrationResult =
  ores_plan :: OrchestrationPlan
  ores_status :: run_status
  ores_steps :: "StepResult list"
  ores_total_cost_usd :: real
  ores_total_tokens :: int
  ores_review_satisfied :: bool
  ores_workspaces :: "(pystr, pystr) dict"
  ores_receipt :: "SavingsReceipt option"
  ores_stopped_reason :: "run_stop option"

text \<open>What the outside sees of the workers: the requests handed to them, and the results taken in.\<close>

datatype worker_event = WorkerCalled WorkerExecutionRequest | WorkerReturned pystr bool real

text \<open>The files, the flags of the coordinator, its local variables, and what is still to come from outside:
  \<open>rn_polls\<close> lists what happens to the Mission Control file before the successive polls of it, after
  which nobody touches it any more.\<close>

record run_state =
  rn_bus :: json_file
  rn_handoffs :: json_file
  rn_telemetry :: json_file
  rn_journal :: json_file
  rn_mission :: json_file
  rn_polls :: "(json_file \<Rightarrow> json_file) list"
  rn_ticks :: nat
  rn_known :: "(pystr, (pystr, pystr) dict) dict"
  rn_workspaces :: "(pystr, pystr) dict"
  rn_paused :: bool
  rn_stop :: bool
  rn_governor :: CostGovernor
  rn_results :: "StepResult list"
  rn_statuses :: "(pystr, run_status) dict"
  rn_activities :: "(pystr, pystr) dict"
  rn_cost :: real
  rn_tokens :: int
  rn_reused :: int
  rn_sent :: int
  rn_cache :: CacheUsage
  rn_reason :: "run_stop option"
  rn_pending :: "pystr list"
  rn_log :: "worker_event list"

text \<open>The worktree pool; its answers may depend on the time of the call.\<close>

record worktree_pool =
  wp_for_path :: "nat \<Rightarrow> pystr \<Rightarrow> pystr + pystr"
  wp_compose :: "nat \<Rightarrow> pystr \<Rightarrow> pystr \<Rightarrow> pystr list \<Rightarrow> pystr + pystr"
  wp_ensure :: "nat \<Rightarrow> pystr \<Rightarrow> pystr \<Rightarrow> pystr + pystr"

record runtime_env =
  og_plan :: OrchestrationPlan
  og_executors :: "(pystr, executor) dict"
  og_bus :: bus_env
  og_handoffs :: handoff_env
  og_conv :: pyconv
  og_telemetry_limit :: nat
  og_mission :: mission_env
  og_journal :: journal_env
  og_baseline :: "real option"
  og_initial_cost :: real
  og_initial_tokens :: int
  og_pool :: "worktree_pool option"
  og_isolate :: bool
  og_hash :: "pystr \<Rightarrow> pystr"
  og_clock :: "nat \<Rightarrow> real"
  og_fresh :: "nat \<Rightarrow> pystr"
  og_elapsed :: "WorkerExecutionRequest \<Rightarrow> real"

datatype run_error =
    RunValue | RunJournal journal_error | RunBus bus_error | RunHandoff load_error | RunMessage
  | RunTelemetry telemetry_error | RunMission mission_error | DependencyCycle | NoExecutor pystr
  | WorkerRaised pystr | PausedForever | OutOfFuel

type_synonym 'a run = "run_state \<Rightarrow> (run_error + 'a) \<times> run_state"

abbreviation step_of :: "PlannedStep \<Rightarrow> pystr" where
  "step_of item \<equiv> rp_step_id (pl_step item)"

abbreviation endpoint_of :: "PlannedStep \<Rightarrow> pystr" where
  "endpoint_of item \<equiv> ie_endpoint_id (pl_endpoint item)"

definition tick_time :: "runtime_env \<Rightarrow> real run" where
  "tick_time env s = (Inr (og_clock env (rn_ticks s)), s\<lparr>rn_ticks := Suc (rn_ticks s)\<rparr>)"

definition on_bus :: "(json_file \<Rightarrow> (bus_error + 'a) \<times> json_file) \<Rightarrow> 'a run" where
  "on_bus = zoomS RunBus rn_bus (\<lambda>f s. s\<lparr>rn_bus := f\<rparr>)"

definition on_handoffs :: "(json_file \<Rightarrow> (load_error + 'a) \<times> json_file) \<Rightarrow> 'a run" where
  "on_handoffs = zoomS RunHandoff rn_handoffs (\<lambda>f s. s\<lparr>rn_handoffs := f\<rparr>)"

definition on_telemetry :: "(json_file \<Rightarrow> (telemetry_error + 'a) \<times> json_file) \<Rightarrow> 'a run" where
  "on_telemetry = zoomS RunTelemetry rn_telemetry (\<lambda>f s. s\<lparr>rn_telemetry := f\<rparr>)"

definition on_journal :: "(json_file \<Rightarrow> (journal_error + 'a) \<times> json_file) \<Rightarrow> 'a run" where
  "on_journal = zoomS RunJournal rn_journal (\<lambda>f s. s\<lparr>rn_journal := f\<rparr>)"

definition on_mission :: "(json_file \<Rightarrow> (mission_error + 'a) \<times> json_file) \<Rightarrow> 'a run" where
  "on_mission = zoomS RunMission rn_mission (\<lambda>f s. s\<lparr>rn_mission := f\<rparr>)"

section \<open>Start\<close>

definition journal_requests :: "OrchestrationPlan \<Rightarrow> (pystr \<times> pystr \<times> (pystr, pyval) dict) list" where
  "journal_requests plan =
     fold (\<lambda>item. AList.update (step_of item) (endpoint_of item,
         [(lit ''task_id'', PStr (pn_task_id plan)), (lit ''objective'', PStr (pn_objective plan)),
          (lit ''recipe'', PStr (pn_recipe_name plan)), (lit ''step'', PMap (step_to_dict (pl_step item))),
          (lit ''endpoint_id'', PStr (endpoint_of item)), (lit ''effort_level'', PStr (pl_effort_level item))]))
       (pn_steps plan) []"

definition fresh_state :: "runtime_env \<Rightarrow> (json_file \<Rightarrow> json_file) list \<Rightarrow> run_state \<Rightarrow> run_state" where
  "fresh_state env polls files = files\<lparr>rn_polls := polls, rn_ticks := 0, rn_known := [], rn_workspaces := [],
     rn_paused := False, rn_stop := False,
     rn_governor := \<lparr>gv_soft = op_soft_budget_usd (pn_policy (og_plan env)),
       gv_hard = op_hard_budget_usd (pn_policy (og_plan env)), gv_shadow = False, gv_override = False, gv_warnings = 0\<rparr>,
     rn_results := [], rn_statuses := [], rn_activities := [], rn_cost := og_initial_cost env,
     rn_tokens := og_initial_tokens env, rn_reused := 0, rn_sent := 0, rn_cache := no_cache_usage, rn_reason := None,
     rn_pending := [], rn_log := []\<rparr>"

text \<open>The constructor: the arguments are checked and the journal is initialised.\<close>

definition construct :: "runtime_env \<Rightarrow> unit run" where
  "construct env =
     (if \<not> opt_all (\<lambda>b. 0 \<le> b) (og_baseline env) \<or> og_initial_cost env < 0 \<or> og_initial_tokens env < 0 \<or>
         og_isolate env \<and> og_pool env = None
      then raiseS RunValue
      else on_journal (journal_initialize (og_journal env) (journal_requests (og_plan env))))"

section \<open>Context\<close>

definition context_delta_for :: "runtime_env \<Rightarrow> PlannedStep \<Rightarrow> executor \<Rightarrow> ContextDelta run" where
  "context_delta_for env item ex s =
     (let known = (if ex_reuses_context ex
                   then (case map_of (rn_known s) (endpoint_of item) of Some k \<Rightarrow> k | None \<Rightarrow> []) else [])
      in pureS RunBus (delta (og_bus env) (rp_role (pl_step item)) known
           (op_context_budget_chars (pn_policy (og_plan env))) [] [] (rn_bus s)) s)"

definition remember_delivered :: "PlannedStep \<Rightarrow> executor \<Rightarrow> ContextDelta \<Rightarrow> run_state \<Rightarrow> run_state" where
  "remember_delivered item ex dl s =
     (if \<not> ex_reuses_context ex then s
      else let known = (case map_of (rn_known s) (endpoint_of item) of Some k \<Rightarrow> k | None \<Rightarrow> [])
           in s\<lparr>rn_known := AList.update (endpoint_of item) (remember dl known) (rn_known s)\<rparr>)"

definition upstream_messages :: "runtime_env \<Rightarrow> PlannedStep \<Rightarrow> AgentMessage list run" where
  "upstream_messages env item s =
     pureS RunHandoff (bindr (handoff_list (og_handoffs env) (Some (pn_task_id (og_plan env))) None (rn_handoffs s)) (\<lambda>ms.
       Inr (filter (\<lambda>m. am_source_role m \<noteq> [] \<and> list_ex (\<lambda>p. step_of p \<in> set (rp_depends_on (pl_step item)) \<and>
         endpoint_of p = am_source_endpoint_id m) (pn_steps (og_plan env))) ms))) s"

definition required_update_keys :: "pystr set" where
  "required_update_keys = lit ` {''item_id'', ''kind'', ''content''}"

text \<open>A context update of a worker: what is no mapping or lacks a required key is skipped.\<close>

definition apply_update :: "runtime_env \<Rightarrow> pyval \<Rightarrow> unit run" where
  "apply_update env v =
     (case v of
        PMap d \<Rightarrow>
          (case (map_of d (lit ''item_id''), map_of d (lit ''kind''), map_of d (lit ''content'')) of
             (Some i, Some k, Some c) \<Rightarrow>
               (case (as_strings (pget d ''tags''), to_int (og_conv env) (pget_or d ''priority'' (PInt 50)),
                      as_opt_str (pget d ''source_ref'')) of
                  (Some tags, Some pr, Some ref) \<Rightarrow>
                    bindS (tick_time env) (\<lambda>now.
                    bindS (on_bus (put_text (og_bus env) now (to_str (og_conv env) i) (to_str (og_conv env) k)
                      (to_str (og_conv env) c) tags pr (truthy (pget_or d ''stable'' (PBool False))) ref)) (\<lambda>_. retS ()))
                | _ \<Rightarrow> raiseS (RunBus BusValue))
           | _ \<Rightarrow> retS ())
      | _ \<Rightarrow> retS ())"

section \<open>Messages\<close>

definition send ::
  "runtime_env \<Rightarrow> string \<Rightarrow> pystr \<Rightarrow> pystr \<Rightarrow> pystr \<Rightarrow> pystr \<Rightarrow> pystr \<Rightarrow> pystr option \<Rightarrow> EvidenceReference list \<Rightarrow>
     ReviewFinding list \<Rightarrow> unit run" where
  "send env mtype source target source_role target_role summary changeset evidence finds s =
     bindS (tick_time env) (\<lambda>now s1.
       case create_message (ho_ud (og_handoffs env))
         \<lparr>am_message_id = og_fresh env (rn_ticks s1), am_message_type = lit mtype, am_task_id = pn_task_id (og_plan env),
          am_source_endpoint_id = source, am_target_endpoint_id = Some target, am_source_role = source_role,
          am_target_role = Some target_role, am_summary = summary, am_baseline_ref = None,
          am_changeset_ref = changeset, am_evidence = evidence, am_questions = [], am_findings = finds,
          am_created_at = now\<rparr> of
         None \<Rightarrow> (Inl RunMessage, s1)
       | Some m \<Rightarrow> bindS (on_handoffs (handoff_append (og_handoffs env) m)) (\<lambda>_. retS ()) s1) s"

definition send_request :: "runtime_env \<Rightarrow> PlannedStep \<Rightarrow> unit run" where
  "send_request env item =
     send env ''request'' (ie_endpoint_id (pn_orchestrator (og_plan env))) (endpoint_of item)
       (lit ''orchestrator'') (rp_role (pl_step item))
       (bounded_summary (ho_ud (og_handoffs env)) SUMMARY_LIMIT
         (lit ''Execute '' @ step_of item @ lit '': '' @ pn_objective (og_plan env))) None [] []"

definition result_message_type :: "PlannedStep \<Rightarrow> bool \<Rightarrow> ReviewFinding list \<Rightarrow> string" where
  "result_message_type item success finds =
     (let reviewer = (rp_role (pl_step item) \<in> {lit ''reviewer'', lit ''security''});
          mtype = (if reviewer \<and> rp_independent_from (pl_step item) \<noteq> []
                   then (if success \<and> finds = [] then ''review_pass'' else ''review_fail'') else ''result'')
      in if \<not> success \<and> reviewer then ''review_fail'' else mtype)"

definition send_result :: "runtime_env \<Rightarrow> PlannedStep \<Rightarrow> WorkerExecutionResult \<Rightarrow> unit run" where
  "send_result env item r =
     send env (result_message_type item (succeeded r) (wr_findings r)) (endpoint_of item)
       (ie_endpoint_id (pn_orchestrator (og_plan env))) (rp_role (pl_step item)) (lit ''orchestrator'')
       (bounded_summary (ho_ud (og_handoffs env)) SUMMARY_LIMIT (wr_summary r)) (wr_changeset_ref r)
       (wr_evidence r) (wr_findings r)"

definition send_escalation :: "runtime_env \<Rightarrow> PlannedStep \<Rightarrow> WorkerExecutionResult \<Rightarrow> unit run" where
  "send_escalation env item r =
     send env ''escalate'' (endpoint_of item) (ie_endpoint_id (pn_orchestrator (og_plan env)))
       (rp_role (pl_step item)) (lit ''orchestrator'') (lit ''step failed: '' @ step_of item) None [] (wr_findings r)"

section \<open>Mission Control\<close>

definition publish_mission ::
  "runtime_env \<Rightarrow> (pystr, pystr) dict \<Rightarrow> (pystr, pystr) dict \<Rightarrow> real \<Rightarrow> int \<Rightarrow> int \<Rightarrow> real option \<Rightarrow> run_status \<Rightarrow>
     unit run" where
  "publish_mission env statuses activities cost tokens reused hits status =
     bindS (tick_time env) (\<lambda>now.
     bindS (on_mission (update_snapshot (og_mission env)
       \<lparr>ms_run_id = pn_run_id (og_plan env), ms_task_id = pn_task_id (og_plan env),
        ms_objective = pn_objective (og_plan env), ms_recipe = pn_recipe_name (og_plan env),
        ms_orchestrator_endpoint_id = ie_endpoint_id (pn_orchestrator (og_plan env)), ms_status = status_text status,
        ms_agents = map (\<lambda>item. \<lparr>as_step_id = step_of item, as_role = rp_role (pl_step item),
            as_endpoint_id = endpoint_of item,
            as_status = (case map_of statuses (step_of item) of Some t \<Rightarrow> t | None \<Rightarrow> status_text Pending),
            as_activity = (case map_of activities (step_of item) of Some t \<Rightarrow> t | None \<Rightarrow> []), as_started_at = PNone,
            as_updated_at = now, as_cost_usd = 0, as_total_tokens = 0, as_evidence_count = 0\<rparr>) (pn_steps (og_plan env)),
        ms_actual_cost_usd = py_round 12 cost, ms_total_tokens = tokens, ms_context_reused_chars = reused,
        ms_cache_hit_rate = pv_opt_float hits, ms_latest_screenshot = PNone, ms_updated_at = now\<rparr>)) (\<lambda>_. retS ()))"

definition publish_run :: "runtime_env \<Rightarrow> bool \<Rightarrow> run_status \<Rightarrow> unit run" where
  "publish_run env with_hits status s =
     publish_mission env (map (\<lambda>(k, v). (k, status_text v)) (rn_statuses s)) (rn_activities s) (rn_cost s) (rn_tokens s)
       (rn_reused s) (if with_hits then hit_rate (rn_cache s) else None) status s"

definition apply_command :: "runtime_env \<Rightarrow> MobileCommand \<Rightarrow> unit run" where
  "apply_command env c =
     bindS
       (if mc_command_type c = lit ''pause'' then putS (\<lambda>s. s\<lparr>rn_paused := True\<rparr>)
        else if mc_command_type c = lit ''resume'' then putS (\<lambda>s. s\<lparr>rn_paused := False\<rparr>)
        else if mc_command_type c = lit ''stop'' then putS (\<lambda>s. s\<lparr>rn_stop := True, rn_paused := False\<rparr>)
        else if mc_command_type c = lit ''steer'' then
          bindS (tick_time env) (\<lambda>now. bindS (on_bus (put_text (og_bus env) now (lit ''mobile-'' @ mc_command_id c)
            (lit ''task'') (mc_text c) [lit ''mobile'', lit ''steer''] 100 False (Some (lit ''mission-control''))))
            (\<lambda>_. retS ()))
        else if mc_command_type c = lit ''approve_request'' then
          bindS (tick_time env) (\<lambda>now. bindS (on_bus (put_text (og_bus env) now (lit ''mobile-'' @ mc_command_id c)
            (lit ''decision'') (lit (''The paired mobile user requested approval review. '' @
              ''This is not an approval token; use the normal KaroX Smart Stop flow.''))
            [lit ''mobile'', lit ''approval-request''] 100 False (Some (lit ''mission-control'')))) (\<lambda>_. retS ()))
        else retS ())
     (\<lambda>_. bindS (tick_time env) (\<lambda>now. bindS (on_mission (consume (og_mission env) now (mc_command_id c))) (\<lambda>_. retS ())))"

definition consume_once :: "runtime_env \<Rightarrow> unit run" where
  "consume_once env s =
     bindS (pureS RunMission (pending_commands (og_mission env) (rn_mission s))) (forS (apply_command env)) s"

text \<open>The outside acts on the Mission Control file, then the coordinator polls it.\<close>

definition outside_acts :: "run_state \<Rightarrow> run_state" where
  "outside_acts s = (case rn_polls s of [] \<Rightarrow> s | g # gs \<Rightarrow> s\<lparr>rn_mission := g (rn_mission s), rn_polls := gs\<rparr>)"

definition poll :: "runtime_env \<Rightarrow> unit run" where
  "poll env s = consume_once env (outside_acts s)"

text \<open>Waiting while paused. When nothing more will come from outside, the wait has no end.\<close>

fun await_resume :: "runtime_env \<Rightarrow> nat \<Rightarrow> unit run" where
  "await_resume env n s =
     (if rn_paused s \<and> \<not> rn_stop s
      then (case n of 0 \<Rightarrow> (Inl PausedForever, s) | Suc m \<Rightarrow> bindS (poll env) (\<lambda>_. await_resume env m) s)
      else (Inr (), s))"

definition set_mission_status :: "runtime_env \<Rightarrow> run_status \<Rightarrow> unit run" where
  "set_mission_status env status s =
     bindS (pureS RunMission (mission_snapshot (og_mission env) (rn_mission s))) (\<lambda>snap.
       case snap of
         None \<Rightarrow> retS ()
       | Some m \<Rightarrow> bindS (tick_time env) (\<lambda>now. bindS (on_mission (update_snapshot (og_mission env)
             (m\<lparr>ms_status := status_text status, ms_updated_at := now\<rparr>))) (\<lambda>_. retS ()))) s"

text \<open>Control commands between worker executions; the result says whether the user stopped the run.\<close>

definition consume_mobile :: "runtime_env \<Rightarrow> bool run" where
  "consume_mobile env =
     bindS (poll env) (\<lambda>_ s.
       if rn_stop s then (Inr True, s)
       else if \<not> rn_paused s then (Inr False, s)
       else bindS (set_mission_status env Paused) (\<lambda>_.
            bindS (\<lambda>s. await_resume env (length (rn_polls s)) s) (\<lambda>_ s'.
              if rn_stop s' then (Inr True, s')
              else bindS (set_mission_status env Running) (\<lambda>_. retS False) s')) s)"

section \<open>Workspaces\<close>

text \<open>A preparation that fails is an \<^verbatim>\<open>OrchestrationError\<close> with its text.\<close>

definition workspace_for :: "runtime_env \<Rightarrow> PlannedStep \<Rightarrow> run_state \<Rightarrow> (pystr + pystr option) \<times> run_state" where
  "workspace_for env item s =
     (case map_of (rn_workspaces s) (step_of item) of
        Some w \<Rightarrow> (Inr (Some w), s)
      | None \<Rightarrow>
          (case og_pool env of
             None \<Rightarrow> (Inr None, s)
           | Some pool \<Rightarrow>
               if \<not> og_isolate env then (Inr None, s)
               else
                 let t = rn_ticks s; s1 = s\<lparr>rn_ticks := Suc t\<rparr>; run = pn_run_id (og_plan env);
                     paths = sort (dedup (map the (filter (\<lambda>x. x \<noteq> None)
                       (map (map_of (rn_workspaces s)) (rp_depends_on (pl_step item))))));
                     keep = (\<lambda>w. (Inr (Some w), s1\<lparr>rn_workspaces := AList.update (step_of item) w (rn_workspaces s)\<rparr>))
                 in case map_result (wp_for_path pool t) paths of
                      Inl e \<Rightarrow> (Inl e, s1)
                    | Inr sources \<Rightarrow>
                        if rp_role (pl_step item) = lit ''implementer''
                        then (case (if sources = [] then wp_ensure pool t run (step_of item)
                                    else wp_compose pool t run (step_of item) sources) of
                                Inl e \<Rightarrow> (Inl e, s1) | Inr w \<Rightarrow> keep w)
                        else (case sources of
                                [] \<Rightarrow> (Inr None, s1)
                              | [w] \<Rightarrow> keep w
                              | _ \<Rightarrow> (case wp_compose pool t run
                                        (lit ''join-'' @ take 16 (og_hash env (join_with [0] (sort sources)))) sources of
                                       Inl e \<Rightarrow> (Inl e, s1) | Inr w \<Rightarrow> keep w))))"

section \<open>One step\<close>

definition set_status :: "pystr \<Rightarrow> run_status \<Rightarrow> run_state \<Rightarrow> run_state" where
  "set_status k st s = s\<lparr>rn_statuses := AList.update k st (rn_statuses s)\<rparr>"

definition set_activity :: "pystr \<Rightarrow> pystr \<Rightarrow> run_state \<Rightarrow> run_state" where
  "set_activity k a s = s\<lparr>rn_activities := AList.update k a (rn_activities s)\<rparr>"

definition blocked_result :: "PlannedStep \<Rightarrow> pystr \<Rightarrow> StepResult" where
  "blocked_result item summary = \<lparr>sres_step_id = step_of item, sres_endpoint_id = endpoint_of item,
     sres_status = Blocked, sres_summary = summary, sres_cost_usd = 0, sres_total_tokens = 0, sres_latency_ms = 0,
     sres_accepted = False, sres_verified = False, sres_findings = []\<rparr>"

definition add_result :: "StepResult \<Rightarrow> run_state \<Rightarrow> run_state" where
  "add_result r s = s\<lparr>rn_results := rn_results s @ [r]\<rparr>"

text \<open>The request message, the journal entry and the bookkeeping before a worker is called.\<close>

definition prepare ::
  "runtime_env \<Rightarrow> real \<Rightarrow> PlannedStep \<times> executor \<times> pystr option \<Rightarrow> (PlannedStep \<times> executor \<times> WorkerExecutionRequest) run" where
  "prepare env budget = (\<lambda>(item, ex, workspace).
     bindS (context_delta_for env item ex) (\<lambda>dl.
     bindS (send_request env item) (\<lambda>_.
     bindS (tick_time env) (\<lambda>now.
     bindS (on_journal (mark_started (og_journal env) now (step_of item))) (\<lambda>row.
     bindS (putS (\<lambda>s. set_activity (step_of item) (lit ''Running '' @ rp_task_class (pl_step item))
         (set_status (step_of item) Running s)
           \<lparr>rn_reused := rn_reused s + cd_reused_chars dl, rn_sent := rn_sent s + cd_sent_chars dl\<rparr>)) (\<lambda>_.
     bindS (upstream_messages env item) (\<lambda>messages.
       retS (item, ex,
         \<lparr>wq_run_id = pn_run_id (og_plan env), wq_task_id = pn_task_id (og_plan env), wq_step_id = step_of item,
          wq_idempotency_key = sj_idempotency_key row, wq_role = rp_role (pl_step item),
          wq_task_class = rp_task_class (pl_step item), wq_objective = pn_objective (og_plan env),
          wq_endpoint = pl_endpoint item, wq_context_delta = dl, wq_upstream_messages = messages,
          wq_max_cost_usd = budget, wq_effort_level = pl_effort_level item, wq_workspace_path = workspace\<rparr>))))))))"

definition latency :: "runtime_env \<Rightarrow> WorkerExecutionRequest \<Rightarrow> WorkerExecutionResult \<Rightarrow> real" where
  "latency env rq r = (if wr_latency_ms r > 0 then wr_latency_ms r else max 0 (og_elapsed env rq))"

text \<open>Taking in a result, up to the entry in the list of results.\<close>

definition take_in ::
  "runtime_env \<Rightarrow> PlannedStep \<times> executor \<times> WorkerExecutionRequest \<Rightarrow> WorkerExecutionResult \<Rightarrow> unit run" where
  "take_in env = (\<lambda>(item, ex, rq) r.
     bindS (putS (\<lambda>s. set_activity (step_of item) (take 500 (wr_summary r))
         (set_status (step_of item) (if succeeded r then Passed else Failed) s)
           \<lparr>rn_cost := rn_cost s + max 0 (wr_cost_usd r), rn_tokens := rn_tokens s + max 0 (wr_total_tokens r),
            rn_cache := cache_add r (rn_cache s), rn_pending := removeAll (step_of item) (rn_pending s),
            rn_log := rn_log s @ [WorkerReturned (step_of item) (succeeded r) (max 0 (wr_cost_usd r))]\<rparr>)) (\<lambda>_.
     bindS (tick_time env) (\<lambda>now.
     bindS (on_journal (mark_finished (og_journal env) now (step_of item) (succeeded r) (wr_summary r))) (\<lambda>_.
     bindS (tick_time env) (\<lambda>now2.
     bindS (on_telemetry (telemetry_observe (og_conv env) (og_telemetry_limit env)
         \<lparr>ro_endpoint_id = endpoint_of item, ro_task_class = rp_task_class (pl_step item), ro_accepted = wr_accepted r,
          ro_verified = wr_verified r, ro_latency_ms = latency env rq r, ro_cost_usd = Some (max 0 (wr_cost_usd r)),
          ro_total_tokens = max 0 (wr_total_tokens r), ro_timestamp = now2\<rparr>)) (\<lambda>_.
     bindS (forS (apply_update env) (wr_context_updates r)) (\<lambda>_.
     bindS (putS (remember_delivered item ex (wq_context_delta rq))) (\<lambda>_.
     bindS (send_result env item r) (\<lambda>_.
       putS (add_result \<lparr>sres_step_id = step_of item, sres_endpoint_id = endpoint_of item,
         sres_status = (if succeeded r then Passed else Failed), sres_summary = wr_summary r,
         sres_cost_usd = max 0 (wr_cost_usd r), sres_total_tokens = max 0 (wr_total_tokens r),
         sres_latency_ms = latency env rq r, sres_accepted = wr_accepted r, sres_verified = wr_verified r,
         sres_findings = wr_findings r\<rparr>))))))))))"

text \<open>A restart: started work that was never reported is put under reconciliation.\<close>

definition recovery_texts :: "RecoverySnapshot \<Rightarrow> (pystr, pystr) dict" where
  "recovery_texts snap = map (\<lambda>r. (sj_step_id r, status_name (sj_status r))) (rs_steps snap)"

definition refuse_recovery :: "runtime_env \<Rightarrow> RecoverySnapshot \<Rightarrow> OrchestrationResult run" where
  "refuse_recovery env snap =
     bindS (\<lambda>s. publish_mission env (recovery_texts snap)
         (map (\<lambda>k. (k, lit ''External work must be reconciled before retry'')) (rs_reconcile_required snap))
         (rn_cost s) (rn_tokens s) 0 None Blocked s) (\<lambda>_ s.
       (Inr \<lparr>ores_plan = og_plan env, ores_status = Failed, ores_steps = [], ores_total_cost_usd = py_round 12 (rn_cost s),
          ores_total_tokens = rn_tokens s, ores_review_satisfied = False, ores_workspaces = rn_workspaces s,
          ores_receipt = None, ores_stopped_reason = Some (ReconcileRequired (rs_reconcile_required snap))\<rparr>, s))"

section \<open>The result\<close>

definition review_steps :: "OrchestrationPlan \<Rightarrow> PlannedStep list" where
  "review_steps plan = filter (\<lambda>p. rp_independent_from (pl_step p) \<noteq> [] \<and>
     rp_role (pl_step p) \<in> {lit ''reviewer'', lit ''security''}) (pn_steps plan)"

definition review_satisfied :: "OrchestrationPlan \<Rightarrow> run_state \<Rightarrow> bool" where
  "review_satisfied plan s = list_all (\<lambda>p. map_of (rn_statuses s) (step_of p) = Some Passed) (review_steps plan)"

definition run_completed :: "OrchestrationPlan \<Rightarrow> run_state \<Rightarrow> bool" where
  "run_completed plan s \<longleftrightarrow> length (rn_statuses s) = length (pn_steps plan) \<and>
     list_all (\<lambda>(k, st). st \<in> {Passed, Skipped}) (rn_statuses s)"

definition final_status :: "OrchestrationPlan \<Rightarrow> run_state \<Rightarrow> run_status" where
  "final_status plan s =
     (if rn_reason s = Some StoppedByUser then Stopped
      else if run_completed plan s \<and> (review_satisfied plan s \<or> \<not> op_require_independent_review (pn_policy plan))
      then Passed else Failed)"

definition savings_receipt :: "runtime_env \<Rightarrow> run_state \<Rightarrow> SavingsReceipt option" where
  "savings_receipt env s =
     build_savings_receipt
       \<lparr>us_requests = int (length (rn_results s)), us_prompt_tokens = max 0 (cg_prompt_tokens (rn_cache s)),
        us_total_tokens = max 0 (rn_tokens s), us_cache_read_tokens = max 0 (cg_cache_read_tokens (rn_cache s)),
        us_cache_write_tokens = max 0 (cg_cache_write_tokens (rn_cache s)), us_costs = [(lit ''USD'', max 0 (rn_cost s))],
        us_cache_savings = (case savings_usd (rn_cache s) of None \<Rightarrow> [] | Some x \<Rightarrow> [(lit ''USD'', x)])\<rparr>
       (no_counters\<lparr>ec_context_chars_reused := max 0 (rn_reused s), ec_context_chars_sent := max 0 (rn_sent s)\<rparr>)
       (og_baseline env) (lit ''USD'') ESTIMATED ESTIMATED (run_completed (og_plan env) s)
       (final_status (og_plan env) s = Passed)
       (map (\<lambda>r. sres_step_id r @ 58 # status_text (sres_status r)) (rn_results s))"

definition finish_run :: "runtime_env \<Rightarrow> OrchestrationResult run" where
  "finish_run env =
     bindS (\<lambda>s. publish_run env True (final_status (og_plan env) s) s) (\<lambda>_ s.
       case savings_receipt env s of
         None \<Rightarrow> (Inl RunValue, s)
       | Some receipt \<Rightarrow>
           (Inr \<lparr>ores_plan = og_plan env, ores_status = final_status (og_plan env) s, ores_steps = rn_results s,
              ores_total_cost_usd = py_round 12 (rn_cost s), ores_total_tokens = rn_tokens s,
              ores_review_satisfied = review_satisfied (og_plan env) s, ores_workspaces = rn_workspaces s,
              ores_receipt = Some receipt, ores_stopped_reason = rn_reason s\<rparr>, s))"

section \<open>The dependency order\<close>

definition planned_table :: "OrchestrationPlan \<Rightarrow> (pystr, PlannedStep) dict" where
  "planned_table plan = dict_of step_of (pn_steps plan)"

definition plan_nodes :: "OrchestrationPlan \<Rightarrow> node list" where
  "plan_nodes plan = map (\<lambda>(k, p). (k, rp_depends_on (pl_step p))) (planned_table plan)"

definition plan_order :: "OrchestrationPlan \<Rightarrow> PlannedStep list option" where
  "plan_order plan =
     map_option (map (\<lambda>k. the (map_of (planned_table plan) k))) (topological_order (plan_nodes plan))"

section \<open>Serial execution\<close>

text \<open>The budget check of the run's governor.\<close>

definition check_budget :: "BudgetDecision run" where
  "check_budget s = (let (d, g) = governor_evaluate (rn_cost s) (rn_governor s) in (Inr d, s\<lparr>rn_governor := g\<rparr>))"

definition call_worker :: "WorkerExecutionRequest \<Rightarrow> executor \<Rightarrow> worker_outcome run" where
  "call_worker rq ex s = (Inr (ex_call ex rq), s\<lparr>rn_log := rn_log s @ [WorkerCalled rq]\<rparr>)"

definition stop_run :: "run_stop \<Rightarrow> bool run" where
  "stop_run why s = (Inr False, s\<lparr>rn_reason := Some why\<rparr>)"

text \<open>Executing a step whose budget was granted; the result says whether the run goes on.\<close>

definition execute_serial :: "runtime_env \<Rightarrow> PlannedStep \<Rightarrow> pystr option \<Rightarrow> bool run" where
  "execute_serial env item workspace s =
     (case map_of (og_executors env) (endpoint_of item) of
        None \<Rightarrow> (Inl (NoExecutor (endpoint_of item)), s)
      | Some ex \<Rightarrow>
          bindS (prepare env (max 0 (op_hard_budget_usd (pn_policy (og_plan env)) - rn_cost s)) (item, ex, workspace))
            (\<lambda>(it, x, rq).
          bindS (publish_run env False Running) (\<lambda>_.
          bindS (call_worker rq ex) (\<lambda>out.
            case out of
              Raised c \<Rightarrow> raiseS (WorkerRaised c)
            | Answered r \<Rightarrow>
                bindS (take_in env (item, ex, rq) r) (\<lambda>_.
                bindS (publish_run env True Running) (\<lambda>_.
                  if succeeded r then retS True
                  else bindS (putS (\<lambda>s. s\<lparr>rn_reason := Some (StepFailed (step_of item))\<rparr>)) (\<lambda>_.
                       bindS (send_escalation env item r) (\<lambda>_. retS False))))))) s)"

definition serial_step :: "runtime_env \<Rightarrow> PlannedStep \<Rightarrow> bool run" where
  "serial_step env item s =
     (if map_of (rn_statuses s) (step_of item) = Some Passed then (Inr True, s)
      else bindS (consume_mobile env) (\<lambda>stopped s1.
        if stopped then stop_run StoppedByUser s1
        else if list_ex (\<lambda>d. d \<in> fst ` set (rn_statuses s1) \<and> map_of (rn_statuses s1) d \<noteq> Some Passed)
               (rp_depends_on (pl_step item))
        then (Inr True, add_result (blocked_result item (lit ''blocked by failed dependency''))
                (set_status (step_of item) Blocked s1))
        else bindS check_budget (\<lambda>d s2.
          if \<not> bd_allowed d then stop_run (BudgetSpent (bd_reason d)) (set_status (step_of item) Blocked s2)
          else case workspace_for env item s2 of
            (Inl e, s3) \<Rightarrow> stop_run (WorkspaceProblem e)
              (add_result (blocked_result item e) (set_activity (step_of item) e (set_status (step_of item) Blocked s3)))
          | (Inr w, s3) \<Rightarrow> execute_serial env item w s3) s1) s)"

fun serial_steps :: "runtime_env \<Rightarrow> PlannedStep list \<Rightarrow> unit run" where
  "serial_steps env [] = retS ()"
| "serial_steps env (item # items) =
     bindS (serial_step env item) (\<lambda>go. if go then serial_steps env items else retS ())"

text \<open>The statuses a run starts with: passed steps stay passed, failed ones are failed or pending.\<close>

definition recovered_statuses :: "run_status \<Rightarrow> RecoverySnapshot \<Rightarrow> (pystr, run_status) dict" where
  "recovered_statuses failed snap =
     map (\<lambda>r. (sj_step_id r, if sj_status r = SPassed then Passed else failed))
       (filter (\<lambda>r. sj_status r \<in> {SPassed, SFailed}) (rs_steps snap))"

definition run_serial :: "runtime_env \<Rightarrow> OrchestrationResult run" where
  "run_serial env =
     bindS (on_journal (reconcile_after_restart (og_journal env))) (\<lambda>snap.
       if rs_reconcile_required snap \<noteq> [] then refuse_recovery env snap
       else
         bindS (putS (\<lambda>s. s\<lparr>rn_statuses := recovered_statuses Failed snap\<rparr>)) (\<lambda>_.
         bindS (publish_run env False Running) (\<lambda>_.
           case plan_order (og_plan env) of
             None \<Rightarrow> raiseS DependencyCycle
           | Some order \<Rightarrow> bindS (serial_steps env order) (\<lambda>_. finish_run env))))"

section \<open>Parallel waves\<close>

definition add_blocked :: "PlannedStep \<Rightarrow> pystr \<Rightarrow> run_state \<Rightarrow> run_state" where
  "add_blocked item summary s =
     add_result (blocked_result item summary)
       (set_activity (step_of item) summary (set_status (step_of item) Blocked s)
          \<lparr>rn_pending := removeAll (step_of item) (rn_pending s)\<rparr>)"

definition block_item :: "run_status set \<Rightarrow> PlannedStep \<Rightarrow> run_state \<Rightarrow> run_state" where
  "block_item bad item s =
     (if step_of item \<in> set (rn_pending s) \<and>
         list_ex (\<lambda>d. map_of (rn_statuses s) d \<in> Some ` bad) (rp_depends_on (pl_step item))
      then add_blocked item (lit ''blocked by failed dependency'') s else s)"

lemma block_pass_pending:
  "length (rn_pending (fold (block_item bad) order s)) \<le> length (rn_pending s) \<and>
   (length (rn_pending (fold (block_item bad) order s)) = length (rn_pending s) \<longrightarrow>
    rn_pending (fold (block_item bad) order s) = rn_pending s)"
proof (induction order arbitrary: s)
  case (Cons item order)
  have one: "length (rn_pending (block_item bad item s)) < length (rn_pending s) \<or>
      rn_pending (block_item bad item s) = rn_pending s"
    by (auto simp: block_item_def add_blocked_def add_result_def set_activity_def set_status_def
        length_removeAll_less)
  from Cons.IH [of "block_item bad item s"] one show ?case by auto
qed simp

function block_fallout :: "run_status set \<Rightarrow> PlannedStep list \<Rightarrow> run_state \<Rightarrow> run_state" where
  "block_fallout bad order s =
     (let s' = fold (block_item bad) order s
      in if rn_pending s' = rn_pending s then s' else block_fallout bad order s')"
  by pat_completeness auto
termination
  by (relation "measure (\<lambda>(bad, order, s). length (rn_pending s))")
     (use block_pass_pending in \<open>auto simp: le_less dest: sym\<close>)

declare block_fallout.simps [simp del]

definition ready_items :: "PlannedStep list \<Rightarrow> run_state \<Rightarrow> PlannedStep list" where
  "ready_items order s = filter (\<lambda>item. step_of item \<in> set (rn_pending s) \<and>
     list_all (\<lambda>d. map_of (rn_statuses s) d = Some Passed) (rp_depends_on (pl_step item))) order"

definition is_writer :: "PlannedStep \<Rightarrow> bool" where
  "is_writer item \<longleftrightarrow> rp_role (pl_step item) = lit ''implementer''"

definition choose_wave :: "runtime_env \<Rightarrow> PlannedStep list \<Rightarrow> PlannedStep list" where
  "choose_wave env ready =
     (if \<not> og_isolate env \<and> list_ex is_writer ready then take 1 (filter is_writer ready)
      else take (nat (op_max_parallel_workers (pn_policy (og_plan env)))) ready)"

text \<open>Workspaces and executors of a wave; \<open>None\<close> when a workspace could not be prepared.\<close>

fun resolve_wave ::
  "runtime_env \<Rightarrow> PlannedStep list \<Rightarrow> (PlannedStep \<times> executor \<times> pystr option) list option run" where
  "resolve_wave env [] s = (Inr (Some []), s)"
| "resolve_wave env (item # items) s =
     (case workspace_for env item s of
        (Inl e, s1) \<Rightarrow> (Inr None, add_blocked item e (s1\<lparr>rn_reason := Some (WorkspaceProblem e)\<rparr>))
      | (Inr w, s1) \<Rightarrow>
          (case map_of (og_executors env) (endpoint_of item) of
             None \<Rightarrow> (Inl (NoExecutor (endpoint_of item)), s1)
           | Some ex \<Rightarrow>
               bindS (resolve_wave env items) (\<lambda>rest. retS (map_option (\<lambda>xs. (item, ex, w) # xs) rest)) s1))"

text \<open>An adapter that raises counts as a failed result.\<close>

definition invoke ::
  "PlannedStep \<times> executor \<times> WorkerExecutionRequest \<Rightarrow> ((PlannedStep \<times> executor \<times> WorkerExecutionRequest) \<times> WorkerExecutionResult) run" where
  "invoke = (\<lambda>(item, ex, rq).
     bindS (call_worker rq ex) (\<lambda>out.
       retS ((item, ex, rq), case out of Answered r \<Rightarrow> r | Raised c \<Rightarrow> failed_result (lit ''worker adapter failed: '' @ c))))"

definition apply_outcome ::
  "runtime_env \<Rightarrow> (PlannedStep \<times> executor \<times> WorkerExecutionRequest) \<times> WorkerExecutionResult \<Rightarrow> unit run" where
  "apply_outcome env = (\<lambda>(job, r).
     bindS (take_in env job r) (\<lambda>_.
       if succeeded r then retS ()
       else bindS (putS (\<lambda>s. s\<lparr>rn_reason := (if rn_reason s = None then Some (StepFailed (step_of (fst job))) else rn_reason s)\<rparr>))
              (\<lambda>_. send_escalation env (fst job) r)))"

definition execute_wave :: "runtime_env \<Rightarrow> (PlannedStep \<times> executor \<times> pystr option) list \<Rightarrow> bool run" where
  "execute_wave env jobs s =
     (let remaining = max 0 (op_hard_budget_usd (pn_policy (og_plan env)) - rn_cost s);
          each = (if jobs = [] then 0 else remaining / of_nat (length jobs))
      in bindS (mapS (prepare env each) jobs) (\<lambda>prepared.
         bindS (publish_run env False Running) (\<lambda>_.
         bindS (mapS invoke prepared) (\<lambda>outcomes.
         bindS (forS (apply_outcome env) outcomes) (\<lambda>_.
         bindS (publish_run env True Running) (\<lambda>_.
           retS (list_all (\<lambda>(job, r). succeeded r) outcomes)))))) s)"

definition parallel_wave :: "runtime_env \<Rightarrow> PlannedStep list \<Rightarrow> bool run" where
  "parallel_wave env order =
     bindS (consume_mobile env) (\<lambda>stopped s1.
       if stopped then stop_run StoppedByUser s1
       else
         let s2 = block_fallout {Failed, Blocked, Skipped} order s1
         in if rn_pending s2 = [] then (Inr False, s2)
            else
              let ready = ready_items order s2
              in if ready = []
                 then stop_run NothingRunnable (fold (\<lambda>item s. if step_of item \<in> set (rn_pending s)
                        then add_blocked item (lit ''no runnable orchestration steps remain'') s else s) order s2)
                 else bindS check_budget (\<lambda>d s3.
                   if \<not> bd_allowed d
                   then stop_run (BudgetSpent (bd_reason d))
                     (fold (\<lambda>item. add_blocked item (reason_text (bd_reason d))) ready s3)
                   else bindS (resolve_wave env (choose_wave env ready)) (\<lambda>jobs.
                     case jobs of None \<Rightarrow> retS False | Some js \<Rightarrow> execute_wave env js) s3) s2)"

fun run_waves :: "runtime_env \<Rightarrow> PlannedStep list \<Rightarrow> nat \<Rightarrow> unit run" where
  "run_waves env order n s =
     (if rn_pending s = [] then (Inr (), s)
      else case n of
        0 \<Rightarrow> (Inl OutOfFuel, s)
      | Suc m \<Rightarrow> bindS (parallel_wave env order) (\<lambda>go. if go then run_waves env order m else retS ()) s)"

definition run_parallel :: "runtime_env \<Rightarrow> OrchestrationResult run" where
  "run_parallel env =
     bindS (on_journal (reconcile_after_restart (og_journal env))) (\<lambda>snap.
       if rs_reconcile_required snap \<noteq> [] then refuse_recovery env snap
       else
         bindS (putS (\<lambda>s. s\<lparr>rn_statuses := recovered_statuses Pending snap\<rparr>)) (\<lambda>_.
           case plan_order (og_plan env) of
             None \<Rightarrow> raiseS DependencyCycle
           | Some order \<Rightarrow>
               bindS (putS (\<lambda>s. s\<lparr>rn_pending := map step_of (filter (\<lambda>item.
                   map_of (rn_statuses s) (step_of item) \<noteq> Some Passed) order)\<rparr>)) (\<lambda>_.
               bindS (publish_run env False Running) (\<lambda>_.
               bindS (\<lambda>s. run_waves env order (length (rn_pending s)) s) (\<lambda>_.
               bindS (putS (\<lambda>s. if rn_reason s = None then s else block_fallout {Failed, Blocked} order s)) (\<lambda>_.
                 finish_run env))))))"

definition run_orchestration :: "runtime_env \<Rightarrow> OrchestrationResult run" where
  "run_orchestration env =
     (if op_max_parallel_workers (pn_policy (og_plan env)) \<le> 1 then run_serial env else run_parallel env)"

definition orchestrate :: "runtime_env \<Rightarrow> (json_file \<Rightarrow> json_file) list \<Rightarrow> run_state \<Rightarrow> (run_error + OrchestrationResult) \<times> run_state" where
  "orchestrate env polls files = bindS (construct env) (\<lambda>_. run_orchestration env) (fresh_state env polls files)"

end
