(* ===== verification/Dispatch.thy ===== *)
theory Dispatch imports OrchestrationRuntime begin

text \<open>
  What an orchestration run may do to its workers, as a machine over the calls and the results alone: no
  files, messages or statuses. A call is admitted when the step is planned, new, its planned dependencies
  have passed, money is left for it beside the workers still out, and a writer of the shared checkout is
  alone. \<^verbatim>\<open>RuntimeProofs\<close> shows that the coordinator implements it.
\<close>

record dispatch =
  di_passed :: "pystr list"
  di_begun :: "pystr list"
  di_out :: "(pystr \<times> real) list"
  di_cost :: real

definition dispatch_start :: "runtime_env \<Rightarrow> pystr list \<Rightarrow> dispatch" where
  "dispatch_start env passed = \<lparr>di_passed = passed, di_begun = [], di_out = [], di_cost = og_initial_cost env\<rparr>"

definition hard_budget :: "runtime_env \<Rightarrow> real" where
  "hard_budget env = op_hard_budget_usd (pn_policy (og_plan env))"

definition planned_item :: "runtime_env \<Rightarrow> pystr \<Rightarrow> PlannedStep option" where
  "planned_item env k = map_of (planned_table (og_plan env)) k"

definition writes :: "runtime_env \<Rightarrow> pystr \<Rightarrow> bool" where
  "writes env k = opt_all is_writer (planned_item env k)"

text \<open>The dependencies of a step that are steps of the plan.\<close>

definition awaited :: "runtime_env \<Rightarrow> PlannedStep \<Rightarrow> pystr list" where
  "awaited env item = filter (\<lambda>k. planned_item env k \<noteq> None) (rp_depends_on (pl_step item))"

definition may_call :: "runtime_env \<Rightarrow> dispatch \<Rightarrow> WorkerExecutionRequest \<Rightarrow> bool" where
  "may_call env d rq =
     (case planned_item env (wq_step_id rq) of
        None \<Rightarrow> False
      | Some item \<Rightarrow>
          wq_endpoint rq = pl_endpoint item \<and> wq_role rq = rp_role (pl_step item) \<and>
          wq_step_id rq \<notin> set (di_passed d) \<and> wq_step_id rq \<notin> set (di_begun d) \<and>
          list_all (\<lambda>k. k \<in> set (di_passed d)) (awaited env item) \<and>
          di_cost d < hard_budget env \<and> 0 \<le> wq_max_cost_usd rq \<and>
          di_cost d + sum_list (map snd (di_out d)) + wq_max_cost_usd rq \<le> hard_budget env \<and>
          (og_isolate env \<or> di_out d = [] \<or> \<not> is_writer item \<and> list_all (\<lambda>(k, _). \<not> writes env k) (di_out d)))"

fun observe :: "runtime_env \<Rightarrow> worker_event \<Rightarrow> dispatch \<Rightarrow> dispatch option" where
  "observe env (WorkerCalled rq) d =
     (if may_call env d rq
      then Some (d\<lparr>di_begun := di_begun d @ [wq_step_id rq],
                   di_out := di_out d @ [(wq_step_id rq, wq_max_cost_usd rq)]\<rparr>)
      else None)"
| "observe env (WorkerReturned k ok c) d =
     (if k \<in> fst ` set (di_out d) \<and> 0 \<le> c
      then Some (d\<lparr>di_out := filter (\<lambda>(j, _). j \<noteq> k) (di_out d),
                   di_passed := (if ok then k # di_passed d else di_passed d), di_cost := di_cost d + c\<rparr>)
      else None)"

fun observe_all :: "runtime_env \<Rightarrow> worker_event list \<Rightarrow> dispatch \<Rightarrow> dispatch option" where
  "observe_all env [] d = Some d"
| "observe_all env (e # es) d = Option.bind (observe env e d) (observe_all env es)"

lemma observe_all_append [simp]:
  "observe_all env (es @ fs) d = Option.bind (observe_all env es d) (observe_all env fs)"
  by (induction es arbitrary: d) (auto split: bind_split)

section \<open>What the machine guarantees\<close>

definition called :: "worker_event list \<Rightarrow> pystr list" where
  "called es = concat (map (\<lambda>e. case e of WorkerCalled rq \<Rightarrow> [wq_step_id rq] | _ \<Rightarrow> []) es)"

lemma called_simps [simp]:
  "called [] = []" "called (WorkerCalled rq # es) = wq_step_id rq # called es"
  "called (WorkerReturned k ok c # es) = called es" "called (es @ fs) = called es @ called fs"
  by (simp_all add: called_def)

text \<open>The three growing parts of the state, read off the events.\<close>

lemma observe_all_parts:
  "observe_all env es d = Some d' \<Longrightarrow>
     di_begun d' = di_begun d @ called es \<and>
     set (di_passed d') = set (di_passed d) \<union> {k. \<exists>c. WorkerReturned k True c \<in> set es}"
proof (induction es arbitrary: d)
  case (Cons e es)
  from Cons.prems obtain d1 where d1: "observe env e d = Some d1" "observe_all env es d1 = Some d'"
    by (auto simp: bind_eq_Some_conv)
  from Cons.IH [OF d1(2)] d1(1) show ?case by (cases e) (auto split: if_splits)
qed simp

lemma observe_all_new:
  "observe_all env es d = Some d' \<Longrightarrow> distinct (di_begun d) \<Longrightarrow>
     distinct (di_begun d') \<and> set (called es) \<inter> set (di_passed d) = {}"
proof (induction es arbitrary: d)
  case (Cons e es)
  from Cons.prems obtain d1 where d1: "observe env e d = Some d1" "observe_all env es d1 = Some d'"
    by (auto simp: bind_eq_Some_conv)
  from d1(1) Cons.prems(2) have "distinct (di_begun d1)" "set (di_passed d) \<subseteq> set (di_passed d1)"
    by (cases e; auto simp: may_call_def split: if_splits option.splits)+
  with Cons.IH [OF d1(2)] d1(1) show ?case
    by (cases e) (auto simp: may_call_def split: if_splits option.splits)
qed simp

text \<open>A call inside an admitted log was admitted where it stands.\<close>

lemma observe_all_call:
  assumes "observe_all env (pre @ WorkerCalled rq # post) d = Some d'"
  obtains d1 where "observe_all env pre d = Some d1" "may_call env d1 rq"
  using assms by (auto simp: bind_eq_Some_conv split: if_split_asm)

lemma admitted_call_waits:
  assumes "observe_all env (pre @ WorkerCalled rq # post) (dispatch_start env passed) \<noteq> None"
    and "planned_item env (wq_step_id rq) = Some item" "k \<in> set (awaited env item)"
  shows "k \<in> set passed \<or> (\<exists>c. WorkerReturned k True c \<in> set pre)"
proof -
  from assms(1) obtain d' where "observe_all env (pre @ WorkerCalled rq # post) (dispatch_start env passed) = Some d'"
    by (cases "observe_all env (pre @ WorkerCalled rq # post) (dispatch_start env passed)") auto
  then obtain d1 where d1: "observe_all env pre (dispatch_start env passed) = Some d1" "may_call env d1 rq"
    by (rule observe_all_call)
  from d1(2) assms(2,3) have "k \<in> set (di_passed d1)" by (auto simp: may_call_def list_all_iff)
  with observe_all_parts [OF d1(1)] show ?thesis by (auto simp: dispatch_start_def)
qed

lemma admitted_calls_once:
  assumes "observe_all env es (dispatch_start env passed) \<noteq> None"
  shows "distinct (called es) \<and> set (called es) \<inter> set passed = {}"
proof -
  from assms obtain d' where d': "observe_all env es (dispatch_start env passed) = Some d'" by auto
  from observe_all_new [OF d'] observe_all_parts [OF d'] show ?thesis by (simp add: dispatch_start_def)
qed

end
