(* ===== verification/RuntimeProofs.thy ===== *)
theory RuntimeProofs imports Dispatch begin

text \<open>
  The coordinator of \<^verbatim>\<open>OrchestrationRuntime\<close> implements the machine of \<^verbatim>\<open>Dispatch\<close>: every log of a serial or
  parallel run, finished or aborted by an error, is one the machine admits.
\<close>

section \<open>Steps that leave the workers alone\<close>

text \<open>The part of the state the machine is about.\<close>

definition core :: "run_state \<Rightarrow>
    (pystr, run_status) dict \<times> pystr list \<times> worker_event list \<times> real \<times> real \<times> bool \<times> bool" where
  "core s = (rn_statuses s, rn_pending s, rn_log s, rn_cost s, gv_hard (rn_governor s), gv_shadow (rn_governor s),
     gv_override (rn_governor s))"

text \<open>The two artificial errors of the model, and what the second one says of the state.\<close>

definition honest :: "run_error \<Rightarrow> run_state \<Rightarrow> bool" where
  "honest e s \<longleftrightarrow> e \<noteq> OutOfFuel \<and> (e = PausedForever \<longrightarrow> rn_paused s \<and> \<not> rn_stop s \<and> rn_polls s = [])"

definition quiet :: "'a run \<Rightarrow> bool" where
  "quiet m \<longleftrightarrow> (\<forall>s r s'. m s = (r, s') \<longrightarrow> core s' = core s \<and> rn_reason s' = rn_reason s \<and>
     (rn_stop s \<longrightarrow> rn_stop s') \<and> (\<forall>e. r = Inl e \<longrightarrow> honest e s'))"

named_theorems quiets

lemma quietI:
  "(\<And>s r s'. m s = (r, s') \<Longrightarrow> core s' = core s \<and> rn_reason s' = rn_reason s \<and> (rn_stop s \<longrightarrow> rn_stop s') \<and>
     (\<forall>e. r = Inl e \<longrightarrow> honest e s')) \<Longrightarrow> quiet m"
  by (simp add: quiet_def)

lemma quietD:
  "quiet m \<Longrightarrow> m s = (r, s') \<Longrightarrow> core s' = core s \<and> rn_reason s' = rn_reason s \<and> (rn_stop s \<longrightarrow> rn_stop s') \<and>
     (\<forall>e. r = Inl e \<longrightarrow> honest e s')"
  by (simp add: quiet_def)

lemma quiet_bindS [quiets]:
  assumes "quiet m" "\<And>x. quiet (k x)" shows "quiet (bindS m k)"
proof (rule quietI)
  fix s r s' assume b: "bindS m k s = (r, s')"
  obtain r1 s1 where m: "m s = (r1, s1)" by force
  show "core s' = core s \<and> rn_reason s' = rn_reason s \<and> (rn_stop s \<longrightarrow> rn_stop s') \<and>
     (\<forall>e. r = Inl e \<longrightarrow> honest e s')"
    using quietD [OF assms(1) m] quietD [OF assms(2), of _ s1 r s'] b m
    by (cases r1) (auto simp: bindS_def)
qed

lemma quiet_state: "(\<And>x. quiet (f x)) \<Longrightarrow> quiet (\<lambda>s. f s s)"
  by (simp add: quiet_def)

lemma quiet_retS [quiets]: "quiet (retS x)"
  by (simp add: quiet_def retS_def)

lemma quiet_raiseS [quiets]: "e \<noteq> OutOfFuel \<Longrightarrow> e \<noteq> PausedForever \<Longrightarrow> quiet (raiseS e)"
  by (simp add: quiet_def raiseS_def honest_def)

lemma quiet_pureS [quiets]:
  "(\<And>e. wrap e \<noteq> OutOfFuel \<and> wrap e \<noteq> PausedForever) \<Longrightarrow> quiet (pureS wrap r)"
  by (auto simp: quiet_def pureS_def honest_def split: sum.splits)

lemma quiet_putS [quiets]:
  "(\<And>s. core (f s) = core s \<and> rn_reason (f s) = rn_reason s \<and> (rn_stop s \<longrightarrow> rn_stop (f s))) \<Longrightarrow> quiet (putS f)"
  by (simp add: quiet_def putS_def)

lemma quiet_zoomS:
  assumes "\<And>e. wrap e \<noteq> OutOfFuel \<and> wrap e \<noteq> PausedForever"
    and "\<And>c s. core (put c s) = core s \<and> rn_reason (put c s) = rn_reason s \<and> rn_stop (put c s) = rn_stop s"
  shows "quiet (zoomS wrap get put m)"
  using assms by (auto simp: quiet_def zoomS_def honest_def split: prod.splits sum.splits)

lemma quiet_files [quiets]:
  "quiet (on_bus b)" "quiet (on_handoffs h)" "quiet (on_telemetry t)" "quiet (on_journal j)" "quiet (on_mission m)"
  by (auto simp: on_bus_def on_handoffs_def on_telemetry_def on_journal_def on_mission_def core_def
      intro!: quiet_zoomS)

lemma quiet_tick [quiets]: "quiet (tick_time env)"
  by (auto simp: quiet_def tick_time_def core_def)

lemma quiet_forS [quiets]: "(\<And>x. quiet (f x)) \<Longrightarrow> quiet (forS f xs)"
  by (induction xs) (auto intro: quiets)

lemma quiet_if [quiets]: "(b \<Longrightarrow> quiet m) \<Longrightarrow> (\<not> b \<Longrightarrow> quiet n) \<Longrightarrow> quiet (if b then m else n)"
  by simp

lemma quiet_option [quiets]:
  "(x = None \<Longrightarrow> quiet m) \<Longrightarrow> (\<And>y. x = Some y \<Longrightarrow> quiet (k y)) \<Longrightarrow> quiet (case x of None \<Rightarrow> m | Some y \<Rightarrow> k y)"
  by (cases x) auto

lemma quiet_apply_update [quiets]: "quiet (apply_update env v)"
  unfolding apply_update_def by (cases v) (auto intro!: quiets split: option.split)

lemma quiet_context_delta [quiets]: "quiet (context_delta_for env item ex)"
  unfolding context_delta_for_def Let_def by (rule quiet_state) (auto intro!: quiets)

lemma quiet_upstream [quiets]: "quiet (upstream_messages env item)"
  unfolding upstream_messages_def by (rule quiet_state) (auto intro!: quiets)

lemma quiet_remember [quiets]: "quiet (putS (remember_delivered item ex dl))"
  by (rule quiet_putS) (simp add: remember_delivered_def core_def Let_def)

lemma quiet_send [quiets]: "quiet (send env mt a b c d e f g h)"
  unfolding send_def
proof (rule quiet_bindS [OF quiet_tick], rule quietI)
  fix now s r s'
  assume *: "(case create_message (ho_ud (og_handoffs env))
         \<lparr>am_message_id = og_fresh env (rn_ticks s), am_message_type = lit mt, am_task_id = pn_task_id (og_plan env),
          am_source_endpoint_id = a, am_target_endpoint_id = Some b, am_source_role = c,
          am_target_role = Some d, am_summary = e, am_baseline_ref = None,
          am_changeset_ref = f, am_evidence = g, am_questions = [], am_findings = h,
          am_created_at = now\<rparr> of None \<Rightarrow> (Inl RunMessage, s)
       | Some m \<Rightarrow> bindS (on_handoffs (handoff_append (og_handoffs env) m)) (\<lambda>_. retS ()) s) = (r, s')"
  have q: "quiet (bindS (on_handoffs (handoff_append (og_handoffs env) m)) (\<lambda>_. retS ()))" for m
    by (auto intro!: quiets)
  from * quietD [OF q, of _ s r s'] show "core s' = core s \<and> rn_reason s' = rn_reason s \<and>
      (rn_stop s \<longrightarrow> rn_stop s') \<and> (\<forall>e. r = Inl e \<longrightarrow> honest e s')"
    by (auto simp: honest_def split: option.splits)
qed

lemma quiet_messages [quiets]: "quiet (send_request env item)" "quiet (send_result env item r)"
  "quiet (send_escalation env item r)"
  by (simp_all add: send_request_def send_result_def send_escalation_def quiets)

lemma quiet_publish_mission [quiets]: "quiet (publish_mission env a b c d e f g)"
  unfolding publish_mission_def by (auto intro!: quiets)

lemma quiet_publish_run [quiets]: "quiet (publish_run env w st)"
  unfolding publish_run_def by (rule quiet_state) (auto intro!: quiets)

lemma quiet_apply_command [quiets]: "quiet (apply_command env c)"
  unfolding apply_command_def by (auto intro!: quiets simp: core_def)

lemma quiet_consume_once: "quiet (consume_once env)"
  unfolding consume_once_def by (rule quiet_state) (auto intro!: quiets)

lemma quiet_poll [quiets]: "quiet (poll env)"
proof (rule quietI)
  fix s r s' assume p: "poll env s = (r, s')"
  have o: "core (outside_acts s) = core s" "rn_reason (outside_acts s) = rn_reason s" "rn_stop (outside_acts s) = rn_stop s"
    by (simp_all add: outside_acts_def core_def split: list.split)
  from quietD [OF quiet_consume_once p [unfolded poll_def]] o show "core s' = core s \<and> rn_reason s' = rn_reason s \<and>
      (rn_stop s \<longrightarrow> rn_stop s') \<and> (\<forall>e. r = Inl e \<longrightarrow> honest e s')"
    by auto
qed


lemma quiet_set_mission_status [quiets]: "quiet (set_mission_status env st)"
  unfolding set_mission_status_def by (rule quiet_state) (auto intro!: quiets)

text \<open>A poll uses up one act of the outside.\<close>

lemma keeps_putS: "(\<And>s. P s \<Longrightarrow> P (f s)) \<Longrightarrow> keeps P (putS f)"
  by (simp add: keeps_def putS_def)

lemma keeps_polls:
  "keeps (\<lambda>s. rn_polls s = gs) (tick_time env)" "keeps (\<lambda>s. rn_polls s = gs) (on_bus b)"
  "keeps (\<lambda>s. rn_polls s = gs) (on_mission m)"
  by (auto simp: keeps_def tick_time_def on_bus_def on_mission_def zoomS_def split: prod.splits sum.splits)

lemma keeps_forS: "(\<And>x. keeps P (f x)) \<Longrightarrow> keeps P (forS f xs)"
  by (induction xs) (auto intro: keeps_bindS keeps_ret)

lemma apply_command_polls: "keeps (\<lambda>s. rn_polls s = gs) (apply_command env c)"
  unfolding apply_command_def by (auto intro!: keeps_bindS keeps_polls keeps_ret keeps_putS)

lemma poll_polls: "rn_polls (snd (poll env s)) = tl (rn_polls s)"
proof -
  let ?o = "outside_acts s"
  have o: "rn_polls ?o = tl (rn_polls s)" by (simp add: outside_acts_def split: list.split)
  have "rn_polls (snd (consume_once env ?o)) = rn_polls ?o"
    unfolding consume_once_def bindS_def pureS_def
    using keeps_forS [of "\<lambda>s. rn_polls s = rn_polls ?o" "apply_command env", OF apply_command_polls]
    by (auto simp: keeps_def split: sum.split)
  with o show ?thesis by (simp add: poll_def)
qed

lemma await_resume_quiet:
  "length (rn_polls s) \<le> n \<Longrightarrow> await_resume env n s = (r, s') \<Longrightarrow>
     core s' = core s \<and> rn_reason s' = rn_reason s \<and> (rn_stop s \<longrightarrow> rn_stop s') \<and> (\<forall>e. r = Inl e \<longrightarrow> honest e s')"
proof (induction n arbitrary: s)
  case 0
  then show ?case by (auto simp: honest_def split: if_splits)
next
  case (Suc n)
  show ?case
  proof (cases "rn_paused s \<and> \<not> rn_stop s")
    case True
    obtain r1 s1 where p: "poll env s = (r1, s1)" by force
    from poll_polls [of env s] p Suc.prems(1) have "length (rn_polls s1) \<le> n" by simp
    from Suc.IH [OF this] quietD [OF quiet_poll p] True p Suc.prems(2) show ?thesis
      by (cases r1) (auto simp: bindS_def)
  next
    case False
    with Suc.prems(2) show ?thesis by (simp split: if_split_asm) blast
  qed
qed

lemma quiet_await: "quiet (\<lambda>s. await_resume env (length (rn_polls s)) s)"
  by (rule quietI) (use await_resume_quiet in blast)

lemma quiet_cond: "quiet m \<Longrightarrow> quiet n \<Longrightarrow> quiet (\<lambda>s. if P s then m s else n s)"
  by (simp add: quiet_def)

lemma quiet_done: "quiet (\<lambda>s. (Inr x, s))"
  by (simp add: quiet_def)

lemma quiet_consume_mobile [quiets]: "quiet (consume_mobile env)"
  unfolding consume_mobile_def
  by (intro quiet_bindS quiet_cond quiet_done quiet_poll quiet_set_mission_status quiet_await quiet_retS)

text \<open>A set stop flag is seen, and a seen stop is the flag.\<close>

lemma consume_mobile_stop:
  assumes "consume_mobile env s = (Inr b, s')"
  shows "(b \<longrightarrow> rn_stop s') \<and> (rn_stop s \<longrightarrow> b)"
proof -
  obtain r1 s1 where p: "poll env s = (r1, s1)" by force
  from quietD [OF quiet_poll p] assms p show ?thesis
    by (cases r1) (auto simp: consume_mobile_def bindS_def retS_def split: prod.splits sum.splits if_splits)
qed

lemma workspace_for_core:
  "workspace_for env item s = (r, s') \<Longrightarrow> core s' = core s \<and> rn_reason s' = rn_reason s \<and> rn_stop s' = rn_stop s"
proof -
  have "core (snd (workspace_for env item s)) = core s" "rn_reason (snd (workspace_for env item s)) = rn_reason s"
    "rn_stop (snd (workspace_for env item s)) = rn_stop s"
    by (simp_all add: workspace_for_def core_def Let_def split: option.split sum.split list.split)
  then show "workspace_for env item s = (r, s') \<Longrightarrow> core s' = core s \<and> rn_reason s' = rn_reason s \<and> rn_stop s' = rn_stop s"
    by simp
qed


lemma check_budget_core:
  assumes "check_budget s = (r, s')"
  shows "core s' = core s \<and> rn_reason s' = rn_reason s \<and> rn_stop s' = rn_stop s \<and>
     (\<exists>d. r = Inr d \<and> (\<not> gv_override (rn_governor s) \<longrightarrow> \<not> gv_shadow (rn_governor s) \<longrightarrow>
       bd_allowed d = (rn_cost s < gv_hard (rn_governor s))))"
proof -
  have "core (snd (check_budget s)) = core s \<and> rn_reason (snd (check_budget s)) = rn_reason s \<and>
      rn_stop (snd (check_budget s)) = rn_stop s"
    by (simp add: check_budget_def core_def governor_evaluate_def Let_def)
  moreover have "fst (check_budget s) = Inr (fst (governor_evaluate (rn_cost s) (rn_governor s)))"
    by (simp add: check_budget_def split: prod.split)
  moreover have "\<not> gv_override g \<Longrightarrow> \<not> gv_shadow g \<Longrightarrow> bd_allowed (fst (governor_evaluate c g)) = (c < gv_hard g)" for c g
    by (simp add: governor_evaluate_def Let_def)
  ultimately show ?thesis using assms by (cases "check_budget s") auto
qed

section \<open>What one worker execution does\<close>

definition request_for :: "PlannedStep \<Rightarrow> real \<Rightarrow> WorkerExecutionRequest \<Rightarrow> bool" where
  "request_for item budget rq \<longleftrightarrow> wq_step_id rq = step_of item \<and> wq_endpoint rq = pl_endpoint item \<and>
     wq_role rq = rp_role (pl_step item) \<and> wq_max_cost_usd rq = budget"

text \<open>A quiet prefix may be dropped, a quiet suffix too.\<close>

definition becomes :: "(run_state \<Rightarrow> run_state) \<Rightarrow> 'a run \<Rightarrow> bool" where
  "becomes f m \<longleftrightarrow> (\<forall>s r s'. m s = (r, s') \<longrightarrow> rn_reason s' = rn_reason s \<and> (rn_stop s \<longrightarrow> rn_stop s') \<and>
     (case r of Inl e \<Rightarrow> honest e s' \<and> rn_log s' \<in> {rn_log s, rn_log (f s)} | Inr x \<Rightarrow> core s' = core (f s)))"

lemma becomesD:
  "becomes f m \<Longrightarrow> m s = (r, s') \<Longrightarrow> rn_reason s' = rn_reason s \<and> (rn_stop s \<longrightarrow> rn_stop s') \<and>
     (case r of Inl e \<Rightarrow> honest e s' \<and> rn_log s' \<in> {rn_log s, rn_log (f s)} | Inr x \<Rightarrow> core s' = core (f s))"
  by (simp add: becomes_def)

lemma core_log: "core s = core t \<Longrightarrow> rn_log s = rn_log t"
  by (simp add: core_def)

lemma becomes_after_quiet:
  assumes q: "quiet m" and b: "\<And>x. becomes f (k x)"
    and f: "\<And>s t. core s = core t \<Longrightarrow> core (f s) = core (f t)"
  shows "becomes f (bindS m k)"
  unfolding becomes_def
proof (intro allI impI)
  fix s r s' assume m: "bindS m k s = (r, s')"
  obtain r1 s1 where m1: "m s = (r1, s1)" by force
  note 1 = quietD [OF q m1]
  then have eq: "core (f s1) = core (f s)" "rn_log s1 = rn_log s" "rn_log (f s1) = rn_log (f s)"
    using f [of s1 s] core_log [of s1 s] core_log [of "f s1" "f s"] by auto
  show "rn_reason s' = rn_reason s \<and> (rn_stop s \<longrightarrow> rn_stop s') \<and>
     (case r of Inl e \<Rightarrow> honest e s' \<and> rn_log s' \<in> {rn_log s, rn_log (f s)} | Inr x \<Rightarrow> core s' = core (f s))"
  proof (cases r1)
    case (Inl e)
    with m m1 1 eq show ?thesis by (auto simp: bindS_def)
  next
    case (Inr x)
    with m m1 have "k x s1 = (r, s')" by (simp add: bindS_def)
    from becomesD [OF b this] 1 eq show ?thesis by (auto split: sum.splits)
  qed
qed

lemma becomes_then_quiet:
  assumes q: "\<And>x. quiet (k x)"
    and f: "\<And>s. rn_reason (f s) = rn_reason s \<and> (rn_stop s \<longrightarrow> rn_stop (f s))"
  shows "becomes f (bindS (putS f) k)"
  unfolding becomes_def
proof (intro allI impI)
  fix s r s' assume "bindS (putS f) k s = (r, s')"
  then have "k () (f s) = (r, s')" by (simp add: bindS_def putS_def)
  from quietD [OF q this] f [of s] core_log [of s' "f s"]
  show "rn_reason s' = rn_reason s \<and> (rn_stop s \<longrightarrow> rn_stop s') \<and>
     (case r of Inl e \<Rightarrow> honest e s' \<and> rn_log s' \<in> {rn_log s, rn_log (f s)} | Inr x \<Rightarrow> core s' = core (f s))"
    by (auto split: sum.split)
qed

lemma becomes_cong:
  assumes "becomes f m" "\<And>s. core (f s) = core (g s)"
  shows "becomes g m"
proof -
  have "rn_log (f s) = rn_log (g s)" for s using core_log [OF assms(2)] .
  with assms(2) becomesD [OF assms(1)] show ?thesis unfolding becomes_def by (fastforce split: sum.splits)
qed

lemma prepare_becomes: "becomes (set_status (step_of item) Running) (prepare env budget (item, ex, w))"
proof -
  let ?f = "\<lambda>dl s. set_activity (step_of item) (lit ''Running '' @ rp_task_class (pl_step item))
         (set_status (step_of item) Running s)
           \<lparr>rn_reused := rn_reused s + cd_reused_chars dl, rn_sent := rn_sent s + cd_sent_chars dl\<rparr>"
  have core_f: "core (?f dl s) = core (set_status (step_of item) Running s)" for dl s
    by (simp add: core_def set_activity_def set_status_def)
  have cong: "core (set_status (step_of item) Running s) = core (set_status (step_of item) Running t)"
    if "core s = core t" for s t
    using that by (simp add: core_def set_status_def)
  show ?thesis
    unfolding prepare_def prod.case
    by (rule becomes_after_quiet, rule quiet_context_delta, rule becomes_after_quiet, rule quiet_messages,
        rule becomes_after_quiet, rule quiet_tick, rule becomes_after_quiet, rule quiet_files,
        rule becomes_cong [OF becomes_then_quiet core_f])
       (auto simp: set_activity_def set_status_def core_def intro!: quiet_bindS quiet_upstream quiet_retS)
qed

lemma prepare_result:
  "prepare env budget (item, ex, w) s = (Inr (item', ex', rq), s') \<Longrightarrow> item' = item \<and> ex' = ex \<and> request_for item budget rq"
  by (auto simp: prepare_def bindS_Inr retS_def request_for_def)

text \<open>What a result changes of the core.\<close>

definition took :: "PlannedStep \<Rightarrow> WorkerExecutionResult \<Rightarrow> run_state \<Rightarrow> run_state" where
  "took item r s = set_status (step_of item) (if succeeded r then Passed else Failed) s
     \<lparr>rn_cost := rn_cost s + max 0 (wr_cost_usd r), rn_pending := removeAll (step_of item) (rn_pending s),
      rn_log := rn_log s @ [WorkerReturned (step_of item) (succeeded r) (max 0 (wr_cost_usd r))]\<rparr>"

lemma take_in_becomes: "becomes (took item r) (take_in env (item, ex, rq) r)"
proof -
  let ?f = "\<lambda>s. set_activity (step_of item) (take 500 (wr_summary r))
         (set_status (step_of item) (if succeeded r then Passed else Failed) s)
           \<lparr>rn_cost := rn_cost s + max 0 (wr_cost_usd r), rn_tokens := rn_tokens s + max 0 (wr_total_tokens r),
            rn_cache := cache_add r (rn_cache s), rn_pending := removeAll (step_of item) (rn_pending s),
            rn_log := rn_log s @ [WorkerReturned (step_of item) (succeeded r) (max 0 (wr_cost_usd r))]\<rparr>"
  have core_f: "core (?f s) = core (took item r s)" for s
    by (simp add: core_def took_def set_activity_def set_status_def)
  show ?thesis
    unfolding take_in_def prod.case
    by (intro becomes_cong [OF becomes_then_quiet core_f] quiets)
       (simp_all add: set_activity_def set_status_def add_result_def core_def)
qed


section \<open>The run follows the machine\<close>

definition admissible :: "runtime_env \<Rightarrow> pystr list \<Rightarrow> run_state \<Rightarrow> bool" where
  "admissible env p0 s \<longleftrightarrow> observe_all env (rn_log s) (dispatch_start env p0) \<noteq> None"

definition tracks :: "runtime_env \<Rightarrow> pystr list \<Rightarrow> run_state \<Rightarrow> dispatch \<Rightarrow> bool" where
  "tracks env p0 s d \<longleftrightarrow> observe_all env (rn_log s) (dispatch_start env p0) = Some d \<and> di_cost d = rn_cost s \<and>
     (\<forall>k. map_of (rn_statuses s) k = Some Passed \<longleftrightarrow> k \<in> set (di_passed d)) \<and>
     (\<forall>k. map_of (rn_statuses s) k \<noteq> Some Skipped) \<and>
     gv_hard (rn_governor s) = hard_budget env \<and> \<not> gv_shadow (rn_governor s) \<and> \<not> gv_override (rn_governor s)"

definition raised_ok :: "runtime_env \<Rightarrow> pystr list \<Rightarrow> run_error \<Rightarrow> run_state \<Rightarrow> bool" where
  "raised_ok env p0 e s \<longleftrightarrow> honest e s \<and> admissible env p0 s"

lemma tracks_core: "core s' = core s \<Longrightarrow> tracks env p0 s' d = tracks env p0 s d"
  by (simp add: tracks_def core_def)

lemma tracks_admissible: "tracks env p0 s d \<Longrightarrow> admissible env p0 s"
  by (simp add: tracks_def admissible_def)

lemma admissible_log: "rn_log s' = rn_log s \<Longrightarrow> admissible env p0 s' = admissible env p0 s"
  by (simp add: admissible_def)

lemma tracks_status:
  "tracks env p0 s d \<Longrightarrow> k \<notin> set (di_passed d) \<Longrightarrow> st \<noteq> Passed \<Longrightarrow> st \<noteq> Skipped \<Longrightarrow>
     tracks env p0 (set_status k st s) d"
  by (auto simp: tracks_def set_status_def map_of_AList_update)

definition after_call :: "WorkerExecutionRequest \<Rightarrow> dispatch \<Rightarrow> dispatch" where
  "after_call rq d = d\<lparr>di_begun := di_begun d @ [wq_step_id rq],
     di_out := di_out d @ [(wq_step_id rq, wq_max_cost_usd rq)]\<rparr>"

lemma tracks_call:
  "tracks env p0 s d \<Longrightarrow> may_call env d rq \<Longrightarrow>
     tracks env p0 (s\<lparr>rn_log := rn_log s @ [WorkerCalled rq]\<rparr>) (after_call rq d)"
  by (simp add: tracks_def after_call_def)

definition after_result :: "PlannedStep \<Rightarrow> WorkerExecutionResult \<Rightarrow> dispatch \<Rightarrow> dispatch" where
  "after_result item r d = d\<lparr>di_out := filter (\<lambda>(j, _). j \<noteq> step_of item) (di_out d),
     di_passed := (if succeeded r then step_of item # di_passed d else di_passed d),
     di_cost := di_cost d + max 0 (wr_cost_usd r)\<rparr>"

lemma tracks_took:
  "tracks env p0 s d \<Longrightarrow> step_of item \<in> fst ` set (di_out d) \<Longrightarrow> step_of item \<notin> set (di_passed d) \<Longrightarrow>
     tracks env p0 (took item r s) (after_result item r d)"
  by (auto simp: tracks_def took_def after_result_def set_status_def map_of_AList_update)

lemma becomes_raised:
  assumes "becomes f m" "m s = (Inl e, s')" "admissible env p0 s" "admissible env p0 (f s)"
  shows "raised_ok env p0 e s'"
  using becomesD [OF assms(1,2)] assms(3,4) admissible_log [of s' s] admissible_log [of s' "f s"]
  by (auto simp: raised_ok_def)

lemma quiet_raised:
  assumes "quiet m" "m s = (Inl e, s')" "admissible env p0 s"
  shows "raised_ok env p0 e s'"
  using quietD [OF assms(1,2)] admissible_log [of s' s] assms(3) by (auto simp: raised_ok_def dest: core_log)

section \<open>The order of a plan\<close>

lemma planned_item_id: "planned_item env k = Some item \<Longrightarrow> step_of item = k"
  using keyed_dict_of [of "pn_steps (og_plan env)" "\<lambda>_. True" step_of]
  by (auto simp: planned_item_def planned_table_def dest: keyed_lookup)

lemma plan_nodes_ids: "node_ids (plan_nodes plan) = map fst (planned_table plan)"
  by (simp add: node_ids_def plan_nodes_def case_prod_beta comp_def)

lemma planned_table_distinct: "distinct (map fst (planned_table plan))"
  using keyed_dict_of [of "pn_steps plan" "\<lambda>_. True" step_of] by (simp add: planned_table_def keyed_def dict_ok_def)

lemma plan_order_ids:
  assumes "topological_order (plan_nodes (og_plan env)) = Some ks"
    "order = map (\<lambda>k. the (planned_item env k)) ks"
  shows "map step_of order = ks" "item \<in> set order \<Longrightarrow> planned_item env (step_of item) = Some item"
proof -
  have "distinct (node_ids (plan_nodes (og_plan env)))" by (simp add: plan_nodes_ids planned_table_distinct)
  from topological_order_sound [OF this assms(1)]
  have "set ks = fst ` set (planned_table (og_plan env))" by (simp add: plan_nodes_ids)
  then have p: "\<exists>p. planned_item env k = Some p" if "k \<in> set ks" for k
    using that map_of_eq_None_iff [of "planned_table (og_plan env)" k] by (auto simp: planned_item_def)
  then have ids: "step_of (the (planned_item env k)) = k" if "k \<in> set ks" for k
    using planned_item_id that by fastforce
  then show "map step_of order = ks" by (simp add: assms(2) map_idI)
  assume "item \<in> set order"
  then obtain k where k: "k \<in> set ks" "item = the (planned_item env k)" by (auto simp: assms(2))
  with p ids show "planned_item env (step_of item) = Some item" by fastforce
qed

lemma plan_order_facts:
  assumes o: "plan_order (og_plan env) = Some order"
  shows "distinct (map step_of order)"
    and "item \<in> set order \<Longrightarrow> planned_item env (step_of item) = Some item"
    and "planned_item env k \<noteq> None \<Longrightarrow> k \<in> step_of ` set order"
    and "order = xs @ item # ys \<Longrightarrow> k \<in> set (awaited env item) \<Longrightarrow> k \<in> step_of ` set xs"
proof -
  let ?t = "planned_table (og_plan env)" and ?ns = "plan_nodes (og_plan env)"
  from o obtain ks where ks: "topological_order ?ns = Some ks"
    and order: "order = map (\<lambda>k. the (planned_item env k)) ks"
    by (auto simp: plan_order_def planned_item_def)
  have "distinct (node_ids ?ns)" by (simp add: plan_nodes_ids planned_table_distinct)
  from topological_order_sound [OF this ks]
  have sound: "distinct ks" "set ks = fst ` set ?t" "deps_first ?ns ks" by (simp_all add: plan_nodes_ids)
  note ids = plan_order_ids [OF ks order]
  show "distinct (map step_of order)" by (simp add: ids sound)
  show "item \<in> set order \<Longrightarrow> planned_item env (step_of item) = Some item" by (rule ids(2))
  have "k \<in> set ks" if "planned_item env k \<noteq> None"
    using that sound(2) map_of_eq_None_iff [of ?t k] by (simp add: planned_item_def)
  then show "planned_item env k \<noteq> None \<Longrightarrow> k \<in> step_of ` set order" by (simp flip: ids(1))
  assume split: "order = xs @ item # ys" and k: "k \<in> set (awaited env item)"
  then have "ks = map step_of xs @ step_of item # map step_of ys" using ids(1) by simp
  from sound(3) [unfolded deps_first_def, rule_format, OF this]
  have "set (deps_of ?ns (step_of item)) \<subseteq> step_of ` set xs" by simp
  moreover have "map_of ?ns (step_of item) = Some (rp_depends_on (pl_step item))"
    using ids(2) [of item] split by (simp add: plan_nodes_def planned_item_def map_of_map)
  with k have "k \<in> set (deps_of ?ns (step_of item))"
    by (auto simp: deps_of_def planned_deps_def awaited_def planned_item_def plan_nodes_ids map_of_eq_None_iff)
  ultimately show "k \<in> step_of ` set xs" by blast
qed

section \<open>Serial runs\<close>

text \<open>Between steps nobody is out. The steps not visited yet are new; the others have a status.\<close>

definition idle :: "runtime_env \<Rightarrow> pystr list \<Rightarrow> PlannedStep list \<Rightarrow> run_state \<Rightarrow> bool" where
  "idle env p0 todo s \<longleftrightarrow> rn_reason s = None \<and>
     (\<exists>d. tracks env p0 s d \<and> di_out d = [] \<and> set (di_begun d) \<inter> step_of ` set todo = {}) \<and>
     (\<forall>k. planned_item env k \<noteq> None \<longrightarrow> k \<notin> step_of ` set todo \<longrightarrow> map_of (rn_statuses s) k \<noteq> None)"

text \<open>A run that was cut short: it was stopped, or some step has not passed.\<close>

definition halted :: "runtime_env \<Rightarrow> pystr list \<Rightarrow> run_state \<Rightarrow> bool" where
  "halted env p0 s \<longleftrightarrow> (\<exists>d. tracks env p0 s d \<and> di_out d = []) \<and>
     (rn_reason s = Some StoppedByUser \<or> (\<exists>k. map_of (rn_statuses s) k \<in> Some ` {Failed, Blocked}))"

lemma idle_core:
  assumes "core s' = core s" "rn_reason s' = rn_reason s"
  shows "idle env p0 todo s' = idle env p0 todo s"
proof -
  have "rn_statuses s' = rn_statuses s" using assms(1) by (simp add: core_def)
  with assms(2) show ?thesis unfolding idle_def tracks_core [OF assms(1)] by simp
qed

lemma idle_admissible: "idle env p0 todo s \<Longrightarrow> admissible env p0 s"
  by (auto simp: idle_def tracks_admissible)

lemma core_set_status: "core s = core t \<Longrightarrow> core (set_status k st s) = core (set_status k st t)"
  by (simp add: core_def set_status_def)

text \<open>A call under way: the step was prepared, the worker was called.\<close>

lemma serial_call_admitted:
  assumes "tracks env p0 s d" "di_out d = []" "step_of item \<notin> set (di_begun d)" "step_of item \<notin> set (di_passed d)"
    "set (awaited env item) \<subseteq> set (di_passed d)" "rn_cost s < hard_budget env"
    "planned_item env (step_of item) = Some item" "request_for item (max 0 (hard_budget env - rn_cost s)) rq"
  shows "may_call env d rq"
  using assms by (auto simp: may_call_def request_for_def tracks_def list_all_iff)

lemma serial_tail:
  assumes "bindS (publish_run env True Running) (\<lambda>_. if ok then retS True
      else bindS (putS (\<lambda>s. s\<lparr>rn_reason := why\<rparr>)) (\<lambda>_. bindS (send_escalation env item res) (\<lambda>_. retS False))) s = (r, s')"
  shows "core s' = core s \<and> (\<forall>e. r = Inl e \<longrightarrow> honest e s') \<and>
    (\<forall>go. r = Inr go \<longrightarrow> go = ok \<and> rn_reason s' = (if ok then rn_reason s else why))"
proof -
  obtain r1 s1 where p: "publish_run env True Running s = (r1, s1)" by force
  have c: "core (s1\<lparr>rn_reason := why\<rparr>) = core s1" by (simp add: core_def)
  obtain r2 s2 where e: "send_escalation env item res (s1\<lparr>rn_reason := why\<rparr>) = (r2, s2)" by force
  from quietD [OF quiet_publish_run p] quietD [OF quiet_messages(3) e] assms p e c show ?thesis
    by (cases r1; cases r2; cases ok) (auto simp: bindS_def putS_def retS_def)
qed

text \<open>Executing a step that the machine lets go.\<close>

lemma serial_answer:
  assumes x: "bindS (take_in env (item, ex, rq) res) (\<lambda>_.
      bindS (publish_run env True Running) (\<lambda>_. if succeeded res then retS True
      else bindS (putS (\<lambda>s. s\<lparr>rn_reason := why\<rparr>)) (\<lambda>_. bindS (send_escalation env item res) (\<lambda>_. retS False)))) s = (r, s')"
    and d: "tracks env p0 s d" "step_of item \<in> fst ` set (di_out d)" "step_of item \<notin> set (di_passed d)"
  shows "case r of
      Inl e \<Rightarrow> raised_ok env p0 e s'
    | Inr go \<Rightarrow> tracks env p0 s' (after_result item res d) \<and> go = succeeded res \<and>
        rn_reason s' = (if go then rn_reason s else why) \<and> rn_statuses s' = rn_statuses (took item res s)"
proof -
  note d' = tracks_took [OF d, of res]
  note adm = tracks_admissible [OF d(1)] tracks_admissible [OF d']
  obtain r1 s1 where t: "take_in env (item, ex, rq) res s = (r1, s1)" by force
  show ?thesis
  proof (cases r1)
    case (Inl e)
    with x t have "r = Inl e" "s' = s1" by (simp_all add: bindS_err)
    with becomes_raised [OF take_in_becomes _ adm, of env ex rq e s1] t Inl show ?thesis by simp
  next
    case (Inr u)
    with x t have x1: "bindS (publish_run env True Running) (\<lambda>_. if succeeded res then retS True
      else bindS (putS (\<lambda>s. s\<lparr>rn_reason := why\<rparr>)) (\<lambda>_. bindS (send_escalation env item res) (\<lambda>_. retS False))) s1 = (r, s')"
      by (simp add: bindS_ok)
    from becomesD [OF take_in_becomes t] Inr have c: "core s1 = core (took item res s)" "rn_reason s1 = rn_reason s"
      by auto
    from serial_tail [OF x1] c have tail: "core s' = core (took item res s)" "\<And>e. r = Inl e \<Longrightarrow> honest e s'"
      "\<And>go. r = Inr go \<Longrightarrow> go = succeeded res \<and> rn_reason s' = (if succeeded res then rn_reason s else why)"
      by auto
    from d' have "tracks env p0 s' (after_result item res d)" by (simp add: tracks_core [OF tail(1)])
    with tail tracks_admissible show ?thesis by (cases r) (auto simp: raised_ok_def core_def)
  qed
qed

definition serial_rest :: "runtime_env \<Rightarrow> PlannedStep \<Rightarrow> executor \<Rightarrow> WorkerExecutionRequest \<Rightarrow> worker_outcome \<Rightarrow> bool run" where
  "serial_rest env item ex rq out = (case out of
     Raised c \<Rightarrow> raiseS (WorkerRaised c)
   | Answered res \<Rightarrow> bindS (take_in env (item, ex, rq) res) (\<lambda>_.
       bindS (publish_run env True Running) (\<lambda>_. if succeeded res then retS True
       else bindS (putS (\<lambda>s. s\<lparr>rn_reason := Some (StepFailed (step_of item))\<rparr>)) (\<lambda>_.
         bindS (send_escalation env item res) (\<lambda>_. retS False)))))"

lemma execute_serial_parts:
  "map_of (og_executors env) (endpoint_of item) = Some ex \<Longrightarrow>
     execute_serial env item w s = bindS (prepare env (max 0 (hard_budget env - rn_cost s)) (item, ex, w)) (\<lambda>(it, x, rq).
       bindS (publish_run env False Running) (\<lambda>_. bindS (call_worker rq ex) (serial_rest env item ex rq))) s"
  by (simp add: execute_serial_def hard_budget_def serial_rest_def [abs_def])

definition served :: "runtime_env \<Rightarrow> pystr list \<Rightarrow> PlannedStep \<Rightarrow> dispatch \<Rightarrow> run_state \<Rightarrow> (run_error + bool) \<times> run_state \<Rightarrow> bool" where
  "served env p0 item d s = (\<lambda>(r, s').
     case r of
       Inl e \<Rightarrow> raised_ok env p0 e s'
     | Inr go \<Rightarrow> \<exists>d'. tracks env p0 s' d' \<and> di_out d' = [] \<and> di_begun d' = di_begun d @ [step_of item] \<and>
           rn_reason s' = (if go then rn_reason s else Some (StepFailed (step_of item))) \<and>
           rn_statuses s' = AList.update (step_of item) (if go then Passed else Failed) (rn_statuses s))"

lemma serial_called:
  assumes x: "bindS (publish_run env False Running) (\<lambda>_. bindS (call_worker rq ex) (serial_rest env item ex rq)) s = (r, s')"
    and d: "tracks env p0 s d" "di_out d = []" "step_of item \<notin> set (di_passed d)" "may_call env d rq"
      "wq_step_id rq = step_of item"
  shows "served env p0 item d s (r, s')"
proof -
  obtain r2 s2 where p2: "publish_run env False Running s = (r2, s2)" by force
  from quietD [OF quiet_publish_run p2] have c2: "core s2 = core s" "rn_reason s2 = rn_reason s" by auto
  let ?s3 = "s2\<lparr>rn_log := rn_log s2 @ [WorkerCalled rq]\<rparr>"
  have "tracks env p0 s2 d" using d(1) by (simp add: tracks_core [OF c2(1)])
  note d3 = tracks_call [OF this d(4)]
  have out: "step_of item \<in> fst ` set (di_out (after_call rq d))" "step_of item \<notin> set (di_passed (after_call rq d))"
    using d(3,5) by (simp_all add: after_call_def)
  show ?thesis
  proof (cases r2)
    case (Inl e)
    with x p2 have "r = Inl e" "s' = s2" by (simp_all add: bindS_err)
    with quiet_raised [OF quiet_publish_run _ tracks_admissible [OF d(1)]] p2 Inl show ?thesis by (simp add: served_def)
  next
    case (Inr u)
    with x p2 have "bindS (call_worker rq ex) (serial_rest env item ex rq) s2 = (r, s')" by (simp add: bindS_ok)
    then have x3: "serial_rest env item ex rq (ex_call ex rq) ?s3 = (r, s')"
      by (simp add: bindS_def call_worker_def)
    show ?thesis
    proof (cases "ex_call ex rq")
      case (Raised c)
      with x3 tracks_admissible [OF d3] show ?thesis
        by (auto simp: raiseS_def raised_ok_def honest_def serial_rest_def served_def)
    next
      case (Answered res)
      with x3 have "bindS (take_in env (item, ex, rq) res) (\<lambda>_.
        bindS (publish_run env True Running) (\<lambda>_. if succeeded res then retS True
        else bindS (putS (\<lambda>s. s\<lparr>rn_reason := Some (StepFailed (step_of item))\<rparr>)) (\<lambda>_.
          bindS (send_escalation env item res) (\<lambda>_. retS False)))) ?s3 = (r, s')" by (simp add: serial_rest_def)
      note ans = serial_answer [OF this d3 out]
      have "rn_statuses s2 = rn_statuses s" using c2(1) by (simp add: core_def)
      with ans c2(2) d(2,5) show ?thesis
        by (cases r) (auto simp: served_def after_result_def after_call_def took_def set_status_def
            intro!: exI [of _ "after_result item res (after_call rq d)"])
    qed
  qed
qed

lemma execute_serial_outcome:
  assumes x: "execute_serial env item w s = (r, s')"
    and d: "tracks env p0 s d" "di_out d = []" "step_of item \<notin> set (di_begun d)" "step_of item \<notin> set (di_passed d)"
      "set (awaited env item) \<subseteq> set (di_passed d)" "rn_cost s < hard_budget env"
    and item: "planned_item env (step_of item) = Some item"
  shows "served env p0 item d (set_status (step_of item) Running s) (r, s')"
proof (cases "map_of (og_executors env) (endpoint_of item)")
  case None
  with x d(1) show ?thesis by (auto simp: execute_serial_def raised_ok_def honest_def tracks_admissible served_def)
next
  case (Some ex)
  let ?b = "max 0 (hard_budget env - rn_cost s)" and ?run = "set_status (step_of item) Running"
  obtain r1 s1 where p: "prepare env ?b (item, ex, w) s = (r1, s1)" by force
  have d1: "tracks env p0 (?run s) d" by (rule tracks_status [OF d(1) d(4)]) simp_all
  note x = x [unfolded execute_serial_parts [OF Some]]
  show ?thesis
  proof (cases r1)
    case (Inl e)
    with x p have "r = Inl e" "s' = s1" by (simp_all add: bindS_err)
    with becomes_raised [OF prepare_becomes _ tracks_admissible [OF d(1)] tracks_admissible [OF d1], of env ?b ex w e s1]
      p Inl show ?thesis by (simp add: served_def)
  next
    case (Inr t)
    obtain i x' rq where "t = (i, x', rq)" by (cases t)
    with prepare_result p Inr have t: "t = (item, ex, rq)" "request_for item ?b rq" by fastforce+
    from becomesD [OF prepare_becomes p] Inr have c1: "core s1 = core (?run s)" "rn_reason s1 = rn_reason (?run s)"
      by (auto simp: set_status_def)
    from d1 have d2: "tracks env p0 s1 d" by (simp add: tracks_core [OF c1(1)])
    have cost: "rn_cost s1 = rn_cost s" using c1(1) by (simp add: core_def set_status_def)
    have call: "may_call env d rq"
      by (rule serial_call_admitted [OF d2 d(2,3,4,5) _ item]) (use t(2) d(6) in \<open>simp_all add: cost\<close>)
    have "served env p0 item d s1 (r, s')"
      by (rule serial_called [OF _ d2 d(2,4) call])
        (use x p Inr t in \<open>simp_all add: bindS_ok request_for_def\<close>)
    moreover have st: "rn_statuses s1 = rn_statuses (?run s)" using c1(1) by (simp add: core_def)
    ultimately show ?thesis unfolding served_def c1(2) st by simp
  qed
qed

text \<open>One step of a serial run: the next steps, or the end of the run.\<close>

definition serial_post :: "runtime_env \<Rightarrow> pystr list \<Rightarrow> PlannedStep list \<Rightarrow> (run_error + bool) \<times> run_state \<Rightarrow> bool" where
  "serial_post env p0 todo = (\<lambda>(r, s). case r of
     Inl e \<Rightarrow> raised_ok env p0 e s
   | Inr go \<Rightarrow> (if go then idle env p0 todo s else halted env p0 s))"

lemma idle_status:
  assumes "idle env p0 (item # todo) s" "map_of (rn_statuses s) (step_of item) \<noteq> Some Passed" "st \<notin> {Passed, Skipped}"
  shows "idle env p0 todo (set_status (step_of item) st s)"
proof -
  from assms(1) obtain d where d: "tracks env p0 s d" "di_out d = []" "set (di_begun d) \<inter> step_of ` set (item # todo) = {}"
    unfolding idle_def by (elim conjE exE) (rule that)
  with assms(2,3) have "tracks env p0 (set_status (step_of item) st s) d"
    by (intro tracks_status) (auto simp: tracks_def)
  with assms(1) d(2,3) show ?thesis
    by (auto simp: idle_def set_status_def map_of_AList_update intro!: exI [of _ d])
qed

lemma halted_status:
  assumes "idle env p0 todo s" "st \<in> {Failed, Blocked}" "map_of (rn_statuses s) k \<noteq> Some Passed"
    "core s' = core (set_status k st s)"
  shows "halted env p0 s'"
proof -
  from assms(1) obtain d where d: "tracks env p0 s d" "di_out d = []" by (auto simp: idle_def)
  with assms(2,3) have "tracks env p0 (set_status k st s) d" by (intro tracks_status) (auto simp: tracks_def)
  then have "tracks env p0 s' d" by (simp add: tracks_core [OF assms(4)])
  moreover have "map_of (rn_statuses s') k = Some st"
    using assms(4) by (simp add: core_def set_status_def map_of_AList_update)
  ultimately show ?thesis using d(2) assms(2) by (auto simp: halted_def)
qed

lemma idle_served:
  assumes i: "idle env p0 (item # todo) s" and d: "tracks env p0 s d" "di_out d = []"
      "set (di_begun d) \<inter> step_of ` set (item # todo) = {}"
    and new: "step_of item \<notin> step_of ` set todo" and sv: "served env p0 item d (set_status (step_of item) Running s) (r, s')"
  shows "serial_post env p0 todo (r, s')"
proof (cases r)
  case (Inl e)
  with sv show ?thesis by (simp add: serial_post_def served_def)
next
  case (Inr go)
  with sv obtain d' where d': "tracks env p0 s' d'" "di_out d' = []" "di_begun d' = di_begun d @ [step_of item]"
    and reason: "rn_reason s' = (if go then rn_reason (set_status (step_of item) Running s) else Some (StepFailed (step_of item)))"
    and st: "rn_statuses s' = AList.update (step_of item) (if go then Passed else Failed)
      (rn_statuses (set_status (step_of item) Running s))"
    unfolding served_def by auto
  show ?thesis
  proof (cases go)
    case True
    have "rn_reason s' = None" "map_of (rn_statuses s') = (map_of (rn_statuses s))(step_of item \<mapsto> Passed)"
      using i reason st True by (auto simp: idle_def set_status_def update_conv' map_of_AList_update)
    moreover have "set (di_begun d') \<inter> step_of ` set todo = {}" using d'(3) d(3) new by auto
    moreover have "\<forall>k. planned_item env k \<noteq> None \<longrightarrow> k \<notin> step_of ` set (item # todo) \<longrightarrow> map_of (rn_statuses s) k \<noteq> None"
      using i unfolding idle_def by blast
    ultimately have "idle env p0 todo s'"
      using d'(1,2) unfolding idle_def by (intro conjI exI [of _ d']) auto
    with Inr True show ?thesis by (simp add: serial_post_def)
  next
    case False
    with d' st have "halted env p0 s'"
      by (auto simp: halted_def map_of_AList_update intro!: exI [of _ "step_of item"])
    with Inr False show ?thesis by (simp add: serial_post_def)
  qed
qed

lemma core_record [simp]:
  "core (s\<lparr>rn_reason := x\<rparr>) = core s" "core (s\<lparr>rn_results := y\<rparr>) = core s" "core (s\<lparr>rn_activities := z\<rparr>) = core s"
  "core (add_result w s) = core s" "core (set_activity a b s) = core s"
  by (simp_all add: core_def add_result_def set_activity_def)

lemma reason_record [simp]:
  "rn_reason (add_result w s) = rn_reason s" "rn_reason (set_activity a b s) = rn_reason s"
  "rn_reason (set_status k st s) = rn_reason s"
  by (simp_all add: add_result_def set_activity_def set_status_def)

text \<open>The stages of a serial step, each from the state the one before leaves.\<close>

definition serial_launch :: "runtime_env \<Rightarrow> PlannedStep \<Rightarrow> BudgetDecision \<Rightarrow> bool run" where
  "serial_launch env item d s2 =
     (if \<not> bd_allowed d then stop_run (BudgetSpent (bd_reason d)) (set_status (step_of item) Blocked s2)
      else case workspace_for env item s2 of
        (Inl e, s3) \<Rightarrow> stop_run (WorkspaceProblem e)
          (add_result (blocked_result item e) (set_activity (step_of item) e (set_status (step_of item) Blocked s3)))
      | (Inr w, s3) \<Rightarrow> execute_serial env item w s3)"

definition serial_enter :: "runtime_env \<Rightarrow> PlannedStep \<Rightarrow> bool \<Rightarrow> bool run" where
  "serial_enter env item stopped s1 =
     (if stopped then stop_run StoppedByUser s1
      else if list_ex (\<lambda>d. d \<in> fst ` set (rn_statuses s1) \<and> map_of (rn_statuses s1) d \<noteq> Some Passed)
             (rp_depends_on (pl_step item))
      then (Inr True, add_result (blocked_result item (lit ''blocked by failed dependency''))
              (set_status (step_of item) Blocked s1))
      else bindS check_budget (serial_launch env item) s1)"

lemma serial_step_parts:
  "serial_step env item s = (if map_of (rn_statuses s) (step_of item) = Some Passed then (Inr True, s)
     else bindS (consume_mobile env) (serial_enter env item) s)"
  unfolding serial_step_def serial_enter_def [abs_def] serial_launch_def [abs_def] by (rule refl)

lemma serial_launch_outcome:
  assumes x: "serial_launch env item b s = (r, s')" and i: "idle env p0 (item # todo) s"
    and b: "bd_allowed b = (rn_cost s < hard_budget env)"
    and new: "step_of item \<notin> step_of ` set todo" "planned_item env (step_of item) = Some item"
    and st: "map_of (rn_statuses s) (step_of item) \<noteq> Some Passed"
    and deps: "\<forall>k \<in> set (awaited env item). map_of (rn_statuses s) k = Some Passed"
  shows "serial_post env p0 todo (r, s')"
proof (cases "bd_allowed b")
  case False
  with x have r: "r = Inr False" "core s' = core (set_status (step_of item) Blocked s)"
    by (auto simp: serial_launch_def stop_run_def)
  from halted_status [OF i _ st r(2)] r(1) show ?thesis by (simp add: serial_post_def)
next
  case True
  obtain rw s3 where w: "workspace_for env item s = (rw, s3)" by force
  from workspace_for_core [OF w] have c3: "core s3 = core s" "rn_reason s3 = rn_reason s" by auto
  then have i3: "idle env p0 (item # todo) s3" and cost: "rn_cost s3 = rn_cost s" and st3: "rn_statuses s3 = rn_statuses s"
    using i by (simp_all add: idle_core [OF c3]) (simp_all add: core_def)
  show ?thesis
  proof (cases rw)
    case (Inl e)
    with x True w have r: "r = Inr False" "core s' = core (set_status (step_of item) Blocked s3)"
      by (auto simp: serial_launch_def stop_run_def)
    from halted_status [OF i3 _ _ r(2)] st st3 r(1) show ?thesis by (simp add: serial_post_def)
  next
    case (Inr ws)
    with x True w have x: "execute_serial env item ws s3 = (r, s')" by (simp add: serial_launch_def)
    from i3 obtain d where d: "tracks env p0 s3 d" "di_out d = []" "set (di_begun d) \<inter> step_of ` set (item # todo) = {}"
      unfolding idle_def by (elim conjE exE) (rule that)
    have "served env p0 item d (set_status (step_of item) Running s3) (r, s')"
      by (rule execute_serial_outcome [OF x d(1,2) _ _ _ _ new(2)])
        (use d st st3 deps True b cost in \<open>auto simp: tracks_def\<close>)
    from idle_served [OF i3 d new(1) this] show ?thesis .
  qed
qed

lemma serial_step_outcome:
  assumes x: "serial_step env item s = (r, s')" and i: "idle env p0 (item # todo) s"
    and new: "step_of item \<notin> step_of ` set todo" "planned_item env (step_of item) = Some item"
    and deps: "\<forall>k \<in> set (awaited env item). k \<notin> step_of ` set (item # todo)"
  shows "serial_post env p0 todo (r, s')"
proof (cases "map_of (rn_statuses s) (step_of item) = Some Passed")
  case True
  with x have "r = Inr True" "s' = s" by (simp_all add: serial_step_parts)
  moreover have "idle env p0 todo s"
    using i True unfolding idle_def by (fastforce split: if_splits)
  ultimately show ?thesis by (simp add: serial_post_def)
next
  case st: False
  obtain r1 s1 where m: "consume_mobile env s = (r1, s1)" by force
  from quietD [OF quiet_consume_mobile m] have c1: "core s1 = core s" "rn_reason s1 = rn_reason s" by auto
  then have i1: "idle env p0 (item # todo) s1" and st1: "rn_statuses s1 = rn_statuses s"
    using i by (simp_all add: idle_core [OF c1]) (simp_all add: core_def)
  show ?thesis
  proof (cases r1)
    case (Inl e)
    with x st m have "r = Inl e" "s' = s1" by (simp_all add: serial_step_parts bindS_err)
    with quiet_raised [OF quiet_consume_mobile _ idle_admissible [OF i]] m Inl show ?thesis by (simp add: serial_post_def)
  next
    case (Inr stopped)
    with x st m have x1: "serial_enter env item stopped s1 = (r, s')" by (simp add: serial_step_parts bindS_ok)
    let ?bad = "list_ex (\<lambda>d. d \<in> fst ` set (rn_statuses s1) \<and> map_of (rn_statuses s1) d \<noteq> Some Passed)
             (rp_depends_on (pl_step item))"
    consider "stopped" | "\<not> stopped" "?bad" | "\<not> stopped" "\<not> ?bad" by blast
    then show ?thesis
    proof cases
      case 1
      with x1 have r: "r = Inr False" "s' = s1\<lparr>rn_reason := Some StoppedByUser\<rparr>"
        by (simp_all add: serial_enter_def stop_run_def)
      from i1 obtain d where d: "tracks env p0 s1 d" "di_out d = []" by (auto simp: idle_def)
      then have "tracks env p0 s' d" using r(2) tracks_core [of s' s1] by simp
      with d(2) r show ?thesis by (auto simp: serial_post_def halted_def)
    next
      case 2
      with x1 have r: "r = Inr True" "s' = add_result (blocked_result item (lit ''blocked by failed dependency''))
              (set_status (step_of item) Blocked s1)"
        by (simp_all add: serial_enter_def)
      have "idle env p0 todo (set_status (step_of item) Blocked s1)"
        by (rule idle_status [OF i1]) (use st st1 in simp_all)
      then have "idle env p0 todo s'" using r(2) idle_core [of s' "set_status (step_of item) Blocked s1"] by simp
      with r(1) show ?thesis by (simp add: serial_post_def)
    next
      case 3
      obtain rb s2 where b: "check_budget s1 = (rb, s2)" by force
      from i1 obtain d where d: "tracks env p0 s1 d" by (auto simp: idle_def)
      from check_budget_core [OF b] obtain bd where bd: "core s2 = core s1" "rn_reason s2 = rn_reason s1" "rb = Inr bd"
        "bd_allowed bd = (rn_cost s1 < hard_budget env)"
        using d by (auto simp: tracks_def)
      from x1 3 b bd(3) have x2: "serial_launch env item bd s2 = (r, s')" by (simp add: serial_enter_def bindS_ok)
      have i2: "idle env p0 (item # todo) s2" using i1 by (simp add: idle_core [OF bd(1,2)])
      have st2: "rn_statuses s2 = rn_statuses s1" "rn_cost s2 = rn_cost s1" using bd(1) by (simp_all add: core_def)
      have "map_of (rn_statuses s1) k = Some Passed" if k: "k \<in> set (awaited env item)" for k
      proof -
        from k deps i1 have "map_of (rn_statuses s1) k \<noteq> None" unfolding idle_def awaited_def by auto
        then have "k \<in> fst ` set (rn_statuses s1)" by (simp add: map_of_eq_None_iff)
        with k 3(2) show ?thesis by (auto simp: list_ex_iff awaited_def)
      qed
      with st st1 st2 bd(4) show ?thesis by (intro serial_launch_outcome [OF x2 i2 _ new]) auto
    qed
  qed
qed

lemma serial_steps_outcome:
  assumes "plan_order (og_plan env) = Some (xs @ todo)" "idle env p0 todo s" "serial_steps env todo s = (r, s')"
  shows "case r of Inl e \<Rightarrow> raised_ok env p0 e s' | Inr _ \<Rightarrow> idle env p0 [] s' \<or> halted env p0 s'"
  using assms
proof (induction todo arbitrary: xs s)
  case Nil
  then show ?case by (auto simp: retS_def)
next
  case (Cons item todo)
  note order = plan_order_facts [OF Cons.prems(1)]
  have order': "plan_order (og_plan env) = Some ((xs @ [item]) @ todo)" using Cons.prems(1) by simp
  obtain r1 s1 where m: "serial_step env item s = (r1, s1)" by force
  have "serial_post env p0 todo (r1, s1)"
  proof (rule serial_step_outcome [OF m Cons.prems(2)])
    show "step_of item \<notin> step_of ` set todo" using order(1) by auto
    show "planned_item env (step_of item) = Some item" by (rule order(2)) simp
    show "\<forall>k \<in> set (awaited env item). k \<notin> step_of ` set (item # todo)"
      using order(1) order(4) [of xs item todo] by fastforce
  qed
  note post = this [unfolded serial_post_def prod.case]
  show ?case
  proof (cases r1)
    case (Inl e)
    with post Cons.prems(3) m show ?thesis by (auto simp: bindS_err)
  next
    case (Inr go)
    show ?thesis
    proof (cases go)
      case True
      with post Inr have "idle env p0 todo s1" by simp
      moreover from Cons.prems(3) m Inr True have "serial_steps env todo s1 = (r, s')" by (simp add: bindS_ok)
      ultimately show ?thesis by (rule Cons.IH [OF order'])
    next
      case False
      with post Inr Cons.prems(3) m show ?thesis by (auto simp: bindS_ok retS_def)
    qed
  qed
qed

section \<open>The start and the end of a run\<close>

text \<open>What the journal reports at the start.\<close>

lemma reconcile_rows:
  assumes "reconcile_after_restart env f = (Inr snap, f')"
  shows "distinct (map sj_step_id (rs_steps snap)) \<and> rs_completed snap = steps_in SPassed (rs_steps snap)"
proof -
  from assms have "journal_snapshot env f' = Inr snap"
    by (auto simp: reconcile_after_restart_def Let_def split: sum.splits)
  then obtain d where d: "journal_load env f' = Inr d" "snap = snapshot_of (je_run env) d"
    by (auto simp: journal_snapshot_def split: sum.splits)
  from sorted_values_distinct [OF journal_loaded_ok [OF d(1)]] show ?thesis
    by (simp add: d(2) snapshot_of_def Let_def)
qed

lemma recovered_lookup:
  "distinct (map sj_step_id (rs_steps snap)) \<Longrightarrow> map_of (recovered_statuses f snap) k = Some st \<longleftrightarrow>
     (\<exists>r \<in> set (rs_steps snap). sj_step_id r = k \<and> sj_status r \<in> {SPassed, SFailed} \<and>
        st = (if sj_status r = SPassed then Passed else f))"
proof -
  assume d: "distinct (map sj_step_id (rs_steps snap))"
  then have "distinct (map fst (recovered_statuses f snap))"
    by (simp add: recovered_statuses_def comp_def distinct_map_filter)
  then show ?thesis by (auto simp: recovered_statuses_def)
qed

definition fresh :: "runtime_env \<Rightarrow> run_state \<Rightarrow> bool" where
  "fresh env s \<longleftrightarrow> rn_log s = [] \<and> rn_cost s = og_initial_cost env \<and> rn_reason s = None \<and>
     gv_hard (rn_governor s) = hard_budget env \<and> \<not> gv_shadow (rn_governor s) \<and> \<not> gv_override (rn_governor s)"

lemma fresh_state_fresh: "fresh env (fresh_state env polls files)"
  by (simp add: fresh_def fresh_state_def hard_budget_def)

lemma fresh_core:
  assumes "core s' = core s" "rn_reason s' = rn_reason s" shows "fresh env s' = fresh env s"
  using assms by (simp add: fresh_def core_def)

lemma fresh_admissible: "fresh env s \<Longrightarrow> admissible env p0 s"
  by (simp add: fresh_def admissible_def)

lemma fresh_tracks:
  assumes "fresh env s" "distinct (map sj_step_id (rs_steps snap))" "f \<noteq> Passed" "f \<noteq> Skipped"
    "rs_completed snap = steps_in SPassed (rs_steps snap)"
  shows "tracks env (rs_completed snap) (s\<lparr>rn_statuses := recovered_statuses f snap\<rparr>)
    (dispatch_start env (rs_completed snap))"
proof -
  note lk = recovered_lookup [OF assms(2), of f]
  have "map_of (recovered_statuses f snap) k = Some Passed \<longleftrightarrow> k \<in> set (rs_completed snap)" for k
    using assms(3) by (auto simp: lk assms(5) steps_in_def)
  moreover have "map_of (recovered_statuses f snap) k \<noteq> Some Skipped" for k
    using assms(3,4) by (auto simp: lk)
  ultimately show ?thesis using assms(1) by (simp add: tracks_def fresh_def dispatch_start_def)
qed

text \<open>How a run ends: with an error, or with a result that is \<open>Passed\<close> only when every planned step passed.\<close>

definition run_post :: "runtime_env \<Rightarrow> pystr list \<Rightarrow> (run_error + OrchestrationResult) \<times> run_state \<Rightarrow> bool" where
  "run_post env p0 = (\<lambda>(r, s). case r of
     Inl e \<Rightarrow> raised_ok env p0 e s
   | Inr res \<Rightarrow> admissible env p0 s \<and> (ores_status res = Passed \<longrightarrow>
       (\<exists>d. observe_all env (rn_log s) (dispatch_start env p0) = Some d \<and> di_out d = [] \<and>
          (\<forall>k. planned_item env k \<noteq> None \<longrightarrow> k \<in> set (di_passed d)) \<and>
          ores_total_cost_usd res = py_round 12 (di_cost d))))"

lemma passed_status:
  assumes "final_status (og_plan env) s = Passed" "idle env p0 [] s \<or> halted env p0 s"
  shows "\<exists>d. tracks env p0 s d \<and> di_out d = [] \<and> (\<forall>k. planned_item env k \<noteq> None \<longrightarrow> k \<in> set (di_passed d))"
proof -
  from assms(1) have reason: "rn_reason s \<noteq> Some StoppedByUser"
    and all: "\<And>k st. (k, st) \<in> set (rn_statuses s) \<Longrightarrow> st \<in> {Passed, Skipped}"
    by (auto simp: final_status_def run_completed_def list_all_iff split: if_splits)
  have "\<not> halted env p0 s" using reason all by (fastforce simp: halted_def dest: map_of_SomeD)
  with assms(2) have i: "idle env p0 [] s" by simp
  then obtain d where d: "tracks env p0 s d" "di_out d = []" by (auto simp: idle_def)
  have "k \<in> set (di_passed d)" if "planned_item env k \<noteq> None" for k
  proof -
    from i that obtain st where "map_of (rn_statuses s) k = Some st" by (auto simp: idle_def)
    with all [of k st] d(1) map_of_SomeD [of "rn_statuses s" k st] show ?thesis by (auto simp: tracks_def)
  qed
  with d show ?thesis by blast
qed

lemma finish_run_outcome:
  assumes x: "finish_run env s = (r, s')" and i: "idle env p0 [] s \<or> halted env p0 s"
  shows "run_post env p0 (r, s')"
proof -
  let ?pub = "\<lambda>s. publish_run env True (final_status (og_plan env) s) s"
  have q: "quiet ?pub" by (rule quiet_state) (rule quiet_publish_run)
  obtain r1 s1 where m: "?pub s = (r1, s1)" by force
  from quietD [OF q m] have c: "core s1 = core s" "rn_reason s1 = rn_reason s" by auto
  from i have adm: "admissible env p0 s" by (auto simp: halted_def idle_admissible tracks_admissible)
  then have adm1: "admissible env p0 s1" using admissible_log [OF core_log [OF c(1)]] by simp
  show ?thesis
  proof (cases r1)
    case (Inl e)
    with x m have "r = Inl e" "s' = s1" by (simp_all add: finish_run_def bindS_err)
    with quiet_raised [OF q _ adm] m Inl show ?thesis by (simp add: run_post_def)
  next
    case (Inr u)
    note x = x [unfolded finish_run_def bindS_ok [where m = ?pub, OF m [unfolded Inr]]]
    show ?thesis
    proof (cases "savings_receipt env s1")
      case None
      with x adm1 show ?thesis by (auto simp: run_post_def raised_ok_def honest_def)
    next
      case (Some receipt)
      with x obtain res where res: "r = Inr res" "s' = s1" "ores_status res = final_status (og_plan env) s1"
        "ores_total_cost_usd res = py_round 12 (rn_cost s1)"
        by (auto split: prod.splits)
      have fs: "final_status (og_plan env) s1 = final_status (og_plan env) s"
        using c by (simp add: final_status_def run_completed_def review_satisfied_def core_def)
      have "\<exists>d. observe_all env (rn_log s1) (dispatch_start env p0) = Some d \<and> di_out d = [] \<and>
          (\<forall>k. planned_item env k \<noteq> None \<longrightarrow> k \<in> set (di_passed d)) \<and>
          ores_total_cost_usd res = py_round 12 (di_cost d)" if "ores_status res = Passed"
      proof -
        from that res(3) fs have "final_status (og_plan env) s = Passed" by simp
        from passed_status [OF this i] obtain d where d: "tracks env p0 s1 d" "di_out d = []"
          "\<forall>k. planned_item env k \<noteq> None \<longrightarrow> k \<in> set (di_passed d)"
          by (auto simp: tracks_core [OF c(1)])
        with res(4) show ?thesis by (auto simp: tracks_def)
      qed
      with adm1 res show ?thesis by (simp add: run_post_def)
    qed
  qed
qed

lemma refuse_recovery_outcome:
  assumes "refuse_recovery env snap s = (r, s')" "fresh env s"
  shows "run_post env p0 (r, s')"
proof -
  let ?pub = "\<lambda>s. publish_mission env (recovery_texts snap)
         (map (\<lambda>k. (k, lit ''External work must be reconciled before retry'')) (rs_reconcile_required snap))
         (rn_cost s) (rn_tokens s) 0 None Blocked s"
  have q: "quiet ?pub" unfolding publish_mission_def by (rule quiet_state) (intro quiets)
  obtain r1 s1 where m: "?pub s = (r1, s1)" by force
  from quietD [OF q m] core_log [of s1 s] assms(2) have c: "admissible env p0 s1" "\<And>e. r1 = Inl e \<Longrightarrow> honest e s1"
    by (auto simp: admissible_def fresh_def)
  from assms(1) m c show ?thesis
    by (cases r1) (auto simp: refuse_recovery_def bindS_def run_post_def raised_ok_def)
qed

text \<open>The steps the journal reports as passed when the run looks at it.\<close>

definition completed_before :: "runtime_env \<Rightarrow> run_state \<Rightarrow> pystr list" where
  "completed_before env s =
     (case fst (on_journal (reconcile_after_restart (og_journal env)) s) of Inr snap \<Rightarrow> rs_completed snap | Inl _ \<Rightarrow> [])"

lemma journal_seen:
  assumes "on_journal (reconcile_after_restart (og_journal env)) s = (Inr snap, s')"
  shows "distinct (map sj_step_id (rs_steps snap))" "rs_completed snap = steps_in SPassed (rs_steps snap)"
    "completed_before env s = rs_completed snap"
  using assms reconcile_rows [of "og_journal env" "rn_journal s" snap]
  by (auto simp: completed_before_def on_journal_def zoomS_def split: prod.splits sum.splits)

lemma start_outcome:
  assumes x: "bindS (on_journal (reconcile_after_restart (og_journal env))) (\<lambda>snap.
      if rs_reconcile_required snap \<noteq> [] then refuse_recovery env snap
      else bindS (putS (\<lambda>s. s\<lparr>rn_statuses := recovered_statuses f snap\<rparr>)) (\<lambda>_. rest)) s = (r, s')"
    and f: "fresh env s" "f \<noteq> Passed" "f \<noteq> Skipped"
    and rest: "\<And>t. fresh env t \<Longrightarrow> tracks env (completed_before env s) t (dispatch_start env (completed_before env s)) \<Longrightarrow>
      rest t = (r, s') \<Longrightarrow> run_post env (completed_before env s) (r, s')"
  shows "run_post env (completed_before env s) (r, s')"
proof -
  let ?j = "on_journal (reconcile_after_restart (og_journal env)) :: RecoverySnapshot run"
  have q: "quiet ?j" by (rule quiet_files)
  obtain r1 s1 where j: "?j s = (r1, s1)" by force
  from quietD [OF q j] have f1: "fresh env s1" using f(1) fresh_core [of s1 s] by simp
  show ?thesis
  proof (cases r1)
    case (Inl e)
    with x j have "r = Inl e" "s' = s1" by (simp_all add: bindS_err)
    with quiet_raised [OF q _ fresh_admissible [OF f(1)]] j Inl show ?thesis by (simp add: run_post_def)
  next
    case (Inr snap)
    note seen = journal_seen [OF j [unfolded Inr]]
    let ?t = "s1\<lparr>rn_statuses := recovered_statuses f snap\<rparr>"
    from x j Inr have x1: "(if rs_reconcile_required snap \<noteq> [] then refuse_recovery env snap s1 else rest ?t) = (r, s')"
      by (simp add: bindS_ok split: if_splits) (simp add: bindS_def putS_def)
    have "fresh env ?t" using f1 by (simp add: fresh_def)
    with fresh_tracks [OF f1 seen(1) f(2,3) seen(2)] x1 seen(3) rest [of ?t] refuse_recovery_outcome [OF _ f1] show ?thesis
      by (auto split: if_splits)
  qed
qed

theorem run_serial_outcome:
  assumes x: "run_serial env s = (r, s')" and f: "fresh env s"
  shows "run_post env (completed_before env s) (r, s')"
  using x unfolding run_serial_def
proof (rule start_outcome [OF _ f])
  let ?p0 = "completed_before env s"
  fix t assume f: "fresh env t" and tr: "tracks env ?p0 t (dispatch_start env ?p0)"
    and x: "bindS (publish_run env False Running) (\<lambda>_. case plan_order (og_plan env) of None \<Rightarrow> raiseS DependencyCycle
        | Some order \<Rightarrow> bindS (serial_steps env order) (\<lambda>_. finish_run env)) t = (r, s')"
  obtain r1 s1 where p: "publish_run env False Running t = (r1, s1)" by force
  from quietD [OF quiet_publish_run p] have c: "core s1 = core t" "rn_reason s1 = rn_reason t" by auto
  have tr1: "tracks env ?p0 s1 (dispatch_start env ?p0)" using tr by (simp add: tracks_core [OF c(1)])
  show "run_post env ?p0 (r, s')"
  proof (cases r1)
    case (Inl e)
    with x p have "r = Inl e" "s' = s1" by (simp_all add: bindS_err)
    with quiet_raised [OF quiet_publish_run _ tracks_admissible [OF tr]] p Inl show ?thesis by (simp add: run_post_def)
  next
    case (Inr u)
    note x1 = x [unfolded bindS_ok [where m = "publish_run env False Running", OF p [unfolded Inr]]]
    show ?thesis
    proof (cases "plan_order (og_plan env)")
      case None
      with x1 tracks_admissible [OF tr1] show ?thesis by (auto simp: raiseS_def run_post_def honest_def raised_ok_def)
    next
      case (Some order)
      have i: "idle env ?p0 order s1"
        using tr1 f c plan_order_facts(3) [OF Some] unfolding idle_def fresh_def
        by (intro conjI exI [of _ "dispatch_start env ?p0"]) (auto simp: dispatch_start_def)
      obtain r2 s2 where ss: "serial_steps env order s1 = (r2, s2)" by force
      note out = serial_steps_outcome [OF _ i ss, of "[]", simplified, OF Some]
      show ?thesis
      proof (cases r2)
        case (Inl e)
        with x1 Some ss out show ?thesis by (auto simp: bindS_err run_post_def)
      next
        case (Inr v)
        with x1 Some ss have "finish_run env s2 = (r, s')" by (simp add: bindS_ok)
        from finish_run_outcome [OF this] out Inr show ?thesis by simp
      qed
    qed
  qed
qed simp_all

end
