(* ===== verification/WaveProofs.thy ===== *)
theory WaveProofs imports RuntimeProofs begin

text \<open>
  Parallel runs implement the machine of \<^verbatim>\<open>Dispatch\<close> too: a wave prepares its requests, calls its workers in
  plan order and takes their results in, in plan order.
\<close>

section \<open>Parallel runs\<close>

text \<open>Between waves nobody is out, what is pending is new, and every other planned step has a status.\<close>

definition settled :: "runtime_env \<Rightarrow> pystr list \<Rightarrow> run_state \<Rightarrow> bool" where
  "settled env p0 s \<longleftrightarrow> (\<exists>d. tracks env p0 s d \<and> di_out d = [] \<and> set (rn_pending s) \<inter> set (di_begun d) = {} \<and>
     set (rn_pending s) \<inter> set (di_passed d) = {})"

definition has_status :: "runtime_env \<Rightarrow> run_state \<Rightarrow> bool" where
  "has_status env s \<longleftrightarrow>
     (\<forall>k. planned_item env k \<noteq> None \<longrightarrow> k \<notin> set (rn_pending s) \<longrightarrow> map_of (rn_statuses s) k \<noteq> None)"

definition cut_short :: "run_state \<Rightarrow> bool" where
  "cut_short s \<longleftrightarrow> rn_reason s = Some StoppedByUser \<or> (\<exists>k. map_of (rn_statuses s) k \<in> Some ` {Failed, Blocked})"

lemma settled_core:
  assumes "core s' = core s" shows "settled env p0 s' = settled env p0 s"
proof -
  have "rn_pending s' = rn_pending s" using assms by (simp add: core_def)
  then show ?thesis by (simp add: settled_def tracks_core [OF assms])
qed

lemma has_status_core: "core s' = core s \<Longrightarrow> has_status env s' = has_status env s"
  by (simp add: has_status_def core_def)

lemma settled_admissible: "settled env p0 s \<Longrightarrow> admissible env p0 s"
  by (auto simp: settled_def tracks_admissible)

lemma settled_halted: "settled env p0 s \<Longrightarrow> cut_short s \<Longrightarrow> halted env p0 s"
  by (auto simp: settled_def cut_short_def halted_def)

lemma settled_idle:
  "settled env p0 s \<Longrightarrow> has_status env s \<Longrightarrow> rn_reason s = None \<Longrightarrow> rn_pending s = [] \<Longrightarrow> idle env p0 [] s"
  by (auto simp: settled_def has_status_def idle_def)

lemma add_blocked_core:
  "core (add_blocked item w s) =
     core (set_status (step_of item) Blocked s\<lparr>rn_pending := removeAll (step_of item) (rn_pending s)\<rparr>)"
  "rn_reason (add_blocked item w s) = rn_reason s"
  "rn_pending (add_blocked item w s) = removeAll (step_of item) (rn_pending s)"
  "map_of (rn_statuses (add_blocked item w s)) = (map_of (rn_statuses s))(step_of item \<mapsto> Blocked)"
  by (simp_all add: add_blocked_def core_def add_result_def set_activity_def set_status_def update_conv')

lemma add_blocked_settled:
  assumes "settled env p0 s" "map_of (rn_statuses s) (step_of item) \<noteq> Some Passed"
  shows "settled env p0 (add_blocked item w s)"
proof -
  let ?s = "set_status (step_of item) Blocked s\<lparr>rn_pending := removeAll (step_of item) (rn_pending s)\<rparr>"
  from assms(1) obtain d where d: "tracks env p0 s d" "di_out d = []" "set (rn_pending s) \<inter> set (di_begun d) = {}"
     "set (rn_pending s) \<inter> set (di_passed d) = {}" by (auto simp: settled_def)
  with assms(2) have "tracks env p0 (set_status (step_of item) Blocked s) d"
    by (intro tracks_status) (auto simp: tracks_def)
  then have "tracks env p0 ?s d" by (simp add: tracks_def)
  with d(2-4) have "settled env p0 ?s" by (auto simp: settled_def)
  then show ?thesis by (simp add: settled_core [OF add_blocked_core(1)])
qed

lemma pending_not_passed: "settled env p0 s \<Longrightarrow> k \<in> set (rn_pending s) \<Longrightarrow> map_of (rn_statuses s) k \<noteq> Some Passed"
  by (auto simp: settled_def tracks_def)

lemma block_item_settled:
  assumes "settled env p0 s"
  shows "settled env p0 (block_item bad item s) \<and> rn_reason (block_item bad item s) = rn_reason s \<and>
    set (rn_pending (block_item bad item s)) \<subseteq> set (rn_pending s) \<and>
    (has_status env s \<longrightarrow> has_status env (block_item bad item s)) \<and> (cut_short s \<longrightarrow> cut_short (block_item bad item s))"
proof -
  let ?t = "add_blocked item (lit ''blocked by failed dependency'') s"
  have "settled env p0 ?t" if "step_of item \<in> set (rn_pending s)"
    by (rule add_blocked_settled [OF assms pending_not_passed [OF assms that]])
  moreover have "has_status env s \<Longrightarrow> has_status env ?t" "cut_short s \<Longrightarrow> cut_short ?t"
    by (auto simp: has_status_def cut_short_def add_blocked_core)
  ultimately show ?thesis using assms by (auto simp: block_item_def add_blocked_core)
qed

lemma block_items_settled:
  "settled env p0 s \<Longrightarrow>
    settled env p0 (fold (block_item bad) order s) \<and> rn_reason (fold (block_item bad) order s) = rn_reason s \<and>
    set (rn_pending (fold (block_item bad) order s)) \<subseteq> set (rn_pending s) \<and>
    (has_status env s \<longrightarrow> has_status env (fold (block_item bad) order s)) \<and>
    (cut_short s \<longrightarrow> cut_short (fold (block_item bad) order s))"
proof (induction order arbitrary: s)
  case (Cons item order)
  from block_item_settled [OF Cons.prems, of bad item] Cons.IH [of "block_item bad item s"] show ?case by auto
qed simp

lemma block_fallout_settled:
  "settled env p0 s \<Longrightarrow>
    settled env p0 (block_fallout bad order s) \<and> rn_reason (block_fallout bad order s) = rn_reason s \<and>
    set (rn_pending (block_fallout bad order s)) \<subseteq> set (rn_pending s) \<and>
    length (rn_pending (block_fallout bad order s)) \<le> length (rn_pending s) \<and>
    (has_status env s \<longrightarrow> has_status env (block_fallout bad order s)) \<and>
    (cut_short s \<longrightarrow> cut_short (block_fallout bad order s))"
proof (induction bad order s rule: block_fallout.induct)
  case (1 bad order s)
  note one = block_items_settled [OF 1(2), of bad order] block_pass_pending [of bad order s]
  show ?case
  proof (cases "rn_pending (fold (block_item bad) order s) = rn_pending s")
    case True
    with one show ?thesis by (subst (1 2 3 4 5 6) block_fallout.simps) (simp add: Let_def)
  next
    case False
    from 1(1) [OF refl False] one have ih: "settled env p0 (block_fallout bad order (fold (block_item bad) order s)) \<and>
        rn_reason (block_fallout bad order (fold (block_item bad) order s)) = rn_reason s \<and>
        set (rn_pending (block_fallout bad order (fold (block_item bad) order s))) \<subseteq> set (rn_pending s) \<and>
        length (rn_pending (block_fallout bad order (fold (block_item bad) order s))) \<le> length (rn_pending s) \<and>
        (has_status env s \<longrightarrow> has_status env (block_fallout bad order (fold (block_item bad) order s))) \<and>
        (cut_short s \<longrightarrow> cut_short (block_fallout bad order (fold (block_item bad) order s)))"
      by auto
    have "block_fallout bad order s = block_fallout bad order (fold (block_item bad) order s)"
      using False by (subst block_fallout.simps) (simp add: Let_def)
    with ih show ?thesis by simp
  qed
qed

lemma block_ready_settled:
  assumes "settled env p0 s" "\<forall>item \<in> set ready. map_of (rn_statuses s) (step_of item) \<noteq> Some Passed"
  shows "settled env p0 (fold (\<lambda>item. add_blocked item w) ready s) \<and>
    rn_reason (fold (\<lambda>item. add_blocked item w) ready s) = rn_reason s \<and>
    (cut_short s \<or> ready \<noteq> [] \<longrightarrow> cut_short (fold (\<lambda>item. add_blocked item w) ready s))"
  using assms
proof (induction ready arbitrary: s)
  case (Cons item ready)
  have "settled env p0 (add_blocked item w s)" using Cons.prems by (intro add_blocked_settled) auto
  moreover have "\<forall>i \<in> set ready. map_of (rn_statuses (add_blocked item w s)) (step_of i) \<noteq> Some Passed"
    using Cons.prems(2) by (auto simp: add_blocked_core)
  moreover have "cut_short (add_blocked item w s)" by (auto simp: cut_short_def add_blocked_core)
  ultimately show ?case using Cons.IH [of "add_blocked item w s"] by (simp add: add_blocked_core)
qed simp

lemma block_rest_settled:
  assumes "settled env p0 s"
  shows "settled env p0 (fold (\<lambda>item s. if step_of item \<in> set (rn_pending s) then add_blocked item w s else s) order s) \<and>
    rn_reason (fold (\<lambda>item s. if step_of item \<in> set (rn_pending s) then add_blocked item w s else s) order s) = rn_reason s \<and>
    (cut_short s \<or> set (rn_pending s) \<inter> step_of ` set order \<noteq> {} \<longrightarrow>
     cut_short (fold (\<lambda>item s. if step_of item \<in> set (rn_pending s) then add_blocked item w s else s) order s))"
  using assms
proof (induction order arbitrary: s)
  case (Cons item order)
  show ?case
  proof (cases "step_of item \<in> set (rn_pending s)")
    case True
    have "settled env p0 (add_blocked item w s)"
      by (rule add_blocked_settled [OF Cons.prems pending_not_passed [OF Cons.prems True]])
    moreover have "cut_short (add_blocked item w s)" by (auto simp: cut_short_def add_blocked_core)
    ultimately show ?thesis using True Cons.IH [of "add_blocked item w s"] by (simp add: add_blocked_core)
  next
    case False
    with Cons.IH [OF Cons.prems] show ?thesis by auto
  qed
qed simp

section \<open>One wave\<close>

text \<open>The workspaces and executors of a wave.\<close>

lemma resolve_wave_outcome:
  "resolve_wave env items s = (r, s') \<Longrightarrow> settled env p0 s \<Longrightarrow>
     \<forall>item \<in> set items. map_of (rn_statuses s) (step_of item) \<noteq> Some Passed \<Longrightarrow>
     case r of
       Inl e \<Rightarrow> raised_ok env p0 e s'
     | Inr None \<Rightarrow> settled env p0 s' \<and> cut_short s'
     | Inr (Some jobs) \<Rightarrow> map fst jobs = items \<and> core s' = core s \<and> rn_reason s' = rn_reason s"
proof (induction items arbitrary: s r s')
  case Nil
  then show ?case by auto
next
  case (Cons item items)
  obtain rw s1 where w: "workspace_for env item s = (rw, s1)" by force
  from workspace_for_core [OF w] have c: "core s1 = core s" "rn_reason s1 = rn_reason s" by auto
  then have st: "rn_statuses s1 = rn_statuses s" "settled env p0 s1"
    using Cons.prems(2) by (simp_all add: settled_core [OF c(1)]) (simp add: core_def)
  show ?case
  proof (cases rw)
    case (Inl e)
    let ?s = "s1\<lparr>rn_reason := Some (WorkspaceProblem e)\<rparr>"
    have "settled env p0 ?s" using st(2) settled_core [of ?s s1] by simp
    then have "settled env p0 (add_blocked item e ?s)" using Cons.prems(3) st(1) by (intro add_blocked_settled) auto
    moreover have "cut_short (add_blocked item e ?s)" by (auto simp: cut_short_def add_blocked_core)
    ultimately show ?thesis using Cons.prems(1) w Inl by auto
  next
    case (Inr ws)
    show ?thesis
    proof (cases "map_of (og_executors env) (endpoint_of item)")
      case None
      with Cons.prems(1) w Inr settled_admissible [OF st(2)] show ?thesis by (auto simp: raised_ok_def honest_def)
    next
      case (Some ex)
      obtain r2 s2 where rest: "resolve_wave env items s1 = (r2, s2)" by force
      note ih = Cons.IH [OF rest st(2)]
      from Cons.prems(1) w Inr Some rest
      have "s' = s2" "r = (case r2 of Inl e \<Rightarrow> Inl e | Inr x \<Rightarrow> Inr (map_option (\<lambda>xs. (item, ex, ws) # xs) x))"
        by (auto simp: bindS_def retS_def split: sum.splits)
      with ih Cons.prems(3) st(1) c show ?thesis by (auto split: sum.splits option.splits)
    qed
  qed
qed

text \<open>Preparing the requests: the steps of the wave are running, nothing else of the core changes.\<close>

definition running :: "pystr list \<Rightarrow> run_state \<Rightarrow> run_state" where
  "running ks s = fold (\<lambda>k. set_status k Running) ks s"

lemma running_tracks:
  "tracks env p0 s d \<Longrightarrow> set ks \<inter> set (di_passed d) = {} \<Longrightarrow> tracks env p0 (running ks s) d"
  by (induction ks arbitrary: s) (auto simp: running_def tracks_status)

lemma core_running: "core s = core t \<Longrightarrow> core (running ks s) = core (running ks t)"
proof (induction ks arbitrary: s t)
  case (Cons k ks)
  from Cons.IH [OF core_set_status [OF Cons.prems, of k Running]] show ?case by (simp add: running_def)
qed (simp add: running_def)

lemma set_status_other [simp]: "rn_pending (set_status k st s) = rn_pending s" "rn_cost (set_status k st s) = rn_cost s"
  "rn_log (set_status k st s) = rn_log s" "map_of (rn_statuses (set_status k st s)) = (map_of (rn_statuses s))(k \<mapsto> st)"
  by (simp_all add: set_status_def update_conv')

lemma running_other: "rn_pending (running ks s) = rn_pending s" "rn_cost (running ks s) = rn_cost s"
  "rn_log (running ks s) = rn_log s"
  by (induction ks arbitrary: s) (simp_all add: running_def)

lemma running_statuses:
  "map_of (rn_statuses (running ks s)) k = (if k \<in> set ks then Some Running else map_of (rn_statuses s) k)"
  by (induction ks arbitrary: s) (simp_all add: running_def)

abbreviation job_for :: "real \<Rightarrow> PlannedStep \<times> executor \<times> pystr option \<Rightarrow>
    PlannedStep \<times> executor \<times> WorkerExecutionRequest \<Rightarrow> bool" where
  "job_for budget \<equiv> \<lambda>(i, e, w) (i', e', rq). i' = i \<and> e' = e \<and> request_for i budget rq"

lemma prepare_all:
  "mapS (prepare env b) jobs s = (r, s') \<Longrightarrow> tracks env p0 s d \<Longrightarrow>
     (\<forall>j \<in> set jobs. step_of (fst j) \<notin> set (di_passed d)) \<Longrightarrow>
     case r of
       Inl e \<Rightarrow> raised_ok env p0 e s'
     | Inr ps \<Rightarrow> list_all2 (job_for b) jobs ps \<and> core s' = core (running (map (step_of \<circ> fst) jobs) s) \<and>
         rn_reason s' = rn_reason s"
proof (induction jobs arbitrary: s r s')
  case Nil
  then show ?case by (auto simp: retS_def running_def)
next
  case (Cons j jobs)
  obtain item ex w where j: "j = (item, ex, w)" by (cases j)
  let ?run = "set_status (step_of item) Running"
  obtain r1 s1 where p: "prepare env b j s = (r1, s1)" by force
  have d1: "tracks env p0 (?run s) d" using Cons.prems(2,3) j by (intro tracks_status) auto
  show ?case
  proof (cases r1)
    case (Inl e)
    with Cons.prems(1) p have "r = Inl e" "s' = s1" by (simp_all add: bindS_err)
    with becomes_raised [OF prepare_becomes _ tracks_admissible [OF Cons.prems(2)] tracks_admissible [OF d1], of env b ex w e s1]
      p Inl j show ?thesis by simp
  next
    case (Inr q)
    obtain i x rq where "q = (i, x, rq)" by (cases q)
    with prepare_result p Inr j have q: "q = (item, ex, rq)" "request_for item b rq" by fastforce+
    from becomesD [OF prepare_becomes p [unfolded j]] Inr
    have c1: "core s1 = core (?run s)" "rn_reason s1 = rn_reason s" by auto
    obtain r2 s2 where rest: "mapS (prepare env b) jobs s1 = (r2, s2)" by force
    have "tracks env p0 s1 d" using d1 by (simp add: tracks_core [OF c1(1)])
    note ih = Cons.IH [OF rest this]
    from Cons.prems(1) p Inr rest have "s' = s2" "r = (case r2 of Inl e \<Rightarrow> Inl e | Inr x \<Rightarrow> Inr (q # x))"
      by (auto simp: bindS_def retS_def split: sum.splits)
    with ih Cons.prems(3) c1 q j core_running [OF c1(1), of "map (step_of \<circ> fst) jobs"] show ?thesis
      by (auto simp: running_def comp_def split: sum.splits)
  qed
qed


text \<open>Calling the workers: each call is admitted beside those already out.\<close>

definition wave_fits :: "runtime_env \<Rightarrow> real \<Rightarrow> PlannedStep list \<Rightarrow> dispatch \<Rightarrow> bool" where
  "wave_fits env b items d \<longleftrightarrow> distinct (map step_of items) \<and>
     (\<forall>i \<in> set items. planned_item env (step_of i) = Some i \<and> step_of i \<notin> set (di_passed d) \<and>
        step_of i \<notin> set (di_begun d) \<and> set (awaited env i) \<subseteq> set (di_passed d)) \<and>
     di_cost d < hard_budget env \<and> 0 \<le> b \<and>
     di_cost d + sum_list (map snd (di_out d)) + of_nat (length items) * b \<le> hard_budget env \<and>
     (og_isolate env \<or> items = [] \<or> (di_out d = [] \<and> length items \<le> 1) \<or>
       (\<forall>i \<in> set items. \<not> is_writer i) \<and> (\<forall>(k, c) \<in> set (di_out d). \<not> writes env k))"

definition called_all :: "real \<Rightarrow> PlannedStep list \<Rightarrow> dispatch \<Rightarrow> dispatch" where
  "called_all b items d = d\<lparr>di_begun := di_begun d @ map step_of items,
     di_out := di_out d @ map (\<lambda>i. (step_of i, b)) items\<rparr>"

lemma wave_fitsD:
  assumes "wave_fits env b items d"
  shows "distinct (map step_of items)"
    and "i \<in> set items \<Longrightarrow> planned_item env (step_of i) = Some i \<and> step_of i \<notin> set (di_passed d) \<and>
        step_of i \<notin> set (di_begun d) \<and> set (awaited env i) \<subseteq> set (di_passed d)"
    and "di_cost d < hard_budget env" "0 \<le> b"
    and "di_cost d + sum_list (map snd (di_out d)) + of_nat (length items) * b \<le> hard_budget env"
    and "og_isolate env \<or> items = [] \<or> (di_out d = [] \<and> length items \<le> 1) \<or>
       (\<forall>i \<in> set items. \<not> is_writer i) \<and> (\<forall>(k, c) \<in> set (di_out d). \<not> writes env k)"
  using assms unfolding wave_fits_def by (elim conjE, assumption | blast)+

lemma wave_fits_call:
  assumes w: "wave_fits env b (item # items) d" and r: "request_for item b rq"
  shows "may_call env d rq" "wave_fits env b items (after_call rq d)"
proof -
  note fits = wave_fitsD [OF w]
  have rq: "wq_step_id rq = step_of item" "wq_max_cost_usd rq = b" "wq_endpoint rq = pl_endpoint item"
    "wq_role rq = rp_role (pl_step item)" using r by (simp_all add: request_for_def)
  have item: "planned_item env (step_of item) = Some item" "step_of item \<notin> set (di_passed d)"
    "step_of item \<notin> set (di_begun d)" "set (awaited env item) \<subseteq> set (di_passed d)"
    using fits(2) [of item] by auto
  have sum: "di_cost d + sum_list (map snd (di_out d)) + b + of_nat (length items) * b \<le> hard_budget env"
    using fits(5) by (simp add: distrib_right)
  with fits(4) have one: "di_cost d + sum_list (map snd (di_out d)) + b \<le> hard_budget env"
    using mult_nonneg_nonneg [of "real (length items)" b] by linarith
  have alone: "og_isolate env \<or> di_out d = [] \<or> \<not> is_writer item \<and> list_all (\<lambda>(k, _). \<not> writes env k) (di_out d)"
    using fits(6) by (auto simp: list_all_iff)
  show "may_call env d rq"
    unfolding may_call_def rq item(1) option.case list_all_iff using item(2-4) fits(3,4) one alone
    by (auto simp: list_all_iff)
  let ?d = "after_call rq d"
  have begun: "di_begun ?d = di_begun d @ [step_of item]" "di_passed ?d = di_passed d"
    "di_cost ?d = di_cost d" "di_out ?d = di_out d @ [(step_of item, b)]"
    by (simp_all add: after_call_def rq)
  have writer: "writes env (step_of item) = is_writer item" by (simp add: item(1) writes_def opt_all_def)
  have "og_isolate env \<or> items = [] \<or> (\<forall>i \<in> set items. \<not> is_writer i) \<and> (\<forall>(k, c) \<in> set (di_out ?d). \<not> writes env k)"
    using fits(6) unfolding begun by (cases items) (auto simp: writer)
  moreover have "\<forall>i \<in> set items. planned_item env (step_of i) = Some i \<and> step_of i \<notin> set (di_passed ?d) \<and>
        step_of i \<notin> set (di_begun ?d) \<and> set (awaited env i) \<subseteq> set (di_passed ?d)"
    unfolding begun using fits(1,2) by (auto simp: image_iff)
  moreover have "di_cost ?d + sum_list (map snd (di_out ?d)) + of_nat (length items) * b \<le> hard_budget env"
    unfolding begun using sum by simp
  ultimately show "wave_fits env b items ?d"
    using fits(1,3,4) unfolding wave_fits_def begun(3) by (intro conjI; (assumption | blast | simp))
qed

lemma invoke_all:
  "mapS invoke ps s = (r, s') \<Longrightarrow> list_all2 (job_for b) jobs ps \<Longrightarrow> tracks env p0 s d \<Longrightarrow>
     wave_fits env b (map fst jobs) d \<Longrightarrow>
     \<exists>outs. r = Inr outs \<and> map fst outs = ps \<and> tracks env p0 s' (called_all b (map fst jobs) d) \<and>
       rn_pending s' = rn_pending s \<and> rn_statuses s' = rn_statuses s \<and> rn_reason s' = rn_reason s"
proof (induction ps arbitrary: jobs s d r s')
  case Nil
  then show ?case by (auto simp: retS_def called_all_def)
next
  case (Cons p ps)
  obtain item ex rq where p: "p = (item, ex, rq)" by (cases p)
  from Cons.prems(2) p obtain j js where jobs: "jobs = j # js" "fst j = item" "request_for item b rq"
    "list_all2 (job_for b) js ps"
    by (auto simp: list_all2_Cons2)
  let ?s = "s\<lparr>rn_log := rn_log s @ [WorkerCalled rq]\<rparr>"
  have fits: "wave_fits env b (item # map fst js) d" using Cons.prems(4) jobs by simp
  note call = wave_fits_call [OF fits jobs(3)]
  obtain r2 s2 where rest: "mapS invoke ps ?s = (r2, s2)" by force
  from Cons.IH [OF rest jobs(4) tracks_call [OF Cons.prems(3) call(1)] call(2)] obtain outs where
    outs: "r2 = Inr outs" "map fst outs = ps" "tracks env p0 s2 (called_all b (map fst js) (after_call rq d))"
      "rn_pending s2 = rn_pending s" "rn_statuses s2 = rn_statuses s" "rn_reason s2 = rn_reason s"
    by auto
  have "called_all b (map fst js) (after_call rq d) = called_all b (map fst jobs) d"
    using jobs by (simp add: called_all_def after_call_def request_for_def)
  with Cons.prems(1) p rest outs show ?case
    by (auto simp: invoke_def bindS_def call_worker_def retS_def)
qed

text \<open>Taking in the results, in the order of the calls.\<close>

lemma apply_outcome_result:
  assumes x: "apply_outcome env ((item, ex, rq), res) s = (r, s')"
    and d: "tracks env p0 s d" "step_of item \<in> fst ` set (di_out d)" "step_of item \<notin> set (di_passed d)"
  shows "case r of
      Inl e \<Rightarrow> raised_ok env p0 e s'
    | Inr _ \<Rightarrow> core s' = core (took item res s) \<and> tracks env p0 s' (after_result item res d) \<and>
        (succeeded res \<longrightarrow> rn_reason s' = rn_reason s)"
proof -
  note d' = tracks_took [OF d, of res]
  note adm = tracks_admissible [OF d(1)] tracks_admissible [OF d']
  obtain r1 s1 where t: "take_in env (item, ex, rq) res s = (r1, s1)" by force
  show ?thesis
  proof (cases r1)
    case (Inl e)
    with x t have "r = Inl e" "s' = s1" by (simp_all add: apply_outcome_def bindS_err)
    with becomes_raised [OF take_in_becomes _ adm, of env ex rq e s1] t Inl show ?thesis by simp
  next
    case (Inr u)
    from becomesD [OF take_in_becomes t] Inr have c: "core s1 = core (took item res s)" "rn_reason s1 = rn_reason s"
      by auto
    let ?s = "s1\<lparr>rn_reason := (if rn_reason s1 = None then Some (StepFailed (step_of item)) else rn_reason s1)\<rparr>"
    from x t Inr have x1: "succeeded res \<Longrightarrow> r = Inr () \<and> s' = s1"
      "\<not> succeeded res \<Longrightarrow> send_escalation env item res ?s = (r, s')"
      by (cases "rn_reason s1"; simp add: apply_outcome_def bindS_ok retS_def bindS_def [of "putS _"] putS_def)+
    have tr: "tracks env p0 s1 (after_result item res d)" using d' by (simp add: tracks_core [OF c(1)])
    show ?thesis
    proof (cases "succeeded res")
      case True
      with x1 c tr show ?thesis by simp
    next
      case False
      with x1 have e: "send_escalation env item res ?s = (r, s')" by simp
      from quietD [OF quiet_messages(3) e] have c': "core s' = core s1" by simp
      then have tr': "tracks env p0 s' (after_result item res d)" using tr by (simp add: tracks_core [OF c'])
      from quietD [OF quiet_messages(3) e] tracks_admissible [OF tr'] c c' tr' False show ?thesis
        by (cases r) (auto simp: raised_ok_def)
    qed
  qed
qed

abbreviation out_id :: "(PlannedStep \<times> executor \<times> WorkerExecutionRequest) \<times> WorkerExecutionResult \<Rightarrow> pystr" where
  "out_id out \<equiv> step_of (fst (fst out))"

text \<open>The state after the results of a wave: they are settled, the rest is as before.\<close>

definition taken_in ::
  "((PlannedStep \<times> executor \<times> WorkerExecutionRequest) \<times> WorkerExecutionResult) list \<Rightarrow> dispatch \<Rightarrow> run_state \<Rightarrow> dispatch \<Rightarrow>
     run_state \<Rightarrow> bool" where
  "taken_in outs d s d' s' \<longleftrightarrow> di_begun d' = di_begun d \<and>
     di_out d' = filter (\<lambda>(k, c). k \<notin> out_id ` set outs) (di_out d) \<and>
     set (di_passed d') \<subseteq> set (di_passed d) \<union> out_id ` set outs \<and>
     rn_pending s' = filter (\<lambda>k. k \<notin> out_id ` set outs) (rn_pending s) \<and>
     (\<forall>k. k \<notin> out_id ` set outs \<longrightarrow> map_of (rn_statuses s') k = map_of (rn_statuses s) k) \<and>
     (\<forall>k \<in> out_id ` set outs. map_of (rn_statuses s') k \<noteq> None) \<and>
     (if list_all (\<lambda>(job, res). succeeded res) outs then rn_reason s' = rn_reason s
      else \<exists>k \<in> out_id ` set outs. map_of (rn_statuses s') k = Some Failed)"

lemma taken_in_Cons:
  assumes t: "taken_in outs (after_result item res d) s1 d' s'"
    and st: "map_of (rn_statuses s1) = (map_of (rn_statuses s))(step_of item \<mapsto> if succeeded res then Passed else Failed)"
    and pend: "rn_pending s1 = removeAll (step_of item) (rn_pending s)"
    and reason: "succeeded res \<Longrightarrow> rn_reason s1 = rn_reason s"
    and item: "step_of item \<notin> out_id ` set outs"
      "map_of (rn_statuses s') (step_of item) = Some (if succeeded res then Passed else Failed)"
  shows "taken_in (((item, ex, rq), res) # outs) d s d' s'"
proof -
  let ?ids = "out_id ` set outs" and ?outs = "((item, ex, rq), res) # outs"
  note t' = t [unfolded taken_in_def]
  have ids: "out_id ` set ?outs = insert (step_of item) ?ids" by simp
  have "di_begun d' = di_begun d" using t' by (simp add: after_result_def)
  moreover have "di_out d' = filter (\<lambda>(k, c). k \<notin> insert (step_of item) ?ids) (di_out d)"
    using t' by (auto simp: after_result_def intro!: filter_cong)
  moreover have "set (di_passed d') \<subseteq> set (di_passed d) \<union> insert (step_of item) ?ids"
    using t' by (auto simp: after_result_def split: if_split_asm)
  moreover have "rn_pending s' = filter (\<lambda>k. k \<notin> insert (step_of item) ?ids) (rn_pending s)"
    using t' unfolding pend removeAll_filter_not_eq by (auto intro!: filter_cong)
  moreover have "\<forall>k. k \<notin> insert (step_of item) ?ids \<longrightarrow> map_of (rn_statuses s') k = map_of (rn_statuses s) k"
    using t' st by simp
  moreover have "\<forall>k \<in> insert (step_of item) ?ids. map_of (rn_statuses s') k \<noteq> None"
    using t' item(2) by simp
  moreover have "if list_all (\<lambda>(job, res). succeeded res) ?outs then rn_reason s' = rn_reason s
      else \<exists>k \<in> insert (step_of item) ?ids. map_of (rn_statuses s') k = Some Failed"
    using t' item(2) reason by (cases "succeeded res") (auto split: if_split_asm)
  ultimately show ?thesis unfolding taken_in_def ids by blast
qed

lemma apply_all:
  "forS (apply_outcome env) outs s = (r, s') \<Longrightarrow> tracks env p0 s d \<Longrightarrow> distinct (map out_id outs) \<Longrightarrow>
     (\<forall>out \<in> set outs. out_id out \<in> fst ` set (di_out d) \<and> out_id out \<notin> set (di_passed d)) \<Longrightarrow>
     case r of Inl e \<Rightarrow> raised_ok env p0 e s' | Inr _ \<Rightarrow> \<exists>d'. tracks env p0 s' d' \<and> taken_in outs d s d' s'"
proof (induction outs arbitrary: s d r s')
  case Nil
  then show ?case by (auto simp: retS_def taken_in_def intro!: exI [of _ d])
next
  case (Cons out outs)
  obtain item ex rq res where out: "out = ((item, ex, rq), res)" by (cases out) auto
  let ?d = "after_result item res d"
  obtain r1 s1 where ap: "apply_outcome env out s = (r1, s1)" by force
  have pre: "step_of item \<in> fst ` set (di_out d)" "step_of item \<notin> set (di_passed d)"
    using Cons.prems(4) by (simp_all add: out)
  note one = apply_outcome_result [OF ap [unfolded out] Cons.prems(2) pre]
  show ?case
  proof (cases r1)
    case (Inl e)
    with Cons.prems(1) ap have "r = Inl e" "s' = s1" by (simp_all add: bindS_err)
    with Inl one show ?thesis by simp
  next
    case (Inr u)
    with one have c: "core s1 = core (took item res s)" and tr: "tracks env p0 s1 ?d"
      and reason: "succeeded res \<Longrightarrow> rn_reason s1 = rn_reason s" by simp_all
    from c have st: "map_of (rn_statuses s1) = (map_of (rn_statuses s))(step_of item \<mapsto> if succeeded res then Passed else Failed)"
      and pend: "rn_pending s1 = removeAll (step_of item) (rn_pending s)"
      by (simp_all add: core_def took_def set_status_def update_conv')
    from Cons.prems(1) ap Inr have rest: "forS (apply_outcome env) outs s1 = (r, s')" by (simp add: bindS_ok)
    have others: "out_id o1 \<noteq> step_of item" if "o1 \<in> set outs" for o1
      using Cons.prems(3) that out by (auto simp: image_iff)
    have "out_id o1 \<in> fst ` set (di_out ?d) \<and> out_id o1 \<notin> set (di_passed ?d)" if o1: "o1 \<in> set outs" for o1
    proof -
      from o1 Cons.prems(4) obtain c where "(out_id o1, c) \<in> set (di_out d)" "out_id o1 \<notin> set (di_passed d)" by auto
      with others [OF o1] show ?thesis
        by (auto simp: after_result_def intro: image_eqI [where x = "(out_id o1, c)"])
    qed
    then have "\<forall>o1 \<in> set outs. out_id o1 \<in> fst ` set (di_out ?d) \<and> out_id o1 \<notin> set (di_passed ?d)" by blast
    note ih = Cons.IH [OF rest tr _ this]
    show ?thesis
    proof (cases r)
      case (Inl e)
      with ih Cons.prems(3) show ?thesis by simp
    next
      case (Inr v)
      with ih Cons.prems(3) obtain d' where d': "tracks env p0 s' d'" "taken_in outs ?d s1 d' s'" by fastforce
      have item: "step_of item \<notin> out_id ` set outs" 
      proof
        assume "step_of item \<in> out_id ` set outs"
        then obtain o1 where "o1 \<in> set outs" "step_of item = out_id o1" by (elim imageE)
        with others [of o1] show False by simp
      qed
      with d'(2) have "map_of (rn_statuses s') (step_of item) = Some (if succeeded res then Passed else Failed)"
        by (simp add: taken_in_def st)
      then have "taken_in (out # outs) d s d' s'"
        using taken_in_Cons [OF d'(2) st pend reason] item by (simp add: out)
      with d'(1) Inr show ?thesis by (simp only: sum.case) blast
    qed
  qed
qed

text \<open>A wave: the steps chosen from the ready ones are called together, within the budget, and settled.\<close>

lemma ready_itemsD:
  assumes "item \<in> set (ready_items order s)"
  shows "item \<in> set order" "step_of item \<in> set (rn_pending s)"
    "k \<in> set (rp_depends_on (pl_step item)) \<Longrightarrow> map_of (rn_statuses s) k = Some Passed"
  using assms by (auto simp: ready_items_def list_all_iff)

lemma choose_wave_facts:
  assumes w: "choose_wave env ready = wave" and d: "distinct (map step_of ready)"
  shows "set wave \<subseteq> set ready" "distinct (map step_of wave)"
    "og_isolate env \<or> length wave \<le> 1 \<or> (\<forall>i \<in> set wave. \<not> is_writer i)"
    "ready \<noteq> [] \<Longrightarrow> 1 \<le> op_max_parallel_workers (pn_policy (og_plan env)) \<Longrightarrow> wave \<noteq> []"
proof -
  have sub: "set (take n xs) \<subseteq> set xs" for n and xs :: "PlannedStep list" by (rule set_take_subset)
  show "set wave \<subseteq> set ready"
    using sub [of 1 "filter is_writer ready"] sub [of _ ready] unfolding w [symmetric] choose_wave_def by auto
  have "distinct (map step_of (filter is_writer ready))" using d by (rule distinct_map_filter)
  then show "distinct (map step_of wave)"
    using d unfolding w [symmetric] choose_wave_def by (auto simp flip: take_map)
  show "og_isolate env \<or> length wave \<le> 1 \<or> (\<forall>i \<in> set wave. \<not> is_writer i)"
  proof (cases "og_isolate env \<or> list_ex is_writer ready")
    case True
    then show ?thesis unfolding w [symmetric] choose_wave_def by auto
  next
    case False
    with sub [of _ ready] show ?thesis unfolding w [symmetric] choose_wave_def by (auto simp: list_ex_iff)
  qed
  show "wave \<noteq> []" if "ready \<noteq> []" "1 \<le> op_max_parallel_workers (pn_policy (og_plan env))"
  proof (cases "\<not> og_isolate env \<and> list_ex is_writer ready")
    case True
    then have "filter is_writer ready \<noteq> []" by (auto simp: filter_empty_conv list_ex_iff)
    with True show ?thesis unfolding w [symmetric] choose_wave_def by simp
  next
    case False
    with that show ?thesis unfolding w [symmetric] choose_wave_def by auto
  qed
qed

text \<open>What a wave leaves behind.\<close>

definition wave_post :: "runtime_env \<Rightarrow> pystr list \<Rightarrow> run_state \<Rightarrow> (run_error + bool) \<times> run_state \<Rightarrow> bool" where
  "wave_post env p0 s = (\<lambda>(r, s'). case r of
     Inl e \<Rightarrow> raised_ok env p0 e s'
   | Inr go \<Rightarrow> settled env p0 s' \<and> (if go then has_status env s' \<and> rn_reason s' = None \<and>
         length (rn_pending s') < length (rn_pending s) \<and> set (rn_pending s') \<subseteq> set (rn_pending s)
       else cut_short s' \<or> has_status env s' \<and> rn_reason s' = None \<and> rn_pending s' = []))"

lemma wave_post_pending: "rn_pending s1 = rn_pending s \<Longrightarrow> wave_post env p0 s1 = wave_post env p0 s"
  unfolding wave_post_def by (simp only:)

lemma wave_taken:
  assumes d: "tracks env p0 s d" "di_out d = []" "set (rn_pending s) \<inter> set (di_begun d) = {}"
      "set (rn_pending s) \<inter> set (di_passed d) = {}" "has_status env s" "rn_reason s = None"
    and s1: "rn_statuses s1 = rn_statuses (running (map step_of items) s)" "rn_pending s1 = rn_pending s" "rn_reason s1 = None"
    and d': "tracks env p0 s' d'" "taken_in outs (called_all b items d) s1 d' s'"
    and outs: "map (fst \<circ> fst) outs = items" "items \<noteq> []" "step_of ` set items \<subseteq> set (rn_pending s)"
  shows "settled env p0 s'"
    "list_all (\<lambda>(job, res). succeeded res) outs \<Longrightarrow> has_status env s' \<and> rn_reason s' = None \<and>
       length (rn_pending s') < length (rn_pending s) \<and> set (rn_pending s') \<subseteq> set (rn_pending s)"
    "\<not> list_all (\<lambda>(job, res). succeeded res) outs \<Longrightarrow> cut_short s'"
proof -
  have ids: "out_id ` set outs = step_of ` set items"
    unfolding outs(1) [symmetric] by (simp add: image_image)
  note t = d'(2) [unfolded taken_in_def ids]
  have pend: "rn_pending s' = filter (\<lambda>k. k \<notin> step_of ` set items) (rn_pending s)"
    using t s1(2) by simp
  have out: "di_out d' = []" using t d(2) by (auto simp: called_all_def filter_empty_conv)
  have "di_begun d' = di_begun d @ map step_of items" "set (di_passed d') \<subseteq> set (di_passed d) \<union> step_of ` set items"
    using t by (simp_all add: called_all_def)
  with d(3,4) have "set (rn_pending s') \<inter> set (di_begun d') = {}" "set (rn_pending s') \<inter> set (di_passed d') = {}"
    unfolding pend by auto
  with d'(1) out show "settled env p0 s'" by (auto simp: settled_def)
  have st1: "map_of (rn_statuses s1) k = map_of (rn_statuses s) k" if "k \<notin> step_of ` set items" for k
    using s1(1) that running_statuses [of "map step_of items" s k] by simp
  have "has_status env s'"
    unfolding has_status_def pend
  proof (intro allI impI)
    fix k assume k: "planned_item env k \<noteq> None" "k \<notin> set (filter (\<lambda>k. k \<notin> step_of ` set items) (rn_pending s))"
    show "map_of (rn_statuses s') k \<noteq> None"
    proof (cases "k \<in> step_of ` set items")
      case True
      with t show ?thesis by blast
    next
      case False
      with t st1 have "map_of (rn_statuses s') k = map_of (rn_statuses s) k" by simp
      moreover from k(2) False have "k \<notin> set (rn_pending s)" by simp
      ultimately show ?thesis using d(5) k(1) by (simp add: has_status_def)
    qed
  qed
  moreover have "length (rn_pending s') < length (rn_pending s)"
  proof -
    obtain i rest where "items = i # rest" using outs(2) by (cases items) auto
    with outs(3) have "step_of i \<in> set (rn_pending s)" "\<not> step_of i \<notin> step_of ` set items" by auto
    then show ?thesis unfolding pend by (rule length_filter_less)
  qed
  moreover have "set (rn_pending s') \<subseteq> set (rn_pending s)" unfolding pend by auto
  ultimately show "list_all (\<lambda>(job, res). succeeded res) outs \<Longrightarrow> has_status env s' \<and> rn_reason s' = None \<and>
       length (rn_pending s') < length (rn_pending s) \<and> set (rn_pending s') \<subseteq> set (rn_pending s)"
    using t s1(3) by simp
  show "\<not> list_all (\<lambda>(job, res). succeeded res) outs \<Longrightarrow> cut_short s'"
    using t unfolding cut_short_def by auto
qed


definition wave_tail ::
  "runtime_env \<Rightarrow> ((PlannedStep \<times> executor \<times> WorkerExecutionRequest) \<times> WorkerExecutionResult) list \<Rightarrow> bool run" where
  "wave_tail env outs = bindS (forS (apply_outcome env) outs) (\<lambda>_. bindS (publish_run env True Running) (\<lambda>_.
     retS (list_all (\<lambda>(job, r). succeeded r) outs)))"

lemma wave_tail_outcome:
  assumes x: "wave_tail env outs s3 = (r, s')"
    and d: "tracks env p0 s d" "di_out d = []" "set (rn_pending s) \<inter> set (di_begun d) = {}"
      "set (rn_pending s) \<inter> set (di_passed d) = {}" "has_status env s" "rn_reason s = None"
    and tr3: "tracks env p0 s3 (called_all b items d)"
    and s3: "rn_statuses s3 = rn_statuses (running (map step_of items) s)" "rn_pending s3 = rn_pending s" "rn_reason s3 = None"
    and outs: "map (fst \<circ> fst) outs = items" "items \<noteq> []" "step_of ` set items \<subseteq> set (rn_pending s)"
      "distinct (map step_of items)"
  shows "wave_post env p0 s (r, s')"
proof -
  have ids: "out_id o1 \<in> step_of ` set items" if "o1 \<in> set outs" for o1
    using that unfolding outs(1) [symmetric] by auto
  have "\<forall>o1 \<in> set outs. out_id o1 \<in> fst ` set (di_out (called_all b items d)) \<and>
      out_id o1 \<notin> set (di_passed (called_all b items d))"
  proof
    fix o1 assume "o1 \<in> set outs"
    from ids [OF this] outs(3) d(4) show "out_id o1 \<in> fst ` set (di_out (called_all b items d)) \<and>
      out_id o1 \<notin> set (di_passed (called_all b items d))" by (auto simp: called_all_def image_Un image_image)
  qed
  moreover have "distinct (map out_id outs)" using outs(4) unfolding outs(1) [symmetric] by (simp add: comp_def)
  moreover obtain r4 s4 where m4: "forS (apply_outcome env) outs s3 = (r4, s4)" by force
  ultimately have app: "case r4 of Inl e \<Rightarrow> raised_ok env p0 e s4
      | Inr _ \<Rightarrow> \<exists>d'. tracks env p0 s4 d' \<and> taken_in outs (called_all b items d) s3 d' s4"
    using apply_all [OF m4 tr3] by blast
  show ?thesis
  proof (cases r4)
    case (Inl e)
    with x m4 have "r = Inl e" "s' = s4" by (simp_all add: wave_tail_def bindS_err)
    with Inl app show ?thesis by (simp add: wave_post_def)
  next
    case (Inr u)
    with app obtain d' where d': "tracks env p0 s4 d'" "taken_in outs (called_all b items d) s3 d' s4" by auto
    note taken = wave_taken [OF d s3 d' outs(1-3)]
    obtain r5 s5 where m5: "publish_run env True Running s4 = (r5, s5)" by force
    from quietD [OF quiet_publish_run m5] have c5: "core s5 = core s4" "rn_reason s5 = rn_reason s4" by auto
    then have eq: "rn_pending s5 = rn_pending s4" "rn_statuses s5 = rn_statuses s4" by (simp_all add: core_def)
    show ?thesis
    proof (cases r5)
      case (Inl e)
      with x m4 m5 Inr have "r = Inl e" "s' = s5" by (simp_all add: wave_tail_def bindS_ok bindS_err)
      with quiet_raised [OF quiet_publish_run _ tracks_admissible [OF d'(1)]] m5 Inl show ?thesis by (simp add: wave_post_def)
    next
      case (Inr v)
      with x m4 m5 \<open>r4 = Inr u\<close> have r: "r = Inr (list_all (\<lambda>(job, r). succeeded r) outs)" "s' = s5"
        by (simp_all add: wave_tail_def bindS_ok retS_def)
      have "settled env p0 s5" using taken(1) by (simp add: settled_core [OF c5(1)])
      moreover have "has_status env s5 = has_status env s4" by (rule has_status_core [OF c5(1)])
      moreover have "cut_short s5 = cut_short s4" using c5(2) eq by (simp add: cut_short_def)
      ultimately show ?thesis using taken(2,3) r c5(2) eq
        by (cases "list_all (\<lambda>(job, r). succeeded r) outs") (auto simp: wave_post_def)
    qed
  qed
qed

lemma execute_wave_outcome:
  assumes x: "execute_wave env jobs s = (r, s')"
    and d: "tracks env p0 s d" "di_out d = []" "set (rn_pending s) \<inter> set (di_begun d) = {}"
      "set (rn_pending s) \<inter> set (di_passed d) = {}" "has_status env s" "rn_reason s = None"
    and fits: "wave_fits env (max 0 (hard_budget env - rn_cost s) / of_nat (length jobs)) (map fst jobs) d"
    and jobs: "jobs \<noteq> []" "(step_of \<circ> fst) ` set jobs \<subseteq> set (rn_pending s)"
  shows "wave_post env p0 s (r, s')"
proof -
  let ?b = "max 0 (hard_budget env - rn_cost s) / of_nat (length jobs)" and ?items = "map fst jobs"
  let ?run = "running (map step_of ?items) s"
  have unf: "execute_wave env jobs s = bindS (mapS (prepare env ?b) jobs) (\<lambda>ps.
      bindS (publish_run env False Running) (\<lambda>_. bindS (mapS invoke ps) (wave_tail env))) s"
    using jobs(1) by (simp add: execute_wave_def hard_budget_def wave_tail_def [abs_def])
  have np: "\<forall>j \<in> set jobs. step_of (fst j) \<notin> set (di_passed d)" using jobs(2) d(4) by auto
  obtain r1 s1 where m1: "mapS (prepare env ?b) jobs s = (r1, s1)" by force
  note prep = prepare_all [OF m1 d(1) np]
  show ?thesis
  proof (cases r1)
    case (Inl e)
    with x unf m1 have "r = Inl e" "s' = s1" by (simp_all add: bindS_err)
    with Inl prep show ?thesis by (simp add: wave_post_def)
  next
    case (Inr ps)
    with prep have ps: "list_all2 (job_for ?b) jobs ps" and c1: "core s1 = core ?run" "rn_reason s1 = None"
      using d(6) by (simp_all add: comp_def)
    have "tracks env p0 ?run d" using d(1) np by (intro running_tracks) auto
    then have tr1: "tracks env p0 s1 d" by (simp add: tracks_core [OF c1(1)])
    obtain r2 s2 where m2: "publish_run env False Running s1 = (r2, s2)" by force
    from quietD [OF quiet_publish_run m2] c1 have c2: "core s2 = core ?run" "rn_reason s2 = None" by auto
    have tr2: "tracks env p0 s2 d" using \<open>tracks env p0 ?run d\<close> by (simp add: tracks_core [OF c2(1)])
    show ?thesis
    proof (cases r2)
      case (Inl e)
      with x unf m1 \<open>r1 = Inr ps\<close> m2 have "r = Inl e" "s' = s2" by (simp_all add: bindS_ok bindS_err)
      with quiet_raised [OF quiet_publish_run _ tracks_admissible [OF tr1]] m2 Inl show ?thesis by (simp add: wave_post_def)
    next
      case (Inr u)
      obtain r3 s3 where m3: "mapS invoke ps s2 = (r3, s3)" by force
      from invoke_all [OF m3 ps tr2 fits] obtain outs where outs: "r3 = Inr outs" "map fst outs = ps"
        and tr3: "tracks env p0 s3 (called_all ?b ?items d)"
        and s3: "rn_pending s3 = rn_pending s2" "rn_statuses s3 = rn_statuses s2" "rn_reason s3 = rn_reason s2" by auto
      from x unf m1 \<open>r1 = Inr ps\<close> m2 Inr m3 outs(1) have x3: "wave_tail env outs s3 = (r, s')" by (simp add: bindS_ok)
      have "map (fst \<circ> fst) outs = map fst ps" using outs(2) by (simp flip: map_map)
      also have "\<dots> = ?items" using ps by (induction rule: list_all2_induct) auto
      finally have items: "map (fst \<circ> fst) outs = ?items" .
      have st: "rn_statuses s3 = rn_statuses ?run" "rn_pending s3 = rn_pending s" "rn_reason s3 = None"
        using s3 c2 by (simp_all add: core_def running_other)
      show ?thesis
        by (rule wave_tail_outcome [OF x3 d tr3 st items]) (use jobs wave_fitsD(1) [OF fits] in \<open>auto simp: comp_def\<close>)
    qed
  qed
qed


section \<open>All waves\<close>

definition parallel_launch :: "runtime_env \<Rightarrow> PlannedStep list \<Rightarrow> PlannedStep list \<Rightarrow> BudgetDecision \<Rightarrow> bool run" where
  "parallel_launch env order ready d s3 =
     (if \<not> bd_allowed d
      then stop_run (BudgetSpent (bd_reason d)) (fold (\<lambda>item. add_blocked item (reason_text (bd_reason d))) ready s3)
      else bindS (resolve_wave env (choose_wave env ready)) (\<lambda>jobs.
        case jobs of None \<Rightarrow> retS False | Some js \<Rightarrow> execute_wave env js) s3)"

definition parallel_enter :: "runtime_env \<Rightarrow> PlannedStep list \<Rightarrow> bool \<Rightarrow> bool run" where
  "parallel_enter env order stopped s1 =
     (if stopped then stop_run StoppedByUser s1
      else
        let s2 = block_fallout {Failed, Blocked, Skipped} order s1
        in if rn_pending s2 = [] then (Inr False, s2)
           else
             let ready = ready_items order s2
             in if ready = []
                then stop_run NothingRunnable (fold (\<lambda>item s. if step_of item \<in> set (rn_pending s)
                       then add_blocked item (lit ''no runnable orchestration steps remain'') s else s) order s2)
                else bindS check_budget (parallel_launch env order ready) s2)"

lemma parallel_wave_parts: "parallel_wave env order = bindS (consume_mobile env) (parallel_enter env order)"
  unfolding parallel_wave_def parallel_enter_def [abs_def] parallel_launch_def [abs_def] by (rule refl)

definition between :: "runtime_env \<Rightarrow> pystr list \<Rightarrow> PlannedStep list \<Rightarrow> run_state \<Rightarrow> bool" where
  "between env p0 order s \<longleftrightarrow> settled env p0 s \<and> has_status env s \<and> rn_reason s = None \<and>
     set (rn_pending s) \<subseteq> step_of ` set order"

lemma between_core: "core s' = core s \<Longrightarrow> rn_reason s' = rn_reason s \<Longrightarrow> between env p0 order s' = between env p0 order s"
  using settled_core [of s' s] has_status_core [of s' s] by (simp add: between_def) (simp add: core_def)

text \<open>A ready step waits for nobody and has not been called.\<close>

lemma ready_fits:
  assumes o: "plan_order (og_plan env) = Some order" and b: "between env p0 order s"
    and w: "choose_wave env (ready_items order s) = wave" "wave \<noteq> []" and cost: "rn_cost s < hard_budget env"
    and d: "tracks env p0 s d" "di_out d = []" "set (rn_pending s) \<inter> set (di_begun d) = {}"
      "set (rn_pending s) \<inter> set (di_passed d) = {}"
  shows "wave_fits env (max 0 (hard_budget env - rn_cost s) / of_nat (length wave)) wave d"
proof -
  note order = plan_order_facts [OF o]
  have "distinct (map step_of (ready_items order s))"
    using order(1) unfolding ready_items_def by (rule distinct_map_filter)
  note facts = choose_wave_facts [OF w(1) this]
  have "planned_item env (step_of i) = Some i \<and> step_of i \<notin> set (di_passed d) \<and> step_of i \<notin> set (di_begun d) \<and>
      set (awaited env i) \<subseteq> set (di_passed d)" if "i \<in> set wave" for i
  proof -
    from that facts(1) have "i \<in> set (ready_items order s)" by auto
    note r = ready_itemsD [OF this]
    have "set (awaited env i) \<subseteq> set (di_passed d)" using r(3) d(1) by (auto simp: awaited_def tracks_def)
    with order(2) [OF r(1)] r(2) d(3,4) show ?thesis by auto
  qed
  moreover have "di_cost d = rn_cost s" using d(1) by (simp add: tracks_def)
  moreover have "og_isolate env \<or> wave = [] \<or> (di_out d = [] \<and> length wave \<le> 1) \<or>
       (\<forall>i \<in> set wave. \<not> is_writer i) \<and> (\<forall>(k, c) \<in> set (di_out d). \<not> writes env k)"
    using facts(3) d(2) by auto
  ultimately show ?thesis
    unfolding wave_fits_def using facts(2) w(2) d(2) cost by (intro conjI ballI) auto
qed

lemma parallel_launch_outcome:
  assumes x: "parallel_launch env order (ready_items order s) bd s = (r, s')"
    and o: "plan_order (og_plan env) = Some order" and b: "between env p0 order s"
    and bd: "bd_allowed bd = (rn_cost s < hard_budget env)" and ready: "ready_items order s \<noteq> []"
    and workers: "1 \<le> op_max_parallel_workers (pn_policy (og_plan env))"
  shows "wave_post env p0 s (r, s')"
proof -
  let ?ready = "ready_items order s"
  from b have st: "settled env p0 s" "has_status env s" "rn_reason s = None" by (simp_all add: between_def)
  have np: "\<forall>i \<in> set ?ready. map_of (rn_statuses s) (step_of i) \<noteq> Some Passed"
    by (intro ballI pending_not_passed [OF st(1) ready_itemsD(2)])
  show ?thesis
  proof (cases "bd_allowed bd")
    case False
    let ?s = "fold (\<lambda>item. add_blocked item (reason_text (bd_reason bd))) ?ready s"
    from block_ready_settled [OF st(1) np] ready st(3)
    have s: "settled env p0 ?s" "cut_short ?s" "rn_reason ?s = None" by simp_all
    have "settled env p0 (?s\<lparr>rn_reason := Some (BudgetSpent (bd_reason bd))\<rparr>)"
      using s(1) by (simp add: settled_core [OF core_record(1)])
    moreover have "cut_short (?s\<lparr>rn_reason := Some (BudgetSpent (bd_reason bd))\<rparr>)"
      using s(2,3) by (simp add: cut_short_def)
    ultimately show ?thesis using x False by (auto simp: parallel_launch_def stop_run_def wave_post_def)
  next
    case True
    obtain r1 s1 where m: "resolve_wave env (choose_wave env ?ready) s = (r1, s1)" by force
    have dist: "distinct (map step_of ?ready)"
      using plan_order_facts(1) [OF o] unfolding ready_items_def by (rule distinct_map_filter)
    note facts = choose_wave_facts [OF refl dist, of env]
    have "\<forall>i \<in> set (choose_wave env ?ready). map_of (rn_statuses s) (step_of i) \<noteq> Some Passed"
      using np facts(1) by blast
    note out = resolve_wave_outcome [OF m st(1) this]
    show ?thesis
    proof (cases r1)
      case (Inl e)
      with x True m have "r = Inl e" "s' = s1" by (simp_all add: parallel_launch_def bindS_err)
      with Inl out show ?thesis by (simp add: wave_post_def)
    next
      case (Inr opt)
      show ?thesis
      proof (cases opt)
        case None
        with x True m Inr have "r = Inr False" "s' = s1" by (simp_all add: parallel_launch_def bindS_ok retS_def)
        with Inr None out show ?thesis by (simp add: wave_post_def)
      next
        case (Some jobs)
        with Inr out have jobs: "map fst jobs = choose_wave env ?ready" and c: "core s1 = core s" "rn_reason s1 = rn_reason s"
          by simp_all
        from x True m Inr Some have x1: "execute_wave env jobs s1 = (r, s')" by (simp add: parallel_launch_def bindS_ok)
        from c have eq: "rn_cost s1 = rn_cost s" "rn_pending s1 = rn_pending s" by (simp_all add: core_def)
        from st(1) obtain d where d: "tracks env p0 s d" "di_out d = []" "set (rn_pending s) \<inter> set (di_begun d) = {}"
          "set (rn_pending s) \<inter> set (di_passed d) = {}" by (auto simp: settled_def)
        have ne: "choose_wave env ?ready \<noteq> []" by (rule facts(4) [OF ready workers])
        have len: "length jobs = length (choose_wave env ?ready)" using jobs by (metis length_map)
        from ready_fits [OF o b refl ne _ d] True bd
        have fits: "wave_fits env (max 0 (hard_budget env - rn_cost s1) / of_nat (length jobs)) (map fst jobs) d"
          by (simp add: len eq jobs)
        have "(step_of \<circ> fst) ` set jobs = step_of ` set (choose_wave env ?ready)"
          unfolding jobs [symmetric] by (simp add: image_image)
        then have sub: "(step_of \<circ> fst) ` set jobs \<subseteq> set (rn_pending s1)"
          using facts(1) ready_itemsD(2) [of _ order s] by (auto simp: eq)
        have "jobs \<noteq> []" using ne jobs by auto
        from execute_wave_outcome [OF x1 _ d(2) _ _ _ _ fits this sub] d st c(2)
        have "wave_post env p0 s1 (r, s')" by (simp add: tracks_core [OF c(1)] has_status_core [OF c(1)] eq)
        with wave_post_pending [OF eq(2)] show ?thesis by simp
      qed
    qed
  qed
qed

lemma settled_reason: "settled env p0 (s\<lparr>rn_reason := w\<rparr>) = settled env p0 s"
  by (rule settled_core [OF core_record(1)])

lemma parallel_enter_outcome:
  assumes x: "parallel_enter env order stopped s = (r, s')"
    and o: "plan_order (og_plan env) = Some order" and b: "between env p0 order s"
    and workers: "1 \<le> op_max_parallel_workers (pn_policy (og_plan env))"
  shows "wave_post env p0 s (r, s')"
proof (cases stopped)
  case True
  with x b show ?thesis
    by (auto simp: parallel_enter_def stop_run_def wave_post_def between_def settled_reason cut_short_def)
next
  case False
  let ?s2 = "block_fallout {Failed, Blocked, Skipped} order s"
  from b have "settled env p0 s" by (simp add: between_def)
  from block_fallout_settled [OF this, of "{Failed, Blocked, Skipped}" order] b
  have b2: "between env p0 order ?s2" and len: "length (rn_pending ?s2) \<le> length (rn_pending s)"
    and sub: "set (rn_pending ?s2) \<subseteq> set (rn_pending s)" by (auto simp: between_def)
  from b2 have st: "settled env p0 ?s2" "has_status env ?s2" "rn_reason ?s2 = None" "set (rn_pending ?s2) \<subseteq> step_of ` set order"
    by (simp_all add: between_def)
  consider "rn_pending ?s2 = []" | "rn_pending ?s2 \<noteq> []" "ready_items order ?s2 = []"
    | "rn_pending ?s2 \<noteq> []" "ready_items order ?s2 \<noteq> []" by blast
  then show ?thesis
  proof cases
    case 1
    with x False st show ?thesis by (auto simp: parallel_enter_def Let_def wave_post_def)
  next
    case 2
    let ?s3 = "fold (\<lambda>item s. if step_of item \<in> set (rn_pending s)
                       then add_blocked item (lit ''no runnable orchestration steps remain'') s else s) order ?s2"
    from 2(1) st(4) have "set (rn_pending ?s2) \<inter> step_of ` set order \<noteq> {}" by (cases "rn_pending ?s2") auto
    with block_rest_settled [OF st(1), where order = order] st(3)
    have "settled env p0 ?s3" "cut_short ?s3" "rn_reason ?s3 = None" by auto
    then have "settled env p0 (?s3\<lparr>rn_reason := Some NothingRunnable\<rparr>)" "cut_short (?s3\<lparr>rn_reason := Some NothingRunnable\<rparr>)"
      by (simp_all add: settled_reason) (simp add: cut_short_def)
    with x False 2 show ?thesis by (auto simp: parallel_enter_def Let_def stop_run_def wave_post_def)
  next
    case 3
    obtain rb s3 where m: "check_budget ?s2 = (rb, s3)" by force
    from st(1) obtain d where d: "tracks env p0 ?s2 d" by (auto simp: settled_def)
    from check_budget_core [OF m] d obtain bd where c: "core s3 = core ?s2" "rn_reason s3 = rn_reason ?s2" and bd: "rb = Inr bd"
      "bd_allowed bd = (rn_cost ?s2 < hard_budget env)"
      by (auto simp: tracks_def)
    from c(1) have eq: "rn_cost s3 = rn_cost ?s2" "rn_pending s3 = rn_pending ?s2" "rn_statuses s3 = rn_statuses ?s2"
      by (simp_all add: core_def)
    have "ready_items order s3 = ready_items order ?s2" by (simp add: ready_items_def eq)
    moreover from x False 3 m bd(1) have "parallel_launch env order (ready_items order ?s2) bd s3 = (r, s')"
      by (simp add: parallel_enter_def Let_def bindS_ok)
    ultimately have "wave_post env p0 s3 (r, s')"
      using 3 bd(2) b2 workers by (intro parallel_launch_outcome [OF _ o]) (simp_all add: between_core [OF c] eq)
    with len sub eq(2) show ?thesis by (auto simp: wave_post_def split: sum.splits if_splits)
  qed
qed

lemma parallel_wave_outcome:
  assumes x: "parallel_wave env order s = (r, s')"
    and o: "plan_order (og_plan env) = Some order" and b: "between env p0 order s"
    and workers: "1 \<le> op_max_parallel_workers (pn_policy (og_plan env))"
  shows "wave_post env p0 s (r, s')"
proof -
  obtain r1 s1 where m: "consume_mobile env s = (r1, s1)" by force
  from quietD [OF quiet_consume_mobile m] have c: "core s1 = core s" "rn_reason s1 = rn_reason s" by auto
  show ?thesis
  proof (cases r1)
    case (Inl e)
    with x m have "r = Inl e" "s' = s1" by (simp_all add: parallel_wave_parts bindS_err)
    moreover have "admissible env p0 s" using b by (simp add: between_def settled_admissible)
    ultimately show ?thesis using quiet_raised [OF quiet_consume_mobile _ \<open>admissible env p0 s\<close>] m Inl
      by (simp add: wave_post_def)
  next
    case (Inr stopped)
    with x m have "parallel_enter env order stopped s1 = (r, s')" by (simp add: parallel_wave_parts bindS_ok)
    moreover have "between env p0 order s1" using b by (simp add: between_core [OF c])
    ultimately have "wave_post env p0 s1 (r, s')" by (rule parallel_enter_outcome [OF _ o _ workers])
    moreover have "rn_pending s1 = rn_pending s" using c(1) by (simp add: core_def)
    from wave_post_pending [OF this] have "wave_post env p0 s1 = wave_post env p0 s" .
    ultimately show ?thesis by simp
  qed
qed

lemma run_waves_outcome:
  assumes o: "plan_order (og_plan env) = Some order"
    and workers: "1 \<le> op_max_parallel_workers (pn_policy (og_plan env))"
  shows "run_waves env order n s = (r, s') \<Longrightarrow> between env p0 order s \<Longrightarrow> length (rn_pending s) \<le> n \<Longrightarrow>
    case r of Inl e \<Rightarrow> raised_ok env p0 e s'
    | Inr _ \<Rightarrow> settled env p0 s' \<and> (cut_short s' \<or> has_status env s' \<and> rn_reason s' = None \<and> rn_pending s' = [])"
proof (induction n arbitrary: s)
  case 0
  then show ?case by (auto simp: between_def)
next
  case (Suc n)
  show ?case
  proof (cases "rn_pending s = []")
    case True
    with Suc.prems show ?thesis by (auto simp: between_def)
  next
    case False
    obtain r1 s1 where m: "parallel_wave env order s = (r1, s1)" by force
    note post = parallel_wave_outcome [OF m o Suc.prems(2) workers, unfolded wave_post_def prod.case]
    show ?thesis
    proof (cases r1)
      case (Inl e)
      with Suc.prems(1) False m have "r = Inl e" "s' = s1" by (simp_all add: bindS_err)
      with Inl post show ?thesis by simp
    next
      case (Inr go)
      show ?thesis
      proof (cases go)
        case True
        from Suc.prems(1) False m Inr True have "run_waves env order n s1 = (r, s')" by (simp add: bindS_ok)
        then show ?thesis
          by (rule Suc.IH) (use post Inr True Suc.prems(2,3) in \<open>auto simp: between_def\<close>)
      next
        case F: False
        from Suc.prems(1) False m Inr F have "r = Inr ()" "s' = s1" by (simp_all add: bindS_ok retS_def)
        with post Inr F show ?thesis by simp
      qed
    qed
  qed
qed

section \<open>Whole runs\<close>

definition waves_then_finish :: "runtime_env \<Rightarrow> PlannedStep list \<Rightarrow> OrchestrationResult run" where
  "waves_then_finish env order =
     bindS (\<lambda>s. run_waves env order (length (rn_pending s)) s) (\<lambda>_.
     bindS (putS (\<lambda>s. if rn_reason s = None then s else block_fallout {Failed, Blocked} order s)) (\<lambda>_.
       finish_run env))"

lemma waves_then_finish_outcome:
  assumes x: "waves_then_finish env order s = (r, s')"
    and o: "plan_order (og_plan env) = Some order" and b: "between env p0 order s"
    and workers: "1 \<le> op_max_parallel_workers (pn_policy (og_plan env))"
  shows "run_post env p0 (r, s')"
proof -
  obtain r1 s1 where m: "run_waves env order (length (rn_pending s)) s = (r1, s1)" by force
  note out = run_waves_outcome [OF o workers m b order_refl]
  show ?thesis
  proof (cases r1)
    case (Inl e)
    with x m have "r = Inl e" "s' = s1" by (simp_all add: waves_then_finish_def bindS_err)
    with Inl out show ?thesis by (simp add: run_post_def)
  next
    case (Inr u)
    let ?s2 = "if rn_reason s1 = None then s1 else block_fallout {Failed, Blocked} order s1"
    from x m Inr have fin: "finish_run env ?s2 = (r, s')"
      by (simp add: waves_then_finish_def bindS_ok bindS_def [of "putS _"] putS_def del: run_waves.simps split del: if_split)
    from out Inr have st: "settled env p0 s1"
      and alt: "cut_short s1 \<or> has_status env s1 \<and> rn_reason s1 = None \<and> rn_pending s1 = []" by simp_all
    note fall = block_fallout_settled [OF st, of "{Failed, Blocked}" order]
    have "idle env p0 [] ?s2 \<or> halted env p0 ?s2"
    proof (cases "cut_short s1")
      case True
      with fall st have "settled env p0 ?s2 \<and> cut_short ?s2" by simp
      with settled_halted show ?thesis by blast
    next
      case False
      with alt settled_idle [OF st] show ?thesis by simp
    qed
    from finish_run_outcome [OF fin this] show ?thesis .
  qed
qed

lemma run_parallel_outcome:
  assumes x: "run_parallel env s = (r, s')" and f: "fresh env s"
    and workers: "1 \<le> op_max_parallel_workers (pn_policy (og_plan env))"
  shows "run_post env (completed_before env s) (r, s')"
  using x unfolding run_parallel_def
proof (rule start_outcome [OF _ f])
  let ?p0 = "completed_before env s"
  fix t assume f: "fresh env t" and tr: "tracks env ?p0 t (dispatch_start env ?p0)"
    and x: "(case plan_order (og_plan env) of None \<Rightarrow> raiseS DependencyCycle
        | Some order \<Rightarrow>
               bindS (putS (\<lambda>s. s\<lparr>rn_pending := map step_of (filter (\<lambda>item.
                   map_of (rn_statuses s) (step_of item) \<noteq> Some Passed) order)\<rparr>)) (\<lambda>_.
               bindS (publish_run env False Running) (\<lambda>_.
               bindS (\<lambda>s. run_waves env order (length (rn_pending s)) s) (\<lambda>_.
               bindS (putS (\<lambda>s. if rn_reason s = None then s else block_fallout {Failed, Blocked} order s)) (\<lambda>_.
                 finish_run env))))) t = (r, s')"
  show "run_post env ?p0 (r, s')"
  proof (cases "plan_order (og_plan env)")
    case None
    with x tracks_admissible [OF tr] show ?thesis by (auto simp: raiseS_def run_post_def honest_def raised_ok_def)
  next
    case (Some order)
    let ?t = "t\<lparr>rn_pending := map step_of (filter (\<lambda>item. map_of (rn_statuses t) (step_of item) \<noteq> Some Passed) order)\<rparr>"
    from x Some have x1: "bindS (publish_run env False Running) (\<lambda>_. waves_then_finish env order) ?t = (r, s')"
      by (simp add: bindS_def [of "putS _"] putS_def waves_then_finish_def)
    have trt: "tracks env ?p0 ?t (dispatch_start env ?p0)" using tr by (simp add: tracks_def)
    obtain r1 s1 where p: "publish_run env False Running ?t = (r1, s1)" by force
    from quietD [OF quiet_publish_run p] have c: "core s1 = core ?t" "rn_reason s1 = rn_reason ?t" by auto
    show ?thesis
    proof (cases r1)
      case (Inl e)
      with x1 p have "r = Inl e" "s' = s1" by (simp_all add: bindS_err)
      with quiet_raised [OF quiet_publish_run _ tracks_admissible [OF trt]] p Inl show ?thesis by (simp add: run_post_def)
    next
      case (Inr u)
      with x1 p have x2: "waves_then_finish env order s1 = (r, s')" by (simp add: bindS_ok)
      have "settled env ?p0 ?t"
        unfolding settled_def using trt by (intro exI [of _ "dispatch_start env ?p0"]) (auto simp: dispatch_start_def tracks_def)
      moreover have "has_status env ?t"
        using plan_order_facts(3) [OF Some] by (fastforce simp: has_status_def)
      ultimately have "between env ?p0 order ?t" using f by (auto simp: between_def fresh_def)
      then have "between env ?p0 order s1" by (simp add: between_core [OF c])
      from waves_then_finish_outcome [OF x2 Some this workers] show ?thesis .
    qed
  qed
qed simp_all

text \<open>A run of either kind, from files in any state.\<close>

definition passed_before :: "runtime_env \<Rightarrow> (json_file \<Rightarrow> json_file) list \<Rightarrow> run_state \<Rightarrow> pystr list" where
  "passed_before env polls files = completed_before env (snd (construct env (fresh_state env polls files)))"

lemma orchestrate_outcome:
  "run_post env (passed_before env polls files) (orchestrate env polls files)"
proof -
  let ?s = "fresh_state env polls files"
  have q: "quiet (construct env)" unfolding construct_def by (intro quiets) simp_all
  obtain r1 s1 where m: "construct env ?s = (r1, s1)" by force
  from quietD [OF q m] fresh_state_fresh have f: "fresh env s1" using fresh_core [of s1 ?s] by simp
  have p0: "passed_before env polls files = completed_before env s1" by (simp add: passed_before_def m)
  obtain r s' where run: "orchestrate env polls files = (r, s')" by force
  show ?thesis
  proof (cases r1)
    case (Inl e)
    with run m have "r = Inl e" "s' = s1" by (simp_all add: orchestrate_def bindS_err)
    with quiet_raised [OF q _ fresh_admissible [OF fresh_state_fresh]] m Inl run show ?thesis by (simp add: run_post_def)
  next
    case (Inr u)
    with run m have "run_orchestration env s1 = (r, s')" by (simp add: orchestrate_def bindS_ok)
    with run_serial_outcome [OF _ f] run_parallel_outcome [OF _ f] show ?thesis
      by (auto simp: run_orchestration_def run p0 split: if_split_asm)
  qed
qed

end
