(* ===== verification/OrchestrationProperties.thy ===== *)
theory OrchestrationProperties imports WaveProofs begin

text \<open>
  The properties of orchestration runs, serial and parallel, over every plan, every worker, every state of the
  files and every behaviour of the user, and the demonstration runs that witness them.
\<close>

section \<open>Demonstration runs\<close>

text \<open>A plan of two scouts, \<open>b\<close> after \<open>a\<close>; the workers answer, or crash.\<close>

definition demo_step :: "string \<Rightarrow> string list \<Rightarrow> PlannedStep" where
  "demo_step i deps = \<lparr>pl_step = mk_step i ''scout'' ''general'' [] deps [] False,
     pl_endpoint = demo_endpoint (lit ''e''), pl_route = \<lparr>rd_endpoint = demo_endpoint (lit ''e''), rd_reasons = [], rd_candidates = [],
       rd_verified_quality_used = False\<rparr>, pl_effort_level = lit ''low''\<rparr>"

definition demo_run_plan :: "int \<Rightarrow> OrchestrationPlan" where
  "demo_run_plan workers = \<lparr>pn_run_id = lit ''r'', pn_task_id = lit ''t'', pn_objective = lit ''o'', pn_recipe_name = lit ''f'',
     pn_orchestrator = demo_endpoint (lit ''e''), pn_risk_level = LOW,
     pn_policy = (default_policy (lit ''custom''))\<lparr>op_max_parallel_workers := workers\<rparr>,
     pn_steps = [demo_step ''b'' [''a''], demo_step ''a'' []], pn_created_at = 0\<rparr>"

definition demo_answer :: WorkerExecutionResult where
  "demo_answer = (failed_result (lit ''ok''))\<lparr>wr_ok := True, wr_accepted := True, wr_verified := True, wr_cost_usd := 1\<rparr>"

definition demo_workers :: "int \<Rightarrow> runtime_env" where
  "demo_workers workers = \<lparr>og_plan = demo_run_plan workers,
     og_executors = [(lit ''e'', \<lparr>ex_call = (\<lambda>_. Answered demo_answer), ex_reuses_context = False\<rparr>)],
     og_bus = demo_bus_env, og_handoffs = \<lparr>ho_ud = cb_ud demo_bus_env, ho_conv = plain_conv, ho_session = lit ''s'', ho_limit = 500\<rparr>,
     og_conv = plain_conv, og_telemetry_limit = 100,
     og_mission = demo_mission\<lparr>mi_run := lit ''r''\<rparr>, og_journal = demo_journal_env\<lparr>je_run := lit ''r''\<rparr>, og_baseline = None,
     og_initial_cost = 0, og_initial_tokens = 0, og_pool = None, og_isolate = False, og_hash = (\<lambda>s. s),
     og_clock = (\<lambda>n. 0), og_fresh = (\<lambda>n. lit ''m'' @ decimal n), og_elapsed = (\<lambda>rq. 0)\<rparr>"

definition no_files :: run_state where
  "no_files = \<lparr>rn_bus = Missing, rn_handoffs = Missing, rn_telemetry = Missing, rn_journal = Missing, rn_mission = Missing,
     rn_polls = [], rn_ticks = 0, rn_known = [], rn_workspaces = [], rn_paused = False, rn_stop = False,
     rn_governor = \<lparr>gv_soft = 0, gv_hard = 0, gv_shadow = False, gv_override = False, gv_warnings = 0\<rparr>, rn_results = [], rn_statuses = [],
     rn_activities = [], rn_cost = 0, rn_tokens = 0, rn_reused = 0, rn_sent = 0, rn_cache = no_cache_usage,
     rn_reason = None, rn_pending = [], rn_log = []\<rparr>"


definition crashing :: runtime_env where
  "crashing = (demo_workers 1)\<lparr>og_executors := [(lit ''e'', \<lparr>ex_call = (\<lambda>_. Raised (lit ''E'')), ex_reuses_context = False\<rparr>)]\<rparr>"

definition half_done :: run_state where
  "half_done = no_files\<lparr>rn_journal := journal_save (og_journal crashing) [(lit ''a'',
     \<lparr>sj_step_id = lit ''a'', sj_endpoint_id = lit ''e'', sj_status = SPassed, sj_attempt = 1, sj_idempotency_key = lit ''k'',
      sj_request_digest = lit ''d'', sj_started_at = PNone, sj_finished_at = PNone, sj_result_summary = []\<rparr>)]\<rparr>"

lemma crashing_run:
  "called (rn_log (snd (orchestrate crashing [] half_done))) = [lit ''b''] \<and> passed_before crashing [] half_done = [lit ''a'']"
  by code_simp

text \<open>A run of one step that had passed, and the same run with an interrupted step or a waiting pause command.\<close>

definition single_step :: runtime_env where
  "single_step = (demo_workers 1)\<lparr>og_plan := (demo_run_plan 1)\<lparr>pn_steps := [demo_step ''a'' []]\<rparr>\<rparr>"

definition interrupted_row :: StepJournal where
  "interrupted_row = \<lparr>sj_step_id = lit ''a'', sj_endpoint_id = lit ''e'', sj_status = SRunning, sj_attempt = 1,
     sj_idempotency_key = lit ''k'', sj_request_digest = lit ''d'', sj_started_at = PNone, sj_finished_at = PNone,
     sj_result_summary = []\<rparr>"

definition interrupted :: run_state where
  "interrupted = no_files\<lparr>rn_journal := journal_save (og_journal single_step) [(lit ''a'', interrupted_row)]\<rparr>"

definition pause_waiting :: run_state where
  "pause_waiting = no_files\<lparr>rn_mission := Json (PMap (AList.update (lit ''commands'') (PSeq [PMap (command_to_dict
     \<lparr>mc_command_id = lit ''c'', mc_command_type = lit ''pause'', mc_target = [], mc_text = [], mc_created_at = 0,
      mc_consumed_at = PNone\<rparr>)]) empty_payload))\<rparr>"

lemma paused_run: "fst (orchestrate single_step [] pause_waiting) = Inl PausedForever"
  by code_simp

lemma finished_run:
  "case orchestrate single_step [] half_done of (Inr res, s) \<Rightarrow> ores_status res = Passed \<and> rn_log s = [] | _ \<Rightarrow> False"
  by code_simp

text \<open>The call of a step in a log that has one.\<close>

lemma called_split: "k \<in> set (called es) \<Longrightarrow> \<exists>pre rq post. es = pre @ WorkerCalled rq # post \<and> wq_step_id rq = k"
proof (induction es)
  case (Cons e es)
  show ?case
  proof (cases "\<exists>rq. e = WorkerCalled rq \<and> wq_step_id rq = k")
    case True
    then show ?thesis by (metis append_Nil)
  next
    case False
    with Cons.prems have "k \<in> set (called es)" by (cases e) auto
    with Cons.IH show ?thesis by (metis append_Cons)
  qed
qed simp

lemma crashing_call:
  "\<exists>pre rq post. rn_log (snd (orchestrate crashing [] half_done)) = pre @ WorkerCalled rq # post \<and>
     wq_step_id rq = lit ''b''"
  by (rule called_split) (simp add: crashing_run)

section \<open>Calls\<close>

lemma orchestrate_admissible: "admissible env (passed_before env polls files) (snd (orchestrate env polls files))"
  using orchestrate_outcome [of env polls files]
  by (cases "orchestrate env polls files") (auto simp: run_post_def raised_ok_def split: sum.splits)

text \<open>C11. The coordinator implements the dispatching machine.\<close>

theorem runs_follow_the_dispatcher:
  "observe_all env (rn_log (snd (orchestrate env polls files))) (dispatch_start env (passed_before env polls files)) \<noteq> None"
  using orchestrate_admissible [of env polls files] by (simp add: admissible_def)

text \<open>C13. Nobody starts before what he depends on has passed.\<close>

theorem dependencies_pass_first:
  assumes "rn_log (snd (orchestrate env polls files)) = pre @ WorkerCalled rq # post"
    and "planned_item env (wq_step_id rq) = Some item" "k \<in> set (awaited env item)"
  shows "k \<in> set (passed_before env polls files) \<or> (\<exists>c. WorkerReturned k True c \<in> set pre)"
  using admitted_call_waits [OF _ assms(2,3), of pre post "passed_before env polls files"]
    orchestrate_admissible [of env polls files] by (simp add: admissible_def assms(1))

theorem dependencies_pass_first_witness:
  "\<exists>pre rq post. rn_log (snd (orchestrate crashing [] half_done)) = pre @ WorkerCalled rq # post \<and>
     wq_step_id rq = lit ''b'' \<and>
     (lit ''a'' \<in> set (passed_before crashing [] half_done) \<or> (\<exists>c. WorkerReturned (lit ''a'') True c \<in> set pre))"
proof -
  from crashing_call obtain pre rq post where
    c: "rn_log (snd (orchestrate crashing [] half_done)) = pre @ WorkerCalled rq # post" "wq_step_id rq = lit ''b''" by blast
  have b: "planned_item crashing (lit ''b'') = Some (demo_step ''b'' [''a''])" "lit ''a'' \<in> set (awaited crashing (demo_step ''b'' [''a'']))"
    by code_simp+
  have "lit ''a'' \<in> set (passed_before crashing [] half_done) \<or> (\<exists>c. WorkerReturned (lit ''a'') True c \<in> set pre)"
    by (rule dependencies_pass_first [OF c(1) _ b(2)]) (simp add: c(2) b(1))
  with c show ?thesis by blast
qed

text \<open>C15. No step is called twice, and none that had passed before.\<close>

theorem no_step_is_called_twice:
  "distinct (called (rn_log (snd (orchestrate env polls files)))) \<and>
   set (called (rn_log (snd (orchestrate env polls files)))) \<inter> set (passed_before env polls files) = {}"
  by (rule admitted_calls_once) (use orchestrate_admissible [of env polls files] in \<open>simp add: admissible_def\<close>)

text \<open>What the results so far have cost.\<close>

definition spent :: "runtime_env \<Rightarrow> worker_event list \<Rightarrow> real" where
  "spent env es = og_initial_cost env + sum_list (map (\<lambda>e. case e of WorkerReturned k ok c \<Rightarrow> c | _ \<Rightarrow> 0) es)"

lemma observe_all_cost:
  "observe_all env es d = Some d' \<Longrightarrow>
     di_cost d' = di_cost d + sum_list (map (\<lambda>e. case e of WorkerReturned k ok c \<Rightarrow> c | _ \<Rightarrow> 0) es)"
proof (induction es arbitrary: d)
  case (Cons e es)
  from Cons.prems obtain d1 where d1: "observe env e d = Some d1" "observe_all env es d1 = Some d'"
    by (auto simp: bind_eq_Some_conv)
  from Cons.IH [OF d1(2)] d1(1) show ?case by (cases e) (auto split: if_splits)
qed simp

lemma observe_all_out:
  "observe_all env es d = Some d' \<Longrightarrow> (\<forall>(k, b) \<in> set (di_out d). 0 \<le> b) \<Longrightarrow> \<forall>(k, b) \<in> set (di_out d'). 0 \<le> b"
proof (induction es arbitrary: d)
  case (Cons e es)
  from Cons.prems(1) obtain d1 where d1: "observe env e d = Some d1" "observe_all env es d1 = Some d'"
    by (auto simp: bind_eq_Some_conv)
  from d1(1) Cons.prems(2) have "\<forall>(k, b) \<in> set (di_out d1). 0 \<le> b"
    by (cases e) (auto simp: may_call_def split: if_splits option.splits)
  from Cons.IH [OF d1(2) this] show ?case .
qed simp

text \<open>C14. What a worker may spend is left in the hard budget when it is called.\<close>

theorem calls_stay_in_the_budget:
  assumes "rn_log (snd (orchestrate env polls files)) = pre @ WorkerCalled rq # post"
  shows "spent env pre < hard_budget env \<and> 0 \<le> wq_max_cost_usd rq \<and>
    spent env pre + wq_max_cost_usd rq \<le> hard_budget env"
proof -
  let ?d0 = "dispatch_start env (passed_before env polls files)"
  from orchestrate_admissible [of env polls files] assms obtain d' where
    "observe_all env (pre @ WorkerCalled rq # post) ?d0 = Some d'" by (auto simp: admissible_def)
  then obtain d where d: "observe_all env pre ?d0 = Some d" "may_call env d rq" by (rule observe_all_call)
  from observe_all_cost [OF d(1)] have cost: "di_cost d = spent env pre" by (simp add: spent_def dispatch_start_def)
  have "\<forall>(k, b) \<in> set (di_out d). 0 \<le> b" using observe_all_out [OF d(1)] by (simp add: dispatch_start_def)
  then have "0 \<le> sum_list (map snd (di_out d))" by (intro sum_list_nonneg) auto
  with d(2) cost show ?thesis by (auto simp: may_call_def split: option.splits)
qed

theorem calls_stay_in_the_budget_witness:
  "\<exists>pre rq post. rn_log (snd (orchestrate crashing [] half_done)) = pre @ WorkerCalled rq # post \<and>
     spent crashing pre + wq_max_cost_usd rq \<le> 10"
proof -
  from crashing_call obtain pre rq post where
    c: "rn_log (snd (orchestrate crashing [] half_done)) = pre @ WorkerCalled rq # post" by blast
  moreover have "hard_budget crashing = 10"
    by (simp add: hard_budget_def crashing_def demo_workers_def demo_run_plan_def default_policy_def)
  ultimately show ?thesis using calls_stay_in_the_budget [OF c] by auto
qed

section \<open>How runs end\<close>

lemma orchestrate_honest:
  assumes "orchestrate env polls files = (Inl e, s)" shows "honest e s"
  using orchestrate_outcome [of env polls files] by (simp add: assms run_post_def raised_ok_def)

text \<open>C18. The waves end: the rounds granted, one per pending step, are enough.\<close>

theorem runs_terminate: "fst (orchestrate env polls files) \<noteq> Inl OutOfFuel"
  using orchestrate_honest [of env polls files OutOfFuel]
  by (cases "orchestrate env polls files") (auto simp: honest_def)

section \<open>Pausing, resuming, stopping\<close>

text \<open>What a control command means for the flags \<open>(paused, stopped)\<close>; the others leave them alone.\<close>

definition ordered :: "MobileCommand \<Rightarrow> bool \<times> bool \<Rightarrow> bool \<times> bool" where
  "ordered c f =
     (if mc_command_type c = lit ''pause'' then (True, snd f)
      else if mc_command_type c = lit ''resume'' then (False, snd f)
      else if mc_command_type c = lit ''stop'' then (False, True)
      else f)"

definition flags :: "run_state \<Rightarrow> bool \<times> bool" where
  "flags s = (rn_paused s, rn_stop s)"

lemma flags_waiting: "flags s = (True, False) \<longleftrightarrow> rn_paused s \<and> \<not> rn_stop s"
  by (simp add: flags_def)

text \<open>Successive polls, each with the commands that were waiting; in between the shown status may change.\<close>

inductive delivered :: "runtime_env \<Rightarrow> run_state \<Rightarrow> MobileCommand list list \<Rightarrow> run_state \<Rightarrow> bool" for env where
  delivered_done: "delivered env s [] s"
| delivered_shown: "set_mission_status env st s = (Inr (), s1) \<Longrightarrow> delivered env s1 css s2 \<Longrightarrow> delivered env s css s2"
| delivered_poll: "pending_commands (og_mission env) (rn_mission (outside_acts s)) = Inr cs \<Longrightarrow> poll env s = (Inr (), s1) \<Longrightarrow>
    delivered env s1 css s2 \<Longrightarrow> delivered env s (cs # css) s2"

lemma delivered_then_shown:
  "delivered env s css s1 \<Longrightarrow> set_mission_status env st s1 = (Inr (), s2) \<Longrightarrow> delivered env s css s2"
  by (induction rule: delivered.induct) (auto intro: delivered.intros)

text \<open>Steps that leave the flags alone and never wait.\<close>

abbreviation (input) flag_triple :: "bool \<times> bool \<Rightarrow> 'a run \<Rightarrow> bool \<times> bool \<Rightarrow> bool" where
  "flag_triple f m g \<equiv> triple (\<lambda>s. flags s = f) m (\<lambda>_ s. flags s = g) (\<lambda>e _. e \<noteq> PausedForever)"

lemma flag_bindS: "flag_triple f m g \<Longrightarrow> (\<And>x. flag_triple g (k x) h) \<Longrightarrow> flag_triple f (bindS m k) h"
  by (rule triple_bindS)

lemma flag_steps:
  "flag_triple f (tick_time env) f" "flag_triple f (on_bus b) f" "flag_triple f (on_mission m) f" "flag_triple f (retS x) f"
  "flag_triple f (pureS RunMission r) f"
  by (auto simp: triple_def flags_def tick_time_def on_bus_def on_mission_def zoomS_def retS_def pureS_def split: sum.split prod.split)

lemma flag_putS:
  "flag_triple f (putS (\<lambda>s. s\<lparr>rn_paused := b\<rparr>)) (b, snd f)"
  "flag_triple f (putS (\<lambda>s. s\<lparr>rn_stop := True, rn_paused := False\<rparr>)) (False, True)"
  by (auto simp: triple_def putS_def flags_def)

lemma flag_noted:
  "flag_triple f (bindS (tick_time env) (\<lambda>now. bindS (on_bus (b now)) (\<lambda>_. retS ()))) f"
  "flag_triple f (bindS (tick_time env) (\<lambda>now. bindS (on_mission (m now)) (\<lambda>_. retS ()))) f"
  by (rule flag_bindS [OF flag_steps(1)], rule flag_bindS [OF flag_steps(2)], rule flag_steps(4))
    (rule flag_bindS [OF flag_steps(1)], rule flag_bindS [OF flag_steps(3)], rule flag_steps(4))

lemma flag_state: "(\<And>s. flag_triple f (k s) g) \<Longrightarrow> flag_triple f (\<lambda>s. k s s) g"
  by (simp add: triple_def)

lemma flag_apply: "flag_triple f (apply_command env c) (ordered c f)"
proof -
  let ?t = "mc_command_type c"
  have e: "lit ''pause'' \<noteq> lit ''resume''" "lit ''pause'' \<noteq> lit ''stop''" "lit ''resume'' \<noteq> lit ''stop''"
    "lit ''steer'' \<notin> {lit ''pause'', lit ''resume'', lit ''stop''}" "lit ''approve_request'' \<notin> {lit ''pause'', lit ''resume'', lit ''stop''}"
    by (simp_all add: lit_def)
  have "flag_triple f (if ?t = lit ''pause'' then putS (\<lambda>s. s\<lparr>rn_paused := True\<rparr>)
        else if ?t = lit ''resume'' then putS (\<lambda>s. s\<lparr>rn_paused := False\<rparr>)
        else if ?t = lit ''stop'' then putS (\<lambda>s. s\<lparr>rn_stop := True, rn_paused := False\<rparr>)
        else if ?t = lit ''steer'' then bindS (tick_time env) (\<lambda>now. bindS (on_bus (g now)) (\<lambda>_. retS ()))
        else if ?t = lit ''approve_request'' then bindS (tick_time env) (\<lambda>now. bindS (on_bus (h now)) (\<lambda>_. retS ()))
        else retS ()) (ordered c f)" for g h :: "real \<Rightarrow> json_file \<Rightarrow> (bus_error + 'x) \<times> json_file"
    unfolding ordered_def using e by (simp add: flag_putS flag_steps flag_noted)
  then show ?thesis unfolding apply_command_def by (rule flag_bindS) (rule flag_noted)
qed

lemma flag_commands: "flag_triple f (forS (apply_command env) cs) (fold ordered cs f)"
proof (induction cs arbitrary: f)
  case (Cons c cs)
  show ?case using flag_bindS [OF flag_apply Cons.IH] by simp
qed (simp add: flag_steps)

lemma flag_status: "flag_triple f (set_mission_status env st) f"
proof -
  have "flag_triple f (case snap of None \<Rightarrow> retS ()
       | Some m \<Rightarrow> bindS (tick_time env) (\<lambda>now. bindS (on_mission (g m now)) (\<lambda>_. retS ()))) f" for snap g
    by (cases snap) (simp_all add: flag_noted flag_steps)
  then have "flag_triple f (bindS (pureS RunMission r) (\<lambda>snap. case snap of None \<Rightarrow> retS ()
       | Some m \<Rightarrow> bindS (tick_time env) (\<lambda>now. bindS (on_mission (g m now)) (\<lambda>_. retS ())))) f" for r g
    by (rule flag_bindS [OF flag_steps(5)])
  then show ?thesis unfolding set_mission_status_def by (rule flag_state)
qed

lemma poll_flags:
  assumes "poll env s = (r, s')"
  shows "(case r of Inl e \<Rightarrow> e \<noteq> PausedForever
    | Inr _ \<Rightarrow> \<exists>cs. pending_commands (og_mission env) (rn_mission (outside_acts s)) = Inr cs \<and> flags s' = fold ordered cs (flags s))"
proof -
  let ?o = "outside_acts s"
  have o: "flags ?o = flags s" by (simp add: flags_def outside_acts_def split: list.split)
  show ?thesis
  proof (cases "pending_commands (og_mission env) (rn_mission ?o)")
    case (Inl e)
    then show ?thesis using assms by (auto simp: poll_def consume_once_def bindS_def pureS_def)
  next
    case (Inr cs)
    then have run: "forS (apply_command env) cs ?o = (r, s')" using assms by (simp add: poll_def consume_once_def bindS_def pureS_def)
    show ?thesis using flag_commands [of "flags s" env cs] run Inr o unfolding triple_def by (cases r) fastforce+
  qed
qed

text \<open>The polls of a wait: it goes on exactly as long as the commands leave the run paused.\<close>

lemma await_polls:
  assumes "await_resume env n s = (r, s')" "r = Inr () \<or> r = Inl PausedForever"
  shows "\<exists>css. delivered env s css s' \<and> flags s' = fold ordered (concat css) (flags s) \<and>
    (\<forall>k < length css. fold ordered (concat (take k css)) (flags s) = (True, False)) \<and>
    (r = Inr () \<longleftrightarrow> flags s' \<noteq> (True, False))"
  using assms
proof (induction n arbitrary: s)
  case 0
  then show ?case by (intro exI [of _ "[]"]) (auto simp: flags_waiting intro: delivered_done split: if_splits)
next
  case (Suc n)
  show ?case
  proof (cases "flags s = (True, False)")
    case False
    then show ?thesis using Suc.prems by (intro exI [of _ "[]"]) (auto simp: flags_waiting intro: delivered_done split: if_splits)
  next
    case True
    obtain r1 s1 where p: "poll env s = (r1, s1)" by force
    have run: "bindS (poll env) (\<lambda>_. await_resume env n) s = (r, s')" using Suc.prems(1) True by (simp add: flags_waiting)
    show ?thesis
    proof (cases r1)
      case (Inl e)
      then have "r = Inl e" using run p by (simp add: bindS_def)
      with poll_flags [OF p] Inl Suc.prems(2) show ?thesis by auto
    next
      case (Inr u)
      from poll_flags [OF p] Inr obtain cs where
        cs: "pending_commands (og_mission env) (rn_mission (outside_acts s)) = Inr cs" "flags s1 = fold ordered cs (flags s)" by auto
      have rest: "await_resume env n s1 = (r, s')" using run p Inr by (simp add: bindS_def)
      from Suc.IH [OF rest Suc.prems(2)] obtain css where
        c: "delivered env s1 css s'" "flags s' = fold ordered (concat css) (flags s1)"
          "\<forall>k < length css. fold ordered (concat (take k css)) (flags s1) = (True, False)"
          "r = Inr () \<longleftrightarrow> flags s' \<noteq> (True, False)" by blast
      have "delivered env s (cs # css) s'" using delivered_poll [OF cs(1) _ c(1)] p Inr by simp
      moreover have "fold ordered (concat (take k (cs # css))) (flags s) = (True, False)" if "k < length (cs # css)" for k
        using that c(3) cs(2) True by (cases k) auto
      ultimately show ?thesis using c(2,4) cs(2) by (intro exI [of _ "cs # css"]) simp
    qed
  qed
qed

text \<open>C37. 
  The user is obeyed at every boundary between workers. What the boundary leaves of the flags is exactly what
  the commands that were waiting at its polls ordered, one after the other: pause, resume and stop, the last
  word being final and a stop never taken back. It polls once and then again as long as those commands leave
  the run paused and not stopped, no longer: it returns at the first poll after which they do not, and tells
  the run to end exactly when a stop was ordered. Only when every poll leaves the run paused does it wait
  for ever.
\<close>
theorem the_user_is_obeyed:
  assumes "consume_mobile env s = (r, s')" and "r = Inr stopped \<or> r = Inl PausedForever"
  shows "\<exists>cs css. delivered env s (cs # css) s' \<and> flags s' = fold ordered (concat (cs # css)) (flags s) \<and>
    (\<forall>k \<in> {1..length css}. fold ordered (concat (take k (cs # css))) (flags s) = (True, False)) \<and>
    (if r = Inl PausedForever then flags s' = (True, False) \<and> rn_polls s' = []
     else flags s' \<noteq> (True, False) \<and> stopped = rn_stop s')"
proof -
  obtain r1 s1 where p: "poll env s = (r1, s1)" by force
  obtain u where r1: "r1 = Inr u"
  proof (cases r1)
    case (Inl e)
    then have "r = Inl e" using assms(1) p by (simp add: consume_mobile_def bindS_def flags_waiting)
    with poll_flags [OF p] Inl assms(2) show ?thesis by auto
  qed blast
  from poll_flags [OF p] r1 obtain cs where
    cs: "pending_commands (og_mission env) (rn_mission (outside_acts s)) = Inr cs" "flags s1 = fold ordered cs (flags s)" by auto
  have first: "delivered env s (cs # css) s2" if "delivered env s1 css s2" for css s2
    using delivered_poll [OF cs(1) _ that] p r1 by simp
  show ?thesis
  proof (cases "flags s1 = (True, False)")
    case False
    then have "s' = s1 \<and> r = Inr (rn_stop s1)" using assms(1) p r1 by (auto simp: consume_mobile_def bindS_def flags_waiting split: if_splits)
    with False assms(2) cs(2) first [OF delivered_done] show ?thesis by (intro exI [of _ cs] exI [of _ "[]"]) auto
  next
    case True
    obtain r2 s2 where st: "set_mission_status env Paused s1 = (r2, s2)" by force
    obtain r3 s3 where aw: "await_resume env (length (rn_polls s2)) s2 = (r3, s3)" by force
    have 2: "r2 = Inr ()"
    proof (cases r2)
      case (Inl e)
      then have "r = Inl e" using assms(1) p r1 True st by (simp add: consume_mobile_def bindS_def flags_waiting)
      then show ?thesis using triple_Inl [OF flag_status refl st [unfolded Inl]] assms(2) by simp
    qed simp
    have f2: "flags s2 = flags s1" using triple_Inr [OF flag_status refl st [unfolded 2]] .
    have polls: "rn_polls s' = []" if "r = Inl PausedForever"
      using quietD [OF quiet_consume_mobile assms(1)] that by (simp add: honest_def)
    have 3: "r3 = Inr () \<or> r3 = Inl PausedForever"
    proof (cases r3)
      case (Inl e)
      then have "r = Inl e" using assms(1) p r1 True st 2 aw by (simp add: consume_mobile_def bindS_def flags_waiting)
      with Inl assms(2) show ?thesis by auto
    qed simp
    from await_polls [OF aw 3] obtain css where
      c: "delivered env s2 css s3" "flags s3 = fold ordered (concat css) (flags s1)"
        "\<forall>k < length css. fold ordered (concat (take k css)) (flags s1) = (True, False)"
        "r3 = Inr () \<longleftrightarrow> flags s3 \<noteq> (True, False)" unfolding f2 by blast
    have d: "delivered env s (cs # css) s3" by (rule first) (rule delivered_shown [OF st [unfolded 2] c(1)])
    have paused: "\<forall>k \<in> {1..length css}. fold ordered (concat (take k (cs # css))) (flags s) = (True, False)"
    proof
      fix k assume "k \<in> {1..length css}"
      then obtain m where "k = Suc m" "m < length css" by (cases k) auto
      with c(3) cs(2) show "fold ordered (concat (take k (cs # css))) (flags s) = (True, False)" by simp
    qed
    have f3: "flags s3 = fold ordered (concat (cs # css)) (flags s)" using c(2) cs(2) by simp
    show ?thesis
    proof (cases "flags s3 = (True, False)")
      case w: True
      then have "r = Inl PausedForever \<and> s' = s3" using c(4) 3 assms(1) p r1 True st 2 aw
        by (auto simp: consume_mobile_def bindS_def flags_waiting)
      with d f3 paused w polls show ?thesis by (intro exI [of _ cs] exI [of _ css]) simp
    next
      case go: False
      then have r3: "r3 = Inr ()" using c(4) by simp
      show ?thesis
      proof (cases "rn_stop s3")
        case stop: True
        then have "r = Inr True \<and> s' = s3" using assms(1) p r1 True st 2 aw r3 by (simp add: consume_mobile_def bindS_def flags_waiting)
        with d f3 paused go stop assms(2) show ?thesis by (intro exI [of _ cs] exI [of _ css]) (auto simp: flags_def)
      next
        case on: False
        obtain r4 s4 where up: "set_mission_status env Running s3 = (r4, s4)" by force
        have 4: "r4 = Inr ()"
        proof (cases r4)
          case (Inl e)
          then have "r = Inl e" using assms(1) p r1 True st 2 aw r3 on up by (simp add: consume_mobile_def bindS_def flags_waiting)
          then show ?thesis using triple_Inl [OF flag_status refl up [unfolded Inl]] assms(2) by simp
        qed simp
        have "r = Inr False \<and> s' = s4" using assms(1) p r1 True st 2 aw r3 on up 4 by (simp add: consume_mobile_def bindS_def retS_def flags_waiting)
        moreover have "flags s4 = flags s3" using triple_Inr [OF flag_status refl up [unfolded 4]] .
        moreover have "delivered env s (cs # css) s4" by (rule delivered_then_shown [OF d up [unfolded 4]])
        ultimately show ?thesis using f3 paused go on assms(2) by (intro exI [of _ cs] exI [of _ css]) (auto simp: flags_def)
      qed
    qed
  qed
qed

text \<open>The user pauses the run and resumes it before the second poll.\<close>

definition control_file :: "string \<Rightarrow> json_file" where
  "control_file t = Json (PMap (AList.update (lit ''commands'') (PSeq [PMap (command_to_dict
     \<lparr>mc_command_id = lit t, mc_command_type = lit t, mc_target = [], mc_text = [], mc_created_at = 0, mc_consumed_at = PNone\<rparr>)])
     empty_payload))"

definition paused_and_resumed :: run_state where
  "paused_and_resumed = no_files\<lparr>rn_polls := [\<lambda>_. control_file ''pause'', \<lambda>_. control_file ''resume'']\<rparr>"

lemma resumed_run: "fst (consume_mobile single_step paused_and_resumed) = Inr False"
  by code_simp

theorem the_user_is_obeyed_witness:
  "\<exists>cs css s'. consume_mobile single_step paused_and_resumed = (Inr False, s') \<and> delivered single_step paused_and_resumed (cs # css) s' \<and>
     flags s' = fold ordered (concat (cs # css)) (False, False) \<and> flags s' \<noteq> (True, False)"
proof -
  obtain s' where r: "consume_mobile single_step paused_and_resumed = (Inr False, s')"
    using resumed_run by (metis prod.collapse)
  have f: "flags paused_and_resumed = (False, False)" by (simp add: flags_def paused_and_resumed_def no_files_def)
  from the_user_is_obeyed [OF r, of False, unfolded f] r show ?thesis by auto
qed

lemma dict_of_keys: "fst ` set (dict_of key xs) = key ` set xs"
proof -
  have "fst ` set (fold (\<lambda>x. AList.update (key x) x) xs d) = fst ` set d \<union> key ` set xs" for d
  proof (induction xs arbitrary: d)
    case (Cons x xs)
    have "fst ` set (AList.update (key x) x d) = insert (key x) (fst ` set d)"
      using arg_cong [OF update_keys [of "key x" x d], of set] by (auto split: if_split_asm)
    with Cons.IH [of "AList.update (key x) x d"] show ?case by simp
  qed simp
  from this [of "[]"] show ?thesis by (simp add: dict_of_def)
qed

text \<open>C16. A passed run has passed every step of the plan. The cost it reports is the initial cost, what planning
  had spent before, plus what the results cost, rounded to twelve places.\<close>

theorem passed_runs_are_complete:
  assumes "orchestrate env polls files = (Inr res, s)" "ores_status res = Passed"
    and "item \<in> set (pn_steps (og_plan env))"
  shows "(step_of item \<in> set (passed_before env polls files) \<or> (\<exists>c. WorkerReturned (step_of item) True c \<in> set (rn_log s))) \<and>
    ores_total_cost_usd res = py_round 12 (spent env (rn_log s))"
proof -
  let ?d0 = "dispatch_start env (passed_before env polls files)"
  from orchestrate_outcome [of env polls files] assms(1,2) obtain d where
    d: "observe_all env (rn_log s) ?d0 = Some d" "\<forall>k. planned_item env k \<noteq> None \<longrightarrow> k \<in> set (di_passed d)"
      "ores_total_cost_usd res = py_round 12 (di_cost d)"
    by (auto simp: run_post_def)
  have "planned_item env (step_of item) \<noteq> None"
    using assms(3) dict_of_keys [of step_of "pn_steps (og_plan env)"]
    by (auto simp: planned_item_def planned_table_def map_of_eq_None_iff)
  with d(2) have "step_of item \<in> set (di_passed d)" by blast
  with observe_all_parts [OF d(1)] observe_all_cost [OF d(1)] d(3) show ?thesis
    by (auto simp: dispatch_start_def spent_def)
qed

theorem passed_runs_are_complete_witness:
  "\<exists>res s. orchestrate single_step [] half_done = (Inr res, s) \<and> ores_status res = Passed \<and>
     lit ''a'' \<in> set (passed_before single_step [] half_done)"
proof -
  from finished_run obtain res s where run: "orchestrate single_step [] half_done = (Inr res, s)"
    and res: "ores_status res = Passed" "rn_log s = []"
    by (cases "orchestrate single_step [] half_done") (auto split: sum.splits)
  have "demo_step ''a'' [] \<in> set (pn_steps (og_plan single_step))"
    by (simp add: single_step_def demo_workers_def demo_run_plan_def)
  from passed_runs_are_complete [OF run res(1) this] res(2)
  have "lit ''a'' \<in> set (passed_before single_step [] half_done)" by (simp add: demo_step_def mk_step_def)
  with run res(1) show ?thesis by blast
qed

section \<open>Interrupted and stopped runs\<close>

lemma initialized_row:
  assumes "journal_initialize env rs f = (Inr u, f')" "journal_load env f = Inr d" "map_of d k = Some row"
  shows "\<exists>d'. journal_load env f' = Inr d' \<and> map_of d' k = Some row"
proof -
  note ok = journal_loaded_ok [OF assms(2)]
  from assms(1,2) obtain d' ch where r: "initialize_rows env rs d False = Inr (d', ch)"
    and f': "f' = (if ch then journal_save env d' else f)"
    by (auto simp: journal_initialize_def split: sum.splits)
  from initialize_rows_grow [OF r ok] assms(3)
  have grown: "journal_ok d'" "map_of d' k = Some row" "\<not> ch \<Longrightarrow> d' = d" by auto
  show ?thesis
  proof (cases ch)
    case True
    with journal_load_saved [OF grown(1), of env] f' grown(2) show ?thesis by auto
  next
    case False
    with f' assms(2,3) show ?thesis by auto
  qed
qed

lemma reconcile_required:
  assumes "journal_load env f = Inr d" "map_of d k = Some row" "sj_status row \<in> {SRunning, SReconcile}"
  shows "\<exists>snap f'. reconcile_after_restart env f = (Inr snap, f') \<and> k \<in> set (rs_reconcile_required snap)"
proof -
  note ok = journal_loaded_ok [OF assms(1)]
  have in_snap: "k \<in> set (rs_reconcile_required (snapshot_of (je_run env) d'))"
    if "map_of d' k = Some r" "sj_status r = SReconcile" "sj_step_id r = k" for d' r
  proof -
    have "r \<in> set (sorted_values d')"
      using that(1) by (force simp: sorted_values_def dest: map_of_SomeD intro: image_eqI [where x = k])
    with that(2,3) show ?thesis by (force simp: snapshot_of_def Let_def steps_in_def)
  qed
  have id: "sj_step_id row = k" using keyed_lookup [OF ok assms(2)] by simp
  let ?d' = "map (\<lambda>(k, r). (k, reconcile_row r)) d"
  show ?thesis
  proof (cases "list_ex (\<lambda>(k, r). sj_status r = SRunning) d")
    case True
    let ?f' = "journal_save env ?d'"
    have load: "journal_load env ?f' = Inr (sorted_dict ?d')" by (rule journal_load_saved [OF reconciled_ok [OF ok]])
    have row: "map_of (sorted_dict ?d') k = Some (reconcile_row row)" by (simp add: map_of_map_value assms(2))
    have "k \<in> set (rs_reconcile_required (snapshot_of (je_run env) (sorted_dict ?d')))"
      by (rule in_snap [OF row]) (use assms(3) id in \<open>auto simp: reconcile_row_def\<close>)
    with True assms(1) load show ?thesis by (simp add: reconcile_after_restart_def journal_snapshot_def Let_def)
  next
    case False
    have "(k, row) \<in> set d" by (rule map_of_SomeD [OF assms(2)])
    with False have "sj_status row \<noteq> SRunning" by (auto simp: list_ex_iff)
    with assms(3) have "sj_status row = SReconcile" by simp
    with in_snap [OF assms(2) _ id] False assms(1) show ?thesis
      by (simp add: reconcile_after_restart_def journal_snapshot_def Let_def)
  qed
qed

lemma refuse_recovery_quiet: "rn_log (snd (refuse_recovery env snap s)) = rn_log s"
  "fst (refuse_recovery env snap s) = Inr res \<Longrightarrow> ores_status res = Failed"
proof -
  let ?pub = "\<lambda>s. publish_mission env (recovery_texts snap)
         (map (\<lambda>k. (k, lit ''External work must be reconciled before retry'')) (rs_reconcile_required snap))
         (rn_cost s) (rn_tokens s) 0 None Blocked s"
  have q: "quiet ?pub" unfolding publish_mission_def by (rule quiet_state) (intro quiets)
  obtain r1 s1 where m: "?pub s = (r1, s1)" by force
  from quietD [OF q m] core_log [of s1 s] m show "rn_log (snd (refuse_recovery env snap s)) = rn_log s"
    by (cases r1) (auto simp: refuse_recovery_def bindS_def)
  from m show "fst (refuse_recovery env snap s) = Inr res \<Longrightarrow> ores_status res = Failed"
    by (cases r1) (auto simp: refuse_recovery_def bindS_def)
qed

text \<open>C17. Work that was running when the last run broke off is reported, and nobody is called.\<close>

theorem interrupted_work_is_never_replayed:
  assumes "journal_load (og_journal env) (rn_journal files) = Inr d" "map_of d k = Some row"
    and "sj_status row \<in> {SRunning, SReconcile}"
  shows "rn_log (snd (orchestrate env polls files)) = [] \<and>
    (case fst (orchestrate env polls files) of Inr res \<Rightarrow> ores_status res = Failed | Inl e \<Rightarrow> True)"
proof -
  let ?s = "fresh_state env polls files"
  have j: "rn_journal ?s = rn_journal files" "rn_log ?s = []" by (simp_all add: fresh_state_def)
  obtain r1 s1 where m: "construct env ?s = (r1, s1)" by force
  show ?thesis
  proof (cases r1)
    case (Inl e)
    with m j(2) show ?thesis
      by (auto simp: orchestrate_def bindS_def construct_def raiseS_def on_journal_def zoomS_def split: if_splits prod.splits sum.splits)
  next
    case (Inr u)
    with m obtain f' where init: "journal_initialize (og_journal env) (journal_requests (og_plan env)) (rn_journal files) = (Inr u, f')"
      and s1: "s1 = ?s\<lparr>rn_journal := f'\<rparr>"
      by (auto simp: construct_def raiseS_def on_journal_def zoomS_def j split: if_splits prod.splits sum.splits)
    from initialized_row [OF init assms(1,2)] obtain d' where "journal_load (og_journal env) f' = Inr d'" "map_of d' k = Some row"
      by blast
    from reconcile_required [OF this assms(3)] obtain snap f2 where
      rec: "reconcile_after_restart (og_journal env) f' = (Inr snap, f2)" "rs_reconcile_required snap \<noteq> []" by force
    let ?s2 = "s1\<lparr>rn_journal := f2\<rparr>"
    have "on_journal (reconcile_after_restart (og_journal env)) s1 = (Inr snap, ?s2)"
      by (simp add: on_journal_def zoomS_def s1 rec(1))
    then have "run_orchestration env s1 = refuse_recovery env snap ?s2"
      using rec(2) by (simp add: run_orchestration_def run_serial_def run_parallel_def bindS_ok)
    then have run: "orchestrate env polls files = refuse_recovery env snap ?s2"
      using m Inr by (simp add: orchestrate_def bindS_ok)
    have "rn_log ?s2 = []" by (simp add: s1 j(2))
    with refuse_recovery_quiet [of env snap ?s2] show ?thesis by (auto simp: run split: sum.split)
  qed
qed

theorem interrupted_work_is_never_replayed_witness:
  "rn_log (snd (orchestrate single_step [] interrupted)) = []"
proof -
  have "journal_load (og_journal single_step) (rn_journal interrupted) = Inr [(lit ''a'', interrupted_row)]"
    by (simp add: interrupted_def, subst journal_load_saved)
      (simp_all add: keyed_def dict_ok_def journal_row_ok_def interrupted_row_def sorted_dict_def)
  from interrupted_work_is_never_replayed [OF this, of "lit ''a''" interrupted_row "[]"] show ?thesis
    by (simp add: interrupted_row_def)
qed

lemma stopped_serial_step:
  assumes "rn_stop s" "serial_step env item s = (r, s')"
  shows "rn_log s' = rn_log s \<and> rn_stop s' \<and> (\<forall>go. r = Inr go \<longrightarrow> go \<longrightarrow> s' = s)"
proof (cases "map_of (rn_statuses s) (step_of item) = Some Passed")
  case True
  with assms show ?thesis by (simp add: serial_step_parts)
next
  case False
  obtain r1 s1 where m: "consume_mobile env s = (r1, s1)" by force
  from quietD [OF quiet_consume_mobile m] assms(1) have c: "rn_log s1 = rn_log s" "rn_stop s1" by (auto dest: core_log)
  show ?thesis
  proof (cases r1)
    case (Inl e)
    with assms(2) False m c show ?thesis by (auto simp: serial_step_parts bindS_err)
  next
    case (Inr b)
    with consume_mobile_stop [OF m [unfolded Inr]] assms(1) have "b" by simp
    with assms(2) False m c Inr show ?thesis by (auto simp: serial_step_parts bindS_ok serial_enter_def stop_run_def)
  qed
qed

lemma stopped_serial_steps: "rn_stop s \<Longrightarrow> rn_log (snd (serial_steps env items s)) = rn_log s"
proof (induction items)
  case (Cons item items)
  obtain r1 s1 where m: "serial_step env item s = (r1, s1)" by force
  from stopped_serial_step [OF Cons.prems m] m Cons.IH [OF Cons.prems] show ?case
    by (cases r1) (auto simp: bindS_def retS_def)
qed (simp add: retS_def)

lemma stopped_waves:
  assumes "rn_stop s" shows "rn_log (snd (run_waves env order n s)) = rn_log s"
proof (cases "rn_pending s = [] \<or> n = 0")
  case True
  then show ?thesis by (cases n) auto
next
  case False
  then obtain m where n: "n = Suc m" by (cases n) auto
  obtain r1 s1 where c: "consume_mobile env s = (r1, s1)" by force
  from quietD [OF quiet_consume_mobile c] have log: "rn_log s1 = rn_log s" by (auto dest: core_log)
  from consume_mobile_stop [of env s _ s1] c assms log False show ?thesis
    by (cases r1) (auto simp: n bindS_def parallel_wave_parts parallel_enter_def stop_run_def retS_def)
qed

text \<open>Once the user has stopped the run nobody is called any more, whatever is left to do.\<close>

theorem a_stopped_run_calls_nobody:
  assumes "rn_stop s"
  shows "rn_log (snd (serial_steps env items s)) = rn_log s \<and> rn_log (snd (run_waves env order n s)) = rn_log s"
  using stopped_serial_steps [OF assms] stopped_waves [OF assms] by blast

theorem a_stopped_run_calls_nobody_witness:
  "rn_log (snd (serial_steps single_step [demo_step ''a'' []] (no_files\<lparr>rn_stop := True\<rparr>))) = [] \<and>
   rn_log (snd (run_waves single_step [demo_step ''a'' []] 1 (no_files\<lparr>rn_stop := True, rn_pending := [lit ''a'']\<rparr>))) = []"
  using a_stopped_run_calls_nobody [of "no_files\<lparr>rn_stop := True\<rparr>" single_step "[demo_step ''a'' []]"]
    a_stopped_run_calls_nobody [of "no_files\<lparr>rn_stop := True, rn_pending := [lit ''a'']\<rparr>" single_step _ "[demo_step ''a'' []]" 1]
  by (simp add: no_files_def del: run_waves.simps serial_steps.simps)

section \<open>Two limits\<close>

text \<open>A failed attempt that the journal holds cannot be started again.\<close>

lemma failed_steps_cannot_restart:
  assumes "journal_load env f = Inr d" "map_of d k = Some row" "sj_status row = SFailed"
  shows "mark_started env now k f = (Inl (CannotStart k SFailed), f)"
  using assms by (simp add: mark_started_def)

text \<open>A parallel run never finds a step ready whose dependency has no status, and a dependency that planning
  has dropped never gets one; the serial run skips such a dependency.\<close>

lemma dropped_dependency_is_never_ready:
  assumes "k \<in> set (rp_depends_on (pl_step item))" "map_of (rn_statuses s) k = None"
  shows "item \<notin> set (ready_items order s)"
  using ready_itemsD(3) [OF _ assms(1), of order s] assms(2) by auto

end
