(* ===== verification/RiskMapping.thy ===== *)
theory RiskMapping imports ActionPolicy CapabilityPolicy CommandGuard PyConvert PyText begin

text \<open>
  From core commands to risk actions, \<^verbatim>\<open>src/karox/risk_mapping.py\<close>, with the command record of
  \<^verbatim>\<open>src/karox/models.py\<close>. The lower-casing of the Unicode database is part of \<open>ud\<close>, \<^verbatim>\<open>str()\<close> of a payload
  value that is no text part of \<open>cv\<close>. Path resolution and \<^verbatim>\<open>git rev-parse\<close> are answered by the
  operating system and enter as arguments.
\<close>

section \<open>Commands\<close>

record CoreCommand =
  cc_name :: pystr
  cc_arguments :: "(pystr, pyval) dict"
  cc_session_id :: pystr
  cc_origin :: Origin
  cc_correlation_id :: pystr
  cc_idempotency_key :: "pystr option"
  cc_deadline_seconds :: real
  cc_user_intent :: pystr
  cc_confirmation_token :: "pystr option"

definition bounded_text :: "nat \<Rightarrow> pystr option \<Rightarrow> bool" where
  "bounded_text n x = (case x of None \<Rightarrow> True | Some s \<Rightarrow> py_strip s \<noteq> [] \<and> length s \<le> n)"

text \<open>The checks of \<^verbatim>\<open>CoreCommand.__post_init__\<close>.\<close>

definition command_valid :: "CoreCommand \<Rightarrow> bool" where
  "command_valid c \<longleftrightarrow> py_strip (cc_name c) \<noteq> [] \<and> py_strip (cc_session_id c) \<noteq> [] \<and>
     py_strip (cc_correlation_id c) \<noteq> [] \<and> bounded_text 200 (cc_idempotency_key c) \<and>
     1 / 10 \<le> cc_deadline_seconds c \<and> cc_deadline_seconds c \<le> 3600 \<and>
     length (cc_user_intent c) \<le> 8000 \<and> bounded_text 400 (cc_confirmation_token c)"

section \<open>Tables\<close>

definition COMMAND_RISK_KINDS :: "(string \<times> string) list" where
  "COMMAND_RISK_KINDS =
     [(''repo.read_file'', ''repo.read''), (''repo.read_lines'', ''repo.read''),
      (''repo.list_files'', ''repo.list''), (''repo.search'', ''repo.search''),
      (''repo.write_file'', ''repo.write''), (''repo.edit_file'', ''repo.write''),
      (''repo.delete_file'', ''repo.delete''), (''repo.command'', ''repo.write''),
      (''disk.scan'', ''disk.read''), (''disk.plan_cleanup'', ''disk.read''),
      (''git.status'', ''git.read''), (''git.diff'', ''git.read''), (''git.log'', ''git.read''),
      (''git.commit'', ''git.commit''), (''git.push'', ''git.push''), (''checks.run'', ''checks.run''),
      (''tests.run'', ''tests.run''), (''dev.command'', ''process.run_dev''),
      (''process.run'', ''process.run_unknown''), (''runtime.status'', ''status.read''),
      (''bridge.diagnostics'', ''diagnostics.read''), (''lsp.diagnostics'', ''diagnostics.read''),
      (''browser.command'', ''browser.input''), (''artifact.get'', ''repo.read''),
      (''artifact.read_image'', ''repo.read'')]"

definition BROWSER_ACTION_RISK_KINDS :: "(string \<times> string) list" where
  "BROWSER_ACTION_RISK_KINDS =
     [(''open'', ''browser.input''), (''tabs'', ''browser.read''), (''new_tab'', ''browser.input''),
      (''switch_tab'', ''browser.input''), (''close_tab'', ''browser.input''),
      (''snapshot'', ''browser.snapshot''), (''snapshot_diff'', ''browser.snapshot''),
      (''find_text'', ''browser.read''), (''get_text'', ''browser.read''),
      (''get_form_state'', ''browser.read''), (''click'', ''browser.input''), (''fill'', ''browser.input''),
      (''select'', ''browser.input''), (''press'', ''browser.input''), (''scroll'', ''browser.input''),
      (''hover'', ''browser.input''), (''wait_for'', ''browser.read''), (''wait_navigation'', ''browser.read''),
      (''wait_network_idle'', ''browser.read''), (''dialog'', ''browser.input''), (''iframe'', ''browser.read''),
      (''screenshot'', ''browser.screenshot''), (''screenshot_region'', ''browser.screenshot''),
      (''console'', ''browser.read''), (''network_failures'', ''browser.read''),
      (''network_requests'', ''browser.read''), (''download_start'', ''browser.input''),
      (''download_status'', ''browser.read''), (''upload'', ''browser.upload''),
      (''request_user_takeover'', ''browser.read''), (''resume_after_user_takeover'', ''browser.read''),
      (''close'', ''browser.input''), (''release.integrate_main_lineage'', ''git.commit''),
      (''release.check_prerelease'', ''git.read''), (''release.publish_prerelease'', ''browser.input'')]"

definition GIT_SUBCOMMAND_RISK_KINDS :: "(string \<times> string) list" where
  "GIT_SUBCOMMAND_RISK_KINDS =
     [(''push'', ''git.push''), (''reset'', ''git.reset_hard''), (''clean'', ''git.clean''),
      (''rebase'', ''git.rebase''), (''tag'', ''git.tag_delete''), (''filter-branch'', ''git.history_rewrite'')]"

text \<open>\<^verbatim>\<open>table.get(key)\<close> on one of the literal tables.\<close>

fun table_get :: "(string \<times> string) list \<Rightarrow> pystr \<Rightarrow> pystr option" where
  "table_get [] k = None"
| "table_get ((a, b) # t) k = (if k = lit a then Some (lit b) else table_get t k)"

lemma table_get_None: "table_get t k = None \<longleftrightarrow> k \<notin> set (map (\<lambda>e. lit (fst e)) t)"
  by (induction t k rule: table_get.induct) auto

lemma table_get_Some: "table_get t k = Some v \<Longrightarrow> v \<in> lit ` set (map snd t)"
  by (induction t k rule: table_get.induct) (auto split: if_splits)

definition names :: "string list \<Rightarrow> pystr list" where
  "names ws = map lit ws"

section \<open>Paths and operations of a payload\<close>

definition PATH_KEYS :: "string list" where
  "PATH_KEYS = [''path'', ''paths'', ''file'', ''files'', ''target'', ''targets'']"

fun strings_of :: "pyval \<Rightarrow> pystr list" where
  "strings_of (PStr s) = (if s = [] then [] else [s])"
| "strings_of (PSeq xs) = filter (\<lambda>s. s \<noteq> []) (List.map_filter as_str xs)"
| "strings_of _ = []"

definition payload_sources :: "(pystr, pyval) dict \<Rightarrow> (pystr, pyval) dict list" where
  "payload_sources args = args # (case as_mapping (pget args ''payload'') of None \<Rightarrow> [] | Some m \<Rightarrow> [m])"

text \<open>The items of a container: only lists and tuples count.\<close>

fun items_of :: "pyval \<Rightarrow> pyval list" where
  "items_of (PSeq xs) = xs"
| "items_of _ = []"

definition key_paths :: "(pystr, pyval) dict \<Rightarrow> pystr list" where
  "key_paths m = concat (map (\<lambda>k. strings_of (pget m k)) PATH_KEYS)"

fun item_paths :: "pyval \<Rightarrow> pystr list" where
  "item_paths (PStr s) = [s]"
| "item_paths (PMap m) = key_paths m"
| "item_paths _ = []"

text \<open>\<^verbatim>\<open>line[4:].split("\t", 1)[0].strip()\<close>\<close>

definition header_value :: "pystr \<Rightarrow> pystr" where
  "header_value line = py_strip (takeWhile (\<lambda>c. c \<noteq> 9) (drop 4 line))"

definition DEV_NULL :: pystr where "DEV_NULL = lit ''/dev/null''"

definition patch_lines :: "(pystr, pyval) dict \<Rightarrow> pystr list" where
  "patch_lines m = (case pget m ''patch'' of PStr s \<Rightarrow> splitlines s | _ \<Rightarrow> [])"

definition old_header :: "pystr \<Rightarrow> bool" where
  "old_header line = startswith line (lit ''--- '')"

definition new_header :: "pystr \<Rightarrow> bool" where
  "new_header line = startswith line (lit ''+++ '')"

definition header_path :: "pystr \<Rightarrow> pystr list" where
  "header_path line =
     (if old_header line \<or> new_header line then
        let v = header_value line;
            w = (if startswith v (lit ''a/'') \<or> startswith v (lit ''b/'') then drop 2 v else v)
        in if v = DEV_NULL \<or> w = [] then [] else [w]
      else [])"

definition source_paths :: "(pystr, pyval) dict \<Rightarrow> pystr list" where
  "source_paths m = key_paths m @
     concat (map (\<lambda>c. concat (map item_paths (items_of (pget m c))))
       [''operations'', ''edits'', ''files'', ''patches'', ''changes'']) @
     concat (map header_path (patch_lines m))"

definition extract_paths :: "(pystr, pyval) dict \<Rightarrow> pystr list" where
  "extract_paths args = dedup (concat (map source_paths (payload_sources args)))"

definition OPERATION_KEYS :: "string list" where
  "OPERATION_KEYS = [''operations'', ''edits'', ''changes'']"

text \<open>\<^verbatim>\<open>str(item.get("op") or item.get("operation") or item.get("action") or "").lower()\<close>\<close>

definition por :: "pyval \<Rightarrow> pyval \<Rightarrow> pyval" where
  "por a b = (if truthy a then a else b)"

definition operation_of :: "unidata \<Rightarrow> pyconv \<Rightarrow> (pystr, pyval) dict \<Rightarrow> pystr" where
  "operation_of ud cv m =
     ud_lower ud (to_str cv (por (pget m ''op'') (por (pget m ''operation'') (por (pget m ''action'') (PStr [])))))"

definition is_delete_op :: "pystr \<Rightarrow> bool" where
  "is_delete_op p \<longleftrightarrow> p \<in> set (names [''delete'', ''remove'', ''unlink''])"

definition is_create_op :: "pystr \<Rightarrow> bool" where
  "is_create_op p \<longleftrightarrow> p \<in> set (names [''create'', ''add'', ''write_new''])"

definition operation_items :: "(pystr, pyval) dict \<Rightarrow> (pystr, pyval) dict list" where
  "operation_items m =
     concat (map (\<lambda>c. List.map_filter as_mapping (items_of (pget m c))) OPERATION_KEYS)"

definition count_if :: "('a \<Rightarrow> bool) \<Rightarrow> 'a list \<Rightarrow> int" where
  "count_if P xs = int (length (filter P xs))"

definition count_operations :: "unidata \<Rightarrow> pyconv \<Rightarrow> (pystr, pyval) dict \<Rightarrow> int \<times> int \<times> int" where
  "count_operations ud cv args =
     (let srcs = payload_sources args;
          ops = map (operation_of ud cv) (concat (map operation_items srcs));
          ls = map py_strip (concat (map patch_lines srcs))
      in (count_if is_delete_op ops + count_if (\<lambda>l. l = lit ''+++ /dev/null'') ls,
          count_if (\<lambda>p. \<not> is_delete_op p \<and> is_create_op p) ops + count_if (\<lambda>l. l = lit ''--- /dev/null'') ls,
          count_if (\<lambda>p. \<not> is_delete_op p \<and> \<not> is_create_op p) ops))"

text \<open>The loop over patch headers; \<open>previous\<close> is the path of the last old header.\<close>

fun patch_deletions :: "pystr option \<Rightarrow> pystr list \<Rightarrow> pystr list" where
  "patch_deletions previous [] = []"
| "patch_deletions previous (line # rest) =
     (if old_header line then
        let v = header_value line; w = (if startswith v (lit ''a/'') then drop 2 v else v)
        in patch_deletions (Some (if w = DEV_NULL then [] else w)) rest
      else if new_header line then
        (if header_value line = DEV_NULL then
           (case previous of Some p \<Rightarrow> if p = [] then [] else [p] | None \<Rightarrow> [])
         else []) @ patch_deletions None rest
      else patch_deletions previous rest)"

definition delete_paths :: "unidata \<Rightarrow> pyconv \<Rightarrow> (pystr, pyval) dict \<Rightarrow> pystr list" where
  "delete_paths ud cv args =
     dedup (filter (\<lambda>p. p \<noteq> []) (concat (map (\<lambda>m.
       concat (map key_paths (filter (\<lambda>i. is_delete_op (operation_of ud cv i)) (operation_items m))) @
       patch_deletions None (patch_lines m)) (payload_sources args))))"

section \<open>Kinds\<close>

definition repo_command_kind :: "unidata \<Rightarrow> pyconv \<Rightarrow> (pystr, pyval) dict \<Rightarrow> pystr" where
  "repo_command_kind ud cv args =
     (if fst (count_operations ud cv args) \<noteq> 0 then lit ''repo.delete'' else lit ''repo.write'')"

definition browser_kind :: "unidata \<Rightarrow> pyconv \<Rightarrow> (pystr, pyval) dict \<Rightarrow> pystr" where
  "browser_kind ud cv args =
     (let action = ud_lower ud (to_str cv (por (pget args ''action'') (por (pget args ''command'') (PStr []))))
      in if action = [] then lit ''browser.input''
         else case table_get BROWSER_ACTION_RISK_KINDS action of Some k \<Rightarrow> k | None \<Rightarrow> lit ''browser.input'')"

definition argv_of :: "(pystr, pyval) dict \<Rightarrow> pystr list" where
  "argv_of args =
     (let a = strings_of (pget args ''argv'') in if a \<noteq> [] then a else strings_of (pget args ''command''))"

text \<open>The last path component in the given case mapping, without \<^verbatim>\<open>.exe\<close>.\<close>

definition program_name :: "(pystr \<Rightarrow> pystr) \<Rightarrow> pystr \<Rightarrow> pystr" where
  "program_name f s =
     (let e = f (after_last_slash (replace_char 92 47 s))
      in if endswith e (lit ''.exe'') then take (length e - 4) e else e)"

definition any_arg :: "unidata \<Rightarrow> string list \<Rightarrow> pystr list \<Rightarrow> bool" where
  "any_arg ud ws argv = list_ex (\<lambda>i. ud_lower ud i \<in> set (names ws)) argv"

text \<open>The loop over the Git arguments: the first listed word decides.\<close>

fun git_kind :: "unidata \<Rightarrow> pystr list \<Rightarrow> pystr list \<Rightarrow> pystr option" where
  "git_kind ud argv [] = None"
| "git_kind ud argv (token # rest) =
     (let lowered = ud_lower ud token
      in case table_get GIT_SUBCOMMAND_RISK_KINDS lowered of
           None \<Rightarrow> git_kind ud argv rest
         | Some k \<Rightarrow> Some
             (if lowered = lit ''reset'' \<and> \<not> any_arg ud [''--hard''] argv then lit ''git.read''
              else if lowered = lit ''tag'' \<and> \<not> any_arg ud [''-d'', ''--delete''] argv
              then lit ''process.run_unknown''
              else if lowered = lit ''push'' \<and> any_arg ud [''-f'', ''--force'', ''--force-with-lease''] argv
              then lit ''git.force_push''
              else k))"

fun package_kind :: "unidata \<Rightarrow> pystr list \<Rightarrow> pystr option" where
  "package_kind ud [] = None"
| "package_kind ud (token # rest) =
     (let lowered = ud_lower ud token
      in if lowered = lit ''publish'' then Some (lit ''package.publish'')
         else if lowered \<in> set (names [''install'', ''add'']) then Some (lit ''package.install'')
         else package_kind ud rest)"

definition process_kind :: "unidata \<Rightarrow> (pystr, pyval) dict \<Rightarrow> pystr" where
  "process_kind ud args =
     (case argv_of args of
        [] \<Rightarrow> lit ''process.run_unknown''
      | program # rest \<Rightarrow>
          (let e = program_name (ud_lower ud) program;
               git = (if e = lit ''git'' then git_kind ud (program # rest) rest else None);
               package = (if e \<in> set (names [''pip'', ''pip3'', ''npm'', ''pnpm'', ''yarn'', ''uv''])
                          then package_kind ud rest else None)
           in case git of Some k \<Rightarrow> k
              | None \<Rightarrow> (case package of Some k \<Rightarrow> k
                  | None \<Rightarrow> if e = lit ''twine'' then lit ''package.publish''
                            else lit ''process.run_unknown'')))"

section \<open>Deletions\<close>

definition DIRECT_DELETERS :: "string list" where
  "DIRECT_DELETERS = [''rm'', ''rmdir'', ''del'', ''erase'', ''remove-item'']"

definition windows_switches :: "string list" where
  "windows_switches = [''/s'', ''/q'', ''/f'', ''/a'', ''/p'']"

definition powershell_switches :: "string list" where
  "powershell_switches = [''-force'', ''-recurse'', ''-confirm'', ''-whatif'', ''-verbose'',
     ''-erroraction'', ''-ea'', ''-literalpath'', ''-path'']"

text \<open>The loop of \<^verbatim>\<open>_process_delete_paths\<close>; a path switch takes the argument after it along.\<close>

fun deletion_args :: "unidata \<Rightarrow> pystr \<Rightarrow> pystr list \<Rightarrow> pystr list" where
  "deletion_args ud e [] = []"
| "deletion_args ud e (token # rest) =
     (let lowered = casefold ud token
      in if e \<in> set (names [''del'', ''erase'', ''rmdir'']) \<and> lowered \<in> set (names windows_switches)
         then deletion_args ud e rest
         else if e = lit ''remove-item'' \<and> lowered \<in> set (names powershell_switches) then
           (if lowered \<in> set (names [''-path'', ''-literalpath'']) \<and> rest \<noteq> []
            then filter (\<lambda>p. p \<noteq> []) (take 1 rest) @ deletion_args ud e (drop 1 rest)
            else deletion_args ud e rest)
         else if e = lit ''rm'' \<and> startswith token (lit ''-'') then deletion_args ud e rest
         else (if token \<noteq> [] then [token] else []) @ deletion_args ud e rest)"

definition process_delete_paths :: "unidata \<Rightarrow> (pystr, pyval) dict \<Rightarrow> pystr list" where
  "process_delete_paths ud args =
     (case argv_of args of
        [] \<Rightarrow> []
      | program # rest \<Rightarrow>
          (let e = program_name (casefold ud) program
           in if e \<in> set (names DIRECT_DELETERS) then dedup (deletion_args ud e rest) else []))"

text \<open>
  What the operating system says of a path: \<open>pe_anchored\<close>, it is absolute or names a drive after
  expanding the home directory; \<open>pe_within\<close>, it resolves to a path below the resolved repository.
\<close>

record path_oracle =
  pe_anchored :: "pystr \<Rightarrow> bool"
  pe_within :: "pystr \<Rightarrow> bool"

definition paths_outside_repository :: "pystr list \<Rightarrow> path_oracle option \<Rightarrow> bool" where
  "paths_outside_repository ps repository =
     (case repository of
        None \<Rightarrow> False
      | Some r \<Rightarrow> list_ex (\<lambda>p. pe_anchored r p \<and> \<not> pe_within r p) ps)"

definition marks :: "pystr \<Rightarrow> string list \<Rightarrow> bool" where
  "marks text ws = list_ex (\<lambda>w. contains text (lit w)) ws"

definition script_deletes :: "pystr \<Rightarrow> pystr list \<Rightarrow> bool" where
  "script_deletes e args =
     (let joined = join_with [32] args
      in if e \<in> set (names [''powershell'', ''pwsh''])
         then marks joined [''remove-item'', '' rm '', '' del '', '' erase '', '' rmdir '']
         else if e \<in> set (names [''cmd'', ''sh'', ''bash'', ''zsh''])
         then marks (32 # joined @ [32]) ['' rm '', '' rmdir '', '' del '', '' erase '', '' git clean '']
         else if startswith e (lit ''python'')
         then marks joined [''os.remove('', ''os.unlink('', ''.unlink('', ''shutil.rmtree('',
                ''pathlib.path.rmdir('', ''apply_cleanup_plan('']
         else False)"

definition process_deletes :: "unidata \<Rightarrow> pystr list \<Rightarrow> bool" where
  "process_deletes ud argv =
     (case argv of
        [] \<Rightarrow> False
      | program # rest \<Rightarrow>
          (let e = program_name (casefold ud) program; args = map (casefold ud) rest
           in if e \<in> set (names DIRECT_DELETERS) then True
              else if e = lit ''git'' then
                (if lit ''clean'' \<in> set args \<or> lit ''rm'' \<in> set args then True
                 else lit ''reset'' \<in> set args \<and> lit ''--hard'' \<in> set args)
              else script_deletes e args))"

definition command_requests_deletion :: "unidata \<Rightarrow> pyconv \<Rightarrow> pystr \<Rightarrow> (pystr, pyval) dict \<Rightarrow> bool" where
  "command_requests_deletion ud cv name args =
     (if name = lit ''repo.delete_file'' then True
      else if name = lit ''repo.command'' then repo_command_kind ud cv args = lit ''repo.delete''
      else if name \<notin> set (names [''dev.command'', ''process.run'']) then False
      else process_deletes ud (argv_of args))"

section \<open>The action of a command\<close>

definition risk_kind_for :: "unidata \<Rightarrow> pyconv \<Rightarrow> pystr \<Rightarrow> (pystr, pyval) dict \<Rightarrow> pystr" where
  "risk_kind_for ud cv name args =
     (if name = lit ''browser.command'' then browser_kind ud cv args
      else if name \<in> set (names [''process.run'', ''dev.command'']) then process_kind ud args
      else if name = lit ''repo.command'' then repo_command_kind ud cv args
      else case table_get COMMAND_RISK_KINDS name of
        Some mapped \<Rightarrow> mapped
      | None \<Rightarrow> if startswith name (lit ''mcp.'') then lit ''mcp.call'' else name)"

text \<open>
  \<open>head\<close> answers \<^verbatim>\<open>git rev-parse --verify HEAD\<close>: the exit code and the output, \<open>None\<close> when the
  process cannot be run.
\<close>

definition git_head_identity :: "(int \<times> pystr) option \<Rightarrow> path_oracle option \<Rightarrow> pystr" where
  "git_head_identity head repository =
     (case (repository, head) of
        (Some r, Some (code, out)) \<Rightarrow>
          (if code = 0 \<and> length (py_strip out) = 40 then py_strip out else lit ''unborn'')
      | _ \<Rightarrow> lit ''unborn'')"

definition declared_counts :: "pystr \<Rightarrow> pystr list \<Rightarrow> int \<times> int \<times> int \<Rightarrow> int \<times> int \<times> int" where
  "declared_counts kind ps counts =
     (case counts of (d, c, m) \<Rightarrow>
        if d \<noteq> 0 \<or> c \<noteq> 0 \<or> m \<noteq> 0 then counts
        else
          let n = (if ps = [] then 1 else int (length ps))
          in if kind = lit ''repo.delete'' then (n, c, m)
             else if kind \<in> set (names [''repo.write'', ''repo.create'', ''repo.move'']) then (d, c, n)
             else counts)"

definition action_details :: "CoreCommand \<Rightarrow> pystr \<Rightarrow> bool \<Rightarrow> pystr list \<Rightarrow> pystr \<Rightarrow> (pystr, pyval) dict" where
  "action_details c kind deletion deleted head =
     [(lit ''command'', PStr (cc_name c)), (lit ''deletion_requested'', PBool deletion),
      (lit ''deletion_paths'', PSeq (map PStr deleted))] @
     (if kind = lit ''git.push'' then
        [(lit ''remote'', pget (cc_arguments c) ''remote''), (lit ''branch'', pget (cc_arguments c) ''branch''),
         (lit ''head'', PStr head)]
      else [])"

definition action_for_command :: "unidata \<Rightarrow> pyconv \<Rightarrow> (int \<times> pystr) option \<Rightarrow> path_oracle option \<Rightarrow>
    int option \<Rightarrow> bool \<Rightarrow> CoreCommand \<Rightarrow> RiskAction" where
  "action_for_command ud cv head repository file_count reversible c =
     (let args = cc_arguments c;
          kind = risk_kind_for ud cv (cc_name c) args;
          deletion = command_requests_deletion ud cv (cc_name c) args;
          declared = delete_paths ud cv args;
          deleted = (if deletion \<and> declared = [] then process_delete_paths ud args else declared);
          ps = (let found = extract_paths args in if deletion \<and> found = [] then deleted else found);
          counts = declared_counts kind ps (count_operations ud cv args);
          rec = (truthy (pget args ''recursive'') \<or> truthy (pget args ''recurse'') \<or>
                 list_ex (\<lambda>p. endswith p (lit ''/**'') \<or> endswith p (lit ''/*'')) ps)
      in \<lparr>ra_kind = kind, ra_session_id = cc_session_id c, ra_summary = cc_name c,
          ra_source = origin_key (cc_origin c), ra_target = (if length ps = 1 then ps ! 0 else []),
          ra_paths = ps, ra_file_count = None, ra_delete_count = fst counts,
          ra_create_count = fst (snd counts), ra_modify_count = snd (snd counts), ra_total_bytes = None,
          ra_repository_file_count = file_count, ra_recursive = rec, ra_irreversible = False,
          ra_outside_repository = paths_outside_repository ps repository, ra_beyond_user_request = False,
          ra_reversible_by_checkpoint = reversible,
          ra_details = action_details c kind deletion deleted (git_head_identity head repository)\<rparr>)"

section \<open>Facts about the kinds\<close>

lemma in_names [simp]: "lit a \<in> set (names ws) \<longleftrightarrow> a \<in> set ws"
  by (simp add: names_def)

lemma git_kind_skip:
  "\<forall>t \<in> set pre. table_get GIT_SUBCOMMAND_RISK_KINDS (ud_lower ud t) = None \<Longrightarrow>
     git_kind ud argv (pre @ rest) = git_kind ud argv rest"
  by (induction pre) auto

text \<open>The Git commands that send, discard or rewrite work, given the lower-cased word and all arguments.\<close>

definition git_danger :: "unidata \<Rightarrow> pystr \<Rightarrow> pystr list \<Rightarrow> bool" where
  "git_danger ud word argv \<longleftrightarrow>
     word \<in> set (names [''push'', ''clean'', ''rebase'', ''filter-branch'']) \<or>
     word = lit ''reset'' \<and> any_arg ud [''--hard''] argv \<or>
     word = lit ''tag'' \<and> any_arg ud [''-d'', ''--delete''] argv"

lemma git_kind_danger:
  "git_danger ud (ud_lower ud t) argv \<Longrightarrow> \<exists>k \<in> CRITICAL_KINDS. git_kind ud argv (t # rest) = Some k"
  by (auto simp: git_danger_def names_def GIT_SUBCOMMAND_RISK_KINDS_def CRITICAL_KINDS_def Let_def)

definition process_command :: "pystr \<Rightarrow> bool" where
  "process_command name \<longleftrightarrow> name \<in> set (names [''process.run'', ''dev.command''])"

lemma risk_kind_process:
  "process_command name \<Longrightarrow> risk_kind_for ud cv name args = process_kind ud args"
  by (auto simp: risk_kind_for_def process_command_def names_def)

lemma process_kind_git:
  assumes "argv_of args = program # pre @ t # post"
    and "program_name (ud_lower ud) program = lit ''git''"
    and "\<forall>u \<in> set pre. table_get GIT_SUBCOMMAND_RISK_KINDS (ud_lower ud u) = None"
  shows "process_kind ud args =
    (case git_kind ud (argv_of args) (t # post) of Some k \<Rightarrow> k | None \<Rightarrow> lit ''process.run_unknown'')"
  using assms by (simp add: process_kind_def git_kind_skip names_def split: option.splits)

lemma action_fields [simp]:
  "ra_kind (action_for_command ud cv h r n b c) = risk_kind_for ud cv (cc_name c) (cc_arguments c)"
  "ra_session_id (action_for_command ud cv h r n b c) = cc_session_id c"
  "ra_summary (action_for_command ud cv h r n b c) = cc_name c"
  "ra_beyond_user_request (action_for_command ud cv h r n b c) = False"
  by (simp_all add: action_for_command_def Let_def)

text \<open>A kind outside the low and medium tables is stopped by every engine that can be built.\<close>

lemma stopped_without_token:
  assumes "new_engine auto bf bd fr = Inr E" and "ra_kind a \<notin> MEDIUM_KINDS \<union> LOW_KINDS"
  shows "authorize H TH E now a None L = (Inl (SmartStopRequired (assess H E a)), L)"
proof -
  have "HIGH \<le> fst (risk_verdict E a)"
    using assms(2) by (auto simp: risk_verdict_level base_level_cases less_eq_RiskLevel_def max_def)
  with new_engine_auto [OF assms(1)] have "as_requires_confirmation (assess H E a)" by simp
  then show ?thesis by (simp add: authorize_def Let_def)
qed

lemma critical_not_lower: "k \<in> CRITICAL_KINDS \<Longrightarrow> k \<notin> MEDIUM_KINDS \<union> LOW_KINDS"
  by (auto simp: CRITICAL_KINDS_def MEDIUM_KINDS_def LOW_KINDS_def)

section \<open>Properties\<close>

text \<open>C39. 
  A Git command keeps its meaning whatever tool it travels through: behind any arguments that are no listed
  Git words, a push, a clean, a rebase, a history rewrite, a hard reset or a tag deletion run by
  \<^verbatim>\<open>process.run\<close> or \<^verbatim>\<open>dev.command\<close> has a critical kind, and no engine that can be built lets it pass
  without a confirmation token.
\<close>
theorem dangerous_git_is_stopped:
  assumes "process_command (cc_name c)"
    and "argv_of (cc_arguments c) = program # pre @ word # post"
    and "program_name (ud_lower ud) program = lit ''git''"
    and "\<forall>u \<in> set pre. table_get GIT_SUBCOMMAND_RISK_KINDS (ud_lower ud u) = None"
    and "git_danger ud (ud_lower ud word) (argv_of (cc_arguments c))"
    and "new_engine auto bf bd fr = Inr E"
  shows "ra_kind (action_for_command ud cv h r n b c) \<in> CRITICAL_KINDS \<and>
    authorize H TH E now (action_for_command ud cv h r n b c) None L =
      (Inl (SmartStopRequired (assess H E (action_for_command ud cv h r n b c))), L)"
proof -
  obtain k where k: "k \<in> CRITICAL_KINDS" "git_kind ud (argv_of (cc_arguments c)) (word # post) = Some k"
    using git_kind_danger [OF assms(5)] by blast
  have "process_kind ud (cc_arguments c) = k"
    using process_kind_git [OF assms(2,3,4)] k(2) by simp
  with k(1) have kind: "ra_kind (action_for_command ud cv h r n b c) \<in> CRITICAL_KINDS"
    by (simp add: risk_kind_process [OF assms(1)])
  then show ?thesis using stopped_without_token [OF assms(6) critical_not_lower [OF kind]] by blast
qed

text \<open>
  The sample data of the witnesses: ASCII lower-casing is not needed on lower-case words, so the sample
  database maps every text to itself.
\<close>

definition verbatim_ud :: unidata where
  "verbatim_ud = \<lparr>ud_word = (\<lambda>c. 97 \<le> c), ud_casefold = (\<lambda>c. [c]), ud_lower = id, ud_upper = id\<rparr>"

definition sample_command :: "string \<Rightarrow> (pystr, pyval) dict \<Rightarrow> CoreCommand" where
  "sample_command name args =
     \<lparr>cc_name = lit name, cc_arguments = args, cc_session_id = lit ''s1'',
      cc_origin = \<lparr>og_kind = NATIVE_AGENT, og_identity = lit ''agent'', og_parent = None\<rparr>,
      cc_correlation_id = lit ''c1'', cc_idempotency_key = Some (lit ''k1''), cc_deadline_seconds = 60,
      cc_user_intent = [], cc_confirmation_token = None\<rparr>"

definition argv_args :: "string list \<Rightarrow> (pystr, pyval) dict" where
  "argv_args ws = [(lit ''argv'', PSeq (map (\<lambda>w. PStr (lit w)) ws))]"

lemma sample_command_fields [simp]:
  "cc_name (sample_command n a) = lit n" "cc_arguments (sample_command n a) = a"
  "cc_session_id (sample_command n a) = lit ''s1''" "cc_confirmation_token (sample_command n a) = None"
  by (simp_all add: sample_command_def)

lemma strings_of_words [simp]:
  "[] \<notin> set ws \<Longrightarrow> strings_of (PSeq (map (\<lambda>w. PStr (lit w)) ws)) = map lit ws"
  by (induction ws) (auto simp: List.map_filter_def)

lemma argv_of_words: "[] \<notin> set ws \<Longrightarrow> ws \<noteq> [] \<Longrightarrow> argv_of (argv_args ws) = map lit ws"
  by (simp add: argv_of_def argv_args_def pget_def del: strings_of.simps)

lemma default_engine_new: "new_engine MEDIUM 10 5 (1 / 4) = Inr default_engine"
  by (simp add: new_engine_def default_engine_def BULK_FILE_THRESHOLD_def BULK_DELETE_THRESHOLD_def
      REPO_FRACTION_THRESHOLD_def)

lemma program_git [simp]: "program_name (ud_lower verbatim_ud) (lit ''git'') = lit ''git''"
  by (simp add: program_name_def verbatim_ud_def replace_char_def after_last_slash_def lit_def endswith_def)

theorem dangerous_git_is_stopped_witness:
  "authorize id id default_engine 0
     (action_for_command verbatim_ud plain_conv None None None False
        (sample_command ''dev.command'' (argv_args [''git'', ''-C'', ''sub'', ''push'', ''origin''])))
     None sample_ledger =
   (Inl (SmartStopRequired (assess id default_engine
     (action_for_command verbatim_ud plain_conv None None None False
        (sample_command ''dev.command'' (argv_args [''git'', ''-C'', ''sub'', ''push'', ''origin'']))))), sample_ledger)"
proof -
  let ?c = "sample_command ''dev.command'' (argv_args [''git'', ''-C'', ''sub'', ''push'', ''origin''])"
  have a: "argv_of (cc_arguments ?c) = lit ''git'' # [lit ''-C'', lit ''sub''] @ lit ''push'' # [lit ''origin'']"
    by (simp add: argv_of_words)
  have p: "process_command (cc_name ?c)"
    unfolding process_command_def sample_command_fields in_names by simp
  have g: "git_danger verbatim_ud (ud_lower verbatim_ud (lit ''push'')) (argv_of (cc_arguments ?c))"
    unfolding git_danger_def verbatim_ud_def by simp
  show ?thesis
    using dangerous_git_is_stopped [OF p a program_git _ g default_engine_new, of plain_conv None None None False id id 0 sample_ledger]
    by (simp add: verbatim_ud_def GIT_SUBCOMMAND_RISK_KINDS_def)
qed

text \<open>
  The first listed word decides, wherever it stands: a directory named \<^verbatim>\<open>reset\<close> given to Git's \<^verbatim>\<open>-C\<close>
  makes the push behind it a read, which the default engine authorizes without any token.
\<close>
lemma directory_named_reset_hides_a_push:
  "let a = action_for_command verbatim_ud plain_conv None None None False
       (sample_command ''dev.command'' (argv_args [''git'', ''-C'', ''reset'', ''push'', ''origin'']))
   in ra_kind a = lit ''git.read'' \<and>
      process_kind verbatim_ud (argv_args [''git'', ''push'', ''origin'']) = lit ''git.push''"
proof -
  have p: "program_name id (lit ''git'') = lit ''git''"
    using program_git by (simp add: verbatim_ud_def)
  show ?thesis
    by (simp add: risk_kind_process process_command_def process_kind_def argv_of_words p
        GIT_SUBCOMMAND_RISK_KINDS_def any_arg_def names_def verbatim_ud_def)
qed

section \<open>Deletions in batches\<close>

lemma count_if_pos: "x \<in> set xs \<Longrightarrow> P x \<Longrightarrow> 1 \<le> count_if P xs"
proof -
  assume "x \<in> set xs" "P x"
  then have "filter P xs \<noteq> []" by (simp add: filter_empty_conv) blast
  then show ?thesis by (cases "filter P xs") (simp_all add: count_if_def)
qed

lemma count_if_nonneg [simp]: "0 \<le> count_if P xs"
  by (simp add: count_if_def)

lemma deletes_counted:
  assumes "m \<in> set (payload_sources args)" and "i \<in> set (operation_items m)"
    and "is_delete_op (operation_of ud cv i)"
  shows "1 \<le> fst (count_operations ud cv args)"
proof -
  let ?ops = "map (operation_of ud cv) (concat (map operation_items (payload_sources args)))"
  have "operation_of ud cv i \<in> set ?ops" using assms(1,2) by auto
  from count_if_pos [where P = is_delete_op, OF this assms(3)]
  show ?thesis by (simp add: count_operations_def Let_def add_increasing2)
qed

lemma operation_paths_found:
  assumes "m \<in> set (payload_sources args)" and "i \<in> set (operation_items m)" and "p \<in> set (key_paths i)"
  shows "p \<in> set (extract_paths args)"
proof -
  obtain c where c: "c \<in> set OPERATION_KEYS" "i \<in> set (List.map_filter as_mapping (items_of (pget m c)))"
    using assms(2) by (auto simp: operation_items_def)
  have "PMap i \<in> set (items_of (pget m c))"
    using c(2) by (auto simp: List.map_filter_def elim!: as_mapping.elims)
  then have "p \<in> set (concat (map item_paths (items_of (pget m c))))"
    using assms(3) by (auto intro!: bexI [of _ "PMap i"])
  then have "p \<in> set (source_paths m)"
    using c(1) by (auto simp: source_paths_def OPERATION_KEYS_def)
  then show ?thesis using assms(1) by (auto simp: extract_paths_def)
qed

text \<open>
  A batch cannot smuggle a deletion: when any operation of a \<^verbatim>\<open>repo.command\<close> deletes, at the top level or
  in the nested payload, the whole command is a deletion with a positive count, every path of that
  operation is among the paths shown to the user, and no engine lets it pass without a token.
\<close>
theorem batch_with_a_deletion_is_stopped:
  assumes "cc_name c = lit ''repo.command''"
    and "m \<in> set (payload_sources (cc_arguments c))" and "i \<in> set (operation_items m)"
    and "is_delete_op (operation_of ud cv i)"
    and "new_engine auto bf bd fr = Inr E"
  shows "ra_kind (action_for_command ud cv h r n b c) = lit ''repo.delete'' \<and>
    1 \<le> ra_delete_count (action_for_command ud cv h r n b c) \<and>
    set (key_paths i) \<subseteq> set (ra_paths (action_for_command ud cv h r n b c)) \<and>
    authorize H TH E now (action_for_command ud cv h r n b c) None L =
      (Inl (SmartStopRequired (assess H E (action_for_command ud cv h r n b c))), L)"
proof -
  let ?a = "action_for_command ud cv h r n b c"
  have n1: "1 \<le> fst (count_operations ud cv (cc_arguments c))"
    using deletes_counted [OF assms(2,3,4)] .
  then have kind: "ra_kind ?a = lit ''repo.delete''"
    by (simp add: risk_kind_for_def assms(1) names_def repo_command_kind_def)
  have "declared_counts k ps (count_operations ud cv (cc_arguments c)) = count_operations ud cv (cc_arguments c)" for k ps
    using n1 by (cases "count_operations ud cv (cc_arguments c)") (simp add: declared_counts_def)
  then have cnt: "1 \<le> ra_delete_count ?a"
    using n1 by (simp add: action_for_command_def Let_def)
  have "set (key_paths i) \<subseteq> set (extract_paths (cc_arguments c))"
    using operation_paths_found [OF assms(2,3)] by blast
  then have paths: "set (key_paths i) \<subseteq> set (ra_paths ?a)"
    by (auto simp: action_for_command_def Let_def)
  have "ra_kind ?a \<notin> MEDIUM_KINDS \<union> LOW_KINDS"
    unfolding kind by (simp add: MEDIUM_KINDS_def LOW_KINDS_def)
  from kind cnt paths stopped_without_token [OF assms(5) this] show ?thesis by blast
qed

definition sample_batch :: CoreCommand where
  "sample_batch = sample_command ''repo.command'' [(lit ''payload'', PMap [(lit ''operations'',
     PSeq [PMap [(lit ''op'', PStr (lit ''write'')), (lit ''path'', PStr (lit ''a.py''))],
           PMap [(lit ''op'', PStr (lit ''delete'')), (lit ''path'', PStr (lit ''b.py''))]])])]"

theorem batch_with_a_deletion_is_stopped_witness:
  "ra_kind (action_for_command verbatim_ud plain_conv None None None False sample_batch) = lit ''repo.delete'' \<and>
   lit ''b.py'' \<in> set (ra_paths (action_for_command verbatim_ud plain_conv None None None False sample_batch))"
proof -
  let ?i = "[(lit ''op'', PStr (lit ''delete'')), (lit ''path'', PStr (lit ''b.py''))]"
  let ?m = "[(lit ''operations'', PSeq [PMap [(lit ''op'', PStr (lit ''write'')), (lit ''path'', PStr (lit ''a.py''))],
     PMap ?i])]"
  have m: "?m \<in> set (payload_sources (cc_arguments sample_batch))"
    by (simp add: sample_batch_def payload_sources_def pget_def)
  have i: "?i \<in> set (operation_items ?m)"
    by (simp add: operation_items_def OPERATION_KEYS_def pget_def List.map_filter_def)
  have d: "is_delete_op (operation_of verbatim_ud plain_conv ?i)"
    by (simp add: is_delete_op_def operation_of_def pget_def por_def verbatim_ud_def names_def)
  have n: "cc_name sample_batch = lit ''repo.command''" by (simp add: sample_batch_def)
  have "lit ''b.py'' \<in> set (key_paths ?i)"
    by (simp add: key_paths_def PATH_KEYS_def pget_def)
  with batch_with_a_deletion_is_stopped [OF n m i d default_engine_new, of None None None False]
  show ?thesis by blast
qed

text \<open>A tool nobody listed is stopped too, unless its name is itself a word of the two lower tables.\<close>

lemma unlisted_command_is_stopped:
  assumes "cc_name c \<notin> set (map (\<lambda>e. lit (fst e)) COMMAND_RISK_KINDS)"
    and "\<not> startswith (cc_name c) (lit ''mcp.'')" and "cc_name c \<notin> MEDIUM_KINDS \<union> LOW_KINDS"
    and "new_engine auto bf bd fr = Inr E"
  shows "authorize H TH E now (action_for_command ud cv h r n b c) None L =
    (Inl (SmartStopRequired (assess H E (action_for_command ud cv h r n b c))), L)"
proof -
  have "cc_name c \<noteq> lit ''browser.command''" "cc_name c \<noteq> lit ''repo.command''"
    "cc_name c \<notin> set (names [''process.run'', ''dev.command''])"
    using assms(1) by (auto simp: COMMAND_RISK_KINDS_def names_def)
  moreover have "table_get COMMAND_RISK_KINDS (cc_name c) = None"
    using assms(1) unfolding table_get_None .
  ultimately have "ra_kind (action_for_command ud cv h r n b c) = cc_name c"
    using assms(2) by (simp add: risk_kind_for_def)
  with assms(3) have "ra_kind (action_for_command ud cv h r n b c) \<notin> MEDIUM_KINDS \<union> LOW_KINDS"
    by (simp only: not_False_eq_True)
  from stopped_without_token [OF assms(4) this] show ?thesis .
qed

text \<open>
  A deletion written for PowerShell at the start of the argument is not recognised, while the same text
  given to a POSIX shell is: only the latter is padded before the search.
\<close>
lemma powershell_deletion_is_missed:
  "script_deletes (lit ''pwsh'') [lit ''rm b.py''] = False \<and> script_deletes (lit ''sh'') [lit ''rm b.py''] = True"
  by (simp add: script_deletes_def names_def marks_def startswith_def lit_def)

end
