(* ===== verification/CoreModels.thy ===== *)
theory CoreModels imports RiskMapping begin

text \<open>
  The records that cross the boundary of the core runtime, \<^verbatim>\<open>EvidenceRecord\<close> and \<^verbatim>\<open>CoreResult\<close> of
  \<^verbatim>\<open>src/karox/models.py\<close> with their dictionary forms, and the argument checks and verification rules of
  \<^verbatim>\<open>src/karox/core.py\<close>. Fields a constructor accepts unchecked keep the dynamic value.
\<close>

section \<open>Evidence and results\<close>

record EvidenceRecord =
  er_kind :: pystr
  er_summary :: pystr
  er_command :: "pystr list option"
  er_exit_code :: pyval
  er_artifact_sha256 :: pyval
  er_metadata :: "(pystr, pyval) dict"
  er_evidence_id :: pyval

record CoreResult =
  cr_ok :: bool
  cr_command :: pystr
  cr_data :: "(pystr, pyval) dict"
  cr_correlation_id :: pystr
  cr_mutation :: pyval
  cr_evidence :: "EvidenceRecord list"
  cr_idempotent_replay :: pyval

definition evidence_valid :: "EvidenceRecord \<Rightarrow> bool" where
  "evidence_valid e \<longleftrightarrow> py_strip (er_kind e) \<noteq> [] \<and> py_strip (er_summary e) \<noteq> []"

definition core_evidence_to_dict :: "EvidenceRecord \<Rightarrow> (pystr, pyval) dict" where
  "core_evidence_to_dict e =
     [(lit ''kind'', PStr (er_kind e)), (lit ''summary'', PStr (er_summary e)),
      (lit ''command'', case er_command e of None \<Rightarrow> PNone | Some ws \<Rightarrow> PSeq (map PStr ws)),
      (lit ''exit_code'', er_exit_code e), (lit ''artifact_sha256'', er_artifact_sha256 e),
      (lit ''metadata'', PMap (er_metadata e)), (lit ''evidence_id'', er_evidence_id e)]"

definition EVIDENCE_FIELDS :: "string list" where
  "EVIDENCE_FIELDS = [''kind'', ''summary'', ''command'', ''exit_code'', ''artifact_sha256'', ''metadata'', ''evidence_id'']"

definition keys_within :: "(pystr, pyval) dict \<Rightarrow> string list \<Rightarrow> bool" where
  "keys_within d ks \<longleftrightarrow> list_all (\<lambda>e. fst e \<in> set (names ks)) d"

definition keys_present :: "(pystr, pyval) dict \<Rightarrow> string list \<Rightarrow> bool" where
  "keys_present d ks \<longleftrightarrow> list_all (\<lambda>k. map_of d (lit k) \<noteq> None) ks"

text \<open>\<open>None\<close> is a raised \<^verbatim>\<open>ValueError\<close>; \<open>fresh\<close> is the identifier drawn when the field is missing.\<close>

definition core_evidence_from_dict :: "pyval \<Rightarrow> pyval \<Rightarrow> EvidenceRecord option" where
  "core_evidence_from_dict fresh v =
     (case v of
        PMap d \<Rightarrow>
          if \<not> keys_within d EVIDENCE_FIELDS \<or> \<not> keys_present d [''kind'', ''summary''] then None
          else (case (pget d ''kind'', pget d ''summary'',
                  (case pget d ''command'' of PNone \<Rightarrow> Some None
                   | PSeq ws \<Rightarrow> map_option Some (all_some (map as_str ws)) | _ \<Rightarrow> None),
                  pget_or d ''metadata'' (PMap [])) of
             (PStr k, PStr s, Some ws, PMap m) \<Rightarrow>
               (let e = \<lparr>er_kind = k, er_summary = s, er_command = ws, er_exit_code = pget d ''exit_code'',
                     er_artifact_sha256 = pget d ''artifact_sha256'', er_metadata = m,
                     er_evidence_id = pget_or d ''evidence_id'' fresh\<rparr>
                in if evidence_valid e then Some e else None)
           | _ \<Rightarrow> None)
      | _ \<Rightarrow> None)"

definition result_to_dict :: "CoreResult \<Rightarrow> (pystr, pyval) dict" where
  "result_to_dict r =
     [(lit ''ok'', PBool (cr_ok r)), (lit ''command'', PStr (cr_command r)), (lit ''data'', PMap (cr_data r)),
      (lit ''correlation_id'', PStr (cr_correlation_id r)), (lit ''mutation'', cr_mutation r),
      (lit ''evidence'', PSeq (map (PMap \<circ> core_evidence_to_dict) (cr_evidence r))),
      (lit ''idempotent_replay'', cr_idempotent_replay r)]"

definition result_from_dict :: "pyval \<Rightarrow> (pystr, pyval) dict \<Rightarrow> CoreResult option" where
  "result_from_dict fresh d =
     (if \<not> keys_within d [''ok'', ''command'', ''data'', ''correlation_id'', ''mutation'', ''evidence'', ''idempotent_replay'']
         \<or> \<not> keys_present d [''ok'', ''command'', ''data'', ''correlation_id''] then None
      else case (pget d ''ok'', pget d ''command'', pget d ''data'', pget d ''correlation_id'',
                 pget_or d ''evidence'' (PSeq [])) of
        (PBool ok, PStr c, PMap data, PStr cid, PSeq evs) \<Rightarrow>
          (if c = [] \<or> cid = [] then None
           else map_option (\<lambda>es. \<lparr>cr_ok = ok, cr_command = c, cr_data = data, cr_correlation_id = cid,
                  cr_mutation = pget_or d ''mutation'' (PBool False), cr_evidence = es,
                  cr_idempotent_replay = pget_or d ''idempotent_replay'' (PBool False)\<rparr>)
                (all_some (map (core_evidence_from_dict fresh) evs)))
      | _ \<Rightarrow> None)"

lemma core_evidence_roundtrip:
  "evidence_valid e \<Longrightarrow> core_evidence_from_dict fresh (PMap (core_evidence_to_dict e)) = Some e"
proof -
  assume v: "evidence_valid e"
  have words: "all_some (map (as_str \<circ> PStr) ws) = Some ws" for ws
    using all_some_strings [of ws] by simp
  show ?thesis
  proof (cases e)
    case (fields k s c x a m i)
    with v show ?thesis
      by (cases c) (simp_all add: core_evidence_from_dict_def core_evidence_to_dict_def keys_within_def keys_present_def
          EVIDENCE_FIELDS_def names_def pget_def pget_or_def Let_def words)
  qed
qed

text \<open>A stored result reads back as it was.\<close>

lemma result_roundtrip:
  assumes "cr_command r \<noteq> []" "cr_correlation_id r \<noteq> []" "\<forall>e \<in> set (cr_evidence r). evidence_valid e"
  shows "result_from_dict fresh (result_to_dict r) = Some r"
proof -
  have "all_some (map (core_evidence_from_dict fresh \<circ> (PMap \<circ> core_evidence_to_dict)) (cr_evidence r)) =
      Some (map (\<lambda>e. e) (cr_evidence r))"
    by (rule all_some_map) (use assms(3) core_evidence_roundtrip in auto)
  with assms(1,2) show ?thesis
    by (simp add: result_from_dict_def result_to_dict_def keys_within_def keys_present_def names_def pget_def pget_or_def)
qed

section \<open>Tool definitions and their arguments\<close>

record ToolDefinition =
  td_name :: pystr
  td_capability :: Capability
  td_mutates :: bool
  td_input_schema :: "(pystr, pyval) dict"
  td_additional_capabilities :: "Capability list"
  td_external_schema :: bool
  td_replayable :: bool

text \<open>The type names of a tool's own schema; every float of the model is finite.\<close>

definition internal_kind :: "pyval \<Rightarrow> pyval \<Rightarrow> bool option" where
  "internal_kind type_name v =
     (if type_name = PStr (lit ''string'') then Some (as_str v \<noteq> None)
      else if type_name = PStr (lit ''array'') then Some (case v of PSeq _ \<Rightarrow> True | _ \<Rightarrow> False)
      else if type_name = PStr (lit ''number'') then
        Some (case v of PInt _ \<Rightarrow> True | PFloat _ \<Rightarrow> True | PBool _ \<Rightarrow> True | _ \<Rightarrow> False)
      else if type_name = PStr (lit ''boolean'') then Some (as_bool v \<noteq> None)
      else if type_name = PStr (lit ''object'') then Some (as_mapping v \<noteq> None)
      else None)"

definition sub_map :: "pyval \<Rightarrow> (pystr, pyval) dict" where
  "sub_map v = (case v of PMap m \<Rightarrow> m | _ \<Rightarrow> [])"

definition argument_ok :: "(pystr, pyval) dict \<Rightarrow> pystr \<times> pyval \<Rightarrow> bool" where
  "argument_ok properties arg =
     (let prop = (case map_of properties (fst arg) of Some p \<Rightarrow> sub_map p | None \<Rightarrow> []);
          expected = pget prop ''type''; item_type = pget (sub_map (pget_or prop ''items'' (PMap []))) ''type''
      in (case internal_kind expected (snd arg) of
            None \<Rightarrow> False
          | Some fits \<Rightarrow> fits \<and> \<not> (expected = PStr (lit ''number'') \<and> as_bool (snd arg) \<noteq> None)) \<and>
         (case snd arg of
            PSeq xs \<Rightarrow> \<not> truthy item_type \<or> list_all (\<lambda>x. internal_kind item_type x = Some True) xs \<and>
                        internal_kind item_type PNone \<noteq> None
          | _ \<Rightarrow> True))"

section \<open>External schemas\<close>

definition SCHEMA_TYPES :: "string list" where
  "SCHEMA_TYPES = [''null'', ''boolean'', ''integer'', ''number'', ''string'', ''array'', ''object'']"

definition external_type_matches :: "pyval \<Rightarrow> pystr \<Rightarrow> bool" where
  "external_type_matches v t =
     (if t = lit ''null'' then v = PNone
      else if t = lit ''boolean'' then as_bool v \<noteq> None
      else if t = lit ''integer'' then as_int v \<noteq> None
      else if t = lit ''number'' then as_number v \<noteq> None
      else if t = lit ''string'' then as_str v \<noteq> None
      else if t = lit ''array'' then (case v of PSeq _ \<Rightarrow> True | _ \<Rightarrow> False)
      else if t = lit ''object'' then as_mapping v \<noteq> None
      else False)"

text \<open>The type names a \<^verbatim>\<open>type\<close> entry declares, \<open>None\<close> when it is malformed.\<close>

definition declared_types :: "pyval \<Rightarrow> pystr list option" where
  "declared_types v =
     (case v of
        PStr t \<Rightarrow> Some [t]
      | PSeq xs \<Rightarrow> if xs = [] then None else all_some (map as_str xs)
      | _ \<Rightarrow> None)"

definition types_supported :: "pystr list \<Rightarrow> bool" where
  "types_supported ts \<longleftrightarrow> list_all (\<lambda>t. t \<in> set (names SCHEMA_TYPES)) ts"

definition schema_type_ok :: "(pystr, pyval) dict \<Rightarrow> bool" where
  "schema_type_ok s \<longleftrightarrow>
     (case map_of s (lit ''type'') of
        None \<Rightarrow> True
      | Some v \<Rightarrow> (case declared_types v of None \<Rightarrow> False | Some ts \<Rightarrow> distinct ts \<and> types_supported ts))"

definition schema_required_ok :: "(pystr, pyval) dict \<Rightarrow> bool" where
  "schema_required_ok s \<longleftrightarrow>
     (case map_of s (lit ''required'') of
        None \<Rightarrow> True
      | Some (PSeq xs) \<Rightarrow> (case all_some (map as_str xs) of None \<Rightarrow> False | Some rs \<Rightarrow> distinct rs)
      | Some _ \<Rightarrow> False)"

lemma map_of_size: "map_of m k = Some v \<Longrightarrow> size v < size (PMap m)"
  using size_PMap map_of_SomeD by fastforce

text \<open>\<^verbatim>\<open>_validate_external_schema\<close>: it returns exactly when the schema is accepted.\<close>

function schema_ok :: "pyval \<Rightarrow> bool" where
  "schema_ok v =
     (case v of
        PMap s \<Rightarrow>
          schema_type_ok s \<and>
          (case map_of s (lit ''properties'') of
             None \<Rightarrow> True
           | Some p \<Rightarrow> (case p of PMap ps \<Rightarrow> (\<forall>e \<in> set ps. schema_ok (snd e)) | _ \<Rightarrow> False)) \<and>
          schema_required_ok s \<and>
          (case map_of s (lit ''items'') of None \<Rightarrow> True | Some i \<Rightarrow> schema_ok i) \<and>
          (case map_of s (lit ''additionalProperties'') of
             None \<Rightarrow> True | Some a \<Rightarrow> as_bool a \<noteq> None \<or> schema_ok a)
      | _ \<Rightarrow> False)"
  by pat_completeness auto
termination
proof (relation "measure size")
  fix v s p ps and e :: "pystr \<times> pyval"
  assume "v = PMap s" "map_of s (lit ''properties'') = Some p" "p = PMap ps" "e \<in> set ps"
  then show "(snd e, v) \<in> measure size"
    using map_of_size [of s "lit ''properties''" p] size_PMap [of e ps] by simp
qed (auto dest: map_of_size)

declare schema_ok.simps [simp del]

definition value_type_ok :: "(pystr, pyval) dict \<Rightarrow> pyval \<Rightarrow> bool" where
  "value_type_ok s v \<longleftrightarrow>
     (case map_of s (lit ''type'') of
        None \<Rightarrow> True
      | Some t \<Rightarrow> (case declared_types t of None \<Rightarrow> False
          | Some ts \<Rightarrow> types_supported ts \<and> list_ex (external_type_matches v) ts))"

definition fields_ok :: "(pystr, pyval) dict \<Rightarrow> (pystr, pyval) dict \<Rightarrow> (pystr, pyval) dict \<Rightarrow> bool" where
  "fields_ok s properties m \<longleftrightarrow>
     (case pget s ''required'' of
        PSeq xs \<Rightarrow> (case all_some (map as_str xs) of None \<Rightarrow> True | Some rs \<Rightarrow> list_all (\<lambda>r. map_of m r \<noteq> None) rs)
      | _ \<Rightarrow> True) \<and>
     (pget s ''additionalProperties'' = PBool False \<longrightarrow> list_all (\<lambda>e. map_of properties (fst e) \<noteq> None) m)"

definition child_schema :: "(pystr, pyval) dict \<Rightarrow> (pystr, pyval) dict \<Rightarrow> pystr \<Rightarrow> pyval option" where
  "child_schema s properties name =
     (case map_of properties name of
        Some (PMap c) \<Rightarrow> Some (PMap c)
      | _ \<Rightarrow> (case pget s ''additionalProperties'' of PMap a \<Rightarrow> Some (PMap a) | _ \<Rightarrow> None))"

function value_ok :: "pyval \<Rightarrow> pyval \<Rightarrow> bool" where
  "value_ok v schema =
     (case schema of
        PMap s \<Rightarrow>
          value_type_ok s v \<and>
          (case v of
             PMap m \<Rightarrow>
               fields_ok s (sub_map (pget s ''properties'')) m \<and>
               (\<forall>e \<in> set m. case child_schema s (sub_map (pget s ''properties'')) (fst e) of
                  None \<Rightarrow> True | Some c \<Rightarrow> value_ok (snd e) c)
           | PSeq xs \<Rightarrow>
               (case pget s ''items'' of PMap i \<Rightarrow> (\<forall>x \<in> set xs. value_ok x (PMap i)) | _ \<Rightarrow> True)
           | _ \<Rightarrow> True)
      | _ \<Rightarrow> False)"
  by pat_completeness auto
termination
  by (relation "measure (size \<circ> fst)") (auto dest: size_PSeq size_PMap)

declare value_ok.simps [simp del]

text \<open>\<^verbatim>\<open>_validate_arguments\<close>\<close>

definition arguments_ok :: "ToolDefinition \<Rightarrow> (pystr, pyval) dict \<Rightarrow> bool" where
  "arguments_ok d args =
     (if td_external_schema d then
        schema_ok (PMap (td_input_schema d)) \<and> value_ok (PMap args) (PMap (td_input_schema d))
      else
        let properties = sub_map (pget_or (td_input_schema d) ''properties'' (PMap []));
            required = (case pget_or (td_input_schema d) ''required'' (PSeq []) of PSeq xs \<Rightarrow> List.map_filter as_str xs | _ \<Rightarrow> [])
        in list_all (\<lambda>e. map_of properties (fst e) \<noteq> None) args \<and>
           list_all (\<lambda>r. map_of args r \<noteq> None) required \<and>
           list_all (argument_ok properties) args)"

section \<open>Verification rules\<close>

definition WILDCARD_ARGUMENT :: pystr where "WILDCARD_ARGUMENT = lit ''*''"

definition CODE_EXECUTION_OPTIONS :: "string list" where
  "CODE_EXECUTION_OPTIONS = [''-c'', ''-e'', ''--code'', ''--command'', ''--eval'', ''--exec'', ''--execute'']"

definition is_plain_argument :: "unidata \<Rightarrow> pystr \<Rightarrow> bool" where
  "is_plain_argument ud v =
     (if v = WILDCARD_ARGUMENT then False
      else if \<not> startswith v (lit ''-'') then True
      else
        let name = ud_lower ud (takeWhile (\<lambda>c. c \<noteq> 61) v)
        in if name \<in> set (names CODE_EXECUTION_OPTIONS) then False
           else if startswith v (lit ''--'') then True
           else list_all (\<lambda>c. c \<noteq> 99 \<and> c \<noteq> 101) (drop 1 name))"

record VerificationRule =
  vr_prefix :: "pystr list"
  vr_wildcard :: bool

datatype rule_error = EmptyArgument | WildcardInside | NoExecutable

definition parse_rule :: "pystr list \<Rightarrow> rule_error + VerificationRule" where
  "parse_rule entry =
     (if entry = [] \<or> [] \<in> set entry then Inl EmptyArgument
      else
        let wildcard = (last entry = WILDCARD_ARGUMENT); prefix = (if wildcard then butlast entry else entry)
        in if WILDCARD_ARGUMENT \<in> set prefix then Inl WildcardInside
           else if prefix = [] then Inl NoExecutable
           else Inr \<lparr>vr_prefix = prefix, vr_wildcard = wildcard\<rparr>)"

definition rule_tuple :: "VerificationRule \<Rightarrow> pystr list" where
  "rule_tuple r = vr_prefix r @ (if vr_wildcard r then [WILDCARD_ARGUMENT] else [])"

definition rule_matches :: "unidata \<Rightarrow> VerificationRule \<Rightarrow> pystr list \<Rightarrow> bool" where
  "rule_matches ud r argv =
     (if \<not> vr_wildcard r then argv = vr_prefix r
      else if take (length (vr_prefix r)) argv \<noteq> vr_prefix r then False
      else list_all (is_plain_argument ud) (drop (length (vr_prefix r)) argv))"

text \<open>An accepted rule prints back as it was given, and always names the executable.\<close>

lemma parse_rule_tuple: "parse_rule entry = Inr r \<Longrightarrow> rule_tuple r = entry \<and> vr_prefix r \<noteq> []"
  by (cases entry rule: rev_cases) (auto simp: parse_rule_def rule_tuple_def Let_def split: if_splits)

text \<open>
  What a rule approves starts with the executable it names, and whatever a wildcard rule adds to its prefix
  is none of the code-execution options, in any letter case.
\<close>

lemma rule_keeps_the_executable:
  assumes "parse_rule entry = Inr r" "rule_matches ud r argv"
  shows "argv \<noteq> [] \<and> hd argv = hd entry"
proof -
  obtain p where "entry = vr_prefix r @ p" "vr_prefix r \<noteq> []"
    using parse_rule_tuple [OF assms(1)] unfolding rule_tuple_def by metis
  moreover have "take (length (vr_prefix r)) argv = vr_prefix r"
    using assms(2) by (auto simp: rule_matches_def split: if_splits)
  ultimately show ?thesis by (metis hd_append2 append_take_drop_id take_eq_Nil)
qed

lemma rule_admits_no_code_option:
  assumes "rule_matches ud r argv" "x \<in> set (drop (length (vr_prefix r)) argv)" "61 \<notin> set x"
  shows "ud_lower ud x \<notin> set (names CODE_EXECUTION_OPTIONS) \<or> \<not> startswith x (lit ''-'')"
proof -
  have w: "takeWhile (\<lambda>c. c \<noteq> 61) x = x" using assms(3) by (auto simp: takeWhile_eq_all_conv)
  have "is_plain_argument ud x"
    using assms(1,2) by (auto simp: rule_matches_def list_all_iff split: if_splits)
  then show ?thesis unfolding is_plain_argument_def w Let_def by (simp split: if_splits)
qed

end
