(* ===== verification/Sessions.thy ===== *)
theory Sessions imports StateError RepositoryLease Security CapabilityPolicy begin

text \<open>
  Durable sessions with exclusive mutation leases, \<^verbatim>\<open>src/karox/sessions.py\<close>. A session directory is the entry
  of its identifier in the two dictionaries of the store: the session document and the lease. A document
  is the record it was written from; one that cannot be read or fails its schema or checksum is \<open>Broken\<close>.
  The state lock makes an operation one step; taking it again while holding it never returns (\<open>Deadlock\<close>).
  The clock, the process identity, fresh identifiers, the resolution of repositories and \<^verbatim>\<open>json.dumps\<close> are
  arguments.
\<close>

section \<open>Records\<close>

datatype idem_entry =
    Pending (ie_digest: pystr) (ie_started: real)
  | Complete (ie_digest: pystr) (ie_started: real) (ie_completed: real) (ie_result: "(pystr, pyval) dict")

record MutationLease =
  ml_session_id :: pystr
  ml_session_revision :: int
  ml_owner :: pystr
  ml_fencing_token :: pystr
  ml_pid :: int
  ml_hostname :: pystr
  ml_acquired_at :: real
  ml_expires_at :: real

record SessionRecord =
  sr_session_id :: pystr
  sr_repository :: pystr
  sr_repo_fingerprint :: pystr
  sr_branch :: pystr
  sr_access_profile :: AccessProfile
  sr_task :: pystr
  sr_created_at :: real
  sr_updated_at :: real
  sr_task_history :: "pystr list"
  sr_continuation_context :: pystr
  sr_revision :: int
  sr_status :: pystr
  sr_phase :: pystr
  sr_plan :: "pyval list"
  sr_summary :: pystr
  sr_decisions :: "pyval list"
  sr_changed_files :: "pystr list"
  sr_git_state :: "(pystr, pyval) dict"
  sr_checkpoints :: "pyval list"
  sr_checks :: "pyval list"
  sr_failures :: "pyval list"
  sr_jobs :: "pyval list"
  sr_skills :: "pyval list"
  sr_mcp_servers :: "pyval list"
  sr_packs :: "pyval list"
  sr_provider_history :: "pyval list"
  sr_usage :: "(pystr, pyval) dict"
  sr_connected_clients :: "pyval list"
  sr_evidence :: "pyval list"
  sr_unfinished_actions :: "pyval list"
  sr_idempotency :: "(pystr, idem_entry) dict"
  sr_name :: pystr
  sr_parent_session_id :: pystr
  sr_archived :: bool
  sr_revoked :: bool

definition new_session :: "pystr \<Rightarrow> pystr \<Rightarrow> pystr \<Rightarrow> pystr \<Rightarrow> AccessProfile \<Rightarrow> pystr \<Rightarrow> real \<Rightarrow> pystr \<Rightarrow> pystr \<Rightarrow>
    SessionRecord" where
  "new_session sid repo fingerprint branch profile task now name parent =
     \<lparr>sr_session_id = sid, sr_repository = repo, sr_repo_fingerprint = fingerprint, sr_branch = branch,
      sr_access_profile = profile, sr_task = task, sr_created_at = now, sr_updated_at = now,
      sr_task_history = [], sr_continuation_context = [], sr_revision = 0, sr_status = lit ''active'',
      sr_phase = lit ''planning'', sr_plan = [], sr_summary = [], sr_decisions = [], sr_changed_files = [],
      sr_git_state = [], sr_checkpoints = [], sr_checks = [], sr_failures = [], sr_jobs = [], sr_skills = [],
      sr_mcp_servers = [], sr_packs = [], sr_provider_history = [], sr_usage = [], sr_connected_clients = [],
      sr_evidence = [], sr_unfinished_actions = [], sr_idempotency = [], sr_name = name,
      sr_parent_session_id = parent, sr_archived = False, sr_revoked = False\<rparr>"

section \<open>The store\<close>

datatype 'a document = Broken | Doc 'a

record session_store =
  st_state :: "(pystr, SessionRecord document) dict"
  st_lease :: "(pystr, MutationLease document) dict"
  st_locked :: "pystr list"

datatype session_error =
    InvalidId | BadText string | BadRepository | SessionExists | SessionMissing | SessionUnreadable
  | SelfParent | Revoked | Archived | NotArchived | DeleteFailed | SessionBusy string
  | LeaseMismatch | StaleSessionRevision int int | IdempotencyConflict string | DifferentRepository
  | FingerprintChanged | BadValue string | OsFailure | Deadlock

type_synonym 'a session_step = "session_store \<Rightarrow> (session_error + 'a) \<times> session_store"

definition session_id_char :: "nat \<Rightarrow> bool" where
  "session_id_char c \<longleftrightarrow> 97 \<le> c \<and> c \<le> 122 \<or> 65 \<le> c \<and> c \<le> 90 \<or> 48 \<le> c \<and> c \<le> 57 \<or> c = 45 \<or> c = 95"

definition valid_id :: "pystr \<Rightarrow> bool" where
  "valid_id s \<longleftrightarrow> s \<noteq> [] \<and> length s \<le> 100 \<and> list_all session_id_char s"

definition check_id :: "pystr \<Rightarrow> pystr session_step" where
  "check_id sid = (if valid_id sid then retS sid else raiseS InvalidId)"

text \<open>\<^verbatim>\<open>_exclusive_file_lock(self.lock_path(sid))\<close> around a block.\<close>

definition with_lock :: "pystr \<Rightarrow> 'a session_step \<Rightarrow> 'a session_step" where
  "with_lock sid block st =
     (if \<not> valid_id sid then (Inl InvalidId, st)
      else if sid \<in> set (st_locked st) then (Inl Deadlock, st)
      else let (r, st') = block (st\<lparr>st_locked := sid # st_locked st\<rparr>)
           in (r, st'\<lparr>st_locked := remove1 sid (st_locked st')\<rparr>))"

definition session_load :: "pystr \<Rightarrow> SessionRecord session_step" where
  "session_load sid st =
     (if \<not> valid_id sid then (Inl InvalidId, st)
      else case map_of (st_state st) sid of
        None \<Rightarrow> (Inl SessionMissing, st)
      | Some Broken \<Rightarrow> (Inl SessionUnreadable, st)
      | Some (Doc r) \<Rightarrow> (Inr r, st))"

definition write_state :: "pystr \<Rightarrow> SessionRecord \<Rightarrow> unit session_step" where
  "write_state sid r = putS (\<lambda>st. st\<lparr>st_state := AList.update sid (Doc r) (st_state st)\<rparr>)"

definition write_lease :: "pystr \<Rightarrow> MutationLease \<Rightarrow> unit session_step" where
  "write_lease sid l = putS (\<lambda>st. st\<lparr>st_lease := AList.update sid (Doc l) (st_lease st)\<rparr>)"

definition drop_lease :: "pystr \<Rightarrow> unit session_step" where
  "drop_lease sid = putS (\<lambda>st. st\<lparr>st_lease := AList.delete sid (st_lease st)\<rparr>)"

definition lease_of :: "session_store \<Rightarrow> pystr \<Rightarrow> MutationLease document option" where
  "lease_of st sid = map_of (st_lease st) sid"

text \<open>\<^verbatim>\<open>list\<close>: the readable sessions; the entries are kept in the order of their identifiers.\<close>

definition list_sessions :: "bool \<Rightarrow> session_store \<Rightarrow> SessionRecord list" where
  "list_sessions include_archived st =
     filter (\<lambda>r. include_archived \<or> \<not> sr_archived r)
       (List.map_filter (\<lambda>e. case snd e of Doc r \<Rightarrow> Some r | Broken \<Rightarrow> None) (sort_key fst (st_state st)))"

section \<open>Texts\<close>

definition redacted :: "unidata \<Rightarrow> pystr \<Rightarrow> pystr" where
  "redacted ud s = redact_text ud [] True s"

definition clean_session_name :: "unidata \<Rightarrow> pystr \<Rightarrow> pystr session_step" where
  "clean_session_name ud s =
     (let cleaned = py_strip (join_with [32] (split_ws [] (redacted ud s)))
      in if length cleaned > 120 then raiseS (BadText ''session name must be 120 characters or fewer'')
         else retS cleaned)"

definition fork_context :: "unidata \<Rightarrow> (pyval \<Rightarrow> pystr) \<Rightarrow> SessionRecord \<Rightarrow> pystr" where
  "fork_context ud dumps r = take 6000 (redacted ud (dumps (PMap
     [(lit ''source_session'', PStr (sr_session_id r)), (lit ''source_task'', PStr (sr_task r)),
      (lit ''summary'', PStr (sr_summary r)), (lit ''plan'', PSeq (last_n 20 (sr_plan r))),
      (lit ''decisions'', PSeq (last_n 20 (sr_decisions r))),
      (lit ''changed_files'', PSeq (map PStr (last_n 100 (sr_changed_files r)))),
      (lit ''checks'', PSeq (last_n 20 (sr_checks r))), (lit ''evidence'', PSeq (last_n 20 (sr_evidence r))),
      (lit ''unfinished_actions'', PSeq (last_n 20 (sr_unfinished_actions r)))])))"

section \<open>Repositories and processes\<close>

text \<open>\<open>rp_resolve\<close> is \<^verbatim>\<open>expanduser().resolve(strict=True)\<close>, \<open>None\<close> when that raises \<^verbatim>\<open>OSError\<close>.\<close>

record repo_view =
  rp_resolve :: "pystr \<Rightarrow> pystr option"
  rp_is_dir :: "pystr \<Rightarrow> bool"
  rp_fingerprint :: "pystr \<Rightarrow> pystr"
  rp_normcase :: "pystr \<Rightarrow> pystr"

definition resolve_dir :: "repo_view \<Rightarrow> pystr \<Rightarrow> pystr session_step" where
  "resolve_dir rp p =
     (case rp_resolve rp p of
        None \<Rightarrow> raiseS OsFailure
      | Some repo \<Rightarrow> if rp_is_dir rp repo then retS repo else raiseS BadRepository)"

definition validate_repository :: "repo_view \<Rightarrow> SessionRecord \<Rightarrow> pystr \<Rightarrow> unit session_step" where
  "validate_repository rp r repository =
     (case (rp_resolve rp repository, rp_resolve rp (sr_repository r)) of
        (Some current, Some recorded) \<Rightarrow>
          if rp_normcase rp current \<noteq> rp_normcase rp recorded then raiseS DifferentRepository
          else if sr_repo_fingerprint r \<noteq> rp_fingerprint rp current then raiseS FingerprintChanged
          else retS ()
      | _ \<Rightarrow> raiseS OsFailure)"

record process_view =
  pe_hostname :: pystr
  pe_pid :: int
  pe_kill :: "int \<Rightarrow> kill_result"

definition process_is_running :: "process_view \<Rightarrow> int \<Rightarrow> bool" where
  "process_is_running pe pid = (if pid \<le> 0 then False else pe_kill pe pid \<noteq> NoSuchProcess)"

definition owner_provably_dead :: "process_view \<Rightarrow> MutationLease \<Rightarrow> bool" where
  "owner_provably_dead pe l \<longleftrightarrow>
     ml_hostname l = pe_hostname pe \<and> 0 < ml_pid l \<and> \<not> process_is_running pe (ml_pid l)"

section \<open>Leases\<close>

definition session_acquire :: "process_view \<Rightarrow> real \<Rightarrow> pystr \<Rightarrow> pystr \<Rightarrow> pystr \<Rightarrow> real \<Rightarrow> MutationLease session_step" where
  "session_acquire pe now fresh sid owner ttl =
     (if ttl < 5 \<or> ttl > 3600 then raiseS (BadValue ''lease TTL must be between 5 and 3600 seconds'')
      else with_lock sid (bindS (session_load sid) (\<lambda>r.
        if sr_revoked r then raiseS Revoked
        else if sr_archived r then raiseS Archived
        else
          let lease = \<lparr>ml_session_id = sid, ml_session_revision = sr_revision r, ml_owner = owner,
                ml_fencing_token = fresh, ml_pid = pe_pid pe, ml_hostname = pe_hostname pe,
                ml_acquired_at = now, ml_expires_at = now + ttl\<rparr>;
              grant = bindS (write_lease sid lease) (\<lambda>_. retS lease)
          in bindS (getS (\<lambda>st. lease_of st sid)) (\<lambda>current.
               case current of
                 None \<Rightarrow> grant
               | Some Broken \<Rightarrow> raiseS SessionUnreadable
               | Some (Doc l) \<Rightarrow>
                   if ml_expires_at l \<ge> now \<and> \<not> owner_provably_dead pe l
                   then raiseS (SessionBusy ''locked by another owner'')
                   else grant))))"

definition validate_lease_unlocked :: "real \<Rightarrow> MutationLease \<Rightarrow> unit session_step" where
  "validate_lease_unlocked now lease st =
     (if \<not> valid_id (ml_session_id lease) then (Inl (SessionBusy ''mutation lease is no longer active''), st)
      else case lease_of st (ml_session_id lease) of
        Some (Doc current) \<Rightarrow>
          (if ml_fencing_token current \<noteq> ml_fencing_token lease
           then (Inl (SessionBusy ''fencing token is no longer current''), st)
           else if ml_expires_at current < now then (Inl (SessionBusy ''mutation lease expired''), st)
           else (Inr (), st))
      | _ \<Rightarrow> (Inl (SessionBusy ''mutation lease is no longer active''), st))"

definition validate_lease :: "real \<Rightarrow> MutationLease \<Rightarrow> unit session_step" where
  "validate_lease now lease = with_lock (ml_session_id lease) (validate_lease_unlocked now lease)"

definition session_heartbeat :: "real \<Rightarrow> MutationLease \<Rightarrow> real \<Rightarrow> MutationLease session_step" where
  "session_heartbeat now lease ttl =
     (if ttl < 5 \<or> ttl > 3600 then raiseS (BadValue ''lease TTL must be between 5 and 3600 seconds'')
      else with_lock (ml_session_id lease) (bindS (validate_lease_unlocked now lease) (\<lambda>_.
        bindS (session_load (ml_session_id lease)) (\<lambda>r.
          let renewed = lease\<lparr>ml_expires_at := now + ttl, ml_session_revision := sr_revision r\<rparr>
          in bindS (write_lease (ml_session_id lease) renewed) (\<lambda>_. retS renewed)))))"

definition session_release :: "MutationLease \<Rightarrow> unit session_step" where
  "session_release lease =
     with_lock (ml_session_id lease) (bindS (getS (\<lambda>st. lease_of st (ml_session_id lease))) (\<lambda>current.
       case current of
         Some (Doc l) \<Rightarrow>
           if ml_fencing_token l = ml_fencing_token lease then drop_lease (ml_session_id lease) else retS ()
       | _ \<Rightarrow> retS ()))"

text \<open>The lease a nested call inherits from the context.\<close>

definition current_mutation_lease :: "MutationLease option \<Rightarrow> pystr \<Rightarrow> MutationLease option" where
  "current_mutation_lease inherited sid =
     (case inherited of None \<Rightarrow> None | Some l \<Rightarrow> if ml_session_id l \<noteq> sid then None else Some l)"

section \<open>Saving\<close>

definition save :: "real \<Rightarrow> SessionRecord \<Rightarrow> int \<Rightarrow> MutationLease \<Rightarrow> SessionRecord session_step" where
  "save now r expected_revision lease =
     with_lock (ml_session_id lease) (bindS (validate_lease_unlocked now lease) (\<lambda>_.
       if sr_session_id r \<noteq> ml_session_id lease then raiseS LeaseMismatch
       else bindS (session_load (sr_session_id r)) (\<lambda>current.
         if sr_revision current \<noteq> expected_revision
         then raiseS (StaleSessionRevision expected_revision (sr_revision current))
         else
           let saved = r\<lparr>sr_revision := expected_revision + 1, sr_updated_at := now\<rparr>
           in bindS (write_state (sr_session_id r) saved) (\<lambda>_. retS saved))))"

definition metadata_update :: "real \<Rightarrow> (SessionRecord \<Rightarrow> SessionRecord) \<Rightarrow> pystr \<Rightarrow> SessionRecord \<Rightarrow>
    SessionRecord session_step" where
  "metadata_update now change sid r =
     (let updated = (change r)\<lparr>sr_revision := sr_revision r + 1, sr_updated_at := now\<rparr>
      in bindS (write_state sid updated) (\<lambda>_. retS updated))"

section \<open>Idempotency\<close>

text \<open>
  The caller's record is changed in place when the reservation is written; when it is not, the entry is
  taken out again and the error leaves the caller with the record it had.
\<close>

definition begin_idempotent :: "real \<Rightarrow> SessionRecord \<Rightarrow> MutationLease \<Rightarrow> pystr \<Rightarrow> pystr \<Rightarrow>
    ((pystr, pyval) dict option \<times> SessionRecord) session_step" where
  "begin_idempotent now r lease key digest =
     (if key = [] then raiseS (BadValue ''mutation requires an idempotency key'')
      else case map_of (sr_idempotency r) key of
        Some entry \<Rightarrow>
          (if ie_digest entry \<noteq> digest
           then raiseS (IdempotencyConflict ''idempotency key was used for different input'')
           else case entry of
             Complete d s c result \<Rightarrow> retS (Some result, r)
           | Pending d s \<Rightarrow> raiseS (IdempotencyConflict ''prior mutation outcome requires reconciliation''))
      | None \<Rightarrow>
          bindS (save now (r\<lparr>sr_idempotency := AList.update key (Pending digest now) (sr_idempotency r)\<rparr>)
                   (sr_revision r) lease) (\<lambda>saved. retS (None, saved)))"

definition complete_idempotent :: "real \<Rightarrow> SessionRecord \<Rightarrow> MutationLease \<Rightarrow> pystr \<Rightarrow> (pystr, pyval) dict \<Rightarrow>
    SessionRecord session_step" where
  "complete_idempotent now r lease key result =
     (case map_of (sr_idempotency r) key of
        Some (Pending digest started) \<Rightarrow>
          save now (r\<lparr>sr_idempotency :=
              AList.update key (Complete digest started now result) (sr_idempotency r)\<rparr>) (sr_revision r) lease
      | _ \<Rightarrow> raiseS (IdempotencyConflict ''mutation was not reserved''))"

section \<open>Life cycle\<close>

definition create :: "unidata \<Rightarrow> repo_view \<Rightarrow> real \<Rightarrow> pystr \<Rightarrow> pystr \<Rightarrow> pystr \<Rightarrow> AccessProfile \<Rightarrow> pystr \<Rightarrow>
    pystr option \<Rightarrow> pystr \<Rightarrow> pystr \<Rightarrow> SessionRecord session_step" where
  "create ud rp now fresh repository task profile branch wanted name parent =
     (if py_strip task = [] then raiseS (BadText ''session task must be a non-empty string'')
      else bindS (resolve_dir rp repository) (\<lambda>repo.
        bindS (check_id (case wanted of Some s \<Rightarrow> if s = [] then fresh else s | None \<Rightarrow> fresh)) (\<lambda>sid.
        bindS (clean_session_name ud name) (\<lambda>clean.
        bindS (if parent = [] then retS [] else check_id parent) (\<lambda>par.
        if par = sid then raiseS SelfParent
        else with_lock sid (bindS (getS (\<lambda>st. map_of (st_state st) sid)) (\<lambda>existing.
          if existing \<noteq> None then raiseS SessionExists
          else
            let r = new_session sid repo (rp_fingerprint rp repo) branch profile (redacted ud task) now clean par
            in bindS (write_state sid r) (\<lambda>_. retS r))))))))"

definition reactivate :: "unidata \<Rightarrow> repo_view \<Rightarrow> real \<Rightarrow> pystr \<Rightarrow> pystr \<Rightarrow> AccessProfile \<Rightarrow>
    SessionRecord session_step" where
  "reactivate ud rp now sid repository profile =
     bindS (check_id sid) (\<lambda>_. bindS (resolve_dir rp repository) (\<lambda>repo.
       with_lock sid (bindS (getS (\<lambda>st. map_of (st_state st) sid)) (\<lambda>existing.
         if existing = None
         then create ud rp now sid repo (lit ''reactivated persistent session'') profile [] (Some sid) [] []
         else bindS (session_load sid) (metadata_update now (\<lambda>r. r\<lparr>sr_repository := repo,
           sr_repo_fingerprint := rp_fingerprint rp repo, sr_access_profile := profile, sr_revoked := False,
           sr_archived := False, sr_status := lit ''active''\<rparr>) sid)))))"

definition revoke :: "real \<Rightarrow> pystr \<Rightarrow> SessionRecord session_step" where
  "revoke now sid =
     with_lock sid (bindS (session_load sid) (\<lambda>r.
       bindS (metadata_update now (\<lambda>r. r\<lparr>sr_revoked := True, sr_status := lit ''revoked''\<rparr>) sid r) (\<lambda>r'.
       bindS (drop_lease sid) (\<lambda>_. retS r'))))"

definition ensure_no_active_lease :: "real \<Rightarrow> pystr \<Rightarrow> unit session_step" where
  "ensure_no_active_lease now sid =
     bindS (getS (\<lambda>st. lease_of st sid)) (\<lambda>current.
       case current of
         None \<Rightarrow> retS ()
       | Some (Doc l) \<Rightarrow>
           if ml_expires_at l \<ge> now then raiseS (SessionBusy ''locked by another owner'') else drop_lease sid
       | Some Broken \<Rightarrow>
           if 0 \<ge> now then raiseS (SessionBusy ''locked by another owner'') else drop_lease sid)"

definition rename :: "unidata \<Rightarrow> real \<Rightarrow> pystr \<Rightarrow> pystr \<Rightarrow> SessionRecord session_step" where
  "rename ud now sid name =
     bindS (check_id sid) (\<lambda>_. bindS (clean_session_name ud name) (\<lambda>clean.
       with_lock sid (bindS (session_load sid) (metadata_update now (\<lambda>r. r\<lparr>sr_name := clean\<rparr>) sid))))"

definition archive :: "real \<Rightarrow> pystr \<Rightarrow> SessionRecord session_step" where
  "archive now sid =
     with_lock sid (bindS (ensure_no_active_lease now sid) (\<lambda>_. bindS (session_load sid) (\<lambda>r.
       if sr_archived r then retS r else metadata_update now (\<lambda>r. r\<lparr>sr_archived := True\<rparr>) sid r)))"

definition unarchive :: "real \<Rightarrow> pystr \<Rightarrow> SessionRecord session_step" where
  "unarchive now sid =
     with_lock sid (bindS (session_load sid) (\<lambda>r.
       if \<not> sr_archived r then retS r else metadata_update now (\<lambda>r. r\<lparr>sr_archived := False\<rparr>) sid r))"

text \<open>What \<^verbatim>\<open>shutil.rmtree\<close> does to the session directory.\<close>

datatype removal = Removed | AlreadyGone | RemovalFailed

definition delete_archived :: "real \<Rightarrow> removal \<Rightarrow> pystr \<Rightarrow> unit session_step" where
  "delete_archived now outcome sid =
     bindS (with_lock sid (bindS (ensure_no_active_lease now sid) (\<lambda>_. bindS (session_load sid) (\<lambda>r.
       if \<not> sr_archived r then raiseS NotArchived
       else metadata_update now (\<lambda>r. r\<lparr>sr_revoked := True, sr_status := lit ''deleted_pending''\<rparr>) sid r))))
     (\<lambda>_. case outcome of
        Removed \<Rightarrow> putS (\<lambda>st. st\<lparr>st_state := AList.delete sid (st_state st),
                                  st_lease := AList.delete sid (st_lease st)\<rparr>)
      | AlreadyGone \<Rightarrow> retS ()
      | RemovalFailed \<Rightarrow> raiseS DeleteFailed)"

text \<open>\<^verbatim>\<open>mutate\<close>: the lease is released whatever happens; \<open>change\<close> is the body of the \<^verbatim>\<open>with\<close> block.\<close>

definition finallyS :: "'a session_step \<Rightarrow> unit session_step \<Rightarrow> 'a session_step" where
  "finallyS block cleanup st =
     (case block st of (r, st') \<Rightarrow>
        (case cleanup st' of (Inl e, st'') \<Rightarrow> (Inl e, st'') | (Inr _, st'') \<Rightarrow> (r, st'')))"

definition mutate :: "process_view \<Rightarrow> real \<Rightarrow> pystr \<Rightarrow> pystr \<Rightarrow> pystr \<Rightarrow> real \<Rightarrow>
    (SessionRecord \<Rightarrow> SessionRecord) \<Rightarrow> unit session_step" where
  "mutate pe now fresh sid owner ttl change =
     bindS (session_acquire pe now fresh sid owner ttl) (\<lambda>lease.
       finallyS (bindS (session_load sid) (\<lambda>r. bindS (save now (change r) (sr_revision r) lease) (\<lambda>_. retS ())))
         (session_release lease))"

definition continued :: "pystr \<Rightarrow> SessionRecord \<Rightarrow> SessionRecord" where
  "continued safe_task r =
     (let r1 = (if sr_task r \<noteq> safe_task
                then r\<lparr>sr_task_history := sr_task_history r @ [sr_task r], sr_task := safe_task\<rparr> else r);
          duplicate = (case last (sr_provider_history r) of
            PMap m \<Rightarrow> map_of m (lit ''role'') = Some (PStr (lit ''user'')) \<and>
                       map_of m (lit ''content'') = Some (PStr safe_task)
          | _ \<Rightarrow> False);
          r2 = (if sr_provider_history r \<noteq> [] \<and> \<not> duplicate
                then r1\<lparr>sr_provider_history := sr_provider_history r @
                  [PMap [(lit ''role'', PStr (lit ''user'')), (lit ''content'', PStr safe_task),
                         (lit ''kind'', PStr (lit ''continuation''))]]\<rparr>
                else r1)
      in r2\<lparr>sr_status := lit ''active'',
            sr_phase := (if sr_provider_history r2 \<noteq> [] then lit ''execution'' else lit ''planning'')\<rparr>)"

definition continue_task :: "unidata \<Rightarrow> process_view \<Rightarrow> real \<Rightarrow> pystr \<Rightarrow> pystr \<Rightarrow> pystr \<Rightarrow> pystr \<Rightarrow>
    SessionRecord session_step" where
  "continue_task ud pe now fresh owner sid task =
     (if py_strip task = [] then raiseS (BadText ''continuation task must be a non-empty string'')
      else bindS (check_id sid) (\<lambda>_.
        bindS (mutate pe now fresh sid owner 10 (continued (py_strip (redacted ud task)))) (\<lambda>_. session_load sid)))"

definition inherited :: "pystr \<Rightarrow> SessionRecord \<Rightarrow> SessionRecord \<Rightarrow> SessionRecord" where
  "inherited context source child = child\<lparr>sr_phase := sr_phase source,
     sr_task_history := sr_task_history source @ [sr_task source], sr_continuation_context := context,
     sr_plan := sr_plan source, sr_summary := sr_summary source, sr_decisions := sr_decisions source,
     sr_changed_files := sr_changed_files source, sr_git_state := sr_git_state source,
     sr_checkpoints := sr_checkpoints source, sr_checks := sr_checks source, sr_failures := sr_failures source,
     sr_skills := sr_skills source, sr_mcp_servers := sr_mcp_servers source, sr_packs := sr_packs source,
     sr_evidence := sr_evidence source, sr_unfinished_actions := sr_unfinished_actions source\<rparr>"

definition fork :: "unidata \<Rightarrow> (pyval \<Rightarrow> pystr) \<Rightarrow> repo_view \<Rightarrow> process_view \<Rightarrow> real \<Rightarrow> pystr \<Rightarrow> pystr \<Rightarrow> pystr \<Rightarrow>
    pystr \<Rightarrow> pystr option \<Rightarrow> pystr option \<Rightarrow> pystr \<Rightarrow> SessionRecord session_step" where
  "fork ud dumps rp pe now fresh_id fresh_token owner source_id wanted task name =
     bindS (check_id source_id) (\<lambda>_. bindS (session_load source_id) (\<lambda>source.
       if sr_revoked source then raiseS Revoked
       else case rp_resolve rp (sr_repository source) of
         None \<Rightarrow> raiseS OsFailure
       | Some repository \<Rightarrow>
           bindS (create ud rp now fresh_id repository (case task of Some t \<Rightarrow> t | None \<Rightarrow> sr_task source)
                    (sr_access_profile source) (sr_branch source) wanted name source_id) (\<lambda>forked.
           bindS (session_acquire pe now fresh_token (sr_session_id forked) owner 10) (\<lambda>lease.
             finallyS (bindS (session_load (sr_session_id forked)) (\<lambda>child.
                 save now (inherited (fork_context ud dumps source) source child) (sr_revision child) lease))
               (session_release lease)))))"

end
