(* ===== verification/SessionProofs.thy ===== *)
theory SessionProofs imports Sessions LeaseInterface begin

text \<open>
  What sessions guarantee whatever the clients do and however their operations interleave: an idempotency
  key starts its work at most once and answers every retry with the one recorded result, a document is
  written only under the current lease and on the revision it was read at, and a lease is lost only for a
  cause.
\<close>

section \<open>The document of a session\<close>

definition doc :: "session_store \<Rightarrow> pystr \<Rightarrow> SessionRecord option" where
  "doc st sid = (case map_of (st_state st) sid of Some (Doc r) \<Rightarrow> Some r | _ \<Rightarrow> None)"

lemma doc_frame [simp]:
  "doc (st\<lparr>st_locked := x\<rparr>) = doc st" "doc (st\<lparr>st_lease := y\<rparr>) = doc st"
  by (simp_all add: doc_def fun_eq_iff)

lemma doc_write [simp]:
  "doc (st\<lparr>st_state := AList.update sid (Doc r) (st_state st)\<rparr>) = (doc st)(sid := Some r)"
  by (simp add: doc_def fun_eq_iff map_of_AList_update)

lemma load_Inr: "session_load sid st = (Inr r, st') \<longleftrightarrow> valid_id sid \<and> doc st sid = Some r \<and> st' = st"
  by (auto simp: session_load_def doc_def split: option.splits document.splits)

lemma load_snd [simp]: "snd (session_load sid st) = st"
  by (simp add: session_load_def split: option.split document.split)

lemma with_lock_Inr:
  "with_lock sid b st = (Inr x, st') \<longleftrightarrow> valid_id sid \<and> sid \<notin> set (st_locked st) \<and>
     (\<exists>st1. b (st\<lparr>st_locked := sid # st_locked st\<rparr>) = (Inr x, st1) \<and>
            st' = st1\<lparr>st_locked := remove1 sid (st_locked st1)\<rparr>)"
  by (auto simp: with_lock_def split: prod.splits)

lemma validate_unlocked_Inr:
  "validate_lease_unlocked now l st = (Inr u, st') \<longleftrightarrow> valid_id (ml_session_id l) \<and> st' = st \<and>
     (\<exists>c. lease_of st (ml_session_id l) = Some (Doc c) \<and> ml_fencing_token c = ml_fencing_token l \<and>
          now \<le> ml_expires_at c)"
  by (auto simp: validate_lease_unlocked_def split: option.splits document.splits if_splits)

lemma validate_unlocked_snd [simp]: "snd (validate_lease_unlocked now l st) = st"
  by (simp add: validate_lease_unlocked_def split: option.split document.split)

lemma lease_of_frame [simp]:
  "lease_of (st\<lparr>st_locked := x\<rparr>) = lease_of st" "lease_of (st\<lparr>st_state := y\<rparr>) = lease_of st"
  by (simp_all add: lease_of_def fun_eq_iff)

text \<open>A save succeeds only under the current, unexpired lease and on the revision the document has.\<close>

lemma save_Inr:
  assumes "save now r er lease st = (Inr s, st')"
  shows "valid_id (sr_session_id r) \<and> sr_session_id r = ml_session_id lease \<and>
    (\<exists>c. lease_of st (sr_session_id r) = Some (Doc c) \<and> ml_fencing_token c = ml_fencing_token lease \<and>
         now \<le> ml_expires_at c) \<and>
    (\<exists>d. doc st (sr_session_id r) = Some d \<and> sr_revision d = er) \<and>
    s = r\<lparr>sr_revision := er + 1, sr_updated_at := now\<rparr> \<and>
    st' = st\<lparr>st_state := AList.update (sr_session_id r) (Doc s) (st_state st)\<rparr>"
  using assms
  by (auto simp: save_def with_lock_Inr bindS_Inr validate_unlocked_Inr load_Inr raiseS_def retS_def
      write_state_def putS_def Let_def split: if_splits)

lemma save_Inl: "save now r er lease st = (Inl e, st') \<Longrightarrow> st' = st"
proof -
  have l: "session_load sid t = (res, t') \<Longrightarrow> t' = t" for sid t res t' by (metis load_snd snd_conv)
  have v: "validate_lease_unlocked n m t = (res, t') \<Longrightarrow> t' = t" for n m t res t'
    by (metis validate_unlocked_snd snd_conv)
  assume "save now r er lease st = (Inl e, st')"
  then show ?thesis
    by (auto simp: save_def with_lock_def bindS_Inl raiseS_def retS_def write_state_def putS_def Let_def
        split: if_splits prod.splits dest!: l v)
qed

section \<open>Idempotency entries only grow\<close>

definition entry_le :: "idem_entry \<Rightarrow> idem_entry \<Rightarrow> bool" where
  "entry_le e e' \<longleftrightarrow> e' = e \<or> (\<exists>d s c res. e = Pending d s \<and> e' = Complete d s c res)"

definition idem_le :: "(pystr, idem_entry) dict \<Rightarrow> (pystr, idem_entry) dict \<Rightarrow> bool" where
  "idem_le m m' \<longleftrightarrow> (\<forall>k e. map_of m k = Some e \<longrightarrow> (\<exists>e'. map_of m' k = Some e' \<and> entry_le e e'))"

lemma entry_le_refl [simp]: "entry_le e e"
  by (simp add: entry_le_def)

lemma entry_le_trans: "entry_le a b \<Longrightarrow> entry_le b c \<Longrightarrow> entry_le a c"
  by (auto simp: entry_le_def)

lemma idem_le_refl [simp]: "idem_le m m"
  by (simp add: idem_le_def)

lemma idem_le_trans: "idem_le a b \<Longrightarrow> idem_le b c \<Longrightarrow> idem_le a c"
  unfolding idem_le_def by (metis entry_le_trans)

section \<open>Life-cycle operations leave the entries alone\<close>

definition unhurt :: "session_store \<Rightarrow> session_store \<Rightarrow> bool" where
  "unhurt st st' \<longleftrightarrow> (\<forall>sid. case doc st sid of
     Some r \<Rightarrow> (\<exists>r'. doc st' sid = Some r' \<and> sr_session_id r' = sr_session_id r \<and>
                  sr_idempotency r' = sr_idempotency r \<and> (r' = r \<or> sr_revision r < sr_revision r'))
   | None \<Rightarrow> (case doc st' sid of None \<Rightarrow> True | Some r' \<Rightarrow> sr_session_id r' = sid \<and> sr_idempotency r' = []))"

lemma calm_Some:
  "unhurt st st' \<Longrightarrow> doc st sid = Some r \<Longrightarrow> \<exists>r'. doc st' sid = Some r' \<and> sr_session_id r' = sr_session_id r \<and>
     sr_idempotency r' = sr_idempotency r \<and> (r' = r \<or> sr_revision r < sr_revision r')"
  unfolding unhurt_def by (drule spec [of _ sid]) simp

lemma calm_None:
  "unhurt st st' \<Longrightarrow> doc st sid = None \<Longrightarrow> doc st' sid = Some r' \<Longrightarrow> sr_session_id r' = sid \<and> sr_idempotency r' = []"
  unfolding unhurt_def by (drule spec [of _ sid]) simp

lemma calm_same: "doc st' = doc st \<Longrightarrow> unhurt st st'"
  by (simp add: unhurt_def split: option.split)

lemma calm_trans:
  assumes "unhurt a b" "unhurt b c"
  shows "unhurt a c"
  unfolding unhurt_def
proof (intro allI)
  fix sid
  show "case doc a sid of
     Some r \<Rightarrow> (\<exists>r'. doc c sid = Some r' \<and> sr_session_id r' = sr_session_id r \<and>
                  sr_idempotency r' = sr_idempotency r \<and> (r' = r \<or> sr_revision r < sr_revision r'))
   | None \<Rightarrow> (case doc c sid of None \<Rightarrow> True | Some r' \<Rightarrow> sr_session_id r' = sid \<and> sr_idempotency r' = [])"
  proof (cases "doc a sid")
    case None
    show ?thesis
    proof (cases "doc b sid")
      case N: None
      show ?thesis using None calm_None [OF assms(2) N] by (simp split: option.split)
    next
      case (Some r)
      show ?thesis using None calm_None [OF assms(1) None Some] calm_Some [OF assms(2) Some] by auto
    qed
  next
    case (Some r)
    from calm_Some [OF assms(1) Some] obtain r1 where r1: "doc b sid = Some r1"
      "sr_session_id r1 = sr_session_id r" "sr_idempotency r1 = sr_idempotency r" "r1 = r \<or> sr_revision r < sr_revision r1"
      by blast
    from calm_Some [OF assms(2) r1(1)] r1 Some show ?thesis by auto
  qed
qed

lemma calm_bind:
  "unhurt st (snd (m st)) \<Longrightarrow> (\<And>x st'. m st = (Inr x, st') \<Longrightarrow> unhurt st' (snd (k x st'))) \<Longrightarrow> unhurt st (snd (bindS m k st))"
  by (cases "m st") (auto simp: bindS_def intro: calm_trans split: sum.split)

lemma calm_load: "(\<And>r. doc st sid = Some r \<Longrightarrow> unhurt st (snd (k r st))) \<Longrightarrow> unhurt st (snd (bindS (session_load sid) k st))"
  by (rule calm_bind) (auto simp: load_Inr calm_same)

lemma calm_lock:
  assumes "\<And>st1. st1 = st\<lparr>st_locked := sid # st_locked st\<rparr> \<Longrightarrow> unhurt st1 (snd (b st1))"
  shows "unhurt st (snd (with_lock sid b st))"
proof -
  let ?s = "st\<lparr>st_locked := sid # st_locked st\<rparr>"
  have "unhurt st ?s" by (rule calm_same) simp
  moreover have "unhurt (snd (b ?s)) (snd (b ?s)\<lparr>st_locked := x\<rparr>)" for x by (rule calm_same) simp
  ultimately have "unhurt st (snd (b ?s)\<lparr>st_locked := x\<rparr>)" for x
    using assms [OF refl] by (meson calm_trans)
  then show ?thesis by (simp add: with_lock_def calm_same split: prod.split) (metis snd_conv)
qed

lemma calm_update:
  assumes "doc st sid = Some r"
    and "sr_session_id (f r) = sr_session_id r" "sr_idempotency (f r) = sr_idempotency r"
  shows "unhurt st (snd (metadata_update now f sid r st))"
  using assms
  by (auto simp: unhurt_def metadata_update_def Let_def bindS_def write_state_def putS_def retS_def split: option.split)

lemmas calm_simps = retS_def raiseS_def getS_def putS_def check_id_def resolve_dir_def clean_session_name_def
  drop_lease_def write_lease_def Let_def

lemma calm_ret [simp]: "unhurt st st"
  by (rule calm_same) simp

lemma calm_drop [simp]: "unhurt st (snd (drop_lease sid st))" "unhurt st (snd (write_lease sid l st))"
  by (rule calm_same; simp add: drop_lease_def write_lease_def putS_def)+

lemma calm_pure [simp]:
  "unhurt st (snd (retS x st))" "unhurt st (snd (raiseS e st))" "unhurt st (snd (getS f st))"
  "unhurt st (snd (check_id s st))" "unhurt st (snd (resolve_dir rp p st))" "unhurt st (snd (clean_session_name ud n st))"
  "unhurt st (snd (session_load sid st))" "unhurt st (snd (validate_lease_unlocked now l st))"
  by (simp_all add: calm_simps split: option.split)

lemma calm_ensure: "unhurt st (snd (ensure_no_active_lease now sid st))"
  unfolding ensure_no_active_lease_def
  by (rule calm_bind) (auto simp: getS_def split: option.split document.split)

lemma calm_acquire: "unhurt st (snd (session_acquire pe now fresh sid owner ttl st))"
proof -
  have "unhurt st (snd (bindS (write_lease s l) (\<lambda>_. retS l) st))" for st s l
    by (rule calm_bind) auto
  then show ?thesis
    unfolding session_acquire_def
    by (auto simp: Let_def intro!: calm_lock calm_load calm_bind split: option.split document.split)
qed

lemma calm_heartbeat: "unhurt st (snd (session_heartbeat now l ttl st))"
  unfolding session_heartbeat_def by (auto simp: Let_def intro!: calm_lock calm_load calm_bind)

lemma calm_release: "unhurt st (snd (session_release l st))"
  unfolding session_release_def by (auto intro!: calm_lock calm_bind split: option.split document.split)

lemma calm_finally:
  "unhurt st (snd (m st)) \<Longrightarrow> (\<And>st'. unhurt st' (snd (f st'))) \<Longrightarrow> unhurt st (snd (finallyS m f st))"
  by (auto simp: finallyS_def intro: calm_trans split: prod.split sum.split) (metis calm_trans snd_conv)+

lemma calm_save:
  assumes "doc st (sr_session_id r) = Some d" "sr_idempotency r = sr_idempotency d" "sr_session_id d = sr_session_id r"
  shows "unhurt st (snd (save now r (sr_revision d) lease st))"
proof (cases "save now r (sr_revision d) lease st")
  case (Pair res st')
  show ?thesis
  proof (cases res)
    case (Inl e)
    with Pair save_Inl show ?thesis by fastforce
  next
    case (Inr s)
    with save_Inr [of now r "sr_revision d" lease st s st'] Pair assms show ?thesis
      by (auto simp: unhurt_def split: option.split)
  qed
qed

lemma calm_update_at:
  "doc st sid = Some r \<Longrightarrow> (\<And>r. sr_session_id (f r) = sr_session_id r \<and> sr_idempotency (f r) = sr_idempotency r) \<Longrightarrow>
     unhurt st (snd (metadata_update now f sid r st))"
  by (rule calm_update) simp_all

lemma calm_rename: "unhurt st (snd (rename ud now sid name st))"
  unfolding rename_def
  by (auto intro!: calm_lock calm_load calm_bind calm_update_at)

lemma calm_archive: "unhurt st (snd (archive now sid st))" "unhurt st (snd (unarchive now sid st))"
  unfolding archive_def unarchive_def
  by (auto intro!: calm_lock calm_load calm_bind calm_update_at calm_ensure)

lemma calm_revoke: "unhurt st (snd (revoke now sid st))"
  unfolding revoke_def
  by (auto intro!: calm_lock calm_load calm_bind calm_update_at)

lemma calm_create: "unhurt st (snd (create ud rp now fresh repo task profile branch wanted name parent st))"
proof -
  have "unhurt st1 (snd (bindS (write_state sid (new_session sid a b c d e f g h)) (\<lambda>_. retS x) st1))"
    if "map_of (st_state st1) sid = None" for st1 sid a b c d e f g h x
  proof -
    have "doc st1 sid = None" using that by (simp add: doc_def)
    then show ?thesis
      by (auto simp: unhurt_def bindS_def write_state_def putS_def retS_def new_session_def split: option.split)
  qed
  then have body: "unhurt st1 (snd (bindS (getS (\<lambda>st. map_of (st_state st) sid)) (\<lambda>existing.
      if existing \<noteq> None then raiseS SessionExists
      else let r = new_session sid a b c d e f g h in bindS (write_state sid r) (\<lambda>_. retS r)) st1))"
    for st1 sid a b c d e f g h
    by (cases "map_of (st_state st1) sid") (simp_all add: bindS_def [of "getS _"] getS_def Let_def)
  have lock: "unhurt st1 (snd (if par = sid then raiseS SelfParent st1 else with_lock sid (bindS (getS (\<lambda>st. map_of (st_state st) sid)) (\<lambda>existing.
      if existing \<noteq> None then raiseS SessionExists
      else let r = new_session sid a b c d e f g h in bindS (write_state sid r) (\<lambda>_. retS r))) st1))"
    for st1 sid a b c d e f g h par
    using calm_lock [OF body] by simp
  show ?thesis
  proof (cases "py_strip task = []")
    case False
    have "unhurt st1 (snd ((if parent = [] then retS [] else check_id parent) st1))" for st1
      by simp
    with False show ?thesis
      unfolding create_def if_not_P [OF False]
      by (intro calm_bind calm_pure) (use lock in \<open>simp_all add: if_distrib [of "\<lambda>f. f _"]\<close>)
  qed (simp add: create_def)
qed

lemma calm_reactivate: "unhurt st (snd (reactivate ud rp now sid repo profile st))"
proof -
  have upd: "unhurt st1 (snd (bindS (session_load sid) (metadata_update now (\<lambda>r. r\<lparr>sr_repository := a,
           sr_repo_fingerprint := b, sr_access_profile := c, sr_revoked := False,
           sr_archived := False, sr_status := d\<rparr>) sid) st1))" for st1 a b c d
    by (rule calm_load) (rule calm_update_at; simp)
  have body: "unhurt st1 (snd (bindS (getS (\<lambda>st. map_of (st_state st) sid)) (\<lambda>existing.
         if existing = None
         then create ud rp now sid repo (lit ''reactivated persistent session'') profile [] (Some sid) [] []
         else bindS (session_load sid) (metadata_update now (\<lambda>r. r\<lparr>sr_repository := repo,
           sr_repo_fingerprint := rp_fingerprint rp repo, sr_access_profile := profile, sr_revoked := False,
           sr_archived := False, sr_status := lit ''active''\<rparr>) sid)) st1))" for st1 repo
    by (cases "map_of (st_state st1) sid") (simp_all add: bindS_def [of "getS _"] getS_def calm_create upd)
  show ?thesis
    unfolding reactivate_def by (intro calm_bind calm_pure calm_lock body)
qed

text \<open>Operations that read a document and save it again.\<close>

definition well_named :: "session_store \<Rightarrow> bool" where
  "well_named st \<longleftrightarrow> (\<forall>sid r. doc st sid = Some r \<longrightarrow> sr_session_id r = sid)"

lemma well_named_calm: "well_named st \<Longrightarrow> unhurt st st' \<Longrightarrow> well_named st'"
  unfolding well_named_def
proof (intro allI impI)
  fix sid r assume w: "\<forall>sid r. doc st sid = Some r \<longrightarrow> sr_session_id r = sid" and c: "unhurt st st'"
    and r: "doc st' sid = Some r"
  show "sr_session_id r = sid"
  proof (cases "doc st sid")
    case None
    from calm_None [OF c None r] show ?thesis by simp
  next
    case (Some a)
    from calm_Some [OF c Some] r w Some show ?thesis by auto
  qed
qed

lemma calm_resave:
  assumes "well_named st" and "\<And>r. sr_session_id (f r) = sr_session_id r \<and> sr_idempotency (f r) = sr_idempotency r"
    and "\<And>r. sr_revision (f r) = sr_revision r"
  shows "unhurt st (snd (bindS (session_load sid) (\<lambda>r. save now (f r) (sr_revision r) lease) st))"
proof (rule calm_load)
  fix r assume r: "doc st sid = Some r"
  then have "sr_session_id r = sid" using assms(1) by (simp add: well_named_def)
  then show "unhurt st (snd (save now (f r) (sr_revision r) lease st))"
    using r assms(2) calm_save [of st "f r" r now lease] by simp
qed

lemma bindS_snd_ret: "snd (bindS m (\<lambda>x. retS (g x)) st) = snd (m st)"
  by (simp add: bindS_def retS_def split: prod.split sum.split)

lemma bindS_assoc: "bindS (bindS m k) h = bindS m (\<lambda>x. bindS (k x) h)"
  by (rule ext) (auto simp: bindS_def split: prod.split sum.split)

lemma calm_mutate:
  assumes "well_named st" and "\<And>r. sr_session_id (f r) = sr_session_id r \<and> sr_idempotency (f r) = sr_idempotency r"
    and "\<And>r. sr_revision (f r) = sr_revision r"
  shows "unhurt st (snd (mutate pe now fresh sid owner ttl f st))"
  unfolding mutate_def
proof (rule calm_bind [OF calm_acquire])
  fix l st1 assume "session_acquire pe now fresh sid owner ttl st = (Inr l, st1)"
  then have "unhurt st st1" by (metis calm_acquire snd_conv)
  then have w: "well_named st1" using assms(1) well_named_calm by blast
  have "unhurt st1 (snd (bindS (session_load sid) (\<lambda>r. bindS (save now (f r) (sr_revision r) l) (\<lambda>_. retS ())) st1))"
    using calm_resave [OF w assms(2,3), of sid now l]
    by (simp only: bindS_assoc [symmetric] bindS_snd_ret)
  then show "unhurt st1 (snd (finallyS (bindS (session_load sid) (\<lambda>r. bindS (save now (f r) (sr_revision r) l) (\<lambda>_. retS ())))
      (session_release l) st1))"
    by (rule calm_finally) (rule calm_release)
qed

lemma continued_fields:
  "sr_session_id (continued t r) = sr_session_id r" "sr_idempotency (continued t r) = sr_idempotency r"
  "sr_revision (continued t r) = sr_revision r"
  by (simp_all add: continued_def Let_def)

lemma calm_continue: "well_named st \<Longrightarrow> unhurt st (snd (continue_task ud pe now fresh owner sid task st))"
  unfolding continue_task_def
  by (auto intro!: calm_bind calm_mutate simp: continued_fields check_id_def retS_def raiseS_def split: if_splits)

lemma inherited_fields:
  "sr_session_id (inherited c s r) = sr_session_id r" "sr_idempotency (inherited c s r) = sr_idempotency r"
  "sr_revision (inherited c s r) = sr_revision r"
  by (simp_all add: inherited_def)

lemma calm_fork:
  assumes "well_named st"
  shows "unhurt st (snd (fork ud dumps rp pe now fid ft owner src wanted task name st))"
proof -
  have body: "unhurt st1 (snd (bindS (session_acquire pe now ft sid owner 10) (\<lambda>lease.
        finallyS (bindS (session_load sid) (\<lambda>child. save now (inherited c source child) (sr_revision child) lease))
          (session_release lease)) st1))" if "well_named st1" for st1 sid c source
  proof (rule calm_bind [OF calm_acquire])
    fix l st2 assume "session_acquire pe now ft sid owner 10 st1 = (Inr l, st2)"
    then have "unhurt st1 st2" by (metis calm_acquire snd_conv)
    then have w: "well_named st2" using that well_named_calm by blast
    show "unhurt st2 (snd (finallyS (bindS (session_load sid) (\<lambda>child. save now (inherited c source child) (sr_revision child) l))
        (session_release l) st2))"
    proof (rule calm_finally)
      show "unhurt st2 (snd (bindS (session_load sid) (\<lambda>child. save now (inherited c source child) (sr_revision child) l) st2))"
        by (rule calm_resave [OF w]) (simp_all add: inherited_fields)
    qed (rule calm_release)
  qed
  have made: "unhurt st1 (snd (bindS (create ud rp now fid repo t p b wanted name src) (\<lambda>forked.
      bindS (session_acquire pe now ft (sr_session_id forked) owner 10) (\<lambda>lease.
        finallyS (bindS (session_load (sr_session_id forked))
          (\<lambda>child. save now (inherited c source child) (sr_revision child) lease)) (session_release lease))) st1))"
    if w: "well_named st1" for st1 repo t p b c source
  proof (rule calm_bind [OF calm_create])
    fix x st2 assume "create ud rp now fid repo t p b wanted name src st1 = (Inr x, st2)"
    then have "unhurt st1 st2" by (metis calm_create snd_conv)
    from body [OF well_named_calm [OF w this]]
    show "unhurt st2 (snd (bindS (session_acquire pe now ft (sr_session_id x) owner 10) (\<lambda>lease.
        finallyS (bindS (session_load (sr_session_id x))
          (\<lambda>child. save now (inherited c source child) (sr_revision child) lease)) (session_release lease)) st2))" .
  qed
  have checked: "check_id src st = (Inr y, st') \<Longrightarrow> st' = st" for y st'
    by (auto simp: check_id_def retS_def raiseS_def split: if_splits)
  show ?thesis
    unfolding fork_def
  proof (rule calm_bind)
    fix y st' assume "check_id src st = (Inr y, st')"
    then have st': "st' = st" by (rule checked)
    show "unhurt st' (snd (bindS (session_load src) (\<lambda>source.
        if sr_revoked source then raiseS Revoked
        else case rp_resolve rp (sr_repository source) of
          None \<Rightarrow> raiseS OsFailure
        | Some repository \<Rightarrow>
            bindS (create ud rp now fid repository (case task of None \<Rightarrow> sr_task source | Some t \<Rightarrow> t)
              (sr_access_profile source) (sr_branch source) wanted name src) (\<lambda>forked.
            bindS (session_acquire pe now ft (sr_session_id forked) owner 10) (\<lambda>lease.
              finallyS (bindS (session_load (sr_session_id forked)) (\<lambda>child.
                save now (inherited (fork_context ud dumps source) source child) (sr_revision child) lease))
              (session_release lease)))) st'))"
      unfolding st'
    proof (rule calm_load)
      fix source
      show "unhurt st (snd ((if sr_revoked source then raiseS Revoked
        else case rp_resolve rp (sr_repository source) of
          None \<Rightarrow> raiseS OsFailure
        | Some repository \<Rightarrow>
            bindS (create ud rp now fid repository (case task of None \<Rightarrow> sr_task source | Some t \<Rightarrow> t)
              (sr_access_profile source) (sr_branch source) wanted name src) (\<lambda>forked.
            bindS (session_acquire pe now ft (sr_session_id forked) owner 10) (\<lambda>lease.
              finallyS (bindS (session_load (sr_session_id forked)) (\<lambda>child.
                save now (inherited (fork_context ud dumps source) source child) (sr_revision child) lease))
              (session_release lease)))) st))"
        by (cases "sr_revoked source"; cases "rp_resolve rp (sr_repository source)")
          (simp_all add: made [OF assms])
    qed
  qed simp
qed

section \<open>Clients and their copies\<close>

text \<open>
  The operations no client copy takes part in. A session that is deleted may be created again under its
  identifier and starts over; deletion is therefore not among them.
\<close>

text \<open>
  Deleting an archived session: unless the directory is removed nothing is lost, and if it is, every other
  session keeps its entries.
\<close>

lemma calm_delete:
  assumes "outcome \<noteq> Removed"
  shows "unhurt st (snd (delete_archived now outcome sid st))"
  unfolding delete_archived_def using assms
  by (cases outcome) (auto intro!: calm_lock calm_load calm_bind calm_update_at calm_ensure)

lemma delete_removed:
  obtains st1 where "unhurt st st1"
    "snd (delete_archived now Removed sid st) = st1 \<or> doc (snd (delete_archived now Removed sid st)) = (doc st1)(sid := None)"
proof -
  define lock where "lock = with_lock sid (bindS (ensure_no_active_lease now sid) (\<lambda>_. bindS (session_load sid) (\<lambda>r.
       if \<not> sr_archived r then raiseS NotArchived
       else metadata_update now (\<lambda>r. r\<lparr>sr_revoked := True, sr_status := lit ''deleted_pending''\<rparr>) sid r)))"
  have c: "unhurt st (snd (lock st))"
    unfolding lock_def by (auto intro!: calm_lock calm_load calm_bind calm_update_at calm_ensure)
  obtain x st1 where l: "lock st = (x, st1)" by (cases "lock st")
  have d: "delete_archived now Removed sid st = bindS lock (\<lambda>_. putS (\<lambda>st. st\<lparr>st_state := AList.delete sid (st_state st),
      st_lease := AList.delete sid (st_lease st)\<rparr>)) st"
    by (simp add: delete_archived_def lock_def)
  have "snd (delete_archived now Removed sid st) = st1 \<or> doc (snd (delete_archived now Removed sid st)) = (doc st1)(sid := None)"
    unfolding d by (cases x) (auto simp: bindS_def l putS_def doc_def map_of_AList_delete fun_eq_iff)
  with c l that [of st1] show thesis by simp
qed

datatype lifecycle_op =
    OpCreate unidata repo_view real pystr pystr pystr AccessProfile pystr "pystr option" pystr pystr
  | OpReactivate unidata repo_view real pystr pystr AccessProfile
  | OpRevoke real pystr
  | OpRename unidata real pystr pystr
  | OpArchive real pystr
  | OpUnarchive real pystr
  | OpAcquire process_view real pystr pystr pystr real
  | OpHeartbeat real MutationLease real
  | OpRelease MutationLease
  | OpContinue unidata process_view real pystr pystr pystr pystr
  | OpFork unidata "pyval \<Rightarrow> pystr" repo_view process_view real pystr pystr pystr pystr "pystr option" "pystr option" pystr

fun lifecycle_step :: "lifecycle_op \<Rightarrow> session_store \<Rightarrow> session_store" where
  "lifecycle_step (OpCreate ud rp now fresh repo task profile branch wanted name parent) st =
     snd (create ud rp now fresh repo task profile branch wanted name parent st)"
| "lifecycle_step (OpReactivate ud rp now sid repo profile) st = snd (reactivate ud rp now sid repo profile st)"
| "lifecycle_step (OpRevoke now sid) st = snd (revoke now sid st)"
| "lifecycle_step (OpRename ud now sid name) st = snd (rename ud now sid name st)"
| "lifecycle_step (OpArchive now sid) st = snd (archive now sid st)"
| "lifecycle_step (OpUnarchive now sid) st = snd (unarchive now sid st)"
| "lifecycle_step (OpAcquire pe now fresh sid owner ttl) st = snd (session_acquire pe now fresh sid owner ttl st)"
| "lifecycle_step (OpHeartbeat now l ttl) st = snd (session_heartbeat now l ttl st)"
| "lifecycle_step (OpRelease l) st = snd (session_release l st)"
| "lifecycle_step (OpContinue ud pe now fresh owner sid task) st = snd (continue_task ud pe now fresh owner sid task st)"
| "lifecycle_step (OpFork ud dumps rp pe now fid ft owner src wanted task name) st =
     snd (fork ud dumps rp pe now fid ft owner src wanted task name st)"

lemma calm_lifecycle: "well_named st \<Longrightarrow> unhurt st (lifecycle_step op st)"
  by (cases op) (simp_all only: lifecycle_step.simps calm_create calm_reactivate calm_revoke calm_rename calm_archive
      calm_acquire calm_heartbeat calm_release calm_continue calm_fork)

datatype idem_event =
    Started pystr pystr pystr
  | Completed pystr pystr pystr "(pystr, pyval) dict"
  | Replayed pystr pystr pystr "(pystr, pyval) dict"

type_synonym world = "session_store \<times> (nat \<Rightarrow> SessionRecord option) \<times> idem_event list"

text \<open>
  Any number of clients, each with its copy of a record: they session_load it, change what they like of it but its
  identity, revision and entries, and reserve, complete or save through the store, with any lease, at any
  time and in any order. At the start the store is any whose documents have no entries yet.
\<close>

inductive world_reachable :: "world \<Rightarrow> bool" where
  w_fresh: "well_named st \<Longrightarrow> (\<And>sid r. doc st sid = Some r \<Longrightarrow> sr_idempotency r = []) \<Longrightarrow>
    world_reachable (st, \<lambda>_. None, [])"
| w_lifecycle: "world_reachable (st, cs, evs) \<Longrightarrow> world_reachable (lifecycle_step op st, cs, evs)"
| w_read: "world_reachable (st, cs, evs) \<Longrightarrow> session_load sid st = (Inr r, st') \<Longrightarrow> world_reachable (st', cs(c := Some r), evs)"
| w_edit: "world_reachable (st, cs, evs) \<Longrightarrow> cs c = Some r \<Longrightarrow> sr_session_id r' = sr_session_id r \<Longrightarrow>
    sr_revision r' = sr_revision r \<Longrightarrow> sr_idempotency r' = sr_idempotency r \<Longrightarrow>
    world_reachable (st, cs(c := Some r'), evs)"
| w_write: "world_reachable (st, cs, evs) \<Longrightarrow> cs c = Some r \<Longrightarrow> save now r (sr_revision r) lease st = (Inr r', st') \<Longrightarrow>
    world_reachable (st', cs(c := Some r'), evs)"
| w_reserve: "world_reachable (st, cs, evs) \<Longrightarrow> cs c = Some r \<Longrightarrow>
    begin_idempotent now r lease key digest st = (Inr (None, r'), st') \<Longrightarrow>
    world_reachable (st', cs(c := Some r'), evs @ [Started (sr_session_id r) key digest])"
| w_replay: "world_reachable (st, cs, evs) \<Longrightarrow> cs c = Some r \<Longrightarrow>
    begin_idempotent now r lease key digest st = (Inr (Some res, r'), st') \<Longrightarrow>
    world_reachable (st', cs, evs @ [Replayed (sr_session_id r) key digest res])"
| w_complete: "world_reachable (st, cs, evs) \<Longrightarrow> cs c = Some r \<Longrightarrow>
    map_of (sr_idempotency r) key = Some (Pending digest t) \<Longrightarrow>
    complete_idempotent now r lease key res st = (Inr r', st') \<Longrightarrow>
    world_reachable (st', cs(c := Some r'), evs @ [Completed (sr_session_id r) key digest res])"

definition started_keys :: "idem_event list \<Rightarrow> (pystr \<times> pystr) list" where
  "started_keys evs = List.map_filter (\<lambda>e. case e of Started s k d \<Rightarrow> Some (s, k) | _ \<Rightarrow> None) evs"

lemma started_keys_simps [simp]:
  "started_keys [] = []"
  "started_keys (evs @ [Started s k d]) = started_keys evs @ [(s, k)]"
  "started_keys (evs @ [Completed s k d r]) = started_keys evs"
  "started_keys (evs @ [Replayed s k d r]) = started_keys evs"
  by (simp_all add: started_keys_def List.map_filter_def)

text \<open>What holds of every entry a record carries, and of every copy against the stored document.\<close>

definition entries_logged :: "idem_event list \<Rightarrow> SessionRecord \<Rightarrow> bool" where
  "entries_logged evs r \<longleftrightarrow> (\<forall>k e. map_of (sr_idempotency r) k = Some e \<longrightarrow>
     Started (sr_session_id r) k (ie_digest e) \<in> set evs \<and>
     (\<forall>d s c res. e = Complete d s c res \<longrightarrow> Completed (sr_session_id r) k d res \<in> set evs))"

definition copy_of :: "SessionRecord \<Rightarrow> SessionRecord \<Rightarrow> bool" where
  "copy_of r s \<longleftrightarrow> sr_session_id r = sr_session_id s \<and> sr_revision r \<le> sr_revision s \<and>
     idem_le (sr_idempotency r) (sr_idempotency s) \<and>
     (sr_revision r = sr_revision s \<longrightarrow> sr_idempotency r = sr_idempotency s)"

fun world_ok :: "world \<Rightarrow> bool" where
  "world_ok (st, cs, evs) \<longleftrightarrow> well_named st \<and>
     (\<forall>c r. cs c = Some r \<longrightarrow> (\<exists>s. doc st (sr_session_id r) = Some s \<and> copy_of r s)) \<and>
     (\<forall>sid s. doc st sid = Some s \<longrightarrow> entries_logged evs s) \<and>
     (\<forall>s k. (s, k) \<in> set (started_keys evs) \<longrightarrow> (\<exists>d. doc st s = Some d \<and> map_of (sr_idempotency d) k \<noteq> None)) \<and>
     distinct (started_keys evs)"

text \<open>The order of events: a replay follows the completion it repeats, a completion follows its start.\<close>

definition well_ordered :: "idem_event list \<Rightarrow> bool" where
  "well_ordered evs \<longleftrightarrow>
     (\<forall>pre post s k d r. evs = pre @ Replayed s k d r # post \<longrightarrow> Completed s k d r \<in> set pre) \<and>
     (\<forall>pre post s k d r. evs = pre @ Completed s k d r # post \<longrightarrow> Started s k d \<in> set pre)"

lemma world_okD:
  assumes "world_ok (st, cs, evs)"
  shows "well_named st" and "cs c = Some r \<Longrightarrow> \<exists>s. doc st (sr_session_id r) = Some s \<and> copy_of r s"
    and "doc st sid = Some s \<Longrightarrow> entries_logged evs s"
    and "(i, k) \<in> set (started_keys evs) \<Longrightarrow> \<exists>d. doc st i = Some d \<and> map_of (sr_idempotency d) k \<noteq> None"
    and "distinct (started_keys evs)"
  using assms by (simp_all only: world_ok.simps)

lemma world_okI:
  assumes "well_named st" "\<And>c r. cs c = Some r \<Longrightarrow> \<exists>s. doc st (sr_session_id r) = Some s \<and> copy_of r s"
    "\<And>sid s. doc st sid = Some s \<Longrightarrow> entries_logged evs s"
    "\<And>s k. (s, k) \<in> set (started_keys evs) \<Longrightarrow> \<exists>d. doc st s = Some d \<and> map_of (sr_idempotency d) k \<noteq> None"
    "distinct (started_keys evs)"
  shows "world_ok (st, cs, evs)"
  using assms by (simp only: world_ok.simps) blast

declare world_ok.simps [simp del]

lemma entries_logged_mono: "entries_logged evs r \<Longrightarrow> set evs \<subseteq> set evs' \<Longrightarrow> entries_logged evs' r"
  unfolding entries_logged_def by blast

lemma copy_of_refl [simp]: "copy_of r r"
  by (simp add: copy_of_def)

lemma copy_of_next:
  "copy_of x d \<Longrightarrow> sr_session_id s = sr_session_id d \<Longrightarrow> sr_revision d < sr_revision s \<Longrightarrow>
     idem_le (sr_idempotency d) (sr_idempotency s) \<Longrightarrow> copy_of x s"
  unfolding copy_of_def by (auto intro: idem_le_trans)

lemma world_calm:
  assumes ok: "world_ok (st, cs, evs)" and c: "unhurt st st'"
  shows "world_ok (st', cs, evs)"
proof -
  have copies: "\<exists>s. doc st' (sr_session_id r) = Some s \<and> copy_of r s" if "cs n = Some r" for n r
  proof -
    obtain d where d: "doc st (sr_session_id r) = Some d" "copy_of r d"
      using world_okD(2) [OF ok \<open>cs n = Some r\<close>] by blast
    from calm_Some [OF c d(1)] obtain s where s: "doc st' (sr_session_id r) = Some s"
      "sr_session_id s = sr_session_id d" "sr_idempotency s = sr_idempotency d"
      "s = d \<or> sr_revision d < sr_revision s" by blast
    have "copy_of r s"
      using s d(2) copy_of_next [of r d s] by auto
    with s(1) show ?thesis by blast
  qed
  have logged: "entries_logged evs s" if "doc st' sid = Some s" for sid s
  proof (cases "doc st sid")
    case None
    from calm_None [OF c None that] show ?thesis by (simp add: entries_logged_def)
  next
    case (Some d)
    with world_okD(3) [OF ok] have "entries_logged evs d" by blast
    with calm_Some [OF c Some] that show ?thesis by (auto simp: entries_logged_def)
  qed
  have keys: "\<exists>d. doc st' s = Some d \<and> map_of (sr_idempotency d) k \<noteq> None"
    if sk: "(s, k) \<in> set (started_keys evs)" for s k
  proof -
    obtain d where d: "doc st s = Some d" "map_of (sr_idempotency d) k \<noteq> None"
      using world_okD(4) [OF ok sk] by blast
    from calm_Some [OF c d(1)] d(2) show ?thesis by auto
  qed
  show ?thesis
    by (rule world_okI [OF well_named_calm [OF world_okD(1) [OF ok] c] copies logged keys world_okD(5) [OF ok]])
qed

lemma world_save:
  assumes ok: "world_ok (st, cs, evs)" and r: "cs n = Some r"
    and sid: "sr_session_id r' = sr_session_id r" and le: "idem_le (sr_idempotency r) (sr_idempotency r')"
    and sv: "save now r' (sr_revision r) lease st = (Inr s, st')"
    and logged: "entries_logged evs' s" and sub: "set evs \<subseteq> set evs'"
    and keys: "started_keys evs' = started_keys evs \<or> (\<exists>k. started_keys evs' = started_keys evs @ [(sr_session_id r, k)]
      \<and> map_of (sr_idempotency r) k = None \<and> map_of (sr_idempotency s) k \<noteq> None)"
  shows "world_ok (st', cs(n := Some s), evs')"
proof -
  obtain d where d: "doc st (sr_session_id r) = Some d" "sr_revision d = sr_revision r"
    and s: "s = r'\<lparr>sr_revision := sr_revision r + 1, sr_updated_at := now\<rparr>"
    and st': "st' = st\<lparr>st_state := AList.update (sr_session_id r) (Doc s) (st_state st)\<rparr>"
    using save_Inr [OF sv] sid by auto
  have cd: "copy_of r d" using world_okD(2) [OF ok r] d(1) by auto
  then have eq: "sr_idempotency r = sr_idempotency d" using d(2) by (simp add: copy_of_def)
  have sf: "sr_session_id s = sr_session_id d" "sr_revision d < sr_revision s"
    "idem_le (sr_idempotency d) (sr_idempotency s)"
    using s sid le d(2) eq cd by (simp_all add: copy_of_def)
  have sidd: "sr_session_id d = sr_session_id r" using cd by (simp add: copy_of_def)
  have copies: "\<exists>y. doc st' (sr_session_id x) = Some y \<and> copy_of x y" if x: "(cs(n := Some s)) m = Some x" for m x
  proof (cases "m = n")
    case True
    with x sf(1) sidd show ?thesis by (simp add: st')
  next
    case False
    with x world_okD(2) [OF ok] obtain y where y: "doc st (sr_session_id x) = Some y" "copy_of x y" by fastforce
    show ?thesis
    proof (cases "sr_session_id x = sr_session_id r")
      case True
      with y d(1) have "y = d" by simp
      with y(2) copy_of_next [OF _ sf] True show ?thesis by (simp add: st')
    qed (use y in \<open>simp add: st'\<close>)
  qed
  have wn: "well_named st'" using world_okD(1) [OF ok] sf(1) sidd by (auto simp: st' well_named_def)
  have lg: "entries_logged evs' y" if "doc st' i = Some y" for i y
    using that world_okD(3) [OF ok] logged entries_logged_mono [OF _ sub] by (auto simp: st' split: if_splits)
  have old: "\<exists>y. doc st' i = Some y \<and> map_of (sr_idempotency y) k \<noteq> None"
    if ik: "(i, k) \<in> set (started_keys evs)" for i k
  proof -
    obtain y where y: "doc st i = Some y" "map_of (sr_idempotency y) k \<noteq> None"
      using world_okD(4) [OF ok ik] by blast
    show ?thesis
    proof (cases "i = sr_session_id r")
      case True
      with y d(1) have "map_of (sr_idempotency d) k \<noteq> None" by simp
      with sf(3) True show ?thesis by (auto simp: st' idem_le_def)
    qed (use y in \<open>simp add: st'\<close>)
  qed
  have new: "distinct (started_keys evs') \<and> (\<forall>i k. (i, k) \<in> set (started_keys evs') \<longrightarrow>
      (\<exists>y. doc st' i = Some y \<and> map_of (sr_idempotency y) k \<noteq> None))"
    using keys
  proof
    assume "started_keys evs' = started_keys evs"
    with old world_okD(5) [OF ok] show ?thesis by simp
  next
    assume "\<exists>k. started_keys evs' = started_keys evs @ [(sr_session_id r, k)]
      \<and> map_of (sr_idempotency r) k = None \<and> map_of (sr_idempotency s) k \<noteq> None"
    then obtain k where k: "started_keys evs' = started_keys evs @ [(sr_session_id r, k)]"
      "map_of (sr_idempotency r) k = None" "map_of (sr_idempotency s) k \<noteq> None" by blast
    have "(sr_session_id r, k) \<notin> set (started_keys evs)"
      using world_okD(4) [OF ok, of "sr_session_id r" k] d(1) eq k(2) by auto
    moreover have "doc st' (sr_session_id r) = Some s" by (simp add: st')
    ultimately show ?thesis using old world_okD(5) [OF ok] k by auto
  qed
  show ?thesis by (rule world_okI [OF wn copies lg]) (use new in blast)+
qed

lemma begin_started:
  assumes "begin_idempotent now r lease key digest st = (Inr (None, r'), st')"
  shows "map_of (sr_idempotency r) key = None \<and>
    save now (r\<lparr>sr_idempotency := AList.update key (Pending digest now) (sr_idempotency r)\<rparr>) (sr_revision r) lease st
      = (Inr r', st')"
  using assms
  by (auto simp: begin_idempotent_def bindS_Inr retS_def raiseS_def split: if_splits option.splits idem_entry.splits)

lemma begin_replayed:
  assumes "begin_idempotent now r lease key digest st = (Inr (Some res, r'), st')"
  shows "\<exists>s c. map_of (sr_idempotency r) key = Some (Complete digest s c res) \<and> r' = r \<and> st' = st"
  using assms
  by (auto simp: begin_idempotent_def bindS_Inr retS_def raiseS_def split: if_splits option.splits idem_entry.splits)

lemma world_reachable_ok: "world_reachable w \<Longrightarrow> world_ok w"
proof (induction rule: world_reachable.induct)
  case (w_fresh st)
  then show ?case by (intro world_okI) (auto simp: entries_logged_def)
next
  case (w_lifecycle st cs evs op)
  show ?case by (rule world_calm [OF w_lifecycle.IH calm_lifecycle [OF world_okD(1) [OF w_lifecycle.IH]]])
next
  case (w_read st cs evs sid r st' c)
  note D = world_okD [OF w_read.IH]
  from w_read have r: "doc st sid = Some r" "st' = st" by (simp_all add: load_Inr)
  then have "sr_session_id r = sid" using D(1) by (simp add: well_named_def)
  with r show ?case
    by (intro world_okI) (use D in \<open>auto split: if_splits\<close>)
next
  case (w_edit st cs evs c r r')
  note D = world_okD [OF w_edit.IH]
  have "\<exists>s. doc st (sr_session_id r') = Some s \<and> copy_of r' s"
    using D(2) [OF w_edit(2)] w_edit(3-5) by (auto simp: copy_of_def)
  then show ?case by (intro world_okI) (use D in \<open>auto split: if_splits\<close>)
next
  case (w_write st cs evs c r now lease r' st')
  from w_write have lg: "entries_logged evs r'"
  proof -
    obtain d where d: "doc st (sr_session_id r) = Some d" "sr_revision d = sr_revision r"
      and r': "r' = r\<lparr>sr_revision := sr_revision r + 1, sr_updated_at := now\<rparr>"
      using save_Inr [OF w_write(3)] by auto
    have "copy_of r d" "entries_logged evs d"
      using world_okD(2) [OF w_write.IH w_write(2)] world_okD(3) [OF w_write.IH] d(1) by auto
    then show ?thesis using d(2) r' by (simp add: copy_of_def entries_logged_def)
  qed
  from world_save [OF w_write.IH w_write(2) _ _ w_write(3) lg] show ?case by simp
next
  case (w_reserve st cs evs c r now lease key digest r' st')
  note b = begin_started [OF w_reserve(3)]
  obtain d where d: "doc st (sr_session_id r) = Some d" "sr_revision d = sr_revision r"
    and r': "r' = r\<lparr>sr_idempotency := AList.update key (Pending digest now) (sr_idempotency r),
      sr_revision := sr_revision r + 1, sr_updated_at := now\<rparr>"
    using save_Inr [OF conjunct2 [OF b]] by auto
  have "copy_of r d" "entries_logged evs d"
    using world_okD(2) [OF w_reserve.IH w_reserve(2)] world_okD(3) [OF w_reserve.IH] d(1) by auto
  then have lg: "entries_logged (evs @ [Started (sr_session_id r) key digest]) r'"
    using d(2) r' by (auto simp: copy_of_def entries_logged_def map_of_AList_update)
  have le: "idem_le (sr_idempotency r) (sr_idempotency (r\<lparr>sr_idempotency := AList.update key (Pending digest now) (sr_idempotency r)\<rparr>))"
    using b by (auto simp: idem_le_def map_of_AList_update)
  show ?case
    by (rule world_save [OF w_reserve.IH w_reserve(2) _ le conjunct2 [OF b] lg])
       (use b r' in \<open>auto simp: map_of_AList_update\<close>)
next
  case (w_replay st cs evs c r now lease key digest res r' st')
  then have "st' = st" using begin_replayed by blast
  have mono: "entries_logged evs s \<Longrightarrow> entries_logged (evs @ [e]) s" for s e
    by (rule entries_logged_mono) auto
  show ?case
    unfolding \<open>st' = st\<close>
    by (intro world_okI) (use world_okD [OF w_replay.IH] mono in simp_all)
next
  case (w_complete st cs evs c r key digest t now lease res r' st')
  have sv: "save now (r\<lparr>sr_idempotency := AList.update key (Complete digest t now res) (sr_idempotency r)\<rparr>)
      (sr_revision r) lease st = (Inr r', st')"
    using w_complete(3,4) by (simp add: complete_idempotent_def)
  obtain d where d: "doc st (sr_session_id r) = Some d" "sr_revision d = sr_revision r"
    and r': "r' = r\<lparr>sr_idempotency := AList.update key (Complete digest t now res) (sr_idempotency r),
      sr_revision := sr_revision r + 1, sr_updated_at := now\<rparr>"
    using save_Inr [OF sv] by auto
  have c: "copy_of r d" "entries_logged evs d"
    using world_okD(2) [OF w_complete.IH w_complete(2)] world_okD(3) [OF w_complete.IH] d(1) by auto
  then have eqs: "sr_session_id d = sr_session_id r" "sr_idempotency d = sr_idempotency r"
    using d(2) by (simp_all add: copy_of_def)
  with c(2) w_complete(3) have "Started (sr_session_id r) key digest \<in> set evs"
    by (fastforce simp: entries_logged_def)
  with c(2) eqs r' have lg: "entries_logged (evs @ [Completed (sr_session_id r) key digest res]) r'"
    by (auto simp: entries_logged_def map_of_AList_update)
  have le: "idem_le (sr_idempotency r) (sr_idempotency (r\<lparr>sr_idempotency := AList.update key (Complete digest t now res) (sr_idempotency r)\<rparr>))"
    using w_complete(3) by (auto simp: idem_le_def map_of_AList_update entry_le_def)
  show ?case by (rule world_save [OF w_complete.IH w_complete(2) _ le sv lg]) auto
qed

lemma entry_complete:
  "idem_le m m' \<Longrightarrow> map_of m k = Some (Complete d s c res) \<Longrightarrow> map_of m' k = Some (Complete d s c res)"
  by (fastforce simp: idem_le_def entry_le_def)

lemma well_ordered_append:
  assumes "well_ordered evs"
    and "\<And>s k d r. e = Replayed s k d r \<Longrightarrow> Completed s k d r \<in> set evs"
    and "\<And>s k d r. e = Completed s k d r \<Longrightarrow> Started s k d \<in> set evs"
  shows "well_ordered (evs @ [e])"
proof -
  have split: "(evs @ [e] = pre @ x # post) \<longleftrightarrow>
      (post = [] \<and> pre = evs \<and> x = e) \<or> (\<exists>post'. post = post' @ [e] \<and> evs = pre @ x # post')" for pre x post
    by (cases post rule: rev_cases) auto
  show ?thesis
    using assms unfolding well_ordered_def split by blast
qed

lemma world_well_ordered: "world_reachable w \<Longrightarrow> well_ordered (snd (snd w))"
proof (induction rule: world_reachable.induct)
  case (w_fresh st)
  show ?case by (simp add: well_ordered_def)
next
  case (w_lifecycle st cs evs op)
  then show ?case by (simp only: snd_conv)
next
  case (w_read st cs evs sid r st' c)
  then show ?case by (simp only: snd_conv)
next
  case (w_edit st cs evs c r r')
  then show ?case by (simp only: snd_conv)
next
  case (w_write st cs evs c r now lease r' st')
  then show ?case by (simp only: snd_conv)
next
  case (w_reserve st cs evs c r now lease key digest r' st')
  have "well_ordered (evs @ [Started (sr_session_id r) key digest])"
    by (rule well_ordered_append) (use w_reserve.IH in auto)
  then show ?case by (simp only: snd_conv)
next
  case (w_replay st cs evs c r now lease key digest res r' st')
  have ok: "world_ok (st, cs, evs)" using world_reachable_ok [OF w_replay(1)] .
  obtain t u where e: "map_of (sr_idempotency r) key = Some (Complete digest t u res)"
    using begin_replayed [OF w_replay(3)] by blast
  obtain d where d: "doc st (sr_session_id r) = Some d" "copy_of r d" using world_okD(2) [OF ok w_replay(2)] by blast
  then have "idem_le (sr_idempotency r) (sr_idempotency d)" "sr_session_id d = sr_session_id r"
    by (simp_all add: copy_of_def)
  then have "Completed (sr_session_id r) key digest res \<in> set evs"
    using world_okD(3) [OF ok d(1)] entry_complete [OF _ e] unfolding entries_logged_def by metis
  then have "well_ordered (evs @ [Replayed (sr_session_id r) key digest res])"
    by (intro well_ordered_append) (use w_replay.IH in auto)
  then show ?case by (simp only: snd_conv)
next
  case (w_complete st cs evs c r key digest t now lease res r' st')
  have ok: "world_ok (st, cs, evs)" using world_reachable_ok [OF w_complete(1)] .
  have sv: "save now (r\<lparr>sr_idempotency := AList.update key (Complete digest t now res) (sr_idempotency r)\<rparr>)
      (sr_revision r) lease st = (Inr r', st')"
    using w_complete(3,4) by (simp add: complete_idempotent_def)
  obtain d where d: "doc st (sr_session_id r) = Some d" "sr_revision d = sr_revision r"
    using save_Inr [OF sv] by auto
  have "copy_of r d" using world_okD(2) [OF ok w_complete(2)] d(1) by auto
  then have "sr_idempotency d = sr_idempotency r" "sr_session_id d = sr_session_id r"
    using d(2) by (simp_all add: copy_of_def)
  with world_okD(3) [OF ok d(1)] w_complete(3) have "Started (sr_session_id r) key digest \<in> set evs"
    unfolding entries_logged_def by (metis idem_entry.sel(1))
  then have "well_ordered (evs @ [Completed (sr_session_id r) key digest res])"
    by (intro well_ordered_append) (use w_complete.IH in auto)
  then show ?case by (simp only: snd_conv)
qed

section \<open>Leases\<close>

definition lease_holder :: "pystr \<Rightarrow> session_store \<Rightarrow> pystr option" where
  "lease_holder sid st = (case lease_of st sid of Some (Doc l) \<Rightarrow> Some (ml_fencing_token l) | _ \<Rightarrow> None)"

datatype session_lease_op =
    LAcquire process_view real pystr pystr pystr real
  | LHeartbeat real MutationLease real
  | LRelease MutationLease
  | LSave real SessionRecord int MutationLease
  | LRevoke real pystr
  | LArchive real pystr

fun session_lease_step :: "session_lease_op \<Rightarrow> session_store \<Rightarrow> session_store" where
  "session_lease_step (LAcquire pe now fresh sid owner ttl) st = snd (session_acquire pe now fresh sid owner ttl st)"
| "session_lease_step (LHeartbeat now l ttl) st = snd (session_heartbeat now l ttl st)"
| "session_lease_step (LRelease l) st = snd (session_release l st)"
| "session_lease_step (LSave now r er l) st = snd (save now r er l st)"
| "session_lease_step (LRevoke now sid) st = snd (revoke now sid st)"
| "session_lease_step (LArchive now sid) st = snd (archive now sid st)"

text \<open>The operations that may end a holding: each names its cause.\<close>

fun ends_session_lease :: "pystr \<Rightarrow> session_lease_op \<Rightarrow> session_store \<Rightarrow> pystr \<Rightarrow> bool" where
  "ends_session_lease sid (LAcquire pe now fresh sid' owner ttl) st h \<longleftrightarrow> sid' = sid \<and>
     (\<exists>l. lease_of st sid = Some (Doc l) \<and> (ml_expires_at l < now \<or> owner_provably_dead pe l))"
| "ends_session_lease sid (LHeartbeat now l ttl) st h \<longleftrightarrow> False"
| "ends_session_lease sid (LRelease l) st h \<longleftrightarrow> ml_session_id l = sid \<and> ml_fencing_token l = h"
| "ends_session_lease sid (LSave now r er l) st h \<longleftrightarrow> False"
| "ends_session_lease sid (LRevoke now sid') st h \<longleftrightarrow> sid' = sid"
| "ends_session_lease sid (LArchive now sid') st h \<longleftrightarrow> sid' = sid \<and>
     (\<exists>l. lease_of st sid = Some (Doc l) \<and> ml_expires_at l < now)"

lemma lease_write [simp]:
  "lease_of (st\<lparr>st_lease := AList.update sid x (st_lease st)\<rparr>) i = (if i = sid then Some x else lease_of st i)"
  "lease_of (st\<lparr>st_lease := AList.delete sid (st_lease st)\<rparr>) i = (if i = sid then None else lease_of st i)"
  by (simp_all add: lease_of_def map_of_AList_update map_of_AList_delete)

text \<open>Steps that leave the lease of one session alone, composed as the operations are.\<close>

definition same_lease :: "pystr \<Rightarrow> session_store \<Rightarrow> session_store \<Rightarrow> bool" where
  "same_lease i st st' \<longleftrightarrow> lease_of st' i = lease_of st i"

lemma same_refl [simp]: "same_lease i st st"
  by (simp add: same_lease_def)

lemma same_bind:
  "same_lease i st (snd (m st)) \<Longrightarrow> (\<And>x st'. m st = (Inr x, st') \<Longrightarrow> same_lease i st' (snd (k x st'))) \<Longrightarrow>
     same_lease i st (snd (bindS m k st))"
  by (cases "m st") (auto simp: bindS_def same_lease_def split: sum.split)

lemma same_load:
  "(\<And>r. doc st sid = Some r \<Longrightarrow> same_lease i st (snd (k r st))) \<Longrightarrow> same_lease i st (snd (bindS (session_load sid) k st))"
  by (rule same_bind) (auto simp: load_Inr same_lease_def)

lemma same_lock:
  "(\<And>st1. st1 = st\<lparr>st_locked := sid # st_locked st\<rparr> \<Longrightarrow> same_lease i st1 (snd (b st1))) \<Longrightarrow>
     same_lease i st (snd (with_lock sid b st))"
  by (simp add: with_lock_def same_lease_def split: prod.split) (metis snd_conv)

lemma same_get: "same_lease i st (snd (k (f st) st)) \<Longrightarrow> same_lease i st (snd (bindS (getS f) k st))"
  by (simp add: bindS_def getS_def)

lemma same_pure [simp]:
  "same_lease i st (snd (retS x st))" "same_lease i st (snd (raiseS e st))" "same_lease i st (snd (session_load s st))"
  "same_lease i st (snd (validate_lease_unlocked now l st))" "same_lease i st (snd (write_state s r st))"
  "same_lease i st (snd (metadata_update now f s r st))"
  by (simp_all add: same_lease_def retS_def raiseS_def write_state_def putS_def metadata_update_def bindS_def Let_def)

lemma same_writes:
  "i \<noteq> s \<Longrightarrow> same_lease i st (snd (write_lease s l st))" "i \<noteq> s \<Longrightarrow> same_lease i st (snd (drop_lease s st))"
  by (simp_all add: same_lease_def write_lease_def drop_lease_def putS_def)

lemma acquire_keeps:
  assumes "i = sid \<Longrightarrow> \<exists>l. lease_of st sid = Some (Doc l) \<and> \<not> (ml_expires_at l < now \<or> owner_provably_dead pe l)"
  shows "same_lease i st (snd (session_acquire pe now fresh sid owner ttl st))"
proof -
  have "same_lease i st1 (snd (bindS (session_load sid) (\<lambda>r.
        if sr_revoked r then raiseS Revoked
        else if sr_archived r then raiseS Archived
        else let lease = g r; grant = bindS (write_lease sid lease) (\<lambda>_. retS lease)
          in bindS (getS (\<lambda>st. lease_of st sid)) (\<lambda>current.
               case current of
                 None \<Rightarrow> grant
               | Some Broken \<Rightarrow> raiseS SessionUnreadable
               | Some (Doc l) \<Rightarrow>
                   if ml_expires_at l \<ge> now \<and> \<not> owner_provably_dead pe l
                   then raiseS (SessionBusy ''locked by another owner'')
                   else grant)) st1))" if st1: "st1 = st\<lparr>st_locked := sid # st_locked st\<rparr>" for st1 g
  proof (rule same_load)
    fix r
    have grant: "i \<noteq> sid \<Longrightarrow> same_lease i st1 (snd (bindS (write_lease sid l) (\<lambda>_. retS l) st1))" for l
      by (rule same_bind) (simp_all add: same_writes)
    have eq: "lease_of st1 sid = lease_of st sid" by (simp add: st1)
    show "same_lease i st1 (snd ((if sr_revoked r then raiseS Revoked
        else if sr_archived r then raiseS Archived
        else let lease = g r; grant = bindS (write_lease sid lease) (\<lambda>_. retS lease)
          in bindS (getS (\<lambda>st. lease_of st sid)) (\<lambda>current.
               case current of
                 None \<Rightarrow> grant
               | Some Broken \<Rightarrow> raiseS SessionUnreadable
               | Some (Doc l) \<Rightarrow>
                   if ml_expires_at l \<ge> now \<and> \<not> owner_provably_dead pe l
                   then raiseS (SessionBusy ''locked by another owner'')
                   else grant)) st1))"
      using grant assms
      by (cases "i = sid") (auto simp: Let_def eq intro!: same_get split: option.split document.split)
  qed
  then show ?thesis
    unfolding session_acquire_def by (cases "ttl < 5 \<or> ttl > 3600") (auto intro!: same_lock)
qed

lemma heartbeat_keeps:
  "lease_holder i st = Some h \<Longrightarrow> lease_holder i (snd (session_heartbeat now l ttl st)) = Some h"
  by (auto simp: session_heartbeat_def with_lock_def bindS_def retS_def raiseS_def validate_lease_unlocked_def session_load_def
      write_lease_def putS_def lease_holder_def Let_def
      split: option.splits document.splits prod.splits sum.splits if_splits)

lemma release_keeps:
  assumes "lease_holder i st = Some h" and "\<not> (ml_session_id l = i \<and> ml_fencing_token l = h)"
  shows "same_lease i st (snd (session_release l st))"
  unfolding session_release_def
  by (rule same_lock, rule same_get)
    (use assms in \<open>auto simp: lease_holder_def intro!: same_writes split: option.splits document.splits\<close>)

lemma save_keeps: "same_lease i st (snd (save now r er l st))"
  unfolding save_def by (auto simp: Let_def intro!: same_lock same_bind)

lemma revoke_keeps: "i \<noteq> sid \<Longrightarrow> same_lease i st (snd (revoke now sid st))"
  unfolding revoke_def by (auto intro!: same_lock same_load same_bind same_writes)

lemma archive_keeps:
  assumes "lease_holder i st = Some h"
    and "\<not> (sid = i \<and> (\<exists>l. lease_of st i = Some (Doc l) \<and> ml_expires_at l < now))"
  shows "same_lease i st (snd (archive now sid st))"
  unfolding archive_def ensure_no_active_lease_def
  by (rule same_lock, rule same_bind, rule same_get)
    (use assms in \<open>auto simp: lease_holder_def intro!: same_writes same_load split: option.splits document.splits\<close>)

interpretation session_lease: exclusive_lease session_lease_step "lease_holder i" "ends_session_lease i" for i
proof
  fix s h op
  assume hold: "lease_holder i s = Some h" and no: "\<not> ends_session_lease i op s h"
  have keep: "same_lease i s s' \<Longrightarrow> lease_holder i s' = Some h" for s'
    using hold by (simp add: same_lease_def lease_holder_def)
  obtain l where l: "lease_of s i = Some (Doc l)" using hold by (auto simp: lease_holder_def split: option.splits document.splits)
  show "lease_holder i (session_lease_step op s) = Some h"
  proof (cases op)
    case (LAcquire pe now fresh sid owner ttl)
    with no l show ?thesis by (auto intro!: keep acquire_keeps)
  next
    case (LRelease x)
    with no hold show ?thesis by (auto intro!: keep release_keeps)
  next
    case (LArchive now sid)
    with no hold show ?thesis by (auto intro!: keep archive_keeps)
  qed (use no hold in \<open>auto intro!: keep save_keeps revoke_keeps simp: heartbeat_keeps\<close>)
qed

text \<open>A document of an unreadable lease is only removed by archiving, deleting or revoking: no acquisition succeeds.\<close>

lemma unreadable_lease_blocks:
  "lease_of st sid = Some Broken \<Longrightarrow> fst (session_acquire pe now fresh sid owner ttl st) \<noteq> Inr l \<and>
     lease_of (snd (session_acquire pe now fresh sid owner ttl st)) sid = Some Broken"
  by (auto simp: session_acquire_def with_lock_def bindS_def retS_def raiseS_def getS_def session_load_def Let_def
      split: option.splits document.splits prod.splits sum.splits if_splits)

text \<open>Reactivating a session that does not exist takes the state lock it already holds.\<close>

lemma reactivating_a_missing_session_hangs:
  "valid_id sid \<Longrightarrow> sid \<notin> set (st_locked st) \<Longrightarrow> map_of (st_state st) sid = None \<Longrightarrow>
     rp_resolve rp repo = Some p \<Longrightarrow> rp_resolve rp p = Some p \<Longrightarrow> rp_is_dir rp p \<Longrightarrow>
     length (py_strip (join_with [32] (split_ws [] (redacted ud [])))) \<le> 120 \<Longrightarrow>
     fst (reactivate ud rp now sid repo profile st) = Inl Deadlock"
  by (auto simp: reactivate_def create_def check_id_def resolve_dir_def with_lock_def clean_session_name_def
      bindS_def retS_def raiseS_def getS_def Let_def py_strip_def strip_by_def lit_def py_space_def valid_id_def)

section \<open>A sample session\<close>

definition demo_ud :: unidata where
  "demo_ud = \<lparr>ud_word = (\<lambda>c. 97 \<le> c), ud_casefold = (\<lambda>c. [c]), ud_lower = id, ud_upper = id\<rparr>"

definition demo_repo :: repo_view where
  "demo_repo = \<lparr>rp_resolve = Some, rp_is_dir = (\<lambda>_. True), rp_fingerprint = id, rp_normcase = id\<rparr>"

definition demo_process :: process_view where
  "demo_process = \<lparr>pe_hostname = lit ''h'', pe_pid = 7, pe_kill = (\<lambda>_. Delivered)\<rparr>"

definition demo_session :: SessionRecord where
  "demo_session = new_session (lit ''s'') (lit ''r'') (lit ''r'') [] WORKSPACE_WRITE (redacted demo_ud (lit ''t'')) 0 [] []"

definition session_lease_0 :: MutationLease where
  "session_lease_0 = \<lparr>ml_session_id = lit ''s'', ml_session_revision = 0, ml_owner = lit ''o'',
     ml_fencing_token = lit ''f'', ml_pid = 7, ml_hostname = lit ''h'', ml_acquired_at = 1, ml_expires_at = 31\<rparr>"

definition demo_sessions :: session_store where
  "demo_sessions = \<lparr>st_state = [(lit ''s'', Doc demo_session)], st_lease = [(lit ''s'', Doc session_lease_0)],
     st_locked = []\<rparr>"

lemma demo_id [simp]: "valid_id (lit ''s'')"
  by (simp add: valid_id_def session_id_char_def lit_def)

lemma demo_session_fields [simp]:
  "sr_session_id demo_session = lit ''s''" "sr_revision demo_session = 0" "sr_idempotency demo_session = []"
  "sr_revoked demo_session = False" "sr_archived demo_session = False"
  by (simp_all add: demo_session_def new_session_def)

lemma demo_acquired:
  "lifecycle_step (OpAcquire demo_process 1 (lit ''f'') (lit ''s'') (lit ''o'') 30)
     \<lparr>st_state = [(lit ''s'', Doc demo_session)], st_lease = [], st_locked = []\<rparr> = demo_sessions"
  by (simp add: session_acquire_def with_lock_def bindS_def retS_def getS_def putS_def write_lease_def session_load_def lease_of_def
      Let_def demo_process_def demo_sessions_def session_lease_0_def)

text \<open>A save under that lease, written as the record it stores.\<close>

definition demo_stored :: "SessionRecord \<Rightarrow> session_store" where
  "demo_stored r = demo_sessions\<lparr>st_state := [(lit ''s'', Doc r)]\<rparr>"

lemma stored_demo: "demo_sessions = demo_stored demo_session"
  by (simp add: demo_stored_def demo_sessions_def)

lemma demo_save:
  "sr_session_id r = lit ''s'' \<Longrightarrow> sr_revision c = sr_revision r \<Longrightarrow>
     save 2 r (sr_revision r) session_lease_0 (demo_stored c) =
       (Inr (r\<lparr>sr_revision := sr_revision r + 1, sr_updated_at := 2\<rparr>),
        demo_stored (r\<lparr>sr_revision := sr_revision r + 1, sr_updated_at := 2\<rparr>))"
  by (simp add: save_def with_lock_def bindS_def retS_def raiseS_def putS_def write_state_def session_load_def lease_of_def
      validate_lease_unlocked_def demo_stored_def demo_sessions_def session_lease_0_def Let_def)

definition demo_reserved :: SessionRecord where
  "demo_reserved = demo_session\<lparr>sr_idempotency := [(lit ''k'', Pending (lit ''d'') 2)], sr_revision := 1, sr_updated_at := 2\<rparr>"

definition demo_result :: "(pystr, pyval) dict" where
  "demo_result = [(lit ''ok'', PBool True)]"

definition demo_completed :: SessionRecord where
  "demo_completed = demo_reserved\<lparr>sr_idempotency := [(lit ''k'', Complete (lit ''d'') 2 2 demo_result)], sr_revision := 2\<rparr>"

lemma demo_begin:
  "begin_idempotent 2 demo_session session_lease_0 (lit ''k'') (lit ''d'') demo_sessions =
     (Inr (None, demo_reserved), demo_stored demo_reserved)"
  using demo_save [of "demo_session\<lparr>sr_idempotency := [(lit ''k'', Pending (lit ''d'') 2)]\<rparr>" demo_session]
  by (simp add: begin_idempotent_def stored_demo bindS_def retS_def demo_reserved_def)

lemma demo_complete:
  "complete_idempotent 2 demo_reserved session_lease_0 (lit ''k'') demo_result (demo_stored demo_reserved) =
     (Inr demo_completed, demo_stored demo_completed)"
proof -
  have f: "sr_session_id demo_reserved = lit ''s''" "sr_revision demo_reserved = 1" "sr_updated_at demo_reserved = 2"
    "sr_idempotency demo_reserved = [(lit ''k'', Pending (lit ''d'') 2)]"
    by (simp_all add: demo_reserved_def)
  have eq: "demo_reserved\<lparr>sr_idempotency := x, sr_revision := 2, sr_updated_at := 2\<rparr> =
      demo_reserved\<lparr>sr_idempotency := x, sr_revision := 2\<rparr>" for x
    by (cases demo_session) (simp add: demo_reserved_def)
  show ?thesis
    using demo_save [of "demo_reserved\<lparr>sr_idempotency := [(lit ''k'', Complete (lit ''d'') 2 2 demo_result)]\<rparr>" demo_reserved]
    by (simp add: complete_idempotent_def demo_completed_def f eq)
qed

lemma demo_replay:
  "begin_idempotent 3 demo_completed session_lease_0 (lit ''k'') (lit ''d'') (demo_stored demo_completed) =
     (Inr (Some demo_result, demo_completed), demo_stored demo_completed)"
  by (simp add: begin_idempotent_def retS_def demo_completed_def)

lemma demo_world:
  "\<exists>cs. world_reachable (demo_stored demo_completed, cs,
     [Started (lit ''s'') (lit ''k'') (lit ''d''), Completed (lit ''s'') (lit ''k'') (lit ''d'') demo_result,
      Replayed (lit ''s'') (lit ''k'') (lit ''d'') demo_result])"
proof -
  let ?c0 = "(\<lambda>_. None)(0 := Some demo_session)"
  let ?st = "\<lparr>st_state = [(lit ''s'', Doc demo_session)], st_lease = [], st_locked = []\<rparr>"
  have d: "doc ?st = [lit ''s'' \<mapsto> demo_session]" by (simp add: doc_def fun_eq_iff)
  have "world_reachable (?st, \<lambda>_. None, [])"
    by (rule w_fresh) (auto simp: well_named_def d split: if_splits)
  from w_lifecycle [OF this] have w2: "world_reachable (demo_sessions, \<lambda>_. None, [])"
    unfolding demo_acquired [symmetric] .
  have "session_load (lit ''s'') demo_sessions = (Inr demo_session, demo_sessions)"
    by (simp add: session_load_def demo_sessions_def)
  from w_read [OF w2 this, of 0] have w3: "world_reachable (demo_sessions, ?c0, [])" .
  from w_reserve [OF w3 _ demo_begin, of 0]
  have w4: "world_reachable (demo_stored demo_reserved, ?c0(0 := Some demo_reserved), [Started (lit ''s'') (lit ''k'') (lit ''d'')])"
    by simp
  have p: "map_of (sr_idempotency demo_reserved) (lit ''k'') = Some (Pending (lit ''d'') 2)"
    by (simp add: demo_reserved_def)
  have sid: "sr_session_id demo_reserved = lit ''s''" "sr_session_id demo_completed = lit ''s''"
    by (simp_all add: demo_reserved_def demo_completed_def)
  from w_complete [OF w4 _ p demo_complete, of 0] sid
  have w5: "world_reachable (demo_stored demo_completed, ?c0(0 := Some demo_reserved, 0 := Some demo_completed),
      [Started (lit ''s'') (lit ''k'') (lit ''d''), Completed (lit ''s'') (lit ''k'') (lit ''d'') demo_result])"
    by simp
  from w_replay [OF w5 _ demo_replay, of 0] sid show ?thesis by auto
qed

section \<open>Properties\<close>



text \<open>
  A session document is overwritten only by a client that holds the current lease before its expiry and
  whose record has the revision of the stored document; every other attempt changes nothing.
\<close>
theorem saves_are_fenced:
  assumes "save now r er lease st = (res, st')" and "st' \<noteq> st"
  shows "(\<exists>c. lease_of st (sr_session_id r) = Some (Doc c) \<and> ml_fencing_token c = ml_fencing_token lease \<and>
      now \<le> ml_expires_at c) \<and>
    (\<exists>d. doc st (sr_session_id r) = Some d \<and> sr_revision d = er) \<and>
    (\<exists>s. res = Inr s \<and> doc st' = (doc st)(sr_session_id r := Some s) \<and> sr_revision s = er + 1)"
proof (cases res)
  case (Inl e)
  with assms save_Inl show ?thesis by blast
next
  case (Inr s)
  with save_Inr [of now r er lease st s st'] assms(1) show ?thesis by auto
qed

theorem saves_are_fenced_witness:
  "\<exists>s st'. save 2 (demo_session\<lparr>sr_phase := lit ''execution''\<rparr>) 0 session_lease_0 demo_sessions = (Inr s, st') \<and>
     doc st' (lit ''s'') = Some s \<and> sr_revision s = 1"
proof -
  let ?r = "demo_session\<lparr>sr_phase := lit ''execution''\<rparr>"
  have sv: "save 2 ?r 0 session_lease_0 demo_sessions =
      (Inr (?r\<lparr>sr_revision := 1, sr_updated_at := 2\<rparr>), demo_stored (?r\<lparr>sr_revision := 1, sr_updated_at := 2\<rparr>))"
    using demo_save [of ?r demo_session] by (simp add: stored_demo)
  have "sr_revision (the (doc (demo_stored (?r\<lparr>sr_revision := 1, sr_updated_at := 2\<rparr>)) (lit ''s''))) \<noteq>
      sr_revision (the (doc demo_sessions (lit ''s'')))"
    by (simp add: demo_stored_def demo_sessions_def doc_def)
  then have "demo_stored (?r\<lparr>sr_revision := 1, sr_updated_at := 2\<rparr>) \<noteq> demo_sessions" by metis
  from saves_are_fenced [OF sv this] sv show ?thesis by auto
qed

text \<open>A session lease, too, is lost only for a cause.\<close>

lemma session_lease_lost_only_for_a_cause:
  assumes "lease_holder i st = Some h" and "lease_holder i (fold session_lease_step ops st) \<noteq> Some h"
  shows "\<exists>pre op post. ops = pre @ op # post \<and> lease_holder i (fold session_lease_step pre st) = Some h \<and>
    ends_session_lease i op (fold session_lease_step pre st) h"
  using session_lease.change_has_a_cause [of i st h ops] assms by (simp add: session_lease.run_fold)

end
