(* ===== verification/CoreRuntime.thy ===== *)
theory CoreRuntime imports CoreModels SessionProofs begin

text \<open>
  The single boundary through which every agent acts, \<^verbatim>\<open>CoreRuntime.execute\<close> of \<^verbatim>\<open>src/karox/core.py\<close> with
  the consequence-based gate of \<^verbatim>\<open>src/karox/action_execution.py\<close>. The state joins the session store, the
  capability policy and the confirmation ledger; \<open>ct_calls\<close> records every call of a handler with the
  definition it was called under. The handlers themselves, the external tool binding, the mutation
  reviewer and the checks of a repository file are arguments. One execution reads the clock once.
\<close>

section \<open>State and environment\<close>

type_synonym handler_outcome = "pystr + (pystr, pyval) dict \<times> EvidenceRecord list"

datatype risk_notice =
    NoticeAllowed | NoticeDisposition ActionDisposition | NoticeConfirmation | NoticeHardBlock
  | NoticeRejected reject_reason

record ('h, 'd) core_state =
  ct_sessions :: session_store
  ct_policy :: CapabilityPolicy
  ct_ledger :: "('h, 'd) ConfirmationLedger"
  ct_rollback :: "pystr option"
  ct_published :: "('d RiskAssessment \<times> bool \<times> risk_notice) list"
  ct_audit :: "(string \<times> CoreCommand) list"
  ct_calls :: "(CoreCommand \<times> ToolDefinition) list"

record ('h, 'd) core_env =
  ce_ud :: unidata
  ce_cv :: pyconv
  ce_H :: "pyval \<Rightarrow> 'd"
  ce_TH :: "pystr \<Rightarrow> 'h"
  ce_now :: real
  ce_engine :: "RiskEngine option"
  ce_consequence :: bool
  ce_bypass :: bool
  ce_events :: bool
  ce_paths :: path_oracle
  ce_head :: "(int \<times> pystr) option"
  ce_repository :: pystr
  ce_repo_view :: repo_view
  ce_validator :: "(SessionRecord \<Rightarrow> session_error option) option"
  ce_tools :: "pystr \<Rightarrow> ToolDefinition option"
  ce_handlers :: "pystr \<Rightarrow> ((pystr, pyval) dict \<Rightarrow> real \<Rightarrow> handler_outcome) option"
  ce_mcp :: "(pystr \<Rightarrow> (pystr, pyval) dict \<Rightarrow> SessionRecord \<Rightarrow> handler_outcome) option"
  ce_reviewer :: "(CoreCommand \<Rightarrow> ToolDefinition \<Rightarrow> real \<Rightarrow> CoreCommand option) option"
  ce_digest :: "pyval \<Rightarrow> pystr option"
  ce_preflight :: "pystr \<Rightarrow> (pystr, pyval) dict \<Rightarrow> real \<Rightarrow> string option"
  ce_file_digest :: "pystr \<Rightarrow> string + pystr option"
  ce_fresh :: pyval

datatype 'd core_error =
    InvalidCommand string
  | SessionFailed session_error
  | PolicyDenied PolicyDecision
  | RiskStopped "'d risk_error"
  | ActionStopped "'d action_error"
  | HandlerFailed pystr
  | StoredResultInvalid

type_synonym ('h, 'd, 'a) core_step = "('h, 'd) core_state \<Rightarrow> ('d core_error + 'a) \<times> ('h, 'd) core_state"

definition in_sessions :: "'a session_step \<Rightarrow> ('h, 'd, 'a) core_step" where
  "in_sessions m = zoomS SessionFailed ct_sessions (\<lambda>x s. s\<lparr>ct_sessions := x\<rparr>) m"

definition audit :: "string \<Rightarrow> CoreCommand \<Rightarrow> ('h, 'd, unit) core_step" where
  "audit event c = putS (\<lambda>s. s\<lparr>ct_audit := ct_audit s @ [(event, c)]\<rparr>)"

text \<open>\<^verbatim>\<open>_publish_risk\<close>: without an event bus nothing is announced, and a failing bus is ignored.\<close>

definition publish_risk :: "('h, 'd) core_env \<Rightarrow> 'd RiskAssessment \<Rightarrow> bool \<Rightarrow> risk_notice \<Rightarrow> ('h, 'd, unit) core_step" where
  "publish_risk env assessment allowed reason =
     putS (\<lambda>s. if ce_events env then s\<lparr>ct_published := ct_published s @ [(assessment, allowed, reason)]\<rparr> else s)"

section \<open>The risk gates\<close>

definition refuse :: "('h, 'd) core_env \<Rightarrow> 'd RiskAssessment \<Rightarrow> risk_notice \<Rightarrow> string \<Rightarrow> CoreCommand \<Rightarrow> 'd core_error \<Rightarrow>
    ('h, 'd, unit) core_step" where
  "refuse env assessment reason event c e =
     bindS (publish_risk env assessment False reason) (\<lambda>_. bindS (audit event c) (\<lambda>_. raiseS e))"

definition core_action :: "('h, 'd) core_env \<Rightarrow> CoreCommand \<Rightarrow> RiskAction" where
  "core_action env c = action_for_command (ce_ud env) (ce_cv env) None None None False c"

text \<open>A step on the confirmation ledger that keeps its error as a value.\<close>

definition in_ledger :: "(('h, 'd) ConfirmationLedger \<Rightarrow> 'r \<times> ('h, 'd) ConfirmationLedger) \<Rightarrow> ('h, 'd, 'r) core_step" where
  "in_ledger m s = (case m (ct_ledger s) of (r, L) \<Rightarrow> (Inr r, s\<lparr>ct_ledger := L\<rparr>))"

definition core_smart_stop :: "('h, 'd) core_env \<Rightarrow> CoreCommand \<Rightarrow> ('h, 'd, unit) core_step" where
  "core_smart_stop env c =
     (case ce_engine env of
        None \<Rightarrow> retS ()
      | Some E \<Rightarrow>
          let a = core_action env c
          in bindS (in_ledger (authorize (ce_H env) (ce_TH env) E (ce_now env) a (cc_confirmation_token c)))
            (\<lambda>r. case r of
               Inr assessment \<Rightarrow> publish_risk env assessment True NoticeAllowed
             | Inl (SmartStopRequired assessment) \<Rightarrow>
                 refuse env assessment NoticeConfirmation ''core.command.stopped'' c
                   (RiskStopped (SmartStopRequired assessment))
             | Inl (ConfirmationRejected reason) \<Rightarrow>
                 refuse env (assess (ce_H env) E a) (NoticeRejected reason) ''core.command.confirmation_rejected'' c
                   (RiskStopped (ConfirmationRejected reason))
             | Inl (ValueError t) \<Rightarrow> raiseS (RiskStopped (ValueError t))))"

definition dry_run :: "CoreCommand \<Rightarrow> bool" where
  "dry_run c \<longleftrightarrow> cc_name c = lit ''repo.command'' \<and>
     (case as_mapping (pget (cc_arguments c) ''payload'') of
        None \<Rightarrow> False | Some m \<Rightarrow> pget m ''dry_run'' = PBool True)"

text \<open>The task text and the reversibility the consequence engine is told of.\<close>

definition intent_of :: "CoreCommand \<Rightarrow> ('h, 'd) core_state \<Rightarrow> pystr \<times> bool" where
  "intent_of c s =
     (case fst (session_load (cc_session_id c) (ct_sessions s)) of
        Inl e \<Rightarrow> ([], False)
      | Inr r \<Rightarrow> (if cc_user_intent c = [] then sr_task r else cc_user_intent c,
                  case ct_rollback s of None \<Rightarrow> False | Some i \<Rightarrow> i \<noteq> []))"

definition capability_action :: "('h, 'd) core_env \<Rightarrow> bool \<Rightarrow> CoreCommand \<Rightarrow> RiskAction" where
  "capability_action env reversible c =
     action_for_command (ce_ud env) (ce_cv env) (ce_head env) (Some (ce_paths env)) None reversible c"

definition capability_smart_stop :: "('h, 'd) core_env \<Rightarrow> RiskEngine \<Rightarrow> CoreCommand \<Rightarrow> ('h, 'd, unit) core_step" where
  "capability_smart_stop env E c =
     (if dry_run c then retS ()
      else bindS (getS (intent_of c)) (\<lambda>(intent, reversible).
        let a = capability_action env reversible c
        in bindS (in_ledger (authorize_action (ce_H env) (ce_TH env) (ce_ud env) E (ce_now env) a intent
                    (cc_confirmation_token c) (ce_bypass env)))
          (\<lambda>r. case r of
             Inr d \<Rightarrow>
               bindS (publish_risk env (ad_assessment d) True (NoticeDisposition (ad_disposition d))) (\<lambda>_.
                 if ad_disposition d = GUARDED_AUTO then audit ''core.command.guarded_auto'' c else retS ())
           | Inl (ActionConfirmationRequired d) \<Rightarrow>
               refuse env (ad_assessment d) NoticeConfirmation ''core.command.stopped'' c
                 (ActionStopped (ActionConfirmationRequired d))
           | Inl (ActionHardBlocked d) \<Rightarrow>
               refuse env (ad_assessment d) NoticeHardBlock ''core.command.hard_blocked'' c
                 (ActionStopped (ActionHardBlocked d))
           | Inl (ActionConfirmationRejected reason) \<Rightarrow>
               refuse env (ad_assessment (decide (ce_H env) (ce_ud env) E a intent (ce_bypass env))) (NoticeRejected reason)
                 ''core.command.confirmation_rejected'' c (ActionStopped (ActionConfirmationRejected reason)))))"

definition apply_smart_stop :: "('h, 'd) core_env \<Rightarrow> CoreCommand \<Rightarrow> ('h, 'd, unit) core_step" where
  "apply_smart_stop env c =
     (case (ce_consequence env, ce_engine env) of
        (True, Some E) \<Rightarrow> capability_smart_stop env E c
      | _ \<Rightarrow> core_smart_stop env c)"

text \<open>
  \<^verbatim>\<open>_auto_guard_with_checkpoint\<close>: \<open>factory\<close> is what the checkpoint factory returns, \<open>unscoped\<close> whether the
  stop carries the reason \<^verbatim>\<open>delete_not_scoped_by_user\<close>. It has no caller in the sources.
\<close>

definition auto_guard_with_checkpoint :: "('h, 'd) core_env \<Rightarrow> pystr option option \<Rightarrow> bool \<Rightarrow> pystr \<Rightarrow> CoreCommand \<Rightarrow>
    ('h, 'd, 'd ActionDecision option) core_step" where
  "auto_guard_with_checkpoint env factory unscoped intent c =
     (case (ce_engine env, factory) of
        (Some E, Some made) \<Rightarrow>
          bindS (getS ct_rollback) (\<lambda>old.
            if (case old of None \<Rightarrow> False | Some i \<Rightarrow> i \<noteq> []) \<or> \<not> unscoped then retS None
            else (case made of
                None \<Rightarrow> retS None
              | Some i \<Rightarrow>
                  if i = [] then retS None
                  else bindS (putS (\<lambda>s. s\<lparr>ct_rollback := Some i\<rparr>)) (\<lambda>_.
                    bindS (in_ledger (authorize_action (ce_H env) (ce_TH env) (ce_ud env) E (ce_now env)
                        (capability_action env True c) intent (cc_confirmation_token c) False)) (\<lambda>r.
                      case r of
                        Inr d \<Rightarrow> bindS (audit ''core.command.auto_guarded_checkpoint'' c) (\<lambda>_. retS (Some d))
                      | Inl (ActionConfirmationRejected reason) \<Rightarrow>
                          raiseS (ActionStopped (ActionConfirmationRejected reason))
                      | Inl _ \<Rightarrow> retS None))))
      | _ \<Rightarrow> retS None)"

section \<open>Admission\<close>

datatype tool_binding =
    Builtin "(pystr, pyval) dict \<Rightarrow> real \<Rightarrow> handler_outcome"
  | External "pystr \<Rightarrow> (pystr, pyval) dict \<Rightarrow> SessionRecord \<Rightarrow> handler_outcome"

definition tool_of :: "('h, 'd) core_env \<Rightarrow> pystr \<Rightarrow> (ToolDefinition \<times> tool_binding) option" where
  "tool_of env name =
     (case ce_tools env name of
        None \<Rightarrow> None
      | Some d \<Rightarrow>
          (case ce_handlers env name of
             Some h \<Rightarrow> Some (d, Builtin h)
           | None \<Rightarrow> (case ce_mcp env of
               Some m \<Rightarrow> if startswith name (lit ''mcp.'') then Some (d, External m) else None
             | None \<Rightarrow> None)))"

definition resolve_tool :: "('h, 'd) core_env \<Rightarrow> CoreCommand \<Rightarrow> ('h, 'd, ToolDefinition \<times> tool_binding) core_step" where
  "resolve_tool env c =
     (case tool_of env (cc_name c) of
        None \<Rightarrow> raiseS (InvalidCommand ''unknown Core command'')
      | Some (d, b) \<Rightarrow>
          if arguments_ok d (cc_arguments c) then retS (d, b) else raiseS (InvalidCommand ''invalid arguments''))"

definition same_identity :: "CoreCommand \<Rightarrow> CoreCommand \<Rightarrow> bool" where
  "same_identity a b \<longleftrightarrow> cc_session_id a = cc_session_id b \<and> cc_origin a = cc_origin b \<and>
     cc_correlation_id a = cc_correlation_id b \<and> cc_idempotency_key a = cc_idempotency_key b \<and>
     cc_deadline_seconds a = cc_deadline_seconds b \<and> cc_confirmation_token a = cc_confirmation_token b"

definition review :: "('h, 'd) core_env \<Rightarrow> CoreCommand \<Rightarrow> ToolDefinition \<times> tool_binding \<Rightarrow>
    ('h, 'd, CoreCommand \<times> ToolDefinition \<times> tool_binding) core_step" where
  "review env c tool =
     (case ce_reviewer env of
        None \<Rightarrow> retS (c, tool)
      | Some reviewer \<Rightarrow>
          if \<not> td_mutates (fst tool) then retS (c, tool)
          else (case reviewer c (fst tool) (cc_deadline_seconds c) of
             None \<Rightarrow> raiseS (InvalidCommand ''mutation reviewer returned an invalid command'')
           | Some reviewed \<Rightarrow>
               if \<not> same_identity reviewed c
               then raiseS (InvalidCommand ''mutation reviewer changed immutable command identity'')
               else bindS (resolve_tool env reviewed) (\<lambda>tool'. retS (reviewed, tool'))))"

definition input_digest :: "('h, 'd) core_env \<Rightarrow> CoreCommand \<Rightarrow> ('h, 'd, pystr) core_step" where
  "input_digest env c =
     (case ce_digest env (PMap [(lit ''name'', PStr (cc_name c)), (lit ''arguments'', PMap (cc_arguments c))]) of
        None \<Rightarrow> raiseS (InvalidCommand ''arguments must contain strict JSON values'')
      | Some d \<Rightarrow> retS d)"

definition check_repository :: "('h, 'd) core_env \<Rightarrow> SessionRecord \<Rightarrow> unit session_step" where
  "check_repository env r =
     (case ce_validator env of
        None \<Rightarrow> validate_repository (ce_repo_view env) r (ce_repository env)
      | Some v \<Rightarrow> (case v r of None \<Rightarrow> retS () | Some e \<Rightarrow> raiseS e))"

definition load_session :: "('h, 'd) core_env \<Rightarrow> CoreCommand \<Rightarrow> ('h, 'd, SessionRecord) core_step" where
  "load_session env c =
     bindS (in_sessions (session_load (cc_session_id c))) (\<lambda>r.
     bindS (in_sessions (check_repository env r)) (\<lambda>_.
     bindS (getS (cp_profile \<circ> ct_policy)) (\<lambda>profile.
       if sr_revoked r then raiseS (SessionFailed Revoked)
       else if sr_access_profile r \<noteq> profile then raiseS (SessionFailed (BadValue ''access profiles differ''))
       else retS r)))"

definition require :: "('h, 'd) core_env \<Rightarrow> CoreCommand \<Rightarrow> pystr option \<Rightarrow> Capability \<Rightarrow> ('h, 'd, unit) core_step" where
  "require env c token cap =
     bindS (zoomS PolicyDenied ct_policy (\<lambda>x s. s\<lparr>ct_policy := x\<rparr>)
       (require_capability (ce_now env) (cc_origin c) cap token)) (\<lambda>_. retS ())"

definition preflight_mutation :: "('h, 'd) core_env \<Rightarrow> CoreCommand \<Rightarrow> ('h, 'd, unit) core_step" where
  "preflight_mutation env c =
     (if cc_name c \<in> set (names [''repo.write_file'', ''checks.run'', ''git.commit'', ''git.push''])
      then (case ce_preflight env (cc_name c) (cc_arguments c) (cc_deadline_seconds c) of
              None \<Rightarrow> retS () | Some e \<Rightarrow> raiseS (InvalidCommand e))
      else retS ())"

definition hex64 :: "pystr \<Rightarrow> bool" where
  "hex64 s \<longleftrightarrow> length s = 64 \<and> list_all (\<lambda>c. 48 \<le> c \<and> c \<le> 57 \<or> 97 \<le> c \<and> c \<le> 102) s"

definition validate_replay :: "('h, 'd) core_env \<Rightarrow> CoreCommand \<Rightarrow> CoreResult \<Rightarrow> ('h, 'd, unit) core_step" where
  "validate_replay env c r =
     (if cc_name c \<notin> set (names [''repo.write_file'', ''repo.edit_file'']) then retS ()
      else case (pget (cr_data r) ''path'', pget (cr_data r) ''sha256'') of
        (PStr path, PStr expected) \<Rightarrow>
          if \<not> hex64 expected then raiseS (InvalidCommand ''stored idempotent file result is invalid'')
          else (case ce_file_digest env path of
             Inl e \<Rightarrow> raiseS (InvalidCommand e)
           | Inr current \<Rightarrow>
               if current \<noteq> Some expected
               then raiseS (InvalidCommand ''stored idempotent result no longer matches repository state'')
               else retS ())
      | _ \<Rightarrow> raiseS (InvalidCommand ''stored idempotent file result is invalid''))"

definition replayed_result :: "('h, 'd) core_env \<Rightarrow> CoreCommand \<Rightarrow> (pystr, pyval) dict \<Rightarrow> ('h, 'd, CoreResult) core_step" where
  "replayed_result env c stored =
     (case result_from_dict (ce_fresh env) stored of
        None \<Rightarrow> raiseS StoredResultInvalid
      | Some r \<Rightarrow>
          bindS (validate_replay env c r) (\<lambda>_.
          bindS (audit ''core.command.replayed'' c) (\<lambda>_.
            retS (r\<lparr>cr_idempotent_replay := PBool True\<rparr>))))"

text \<open>The lease and the key of a mutating command.\<close>

definition mutation_rights :: "('h, 'd) core_env \<Rightarrow> CoreCommand \<Rightarrow> MutationLease option \<Rightarrow>
    ('h, 'd, MutationLease \<times> pystr) core_step" where
  "mutation_rights env c lease =
     (case lease of
        None \<Rightarrow> raiseS (SessionFailed (BadValue ''mutating Core commands require a mutation lease''))
      | Some l \<Rightarrow>
          (case cc_idempotency_key c of
             None \<Rightarrow> raiseS (InvalidCommand ''mutating Core commands require an idempotency key'')
           | Some key \<Rightarrow>
               if key = [] then raiseS (InvalidCommand ''mutating Core commands require an idempotency key'')
               else bindS (in_sessions (validate_lease (ce_now env) l)) (\<lambda>_.
                 if ml_session_id l \<noteq> cc_session_id c
                 then raiseS (SessionFailed (BadValue ''mutation lease belongs to a different session''))
                 else bindS (preflight_mutation env c) (\<lambda>_. retS (l, key)))))"

text \<open>What a command that passed every check comes with: itself as reviewed, its tool, the session record,
  and the recorded answer if its key was used before.\<close>

record admission =
  am_command :: CoreCommand
  am_tool :: ToolDefinition
  am_binding :: tool_binding
  am_record :: SessionRecord
  am_rights :: "(MutationLease \<times> pystr) option"
  am_replay :: "(pystr, pyval) dict option"

definition reserve :: "('h, 'd) core_env \<Rightarrow> CoreCommand \<Rightarrow> ToolDefinition \<times> tool_binding \<Rightarrow> pystr \<Rightarrow> SessionRecord \<Rightarrow>
    MutationLease option \<Rightarrow> ('h, 'd, admission) core_step" where
  "reserve env c tool digest r lease =
     (let adm = \<lparr>am_command = c, am_tool = fst tool, am_binding = snd tool, am_record = r, am_rights = None,
                 am_replay = None\<rparr>
      in if \<not> td_mutates (fst tool) then retS adm
         else bindS (mutation_rights env c lease) (\<lambda>(l, key).
           if \<not> td_replayable (fst tool) then retS (adm\<lparr>am_rights := Some (l, key)\<rparr>)
           else bindS (in_sessions (begin_idempotent (ce_now env) r l key digest)) (\<lambda>(replay, r').
             retS (adm\<lparr>am_record := r', am_rights := Some (l, key), am_replay := replay\<rparr>))))"

definition admit :: "('h, 'd) core_env \<Rightarrow> CoreCommand \<Rightarrow> pystr option \<Rightarrow> MutationLease option \<Rightarrow>
    ('h, 'd, admission) core_step" where
  "admit env c0 token lease =
     bindS (resolve_tool env c0) (\<lambda>t0.
     bindS (review env c0 t0) (\<lambda>(c, tool).
     bindS (input_digest env c) (\<lambda>digest.
     bindS (load_session env c) (\<lambda>r0.
     bindS (require env c token (td_capability (fst tool))) (\<lambda>_.
     bindS (forS (require env c token) (td_additional_capabilities (fst tool))) (\<lambda>_.
     bindS (apply_smart_stop env c) (\<lambda>_.
     bindS (if td_mutates (fst tool) then load_session env c else retS r0) (\<lambda>r.
     bindS (audit ''core.command.started'' c) (\<lambda>_.
       reserve env c tool digest r lease)))))))))"

section \<open>Execution\<close>

definition call_handler :: "CoreCommand \<Rightarrow> tool_binding \<Rightarrow> SessionRecord \<Rightarrow> handler_outcome" where
  "call_handler c b r =
     (case b of Builtin h \<Rightarrow> h (cc_arguments c) (cc_deadline_seconds c)
      | External m \<Rightarrow> m (cc_name c) (cc_arguments c) r)"

definition run_handler :: "admission \<Rightarrow> ('h, 'd, (pystr, pyval) dict \<times> EvidenceRecord list) core_step" where
  "run_handler a =
     bindS (putS (\<lambda>s. s\<lparr>ct_calls := ct_calls s @ [(am_command a, am_tool a)]\<rparr>)) (\<lambda>_.
       case call_handler (am_command a) (am_binding a) (am_record a) of
         Inl e \<Rightarrow> bindS (audit ''core.command.failed'' (am_command a)) (\<lambda>_. raiseS (HandlerFailed e))
       | Inr d \<Rightarrow> retS d)"

text \<open>\<^verbatim>\<open>value == 0\<close>\<close>

definition equals_zero :: "pyval \<Rightarrow> bool" where
  "equals_zero v = (case v of PInt i \<Rightarrow> i = 0 | PBool b \<Rightarrow> \<not> b | PFloat x \<Rightarrow> x = 0 | _ \<Rightarrow> False)"

definition core_result :: "admission \<Rightarrow> (pystr, pyval) dict \<times> EvidenceRecord list \<Rightarrow> CoreResult" where
  "core_result a out =
     (let c = am_command a; data = fst out;
          process = cc_name c \<in> set (names [''checks.run'', ''git.status'', ''git.diff'', ''git.commit''])
      in \<lparr>cr_ok = (\<not> (process \<and> (truthy (pget data ''timed_out'') \<or> \<not> equals_zero (pget data ''exit_code'')))),
          cr_command = cc_name c, cr_data = data, cr_correlation_id = cc_correlation_id c,
          cr_mutation = PBool (td_mutates (am_tool a)), cr_evidence = snd out, cr_idempotent_replay = PBool False\<rparr>)"

definition check_row :: "CoreCommand \<Rightarrow> CoreResult \<Rightarrow> pyval" where
  "check_row c r = PMap
     [(lit ''correlation_id'', PStr (cc_correlation_id c)), (lit ''ok'', PBool (cr_ok r)),
      (lit ''argv'', pget_or (cr_data r) ''argv'' (PSeq [])), (lit ''exit_code'', pget (cr_data r) ''exit_code''),
      (lit ''timed_out'', pget_or (cr_data r) ''timed_out'' (PBool False)),
      (lit ''effective_timeout'', pget (cr_data r) ''effective_timeout''),
      (lit ''timeout_clamped_by'', pget (cr_data r) ''timeout_clamped_by'')]"

definition record_mutation :: "SessionRecord \<Rightarrow> CoreCommand \<Rightarrow> CoreResult \<Rightarrow> SessionRecord" where
  "record_mutation s c r =
     (let s1 = s\<lparr>sr_evidence := sr_evidence s @ map (PMap \<circ> core_evidence_to_dict) (cr_evidence r)\<rparr>;
          s2 = (case pget (cr_data r) ''path'' of
            PStr path \<Rightarrow>
              if cc_name c = lit ''repo.write_file'' \<and> pget (cr_data r) ''changed'' = PBool True \<and>
                 path \<notin> set (sr_changed_files s)
              then s1\<lparr>sr_changed_files := sr_changed_files s @ [path]\<rparr> else s1
          | _ \<Rightarrow> s1)
      in if cc_name c = lit ''checks.run'' then s2\<lparr>sr_checks := sr_checks s @ [check_row c r]\<rparr> else s2)"

definition finish :: "('h, 'd) core_env \<Rightarrow> admission \<Rightarrow> CoreResult \<Rightarrow> ('h, 'd, unit) core_step" where
  "finish env a result =
     (case am_rights a of
        None \<Rightarrow> retS ()
      | Some (l, key) \<Rightarrow>
          let r = record_mutation (am_record a) (am_command a) result
          in bindS (in_sessions
               (if td_replayable (am_tool a)
                then complete_idempotent (ce_now env) r l key (result_to_dict result)
                else save (ce_now env) r (sr_revision r) l)) (\<lambda>_. retS ()))"

definition perform :: "('h, 'd) core_env \<Rightarrow> admission \<Rightarrow> ('h, 'd, CoreResult) core_step" where
  "perform env a =
     bindS (run_handler a) (\<lambda>out.
       let result = core_result a out
       in bindS (finish env a result) (\<lambda>_.
          bindS (audit ''core.command.completed'' (am_command a)) (\<lambda>_. retS result)))"

definition execute :: "('h, 'd) core_env \<Rightarrow> CoreCommand \<Rightarrow> pystr option \<Rightarrow> MutationLease option \<Rightarrow>
    ('h, 'd, CoreResult) core_step" where
  "execute env c token lease =
     bindS (admit env c token lease) (\<lambda>a.
       case am_replay a of
         Some stored \<Rightarrow> replayed_result env (am_command a) stored
       | None \<Rightarrow> perform env a)"

end
