(* ===== verification/CoreProofs.thy ===== *)
theory CoreProofs imports CoreRuntime begin

text \<open>
  What the core boundary guarantees for every handler: it runs only for an admitted command, a dangerous one
  only on a human's token, and a mutation at most once per idempotency key.
\<close>

section \<open>Steps that call no handler\<close>

definition untouched :: "(('h, 'd) core_state \<Rightarrow> 'z) \<Rightarrow> ('h, 'd, 'a) core_step \<Rightarrow> bool" where
  "untouched f m \<longleftrightarrow> (\<forall>s. f (snd (m s)) = f s)"

abbreviation "no_call \<equiv> untouched ct_calls"
abbreviation "keeps_sessions \<equiv> untouched ct_sessions"
abbreviation "keeps_ledger \<equiv> untouched ct_ledger"

lemma untouchedD: "untouched f m \<Longrightarrow> m s = (r, s') \<Longrightarrow> f s' = f s"
  by (metis untouched_def snd_conv)

named_theorems kept \<open>steps that leave a part of the state alone\<close>

lemma keeps_bind [kept]: "untouched f m \<Longrightarrow> (\<And>x. untouched f (k x)) \<Longrightarrow> untouched f (bindS m k)"
  by (simp add: untouched_def bindS_def split: prod.split sum.split) (metis snd_conv)

lemma keeps_pure [kept]: "untouched f (retS x)" "untouched f (raiseS e)" "untouched f (getS g)"
  by (simp_all add: untouched_def retS_def raiseS_def getS_def)

lemma keeps_basic [kept]:
  "no_call (audit ev c)" "no_call (publish_risk env a b r)" "no_call (in_sessions m)" "no_call (in_ledger m')"
  "no_call (zoomS w ct_policy (\<lambda>x s. s\<lparr>ct_policy := x\<rparr>) p)"
  "keeps_sessions (audit ev c)" "keeps_sessions (publish_risk env a b r)" "keeps_sessions (in_ledger m')"
  "keeps_sessions (zoomS w ct_policy (\<lambda>x s. s\<lparr>ct_policy := x\<rparr>) p)"
  "keeps_ledger (audit ev c)" "keeps_ledger (publish_risk env a b r)" "keeps_ledger (in_sessions m)"
  "keeps_ledger (zoomS w ct_policy (\<lambda>x s. s\<lparr>ct_policy := x\<rparr>) p)"
  by (simp_all add: untouched_def audit_def putS_def publish_risk_def in_sessions_def in_ledger_def zoomS_def
      split: prod.split sum.split)

lemma keeps_for [kept]: "(\<And>x. untouched f (g x)) \<Longrightarrow> untouched f (forS g xs)"
  by (induction xs) (auto intro: kept)

lemma untouched_if [kept]: "untouched f m \<Longrightarrow> untouched f m' \<Longrightarrow> untouched f (if b then m else m')"
  by simp

lemma keeps_option [kept]: "untouched f m \<Longrightarrow> (\<And>x. untouched f (g x)) \<Longrightarrow> untouched f (case y of None \<Rightarrow> m | Some x \<Rightarrow> g x)"
  by (cases y) simp_all

lemma keeps_prod [kept]: "(\<And>x y. untouched f (g x y)) \<Longrightarrow> untouched f (case p of (x, y) \<Rightarrow> g x y)"
  by (cases p) simp

lemma keeps_refuse [kept]: "no_call (refuse env a r ev c e)" "keeps_sessions (refuse env a r ev c e)"
  unfolding refuse_def by (intro kept)+

lemma keeps_core_stop [kept]: "no_call (core_smart_stop env c)" "keeps_sessions (core_smart_stop env c)"
  unfolding core_smart_stop_def Let_def
  by (intro kept; auto split: sum.split risk_error.split intro: kept)+

lemma keeps_capability_stop [kept]:
  "no_call (capability_smart_stop env E c)" "keeps_sessions (capability_smart_stop env E c)"
  unfolding capability_smart_stop_def Let_def
  by (intro kept; auto split: sum.split action_error.split intro!: kept)+

lemma keeps_stop [kept]: "no_call (apply_smart_stop env c)" "keeps_sessions (apply_smart_stop env c)"
  unfolding apply_smart_stop_def by (auto intro: kept split: bool.split option.split)

lemma keeps_checks [kept]:
  "no_call (resolve_tool env c)" "no_call (input_digest env c)" "no_call (load_session env c)"
  "no_call (require env c t cap)" "no_call (preflight_mutation env c)" "no_call (validate_replay env c res)"
  "keeps_ledger (resolve_tool env c)" "keeps_ledger (input_digest env c)" "keeps_ledger (load_session env c)"
  "keeps_ledger (require env c t cap)" "keeps_ledger (preflight_mutation env c)" "keeps_ledger (validate_replay env c res)"
  "keeps_sessions (resolve_tool env c)" "keeps_sessions (input_digest env c)" 
  "keeps_sessions (require env c t cap)" "keeps_sessions (preflight_mutation env c)" "keeps_sessions (validate_replay env c res)"
  unfolding resolve_tool_def input_digest_def load_session_def require_def preflight_mutation_def validate_replay_def
  by (auto intro!: kept split: option.split pyval.split sum.split)

lemma keeps_review [kept]: "no_call (review env c t)" "keeps_sessions (review env c t)" "keeps_ledger (review env c t)"
  unfolding review_def by (intro kept)+

lemma keeps_replayed [kept]:
  "no_call (replayed_result env c d)" "keeps_sessions (replayed_result env c d)" "keeps_ledger (replayed_result env c d)"
  unfolding replayed_result_def by (intro kept)+

lemma keeps_rights [kept]: "no_call (mutation_rights env c l)" "keeps_ledger (mutation_rights env c l)"
  unfolding mutation_rights_def by (intro kept)+

lemma keeps_reserve [kept]: "no_call (reserve env c t d r l)" "keeps_ledger (reserve env c t d r l)"
  unfolding reserve_def Let_def by (intro kept)+

lemma keeps_admit [kept]: "no_call (admit env c t l)"
  unfolding admit_def by (intro kept)

lemma keeps_finish [kept]: "no_call (finish env a r)" "keeps_ledger (finish env a r)"
  unfolding finish_def Let_def by (intro kept)+

lemma run_handler_calls: "ct_calls (snd (run_handler a s)) = ct_calls s @ [(am_command a, am_tool a)]"
  by (simp add: run_handler_def bindS_def putS_def audit_def raiseS_def retS_def split: sum.split)

lemma perform_calls: "ct_calls (snd (perform env a s)) = ct_calls s @ [(am_command a, am_tool a)]"
proof -
  have "no_call (let result = core_result a out
      in bindS (finish env a result) (\<lambda>_. bindS (audit ev (am_command a)) (\<lambda>_. retS result)))" for out ev
    unfolding Let_def by (intro kept)
  then show ?thesis
    using run_handler_calls [of a s]
    by (cases "run_handler a s") (auto simp: perform_def bindS_def [of "run_handler a"] untouched_def split: sum.split)
qed

text \<open>An execution calls at most one handler, and only for a command that was admitted and not answered.\<close>

lemma execute_calls:
  assumes "execute env c token lease s = (res, s')"
  shows "ct_calls s' = ct_calls s \<or>
    (\<exists>a s1. admit env c token lease s = (Inr a, s1) \<and> am_replay a = None \<and> ct_calls s1 = ct_calls s \<and>
       perform env a s1 = (res, s') \<and> ct_calls s' = ct_calls s @ [(am_command a, am_tool a)])"
proof (cases "admit env c token lease s")
  case (Pair x s1)
  have same: "ct_calls s1 = ct_calls s" using untouchedD [OF keeps_admit Pair] .
  show ?thesis
  proof (cases x)
    case (Inl e)
    with assms Pair same show ?thesis by (simp add: execute_def bindS_err)
  next
    case (Inr a)
    show ?thesis
    proof (cases "am_replay a")
      case None
      with assms Pair Inr have "perform env a s1 = (res, s')" by (simp add: execute_def bindS_ok)
      with perform_calls [of env a s1] None Pair Inr same show ?thesis by auto
    next
      case (Some d)
      with assms Pair Inr have "replayed_result env (am_command a) d s1 = (res, s')"
        by (simp add: execute_def bindS_ok)
      with untouchedD [OF keeps_replayed(1) this] same show ?thesis by simp
    qed
  qed
qed

section \<open>What admission establishes\<close>

lemma in_sessions_Inr: "in_sessions m s = (Inr x, s') \<longleftrightarrow> (\<exists>st. m (ct_sessions s) = (Inr x, st) \<and> s' = s\<lparr>ct_sessions := st\<rparr>)"
  by (auto simp: in_sessions_def zoomS_def split: prod.splits sum.splits)

lemma check_repository_state: "check_repository env r st = (res, st') \<Longrightarrow> st' = st"
  by (auto simp: check_repository_def validate_repository_def retS_def raiseS_def split: option.splits if_splits)

lemma load_session_Inr:
  assumes "load_session env c s = (Inr r, s')"
  shows "s' = s \<and> doc (ct_sessions s) (cc_session_id c) = Some r \<and> \<not> sr_revoked r \<and>
    sr_access_profile r = cp_profile (ct_policy s)"
  using assms
  by (auto simp: load_session_def bindS_Inr in_sessions_Inr load_Inr getS_def retS_def raiseS_def
      dest!: check_repository_state split: if_splits)

lemma resolve_tool_Inr:
  "resolve_tool env c s = (Inr t, s') \<longleftrightarrow> s' = s \<and> tool_of env (cc_name c) = Some t \<and> arguments_ok (fst t) (cc_arguments c)"
  by (cases t) (auto simp: resolve_tool_def retS_def raiseS_def split: option.splits if_splits prod.splits)

lemma same_identity_refl [simp]: "same_identity c c"
  by (simp add: same_identity_def)

lemma review_Inr:
  assumes "review env c0 t0 s = (Inr (c, t), s')" and "tool_of env (cc_name c0) = Some t0"
    and "arguments_ok (fst t0) (cc_arguments c0)"
  shows "s' = s \<and> same_identity c c0 \<and> tool_of env (cc_name c) = Some t \<and> arguments_ok (fst t) (cc_arguments c)"
  using assms
  by (auto simp: review_def bindS_Inr resolve_tool_Inr retS_def raiseS_def split: option.splits if_splits)

lemma input_digest_Inr: "input_digest env c s = (Inr d, s') \<Longrightarrow> s' = s"
  by (auto simp: input_digest_def retS_def raiseS_def split: option.splits)

definition only_policy :: "('h, 'd) core_state \<Rightarrow> ('h, 'd) core_state \<Rightarrow> bool" where
  "only_policy s s' \<longleftrightarrow> (\<exists>P. s' = s\<lparr>ct_policy := P\<rparr>)"

lemma require_Inr:
  "require env c t cap s = (Inr u, s') \<Longrightarrow>
     only_policy s s' \<and> (\<exists>d. fst (require_capability (ce_now env) (cc_origin c) cap t (ct_policy s)) = Inr d)"
  by (auto simp: require_def bindS_Inr zoomS_def retS_def only_policy_def split: prod.splits sum.splits)

lemma requires_Inr: "forS (require env c t) caps s = (Inr u, s') \<Longrightarrow> only_policy s s'"
proof (induction caps arbitrary: s)
  case Nil
  then show ?case by (auto simp: retS_def only_policy_def intro: exI [of _ "ct_policy s"])
next
  case (Cons cap caps)
  then obtain s1 where "require env c t cap s = (Inr (), s1)" "forS (require env c t) caps s1 = (Inr u, s')"
    by (auto simp: bindS_Inr)
  with Cons.IH require_Inr show ?case by (fastforce simp: only_policy_def)
qed

lemma validate_lease_Inr:
  "validate_lease now l st = (Inr u, st') \<Longrightarrow> st' = st \<and>
     (\<exists>c. lease_of st (ml_session_id l) = Some (Doc c) \<and> ml_fencing_token c = ml_fencing_token l \<and> now \<le> ml_expires_at c)"
  by (auto simp: validate_lease_def with_lock_Inr validate_unlocked_Inr)

lemma mutation_rights_Inr:
  assumes "mutation_rights env c lease s = (Inr (l, key), s')"
  shows "ct_sessions s' = ct_sessions s \<and> lease = Some l \<and> cc_idempotency_key c = Some key \<and> key \<noteq> [] \<and>
    ml_session_id l = cc_session_id c \<and>
    (\<exists>cur. lease_of (ct_sessions s) (cc_session_id c) = Some (Doc cur) \<and>
       ml_fencing_token cur = ml_fencing_token l \<and> ce_now env \<le> ml_expires_at cur)"
proof -
  have pre: "preflight_mutation env c s1 = (Inr u, s2) \<Longrightarrow> s2 = s1" for s1 u s2
    by (auto simp: preflight_mutation_def retS_def raiseS_def split: if_splits option.splits)
  from assms show ?thesis
    by (auto simp: mutation_rights_def bindS_Inr in_sessions_Inr retS_def raiseS_def
        dest!: validate_lease_Inr pre split: option.splits if_splits)
qed

text \<open>
  The verdict of the risk gate on a command: without an engine everything passes; otherwise no hard block,
  and whatever needs a confirmation carries a live token a human issued for exactly this assessment.
\<close>

definition risk_cleared :: "('h, 'd) core_env \<Rightarrow> CoreCommand \<Rightarrow> ('h, 'd) core_state \<Rightarrow> bool" where
  "risk_cleared env c s \<longleftrightarrow>
     (case ce_engine env of
        None \<Rightarrow> True
      | Some E \<Rightarrow>
          if ce_consequence env then
            dry_run c \<or>
            (let d = decide (ce_H env) (ce_ud env) E (capability_action env (snd (intent_of c s)) c)
                       (fst (intent_of c s)) (ce_bypass env)
             in \<not> ad_hard_blocked d \<and>
                (ad_requires_confirmation d \<longrightarrow> (\<exists>t. cc_confirmation_token c = Some t \<and>
                   token_bound (ce_TH env) (ct_ledger s) t (ad_assessment d) (ce_now env))))
          else
            (let a = assess (ce_H env) E (core_action env c)
             in as_requires_confirmation a \<longrightarrow> (\<exists>t. cc_confirmation_token c = Some t \<and>
                  token_bound (ce_TH env) (ct_ledger s) t a (ce_now env))))"

lemma in_ledger_Inr: "in_ledger m s = (Inr r, s') \<longleftrightarrow> (\<exists>L. m (ct_ledger s) = (r, L) \<and> s' = s\<lparr>ct_ledger := L\<rparr>)"
  by (auto simp: in_ledger_def split: prod.splits)

lemma refuse_Inr [simp]: "refuse env a r ev c e s \<noteq> (Inr x, s')"
  by (auto simp: refuse_def bindS_Inr raiseS_def)

lemma raiseS_Inr [simp]: "raiseS e s \<noteq> (Inr x, s')"
  by (simp add: raiseS_def)

lemma core_stop_clears:
  assumes "core_smart_stop env c s = (Inr (), s')" "ce_engine env = Some E"
    and "as_requires_confirmation (assess (ce_H env) E (core_action env c))"
  shows "\<exists>t. cc_confirmation_token c = Some t \<and>
    token_bound (ce_TH env) (ct_ledger s) t (assess (ce_H env) E (core_action env c)) (ce_now env)"
proof -
  obtain r L where a: "authorize (ce_H env) (ce_TH env) E (ce_now env) (core_action env c) (cc_confirmation_token c)
      (ct_ledger s) = (r, L)"
    by fastforce
  have "\<exists>x. r = Inr x"
  proof (cases r)
    case (Inl e)
    with assms(1,2) a show ?thesis
      by (cases e) (auto simp: core_smart_stop_def Let_def bindS_Inr in_ledger_Inr)
  qed simp
  with a assms(3) show ?thesis by (auto simp: authorize_Inr_iff redeem_Inr_iff)
qed

lemma capability_stop_clears:
  assumes "capability_smart_stop env E c s = (Inr (), s')" "\<not> dry_run c"
  shows "let d = decide (ce_H env) (ce_ud env) E (capability_action env (snd (intent_of c s)) c)
           (fst (intent_of c s)) (ce_bypass env)
    in \<not> ad_hard_blocked d \<and> (ad_requires_confirmation d \<longrightarrow> (\<exists>t. cc_confirmation_token c = Some t \<and>
         token_bound (ce_TH env) (ct_ledger s) t (ad_assessment d) (ce_now env)))"
proof -
  obtain r L where a: "authorize_action (ce_H env) (ce_TH env) (ce_ud env) E (ce_now env)
      (capability_action env (snd (intent_of c s)) c) (fst (intent_of c s)) (cc_confirmation_token c)
      (ce_bypass env) (ct_ledger s) = (r, L)"
    by fastforce
  have "\<exists>d. r = Inr d"
  proof (cases r)
    case (Inl e)
    with assms a show ?thesis
      by (cases e) (auto simp: capability_smart_stop_def Let_def bindS_Inr in_ledger_Inr getS_def case_prod_beta)
  qed simp
  with a obtain d where "authorize_action (ce_H env) (ce_TH env) (ce_ud env) E (ce_now env)
      (capability_action env (snd (intent_of c s)) c) (fst (intent_of c s)) (cc_confirmation_token c)
      (ce_bypass env) (ct_ledger s) = (Inr d, L)" by blast
  then show ?thesis by (auto simp: authorize_action_Inr_iff redeem_Inr_iff Let_def split: if_splits)
qed

lemma stop_clears:
  assumes "apply_smart_stop env c s2 = (Inr (), s3)" "only_policy s s2"
  shows "risk_cleared env c s"
proof -
  have f: "ct_ledger s2 = ct_ledger s" "ct_sessions s2 = ct_sessions s" "ct_rollback s2 = ct_rollback s"
    using assms(2) by (auto simp: only_policy_def)
  then have same: "ct_ledger s2 = ct_ledger s" "intent_of c s2 = intent_of c s"
    by (simp_all add: intent_of_def cong: sum.case_cong)
  show ?thesis
  proof (cases "ce_engine env")
    case (Some E)
    show ?thesis
      using assms(1) core_stop_clears [of env c s2 s3 E] capability_stop_clears [of env E c s2 s3]
      by (auto simp: risk_cleared_def Some apply_smart_stop_def same Let_def split: if_splits)
  qed (simp add: risk_cleared_def)
qed

text \<open>Everything a command has shown by the time its handler may run.\<close>

definition admitted :: "('h, 'd) core_env \<Rightarrow> CoreCommand \<Rightarrow> pystr option \<Rightarrow> MutationLease option \<Rightarrow>
    ('h, 'd) core_state \<Rightarrow> CoreCommand \<Rightarrow> ToolDefinition \<Rightarrow> bool" where
  "admitted env c0 token lease s c d \<longleftrightarrow>
     same_identity c c0 \<and> ce_tools env (cc_name c) = Some d \<and> arguments_ok d (cc_arguments c) \<and>
     (\<exists>r. doc (ct_sessions s) (cc_session_id c) = Some r \<and> \<not> sr_revoked r \<and>
        sr_access_profile r = cp_profile (ct_policy s)) \<and>
     (\<exists>p. fst (require_capability (ce_now env) (cc_origin c) (td_capability d) token (ct_policy s)) = Inr p) \<and>
     risk_cleared env c s \<and>
     (td_mutates d \<longrightarrow> (\<exists>l key cur. lease = Some l \<and> cc_idempotency_key c = Some key \<and> key \<noteq> [] \<and>
        ml_session_id l = cc_session_id c \<and> lease_of (ct_sessions s) (cc_session_id c) = Some (Doc cur) \<and>
        ml_fencing_token cur = ml_fencing_token l \<and> ce_now env \<le> ml_expires_at cur))"

lemma tool_of_tools: "tool_of env n = Some t \<Longrightarrow> ce_tools env n = Some (fst t)"
  by (auto simp: tool_of_def split: option.splits if_splits)

lemma admit_parts:
  assumes "admit env c0 token lease s = (Inr a, s')"
  obtains t0 c tool digest r0 s1 s2 s3 r s4 where
    "resolve_tool env c0 s = (Inr t0, s)" "review env c0 t0 s = (Inr (c, tool), s)"
    "load_session env c s = (Inr r0, s)" "require env c token (td_capability (fst tool)) s = (Inr (), s1)"
    "only_policy s1 s2" "apply_smart_stop env c s2 = (Inr (), s3)"
    "doc (ct_sessions s) (cc_session_id c) = Some r"
    "ct_sessions s4 = ct_sessions s" "reserve env c tool digest r lease s4 = (Inr a, s')" "ct_ledger s4 = ct_ledger s3"
proof -
  obtain t0 x1 where a1: "resolve_tool env c0 s = (Inr t0, x1)"
    and b1: "bindS (review env c0 t0) (\<lambda>(c, tool).
     bindS (input_digest env c) (\<lambda>digest.
     bindS (load_session env c) (\<lambda>r0.
     bindS (require env c token (td_capability (fst tool))) (\<lambda>_.
     bindS (forS (require env c token) (td_additional_capabilities (fst tool))) (\<lambda>_.
     bindS (apply_smart_stop env c) (\<lambda>_.
     bindS (if td_mutates (fst tool) then load_session env c else retS r0) (\<lambda>r.
     bindS (audit ''core.command.started'' c) (\<lambda>_.
       reserve env c tool digest r lease)))))))) x1 = (Inr a, s')"
    using assms unfolding admit_def bindS_Inr by blast
  have x1: "x1 = s" and t0: "tool_of env (cc_name c0) = Some t0" "arguments_ok (fst t0) (cc_arguments c0)"
    using a1 by (simp_all add: resolve_tool_Inr)
  obtain c tool x2 where a2: "review env c0 t0 s = (Inr (c, tool), x2)"
    and b2: "bindS (input_digest env c) (\<lambda>digest.
     bindS (load_session env c) (\<lambda>r0.
     bindS (require env c token (td_capability (fst tool))) (\<lambda>_.
     bindS (forS (require env c token) (td_additional_capabilities (fst tool))) (\<lambda>_.
     bindS (apply_smart_stop env c) (\<lambda>_.
     bindS (if td_mutates (fst tool) then load_session env c else retS r0) (\<lambda>r.
     bindS (audit ''core.command.started'' c) (\<lambda>_.
       reserve env c tool digest r lease))))))) x2 = (Inr a, s')"
    using b1 unfolding x1 bindS_Inr [of "review env c0 t0"] by (auto split: prod.splits)
  have x2: "x2 = s" using review_Inr [OF a2 t0] by simp
  obtain digest x3 where a3: "input_digest env c s = (Inr digest, x3)"
    and b3: "bindS (load_session env c) (\<lambda>r0.
     bindS (require env c token (td_capability (fst tool))) (\<lambda>_.
     bindS (forS (require env c token) (td_additional_capabilities (fst tool))) (\<lambda>_.
     bindS (apply_smart_stop env c) (\<lambda>_.
     bindS (if td_mutates (fst tool) then load_session env c else retS r0) (\<lambda>r.
     bindS (audit ''core.command.started'' c) (\<lambda>_.
       reserve env c tool digest r lease)))))) x3 = (Inr a, s')"
    using b2 unfolding x2 bindS_Inr [of "input_digest env c"] by blast
  have x3: "x3 = s" using input_digest_Inr [OF a3] .
  obtain r0 x4 where a4: "load_session env c s = (Inr r0, x4)"
    and b4: "bindS (require env c token (td_capability (fst tool))) (\<lambda>_.
     bindS (forS (require env c token) (td_additional_capabilities (fst tool))) (\<lambda>_.
     bindS (apply_smart_stop env c) (\<lambda>_.
     bindS (if td_mutates (fst tool) then load_session env c else retS r0) (\<lambda>r.
     bindS (audit ''core.command.started'' c) (\<lambda>_.
       reserve env c tool digest r lease))))) x4 = (Inr a, s')"
    using b3 unfolding x3 bindS_Inr [of "load_session env c"] by blast
  have x4: "x4 = s" "doc (ct_sessions s) (cc_session_id c) = Some r0" using load_session_Inr [OF a4] by simp_all
  obtain s1 where a5: "require env c token (td_capability (fst tool)) s = (Inr (), s1)"
    and b5: "bindS (forS (require env c token) (td_additional_capabilities (fst tool))) (\<lambda>_.
     bindS (apply_smart_stop env c) (\<lambda>_.
     bindS (if td_mutates (fst tool) then load_session env c else retS r0) (\<lambda>r.
     bindS (audit ''core.command.started'' c) (\<lambda>_.
       reserve env c tool digest r lease)))) s1 = (Inr a, s')"
    using b4 unfolding x4(1) bindS_Inr [of "require env c token (td_capability (fst tool))"] by auto
  obtain s2 where a6: "only_policy s1 s2"
    and b6: "bindS (apply_smart_stop env c) (\<lambda>_.
     bindS (if td_mutates (fst tool) then load_session env c else retS r0) (\<lambda>r.
     bindS (audit ''core.command.started'' c) (\<lambda>_.
       reserve env c tool digest r lease))) s2 = (Inr a, s')"
    using b5 requires_Inr unfolding bindS_Inr [of "forS _ _"] by blast
  obtain s3 where a7: "apply_smart_stop env c s2 = (Inr (), s3)"
    and b7: "bindS (if td_mutates (fst tool) then load_session env c else retS r0) (\<lambda>r.
     bindS (audit ''core.command.started'' c) (\<lambda>_.
       reserve env c tool digest r lease)) s3 = (Inr a, s')"
    using b6 unfolding bindS_Inr [of "apply_smart_stop env c"] by auto
  have e3: "ct_sessions s3 = ct_sessions s"
    using untouchedD [OF keeps_stop(2) a7] a6 require_Inr [OF a5] by (auto simp: only_policy_def)
  obtain r x5 where a8: "(if td_mutates (fst tool) then load_session env c else retS r0) s3 = (Inr r, x5)"
    and b8: "bindS (audit ''core.command.started'' c) (\<lambda>_. reserve env c tool digest r lease) x5 = (Inr a, s')"
    using b7 unfolding bindS_Inr [of "if _ then _ else _"] by blast
  have r: "x5 = s3" "doc (ct_sessions s) (cc_session_id c) = Some r"
    using a8 load_session_Inr [of env c s3 r x5] e3 x4(2) by (auto simp: retS_def split: if_splits)
  obtain s4 where a9: "audit ''core.command.started'' c s3 = (Inr (), s4)"
    and b9: "reserve env c tool digest r lease s4 = (Inr a, s')"
    using b8 unfolding r(1) bindS_Inr [of "audit _ _"] by auto
  have s4: "ct_sessions s4 = ct_sessions s" "ct_ledger s4 = ct_ledger s3" using a9 e3 by (auto simp: audit_def putS_def)
  from that [OF a1 [unfolded x1] a2 [unfolded x2] a4 [unfolded x4(1)] a5 a6 a7 r(2) s4(1) b9 s4(2)] show thesis .
qed

lemma reserve_Inr:
  assumes "reserve env c tool digest r lease s = (Inr a, s')"
  shows "am_command a = c \<and> am_tool a = fst tool \<and>
    (if \<not> td_mutates (fst tool)
     then am_rights a = None \<and> am_replay a = None \<and> am_record a = r \<and> ct_sessions s' = ct_sessions s
     else \<exists>l key s1. mutation_rights env c lease s = (Inr (l, key), s1) \<and> am_rights a = Some (l, key) \<and>
       (if \<not> td_replayable (fst tool)
        then am_replay a = None \<and> am_record a = r \<and> ct_sessions s' = ct_sessions s1
        else begin_idempotent (ce_now env) r l key digest (ct_sessions s1) =
               (Inr (am_replay a, am_record a), ct_sessions s')))"
  using assms
  by (cases "td_mutates (fst tool)"; cases "td_replayable (fst tool)")
    (auto simp: reserve_def Let_def bindS_Inr in_sessions_Inr retS_def split: prod.splits)

text \<open>What an admitted command has established, and the record its session has by then.\<close>

lemma admit_admitted:
  assumes "admit env c0 token lease s = (Inr a, s')"
  shows "admitted env c0 token lease s (am_command a) (am_tool a)"
proof -
  obtain t0 c tool digest r0 s1 s2 s3 r s4 where p:
    "resolve_tool env c0 s = (Inr t0, s)" "review env c0 t0 s = (Inr (c, tool), s)"
    "load_session env c s = (Inr r0, s)" "require env c token (td_capability (fst tool)) s = (Inr (), s1)"
    "only_policy s1 s2" "apply_smart_stop env c s2 = (Inr (), s3)"
    "doc (ct_sessions s) (cc_session_id c) = Some r"
    "ct_sessions s4 = ct_sessions s" "reserve env c tool digest r lease s4 = (Inr a, s')" "ct_ledger s4 = ct_ledger s3"
    using admit_parts [OF assms] by metis
  have a: "am_command a = c" "am_tool a = fst tool" using reserve_Inr [OF p(9)] by simp_all
  have rev: "same_identity c c0" "tool_of env (cc_name c) = Some tool" "arguments_ok (fst tool) (cc_arguments c)"
    using review_Inr [OF p(2)] p(1) by (simp_all add: resolve_tool_Inr)
  have req: "only_policy s s1" "\<exists>d. fst (require_capability (ce_now env) (cc_origin c) (td_capability (fst tool)) token (ct_policy s)) = Inr d"
    using require_Inr [OF p(4)] by simp_all
  have "only_policy s s2" using req(1) p(5) by (auto simp: only_policy_def)
  note gate = stop_clears [OF p(6) this]
  have mut: "\<exists>l key cur. lease = Some l \<and> cc_idempotency_key c = Some key \<and> key \<noteq> [] \<and>
      ml_session_id l = cc_session_id c \<and> lease_of (ct_sessions s) (cc_session_id c) = Some (Doc cur) \<and>
      ml_fencing_token cur = ml_fencing_token l \<and> ce_now env \<le> ml_expires_at cur" if mt: "td_mutates (fst tool)"
  proof -
    obtain l key s5 where "mutation_rights env c lease s4 = (Inr (l, key), s5)"
      using reserve_Inr [OF p(9)] mt by auto
    from mutation_rights_Inr [OF this] show ?thesis by (auto simp: p(8))
  qed
  show ?thesis
    unfolding admitted_def a
    using rev tool_of_tools [OF rev(2)] load_session_Inr [OF p(3)] req(2) gate mut by blast
qed

section \<open>Mutations run once per key\<close>

definition grows :: "session_store \<Rightarrow> session_store \<Rightarrow> bool" where
  "grows st st' \<longleftrightarrow> (well_named st \<longrightarrow> well_named st' \<and>
     (\<forall>sid d. doc st sid = Some d \<longrightarrow> (\<exists>d'. doc st' sid = Some d' \<and> idem_le (sr_idempotency d) (sr_idempotency d'))))"

lemma grows_refl [simp]: "grows st st"
  by (auto simp: grows_def)

lemma grows_trans: "grows a b \<Longrightarrow> grows b c \<Longrightarrow> grows a c"
  unfolding grows_def by (meson idem_le_trans)

lemma grows_unhurt: "well_named st \<Longrightarrow> unhurt st st' \<Longrightarrow> grows st st'"
  unfolding grows_def by (metis calm_Some idem_le_refl well_named_calm)

lemma grows_save:
  assumes "doc st sid = Some d" "well_named st" "sr_session_id r = sid" "idem_le (sr_idempotency d) (sr_idempotency r)"
  shows "grows st (snd (save now r er lease st))"
proof (cases "save now r er lease st")
  case (Pair res st')
  show ?thesis
  proof (cases res)
    case (Inl e)
    then have "st' = st" using Pair by (simp add: save_Inl)
    with Pair show ?thesis by simp
  next
    case (Inr x)
    with save_Inr [of now r er lease st x st'] Pair have
      st': "st' = st\<lparr>st_state := AList.update sid (Doc x) (st_state st)\<rparr>" and
      x: "x = r\<lparr>sr_revision := er + 1, sr_updated_at := now\<rparr>" using assms(3) by auto
    have "well_named st'" using assms(2,3) by (simp add: st' x well_named_def)
    moreover have "\<exists>d'. doc st' i = Some d' \<and> idem_le (sr_idempotency y) (sr_idempotency d')"
      if "doc st i = Some y" for i y
      using that assms(1,4) by (cases "i = sid") (simp_all add: st' x)
    ultimately show ?thesis using Pair by (simp add: grows_def)
  qed
qed

lemma begin_grows:
  assumes "doc st sid = Some r" "well_named st"
  shows "grows st (snd (begin_idempotent now r lease key digest st))"
proof -
  have sid: "sr_session_id r = sid" using assms by (simp add: well_named_def)
  have le: "map_of (sr_idempotency r) key = None \<Longrightarrow>
      idem_le (sr_idempotency r) (AList.update key e (sr_idempotency r))" for e
    by (auto simp: idem_le_def map_of_AList_update)
  show ?thesis
  proof (cases "key \<noteq> [] \<and> map_of (sr_idempotency r) key = None")
    case True
    have "grows st (snd (save now (r\<lparr>sr_idempotency := AList.update key (Pending digest now) (sr_idempotency r)\<rparr>)
        (sr_revision r) lease st))"
      by (rule grows_save [OF assms]) (use sid le True in simp_all)
    then show ?thesis using True by (simp add: begin_idempotent_def bindS_snd_ret)
  next
    case False
    then show ?thesis
      by (auto simp: begin_idempotent_def raiseS_def retS_def split: option.split idem_entry.split)
  qed
qed

lemma begin_result:
  assumes "begin_idempotent now r lease key digest st = (Inr (replay, r'), st')"
    and "doc st sid = Some r" "well_named st"
  shows "doc st' sid = Some r' \<and> (replay = None \<longrightarrow>
    map_of (sr_idempotency r) key = None \<and> map_of (sr_idempotency r') key \<noteq> None)"
proof (cases replay)
  case None
  have sid: "sr_session_id r = sid" using assms(2,3) by (simp add: well_named_def)
  from None begin_started [of now r lease key digest st r' st'] assms(1)
  have n: "map_of (sr_idempotency r) key = None" and
    sv: "save now (r\<lparr>sr_idempotency := AList.update key (Pending digest now) (sr_idempotency r)\<rparr>) (sr_revision r) lease st
      = (Inr r', st')" by simp_all
  from save_Inr [OF sv] sid n show ?thesis by (auto simp: map_of_AList_update)
next
  case (Some x)
  with begin_replayed [of now r lease key digest st x r' st'] assms show ?thesis by auto
qed

lemma record_mutation_fields [simp]:
  "sr_session_id (record_mutation r c x) = sr_session_id r" "sr_idempotency (record_mutation r c x) = sr_idempotency r"
  "sr_revision (record_mutation r c x) = sr_revision r"
  by (simp_all add: record_mutation_def Let_def split: pyval.split)

lemma in_sessions_snd: "ct_sessions (snd (in_sessions m s)) = snd (m (ct_sessions s))"
  by (simp add: in_sessions_def zoomS_def split: prod.split sum.split)

lemma complete_grows:
  assumes "doc st sid = Some d" "well_named st" "sr_session_id r = sid" "sr_idempotency r = sr_idempotency d"
  shows "grows st (snd (complete_idempotent now r lease key result st))"
proof (cases "map_of (sr_idempotency r) key")
  case (Some e)
  show ?thesis
  proof (cases e)
    case (Pending g t)
    then have "idem_le (sr_idempotency d) (AList.update key (Complete g t now result) (sr_idempotency r))"
      using Some assms(4) by (auto simp: idem_le_def map_of_AList_update entry_le_def)
    then have "grows st (snd (save now (r\<lparr>sr_idempotency := AList.update key (Complete g t now result) (sr_idempotency r)\<rparr>)
        (sr_revision r) lease st))"
      by (intro grows_save [OF assms(1,2)]) (simp_all add: assms(3))
    with Some Pending show ?thesis by (simp add: complete_idempotent_def)
  qed (simp add: Some complete_idempotent_def raiseS_def)
qed (simp add: complete_idempotent_def raiseS_def)

lemma finish_grows:
  assumes "doc (ct_sessions s) sid = Some (am_record a)" "well_named (ct_sessions s)"
  shows "grows (ct_sessions s) (ct_sessions (snd (finish env a result s)))"
proof (cases "am_rights a")
  case (Some lk)
  obtain l key where lk: "lk = (l, key)" by (cases lk)
  let ?r = "record_mutation (am_record a) (am_command a) result"
  have sid: "sr_session_id (am_record a) = sid" using assms by (simp add: well_named_def)
  have "grows (ct_sessions s) (snd (save (ce_now env) ?r er l (ct_sessions s)))" for er
    by (rule grows_save [OF assms]) (simp_all add: sid)
  moreover have "grows (ct_sessions s) (snd (complete_idempotent (ce_now env) ?r l key x (ct_sessions s)))" for x
    by (rule complete_grows [OF assms]) (simp_all add: sid)
  ultimately show ?thesis
    using Some by (simp add: finish_def Let_def lk bindS_snd_ret in_sessions_snd)
qed (simp add: finish_def retS_def)

text \<open>The session part of a refused admission.\<close>

lemma preflight_state: "snd (preflight_mutation env c s) = s"
  by (simp add: preflight_mutation_def retS_def raiseS_def split: option.split)

lemma validate_lease_snd [simp]: "snd (validate_lease now l st) = st"
  by (simp add: validate_lease_def with_lock_def split: prod.split) (metis (no_types, lifting) list.set_intros(1)
      remove1.simps(2) session_store.surjective session_store.update_convs(3) snd_conv validate_unlocked_snd)

lemma keeps_reads [kept]:
  "keeps_sessions (in_sessions (validate_lease now l))" "keeps_sessions (in_sessions (session_load i))"
  "keeps_sessions (in_sessions (check_repository env r))"
  by (auto simp: untouched_def in_sessions_snd intro: check_repository_state prod.collapse [symmetric])

lemma keeps_load [kept]: "keeps_sessions (load_session env c)"
  unfolding load_session_def by (intro kept)

lemma mutation_rights_sessions: "keeps_sessions (mutation_rights env c lease)"
  unfolding mutation_rights_def by (intro kept)

text \<open>The log of mutations that are meant to run once.\<close>

definition once_key :: "CoreCommand \<times> ToolDefinition \<Rightarrow> (pystr \<times> pystr) option" where
  "once_key e =
     (if td_mutates (snd e) \<and> td_replayable (snd e)
      then map_option (\<lambda>k. (cc_session_id (fst e), k)) (cc_idempotency_key (fst e)) else None)"

definition once_keys :: "(CoreCommand \<times> ToolDefinition) list \<Rightarrow> (pystr \<times> pystr) list" where
  "once_keys es = List.map_filter once_key es"

lemma once_keys_append [simp]:
  "once_keys [] = []" "once_keys (es @ [e]) = once_keys es @ (case once_key e of None \<Rightarrow> [] | Some k \<Rightarrow> [k])"
  by (simp_all add: once_keys_def List.map_filter_def split: option.split)

lemma in_once_keys: "e \<in> set es \<Longrightarrow> once_key e = Some k \<Longrightarrow> k \<in> set (once_keys es)"
  by (force simp: once_keys_def List.map_filter_def)

definition has_entry :: "session_store \<Rightarrow> pystr \<times> pystr \<Rightarrow> bool" where
  "has_entry st e \<longleftrightarrow> (\<exists>d. doc st (fst e) = Some d \<and> map_of (sr_idempotency d) (snd e) \<noteq> None)"

text \<open>\<open>D\<close> are the sessions whose directory was removed.\<close>

definition kept_keys :: "pystr set \<Rightarrow> (CoreCommand \<times> ToolDefinition) list \<Rightarrow> (pystr \<times> pystr) list" where
  "kept_keys D es = filter (\<lambda>e. fst e \<notin> D) (once_keys es)"

definition core_ok :: "pystr set \<Rightarrow> ('h, 'd) core_state \<Rightarrow> bool" where
  "core_ok D s \<longleftrightarrow> well_named (ct_sessions s) \<and> distinct (kept_keys D (ct_calls s)) \<and>
     (\<forall>e \<in> set (kept_keys D (ct_calls s)). has_entry (ct_sessions s) e)"

lemma has_entry_grows: "grows st st' \<Longrightarrow> well_named st \<Longrightarrow> has_entry st e \<Longrightarrow> has_entry st' e"
  unfolding grows_def has_entry_def idem_le_def by (metis not_None_eq)

lemma core_ok_grows:
  "core_ok D s \<Longrightarrow> grows (ct_sessions s) (ct_sessions s') \<Longrightarrow> ct_calls s' = ct_calls s \<Longrightarrow> core_ok D s'"
  unfolding core_ok_def using has_entry_grows by (auto simp: grows_def)

lemma bindS_snd: "snd (bindS m k s) = (case m s of (Inl e, s') \<Rightarrow> s' | (Inr x, s') \<Rightarrow> snd (k x s'))"
  by (simp add: bindS_def split: prod.split sum.split)

lemma reserve_grows:
  assumes "doc (ct_sessions s) (cc_session_id c) = Some r" "well_named (ct_sessions s)"
  shows "grows (ct_sessions s) (ct_sessions (snd (reserve env c tool digest r lease s)))"
proof (cases "td_mutates (fst tool)")
  case True
  show ?thesis
  proof (cases "mutation_rights env c lease s")
    case (Pair x s1)
    have e: "ct_sessions s1 = ct_sessions s"
      using untouchedD [OF mutation_rights_sessions Pair] .
    show ?thesis
    proof (cases x)
      case (Inr lk)
      obtain l key where lk: "lk = (l, key)" by (cases lk)
      let ?b = "begin_idempotent (ce_now env) r l key digest"
      have b: "grows (ct_sessions s) (ct_sessions (snd (in_sessions ?b s1)))"
        unfolding in_sessions_snd e by (rule begin_grows [OF assms])
      show ?thesis
      proof (cases "td_replayable (fst tool)")
        case rep: True
        have "ct_sessions (snd (reserve env c tool digest r lease s)) = ct_sessions (snd (in_sessions ?b s1))"
          by (cases "in_sessions ?b s1")
            (simp add: reserve_def Let_def True rep bindS_snd Pair Inr lk retS_def split: sum.split prod.split)
        with b show ?thesis by simp
      qed (simp add: reserve_def Let_def True bindS_snd Pair Inr lk retS_def e)
    qed (simp add: reserve_def Let_def True bindS_snd Pair e)
  qed
qed (simp add: reserve_def Let_def retS_def)

text \<open>Admission reaches the reservation without touching the sessions, or is refused before it.\<close>

lemma admit_record:
  assumes "admit env c0 token lease s = (Inr a, s')" and "well_named (ct_sessions s)"
  shows "grows (ct_sessions s) (ct_sessions s') \<and> well_named (ct_sessions s') \<and>
    doc (ct_sessions s') (cc_session_id (am_command a)) = Some (am_record a) \<and>
    (\<forall>k. am_replay a = None \<longrightarrow> once_key (am_command a, am_tool a) = Some k \<longrightarrow>
       \<not> has_entry (ct_sessions s) k \<and> has_entry (ct_sessions s') k)"
proof -
  obtain t0 c tool digest r0 s1 s2 s3 r s4 where p:
    "resolve_tool env c0 s = (Inr t0, s)" "review env c0 t0 s = (Inr (c, tool), s)"
    "load_session env c s = (Inr r0, s)" "require env c token (td_capability (fst tool)) s = (Inr (), s1)"
    "only_policy s1 s2" "apply_smart_stop env c s2 = (Inr (), s3)"
    "doc (ct_sessions s) (cc_session_id c) = Some r"
    "ct_sessions s4 = ct_sessions s" "reserve env c tool digest r lease s4 = (Inr a, s')" "ct_ledger s4 = ct_ledger s3"
    using admit_parts [OF assms(1)] by metis
  have g: "grows (ct_sessions s) (ct_sessions s')"
    using reserve_grows [of s4 c r env tool digest lease] p(7-9) assms(2) by simp
  have w: "well_named (ct_sessions s')" using g assms(2) by (simp add: grows_def)
  note R = reserve_Inr [OF p(9)]
  show ?thesis
  proof (cases "td_mutates (fst tool)")
    case False
    with R p(7,8) g w show ?thesis by (simp add: once_key_def)
  next
    case True
    then obtain l key s5 where m: "mutation_rights env c lease s4 = (Inr (l, key), s5)" and
      e: "if \<not> td_replayable (fst tool)
        then am_replay a = None \<and> am_record a = r \<and> ct_sessions s' = ct_sessions s5
        else begin_idempotent (ce_now env) r l key digest (ct_sessions s5) =
               (Inr (am_replay a, am_record a), ct_sessions s')"
      using R by auto
    have s5: "ct_sessions s5 = ct_sessions s" and key: "cc_idempotency_key c = Some key"
      using mutation_rights_Inr [OF m] p(8) by simp_all
    show ?thesis
    proof (cases "td_replayable (fst tool)")
      case False
      with R True e s5 p(7) g w show ?thesis by (simp add: once_key_def)
    next
      case rep: True
      with e s5 have b: "begin_idempotent (ce_now env) r l key digest (ct_sessions s) =
          (Inr (am_replay a, am_record a), ct_sessions s')" by simp
      from begin_result [OF b p(7) assms(2)] R key p(7) g w True rep show ?thesis
        by (auto simp: once_key_def has_entry_def)
    qed
  qed
qed

text \<open>Composition of steps that let the sessions grow.\<close>

definition growing :: "(('h, 'd) core_state \<Rightarrow> bool) \<Rightarrow> ('h, 'd, 'a) core_step \<Rightarrow> bool" where
  "growing P m \<longleftrightarrow> (\<forall>s. well_named (ct_sessions s) \<longrightarrow> P s \<longrightarrow> grows (ct_sessions s) (ct_sessions (snd (m s))))"

lemma grows_named: "grows st st' \<Longrightarrow> well_named st \<Longrightarrow> well_named st'"
  by (simp add: grows_def)

lemma growing_bind_quiet:
  assumes "keeps_sessions m" "\<And>x s s'. m s = (Inr x, s') \<Longrightarrow> well_named (ct_sessions s') \<Longrightarrow> P s \<Longrightarrow>
    grows (ct_sessions s') (ct_sessions (snd (k x s')))"
  shows "growing P (bindS m k)"
  unfolding growing_def
proof (intro allI impI)
  fix s assume w: "well_named (ct_sessions s)" "P s"
  obtain r s' where e: "m s = (r, s')" by (cases "m s")
  have "ct_sessions s' = ct_sessions s" by (rule untouchedD [OF assms(1) e])
  with assms(2) [of s _ s'] w e show "grows (ct_sessions s) (ct_sessions (snd (bindS m k s)))"
    by (cases r) (simp_all add: bindS_snd)
qed

lemma growing_quiet: "keeps_sessions m \<Longrightarrow> growing P m"
  by (simp add: growing_def untouched_def)

lemma growing_after:
  "growing (\<lambda>t. Q (ct_sessions t)) m \<Longrightarrow> keeps_sessions q \<Longrightarrow> growing (\<lambda>t. Q (ct_sessions t)) (bindS q (\<lambda>_. m))"
proof (rule growing_bind_quiet)
  fix x t t' assume g: "growing (\<lambda>t. Q (ct_sessions t)) m" and k: "keeps_sessions q" and e: "q t = (Inr x, t')"
    and w: "well_named (ct_sessions t')" and p: "Q (ct_sessions t)"
  have "ct_sessions t' = ct_sessions t" by (rule untouchedD [OF k e])
  then have "Q (ct_sessions t')" using p by simp
  with g w show "grows (ct_sessions t') (ct_sessions (snd (m t')))" unfolding growing_def by blast
qed

lemma admit_grows:
  assumes "well_named (ct_sessions s)"
  shows "grows (ct_sessions s) (ct_sessions (snd (admit env c0 token lease s)))"
proof -
  have tail: "growing (\<lambda>_. True) (bindS (load_session env c) (\<lambda>r0.
     bindS (require env c token (td_capability (fst tool))) (\<lambda>_.
     bindS (forS (require env c token) (td_additional_capabilities (fst tool))) (\<lambda>_.
     bindS (apply_smart_stop env c) (\<lambda>_.
     bindS (if td_mutates (fst tool) then load_session env c else retS r0) (\<lambda>r.
     bindS (audit ''core.command.started'' c) (\<lambda>_.
       reserve env c tool digest r lease)))))))" for c tool digest
  proof (rule growing_bind_quiet)
    fix r0 s s' assume ls: "load_session env c s = (Inr r0, s')"
    assume w: "well_named (ct_sessions s')"
    have d0: "doc (ct_sessions s') (cc_session_id c) = Some r0" using load_session_Inr [OF ls] by simp
    let ?P = "\<lambda>t. doc (ct_sessions t) (cc_session_id c) = Some r0"
    have last: "growing ?P (bindS (if td_mutates (fst tool) then load_session env c else retS r0) (\<lambda>r.
       bindS (audit ''core.command.started'' c) (\<lambda>_. reserve env c tool digest r lease)))"
    proof (rule growing_bind_quiet)
      fix r t t' assume e: "(if td_mutates (fst tool) then load_session env c else retS r0) t = (Inr r, t')"
        and w: "well_named (ct_sessions t')" and p: "?P t"
      have d: "doc (ct_sessions t') (cc_session_id c) = Some r"
        using e p load_session_Inr [of env c t r t'] by (auto simp: retS_def split: if_splits)
      show "grows (ct_sessions t') (ct_sessions (snd (bindS (audit ''core.command.started'' c)
          (\<lambda>_. reserve env c tool digest r lease) t')))"
        using reserve_grows [of "t'\<lparr>ct_audit := ct_audit t' @ [(''core.command.started'', c)]\<rparr>" c r env tool digest lease]
          d w
        by (simp add: bindS_snd audit_def putS_def)
    qed (intro kept)
    note chain = growing_after [where Q = "\<lambda>st. doc st (cc_session_id c) = Some r0"]
    have "growing ?P (bindS (require env c token (td_capability (fst tool))) (\<lambda>_.
     bindS (forS (require env c token) (td_additional_capabilities (fst tool))) (\<lambda>_.
     bindS (apply_smart_stop env c) (\<lambda>_.
     bindS (if td_mutates (fst tool) then load_session env c else retS r0) (\<lambda>r.
     bindS (audit ''core.command.started'' c) (\<lambda>_.
       reserve env c tool digest r lease))))))"
      by (intro chain last kept)
    then show "grows (ct_sessions s') (ct_sessions (snd (bindS (require env c token (td_capability (fst tool))) (\<lambda>_.
     bindS (forS (require env c token) (td_additional_capabilities (fst tool))) (\<lambda>_.
     bindS (apply_smart_stop env c) (\<lambda>_.
     bindS (if td_mutates (fst tool) then load_session env c else retS r0) (\<lambda>r.
     bindS (audit ''core.command.started'' c) (\<lambda>_.
       reserve env c tool digest r lease))))) s')))"
      using w d0 by (simp add: growing_def)
  qed (intro kept)
  have next_step: "(\<And>x. growing (\<lambda>_. True) (k x)) \<Longrightarrow> keeps_sessions q \<Longrightarrow> growing (\<lambda>_. True) (bindS q k)"
    for q :: "('h, 'd, 'z) core_step" and k :: "'z \<Rightarrow> ('h, 'd, admission) core_step"
    by (rule growing_bind_quiet) (simp_all add: growing_def)
  have third: "growing (\<lambda>_. True) (bindS (input_digest env c) (\<lambda>digest. bindS (load_session env c) (\<lambda>r0.
     bindS (require env c token (td_capability (fst tool))) (\<lambda>_.
     bindS (forS (require env c token) (td_additional_capabilities (fst tool))) (\<lambda>_.
     bindS (apply_smart_stop env c) (\<lambda>_.
     bindS (if td_mutates (fst tool) then load_session env c else retS r0) (\<lambda>r.
     bindS (audit ''core.command.started'' c) (\<lambda>_.
       reserve env c tool digest r lease))))))))" for c tool
    by (rule growing_bind_quiet) (use tail in \<open>simp_all add: growing_def kept\<close>)
  have second: "growing (\<lambda>_. True) (bindS (review env c0 t0) (\<lambda>(c, tool). bindS (input_digest env c) (\<lambda>digest. bindS (load_session env c) (\<lambda>r0.
     bindS (require env c token (td_capability (fst tool))) (\<lambda>_.
     bindS (forS (require env c token) (td_additional_capabilities (fst tool))) (\<lambda>_.
     bindS (apply_smart_stop env c) (\<lambda>_.
     bindS (if td_mutates (fst tool) then load_session env c else retS r0) (\<lambda>r.
     bindS (audit ''core.command.started'' c) (\<lambda>_.
       reserve env c tool digest r lease)))))))))" for t0
    by (rule growing_bind_quiet) (use third in \<open>auto simp: growing_def keeps_review\<close>)
  have "growing (\<lambda>_. True) (admit env c0 token lease)"
    unfolding admit_def
    by (rule growing_bind_quiet) (use second in \<open>simp_all add: growing_def kept\<close>)
  with assms show ?thesis by (simp add: growing_def)
qed

lemma run_handler_sessions: "keeps_sessions (run_handler a)"
  unfolding run_handler_def
  by (rule keeps_bind) (auto simp: untouched_def putS_def bindS_snd audit_def raiseS_def retS_def split: sum.split)

lemma perform_grows:
  assumes "doc (ct_sessions s) sid = Some (am_record a)" "well_named (ct_sessions s)"
  shows "grows (ct_sessions s) (ct_sessions (snd (perform env a s)))"
proof (cases "run_handler a s")
  case (Pair x s1)
  have e: "ct_sessions s1 = ct_sessions s" by (rule untouchedD [OF run_handler_sessions Pair])
  show ?thesis
  proof (cases x)
    case (Inr out)
    have f: "grows (ct_sessions s1) (ct_sessions (snd (finish env a (core_result a out) s1)))"
      by (rule finish_grows) (use assms e in simp_all)
    show ?thesis
      using f e by (simp add: perform_def bindS_snd Pair Inr Let_def audit_def putS_def retS_def split: sum.split prod.split)
        auto
  qed (simp add: perform_def bindS_snd Pair e)
qed

text \<open>
  The life of a boundary: executions by anyone with any environment, session operations, deletions of
  archived sessions, and changes of the policy and the ledger (grants, approvals, issued confirmations), in
  any order. Deleting a session starts its identifier anew when its directory is really removed.
\<close>

inductive core_reachable :: "pystr set \<Rightarrow> ('h, 'd) core_state \<Rightarrow> bool" where
  c_fresh: "ct_calls s = [] \<Longrightarrow> well_named (ct_sessions s) \<Longrightarrow> core_reachable {} s"
| c_execute: "core_reachable D s \<Longrightarrow> execute env c token lease s = (res, s') \<Longrightarrow> core_reachable D s'"
| c_sessions: "core_reachable D s \<Longrightarrow> core_reachable D (s\<lparr>ct_sessions := lifecycle_step op (ct_sessions s)\<rparr>)"
| c_delete: "core_reachable D s \<Longrightarrow> core_reachable (if outcome = Removed then insert sid D else D)
    (s\<lparr>ct_sessions := snd (delete_archived now outcome sid (ct_sessions s))\<rparr>)"
| c_authority: "core_reachable D s \<Longrightarrow> core_reachable D (s\<lparr>ct_policy := P, ct_ledger := L, ct_rollback := b\<rparr>)"

lemma kept_keys_insert: "set (kept_keys (insert sid D) es) = {e \<in> set (kept_keys D es). fst e \<noteq> sid}"
  "distinct (kept_keys D es) \<Longrightarrow> distinct (kept_keys (insert sid D) es)"
proof -
  have "kept_keys (insert sid D) es = filter (\<lambda>e. fst e \<noteq> sid) (kept_keys D es)" by (auto simp: kept_keys_def intro: filter_cong)
  then show "set (kept_keys (insert sid D) es) = {e \<in> set (kept_keys D es). fst e \<noteq> sid}"
    "distinct (kept_keys D es) \<Longrightarrow> distinct (kept_keys (insert sid D) es)" by auto
qed

lemma core_ok_removed:
  assumes "core_ok D s"
  shows "core_ok (insert sid D) (s\<lparr>ct_sessions := snd (delete_archived now Removed sid (ct_sessions s))\<rparr>)"
proof -
  let ?st' = "snd (delete_archived now Removed sid (ct_sessions s))"
  obtain st1 where st1: "unhurt (ct_sessions s) st1" "?st' = st1 \<or> doc ?st' = (doc st1)(sid := None)"
    by (rule delete_removed)
  have w: "well_named (ct_sessions s)" using assms by (simp add: core_ok_def)
  have g: "grows (ct_sessions s) st1" by (rule grows_unhurt [OF w st1(1)])
  then have w1: "well_named st1" using w by (simp add: grows_def)
  have "well_named ?st'" using w1 st1(2) by (auto simp: well_named_def split: if_splits)
  moreover have "has_entry ?st' e" if "has_entry (ct_sessions s) e" "fst e \<noteq> sid" for e
    using has_entry_grows [OF g w that(1)] st1(2) that(2) by (auto simp: has_entry_def)
  ultimately show ?thesis using assms kept_keys_insert by (auto simp: core_ok_def)
qed

lemma core_reachable_ok: "core_reachable D s \<Longrightarrow> core_ok D s"
proof (induction rule: core_reachable.induct)
  case (c_fresh s)
  then show ?case by (simp add: core_ok_def kept_keys_def)
next
  case (c_delete D s outcome sid now)
  have w: "well_named (ct_sessions s)" using c_delete.IH by (simp add: core_ok_def)
  show ?case
  proof (cases "outcome = Removed")
    case False
    have "core_ok D (s\<lparr>ct_sessions := snd (delete_archived now outcome sid (ct_sessions s))\<rparr>)"
      by (rule core_ok_grows [OF c_delete.IH]) (simp_all add: grows_unhurt [OF w calm_delete [OF False]])
    with False show ?thesis by simp
  qed (simp add: core_ok_removed [OF c_delete.IH])
next
  case (c_execute D s env c token lease res s')
  note ok = c_execute.IH
  have w: "well_named (ct_sessions s)" using ok by (simp add: core_ok_def)
  obtain x s1 where ad: "admit env c token lease s = (x, s1)" by (cases "admit env c token lease s")
  have g1: "grows (ct_sessions s) (ct_sessions s1)" using admit_grows [OF w, of env c token lease] ad by simp
  have c1: "ct_calls s1 = ct_calls s" using untouchedD [OF keeps_admit ad] .
  have ok1: "core_ok D s1" by (rule core_ok_grows [OF ok g1 c1])
  show ?case
  proof (cases x)
    case (Inl e)
    with c_execute(2) ad ok1 show ?thesis by (simp add: execute_def bindS_err)
  next
    case (Inr a)
    from admit_record [OF ad [unfolded Inr] w] have w1: "well_named (ct_sessions s1)"
      and d1: "doc (ct_sessions s1) (cc_session_id (am_command a)) = Some (am_record a)"
      and fresh: "\<And>k. am_replay a = None \<Longrightarrow> once_key (am_command a, am_tool a) = Some k \<Longrightarrow>
        \<not> has_entry (ct_sessions s) k \<and> has_entry (ct_sessions s1) k" by auto
    show ?thesis
    proof (cases "am_replay a")
      case (Some st)
      with c_execute(2) ad Inr have r: "replayed_result env (am_command a) st s1 = (res, s')"
        by (simp add: execute_def bindS_ok)
      from untouchedD [OF keeps_replayed(2) r] untouchedD [OF keeps_replayed(1) r] core_ok_grows [OF ok1, of s']
      show ?thesis by simp
    next
      case None
      with c_execute(2) ad Inr have pf: "perform env a s1 = (res, s')" by (simp add: execute_def bindS_ok)
      have g2: "grows (ct_sessions s1) (ct_sessions s')" using perform_grows [OF d1 w1, of env] pf by simp
      have calls': "ct_calls s' = ct_calls s @ [(am_command a, am_tool a)]"
        using perform_calls [of env a s1] pf c1 by simp
      have w': "well_named (ct_sessions s')" using g2 w1 grows_named by blast
      have old: "has_entry (ct_sessions s') k" if "has_entry (ct_sessions s1) k" for k
        using has_entry_grows [OF g2 w1 that] .
      show ?thesis
      proof (cases "once_key (am_command a, am_tool a)")
        case N: None
        with ok1 w' old calls' c1 show ?thesis by (simp add: core_ok_def kept_keys_def)
      next
        case (Some k)
        have "k \<notin> set (kept_keys D (ct_calls s))" using fresh [OF None Some] ok by (auto simp: core_ok_def)
        with ok1 w' old calls' c1 Some fresh [OF None Some] show ?thesis by (auto simp: core_ok_def kept_keys_def)
      qed
    qed
  qed
next
  case (c_sessions D s op)
  have w: "well_named (ct_sessions s)" using c_sessions.IH by (simp add: core_ok_def)
  show ?case
    by (rule core_ok_grows [OF c_sessions.IH]) (simp_all add: grows_unhurt [OF w calm_lifecycle [OF w]])
next
  case (c_authority D s P L b)
  then show ?case by (simp add: core_ok_def)
qed

section \<open>A confirmed command cannot be retried\<close>

lemma unreviewed_command:
  assumes "admit env c0 token lease s = (Inr a, s')" "ce_reviewer env = None"
  shows "am_command a = c0"
proof -
  obtain t0 c tool digest r0 s1 s2 s3 r s4 where p:
    "resolve_tool env c0 s = (Inr t0, s)" "review env c0 t0 s = (Inr (c, tool), s)"
    "load_session env c s = (Inr r0, s)" "require env c token (td_capability (fst tool)) s = (Inr (), s1)"
    "only_policy s1 s2" "apply_smart_stop env c s2 = (Inr (), s3)"
    "doc (ct_sessions s) (cc_session_id c) = Some r"
    "ct_sessions s4 = ct_sessions s" "reserve env c tool digest r lease s4 = (Inr a, s')" "ct_ledger s4 = ct_ledger s3"
    using admit_parts [OF assms(1)] by metis
  have "c = c0" using p(2) assms(2) by (simp add: review_def retS_def)
  then show ?thesis using reserve_Inr [OF p(9)] by simp
qed

lemma finished_is_admitted:
  assumes "execute env c0 token lease s = (Inr r, s')" "ce_reviewer env = None"
  shows "\<exists>d. admitted env c0 token lease s c0 d"
proof -
  obtain a s1 where a: "admit env c0 token lease s = (Inr a, s1)"
    using assms by (auto simp: execute_def bindS_Inr)
  show ?thesis using admit_admitted [OF a] unreviewed_command [OF a assms(2)] by metis
qed

lemma keeps_run_ledger: "keeps_ledger (run_handler a)"
  unfolding run_handler_def
  by (rule keeps_bind) (auto simp: untouched_def putS_def bindS_def audit_def raiseS_def retS_def split: sum.split)

lemma keeps_perform_ledger: "keeps_ledger (perform env a)"
  unfolding perform_def Let_def by (intro kept keeps_run_ledger)

lemma spent_token:
  assumes "redeem TH now (Some t) a L = (Inr (), L')"
  shows "\<not> token_bound TH L' t a' now'"
  using assms redeem_accept_spends [of TH now t a L L'] by (auto simp: token_live_def token_bound_def)

lemma finished_spends:
  assumes "execute env c token lease s = (Inr r, s')" "ce_reviewer env = None" "ce_engine env = Some E"
    and "\<not> ce_consequence env" "as_requires_confirmation (assess (ce_H env) E (core_action env c))"
    and "cc_confirmation_token c = Some t"
  shows "\<not> token_bound (ce_TH env) (ct_ledger s') t a now"
proof -
  obtain m u where ad: "admit env c token lease s = (Inr m, u)"
    and rest: "(case am_replay m of Some st \<Rightarrow> replayed_result env (am_command m) st | None \<Rightarrow> perform env m) u = (Inr r, s')"
    using assms(1) by (auto simp: execute_def bindS_Inr)
  obtain t0 c' tool digest r0 s1 s2 s3 r' s4 where p:
    "resolve_tool env c s = (Inr t0, s)" "review env c t0 s = (Inr (c', tool), s)"
    "load_session env c' s = (Inr r0, s)" "require env c' token (td_capability (fst tool)) s = (Inr (), s1)"
    "only_policy s1 s2" "apply_smart_stop env c' s2 = (Inr (), s3)"
    "doc (ct_sessions s) (cc_session_id c') = Some r'"
    "ct_sessions s4 = ct_sessions s" "reserve env c' tool digest r' lease s4 = (Inr m, u)" "ct_ledger s4 = ct_ledger s3"
    using admit_parts [OF ad] by metis
  have c: "c' = c" using p(2) assms(2) by (simp add: review_def retS_def)
  obtain x L where au: "authorize (ce_H env) (ce_TH env) E (ce_now env) (core_action env c) (Some t) (ct_ledger s2) = (x, L)"
    by fastforce
  have "\<exists>y. x = Inr y \<and> ct_ledger s3 = L"
    using p(6) assms(3,4,6) au
    by (cases x rule: sum.exhaust; cases "projl x")
      (auto simp: c apply_smart_stop_def core_smart_stop_def Let_def bindS_Inr in_ledger_Inr publish_risk_def putS_def
        split: if_splits)
  then have "\<not> token_bound (ce_TH env) (ct_ledger s3) t a now"
    using au assms(5) spent_token [of "ce_TH env" "ce_now env" t _ "ct_ledger s2" L] by (auto simp: authorize_Inr_iff)
  moreover have "ct_ledger s' = ct_ledger s3"
  proof -
    have "ct_ledger u = ct_ledger s3" using untouchedD [OF keeps_reserve(2) p(9)] p(10) by simp
    moreover have "ct_ledger s' = ct_ledger u"
      using rest untouchedD [OF keeps_replayed(3)] untouchedD [OF keeps_perform_ledger] by (auto split: option.splits)
    ultimately show ?thesis by simp
  qed
  ultimately show ?thesis by simp
qed

text \<open>
  The gate redeems the token before the recorded answer is looked up, so a client that lost the answer of
  a confirmed command cannot get it by repeating the same call with the same key and token.
\<close>

lemma confirmed_retry_is_refused:
  assumes "execute env c token lease s = (Inr r, s')" "ce_reviewer env = None" "ce_engine env = Some E"
    and "\<not> ce_consequence env" "as_requires_confirmation (assess (ce_H env) E (core_action env c))"
    and "ct_ledger s'' = ct_ledger s'"
  shows "fst (execute (env\<lparr>ce_now := now\<rparr>) c token' lease' s'') \<noteq> Inr r'"
proof
  assume "fst (execute (env\<lparr>ce_now := now\<rparr>) c token' lease' s'') = Inr r'"
  then obtain u where e: "execute (env\<lparr>ce_now := now\<rparr>) c token' lease' s'' = (Inr r', u)"
    by (cases "execute (env\<lparr>ce_now := now\<rparr>) c token' lease' s''") auto
  have act: "core_action (env\<lparr>ce_now := now\<rparr>) c = core_action env c" by (simp add: core_action_def)
  have "risk_cleared (env\<lparr>ce_now := now\<rparr>) c s''"
    using finished_is_admitted [OF e] assms(2) by (auto simp: admitted_def)
  then obtain t where t: "cc_confirmation_token c = Some t"
    "token_bound (ce_TH env) (ct_ledger s') t (assess (ce_H env) E (core_action env c)) now"
    using assms(3-6) by (auto simp: risk_cleared_def act Let_def)
  from finished_spends [OF assms(1-5) t(1)] t(2) show False by blast
qed

section \<open>A sample boundary\<close>

text \<open>An approved push from the session of the session samples, confirmed by a human; the sample tool is replayable.\<close>

definition push_command :: CoreCommand where
  "push_command = (sample_command ''git.push'' [])\<lparr>cc_session_id := lit ''s'', cc_origin := agent,
     cc_idempotency_key := Some (lit ''k''), cc_confirmation_token := Some (lit ''tok'')\<rparr>"

definition push_tool :: ToolDefinition where
  "push_tool = \<lparr>td_name = lit ''git.push'', td_capability = GIT_PUSH, td_mutates = True, td_input_schema = [],
     td_additional_capabilities = [], td_external_schema = False, td_replayable = True\<rparr>"

definition demo_core_env :: "(pystr, pyval) core_env" where
  "demo_core_env = \<lparr>ce_ud = verbatim_ud, ce_cv = plain_conv, ce_H = id, ce_TH = id, ce_now = 2,
     ce_engine = Some default_engine, ce_consequence = False, ce_bypass = False, ce_events = False,
     ce_paths = \<lparr>pe_anchored = (\<lambda>_. True), pe_within = (\<lambda>_. True)\<rparr>, ce_head = None, ce_repository = lit ''r'',
     ce_repo_view = demo_repo, ce_validator = Some (\<lambda>_. None),
     ce_tools = (\<lambda>n. if n = lit ''git.push'' then Some push_tool else None),
     ce_handlers = (\<lambda>n. if n = lit ''git.push'' then Some (\<lambda>_ _. Inr ([], [])) else None), ce_mcp = None,
     ce_reviewer = None, ce_digest = (\<lambda>_. Some (lit ''d'')), ce_preflight = (\<lambda>_ _ _. None),
     ce_file_digest = (\<lambda>_. Inr None), ce_fresh = PNone\<rparr>"

definition demo_core :: "(pystr, pyval) core_state" where
  "demo_core = \<lparr>ct_sessions = demo_sessions, ct_policy = demo_policy\<lparr>cp_profile := WORKSPACE_WRITE\<rparr>,
     ct_ledger = snd (issue id (lit ''tok'') 0 (assess id default_engine (core_action demo_core_env push_command)) None
       \<lparr>lg_ttl = 300, lg_entries = []\<rparr>),
     ct_rollback = None, ct_published = [], ct_audit = [], ct_calls = []\<rparr>"

abbreviation approval :: "pystr option" where
  "approval \<equiv> Some (lit ''0123456789abcdef'')"

lemma push_fields [simp]:
  "cc_name push_command = lit ''git.push''" "cc_arguments push_command = []" "cc_session_id push_command = lit ''s''"
  "cc_origin push_command = agent" "cc_idempotency_key push_command = Some (lit ''k'')"
  "cc_confirmation_token push_command = Some (lit ''tok'')" "cc_deadline_seconds push_command = 60"
  by (simp_all add: push_command_def sample_command_def)

lemma push_tool_fields [simp]:
  "td_mutates push_tool" "td_replayable push_tool" "td_capability push_tool = GIT_PUSH"
  "td_additional_capabilities push_tool = []" "arguments_ok push_tool []"
  by (simp_all add: push_tool_def arguments_ok_def pget_or_def sub_map_def)

lemma push_kind: "ra_kind (core_action env push_command) = lit ''git.push''"
  by (simp add: core_action_def action_for_command_def Let_def risk_kind_for_def COMMAND_RISK_KINDS_def)

lemma push_stops: "as_requires_confirmation (assess H default_engine (core_action env push_command))"
  by (simp add: risk_verdict_level push_kind base_level_cases CRITICAL_KINDS_def)
    (simp add: default_engine_def less_RiskLevel_def)

lemma demo_resolve:
  "\<exists>h. resolve_tool demo_core_env push_command s = (Inr (push_tool, h), s)"
  by (simp add: resolve_tool_def tool_of_def demo_core_env_def retS_def)

lemma push_loads:
  assumes "ct_sessions s = demo_sessions" "cp_profile (ct_policy s) = WORKSPACE_WRITE"
  shows "load_session demo_core_env push_command s = (Inr demo_session, s)"
proof -
  have "session_load (lit ''s'') demo_sessions = (Inr demo_session, demo_sessions)"
    by (simp add: session_load_def check_id_def demo_sessions_def bindS_def retS_def getS_def)
  moreover have "sr_access_profile demo_session = WORKSPACE_WRITE"
    by (simp add: demo_session_def new_session_def)
  ultimately show ?thesis
    using assms by (simp add: load_session_def in_sessions_def zoomS_def bindS_def getS_def retS_def check_repository_def
        demo_core_env_def)
qed

lemma demo_require:
  "\<exists>P. require demo_core_env push_command approval GIT_PUSH demo_core = (Inr (), demo_core\<lparr>ct_policy := P\<rparr>) \<and>
     cp_profile P = WORKSPACE_WRITE"
  by (simp add: require_def bindS_def zoomS_def retS_def demo_core_def demo_core_env_def require_capability_def
      policy_decide_def demo_policy_def new_policy_def token_name_def ALWAYS_EXPLICIT_def decision_def pop_token_def Let_def)

lemma demo_stop:
  "\<exists>L. apply_smart_stop demo_core_env push_command (demo_core\<lparr>ct_policy := P\<rparr>) =
     (Inr (), demo_core\<lparr>ct_policy := P, ct_ledger := L\<rparr>)"
proof -
  let ?a = "core_action demo_core_env push_command"
  have "\<exists>L. redeem id 2 (Some (lit ''tok'')) (assess id default_engine ?a) (ct_ledger demo_core) = (Inr (), L)"
    by (simp add: redeem_def issue_def Let_def demo_core_def)
  then obtain L where "authorize id id default_engine 2 ?a (Some (lit ''tok'')) (ct_ledger demo_core) =
      (Inr (assess id default_engine ?a), L)"
    using push_stops [of id demo_core_env] by (auto simp: authorize_Inr_iff)
  moreover have "ce_engine demo_core_env = Some default_engine" "ce_H demo_core_env = id" "ce_TH demo_core_env = id"
    "ce_now demo_core_env = 2" "\<not> ce_consequence demo_core_env" "\<not> ce_events demo_core_env"
    by (simp_all add: demo_core_env_def)
  ultimately show ?thesis
    by (intro exI [of _ L]) (simp add: apply_smart_stop_def core_smart_stop_def Let_def bindS_def in_ledger_def publish_risk_def putS_def)
qed

lemma demo_reserve:
  assumes "ct_sessions s = demo_sessions"
  shows "\<exists>a s'. reserve demo_core_env push_command (push_tool, h) (lit ''d'') demo_session (Some session_lease_0) s =
      (Inr a, s') \<and> am_replay a = None \<and> am_command a = push_command \<and> am_tool a = push_tool"
proof -
  have "validate_lease 2 session_lease_0 demo_sessions = (Inr (), demo_sessions)"
    by (simp add: validate_lease_def with_lock_def validate_lease_unlocked_def lease_of_def demo_sessions_def session_lease_0_def
        bindS_def retS_def getS_def Let_def)
  then have "mutation_rights demo_core_env push_command (Some session_lease_0) s = (Inr (session_lease_0, lit ''k''), s)"
    using assms by (simp add: mutation_rights_def in_sessions_def zoomS_def bindS_def retS_def demo_core_env_def
        session_lease_0_def preflight_mutation_def)
  then show ?thesis
    using assms demo_begin by (simp add: reserve_def Let_def bindS_def in_sessions_def zoomS_def retS_def demo_core_env_def)
qed

lemma demo_admit:
  "\<exists>a s'. admit demo_core_env push_command approval (Some session_lease_0) demo_core = (Inr a, s') \<and>
     am_replay a = None \<and> am_command a = push_command \<and> am_tool a = push_tool"
proof -
  obtain h where h: "\<And>s. resolve_tool demo_core_env push_command s = (Inr (push_tool, h), s)"
    by (simp add: resolve_tool_def tool_of_def demo_core_env_def retS_def)
  obtain P where P: "require demo_core_env push_command approval GIT_PUSH demo_core = (Inr (), demo_core\<lparr>ct_policy := P\<rparr>)"
    "cp_profile P = WORKSPACE_WRITE"
    using demo_require by blast
  obtain L where L: "apply_smart_stop demo_core_env push_command (demo_core\<lparr>ct_policy := P\<rparr>) =
      (Inr (), demo_core\<lparr>ct_policy := P, ct_ledger := L\<rparr>)"
    using demo_stop by blast
  let ?s = "demo_core\<lparr>ct_policy := P, ct_ledger := L, ct_audit := [(''core.command.started'', push_command)]\<rparr>"
  have l: "load_session demo_core_env push_command demo_core = (Inr demo_session, demo_core)"
    "load_session demo_core_env push_command (demo_core\<lparr>ct_policy := P, ct_ledger := L\<rparr>) =
       (Inr demo_session, demo_core\<lparr>ct_policy := P, ct_ledger := L\<rparr>)"
    using P(2) by (simp_all add: push_loads demo_core_def)
  have r: "review demo_core_env push_command (push_tool, h) demo_core = (Inr (push_command, push_tool, h), demo_core)"
    "input_digest demo_core_env push_command demo_core = (Inr (lit ''d''), demo_core)"
    by (simp_all add: review_def input_digest_def demo_core_env_def retS_def)
  have au: "audit ''core.command.started'' push_command (demo_core\<lparr>ct_policy := P, ct_ledger := L\<rparr>) = (Inr (), ?s)"
    by (simp add: audit_def putS_def demo_core_def)
  have "ct_sessions ?s = demo_sessions" by (simp add: demo_core_def)
  note res = demo_reserve [OF this, of h]
  have "admit demo_core_env push_command approval (Some session_lease_0) demo_core =
      reserve demo_core_env push_command (push_tool, h) (lit ''d'') demo_session (Some session_lease_0) ?s"
    unfolding admit_def by (simp add: bindS_def h r l P L au retS_def)
  with res show ?thesis by simp
qed

lemma demo_call:
  "ct_calls (snd (execute demo_core_env push_command approval (Some session_lease_0) demo_core)) = [(push_command, push_tool)]"
proof -
  obtain a s' where a: "admit demo_core_env push_command approval (Some session_lease_0) demo_core = (Inr a, s')"
    "am_replay a = None" "am_command a = push_command" "am_tool a = push_tool"
    using demo_admit by blast
  have "ct_calls s' = []" using untouchedD [OF keeps_admit a(1)] by (simp add: demo_core_def)
  with a perform_calls [of demo_core_env a s'] show ?thesis by (simp add: execute_def bindS_def)
qed

section \<open>Properties\<close>

text \<open>C3. 
  Nothing happens behind the boundary: whatever an execution returns or raises, it calls at most one
  handler, and only for a registered tool with arguments that fit its schema, in a live session of the
  same profile, after the capability policy allowed the origin, the risk gate was cleared, and, for a
  mutation, under an unexpired lease of this very session with an idempotency key.
\<close>
theorem every_call_is_admitted:
  assumes "execute env c token lease s = (res, s')" and "ct_calls s' \<noteq> ct_calls s"
  shows "\<exists>c' d. ct_calls s' = ct_calls s @ [(c', d)] \<and> admitted env c token lease s c' d"
  using execute_calls [OF assms(1)] assms(2) admit_admitted by metis

theorem every_call_is_admitted_witness:
  "\<exists>c' d. ct_calls (snd (execute demo_core_env push_command approval (Some session_lease_0) demo_core)) = [(c', d)] \<and>
     admitted demo_core_env push_command approval (Some session_lease_0) demo_core c' d"
proof -
  obtain res s' where e: "execute demo_core_env push_command approval (Some session_lease_0) demo_core = (res, s')"
    by fastforce
  have n: "ct_calls demo_core = []" by (simp add: demo_core_def)
  have "ct_calls s' \<noteq> ct_calls demo_core" using demo_call e n by simp
  from every_call_is_admitted [OF e this] e n show ?thesis by simp
qed

text \<open>C4. 
  With a risk engine, no handler runs without the gate. Under the kind gate, when the reviewed command that
  is called has a kind outside the low and medium tables, its caller presented a live token a human issued
  for exactly the assessment of this command. Under the consequence gate a called command is a dry run, or
  its decision is no hard block, and if the decision asks for a confirmation the caller presented a live
  token issued for exactly its assessment. This holds for every engine that can be built, whatever the
  handlers do; a boundary without an engine has no gate.
\<close>
theorem dangerous_commands_need_a_human:
  assumes "execute env c token lease s = (res, s')" and "(c', d) \<in> set (drop (length (ct_calls s)) (ct_calls s'))"
    and "ce_engine env = Some E" and "new_engine auto bf bd fr = Inr E"
  shows "if ce_consequence env
    then dry_run c' \<or>
      (let v = decide (ce_H env) (ce_ud env) E (capability_action env (snd (intent_of c' s)) c') (fst (intent_of c' s)) (ce_bypass env)
       in \<not> ad_hard_blocked v \<and> (ad_requires_confirmation v \<longrightarrow>
            (\<exists>t. cc_confirmation_token c = Some t \<and> token_bound (ce_TH env) (ct_ledger s) t (ad_assessment v) (ce_now env))))
    else ra_kind (core_action env c') \<notin> MEDIUM_KINDS \<union> LOW_KINDS \<longrightarrow>
      (\<exists>t. cc_confirmation_token c = Some t \<and>
         token_bound (ce_TH env) (ct_ledger s) t (assess (ce_H env) E (core_action env c')) (ce_now env))"
proof -
  obtain a s1 where "admit env c token lease s = (Inr a, s1)" "c' = am_command a"
    using execute_calls [OF assms(1)] assms(2) by auto
  from admit_admitted [OF this(1)] this(2) have ad: "same_identity c' c" "risk_cleared env c' s"
    by (simp_all add: admitted_def)
  have tok: "cc_confirmation_token c' = cc_confirmation_token c" using ad(1) by (simp add: same_identity_def)
  have "as_requires_confirmation (assess (ce_H env) E (core_action env c'))"
    if "ra_kind (core_action env c') \<notin> MEDIUM_KINDS \<union> LOW_KINDS"
    using stopped_without_token [OF assms(4) that, of "ce_H env" "ce_TH env" 0 "ct_ledger s"]
    by (auto simp: authorize_def Let_def split: if_splits)
  with ad(2) assms(3) show ?thesis by (auto simp: risk_cleared_def tok Let_def split: if_splits)
qed

theorem dangerous_commands_need_a_human_witness:
  "\<exists>t. cc_confirmation_token push_command = Some t \<and>
     token_bound id (ct_ledger demo_core) t (assess id default_engine (core_action demo_core_env push_command)) 2"
proof -
  obtain res s' where e: "execute demo_core_env push_command approval (Some session_lease_0) demo_core = (res, s')"
    by fastforce
  have f: "ce_engine demo_core_env = Some default_engine" "\<not> ce_consequence demo_core_env" "ce_H demo_core_env = id"
    "ce_TH demo_core_env = id" "ce_now demo_core_env = 2"
    by (simp_all add: demo_core_env_def)
  have n: "(push_command, push_tool) \<in> set (drop (length (ct_calls demo_core)) (ct_calls s'))"
    using demo_call e by (simp add: demo_core_def)
  have k: "ra_kind (core_action demo_core_env push_command) \<notin> MEDIUM_KINDS \<union> LOW_KINDS"
    by (simp add: push_kind MEDIUM_KINDS_def LOW_KINDS_def)
  from dangerous_commands_need_a_human [OF e n f(1) default_engine_new] f(2) k show ?thesis
    by (simp add: f)
qed

text \<open>C5. 
  A mutation runs at most once per idempotency key, for the whole life of the boundary: however executions,
  session operations, deletions of archived sessions and changes of authority follow each other, no two calls
  of a replayable mutating tool have the same session and key, unless the directory of the session was removed.
\<close>
theorem mutations_run_once:
  assumes "core_reachable D s"
  shows "distinct (filter (\<lambda>e. fst e \<notin> D) (once_keys (ct_calls s)))"
  unfolding kept_keys_def [symmetric] using core_reachable_ok [OF assms] by (simp add: core_ok_def)

theorem mutations_run_once_witness:
  "\<exists>s :: (pystr, pyval) core_state. core_reachable {} s \<and> (lit ''s'', lit ''k'') \<in> set (once_keys (ct_calls s)) \<and> distinct (once_keys (ct_calls s))"
proof -
  let ?run = "execute demo_core_env push_command approval (Some session_lease_0)"
  let ?s = "snd (?run (snd (?run demo_core)))"
  have "well_named demo_sessions"
    by (simp add: well_named_def demo_sessions_def doc_def split: if_splits)
  then have "core_reachable {} demo_core" by (intro c_fresh) (simp_all add: demo_core_def)
  then have r: "core_reachable {} (snd (?run demo_core))" "core_reachable {} ?s" by (metis c_execute prod.collapse)+
  have "\<exists>es. ct_calls ?s = ct_calls (snd (?run demo_core)) @ es"
    using execute_calls [of demo_core_env push_command approval "Some session_lease_0" "snd (?run demo_core)"]
    by (metis append_Nil2 prod.collapse)
  then have "(lit ''s'', lit ''k'') \<in> set (once_keys (ct_calls ?s))"
    by (auto simp: demo_call intro!: in_once_keys [of "(push_command, push_tool)"]) (simp add: once_key_def)
  then show ?thesis using mutations_run_once [OF r(2)] r(2) by (intro exI [of _ ?s]) simp
qed

end
