(* ===== verification/FnMatch.thy ===== *)
theory FnMatch imports PyText begin

text \<open>
  The shell patterns of Python's \<^verbatim>\<open>fnmatch.fnmatchcase\<close>: \<open>*\<close>, \<open>?\<close> and bracket classes with ranges and a
  leading \<open>!\<close>, read the way \<^verbatim>\<open>fnmatch.translate\<close> reads them. \<open>src/karox/model_grants.py\<close> selects models with them.
\<close>

text \<open>A bracket class is a list of chunks; the end of a chunk and the start of the next one bound a range.\<close>

datatype glob_item = GStar | GAny | GClass bool "pystr list" | GChar nat

text \<open>The text between two hyphens; a search for the next hyphen starts three places behind the last, and a
  trailing hyphen is a plain one.\<close>

fun class_chunks :: "nat \<Rightarrow> pystr \<Rightarrow> pystr \<Rightarrow> pystr list" where
  "class_chunks skip chunk [] = (if chunk = [] then [] else [chunk])"
| "class_chunks skip chunk (c # s) =
     (if skip = 0 \<and> c = 45 then if s = [] then [chunk @ [45]] else chunk # class_chunks 2 [] s
      else class_chunks (skip - 1) (chunk @ [c]) s)"

text \<open>Empty ranges are removed from the right.\<close>

fun drop_empty_ranges :: "pystr list \<Rightarrow> pystr list" where
  "drop_empty_ranges (a # cs) =
     (case drop_empty_ranges cs of
        [] \<Rightarrow> [a]
      | b # bs \<Rightarrow> if a \<noteq> [] \<and> b \<noteq> [] \<and> hd b < last a then (butlast a @ tl b) # bs else a # b # bs)"
| "drop_empty_ranges [] = []"

fun in_chunks :: "nat \<Rightarrow> pystr list \<Rightarrow> bool" where
  "in_chunks c (a # b # cs) \<longleftrightarrow> c \<in> set a \<or> (a = [] \<and> c = 45) \<or> (a \<noteq> [] \<and> b \<noteq> [] \<and> last a \<le> c \<and> c \<le> hd b) \<or> in_chunks c (b # cs)"
| "in_chunks c [a] \<longleftrightarrow> c \<in> set a"
| "in_chunks c [] \<longleftrightarrow> False"

definition class_of :: "pystr \<Rightarrow> glob_item" where
  "class_of s =
     (let cs = drop_empty_ranges (class_chunks (if startswith s (lit ''!'') then 2 else 1) [] s)
      in case cs of
           (c # a) # bs \<Rightarrow> if c = 33 then GClass False (a # bs) else GClass True cs
         | _ \<Rightarrow> GClass True cs)"

text \<open>Where the class opened before \<open>s\<close> ends: its text and the rest of the pattern.\<close>

definition class_split :: "pystr \<Rightarrow> (pystr \<times> pystr) option" where
  "class_split s =
     (let n = (if startswith s (lit ''!'') then 1 else 0);
          m = (if startswith (drop n s) (lit '']'') then n + 1 else n);
          body = takeWhile (\<lambda>c. c \<noteq> 93) (drop m s)
      in if m + length body < length s then Some (take m s @ body, drop (m + length body + 1) s) else None)"

lemma class_split_shorter: "class_split s = Some (a, b) \<Longrightarrow> length b < length s"
  by (auto simp: class_split_def Let_def split: if_splits)

function glob_items :: "pystr \<Rightarrow> glob_item list" where
  "glob_items [] = []"
| "glob_items (c # s) =
     (if c = 42 then GStar # glob_items s
      else if c = 63 then GAny # glob_items s
      else if c = 91 then
        (case class_split s of
           None \<Rightarrow> GChar 91 # glob_items s
         | Some (a, b) \<Rightarrow> class_of a # glob_items b)
      else GChar c # glob_items s)"
  by pat_completeness auto
termination
  by (relation "measure length") (auto dest: class_split_shorter)

fun item_matches :: "glob_item \<Rightarrow> nat \<Rightarrow> bool" where
  "item_matches GAny c = True"
| "item_matches (GChar d) c = (c = d)"
| "item_matches (GClass pos cs) c = (in_chunks c cs = pos)"
| "item_matches GStar c = False"

fun glob_match :: "glob_item list \<Rightarrow> pystr \<Rightarrow> bool" where
  "glob_match [] s = (s = [])"
| "glob_match (GStar # p) [] = glob_match p []"
| "glob_match (GStar # p) (c # s) = (glob_match p (c # s) \<or> glob_match (GStar # p) s)"
| "glob_match (i # p) [] = False"
| "glob_match (i # p) (c # s) = (item_matches i c \<and> glob_match p s)"

definition fnmatchcase :: "pystr \<Rightarrow> pystr \<Rightarrow> bool" where
  "fnmatchcase s pat = glob_match (glob_items pat) s"

lemma glob_match_star: "glob_match (GStar # p) s \<longleftrightarrow> (\<exists>n \<le> length s. glob_match p (drop n s))"
proof (induction s)
  case (Cons c s)
  show ?case
  proof
    assume "glob_match (GStar # p) (c # s)"
    then consider "glob_match p (drop 0 (c # s))" | n where "n \<le> length s" "glob_match p (drop n s)"
      using Cons.IH by auto
    then show "\<exists>n\<le>length (c # s). glob_match p (drop n (c # s))"
    proof cases
      case 2
      then show ?thesis by (intro exI [of _ "Suc n"]) simp
    qed blast
  next
    assume "\<exists>n\<le>length (c # s). glob_match p (drop n (c # s))"
    then obtain n where n: "n \<le> Suc (length s)" "glob_match p (drop n (c # s))" by auto
    with Cons.IH show "glob_match (GStar # p) (c # s)" by (cases n) auto
  qed
qed simp

text \<open>A star matches everything; a pattern without special characters matches itself alone.\<close>

lemma fnmatch_star [simp]: "fnmatchcase s (lit ''*'')"
proof -
  have "glob_items (lit ''*'') = [GStar]" by (simp add: lit_def)
  then show ?thesis unfolding fnmatchcase_def by (auto simp: glob_match_star intro: exI [of _ "length s"])
qed

lemma fnmatch_plain: "set pat \<inter> {42, 63, 91} = {} \<Longrightarrow> fnmatchcase s pat \<longleftrightarrow> s = pat"
proof -
  have "glob_match (map GChar p) s \<longleftrightarrow> s = p" for p s
    by (induction p arbitrary: s) (case_tac s; auto)+
  moreover assume "set pat \<inter> {42, 63, 91} = {}"
  then have "glob_items pat = map GChar pat" by (induction pat) auto
  ultimately show ?thesis by (simp add: fnmatchcase_def)
qed

lemma fnmatch_examples:
  "fnmatchcase (lit ''gpt-4'') (lit ''gpt-[3-5]'')" "\<not> fnmatchcase (lit ''gpt-6'') (lit ''gpt-[3-5]'')"
  "fnmatchcase (lit ''a]b'') (lit ''a[]x]?'')" "\<not> fnmatchcase (lit ''axb'') (lit ''a[!x-z]*'')"
  "fnmatchcase (lit ''a-b'') (lit ''a[x-]b'')" "fnmatchcase (lit ''[a'') (lit ''[*'')"
  by (simp_all add: fnmatchcase_def lit_def class_split_def class_of_def startswith_def glob_match.simps)

end
