(* ===== verification/ModelGrants.thy ===== *)
theory ModelGrants imports FnMatch StateError PyRegex begin

text \<open>
  The spending ledger of delegated model calls, \<^verbatim>\<open>src/karox/model_grants.py\<close>: grants a local user issued, and
  the reservations made before a call leaves the machine. A table is a dictionary from the primary key to
  its row, in row order; a transaction is one step, rolled back when it raises. The grant in a row is the
  record its JSON payload was written from. The clock is read once per transaction. The identifier drawn
  for a new reservation and the fingerprint of a price proof are arguments; the payload of a prepared call,
  which the ledger never reads, is left out.
\<close>

section \<open>Authority\<close>

definition short_text :: "nat \<Rightarrow> pystr \<Rightarrow> bool" where
  "short_text n s \<longleftrightarrow> s \<noteq> [] \<and> length s \<le> n \<and> list_all (\<lambda>c. c \<notin> {13, 10, 0}) s"

record GrantScope =
  gs_connection_id :: "pystr option"
  gs_session_id :: "pystr option"
  gs_project_id :: "pystr option"

definition optional_text :: "pystr option \<Rightarrow> bool" where
  "optional_text v \<longleftrightarrow> (case v of None \<Rightarrow> True | Some s \<Rightarrow> short_text 256 s)"

definition scope_valid :: "GrantScope \<Rightarrow> bool" where
  "scope_valid s \<longleftrightarrow> optional_text (gs_connection_id s) \<and> optional_text (gs_session_id s) \<and> optional_text (gs_project_id s)"

definition scope_matches :: "GrantScope \<Rightarrow> GrantScope \<Rightarrow> bool" where
  "scope_matches s actual \<longleftrightarrow>
     list_all (\<lambda>(expected, observed). expected = None \<or> expected = observed)
       [(gs_connection_id s, gs_connection_id actual), (gs_session_id s, gs_session_id actual),
        (gs_project_id s, gs_project_id actual)]"

record ModelSelector =
  ms_provider :: pystr
  ms_model :: pystr

definition selector_valid :: "ModelSelector \<Rightarrow> bool" where
  "selector_valid m \<longleftrightarrow> short_text 256 (ms_provider m) \<and> short_text 512 (ms_model m)"

definition selector_matches :: "ModelSelector \<Rightarrow> pystr \<Rightarrow> pystr \<Rightarrow> bool" where
  "selector_matches m provider_id model_id \<longleftrightarrow>
     fnmatchcase provider_id (ms_provider m) \<and> fnmatchcase model_id (ms_model m)"

record BillingRate =
  br_name :: pystr
  br_unit :: pystr
  br_usd :: real

definition rate_valid :: "BillingRate \<Rightarrow> bool" where
  "rate_valid r \<longleftrightarrow> short_text 128 (br_name r) \<and> short_text 128 (br_unit r) \<and> 0 \<le> br_usd r"

record PricingProof =
  pp_provider_id :: pystr
  pp_model_id :: pystr
  pp_rates :: "BillingRate list"
  pp_source :: pystr
  pp_observed_at :: real
  pp_authoritative :: bool
  pp_dimensions_complete :: bool
  pp_currency :: pystr

definition proof_valid :: "PricingProof \<Rightarrow> bool" where
  "proof_valid p \<longleftrightarrow> short_text 256 (pp_provider_id p) \<and> short_text 512 (pp_model_id p) \<and>
     short_text 256 (pp_source p) \<and> length (pp_currency p) = 3 \<and> distinct (map br_name (pp_rates p)) \<and>
     list_all rate_valid (pp_rates p)"

definition proof_fresh :: "real \<Rightarrow> real \<Rightarrow> PricingProof \<Rightarrow> bool" where
  "proof_fresh now max_age p \<longleftrightarrow> - 5 \<le> now - pp_observed_at p \<and> now - pp_observed_at p \<le> max_age"

definition usable_for_bounded_spend :: "real \<Rightarrow> real \<Rightarrow> PricingProof \<Rightarrow> bool" where
  "usable_for_bounded_spend now max_age p \<longleftrightarrow>
     pp_authoritative p \<and> pp_dimensions_complete p \<and> pp_rates p \<noteq> [] \<and> proof_fresh now max_age p"

definition verified_free :: "real \<Rightarrow> real \<Rightarrow> PricingProof \<Rightarrow> bool" where
  "verified_free now max_age p \<longleftrightarrow>
     pp_authoritative p \<and> pp_dimensions_complete p \<and> pp_rates p \<noteq> [] \<and> proof_fresh now max_age p \<and>
     list_all (\<lambda>r. br_usd r = 0) (pp_rates p)"

record LocalGrantApproval =
  la_approval_id :: pystr
  la_channel :: pystr
  la_approved_at :: real
  la_approval_text_sha256 :: "pystr option"

definition APPROVAL_CHANNELS :: "pystr set" where
  "APPROVAL_CHANNELS = lit ` {''tui'', ''mobile'', ''trusted_host''}"

definition sha_hex :: "unidata \<Rightarrow> pystr \<Rightarrow> bool" where
  "sha_hex ud s \<longleftrightarrow> length s = 64 \<and> list_all (\<lambda>c. 48 \<le> c \<and> c \<le> 57 \<or> 97 \<le> c \<and> c \<le> 102) (ud_lower ud s)"

definition approval_valid :: "unidata \<Rightarrow> LocalGrantApproval \<Rightarrow> bool" where
  "approval_valid ud a \<longleftrightarrow> short_text 256 (la_approval_id a) \<and> la_channel a \<in> APPROVAL_CHANNELS \<and>
     (case la_approval_text_sha256 a of None \<Rightarrow> True | Some h \<Rightarrow> sha_hex ud h)"

record ModelGrant =
  mg_grant_id :: pystr
  mg_scope :: GrantScope
  mg_selectors :: "ModelSelector list"
  mg_free_only :: bool
  mg_max_cost_microusd :: int
  mg_max_calls :: int
  mg_max_input_tokens :: int
  mg_max_output_tokens :: int
  mg_max_request_output_tokens :: int
  mg_max_parallel :: int
  mg_allow_fallback :: bool
  mg_issued_at :: real
  mg_expires_at :: real
  mg_max_price_age_seconds :: real
  mg_approval :: LocalGrantApproval
  mg_label :: pystr

definition grant_valid :: "unidata \<Rightarrow> ModelGrant \<Rightarrow> bool" where
  "grant_valid ud g \<longleftrightarrow> short_text 256 (mg_grant_id g) \<and> mg_selectors g \<noteq> [] \<and>
     0 \<le> mg_max_cost_microusd g \<and> 1 \<le> mg_max_calls g \<and> 1 \<le> mg_max_input_tokens g \<and> 1 \<le> mg_max_output_tokens g \<and>
     1 \<le> mg_max_request_output_tokens g \<and> 1 \<le> mg_max_parallel g \<and>
     mg_max_request_output_tokens g \<le> mg_max_output_tokens g \<and>
     (mg_free_only g \<longrightarrow> mg_max_cost_microusd g = 0) \<and> mg_issued_at g < mg_expires_at g \<and>
     1 \<le> mg_max_price_age_seconds g \<and> mg_max_price_age_seconds g \<le> 86400 \<and>
     (mg_label g = [] \<or> short_text 256 (mg_label g)) \<and>
     scope_valid (mg_scope g) \<and> list_all selector_valid (mg_selectors g) \<and> approval_valid ud (mg_approval g)"

record PreparedModelCall =
  pc_provider_id :: pystr
  pc_model_id :: pystr
  pc_input_upper :: int
  pc_output_upper :: int
  pc_cost_upper :: int
  pc_pricing :: PricingProof

definition call_valid :: "PreparedModelCall \<Rightarrow> bool" where
  "call_valid c \<longleftrightarrow> 0 \<le> pc_input_upper c \<and> 0 \<le> pc_output_upper c \<and> 0 \<le> pc_cost_upper c \<and> 1 \<le> pc_output_upper c \<and>
     pp_provider_id (pc_pricing c) = pc_provider_id c \<and> pp_model_id (pc_pricing c) = pc_model_id c"

text \<open>An estimate is rounded up to whole micro-dollars, less a slack of one part in a million million.\<close>

definition usd_to_microusd :: "real \<Rightarrow> int option" where
  "usd_to_microusd v = (if v < 0 then None else Some \<lceil>v * 1000000 - 1 / 1000000000000\<rceil>)"

lemma budget_covers_estimate: "usd_to_microusd v = Some n \<Longrightarrow> v * 1000000 \<le> of_int n + 1 / 1000000000000 \<and> 0 \<le> n"
  by (auto simp: usd_to_microusd_def le_ceiling_iff split: if_splits) linarith

section \<open>The ledger\<close>

datatype reservation_state = Reserved | Settled | Cancelled

record reservation_row =
  rw_reservation_id :: pystr
  rw_grant_id :: pystr
  rw_idempotency_key :: pystr
  rw_provider_id :: pystr
  rw_model_id :: pystr
  rw_input_upper :: int
  rw_output_upper :: int
  rw_cost_upper :: int
  rw_pricing_fingerprint :: pystr
  rw_state :: reservation_state
  rw_network_started :: bool
  rw_created_at :: real
  rw_settled_at :: "real option"
  rw_actual_input :: "int option"
  rw_actual_output :: "int option"
  rw_actual_cost :: "int option"
  rw_cost_evidence :: "pystr option"

record grant_row =
  gw_payload :: ModelGrant
  gw_revoked_at :: "real option"
  gw_revoke_reason :: "pystr option"
  gw_used_calls :: int
  gw_used_input :: int
  gw_used_output :: int
  gw_spent_microusd :: int
  gw_reserved_input :: int
  gw_reserved_output :: int
  gw_reserved_microusd :: int

record grant_ledger =
  gl_grants :: "(pystr, grant_row) dict"
  gl_reservations :: "(pystr, reservation_row) dict"

datatype grant_error = BadValue string | LedgerError string | Denied string

type_synonym 'a ledger_txn = "grant_ledger \<Rightarrow> (grant_error + 'a) \<times> grant_ledger"

definition new_grant_row :: "ModelGrant \<Rightarrow> grant_row" where
  "new_grant_row g = \<lparr>gw_payload = g, gw_revoked_at = None, gw_revoke_reason = None, gw_used_calls = 0,
     gw_used_input = 0, gw_used_output = 0, gw_spent_microusd = 0, gw_reserved_input = 0, gw_reserved_output = 0,
     gw_reserved_microusd = 0\<rparr>"

record GrantUsage =
  gu_grant :: ModelGrant
  gu_revoked :: bool
  gu_revoke_reason :: "pystr option"
  gu_used_calls :: int
  gu_used_input_tokens :: int
  gu_used_output_tokens :: int
  gu_spent_microusd :: int
  gu_reserved_input_tokens :: int
  gu_reserved_output_tokens :: int
  gu_reserved_microusd :: int
  gu_active_reservations :: nat

definition usage_from_row :: "grant_row \<Rightarrow> nat \<Rightarrow> GrantUsage" where
  "usage_from_row w active = \<lparr>gu_grant = gw_payload w, gu_revoked = (gw_revoked_at w \<noteq> None),
     gu_revoke_reason = gw_revoke_reason w, gu_used_calls = gw_used_calls w, gu_used_input_tokens = gw_used_input w,
     gu_used_output_tokens = gw_used_output w, gu_spent_microusd = gw_spent_microusd w,
     gu_reserved_input_tokens = gw_reserved_input w, gu_reserved_output_tokens = gw_reserved_output w,
     gu_reserved_microusd = gw_reserved_microusd w, gu_active_reservations = active\<rparr>"

definition remaining_calls :: "GrantUsage \<Rightarrow> int" where
  "remaining_calls u = max 0 (mg_max_calls (gu_grant u) - gu_used_calls u)"

definition remaining_cost_microusd :: "GrantUsage \<Rightarrow> int" where
  "remaining_cost_microusd u =
     max 0 (mg_max_cost_microusd (gu_grant u) - gu_spent_microusd u - gu_reserved_microusd u)"

definition grant_rows :: "grant_ledger \<Rightarrow> pystr \<Rightarrow> reservation_row list" where
  "grant_rows L gid = filter (\<lambda>r. rw_grant_id r = gid) (map snd (gl_reservations L))"

definition active_of :: "grant_ledger \<Rightarrow> pystr \<Rightarrow> nat" where
  "active_of L gid = length (filter (\<lambda>r. rw_state r = Reserved) (grant_rows L gid))"

definition grant_of :: "pystr \<Rightarrow> grant_row ledger_txn" where
  "grant_of gid L = (case map_of (gl_grants L) gid of None \<Rightarrow> (Inl (Denied ''unknown_grant''), L) | Some w \<Rightarrow> (Inr w, L))"

definition row_of :: "pystr \<Rightarrow> reservation_row ledger_txn" where
  "row_of rid L =
     (if \<not> short_text 256 rid then (Inl (BadValue ''reservation id''), L)
      else case map_of (gl_reservations L) rid of
        None \<Rightarrow> (Inl (LedgerError ''model reservation does not exist''), L)
      | Some r \<Rightarrow> (Inr r, L))"

definition check_text :: "nat \<Rightarrow> pystr \<Rightarrow> string \<Rightarrow> unit ledger_txn" where
  "check_text n s label = (if short_text n s then retS () else raiseS (BadValue label))"

definition grant_status :: "pystr \<Rightarrow> GrantUsage ledger_txn" where
  "grant_status gid =
     bindS (check_text 256 gid ''grant id'') (\<lambda>_.
     bindS (grant_of gid) (\<lambda>w. getS (\<lambda>L. usage_from_row w (active_of L gid))))"

definition grant_list :: "grant_ledger \<Rightarrow> GrantUsage list" where
  "grant_list L = map (\<lambda>(gid, w). usage_from_row w (active_of L gid)) (rev (gl_grants L))"

definition grant_issue :: "ModelGrant \<Rightarrow> GrantUsage ledger_txn" where
  "grant_issue g =
     bindS (\<lambda>L. case map_of (gl_grants L) (mg_grant_id g) of
         Some w \<Rightarrow> if gw_payload w \<noteq> g then (Inl (LedgerError ''grant id already exists with different authority''), L)
                    else (Inr (), L)
       | None \<Rightarrow> (Inr (), L\<lparr>gl_grants := AList.update (mg_grant_id g) (new_grant_row g) (gl_grants L)\<rparr>))
       (\<lambda>_. grant_status (mg_grant_id g))"

definition put_grant :: "pystr \<Rightarrow> grant_row \<Rightarrow> unit ledger_txn" where
  "put_grant gid w = putS (\<lambda>L. L\<lparr>gl_grants := AList.update gid w (gl_grants L)\<rparr>)"

definition put_row :: "reservation_row \<Rightarrow> unit ledger_txn" where
  "put_row r = putS (\<lambda>L. L\<lparr>gl_reservations := AList.update (rw_reservation_id r) r (gl_reservations L)\<rparr>)"

definition grant_revoke :: "real \<Rightarrow> pystr \<Rightarrow> pystr \<Rightarrow> GrantUsage ledger_txn" where
  "grant_revoke now gid reason =
     bindS (check_text 256 gid ''grant id'') (\<lambda>_.
     bindS (check_text 256 reason ''revoke reason'') (\<lambda>_.
     bindS (grant_of gid) (\<lambda>w.
     bindS (if gw_revoked_at w = None
            then put_grant gid (w\<lparr>gw_revoked_at := Some now, gw_revoke_reason := Some reason\<rparr>) else retS ()) (\<lambda>_.
       grant_status gid))))"

section \<open>Reserving\<close>

text \<open>The first check of \<^verbatim>\<open>_authorize\<close> that fails.\<close>

definition price_refusal :: "unidata \<Rightarrow> ModelGrant \<Rightarrow> real \<Rightarrow> PreparedModelCall \<Rightarrow> string option" where
  "price_refusal ud g now c =
     (let p = pc_pricing c
      in if pp_provider_id p \<noteq> pc_provider_id c \<or> pp_model_id p \<noteq> pc_model_id c then Some ''pricing_mismatch''
         else if mg_free_only g then
           (if pc_cost_upper c \<noteq> 0 then Some ''not_free''
            else if \<not> verified_free now (mg_max_price_age_seconds g) p then Some ''free_price_unproven'' else None)
         else if ud_upper ud (pp_currency p) \<noteq> lit ''USD'' then Some ''currency_unproven''
         else if \<not> usable_for_bounded_spend now (mg_max_price_age_seconds g) p then Some ''price_unproven''
         else None)"

definition budget_refusal :: "grant_row \<Rightarrow> ModelGrant \<Rightarrow> nat \<Rightarrow> PreparedModelCall \<Rightarrow> string option" where
  "budget_refusal w g active c =
     (if mg_max_request_output_tokens g < pc_output_upper c then Some ''request_output_cap''
      else if mg_max_calls g < gw_used_calls w + 1 then Some ''call_budget''
      else if mg_max_parallel g \<le> int active then Some ''parallel_budget''
      else if mg_max_input_tokens g < gw_used_input w + gw_reserved_input w + pc_input_upper c
      then Some ''input_token_budget''
      else if mg_max_output_tokens g < gw_used_output w + gw_reserved_output w + pc_output_upper c
      then Some ''output_token_budget''
      else if mg_max_cost_microusd g < gw_spent_microusd w + gw_reserved_microusd w + pc_cost_upper c
      then Some ''money_budget''
      else None)"

definition grant_authorize :: "unidata \<Rightarrow> grant_row \<Rightarrow> ModelGrant \<Rightarrow> GrantScope \<Rightarrow> PreparedModelCall \<Rightarrow> real \<Rightarrow> nat \<Rightarrow> string option" where
  "grant_authorize ud w g scope c now active =
     (if gw_revoked_at w \<noteq> None then Some ''revoked''
      else if mg_expires_at g \<le> now then Some ''expired''
      else if \<not> scope_matches (mg_scope g) scope then Some ''scope_mismatch''
      else if \<not> list_ex (\<lambda>m. selector_matches m (pc_provider_id c) (pc_model_id c)) (mg_selectors g)
      then Some ''model_not_allowed''
      else case price_refusal ud g now c of
        Some e \<Rightarrow> Some e
      | None \<Rightarrow> budget_refusal w g active c)"

definition new_row :: "(PricingProof \<Rightarrow> pystr) \<Rightarrow> pystr \<Rightarrow> pystr \<Rightarrow> pystr \<Rightarrow> PreparedModelCall \<Rightarrow> real \<Rightarrow> reservation_row" where
  "new_row FP rid gid key c now =
     \<lparr>rw_reservation_id = rid, rw_grant_id = gid, rw_idempotency_key = key, rw_provider_id = pc_provider_id c,
      rw_model_id = pc_model_id c, rw_input_upper = pc_input_upper c, rw_output_upper = pc_output_upper c,
      rw_cost_upper = pc_cost_upper c, rw_pricing_fingerprint = FP (pc_pricing c), rw_state = Reserved,
      rw_network_started = False, rw_created_at = now, rw_settled_at = None, rw_actual_input = None,
      rw_actual_output = None, rw_actual_cost = None, rw_cost_evidence = None\<rparr>"

definition charge_row :: "PreparedModelCall \<Rightarrow> grant_row \<Rightarrow> grant_row" where
  "charge_row c w = w\<lparr>gw_used_calls := gw_used_calls w + 1, gw_reserved_input := gw_reserved_input w + pc_input_upper c,
     gw_reserved_output := gw_reserved_output w + pc_output_upper c,
     gw_reserved_microusd := gw_reserved_microusd w + pc_cost_upper c\<rparr>"

definition row_for_key :: "grant_ledger \<Rightarrow> pystr \<Rightarrow> pystr \<Rightarrow> reservation_row option" where
  "row_for_key L gid key = List.find (\<lambda>r. rw_grant_id r = gid \<and> rw_idempotency_key r = key) (map snd (gl_reservations L))"

definition same_call :: "(PricingProof \<Rightarrow> pystr) \<Rightarrow> reservation_row \<Rightarrow> PreparedModelCall \<Rightarrow> bool" where
  "same_call FP r c \<longleftrightarrow> rw_provider_id r = pc_provider_id c \<and> rw_model_id r = pc_model_id c \<and>
     rw_input_upper r = pc_input_upper c \<and> rw_output_upper r = pc_output_upper c \<and>
     rw_cost_upper r = pc_cost_upper c \<and> rw_pricing_fingerprint r = FP (pc_pricing c)"

definition grant_reserve :: "unidata \<Rightarrow> (PricingProof \<Rightarrow> pystr) \<Rightarrow> real \<Rightarrow> pystr \<Rightarrow> pystr \<Rightarrow> GrantScope \<Rightarrow>
    PreparedModelCall \<Rightarrow> pystr \<Rightarrow> reservation_row ledger_txn" where
  "grant_reserve ud FP now fresh gid scope c key =
     bindS (check_text 256 key ''idempotency key'') (\<lambda>_.
     bindS (grant_of gid) (\<lambda>w L.
       case row_for_key L gid key of
         Some r \<Rightarrow> if same_call FP r c then (Inr r, L) else (Inl (Denied ''idempotency_conflict''), L)
       | None \<Rightarrow>
           (case grant_authorize ud w (gw_payload w) scope c now (active_of L (mg_grant_id (gw_payload w))) of
              Some e \<Rightarrow> (Inl (Denied e), L)
            | None \<Rightarrow>
                let rid = lit ''res-'' @ fresh; r = new_row FP rid gid key c now
                in if map_of (gl_reservations L) rid \<noteq> None then (Inl (LedgerError ''duplicate reservation id''), L)
                   else bindS (put_row r) (\<lambda>_. bindS (put_grant gid (charge_row c w)) (\<lambda>_. retS r)) L)))"

section \<open>Settling\<close>

definition mark_network_started :: "pystr \<Rightarrow> reservation_row ledger_txn" where
  "mark_network_started rid =
     bindS (row_of rid) (\<lambda>r.
       if rw_state r \<noteq> Reserved then retS r
       else bindS (put_row (r\<lparr>rw_network_started := True\<rparr>)) (\<lambda>_. row_of rid))"

record Settlement =
  se_reservation_id :: pystr
  se_spent_microusd :: int
  se_input_tokens :: int
  se_output_tokens :: int
  se_cost_evidence :: pystr
  se_breach_reason :: "pystr option"

definition settlement_from_row :: "reservation_row \<Rightarrow> Settlement" where
  "settlement_from_row r = \<lparr>se_reservation_id = rw_reservation_id r,
     se_spent_microusd = (case rw_actual_cost r of None \<Rightarrow> 0 | Some n \<Rightarrow> n),
     se_input_tokens = (case rw_actual_input r of None \<Rightarrow> 0 | Some n \<Rightarrow> n),
     se_output_tokens = (case rw_actual_output r of None \<Rightarrow> 0 | Some n \<Rightarrow> n),
     se_cost_evidence = (case rw_cost_evidence r of None \<Rightarrow> lit ''unknown'' | Some e \<Rightarrow> if e = [] then lit ''unknown'' else e),
     se_breach_reason = None\<rparr>"

definition released :: "reservation_row \<Rightarrow> grant_row \<Rightarrow> grant_row" where
  "released r w = w\<lparr>gw_reserved_input := max 0 (gw_reserved_input w - rw_input_upper r),
     gw_reserved_output := max 0 (gw_reserved_output w - rw_output_upper r),
     gw_reserved_microusd := max 0 (gw_reserved_microusd w - rw_cost_upper r)\<rparr>"

definition breach :: "reservation_row \<Rightarrow> grant_row \<Rightarrow> int \<Rightarrow> int \<Rightarrow> int \<Rightarrow> string option" where
  "breach r w i out cost =
     (let g = gw_payload w
      in if rw_input_upper r < i then Some ''input_usage_exceeded_reservation''
         else if rw_output_upper r < out then Some ''output_usage_exceeded_reservation''
         else if rw_cost_upper r < cost then Some ''cost_exceeded_reservation''
         else if mg_free_only g \<and> 0 < cost then Some ''free_model_reported_cost''
         else if mg_max_input_tokens g < gw_used_input w + i then Some ''input_budget_breached''
         else if mg_max_output_tokens g < gw_used_output w + out then Some ''output_budget_breached''
         else if mg_max_cost_microusd g < gw_spent_microusd w + cost then Some ''money_budget_breached''
         else None)"

definition consumed :: "real \<Rightarrow> string option \<Rightarrow> int \<Rightarrow> int \<Rightarrow> int \<Rightarrow> grant_row \<Rightarrow> grant_row" where
  "consumed now why i out cost w = w\<lparr>gw_used_input := gw_used_input w + i, gw_used_output := gw_used_output w + out,
     gw_spent_microusd := gw_spent_microusd w + cost,
     gw_revoked_at := (case why of None \<Rightarrow> gw_revoked_at w | Some _ \<Rightarrow> Some now),
     gw_revoke_reason := (case why of None \<Rightarrow> gw_revoke_reason w | Some e \<Rightarrow> Some (lit e))\<rparr>"

text \<open>What a settled call costs: without a price, its upper bound if it may have left the machine.\<close>

definition charged :: "reservation_row \<Rightarrow> int option \<Rightarrow> pystr \<Rightarrow> int \<times> pystr" where
  "charged r actual evidence =
     (case actual of
        None \<Rightarrow> if rw_network_started r then (rw_cost_upper r, lit ''reserved_upper_bound'') else (0, lit ''not_dispatched'')
      | Some n \<Rightarrow> (n, evidence))"

definition settled_row :: "real \<Rightarrow> int \<Rightarrow> int \<Rightarrow> int \<Rightarrow> pystr \<Rightarrow> reservation_row \<Rightarrow> reservation_row" where
  "settled_row now i out cost why_cost r = r\<lparr>rw_state := Settled, rw_settled_at := Some now, rw_actual_input := Some i,
     rw_actual_output := Some out, rw_actual_cost := Some cost, rw_cost_evidence := Some why_cost\<rparr>"

definition cancelled_row :: "real \<Rightarrow> pystr \<Rightarrow> reservation_row \<Rightarrow> reservation_row" where
  "cancelled_row now reason r = r\<lparr>rw_state := Cancelled, rw_settled_at := Some now, rw_cost_evidence := Some reason\<rparr>"

definition grant_settle :: "real \<Rightarrow> pystr \<Rightarrow> int \<Rightarrow> int \<Rightarrow> int option \<Rightarrow> pystr \<Rightarrow> Settlement ledger_txn" where
  "grant_settle now rid i out actual evidence =
     (if i < 0 \<or> out < 0 then raiseS (BadValue ''tokens'')
      else bindS (check_text 128 evidence ''cost evidence'') (\<lambda>_.
      bindS (row_of rid) (\<lambda>r.
        if rw_state r = Settled then retS (settlement_from_row r)
        else if rw_state r \<noteq> Reserved then raiseS (LedgerError ''only a reserved model call can be settled'')
        else bindS (grant_of (rw_grant_id r)) (\<lambda>w.
          if (case actual of Some n \<Rightarrow> n < 0 | None \<Rightarrow> False) then raiseS (BadValue ''actual model cost'')
          else
            let (cost, why_cost) = charged r actual evidence; why = breach r w i out cost
            in bindS (put_grant (mg_grant_id (gw_payload w)) (released r (consumed now why i out cost w))) (\<lambda>_.
               bindS (put_row (settled_row now i out cost why_cost r)) (\<lambda>_.
                 retS \<lparr>se_reservation_id = rid, se_spent_microusd = cost, se_input_tokens = i, se_output_tokens = out,
                   se_cost_evidence = why_cost, se_breach_reason = map_option lit why\<rparr>))))))"

definition cancelled_settlement :: "pystr \<Rightarrow> pystr \<Rightarrow> Settlement" where
  "cancelled_settlement rid reason = \<lparr>se_reservation_id = rid, se_spent_microusd = 0, se_input_tokens = 0,
     se_output_tokens = 0, se_cost_evidence = reason, se_breach_reason = None\<rparr>"

text \<open>An abort of a started call settles it in a transaction of its own.\<close>

definition grant_abort :: "real \<Rightarrow> pystr \<Rightarrow> pystr \<Rightarrow> Settlement ledger_txn" where
  "grant_abort now rid reason =
     bindS (check_text 128 reason ''abort reason'') (\<lambda>_.
     bindS (row_of rid) (\<lambda>r.
       if rw_state r = Settled then retS (settlement_from_row r)
       else if rw_state r = Cancelled then retS (cancelled_settlement rid reason)
       else if rw_network_started r
       then grant_settle now rid (rw_input_upper r) (rw_output_upper r) None (lit ''ambiguous_after_dispatch'')
       else bindS (\<lambda>L. case map_of (gl_grants L) (rw_grant_id r) of
              None \<Rightarrow> (Inr (), L) | Some w \<Rightarrow> put_grant (rw_grant_id r) (released r w) L) (\<lambda>_.
            bindS (put_row (cancelled_row now reason r)) (\<lambda>_.
              retS (cancelled_settlement rid reason)))))"

end
