(* ===== verification/GrantProofs.thy ===== *)
theory GrantProofs imports ModelGrants begin

text \<open>
  The spending ledger as a state machine, the meters of its three budgets and what a grant guarantees over
  every interleaving of its users.
\<close>

section \<open>Moves of the ledger\<close>

inductive ledger_move :: "unidata \<Rightarrow> (PricingProof \<Rightarrow> pystr) \<Rightarrow> grant_ledger \<Rightarrow> grant_ledger \<Rightarrow> bool" for ud FP where
  m_issue: "grant_valid ud g \<Longrightarrow> map_of (gl_grants L) (mg_grant_id g) = None \<Longrightarrow>
    ledger_move ud FP L (L\<lparr>gl_grants := AList.update (mg_grant_id g) (new_grant_row g) (gl_grants L)\<rparr>)"
| m_revoke: "map_of (gl_grants L) gid = Some w \<Longrightarrow> gw_revoked_at w = None \<Longrightarrow>
    ledger_move ud FP L (L\<lparr>gl_grants := AList.update gid (w\<lparr>gw_revoked_at := Some now, gw_revoke_reason := Some reason\<rparr>)
      (gl_grants L)\<rparr>)"
| m_reserve: "map_of (gl_grants L) gid = Some w \<Longrightarrow> call_valid c \<Longrightarrow> row_for_key L gid key = None \<Longrightarrow>
    grant_authorize ud w (gw_payload w) scope c now (active_of L (mg_grant_id (gw_payload w))) = None \<Longrightarrow>
    map_of (gl_reservations L) rid = None \<Longrightarrow>
    ledger_move ud FP L (L\<lparr>gl_reservations := AList.update rid (new_row FP rid gid key c now) (gl_reservations L),
      gl_grants := AList.update gid (charge_row c w) (gl_grants L)\<rparr>)"
| m_start: "map_of (gl_reservations L) rid = Some r \<Longrightarrow> rw_state r = Reserved \<Longrightarrow>
    ledger_move ud FP L (L\<lparr>gl_reservations := AList.update (rw_reservation_id r) (r\<lparr>rw_network_started := True\<rparr>)
      (gl_reservations L)\<rparr>)"
| m_settle: "map_of (gl_reservations L) rid = Some r \<Longrightarrow> rw_state r = Reserved \<Longrightarrow>
    map_of (gl_grants L) (rw_grant_id r) = Some w \<Longrightarrow> 0 \<le> i \<Longrightarrow> 0 \<le> out \<Longrightarrow>
    (case actual of Some n \<Rightarrow> 0 \<le> n | None \<Rightarrow> True) \<Longrightarrow> charged r actual evidence = (cost, why_cost) \<Longrightarrow>
    why = breach r w i out cost \<Longrightarrow>
    ledger_move ud FP L (L\<lparr>gl_grants := AList.update (mg_grant_id (gw_payload w)) (released r (consumed now why i out cost w))
        (gl_grants L),
      gl_reservations := AList.update (rw_reservation_id r) (settled_row now i out cost why_cost r) (gl_reservations L)\<rparr>)"
| m_cancel: "map_of (gl_reservations L) rid = Some r \<Longrightarrow> rw_state r = Reserved \<Longrightarrow> \<not> rw_network_started r \<Longrightarrow>
    map_of (gl_grants L) (rw_grant_id r) = Some w \<Longrightarrow>
    ledger_move ud FP L (L\<lparr>gl_grants := AList.update (rw_grant_id r) (released r w) (gl_grants L),
      gl_reservations := AList.update (rw_reservation_id r) (cancelled_row now reason r) (gl_reservations L)\<rparr>)"

definition moved :: "unidata \<Rightarrow> (PricingProof \<Rightarrow> pystr) \<Rightarrow> grant_ledger \<Rightarrow> grant_ledger \<Rightarrow> bool" where
  "moved ud FP L L' \<longleftrightarrow> L' = L \<or> ledger_move ud FP L L'"

lemma moved_refl [simp]: "moved ud FP L L"
  by (simp add: moved_def)

lemmas txn_defs = bindS_def retS_def raiseS_def getS_def putS_def check_text_def put_grant_def put_row_def

lemma settled_row_fields [simp]:
  "rw_reservation_id (settled_row now i out cost ev r) = rw_reservation_id r"
  "rw_grant_id (settled_row now i out cost ev r) = rw_grant_id r"
  "rw_idempotency_key (settled_row now i out cost ev r) = rw_idempotency_key r"
  "rw_state (settled_row now i out cost ev r) = Settled"
  by (simp_all add: settled_row_def)

lemma cancelled_row_fields [simp]:
  "rw_reservation_id (cancelled_row now e r) = rw_reservation_id r" "rw_grant_id (cancelled_row now e r) = rw_grant_id r"
  "rw_idempotency_key (cancelled_row now e r) = rw_idempotency_key r" "rw_state (cancelled_row now e r) = Cancelled"
  by (simp_all add: cancelled_row_def)

lemma new_row_fields [simp]:
  "rw_reservation_id (new_row FP rid gid key c now) = rid" "rw_grant_id (new_row FP rid gid key c now) = gid"
  "rw_idempotency_key (new_row FP rid gid key c now) = key" "rw_state (new_row FP rid gid key c now) = Reserved"
  "rw_network_started (new_row FP rid gid key c now) = False"
  by (simp_all add: new_row_def)

lemma row_of_cases:
  "row_of rid L = (Inr r, L') \<longleftrightarrow> short_text 256 rid \<and> map_of (gl_reservations L) rid = Some r \<and> L' = L"
  by (auto simp: row_of_def split: option.splits)

lemma row_of_snd [simp]: "snd (row_of rid L) = L"
  by (simp add: row_of_def split: option.split)

lemma grant_of_cases: "grant_of gid L = (Inr w, L') \<longleftrightarrow> map_of (gl_grants L) gid = Some w \<and> L' = L"
  by (auto simp: grant_of_def split: option.splits)

lemma grant_of_snd [simp]: "snd (grant_of gid L) = L"
  by (simp add: grant_of_def split: option.split)

lemma status_snd [simp]: "snd (grant_status gid L) = L"
  by (simp add: grant_status_def txn_defs grant_of_def split: option.split)

lemma issue_moves: "grant_valid ud g \<Longrightarrow> moved ud FP L (snd (grant_issue g L))"
  by (cases "map_of (gl_grants L) (mg_grant_id g)")
    (auto simp: grant_issue_def bindS_def moved_def intro: m_issue)

lemma revoke_moves: "moved ud FP L (snd (grant_revoke now gid reason L))"
proof (cases "short_text 256 gid \<and> short_text 256 reason")
  case True
  then show ?thesis
    by (cases "map_of (gl_grants L) gid")
      (auto simp: grant_revoke_def txn_defs grant_of_def moved_def intro: m_revoke)
qed (auto simp: grant_revoke_def txn_defs)

lemma reserve_moves:
  assumes "call_valid c"
  shows "moved ud FP L (snd (grant_reserve ud FP now fresh gid scope c key L))"
proof (cases "short_text 256 key")
  case True
  show ?thesis
  proof (cases "map_of (gl_grants L) gid")
    case (Some w)
    then show ?thesis
      using assms True m_reserve [of L gid w c key ud scope now "lit ''res-'' @ fresh" FP]
      by (auto simp: grant_reserve_def txn_defs grant_of_def moved_def Let_def new_row_def split: option.splits if_splits)
  qed (simp add: grant_reserve_def txn_defs grant_of_def True)
qed (simp add: grant_reserve_def txn_defs)

lemma start_moves: "moved ud FP L (snd (mark_network_started rid L))"
proof (cases "row_of rid L")
  case (Pair x L1)
  then have L1: "L1 = L" using row_of_snd [of rid L] by simp
  show ?thesis
  proof (cases x)
    case (Inr r)
    then have r: "map_of (gl_reservations L) rid = Some r" using Pair by (simp add: row_of_cases)
    have "snd (mark_network_started rid L) = (if rw_state r \<noteq> Reserved then L
        else snd (bindS (put_row (r\<lparr>rw_network_started := True\<rparr>)) (\<lambda>_. row_of rid) L))"
      using Pair Inr L1 by (simp add: mark_network_started_def bindS_ok retS_def)
    then show ?thesis
      using m_start [OF r] by (auto simp: moved_def bindS_ok put_row_def putS_def)
  qed (simp add: mark_network_started_def bindS_err Pair L1)
qed

lemma settle_moves: "moved ud FP L (snd (grant_settle now rid i out actual evidence L))"
proof (cases "row_of rid L")
  case (Pair x L1)
  then have L1: "L1 = L" using row_of_snd [of rid L] by simp
  show ?thesis
  proof (cases x)
    case (Inr r)
    then have r: "map_of (gl_reservations L) rid = Some r" using Pair by (simp add: row_of_cases)
    obtain cost why_cost where ch: "charged r actual evidence = (cost, why_cost)" by fastforce
    show ?thesis
    proof (cases "map_of (gl_grants L) (rw_grant_id r)")
      case None
      then show ?thesis using Pair Inr L1 by (simp add: grant_settle_def txn_defs grant_of_def)
    next
      case (Some w)
      show ?thesis
      proof (cases "0 \<le> i \<and> 0 \<le> out \<and> (case actual of Some n \<Rightarrow> 0 \<le> n | None \<Rightarrow> True) \<and> rw_state r = Reserved \<and>
          short_text 128 evidence")
        case True
        have "ledger_move ud FP L (snd (grant_settle now rid i out actual evidence L))"
          using m_settle [OF r _ Some _ _ _ ch refl, of i out ud FP now] True Pair Inr L1 Some
          by (auto simp: grant_settle_def txn_defs grant_of_def ch Let_def split: option.splits)
        then show ?thesis by (simp add: moved_def)
      next
        case False
        then show ?thesis
          using Pair Inr L1 Some by (auto simp: grant_settle_def txn_defs grant_of_def split: option.splits)
      qed
    qed
  qed (simp add: grant_settle_def txn_defs Pair L1)
qed

lemma abort_moves:
  assumes "\<forall>r \<in> ran (map_of (gl_reservations L)). map_of (gl_grants L) (rw_grant_id r) \<noteq> None"
  shows "moved ud FP L (snd (grant_abort now rid reason L))"
proof (cases "row_of rid L")
  case (Pair x L1)
  then have L1: "L1 = L" using row_of_snd [of rid L] by simp
  show ?thesis
  proof (cases x)
    case (Inr r)
    then have r: "map_of (gl_reservations L) rid = Some r" using Pair by (simp add: row_of_cases)
    then obtain w where w: "map_of (gl_grants L) (rw_grant_id r) = Some w" using assms by (auto simp: ran_def)
    show ?thesis
    proof (cases "rw_state r = Reserved \<and> \<not> rw_network_started r \<and> short_text 128 reason")
      case True
      then show ?thesis
        using m_cancel [OF r _ _ w, of ud FP now reason] Pair Inr L1 w
        by (simp add: grant_abort_def txn_defs moved_def)
    next
      case False
      then show ?thesis
        using Pair Inr L1 settle_moves by (cases "rw_state r") (auto simp: grant_abort_def txn_defs)
    qed
  qed (simp add: grant_abort_def txn_defs Pair L1)
qed

text \<open>Everything a caller of the store can do.\<close>

datatype grant_op =
    OpIssueGrant ModelGrant
  | OpRevokeGrant real pystr pystr
  | OpReserveCall real pystr pystr GrantScope PreparedModelCall pystr
  | OpStart pystr
  | OpSettle real pystr int int "int option" pystr
  | OpAbort real pystr pystr

fun grant_step :: "unidata \<Rightarrow> (PricingProof \<Rightarrow> pystr) \<Rightarrow> grant_op \<Rightarrow> grant_ledger \<Rightarrow> grant_ledger" where
  "grant_step ud FP (OpIssueGrant g) L = (if grant_valid ud g then snd (grant_issue g L) else L)"
| "grant_step ud FP (OpRevokeGrant now gid reason) L = snd (grant_revoke now gid reason L)"
| "grant_step ud FP (OpReserveCall now fresh gid scope c key) L =
     (if call_valid c then snd (grant_reserve ud FP now fresh gid scope c key L) else L)"
| "grant_step ud FP (OpStart rid) L = snd (mark_network_started rid L)"
| "grant_step ud FP (OpSettle now rid i out actual evidence) L = snd (grant_settle now rid i out actual evidence L)"
| "grant_step ud FP (OpAbort now rid reason) L = snd (grant_abort now rid reason L)"

definition empty_ledger :: grant_ledger where
  "empty_ledger = \<lparr>gl_grants = [], gl_reservations = []\<rparr>"

section \<open>Well-formed ledgers\<close>

definition row_ok :: "grant_ledger \<Rightarrow> pystr \<Rightarrow> reservation_row \<Rightarrow> bool" where
  "row_ok L rid r \<longleftrightarrow> rw_reservation_id r = rid \<and> map_of (gl_grants L) (rw_grant_id r) \<noteq> None \<and>
     0 \<le> rw_input_upper r \<and> 0 \<le> rw_output_upper r \<and> 0 \<le> rw_cost_upper r"

definition ledger_wf :: "unidata \<Rightarrow> grant_ledger \<Rightarrow> bool" where
  "ledger_wf ud L \<longleftrightarrow> dict_ok (gl_grants L) \<and> dict_ok (gl_reservations L) \<and>
     (\<forall>gid w. map_of (gl_grants L) gid = Some w \<longrightarrow> mg_grant_id (gw_payload w) = gid \<and> grant_valid ud (gw_payload w) \<and>
        (gw_revoked_at w = None \<longrightarrow> gw_revoke_reason w = None)) \<and>
     (\<forall>rid r. map_of (gl_reservations L) rid = Some r \<longrightarrow> row_ok L rid r)"

lemma grant_row_revoked [simp]:
  "gw_revoked_at (charge_row c w) = gw_revoked_at w" "gw_revoke_reason (charge_row c w) = gw_revoke_reason w"
  "gw_revoked_at (released r w) = gw_revoked_at w" "gw_revoke_reason (released r w) = gw_revoke_reason w"
  "gw_revoked_at (consumed now why i out cost w) = (case why of None \<Rightarrow> gw_revoked_at w | Some _ \<Rightarrow> Some now)"
  "gw_revoke_reason (consumed now why i out cost w) = (case why of None \<Rightarrow> gw_revoke_reason w | Some e \<Rightarrow> Some (lit e))"
  "gw_revoked_at (new_grant_row g) = None" "gw_revoke_reason (new_grant_row g) = None"
  by (simp_all add: charge_row_def released_def consumed_def new_grant_row_def)

lemma grant_row_payload [simp]:
  "gw_payload (charge_row c w) = gw_payload w" "gw_payload (released r w) = gw_payload w"
  "gw_payload (consumed now why i out cost w) = gw_payload w" "gw_payload (new_grant_row g) = g"
  by (simp_all add: charge_row_def released_def consumed_def new_grant_row_def)

lemma uppers_kept [simp]:
  "rw_input_upper (settled_row now i out cost ev r) = rw_input_upper r"
  "rw_output_upper (settled_row now i out cost ev r) = rw_output_upper r"
  "rw_cost_upper (settled_row now i out cost ev r) = rw_cost_upper r"
  "rw_input_upper (cancelled_row now e r) = rw_input_upper r"
  "rw_output_upper (cancelled_row now e r) = rw_output_upper r"
  "rw_cost_upper (cancelled_row now e r) = rw_cost_upper r"
  "rw_input_upper (new_row FP rid gid key c now) = pc_input_upper c"
  "rw_output_upper (new_row FP rid gid key c now) = pc_output_upper c"
  "rw_cost_upper (new_row FP rid gid key c now) = pc_cost_upper c"
  by (simp_all add: settled_row_def cancelled_row_def new_row_def)

lemma wf_grant: "ledger_wf ud L \<Longrightarrow> map_of (gl_grants L) gid = Some w \<Longrightarrow>
    mg_grant_id (gw_payload w) = gid \<and> grant_valid ud (gw_payload w) \<and>
    (gw_revoked_at w = None \<longrightarrow> gw_revoke_reason w = None)"
  unfolding ledger_wf_def by blast

lemma wf_row: "ledger_wf ud L \<Longrightarrow> map_of (gl_reservations L) rid = Some r \<Longrightarrow> row_ok L rid r"
  by (simp add: ledger_wf_def)

lemma wf_move: "ledger_move ud FP L L' \<Longrightarrow> ledger_wf ud L \<Longrightarrow> ledger_wf ud L'"
proof (induction rule: ledger_move.induct)
  case (m_issue g L)
  then show ?case by (auto simp: ledger_wf_def row_ok_def map_of_AList_update)
next
  case (m_revoke L gid w now reason)
  then show ?case by (auto simp: ledger_wf_def row_ok_def map_of_AList_update)
next
  case (m_reserve L gid w c key scope now rid)
  then show ?case by (auto simp: ledger_wf_def row_ok_def map_of_AList_update call_valid_def)
next
  case (m_start L rid r)
  then show ?case by (auto simp: ledger_wf_def row_ok_def map_of_AList_update)
next
  case (m_settle L rid r w i out actual evidence cost why_cost why now)
  then show ?case by (auto simp: ledger_wf_def row_ok_def map_of_AList_update split: option.split)
next
  case (m_cancel L rid r w now reason)
  then show ?case by (auto simp: ledger_wf_def row_ok_def map_of_AList_update)
qed

lemma step_moves: "ledger_wf ud L \<Longrightarrow> moved ud FP L (grant_step ud FP op L)"
  by (cases op) (auto simp: issue_moves revoke_moves reserve_moves start_moves settle_moves ledger_wf_def row_ok_def ran_def
      intro!: abort_moves)

lemma ledger_run:
  assumes "\<And>L L'. ledger_wf ud L \<Longrightarrow> P L \<Longrightarrow> ledger_move ud FP L L' \<Longrightarrow> P L'" "P empty_ledger"
  shows "ledger_wf ud (fold (grant_step ud FP) ops empty_ledger) \<and> P (fold (grant_step ud FP) ops empty_ledger)"
proof -
  have "ledger_wf ud L \<Longrightarrow> P L \<Longrightarrow> ledger_wf ud (fold (grant_step ud FP) ops L) \<and> P (fold (grant_step ud FP) ops L)" for L
  proof (induction ops arbitrary: L)
    case (Cons op ops)
    have "ledger_wf ud (grant_step ud FP op L) \<and> P (grant_step ud FP op L)"
      using step_moves [OF Cons.prems(1), of FP op] Cons.prems assms(1) wf_move by (auto simp: moved_def)
    with Cons.IH show ?case by simp
  qed simp
  moreover have "ledger_wf ud empty_ledger" by (simp add: ledger_wf_def empty_ledger_def)
  ultimately show ?thesis using assms(2) by blast
qed

section \<open>The meters of a grant\<close>

text \<open>A sum over all reservations.\<close>

definition tally :: "(reservation_row \<Rightarrow> int) \<Rightarrow> grant_ledger \<Rightarrow> int" where
  "tally f L = sum_list (map (\<lambda>e. f (snd e)) (gl_reservations L))"

lemma tally_grants [simp]: "tally f (L\<lparr>gl_grants := G\<rparr>) = tally f L"
  by (simp add: tally_def)

lemma sum_update:
  fixes f :: "'v \<Rightarrow> int"
  shows "distinct (map fst d) \<Longrightarrow> sum_list (map (\<lambda>e. f (snd e)) (AList.update k v d)) =
    sum_list (map (\<lambda>e. f (snd e)) d) + f v - (case map_of d k of None \<Rightarrow> 0 | Some u \<Rightarrow> f u)"
proof (induction d)
  case (Cons e d)
  then show ?case by (cases e) (auto split: option.split dest: map_of_SomeD)
qed simp

lemma tally_update:
  "ledger_wf ud L \<Longrightarrow> tally f (L\<lparr>gl_reservations := AList.update k r (gl_reservations L)\<rparr>) =
     tally f L + f r - (case map_of (gl_reservations L) k of None \<Rightarrow> 0 | Some u \<Rightarrow> f u)"
  by (simp add: tally_def sum_update ledger_wf_def dict_ok_def)

lemma tally_update_both:
  "ledger_wf ud L \<Longrightarrow> tally f (L\<lparr>gl_reservations := AList.update k r (gl_reservations L), gl_grants := G\<rparr>) =
     tally f L + f r - (case map_of (gl_reservations L) k of None \<Rightarrow> 0 | Some u \<Rightarrow> f u)"
  "ledger_wf ud L \<Longrightarrow> tally f (L\<lparr>gl_grants := G, gl_reservations := AList.update k r (gl_reservations L)\<rparr>) =
     tally f L + f r - (case map_of (gl_reservations L) k of None \<Rightarrow> 0 | Some u \<Rightarrow> f u)"
  by (simp_all add: tally_def sum_update ledger_wf_def dict_ok_def)

lemmas tally_updates = tally_update tally_update_both(2)

lemma dict_lookup: "dict_ok d \<Longrightarrow> e \<in> set d \<Longrightarrow> map_of d (fst e) = Some (snd e)"
  by (cases e) (simp add: dict_ok_def)

lemma tally_zero: "(\<And>e. e \<in> set (gl_reservations L) \<Longrightarrow> f (snd e) = 0) \<Longrightarrow> tally f L = 0"
  unfolding tally_def by (rule sum_list_0 [THEN trans [rotated]], rule arg_cong [of _ _ sum_list], rule map_cong) auto

lemma member_sum: "\<forall>x \<in> set xs. 0 \<le> x \<Longrightarrow> y \<in> set xs \<Longrightarrow> y \<le> sum_list xs" for xs :: "int list"
proof (induction xs)
  case (Cons x xs)
  have "0 \<le> sum_list xs" using Cons.prems(1) by (auto intro: sum_list_nonneg)
  with Cons show ?case by auto
qed simp

lemma tally_member:
  assumes "\<And>r. 0 \<le> f r \<or> r \<notin> ran (map_of (gl_reservations L))" "map_of (gl_reservations L) k = Some r" "ledger_wf ud L"
  shows "f r \<le> tally f L"
proof -
  have dk: "dict_ok (gl_reservations L)" using assms(3) by (simp add: ledger_wf_def)
  have "\<forall>x \<in> set (map (\<lambda>e. f (snd e)) (gl_reservations L)). 0 \<le> x"
  proof
    fix x assume "x \<in> set (map (\<lambda>e. f (snd e)) (gl_reservations L))"
    then obtain e where e: "e \<in> set (gl_reservations L)" "x = f (snd e)" by auto
    then have "map_of (gl_reservations L) (fst e) = Some (snd e)" using dk dict_lookup by blast
    with assms(1) [of "snd e"] e show "0 \<le> x" by (auto simp: ran_def)
  qed
  moreover have "f r \<in> set (map (\<lambda>e. f (snd e)) (gl_reservations L))"
    using map_of_SomeD [OF assms(2)] by (force intro: image_eqI [of _ _ "(k, r)"])
  ultimately show ?thesis unfolding tally_def by (rule member_sum)
qed

text \<open>
  A meter is one of the three budgets: what a grant has used and holds of it, its limit, what a call may
  need and did use. The laws say how the updates of the code act on it; the rest is proved once.
\<close>

definition BREACHES :: "string list" where
  "BREACHES = [''input_usage_exceeded_reservation'', ''output_usage_exceeded_reservation'', ''cost_exceeded_reservation'',
     ''free_model_reported_cost'', ''input_budget_breached'', ''output_budget_breached'', ''money_budget_breached'']"

definition unbreached :: "grant_row \<Rightarrow> bool" where
  "unbreached w \<longleftrightarrow> gw_revoke_reason w \<notin> set (map (\<lambda>e. Some (lit e)) BREACHES)"

lemma breach_listed: "breach r w i out cost = Some e \<Longrightarrow> e \<in> set BREACHES"
  by (auto simp: breach_def BREACHES_def Let_def split: if_splits)

lemma unbreached_fields [simp]:
  "unbreached (charge_row c w) = unbreached w" "unbreached (released r w) = unbreached w"
  "unbreached (new_grant_row g)"
  by (simp_all add: unbreached_def charge_row_def released_def new_grant_row_def BREACHES_def)

lemma unbreached_consumed: "unbreached (consumed now (breach r w i out cost) i out cost w) \<longleftrightarrow>
    breach r w i out cost = None \<and> unbreached w"
  using breach_listed [of r w i out cost] by (auto simp: unbreached_def consumed_def split: option.split)

definition held_by :: "(reservation_row \<Rightarrow> int) \<Rightarrow> pystr \<Rightarrow> reservation_row \<Rightarrow> int" where
  "held_by upper gid r = (if rw_grant_id r = gid \<and> rw_state r = Reserved then upper r else 0)"

definition used_by :: "(reservation_row \<Rightarrow> int option) \<Rightarrow> pystr \<Rightarrow> reservation_row \<Rightarrow> int" where
  "used_by actual gid r = (if rw_grant_id r = gid \<and> rw_state r = Settled then the (actual r) else 0)"

locale meter =
  fixes used held :: "grant_row \<Rightarrow> int" and limit :: "ModelGrant \<Rightarrow> int"
    and upper :: "reservation_row \<Rightarrow> int" and actual :: "reservation_row \<Rightarrow> int option"
    and need :: "PreparedModelCall \<Rightarrow> int" and pick :: "int \<Rightarrow> int \<Rightarrow> int \<Rightarrow> int"
  assumes fresh_grant: "used (new_grant_row g) = 0" "held (new_grant_row g) = 0" "grant_valid ud g \<Longrightarrow> 0 \<le> limit g"
    and revoke_neutral: "used (w\<lparr>gw_revoked_at := a, gw_revoke_reason := b\<rparr>) = used w"
      "held (w\<lparr>gw_revoked_at := a, gw_revoke_reason := b\<rparr>) = held w"
    and charge: "used (charge_row c w) = used w" "held (charge_row c w) = held w + need c"
      "upper (new_row FP rid gid key c now) = need c"
    and start_neutral: "upper (r\<lparr>rw_network_started := True\<rparr>) = upper r" "actual (r\<lparr>rw_network_started := True\<rparr>) = actual r"
    and consume: "used (consumed now why i out cost w) = used w + pick i out cost"
      "held (consumed now why i out cost w) = held w" "actual (settled_row now i out cost ev r) = Some (pick i out cost)"
    and release: "used (released r w) = used w" "held (released r w) = max 0 (held w - upper r)"
    and admitted: "budget_refusal w g n c = None \<Longrightarrow> used w + held w + need c \<le> limit g"
    and unbreached_use: "breach r w i out cost = None \<Longrightarrow> pick i out cost \<le> upper r"
    and upper_nonneg: "0 \<le> rw_input_upper r \<Longrightarrow> 0 \<le> rw_output_upper r \<Longrightarrow> 0 \<le> rw_cost_upper r \<Longrightarrow> 0 \<le> upper r"
begin

definition balanced :: "grant_ledger \<Rightarrow> bool" where
  "balanced L \<longleftrightarrow> (\<forall>gid w. map_of (gl_grants L) gid = Some w \<longrightarrow>
     held w = tally (held_by upper gid) L \<and> used w = tally (used_by actual gid) L \<and>
     (unbreached w \<longrightarrow> tally (used_by actual gid) L + tally (held_by upper gid) L \<le> limit (gw_payload w)))"

lemma balancedD: "balanced L \<Longrightarrow> map_of (gl_grants L) gid = Some w \<Longrightarrow>
    held w = tally (held_by upper gid) L \<and> used w = tally (used_by actual gid) L \<and>
    (unbreached w \<longrightarrow> tally (used_by actual gid) L + tally (held_by upper gid) L \<le> limit (gw_payload w))"
  unfolding balanced_def by blast

lemma held_covers:
  assumes "ledger_wf ud L" "balanced L" "map_of (gl_reservations L) rid = Some r" "rw_state r = Reserved"
    and "map_of (gl_grants L) (rw_grant_id r) = Some w"
  shows "upper r \<le> held w"
proof -
  have "held_by upper (rw_grant_id r) r \<le> tally (held_by upper (rw_grant_id r)) L"
  proof (rule tally_member [OF _ assms(3,1)])
    fix x show "0 \<le> held_by upper (rw_grant_id r) x \<or> x \<notin> ran (map_of (gl_reservations L))"
      using wf_row [OF assms(1)] upper_nonneg [of x] by (auto simp: held_by_def ran_def row_ok_def)
  qed
  with assms(4) balancedD [OF assms(2,5)] show ?thesis by (simp add: held_by_def)
qed

lemma balanced_move:
  assumes "ledger_wf ud L" "balanced L" "ledger_move ud FP L L'"
  shows "balanced L'"
  using assms(3,1,2)
proof (induction rule: ledger_move.induct)
  case (m_issue g L)
  have none: "rw_grant_id (snd e) \<noteq> mg_grant_id g" if "e \<in> set (gl_reservations L)" for e
    using wf_row [OF m_issue(3) dict_lookup [OF _ that]] m_issue(2,3) by (auto simp: row_ok_def ledger_wf_def)
  have z: "tally (held_by upper (mg_grant_id g)) L = 0" "tally (used_by actual (mg_grant_id g)) L = 0"
    by (rule tally_zero; use none in \<open>auto simp: held_by_def used_by_def\<close>)+
  show ?case
    using m_issue balancedD [OF m_issue(4)] z fresh_grant(1,2) [of g] fresh_grant(3) [of ud g]
    by (auto simp: balanced_def map_of_AList_update)
next
  case (m_revoke L gid w now reason)
  have "unbreached w" using wf_grant [OF m_revoke(3,1)] m_revoke(2) by (auto simp: unbreached_def)
  with m_revoke show ?case
    using balancedD [OF m_revoke(4)] by (auto simp: balanced_def map_of_AList_update revoke_neutral)
next
  case (m_reserve L gid w c key scope now rid)
  note b = balancedD [OF m_reserve(7)]
  have "budget_refusal w (gw_payload w) (active_of L (mg_grant_id (gw_payload w))) c = None"
    using m_reserve(4) by (simp add: grant_authorize_def split: if_splits option.splits)
  from admitted [OF this] have lim: "used w + held w + need c \<le> limit (gw_payload w)" .
  have h: "tally (held_by upper x) (L\<lparr>gl_reservations := AList.update rid (new_row FP rid gid key c now) (gl_reservations L)\<rparr>) = tally (held_by upper x) L + (if x = gid then need c else 0)" for x
    using m_reserve(5) by (simp add: tally_updates [OF m_reserve(6)] held_by_def charge)
  have u: "tally (used_by actual x) (L\<lparr>gl_reservations := AList.update rid (new_row FP rid gid key c now) (gl_reservations L)\<rparr>) = tally (used_by actual x) L" for x
    using m_reserve(5) by (simp add: tally_updates [OF m_reserve(6)] used_by_def)
  show ?case
    using b [OF m_reserve(1)] b lim by (auto simp: balanced_def map_of_AList_update h u charge)
next
  case (m_start L rid r)
  note b = balancedD [OF m_start(4)]
  have rid: "rw_reservation_id r = rid" using wf_row [OF m_start(3,1)] by (simp add: row_ok_def)
  have "tally (held_by upper x) (L\<lparr>gl_reservations := AList.update rid (r\<lparr>rw_network_started := True\<rparr>) (gl_reservations L)\<rparr>) =
      tally (held_by upper x) L"
    "tally (used_by actual x) (L\<lparr>gl_reservations := AList.update rid (r\<lparr>rw_network_started := True\<rparr>) (gl_reservations L)\<rparr>) =
      tally (used_by actual x) L" for x
    using m_start(1) by (simp_all add: tally_updates [OF m_start(3)] held_by_def used_by_def start_neutral)
  then show ?case using b rid by (simp add: balanced_def)
next
  case (m_settle L rid r w i out actual' evidence cost why_cost why now)
  note b = balancedD [OF m_settle(10)]
  have rid: "rw_reservation_id r = rid" using wf_row [OF m_settle(9,1)] by (simp add: row_ok_def)
  have gid: "mg_grant_id (gw_payload w) = rw_grant_id r" using wf_grant [OF m_settle(9,3)] by simp
  have cov: "upper r \<le> held w" by (rule held_covers [OF m_settle(9,10,1,2,3)])
  have h: "tally (held_by upper x) (L\<lparr>gl_grants := G, gl_reservations := AList.update rid (settled_row now i out cost why_cost r)
      (gl_reservations L)\<rparr>) = tally (held_by upper x) L - (if x = rw_grant_id r then upper r else 0)" for x G
    using m_settle(1,2) by (simp add: tally_updates [OF m_settle(9)] held_by_def)
  have u: "tally (used_by actual x) (L\<lparr>gl_grants := G, gl_reservations := AList.update rid (settled_row now i out cost why_cost r)
      (gl_reservations L)\<rparr>) = tally (used_by actual x) L + (if x = rw_grant_id r then pick i out cost else 0)" for x G
    using m_settle(1,2) by (simp add: tally_updates [OF m_settle(9)] used_by_def consume)
  have "unbreached (consumed now why i out cost w) \<Longrightarrow> unbreached w \<and> pick i out cost \<le> upper r"
    using m_settle(8) unbreached_use [of r w i out cost] by (simp add: unbreached_consumed)
  then show ?case
    using b [OF m_settle(3)] b cov by (auto simp: balanced_def map_of_AList_update h u rid gid release consume max_def)
next
  case (m_cancel L rid r w now reason)
  note b = balancedD [OF m_cancel(6)]
  have rid: "rw_reservation_id r = rid" using wf_row [OF m_cancel(5,1)] by (simp add: row_ok_def)
  have cov: "upper r \<le> held w" by (rule held_covers [OF m_cancel(5,6,1,2,4)])
  have up: "0 \<le> upper r" using wf_row [OF m_cancel(5,1)] by (auto simp: row_ok_def intro: upper_nonneg)
  have h: "tally (held_by upper x) (L\<lparr>gl_grants := G, gl_reservations := AList.update rid (cancelled_row now reason r)
      (gl_reservations L)\<rparr>) = tally (held_by upper x) L - (if x = rw_grant_id r then upper r else 0)" for x G
    using m_cancel(1,2) by (simp add: tally_updates [OF m_cancel(5)] held_by_def)
  have u: "tally (used_by actual x) (L\<lparr>gl_grants := G, gl_reservations := AList.update rid (cancelled_row now reason r)
      (gl_reservations L)\<rparr>) = tally (used_by actual x) L" for x G
    using m_cancel(1,2) by (simp add: tally_updates [OF m_cancel(5)] used_by_def)
  show ?case
    using b [OF m_cancel(4)] b cov up by (auto simp: balanced_def map_of_AList_update h u rid release max_def)
qed

end

lemmas meter_updates = new_grant_row_def charge_row_def released_def consumed_def new_row_def settled_row_def

interpretation money: meter gw_spent_microusd gw_reserved_microusd mg_max_cost_microusd rw_cost_upper rw_actual_cost
    pc_cost_upper "\<lambda>i out cost. cost"
  by unfold_locales
    (auto simp: meter_updates budget_refusal_def breach_def Let_def grant_valid_def split: if_splits)

interpretation input_tokens: meter gw_used_input gw_reserved_input mg_max_input_tokens rw_input_upper rw_actual_input
    pc_input_upper "\<lambda>i out cost. i"
  by unfold_locales
    (auto simp: meter_updates budget_refusal_def breach_def Let_def grant_valid_def split: if_splits)

interpretation output_tokens: meter gw_used_output gw_reserved_output mg_max_output_tokens rw_output_upper rw_actual_output
    pc_output_upper "\<lambda>i out cost. out"
  by unfold_locales
    (auto simp: meter_updates budget_refusal_def breach_def Let_def grant_valid_def split: if_splits)

section \<open>Calls and parallel calls\<close>

definition of_grant :: "pystr \<Rightarrow> reservation_row \<Rightarrow> int" where
  "of_grant gid r = (if rw_grant_id r = gid then 1 else 0)"

definition calls_ok :: "grant_ledger \<Rightarrow> bool" where
  "calls_ok L \<longleftrightarrow> (\<forall>gid w. map_of (gl_grants L) gid = Some w \<longrightarrow>
     gw_used_calls w = tally (of_grant gid) L \<and> tally (of_grant gid) L \<le> mg_max_calls (gw_payload w) \<and>
     tally (held_by (\<lambda>_. 1) gid) L \<le> mg_max_parallel (gw_payload w))"

lemma count_sum: "int (length (filter P xs)) = sum_list (map (\<lambda>r. if P r then 1 else 0) xs)"
  by (induction xs) auto

lemma rows_tally: "int (length (grant_rows L gid)) = tally (of_grant gid) L"
  by (simp add: grant_rows_def tally_def of_grant_def count_sum comp_def)

lemma active_tally: "int (active_of L gid) = tally (held_by (\<lambda>_. 1) gid) L"
  by (simp add: active_of_def grant_rows_def tally_def held_by_def filter_map count_sum comp_def)

lemma callsD: "calls_ok L \<Longrightarrow> map_of (gl_grants L) gid = Some w \<Longrightarrow>
    gw_used_calls w = tally (of_grant gid) L \<and> tally (of_grant gid) L \<le> mg_max_calls (gw_payload w) \<and>
    tally (held_by (\<lambda>_. 1) gid) L \<le> mg_max_parallel (gw_payload w)"
  unfolding calls_ok_def by blast

lemma used_calls_kept [simp]: "gw_used_calls (released r w) = gw_used_calls w" "gw_used_calls (consumed now why i out cost w) = gw_used_calls w"
  "gw_used_calls (charge_row c w) = gw_used_calls w + 1" "gw_used_calls (new_grant_row g) = 0"
  by (simp_all add: meter_updates)

lemma calls_move:
  assumes "ledger_wf ud L" "calls_ok L" "ledger_move ud FP L L'"
  shows "calls_ok L'"
  using assms(3,1,2)
proof (induction rule: ledger_move.induct)
  case (m_issue g L)
  have none: "rw_grant_id (snd e) \<noteq> mg_grant_id g" if "e \<in> set (gl_reservations L)" for e
    using wf_row [OF m_issue(3) dict_lookup [OF _ that]] m_issue(2,3) by (auto simp: row_ok_def ledger_wf_def)
  have "tally (of_grant (mg_grant_id g)) L = 0" "tally (held_by (\<lambda>_. 1) (mg_grant_id g)) L = 0"
    by (rule tally_zero; use none in \<open>auto simp: of_grant_def held_by_def\<close>)+
  moreover have "1 \<le> mg_max_calls g" "1 \<le> mg_max_parallel g" using m_issue(1) by (simp_all add: grant_valid_def)
  ultimately show ?case using callsD [OF m_issue(4)] by (auto simp: calls_ok_def map_of_AList_update)
next
  case (m_revoke L gid w now reason)
  then show ?case using callsD [OF m_revoke(4)] by (auto simp: calls_ok_def map_of_AList_update)
next
  case (m_reserve L gid w c key scope now rid)
  have "budget_refusal w (gw_payload w) (active_of L (mg_grant_id (gw_payload w))) c = None"
    using m_reserve(4) by (simp add: grant_authorize_def split: if_splits option.splits)
  then have "gw_used_calls w + 1 \<le> mg_max_calls (gw_payload w)"
    "int (active_of L (mg_grant_id (gw_payload w))) + 1 \<le> mg_max_parallel (gw_payload w)"
    by (auto simp: budget_refusal_def split: if_splits)
  moreover have "mg_grant_id (gw_payload w) = gid" using wf_grant [OF m_reserve(6,1)] by simp
  ultimately show ?case
    using m_reserve(1,5) callsD [OF m_reserve(7)]
    by (auto simp: calls_ok_def map_of_AList_update tally_updates [OF m_reserve(6)] of_grant_def held_by_def active_tally)
next
  case (m_start L rid r)
  have "rw_reservation_id r = rid" using wf_row [OF m_start(3,1)] by (simp add: row_ok_def)
  with m_start(1,2) show ?case
    using callsD [OF m_start(4)] by (auto simp: calls_ok_def tally_updates [OF m_start(3)] of_grant_def held_by_def)
next
  case (m_settle L rid r w i out actual' evidence cost why_cost why now)
  have "rw_reservation_id r = rid" "mg_grant_id (gw_payload w) = rw_grant_id r"
    using wf_row [OF m_settle(9,1)] wf_grant [OF m_settle(9,3)] by (simp_all add: row_ok_def)
  moreover have less: "tally (held_by (\<lambda>_. 1) (rw_grant_id r)) L - 1 \<le> mg_max_parallel (gw_payload w)"
    using callsD [OF m_settle(10,3)] by linarith
  ultimately show ?case using m_settle(1,2,3)
    callsD [OF m_settle(10)]
    by (auto simp: calls_ok_def map_of_AList_update tally_updates [OF m_settle(9)] of_grant_def held_by_def)
next
  case (m_cancel L rid r w now reason)
  have "rw_reservation_id r = rid" using wf_row [OF m_cancel(5,1)] by (simp add: row_ok_def)
  moreover have less: "tally (held_by (\<lambda>_. 1) (rw_grant_id r)) L - 1 \<le> mg_max_parallel (gw_payload w)"
    using callsD [OF m_cancel(6,4)] by linarith
  ultimately show ?case using m_cancel(1,2,4)
    callsD [OF m_cancel(6)]
    by (auto simp: calls_ok_def map_of_AList_update tally_updates [OF m_cancel(5)] of_grant_def held_by_def)
qed

definition books_ok :: "grant_ledger \<Rightarrow> bool" where
  "books_ok L \<longleftrightarrow> calls_ok L \<and> money.balanced L \<and> input_tokens.balanced L \<and> output_tokens.balanced L"

lemma books_run: "ledger_wf ud (fold (grant_step ud FP) ops empty_ledger) \<and> books_ok (fold (grant_step ud FP) ops empty_ledger)"
proof (rule ledger_run)
  show "books_ok empty_ledger"
    by (simp add: books_ok_def calls_ok_def money.balanced_def input_tokens.balanced_def output_tokens.balanced_def
        empty_ledger_def)
qed (auto simp: books_ok_def intro: calls_move money.balanced_move input_tokens.balanced_move output_tokens.balanced_move)

lemma tally_held: "tally (held_by upper gid) L = sum_list (map upper (filter (\<lambda>r. rw_state r = Reserved) (grant_rows L gid)))"
  by (simp add: tally_def held_by_def grant_rows_def sum_list_map_filter' filter_map comp_def)

lemma tally_used: "tally (used_by actual gid) L =
    sum_list (map (\<lambda>r. the (actual r)) (filter (\<lambda>r. rw_state r = Settled) (grant_rows L gid)))"
  by (simp add: tally_def used_by_def grant_rows_def sum_list_map_filter' filter_map comp_def)

definition ledger_after :: "unidata \<Rightarrow> (PricingProof \<Rightarrow> pystr) \<Rightarrow> grant_op list \<Rightarrow> grant_ledger" where
  "ledger_after ud FP ops = fold (grant_step ud FP) ops empty_ledger"

definition rows_in :: "reservation_state \<Rightarrow> grant_ledger \<Rightarrow> pystr \<Rightarrow> reservation_row list" where
  "rows_in st L gid = filter (\<lambda>r. rw_state r = st) (grant_rows L gid)"

section \<open>Properties\<close>

text \<open>C6. 
  However its users interleave, a grant is never overspent: the calls it ever opened and the calls open at
  once stay within its limits, and as long as no provider reported more than it had announced, what is
  spent together with what is still reserved stays within the budget, in money and in tokens.
\<close>
theorem grants_are_never_overspent:
  assumes "map_of (gl_grants (ledger_after ud FP ops)) gid = Some w"
  shows "gw_used_calls w \<le> mg_max_calls (gw_payload w) \<and>
    int (active_of (ledger_after ud FP ops) gid) \<le> mg_max_parallel (gw_payload w) \<and>
    (gw_revoke_reason w \<notin> set (map (\<lambda>e. Some (lit e)) BREACHES) \<longrightarrow>
       gw_spent_microusd w + gw_reserved_microusd w \<le> mg_max_cost_microusd (gw_payload w) \<and>
       gw_used_input w + gw_reserved_input w \<le> mg_max_input_tokens (gw_payload w) \<and>
       gw_used_output w + gw_reserved_output w \<le> mg_max_output_tokens (gw_payload w))"
proof -
  let ?L = "ledger_after ud FP ops"
  have ok: "calls_ok ?L" "money.balanced ?L" "input_tokens.balanced ?L" "output_tokens.balanced ?L"
    using books_run [of ud FP ops] by (simp_all add: books_ok_def ledger_after_def)
  from callsD [OF ok(1) assms] money.balancedD [OF ok(2) assms] input_tokens.balancedD [OF ok(3) assms]
    output_tokens.balancedD [OF ok(4) assms]
  show ?thesis unfolding active_tally unbreached_def by (auto simp del: set_map)
qed

text \<open>C8. 
  The counters of a grant are exactly the sums over its reservations: every call it opened is counted once,
  money and tokens spent are those of the settled calls, and what is held back are the upper bounds of the
  calls still open. Nothing is lost or counted twice by any sequence of operations.
\<close>
theorem the_books_balance:
  assumes "map_of (gl_grants (ledger_after ud FP ops)) gid = Some w"
  shows "gw_used_calls w = int (length (grant_rows (ledger_after ud FP ops) gid)) \<and>
    gw_spent_microusd w = (\<Sum>r \<leftarrow> rows_in Settled (ledger_after ud FP ops) gid. the (rw_actual_cost r)) \<and>
    gw_used_input w = (\<Sum>r \<leftarrow> rows_in Settled (ledger_after ud FP ops) gid. the (rw_actual_input r)) \<and>
    gw_used_output w = (\<Sum>r \<leftarrow> rows_in Settled (ledger_after ud FP ops) gid. the (rw_actual_output r)) \<and>
    gw_reserved_microusd w = (\<Sum>r \<leftarrow> rows_in Reserved (ledger_after ud FP ops) gid. rw_cost_upper r) \<and>
    gw_reserved_input w = (\<Sum>r \<leftarrow> rows_in Reserved (ledger_after ud FP ops) gid. rw_input_upper r) \<and>
    gw_reserved_output w = (\<Sum>r \<leftarrow> rows_in Reserved (ledger_after ud FP ops) gid. rw_output_upper r)"
proof -
  let ?L = "ledger_after ud FP ops"
  have ok: "calls_ok ?L" "money.balanced ?L" "input_tokens.balanced ?L" "output_tokens.balanced ?L"
    using books_run [of ud FP ops] by (simp_all add: books_ok_def ledger_after_def)
  from callsD [OF ok(1) assms] money.balancedD [OF ok(2) assms] input_tokens.balancedD [OF ok(3) assms]
    output_tokens.balancedD [OF ok(4) assms]
  show ?thesis unfolding rows_tally rows_in_def tally_held tally_used by simp
qed

section \<open>Samples\<close>

definition grant_ud :: unidata where
  "grant_ud = \<lparr>ud_word = (\<lambda>c. 97 \<le> c), ud_casefold = (\<lambda>c. [c]), ud_lower = id, ud_upper = id\<rparr>"

definition sample_grant :: ModelGrant where
  "sample_grant = \<lparr>mg_grant_id = lit ''g'', mg_scope = \<lparr>gs_connection_id = None, gs_session_id = None, gs_project_id = None\<rparr>,
     mg_selectors = [\<lparr>ms_provider = lit ''*'', ms_model = lit ''m''\<rparr>], mg_free_only = False, mg_max_cost_microusd = 100,
     mg_max_calls = 2, mg_max_input_tokens = 1000, mg_max_output_tokens = 100, mg_max_request_output_tokens = 50,
     mg_max_parallel = 1, mg_allow_fallback = False, mg_issued_at = 0, mg_expires_at = 60, mg_max_price_age_seconds = 60,
     mg_approval = \<lparr>la_approval_id = lit ''a'', la_channel = lit ''tui'', la_approved_at = 0, la_approval_text_sha256 = None\<rparr>,
     mg_label = []\<rparr>"

definition sample_call :: PreparedModelCall where
  "sample_call = \<lparr>pc_provider_id = lit ''p'', pc_model_id = lit ''m'', pc_input_upper = 500, pc_output_upper = 50,
     pc_cost_upper = 70, pc_pricing = \<lparr>pp_provider_id = lit ''p'', pp_model_id = lit ''m'',
       pp_rates = [\<lparr>br_name = lit ''in'', br_unit = lit ''t'', br_usd = 1\<rparr>], pp_source = lit ''s'', pp_observed_at = 1,
       pp_authoritative = True, pp_dimensions_complete = True, pp_currency = lit ''USD''\<rparr>\<rparr>"

definition sample_scope :: GrantScope where
  "sample_scope = \<lparr>gs_connection_id = None, gs_session_id = Some (lit ''s''), gs_project_id = None\<rparr>"

lemma sample_valid: "grant_valid grant_ud sample_grant" "call_valid sample_call"
  by (simp_all add: grant_valid_def sample_grant_def short_text_def scope_valid_def optional_text_def selector_valid_def
      approval_valid_def APPROVAL_CHANNELS_def call_valid_def sample_call_def lit_def)

definition sample_row :: reservation_row where
  "sample_row = new_row (\<lambda>_. lit ''f'') (lit ''res-1'') (lit ''g'') (lit ''k'') sample_call 2"

definition sample_ops :: "grant_op list" where
  "sample_ops = [OpIssueGrant sample_grant, OpReserveCall 2 (lit ''1'') (lit ''g'') sample_scope sample_call (lit ''k'')]"

definition sample_held :: grant_ledger where
  "sample_held = \<lparr>gl_grants = [(lit ''g'', charge_row sample_call (new_grant_row sample_grant))],
     gl_reservations = [(lit ''res-1'', sample_row)]\<rparr>"

lemma sample_issue: "snd (grant_issue sample_grant empty_ledger) =
    \<lparr>gl_grants = [(lit ''g'', new_grant_row sample_grant)], gl_reservations = []\<rparr>"
  by (simp add: grant_issue_def bindS_def empty_ledger_def sample_grant_def)

lemma sample_authorize: "grant_authorize grant_ud (new_grant_row sample_grant) sample_grant sample_scope sample_call 2 0 = None"
  by (simp add: grant_authorize_def price_refusal_def budget_refusal_def new_grant_row_def sample_grant_def sample_call_def
      sample_scope_def scope_matches_def selector_matches_def fnmatch_plain usable_for_bounded_spend_def proof_fresh_def
      grant_ud_def Let_def lit_def fnmatch_star [unfolded lit_def, simplified])

lemma sample_reserve:
  "grant_reserve grant_ud (\<lambda>_. lit ''f'') 2 (lit ''1'') (lit ''g'') sample_scope sample_call (lit ''k'')
     \<lparr>gl_grants = [(lit ''g'', new_grant_row sample_grant)], gl_reservations = []\<rparr> = (Inr sample_row, sample_held)"
proof -
  have k: "short_text 256 (lit ''k'')" by (simp add: short_text_def lit_def)
  have "lit ''res-'' @ lit ''1'' = lit ''res-1''" by (simp add: lit_def)
  with k sample_authorize show ?thesis
    by (simp add: grant_reserve_def txn_defs grant_of_def row_for_key_def Let_def active_of_def grant_rows_def sample_held_def sample_row_def)
qed

lemma sample_ledger_after: "ledger_after grant_ud (\<lambda>_. lit ''f'') sample_ops = sample_held"
  by (simp add: ledger_after_def sample_ops_def sample_valid sample_issue sample_reserve)

theorem grants_are_never_overspent_witness:
  "gw_spent_microusd (charge_row sample_call (new_grant_row sample_grant)) +
     gw_reserved_microusd (charge_row sample_call (new_grant_row sample_grant)) \<le> mg_max_cost_microusd sample_grant \<and>
   gw_reserved_microusd (charge_row sample_call (new_grant_row sample_grant)) = 70"
proof -
  have "map_of (gl_grants (ledger_after grant_ud (\<lambda>_. lit ''f'') sample_ops)) (lit ''g'') =
      Some (charge_row sample_call (new_grant_row sample_grant))"
    by (simp add: sample_ledger_after sample_held_def)
  from grants_are_never_overspent [OF this] show ?thesis
    by (auto simp: sample_call_def charge_row_def new_grant_row_def)
qed

theorem the_books_balance_witness:
  "gw_reserved_microusd (charge_row sample_call (new_grant_row sample_grant)) =
     (\<Sum>r \<leftarrow> rows_in Reserved sample_held (lit ''g''). rw_cost_upper r) \<and> rows_in Reserved sample_held (lit ''g'') = [sample_row]"
proof -
  have "map_of (gl_grants (ledger_after grant_ud (\<lambda>_. lit ''f'') sample_ops)) (lit ''g'') =
      Some (charge_row sample_call (new_grant_row sample_grant))"
    by (simp add: sample_ledger_after sample_held_def)
  from the_books_balance [OF this] show ?thesis
    by (simp add: sample_ledger_after) (simp add: rows_in_def grant_rows_def sample_held_def sample_row_def)
qed

end
