(* ===== verification/DelegatedCalls.thy ===== *)
theory DelegatedCalls imports ModelGrants PyConvert begin

text \<open>
  Who spends a grant: \<^verbatim>\<open>GrantBoundDelegator.invoke\<close> of \<^verbatim>\<open>src/karox/model_grants.py\<close> and the provider wrapper
  \<^verbatim>\<open>GrantEnforcedProvider\<close> of \<^verbatim>\<open>src/karox/delegated_provider.py\<close>. \<open>dl_sent\<close> lists the grants and keys under which
  a call left the machine. What the executor, the wrapped provider, the price resolver and the consumer of
  a stream do is an argument of each operation.
\<close>

record model_outcome =
  mo_input_tokens :: int
  mo_output_tokens :: int
  mo_actual_cost :: "int option"
  mo_cost_evidence :: pystr

record delegation =
  dl_ledger :: grant_ledger
  dl_sent :: "(pystr \<times> pystr) list"

datatype call_error = Ledger grant_error | CallFailed pystr | ContractBroken string

type_synonym 'a delegated = "delegation \<Rightarrow> (call_error + 'a) \<times> delegation"

definition in_grants :: "'a ledger_txn \<Rightarrow> 'a delegated" where
  "in_grants m = zoomS Ledger dl_ledger (\<lambda>x s. s\<lparr>dl_ledger := x\<rparr>) m"

definition mark_sent :: "pystr \<Rightarrow> pystr \<Rightarrow> unit delegated" where
  "mark_sent gid key = putS (\<lambda>s. s\<lparr>dl_sent := dl_sent s @ [(gid, key)]\<rparr>)"

definition usable_reservation :: "reservation_row \<Rightarrow> unit delegated" where
  "usable_reservation r =
     (if rw_state r = Settled then raiseS (Ledger (Denied ''already_settled''))
      else if rw_network_started r then raiseS (Ledger (Denied ''in_progress''))
      else retS ())"

definition abort_call :: "real \<Rightarrow> reservation_row \<Rightarrow> unit delegated" where
  "abort_call now r = bindS (in_grants (grant_abort now (rw_reservation_id r) (lit ''execution_failed''))) (\<lambda>_. retS ())"

definition delegator_invoke :: "unidata \<Rightarrow> (PricingProof \<Rightarrow> pystr) \<Rightarrow> real \<Rightarrow> pystr \<Rightarrow> pystr \<Rightarrow> GrantScope \<Rightarrow> PreparedModelCall \<Rightarrow>
    pystr \<Rightarrow> (PreparedModelCall \<Rightarrow> pystr + model_outcome) \<Rightarrow> (model_outcome \<times> Settlement) delegated" where
  "delegator_invoke ud FP now fresh gid scope c key executor =
     bindS (in_grants (grant_reserve ud FP now fresh gid scope c key)) (\<lambda>r.
     bindS (usable_reservation r) (\<lambda>_.
     bindS (in_grants (mark_network_started (rw_reservation_id r))) (\<lambda>_.
     bindS (mark_sent gid key) (\<lambda>_.
       case executor c of
         Inl e \<Rightarrow> bindS (abort_call now r) (\<lambda>_. raiseS (CallFailed e))
       | Inr out \<Rightarrow>
           bindS (in_grants (grant_settle now (rw_reservation_id r) (mo_input_tokens out) (mo_output_tokens out)
                    (mo_actual_cost out) (mo_cost_evidence out)))
             (\<lambda>s. retS (out, s))))))"

section \<open>The provider wrapper\<close>

record GrantEnforcedProvider =
  gp_provider_id :: pystr
  gp_grant_id :: pystr
  gp_scope :: GrantScope
  gp_idempotency_prefix :: pystr

definition plain_name :: "pystr \<Rightarrow> bool" where
  "plain_name s \<longleftrightarrow> s \<noteq> [] \<and> list_all (\<lambda>c. c \<notin> {13, 10, 0}) s"

definition provider_valid :: "GrantEnforcedProvider \<Rightarrow> bool" where
  "provider_valid p \<longleftrightarrow> plain_name (gp_provider_id p) \<and> plain_name (gp_grant_id p) \<and>
     gp_idempotency_prefix p \<noteq> [] \<and> length (gp_idempotency_prefix p) \<le> 200"

text \<open>The two fields of a request the wrapper reads.\<close>

record model_request =
  mq_model :: pystr
  mq_correlation_id :: pystr

text \<open>\<open>prepared\<close> is what the price resolver returns, with whether it kept the very request as payload.\<close>

definition provider_prepare :: "GrantEnforcedProvider \<Rightarrow> model_request \<Rightarrow> pystr + PreparedModelCall \<times> bool \<Rightarrow>
    PreparedModelCall delegated" where
  "provider_prepare p q prepared =
     (case prepared of
        Inl e \<Rightarrow> raiseS (CallFailed e)
      | Inr (c, same_payload) \<Rightarrow>
          if pc_provider_id c \<noteq> gp_provider_id p then raiseS (ContractBroken ''pricing resolver returned a different provider'')
          else if pc_model_id c \<noteq> mq_model q then raiseS (ContractBroken ''pricing resolver returned a different model'')
          else if \<not> same_payload then raiseS (ContractBroken ''pricing resolver must preserve the exact model request'')
          else retS c)"

definition provider_key :: "GrantEnforcedProvider \<Rightarrow> model_request \<Rightarrow> pystr" where
  "provider_key p q = take 256 (gp_idempotency_prefix p @ lit '':'' @ mq_correlation_id q)"

definition provider_reserve :: "unidata \<Rightarrow> (PricingProof \<Rightarrow> pystr) \<Rightarrow> real \<Rightarrow> pystr \<Rightarrow> GrantEnforcedProvider \<Rightarrow>
    model_request \<Rightarrow> PreparedModelCall \<Rightarrow> reservation_row delegated" where
  "provider_reserve ud FP now fresh p q c =
     bindS (in_grants (grant_reserve ud FP now fresh (gp_grant_id p) (gp_scope p) c (provider_key p q))) (\<lambda>r.
     bindS (usable_reservation r) (\<lambda>_. retS r))"

fun usage_int :: "(pystr, pyval) dict \<Rightarrow> string list \<Rightarrow> int" where
  "usage_int usage [] = 0"
| "usage_int usage (name # names) =
     (case pget usage name of
        PInt n \<Rightarrow> if 0 \<le> n then n else usage_int usage names
      | _ \<Rightarrow> usage_int usage names)"

definition response_usage :: "(pystr, pyval) dict \<Rightarrow> int \<times> int" where
  "response_usage usage =
     (usage_int usage [''prompt_tokens'', ''input_tokens''], usage_int usage [''completion_tokens'', ''output_tokens''])"

record DelegationReceipt =
  dr_grant_id :: pystr
  dr_reservation_id :: pystr
  dr_provider_id :: pystr
  dr_model_id :: pystr
  dr_settlement :: Settlement

text \<open>\<open>price\<close> is what the resolver makes of the response: a cost if it knows one, and its evidence.\<close>

definition provider_settle :: "real \<Rightarrow> GrantEnforcedProvider \<Rightarrow> PreparedModelCall \<Rightarrow> reservation_row \<Rightarrow>
    (pystr, pyval) dict \<Rightarrow> pystr + int option \<times> pystr \<Rightarrow> DelegationReceipt delegated" where
  "provider_settle now p c r usage price =
     (case price of
        Inl e \<Rightarrow> raiseS (CallFailed e)
      | Inr (actual, evidence) \<Rightarrow>
          (case response_usage usage of (i, out) \<Rightarrow>
             bindS (in_grants (grant_settle now (rw_reservation_id r) i out actual evidence)) (\<lambda>s.
               retS \<lparr>dr_grant_id = gp_grant_id p, dr_reservation_id = rw_reservation_id r,
                 dr_provider_id = pc_provider_id c, dr_model_id = pc_model_id c, dr_settlement = s\<rparr>)))"

type_synonym model_response = "(pystr, pyval) dict"

definition provider_complete :: "unidata \<Rightarrow> (PricingProof \<Rightarrow> pystr) \<Rightarrow> real \<Rightarrow> pystr \<Rightarrow> GrantEnforcedProvider \<Rightarrow>
    model_request \<Rightarrow> pystr + PreparedModelCall \<times> bool \<Rightarrow> pystr + model_response \<Rightarrow> pystr + int option \<times> pystr \<Rightarrow>
    DelegationReceipt delegated" where
  "provider_complete ud FP now fresh p q prepared underlying price =
     bindS (provider_prepare p q prepared) (\<lambda>c.
     bindS (provider_reserve ud FP now fresh p q c) (\<lambda>r.
     bindS (in_grants (mark_network_started (rw_reservation_id r))) (\<lambda>_.
     bindS (mark_sent (gp_grant_id p) (provider_key p q)) (\<lambda>_.
       case underlying of
         Inl e \<Rightarrow> bindS (abort_call now r) (\<lambda>_. raiseS (CallFailed e))
       | Inr response \<Rightarrow> provider_settle now p c r response price))))"

section \<open>Streams\<close>

text \<open>
  A stream is the list of its events, of which only being the completion matters here, and how it ends;
  the consumer may stop at one of the events it is given. \<open>summed\<close> is what \<^verbatim>\<open>accumulate_response\<close> makes of the
  collected events.
\<close>

datatype stream_end = Exhausted | StreamRaised pystr

datatype 'e stream_event = Delta 'e | Completion 'e

record 'e stream_run =
  sm_events :: "'e stream_event list"
  sm_end :: stream_end
  sm_stop_after :: "nat option"
  sm_summed :: "pystr + model_response"
  sm_price :: "pystr + int option \<times> pystr"

definition is_completion :: "'e stream_event \<Rightarrow> bool" where
  "is_completion e = (case e of Completion _ \<Rightarrow> True | Delta _ \<Rightarrow> False)"

text \<open>The events the consumer is given before the accounting: completions are held back.\<close>

definition streamed :: "'e stream_run \<Rightarrow> 'e stream_event list" where
  "streamed m = filter (\<lambda>e. \<not> is_completion e) (sm_events m)"

definition consumer_stops :: "'e stream_run \<Rightarrow> bool" where
  "consumer_stops m = (case sm_stop_after m of None \<Rightarrow> False | Some n \<Rightarrow> n < length (streamed m))"

definition stream_account :: "real \<Rightarrow> GrantEnforcedProvider \<Rightarrow> PreparedModelCall \<Rightarrow> reservation_row \<Rightarrow> 'e stream_run \<Rightarrow>
    unit delegated" where
  "stream_account now p c r m =
     (if consumer_stops m then raiseS (CallFailed (lit ''GeneratorExit''))
      else case sm_end m of
        StreamRaised e \<Rightarrow> raiseS (CallFailed e)
      | Exhausted \<Rightarrow>
          if \<not> list_ex is_completion (sm_events m)
          then raiseS (ContractBroken ''provider stream ended without completion'')
          else (case sm_summed m of
             Inl e \<Rightarrow> raiseS (CallFailed e)
           | Inr response \<Rightarrow> bindS (provider_settle now p c r response (sm_price m)) (\<lambda>_. retS ())))"

text \<open>The error handler and the \<^verbatim>\<open>finally\<close> block abort a call that was not settled, twice.\<close>

definition provider_stream :: "unidata \<Rightarrow> (PricingProof \<Rightarrow> pystr) \<Rightarrow> real \<Rightarrow> pystr \<Rightarrow> GrantEnforcedProvider \<Rightarrow>
    model_request \<Rightarrow> pystr + PreparedModelCall \<times> bool \<Rightarrow> 'e stream_run \<Rightarrow> 'e stream_event list delegated" where
  "provider_stream ud FP now fresh p q prepared m =
     bindS (provider_prepare p q prepared) (\<lambda>c.
     bindS (provider_reserve ud FP now fresh p q c) (\<lambda>r.
     bindS (in_grants (mark_network_started (rw_reservation_id r))) (\<lambda>_.
     bindS (mark_sent (gp_grant_id p) (provider_key p q)) (\<lambda>_ s.
       case stream_account now p c r m s of
         (Inl e, s') \<Rightarrow> bindS (abort_call now r) (\<lambda>_. bindS (abort_call now r) (\<lambda>_. raiseS e)) s'
       | (Inr _, s') \<Rightarrow>
           if is_completion (last (sm_events m)) then (Inr (streamed m @ [last (sm_events m)]), s')
           else (Inl (ContractBroken ''provider emitted data after terminal completion''), s')))))"

end
