(* ===== verification/DelegationProofs.thy ===== *)
theory DelegationProofs imports GrantProofs DelegatedCalls begin

text \<open>
  The callers of the spending ledger: a key sends at most one call, and every call that left is paid for.
\<close>

section \<open>One row per key\<close>

definition keys_unique :: "grant_ledger \<Rightarrow> bool" where
  "keys_unique L \<longleftrightarrow> (\<forall>i j r s. map_of (gl_reservations L) i = Some r \<longrightarrow> map_of (gl_reservations L) j = Some s \<longrightarrow>
     rw_grant_id r = rw_grant_id s \<longrightarrow> rw_idempotency_key r = rw_idempotency_key s \<longrightarrow> i = j)"

lemma row_for_key_Some:
  assumes "ledger_wf ud L" "row_for_key L gid key = Some r"
  shows "\<exists>rid. map_of (gl_reservations L) rid = Some r \<and> rw_grant_id r = gid \<and> rw_idempotency_key r = key"
proof -
  have "r \<in> set (map snd (gl_reservations L))" "rw_grant_id r = gid" "rw_idempotency_key r = key"
    using assms(2) by (auto simp: row_for_key_def find_Some_iff intro!: imageI)
  moreover have "dict_ok (gl_reservations L)" using assms(1) by (simp add: ledger_wf_def)
  ultimately show ?thesis using dict_lookup by fastforce
qed

lemma row_for_key_None:
  "row_for_key L gid key = None \<Longrightarrow> map_of (gl_reservations L) rid = Some r \<Longrightarrow>
     \<not> (rw_grant_id r = gid \<and> rw_idempotency_key r = key)"
  by (auto simp: row_for_key_def find_None_iff dest!: map_of_SomeD)

lemma row_for_key_eq:
  assumes "ledger_wf ud L" "keys_unique L" "map_of (gl_reservations L) rid = Some r"
  shows "row_for_key L (rw_grant_id r) (rw_idempotency_key r) = Some r"
proof (cases "row_for_key L (rw_grant_id r) (rw_idempotency_key r)")
  case None
  from row_for_key_None [OF None assms(3)] show ?thesis by simp
next
  case (Some s)
  from row_for_key_Some [OF assms(1) Some] assms(2,3) show ?thesis
    using Some unfolding keys_unique_def by (metis option.inject)
qed

lemma unique_move:
  assumes "ledger_wf ud L" "keys_unique L" "ledger_move ud FP L L'"
  shows "keys_unique L'"
  using assms(3,1,2)
proof (induction rule: ledger_move.induct)
  case (m_reserve L gid w c key scope now rid)
  from row_for_key_None [OF m_reserve(3)] m_reserve(7) show ?case
    by (fastforce simp: keys_unique_def map_of_AList_update)
next
  case (m_start L rid r)
  have "rw_reservation_id r = rid" using wf_row [OF m_start(3,1)] by (simp add: row_ok_def)
  with m_start(1,4) show ?case by (fastforce simp: keys_unique_def map_of_AList_update)
next
  case (m_settle L rid r w i out actual' evidence cost why_cost why now)
  have "rw_reservation_id r = rid" using wf_row [OF m_settle(9,1)] by (simp add: row_ok_def)
  with m_settle(1,10) show ?case by (fastforce simp: keys_unique_def map_of_AList_update)
next
  case (m_cancel L rid r w now reason)
  have "rw_reservation_id r = rid" using wf_row [OF m_cancel(5,1)] by (simp add: row_ok_def)
  with m_cancel(1,6) show ?case by (fastforce simp: keys_unique_def map_of_AList_update)
qed (simp_all add: keys_unique_def)

section \<open>What leaves the machine\<close>

text \<open>A row that pays for a call: settled, or reserved and marked as started.\<close>

definition paying :: "reservation_row \<Rightarrow> bool" where
  "paying r \<longleftrightarrow> rw_state r = Settled \<or> rw_state r = Reserved \<and> rw_network_started r"

definition ledger_good :: "unidata \<Rightarrow> grant_ledger \<Rightarrow> bool" where
  "ledger_good ud L \<longleftrightarrow> ledger_wf ud L \<and> keys_unique L"

text \<open>Every move keeps a paying row paying and a cancelled row cancelled.\<close>

definition calm_move :: "unidata \<Rightarrow> grant_ledger \<Rightarrow> grant_ledger \<Rightarrow> bool" where
  "calm_move ud L L' \<longleftrightarrow> ledger_good ud L' \<and>
     (\<forall>rid r. map_of (gl_reservations L) rid = Some r \<longrightarrow> (\<exists>r'. map_of (gl_reservations L') rid = Some r' \<and>
        rw_grant_id r' = rw_grant_id r \<and> rw_idempotency_key r' = rw_idempotency_key r \<and> (paying r \<longrightarrow> paying r') \<and>
        (rw_state r = Cancelled \<longrightarrow> rw_state r' = Cancelled)))"

lemma calm_moved:
  assumes "ledger_good ud L" "moved ud FP L L'"
  shows "calm_move ud L L'"
proof (cases "L' = L")
  case False
  with assms(2) have m: "ledger_move ud FP L L'" by (simp add: moved_def)
  have g: "ledger_wf ud L" "keys_unique L" using assms(1) by (simp_all add: ledger_good_def)
  have "ledger_good ud L'"
    using wf_move [OF m g(1)] unique_move [OF g m] by (simp add: ledger_good_def)
  moreover have "\<exists>r'. map_of (gl_reservations L') rid = Some r' \<and> rw_grant_id r' = rw_grant_id r \<and>
      rw_idempotency_key r' = rw_idempotency_key r \<and> (paying r \<longrightarrow> paying r') \<and>
      (rw_state r = Cancelled \<longrightarrow> rw_state r' = Cancelled)"
    if r: "map_of (gl_reservations L) rid = Some r" for rid r
    using m r g(1)
  proof (induction rule: ledger_move.induct)
    case (m_start L rid' r')
    then show ?case by (cases "rid = rid'") (auto simp: map_of_AList_update paying_def ledger_wf_def row_ok_def)
  next
    case (m_settle L rid' r' w i out actual' evidence cost why_cost why now)
    then show ?case by (cases "rid = rid'") (auto simp: map_of_AList_update paying_def ledger_wf_def row_ok_def)
  next
    case (m_cancel L rid' r' w now reason)
    then show ?case by (cases "rid = rid'") (auto simp: map_of_AList_update paying_def ledger_wf_def row_ok_def)
  qed (auto simp: map_of_AList_update)
  ultimately show ?thesis by (simp add: calm_move_def)
qed (use assms(1) in \<open>auto simp: calm_move_def\<close>)

lemma abort_calm: "ledger_good ud L \<Longrightarrow> calm_move ud L (snd (grant_abort now rid reason L))"
  by (rule calm_moved) (auto simp: ledger_good_def ledger_wf_def row_ok_def ran_def intro!: abort_moves)

text \<open>A key is open unless its reservation was cancelled.\<close>

definition open_key :: "grant_ledger \<Rightarrow> pystr \<times> pystr \<Rightarrow> bool" where
  "open_key L k \<longleftrightarrow> map_option rw_state (row_for_key L (fst k) (snd k)) \<noteq> Some Cancelled"

definition sent_ok :: "unidata \<Rightarrow> delegation \<Rightarrow> bool" where
  "sent_ok ud D \<longleftrightarrow> ledger_good ud (dl_ledger D) \<and> distinct (filter (open_key (dl_ledger D)) (dl_sent D)) \<and>
     (\<forall>gid key. (gid, key) \<in> set (dl_sent D) \<longrightarrow> (\<exists>rid r. map_of (gl_reservations (dl_ledger D)) rid = Some r \<and>
        rw_grant_id r = gid \<and> rw_idempotency_key r = key \<and> (paying r \<or> rw_state r = Cancelled)))"

lemma sent_good: "sent_ok ud D \<Longrightarrow> ledger_good ud (dl_ledger D)"
  by (simp add: sent_ok_def)

lemma good_row: "ledger_good ud L \<Longrightarrow> map_of (gl_reservations L) rid = Some r \<Longrightarrow>
    row_for_key L (rw_grant_id r) (rw_idempotency_key r) = Some r"
  by (rule row_for_key_eq) (auto simp: ledger_good_def)

lemma sent_calm:
  assumes "sent_ok ud D" "calm_move ud (dl_ledger D) L'"
  shows "sent_ok ud (D\<lparr>dl_ledger := L'\<rparr>)"
proof -
  have g: "ledger_good ud (dl_ledger D)" "ledger_good ud L'" using assms by (simp_all add: sent_ok_def calm_move_def)
  have after: "(\<exists>rid r. map_of (gl_reservations L') rid = Some r \<and> rw_grant_id r = gid \<and> rw_idempotency_key r = key \<and>
      (paying r \<or> rw_state r = Cancelled)) \<and> (open_key L' (gid, key) \<longleftrightarrow> open_key (dl_ledger D) (gid, key))"
    if "(gid, key) \<in> set (dl_sent D)" for gid key
  proof -
    obtain rid r where r: "map_of (gl_reservations (dl_ledger D)) rid = Some r" "rw_grant_id r = gid"
      "rw_idempotency_key r = key" "paying r \<or> rw_state r = Cancelled"
      using assms(1) \<open>(gid, key) \<in> set (dl_sent D)\<close> unfolding sent_ok_def by blast
    obtain r' where r': "map_of (gl_reservations L') rid = Some r'" "rw_grant_id r' = gid" "rw_idempotency_key r' = key"
      "paying r \<longrightarrow> paying r'" "rw_state r = Cancelled \<longrightarrow> rw_state r' = Cancelled"
      using assms(2) r(1-3) unfolding calm_move_def by metis
    have "open_key (dl_ledger D) (gid, key) \<longleftrightarrow> rw_state r \<noteq> Cancelled" "open_key L' (gid, key) \<longleftrightarrow> rw_state r' \<noteq> Cancelled"
      using good_row [OF g(1) r(1)] good_row [OF g(2) r'(1)] r(2,3) r'(2,3) by (simp_all add: open_key_def)
    with r r' show ?thesis by (auto simp: paying_def)
  qed
  then have "filter (open_key L') (dl_sent D) = filter (open_key (dl_ledger D)) (dl_sent D)"
    by (intro filter_cong) auto
  with after assms g(2) show ?thesis by (simp add: sent_ok_def)
qed

lemma in_grants_snd: "snd (in_grants m D) = D\<lparr>dl_ledger := snd (m (dl_ledger D))\<rparr>"
  by (simp add: in_grants_def zoomS_def split: prod.split sum.split)

lemma sent_moved:
  "sent_ok ud D \<Longrightarrow> moved ud FP (dl_ledger D) (snd (m (dl_ledger D))) \<Longrightarrow> sent_ok ud (snd (in_grants m D))"
  unfolding in_grants_snd by (rule sent_calm) (auto intro: calm_moved sent_good)

lemma keeps_raising: "keeps P (raiseS e)"
  by (simp add: keeps_def raiseS_def)

text \<open>What follows a call that left keeps this.\<close>

lemma out_settle: "keeps (sent_ok ud) (in_grants (grant_settle now rid i out actual evidence))"
  unfolding keeps_def by (auto intro!: sent_moved settle_moves)

lemma out_abort: "keeps (sent_ok ud) (abort_call now r)"
proof -
  have "keeps (sent_ok ud) (in_grants (grant_abort now rid e))" for rid e
    unfolding keeps_def in_grants_snd by (auto intro!: sent_calm abort_calm sent_good)
  then show ?thesis unfolding abort_call_def by (intro keeps_bindS keeps_ret)
qed

lemma out_provider_settle: "keeps (sent_ok ud) (provider_settle now p c r usage price)"
  unfolding provider_settle_def
  by (auto intro!: keeps_bindS keeps_ret keeps_raising out_settle split: sum.split prod.split)

lemma out_account: "keeps (sent_ok ud) (stream_account now p c r m)"
  unfolding stream_account_def
  by (auto intro!: keeps_bindS keeps_ret keeps_raising out_provider_settle split: sum.split stream_end.split)

text \<open>The opening shared by every way to call: reserve, refuse a used key, mark, send.\<close>

lemma row_reserved:
  assumes "grant_reserve ud FP now fresh gid scope c key L = (Inr r, L')" "ledger_wf ud L"
  shows "map_of (gl_reservations L') (rw_reservation_id r) = Some r \<and> rw_grant_id r = gid \<and> rw_idempotency_key r = key"
proof (cases "row_for_key L gid key")
  case None
  with assms(1) show ?thesis
    by (auto simp: grant_reserve_def txn_defs grant_of_def Let_def map_of_AList_update split: option.splits if_splits)
next
  case (Some s)
  with assms(1) have "s = r \<and> L' = L"
    by (auto simp: grant_reserve_def txn_defs grant_of_def split: option.splits if_splits)
  with row_for_key_Some [OF assms(2) Some] wf_row [OF assms(2)] show ?thesis by (fastforce simp: row_ok_def)
qed

text \<open>An unsettled row that was not started is marked, unless it was cancelled, and then the call leaves.\<close>

lemma opened:
  assumes s1: "sent_ok ud D" and row: "map_of (gl_reservations (dl_ledger D)) (rw_reservation_id r) = Some r"
    "rw_grant_id r = gid" "rw_idempotency_key r = key" and new: "rw_state r \<noteq> Settled" "\<not> rw_network_started r"
    and m: "in_grants (mark_network_started (rw_reservation_id r)) D = (x, D2)"
  shows "case x of Inl e \<Rightarrow> sent_ok ud D2 | Inr y \<Rightarrow> sent_ok ud (snd (mark_sent gid key D2))"
proof -
  let ?rid = "rw_reservation_id r"
  have D2: "D2 = D\<lparr>dl_ledger := snd (mark_network_started ?rid (dl_ledger D))\<rparr>"
    using in_grants_snd [of "mark_network_started ?rid" D] m by simp
  have s2: "sent_ok ud D2" using sent_moved [of ud D undefined "mark_network_started ?rid", OF s1 start_moves] m by simp
  have g2: "ledger_good ud (dl_ledger D2)" using s2 by (simp add: sent_ok_def)
  show ?thesis
  proof (cases x)
    case (Inr y)
    then have "short_text 256 ?rid" using m by (auto simp: in_grants_def zoomS_def mark_network_started_def bindS_def row_of_def
      split: if_splits)
    then obtain r2 where r2: "map_of (gl_reservations (dl_ledger D2)) ?rid = Some r2" "rw_grant_id r2 = gid"
      "rw_idempotency_key r2 = key" "rw_state r2 = rw_state r" "rw_state r = Reserved \<longrightarrow> rw_network_started r2"
      using row by (cases "rw_state r = Reserved")
        (auto simp: D2 mark_network_started_def bindS_def row_of_def put_row_def putS_def retS_def map_of_AList_update)
    have key2: "row_for_key (dl_ledger D2) gid key = Some r2" using good_row [OF g2 r2(1)] r2(2,3) by simp
    have stays: "paying r2 \<or> rw_state r2 = Cancelled"
      using r2(4,5) new(1) by (cases "rw_state r") (auto simp: paying_def)
    have "(gid, key) \<notin> set (dl_sent D2)" if "open_key (dl_ledger D2) (gid, key)"
    proof
      assume "(gid, key) \<in> set (dl_sent D2)"
      then have "(gid, key) \<in> set (dl_sent D)" by (simp add: D2)
      then obtain i s where s: "map_of (gl_reservations (dl_ledger D)) i = Some s" "rw_grant_id s = gid"
        "rw_idempotency_key s = key" "paying s \<or> rw_state s = Cancelled" using s1 unfolding sent_ok_def by blast
      have g: "ledger_good ud (dl_ledger D)" using s1 by (simp add: sent_ok_def)
      have "s = r" using good_row [OF g s(1)] good_row [OF g row(1)] s(2,3) row(2,3) by simp
      with s(4) new r2(4) key2 that show False by (simp add: paying_def open_key_def)
    qed
    then have "distinct (filter (open_key (dl_ledger D2)) (dl_sent D2 @ [(gid, key)]))"
      using s2 by (auto simp: sent_ok_def)
    moreover have "\<exists>rid r. map_of (gl_reservations (dl_ledger D2)) rid = Some r \<and> rw_grant_id r = g \<and>
        rw_idempotency_key r = k \<and> (paying r \<or> rw_state r = Cancelled)" if "(g, k) \<in> set (dl_sent D2 @ [(gid, key)])" for g k
      using that s2 r2(1-3) stays unfolding sent_ok_def set_append list.set by blast
    ultimately have "sent_ok ud (D2\<lparr>dl_sent := dl_sent D2 @ [(gid, key)]\<rparr>)"
      using g2 unfolding sent_ok_def by (simp del: filter_append set_append)
    then show ?thesis using Inr by (simp add: mark_sent_def putS_def)
  qed (use s2 in simp)
qed

lemma call_opens:
  assumes "sent_ok ud D" "call_valid c" and tail: "\<And>r x. keeps (sent_ok ud) (k r x)"
  shows "sent_ok ud (snd (bindS (in_grants (grant_reserve ud FP now fresh gid scope c key)) (\<lambda>r.
     bindS (usable_reservation r) (\<lambda>_. bindS (in_grants (mark_network_started (rw_reservation_id r))) (\<lambda>x.
     bindS (mark_sent gid key) (\<lambda>_. k r x)))) D))"
proof -
  let ?res = "in_grants (grant_reserve ud FP now fresh gid scope c key)"
  have wf: "ledger_wf ud (dl_ledger D)" using assms(1) by (simp add: sent_ok_def ledger_good_def)
  obtain y D1 where y: "?res D = (y, D1)" by fastforce
  have s1: "sent_ok ud D1" using sent_moved [of ud D FP "grant_reserve ud FP now fresh gid scope c key", OF assms(1) reserve_moves [OF assms(2)]] y
    by simp
  show ?thesis
  proof (cases y)
    case (Inl e)
    with y s1 show ?thesis by (simp add: bindS_err)
  next
    case (Inr r)
    note y = y [unfolded Inr]
    show ?thesis
    proof (cases "rw_state r = Settled \<or> rw_network_started r")
      case True
      with y s1 show ?thesis by (auto simp: bindS_ok usable_reservation_def bindS_def raiseS_def)
    next
      case False
      obtain L1 where L1: "grant_reserve ud FP now fresh gid scope c key (dl_ledger D) = (Inr r, L1)" "dl_ledger D1 = L1"
        using y by (auto simp: in_grants_def zoomS_def split: prod.splits sum.splits)
      have row: "map_of (gl_reservations (dl_ledger D1)) (rw_reservation_id r) = Some r" "rw_grant_id r = gid" "rw_idempotency_key r = key"
        using row_reserved [OF L1(1) wf] L1(2) by simp_all
      have u: "usable_reservation r D1 = (Inr (), D1)" using False by (simp add: usable_reservation_def retS_def)
      obtain z D2 where z: "in_grants (mark_network_started (rw_reservation_id r)) D1 = (z, D2)" by fastforce
      note o = opened [OF s1 row _ _ z]
      show ?thesis
      proof (cases z)
        case (Inl e)
        with o False y u z show ?thesis by (simp add: bindS_ok bindS_err)
      next
        case (Inr x)
        obtain D3 where s: "mark_sent gid key D2 = (Inr (), D3)" by (simp add: mark_sent_def putS_def)
        have "sent_ok ud D3" using o False Inr s by simp
        then have "sent_ok ud (snd (k r x D3))" using tail by (simp add: keeps_def)
        with y u z Inr s show ?thesis by (simp add: bindS_ok)
      qed
    qed
  qed
qed

section \<open>Callers of the ledger\<close>

datatype 'e delegation_op =
    DLedger grant_op
  | DInvoke real pystr pystr GrantScope PreparedModelCall pystr "pystr + model_outcome"
  | DComplete real pystr GrantEnforcedProvider model_request "pystr + PreparedModelCall \<times> bool"
      "pystr + model_response" "pystr + int option \<times> pystr"
  | DStream real pystr GrantEnforcedProvider model_request "pystr + PreparedModelCall \<times> bool" "'e stream_run"

definition preparable :: "pystr + PreparedModelCall \<times> bool \<Rightarrow> bool" where
  "preparable prepared \<longleftrightarrow> (case prepared of Inl _ \<Rightarrow> True | Inr (c, _) \<Rightarrow> call_valid c)"

fun delegation_step :: "unidata \<Rightarrow> (PricingProof \<Rightarrow> pystr) \<Rightarrow> 'e delegation_op \<Rightarrow> delegation \<Rightarrow> delegation" where
  "delegation_step ud FP (DLedger op) D = D\<lparr>dl_ledger := grant_step ud FP op (dl_ledger D)\<rparr>"
| "delegation_step ud FP (DInvoke now fresh gid scope c key outcome) D =
     (if call_valid c then snd (delegator_invoke ud FP now fresh gid scope c key (\<lambda>_. outcome) D) else D)"
| "delegation_step ud FP (DComplete now fresh p q prepared underlying price) D =
     (if preparable prepared then snd (provider_complete ud FP now fresh p q prepared underlying price D) else D)"
| "delegation_step ud FP (DStream now fresh p q prepared m) D =
     (if preparable prepared then snd (provider_stream ud FP now fresh p q prepared m D) else D)"

lemma prepare_state: "provider_prepare p q prepared D = (Inr c, D') \<Longrightarrow> D' = D \<and> (\<exists>b. prepared = Inr (c, b))"
  by (auto simp: provider_prepare_def raiseS_def retS_def split: sum.splits prod.splits if_splits)

lemma prepare_snd: "snd (provider_prepare p q prepared D) = D"
  by (simp add: provider_prepare_def raiseS_def retS_def split: sum.split prod.split)

lemma bind_reserve:
  "bindS (provider_reserve ud FP now fresh p q c) k =
     bindS (in_grants (grant_reserve ud FP now fresh (gp_grant_id p) (gp_scope p) c (provider_key p q))) (\<lambda>r.
     bindS (usable_reservation r) (\<lambda>_. k r))"
  by (rule ext) (simp add: provider_reserve_def bindS_def retS_def split: prod.split sum.split)

lemma sent_step: "sent_ok ud D \<Longrightarrow> sent_ok ud (delegation_step ud FP op D)"
proof (cases op)
  case (DLedger grop)
  assume s: "sent_ok ud D"
  have "moved ud FP (dl_ledger D) (grant_step ud FP grop (dl_ledger D))"
    using s by (intro step_moves) (simp add: sent_ok_def ledger_good_def)
  with DLedger s show ?thesis by (auto intro!: sent_calm calm_moved sent_good)
next
  case (DInvoke now fresh gid scope c key outcome)
  assume "sent_ok ud D"
  then show ?thesis
    unfolding DInvoke delegation_step.simps delegator_invoke_def
    by (auto intro!: call_opens keeps_bindS keeps_raising keeps_ret out_settle out_abort split: sum.split)
next
  case (DComplete now fresh p q prepared underlying price)
  assume s: "sent_ok ud D"
  show ?thesis
  proof (cases "provider_prepare p q prepared D")
    case (Pair x D')
    then show ?thesis
    proof (cases x)
      case (Inr c)
      with Pair prepare_state [of p q prepared D c D'] s show ?thesis
        unfolding DComplete delegation_step.simps provider_complete_def bind_reserve
        by (auto simp: bindS_ok preparable_def intro!: call_opens keeps_bindS keeps_raising keeps_ret out_provider_settle out_abort
            split: sum.split)
    qed (use s prepare_snd [of p q prepared D] in \<open>simp add: DComplete provider_complete_def bindS_err\<close>)
  qed
next
  case (DStream now fresh p q prepared m)
  assume s: "sent_ok ud D"
  have tail: "keeps (sent_ok ud) (\<lambda>s. case stream_account now p c r m s of
         (Inl e, s') \<Rightarrow> bindS (abort_call now r) (\<lambda>_. bindS (abort_call now r) (\<lambda>_. raiseS e)) s'
       | (Inr _, s') \<Rightarrow>
           if is_completion (last (sm_events m)) then (Inr (streamed m @ [last (sm_events m)]), s')
           else (Inl (ContractBroken ''provider emitted data after terminal completion''), s'))" for r c
    unfolding keeps_def
  proof (intro allI impI)
    fix s assume o: "sent_ok ud s"
    obtain y s' where y: "stream_account now p c r m s = (y, s')" by fastforce
    have o': "sent_ok ud s'" using keepsD [OF out_account o y] .
    have "keeps (sent_ok ud) (bindS (abort_call now r) (\<lambda>_. bindS (abort_call now r) (\<lambda>_. raiseS e)))" for e
      by (intro keeps_bindS keeps_raising out_abort)
    with o' y show "sent_ok ud (snd (case stream_account now p c r m s of
         (Inl e, s') \<Rightarrow> bindS (abort_call now r) (\<lambda>_. bindS (abort_call now r) (\<lambda>_. raiseS e)) s'
       | (Inr _, s') \<Rightarrow>
           if is_completion (last (sm_events m)) then (Inr (streamed m @ [last (sm_events m)]), s')
           else (Inl (ContractBroken ''provider emitted data after terminal completion''), s')))"
      by (auto simp: keeps_def split: sum.split)
  qed
  show ?thesis
  proof (cases "provider_prepare p q prepared D")
    case (Pair x D')
    then show ?thesis
    proof (cases x)
      case (Inr c)
      with Pair prepare_state [of p q prepared D c D'] s tail show ?thesis
        unfolding DStream delegation_step.simps provider_stream_def bind_reserve
        by (auto simp: bindS_ok preparable_def intro!: call_opens)
    qed (use s prepare_snd [of p q prepared D] in \<open>simp add: DStream provider_stream_def bindS_err\<close>)
  qed
qed

lemma sent_run: "sent_ok ud D \<Longrightarrow> sent_ok ud (fold (delegation_step ud FP) ops D)"
  by (induction ops arbitrary: D) (simp_all add: sent_step)

definition delegations_after :: "unidata \<Rightarrow> (PricingProof \<Rightarrow> pystr) \<Rightarrow> 'e delegation_op list \<Rightarrow> delegation" where
  "delegations_after ud FP ops = fold (delegation_step ud FP) ops \<lparr>dl_ledger = empty_ledger, dl_sent = []\<rparr>"

section \<open>Two gaps\<close>

text \<open>
  Two clients that reserve the same call under the same key before either has marked it both get the same
  unstarted reservation, and both go on to send it: the mark does not tell who came first.
\<close>

lemma reserved_twice:
  assumes "grant_reserve ud FP now fresh gid scope c key L = (Inr r, L1)" "ledger_wf ud L" "keys_unique L1" "ledger_wf ud L1"
    and "rw_state r = Reserved" "\<not> rw_network_started r"
  shows "grant_reserve ud FP now' fresh' gid scope' c key L1 = (Inr r, L1) \<and> usable_reservation r D = (Inr (), D)"
proof -
  have row: "row_for_key L1 gid key = Some r"
    using row_reserved [OF assms(1,2)] row_for_key_eq [OF assms(4,3)] by auto
  have w: "short_text 256 key \<and> map_of (gl_grants L1) gid \<noteq> None \<and> same_call FP r c"
  proof (cases "row_for_key L gid key")
    case None
    with assms(1) show ?thesis
      by (auto simp: grant_reserve_def txn_defs grant_of_def Let_def map_of_AList_update same_call_def new_row_def
          split: option.splits if_splits)
  next
    case (Some s)
    with assms(1) show ?thesis
      by (auto simp: grant_reserve_def txn_defs grant_of_def split: option.splits if_splits)
  qed
  then show ?thesis
    using row assms(5,6) by (auto simp: grant_reserve_def txn_defs grant_of_def usable_reservation_def)
qed

text \<open>
  A key whose reservation was cancelled still opens a call: it is sent, nothing pays for it, and only then
  settling it fails.
\<close>

lemma cancelled_key_is_sent_unpaid:
  assumes "row_for_key (dl_ledger D) gid key = Some r" "rw_state r = Cancelled" "\<not> rw_network_started r" "same_call FP r c"
    and "map_of (gl_grants (dl_ledger D)) gid \<noteq> None" "short_text 256 key" "short_text 256 (rw_reservation_id r)"
    and "map_of (gl_reservations (dl_ledger D)) (rw_reservation_id r) = Some r" "0 \<le> mo_input_tokens out" "0 \<le> mo_output_tokens out"
    and "short_text 128 (mo_cost_evidence out)"
  shows "delegator_invoke ud FP now fresh gid scope c key (\<lambda>_. Inr out) D =
    (Inl (Ledger (LedgerError ''only a reserved model call can be settled'')), D\<lparr>dl_sent := dl_sent D @ [(gid, key)]\<rparr>)"
  using assms
  by (auto simp: delegator_invoke_def in_grants_def zoomS_def grant_reserve_def txn_defs grant_of_def usable_reservation_def
      mark_network_started_def row_of_def mark_sent_def grant_settle_def)

section \<open>Properties\<close>

text \<open>C9. 
  Calls made one after the other, between which anybody may change the ledger in any way (issue and revoke
  grants, reserve, start, settle and cancel calls): a key of a grant sends at most one call, and a reservation
  that is settled, or still held and marked as started, pays for it, unless the reservation of this key was
  cancelled before.
\<close>
theorem sent_calls_are_paid_for:
  "distinct (filter (\<lambda>(gid, key). map_option rw_state (row_for_key (dl_ledger (delegations_after ud FP ops)) gid key) \<noteq> Some Cancelled)
       (dl_sent (delegations_after ud FP ops))) \<and>
    (\<forall>(gid, key) \<in> set (dl_sent (delegations_after ud FP ops)). \<exists>r. row_for_key (dl_ledger (delegations_after ud FP ops)) gid key = Some r \<and>
       (rw_state r = Settled \<or> rw_state r = Reserved \<and> rw_network_started r \<or> rw_state r = Cancelled))"
proof -
  have "sent_ok ud \<lparr>dl_ledger = empty_ledger, dl_sent = []\<rparr>"
    by (simp add: sent_ok_def ledger_good_def ledger_wf_def keys_unique_def empty_ledger_def)
  from sent_run [OF this, of FP ops] have s: "sent_ok ud (delegations_after ud FP ops)" by (simp add: delegations_after_def)
  have "\<exists>r. row_for_key (dl_ledger (delegations_after ud FP ops)) gid key = Some r \<and> (paying r \<or> rw_state r = Cancelled)"
    if "(gid, key) \<in> set (dl_sent (delegations_after ud FP ops))" for gid key
    using s that good_row unfolding sent_ok_def by metis
  moreover have "open_key L = (\<lambda>(gid, key). map_option rw_state (row_for_key L gid key) \<noteq> Some Cancelled)" for L
    by (auto simp: open_key_def fun_eq_iff)
  ultimately show ?thesis using s by (auto simp: sent_ok_def paying_def)
qed

text \<open>A sample call that fails after it left: it is sent once and settled at its upper bound.\<close>

definition sample_delegations :: "unit delegation_op list" where
  "sample_delegations = [DLedger (OpIssueGrant sample_grant),
     DInvoke 2 (lit ''1'') (lit ''g'') sample_scope sample_call (lit ''k'') (Inl (lit ''timeout''))]"

lemma sample_sent: "dl_sent (delegations_after grant_ud (\<lambda>_. lit ''f'') sample_delegations) = [(lit ''g'', lit ''k'')]"
proof -
  have n: "dl_sent (snd (in_grants m D)) = dl_sent D" for m :: "'a ledger_txn" and D by (simp add: in_grants_snd)
  have u: "usable_reservation sample_row D = (Inr (), D)" for D
    by (simp add: usable_reservation_def retS_def sample_row_def)
  have rid: "rw_reservation_id sample_row = lit ''res-1''" by (simp add: sample_row_def)
  have m: "\<exists>x L. mark_network_started (lit ''res-1'') sample_held = (Inr x, L)"
    by (simp add: mark_network_started_def txn_defs row_of_def sample_held_def sample_row_def short_text_def lit_def)
  then obtain x L where m: "mark_network_started (lit ''res-1'') sample_held = (Inr x, L)" by blast
  have ab: "dl_sent (snd (bindS (abort_call now r) (\<lambda>_. raiseS e) D)) = dl_sent D" for now r e D
  proof -
    have "dl_sent (snd (abort_call now r D)) = dl_sent D"
      using n [of "grant_abort now (rw_reservation_id r) (lit ''execution_failed'')" D]
      by (cases "in_grants (grant_abort now (rw_reservation_id r) (lit ''execution_failed'')) D")
        (auto simp: abort_call_def bindS_def retS_def split: sum.split)
    then show ?thesis by (cases "abort_call now r D") (auto simp: bindS_def raiseS_def split: sum.split)
  qed
  have i: "in_grants (grant_reserve grant_ud (\<lambda>_. lit ''f'') 2 (lit ''1'') (lit ''g'') sample_scope sample_call (lit ''k''))
      \<lparr>dl_ledger = \<lparr>gl_grants = [(lit ''g'', new_grant_row sample_grant)], gl_reservations = []\<rparr>, dl_sent = []\<rparr> =
      (Inr sample_row, \<lparr>dl_ledger = sample_held, dl_sent = []\<rparr>)"
    using sample_reserve by (simp add: in_grants_def zoomS_def)
  have j: "in_grants (mark_network_started (lit ''res-1'')) \<lparr>dl_ledger = sample_held, dl_sent = []\<rparr> =
      (Inr x, \<lparr>dl_ledger = L, dl_sent = []\<rparr>)"
    using m by (simp add: in_grants_def zoomS_def)
  have first: "delegation_step grant_ud (\<lambda>_. lit ''f'') (DLedger (OpIssueGrant sample_grant) :: unit delegation_op) \<lparr>dl_ledger = empty_ledger, dl_sent = []\<rparr> =
      \<lparr>dl_ledger = \<lparr>gl_grants = [(lit ''g'', new_grant_row sample_grant)], gl_reservations = []\<rparr>, dl_sent = []\<rparr>"
    using sample_valid sample_issue by (simp add: in_grants_snd)
  have "dl_sent (delegation_step grant_ud (\<lambda>_. lit ''f'')
      (DInvoke 2 (lit ''1'') (lit ''g'') sample_scope sample_call (lit ''k'') (Inl (lit ''timeout'')) :: unit delegation_op)
      \<lparr>dl_ledger = \<lparr>gl_grants = [(lit ''g'', new_grant_row sample_grant)], gl_reservations = []\<rparr>, dl_sent = []\<rparr>) =
      [(lit ''g'', lit ''k'')]"
    using sample_valid by (simp add: delegator_invoke_def bindS_ok i u j rid mark_sent_def putS_def ab)
  then show ?thesis using first by (simp add: delegations_after_def sample_delegations_def del: delegation_step.simps)
qed

theorem sent_calls_are_paid_for_witness:
  "\<exists>r. row_for_key (dl_ledger (delegations_after grant_ud (\<lambda>_. lit ''f'') sample_delegations)) (lit ''g'') (lit ''k'') = Some r \<and>
     (rw_state r = Settled \<or> rw_state r = Reserved \<and> rw_network_started r \<or> rw_state r = Cancelled)"
  using sent_calls_are_paid_for [of grant_ud "\<lambda>_. lit ''f''" sample_delegations] sample_sent by simp

end
