(* ===== verification/GrantRequests.thy ===== *)
theory GrantRequests imports GrantProofs begin

text \<open>
  The queue between agents that ask for a grant and the local user who decides,
  \<^verbatim>\<open>src/karox/model_grant_requests.py\<close>. A request has no authority of its own: only an approval mints a grant,
  and it may lower what was asked for, never raise it. The digest of a request identifier is an argument.
\<close>

section \<open>Requests\<close>

record ModelGrantRequest =
  rq_request_id :: pystr
  rq_requester_id :: pystr
  rq_scope :: GrantScope
  rq_selectors :: "ModelSelector list"
  rq_free_only :: bool
  rq_max_cost_microusd :: int
  rq_max_calls :: int
  rq_max_input_tokens :: int
  rq_max_output_tokens :: int
  rq_max_request_output_tokens :: int
  rq_max_parallel :: int
  rq_allow_fallback :: bool
  rq_grant_ttl_seconds :: int
  rq_request_expires_at :: real
  rq_max_price_age_seconds :: real
  rq_created_at :: real
  rq_label :: pystr

definition request_valid :: "ModelGrantRequest \<Rightarrow> bool" where
  "request_valid q \<longleftrightarrow> short_text 256 (rq_request_id q) \<and> short_text 256 (rq_requester_id q) \<and> rq_selectors q \<noteq> [] \<and>
     0 \<le> rq_max_cost_microusd q \<and>
     list_all (\<lambda>n. 1 \<le> n) [rq_max_calls q, rq_max_input_tokens q, rq_max_output_tokens q, rq_max_request_output_tokens q,
       rq_max_parallel q, rq_grant_ttl_seconds q] \<and>
     rq_max_request_output_tokens q \<le> rq_max_output_tokens q \<and> (rq_free_only q \<longrightarrow> rq_max_cost_microusd q = 0) \<and>
     60 \<le> rq_grant_ttl_seconds q \<and> rq_grant_ttl_seconds q \<le> 86400 \<and> rq_created_at q < rq_request_expires_at q \<and>
     1 \<le> rq_max_price_age_seconds q \<and> rq_max_price_age_seconds q \<le> 86400 \<and>
     (rq_label q = [] \<or> short_text 256 (rq_label q)) \<and>
     scope_valid (rq_scope q) \<and> list_all selector_valid (rq_selectors q)"

record ApprovalLimits =
  al_max_cost_microusd :: "int option"
  al_max_calls :: "int option"
  al_max_input_tokens :: "int option"
  al_max_output_tokens :: "int option"
  al_max_request_output_tokens :: "int option"
  al_max_parallel :: "int option"
  al_grant_ttl_seconds :: "int option"

definition no_limits :: ApprovalLimits where
  "no_limits = \<lparr>al_max_cost_microusd = None, al_max_calls = None, al_max_input_tokens = None, al_max_output_tokens = None,
     al_max_request_output_tokens = None, al_max_parallel = None, al_grant_ttl_seconds = None\<rparr>"

definition limits_valid :: "ApprovalLimits \<Rightarrow> bool" where
  "limits_valid l \<longleftrightarrow> list_all (\<lambda>v. case v of None \<Rightarrow> True | Some n \<Rightarrow> 0 \<le> n)
     [al_max_cost_microusd l, al_max_calls l, al_max_input_tokens l, al_max_output_tokens l,
      al_max_request_output_tokens l, al_max_parallel l, al_grant_ttl_seconds l]"

datatype request_state = Pending | Approved | DeniedByUser | Expired

record request_row =
  qr_idempotency_key :: pystr
  qr_payload :: ModelGrantRequest
  qr_state :: request_state
  qr_grant_id :: "pystr option"
  qr_decision_reason :: "pystr option"
  qr_decided_at :: "real option"

record GrantRequestStatus =
  qs_request :: ModelGrantRequest
  qs_state :: request_state
  qs_grant_id :: "pystr option"
  qs_decision_reason :: "pystr option"

definition status_of_row :: "request_row \<Rightarrow> GrantRequestStatus" where
  "status_of_row r = \<lparr>qs_request = qr_payload r, qs_state = qr_state r, qs_grant_id = qr_grant_id r,
     qs_decision_reason = qr_decision_reason r\<rparr>"

definition request_terminal :: "GrantRequestStatus \<Rightarrow> bool" where
  "request_terminal s \<longleftrightarrow> qs_state s \<in> {Approved, DeniedByUser, Expired}"

record request_store =
  qs_requests :: "(pystr, request_row) dict"
  qs_ledger :: grant_ledger

datatype request_error = RequestValue string | RequestError string | RequestDenied string | GrantFailed grant_error

type_synonym 'a request_step = "request_store \<Rightarrow> (request_error + 'a) \<times> request_store"

section \<open>Operations\<close>

definition request_text :: "pystr \<Rightarrow> string \<Rightarrow> unit request_step" where
  "request_text s label = (if short_text 256 s then retS () else raiseS (RequestValue label))"

definition request_row_of :: "pystr \<Rightarrow> request_row request_step" where
  "request_row_of rid S =
     (case map_of (qs_requests S) rid of None \<Rightarrow> (Inl (RequestError ''grant request does not exist''), S) | Some r \<Rightarrow> (Inr r, S))"

definition put_request :: "pystr \<Rightarrow> request_row \<Rightarrow> unit request_step" where
  "put_request rid r = putS (\<lambda>S. S\<lparr>qs_requests := AList.update rid r (qs_requests S)\<rparr>)"

definition timed_out :: "real \<Rightarrow> request_row \<Rightarrow> request_row" where
  "timed_out now r = r\<lparr>qr_state := Expired, qr_decision_reason := Some (lit ''approval_timeout''), qr_decided_at := Some now\<rparr>"

definition request_status :: "real \<Rightarrow> pystr \<Rightarrow> GrantRequestStatus request_step" where
  "request_status now rid =
     bindS (request_text rid ''grant request id'') (\<lambda>_.
     bindS (request_row_of rid) (\<lambda>r.
       if qr_state r = Pending \<and> rq_request_expires_at (qr_payload r) \<le> now
       then bindS (put_request rid (timed_out now r)) (\<lambda>_. bindS (request_row_of rid) (\<lambda>r'. retS (status_of_row r')))
       else retS (status_of_row r)))"

definition request_create :: "real \<Rightarrow> ModelGrantRequest \<Rightarrow> pystr \<Rightarrow> GrantRequestStatus request_step" where
  "request_create now q key =
     bindS (request_text key ''grant request idempotency key'') (\<lambda>_ S.
       case List.find (\<lambda>r. rq_requester_id (qr_payload r) = rq_requester_id q \<and> qr_idempotency_key r = key)
              (map snd (qs_requests S)) of
         Some r \<Rightarrow> if qr_payload r \<noteq> q
           then (Inl (RequestError ''grant request idempotency key was reused with different authority''), S)
           else (Inr (status_of_row r), S)
       | None \<Rightarrow> if map_of (qs_requests S) (rq_request_id q) \<noteq> None then (Inl (RequestError ''duplicate request id''), S)
           else bindS (put_request (rq_request_id q) \<lparr>qr_idempotency_key = key, qr_payload = q, qr_state = Pending,
                  qr_grant_id = None, qr_decision_reason = None, qr_decided_at = None\<rparr>)
                (\<lambda>_. request_status now (rq_request_id q)) S)"

definition request_pending :: "real \<Rightarrow> GrantRequestStatus list request_step" where
  "request_pending now =
     bindS (getS (\<lambda>S. map fst (filter (\<lambda>e. qr_state (snd e) = Pending) (qs_requests S)))) (\<lambda>ids.
     bindS (mapS (request_status now) ids) (\<lambda>states. retS (filter (\<lambda>s. qs_state s = Pending) states)))"

definition request_deny :: "real \<Rightarrow> pystr \<Rightarrow> pystr \<Rightarrow> GrantRequestStatus request_step" where
  "request_deny now rid reason =
     bindS (request_text reason ''grant request denial reason'') (\<lambda>_.
     bindS (request_row_of rid) (\<lambda>r.
       if qr_state r \<noteq> Pending then retS (status_of_row r)
       else bindS (put_request rid (if rq_request_expires_at (qr_payload r) \<le> now then timed_out now r
              else r\<lparr>qr_state := DeniedByUser, qr_decision_reason := Some reason, qr_decided_at := Some now\<rparr>)) (\<lambda>_.
            request_status now rid)))"

section \<open>Approval\<close>

record approved_values =
  av_cost :: int
  av_calls :: int
  av_input :: int
  av_output :: int
  av_request_output :: int
  av_parallel :: int
  av_ttl :: int

definition chosen_limit :: "int \<Rightarrow> int option \<Rightarrow> int option" where
  "chosen_limit requested local = (case local of None \<Rightarrow> Some requested | Some n \<Rightarrow> if requested < n then None else Some n)"

definition approved_values_of :: "ModelGrantRequest \<Rightarrow> ApprovalLimits \<Rightarrow> string + approved_values" where
  "approved_values_of q l =
     (case (chosen_limit (rq_max_cost_microusd q) (al_max_cost_microusd l), chosen_limit (rq_max_calls q) (al_max_calls l),
            chosen_limit (rq_max_input_tokens q) (al_max_input_tokens l), chosen_limit (rq_max_output_tokens q) (al_max_output_tokens l),
            chosen_limit (rq_max_request_output_tokens q) (al_max_request_output_tokens l),
            chosen_limit (rq_max_parallel q) (al_max_parallel l), chosen_limit (rq_grant_ttl_seconds q) (al_grant_ttl_seconds l)) of
        (Some cost, Some calls, Some inp, Some out, Some req, Some par, Some ttl) \<Rightarrow>
          if \<not> list_all (\<lambda>n. 1 \<le> n) [calls, inp, out, req, par, ttl]
          then Inl ''local approval cannot reduce a required budget to zero''
          else if out < req then Inl ''approved per-call output exceeds approved total output''
          else if rq_free_only q \<and> cost \<noteq> 0 then Inl ''free-only approval cannot create a money budget''
          else Inr \<lparr>av_cost = cost, av_calls = calls, av_input = inp, av_output = out, av_request_output = req,
                 av_parallel = par, av_ttl = ttl\<rparr>
      | _ \<Rightarrow> Inl ''local approval cannot widen a requested limit'')"

definition grant_id_for_request :: "(pystr \<Rightarrow> pystr) \<Rightarrow> pystr \<Rightarrow> pystr" where
  "grant_id_for_request GH rid = lit ''grant-'' @ GH rid"

definition written_grant :: "(pystr \<Rightarrow> pystr) \<Rightarrow> real \<Rightarrow> ModelGrantRequest \<Rightarrow> approved_values \<Rightarrow> LocalGrantApproval \<Rightarrow> ModelGrant" where
  "written_grant GH now q v approval =
     \<lparr>mg_grant_id = grant_id_for_request GH (rq_request_id q), mg_scope = rq_scope q, mg_selectors = rq_selectors q,
      mg_free_only = rq_free_only q, mg_max_cost_microusd = av_cost v, mg_max_calls = av_calls v,
      mg_max_input_tokens = av_input v, mg_max_output_tokens = av_output v,
      mg_max_request_output_tokens = av_request_output v, mg_max_parallel = av_parallel v,
      mg_allow_fallback = rq_allow_fallback q, mg_issued_at = now, mg_expires_at = now + of_int (av_ttl v),
      mg_max_price_age_seconds = rq_max_price_age_seconds q, mg_approval = approval, mg_label = rq_label q\<rparr>"

definition in_ledger_of :: "'a ledger_txn \<Rightarrow> 'a request_step" where
  "in_ledger_of m = zoomS GrantFailed qs_ledger (\<lambda>x S. S\<lparr>qs_ledger := x\<rparr>) m"

definition request_approve :: "unidata \<Rightarrow> (pystr \<Rightarrow> pystr) \<Rightarrow> real \<Rightarrow> pystr \<Rightarrow> LocalGrantApproval \<Rightarrow> ApprovalLimits \<Rightarrow>
    GrantRequestStatus request_step" where
  "request_approve ud GH now rid approval limits =
     bindS (request_row_of rid) (\<lambda>r.
       let q = qr_payload r
       in if qr_state r = Approved then retS (status_of_row r)
          else if qr_state r \<noteq> Pending then raiseS (RequestDenied ''cannot approve request in this state'')
          else if rq_request_expires_at q \<le> now
          then bindS (put_request rid (timed_out now r)) (\<lambda>_.
                 raiseS (RequestDenied ''grant request expired before local approval''))
          else (case approved_values_of q limits of
             Inl e \<Rightarrow> raiseS (RequestDenied e)
           | Inr v \<Rightarrow>
               let g = written_grant GH now q v approval
               in if \<not> grant_valid ud g then raiseS (RequestValue ''grant'')
                  else bindS (in_ledger_of (grant_issue g)) (\<lambda>_.
                    bindS (put_request rid (r\<lparr>qr_state := Approved, qr_grant_id := Some (mg_grant_id g),
                        qr_decision_reason := Some (lit ''user_approved''), qr_decided_at := Some now\<rparr>)) (\<lambda>_.
                      request_status now rid))))"

definition free_helper_request :: "pystr \<Rightarrow> pystr \<Rightarrow> GrantScope \<Rightarrow> ModelSelector list \<Rightarrow> real \<Rightarrow> pystr \<Rightarrow> ModelGrantRequest" where
  "free_helper_request fresh requester scope selectors now label =
     \<lparr>rq_request_id = lit ''grant-request-'' @ fresh, rq_requester_id = requester, rq_scope = scope, rq_selectors = selectors,
      rq_free_only = True, rq_max_cost_microusd = 0, rq_max_calls = 20, rq_max_input_tokens = 2000000,
      rq_max_output_tokens = 200000, rq_max_request_output_tokens = 32000, rq_max_parallel = 2, rq_allow_fallback = True,
      rq_grant_ttl_seconds = 7200, rq_request_expires_at = now + 600, rq_max_price_age_seconds = 300,
      rq_created_at = now, rq_label = label\<rparr>"

section \<open>What an approval mints\<close>

text \<open>A grant that stays within a request.\<close>

definition narrows :: "ModelGrant \<Rightarrow> ModelGrantRequest \<Rightarrow> bool" where
  "narrows g q \<longleftrightarrow> mg_scope g = rq_scope q \<and> mg_selectors g = rq_selectors q \<and> mg_free_only g = rq_free_only q \<and>
     mg_allow_fallback g = rq_allow_fallback q \<and> mg_max_price_age_seconds g = rq_max_price_age_seconds q \<and>
     mg_max_cost_microusd g \<le> rq_max_cost_microusd q \<and> mg_max_calls g \<le> rq_max_calls q \<and>
     mg_max_input_tokens g \<le> rq_max_input_tokens q \<and> mg_max_output_tokens g \<le> rq_max_output_tokens q \<and>
     mg_max_request_output_tokens g \<le> rq_max_request_output_tokens q \<and> mg_max_parallel g \<le> rq_max_parallel q \<and>
     mg_issued_at g < rq_request_expires_at q \<and> mg_expires_at g \<le> mg_issued_at g + of_int (rq_grant_ttl_seconds q)"

lemma chosen_limit_le: "chosen_limit n l = Some m \<Longrightarrow> m \<le> n"
  by (auto simp: chosen_limit_def split: option.splits if_splits)

lemma granted_narrows:
  assumes "approved_values_of q l = Inr v" "now < rq_request_expires_at q"
  shows "narrows (written_grant GH now q v a) q"
  using assms
  by (auto simp: approved_values_of_def narrows_def written_grant_def dest!: chosen_limit_le split: option.splits if_splits)

section \<open>Everything that happens to the queue and its ledger\<close>

datatype request_op =
    QCreate real ModelGrantRequest pystr
  | QStatus real pystr
  | QPending real
  | QDeny real pystr pystr
  | QApprove real pystr LocalGrantApproval ApprovalLimits
  | QSpend grant_op

definition mints :: "grant_op \<Rightarrow> bool" where
  "mints op = (case op of OpIssueGrant _ \<Rightarrow> True | _ \<Rightarrow> False)"

text \<open>The queue is the only place that issues: whatever else is done to the ledger is not an issue.\<close>

fun request_op_step :: "unidata \<Rightarrow> (PricingProof \<Rightarrow> pystr) \<Rightarrow> (pystr \<Rightarrow> pystr) \<Rightarrow> request_op \<Rightarrow> request_store \<Rightarrow> request_store" where
  "request_op_step ud FP GH (QCreate now q key) S = (if request_valid q then snd (request_create now q key S) else S)"
| "request_op_step ud FP GH (QStatus now rid) S = snd (request_status now rid S)"
| "request_op_step ud FP GH (QPending now) S = snd (request_pending now S)"
| "request_op_step ud FP GH (QDeny now rid reason) S = snd (request_deny now rid reason S)"
| "request_op_step ud FP GH (QApprove now rid approval limits) S =
     (if limits_valid limits then snd (request_approve ud GH now rid approval limits S) else S)"
| "request_op_step ud FP GH (QSpend op) S = (if mints op then S else S\<lparr>qs_ledger := grant_step ud FP op (qs_ledger S)\<rparr>)"

definition requests_after :: "unidata \<Rightarrow> (PricingProof \<Rightarrow> pystr) \<Rightarrow> (pystr \<Rightarrow> pystr) \<Rightarrow> request_op list \<Rightarrow> request_store" where
  "requests_after ud FP GH ops = fold (request_op_step ud FP GH) ops \<lparr>qs_requests = [], qs_ledger = empty_ledger\<rparr>"

text \<open>Steps that neither touch the ledger nor an approved request.\<close>

definition named_requests :: "request_store \<Rightarrow> bool" where
  "named_requests S \<longleftrightarrow> (\<forall>rid r. map_of (qs_requests S) rid = Some r \<longrightarrow> rq_request_id (qr_payload r) = rid)"

definition approved_kept :: "request_store \<Rightarrow> request_store \<Rightarrow> bool" where
  "approved_kept S S' \<longleftrightarrow> (\<forall>rid r. map_of (qs_requests S) rid = Some r \<longrightarrow> qr_state r = Approved \<longrightarrow>
     map_of (qs_requests S') rid = Some r)"

definition calm_requests :: "request_store \<Rightarrow> request_store \<Rightarrow> bool" where
  "calm_requests S S' \<longleftrightarrow> qs_ledger S' = qs_ledger S \<and> approved_kept S S' \<and> (named_requests S \<longrightarrow> named_requests S')"

lemma approved_kept_trans: "approved_kept S S' \<Longrightarrow> approved_kept S' S'' \<Longrightarrow> approved_kept S S''"
  unfolding approved_kept_def by blast

lemma approvedD: "approved_kept S S' \<Longrightarrow> map_of (qs_requests S) rid = Some r \<Longrightarrow> qr_state r = Approved \<Longrightarrow>
    map_of (qs_requests S') rid = Some r"
  unfolding approved_kept_def by blast

lemma named_put: "named_requests S \<Longrightarrow> rq_request_id (qr_payload r) = rid \<Longrightarrow>
    named_requests (S\<lparr>qs_requests := AList.update rid r (qs_requests S)\<rparr>)"
  by (simp add: named_requests_def map_of_AList_update)

lemma approved_put: "\<forall>r. map_of (qs_requests S) rid = Some r \<longrightarrow> qr_state r \<noteq> Approved \<Longrightarrow>
    approved_kept S (S\<lparr>qs_requests := AList.update rid r' (qs_requests S)\<rparr>)"
  by (auto simp: approved_kept_def map_of_AList_update)

lemma namedD: "named_requests S \<Longrightarrow> map_of (qs_requests S) rid = Some r \<Longrightarrow> rq_request_id (qr_payload r) = rid"
  unfolding named_requests_def by blast

lemma calm_requests_refl [simp]: "calm_requests S S"
  by (simp add: calm_requests_def approved_kept_def)

lemma calm_requests_trans: "calm_requests S S' \<Longrightarrow> calm_requests S' S'' \<Longrightarrow> calm_requests S S''"
  unfolding calm_requests_def using approved_kept_trans by auto

lemma calm_put:
  "map_of (qs_requests S) rid = Some r \<Longrightarrow> qr_state r \<noteq> Approved \<Longrightarrow> qr_payload r' = qr_payload r \<Longrightarrow>
     calm_requests S (S\<lparr>qs_requests := AList.update rid r' (qs_requests S)\<rparr>)"
  unfolding calm_requests_def using approved_put [of S rid r'] named_put [of S r' rid] namedD [of S rid r] by auto

lemma timed_out_payload [simp]: "qr_payload (timed_out now r) = qr_payload r"
  by (simp add: timed_out_def)

lemma row_of_snd_request [simp]: "snd (request_row_of rid S) = S"
  by (simp add: request_row_of_def split: option.split)

lemmas request_defs = bindS_def retS_def raiseS_def getS_def putS_def request_text_def put_request_def request_row_of_def

lemma status_calm: "calm_requests S (snd (request_status now rid S))"
  by (cases "map_of (qs_requests S) rid")
    (auto simp: request_status_def request_defs map_of_AList_update intro: calm_put)

lemma statuses_calm: "calm_requests S (snd (mapS (request_status now) ids S))"
proof (induction ids arbitrary: S)
  case (Cons i ids)
  obtain x S1 where s: "request_status now i S = (x, S1)" by fastforce
  have c: "calm_requests S S1" using status_calm [of S now i] s by simp
  show ?case
  proof (cases x)
    case (Inr y)
    have "calm_requests S1 (snd (mapS (request_status now) ids S1))" by (rule Cons.IH)
    then have "calm_requests S1 (snd (bindS (mapS (request_status now) ids) (\<lambda>ys. retS (y # ys)) S1))"
      by (simp add: bindS_def retS_def split: prod.split sum.split) (metis snd_conv)
    with calm_requests_trans [OF c] s Inr show ?thesis by (simp add: bindS_ok)
  qed (use c s in \<open>simp add: bindS_err\<close>)
qed (simp add: retS_def)

lemma create_calm: "calm_requests S (snd (request_create now q key S))"
proof (cases "short_text 256 key")
  case True
  let ?found = "List.find (\<lambda>r. rq_requester_id (qr_payload r) = rq_requester_id q \<and> qr_idempotency_key r = key)
    (map snd (qs_requests S))"
  have new: "map_of (qs_requests S) (rq_request_id q) = None \<Longrightarrow> qr_payload r = q \<Longrightarrow>
      calm_requests S (snd (request_status now (rq_request_id q) (S\<lparr>qs_requests := AList.update (rq_request_id q) r (qs_requests S)\<rparr>)))" for r
    by (rule calm_requests_trans [OF _ status_calm]) (auto simp: calm_requests_def intro: approved_put named_put)
  show ?thesis
  proof (cases ?found)
    case None
    let ?r = "\<lparr>qr_idempotency_key = key, qr_payload = q, qr_state = Pending, qr_grant_id = None, qr_decision_reason = None,
      qr_decided_at = None\<rparr>"
    have "snd (request_create now q key S) = (if map_of (qs_requests S) (rq_request_id q) \<noteq> None then S
        else snd (request_status now (rq_request_id q) (S\<lparr>qs_requests := AList.update (rq_request_id q) ?r (qs_requests S)\<rparr>)))"
      unfolding request_create_def request_text_def bindS_def retS_def put_request_def putS_def using True None by simp
    then show ?thesis using new [of ?r] by (cases "map_of (qs_requests S) (rq_request_id q)") simp_all
  next
    case (Some r)
    then have "snd (request_create now q key S) = S"
      unfolding request_create_def request_text_def bindS_def retS_def using True by simp
    then show ?thesis by simp
  qed
qed (simp add: request_create_def request_text_def bindS_def raiseS_def)

lemma deny_calm: "calm_requests S (snd (request_deny now rid reason S))"
proof (cases "map_of (qs_requests S) rid")
  case (Some r)
  show ?thesis
  proof (cases "short_text 256 reason \<and> qr_state r = Pending")
    case True
    let ?r = "if rq_request_expires_at (qr_payload r) \<le> now then timed_out now r
      else r\<lparr>qr_state := DeniedByUser, qr_decision_reason := Some reason, qr_decided_at := Some now\<rparr>"
    have "calm_requests S (snd (request_status now rid (S\<lparr>qs_requests := AList.update rid ?r (qs_requests S)\<rparr>)))"
      by (rule calm_requests_trans [OF calm_put [OF Some] status_calm]) (use True in auto)
    with Some True show ?thesis
      by (simp add: request_deny_def request_text_def request_row_of_def bindS_ok put_request_def putS_def retS_def)
  next
    case False
    with Some show ?thesis by (auto simp: request_deny_def request_defs)
  qed
qed (auto simp: request_deny_def request_defs)

lemma pending_calm: "calm_requests S (snd (request_pending now S))"
proof -
  let ?m = "mapS (request_status now) (map fst (filter (\<lambda>e. qr_state (snd e) = Pending) (qs_requests S)))"
  have "snd (request_pending now S) = snd (?m S)"
    by (simp add: request_pending_def bindS_def getS_def retS_def split: prod.split sum.split)
  with statuses_calm show ?thesis by metis
qed

text \<open>Every grant comes from an approved request it stays within.\<close>

definition store_ok :: "unidata \<Rightarrow> request_store \<Rightarrow> bool" where
  "store_ok ud S \<longleftrightarrow> ledger_wf ud (qs_ledger S) \<and> books_ok (qs_ledger S) \<and>
     named_requests S \<and>
     (\<forall>gid w. map_of (gl_grants (qs_ledger S)) gid = Some w \<longrightarrow>
        (\<exists>rid r. map_of (qs_requests S) rid = Some r \<and> qr_state r = Approved \<and> qr_grant_id r = Some gid \<and>
           narrows (gw_payload w) (qr_payload r)))"

lemma books_moved: "ledger_wf ud L \<Longrightarrow> books_ok L \<Longrightarrow> moved ud FP L L' \<Longrightarrow> books_ok L'"
  by (auto simp: moved_def books_ok_def
      intro: calls_move money.balanced_move input_tokens.balanced_move output_tokens.balanced_move)

lemma store_calm: "store_ok ud S \<Longrightarrow> calm_requests S S' \<Longrightarrow> store_ok ud S'"
  unfolding store_ok_def calm_requests_def by (metis approvedD)

lemma spend_payload:
  assumes "ledger_move ud FP L L'" "ledger_wf ud L" "map_of (gl_grants L') gid = Some w'"
    and "\<And>x. map_of (gl_grants L) x = None \<Longrightarrow> map_of (gl_grants L') x = None"
  shows "\<exists>w. map_of (gl_grants L) gid = Some w \<and> gw_payload w = gw_payload w'"
  using assms
proof (induction rule: ledger_move.induct)
  case (m_issue g L)
  from m_issue(5) [OF m_issue(2)] show ?case by (simp add: map_of_AList_update)
next
  case (m_settle L rid r w i out actual evidence cost why_cost why now)
  have "mg_grant_id (gw_payload w) = rw_grant_id r" using wf_grant [OF m_settle(9,3)] by simp
  then have k: "map_of (gl_grants (L\<lparr>gl_grants := AList.update (mg_grant_id (gw_payload w))
        (released r (consumed now why i out cost w)) (gl_grants L), gl_reservations := R\<rparr>)) gid =
      (if gid = rw_grant_id r then Some (released r (consumed now why i out cost w)) else map_of (gl_grants L) gid)" for R
    by (simp add: map_of_AList_update)
  from m_settle(10) m_settle(3) show ?case unfolding k by (cases "gid = rw_grant_id r") auto
next
  case (m_reserve L gid' w c key scope now rid)
  from m_reserve(1,7) show ?case by (auto simp: map_of_AList_update split: if_splits)
next
  case (m_cancel L rid r w now reason)
  from m_cancel(4,6) show ?case by (auto simp: map_of_AList_update split: if_splits)
qed (auto simp: map_of_AList_update split: if_splits)

lemma settle_none:
  assumes "ledger_wf ud L" "map_of (gl_grants L) x = None"
  shows "map_of (gl_grants (snd (grant_settle now rid i out actual evidence L))) x = None"
proof -
  have "row_of rid L = (y, L1) \<Longrightarrow> L1 = L" for y L1 using row_of_snd [of rid L] by simp
  moreover have "map_of (gl_grants L) gid = Some w \<Longrightarrow> x \<noteq> mg_grant_id (gw_payload w)" for gid w
    using wf_grant [OF assms(1)] assms(2) by fastforce
  ultimately show ?thesis
    using assms(2)
    by (auto simp: grant_settle_def txn_defs grant_of_def Let_def map_of_AList_update split: option.split sum.split prod.split)
qed

lemma spend_none:
  assumes "ledger_wf ud L" "\<not> mints op" "map_of (gl_grants L) x = None"
  shows "map_of (gl_grants (grant_step ud FP op L)) x = None"
proof (cases op)
  case (OpIssueGrant g)
  with assms(2) show ?thesis by (simp add: mints_def)
next
  case (OpRevokeGrant now gid reason)
  with assms(3) show ?thesis
    by (cases "map_of (gl_grants L) gid")
      (auto simp: grant_revoke_def txn_defs grant_of_def grant_status_def map_of_AList_update split: option.splits)
next
  case (OpReserveCall now fresh gid scope c key)
  with assms(3) show ?thesis
    by (cases "map_of (gl_grants L) gid")
      (auto simp: grant_reserve_def txn_defs grant_of_def Let_def map_of_AList_update split: option.splits)
next
  case (OpStart rid)
  have "moved ud FP L (snd (mark_network_started rid L))" by (rule start_moves)
  with OpStart assms(3) show ?thesis
    by (cases "row_of rid L") (auto simp: mark_network_started_def bindS_def [of "row_of rid"] bindS_ok retS_def put_row_def
        putS_def row_of_def split: option.splits sum.splits if_splits)
next
  case (OpSettle now rid i out actual evidence)
  with settle_none [OF assms(1,3)] show ?thesis by simp
next
  case (OpAbort now rid reason)
  have "row_of rid L = (y, L1) \<Longrightarrow> L1 = L" for y L1 using row_of_snd [of rid L] by simp
  then show ?thesis
    using OpAbort assms(3) settle_none [OF assms(1,3)]
    by (auto simp: grant_abort_def txn_defs map_of_AList_update split: option.split sum.split prod.split)
qed

lemma spend_keeps:
  assumes "store_ok ud S" "\<not> mints op"
  shows "store_ok ud (S\<lparr>qs_ledger := grant_step ud FP op (qs_ledger S)\<rparr>)"
proof -
  let ?L = "qs_ledger S" and ?L' = "grant_step ud FP op (qs_ledger S)"
  have wf: "ledger_wf ud ?L" using assms(1) by (simp add: store_ok_def)
  show ?thesis
  proof (cases "?L' = ?L")
    case False
    then have m: "ledger_move ud FP ?L ?L'" using step_moves [OF wf, of FP op] by (simp add: moved_def)
    have old: "\<exists>w. map_of (gl_grants ?L) gid = Some w \<and> gw_payload w = gw_payload w'"
      if "map_of (gl_grants ?L') gid = Some w'" for gid w'
      by (rule spend_payload [OF m wf that spend_none [OF wf assms(2)]])
    have "\<exists>rid r. map_of (qs_requests S) rid = Some r \<and> qr_state r = Approved \<and> qr_grant_id r = Some gid \<and>
        narrows (gw_payload w') (qr_payload r)" if g: "map_of (gl_grants ?L') gid = Some w'" for gid w'
    proof -
      obtain w where "map_of (gl_grants ?L) gid = Some w" "gw_payload w = gw_payload w'" using old [OF g] by blast
      with assms(1) show ?thesis unfolding store_ok_def by metis
    qed
    moreover have "books_ok ?L'"
      by (rule books_moved [OF wf _ step_moves [OF wf]]) (use assms(1) in \<open>simp add: store_ok_def\<close>)
    ultimately show ?thesis using wf_move [OF m wf] assms(1) by (simp add: store_ok_def named_requests_def)
  qed (use assms(1) in simp)
qed

lemma issue_ledger:
  assumes "ledger_wf ud L" "grant_valid ud g"
  shows "case grant_issue g L of
      (Inl e, L') \<Rightarrow> L' = L
    | (Inr u, L') \<Rightarrow> ledger_wf ud L' \<and> (\<forall>gid. gid \<noteq> mg_grant_id g \<longrightarrow> map_of (gl_grants L') gid = map_of (gl_grants L) gid) \<and>
        (\<exists>w. map_of (gl_grants L') (mg_grant_id g) = Some w \<and> gw_payload w = g)"
proof (cases "map_of (gl_grants L) (mg_grant_id g)")
  case None
  have wf: "ledger_wf ud (L\<lparr>gl_grants := AList.update (mg_grant_id g) (new_grant_row g) (gl_grants L)\<rparr>)"
    by (rule wf_move [OF m_issue [OF assms(2) None] assms(1)])
  have id: "short_text 256 (mg_grant_id g)" using assms(2) by (simp add: grant_valid_def)
  show ?thesis
    using None wf id by (simp add: grant_issue_def bindS_ok grant_status_def check_text_def retS_def getS_def grant_of_def
        map_of_AList_update)
next
  case (Some w)
  have id: "short_text 256 (mg_grant_id g)" using assms(2) by (simp add: grant_valid_def)
  show ?thesis
    using Some assms(1) id by (simp add: grant_issue_def bindS_def grant_status_def check_text_def retS_def getS_def grant_of_def)
qed

lemma approval_recorded:
  assumes "store_ok ud S" "map_of (qs_requests S) rid = Some r" "qr_state r = Pending" "grant_valid ud g"
    and "narrows g (qr_payload r)"
  shows "store_ok ud (snd (bindS (in_ledger_of (grant_issue g)) (\<lambda>_.
     bindS (put_request rid (r\<lparr>qr_state := Approved, qr_grant_id := Some (mg_grant_id g),
       qr_decision_reason := why, qr_decided_at := tm\<rparr>)) (\<lambda>_. request_status now rid)) S))"
proof -
  obtain y L' where y: "grant_issue g (qs_ledger S) = (y, L')" by fastforce
  have wf: "ledger_wf ud (qs_ledger S)" using assms(1) by (simp add: store_ok_def)
  note res = issue_ledger [OF wf assms(4), unfolded y]
  show ?thesis
  proof (cases y)
    case (Inl e)
    with res y assms(1) show ?thesis by (simp add: bindS_def in_ledger_of_def zoomS_def)
  next
    case (Inr u)
    let ?r = "r\<lparr>qr_state := Approved, qr_grant_id := Some (mg_grant_id g), qr_decision_reason := why, qr_decided_at := tm\<rparr>"
    let ?S = "S\<lparr>qs_ledger := L', qs_requests := AList.update rid ?r (qs_requests S)\<rparr>"
    have L': "ledger_wf ud L'" "\<And>gid. gid \<noteq> mg_grant_id g \<Longrightarrow> map_of (gl_grants L') gid = map_of (gl_grants (qs_ledger S)) gid"
      "\<exists>w. map_of (gl_grants L') (mg_grant_id g) = Some w \<and> gw_payload w = g" using res Inr by auto
    have "\<exists>i s. map_of (qs_requests ?S) i = Some s \<and> qr_state s = Approved \<and> qr_grant_id s = Some gid \<and>
        narrows (gw_payload w) (qr_payload s)" if w: "map_of (gl_grants L') gid = Some w" for gid w
    proof (cases "gid = mg_grant_id g")
      case True
      with L'(3) w assms(5) show ?thesis by (intro exI [of _ rid] exI [of _ ?r]) (auto simp: map_of_AList_update)
    next
      case False
      then obtain i s where "map_of (qs_requests S) i = Some s" "qr_state s = Approved" "qr_grant_id s = Some gid"
        "narrows (gw_payload w) (qr_payload s)"
        using assms(1) w L'(2) unfolding store_ok_def by metis
      moreover have "i \<noteq> rid" using calculation(1,2) assms(2,3) by auto
      ultimately show ?thesis by (intro exI [of _ i] exI [of _ s]) (simp add: map_of_AList_update)
    qed
    moreover have "named_requests ?S"
      using assms(1,2) by (auto simp: store_ok_def named_requests_def map_of_AList_update)
    moreover have "books_ok L'"
      using books_moved [OF wf _ issue_moves [OF assms(4)]] assms(1) y by (simp add: store_ok_def)
    ultimately have "store_ok ud ?S" using L'(1) by (simp add: store_ok_def)
    then have "store_ok ud (snd (request_status now rid ?S))" using status_calm by (rule store_calm)
    then show ?thesis using y Inr by (simp add: bindS_ok in_ledger_of_def zoomS_def put_request_def putS_def)
  qed
qed

lemma approve_keeps:
  assumes "store_ok ud S"
  shows "store_ok ud (snd (request_approve ud GH now rid approval limits S))"
proof (cases "map_of (qs_requests S) rid")
  case None
  then show ?thesis using assms by (simp add: request_approve_def request_defs)
next
  case (Some r)
  let ?q = "qr_payload r"
  have q: "rq_request_id ?q = rid" using assms Some by (auto simp: store_ok_def dest: namedD)
  show ?thesis
  proof (cases "qr_state r = Pending \<and> \<not> rq_request_expires_at ?q \<le> now")
    case False
    have "calm_requests S (snd (request_approve ud GH now rid approval limits S))"
      using False Some calm_put [OF Some, of "timed_out now r"]
      by (cases "qr_state r") (auto simp: request_approve_def request_defs Let_def)
    with assms show ?thesis by (rule store_calm)
  next
    case pend: True
    show ?thesis
    proof (cases "approved_values_of ?q limits")
      case (Inl e)
      with pend Some assms show ?thesis by (simp add: request_approve_def request_row_of_def bindS_def raiseS_def Let_def)
    next
      case (Inr v)
      let ?g = "written_grant GH now ?q v approval"
      show ?thesis
      proof (cases "grant_valid ud ?g")
        case False
        with pend Some assms Inr show ?thesis
          by (simp add: request_approve_def request_row_of_def bindS_def raiseS_def Let_def)
      next
        case True
        have "snd (request_approve ud GH now rid approval limits S) = snd (bindS (in_ledger_of (grant_issue ?g)) (\<lambda>_.
            bindS (put_request rid (r\<lparr>qr_state := Approved, qr_grant_id := Some (mg_grant_id ?g),
              qr_decision_reason := Some (lit ''user_approved''), qr_decided_at := Some now\<rparr>)) (\<lambda>_. request_status now rid)) S)"
          using pend Some Inr True by (simp add: request_approve_def request_row_of_def bindS_ok Let_def)
        also have "store_ok ud \<dots>" by (rule approval_recorded [OF assms Some _ True]) (use pend granted_narrows [OF Inr] in simp_all)
        finally show ?thesis .
      qed
    qed
  qed
qed

lemma request_op_keeps: "store_ok ud S \<Longrightarrow> store_ok ud (request_op_step ud FP GH op S)"
  by (cases op)
    (auto simp: spend_keeps approve_keeps intro: store_calm [OF _ create_calm] store_calm [OF _ status_calm]
      store_calm [OF _ pending_calm] store_calm [OF _ deny_calm])

lemma requests_ok: "store_ok ud (requests_after ud FP GH ops)"
proof -
  have "store_ok ud S \<Longrightarrow> store_ok ud (fold (request_op_step ud FP GH) ops S)" for S
    by (induction ops arbitrary: S) (simp_all add: request_op_keeps)
  moreover have "books_ok empty_ledger" using books_run [of ud FP "[]"] by simp
  then have "store_ok ud \<lparr>qs_requests = [], qs_ledger = empty_ledger\<rparr>"
    by (simp add: store_ok_def named_requests_def ledger_wf_def empty_ledger_def)
  ultimately show ?thesis by (simp add: requests_after_def)
qed

text \<open>The default request for free helpers is acceptable.\<close>

lemma free_helper_request_valid:
  assumes "short_text 240 fresh" "short_text 256 requester" "scope_valid scope" "selectors \<noteq> []"
    and "list_all selector_valid selectors" "label = [] \<or> short_text 256 label"
  shows "request_valid (free_helper_request fresh requester scope selectors now label)"
  using assms by (auto simp: request_valid_def free_helper_request_def short_text_def lit_def)

text \<open>
  The grant and the decision are stored in two databases. If the process dies between the two, the grant is
  live while its request still looks pending: a second approval fails for good, because it is a moment
  later, and a denial is recorded although the authority stays in force.
\<close>

lemma interrupted_approval_is_stuck:
  assumes "map_of (qs_requests S) rid = Some r" "qr_state r = Pending" "now < rq_request_expires_at (qr_payload r)"
    and "rq_request_id (qr_payload r) = rid"
    and "map_of (gl_grants (qs_ledger S)) (grant_id_for_request GH rid) = Some w" "mg_issued_at (gw_payload w) \<noteq> now"
  shows "(\<exists>e. request_approve ud GH now rid approval limits S = (Inl e, S)) \<and>
    qs_ledger (snd (request_deny now rid reason S)) = qs_ledger S"
proof
  have ne: "gw_payload w \<noteq> written_grant GH now q v approval" for q v using assms(6) by (auto simp: written_grant_def)
  show "\<exists>e. request_approve ud GH now rid approval limits S = (Inl e, S)"
    using assms ne
    by (auto simp: request_approve_def request_row_of_def bindS_def raiseS_def Let_def in_ledger_of_def zoomS_def
        grant_issue_def written_grant_def split: sum.split)
  show "qs_ledger (snd (request_deny now rid reason S)) = qs_ledger S"
    using deny_calm [of S now rid reason] by (simp add: calm_requests_def)
qed

section \<open>Property\<close>

text \<open>C7. 
  An agent can ask, but only a local approval gives: in any history of requests, decisions and spending,
  every grant in the ledger belongs to an approved request with the same scope and models, lowers its
  limits or keeps them, came through a trusted local channel, and has never opened more calls than the agent
  had asked for. Unless the grant was closed for a breach, that is a settlement above its reservation, what it
  has spent together with what it still reserves is no more than asked for either, in money and in tokens.
\<close>
theorem spending_stays_within_the_request:
  assumes "map_of (gl_grants (qs_ledger (requests_after ud FP GH ops))) gid = Some w"
  shows "\<exists>rid r. map_of (qs_requests (requests_after ud FP GH ops)) rid = Some r \<and> qr_state r = Approved \<and>
    qr_grant_id r = Some gid \<and> narrows (gw_payload w) (qr_payload r) \<and>
    la_channel (mg_approval (gw_payload w)) \<in> APPROVAL_CHANNELS \<and>
    gw_used_calls w \<le> rq_max_calls (qr_payload r) \<and>
    (gw_revoke_reason w \<notin> set (map (\<lambda>e. Some (lit e)) BREACHES) \<longrightarrow>
       gw_spent_microusd w + gw_reserved_microusd w \<le> rq_max_cost_microusd (qr_payload r) \<and>
       gw_used_input w + gw_reserved_input w \<le> rq_max_input_tokens (qr_payload r) \<and>
       gw_used_output w + gw_reserved_output w \<le> rq_max_output_tokens (qr_payload r))"
proof -
  let ?S = "requests_after ud FP GH ops"
  have ok: "store_ok ud ?S" by (rule requests_ok)
  then have b: "calls_ok (qs_ledger ?S)" "money.balanced (qs_ledger ?S)" "input_tokens.balanced (qs_ledger ?S)"
    "output_tokens.balanced (qs_ledger ?S)" and wf: "ledger_wf ud (qs_ledger ?S)"
    by (simp_all add: store_ok_def books_ok_def)
  obtain rid r where r: "map_of (qs_requests ?S) rid = Some r" "qr_state r = Approved" "qr_grant_id r = Some gid"
    "narrows (gw_payload w) (qr_payload r)"
    using ok assms unfolding store_ok_def by blast
  have ch: "la_channel (mg_approval (gw_payload w)) \<in> APPROVAL_CHANNELS"
    using wf_grant [OF wf assms] by (simp add: grant_valid_def approval_valid_def)
  have lim: "mg_max_calls (gw_payload w) \<le> rq_max_calls (qr_payload r)"
    "mg_max_cost_microusd (gw_payload w) \<le> rq_max_cost_microusd (qr_payload r)"
    "mg_max_input_tokens (gw_payload w) \<le> rq_max_input_tokens (qr_payload r)"
    "mg_max_output_tokens (gw_payload w) \<le> rq_max_output_tokens (qr_payload r)"
    using r(4) by (simp_all add: narrows_def)
  have "gw_used_calls w \<le> rq_max_calls (qr_payload r)" using callsD [OF b(1) assms] lim by simp
  moreover have "unbreached w \<longrightarrow> gw_spent_microusd w + gw_reserved_microusd w \<le> rq_max_cost_microusd (qr_payload r) \<and>
      gw_used_input w + gw_reserved_input w \<le> rq_max_input_tokens (qr_payload r) \<and>
      gw_used_output w + gw_reserved_output w \<le> rq_max_output_tokens (qr_payload r)"
    using money.balancedD [OF b(2) assms] input_tokens.balancedD [OF b(3) assms] output_tokens.balancedD [OF b(4) assms]
      lim by (intro impI conjI) linarith+
  ultimately show ?thesis using r ch unfolding unbreached_def by blast
qed

text \<open>A sample: one request, approved with a smaller budget.\<close>

definition sample_request :: ModelGrantRequest where
  "sample_request = (free_helper_request (lit ''1'') (lit ''agent'') sample_scope [\<lparr>ms_provider = lit ''*'', ms_model = lit ''m''\<rparr>] 0 [])
     \<lparr>rq_free_only := False, rq_max_cost_microusd := 500\<rparr>"

definition sample_limits :: ApprovalLimits where
  "sample_limits = no_limits\<lparr>al_max_cost_microusd := Some 100, al_max_calls := Some 2\<rparr>"

definition sample_request_ops :: "request_op list" where
  "sample_request_ops = [QCreate 0 sample_request (lit ''k''),
     QApprove 1 (lit ''grant-request-1'') (mg_approval sample_grant) sample_limits]"

definition sample_pending :: request_row where
  "sample_pending = \<lparr>qr_idempotency_key = lit ''k'', qr_payload = sample_request, qr_state = Pending, qr_grant_id = None,
     qr_decision_reason = None, qr_decided_at = None\<rparr>"

lemma sample_request_fields [simp]:
  "rq_request_id sample_request = lit ''grant-request-1''" "request_valid sample_request"
  "rq_request_expires_at sample_request = 600" "rq_max_cost_microusd sample_request = 500"
  by (simp_all add: sample_request_def free_helper_request_def request_valid_def short_text_def lit_def sample_scope_def
      scope_valid_def optional_text_def selector_valid_def)

lemma sample_created: "request_op_step ud FP GH (QCreate 0 sample_request (lit ''k'')) \<lparr>qs_requests = [], qs_ledger = L\<rparr> =
    \<lparr>qs_requests = [(lit ''grant-request-1'', sample_pending)], qs_ledger = L\<rparr>"
proof -
  have "short_text 256 (lit ''k'')" "short_text 256 (lit ''grant-request-1'')" by (simp_all add: short_text_def lit_def)
  then show ?thesis
    by (simp add: request_create_def request_defs request_status_def sample_pending_def)
qed

lemma sample_approved:
  "\<exists>w. map_of (gl_grants (qs_ledger (requests_after grant_ud (\<lambda>_. lit ''f'') (\<lambda>_. lit ''h'') sample_request_ops)))
     (lit ''grant-h'') = Some w"
proof -
  let ?S = "\<lparr>qs_requests = [(lit ''grant-request-1'', sample_pending)], qs_ledger = empty_ledger\<rparr>"
  let ?v = "\<lparr>av_cost = 100, av_calls = 2, av_input = 2000000, av_output = 200000, av_request_output = 32000,
     av_parallel = 2, av_ttl = 7200\<rparr>"
  let ?g = "written_grant (\<lambda>_. lit ''h'') 1 sample_request ?v (mg_approval sample_grant)"
  have v: "approved_values_of sample_request sample_limits = Inr ?v"
    by (simp add: approved_values_of_def chosen_limit_def sample_limits_def no_limits_def sample_request_def
        free_helper_request_def)
  have id: "mg_grant_id ?g = lit ''grant-h''" by (simp add: written_grant_def grant_id_for_request_def lit_def)
  have valid: "grant_valid grant_ud ?g"
    by (simp add: grant_valid_def written_grant_def grant_id_for_request_def short_text_def lit_def sample_request_def
        free_helper_request_def sample_scope_def scope_valid_def optional_text_def selector_valid_def sample_grant_def
        approval_valid_def APPROVAL_CHANNELS_def)
  have st: "short_text 256 (lit ''grant-h'')" by (simp add: short_text_def lit_def)
  have iss: "\<exists>u. grant_issue ?g empty_ledger = (Inr u, \<lparr>gl_grants = [(lit ''grant-h'', new_grant_row ?g)], gl_reservations = []\<rparr>)"
    by (simp add: grant_issue_def id empty_ledger_def bindS_ok grant_status_def check_text_def st retS_def grant_of_def getS_def)
  have led: "qs_ledger (snd (request_status now rid S)) = qs_ledger S" for now rid S
    using status_calm [of S now rid] by (simp add: calm_requests_def)
  have "qs_ledger (snd (request_approve grant_ud (\<lambda>_. lit ''h'') 1 (lit ''grant-request-1'') (mg_approval sample_grant)
      sample_limits ?S)) = \<lparr>gl_grants = [(lit ''grant-h'', new_grant_row ?g)], gl_reservations = []\<rparr>"
    using iss by (auto simp: request_approve_def request_row_of_def bindS_ok sample_pending_def Let_def v valid
        in_ledger_of_def zoomS_def put_request_def putS_def led)
  moreover have "limits_valid sample_limits" by (simp add: limits_valid_def sample_limits_def no_limits_def)
  ultimately show ?thesis
    using sample_created [of grant_ud "\<lambda>_. lit ''f''" "\<lambda>_. lit ''h''" empty_ledger]
    by (simp add: requests_after_def sample_request_ops_def)
qed

theorem spending_stays_within_the_request_witness:
  "\<exists>w (r :: request_row). map_of (gl_grants (qs_ledger (requests_after grant_ud (\<lambda>_. lit ''f'') (\<lambda>_. lit ''h'') sample_request_ops)))
     (lit ''grant-h'') = Some w \<and> narrows (gw_payload w) (qr_payload r) \<and> gw_used_calls w \<le> rq_max_calls (qr_payload r)"
proof -
  obtain w where w: "map_of (gl_grants (qs_ledger (requests_after grant_ud (\<lambda>_. lit ''f'') (\<lambda>_. lit ''h'') sample_request_ops)))
     (lit ''grant-h'') = Some w" using sample_approved by blast
  from spending_stays_within_the_request [OF w] w show ?thesis by blast
qed

end
