(* ===== verification/ModelEvents.thy ===== *)
theory ModelEvents imports PyConvert Security begin

text \<open>
  What a model provider is to the rest of the program, from \<^verbatim>\<open>src/karox/providers.py\<close>: classified errors,
  requests, responses and the events of a stream, with \<^verbatim>\<open>accumulate_response\<close>, which folds a stream into
  the response it adds up to. The transports themselves are not modelled.
\<close>

section \<open>Errors\<close>

datatype ProviderErrorKind = Authentication | Permission | RateLimit | InvalidRequest | UnsupportedCapability
  | ModelUnavailable | Transport | ProviderInternal | CallCancelled | MalformedResponse | BudgetExceeded

text \<open>One entry of the audit trail of a routed call; no \<open>retries\<close> entry is written for zero.\<close>

record route_attempt =
  at_route_index :: nat
  at_provider_id :: pystr
  at_model :: pystr
  at_status :: string
  at_retries :: nat
  at_error :: "(ProviderErrorKind \<times> pystr \<times> int option) option"

record ProviderError =
  ke_kind :: ProviderErrorKind
  ke_message :: pystr
  ke_status_code :: "int option"
  ke_retry_after :: "real option"
  ke_route_attempts :: "route_attempt list"

definition redacted_attempt :: "unidata \<Rightarrow> route_attempt \<Rightarrow> route_attempt" where
  "redacted_attempt ud a = a\<lparr>at_provider_id := redact_text ud [] True (at_provider_id a),
     at_model := redact_text ud [] True (at_model a),
     at_error := map_option (\<lambda>(k, m, c). (k, redact_text ud [] True m, c)) (at_error a)\<rparr>"

definition provider_error :: "unidata \<Rightarrow> ProviderErrorKind \<Rightarrow> pystr \<Rightarrow> int option \<Rightarrow> real option \<Rightarrow> route_attempt list \<Rightarrow> ProviderError" where
  "provider_error ud kind message status retry attempts =
     \<lparr>ke_kind = kind, ke_message = take 4000 (redact_text ud [] True message), ke_status_code = status,
      ke_retry_after = retry, ke_route_attempts = map (redacted_attempt ud) attempts\<rparr>"

definition plain_error :: "unidata \<Rightarrow> ProviderErrorKind \<Rightarrow> string \<Rightarrow> ProviderError" where
  "plain_error ud kind message = provider_error ud kind (lit message) None None []"

section \<open>Requests and responses\<close>

record ToolCall =
  tc_call_id :: pystr
  tc_name :: pystr
  tc_raw_arguments :: pystr

definition tool_call_error :: "ToolCall \<Rightarrow> string option" where
  "tool_call_error c =
     (if tc_call_id c = [] \<or> 500 < length (tc_call_id c) then Some ''tool call ID must contain 1-500 characters''
      else if tc_name c = [] \<or> 200 < length (tc_name c) then Some ''tool call name must contain 1-200 characters''
      else None)"

record ReasoningBlock =
  rb_kind :: pystr
  rb_text :: pystr
  rb_data :: pystr
  rb_signature :: pystr
  rb_replayable :: bool

record ModelResponse =
  rsp_content :: "pystr option"
  rsp_tool_calls :: "ToolCall list"
  rsp_finish_reason :: "pystr option"
  rsp_usage :: "(pystr, pyval) dict"
  rsp_response_id :: "pystr option"
  rsp_transport_attempts :: int
  rsp_route_attempts :: "route_attempt list"
  rsp_selected_provider :: "pystr option"
  rsp_selected_model :: "pystr option"
  rsp_cost :: "real option"
  rsp_uncached_cost :: "real option"
  rsp_cache_savings :: "real option"
  rsp_currency :: "pystr option"
  rsp_pricing_version :: "pystr option"
  rsp_cumulative_usage :: "(pystr, int) dict"
  rsp_cumulative_cost :: "real option"
  rsp_budget_exceeded :: bool
  rsp_budget_reason :: "pystr option"
  rsp_reasoning :: "pystr option"
  rsp_reasoning_summary :: "pystr option"
  rsp_reasoning_blocks :: "ReasoningBlock list"

definition fresh_response :: ModelResponse where
  "fresh_response = \<lparr>rsp_content = None, rsp_tool_calls = [], rsp_finish_reason = None, rsp_usage = [], rsp_response_id = None,
     rsp_transport_attempts = 1, rsp_route_attempts = [], rsp_selected_provider = None, rsp_selected_model = None,
     rsp_cost = None, rsp_uncached_cost = None, rsp_cache_savings = None, rsp_currency = None, rsp_pricing_version = None,
     rsp_cumulative_usage = [], rsp_cumulative_cost = None, rsp_budget_exceeded = False, rsp_budget_reason = None,
     rsp_reasoning = None, rsp_reasoning_summary = None, rsp_reasoning_blocks = []\<rparr>"

datatype ModelEventKind = TEXT_DELTA | REASONING_DELTA | REASONING_SUMMARY_DELTA | TOOL_CALL_DELTA | USAGE | COMPLETION

record ToolCallDelta =
  tcd_index :: int
  tcd_call_id_fragment :: pystr
  tcd_name_fragment :: pystr
  tcd_arguments_fragment :: pystr

record ModelEvent =
  me_kind :: ModelEventKind
  me_text_delta :: "pystr option"
  me_reasoning_delta :: "pystr option"
  me_reasoning_summary_delta :: "pystr option"
  me_reasoning_block :: "ReasoningBlock option"
  me_tool_call_delta :: "ToolCallDelta option"
  me_usage :: "(pystr, pyval) dict"
  me_finish_reason :: "pystr option"
  me_response_id :: "pystr option"
  me_transport_attempts :: int
  me_response :: "ModelResponse option"

definition completion_event :: ModelEvent where
  "completion_event = \<lparr>me_kind = COMPLETION, me_text_delta = None, me_reasoning_delta = None, me_reasoning_summary_delta = None,
     me_reasoning_block = None, me_tool_call_delta = None, me_usage = [], me_finish_reason = None, me_response_id = None,
     me_transport_attempts = 1, me_response = None\<rparr>"

section \<open>What a stream adds up to\<close>

text \<open>\<^verbatim>\<open>value or default\<close> on an optional text.\<close>

definition text_or :: "pystr option \<Rightarrow> 'a \<Rightarrow> (pystr \<Rightarrow> 'a) \<Rightarrow> 'a" where
  "text_or s d f = (case s of None \<Rightarrow> d | Some t \<Rightarrow> if t = [] then d else f t)"

record accumulator =
  ac_content :: pystr
  ac_saw_content :: bool
  ac_reasoning :: pystr
  ac_summary :: pystr
  ac_blocks :: "ReasoningBlock list"
  ac_calls :: "(int, ToolCall) dict"
  ac_usage :: "(pystr, pyval) dict"
  ac_finish_reason :: "pystr option"
  ac_response_id :: "pystr option"
  ac_transport_attempts :: int
  ac_completed :: bool
  ac_decorated :: "ModelResponse option"

definition empty_accumulator :: accumulator where
  "empty_accumulator = \<lparr>ac_content = [], ac_saw_content = False, ac_reasoning = [], ac_summary = [], ac_blocks = [],
     ac_calls = [], ac_usage = [], ac_finish_reason = None, ac_response_id = None, ac_transport_attempts = 1,
     ac_completed = False, ac_decorated = None\<rparr>"

definition extend_call :: "ToolCallDelta \<Rightarrow> (int, ToolCall) dict \<Rightarrow> (int, ToolCall) dict" where
  "extend_call d calls =
     (let c = (case map_of calls (tcd_index d) of Some c \<Rightarrow> c | None \<Rightarrow> \<lparr>tc_call_id = [], tc_name = [], tc_raw_arguments = []\<rparr>)
      in AList.update (tcd_index d) \<lparr>tc_call_id = tc_call_id c @ tcd_call_id_fragment d,
           tc_name = tc_name c @ tcd_name_fragment d, tc_raw_arguments = tc_raw_arguments c @ tcd_arguments_fragment d\<rparr> calls)"

definition accumulate_event :: "unidata \<Rightarrow> ModelEvent \<Rightarrow> accumulator \<Rightarrow> ProviderError + accumulator" where
  "accumulate_event ud e a0 =
     (let a = a0\<lparr>ac_transport_attempts := me_transport_attempts e,
                 ac_response_id := text_or (me_response_id e) (ac_response_id a0) Some\<rparr>;
          txt = (\<lambda>s. text_or s [] id)
      in case me_kind e of
           TEXT_DELTA \<Rightarrow> Inr (a\<lparr>ac_saw_content := True, ac_content := ac_content a @ txt (me_text_delta e)\<rparr>)
         | REASONING_DELTA \<Rightarrow>
             Inr (a\<lparr>ac_reasoning := ac_reasoning a @ txt (me_reasoning_delta e),
                    ac_blocks := ac_blocks a @ (case me_reasoning_block e of None \<Rightarrow> [] | Some b \<Rightarrow> [b])\<rparr>)
         | REASONING_SUMMARY_DELTA \<Rightarrow> Inr (a\<lparr>ac_summary := ac_summary a @ txt (me_reasoning_summary_delta e)\<rparr>)
         | TOOL_CALL_DELTA \<Rightarrow>
             (case me_tool_call_delta e of
                None \<Rightarrow> Inl (plain_error ud MalformedResponse ''tool-call event omitted its delta'')
              | Some d \<Rightarrow> Inr (a\<lparr>ac_calls := extend_call d (ac_calls a)\<rparr>))
         | USAGE \<Rightarrow> Inr (a\<lparr>ac_usage := fold (\<lambda>(k, v). AList.update k v) (me_usage e) (ac_usage a)\<rparr>)
         | COMPLETION \<Rightarrow>
             Inr (a\<lparr>ac_completed := True, ac_finish_reason := me_finish_reason e,
                    ac_decorated := (case me_response e of None \<Rightarrow> ac_decorated a | Some r \<Rightarrow> Some r)\<rparr>))"

fun accumulate_events :: "unidata \<Rightarrow> ModelEvent list \<Rightarrow> accumulator \<Rightarrow> ProviderError + accumulator" where
  "accumulate_events ud [] a = Inr a"
| "accumulate_events ud (e # es) a = bindr (accumulate_event ud e a) (accumulate_events ud es)"

definition accumulate_response :: "unidata \<Rightarrow> ModelEvent list \<Rightarrow> ProviderError + ModelResponse" where
  "accumulate_response ud events =
     bindr (accumulate_events ud events empty_accumulator) (\<lambda>a.
       if \<not> ac_completed a then Inl (plain_error ud Transport ''provider stream ended before completion'')
       else case ac_decorated a of
         Some r \<Rightarrow> Inr r
       | None \<Rightarrow>
           let calls = map snd (sort_key fst (ac_calls a))
           in case List.find (\<lambda>c. tool_call_error c \<noteq> None) calls of
                Some c \<Rightarrow> Inl (provider_error ud MalformedResponse
                  (lit ''invalid streamed tool call: '' @ lit (the (tool_call_error c))) None None [])
              | None \<Rightarrow> Inr (fresh_response\<lparr>rsp_content := (if ac_saw_content a then Some (ac_content a) else None),
                  rsp_tool_calls := calls, rsp_finish_reason := ac_finish_reason a, rsp_usage := ac_usage a,
                  rsp_response_id := ac_response_id a, rsp_transport_attempts := ac_transport_attempts a,
                  rsp_reasoning := text_or (Some (ac_reasoning a)) None Some,
                  rsp_reasoning_summary := text_or (Some (ac_summary a)) None Some,
                  rsp_reasoning_blocks := ac_blocks a\<rparr>))"

end
