(* ===== verification/ProviderRegistry.thy ===== *)
theory ProviderRegistry imports IntelligencePool StateError begin

text \<open>
  The registry of providers and models, \<^verbatim>\<open>src/karox/registry.py\<close>, over the records of \<open>IntelligencePool\<close>: what
  makes a record valid, and every operation on the stored document. The document is the pair of record
  lists and the selection its JSON was written from; each operation reads it, checks it, and writes it back
  whole. The parts of a URL (\<^verbatim>\<open>urlsplit\<close>) are an argument.
\<close>

section \<open>Valid records\<close>

definition registry_id :: "pystr \<Rightarrow> bool" where
  "registry_id s \<longleftrightarrow> s \<noteq> [] \<and> ascii_alnum (hd s) \<and> list_all name_char (tl s) \<and> length s \<le> 128"

definition pricing_valid :: "ModelPricing \<Rightarrow> bool" where
  "pricing_valid p \<longleftrightarrow> registry_id (mp_version p) \<and> length (mp_currency p) = 3 \<and>
     list_all (\<lambda>c. 65 \<le> c \<and> c \<le> 90) (mp_currency p) \<and> 0 \<le> mp_input_per_million p \<and> 0 \<le> mp_output_per_million p \<and>
     (case mp_cache_read_per_million p of None \<Rightarrow> True | Some r \<Rightarrow> 0 \<le> r) \<and>
     (case mp_cache_write_per_million p of None \<Rightarrow> True | Some r \<Rightarrow> 0 \<le> r) \<and> py_strip (mp_source p) \<noteq> []"

definition ADAPTER_KINDS :: "pystr set" where
  "ADAPTER_KINDS = lit ` {''openai_compatible_chat'', ''openai_responses'', ''anthropic_messages'', ''gemini_generate_content''}"

definition PRIVACY_CLASSES :: "pystr list" where
  "PRIVACY_CLASSES = [lit ''local'', lit ''private'', lit ''public'']"

definition CAPABILITY_VALUES :: "pystr set" where
  "CAPABILITY_VALUES = lit ` {''true'', ''false'', ''unknown''}"

definition RESERVED_HEADERS :: "pystr set" where
  "RESERVED_HEADERS = lit ` {''authorization'', ''proxy-authorization'', ''x-api-key'', ''api-key'', ''x-goog-api-key''}"

definition RESERVED_QUERY :: "pystr set" where
  "RESERVED_QUERY = lit ` {''access_token'', ''api_key'', ''apikey'', ''key'', ''token''}"

record url_parts =
  up_scheme :: pystr
  up_hostname :: "pystr option"
  up_username :: "pystr option"
  up_password :: "pystr option"
  up_query :: pystr
  up_fragment :: pystr

definition base_url_ok :: "url_parts \<Rightarrow> bool" where
  "base_url_ok u \<longleftrightarrow> up_scheme u \<in> {lit ''http'', lit ''https''} \<and>
     (case up_hostname u of None \<Rightarrow> False | Some h \<Rightarrow> h \<noteq> []) \<and> up_username u = None \<and> up_password u = None \<and>
     up_query u = [] \<and> up_fragment u = []"

text \<open>\<^verbatim>\<open>KAROX_PROVIDER_[A-Z0-9]+(?:_[A-Z0-9]+)*_API_KEY\<close>: the words between underscores are not empty.\<close>

definition environment_name :: "pystr \<Rightarrow> bool" where
  "environment_name s \<longleftrightarrow>
     (let words = split_char 95 s
      in length s \<le> 128 \<and> 5 \<le> length words \<and> take 2 words = [lit ''KAROX'', lit ''PROVIDER''] \<and>
         drop (length words - 2) words = [lit ''API'', lit ''KEY''] \<and>
         list_all (\<lambda>w. w \<noteq> [] \<and> list_all (\<lambda>c. 65 \<le> c \<and> c \<le> 90 \<or> 48 \<le> c \<and> c \<le> 57) w) words)"

definition credential_reference_ok :: "pystr \<Rightarrow> bool" where
  "credential_reference_ok s \<longleftrightarrow>
     (let ring = lit ''os-keyring:provider/''; env = lit ''env:''
      in if startswith s ring then registry_id (drop (length ring) s)
         else startswith s env \<and> environment_name (drop (length env) s))"

definition provider_header_ok :: "unidata \<Rightarrow> pystr \<times> pystr \<Rightarrow> bool" where
  "provider_header_ok ud e \<longleftrightarrow> fst e \<noteq> [] \<and> ud_lower ud (fst e) \<notin> RESERVED_HEADERS \<and>
     list_all (\<lambda>c. c \<notin> {13, 10}) (fst e @ snd e) \<and> \<not> contains_credential ud (snd e)"

definition provider_query_ok :: "unidata \<Rightarrow> pystr \<times> pystr \<Rightarrow> bool" where
  "provider_query_ok ud e \<longleftrightarrow> fst e \<noteq> [] \<and> ud_lower ud (fst e) \<notin> RESERVED_QUERY \<and> \<not> contains_credential ud (snd e)"

definition provider_record_ok :: "unidata \<Rightarrow> (pystr \<Rightarrow> url_parts) \<Rightarrow> ProviderRecord \<Rightarrow> bool" where
  "provider_record_ok ud split p \<longleftrightarrow> registry_id (pr_provider_id p) \<and> pr_adapter_kind p \<in> ADAPTER_KINDS \<and>
     base_url_ok (split (pr_base_url p)) \<and>
     (case pr_credential_ref p of None \<Rightarrow> True | Some r \<Rightarrow> credential_reference_ok r) \<and>
     pr_privacy_class p \<in> set PRIVACY_CLASSES \<and> 5 / 100 \<le> pr_timeout_seconds p \<and> pr_timeout_seconds p \<le> 3600 \<and>
     0 \<le> pr_max_transport_retries p \<and> pr_max_transport_retries p \<le> 10 \<and>
     list_all (provider_header_ok ud) (pr_headers p) \<and> list_all (provider_query_ok ud) (pr_query p)"

definition model_name_ok :: "pystr \<Rightarrow> bool" where
  "model_name_ok s \<longleftrightarrow> py_strip s \<noteq> [] \<and> length s \<le> 500 \<and> list_all (\<lambda>c. c \<notin> {13, 10, 0}) s"

definition positive_opt :: "int option \<Rightarrow> bool" where
  "positive_opt n \<longleftrightarrow> (case n of None \<Rightarrow> True | Some i \<Rightarrow> 0 < i)"

definition model_record_ok :: "ModelRecord \<Rightarrow> bool" where
  "model_record_ok m \<longleftrightarrow> registry_id (mr_provider_id m) \<and> model_name_ok (mr_model_id m) \<and>
     list_all registry_id (mr_aliases m) \<and> distinct (mr_aliases m) \<and>
     positive_opt (mr_context_window m) \<and> positive_opt (mr_max_output_tokens m) \<and>
     list_all (\<lambda>v. v \<in> CAPABILITY_VALUES) [mr_tools m, mr_vision m, mr_structured_output m, mr_streaming m] \<and>
     py_strip (mr_provenance m) \<noteq> [] \<and> (case mr_display_name m of None \<Rightarrow> True | Some n \<Rightarrow> model_name_ok n) \<and>
     (case mr_pricing m of None \<Rightarrow> True | Some p \<Rightarrow> pricing_valid p)"

section \<open>The document\<close>

record registry_doc =
  rd_providers :: "ProviderRecord list"
  rd_models :: "ModelRecord list"
  rd_selected :: "(pystr \<times> pystr) option"

datatype registry_file = NoRegistry | BadRegistry | RegistryDoc registry_doc

datatype registry_error = RegistryError string | RegistryValue string

type_synonym 'a registry_step = "registry_file \<Rightarrow> (registry_error + 'a) \<times> registry_file"

text \<open>The names under which a model is found: its identifier and its aliases, within its provider.\<close>

definition model_names :: "ModelRecord \<Rightarrow> (pystr \<times> pystr) list" where
  "model_names m = map (Pair (mr_provider_id m)) (mr_model_id m # mr_aliases m)"

definition validated :: "ProviderRecord list \<Rightarrow> ModelRecord list \<Rightarrow>
    registry_error + (pystr, ProviderRecord) dict \<times> ModelRecord list" where
  "validated ps ms =
     (if \<not> distinct (map pr_provider_id ps) then Inl (RegistryError ''duplicate provider IDs'')
      else if \<not> list_all (\<lambda>m. mr_provider_id m \<in> pr_provider_id ` set ps) ms then Inl (RegistryError ''orphaned model'')
      else if \<not> distinct (concat (map model_names ms)) then Inl (RegistryError ''colliding model IDs or aliases'')
      else Inr (map (\<lambda>p. (pr_provider_id p, p)) ps, ms))"

definition model_key :: "ModelRecord \<Rightarrow> pystr \<times> pystr" where
  "model_key m = (mr_provider_id m, mr_model_id m)"

record registry_view =
  rv_providers :: "(pystr, ProviderRecord) dict"
  rv_models :: "ModelRecord list"
  rv_selected :: "(pystr \<times> pystr) option"

definition selection_exists :: "(pystr \<times> pystr) option \<Rightarrow> ModelRecord list \<Rightarrow> bool" where
  "selection_exists sel ms \<longleftrightarrow> (case sel of None \<Rightarrow> True | Some s \<Rightarrow> s \<in> model_key ` set ms)"

definition registry_load :: "registry_view registry_step" where
  "registry_load f =
     (case f of
        NoRegistry \<Rightarrow> (Inr \<lparr>rv_providers = [], rv_models = [], rv_selected = None\<rparr>, f)
      | BadRegistry \<Rightarrow> (Inl (RegistryError ''cannot read provider registry''), f)
      | RegistryDoc d \<Rightarrow>
          (case validated (rd_providers d) (rd_models d) of
             Inl e \<Rightarrow> (Inl e, f)
           | Inr (ps, ms) \<Rightarrow>
               if selection_exists (rd_selected d) ms
               then (Inr \<lparr>rv_providers = ps, rv_models = ms, rv_selected = rd_selected d\<rparr>, f)
               else (Inl (RegistryError ''selected model does not exist''), f)))"

text \<open>Models are written ordered by provider and then by identifier.\<close>

definition in_order :: "ModelRecord list \<Rightarrow> ModelRecord list" where
  "in_order ms = sort_key mr_provider_id (sort_key mr_model_id ms)"

definition registry_save :: "registry_view \<Rightarrow> unit registry_step" where
  "registry_save v f =
     (case validated (map snd (rv_providers v)) (rv_models v) of
        Inl e \<Rightarrow> (Inl e, f)
      | Inr (ps, ms) \<Rightarrow>
          if selection_exists (rv_selected v) ms
          then (Inr (), RegistryDoc \<lparr>rd_providers = sort_key pr_provider_id (map snd ps), rd_models = in_order ms,
                  rd_selected = rv_selected v\<rparr>)
          else (Inl (RegistryError ''selected model does not exist''), f))"

section \<open>Operations\<close>

definition providers_of :: "ProviderRecord list registry_step" where
  "providers_of = bindS registry_load (\<lambda>v. retS (sort_key pr_provider_id (map snd (rv_providers v))))"

definition models_of :: "pystr option \<Rightarrow> ModelRecord list registry_step" where
  "models_of provider =
     bindS registry_load (\<lambda>v. retS (in_order (filter (\<lambda>m. provider = None \<or> provider = Some (mr_provider_id m)) (rv_models v))))"

text \<open>What an operation writes, given what it read.\<close>

definition write_provider :: "ProviderRecord \<Rightarrow> registry_view \<Rightarrow> ProviderRecord registry_step" where
  "write_provider p v =
     bindS (registry_save (v\<lparr>rv_providers := AList.update (pr_provider_id p) p (rv_providers v)\<rparr>)) (\<lambda>_. retS p)"

definition put_provider :: "ProviderRecord \<Rightarrow> ProviderRecord registry_step" where
  "put_provider p = bindS registry_load (write_provider p)"

definition write_model :: "ModelRecord \<Rightarrow> registry_view \<Rightarrow> ModelRecord registry_step" where
  "write_model m v =
     (if map_of (rv_providers v) (mr_provider_id m) = None then raiseS (RegistryError ''provider does not exist'')
      else bindS (registry_save (v\<lparr>rv_models := filter (\<lambda>x. model_key x \<noteq> model_key m) (rv_models v) @ [m]\<rparr>))
        (\<lambda>_. retS m))"

definition put_model :: "ModelRecord \<Rightarrow> ModelRecord registry_step" where
  "put_model m = bindS registry_load (write_model m)"

definition moved_alias :: "pystr \<Rightarrow> pystr \<Rightarrow> pystr \<Rightarrow> ModelRecord \<Rightarrow> ModelRecord" where
  "moved_alias provider alias model m =
     (let rest = filter (\<lambda>a. a \<noteq> alias) (mr_aliases m)
      in if mr_provider_id m \<noteq> provider then m
         else if mr_model_id m = model then m\<lparr>mr_aliases := dedup (rest @ [alias])\<rparr>
         else m\<lparr>mr_aliases := rest\<rparr>)"

definition alias_only_model :: "pystr \<Rightarrow> pystr \<Rightarrow> pystr \<Rightarrow> ModelRecord" where
  "alias_only_model provider alias model = \<lparr>mr_provider_id = provider, mr_model_id = model, mr_aliases = [alias],
     mr_context_window = None, mr_max_output_tokens = None, mr_tools = lit ''unknown'', mr_vision = lit ''unknown'',
     mr_structured_output = lit ''unknown'', mr_streaming = lit ''unknown'', mr_pricing = None,
     mr_provenance = lit ''user-alias-map'', mr_display_name = None\<rparr>"

definition map_alias :: "pystr \<Rightarrow> pystr \<Rightarrow> pystr \<Rightarrow> ModelRecord registry_step" where
  "map_alias provider alias model =
     (if \<not> registry_id alias then raiseS (RegistryValue ''model alias'')
      else bindS registry_load (\<lambda>v.
        if map_of (rv_providers v) provider = None then raiseS (RegistryError ''provider does not exist'')
        else
          let updated = map (moved_alias provider alias model) (rv_models v)
          in case filter (\<lambda>m. model_key m = (provider, model)) updated of
               [] \<Rightarrow>
                 let m = alias_only_model provider alias model
                 in if \<not> model_record_ok m then raiseS (RegistryValue ''model'')
                    else bindS (registry_save (v\<lparr>rv_models := updated @ [m]\<rparr>)) (\<lambda>_. retS m)
             | m # ms \<Rightarrow> bindS (registry_save (v\<lparr>rv_models := updated\<rparr>)) (\<lambda>_. retS (last (m # ms)))))"

definition provider_of :: "pystr \<Rightarrow> ProviderRecord registry_step" where
  "provider_of provider =
     bindS registry_load (\<lambda>v. case map_of (rv_providers v) provider of
        None \<Rightarrow> raiseS (RegistryError ''provider does not exist'') | Some p \<Rightarrow> retS p)"

definition model_of :: "pystr \<Rightarrow> pystr \<Rightarrow> ModelRecord registry_step" where
  "model_of provider name =
     bindS (models_of (Some provider)) (\<lambda>ms.
       case filter (\<lambda>m. mr_model_id m = name \<or> name \<in> set (mr_aliases m)) ms of
         [] \<Rightarrow> raiseS (RegistryError ''model does not exist'')
       | [m] \<Rightarrow> retS m
       | _ \<Rightarrow> raiseS (RegistryError ''model alias is ambiguous''))"

definition unselected :: "pystr \<Rightarrow> (pystr \<times> pystr) option \<Rightarrow> (pystr \<times> pystr) option" where
  "unselected provider sel = (case sel of Some s \<Rightarrow> if fst s = provider then None else sel | None \<Rightarrow> None)"

definition remove_provider :: "pystr \<Rightarrow> bool \<Rightarrow> ProviderRecord registry_step" where
  "remove_provider provider cascade =
     bindS registry_load (\<lambda>v.
       case map_of (rv_providers v) provider of
         None \<Rightarrow> raiseS (RegistryError ''provider does not exist'')
       | Some p \<Rightarrow>
           if list_ex (\<lambda>m. mr_provider_id m = provider) (rv_models v) \<and> \<not> cascade
           then raiseS (RegistryError ''provider has models'')
           else bindS (registry_save \<lparr>rv_providers = AList.delete provider (rv_providers v),
                  rv_models = (if cascade then filter (\<lambda>m. mr_provider_id m \<noteq> provider) (rv_models v) else rv_models v),
                  rv_selected = unselected provider (rv_selected v)\<rparr>) (\<lambda>_. retS p))"

definition remove_model :: "pystr \<Rightarrow> pystr \<Rightarrow> ModelRecord registry_step" where
  "remove_model provider name =
     bindS (model_of provider name) (\<lambda>m.
     bindS registry_load (\<lambda>v.
     bindS (registry_save (v\<lparr>rv_models := filter (\<lambda>x. model_key x \<noteq> model_key m) (rv_models v),
              rv_selected := (if rv_selected v = Some (model_key m) then None else rv_selected v)\<rparr>))
       (\<lambda>_. retS m)))"

definition set_provider_enabled :: "pystr \<Rightarrow> bool \<Rightarrow> ProviderRecord registry_step" where
  "set_provider_enabled provider enabled =
     bindS registry_load (\<lambda>v.
       case map_of (rv_providers v) provider of
         None \<Rightarrow> raiseS (RegistryError ''provider does not exist'')
       | Some p \<Rightarrow>
           let q = p\<lparr>pr_enabled := enabled\<rparr>
           in bindS (registry_save (v\<lparr>rv_providers := AList.update provider q (rv_providers v),
                rv_selected := (if enabled then rv_selected v else unselected provider (rv_selected v))\<rparr>)) (\<lambda>_. retS q))"

definition select_model :: "pystr \<Rightarrow> pystr \<Rightarrow> ModelRecord registry_step" where
  "select_model provider name =
     bindS (model_of provider name) (\<lambda>m.
     bindS registry_load (\<lambda>v.
       if (case map_of (rv_providers v) provider of Some p \<Rightarrow> \<not> pr_enabled p | None \<Rightarrow> False)
       then raiseS (RegistryError ''provider is disabled'')
       else bindS (registry_save (v\<lparr>rv_selected := Some (model_key m)\<rparr>)) (\<lambda>_. retS m)))"

definition selected_model :: "ModelRecord option registry_step" where
  "selected_model =
     bindS registry_load (\<lambda>v.
       case rv_selected v of
         None \<Rightarrow> retS None
       | Some s \<Rightarrow> (case List.find (\<lambda>m. model_key m = s) (rv_models v) of
            Some m \<Rightarrow> retS (Some m) | None \<Rightarrow> raiseS (RegistryError ''selected model does not exist'')))"

end
