(* ===== verification/ModelRouting.thy ===== *)
theory ModelRouting imports ModelEvents ProviderRegistry begin

text \<open>
  Routing of model calls, \<^verbatim>\<open>src/karox/routing.py\<close>: declared routes tried in order, each with retries, under
  privacy, capability and budget limits, for blocking and for streamed calls. What building and asking a
  provider yields, the clock, the jitter and the registry a call reads are arguments; attempts are numbered
  over the life of a router, and the clock and the jitter are those of the moment after an attempt failed.
\<close>

section \<open>Policies\<close>

record RouteTarget =
  tg_provider_id :: pystr
  tg_model :: pystr

definition target_valid :: "RouteTarget \<Rightarrow> bool" where
  "target_valid t \<longleftrightarrow> py_strip (tg_provider_id t) \<noteq> [] \<and> py_strip (tg_model t) \<noteq> []"

record RetryPolicy =
  ry_max_attempts :: nat
  ry_base_delay_seconds :: real
  ry_max_delay_seconds :: real

definition retry_valid :: "RetryPolicy \<Rightarrow> bool" where
  "retry_valid r \<longleftrightarrow> 1 \<le> ry_max_attempts r \<and> ry_max_attempts r \<le> 10 \<and> 0 \<le> ry_base_delay_seconds r \<and>
     0 \<le> ry_max_delay_seconds r \<and> ry_base_delay_seconds r \<le> ry_max_delay_seconds r"

record RoutingPolicy =
  rp_routes :: "RouteTarget list"
  rp_privacy_limit :: pystr
  rp_route_strategy :: pystr
  rp_max_total_tokens :: "int option"
  rp_max_cost :: "real option"
  rp_currency :: "pystr option"
  rp_require_tools :: bool
  rp_require_streaming :: bool
  rp_retry :: RetryPolicy

text \<open>\<open>upper\<close> stands for \<^verbatim>\<open>isalpha() and isupper()\<close>.\<close>

definition policy_valid :: "(pystr \<Rightarrow> bool) \<Rightarrow> RoutingPolicy \<Rightarrow> bool" where
  "policy_valid upper p \<longleftrightarrow> rp_routes p \<noteq> [] \<and> list_all target_valid (rp_routes p) \<and> retry_valid (rp_retry p) \<and>
     rp_privacy_limit p \<in> set PRIVACY_CLASSES \<and> rp_route_strategy p \<in> {lit ''ordered'', lit ''cheapest''} \<and>
     (case rp_max_total_tokens p of None \<Rightarrow> True | Some n \<Rightarrow> 0 < n) \<and>
     (case rp_max_cost p of None \<Rightarrow> True | Some c \<Rightarrow> 0 < c) \<and>
     (rp_max_cost p \<noteq> None \<longrightarrow> rp_currency p \<noteq> None) \<and>
     (case rp_currency p of None \<Rightarrow> True | Some c \<Rightarrow> length c = 3 \<and> upper c)"

definition RETRYABLE_ERRORS :: "ProviderErrorKind list" where
  "RETRYABLE_ERRORS = [RateLimit, ModelUnavailable, Transport, ProviderInternal]"

definition FALLBACK_ERRORS :: "ProviderErrorKind list" where
  "FALLBACK_ERRORS = RETRYABLE_ERRORS @ [InvalidRequest, BudgetExceeded]"

section \<open>Usage\<close>

definition usage_total :: "(pystr, pyval) dict \<Rightarrow> int" where
  "usage_total u =
     (let selected = usage_count u [''prompt_tokens'', ''input_tokens''] + usage_count u [''completion_tokens'', ''output_tokens'']
      in case pget u ''total_tokens'' of PInt t \<Rightarrow> if 0 \<le> t then t else selected | _ \<Rightarrow> selected)"

definition add_count :: "pystr \<times> pyval \<Rightarrow> (pystr, int) dict \<Rightarrow> (pystr, int) dict" where
  "add_count e d =
     (case snd e of
        PInt n \<Rightarrow> if 0 \<le> n then AList.update (fst e) ((case map_of d (fst e) of None \<Rightarrow> 0 | Some m \<Rightarrow> m) + n) d else d
      | _ \<Rightarrow> d)"

definition merge_usage :: "(pystr, pyval) dict \<Rightarrow> (pystr, pyval) dict \<Rightarrow> (pystr, int) dict" where
  "merge_usage base addition =
     AList.update (lit ''total_tokens'') (usage_total base + usage_total addition) (fold add_count (base @ addition) [])"

definition counts :: "(pystr, int) dict \<Rightarrow> (pystr, pyval) dict" where
  "counts d = map (\<lambda>e. (fst e, PInt (snd e))) d"

section \<open>The router\<close>

text \<open>
  What a router keeps, and what it did: the attempts (route, provider, model, output ceiling), the delays it slept, and
  the events it handed to its caller with the number of the attempt they came from.
\<close>

type_synonym model_call = "nat \<times> pystr \<times> pystr \<times> int option"

record router =
  ru_usage :: "(pystr, int) dict"
  ru_costs :: "(pystr, real) dict"
  ru_calls :: "model_call list"
  ru_slept :: "real list"
  ru_shown :: "(nat \<times> ModelEvent) list"

fun start_cost :: "pyval \<Rightarrow> real option" where
  "start_cost (PInt n) = (if 0 \<le> n then Some (of_int n) else None)"
| "start_cost (PFloat r) = (if 0 \<le> r then Some r else None)"
| "start_cost _ = None"

definition new_router :: "(pystr, pyval) dict \<Rightarrow> (pystr, pyval) dict \<Rightarrow> router" where
  "new_router usage costs =
     \<lparr>ru_usage = merge_usage [] usage,
      ru_costs = fold (\<lambda>e d. case start_cost (snd e) of None \<Rightarrow> d | Some c \<Rightarrow> AList.update (fst e) c d) costs [],
      ru_calls = [], ru_slept = [], ru_shown = []\<rparr>"

record routing_env =
  rn_ud :: unidata
  rn_registry :: registry_file
  rn_policy :: RoutingPolicy
  rn_clock :: "nat \<Rightarrow> real"
  rn_jitter :: "nat \<Rightarrow> real"

datatype routing_failure = ProviderFailed ProviderError | RegistryFailed registry_error | Crashed pystr | NoRoutes

text \<open>The parts of a request routing reads; a tool is its name, its description and its schema as JSON text.\<close>

record ModelRequest =
  ar_messages :: "(pystr option \<times> ToolCall list) list"
  ar_tools :: "(pystr \<times> pystr \<times> pystr) list"
  ar_max_output_tokens :: "int option"
  ar_deadline_seconds :: real

definition request_input_estimate :: "ModelRequest \<Rightarrow> int" where
  "request_input_estimate q =
     (let characters =
        sum_list (map (\<lambda>(content, calls). (case content of None \<Rightarrow> 0 | Some s \<Rightarrow> length s)
          + sum_list (map (\<lambda>c. length (tc_name c) + length (tc_raw_arguments c)) calls)) (ar_messages q))
        + sum_list (map (\<lambda>(name, description, schema). length name + length description + length schema) (ar_tools q))
      in max 1 (int characters div 4 + 1))"

definition estimate_uncached :: "ModelPricing \<Rightarrow> (pystr, pyval) dict \<Rightarrow> real" where
  "estimate_uncached p usage =
     py_round 12 (of_int (usage_count usage [''prompt_tokens'', ''input_tokens'']) * mp_input_per_million p / 1000000
       + of_int (usage_count usage [''completion_tokens'', ''output_tokens'']) * mp_output_per_million p / 1000000)"

text \<open>The currency and the estimated cost of a route, if they are known.\<close>

definition route_score :: "routing_env \<Rightarrow> ModelRequest \<Rightarrow> RouteTarget \<Rightarrow> (pystr \<times> real) option" where
  "route_score env q t =
     (case fst (model_of (tg_provider_id t) (tg_model t) (rn_registry env)) of
        Inl _ \<Rightarrow> None
      | Inr m \<Rightarrow>
          (case (mr_pricing m, case ar_max_output_tokens q of Some n \<Rightarrow> Some n | None \<Rightarrow> mr_max_output_tokens m) of
             (Some p, Some out) \<Rightarrow>
               Some (mp_currency p, estimate_uncached p [(lit ''prompt_tokens'', PInt (request_input_estimate q)),
                 (lit ''completion_tokens'', PInt out)])
           | _ \<Rightarrow> None))"

definition route_sequence :: "routing_env \<Rightarrow> ModelRequest \<Rightarrow> (nat \<times> RouteTarget) list" where
  "route_sequence env q =
     (let indexed = List.enumerate 0 (rp_routes (rn_policy env))
      in if rp_route_strategy (rn_policy env) \<noteq> lit ''cheapest'' \<or> length indexed < 2 then indexed
         else case all_some (map (\<lambda>e. route_score env q (snd e)) indexed) of
           None \<Rightarrow> indexed
         | Some scores \<Rightarrow>
             if list_all (\<lambda>s. fst s = fst (hd scores)) scores
             then map snd (sort_key fst (zip (map snd scores) indexed)) else indexed)"

section \<open>Budgets and preflight\<close>

definition spent_in :: "router \<Rightarrow> RoutingPolicy \<Rightarrow> real" where
  "spent_in s p = (case map_of (ru_costs s) (the (rp_currency p)) of None \<Rightarrow> 0 | Some c \<Rightarrow> c)"

definition global_budget_error :: "routing_env \<Rightarrow> router \<Rightarrow> ProviderError option" where
  "global_budget_error env s =
     (let p = rn_policy env
      in if (case rp_max_total_tokens p of None \<Rightarrow> False | Some n \<Rightarrow> n \<le> usage_total (counts (ru_usage s)))
         then Some (plain_error (rn_ud env) BudgetExceeded ''token budget is already exhausted'')
         else if (case rp_max_cost p of None \<Rightarrow> False | Some c \<Rightarrow> c \<le> spent_in s p)
         then Some (plain_error (rn_ud env) BudgetExceeded ''cost budget is already exhausted'')
         else None)"

definition privacy_rank :: "pystr \<Rightarrow> nat" where
  "privacy_rank c = length (takeWhile (\<lambda>x. x \<noteq> c) PRIVACY_CLASSES)"

text \<open>The first check of \<^verbatim>\<open>_preflight\<close> that fails.\<close>

definition preflight_error :: "routing_env \<Rightarrow> ModelRequest \<Rightarrow> ProviderRecord \<Rightarrow> ModelRecord \<Rightarrow> ProviderError option" where
  "preflight_error env q provider m =
     (let p = rn_policy env; fail = plain_error (rn_ud env)
      in if privacy_rank (rp_privacy_limit p) < privacy_rank (pr_privacy_class provider)
         then Some (provider_error (rn_ud env) Permission (lit ''route privacy class '' @ pr_privacy_class provider
                @ lit '' exceeds '' @ rp_privacy_limit p) None None [])
         else if ar_tools q \<noteq> [] \<and> rp_require_tools p \<and> mr_tools m \<noteq> lit ''true''
         then Some (fail UnsupportedCapability ''route model does not explicitly support tools'')
         else if rp_require_streaming p \<and> mr_streaming m \<noteq> lit ''true''
         then Some (fail UnsupportedCapability ''route model does not explicitly support streaming'')
         else if rp_max_cost p \<noteq> None \<and> mr_pricing m = None
         then Some (fail BudgetExceeded ''cost budget requires model pricing'')
         else if rp_max_cost p \<noteq> None \<and> Some (mp_currency (the (mr_pricing m))) \<noteq> rp_currency p
         then Some (fail BudgetExceeded ''model pricing currency does not match the cost budget'')
         else None)"

definition preflight :: "routing_env \<Rightarrow> RouteTarget \<Rightarrow> ModelRequest \<Rightarrow> routing_failure + ProviderRecord \<times> ModelRecord" where
  "preflight env t q =
     (case fst (provider_of (tg_provider_id t) (rn_registry env)) of
        Inl e \<Rightarrow> Inl (RegistryFailed e)
      | Inr provider \<Rightarrow>
          (case fst (model_of (tg_provider_id t) (tg_model t) (rn_registry env)) of
             Inl e \<Rightarrow> Inl (RegistryFailed e)
           | Inr m \<Rightarrow>
               (case preflight_error env q provider m of Some e \<Rightarrow> Inl (ProviderFailed e) | None \<Rightarrow> Inr (provider, m))))"

section \<open>One route\<close>

definition retry_delay :: "routing_env \<Rightarrow> ProviderError \<Rightarrow> nat \<Rightarrow> real \<Rightarrow> nat \<Rightarrow> real option" where
  "retry_delay env e attempts deadline n =
     (let p = rp_retry (rn_policy env); jitter = rn_jitter env n
      in if ke_kind e \<notin> set RETRYABLE_ERRORS \<or> ry_max_attempts p \<le> attempts then None
         else
           let delay =
             (case ke_retry_after e of
                Some supplied \<Rightarrow>
                  let asked = (if supplied \<le> 0 then ry_base_delay_seconds p else supplied)
                  in min (ry_max_delay_seconds p) (asked * (1 + 1 / 2 * jitter))
              | None \<Rightarrow>
                  min (ry_max_delay_seconds p) (ry_base_delay_seconds p * 2 ^ (attempts - 1)) * (1 / 2 + 1 / 2 * jitter))
           in if deadline - rn_clock env n \<le> delay then None else Some delay)"

lemma retry_bounded: "retry_delay env e attempts deadline n = Some d \<Longrightarrow> attempts < ry_max_attempts (rp_retry (rn_policy env))"
  by (auto simp: retry_delay_def Let_def split: if_splits)

datatype 'r reply = Answered 'r | Refused ProviderError | Blew pystr

text \<open>
  A call is asked again while its provider refuses and a delay remains. An answer is \<open>(emitted, reply)\<close>:
  what was handed to the caller before the reply keeps a refusal from being retried.
\<close>

function ask_route :: "routing_env \<Rightarrow> (nat \<Rightarrow> model_call \<Rightarrow> ModelEvent list \<times> 'r reply) \<Rightarrow> real \<Rightarrow> model_call \<Rightarrow> nat \<Rightarrow> router \<Rightarrow>
    ('r reply \<times> nat \<times> bool) \<times> router" where
  "ask_route env ask deadline call retries s =
     (let n = length (ru_calls s); (shown, reply) = ask n call;
          s1 = s\<lparr>ru_calls := ru_calls s @ [call], ru_shown := ru_shown s @ map (Pair n) shown\<rparr>
      in case reply of
           Refused e \<Rightarrow>
             (case (if shown \<noteq> [] then None else retry_delay env e (retries + 1) deadline (Suc n)) of
                None \<Rightarrow> ((Refused e, retries, shown \<noteq> []), s1)
              | Some d \<Rightarrow> ask_route env ask deadline call (retries + 1) (s1\<lparr>ru_slept := ru_slept s @ [d]\<rparr>))
         | _ \<Rightarrow> ((reply, retries, shown \<noteq> []), s1))"
  by pat_completeness auto
termination
  by (relation "measure (\<lambda>(env, ask, deadline, call, retries, s). ry_max_attempts (rp_retry (rn_policy env)) - retries)")
    (auto dest!: retry_bounded split: if_splits)

declare ask_route.simps [simp del]

section \<open>All routes\<close>

definition attempt_entry :: "nat \<Rightarrow> RouteTarget \<Rightarrow> pystr option \<Rightarrow> string \<Rightarrow> ProviderError option \<Rightarrow> nat \<Rightarrow> route_attempt" where
  "attempt_entry i t model_id status e retries =
     \<lparr>at_route_index = i, at_provider_id = tg_provider_id t, at_model = text_or model_id (tg_model t) id, at_status = status,
      at_retries = retries, at_error = map_option (\<lambda>e. (ke_kind e, ke_message e, ke_status_code e)) e\<rparr>"

text \<open>The output ceiling that is sent: that of the registry, unless the caller named one.\<close>

definition routed_output :: "ModelRequest \<Rightarrow> ModelRecord \<Rightarrow> int option" where
  "routed_output q m = (case ar_max_output_tokens q of Some n \<Rightarrow> Some n | None \<Rightarrow> mr_max_output_tokens m)"

definition with_attempts :: "routing_env \<Rightarrow> ProviderError \<Rightarrow> route_attempt list \<Rightarrow> routing_failure" where
  "with_attempts env e attempts =
     ProviderFailed (provider_error (rn_ud env) (ke_kind e) (ke_message e) (ke_status_code e) (ke_retry_after e) attempts)"

fun try_routes :: "routing_env \<Rightarrow> ModelRequest \<Rightarrow> (nat \<Rightarrow> model_call \<Rightarrow> ModelEvent list \<times> 'r reply) \<Rightarrow> real \<Rightarrow>
    (nat \<times> RouteTarget) list \<Rightarrow> route_attempt list \<Rightarrow> ProviderError option \<Rightarrow> router \<Rightarrow>
    (routing_failure + 'r \<times> route_attempt list \<times> ProviderRecord \<times> ModelRecord) \<times> router" where
  "try_routes env q ask deadline [] attempts rejection s =
     (case rejection of Some e \<Rightarrow> (Inl (with_attempts env e attempts), s) | None \<Rightarrow> (Inl NoRoutes, s))"
| "try_routes env q ask deadline ((i, t) # routes) attempts rejection s =
     (case preflight env t q of
        Inl (ProviderFailed e) \<Rightarrow>
          try_routes env q ask deadline routes (attempts @ [attempt_entry i t None ''rejected'' (Some e) 0]) (Some e) s
      | Inl failure \<Rightarrow> (Inl failure, s)
      | Inr (provider, m) \<Rightarrow>
          (case ask_route env ask deadline (i, pr_provider_id provider, mr_model_id m, routed_output q m) 0 s of
             ((Answered r, retries, emitted), s1) \<Rightarrow>
               (Inr (r, attempts @ [attempt_entry i t (Some (mr_model_id m)) ''completed'' None retries], provider, m), s1)
           | ((Blew x, retries, emitted), s1) \<Rightarrow> (Inl (Crashed x), s1)
           | ((Refused e, retries, emitted), s1) \<Rightarrow>
               let can_fallback = (\<not> emitted \<and> ke_kind e \<in> set FALLBACK_ERRORS \<and> i + 1 < length (rp_routes (rn_policy env)));
                   attempts' = attempts @ [attempt_entry i t (Some (mr_model_id m))
                     (if can_fallback then ''fallback'' else ''failed'') (Some e) retries]
               in if can_fallback then try_routes env q ask deadline routes attempts' rejection s1
                  else (Inl (with_attempts env e attempts'), s1)))"

section \<open>Calls\<close>

definition charge :: "RoutingPolicy \<Rightarrow> ModelRecord \<Rightarrow> (pystr, pyval) dict \<Rightarrow> router \<Rightarrow> router" where
  "charge p m usage s =
     (let s1 = s\<lparr>ru_usage := merge_usage (counts (ru_usage s)) usage\<rparr>
      in case mr_pricing m of
           None \<Rightarrow> s1
         | Some pr \<Rightarrow> s1\<lparr>ru_costs := AList.update (mp_currency pr)
             (py_round 12 ((case map_of (ru_costs s) (mp_currency pr) of None \<Rightarrow> 0 | Some c \<Rightarrow> c) + estimate pr usage)) (ru_costs s)\<rparr>)"

definition exceeded_budgets :: "RoutingPolicy \<Rightarrow> router \<Rightarrow> pystr list" where
  "exceeded_budgets p s =
     (if (case rp_max_total_tokens p of None \<Rightarrow> False | Some n \<Rightarrow> n < usage_total (counts (ru_usage s)))
      then [lit ''token_budget''] else [])
     @ (if (case rp_max_cost p of None \<Rightarrow> False | Some c \<Rightarrow> c < spent_in s p) then [lit ''cost_budget''] else [])"

definition decorate :: "RoutingPolicy \<Rightarrow> ModelResponse \<Rightarrow> route_attempt list \<Rightarrow> ProviderRecord \<Rightarrow> ModelRecord \<Rightarrow> router \<Rightarrow>
    ModelResponse \<times> router" where
  "decorate p r attempts provider m s =
     (let s1 = charge p m (rsp_usage r) s; exceeded = exceeded_budgets p s1;
          uncached = (\<lambda>pr. estimate_uncached pr (rsp_usage r)); cost = (\<lambda>pr. estimate pr (rsp_usage r))
      in (r\<lparr>rsp_route_attempts := attempts, rsp_selected_provider := Some (pr_provider_id provider),
            rsp_selected_model := Some (mr_model_id m), rsp_cost := map_option cost (mr_pricing m),
            rsp_uncached_cost := map_option uncached (mr_pricing m),
            rsp_cache_savings := map_option (\<lambda>pr. py_round 12 (uncached pr - cost pr)) (mr_pricing m),
            rsp_currency := map_option mp_currency (mr_pricing m), rsp_pricing_version := map_option mp_version (mr_pricing m),
            rsp_cumulative_usage := ru_usage s1,
            rsp_cumulative_cost := Option.bind (mr_pricing m) (\<lambda>pr. map_of (ru_costs s1) (mp_currency pr)),
            rsp_budget_exceeded := exceeded \<noteq> [],
            rsp_budget_reason := text_or (Some (join_with (lit '','') exceeded)) None Some\<rparr>, s1))"

text \<open>\<^verbatim>\<open>complete\<close>: nothing is shown before the answer. \<open>start\<close> is the clock when the call begins.\<close>

definition routed_complete :: "routing_env \<Rightarrow> (nat \<Rightarrow> model_call \<Rightarrow> ModelResponse reply) \<Rightarrow> real \<Rightarrow> ModelRequest \<Rightarrow> router \<Rightarrow>
    (routing_failure + ModelResponse) \<times> router" where
  "routed_complete env ask start q s =
     (case global_budget_error env s of
        Some e \<Rightarrow> (Inl (ProviderFailed e), s)
      | None \<Rightarrow>
          (case try_routes env q (\<lambda>n call. ([], ask n call)) (start + ar_deadline_seconds q) (route_sequence env q) [] None s of
             (Inl e, s1) \<Rightarrow> (Inl e, s1)
           | (Inr (r, attempts, provider, m), s1) \<Rightarrow>
               (case decorate (rn_policy env) r attempts provider m s1 of (r', s2) \<Rightarrow> (Inr r', s2))))"

text \<open>
  \<^verbatim>\<open>stream\<close>: a provider yields events and ends, refuses or blows up; a caller that closes the stream blows it
  up too. Completions are held back.
\<close>

datatype stream_outcome = StreamDone | StreamRefused ProviderError | StreamBlew pystr

definition shown_part :: "ModelEvent list \<Rightarrow> ModelEvent list" where
  "shown_part events = filter (\<lambda>e. me_kind e \<noteq> COMPLETION) events"

definition stream_reply :: "ModelEvent list \<times> stream_outcome \<Rightarrow> ModelEvent list \<times> ModelEvent list reply" where
  "stream_reply r =
     (shown_part (fst r),
      case snd r of StreamDone \<Rightarrow> Answered (fst r) | StreamRefused e \<Rightarrow> Refused e | StreamBlew x \<Rightarrow> Blew x)"

definition completion_of :: "ModelResponse \<Rightarrow> ModelEvent" where
  "completion_of r = completion_event\<lparr>me_finish_reason := rsp_finish_reason r, me_response_id := rsp_response_id r,
     me_transport_attempts := rsp_transport_attempts r, me_response := Some r\<rparr>"

definition routed_stream :: "routing_env \<Rightarrow> (nat \<Rightarrow> model_call \<Rightarrow> ModelEvent list \<times> stream_outcome) \<Rightarrow> real \<Rightarrow> ModelRequest \<Rightarrow> router \<Rightarrow>
    (routing_failure + ModelEvent) \<times> router" where
  "routed_stream env ask start q s =
     (case global_budget_error env s of
        Some e \<Rightarrow> (Inl (ProviderFailed e), s)
      | None \<Rightarrow>
          (case try_routes env q (\<lambda>n call. stream_reply (ask n call)) (start + ar_deadline_seconds q) (route_sequence env q) [] None s of
             (Inl e, s1) \<Rightarrow> (Inl e, s1)
           | (Inr (events, attempts, provider, m), s1) \<Rightarrow>
               (case accumulate_response (rn_ud env) events of
                  Inl e \<Rightarrow> (Inl (ProviderFailed e), s1)
                | Inr r \<Rightarrow>
                    (case decorate (rn_policy env) r attempts provider m s1 of
                       (r', s2) \<Rightarrow> (Inr (completion_of r'),
                         s2\<lparr>ru_shown := ru_shown s2 @ [(length (ru_calls s2) - 1, completion_of r')]\<rparr>)))))"

end
