(* ===== verification/RegistryProofs.thy ===== *)
theory RegistryProofs imports ProviderRegistry "HOL-Library.Multiset" begin

text \<open>
  The registry over any sequence of its operations: it stays consistent, every name of a model leads to that
  model, and a provider that was switched off is not selected before it is switched on again.
\<close>

datatype registry_op =
    RPutProvider ProviderRecord
  | RPutModel ModelRecord
  | RMapAlias pystr pystr pystr
  | RRemoveProvider pystr bool
  | RRemoveModel pystr pystr
  | RSetEnabled pystr bool
  | RSelect pystr pystr

fun registry_apply :: "registry_op \<Rightarrow> registry_file \<Rightarrow> registry_file" where
  "registry_apply (RPutProvider p) f = snd (put_provider p f)"
| "registry_apply (RPutModel m) f = snd (put_model m f)"
| "registry_apply (RMapAlias p a m) f = snd (map_alias p a m f)"
| "registry_apply (RRemoveProvider p c) f = snd (remove_provider p c f)"
| "registry_apply (RRemoveModel p n) f = snd (remove_model p n f)"
| "registry_apply (RSetEnabled p b) f = snd (set_provider_enabled p b f)"
| "registry_apply (RSelect p n) f = snd (select_model p n f)"

section \<open>Reading and writing\<close>

definition lists_ok :: "ProviderRecord list \<Rightarrow> ModelRecord list \<Rightarrow> bool" where
  "lists_ok ps ms \<longleftrightarrow> distinct (map pr_provider_id ps) \<and> (\<forall>m \<in> set ms. mr_provider_id m \<in> pr_provider_id ` set ps) \<and>
     distinct (concat (map model_names ms))"

lemma validated_iff: "validated ps ms = Inr x \<longleftrightarrow> lists_ok ps ms \<and> x = (map (\<lambda>p. (pr_provider_id p, p)) ps, ms)"
  by (auto simp: validated_def lists_ok_def list_all_iff)

definition registry_sound :: "registry_file \<Rightarrow> bool" where
  "registry_sound f \<longleftrightarrow> (case f of RegistryDoc d \<Rightarrow> lists_ok (rd_providers d) (rd_models d) \<and> selection_exists (rd_selected d) (rd_models d)
     | NoRegistry \<Rightarrow> True | BadRegistry \<Rightarrow> False)"

text \<open>What a successful reading returned.\<close>

definition view_of :: "registry_file \<Rightarrow> registry_view" where
  "view_of f = (case f of RegistryDoc d \<Rightarrow> \<lparr>rv_providers = map (\<lambda>p. (pr_provider_id p, p)) (rd_providers d),
       rv_models = rd_models d, rv_selected = rd_selected d\<rparr>
     | _ \<Rightarrow> \<lparr>rv_providers = [], rv_models = [], rv_selected = None\<rparr>)"

lemma load_state [simp]: "snd (registry_load f) = f"
  by (auto simp: registry_load_def split: registry_file.split sum.split)

lemma registry_load_Inr: "registry_load f = (Inr v, f') \<longleftrightarrow> registry_sound f \<and> v = view_of f \<and> f' = f"
  by (auto simp: registry_load_def registry_sound_def view_of_def validated_iff selection_exists_def
      split: registry_file.split sum.splits if_splits) (auto simp: validated_def lists_ok_def list_all_iff split: if_splits)

lemma load_cases: "registry_load f = (if registry_sound f then (Inr (view_of f), f) else (fst (registry_load f), f))"
  using registry_load_Inr load_state by (metis prod.collapse)

lemma sound_view: "registry_sound f \<Longrightarrow> lists_ok (map snd (rv_providers (view_of f))) (rv_models (view_of f)) \<and>
    selection_exists (rv_selected (view_of f)) (rv_models (view_of f))"
  by (auto simp: registry_sound_def view_of_def lists_ok_def selection_exists_def comp_def image_image split: registry_file.splits option.splits)

lemma mset_in_order [simp]: "mset (in_order ms) = mset ms"
  by (simp add: in_order_def)

lemma set_in_order [simp]: "set (in_order ms) = set ms"
  by (simp add: in_order_def)

lemma distinct_concat_mset: "mset xs = mset ys \<Longrightarrow> distinct (concat (map f xs)) \<longleftrightarrow> distinct (concat (map f ys))"
proof -
  assume "mset xs = mset ys"
  then have "image_mset (\<lambda>x. mset (f x)) (mset xs) = image_mset (\<lambda>x. mset (f x)) (mset ys)" by simp
  then have "mset (concat (map f xs)) = mset (concat (map f ys))"
    by (simp add: mset_concat comp_def flip: sum_mset_sum_list)
  then show ?thesis by (rule mset_eq_imp_distinct_iff)
qed

lemma sorted_ok: "lists_ok ps ms \<Longrightarrow> lists_ok (sort_key pr_provider_id ps) (in_order ms)"
  using distinct_concat_mset [OF mset_in_order, of model_names ms] by (simp add: lists_ok_def distinct_map)

lemma registry_save_Inr: "registry_save v f = (Inr x, f') \<longleftrightarrow>
    lists_ok (map snd (rv_providers v)) (rv_models v) \<and> selection_exists (rv_selected v) (rv_models v) \<and>
    f' = RegistryDoc \<lparr>rd_providers = sort_key pr_provider_id (map snd (rv_providers v)), rd_models = in_order (rv_models v),
       rd_selected = rv_selected v\<rparr>"
  by (auto simp: registry_save_def validated_iff comp_def split: sum.splits if_splits)
    (auto simp: validated_def lists_ok_def list_all_iff split: if_splits)

lemma registry_save_Inl: "registry_save v f = (Inl e, f') \<Longrightarrow> f' = f"
  by (auto simp: registry_save_def split: sum.splits if_splits)

lemma save_sound: "registry_save v f = (Inr x, f') \<Longrightarrow> registry_sound f'"
  using sorted_ok by (auto simp: registry_save_Inr registry_sound_def selection_exists_def split: option.splits)

text \<open>A provider that is out of service: not enabled, and not the one that is selected.\<close>

definition out_of_service :: "pystr \<Rightarrow> registry_view \<Rightarrow> bool" where
  "out_of_service p v \<longleftrightarrow> (case map_of (rv_providers v) p of None \<Rightarrow> True | Some r \<Rightarrow> \<not> pr_enabled r) \<and>
     (case rv_selected v of None \<Rightarrow> True | Some s \<Rightarrow> fst s \<noteq> p)"

lemma out_of_service_iff: "out_of_service p v \<longleftrightarrow> (\<forall>r. map_of (rv_providers v) p = Some r \<longrightarrow> \<not> pr_enabled r) \<and>
    (\<forall>s. rv_selected v = Some s \<longrightarrow> fst s \<noteq> p)"
  by (auto simp: out_of_service_def split: option.split)

lemma unselected_Some [simp]: "unselected p sel = Some s \<longleftrightarrow> sel = Some s \<and> fst s \<noteq> p"
  by (auto simp: unselected_def split: option.split)

definition rearms :: "pystr \<Rightarrow> registry_op \<Rightarrow> bool" where
  "rearms p op \<longleftrightarrow> (case op of RPutProvider r \<Rightarrow> pr_provider_id r = p \<and> pr_enabled r
     | RSetEnabled q b \<Rightarrow> q = p \<and> b | _ \<Rightarrow> False)"

lemma load_sound: "registry_sound f \<Longrightarrow> registry_load f = (Inr (view_of f), f)"
  by (simp add: registry_load_Inr)

lemma load_unsound: "\<not> registry_sound f \<Longrightarrow> \<exists>e. registry_load f = (Inl e, f)"
  by (metis registry_load_Inr load_state prod.collapse sum.exhaust)

lemma load_bind:
  "registry_sound f \<Longrightarrow> bindS registry_load k f = k (view_of f) f"
  "\<not> registry_sound f \<Longrightarrow> snd (bindS registry_load k f) = f"
  using load_sound load_unsound by (fastforce simp: bindS_def)+

lemma save_bind: "snd (bindS (registry_save v) (\<lambda>_. retS x) f) = f \<or>
    (\<exists>y. registry_save v f = (Inr y, snd (bindS (registry_save v) (\<lambda>_. retS x) f)))"
  by (cases "registry_save v f") (auto simp: bindS_def retS_def split: sum.split dest: registry_save_Inl)

text \<open>The model an answer is made of.\<close>

lemma model_of_cases:
  assumes "registry_sound f"
  obtains e where "model_of p n f = (Inl e, f)"
  | m where "model_of p n f = (Inr m, f)" "m \<in> set (rv_models (view_of f))" "mr_provider_id m = p"
      "mr_model_id m = n \<or> n \<in> set (mr_aliases m)"
proof -
  let ?xs = "filter (\<lambda>m. mr_model_id m = n \<or> n \<in> set (mr_aliases m)) (in_order (filter (\<lambda>m. p = mr_provider_id m) (rv_models (view_of f))))"
  have eq: "model_of p n f = (case ?xs of [] \<Rightarrow> raiseS (RegistryError ''model does not exist'') | [m] \<Rightarrow> retS m
      | _ \<Rightarrow> raiseS (RegistryError ''model alias is ambiguous'')) f"
    using assms by (simp add: model_of_def models_of_def load_bind bindS_def load_sound retS_def)
  consider "?xs = []" | m where "?xs = [m]" | a b c where "?xs = a # b # c" by (metis list.exhaust)
  then show ?thesis
  proof cases
    case (2 m)
    then have "m \<in> set ?xs" by simp
    then have "m \<in> set (rv_models (view_of f))" "mr_provider_id m = p" "mr_model_id m = n \<or> n \<in> set (mr_aliases m)" by auto
    with 2 eq show ?thesis by (intro that(2)) (simp_all add: retS_def)
  qed (use eq in \<open>auto simp: raiseS_def intro: that(1)\<close>)
qed

lemma model_of_unsound: "\<not> registry_sound f \<Longrightarrow> \<exists>e. model_of p n f = (Inl e, f)"
  using load_unsound [of f] by (auto simp: model_of_def models_of_def bindS_def)

lemma model_bind_unsound: "\<not> registry_sound f \<Longrightarrow> snd (bindS (model_of p n) k f) = f"
  using model_of_unsound [of f p n] by (auto simp: bindS_def)

abbreviation by_id :: "registry_view \<Rightarrow> bool" where
  "by_id v \<equiv> keyed pr_provider_id (\<lambda>_. True) (rv_providers v)"

lemma by_id_view: "registry_sound f \<Longrightarrow> by_id (view_of f)"
  by (auto simp: keyed_def view_of_def dict_ok_def registry_sound_def lists_ok_def comp_def split: registry_file.splits)

definition saved_from :: "registry_op \<Rightarrow> registry_file \<Rightarrow> registry_file \<Rightarrow> bool" where
  "saved_from op f f' \<longleftrightarrow> f' = f \<or> (\<exists>v x. registry_sound f \<and> by_id v \<and> registry_save v f = (Inr x, f') \<and>
     (\<forall>p. \<not> rearms p op \<and> out_of_service p (view_of f) \<longrightarrow> out_of_service p v))"

lemma saved_fromI: "registry_sound f \<Longrightarrow> by_id v \<Longrightarrow> (\<And>p. \<not> rearms p op \<Longrightarrow> out_of_service p (view_of f) \<Longrightarrow> out_of_service p v) \<Longrightarrow>
    saved_from op f (snd (bindS (registry_save v) (\<lambda>_. retS x) f))"
  using save_bind [of v x f] unfolding saved_from_def by blast

lemma saved_from_refl [simp]: "saved_from op f f"
  by (simp add: saved_from_def)

lemmas service_simps = out_of_service_iff rearms_def map_of_AList_update AList.delete_conv'

lemma apply_saves_unsound: "\<not> registry_sound f \<Longrightarrow> registry_apply op f = f"
  by (cases op) (simp_all add: put_provider_def put_model_def map_alias_def remove_provider_def remove_model_def
      set_provider_enabled_def select_model_def load_bind model_bind_unsound raiseS_def)

lemma saved_from_cond: "(c \<Longrightarrow> saved_from op f (snd (m f))) \<Longrightarrow> (\<not> c \<Longrightarrow> saved_from op f (snd (m' f))) \<Longrightarrow>
    saved_from op f (snd ((if c then m else m') f))"
  by simp

lemma apply_saves: "saved_from op f (registry_apply op f)"
proof (cases "registry_sound f")
  case True
  note b = load_bind(1) [OF True] and I = saved_fromI [OF True] and K = by_id_view [OF True]
  show ?thesis
  proof (cases op)
    case (RPutProvider r)
    show ?thesis unfolding RPutProvider registry_apply.simps put_provider_def b write_provider_def
      by (rule I) (use K in \<open>auto simp: service_simps split: if_splits\<close>)
  next
    case (RPutModel m)
    show ?thesis unfolding RPutModel registry_apply.simps put_model_def b write_model_def
      by (rule saved_from_cond, simp add: raiseS_def, rule I) (use K in \<open>simp_all add: service_simps\<close>)
  next
    case (RMapAlias p a m)
    let ?us = "map (moved_alias p a m) (rv_models (view_of f))"
    have "saved_from op f (snd (bindS (registry_save (view_of f\<lparr>rv_models := ms\<rparr>)) (\<lambda>_. retS x) f))" for ms x
      by (rule I) (use K in \<open>simp_all add: service_simps\<close>)
    then show ?thesis unfolding RMapAlias registry_apply.simps map_alias_def b Let_def
      by (auto simp: raiseS_def b split: list.split)
  next
    case (RRemoveProvider p c)
    show ?thesis
    proof (cases "map_of (rv_providers (view_of f)) p")
      case (Some r)
      show ?thesis unfolding RRemoveProvider registry_apply.simps remove_provider_def b Some option.case
        by (rule saved_from_cond, simp add: raiseS_def, rule I) (use K in \<open>auto simp: service_simps split: if_splits\<close>)
    qed (simp add: RRemoveProvider remove_provider_def b raiseS_def)
  next
    case (RSetEnabled p e)
    show ?thesis
    proof (cases "map_of (rv_providers (view_of f)) p")
      case (Some r)
      show ?thesis unfolding RSetEnabled registry_apply.simps set_provider_enabled_def b Some option.case Let_def
        by (rule I) (use K keyed_lookup [OF K Some] in \<open>auto simp: service_simps split: if_splits\<close>)
    qed (simp add: RSetEnabled set_provider_enabled_def b raiseS_def)
  next
    case (RRemoveModel p n)
    show ?thesis
    proof (cases rule: model_of_cases [OF True, of p n])
      case (2 m)
      show ?thesis unfolding RRemoveModel registry_apply.simps remove_model_def bindS_ok [where m = "model_of p n" and s = f, OF 2(1)] b
        by (rule I) (use K in \<open>auto simp: service_simps split: if_splits\<close>)
    qed (simp add: RRemoveModel remove_model_def bindS_err)
  next
    case (RSelect p n)
    show ?thesis
    proof (cases rule: model_of_cases [OF True, of p n])
      case (2 m)
      have "map_of (rv_providers (view_of f)) p \<noteq> None"
        using sound_view [OF True] 2(2,3) by (auto simp: lists_ok_def view_of_def map_of_eq_None_iff image_image split: registry_file.splits)
      with 2(3) show ?thesis unfolding RSelect registry_apply.simps select_model_def bindS_ok [where m = "model_of p n" and s = f, OF 2(1)] b
        by (intro saved_from_cond I) (use K in \<open>auto simp: raiseS_def service_simps model_key_def\<close>)
    qed (simp add: RSelect select_model_def bindS_err)
  qed
qed (simp add: apply_saves_unsound)

section \<open>Histories\<close>

definition registry_after :: "registry_op list \<Rightarrow> registry_file \<Rightarrow> registry_file" where
  "registry_after ops f = fold registry_apply ops f"

lemma sound_step: "registry_sound f \<Longrightarrow> registry_sound (registry_apply op f)"
  using apply_saves [of op f] save_sound unfolding saved_from_def by metis

lemma sound_after: "registry_sound f \<Longrightarrow> registry_sound (registry_after ops f)"
  unfolding registry_after_def by (induction ops arbitrary: f) (simp_all add: sound_step)

text \<open>The sorted lists of a saved document answer like the view it was saved from.\<close>

lemma saved_view: "registry_save v f = (Inr x, f') \<Longrightarrow> by_id v \<Longrightarrow> out_of_service p v \<Longrightarrow> out_of_service p (view_of f')"
proof -
  assume s: "registry_save v f = (Inr x, f')" and k: "by_id v" and o: "out_of_service p v"
  have "\<not> pr_enabled r" if "map_of (map (\<lambda>q. (pr_provider_id q, q)) (sort_key pr_provider_id (map snd (rv_providers v)))) p = Some r" for r
  proof -
    have "(p, r) \<in> set (rv_providers v)" using map_of_SomeD [OF that] k by (auto simp: keyed_def)
    then have "map_of (rv_providers v) p = Some r" using k by (auto simp: keyed_def dict_ok_def)
    then show ?thesis using o by (simp add: out_of_service_iff)
  qed
  then show ?thesis using s o by (auto simp: registry_save_Inr view_of_def out_of_service_iff)
qed

lemma service_step: "\<not> rearms p op \<Longrightarrow> out_of_service p (view_of f) \<Longrightarrow> out_of_service p (view_of (registry_apply op f))"
  using apply_saves [of op f] saved_view unfolding saved_from_def by metis

lemma service_after: "list_all (\<lambda>op. \<not> rearms p op) ops \<Longrightarrow> out_of_service p (view_of f) \<Longrightarrow>
    out_of_service p (view_of (registry_after ops f))"
  unfolding registry_after_def by (induction ops arbitrary: f) (simp_all add: service_step)

text \<open>What a sound registry answers about the name of one of its models.\<close>

lemma filter_single:
  assumes "distinct xs" "m \<in> set xs" "P m" "\<And>x. x \<in> set xs \<Longrightarrow> P x \<Longrightarrow> x = m"
  shows "filter P xs = [m]"
proof -
  obtain as bs where xs: "xs = as @ m # bs" using assms(2) by (auto simp: in_set_conv_decomp)
  have "\<not> P x" if "x \<in> set as \<union> set bs" for x using assms(1) assms(4) [of x] that xs by auto
  with xs assms(3) show ?thesis by (simp add: filter_empty_conv)
qed

lemma names_distinct: "distinct (concat (map model_names ms)) \<Longrightarrow> distinct ms"
proof (induction ms)
  case (Cons m ms)
  then have "set (model_names m) \<inter> set (concat (map model_names ms)) = {}" by simp
  moreover have "(mr_provider_id m, mr_model_id m) \<in> set (model_names m)" by (simp add: model_names_def)
  ultimately have "m \<notin> set ms" by auto
  with Cons show ?case by simp
qed simp

lemma names_inj: "distinct (concat (map f xs)) \<Longrightarrow> a \<in> set xs \<Longrightarrow> b \<in> set xs \<Longrightarrow> y \<in> set (f a) \<Longrightarrow> y \<in> set (f b) \<Longrightarrow> a = b"
  by (induction xs) auto

lemma model_found:
  assumes s: "registry_sound f" and m: "m \<in> set (rv_models (view_of f))" and n: "(p, n) \<in> set (model_names m)"
  shows "model_of p n f = (Inr m, f)"
proof -
  let ?ms = "in_order (filter (\<lambda>m. p = mr_provider_id m) (rv_models (view_of f)))"
  let ?P = "\<lambda>m. mr_model_id m = n \<or> n \<in> set (mr_aliases m)"
  have d: "distinct (concat (map model_names (rv_models (view_of f))))" using sound_view [OF s] by (simp add: lists_ok_def)
  have named: "mr_provider_id x = p \<and> ?P x \<longleftrightarrow> (p, n) \<in> set (model_names x)" for x by (auto simp: model_names_def)
  have "filter ?P ?ms = [m]"
  proof (rule filter_single)
    have "distinct (rv_models (view_of f))" using names_distinct [OF d] .
    then show "distinct ?ms" by (metis distinct_filter mset_eq_imp_distinct_iff mset_in_order)
    show "m \<in> set ?ms" "?P m" using m n named [of m] by auto
    show "x = m" if "x \<in> set ?ms" "?P x" for x
      using names_inj [OF d _ m _ n, of x] that named [of x] by auto
  qed
  then show ?thesis
    by (simp add: model_of_def models_of_def load_bind(1) [OF s] bindS_def load_sound [OF s] retS_def)
qed

lemma provider_exists:
  assumes "registry_sound f" "m \<in> set (rv_models (view_of f))"
  shows "map_of (rv_providers (view_of f)) (mr_provider_id m) \<noteq> None"
proof -
  have "mr_provider_id m \<in> pr_provider_id ` snd ` set (rv_providers (view_of f))"
    using sound_view [OF assms(1)] assms(2) by (simp add: lists_ok_def)
  then obtain e where "e \<in> set (rv_providers (view_of f))" "mr_provider_id m = pr_provider_id (snd e)" by blast
  moreover from this have "fst e = mr_provider_id m"
    using by_id_view [OF assms(1)] by (auto simp: keyed_def split_beta)
  ultimately have "mr_provider_id m \<in> fst ` set (rv_providers (view_of f))" by (intro image_eqI) simp_all
  then show ?thesis by (simp add: map_of_eq_None_iff)
qed

lemma selection_found:
  assumes "registry_sound f" "rv_selected (view_of f) = Some k"
  obtains m where "m \<in> set (rv_models (view_of f))" "model_key m = k" "fst (selected_model f) = Inr (Some m)"
proof -
  have "\<exists>m \<in> set (rv_models (view_of f)). model_key m = k"
    using sound_view [OF assms(1)] assms(2) by (auto simp: selection_exists_def)
  then have "List.find (\<lambda>m. model_key m = k) (rv_models (view_of f)) \<noteq> None" by (auto simp: find_None_iff)
  then obtain m where m: "List.find (\<lambda>m. model_key m = k) (rv_models (view_of f)) = Some m" by blast
  have "fst (selected_model f) = Inr (Some m)"
    unfolding selected_model_def load_bind(1) [OF assms(1)] assms(2) option.case m by (simp add: retS_def)
  moreover have "m \<in> set (rv_models (view_of f))" "model_key m = k" using m by (auto simp: find_Some_iff)
  ultimately show ?thesis using that by blast
qed

text \<open>A sample: two providers with one model each, of which the selected one is switched off.\<close>

definition sample_provider :: "string \<Rightarrow> ProviderRecord" where
  "sample_provider n = \<lparr>pr_provider_id = lit n, pr_adapter_kind = lit ''openai_responses'', pr_base_url = [], pr_credential_ref = None,
     pr_headers = [], pr_query = [], pr_privacy_class = lit ''public'', pr_timeout_seconds = 60, pr_max_transport_retries = 2,
     pr_enabled = True, pr_bypass = False\<rparr>"

definition sample_registry :: registry_file where
  "sample_registry = RegistryDoc \<lparr>rd_providers = [sample_provider ''a'', sample_provider ''b''],
     rd_models = [alias_only_model (lit ''a'') (lit ''x'') (lit ''m''), alias_only_model (lit ''b'') (lit ''x'') (lit ''m'')],
     rd_selected = Some (lit ''a'', lit ''m'')\<rparr>"

definition sample_registry_ops :: "registry_op list" where
  "sample_registry_ops = [RSelect (lit ''a'') (lit ''m''), RSelect (lit ''b'') (lit ''x'')]"

definition sample_building_ops :: "registry_op list" where
  "sample_building_ops = [RPutProvider (sample_provider ''a''), RMapAlias (lit ''a'') (lit ''x'') (lit ''m''),
     RSelect (lit ''a'') (lit ''x'')]"

lemmas sample_registry_simps = sample_registry_def sample_provider_def sample_registry_ops_def alias_only_model_def lit_def

text \<open>C23. 
  Whatever is registered, removed, renamed, selected or switched off, in any order and with any input: the
  registry can always be read again, every model belongs to a registered provider, each of its names leads
  to this model and no other, and the selected model is there.
\<close>
theorem registry_stays_consistent:
  "\<exists>v. registry_load (registry_after ops NoRegistry) = (Inr v, registry_after ops NoRegistry) \<and>
    (\<forall>m \<in> set (rv_models v). map_of (rv_providers v) (mr_provider_id m) \<noteq> None \<and>
       (\<forall>(p, n) \<in> set (model_names m). fst (model_of p n (registry_after ops NoRegistry)) = Inr m)) \<and>
    (\<forall>s. rv_selected v = Some s \<longrightarrow>
       (\<exists>m \<in> set (rv_models v). model_key m = s \<and> fst (selected_model (registry_after ops NoRegistry)) = Inr (Some m)))"
proof -
  let ?f = "registry_after ops NoRegistry"
  have s: "registry_sound ?f" by (rule sound_after) (simp add: registry_sound_def)
  show ?thesis
  proof (intro exI [of _ "view_of ?f"] conjI ballI allI impI)
    show "registry_load ?f = (Inr (view_of ?f), ?f)" by (rule load_sound [OF s])
    fix m assume m: "m \<in> set (rv_models (view_of ?f))"
    show "map_of (rv_providers (view_of ?f)) (mr_provider_id m) \<noteq> None" by (rule provider_exists [OF s m])
    show "case e of (p, n) \<Rightarrow> fst (model_of p n ?f) = Inr m" if "e \<in> set (model_names m)" for e
      using model_found [OF s m] that by (cases e) simp
  next
    fix k assume "rv_selected (view_of ?f) = Some k"
    from selection_found [OF s this]
    show "\<exists>m \<in> set (rv_models (view_of ?f)). model_key m = k \<and> fst (selected_model ?f) = Inr (Some m)" by blast
  qed
qed

theorem registry_stays_consistent_witness:
  "\<exists>m. fst (selected_model (registry_after sample_building_ops NoRegistry)) = Inr (Some m) \<and>
     (\<exists>v. fst (registry_load (registry_after sample_building_ops NoRegistry)) = Inr v \<and> rv_models v = [m] \<and>
        map_of (rv_providers v) (mr_provider_id m) \<noteq> None \<and>
        fst (model_of (lit ''a'') (lit ''x'') (registry_after sample_building_ops NoRegistry)) = Inr m)"
proof -
  let ?f = "registry_after sample_building_ops NoRegistry"
  let ?m = "alias_only_model (lit ''a'') (lit ''x'') (lit ''m'')"
  obtain v where v: "registry_load ?f = (Inr v, ?f)"
    and each: "\<forall>m \<in> set (rv_models v). map_of (rv_providers v) (mr_provider_id m) \<noteq> None \<and>
       (\<forall>(p, n) \<in> set (model_names m). fst (model_of p n ?f) = Inr m)"
    and sel: "\<forall>s. rv_selected v = Some s \<longrightarrow>
       (\<exists>m \<in> set (rv_models v). model_key m = s \<and> fst (selected_model ?f) = Inr (Some m))"
    using registry_stays_consistent [of sample_building_ops] by blast
  have "map_sum id (\<lambda>v. (rv_models v, rv_selected v)) (fst (registry_load ?f)) = Inr ([?m], Some (lit ''a'', lit ''m''))"
    by code_simp
  then have m: "rv_models v = [?m]" "rv_selected v = Some (lit ''a'', lit ''m'')" using v by simp_all
  have "(lit ''a'', lit ''x'') \<in> set (model_names ?m)" by (simp add: model_names_def alias_only_model_def)
  with v each sel m show ?thesis by (intro exI [of _ ?m]) auto
qed

text \<open>C24. 
  A provider that was switched off is never the selection again, whatever else happens to the registry,
  until somebody switches it on or registers it anew as enabled.
\<close>
theorem switched_off_is_never_selected:
  assumes "fst (set_provider_enabled p False f) = Inr r"
    and "list_all (\<lambda>op. \<not> rearms p op) ops"
    and "fst (selected_model (registry_after ops (snd (set_provider_enabled p False f)))) = Inr (Some m)"
  shows "mr_provider_id m \<noteq> p"
proof -
  let ?f = "snd (set_provider_enabled p False f)"
  have "out_of_service p (view_of ?f)"
  proof -
    have s: "registry_sound f" using assms(1) load_unsound [of f] by (cases "registry_sound f") (auto simp: set_provider_enabled_def bindS_def)
    obtain q where q: "map_of (rv_providers (view_of f)) p = Some q"
      using assms(1) by (auto simp: set_provider_enabled_def load_bind(1) [OF s] raiseS_def split: option.splits)
    let ?v = "view_of f\<lparr>rv_providers := AList.update p (q\<lparr>pr_enabled := False\<rparr>) (rv_providers (view_of f)),
      rv_selected := unselected p (rv_selected (view_of f))\<rparr>"
    have "by_id ?v" using by_id_view [OF s] keyed_lookup [OF by_id_view [OF s] q] by auto
    moreover have "out_of_service p ?v" by (simp add: service_simps)
    moreover have "set_provider_enabled p False f = bindS (registry_save ?v) (\<lambda>_. retS (q\<lparr>pr_enabled := False\<rparr>)) f"
      by (simp add: set_provider_enabled_def load_bind(1) [OF s] q Let_def)
    then have "registry_save ?v f = (Inr (), ?f)"
      using assms(1) by (cases "registry_save ?v f") (auto simp: bindS_def retS_def split: sum.splits)
    ultimately show ?thesis using saved_view by blast
  qed
  then have o: "out_of_service p (view_of (registry_after ops ?f))" by (rule service_after [OF assms(2)])
  have s: "registry_sound (registry_after ops ?f)"
    using assms(3) load_unsound by (cases "registry_sound (registry_after ops ?f)") (fastforce simp: selected_model_def bindS_def)+
  show ?thesis
    using assms(3) o unfolding selected_model_def load_bind(1) [OF s]
    by (auto simp: retS_def raiseS_def find_Some_iff out_of_service_iff model_key_def split: option.splits)
qed

theorem switched_off_is_never_selected_witness:
  "fst (selected_model (registry_after sample_registry_ops (snd (set_provider_enabled (lit ''a'') False sample_registry)))) =
     Inr (Some (alias_only_model (lit ''b'') (lit ''x'') (lit ''m''))) \<and> mr_provider_id (alias_only_model (lit ''b'') (lit ''x'') (lit ''m'')) \<noteq> lit ''a''"
proof -
  have on: "fst (set_provider_enabled (lit ''a'') False sample_registry) = Inr (sample_provider ''a''\<lparr>pr_enabled := False\<rparr>)"
    by code_simp
  have calm: "list_all (\<lambda>op. \<not> rearms (lit ''a'') op) sample_registry_ops" by code_simp
  have "fst (selected_model (registry_after sample_registry_ops (snd (set_provider_enabled (lit ''a'') False sample_registry)))) =
     Inr (Some (alias_only_model (lit ''b'') (lit ''x'') (lit ''m'')))"
    by code_simp
  with switched_off_is_never_selected [OF on calm this] show ?thesis by simp
qed

section \<open>A stale write\<close>

text \<open>
  Nothing locks the document between reading and writing it. A model stored by a process that read the
  registry before another one switched a provider off switches it on again.
\<close>

lemma stale_write_rearms:
  assumes "registry_sound f" "map_of (rv_providers (view_of f)) p = Some r" "pr_enabled r"
    and "write_model m (view_of f) (snd (set_provider_enabled p False f)) = (Inr x, f')"
  shows "\<exists>q. fst (provider_of p f') = Inr q \<and> pr_enabled q"
proof -
  have s: "registry_save (view_of f\<lparr>rv_models := filter (\<lambda>x. model_key x \<noteq> model_key m) (rv_models (view_of f)) @ [m]\<rparr>)
      (snd (set_provider_enabled p False f)) = (Inr (), f')"
    using assms(4) by (auto simp: write_model_def bindS_Inr retS_def raiseS_def split: if_splits)
  then have snd': "registry_sound f'" by (rule save_sound)
  have "map_of (rv_providers (view_of f')) p = Some r"
  proof -
    have "(p, r) \<in> set (rv_providers (view_of f))" "pr_provider_id r = p"
      using assms(2) keyed_lookup [OF by_id_view [OF assms(1)] assms(2)] by (auto dest: map_of_SomeD)
    then have "(p, r) \<in> set (rv_providers (view_of f'))" using s by (force simp: registry_save_Inr view_of_def)
    then show ?thesis using by_id_view [OF snd'] by (auto simp: keyed_def dict_ok_def)
  qed
  then show ?thesis using assms(3) by (simp add: provider_of_def load_bind(1) [OF snd'] retS_def)
qed

end
