(* ===== verification/RoutingProofs.thy ===== *)
theory RoutingProofs imports ModelRouting RegistryProofs begin

text \<open>
  What routing guarantees: which calls are made, what a caller sees of them, that blocking and streamed
  calls take the same course, and that a working route is found.
\<close>

section \<open>One route\<close>

text \<open>The attempts of one route: their number, what was shown, and the reply that ended them.\<close>

lemma ask_effects:
  assumes "ask_route env ask deadline call k s = ((r, k', em), s')"
  shows "\<exists>n. ru_calls s' = ru_calls s @ replicate (Suc n) call \<and> k' = k + n \<and>
    (n = 0 \<or> k + n < ry_max_attempts (rp_retry (rn_policy env))) \<and>
    ru_usage s' = ru_usage s \<and> ru_costs s' = ru_costs s \<and>
    ask (length (ru_calls s) + n) call = (fst (ask (length (ru_calls s) + n) call), r) \<and>
    em = (fst (ask (length (ru_calls s) + n) call) \<noteq> []) \<and>
    ru_shown s' = ru_shown s @ map (Pair (length (ru_calls s) + n)) (fst (ask (length (ru_calls s) + n) call))"
  using assms
proof (induction env ask deadline call k s rule: ask_route.induct)
  case (1 env ask deadline call k s)
  let ?n = "length (ru_calls s)"
  obtain shown reply where a: "ask ?n call = (shown, reply)" by fastforce
  let ?s1 = "s\<lparr>ru_calls := ru_calls s @ [call], ru_shown := ru_shown s @ map (Pair ?n) shown\<rparr>"
  show ?case
  proof (cases "\<exists>e d. reply = Refused e \<and> shown = [] \<and> retry_delay env e (k + 1) deadline (Suc ?n) = Some d")
    case True
    then obtain e d where t: "reply = Refused e" "shown = []" "retry_delay env e (k + 1) deadline (Suc ?n) = Some d" by blast
    let ?s2 = "?s1\<lparr>ru_slept := ru_slept s @ [d]\<rparr>"
    have rec: "ask_route env ask deadline call (k + 1) ?s2 = ((r, k', em), s')"
      using 1(2) t a by (simp add: ask_route.simps [of env ask deadline call k s] Let_def)
    have "\<exists>n. ru_calls s' = ru_calls ?s2 @ replicate (Suc n) call \<and> k' = k + 1 + n \<and>
      (n = 0 \<or> k + 1 + n < ry_max_attempts (rp_retry (rn_policy env))) \<and>
      ru_usage s' = ru_usage ?s2 \<and> ru_costs s' = ru_costs ?s2 \<and>
      ask (length (ru_calls ?s2) + n) call = (fst (ask (length (ru_calls ?s2) + n) call), r) \<and>
      em = (fst (ask (length (ru_calls ?s2) + n) call) \<noteq> []) \<and>
      ru_shown s' = ru_shown ?s2 @ map (Pair (length (ru_calls ?s2) + n)) (fst (ask (length (ru_calls ?s2) + n) call))"
      by (rule "1.IH" [OF refl refl a [symmetric] refl t(1) _ rec]) (use t in simp)
    then obtain n where "ru_calls s' = ru_calls ?s2 @ replicate (Suc n) call \<and> k' = k + 1 + n \<and>
      (n = 0 \<or> k + 1 + n < ry_max_attempts (rp_retry (rn_policy env))) \<and>
      ru_usage s' = ru_usage ?s2 \<and> ru_costs s' = ru_costs ?s2 \<and>
      ask (length (ru_calls ?s2) + n) call = (fst (ask (length (ru_calls ?s2) + n) call), r) \<and>
      em = (fst (ask (length (ru_calls ?s2) + n) call) \<noteq> []) \<and>
      ru_shown s' = ru_shown ?s2 @ map (Pair (length (ru_calls ?s2) + n)) (fst (ask (length (ru_calls ?s2) + n) call))" ..
    then show ?thesis using retry_bounded [OF t(3)] t(2) by (intro exI [of _ "Suc n"]) auto
  next
    case False
    then have "((r, k', em), s') = ((reply, k, shown \<noteq> []), ?s1)"
      using 1(2) a by (auto simp: ask_route.simps [of env ask deadline call k s] Let_def split: reply.splits if_splits option.splits)
    then show ?thesis using a by (intro exI [of _ 0]) simp
  qed
qed

section \<open>All routes\<close>

definition permitted :: "routing_env \<Rightarrow> ModelRequest \<Rightarrow> (nat \<times> RouteTarget) list \<Rightarrow> model_call \<Rightarrow> bool" where
  "permitted env q routes call \<longleftrightarrow> (\<exists>i t provider m. (i, t) \<in> set routes \<and> preflight env t q = Inr (provider, m) \<and>
     call = (i, pr_provider_id provider, mr_model_id m, routed_output q m))"

abbreviation max_attempts :: "routing_env \<Rightarrow> nat" where
  "max_attempts env \<equiv> max 1 (ry_max_attempts (rp_retry (rn_policy env)))"

abbreviation asked :: "nat \<Rightarrow> (nat \<times> 'a) list \<Rightarrow> nat" where
  "asked i calls \<equiv> length (filter (\<lambda>c. fst c = i) calls)"

lemma asked_same: "\<forall>c\<in>set calls. fst c = i \<Longrightarrow> asked j calls = (if i = j then length calls else 0)"
  by (induction calls) auto

lemma permitted_Cons: "permitted env q routes c \<Longrightarrow> permitted env q (r # routes) c"
  unfolding permitted_def by (metis list.set_intros(2))

text \<open>What trying routes did: the calls, the last of which alone may have shown anything.\<close>

definition tried :: "routing_env \<Rightarrow> ModelRequest \<Rightarrow> (nat \<Rightarrow> model_call \<Rightarrow> ModelEvent list \<times> 'r reply) \<Rightarrow> (nat \<times> RouteTarget) list \<Rightarrow>
    router \<Rightarrow> model_call list \<Rightarrow> router \<Rightarrow> bool" where
  "tried env q ask routes s calls s' \<longleftrightarrow> ru_calls s' = ru_calls s @ calls \<and> list_all (permitted env q routes) calls \<and>
     length calls \<le> max_attempts env * length routes \<and> (\<forall>i. asked i calls \<le> max_attempts env * asked i routes) \<and> ru_usage s' = ru_usage s \<and> ru_costs s' = ru_costs s \<and>
     ru_shown s' = ru_shown s @ (if calls = [] then [] else
       map (Pair (length (ru_calls s') - 1)) (fst (ask (length (ru_calls s') - 1) (last calls))))"

lemma tried_weaken: "tried env q ask routes s c s' \<Longrightarrow> tried env q ask (r # routes) s c s'"
  by (auto simp: tried_def permitted_Cons list_all_iff intro: trans_le_add2)

lemma tried_nothing: "tried env q ask routes s [] s"
  by (simp add: tried_def)

lemma tried_then:
  assumes "tried env q ask (r # routes) s c1 s1" "length c1 \<le> max_attempts env" "ru_shown s1 = ru_shown s" "\<forall>c\<in>set c1. fst c = fst r"
    and "tried env q ask routes s1 c2 s'"
  shows "tried env q ask (r # routes) s (c1 @ c2) s'"
proof -
  have "asked i (c1 @ c2) \<le> max_attempts env * asked i (r # routes)" for i
  proof -
    have "asked i c2 \<le> max_attempts env * asked i routes" using assms(5) unfolding tried_def by blast
    with assms(2) asked_same [OF assms(4), of i] show ?thesis by auto
  qed
  moreover have "length (c1 @ c2) \<le> max_attempts env * length (r # routes)"
    using assms(2,5) by (simp add: tried_def)
  ultimately show ?thesis
    using assms(1,3,5) by (cases "c2 = []") (auto simp: tried_def permitted_Cons list_all_iff simp del: filter_append)
qed

lemma route_tried:
  assumes "preflight env t q = Inr (provider, m)" "call = (i, pr_provider_id provider, mr_model_id m, routed_output q m)"
    and "ask_route env ask deadline call 0 s = ((r, k, em), s1)"
  obtains calls where "tried env q ask ((i, t) # routes) s calls s1" "length calls \<le> max_attempts env" "calls \<noteq> []"
    "snd (ask (length (ru_calls s1) - 1) (last calls)) = r" "\<not> em \<Longrightarrow> ru_shown s1 = ru_shown s" "\<forall>c\<in>set calls. fst c = i"
proof -
  from ask_effects [OF assms(3)] obtain n where n: "ru_calls s1 = ru_calls s @ replicate (Suc n) call"
    "n = 0 \<or> n < ry_max_attempts (rp_retry (rn_policy env))" "ru_usage s1 = ru_usage s" "ru_costs s1 = ru_costs s"
    "ask (length (ru_calls s) + n) call = (fst (ask (length (ru_calls s) + n) call), r)"
    "em = (fst (ask (length (ru_calls s) + n) call) \<noteq> [])"
    "ru_shown s1 = ru_shown s @ map (Pair (length (ru_calls s) + n)) (fst (ask (length (ru_calls s) + n) call))" by auto
  have len: "length (ru_calls s1) - 1 = length (ru_calls s) + n" "last (replicate (Suc n) call) = call" using n(1) by simp_all
  have "permitted env q ((i, t) # routes) call" using assms(1,2) by (auto simp: permitted_def)
  moreover have b: "length (replicate (Suc n) call) \<le> max_attempts env" using n(2) by auto
  moreover have own: "\<forall>c\<in>set (replicate (Suc n) call). fst c = i" using assms(2) by simp
  moreover have "asked j (replicate (Suc n) call) \<le> max_attempts env * asked j ((i, t) # routes)" for j
    using asked_same [OF own, of j] b by auto
  ultimately have "tried env q ask ((i, t) # routes) s (replicate (Suc n) call) s1"
    using n(1,3,4,7) len by (simp add: tried_def list_all_iff)
  moreover have "snd (ask (length (ru_calls s1) - 1) (last (replicate (Suc n) call))) = r"
    using n(5) unfolding len by (metis snd_conv)
  moreover have "ru_shown s1 = ru_shown s" if "\<not> em" using that n(6,7) by simp
  ultimately show ?thesis using b own by (intro that [of "replicate (Suc n) call"]) simp_all
qed

definition answers :: "(nat \<Rightarrow> model_call \<Rightarrow> ModelEvent list \<times> 'r reply) \<Rightarrow> model_call list \<Rightarrow> router \<Rightarrow>
    routing_failure + 'r \<times> route_attempt list \<times> ProviderRecord \<times> ModelRecord \<Rightarrow> bool" where
  "answers ask calls s' res \<longleftrightarrow> (case res of Inl _ \<Rightarrow> True
     | Inr (r, _) \<Rightarrow> calls \<noteq> [] \<and> snd (ask (length (ru_calls s') - 1) (last calls)) = Answered r)"

lemma try_effects:
  "try_routes env q ask deadline routes attempts rejection s = (res, s') \<Longrightarrow>
    \<exists>calls. tried env q ask routes s calls s' \<and> answers ask calls s' res"
proof (induction env q ask deadline routes attempts rejection s rule: try_routes.induct)
  case (1 env q ask deadline attempts rejection s)
  then show ?case by (intro exI [of _ "[]"]) (auto simp: tried_nothing answers_def split: option.splits)
next
  case (2 env q ask deadline i t routes attempts rejection s)
  show ?case
  proof (cases "preflight env t q")
    case (Inl f)
    show ?thesis
    proof (cases f)
      case (ProviderFailed e)
      then have "try_routes env q ask deadline routes (attempts @ [attempt_entry i t None ''rejected'' (Some e) 0]) (Some e) s = (res, s')"
        using 2(3) Inl by simp
      from 2(1) [OF Inl ProviderFailed this] tried_weaken show ?thesis by blast
    qed (use 2(3) Inl tried_nothing in \<open>auto simp: answers_def intro!: exI [of _ "[]"]\<close>)
  next
    case (Inr pm)
    obtain provider m where pm: "pm = (provider, m)" by (cases pm)
    let ?call = "(i, pr_provider_id provider, mr_model_id m, routed_output q m)"
    obtain r k em s1 where a: "ask_route env ask deadline ?call 0 s = ((r, k, em), s1)" by (metis prod_cases3 surj_pair)
    obtain c1 where c1: "tried env q ask ((i, t) # routes) s c1 s1" "length c1 \<le> max_attempts env" "c1 \<noteq> []"
      "snd (ask (length (ru_calls s1) - 1) (last c1)) = r" "\<not> em \<Longrightarrow> ru_shown s1 = ru_shown s"
      "\<forall>c\<in>set c1. fst c = fst (i, t)"
      by (rule route_tried [OF Inr [unfolded pm] refl a, of routes]) simp
    show ?thesis
    proof (cases r)
      case (Answered x)
      then have "s' = s1 \<and> (\<exists>y. res = Inr (x, y))" using 2(3) Inr pm a by auto
      with c1 Answered show ?thesis by (auto simp: answers_def)
    next
      case (Blew x)
      then have "s' = s1 \<and> (\<exists>y. res = Inl y)" using 2(3) Inr pm a by auto
      with c1 show ?thesis by (auto simp: answers_def)
    next
      case (Refused e)
      let ?fb = "\<not> em \<and> ke_kind e \<in> set FALLBACK_ERRORS \<and> i + 1 < length (rp_routes (rn_policy env))"
      show ?thesis
      proof (cases ?fb)
        case False
        then have "s' = s1 \<and> (\<exists>y. res = Inl y)" using 2(3) Inr pm a Refused by (auto simp: Let_def split: if_splits)
        with c1 show ?thesis by (auto simp: answers_def)
      next
        case True
        then have rest: "try_routes env q ask deadline routes (attempts @ [attempt_entry i t (Some (mr_model_id m)) ''fallback'' (Some e) k])
            rejection s1 = (res, s')"
          using 2(3) Inr pm a Refused by (simp add: Let_def)
        have "\<exists>c. tried env q ask routes s1 c s' \<and> answers ask c s' res"
          by (rule 2(2) [OF Inr pm [symmetric] a [symmetric] refl Refused refl refl refl True]) (use rest True in simp)
        then obtain c2 where "tried env q ask routes s1 c2 s'" "answers ask c2 s' res" by blast
        with tried_then [OF c1(1,2) c1(5) c1(6)] True show ?thesis
          by (intro exI [of _ "c1 @ c2"]) (auto simp: answers_def split: sum.splits)
      qed
    qed
  qed
qed

section \<open>Calls\<close>

lemma sequence_routes: "mset (route_sequence env q) = mset (List.enumerate 0 (rp_routes (rn_policy env)))"
proof -
  have "mset (map snd (sort_key fst (zip (map snd scores) xs))) = mset xs"
    if "length scores = length xs" for scores :: "(pystr \<times> real) list" and xs :: "(nat \<times> RouteTarget) list"
  proof -
    have "mset (map snd (sort_key fst (zip (map snd scores) xs))) = mset (map snd (zip (map snd scores) xs))" by simp
    then show ?thesis using that by simp
  qed
  then show ?thesis by (auto simp: route_sequence_def Let_def dest: all_some_length split: option.split)
qed

lemma sequence_nth: "(i, t) \<in> set (route_sequence env q) \<Longrightarrow> i < length (rp_routes (rn_policy env)) \<and> t = rp_routes (rn_policy env) ! i"
  using mset_eq_setD [OF sequence_routes [of env q]] by (auto simp: in_set_enumerate_eq)

lemma sequence_length: "length (route_sequence env q) = length (rp_routes (rn_policy env))"
  using mset_eq_length [OF sequence_routes [of env q]] by simp

lemma decorate_keeps [simp]:
  "ru_calls (snd (decorate p r att provider m s)) = ru_calls s" "ru_shown (snd (decorate p r att provider m s)) = ru_shown s"
  by (simp_all add: decorate_def charge_def Let_def split: option.split)

text \<open>The rules a call was made under.\<close>

definition lawful :: "routing_env \<Rightarrow> ModelRequest \<Rightarrow> model_call \<Rightarrow> bool" where
  "lawful env q call \<longleftrightarrow>
     (let p = rn_policy env
      in \<exists>i < length (rp_routes p). \<exists>provider m.
           fst (provider_of (tg_provider_id (rp_routes p ! i)) (rn_registry env)) = Inr provider \<and>
           fst (model_of (tg_provider_id (rp_routes p ! i)) (tg_model (rp_routes p ! i)) (rn_registry env)) = Inr m \<and>
           call = (i, pr_provider_id provider, mr_model_id m, routed_output q m) \<and>
           privacy_rank (pr_privacy_class provider) \<le> privacy_rank (rp_privacy_limit p) \<and>
           (ar_tools q \<noteq> [] \<and> rp_require_tools p \<longrightarrow> mr_tools m = lit ''true'') \<and>
           (rp_require_streaming p \<longrightarrow> mr_streaming m = lit ''true'') \<and>
           (rp_max_cost p \<noteq> None \<longrightarrow> (\<exists>pr. mr_pricing m = Some pr \<and> Some (mp_currency pr) = rp_currency p)))"

lemma permitted_lawful: "permitted env q (route_sequence env q) c \<Longrightarrow> lawful env q c"
proof -
  assume "permitted env q (route_sequence env q) c"
  then obtain i t provider m where c: "(i, t) \<in> set (route_sequence env q)" "preflight env t q = Inr (provider, m)"
    "c = (i, pr_provider_id provider, mr_model_id m, routed_output q m)" by (auto simp: permitted_def)
  from c(2) have "fst (provider_of (tg_provider_id t) (rn_registry env)) = Inr provider"
    "fst (model_of (tg_provider_id t) (tg_model t) (rn_registry env)) = Inr m" "preflight_error env q provider m = None"
    by (auto simp: preflight_def split: sum.splits option.splits)
  moreover from this(3) have "privacy_rank (pr_privacy_class provider) \<le> privacy_rank (rp_privacy_limit (rn_policy env))"
    "ar_tools q \<noteq> [] \<and> rp_require_tools (rn_policy env) \<longrightarrow> mr_tools m = lit ''true''"
    "rp_require_streaming (rn_policy env) \<longrightarrow> mr_streaming m = lit ''true''"
    "rp_max_cost (rn_policy env) \<noteq> None \<longrightarrow> (\<exists>pr. mr_pricing m = Some pr \<and> Some (mp_currency pr) = rp_currency (rn_policy env))"
    by (auto simp: preflight_error_def Let_def split: if_splits)
  ultimately show ?thesis unfolding lawful_def Let_def using c(3) sequence_nth [OF c(1)] by blast
qed

text \<open>Routes are asked in some order, each one once at most.\<close>

lemma once_in_order:
  assumes "mset routes = mset (List.enumerate n xs)"
  shows "asked i routes \<le> 1"
proof -
  have "asked i (List.enumerate n xs) \<le> 1" for n :: nat and xs :: "'a list"
  proof (induction xs arbitrary: n)
    case (Cons x xs)
    have "asked n (List.enumerate (Suc n) xs) = 0" by (auto simp: filter_empty_conv in_set_enumerate_eq)
    then show ?case using Cons [of "Suc n"] by (cases "n = i") (simp, simp del: One_nat_def)
  qed simp
  moreover have "asked i routes = asked i (List.enumerate n xs)"
    using assms by (metis mset_filter size_mset)
  ultimately show ?thesis by simp
qed

text \<open>A blocking or a streamed call, and the router it leaves.\<close>

inductive routed :: "routing_env \<Rightarrow> ModelRequest \<Rightarrow> router \<Rightarrow> router \<Rightarrow> bool" for env q where
  blocking: "routed env q s (snd (routed_complete env ask start q s))"
| streamed_call: "routed env q s (snd (routed_stream env ask' start q s))"

lemma routed_calls:
  assumes "routed env q s s'"
  shows "\<exists>calls. ru_calls s' = ru_calls s @ calls \<and> list_all (lawful env q) calls \<and>
    length calls \<le> max_attempts env * length (rp_routes (rn_policy env)) \<and> (\<forall>i. asked i calls \<le> max_attempts env) \<and>
    (calls \<noteq> [] \<longrightarrow> global_budget_error env s = None)"
proof -
  have via: "\<exists>calls. ru_calls s1 = ru_calls s @ calls \<and> list_all (lawful env q) calls \<and>
      length calls \<le> max_attempts env * length (rp_routes (rn_policy env)) \<and> (\<forall>i. asked i calls \<le> max_attempts env)"
    if "try_routes env q ask deadline (route_sequence env q) [] None s = (res, s1)" for ask :: "nat \<Rightarrow> model_call \<Rightarrow> ModelEvent list \<times> 'r reply" and deadline res s1
  proof -
    from try_effects [OF that] obtain calls where c: "tried env q ask (route_sequence env q) s calls s1" by blast
    have "asked i calls \<le> max_attempts env" for i
    proof -
      have "asked i calls \<le> max_attempts env * asked i (route_sequence env q)" using c by (simp add: tried_def)
      also have "\<dots> \<le> max_attempts env * 1" by (rule mult_le_mono2) (rule once_in_order [OF sequence_routes])
      finally show ?thesis by simp
    qed
    with c permitted_lawful show ?thesis by (intro exI [of _ calls]) (simp add: tried_def sequence_length list_all_iff)
  qed
  show ?thesis using assms
  proof cases
    case (blocking ask start)
    show ?thesis
    proof (cases "global_budget_error env s")
      case None
      obtain res s1 where t: "try_routes env q (\<lambda>n call. ([], ask n call)) (start + ar_deadline_seconds q) (route_sequence env q) [] None s = (res, s1)"
        by fastforce
      have "ru_calls s' = ru_calls s1" using blocking None t
        by (cases res) (auto simp: routed_complete_def split_beta)
      with via [OF t] None show ?thesis by simp
    qed (use blocking in \<open>auto simp: routed_complete_def\<close>)
  next
    case (streamed_call ask start)
    show ?thesis
    proof (cases "global_budget_error env s")
      case None
      obtain res s1 where t: "try_routes env q (\<lambda>n call. stream_reply (ask n call)) (start + ar_deadline_seconds q) (route_sequence env q) [] None s = (res, s1)"
        by fastforce
      have "ru_calls s' = ru_calls s1" using streamed_call None t
        by (cases res) (auto simp: routed_stream_def split_beta split: sum.split)
      with via [OF t] None show ?thesis by simp
    qed (use streamed_call in \<open>auto simp: routed_stream_def\<close>)
  qed
qed

section \<open>Blocking and streamed calls\<close>

text \<open>Everything but what was shown.\<close>

definition unseen :: "router \<Rightarrow> router" where
  "unseen s = s\<lparr>ru_shown := []\<rparr>"

lemma unseen_simps [simp]:
  "ru_calls (unseen s) = ru_calls s" "ru_usage (unseen s) = ru_usage s" "ru_costs (unseen s) = ru_costs s" "ru_slept (unseen s) = ru_slept s"
  by (simp_all add: unseen_def)

lemma unseen_eqD: "unseen s = unseen u \<Longrightarrow> ru_calls s = ru_calls u \<and> ru_usage s = ru_usage u \<and> ru_costs s = ru_costs u \<and> ru_slept s = ru_slept u"
  by (cases s; cases u) (simp add: unseen_def)

lemma unseen_eqI: "ru_calls s = ru_calls u \<Longrightarrow> ru_usage s = ru_usage u \<Longrightarrow> ru_costs s = ru_costs u \<Longrightarrow> ru_slept s = ru_slept u \<Longrightarrow>
    unseen s = unseen (u :: router)"
  by (cases s; cases u) (simp add: unseen_def)

lemma unseen_eq: "unseen s = unseen u \<longleftrightarrow> ru_calls s = ru_calls u \<and> ru_usage s = ru_usage u \<and> ru_costs s = ru_costs u \<and> ru_slept s = ru_slept u"
  using unseen_eqD unseen_eqI by blast

text \<open>Two ways of asking whose replies correspond; the second shows nothing, the first nothing before a refusal.\<close>

fun corresponds :: "('a \<Rightarrow> 'b \<Rightarrow> bool) \<Rightarrow> 'a reply \<Rightarrow> 'b reply \<Rightarrow> bool" where
  "corresponds F (Answered x) (Answered y) \<longleftrightarrow> F x y"
| "corresponds F (Refused e) (Refused e') \<longleftrightarrow> e = e'"
| "corresponds F (Blew x) (Blew y) \<longleftrightarrow> x = y"
| "corresponds F _ _ \<longleftrightarrow> False"

definition same_course :: "('a \<Rightarrow> 'b \<Rightarrow> bool) \<Rightarrow> (nat \<Rightarrow> model_call \<Rightarrow> ModelEvent list \<times> 'a reply) \<Rightarrow>
    (nat \<Rightarrow> model_call \<Rightarrow> ModelEvent list \<times> 'b reply) \<Rightarrow> bool" where
  "same_course F ask ask' \<longleftrightarrow> (\<forall>n call. corresponds F (snd (ask n call)) (snd (ask' n call)) \<and> fst (ask' n call) = [] \<and>
     (\<forall>e. snd (ask n call) = Refused e \<longrightarrow> fst (ask n call) = []))"

lemma ask_same:
  "same_course F ask ask' \<Longrightarrow> unseen s = unseen u \<Longrightarrow> ask_route env ask deadline call k s = ((r, k1, em), s1) \<Longrightarrow>
    \<exists>r' u1. ask_route env ask' deadline call k u = ((r', k1, False), u1) \<and> unseen s1 = unseen u1 \<and> corresponds F r r' \<and>
      (\<forall>e. r = Refused e \<longrightarrow> \<not> em)"
proof (induction env ask deadline call k s arbitrary: u rule: ask_route.induct)
  case (1 env ask deadline call k s)
  let ?n = "length (ru_calls s)"
  have u: "length (ru_calls u) = ?n" "ru_slept u = ru_slept s" using unseen_eqD [OF 1(3)] by simp_all
  obtain sh rp where a: "ask ?n call = (sh, rp)" by fastforce
  obtain rp' where b: "ask' ?n call = ([], rp')" "corresponds F rp rp'"
    using 1(2) a unfolding same_course_def by (metis fst_conv snd_conv surj_pair)
  have quiet: "rp = Refused e \<Longrightarrow> sh = []" for e using 1(2) a unfolding same_course_def by (metis fst_conv snd_conv)
  let ?s1 = "s\<lparr>ru_calls := ru_calls s @ [call], ru_shown := ru_shown s @ map (Pair ?n) sh\<rparr>"
  let ?u1 = "u\<lparr>ru_calls := ru_calls u @ [call], ru_shown := ru_shown u\<rparr>"
  have un: "unseen ?s1 = unseen ?u1" using unseen_eqD [OF 1(3)] by (simp add: unseen_eq)
  note left = 1(4) [unfolded ask_route.simps [of env ask deadline call k s] Let_def a prod.case]
  have right: "ask_route env ask' deadline call k u = (case rp' of
      Refused e \<Rightarrow> (case retry_delay env e (k + 1) deadline (Suc ?n) of None \<Rightarrow> ((Refused e, k, False), ?u1)
        | Some d \<Rightarrow> ask_route env ask' deadline call (k + 1) (?u1\<lparr>ru_slept := ru_slept u @ [d]\<rparr>))
    | _ \<Rightarrow> ((rp', k, False), ?u1))"
    unfolding ask_route.simps [of env ask' deadline call k u] Let_def u(1) b(1) prod.case by (simp split: reply.split option.split)
  show ?case
  proof (cases rp)
    case (Answered x)
    then obtain y where "rp' = Answered y" using b(2) by (cases rp') auto
    then show ?thesis using Answered left right un b(2) by auto
  next
    case (Blew x)
    then obtain y where "rp' = Blew y" using b(2) by (cases rp') auto
    then show ?thesis using Blew left right un b(2) by auto
  next
    case (Refused e)
    then have rp': "rp' = Refused e" using b(2) by (cases rp') auto
    show ?thesis
    proof (cases "retry_delay env e (k + 1) deadline (Suc ?n)")
      case None
      then show ?thesis using Refused left right un rp' quiet by auto
    next
      case (Some d)
      let ?s2 = "?s1\<lparr>ru_slept := ru_slept s @ [d]\<rparr>"
      have rest: "ask_route env ask deadline call (k + 1) ?s2 = ((r, k1, em), s1)" using left Refused Some quiet by simp
      have "unseen ?s2 = unseen (?u1\<lparr>ru_slept := ru_slept u @ [d]\<rparr>)" using un u(2) by (simp add: unseen_eq)
      from "1.IH" [OF refl refl a [symmetric] refl Refused _ 1(2) this rest] Some quiet [OF Refused] rp' right
      show ?thesis by simp
    qed
  qed
qed

text \<open>The results of trying routes correspond.\<close>

definition same_result :: "('a \<Rightarrow> 'b \<Rightarrow> bool) \<Rightarrow> routing_failure + 'a \<times> 'c \<Rightarrow> routing_failure + 'b \<times> 'c \<Rightarrow> bool" where
  "same_result F x y \<longleftrightarrow> (case x of Inl e \<Rightarrow> y = Inl e | Inr (a, c) \<Rightarrow> (\<exists>b. F a b \<and> y = Inr (b, c)))"

lemma try_same:
  "same_course F ask ask' \<Longrightarrow> unseen s = unseen u \<Longrightarrow> try_routes env q ask deadline routes attempts rejection s = (x, s1) \<Longrightarrow>
    \<exists>y u1. try_routes env q ask' deadline routes attempts rejection u = (y, u1) \<and> unseen s1 = unseen u1 \<and> same_result F x y"
proof (induction env q ask deadline routes attempts rejection s arbitrary: u rule: try_routes.induct)
  case (1 env q ask deadline attempts rejection s)
  then show ?case by (auto simp: same_result_def split: option.splits)
next
  case (2 env q ask deadline i t routes attempts rejection s)
  show ?case
  proof (cases "preflight env t q")
    case (Inl f)
    show ?thesis
    proof (cases f)
      case (ProviderFailed e)
      have "try_routes env q ask deadline routes (attempts @ [attempt_entry i t None ''rejected'' (Some e) 0]) (Some e) s = (x, s1)"
        using 2(5) Inl ProviderFailed by simp
      from 2(1) [OF Inl ProviderFailed 2(3,4) this] Inl ProviderFailed show ?thesis by simp
    qed (use 2(4,5) Inl in \<open>auto simp: same_result_def\<close>)
  next
    case (Inr pm)
    obtain provider m where pm: "pm = (provider, m)" by (cases pm)
    let ?call = "(i, pr_provider_id provider, mr_model_id m, routed_output q m)"
    obtain r k em s2 where a: "ask_route env ask deadline ?call 0 s = ((r, k, em), s2)" by (metis prod_cases3 surj_pair)
    from ask_same [OF 2(3,4) a] obtain r' u2 where b: "ask_route env ask' deadline ?call 0 u = ((r', k, False), u2)"
      "unseen s2 = unseen u2" "corresponds F r r'" "\<And>e. r = Refused e \<Longrightarrow> \<not> em" by auto
    show ?thesis
    proof (cases r)
      case (Answered z)
      then obtain z' where "r' = Answered z'" using b(3) by (cases r') auto
      then show ?thesis using 2(5) Inr pm a b Answered by (auto simp: same_result_def)
    next
      case (Blew z)
      then obtain z' where "r' = Blew z'" using b(3) by (cases r') auto
      then show ?thesis using 2(5) Inr pm a b Blew by (auto simp: same_result_def)
    next
      case (Refused e)
      then have r': "r' = Refused e" using b(3) by (cases r') auto
      have em: "\<not> em" using b(4) [OF Refused] .
      let ?fb = "ke_kind e \<in> set FALLBACK_ERRORS \<and> i + 1 < length (rp_routes (rn_policy env))"
      let ?att = "attempts @ [attempt_entry i t (Some (mr_model_id m)) ''fallback'' (Some e) k]"
      show ?thesis
      proof (cases ?fb)
        case True
        then have cf: "\<not> em \<and> ke_kind e \<in> set FALLBACK_ERRORS \<and> i + 1 < length (rp_routes (rn_policy env))" using em by simp
        have rest: "try_routes env q ask deadline routes ?att rejection s2 = (x, s1)"
          using 2(5) Inr pm a Refused cf by (simp add: Let_def)
        have "\<exists>y u1. try_routes env q ask' deadline routes ?att rejection u2 = (y, u1) \<and> unseen s1 = unseen u1 \<and> same_result F x y"
          using 2(2) [OF Inr pm [symmetric] a [symmetric] refl Refused refl refl refl cf 2(3) b(2)] rest cf by simp
        then show ?thesis using Inr pm b(1) r' True by (simp add: Let_def)
      next
        case False
        then show ?thesis using 2(5) Inr pm a b(1,2) Refused r' em by (auto simp: Let_def same_result_def split: if_splits)
      qed
    qed
  qed
qed

section \<open>Properties\<close>

text \<open>C19. 
  A routed call, blocking or streamed, only ever asks declared routes whose registered provider and model
  satisfy the privacy limit, the capabilities and the price terms of the policy; it asks each route at most
  the allowed number of times (once, when the policy allows no retry), and asks nothing at all once the
  recorded usage or cost has reached its budget.
\<close>
theorem routed_calls_are_lawful:
  assumes "routed env q s s'"
  shows "\<exists>calls. ru_calls s' = ru_calls s @ calls \<and> list_all (lawful env q) calls \<and>
    (\<forall>i. length (filter (\<lambda>c. fst c = i) calls) \<le> max_attempts env) \<and>
    length calls \<le> max_attempts env * length (rp_routes (rn_policy env)) \<and>
    (calls \<noteq> [] \<longrightarrow>
       (case rp_max_total_tokens (rn_policy env) of None \<Rightarrow> True | Some n \<Rightarrow> usage_total (counts (ru_usage s)) < n) \<and>
       (case rp_max_cost (rn_policy env) of None \<Rightarrow> True | Some c \<Rightarrow> spent_in s (rn_policy env) < c))"
proof -
  have "global_budget_error env s = None \<Longrightarrow>
       (case rp_max_total_tokens (rn_policy env) of None \<Rightarrow> True | Some n \<Rightarrow> usage_total (counts (ru_usage s)) < n) \<and>
       (case rp_max_cost (rn_policy env) of None \<Rightarrow> True | Some c \<Rightarrow> spent_in s (rn_policy env) < c)"
    by (auto simp: global_budget_error_def Let_def split: option.splits if_splits)
  with routed_calls [OF assms] show ?thesis by blast
qed

text \<open>C20. 
  What a caller of a stream is shown comes from one attempt, the last one: text that was shown is never
  followed by another attempt, and the final event, if there is one, is a single completion at the end.
\<close>
theorem nothing_is_shown_twice:
  "\<exists>calls final. ru_calls (snd (routed_stream env ask start q s)) = ru_calls s @ calls \<and>
    ru_shown (snd (routed_stream env ask start q s)) = ru_shown s @
      map (Pair (length (ru_calls s @ calls) - 1))
        ((if calls = [] then [] else shown_part (fst (ask (length (ru_calls s @ calls) - 1) (last calls)))) @ final) \<and>
    (case fst (routed_stream env ask start q s) of Inl _ \<Rightarrow> final = [] | Inr e \<Rightarrow> calls \<noteq> [] \<and> final = [e] \<and> me_kind e = COMPLETION)"
proof (cases "global_budget_error env s")
  case (Some e)
  then show ?thesis by (simp add: routed_stream_def)
next
  case None
  let ?ask = "\<lambda>n call. stream_reply (ask n call)"
  obtain res s1 where t: "try_routes env q ?ask (start + ar_deadline_seconds q) (route_sequence env q) [] None s = (res, s1)"
    by fastforce
  from try_effects [OF t] obtain calls where c: "tried env q ?ask (route_sequence env q) s calls s1" "answers ?ask calls s1 res" by blast
  from c(1) have calls: "ru_calls s1 = ru_calls s @ calls"
    and shown: "ru_shown s1 = ru_shown s @ map (Pair (length (ru_calls s @ calls) - 1))
      (if calls = [] then [] else shown_part (fst (ask (length (ru_calls s @ calls) - 1) (last calls))))"
    by (simp_all add: tried_def stream_reply_def)
  show ?thesis
  proof (cases res)
    case (Inl e)
    then show ?thesis using None t calls shown by (intro exI [of _ calls] exI [of _ "[]"]) (simp add: routed_stream_def)
  next
    case (Inr x)
    obtain es att provider m where x: "x = (es, att, provider, m)" by (cases x)
    show ?thesis
    proof (cases "accumulate_response (rn_ud env) es")
      case (Inl e)
      then show ?thesis using None t calls shown Inr x by (intro exI [of _ calls] exI [of _ "[]"]) (simp add: routed_stream_def)
    next
      case a: (Inr r)
      obtain r' s2 where d: "decorate (rn_policy env) r att provider m s1 = (r', s2)" by fastforce
      have "ru_calls s2 = ru_calls s1" "ru_shown s2 = ru_shown s1" using decorate_keeps [of "rn_policy env" r att provider m s1] d by simp_all
      then show ?thesis using None t calls shown Inr x a d c(2)
        by (intro exI [of _ calls] exI [of _ "[completion_of r']"])
          (simp add: routed_stream_def answers_def completion_of_def completion_event_def)
    qed
  qed
qed

text \<open>
  A provider that answers a blocking call with what its stream adds up to, and whose stream shows nothing
  when it is refused.
\<close>

definition transports_agree :: "unidata \<Rightarrow> ModelEvent list \<times> stream_outcome \<Rightarrow> ModelResponse reply \<Rightarrow> bool" where
  "transports_agree ud st co \<longleftrightarrow>
     (case snd st of
        StreamDone \<Rightarrow> (\<exists>r. accumulate_response ud (fst st) = Inr r \<and> co = Answered r)
      | StreamRefused e \<Rightarrow> shown_part (fst st) = [] \<and> co = Refused e
      | StreamBlew x \<Rightarrow> co = Blew x)"

lemma exceeded_unseen: "unseen s = unseen u \<Longrightarrow> exceeded_budgets p s = exceeded_budgets p u"
  using unseen_eqD [of s u] by (auto simp: exceeded_budgets_def spent_in_def split: option.split)

lemma charge_unseen: "unseen s = unseen u \<Longrightarrow> unseen (charge p m usage s) = unseen (charge p m usage u)"
proof -
  assume "unseen s = unseen u"
  note eq = unseen_eqD [OF this]
  have "ru_calls s = ru_calls u" "ru_usage s = ru_usage u" "ru_costs s = ru_costs u" "ru_slept s = ru_slept u" using eq by blast+
  then show ?thesis by (cases "mr_pricing m") (simp_all add: charge_def unseen_eq Let_def)
qed

lemma decorate_unseen:
  assumes "unseen s = unseen u"
  shows "fst (decorate p r att provider m s) = fst (decorate p r att provider m u) \<and>
    unseen (snd (decorate p r att provider m s)) = unseen (snd (decorate p r att provider m u))"
proof -
  let ?s = "charge p m (rsp_usage r) s" and ?u = "charge p m (rsp_usage r) u"
  have c: "unseen ?s = unseen ?u" by (rule charge_unseen [OF assms])
  then have f: "ru_usage ?s = ru_usage ?u" "ru_costs ?s = ru_costs ?u" using unseen_eqD by blast+
  have x: "exceeded_budgets p ?s = exceeded_budgets p ?u" by (rule exceeded_unseen [OF c])
  show ?thesis unfolding decorate_def Let_def prod.sel f x by (simp add: c)
qed

lemma agree_course: "\<forall>n call. transports_agree ud (st n call) (co n call) \<Longrightarrow>
    same_course (\<lambda>es r. accumulate_response ud es = Inr r) (\<lambda>n call. stream_reply (st n call)) (\<lambda>n call. ([], co n call))"
  unfolding same_course_def
proof (intro allI conjI impI)
  fix n call assume "\<forall>n call. transports_agree ud (st n call) (co n call)"
  then have t: "transports_agree ud (st n call) (co n call)" by blast
  then show "corresponds (\<lambda>es r. accumulate_response ud es = Inr r) (snd (stream_reply (st n call))) (snd ([], co n call))"
    by (cases "snd (st n call)") (auto simp: transports_agree_def stream_reply_def)
  show "fst (stream_reply (st n call)) = []" if "snd (stream_reply (st n call)) = Refused e" for e
    using t that by (cases "snd (st n call)") (auto simp: transports_agree_def stream_reply_def)
qed simp

lemma both_take_the_same_course:
  assumes "\<forall>n call. transports_agree (rn_ud env) (st n call) (co n call)"
  shows "fst (routed_stream env st start q s) = map_sum id completion_of (fst (routed_complete env co start q s)) \<and>
    unseen (snd (routed_stream env st start q s)) = unseen (snd (routed_complete env co start q s))"
proof (cases "global_budget_error env s")
  case (Some e)
  then show ?thesis by (simp add: routed_stream_def routed_complete_def)
next
  case None
  obtain x s1 where t: "try_routes env q (\<lambda>n call. stream_reply (st n call)) (start + ar_deadline_seconds q) (route_sequence env q) [] None s = (x, s1)"
    by fastforce
  from try_same [OF agree_course [OF assms] refl t] obtain y u1 where
    u: "try_routes env q (\<lambda>n call. ([], co n call)) (start + ar_deadline_seconds q) (route_sequence env q) [] None s = (y, u1)"
      "unseen s1 = unseen u1" "same_result (\<lambda>es r. accumulate_response (rn_ud env) es = Inr r) x y" by blast
  show ?thesis
  proof (cases x)
    case (Inl e)
    then show ?thesis using t u None by (simp add: routed_stream_def routed_complete_def same_result_def)
  next
    case (Inr z)
    obtain es att provider m where z: "z = (es, att, provider, m)" by (cases z)
    with Inr u(3) obtain r where r: "accumulate_response (rn_ud env) es = Inr r" "y = Inr (r, att, provider, m)"
      by (auto simp: same_result_def)
    note decorate_unseen [OF u(2), of "rn_policy env" r att provider m]
    then show ?thesis using t u(1) None Inr z r
      by (simp add: routed_stream_def routed_complete_def split_beta unseen_eq)
  qed
qed

text \<open>C21. 
  Streaming changes nothing but the moment the caller learns something: with a provider whose stream adds
  up to its blocking answer and shows nothing before it is refused, both calls ask the same routes, wait the
  same delays, record the same usage and cost and return the same decorated response or failure.
\<close>
theorem streaming_takes_the_same_course:
  assumes "\<forall>n call. transports_agree (rn_ud env) (st n call) (co n call)"
  shows "fst (routed_stream env st start q s) = map_sum id completion_of (fst (routed_complete env co start q s)) \<and>
    unseen (snd (routed_stream env st start q s)) = unseen (snd (routed_complete env co start q s))"
  using assms by (rule both_take_the_same_course)

section \<open>A working route is found\<close>

text \<open>What a caller relies on: an earlier route is rejected or passes the call on, a working one answers.\<close>

definition passes_on :: "routing_env \<Rightarrow> ModelRequest \<Rightarrow> (nat \<Rightarrow> model_call \<Rightarrow> ModelResponse reply) \<Rightarrow> nat \<Rightarrow> bool" where
  "passes_on env q ask j \<longleftrightarrow>
     (case preflight env (rp_routes (rn_policy env) ! j) q of
        Inl f \<Rightarrow> (case f of ProviderFailed _ \<Rightarrow> True | _ \<Rightarrow> False)
      | Inr _ \<Rightarrow> \<forall>n call. fst call = j \<longrightarrow> (case ask n call of Refused e \<Rightarrow> ke_kind e \<in> set FALLBACK_ERRORS | _ \<Rightarrow> False))"

definition works :: "(nat \<Rightarrow> model_call \<Rightarrow> ModelResponse reply) \<Rightarrow> nat \<Rightarrow> bool" where
  "works ask i \<longleftrightarrow> (\<forall>n call. fst call = i \<longrightarrow> (case ask n call of Answered _ \<Rightarrow> True | _ \<Rightarrow> False))"

lemma ask_reply:
  assumes "ask_route env (\<lambda>n call. ([], ask n call)) deadline call k s = ((r, k', em), s')"
  shows "(\<exists>n. r = ask n call) \<and> \<not> em"
proof -
  from ask_effects [OF assms] obtain n where "([], ask n call) = ([] :: ModelEvent list, r)" "\<not> em" by auto
  then show ?thesis by auto
qed

lemma reaches:
  assumes "i < length (rp_routes (rn_policy env))" "preflight env (rp_routes (rn_policy env) ! i) q = Inr (provider, m)" "works ask i"
    and "\<And>j. j < i \<Longrightarrow> passes_on env q ask j" "j \<le> i"
  shows "\<exists>r att s1. try_routes env q (\<lambda>n call. ([], ask n call)) deadline (drop j (List.enumerate 0 (rp_routes (rn_policy env)))) attempts rejection s
    = (Inr (r, att, provider, m), s1)"
  using assms(5)
proof (induction "i - j" arbitrary: j attempts rejection s)
  case 0
  then have [simp]: "j = i" by simp
  let ?rs = "rp_routes (rn_policy env)"
  have drop: "drop i (List.enumerate 0 ?rs) = (i, ?rs ! i) # drop (Suc i) (List.enumerate 0 ?rs)"
    using Cons_nth_drop_Suc [of i "List.enumerate 0 ?rs"] assms(1) by (simp add: nth_enumerate_eq)
  obtain r k em s1 where a: "ask_route env (\<lambda>n call. ([], ask n call)) deadline (i, pr_provider_id provider, mr_model_id m, routed_output q m) 0 s
      = ((r, k, em), s1)" by (metis prod_cases3 surj_pair)
  obtain n where "r = ask n (i, pr_provider_id provider, mr_model_id m, routed_output q m)" using ask_reply [OF a] by blast
  then have "case r of Answered _ \<Rightarrow> True | _ \<Rightarrow> False" using assms(3) unfolding works_def by (metis fst_conv)
  then obtain x where "r = Answered x" by (cases r) auto
  with a assms(2) show ?case by (simp add: drop)
next
  case (Suc d)
  then have j: "j < i" by simp
  let ?rs = "rp_routes (rn_policy env)"
  have drop: "drop j (List.enumerate 0 ?rs) = (j, ?rs ! j) # drop (Suc j) (List.enumerate 0 ?rs)"
    using Cons_nth_drop_Suc [of j "List.enumerate 0 ?rs"] assms(1) j by (simp add: nth_enumerate_eq)
  note rest = Suc(1) [of "Suc j"]
  from assms(4) [OF j] consider e where "preflight env (?rs ! j) q = Inl (ProviderFailed e)"
    | p m' where "preflight env (?rs ! j) q = Inr (p, m')"
        "\<forall>n call. fst call = j \<longrightarrow> (case ask n call of Refused e \<Rightarrow> ke_kind e \<in> set FALLBACK_ERRORS | _ \<Rightarrow> False)"
    by (auto simp: passes_on_def split: sum.splits routing_failure.splits)
  then show ?case
  proof cases
    case 1
    then show ?thesis using rest Suc(2) j by (simp add: drop)
  next
    case (2 p m')
    obtain r k em s1 where a: "ask_route env (\<lambda>n call. ([], ask n call)) deadline (j, pr_provider_id p, mr_model_id m', routed_output q m') 0 s
        = ((r, k, em), s1)" by (metis prod_cases3 surj_pair)
    obtain n where n: "r = ask n (j, pr_provider_id p, mr_model_id m', routed_output q m')" "\<not> em" using ask_reply [OF a] by blast
    have "case r of Refused e \<Rightarrow> ke_kind e \<in> set FALLBACK_ERRORS | _ \<Rightarrow> False" using 2(2) n(1) by (metis fst_conv)
    then obtain e where e: "r = Refused e" "ke_kind e \<in> set FALLBACK_ERRORS" "\<not> em" using n(2) by (cases r) auto
    have "j + 1 < length ?rs" using j assms(1) by simp
    then show ?thesis using rest Suc(2) j a e 2(1) by (simp add: drop Let_def)
  qed
qed

text \<open>C22. 
  With routes in their declared order and no budget of the policy used up yet, one that passes the checks
  and answers is found: if every route before it is rejected by the policy or refuses with an error another
  route may cure, the blocking call returns an answer of exactly this route, and a stream ends with the same
  answer when the provider streams what it would have answered and shows nothing before it refuses.
\<close>
theorem a_working_route_answers:
  assumes "rp_route_strategy (rn_policy env) \<noteq> lit ''cheapest''" "global_budget_error env s = None"
    and "i < length (rp_routes (rn_policy env))" "preflight env (rp_routes (rn_policy env) ! i) q = Inr (provider, m)" "works ask i"
    and "\<forall>j < i. passes_on env q ask j"
  shows "\<exists>r. fst (routed_complete env ask start q s) = Inr r \<and> rsp_selected_provider r = Some (pr_provider_id provider) \<and>
    rsp_selected_model r = Some (mr_model_id m) \<and>
    (\<forall>st. (\<forall>n call. transports_agree (rn_ud env) (st n call) (ask n call)) \<longrightarrow>
       fst (routed_stream env st start q s) = Inr (completion_of r))"
proof -
  have seq: "route_sequence env q = List.enumerate 0 (rp_routes (rn_policy env))" using assms(1) by (simp add: route_sequence_def)
  from reaches [OF assms(3,4,5), of 0 "start + ar_deadline_seconds q" "[]" None s] assms(6)
  obtain r att s1 where "try_routes env q (\<lambda>n call. ([], ask n call)) (start + ar_deadline_seconds q) (route_sequence env q) [] None s
      = (Inr (r, att, provider, m), s1)" by (auto simp: seq)
  then have "\<exists>r. fst (routed_complete env ask start q s) = Inr r \<and> rsp_selected_provider r = Some (pr_provider_id provider) \<and>
    rsp_selected_model r = Some (mr_model_id m)" using assms(2) by (simp add: routed_complete_def decorate_def Let_def split_beta)
  then show ?thesis using both_take_the_same_course [of env _ ask start q s] by auto
qed

section \<open>Gaps\<close>

text \<open>
  Whether another route remains is decided by the declared position of the failing one, not by its place in
  the order of the call. When the cheapest route is declared last, nothing cures its failure: the other
  route is never asked.
\<close>

lemma cheapest_route_has_no_fallback:
  assumes "global_budget_error env s = None" "route_sequence env q = [(1, b), (0, a)]" "length (rp_routes (rn_policy env)) = 2"
    and "preflight env b q = Inr (provider, m)" "\<forall>n call. \<exists>e. ask n call = Refused e"
  shows "(\<exists>e. fst (routed_complete env ask start q s) = Inl e) \<and>
    (\<exists>n. ru_calls (snd (routed_complete env ask start q s)) =
       ru_calls s @ replicate n (1, pr_provider_id provider, mr_model_id m, routed_output q m))"
proof -
  obtain r k em s1 where a: "ask_route env (\<lambda>n call. ([], ask n call)) (start + ar_deadline_seconds q)
      (1, pr_provider_id provider, mr_model_id m, routed_output q m) 0 s = ((r, k, em), s1)" by (metis prod_cases3 surj_pair)
  obtain e where "r = Refused e" using ask_reply [OF a] assms(5) by metis
  moreover obtain n where "ru_calls s1 = ru_calls s @ replicate (Suc n) (1, pr_provider_id provider, mr_model_id m, routed_output q m)"
    using ask_effects [OF a] by blast
  ultimately show ?thesis using a assms(1-4) by (auto simp: routed_complete_def Let_def simp del: replicate_Suc)
qed

text \<open>The switch that takes a provider out of service is not looked at.\<close>

lemma disabled_providers_are_asked: "preflight_error env q (p\<lparr>pr_enabled := b\<rparr>) m = preflight_error env q p m"
proof -
  have "pr_privacy_class (p\<lparr>pr_enabled := b\<rparr>) = pr_privacy_class p" by simp
  then show ?thesis unfolding preflight_error_def by presburger
qed

section \<open>Samples\<close>

text \<open>Two routes of one policy: the first refuses with a payload error, the second answers.\<close>

definition routed_model :: "string \<Rightarrow> ModelRecord" where
  "routed_model p = (alias_only_model (lit p) (lit ''x'') (lit ''m''))\<lparr>mr_streaming := lit ''true''\<rparr>"

definition sample_routing :: routing_env where
  "sample_routing = \<lparr>rn_ud = \<lparr>ud_word = (\<lambda>c. 97 \<le> c), ud_casefold = (\<lambda>c. [c]), ud_lower = id, ud_upper = id\<rparr>,
     rn_registry = RegistryDoc \<lparr>rd_providers = [sample_provider ''a'', sample_provider ''b''],
       rd_models = [routed_model ''a'', routed_model ''b''], rd_selected = None\<rparr>,
     rn_policy = \<lparr>rp_routes = [\<lparr>tg_provider_id = lit ''a'', tg_model = lit ''x''\<rparr>, \<lparr>tg_provider_id = lit ''b'', tg_model = lit ''m''\<rparr>],
       rp_privacy_limit = lit ''public'', rp_route_strategy = lit ''ordered'', rp_max_total_tokens = Some 10, rp_max_cost = None,
       rp_currency = None, rp_require_tools = True, rp_require_streaming = True,
       rp_retry = \<lparr>ry_max_attempts = 3, ry_base_delay_seconds = 1, ry_max_delay_seconds = 8\<rparr>\<rparr>,
     rn_clock = real, rn_jitter = (\<lambda>_. 0)\<rparr>"

definition refused_payload :: ProviderError where
  "refused_payload = \<lparr>ke_kind = InvalidRequest, ke_message = [], ke_status_code = Some 400, ke_retry_after = None, ke_route_attempts = []\<rparr>"

definition sample_answer :: "nat \<Rightarrow> model_call \<Rightarrow> ModelResponse reply" where
  "sample_answer n call = (if fst call = 0 then Refused refused_payload else Answered fresh_response)"

definition sample_stream :: "nat \<Rightarrow> model_call \<Rightarrow> ModelEvent list \<times> stream_outcome" where
  "sample_stream n call = (if fst call = 0 then ([], StreamRefused refused_payload) else ([completion_event], StreamDone))"

definition sample_question :: ModelRequest where
  "sample_question = \<lparr>ar_messages = [], ar_tools = [], ar_max_output_tokens = None, ar_deadline_seconds = 60\<rparr>"

definition sample_router :: router where
  "sample_router = new_router [] []"

lemma sample_lookup:
  "fst (provider_of (lit ''a'') (rn_registry sample_routing)) = Inr (sample_provider ''a'')"
  "fst (provider_of (lit ''b'') (rn_registry sample_routing)) = Inr (sample_provider ''b'')"
  "fst (model_of (lit ''a'') (lit ''x'') (rn_registry sample_routing)) = Inr (routed_model ''a'')"
  "fst (model_of (lit ''b'') (lit ''m'') (rn_registry sample_routing)) = Inr (routed_model ''b'')"
  by code_simp+

lemma sample_policy:
  "rp_routes (rn_policy sample_routing) =
     [\<lparr>tg_provider_id = lit ''a'', tg_model = lit ''x''\<rparr>, \<lparr>tg_provider_id = lit ''b'', tg_model = lit ''m''\<rparr>]"
  "rp_max_cost (rn_policy sample_routing) = None" "rp_route_strategy (rn_policy sample_routing) = lit ''ordered''"
  "rp_max_total_tokens (rn_policy sample_routing) = Some 10" "rp_privacy_limit (rn_policy sample_routing) = lit ''public''"
  by (simp_all add: sample_routing_def)

lemma sample_preflight:
  "preflight sample_routing \<lparr>tg_provider_id = lit ''a'', tg_model = lit ''x''\<rparr> sample_question = Inr (sample_provider ''a'', routed_model ''a'')"
  "preflight sample_routing \<lparr>tg_provider_id = lit ''b'', tg_model = lit ''m''\<rparr> sample_question = Inr (sample_provider ''b'', routed_model ''b'')"
  by (simp_all add: preflight_def sample_lookup preflight_error_def sample_policy Let_def sample_question_def sample_provider_def routed_model_def)

lemma sample_budget: "global_budget_error sample_routing sample_router = None"
  by (simp add: global_budget_error_def sample_policy Let_def sample_router_def new_router_def merge_usage_def counts_def usage_total_def pget_def
      usage_count_def)

lemma sample_sequence: "route_sequence sample_routing q = List.enumerate 0 (rp_routes (rn_policy sample_routing))"
  by (simp add: route_sequence_def sample_policy)

lemma sample_no_retry: "retry_delay sample_routing refused_payload k d n = None"
  by (simp add: retry_delay_def refused_payload_def RETRYABLE_ERRORS_def Let_def)

lemma sample_calls: "map fst (ru_calls (snd (routed_complete sample_routing sample_answer 0 sample_question sample_router))) = [0, 1]"
proof -
  have "ru_calls sample_router = []" by (simp add: sample_router_def new_router_def)
  then show ?thesis
    by (simp add: routed_complete_def sample_budget sample_sequence sample_policy enumerate_simps sample_preflight ask_route.simps
        sample_answer_def sample_no_retry Let_def split_beta) (simp add: refused_payload_def FALLBACK_ERRORS_def)
qed

lemma sample_transports: "\<forall>n call. transports_agree (rn_ud sample_routing) (sample_stream n call) (sample_answer n call)"
proof -
  have "accumulate_response (rn_ud sample_routing) [completion_event] = Inr fresh_response"
    by (simp add: accumulate_response_def accumulate_event_def completion_event_def empty_accumulator_def text_or_def fresh_response_def)
  then show ?thesis by (simp add: transports_agree_def sample_stream_def shown_part_def sample_answer_def)
qed

theorem routed_calls_are_lawful_witness:
  "\<exists>calls. map fst calls = [0, 1] \<and> list_all (lawful sample_routing sample_question) calls \<and>
    length (filter (\<lambda>c. fst c = 0) calls) \<le> max_attempts sample_routing \<and> length calls \<le> max_attempts sample_routing * 2"
proof -
  have "routed sample_routing sample_question sample_router (snd (routed_complete sample_routing sample_answer 0 sample_question sample_router))"
    by (rule blocking)
  from routed_calls_are_lawful [OF this] obtain calls where
    c: "ru_calls (snd (routed_complete sample_routing sample_answer 0 sample_question sample_router)) = ru_calls sample_router @ calls"
      "list_all (lawful sample_routing sample_question) calls" "\<forall>i. asked i calls \<le> max_attempts sample_routing" "length calls \<le> max_attempts sample_routing * length (rp_routes (rn_policy sample_routing))"
    by blast
  have "map fst calls = [0, 1]" using sample_calls c(1) by (simp add: sample_router_def new_router_def)
  with c(2,3,4) show ?thesis by (intro exI [of _ calls]) (simp add: sample_policy)
qed

theorem a_working_route_answers_witness:
  "\<exists>r. fst (routed_complete sample_routing sample_answer 0 sample_question sample_router) = Inr r \<and>
    rsp_selected_provider r = Some (lit ''b'') \<and>
    fst (routed_stream sample_routing sample_stream 0 sample_question sample_router) = Inr (completion_of r)"
proof -
  have "rp_routes (rn_policy sample_routing) ! 1 = \<lparr>tg_provider_id = lit ''b'', tg_model = lit ''m''\<rparr>" by (simp add: sample_policy)
  then have p: "preflight sample_routing (rp_routes (rn_policy sample_routing) ! 1) sample_question = Inr (sample_provider ''b'', routed_model ''b'')"
    using sample_preflight by simp
  have "\<forall>j < 1. passes_on sample_routing sample_question sample_answer j"
    using sample_preflight by (simp add: passes_on_def sample_policy sample_answer_def refused_payload_def FALLBACK_ERRORS_def)
  moreover have "rp_route_strategy (rn_policy sample_routing) \<noteq> lit ''cheapest''" "1 < length (rp_routes (rn_policy sample_routing))"
    "works sample_answer 1" by (simp_all add: sample_policy works_def sample_answer_def)
  ultimately show ?thesis
    using a_working_route_answers [OF _ sample_budget _ p, of sample_answer 0] sample_transports by (fastforce simp: sample_provider_def)
qed

theorem streaming_takes_the_same_course_witness:
  "fst (routed_stream sample_routing sample_stream 0 sample_question sample_router) =
    map_sum id completion_of (fst (routed_complete sample_routing sample_answer 0 sample_question sample_router))"
  using streaming_takes_the_same_course [OF sample_transports] by blast

end
