(* ===== verification/ContextCompiler.thy ===== *)
theory ContextCompiler imports PyText PyConvert begin

text \<open>
  What of a transcript travels to the model, \<^verbatim>\<open>src/karox/context_compiler.py\<close>: every item of a request gets
  a verdict, tool results that repeat an earlier one or that a later result of the same call supersedes are
  replaced by a marker, and the conclusions of summarised turns are quoted. \<^verbatim>\<open>json.dumps\<close> with sorted keys is
  the argument \<open>dumps\<close>, and \<open>canon\<close> gives the normal form of a text that is a JSON object.
\<close>

section \<open>Items and decisions\<close>

datatype Verdict = INCLUDE | REFERENCE | ELIDE_DUPLICATE | ELIDE_STALE | ELIDE_IRRELEVANT

definition REFERENCE_THRESHOLD_CHARS :: nat where "REFERENCE_THRESHOLD_CHARS = 1000"

record CompilerItem =
  xi_index :: nat
  xi_role :: pystr
  xi_content :: "pystr option"
  xi_tool_call_id :: "pystr option"
  xi_tool_name :: "pystr option"
  xi_tool_arguments :: "pystr option"

definition xi_chars :: "CompilerItem \<Rightarrow> nat" where
  "xi_chars i = (case xi_content i of None \<Rightarrow> 0 | Some c \<Rightarrow> length c)"

record Decision =
  de_index :: nat
  de_verdict :: Verdict
  de_reason :: pystr
  de_replacement :: "pystr option"
  de_chars_saved :: nat

record CompilationStats =
  cs_items_total :: nat
  cs_included :: nat
  cs_referenced :: nat
  cs_elided_duplicate :: nat
  cs_elided_stale :: nat
  cs_elided_irrelevant :: nat
  cs_chars_in :: nat
  cs_chars_out :: nat

definition stats_chars_saved :: "CompilationStats \<Rightarrow> nat" where
  "stats_chars_saved s = cs_chars_in s - cs_chars_out s"

section \<open>Markers and identities\<close>

definition reuse_marker :: "(pyval \<Rightarrow> pystr) \<Rightarrow> pystr \<Rightarrow> pystr" where
  "reuse_marker dumps first_call_id = dumps (PMap
     [(lit ''karox'', PStr (lit ''identical_tool_result_reused'')), (lit ''same_as_tool_call_id'', PStr first_call_id),
      (lit ''next'', PStr (lit ''act_or_change_query''))])"

definition stale_marker :: "(pyval \<Rightarrow> pystr) \<Rightarrow> pystr \<Rightarrow> pystr" where
  "stale_marker dumps superseding_call_id = dumps (PMap
     [(lit ''karox'', PStr (lit ''superseded_tool_result'')),
      (lit ''superseded_by_tool_call_id'', PStr superseding_call_id)])"

definition tool_identity_arguments :: "(pystr \<Rightarrow> pystr option) \<Rightarrow> pystr \<Rightarrow> pystr" where
  "tool_identity_arguments canon raw = (case canon raw of Some s \<Rightarrow> s | None \<Rightarrow> raw)"

text \<open>The question a tool result answers; results without a full identity have none.\<close>

definition identity_of :: "(pystr \<Rightarrow> pystr option) \<Rightarrow> CompilerItem \<Rightarrow> (pystr \<times> pystr) option" where
  "identity_of canon i =
     (if xi_role i = lit ''tool'' \<and> xi_content i \<noteq> None then
        (case (xi_tool_name i, xi_tool_arguments i) of
           (Some n, Some a) \<Rightarrow> if n = [] then None else Some (n, tool_identity_arguments canon a)
         | _ \<Rightarrow> None)
      else None)"

definition note_latest :: "(pystr \<Rightarrow> pystr option) \<Rightarrow> CompilerItem \<Rightarrow> ((pystr \<times> pystr), CompilerItem) dict \<Rightarrow>
    ((pystr \<times> pystr), CompilerItem) dict" where
  "note_latest canon i d = (case identity_of canon i of None \<Rightarrow> d | Some k \<Rightarrow> AList.update k i d)"

definition latest_by_identity :: "(pystr \<Rightarrow> pystr option) \<Rightarrow> CompilerItem list \<Rightarrow> ((pystr \<times> pystr), CompilerItem) dict" where
  "latest_by_identity canon items = fold (note_latest canon) items []"

section \<open>Compilation\<close>

record compiler_env =
  cx_dumps :: "pyval \<Rightarrow> pystr"
  cx_canon :: "pystr \<Rightarrow> pystr option"
  cx_threshold :: nat

definition new_compiler :: "(pyval \<Rightarrow> pystr) \<Rightarrow> (pystr \<Rightarrow> pystr option) \<Rightarrow> int \<Rightarrow> compiler_env option" where
  "new_compiler dumps canon threshold =
     (if threshold < 1 then None else Some \<lparr>cx_dumps = dumps, cx_canon = canon, cx_threshold = nat threshold\<rparr>)"

definition include_decision :: "CompilerItem \<Rightarrow> string \<Rightarrow> Decision" where
  "include_decision i reason = \<lparr>de_index = xi_index i, de_verdict = INCLUDE, de_reason = lit reason, de_replacement = None,
     de_chars_saved = 0\<rparr>"

definition replace_decision :: "CompilerItem \<Rightarrow> Verdict \<Rightarrow> string \<Rightarrow> pystr \<Rightarrow> pystr \<Rightarrow> Decision" where
  "replace_decision i v why call_id replacement =
     (if length replacement < xi_chars i
      then \<lparr>de_index = xi_index i, de_verdict = v, de_reason = lit why @ call_id, de_replacement = Some replacement,
            de_chars_saved = xi_chars i - length replacement\<rparr>
      else include_decision i ''replacement_not_smaller'')"

definition register_content :: "CompilerItem \<Rightarrow> (pystr, CompilerItem) dict \<Rightarrow> (pystr, CompilerItem) dict" where
  "register_content i seen =
     (case xi_content i of
        None \<Rightarrow> seen
      | Some c \<Rightarrow> if map_of seen c = None then seen @ [(c, i)] else seen)"

text \<open>\<^verbatim>\<open>value and id\<close>: the call id when it is a non-empty text.\<close>

definition call_id_of :: "CompilerItem \<Rightarrow> pystr option" where
  "call_id_of i = (case xi_tool_call_id i of None \<Rightarrow> None | Some s \<Rightarrow> if s = [] then None else Some s)"

definition superseding :: "compiler_env \<Rightarrow> ((pystr \<times> pystr), CompilerItem) dict \<Rightarrow> CompilerItem \<Rightarrow> pystr option" where
  "superseding cx latest i =
     (case identity_of (cx_canon cx) i of
        None \<Rightarrow> None
      | Some k \<Rightarrow> (case map_of latest k of
          None \<Rightarrow> None
        | Some l \<Rightarrow> if xi_index l > xi_index i \<and> xi_content l \<noteq> xi_content i then call_id_of l else None))"

definition decide_item :: "compiler_env \<Rightarrow> ((pystr \<times> pystr), CompilerItem) dict \<Rightarrow> (pystr, CompilerItem) dict \<Rightarrow>
    CompilerItem \<Rightarrow> Decision \<times> (pystr, CompilerItem) dict" where
  "decide_item cx latest seen i =
     (if xi_role i = lit ''system'' then (include_decision i ''stable_prefix'', seen)
      else if xi_role i \<noteq> lit ''tool'' then (include_decision i ''dialogue_turn'', seen)
      else case xi_content i of
        None \<Rightarrow> (include_decision i ''no_content'', seen)
      | Some content \<Rightarrow>
          if xi_chars i < cx_threshold cx
          then (include_decision i ''below_reference_threshold'', register_content i seen)
          else (case superseding cx latest i of
            Some cid \<Rightarrow> (replace_decision i ELIDE_STALE ''superseded_by:'' cid (stale_marker (cx_dumps cx) cid), seen)
          | None \<Rightarrow>
              (case Option.bind (map_of seen content) call_id_of of
                 Some cid \<Rightarrow> (replace_decision i REFERENCE ''duplicate_of:'' cid (reuse_marker (cx_dumps cx) cid), seen)
               | None \<Rightarrow> (include_decision i ''first_occurrence'', register_content i seen))))"

fun decide_items :: "compiler_env \<Rightarrow> ((pystr \<times> pystr), CompilerItem) dict \<Rightarrow> (pystr, CompilerItem) dict \<Rightarrow>
    CompilerItem list \<Rightarrow> Decision list" where
  "decide_items cx latest seen [] = []"
| "decide_items cx latest seen (i # is') =
     (case decide_item cx latest seen i of (d, seen') \<Rightarrow> d # decide_items cx latest seen' is')"

definition chars_travelling :: "CompilerItem \<Rightarrow> Decision \<Rightarrow> nat" where
  "chars_travelling i d =
     (case de_verdict d of
        REFERENCE \<Rightarrow> (case de_replacement d of None \<Rightarrow> 0 | Some r \<Rightarrow> length r)
      | ELIDE_STALE \<Rightarrow> (case de_replacement d of None \<Rightarrow> 0 | Some r \<Rightarrow> length r)
      | _ \<Rightarrow> xi_chars i)"

definition count_verdict :: "Verdict \<Rightarrow> Decision list \<Rightarrow> nat" where
  "count_verdict v ds = length (filter (\<lambda>d. de_verdict d = v) ds)"

definition compile_context :: "compiler_env \<Rightarrow> CompilerItem list \<Rightarrow> Decision list \<times> CompilationStats" where
  "compile_context cx items =
     (let ds = decide_items cx (latest_by_identity (cx_canon cx) items) [] items
      in (ds, \<lparr>cs_items_total = length ds, cs_included = count_verdict INCLUDE ds,
               cs_referenced = count_verdict REFERENCE ds, cs_elided_duplicate = 0,
               cs_elided_stale = count_verdict ELIDE_STALE ds, cs_elided_irrelevant = 0,
               cs_chars_in = sum_list (map xi_chars items),
               cs_chars_out = sum_list (map2 chars_travelling items ds)\<rparr>))"

fun verdict_text :: "Verdict \<Rightarrow> pystr" where
  "verdict_text INCLUDE = lit ''include''"
| "verdict_text REFERENCE = lit ''reference''"
| "verdict_text ELIDE_DUPLICATE = lit ''elide_duplicate''"
| "verdict_text ELIDE_STALE = lit ''elide_stale''"
| "verdict_text ELIDE_IRRELEVANT = lit ''elide_irrelevant''"

definition explain :: "Decision list \<Rightarrow> pystr list" where
  "explain ds = map (\<lambda>d. lit ''item='' @ decimal (de_index d) @ lit '' verdict='' @ verdict_text (de_verdict d)
      @ lit '' reason='' @ de_reason d @ lit '' saved='' @ decimal (de_chars_saved d))
     (filter (\<lambda>d. de_verdict d \<noteq> INCLUDE) ds)"

section \<open>Conclusions carried through a summary\<close>

text \<open>The part of an assistant turn the ledger reads: its text and its stored reasoning blocks.\<close>

record turn_view =
  tv_content :: "pystr option"
  tv_blocks :: nat
  tv_replayable :: nat

record ContinuityStats =
  cy_statements_carried :: nat
  cy_statement_chars :: nat
  cy_blocks_dropped :: nat
  cy_replayable_dropped :: nat

definition CONTINUITY_MAX_STATEMENTS :: nat where "CONTINUITY_MAX_STATEMENTS = 8"
definition CONTINUITY_STATEMENT_CHARS :: nat where "CONTINUITY_STATEMENT_CHARS = 160"

definition first_line :: "pystr \<Rightarrow> pystr" where
  "first_line s = (case filter (\<lambda>l. l \<noteq> []) (map py_strip (splitlines s)) of [] \<Rightarrow> [] | l # _ \<Rightarrow> l)"

definition clipped_line :: "pystr \<Rightarrow> pystr" where
  "clipped_line l =
     (if CONTINUITY_STATEMENT_CHARS < length l then take (CONTINUITY_STATEMENT_CHARS - 3) l @ lit ''...'' else l)"

fun statements_from :: "nat \<Rightarrow> turn_view list \<Rightarrow> pystr list" where
  "statements_from n [] = []"
| "statements_from n (t # ts) =
     (case tv_content t of
        None \<Rightarrow> []
      | Some c \<Rightarrow> (case first_line c of [] \<Rightarrow> []
          | l \<Rightarrow> [lit ''turn '' @ decimal (Suc n) @ lit '': '' @ clipped_line l])) @ statements_from (Suc n) ts"

definition continuity_lines :: "turn_view list \<Rightarrow> pystr list \<times> ContinuityStats" where
  "continuity_lines turns =
     (let kept = last_n CONTINUITY_MAX_STATEMENTS (statements_from 0 turns)
      in (kept, \<lparr>cy_statements_carried = length kept, cy_statement_chars = sum_list (map length kept),
                 cy_blocks_dropped = sum_list (map tv_blocks turns),
                 cy_replayable_dropped = sum_list (map tv_replayable turns)\<rparr>))"

section \<open>Nothing is lost\<close>

lemma length_decide_items [simp]: "length (decide_items cx L seen items) = length items"
  by (induction items arbitrary: seen) (simp_all split: prod.split)

lemma decide_items_append:
  "decide_items cx L seen (xs @ ys) =
     decide_items cx L seen xs @ decide_items cx L (fold (\<lambda>i s. snd (decide_item cx L s i)) xs seen) ys"
  by (induction xs arbitrary: seen) (simp_all split: prod.split)

lemma decide_items_nth:
  assumes "n < length items"
  shows "decide_items cx L seen items ! n =
    fst (decide_item cx L (fold (\<lambda>i s. snd (decide_item cx L s i)) (take n items) seen) (items ! n))"
proof -
  have "items = take n items @ items ! n # drop (Suc n) items" using assms by (simp add: id_take_nth_drop)
  then have "decide_items cx L seen items = decide_items cx L seen (take n items) @
      decide_items cx L (fold (\<lambda>i s. snd (decide_item cx L s i)) (take n items) seen) (items ! n # drop (Suc n) items)"
    using decide_items_append [of cx L seen "take n items"] by metis
  then show ?thesis using assms by (simp add: nth_append split: prod.split)
qed

text \<open>An item enters the table of contents only when it travels itself.\<close>

lemma decide_item_seen:
  assumes "decide_item cx L seen i = (d, seen')" and "(c, e) \<in> set seen'" and "(c, e) \<notin> set seen"
  shows "e = i \<and> xi_content i = Some c \<and> de_verdict d = INCLUDE"
  using assms
  by (auto simp: decide_item_def register_content_def include_decision_def replace_decision_def Let_def
      split: if_splits option.splits)

lemma seen_travels:
  assumes "(c, e) \<in> set (fold (\<lambda>i s. snd (decide_item cx L s i)) (take n items) [])" and "n \<le> length items"
  shows "\<exists>j < n. e = items ! j \<and> xi_content e = Some c \<and> de_verdict (decide_items cx L [] items ! j) = INCLUDE"
  using assms
proof (induction n)
  case (Suc n)
  let ?s = "fold (\<lambda>i s. snd (decide_item cx L s i)) (take n items) []"
  have t: "take (Suc n) items = take n items @ [items ! n]" using Suc.prems(2) by (simp add: take_Suc_conv_app_nth)
  show ?case
  proof (cases "(c, e) \<in> set ?s")
    case True
    with Suc.IH Suc.prems(2) obtain j where "j < n" "e = items ! j" "xi_content e = Some c"
      "de_verdict (decide_items cx L [] items ! j) = INCLUDE" by auto
    then show ?thesis by (auto intro: exI [of _ j])
  next
    case False
    obtain d s' where d: "decide_item cx L ?s (items ! n) = (d, s')" by fastforce
    from decide_item_seen [OF d _ False] Suc.prems d t
    have "e = items ! n \<and> xi_content (items ! n) = Some c \<and> de_verdict d = INCLUDE" by simp
    with d Suc.prems(2) decide_items_nth [of n items cx L "[]"] show ?thesis by (intro exI [of _ n]) simp
  qed
qed simp

text \<open>The table of the latest results holds the last item of every identity.\<close>

lemma latest_last:
  assumes "map_of (latest_by_identity canon items) k = Some l"
  shows "\<exists>m < length items. items ! m = l \<and> identity_of canon l = Some k \<and>
    (\<forall>j < length items. m < j \<longrightarrow> identity_of canon (items ! j) \<noteq> Some k)"
  using assms
proof (induction items arbitrary: l rule: rev_induct)
  case (snoc x xs)
  have step: "latest_by_identity canon (xs @ [x]) = note_latest canon x (latest_by_identity canon xs)"
    by (simp add: latest_by_identity_def)
  show ?case
  proof (cases "identity_of canon x = Some k")
    case True
    then have "l = x" using snoc.prems by (simp add: step note_latest_def map_of_AList_update)
    with True show ?thesis by (intro exI [of _ "length xs"]) simp
  next
    case False
    then have "map_of (latest_by_identity canon xs) k = Some l"
      using snoc.prems by (cases "identity_of canon x") (simp_all add: step note_latest_def map_of_AList_update)
    with snoc.IH obtain m where "m < length xs" "xs ! m = l" "identity_of canon l = Some k"
      "\<forall>j < length xs. m < j \<longrightarrow> identity_of canon (xs ! j) \<noteq> Some k" by blast
    with False show ?thesis by (intro exI [of _ m]) (auto simp: nth_append less_Suc_eq)
  qed
qed (simp add: latest_by_identity_def)

lemma replace_verdict: "de_verdict (replace_decision i v why cid r) \<in> {v, INCLUDE}"
  by (simp add: replace_decision_def include_decision_def)

lemma decide_reference:
  assumes "fst (decide_item cx L seen i) = d" "de_verdict d = REFERENCE"
  shows "\<exists>c e cid. xi_content i = Some c \<and> (c, e) \<in> set seen \<and> call_id_of e = Some cid \<and>
    de_replacement d = Some (reuse_marker (cx_dumps cx) cid)"
  using assms
  by (auto simp: decide_item_def include_decision_def replace_decision_def Let_def dest!: map_of_SomeD
      split: if_splits option.splits Option.bind_splits)

lemma decide_stale:
  assumes "fst (decide_item cx L seen i) = d" "de_verdict d = ELIDE_STALE"
  shows "\<exists>cid. superseding cx L i = Some cid \<and> de_replacement d = Some (stale_marker (cx_dumps cx) cid)"
  using assms
  by (auto simp: decide_item_def include_decision_def replace_decision_def Let_def
      split: if_splits option.splits Option.bind_splits)

lemma decide_verdicts:
  "de_verdict (fst (decide_item cx L seen i)) \<in> {INCLUDE, REFERENCE, ELIDE_STALE}"
  by (auto simp: decide_item_def include_decision_def replace_decision_def split: option.split)

lemma decide_dialogue:
  "xi_role i \<noteq> lit ''tool'' \<Longrightarrow> de_verdict (fst (decide_item cx L seen i)) = INCLUDE"
  by (simp add: decide_item_def include_decision_def)

text \<open>The text of item \<open>n\<close> reaches the model: it travels itself, or an identical earlier text does.\<close>

definition text_travels :: "CompilerItem list \<Rightarrow> Decision list \<Rightarrow> nat \<Rightarrow> bool" where
  "text_travels items ds n \<longleftrightarrow> n < length items \<and>
     (de_verdict (ds ! n) = INCLUDE \<or>
      (\<exists>j < n. \<exists>cid. de_verdict (ds ! j) = INCLUDE \<and> xi_content (items ! j) = xi_content (items ! n) \<and>
         xi_tool_call_id (items ! j) = Some cid \<and>
         (\<exists>dumps. de_replacement (ds ! n) = Some (reuse_marker dumps cid))))"

lemma call_id_ofD: "call_id_of i = Some c \<Longrightarrow> xi_tool_call_id i = Some c"
  by (simp add: call_id_of_def split: option.splits if_splits)

lemma reference_travels:
  assumes "n < length items" "de_verdict (fst (compile_context cx items) ! n) = REFERENCE"
  shows "text_travels items (fst (compile_context cx items)) n"
proof -
  let ?L = "latest_by_identity (cx_canon cx) items"
  let ?s = "fold (\<lambda>i s. snd (decide_item cx ?L s i)) (take n items) []"
  have ds: "fst (compile_context cx items) = decide_items cx ?L [] items" by (simp add: compile_context_def Let_def)
  have "de_verdict (fst (decide_item cx ?L ?s (items ! n))) = REFERENCE"
    using assms by (simp add: ds decide_items_nth)
  from decide_reference [OF refl this] obtain c e cid where r: "xi_content (items ! n) = Some c" "(c, e) \<in> set ?s"
    "call_id_of e = Some cid"
    "de_replacement (fst (decide_item cx ?L ?s (items ! n))) = Some (reuse_marker (cx_dumps cx) cid)" by blast
  from seen_travels [OF r(2)] assms(1) obtain j where "j < n" "e = items ! j" "xi_content e = Some c"
    "de_verdict (decide_items cx ?L [] items ! j) = INCLUDE" by auto
  with r call_id_ofD [OF r(3)] assms(1) show ?thesis
    unfolding text_travels_def ds by (auto simp: decide_items_nth intro!: exI [of _ j])
qed

lemma travels_or_stale:
  assumes "n < length items" "de_verdict (fst (compile_context cx items) ! n) \<noteq> ELIDE_STALE"
  shows "text_travels items (fst (compile_context cx items)) n"
proof (cases "de_verdict (fst (compile_context cx items) ! n) = REFERENCE")
  case False
  have "de_verdict (fst (compile_context cx items) ! n) \<in> {INCLUDE, REFERENCE, ELIDE_STALE}"
    using assms(1) decide_verdicts by (simp add: compile_context_def Let_def decide_items_nth del: insert_iff)
  with False assms show ?thesis by (auto simp: text_travels_def)
qed (rule reference_travels [OF assms(1)])

lemma stale_is_superseded:
  assumes "n < length items" "\<And>m. m < length items \<Longrightarrow> xi_index (items ! m) = m"
    and "de_verdict (fst (compile_context cx items) ! n) = ELIDE_STALE"
  shows "\<exists>m > n. \<exists>cid. identity_of (cx_canon cx) (items ! m) = identity_of (cx_canon cx) (items ! n) \<and>
    identity_of (cx_canon cx) (items ! n) \<noteq> None \<and>
    xi_content (items ! m) \<noteq> xi_content (items ! n) \<and> xi_tool_call_id (items ! m) = Some cid \<and>
    de_replacement (fst (compile_context cx items) ! n) = Some (stale_marker (cx_dumps cx) cid) \<and>
    text_travels items (fst (compile_context cx items)) m"
proof -
  let ?L = "latest_by_identity (cx_canon cx) items"
  let ?s = "\<lambda>n. fold (\<lambda>i s. snd (decide_item cx ?L s i)) (take n items) []"
  have ds: "fst (compile_context cx items) = decide_items cx ?L [] items" by (simp add: compile_context_def Let_def)
  have "de_verdict (fst (decide_item cx ?L (?s n) (items ! n))) = ELIDE_STALE"
    using assms(1,3) by (simp add: ds decide_items_nth)
  from decide_stale [OF refl this] obtain cid where
    cid: "superseding cx ?L (items ! n) = Some cid"
    "de_replacement (fst (decide_item cx ?L (?s n) (items ! n))) = Some (stale_marker (cx_dumps cx) cid)" by blast
  obtain k l where k: "identity_of (cx_canon cx) (items ! n) = Some k" "map_of ?L k = Some l"
    "xi_index l > xi_index (items ! n)" "xi_content l \<noteq> xi_content (items ! n)" "call_id_of l = Some cid"
    using cid(1) by (auto simp: superseding_def split: option.splits if_splits)
  from latest_last [OF k(2)] obtain m where m: "m < length items" "items ! m = l"
    "identity_of (cx_canon cx) l = Some k"
    "\<forall>j < length items. m < j \<longrightarrow> identity_of (cx_canon cx) (items ! j) \<noteq> Some k" by blast
  have mn: "n < m" using k(3) m(1,2) assms(1,2) by auto
  have "superseding cx ?L (items ! m) = None" using m k by (simp add: superseding_def)
  then have "de_verdict (fst (decide_item cx ?L (?s m) (items ! m))) \<noteq> ELIDE_STALE"
    using decide_stale by fastforce
  then have "text_travels items (fst (compile_context cx items)) m"
    using m(1) by (intro travels_or_stale) (simp_all add: ds decide_items_nth)
  with mn m k cid call_id_ofD [OF k(5)] assms(1) show ?thesis
    by (intro exI [of _ m] exI [of _ cid]) (simp add: ds decide_items_nth)
qed

end
