(* ===== verification/Spec2Isabelle.thy ===== *)
theory Spec2Isabelle imports ActionPolicy PatchProperties LeaseProofs EventBus
  CapabilityPolicy CommandGuard SmartStop RouteHealth RunJournal ContextBus Delegation
  OrchestrationProperties CoreProofs DelegationProofs GrantRequests RoutingProofs ContextCompiler begin

text \<open>
  KaroX is a local runtime through which AI agents (native, hosted in a chat client, or external coding
  tools) reach a user's repository. This development models the part of \<^verbatim>\<open>src/karox\<close> that decides: what an
  agent may do, which changes reach the disk and how they are taken back, who holds a repository, how several
  models are combined to carry out one request, and what their calls may spend. Everything is translated from the Python sources
  into executable HOL functions; the file and function names below are relative to \<^verbatim>\<open>src/karox\<close>.

  \<^bigskip>\<^bold>\<open>Python in HOL.\<close>
  A \<^verbatim>\<open>str\<close> is the list of its code points (\<open>pystr\<close>), an \<^verbatim>\<open>int\<close> an unbounded integer, a \<^verbatim>\<open>float\<close> a real
  number, an insertion-ordered dictionary an association list updated with \<open>AList.update\<close>, a decoded JSON
  or dynamic value a \<open>pyval\<close>, a dataclass a record, an enumeration or tagged result a datatype, and a raised
  exception the \<open>Inl\<close> side of a sum. Code that changes shared state and may raise is a step of
  \<open>StateError\<close>: the state it leaves is kept whether it returns or raises. The shared parts are
    \<^item> \<open>KaroxPrelude\<close>: the types above, dictionaries, validation steps, \<^verbatim>\<open>str\<close> operations over an argument that
      stands for the Unicode database, the named theorem collections;
    \<^item> \<open>PyText\<close> (line splitting, UTF-8, stripping), \<open>PyConvert\<close> (\<^verbatim>\<open>str()\<close>, \<^verbatim>\<open>int()\<close>, \<^verbatim>\<open>float()\<close>), \<open>PyRegex\<close> (search
      and substitution for the regular expressions that occur), \<open>Identifiers\<close> (the identifier patterns);
    \<^item> \<open>JsonStore\<close>: the versioned JSON files; \<open>StateError\<close>: state-changing steps with errors and the triple
      rules that reason about them.

  \<^bigskip>\<^bold>\<open>Authority.\<close>
    \<^item> \<open>RiskEngine\<close> (\<^verbatim>\<open>risk_engine.py\<close>): the level of an action, its digest, the preview shown to the user, and
      the ledger of one-shot confirmations. \<open>ActionPolicy\<close> (\<^verbatim>\<open>action_policy.py\<close>): consequence classes, the
      decision for an action given what the user asked for, and its authorization through the same ledger.
      What both rely on is the locale \<open>one_shot_ledger\<close> of \<open>LedgerInterface\<close>, extended to \<open>issuing_ledger\<close> and
      interpreted on the risk ledger: no token is accepted twice, and only for what it was issued for.
    \<^item> \<open>CapabilityPolicy\<close> (\<^verbatim>\<open>policy.py\<close>, \<^verbatim>\<open>models.py\<close>): profiles, grants and one-shot approvals.
      \<open>CommandGuard\<close> (\<^verbatim>\<open>command_guard.py\<close>): the argument vectors a hosted agent may run. \<open>Security\<close>
      (\<^verbatim>\<open>security.py\<close>): what redaction removes from texts and environments.
    \<^item> \<open>RiskMapping\<close> (\<^verbatim>\<open>risk_mapping.py\<close>): the action, with its kind and targets, a tool command stands for;
      the Git classifier is shown to stop destructive subcommands wherever their options are placed.

  \<^bigskip>\<^bold>\<open>The core boundary.\<close> Every tool call of an agent goes through \<^verbatim>\<open>KaroXCore.execute\<close>.
    \<^item> \<open>Sessions\<close> (\<^verbatim>\<open>sessions.py\<close>): the session documents, the mutation lease with its expiry, fenced saves, the
      idempotency keys and the life cycle. \<open>SessionProofs\<close> shows that work under a key runs once for any
      interleaving of clients, and gives the second interpretation of \<open>exclusive_lease\<close>.
    \<^item> \<open>CoreModels\<close> (\<^verbatim>\<open>models.py\<close>, schemas of \<^verbatim>\<open>core.py\<close>) and \<open>CoreRuntime\<close> (\<^verbatim>\<open>execute\<close> of \<^verbatim>\<open>core.py\<close>, the
      consequence gate of \<^verbatim>\<open>action_execution.py\<close>): the order of the checks before a handler, the call, and what
      is recorded after it. \<open>CoreProofs\<close> shows which checks every call has passed, when a human must have
      confirmed it, and that a mutation is not repeated. The clock is read once per execution and an execution
      is one step of its session; what other clients do comes between executions.

  \<^bigskip>\<^bold>\<open>Changes to a repository.\<close>
    \<^item> \<open>WorkspaceTransaction\<close> (\<^verbatim>\<open>workspace_transaction.py\<close>): staging, preview, the commit loop and its rollback
      over a disk that may fail at any operation; writing a file through its temporary file is one such
      operation. \<open>TransactionProofs\<close> shows that a commit that returns carries out the staged state, and which
      three disks one that raises can leave: the old one, an incomplete rollback that is reported, or, when
      only the final reading back of the files failed, the new one.
    \<^item> \<open>UnifiedPatch\<close> (\<^verbatim>\<open>unified_patch.py\<close>): the strict patch parser and applier; \<open>PatchProofs\<close> and
      \<open>PatchProperties\<close> relate it to the text a patch describes.
    \<^item> \<open>RepositoryLease\<close> (\<^verbatim>\<open>repository_lease.py\<close>): who may mutate a repository, across processes that crash;
      \<open>LeaseProofs\<close> interprets the locale \<open>exclusive_lease\<close> of \<open>LeaseInterface\<close> on its operations.
    \<^item> \<open>EventBus\<close> (\<^verbatim>\<open>event_bus.py\<close>): the bounded log of what happened, an interpretation of the locale
      \<open>numbered_log\<close> of \<open>LogInterface\<close>. \<open>SmartStop\<close> (\<^verbatim>\<open>smart_stop.py\<close>) halts an agent that makes no progress,
      \<open>RouteHealth\<close> (\<^verbatim>\<open>route_health.py\<close>) decides when a public route counts as lost.

  \<^bigskip>\<^bold>\<open>Orchestration.\<close> One request is planned over several models and run with a journal.
    \<^item> \<open>IntelligencePool\<close> (\<^verbatim>\<open>intelligence_pool.py\<close>, \<^verbatim>\<open>quota_brain.py\<close>, the records of \<^verbatim>\<open>registry.py\<close> they
      read): the endpoints and what is left of their quotas. \<open>SmartRouter\<close> (\<^verbatim>\<open>orchestration_routing.py\<close>): telemetry and the choice
      of an endpoint for a step. \<open>Recipes\<close> (\<^verbatim>\<open>orchestration_recipes.py\<close>, \<^verbatim>\<open>recipe_registry.py\<close>).
    \<^item> \<open>OrchestratorPlan\<close> (\<^verbatim>\<open>Orchestrator.plan\<close> of \<^verbatim>\<open>orchestrator.py\<close>) chooses an endpoint for every step of a
      recipe; \<open>Delegation\<close> (\<^verbatim>\<open>orchestrator_delegation.py\<close>) lets a model propose the choice within limits.
    \<^item> \<open>RunJournal\<close> (\<^verbatim>\<open>orchestration_recovery.py\<close>), \<open>ContextBus\<close> (\<^verbatim>\<open>context_bus.py\<close>), \<open>AgentProtocol\<close>
      (\<^verbatim>\<open>agent_protocol.py\<close>), \<open>MissionControl\<close> (\<^verbatim>\<open>mission_control.py\<close>) and \<open>EconomyEngine\<close>
      (\<^verbatim>\<open>economy_engine.py\<close>): the crash-safe journal, the context workers share, the messages they exchange, the
      state a phone can read and steer, and the savings receipts.
    \<^item> \<open>TopologicalOrder\<close> and \<open>OrchestrationRuntime\<close> (\<^verbatim>\<open>OrchestrationRuntime\<close> of \<^verbatim>\<open>orchestrator.py\<close>): a run,
      serial or in parallel waves. \<open>Dispatch\<close> is its specification, a machine over the calls and their results
      alone; \<open>RuntimeProofs\<close> and \<open>WaveProofs\<close> show that every log of the coordinator is a run of that machine,
      and \<open>OrchestrationProperties\<close> draws the conclusions and shows how pause, resume and stop act.
    \<^item> \<open>ContextCompiler\<close> (\<^verbatim>\<open>context_compiler.py\<close>): which tool results of a request are replaced by a marker; its
      lemmas show that a text that does not travel is one an earlier item carries or a later result of the
      same call has replaced.
  The files all these modules keep are instances of the locale \<open>json_rows\<close> of \<open>JsonStore\<close>: rows with a key,
  written and read back, interpreted on the journal, the telemetry, the bus, the messages, the recipes and
  the quota observations.

  \<^bigskip>\<^bold>\<open>Calls of models.\<close> Which model answers, and on whose money.
    \<^item> \<open>FnMatch\<close> and \<open>ModelGrants\<close> (\<^verbatim>\<open>model_grants.py\<close>): what a user lets an agent spend, the ledger of grants
      and reservations, and the delegator that makes a call under a grant. \<open>GrantProofs\<close> states the locale
      \<open>meter\<close>, a counter that is the sum over reservation rows, and interprets it for money, input tokens and
      output tokens: the books balance and no grant is overspent.
    \<^item> \<open>DelegatedCalls\<close> (\<^verbatim>\<open>delegated_provider.py\<close>, the delegator) and \<open>DelegationProofs\<close>: calls that reserve,
      send and settle, one after the other, with any ledger operations between them. Two clients inside one
      call are not covered, and \<open>reserved_twice\<close> shows what then goes wrong.
    \<^item> \<open>GrantRequests\<close> (\<^verbatim>\<open>model_grant_requests.py\<close>): the queue in which an agent asks and a local user decides.
    \<^item> \<open>ProviderRegistry\<close> (\<^verbatim>\<open>registry.py\<close>) and \<open>RegistryProofs\<close>: providers, models, aliases and the selection. Each
      operation is one step here; \<open>stale_write_rearms\<close> shows what two unlocked writers can do.
    \<^item> \<open>ModelEvents\<close> (errors, responses and the accumulation of stream events of \<^verbatim>\<open>providers.py\<close>), \<open>ModelRouting\<close>
      (\<^verbatim>\<open>routing.py\<close>) and \<open>RoutingProofs\<close>: a call, blocking or streamed, over the routes of a policy, with its
      checks, retries, fallbacks and accounting. The registry does not change during a routed call.

  \<^bigskip>\<^bold>\<open>Arguments of the model.\<close> Outside the modelled part, and so arguments of the definitions that use them:
  SHA-256 and token hashes, \<^verbatim>\<open>json.loads\<close> of a model's answer, random identifiers, the clock and its jitter, the
  Unicode database, the process table, the workers, the handlers of the tools with the preparation of their
  inputs, the reviewer of mutations, the binding of external tools, what providers answer and what they cost,
  and the parts of a URL. What is assumed of one of them is a premise of the theorem that needs
  it and its witness exhibits an instance. Python's arithmetic on floats is taken to be exact.

  \<^bigskip>\<^bold>\<open>Bounds and fuel.\<close> Recursion is structural or has a termination proof, with two exceptions. The loop over
  the waves of a parallel run takes fuel: \<open>runs_terminate\<close> shows that one round per pending step always
  suffices, since every round settles a step. Waiting for a paused run to be resumed is a recursion over what
  the user sends in the polls that are left; a run that exhausts them is the value that stands for a run that
  is still waiting, and \<open>the_user_is_obeyed\<close> shows which commands lead to it and which end the wait.

  \<^bigskip>\<^bold>\<open>Not modelled.\<close> A write of a JSON file succeeds and is one step; two processes writing the same run
  files at once are not considered, except for the repository leases and the sessions, where they are the
  point. The JSON text and checksums of sessions, registry and grants, and the SQLite connection under the
  grant ledger, are not modelled: a document is the value it was written from and a table a dictionary in row
  order. A wave calls its
  workers in plan order instead of concurrently. The Git worktree pool enters through the outcome of
  its operations. The rest of the package is user interface, transport, process supervision, key rings
  and browsers: its decisions are small beside its input and output and it is left out, with the reason
  in the manifest of components.
\<close>

end
